(* ===== verification/Py_Base.thy ===== *)
theory Py_Base
  imports
    Complex_Main
    "HOL-Library.AList"
    "HOL-Library.Char_ord"
    "HOL-Library.List_Lexorder"
    "HOL-Library.Product_Lexorder"
begin

text \<open>
  The prelude of the development: the Python values the egress engine computes with, and
  the parts of the language and its standard library that the other theories share.

  \<^item> \<open>pyval\<close> is a Python object as the code sees it: the JSON values (a node, a state
    document and a request are dictionaries read from JSON). A dictionary is an
    association list in insertion order with distinct keys; a float is an exact rational,
    an infinity or NaN, so rounding is not part of the model.
  \<^item> Strings are lists of code points below 256. \<open>py_upper\<close>, \<open>py_lower\<close>, \<open>py_strip\<close>
    and \<open>py_isalpha\<close> follow Python on that range, except that the three letters whose
    upper case lies outside it (micro sign, sharp s, y with diaeresis) are left alone.
  \<^item> \<open>py_str\<close> is \<open>str(value)\<close>; the text of a float or of a container is left
    unspecified, so nothing can be proved from it.
  \<^item> The conversions \<open>int(...)\<close> and \<open>float(...)\<close> return the exception as a value.
\<close>

section \<open>Values\<close>

datatype flt = Fin rat | PosInf | NegInf | NaN

datatype pyval =
    PNone
  | PBool bool
  | PInt int
  | PFloat flt
  | PStr string
  | PList "pyval list"
  | PDict "(string \<times> pyval) list"

type_synonym pydict = "(string \<times> pyval) list"

text \<open>The exceptions the modelled code raises or catches.\<close>

datatype pyexc =
    ValueError | TypeError | KeyError | IndexError | AttributeError
  | OverflowError | OSError | RuntimeError

named_theorems py_simps \<open>evaluation rules of the Python value model\<close>
named_theorems dict_simps \<open>reading a dictionary after an update\<close>

section \<open>Truth values and the or operator\<close>

fun truthy :: "pyval \<Rightarrow> bool" where
  "truthy PNone = False"
| "truthy (PBool b) = b"
| "truthy (PInt i) = (i \<noteq> 0)"
| "truthy (PFloat f) = (f \<noteq> Fin 0)"
| "truthy (PStr s) = (s \<noteq> [])"
| "truthy (PList xs) = (xs \<noteq> [])"
| "truthy (PDict d) = (d \<noteq> [])"

definition py_or :: "pyval \<Rightarrow> pyval \<Rightarrow> pyval" where
  "py_or a b = (if truthy a then a else b)"

lemma py_or_simps [simp, py_simps]:
  "py_or PNone b = b"
  "py_or (PStr s) b = (if s = [] then b else PStr s)"
  "py_or (PInt i) b = (if i = 0 then b else PInt i)"
  by (simp_all add: py_or_def)

section \<open>Dictionaries\<close>

definition dget :: "pydict \<Rightarrow> string \<Rightarrow> pyval option" where
  "dget d k = map_of d k"

text \<open>\<open>d.get(k)\<close> and \<open>d.get(k, default)\<close>.\<close>

definition dget_or :: "pydict \<Rightarrow> string \<Rightarrow> pyval \<Rightarrow> pyval" where
  "dget_or d k v = (case dget d k of None \<Rightarrow> v | Some w \<Rightarrow> w)"

abbreviation dgetN :: "pydict \<Rightarrow> string \<Rightarrow> pyval" where
  "dgetN d k \<equiv> dget_or d k PNone"

text \<open>\<open>d[k] = v\<close> keeps the place of an existing key, \<open>d.pop(k, None)\<close> removes it.\<close>

definition dset :: "pydict \<Rightarrow> string \<Rightarrow> pyval \<Rightarrow> pydict" where
  "dset d k v = AList.update k v d"

definition dpop :: "pydict \<Rightarrow> string \<Rightarrow> pydict" where
  "dpop d k = AList.delete k d"

text \<open>\<open>d.update(e)\<close>.\<close>

fun dupdate :: "pydict \<Rightarrow> pydict \<Rightarrow> pydict" where
  "dupdate d [] = d"
| "dupdate d ((k, v) # e) = dupdate (dset d k v) e"

definition dkeys :: "pydict \<Rightarrow> string set" where
  "dkeys d = fst ` set d"

definition dhas :: "pydict \<Rightarrow> string \<Rightarrow> bool" where
  "dhas d k = (dget d k \<noteq> None)"

definition wf_dict :: "pydict \<Rightarrow> bool" where
  "wf_dict d = distinct (map fst d)"

lemma dget_Nil [simp, dict_simps]: "dget [] k = None"
  by (simp add: dget_def)

lemma dget_Cons [simp, dict_simps]:
  "dget ((k', v) # d) k = (if k' = k then Some v else dget d k)"
  by (simp add: dget_def)

lemma dget_dset [simp, dict_simps]:
  "dget (dset d k v) k' = (if k' = k then Some v else dget d k')"
  by (simp add: dget_def dset_def update_conv)

lemma dget_dpop [simp, dict_simps]:
  "dget (dpop d k) k' = (if k' = k then None else dget d k')"
  by (simp add: dget_def dpop_def delete_conv)

lemma dget_or_simps [dict_simps]:
  "dget d k = Some v \<Longrightarrow> dget_or d k w = v"
  "dget d k = None \<Longrightarrow> dget_or d k w = w"
  by (simp_all add: dget_or_def)

lemma dget_or_dset [simp, dict_simps]:
  "dget_or (dset d k v) k' w = (if k' = k then v else dget_or d k' w)"
  by (simp add: dget_or_def)

lemma dget_or_dpop [simp, dict_simps]:
  "dget_or (dpop d k) k' w = (if k' = k then w else dget_or d k' w)"
  by (simp add: dget_or_def)

lemma dget_or_Nil [simp, dict_simps]: "dget_or [] k w = w"
  by (simp add: dget_or_def)

lemma dget_or_Cons [simp, dict_simps]:
  "dget_or ((k', v) # d) k w = (if k' = k then v else dget_or d k w)"
  by (simp add: dget_or_def)

lemma dhas_dset [simp, dict_simps]: "dhas (dset d k v) k' = (k' = k \<or> dhas d k')"
  by (auto simp: dhas_def)

lemma dhas_dpop [simp, dict_simps]: "dhas (dpop d k) k' = (k' \<noteq> k \<and> dhas d k')"
  by (auto simp: dhas_def)

lemma dkeys_dget: "dkeys d = {k. dget d k \<noteq> None}"
  by (auto simp: dkeys_def dget_def map_of_eq_None_iff)

lemma dkeys_dset [simp, dict_simps]: "dkeys (dset d k v) = insert k (dkeys d)"
  by (auto simp: dkeys_dget)

lemma dkeys_dpop [simp, dict_simps]: "dkeys (dpop d k) = dkeys d - {k}"
  by (auto simp: dkeys_dget)

lemma dkeys_Nil [simp]: "dkeys [] = {}"
  by (simp add: dkeys_def)

lemma dkeys_Cons [simp]: "dkeys ((k, v) # d) = insert k (dkeys d)"
  by (simp add: dkeys_def)

lemma wf_dict_dset [simp, intro]: "wf_dict d \<Longrightarrow> wf_dict (dset d k v)"
  by (simp add: wf_dict_def dset_def distinct_update)

lemma wf_dict_dpop [simp, intro]: "wf_dict d \<Longrightarrow> wf_dict (dpop d k)"
  by (simp add: wf_dict_def dpop_def distinct_delete)

lemma wf_dict_Nil [simp]: "wf_dict []"
  by (simp add: wf_dict_def)

lemma wf_dict_Cons [simp]: "wf_dict ((k, v) # d) = (k \<notin> dkeys d \<and> wf_dict d)"
  by (auto simp: wf_dict_def dkeys_def)

lemma set_dset:
  "wf_dict d \<Longrightarrow> set (dset d k v) = insert (k, v) {p \<in> set d. fst p \<noteq> k}"
  unfolding dset_def wf_dict_def by (induction d) (force simp: image_iff)+

lemma set_dget: "wf_dict d \<Longrightarrow> (k, v) \<in> set d \<longleftrightarrow> dget d k = Some v"
  by (simp add: wf_dict_def dget_def)

section \<open>Strings\<close>

definition chr_code :: "char \<Rightarrow> nat" where
  "chr_code c = of_char c"

definition py_isspace_char :: "char \<Rightarrow> bool" where
  "py_isspace_char c = (let n = chr_code c in
     (9 \<le> n \<and> n \<le> 13) \<or> (28 \<le> n \<and> n \<le> 32) \<or> n = 133 \<or> n = 160)"

definition py_upper_char :: "char \<Rightarrow> char" where
  "py_upper_char c = (let n = chr_code c in
     if (97 \<le> n \<and> n \<le> 122) \<or> (224 \<le> n \<and> n \<le> 254 \<and> n \<noteq> 247)
     then char_of (n - 32) else c)"

definition py_lower_char :: "char \<Rightarrow> char" where
  "py_lower_char c = (let n = chr_code c in
     if (65 \<le> n \<and> n \<le> 90) \<or> (192 \<le> n \<and> n \<le> 222 \<and> n \<noteq> 215)
     then char_of (n + 32) else c)"

definition py_isalpha_char :: "char \<Rightarrow> bool" where
  "py_isalpha_char c = (let n = chr_code c in
     (65 \<le> n \<and> n \<le> 90) \<or> (97 \<le> n \<and> n \<le> 122) \<or> n = 170 \<or> n = 181 \<or> n = 186
     \<or> (192 \<le> n \<and> n \<noteq> 215 \<and> n \<noteq> 247))"

definition ascii_char :: "char \<Rightarrow> bool" where
  "ascii_char c = (chr_code c < 128)"

text \<open>\<open>secrets.compare_digest\<close> on strings refuses characters outside ASCII.\<close>

definition compare_digest :: "string \<Rightarrow> string \<Rightarrow> pyexc + bool" where
  "compare_digest a b = (if list_all ascii_char a \<and> list_all ascii_char b then Inr (a = b)
     else Inl TypeError)"

definition ascii_upper_char :: "char \<Rightarrow> bool" where
  "ascii_upper_char c = (65 \<le> chr_code c \<and> chr_code c \<le> 90)"

definition ascii_lower_char :: "char \<Rightarrow> bool" where
  "ascii_lower_char c = (97 \<le> chr_code c \<and> chr_code c \<le> 122)"

definition digit_char :: "char \<Rightarrow> bool" where
  "digit_char c = (48 \<le> chr_code c \<and> chr_code c \<le> 57)"

definition py_upper :: "string \<Rightarrow> string" where
  "py_upper s = map py_upper_char s"

definition py_lower :: "string \<Rightarrow> string" where
  "py_lower s = map py_lower_char s"

definition py_lstrip :: "string \<Rightarrow> string" where
  "py_lstrip s = dropWhile py_isspace_char s"

definition py_strip :: "string \<Rightarrow> string" where
  "py_strip s = rev (dropWhile py_isspace_char (rev (py_lstrip s)))"

definition py_isalpha :: "string \<Rightarrow> bool" where
  "py_isalpha s = (s \<noteq> [] \<and> list_all py_isalpha_char s)"

definition starts_with :: "string \<Rightarrow> string \<Rightarrow> bool" where
  "starts_with p s = (take (length p) s = p)"

text \<open>\<open>needle in haystack\<close> on strings.\<close>

fun py_contains :: "string \<Rightarrow> string \<Rightarrow> bool" where
  "py_contains p [] = (p = [])"
| "py_contains p (c # s) = (starts_with p (c # s) \<or> py_contains p s)"

text \<open>\<open>s.partition(c)\<close> and \<open>s.rpartition(c)\<close> for a separator of one character: the part
  before, whether the separator occurs, the part after.\<close>

fun py_partition :: "char \<Rightarrow> string \<Rightarrow> string \<times> bool \<times> string" where
  "py_partition c [] = ([], False, [])"
| "py_partition c (x # s) =
     (if x = c then ([], True, s)
      else (case py_partition c s of (a, f, b) \<Rightarrow> (x # a, f, b)))"

definition py_rpartition :: "char \<Rightarrow> string \<Rightarrow> string \<times> bool \<times> string" where
  "py_rpartition c s = (case py_partition c (rev s) of
     (a, f, b) \<Rightarrow> if f then (rev b, True, rev a) else ([], False, s))"

fun py_split :: "char \<Rightarrow> string \<Rightarrow> string list" where
  "py_split c [] = [[]]"
| "py_split c (x # s) =
     (if x = c then [] # py_split c s
      else (case py_split c s of [] \<Rightarrow> [[x]] | w # ws \<Rightarrow> (x # w) # ws))"

text \<open>\<open>s.split()\<close>: the maximal runs of characters that are not white space.\<close>

fun py_words_aux :: "string \<Rightarrow> string \<Rightarrow> string list" where
  "py_words_aux w [] = (if w = [] then [] else [rev w])"
| "py_words_aux w (c # s) =
     (if py_isspace_char c then (if w = [] then py_words_aux [] s else rev w # py_words_aux [] s)
      else py_words_aux (c # w) s)"

definition py_words :: "string \<Rightarrow> string list" where
  "py_words s = py_words_aux [] s"

definition line_break_char :: "char \<Rightarrow> bool" where
  "line_break_char c = (let n = chr_code c in
     (10 \<le> n \<and> n \<le> 13) \<or> (28 \<le> n \<and> n \<le> 30) \<or> n = 133)"

text \<open>\<open>s.splitlines()\<close>: a carriage return and line feed pair is one break, and a break at
  the end opens no further line.\<close>

fun py_splitlines_aux :: "string \<Rightarrow> string \<Rightarrow> string list" where
  "py_splitlines_aux w [] = (if w = [] then [] else [rev w])"
| "py_splitlines_aux w (c # s) =
     (if chr_code c = 13 \<and> s \<noteq> [] \<and> chr_code (hd s) = 10 then py_splitlines_aux w s
      else if line_break_char c then rev w # py_splitlines_aux [] s
      else py_splitlines_aux (c # w) s)"

definition py_splitlines :: "string \<Rightarrow> string list" where
  "py_splitlines s = py_splitlines_aux [] s"

lemma py_strip_Nil [simp, py_simps]: "py_strip [] = []"
  by (simp add: py_strip_def py_lstrip_def)

lemma py_upper_Nil [simp, py_simps]: "py_upper [] = []"
  by (simp add: py_upper_def)

lemma length_py_upper [simp]: "length (py_upper s) = length s"
  by (simp add: py_upper_def)

lemma length_py_lower [simp]: "length (py_lower s) = length s"
  by (simp add: py_lower_def)

lemma dropWhile_idem [simp]: "dropWhile P (dropWhile P s) = dropWhile P s"
  by (induction s) auto

lemma hd_rev_dropWhile_rev:
  assumes "s = [] \<or> \<not> P (hd s)"
  shows "dropWhile P (rev (dropWhile P (rev s))) = rev (dropWhile P (rev s))"
proof -
  obtain w where w: "rev s = w @ dropWhile P (rev s)"
    by (metis takeWhile_dropWhile_id)
  let ?t = "dropWhile P (rev s)"
  from w have s: "s = rev ?t @ rev w" by (metis rev_append rev_rev_ident)
  show ?thesis
  proof (cases "rev ?t")
    case Nil
    then show ?thesis by (simp only: Nil dropWhile.simps)
  next
    case (Cons a list)
    with s have "hd s = a" "s \<noteq> []" by (metis append_Cons list.sel(1), metis append_Cons list.distinct(1))
    with assms have "\<not> P a" by simp
    with Cons show ?thesis by simp
  qed
qed

lemma py_strip_idem [simp]: "py_strip (py_strip s) = py_strip s"
proof -
  let ?P = "py_isspace_char"
  have "py_lstrip s = [] \<or> \<not> ?P (hd (py_lstrip s))"
    unfolding py_lstrip_def by (metis hd_dropWhile)
  then show ?thesis
    unfolding py_strip_def py_lstrip_def by (simp add: hd_rev_dropWhile_rev)
qed

lemma length_py_strip: "length (py_strip s) \<le> length s"
  unfolding py_strip_def py_lstrip_def
  by (simp add: le_trans[OF length_dropWhile_le])

lemma set_dropWhile_subset: "set (dropWhile P s) \<subseteq> set s"
  by (induction s) auto

lemma set_py_strip: "set (py_strip s) \<subseteq> set s"
proof -
  have "set (dropWhile py_isspace_char (rev (py_lstrip s))) \<subseteq> set (py_lstrip s)"
    by (metis set_dropWhile_subset set_rev)
  moreover have "set (py_lstrip s) \<subseteq> set s"
    unfolding py_lstrip_def by (rule set_dropWhile_subset)
  ultimately show ?thesis by (auto simp: py_strip_def)
qed

lemma py_partition_eq:
  "py_partition c s = (takeWhile (\<lambda>x. x \<noteq> c) s, c \<in> set s, tl (dropWhile (\<lambda>x. x \<noteq> c) s))"
  by (induction s) auto

lemma py_partition_found:
  "py_partition c s = (a, True, b) \<longleftrightarrow> s = a @ c # b \<and> c \<notin> set a"
proof
  assume h: "py_partition c s = (a, True, b)"
  then have c: "c \<in> set s" and a: "a = takeWhile (\<lambda>x. x \<noteq> c) s"
    and b: "b = tl (dropWhile (\<lambda>x. x \<noteq> c) s)" by (simp_all add: py_partition_eq)
  from c have ne: "dropWhile (\<lambda>x. x \<noteq> c) s \<noteq> []" by auto
  then have "hd (dropWhile (\<lambda>x. x \<noteq> c) s) = c" by (metis (mono_tags, lifting) hd_dropWhile)
  with ne b have "dropWhile (\<lambda>x. x \<noteq> c) s = c # b" by (metis list.collapse)
  with a have "s = a @ c # b" by (metis takeWhile_dropWhile_id)
  moreover have "c \<notin> set a" unfolding a by (metis (mono_tags, lifting) set_takeWhileD)
  ultimately show "s = a @ c # b \<and> c \<notin> set a" by simp
next
  assume "s = a @ c # b \<and> c \<notin> set a"
  then show "py_partition c s = (a, True, b)"
    by (induction a arbitrary: s) auto
qed

lemma py_partition_none: "c \<notin> set s \<Longrightarrow> py_partition c s = (s, False, [])"
  by (induction s) auto

lemma py_partition_absent:
  "py_partition c s = (a, False, b) \<longleftrightarrow> c \<notin> set s \<and> a = s \<and> b = []"
proof (cases "c \<in> set s")
  case True
  then show ?thesis by (simp add: py_partition_eq)
next
  case False
  then show ?thesis by (auto simp: py_partition_none)
qed

lemma py_rpartition_found:
  "py_rpartition c s = (a, True, b) \<longleftrightarrow> s = a @ c # b \<and> c \<notin> set b"
proof -
  obtain x f y where p: "py_partition c (rev s) = (x, f, y)" by (cases "py_partition c (rev s)")
  show ?thesis
  proof (cases f)
    case True
    with p have r: "rev s = x @ c # y \<and> c \<notin> set x" by (simp add: py_partition_found)
    then have s: "s = rev y @ c # rev x" by (metis append.assoc append_Cons append_Nil rev.simps(2) rev_append rev_rev_ident)
    show ?thesis
    proof
      assume "py_rpartition c s = (a, True, b)"
      with p True have "a = rev y" "b = rev x" by (auto simp: py_rpartition_def)
      with s r show "s = a @ c # b \<and> c \<notin> set b" by simp
    next
      assume h: "s = a @ c # b \<and> c \<notin> set b"
      then have "py_partition c (rev s) = (rev b, True, rev a)"
        by (simp add: py_partition_found)
      then show "py_rpartition c s = (a, True, b)" by (simp add: py_rpartition_def)
    qed
  next
    case False
    with p have "c \<notin> set s" by (simp add: py_partition_absent)
    with p False show ?thesis by (auto simp: py_rpartition_def)
  qed
qed

section \<open>Decimal numerals\<close>

definition digit_of_nat :: "nat \<Rightarrow> char" where
  "digit_of_nat n = char_of (48 + n)"

definition nat_of_digit :: "char \<Rightarrow> nat" where
  "nat_of_digit c = chr_code c - 48"

fun nat_str :: "nat \<Rightarrow> string" where
  "nat_str n = (if n < 10 then [digit_of_nat n] else nat_str (n div 10) @ [digit_of_nat (n mod 10)])"

declare nat_str.simps [simp del]

definition int_str :: "int \<Rightarrow> string" where
  "int_str i = (if i < 0 then CHR ''-'' # nat_str (nat (- i)) else nat_str (nat i))"

definition digits_val :: "string \<Rightarrow> nat" where
  "digits_val s = foldl (\<lambda>n c. 10 * n + nat_of_digit c) 0 s"

text \<open>The digits of a numeral, where single underscores may stand between digits.\<close>

fun numeral_digits :: "string \<Rightarrow> string option" where
  "numeral_digits [] = None"
| "numeral_digits [c] = (if digit_char c then Some [c] else None)"
| "numeral_digits (c # d # s) =
     (if \<not> digit_char c then None
      else if d = CHR ''_'' then map_option ((#) c) (numeral_digits s)
      else map_option ((#) c) (numeral_digits (d # s)))"

definition sign_split :: "string \<Rightarrow> int \<times> string" where
  "sign_split s = (case s of
     [] \<Rightarrow> (1, [])
   | c # t \<Rightarrow> if c = CHR ''-'' then (-1, t) else if c = CHR ''+'' then (1, t) else (1, s))"

text \<open>\<open>int(s)\<close> on a string.\<close>

definition int_of_str :: "string \<Rightarrow> int option" where
  "int_of_str s = (case sign_split (py_strip s) of
     (sg, t) \<Rightarrow> map_option (\<lambda>ds. sg * int (digits_val ds)) (numeral_digits t))"

text \<open>\<open>s.isdigit()\<close> also accepts the three superscript digits, which \<open>int\<close> rejects.\<close>

definition py_isdigit :: "string \<Rightarrow> bool" where
  "py_isdigit s = (s \<noteq> [] \<and> list_all (\<lambda>c. digit_char c \<or> chr_code c \<in> {178, 179, 185}) s)"

lemma digit_char_digit_of_nat [simp]: "n < 10 \<Longrightarrow> digit_char (digit_of_nat n)"
  by (simp add: digit_char_def digit_of_nat_def chr_code_def)

lemma nat_of_digit_of_nat [simp]: "n < 10 \<Longrightarrow> nat_of_digit (digit_of_nat n) = n"
  by (simp add: nat_of_digit_def digit_of_nat_def chr_code_def)

lemma nat_str_nonempty [simp]: "nat_str n \<noteq> []"
  by (subst nat_str.simps) simp

lemma nat_str_digits: "list_all digit_char (nat_str n)"
proof (induction n rule: nat_str.induct)
  case (1 n)
  then show ?case by (cases "n < 10") (simp_all add: nat_str.simps [of n])
qed

lemma digits_val_nat_str [simp]: "digits_val (nat_str n) = n"
proof (induction n rule: nat_str.induct)
  case (1 n)
  show ?case
  proof (cases "n < 10")
    case True
    then show ?thesis by (simp add: nat_str.simps [of n] digits_val_def)
  next
    case False
    with 1 have "digits_val (nat_str (n div 10)) = n div 10" by simp
    with False show ?thesis
      by (subst nat_str.simps) (simp add: digits_val_def)
  qed
qed

lemma numeral_digits_plain:
  "s \<noteq> [] \<Longrightarrow> list_all digit_char s \<Longrightarrow> numeral_digits s = Some s"
proof (induction s rule: numeral_digits.induct)
  case (3 c d s)
  then have "d \<noteq> CHR ''_''" by (auto simp: digit_char_def chr_code_def)
  with 3 show ?case by simp
qed auto

lemma digit_not_space: "digit_char c \<Longrightarrow> \<not> py_isspace_char c"
  by (auto simp: digit_char_def py_isspace_char_def Let_def)

lemma dropWhile_none: "s = [] \<or> \<not> P (hd s) \<Longrightarrow> dropWhile P s = s"
  by (cases s) auto

lemma py_strip_no_space:
  "s = [] \<or> (\<not> py_isspace_char (hd s) \<and> \<not> py_isspace_char (last s)) \<Longrightarrow> py_strip s = s"
  by (auto simp: py_strip_def py_lstrip_def dropWhile_none hd_rev)

lemma int_of_str_int_str: "int_of_str (int_str i) = Some i"
proof -
  have dig: "list_all digit_char (nat_str n)" for n by (rule nat_str_digits)
  have d: "digit_char (hd (nat_str n))" "digit_char (last (nat_str n))" for n
    using dig[of n] by (simp_all add: list_all_iff)
  have "\<not> py_isspace_char (CHR ''-'')" by (simp add: py_isspace_char_def chr_code_def)
  then have strip: "py_strip (int_str i) = int_str i"
    using d digit_not_space by (intro py_strip_no_space) (simp add: int_str_def)
  have nosign: "sign_split (nat_str n) = (1, nat_str n)" for n
  proof -
    obtain c t where ct: "nat_str n = c # t" by (cases "nat_str n") auto
    with d(1)[of n] have "c \<noteq> CHR ''-'' \<and> c \<noteq> CHR ''+''"
      by (auto simp: digit_char_def chr_code_def)
    with ct show ?thesis by (simp add: sign_split_def)
  qed
  show ?thesis
  proof (cases "i < 0")
    case True
    then have "sign_split (int_str i) = (-1, nat_str (nat (- i)))"
      by (simp add: int_str_def sign_split_def)
    with strip True show ?thesis
      by (simp add: int_of_str_def numeral_digits_plain dig)
  next
    case False
    then have "sign_split (int_str i) = (1, nat_str (nat i))"
      by (simp add: int_str_def nosign)
    with strip False show ?thesis
      by (simp add: int_of_str_def numeral_digits_plain dig)
  qed
qed

section \<open>Conversions\<close>

text \<open>\<open>str(v)\<close>. The text of a float and of a container stays unspecified.\<close>

fun py_str :: "pyval \<Rightarrow> string" where
  "py_str PNone = ''None''"
| "py_str (PBool b) = (if b then ''True'' else ''False'')"
| "py_str (PInt i) = int_str i"
| "py_str (PStr s) = s"
| "py_str v = (undefined :: pyval \<Rightarrow> string) v"

text \<open>The idiom \<open>str(v or "")\<close>.\<close>

definition str_or_empty :: "pyval \<Rightarrow> string" where
  "str_or_empty v = py_str (py_or v (PStr []))"

lemma str_or_empty_simps [simp, py_simps]:
  "str_or_empty PNone = []"
  "str_or_empty (PStr s) = s"
  by (simp_all add: str_or_empty_def)

text \<open>Truncation toward zero, as \<open>int(x)\<close> does on a float.\<close>

definition rat_trunc :: "rat \<Rightarrow> int" where
  "rat_trunc r = (if r < 0 then - \<lfloor>- r\<rfloor> else \<lfloor>r\<rfloor>)"

fun py_int :: "pyval \<Rightarrow> pyexc + int" where
  "py_int (PInt i) = Inr i"
| "py_int (PBool b) = Inr (if b then 1 else 0)"
| "py_int (PFloat (Fin r)) = Inr (rat_trunc r)"
| "py_int (PFloat NaN) = Inl ValueError"
| "py_int (PFloat f) = Inl OverflowError"
| "py_int (PStr s) = (case int_of_str s of Some i \<Rightarrow> Inr i | None \<Rightarrow> Inl ValueError)"
| "py_int v = Inl TypeError"

text \<open>\<open>float(s)\<close> on a string: a sign, then \<open>inf\<close>, \<open>infinity\<close>, \<open>nan\<close> or a decimal
  numeral with an optional fraction and exponent.\<close>

definition frac_digits :: "string \<Rightarrow> string option" where
  "frac_digits s = (if s = [] then Some [] else numeral_digits s)"

definition mantissa_of_str :: "string \<Rightarrow> rat option" where
  "mantissa_of_str s = (case py_partition (CHR ''.'') s of
     (a, dot, b) \<Rightarrow>
       if a = [] \<and> b = [] then None
       else (case (frac_digits a, frac_digits b) of
               (Some x, Some y) \<Rightarrow> Some (of_nat (digits_val (x @ y)) / 10 ^ length y)
             | _ \<Rightarrow> None))"

definition exponent_of_str :: "string \<Rightarrow> int option" where
  "exponent_of_str s = (case sign_split s of
     (sg, t) \<Rightarrow> map_option (\<lambda>ds. sg * int (digits_val ds)) (numeral_digits t))"

definition ten_power :: "int \<Rightarrow> rat" where
  "ten_power e = (if 0 \<le> e then 10 ^ nat e else 1 / 10 ^ nat (- e))"

definition unsigned_float_of_str :: "string \<Rightarrow> rat option" where
  "unsigned_float_of_str s = (case py_partition (CHR ''e'') s of
     (m, ex, e) \<Rightarrow>
       if ex then (case (mantissa_of_str m, exponent_of_str e) of
                     (Some r, Some k) \<Rightarrow> Some (r * ten_power k)
                   | _ \<Rightarrow> None)
       else mantissa_of_str m)"

text \<open>The least magnitude that rounds to infinity in double precision.\<close>

definition float_overflow :: int where
  "float_overflow = 2 ^ 1024 - 2 ^ 970"

lemma float_overflow_literal [code]:
  "float_overflow =
    179769313486231580793728971405303415079934132710037826936173778980444968292764750946649017977587207096330286416692887910946555547851940402630657488671505820681908902000708383676273854845817711531764475730270069855571366959622842914819860834936475292719074168444365510704342711559699508093042880177904174497792"
  by (simp add: float_overflow_def)

definition float_of_str :: "string \<Rightarrow> flt option" where
  "float_of_str s = (case sign_split (py_lower (py_strip s)) of
     (sg, t) \<Rightarrow>
       if t = ''inf'' \<or> t = ''infinity'' then Some (if sg < 0 then NegInf else PosInf)
       else if t = ''nan'' then Some NaN
       else map_option
         (\<lambda>r. if of_int float_overflow \<le> r then (if sg < 0 then NegInf else PosInf)
              else Fin (of_int sg * r))
         (unsigned_float_of_str t))"

fun py_float :: "pyval \<Rightarrow> pyexc + flt" where
  "py_float (PFloat f) = Inr f"
| "py_float (PInt i) =
     (if float_overflow \<le> \<bar>i\<bar> then Inl OverflowError else Inr (Fin (of_int i)))"
| "py_float (PBool b) = Inr (Fin (if b then 1 else 0))"
| "py_float (PStr s) = (case float_of_str s of Some f \<Rightarrow> Inr f | None \<Rightarrow> Inl ValueError)"
| "py_float v = Inl TypeError"

section \<open>Ordering and equality of numbers\<close>

fun flt_less :: "flt \<Rightarrow> flt \<Rightarrow> bool" where
  "flt_less NaN _ = False"
| "flt_less _ NaN = False"
| "flt_less (Fin a) (Fin b) = (a < b)"
| "flt_less NegInf x = (x \<noteq> NegInf)"
| "flt_less x NegInf = False"
| "flt_less PosInf x = False"
| "flt_less x PosInf = True"

fun flt_neg :: "flt \<Rightarrow> flt" where
  "flt_neg (Fin r) = Fin (- r)"
| "flt_neg PosInf = NegInf"
| "flt_neg NegInf = PosInf"
| "flt_neg NaN = NaN"

definition flt_le :: "flt \<Rightarrow> flt \<Rightarrow> bool" where
  "flt_le a b = (flt_less a b \<or> (a = b \<and> a \<noteq> NaN))"

text \<open>The number behind a value that Python's arithmetic and comparisons accept.\<close>

fun num_of :: "pyval \<Rightarrow> flt option" where
  "num_of (PInt i) = Some (Fin (of_int i))"
| "num_of (PBool b) = Some (Fin (if b then 1 else 0))"
| "num_of (PFloat f) = Some f"
| "num_of _ = None"

text \<open>\<open>a == b\<close>: numbers compare by value across their types, dictionaries do not depend
  on the order of their entries.\<close>

lemma size_mem_list: "x \<in> set xs \<Longrightarrow> size x \<le> size_list size xs"
  by (rule size_list_estimation') auto

lemma size_mem_dict: "p \<in> set d \<Longrightarrow> size (snd p) < size (PDict d)"
  by (induction d) auto

function py_eq :: "pyval \<Rightarrow> pyval \<Rightarrow> bool" where
  "py_eq a b = (case (num_of a, num_of b) of
      (Some x, Some y) \<Rightarrow> x = y \<and> x \<noteq> NaN
    | (None, None) \<Rightarrow>
       (case (a, b) of
          (PNone, PNone) \<Rightarrow> True
        | (PStr s, PStr t) \<Rightarrow> s = t
        | (PList xs, PList ys) \<Rightarrow>
            length xs = length ys \<and> (\<forall>p \<in> set (zip xs ys). py_eq (fst p) (snd p))
        | (PDict d, PDict e) \<Rightarrow>
            length d = length e \<and>
            (\<forall>p \<in> set d. case map_of e (fst p) of
               None \<Rightarrow> False | Some w \<Rightarrow> py_eq (snd p) w)
        | _ \<Rightarrow> False)
    | _ \<Rightarrow> False)"
  by pat_completeness auto
termination
proof (relation "measure (\<lambda>(a, b). size a)", goal_cases)
  case 1
  show ?case by simp
next
  case (2 a b xa ya x1 x2 d e p)
  then have "a = PList d" "fst p \<in> set d" by (simp, metis prod.collapse set_zip_leftD)
  then show ?case by (cases p) (auto dest: size_mem_list)
next
  case (3 a b xa ya x1 x2 d e p w)
  then have "a = PDict d" "p \<in> set d" by auto
  then show ?case using size_mem_dict by auto
qed

declare py_eq.simps [simp del]

lemma py_eq_simps [simp, py_simps]:
  "py_eq (PStr s) (PStr t) = (s = t)"
  "py_eq (PInt i) (PInt j) = (i = j)"
  "py_eq (PBool b) (PBool c) = (b = c)"
  "py_eq PNone PNone"
  "py_eq (PStr s) PNone = False"
  "py_eq PNone (PStr s) = False"
  by (simp_all add: py_eq.simps [of "PStr s" "PStr t"] py_eq.simps [of "PInt i" "PInt j"]
      py_eq.simps [of "PBool b" "PBool c"] py_eq.simps [of PNone PNone]
      py_eq.simps [of "PStr s" PNone] py_eq.simps [of PNone "PStr s"])

text \<open>A value without NaN and with distinct keys equals itself.\<close>

fun nan_free :: "pyval \<Rightarrow> bool" where
  "nan_free (PFloat f) = (f \<noteq> NaN)"
| "nan_free (PList xs) = (\<forall>x \<in> set xs. nan_free x)"
| "nan_free (PDict d) = (distinct (map fst d) \<and> (\<forall>p \<in> set d. nan_free (snd p)))"
| "nan_free _ = True"

lemma py_eq_refl [simp]: "nan_free v \<Longrightarrow> py_eq v v"
proof (induction v)
  case (PList xs)
  then have "\<forall>p \<in> set (zip xs xs). py_eq (fst p) (snd p)"
    by (auto simp: set_zip)
  then show ?case by (simp add: py_eq.simps [of "PList xs" "PList xs"])
next
  case (PDict d)
  then have "\<forall>p \<in> set d. map_of d (fst p) = Some (snd p) \<and> py_eq (snd p) (snd p)"
    by (fastforce simp: snds.simps)
  then show ?case by (auto simp: py_eq.simps [of "PDict d" "PDict d"])
qed (simp_all add: py_eq.simps [of "PBool _"] py_eq.simps [of "PInt _"]
      py_eq.simps [of "PFloat _"] py_eq.simps [of "PStr _"])

section \<open>An order on numbers, sorting and slicing\<close>

text \<open>Sort keys need a linear order. NaN, which Python leaves unordered, is placed last.\<close>

fun flt_rank :: "flt \<Rightarrow> nat \<times> rat" where
  "flt_rank NegInf = (0, 0)"
| "flt_rank (Fin r) = (1, r)"
| "flt_rank PosInf = (2, 0)"
| "flt_rank NaN = (3, 0)"

lemma flt_rank_inj: "flt_rank a = flt_rank b \<Longrightarrow> a = b"
  by (cases a; cases b) auto

instantiation flt :: linorder
begin

definition less_eq_flt :: "flt \<Rightarrow> flt \<Rightarrow> bool" where
  "less_eq_flt a b = (flt_rank a \<le> flt_rank b)"

definition less_flt :: "flt \<Rightarrow> flt \<Rightarrow> bool" where
  "less_flt a b = (flt_rank a < flt_rank b)"

instance
  by standard (auto simp: less_eq_flt_def less_flt_def intro: flt_rank_inj)

end

lemma flt_less_iff:
  "a \<noteq> NaN \<Longrightarrow> b \<noteq> NaN \<Longrightarrow> flt_less a b = (a < b)"
  by (cases a; cases b) (simp_all add: less_flt_def)

text \<open>\<open>sorted({...})\<close> of the values of a list.\<close>

definition sorted_set :: "'a::linorder list \<Rightarrow> 'a list" where
  "sorted_set xs = sort (remdups xs)"

lemma set_sorted_set [simp]: "set (sorted_set xs) = set xs"
  by (simp add: sorted_set_def)

lemma distinct_sorted_set [simp]: "distinct (sorted_set xs)"
  by (simp add: sorted_set_def)

lemma sorted_sorted_set [simp]: "sorted (sorted_set xs)"
  by (simp add: sorted_set_def)

text \<open>\<open>xs[:n]\<close>, where a negative bound counts from the end.\<close>

definition slice_to :: "'a list \<Rightarrow> int \<Rightarrow> 'a list" where
  "slice_to xs n = (if 0 \<le> n then take (nat n) xs else take (nat (int (length xs) + n)) xs)"

lemma slice_to_all: "int (length xs) \<le> n \<Longrightarrow> slice_to xs n = xs"
  by (simp add: slice_to_def)

lemma set_slice_to: "set (slice_to xs n) \<subseteq> set xs"
  by (auto simp: slice_to_def dest: in_set_takeD)

section \<open>Errors as values\<close>

fun err_bind :: "'e + 'a \<Rightarrow> ('a \<Rightarrow> 'e + 'b) \<Rightarrow> 'e + 'b" where
  "err_bind (Inl e) f = Inl e"
| "err_bind (Inr x) f = f x"

lemma err_bind_Inr: "err_bind m f = Inr y \<longleftrightarrow> (\<exists>x. m = Inr x \<and> f x = Inr y)"
  by (cases m) auto

lemma err_bind_Inl: "err_bind m f = Inl e \<longleftrightarrow> m = Inl e \<or> (\<exists>x. m = Inr x \<and> f x = Inl e)"
  by (cases m) auto

text \<open>\<open>try: ... except (TypeError, ValueError): default\<close>.\<close>

fun catch_value_error :: "pyexc + 'a \<Rightarrow> 'a \<Rightarrow> pyexc + 'a" where
  "catch_value_error (Inr x) d = Inr x"
| "catch_value_error (Inl ValueError) d = Inr d"
| "catch_value_error (Inl TypeError) d = Inr d"
| "catch_value_error (Inl e) d = Inl e"

text \<open>A dictionary method on a value that need not be a dictionary.\<close>

fun dict_of :: "pyval \<Rightarrow> pyexc + pydict" where
  "dict_of (PDict d) = Inr d"
| "dict_of _ = Inl AttributeError"

lemma dict_of_Inr [simp]: "dict_of v = Inr d \<longleftrightarrow> v = PDict d"
  by (cases v) auto

end
