(* ===== verification/Capacity.thy ===== *)
theory Capacity
  imports Py_Base
begin

text \<open>
  \<^verbatim>\<open>services/aimili-egress/capacity.py\<close>: the capacity budget of the host.
  \<open>read_host_facts\<close> parses the kernel's files (their text is an argument, \<open>None\<close> stands
  for a failed read), \<open>limits_for\<close> turns the facts into limits, \<open>clamp_settings\<close> and
  \<open>pool_probe_allowed\<close> use them. Integers are Python's, the load average is an exact
  rational. The lemmas bound every limit and show that pressure never takes an exit away
  that is already running.
\<close>

section \<open>Constants and records\<close>

definition MIN_TARGET_POOL :: int where "MIN_TARGET_POOL = 16"
definition MAX_TARGET_POOL :: int where "MAX_TARGET_POOL = 256"
definition MAX_EMERGENCY_POOL :: int where "MAX_EMERGENCY_POOL = MAX_TARGET_POOL * 2"
definition BASE_EMERGENCY_POOL :: int where "BASE_EMERGENCY_POOL = 200"
definition MIN_REGULAR_SLOTS :: int where "MIN_REGULAR_SLOTS = 1"
definition MAX_REGULAR_SLOTS :: int where "MAX_REGULAR_SLOTS = 16"
definition POOL_ENTRY_MEMORY_BUDGET_BYTES :: int where
  "POOL_ENTRY_MEMORY_BUDGET_BYTES = 128 * 1024"
definition POOL_RUNTIME_RESERVE_BYTES :: int where
  "POOL_RUNTIME_RESERVE_BYTES = 80 * 1024 * 1024"

definition MiB :: int where "MiB = 1024 * 1024"

lemmas capacity_constants =
  MIN_TARGET_POOL_def MAX_TARGET_POOL_def MAX_EMERGENCY_POOL_def BASE_EMERGENCY_POOL_def
  MIN_REGULAR_SLOTS_def MAX_REGULAR_SLOTS_def POOL_ENTRY_MEMORY_BUDGET_BYTES_def
  POOL_RUNTIME_RESERVE_BYTES_def MiB_def

record host_facts =
  memory_total_bytes :: int
  memory_available_bytes :: int
  cpu_count :: int
  load1 :: rat

record capacity_limits =
  regular_exit_slots_max :: int
  target_valid_nodes_max :: int
  emergency_valid_nodes_max :: int
  lim_memory_total_bytes :: int
  lim_memory_available_bytes :: int
  lim_cpu_count :: int
  lim_load1 :: rat
  sampled_at :: rat

text \<open>\<open>round(x, 2)\<close>: to hundredths, a tie goes to the even digit.\<close>

definition round2 :: "rat \<Rightarrow> rat" where
  "round2 x = (let y = 100 * x; f = \<lfloor>y\<rfloor>; d = y - of_int f in
     of_int (if d < 1/2 then f else if d > 1/2 then f + 1
             else if even f then f else f + 1) / 100)"

definition as_dict :: "capacity_limits \<Rightarrow> pydict" where
  "as_dict l =
    [(''memoryTotalBytes'', PInt (lim_memory_total_bytes l)),
     (''memoryAvailableBytes'', PInt (lim_memory_available_bytes l)),
     (''cpuCount'', PInt (lim_cpu_count l)),
     (''load1'', PFloat (Fin (round2 (lim_load1 l)))),
     (''sampledAt'', PFloat (Fin (sampled_at l))),
     (''regularExitSlotsMax'', PInt (regular_exit_slots_max l)),
     (''targetValidNodesMax'', PInt (target_valid_nodes_max l)),
     (''emergencyValidNodesMax'', PInt (emergency_valid_nodes_max l))]"

section \<open>Reading the host\<close>

text \<open>What the operating system answers; \<open>None\<close> is an \<open>OSError\<close> or a missing call.\<close>

record os_view =
  proc_meminfo :: "string option"
  getloadavg :: "rat option"
  os_cpu_count :: "int option"
  sched_affinity :: "nat option"
  cgroup_cpu_max :: "string option"

text \<open>The loop over the lines of \<open>/proc/meminfo\<close>: a line that does not parse ends it and
  keeps what was read before it.\<close>

fun meminfo_lines :: "string list \<Rightarrow> int \<times> int \<Rightarrow> int \<times> int" where
  "meminfo_lines [] acc = acc"
| "meminfo_lines (line # rest) (tot, avail) =
     (case py_partition (CHR '':'') line of (name, _, raw) \<Rightarrow>
       (case py_words (py_strip raw) of
          [] \<Rightarrow> (tot, avail)
        | w # _ \<Rightarrow>
           (case int_of_str w of
              None \<Rightarrow> (tot, avail)
            | Some v \<Rightarrow>
               (let value = v * 1024 in
                if name = ''MemTotal'' then meminfo_lines rest (value, avail)
                else if name = ''MemAvailable'' then meminfo_lines rest (tot, value)
                else meminfo_lines rest (tot, avail)))))"

definition cpu_quota :: "string \<Rightarrow> int \<Rightarrow> int" where
  "cpu_quota txt cpus = (case py_words txt of
     quota # period # _ \<Rightarrow>
       (if quota = ''max'' then cpus
        else (case (int_of_str period, int_of_str quota) of
          (Some p, Some q) \<Rightarrow> if 0 < p then min cpus (max 1 ((q + p - 1) div p)) else cpus
        | _ \<Rightarrow> cpus))
   | _ \<Rightarrow> cpus)"

definition read_host_facts :: "os_view \<Rightarrow> host_facts" where
  "read_host_facts os =
    (let (tot, avail) = (case proc_meminfo os of
           Some txt \<Rightarrow> if list_all ascii_char txt then meminfo_lines (py_splitlines txt) (0, 0)
                        else (0, 0)
         | None \<Rightarrow> (0, 0));
         tot = (if tot \<le> 0 then 512 * MiB else tot);
         avail = (if avail < 0 then 0 else avail);
         load = (case getloadavg os of Some l \<Rightarrow> l | None \<Rightarrow> 0);
         cpus = max 1 (case os_cpu_count os of Some n \<Rightarrow> if n = 0 then 1 else n | None \<Rightarrow> 1);
         cpus = (case sched_affinity os of Some n \<Rightarrow> min cpus (int n) | None \<Rightarrow> cpus);
         cpus = (case cgroup_cpu_max os of
           Some txt \<Rightarrow> if list_all ascii_char txt then cpu_quota txt cpus else cpus
         | None \<Rightarrow> cpus)
     in \<lparr>memory_total_bytes = tot, memory_available_bytes = min tot avail,
         cpu_count = cpus, load1 = max 0 load\<rparr>)"

section \<open>Limits\<close>

definition memory_slot_limit :: "host_facts \<Rightarrow> int" where
  "memory_slot_limit facts = (let total_mb = memory_total_bytes facts div (1024 * 1024) in
     max MIN_REGULAR_SLOTS (min MAX_REGULAR_SLOTS ((total_mb - 256) div 64)))"

definition emergency_host_cap :: "host_facts \<Rightarrow> int" where
  "emergency_host_cap facts = (let total_mb = memory_total_bytes facts div (1024 * 1024);
       steps = max 0 ((total_mb - 512) div 512) in
     min MAX_EMERGENCY_POOL (BASE_EMERGENCY_POOL + steps * 64))"

definition host_overloaded :: "host_facts \<Rightarrow> bool" where
  "host_overloaded facts = (load1 facts > of_int (cpu_count facts) * (7/4))"

definition regular_limit :: "host_facts \<Rightarrow> int \<Rightarrow> int option \<Rightarrow> int" where
  "regular_limit facts current_slots process_limit =
    (let memory_limit = memory_slot_limit facts;
         cpu_limit = max MIN_REGULAR_SLOTS (min MAX_REGULAR_SLOTS (cpu_count facts * 4));
         free_mb = memory_available_bytes facts div (1024 * 1024);
         expansion_limit = max current_slots (current_slots + max 0 ((free_mb - 256) div 64));
         regular_max = max current_slots (max MIN_REGULAR_SLOTS
           (min MAX_REGULAR_SLOTS (min memory_limit (min cpu_limit expansion_limit))));
         regular_max = (case process_limit of None \<Rightarrow> regular_max
           | Some p \<Rightarrow> max current_slots (max MIN_REGULAR_SLOTS (min regular_max ((p - 3) div 2))))
     in if host_overloaded facts then max current_slots MIN_REGULAR_SLOTS else regular_max)"

definition emergency_limit :: "host_facts \<Rightarrow> int" where
  "emergency_limit facts =
    (let cache_bytes = max 0 (memory_available_bytes facts - POOL_RUNTIME_RESERVE_BYTES) in
     max MIN_TARGET_POOL (min (emergency_host_cap facts)
       (cache_bytes div POOL_ENTRY_MEMORY_BUDGET_BYTES)))"

definition limits_for :: "rat \<Rightarrow> host_facts \<Rightarrow> int \<Rightarrow> int option \<Rightarrow> capacity_limits" where
  "limits_for now facts current_slots process_limit =
    \<lparr>regular_exit_slots_max = regular_limit facts current_slots process_limit,
     target_valid_nodes_max = emergency_limit facts,
     emergency_valid_nodes_max = emergency_limit facts,
     lim_memory_total_bytes = memory_total_bytes facts,
     lim_memory_available_bytes = memory_available_bytes facts,
     lim_cpu_count = cpu_count facts, lim_load1 = load1 facts, sampled_at = now\<rparr>"

definition clamp_settings :: "int \<Rightarrow> int \<Rightarrow> capacity_limits \<Rightarrow> int \<times> int" where
  "clamp_settings target emergency limits =
    (let target = max MIN_TARGET_POOL (min (target_valid_nodes_max limits) target);
         emergency = max target (min (emergency_valid_nodes_max limits) emergency)
     in (target, emergency))"

definition pool_probe_allowed :: "host_facts \<Rightarrow> bool" where
  "pool_probe_allowed facts =
    (memory_available_bytes facts \<ge> 96 * 1024 * 1024
     \<and> load1 facts \<le> of_int (cpu_count facts) * (7/4))"

section \<open>Lemmas\<close>

lemma cpu_quota_bounds: "1 \<le> cpus \<Longrightarrow> 1 \<le> cpu_quota txt cpus \<and> cpu_quota txt cpus \<le> cpus"
  by (auto simp: cpu_quota_def split: list.splits option.splits)

lemma memory_slot_limit_bounds:
  "1 \<le> memory_slot_limit f \<and> memory_slot_limit f \<le> 16"
  by (auto simp: memory_slot_limit_def capacity_constants Let_def)

lemma emergency_host_cap_bounds:
  "200 \<le> emergency_host_cap f \<and> emergency_host_cap f \<le> 512"
  by (auto simp: emergency_host_cap_def capacity_constants Let_def)

lemma emergency_limit_bounds: "16 \<le> emergency_limit f \<and> emergency_limit f \<le> 512"
  using emergency_host_cap_bounds [of f]
  by (auto simp: emergency_limit_def capacity_constants Let_def)

text \<open>The nested minimum and maximum of \<open>regular_limit\<close>, taken apart once.\<close>

lemma regular_limit_shape:
  obtains m where
    "regular_limit f current p =
      (if host_overloaded f then max current 1
       else (case p of None \<Rightarrow> max current (max 1 m)
         | Some q \<Rightarrow> max current (max 1 (min (max current (max 1 m)) ((q - 3) div 2)))))"
    and "m \<le> 16" and "m \<le> memory_slot_limit f" and "m \<le> max 1 (cpu_count f * 4)"
    and "m \<le> max current (current + max 0 ((memory_available_bytes f div (1024 * 1024) - 256) div 64))"
proof -
  define cl where "cl = max 1 (min 16 (cpu_count f * 4))"
  define el where
    "el = max current (current + max 0 ((memory_available_bytes f div (1024 * 1024) - 256) div 64))"
  define m where "m = min 16 (min (memory_slot_limit f) (min cl el))"
  have "regular_limit f current p =
      (if host_overloaded f then max current 1
       else (case p of None \<Rightarrow> max current (max 1 m)
         | Some q \<Rightarrow> max current (max 1 (min (max current (max 1 m)) ((q - 3) div 2)))))"
    by (simp only: regular_limit_def Let_def MIN_REGULAR_SLOTS_def MAX_REGULAR_SLOTS_def
        m_def cl_def el_def)
  moreover have "m \<le> 16" "m \<le> memory_slot_limit f" "m \<le> cl" "m \<le> el"
    unfolding m_def by (simp_all add: min.coboundedI1 min.coboundedI2)
  moreover have "cl \<le> max 1 (cpu_count f * 4)"
    unfolding cl_def by (simp add: min_le_iff_disj)
  ultimately show ?thesis using that [of m] unfolding el_def by linarith
qed

text \<open>The arithmetic behind the bounds, on plain integers.\<close>

definition limit_without_budget :: "int \<Rightarrow> int \<Rightarrow> int" where
  "limit_without_budget c m = max c (max 1 m)"

definition limit_with_budget :: "int \<Rightarrow> int \<Rightarrow> int \<Rightarrow> int" where
  "limit_with_budget c m k = max c (max 1 (min (limit_without_budget c m) k))"

lemma limit_without_budget_lower: "c \<le> limit_without_budget c m" "1 \<le> limit_without_budget c m"
  by (simp_all add: limit_without_budget_def)

lemma limit_with_budget_lower: "c \<le> limit_with_budget c m k" "1 \<le> limit_with_budget c m k"
  by (simp_all add: limit_with_budget_def)

lemma limit_without_budget_upper: "m \<le> 16 \<Longrightarrow> limit_without_budget c m \<le> max c 16"
  unfolding limit_without_budget_def by linarith

lemma limit_without_budget_big: "max c 1 < limit_without_budget c m \<Longrightarrow> limit_without_budget c m = m"
  unfolding limit_without_budget_def by linarith

lemma limit_with_budget_upper: "limit_with_budget c m k \<le> limit_without_budget c m"
proof -
  have "max c (max 1 (min x k)) \<le> x" if "c \<le> x" "1 \<le> x" for x :: int
    using that by linarith
  then show ?thesis
    unfolding limit_with_budget_def using limit_without_budget_lower by blast
qed

lemma limit_with_budget_big: "max c 1 < limit_with_budget c m k \<Longrightarrow> limit_with_budget c m k \<le> k"
proof -
  have "max c 1 < max c (max 1 (min x k)) \<Longrightarrow> max c (max 1 (min x k)) \<le> k" for x :: int
    by linarith
  then show "max c 1 < limit_with_budget c m k \<Longrightarrow> limit_with_budget c m k \<le> k"
    unfolding limit_with_budget_def by blast
qed

lemma regular_limit_eq:
  obtains m where
    "regular_limit f current p =
      (if host_overloaded f then max current 1
       else (case p of None \<Rightarrow> limit_without_budget current m
         | Some q \<Rightarrow> limit_with_budget current m ((q - 3) div 2)))"
    and "m \<le> 16" and "m \<le> memory_slot_limit f" and "m \<le> max 1 (cpu_count f * 4)"
    and "m \<le> max current (current + max 0 ((memory_available_bytes f div (1024 * 1024) - 256) div 64))"
  using regular_limit_shape [of f current p]
  unfolding limit_with_budget_def limit_without_budget_def by blast

lemma regular_limit_lower:
  "current \<le> regular_limit f current p \<and> 1 \<le> regular_limit f current p"
proof -
  obtain m where r: "regular_limit f current p =
      (if host_overloaded f then max current 1
       else (case p of None \<Rightarrow> limit_without_budget current m
         | Some q \<Rightarrow> limit_with_budget current m ((q - 3) div 2)))"
    by (rule regular_limit_eq)
  show ?thesis
    unfolding r using limit_without_budget_lower limit_with_budget_lower
    by (simp split: option.split)
qed

lemma regular_limit_upper: "regular_limit f current p \<le> max current 16"
proof -
  obtain m where r: "regular_limit f current p =
      (if host_overloaded f then max current 1
       else (case p of None \<Rightarrow> limit_without_budget current m
         | Some q \<Rightarrow> limit_with_budget current m ((q - 3) div 2)))"
    and m: "m \<le> 16" by (rule regular_limit_eq)
  show ?thesis
  proof (cases p)
    case None
    then show ?thesis unfolding r
      using limit_without_budget_upper [OF m, of current] by (auto simp: le_max_iff_disj)
  next
    case (Some q)
    have "limit_with_budget current m ((q - 3) div 2) \<le> max current 16"
      using limit_with_budget_upper limit_without_budget_upper [OF m] by (rule order_trans)
    with Some show ?thesis unfolding r by (auto simp: le_max_iff_disj)
  qed
qed

text \<open>Expansion beyond the running exits needs calm load, free memory, processors and a
  place in the process budget.\<close>

lemma regular_limit_expansion:
  assumes big: "max current 1 < regular_limit f current p" and "0 \<le> current"
  shows "\<not> host_overloaded f"
    and "regular_limit f current p \<le> memory_slot_limit f"
    and "regular_limit f current p \<le> max 1 (cpu_count f * 4)"
    and "64 * (regular_limit f current p - current) + 256
           \<le> memory_available_bytes f div (1024 * 1024)"
    and "p = Some q \<Longrightarrow> 2 * regular_limit f current p + 3 \<le> q"
proof -
  define room where "room = memory_available_bytes f div (1024 * 1024)"
  define r where "r = regular_limit f current p"
  obtain m where eq: "r =
      (if host_overloaded f then max current 1
       else (case p of None \<Rightarrow> limit_without_budget current m
         | Some q \<Rightarrow> limit_with_budget current m ((q - 3) div 2)))"
    and m: "m \<le> memory_slot_limit f" "m \<le> max 1 (cpu_count f * 4)"
      "m \<le> max current (current + max 0 ((room - 256) div 64))"
    unfolding room_def r_def by (rule regular_limit_eq)
  have big': "max current 1 < r" using big by (simp only: r_def)
  show calm: "\<not> host_overloaded f" using big' eq by (cases "host_overloaded f") simp_all
  have le: "r \<le> m"
  proof (cases p)
    case None
    with eq calm big' show ?thesis using limit_without_budget_big [of current m] by simp
  next
    case (Some q)
    with eq calm big' show ?thesis
      using limit_with_budget_upper [of current m "(q - 3) div 2"]
        limit_without_budget_big [of current m] by simp
  qed
  show "regular_limit f current p \<le> memory_slot_limit f"
    using le m(1) by (simp only: r_def)
  show "regular_limit f current p \<le> max 1 (cpu_count f * 4)"
    using le m(2) unfolding r_def by (rule order_trans)
  have "current < m" using le big' by linarith
  moreover define d where "d = (room - 256) div 64"
  ultimately have "m - current \<le> d" using m(3) by linarith
  moreover have "64 * d \<le> room - 256" unfolding d_def by linarith
  ultimately have "64 * (m - current) + 256 \<le> room"
    using mult_left_mono [of "m - current" d 64] by auto
  with le have "64 * (r - current) + 256 \<le> room" by (simp add: algebra_simps)
  then show "64 * (regular_limit f current p - current) + 256
      \<le> memory_available_bytes f div (1024 * 1024)"
    by (simp only: room_def r_def)
  show "2 * regular_limit f current p + 3 \<le> q" if p: "p = Some q"
  proof -
    from eq calm p have "r = limit_with_budget current m ((q - 3) div 2)" by simp
    with big' have "r \<le> (q - 3) div 2" using limit_with_budget_big by metis
    then have "2 * r \<le> q - 3" by linarith
    then show ?thesis by (simp add: r_def)
  qed
qed

section \<open>Properties\<close>

text \<open>Two hosts for the examples: two gigabytes with two processors, and the half gigabyte
  host the code's comments speak of.\<close>

definition example_host :: host_facts where
  "example_host = \<lparr>memory_total_bytes = 2147483648, memory_available_bytes = 1048576000,
     cpu_count = 2, load1 = 1/10\<rparr>"

definition example_small_host :: host_facts where
  "example_small_host = \<lparr>memory_total_bytes = 480247808, memory_available_bytes = 200278016,
     cpu_count = 1, load1 = 1/5\<rparr>"

text \<open>The limit on regular exits never falls below the exits already running nor below
  one, never exceeds sixteen unless more are already running, and offers more than the
  running exits only when the load is calm and memory, processors and the process budget
  (a main connection and a standby for each exit, one probe) all leave room for them.\<close>

theorem regular_exit_limit_is_safe:
  assumes "0 \<le> current"
    and "r = regular_exit_slots_max (limits_for now facts current p)"
  shows "current \<le> r \<and> 1 \<le> r \<and> r \<le> max current 16
    \<and> (max current 1 < r \<longrightarrow>
        \<not> host_overloaded facts \<and> r \<le> cpu_count facts * 4
        \<and> 64 * (r - current) + 256 \<le> memory_available_bytes facts div (1024 * 1024)
        \<and> (\<forall>q. p = Some q \<longrightarrow> 2 * r + 3 \<le> q))"
proof -
  have r: "r = regular_limit facts current p"
    using assms(2) by (simp add: limits_for_def)
  show ?thesis
  proof (intro conjI impI allI)
    show "current \<le> r" "1 \<le> r" "r \<le> max current 16"
      unfolding r using regular_limit_lower regular_limit_upper by blast+
  next
    assume m: "max current 1 < r"
    note exp = regular_limit_expansion [OF m [unfolded r] assms(1)]
    show "\<not> host_overloaded facts" by (rule exp)
    show "r \<le> cpu_count facts * 4" using exp(3) m unfolding r by linarith
    show "64 * (r - current) + 256 \<le> memory_available_bytes facts div (1024 * 1024)"
      unfolding r by (rule exp)
    show "2 * r + 3 \<le> q" if "p = Some q" for q unfolding r using that by (rule exp)
  qed
qed

theorem regular_exit_limit_is_safe_witness:
  "let r = regular_exit_slots_max (limits_for 0 example_host 4 (Some 64)) in
   (0::int) \<le> 4 \<and> r = 8 \<and> 2 * r + 3 \<le> 64"
proof -
  have v: "regular_exit_slots_max (limits_for 0 example_host 4 (Some 64)) = 8"
    by code_simp
  have "2 * (8::int) + 3 \<le> 64"
    using regular_exit_limit_is_safe [OF _ refl, of 4 0 example_host "Some 64"] unfolding v by simp
  with v show ?thesis by simp
qed

text \<open>C31. Clamping the pool settings always yields a target between sixteen and the limit and
  an emergency bound between the target and the limit, it changes nothing when the settings
  already respect the limits, and clamping twice is clamping once.\<close>

theorem clamp_settings_correct:
  assumes "cl = limits_for now facts current p"
    and "clamp_settings target emergency cl = (t, e)"
  shows "16 \<le> t \<and> t \<le> target_valid_nodes_max cl
    \<and> t \<le> e \<and> e \<le> emergency_valid_nodes_max cl
    \<and> clamp_settings t e cl = (t, e)
    \<and> (16 \<le> target \<and> target \<le> emergency \<and> emergency \<le> emergency_valid_nodes_max cl
        \<longrightarrow> (t, e) = (target, emergency))"
  using assms emergency_limit_bounds [of facts]
  by (auto simp: clamp_settings_def limits_for_def capacity_constants Let_def)

theorem clamp_settings_correct_witness:
  "let cl = limits_for 0 example_small_host 4 None in
   (16::int) \<le> 64 \<and> (64::int) \<le> 150 \<and> 150 \<le> emergency_valid_nodes_max cl
      \<and> clamp_settings 64 150 cl = (64, 150)"
proof -
  have v: "emergency_valid_nodes_max (limits_for 0 example_small_host 4 None) = 200"
    by code_simp
  obtain t e where te: "clamp_settings 64 150 (limits_for 0 example_small_host 4 None) = (t, e)"
    by fastforce
  from clamp_settings_correct [OF refl te] have "(t, e) = (64, 150)"
    unfolding v by linarith
  with te show ?thesis by (simp add: v Let_def)
qed

end
