(* ===== verification/Dedup_Acc.thy ===== *)
theory Dedup_Acc
  imports Py_Base
begin

text \<open>
  The interface of the loops that collect items without repeating an identity: a list in
  order and the set of the identities already seen. A step either leaves the pair alone or
  appends the item and records its identity. The node pool, the probe queue and the
  resolver lists of the proxy are such loops.
\<close>

locale dedup_acc =
  fixes ident :: "'n \<Rightarrow> 'i"
    and admissible :: "'n \<Rightarrow> bool"
    and collect :: "'n \<Rightarrow> 'n list \<times> 'i set \<Rightarrow> 'n list \<times> 'i set"
  assumes collect_cases:
    "collect n (xs, seen) = (xs, seen) \<or>
     (collect n (xs, seen) = (xs @ [n], insert (ident n) seen) \<and> ident n \<notin> seen \<and> admissible n)"
begin

definition acc_inv :: "'n list \<times> 'i set \<Rightarrow> bool" where
  "acc_inv acc = (snd acc = ident ` set (fst acc) \<and> distinct (map ident (fst acc)))"

lemma acc_inv_empty: "acc_inv ([], {})"
  by (simp add: acc_inv_def)

lemma collect_split:
  obtains "collect n acc = acc"
  | "fst (collect n acc) = fst acc @ [n]" "snd (collect n acc) = insert (ident n) (snd acc)"
    "ident n \<notin> snd acc" "admissible n"
  using collect_cases [of n "fst acc" "snd acc"] by (cases acc) auto

lemma collect_inv:
  assumes "acc_inv acc"
  shows "acc_inv (collect n acc)"
proof (rule collect_split [of n acc])
  assume "collect n acc = acc"
  with assms show ?thesis by simp
next
  assume "fst (collect n acc) = fst acc @ [n]" "snd (collect n acc) = insert (ident n) (snd acc)"
    "ident n \<notin> snd acc"
  with assms show ?thesis by (simp add: acc_inv_def)
qed

lemma fold_inv: "acc_inv acc \<Longrightarrow> acc_inv (fold collect ns acc)"
proof (induction ns arbitrary: acc)
  case (Cons n ns)
  then show ?case using collect_inv by simp
qed simp

lemma fold_extends:
  "\<exists>zs. fst (fold collect ns acc) = fst acc @ zs \<and> set zs \<subseteq> set ns \<and> (\<forall>z \<in> set zs. admissible z)"
proof (induction ns arbitrary: acc)
  case Nil
  then show ?case by simp
next
  case (Cons n ns)
  obtain zs where zs: "fst (fold collect ns (collect n acc)) = fst (collect n acc) @ zs"
    "set zs \<subseteq> set ns" "\<forall>z \<in> set zs. admissible z"
    using Cons.IH by blast
  show ?case
  proof (rule collect_split [of n acc])
    assume "collect n acc = acc"
    with zs show ?thesis by auto
  next
    assume "fst (collect n acc) = fst acc @ [n]" "admissible n"
    with zs show ?thesis by (intro exI [of _ "n # zs"]) auto
  qed
qed

lemma fold_subset: "set (fst acc) \<subseteq> set (fst (fold collect ns acc))"
  using fold_extends [of ns acc] by auto

lemma fold_length: "length (fst acc) \<le> length (fst (fold collect ns acc))"
  using fold_extends [of ns acc] by auto

lemma fold_ident_mono: "x \<in> ident ` set (fst acc) \<Longrightarrow> x \<in> ident ` set (fst (fold collect ns acc))"
  using fold_subset [of acc ns] by blast

end

text \<open>A collector that takes every admissible item whose identity is new, as long as there
  is room: at the end each offered item is present or the list is full.\<close>

locale bounded_dedup = dedup_acc ident admissible collect
  for ident :: "'n \<Rightarrow> 'i" and admissible :: "'n \<Rightarrow> bool"
    and collect :: "'n \<Rightarrow> 'n list \<times> 'i set \<Rightarrow> 'n list \<times> 'i set" +
  fixes room :: nat
  assumes collect_takes:
    "admissible n \<Longrightarrow> ident n \<notin> seen \<Longrightarrow> length xs < room \<Longrightarrow>
      collect n (xs, seen) = (xs @ [n], insert (ident n) seen)"
    and collect_full: "room \<le> length xs \<Longrightarrow> collect n (xs, seen) = (xs, seen)"
begin

lemma collect_bound: "length (fst acc) \<le> room \<Longrightarrow> length (fst (collect n acc)) \<le> room"
  using collect_cases [of n "fst acc" "snd acc"] collect_full [of "fst acc" n "snd acc"]
  by (cases "room \<le> length (fst acc)") auto

lemma fold_bound: "length (fst acc) \<le> room \<Longrightarrow> length (fst (fold collect ns acc)) \<le> room"
proof (induction ns arbitrary: acc)
  case (Cons n ns)
  then show ?case using collect_bound by simp
qed simp

lemma fold_complete:
  assumes "acc_inv acc" "n \<in> set ns" "admissible n"
    and "length (fst (fold collect ns acc)) < room"
  shows "ident n \<in> ident ` set (fst (fold collect ns acc))"
  using assms
proof (induction ns arbitrary: acc)
  case Nil
  then show ?case by simp
next
  case (Cons m ns)
  have inv: "acc_inv (collect m acc)" using Cons.prems(1) by (rule collect_inv)
  show ?case
  proof (cases "n \<in> set ns")
    case True
    with Cons.IH inv Cons.prems show ?thesis by simp
  next
    case False
    with Cons.prems(2) have n: "m = n" by simp
    have "length (fst acc) \<le> length (fst (fold collect (m # ns) acc))" by (rule fold_length)
    with Cons.prems(4) have room: "length (fst acc) < room" by linarith
    have "ident n \<in> ident ` set (fst (collect n acc))"
    proof (cases "ident n \<in> snd acc")
      case True
      then have "ident n \<in> ident ` set (fst acc)" using Cons.prems(1) by (simp add: acc_inv_def)
      then show ?thesis
        using collect_cases [of n "fst acc" "snd acc"] by (cases acc) auto
    next
      case False
      with collect_takes [OF Cons.prems(3), of "snd acc" "fst acc"] room show ?thesis
        by simp
    qed
    then show ?thesis using n fold_ident_mono by simp
  qed
qed

end

end
