(* ===== verification/Node_Pool.thy ===== *)
theory Node_Pool
  imports Dedup_Acc "HOL-Library.Sublist" "HOL-Library.Multiset"
begin

text \<open>
  \<^verbatim>\<open>services/aimili-egress/node_pool.py\<close>: the pure functions over the pool of valid nodes.
  A node is the dictionary the code passes around (\<open>pydict\<close>), a set of identities is a
  HOL set, and every loop that appends to a list and to its \<open>seen\<close> set carries the pair
  of both. \<open>rebalance_valid_pool\<close> returns \<open>Inl OverflowError\<close> where the quality key
  raises, the one exception its handlers let through.
\<close>

section \<open>Identities and countries\<close>

definition node_id :: "pydict \<Rightarrow> string" where
  "node_id node = py_strip (str_or_empty (dgetN node ''id''))"

definition country_field :: "string \<Rightarrow> pydict \<Rightarrow> string" where
  "country_field key row = py_upper (py_strip (str_or_empty (dgetN row key)))"

definition is_available :: "pydict \<Rightarrow> bool" where
  "is_available node = (dgetN node ''probe_status'' = PStr ''available'')"

definition filter_country_rows :: "pydict list \<Rightarrow> string \<Rightarrow> pydict list" where
  "filter_country_rows rows country = (let wanted = py_upper (py_strip country) in
     filter (\<lambda>row. country_field ''CountryShort'' row = wanted) rows)"

definition protected_node_ids :: "string \<Rightarrow> string list \<Rightarrow> string set" where
  "protected_node_ids active slots = set (map py_strip (active # slots)) - {[]}"

section \<open>Merging one country into the pool\<close>

type_synonym pool_acc = "pydict list \<times> string set"

definition append_node :: "pydict \<Rightarrow> pool_acc \<Rightarrow> pool_acc \<times> bool" where
  "append_node node acc = (case acc of (merged, seen) \<Rightarrow>
     if node_id node = [] \<or> node_id node \<in> seen then ((merged, seen), False)
     else ((merged @ [node], insert (node_id node) seen), True))"

fun keep_other_countries :: "string \<Rightarrow> pydict list \<Rightarrow> pool_acc \<Rightarrow> pool_acc" where
  "keep_other_countries wanted [] acc = acc"
| "keep_other_countries wanted (node # rest) acc =
     keep_other_countries wanted rest
       (if country_field ''country_short'' node \<noteq> wanted then fst (append_node node acc) else acc)"

fun keep_protected :: "string \<Rightarrow> string set \<Rightarrow> pydict list \<Rightarrow> pool_acc \<times> int \<Rightarrow> pool_acc \<times> int" where
  "keep_protected wanted protected [] st = st"
| "keep_protected wanted protected (node # rest) (acc, selected) =
     keep_protected wanted protected rest
       (if country_field ''country_short'' node = wanted \<and> node_id node \<in> protected
        then (case append_node node acc of
                (acc', added) \<Rightarrow> (acc', if added then selected + 1 else selected))
        else (acc, selected))"

fun add_refreshed :: "string \<Rightarrow> int \<Rightarrow> pydict list \<Rightarrow> pool_acc \<times> int \<Rightarrow> pool_acc \<times> int" where
  "add_refreshed wanted target [] st = st"
| "add_refreshed wanted target (node # rest) (acc, selected) =
     (if selected \<ge> target then (acc, selected)
      else if country_field ''country_short'' node \<noteq> wanted \<or> \<not> is_available node
      then add_refreshed wanted target rest (acc, selected)
      else (case append_node node acc of
              (acc', added) \<Rightarrow>
                add_refreshed wanted target rest (acc', if added then selected + 1 else selected)))"

definition merge_country_pool ::
  "pydict list \<Rightarrow> pydict list \<Rightarrow> string \<Rightarrow> string set \<Rightarrow> int \<Rightarrow> pydict list" where
  "merge_country_pool existing refreshed country protected_ids target =
    (let wanted = py_upper (py_strip country);
         protected = py_strip ` protected_ids;
         acc = keep_other_countries wanted existing ([], {});
         st = keep_protected wanted protected existing (acc, 0);
         st = add_refreshed wanted target refreshed st
     in fst (fst st))"

definition protected_active_nodes :: "pydict list \<Rightarrow> string \<Rightarrow> pydict list" where
  "protected_active_nodes existing active_node_id = (let active = py_strip active_node_id in
     if active = [] then []
     else (case find (\<lambda>node. node_id node = active) existing of
             None \<Rightarrow> [] | Some node \<Rightarrow> [node]))"

section \<open>The probe queue\<close>

text \<open>\<open>float((blacklist.get(node_id) or {}).get("until", 0) or 0) > now\<close>.\<close>

definition cooling :: "(string \<rightharpoonup> pydict) \<Rightarrow> rat \<Rightarrow> string \<Rightarrow> pyexc + bool" where
  "cooling blacklist now nid =
    (let row = (case blacklist nid of None \<Rightarrow> [] | Some r \<Rightarrow> r) in
     err_bind (py_float (py_or (dget_or row ''until'' (PInt 0)) (PInt 0)))
       (\<lambda>until. Inr (flt_less (Fin now) until)))"

fun queue_loop ::
  "(string \<rightharpoonup> pydict) \<Rightarrow> rat \<Rightarrow> string set \<Rightarrow> pydict list \<Rightarrow> pool_acc \<Rightarrow> pyexc + pool_acc" where
  "queue_loop blacklist now excluded [] acc = Inr acc"
| "queue_loop blacklist now excluded (node # rest) (queue, seen) =
     err_bind (cooling blacklist now (node_id node)) (\<lambda>cool.
       queue_loop blacklist now excluded rest
         (if node_id node \<noteq> [] \<and> node_id node \<notin> seen \<and> node_id node \<notin> excluded \<and> \<not> cool
          then (queue @ [node], insert (node_id node) seen) else (queue, seen)))"

definition candidate_queue ::
  "pydict list \<Rightarrow> pydict list \<Rightarrow> (string \<rightharpoonup> pydict) \<Rightarrow> string set \<Rightarrow> rat \<Rightarrow> string set
    \<Rightarrow> pyexc + pydict list" where
  "candidate_queue candidates retained blacklist tested now preferred =
    (let excluded = set (map node_id retained) \<union> tested in
     err_bind (queue_loop blacklist now excluded candidates ([], {})) (\<lambda>(queue, _).
       Inr (sort_key (\<lambda>node. if node_id node \<in> preferred then 0 else (1::nat)) queue)))"

fun probe_loop :: "int \<Rightarrow> pydict list \<Rightarrow> pool_acc \<times> pydict list \<Rightarrow> pool_acc \<times> pydict list" where
  "probe_loop target [] st = st"
| "probe_loop target (node # rest) ((merged, seen), failed) =
     probe_loop target rest
       (if is_available node
        then (if node_id node \<noteq> [] \<and> node_id node \<notin> seen \<and> int (length merged) < target
              then ((merged @ [node], insert (node_id node) seen), failed)
              else ((merged, seen), failed))
        else ((merged, seen), failed @ [node]))"

definition merge_probe_results ::
  "pydict list \<Rightarrow> pydict list \<Rightarrow> int \<Rightarrow> pydict list \<times> pydict list" where
  "merge_probe_results pool results target =
    (case probe_loop target results ((pool, set (map node_id pool)), []) of
       ((merged, _), failed) \<Rightarrow> (slice_to merged target, failed))"

section \<open>Rebalancing the bounded pool\<close>

definition country_of :: "pydict \<Rightarrow> string" where
  "country_of item = country_field ''country_short'' item"

definition residential_kind :: "string \<Rightarrow> bool" where
  "residential_kind kind = (kind = ''residential'' \<or> kind = ''mobile'')"

definition latency_of :: "pydict \<Rightarrow> pyexc + int" where
  "latency_of item = catch_value_error
     (py_int (py_or (py_or (dgetN item ''latency_ms'') (dgetN item ''ping'')) (PInt 999999))) 999999"

definition score_of :: "pydict \<Rightarrow> pyexc + flt" where
  "score_of item = catch_value_error
     (err_bind (py_float (py_or (dgetN item ''score'') (PInt 0))) (\<lambda>f. Inr (flt_neg f))) (Fin 0)"

type_synonym quality_key = "nat \<times> int \<times> flt \<times> string"

definition quality :: "pydict \<Rightarrow> pyexc + quality_key" where
  "quality item =
    (let kind = py_lower (py_strip (str_or_empty (dgetN item ''ip_type'')));
         kind_rank = (if residential_kind kind then 0 else 1)
     in err_bind (latency_of item) (\<lambda>latency.
        err_bind (score_of item) (\<lambda>score.
        Inr (kind_rank, latency, score, node_id item))))"

definition quality_ok :: "pydict \<Rightarrow> bool" where
  "quality_ok item = (case quality item of Inl _ \<Rightarrow> False | Inr _ \<Rightarrow> True)"

definition quality_rank :: "pydict \<Rightarrow> quality_key" where
  "quality_rank item = (case quality item of Inr k \<Rightarrow> k | Inl _ \<Rightarrow> (0, 0, Fin 0, []))"

text \<open>\<open>by_id\<close>: later entries replace earlier ones and keep their place.\<close>

fun index_nodes :: "pydict list \<Rightarrow> (string \<times> pydict) list \<Rightarrow> (string \<times> pydict) list" where
  "index_nodes [] by_id = by_id"
| "index_nodes (item # rest) by_id =
     index_nodes rest
       (if node_id item = [] then by_id else AList.update (node_id item) item by_id)"

definition pool_add :: "nat \<Rightarrow> bool \<Rightarrow> pydict \<Rightarrow> pool_acc \<Rightarrow> pool_acc" where
  "pool_add capacity allow_unavailable item acc = (case acc of (selected, seen) \<Rightarrow>
     if length selected \<ge> capacity \<or> node_id item = [] \<or> node_id item \<in> seen then acc
     else if \<not> allow_unavailable \<and> \<not> is_available item then acc
     else (selected @ [item], insert (node_id item) seen))"

fun add_listed :: "nat \<Rightarrow> bool \<Rightarrow> (string \<rightharpoonup> pydict) \<Rightarrow> string list \<Rightarrow> pool_acc \<Rightarrow> pool_acc" where
  "add_listed capacity allow by_id [] acc = acc"
| "add_listed capacity allow by_id (nid # rest) acc =
     add_listed capacity allow by_id rest
       (case by_id nid of Some item \<Rightarrow> pool_add capacity allow item acc | None \<Rightarrow> acc)"

fun add_countries :: "nat \<Rightarrow> string set \<Rightarrow> pydict list \<Rightarrow> string list \<Rightarrow> pool_acc \<Rightarrow> pool_acc" where
  "add_countries capacity existing_ids available [] acc = acc"
| "add_countries capacity existing_ids available (code # rest) acc =
     add_countries capacity existing_ids available rest
       (if list_ex (\<lambda>item. country_of item = code) (fst acc) then acc
        else (let candidates = filter (\<lambda>item. country_of item = code) available;
                  old = filter (\<lambda>item. node_id item \<in> existing_ids) candidates;
                  choice = (if old = [] then candidates else old)
              in (case sort_key quality_rank choice of
                    [] \<Rightarrow> acc
                  | best # _ \<Rightarrow> pool_add capacity False best acc)))"

definition member_eq :: "pydict \<Rightarrow> pydict list \<Rightarrow> bool" where
  "member_eq item items = list_ex (\<lambda>x. x = item \<or> py_eq (PDict x) (PDict item)) items"

definition rebalance_valid_pool ::
  "pydict list \<Rightarrow> pydict list \<Rightarrow> string set \<Rightarrow> string set \<Rightarrow> int \<Rightarrow> pyexc + pydict list" where
  "rebalance_valid_pool existing refreshed protected_ids manual_ids limit =
    (let capacity = nat (max 0 (min 512 limit));
         existing_ids = set (map node_id existing);
         by_id = index_nodes (existing @ refreshed) [];
         acc = add_listed capacity True (map_of by_id) (sorted_list_of_set protected_ids) ([], {});
         acc = add_listed capacity False (map_of by_id) (sorted_list_of_set manual_ids) acc;
         available = filter is_available (map snd by_id);
         existing_countries = sorted_set (filter (\<lambda>c. c \<noteq> [])
           (map country_of (filter (\<lambda>i. node_id i \<in> existing_ids) available)));
         new_countries = filter (\<lambda>c. c \<notin> set existing_countries)
           (sorted_set (filter (\<lambda>c. c \<noteq> []) (map country_of available)));
         acc = add_countries capacity existing_ids available (existing_countries @ new_countries) acc;
         old_healthy = sort_key quality_rank (filter (\<lambda>i. node_id i \<in> existing_ids) available);
         new_residential = sort_key quality_rank (filter (\<lambda>i. node_id i \<notin> existing_ids
           \<and> residential_kind (py_lower (str_or_empty (dgetN i ''ip_type'')))) available);
         new_datacenter = sort_key quality_rank (filter (\<lambda>i. node_id i \<notin> existing_ids
           \<and> \<not> member_eq i new_residential) available);
         acc = fold (pool_add capacity False) (old_healthy @ new_residential @ new_datacenter) acc
     in if list_all quality_ok available then Inr (fst acc) else Inl OverflowError)"

section \<open>The collectors of the pool\<close>

interpretation append_acc: dedup_acc node_id "\<lambda>n. node_id n \<noteq> []"
  "\<lambda>n acc. fst (append_node n acc)"
  by unfold_locales (auto simp: append_node_def)

interpretation pool_acc: bounded_dedup node_id "\<lambda>n. node_id n \<noteq> [] \<and> (allow \<or> is_available n)"
  "pool_add capacity allow" capacity for capacity allow
  by unfold_locales (auto simp: pool_add_def)

lemma add_listed_fold:
  "add_listed capacity allow m ids acc
    = fold (pool_add capacity allow) (List.map_filter m ids) acc"
  by (induction ids arbitrary: acc) (auto simp: map_filter_simps split: option.split)

lemma sort_key_hd_mem: "sort_key f xs = y # ys \<Longrightarrow> y \<in> set xs"
  by (metis list.set_intros(1) set_sort)

lemma sort_key_nonempty:
  assumes "xs \<noteq> []"
  obtains y ys where "sort_key f xs = y # ys"
proof (cases "sort_key f xs")
  case Nil
  then have "set xs = {}" by (metis list.set(1) set_sort)
  with assms show ?thesis by simp
next
  case (Cons y ys)
  then show ?thesis by (rule that)
qed

lemma add_countries_fold:
  "\<exists>ns. set ns \<subseteq> set available \<and>
    add_countries capacity ids available codes acc = fold (pool_add capacity False) ns acc"
proof (induction codes arbitrary: acc)
  case Nil
  then show ?case by (intro exI [of _ "[]"]) simp
next
  case (Cons code codes)
  have step: "add_countries capacity ids available (code # codes) acc
      = add_countries capacity ids available codes acc \<or>
    (\<exists>best \<in> set available. add_countries capacity ids available (code # codes) acc
      = add_countries capacity ids available codes (pool_add capacity False best acc))"
    by (auto simp: Let_def split: list.split dest!: sort_key_hd_mem)
  then show ?case
  proof
    assume "add_countries capacity ids available (code # codes) acc
      = add_countries capacity ids available codes acc"
    with Cons.IH show ?thesis by simp
  next
    assume "\<exists>best \<in> set available. add_countries capacity ids available (code # codes) acc
      = add_countries capacity ids available codes (pool_add capacity False best acc)"
    then obtain best where best: "best \<in> set available"
      "add_countries capacity ids available (code # codes) acc
        = add_countries capacity ids available codes (pool_add capacity False best acc)" by blast
    obtain ns where "set ns \<subseteq> set available"
      "add_countries capacity ids available codes (pool_add capacity False best acc)
        = fold (pool_add capacity False) ns (pool_add capacity False best acc)"
      using Cons.IH by blast
    with best show ?thesis by (intro exI [of _ "best # ns"]) simp
  qed
qed

section \<open>The index of nodes\<close>

lemma map_of_index_nodes:
  "k \<noteq> [] \<Longrightarrow> map_of (index_nodes ns m) k =
    (case find (\<lambda>n. node_id n = k) (rev ns) of Some n \<Rightarrow> Some n | None \<Rightarrow> map_of m k)"
proof (induction ns arbitrary: m)
  case (Cons n ns)
  have f: "find P (xs @ [y]) = (case find P xs of Some z \<Rightarrow> Some z | None \<Rightarrow> if P y then Some y else None)"
    for P :: "pydict \<Rightarrow> bool" and xs y by (induction xs) auto
  show ?case
    using Cons by (auto simp: f update_conv split: option.split)
qed simp

lemma distinct_index_nodes:
  "distinct (map fst m) \<Longrightarrow> distinct (map fst (index_nodes ns m))"
  by (induction ns arbitrary: m) (auto simp: distinct_update)

lemma update_mem: "p \<in> set (AList.update k v m) \<Longrightarrow> p \<in> set m \<or> p = (k, v)"
  by (induction m) (auto split: if_splits)

lemma keys_index_nodes:
  "\<forall>p \<in> set m. fst p = node_id (snd p) \<and> fst p \<noteq> [] \<Longrightarrow> distinct (map fst m) \<Longrightarrow>
    \<forall>p \<in> set (index_nodes ns m). fst p = node_id (snd p) \<and> fst p \<noteq> []"
proof (induction ns arbitrary: m)
  case (Cons n ns)
  have "\<forall>p \<in> set (AList.update (node_id n) n m). fst p = node_id (snd p) \<and> fst p \<noteq> []"
    if "node_id n \<noteq> []"
  proof
    fix p
    assume "p \<in> set (AList.update (node_id n) n m)"
    then have "p \<in> set m \<or> p = (node_id n, n)" by (rule update_mem)
    with that Cons.prems(1) show "fst p = node_id (snd p) \<and> fst p \<noteq> []" by auto
  qed
  note upd = this
  show ?case
  proof (cases "node_id n = []")
    case True
    with Cons.IH [OF Cons.prems] show ?thesis by (simp only: index_nodes.simps if_True simp_thms)
  next
    case False
    from Cons.IH [OF upd [OF False] distinct_update [OF Cons.prems(2)]] False show ?thesis
      by (simp only: index_nodes.simps if_False simp_thms)
  qed
qed (simp only: index_nodes.simps)

text \<open>The value indexed under an identity is the last node offered with it.\<close>

definition latest :: "pydict list \<Rightarrow> pydict \<Rightarrow> bool" where
  "latest nodes n = (find (\<lambda>m. node_id m = node_id n) (rev nodes) = Some n)"

lemma latest_mem: "latest nodes n \<Longrightarrow> n \<in> set nodes"
  by (auto simp: latest_def find_Some_iff) (metis length_rev nth_mem set_rev)

lemma latest_unique: "latest ns a \<Longrightarrow> latest ns b \<Longrightarrow> node_id a = node_id b \<Longrightarrow> a = b"
  by (simp add: latest_def)

lemma index_values:
  "n \<in> snd ` set (index_nodes ns []) \<longleftrightarrow> node_id n \<noteq> [] \<and> latest ns n"
proof
  assume "n \<in> snd ` set (index_nodes ns [])"
  then obtain k where kn: "(k, n) \<in> set (index_nodes ns [])" by auto
  with keys_index_nodes [of "[]" ns] have k: "k = node_id n" "k \<noteq> []" by auto
  have "map_of (index_nodes ns []) k = Some n"
    using kn distinct_index_nodes [of "[]" ns] by simp
  with k show "node_id n \<noteq> [] \<and> latest ns n"
    by (auto simp: map_of_index_nodes latest_def split: option.splits)
next
  assume "node_id n \<noteq> [] \<and> latest ns n"
  then have "map_of (index_nodes ns []) (node_id n) = Some n"
    by (simp add: map_of_index_nodes latest_def)
  then show "n \<in> snd ` set (index_nodes ns [])"
    by (metis image_eqI map_of_SomeD snd_conv)
qed

lemma index_lookup:
  "map_of (index_nodes ns []) k = Some n \<longleftrightarrow> k \<noteq> [] \<and> node_id n = k \<and> latest ns n"
proof
  assume m: "map_of (index_nodes ns []) k = Some n"
  then have "(k, n) \<in> set (index_nodes ns [])" by (rule map_of_SomeD)
  with keys_index_nodes [of "[]" ns] have k: "node_id n = k" "k \<noteq> []" by auto
  with m show "k \<noteq> [] \<and> node_id n = k \<and> latest ns n"
    by (auto simp: map_of_index_nodes latest_def split: option.splits)
next
  assume "k \<noteq> [] \<and> node_id n = k \<and> latest ns n"
  then show "map_of (index_nodes ns []) k = Some n"
    by (auto simp: map_of_index_nodes latest_def)
qed

section \<open>What rebalancing guarantees\<close>

text \<open>The stages of \<open>rebalance_valid_pool\<close>, named for the proofs.\<close>

definition stage_protected :: "nat \<Rightarrow> pydict list \<Rightarrow> string set \<Rightarrow> pool_acc" where
  "stage_protected capacity nodes protected_ids =
     fold (pool_add capacity True)
       (List.map_filter (map_of (index_nodes nodes [])) (sorted_list_of_set protected_ids)) ([], {})"

definition stage_manual :: "nat \<Rightarrow> pydict list \<Rightarrow> string set \<Rightarrow> pool_acc \<Rightarrow> pool_acc" where
  "stage_manual capacity nodes manual_ids acc =
     fold (pool_add capacity False)
       (List.map_filter (map_of (index_nodes nodes [])) (sorted_list_of_set manual_ids)) acc"

definition available_nodes :: "pydict list \<Rightarrow> pydict list" where
  "available_nodes nodes = filter is_available (map snd (index_nodes nodes []))"

lemma mem_available_nodes:
  "n \<in> set (available_nodes nodes) \<longleftrightarrow> node_id n \<noteq> [] \<and> latest nodes n \<and> is_available n"
  using index_values [of n nodes] by (auto simp: available_nodes_def)

lemma rebalance_stages:
  assumes "rebalance_valid_pool existing refreshed protected_ids manual_ids limit = Inr out"
  obtains codes rest where
    "out = fst (fold (pool_add (nat (max 0 (min 512 limit))) False) rest
      (add_countries (nat (max 0 (min 512 limit))) (set (map node_id existing))
        (available_nodes (existing @ refreshed)) codes
        (stage_manual (nat (max 0 (min 512 limit))) (existing @ refreshed) manual_ids
          (stage_protected (nat (max 0 (min 512 limit))) (existing @ refreshed) protected_ids))))"
    and "set rest \<subseteq> set (available_nodes (existing @ refreshed))"
    and "set codes = {c. c \<noteq> [] \<and> c \<in> country_of ` set (available_nodes (existing @ refreshed))}"
    and "distinct codes"
    and "\<And>n. n \<in> set (available_nodes (existing @ refreshed)) \<Longrightarrow>
      n \<in> set rest \<or> (\<exists>x \<in> set rest. py_eq (PDict x) (PDict n))"
proof -
  let ?cap = "nat (max 0 (min 512 limit))"
  let ?nodes = "existing @ refreshed"
  let ?av = "available_nodes ?nodes"
  let ?old = "\<lambda>i. node_id i \<in> set (map node_id existing)"
  let ?res = "\<lambda>i. residential_kind (py_lower (str_or_empty (dgetN i ''ip_type'')))"
  define ec where "ec = sorted_set (filter (\<lambda>c. c \<noteq> []) (map country_of (filter ?old ?av)))"
  define nc where "nc = filter (\<lambda>c. c \<notin> set ec) (sorted_set (filter (\<lambda>c. c \<noteq> []) (map country_of ?av)))"
  define nr where "nr = sort_key quality_rank (filter (\<lambda>i. \<not> ?old i \<and> ?res i) ?av)"
  define nd where "nd = sort_key quality_rank (filter (\<lambda>i. \<not> ?old i \<and> \<not> member_eq i nr) ?av)"
  define rest where "rest = sort_key quality_rank (filter ?old ?av) @ nr @ nd"
  have "out = fst (fold (pool_add ?cap False) rest
      (add_countries ?cap (set (map node_id existing)) ?av (ec @ nc)
        (stage_manual ?cap ?nodes manual_ids (stage_protected ?cap ?nodes protected_ids))))"
    using assms unfolding rebalance_valid_pool_def Let_def stage_manual_def stage_protected_def
      add_listed_fold available_nodes_def [symmetric] ec_def [symmetric] nc_def [symmetric]
      nr_def [symmetric] nd_def [symmetric] rest_def [symmetric]
    by (simp split: if_splits)
  moreover have "set rest \<subseteq> set ?av" by (auto simp: rest_def nr_def nd_def)
  moreover have "set (ec @ nc) = {c. c \<noteq> [] \<and> c \<in> country_of ` set ?av}"
    by (auto simp: ec_def nc_def)
  moreover have "distinct (ec @ nc)" by (auto simp: ec_def nc_def)
  moreover have "n \<in> set rest \<or> (\<exists>x \<in> set rest. py_eq (PDict x) (PDict n))"
    if "n \<in> set ?av" for n
    using that by (auto simp: rest_def nd_def member_eq_def list_ex_iff)
  ultimately show ?thesis by (rule that)
qed

lemma map_filter_mem: "x \<in> set (List.map_filter f xs) \<longleftrightarrow> (\<exists>y \<in> set xs. f y = Some x)"
  by (induction xs) (auto simp: map_filter_simps split: option.splits)

lemma acc_inv_append: "append_acc.acc_inv acc = (snd acc = node_id ` set (fst acc) \<and> distinct (map node_id (fst acc)))"
  by (rule append_acc.acc_inv_def)

text \<open>Each stage extends the list before it by admissible nodes.\<close>

lemma stage_chain:
  assumes "rebalance_valid_pool existing refreshed protected_ids manual_ids limit = Inr out"
  defines "cap \<equiv> nat (max 0 (min 512 limit))"
  defines "nodes \<equiv> existing @ refreshed"
  obtains ps ms cs rs where
    "out = ps @ ms @ cs @ rs" "ps = fst (stage_protected cap nodes protected_ids)"
    "ps @ ms = fst (stage_manual cap nodes manual_ids (stage_protected cap nodes protected_ids))"
    "\<And>n. n \<in> set ps \<Longrightarrow> \<exists>k \<in> set (sorted_list_of_set protected_ids). map_of (index_nodes nodes []) k = Some n"
    "\<And>n. n \<in> set ms \<Longrightarrow> (\<exists>k \<in> set (sorted_list_of_set manual_ids). map_of (index_nodes nodes []) k = Some n)
      \<and> is_available n"
    "\<And>n. n \<in> set (cs @ rs) \<Longrightarrow> n \<in> set (available_nodes nodes)"
    "distinct (map node_id out)" "length out \<le> cap"
proof -
  obtain codes rest where out:
    "out = fst (fold (pool_add cap False) rest
      (add_countries cap (set (map node_id existing)) (available_nodes nodes) codes
        (stage_manual cap nodes manual_ids (stage_protected cap nodes protected_ids))))"
    and rest: "set rest \<subseteq> set (available_nodes nodes)"
    by (rule rebalance_stages [OF assms(1), folded cap_def nodes_def]) (rule that)
  obtain ns where ns: "set ns \<subseteq> set (available_nodes nodes)"
    "add_countries cap (set (map node_id existing)) (available_nodes nodes) codes
        (stage_manual cap nodes manual_ids (stage_protected cap nodes protected_ids))
      = fold (pool_add cap False) ns
          (stage_manual cap nodes manual_ids (stage_protected cap nodes protected_ids))"
    using add_countries_fold by blast
  let ?P = "List.map_filter (map_of (index_nodes nodes [])) (sorted_list_of_set protected_ids)"
  let ?M = "List.map_filter (map_of (index_nodes nodes [])) (sorted_list_of_set manual_ids)"
  obtain ps where ps: "fst (stage_protected cap nodes protected_ids) = ps" "set ps \<subseteq> set ?P"
    using pool_acc.fold_extends [of cap True ?P "([], {})"] unfolding stage_protected_def by auto
  obtain ms where ms: "fst (stage_manual cap nodes manual_ids (stage_protected cap nodes protected_ids))
      = ps @ ms" "set ms \<subseteq> set ?M" "\<forall>z \<in> set ms. is_available z"
    using pool_acc.fold_extends [of cap False ?M "stage_protected cap nodes protected_ids"]
    unfolding stage_manual_def ps(1) by auto
  let ?final = "fold (pool_add cap False) (ns @ rest)
      (stage_manual cap nodes manual_ids (stage_protected cap nodes protected_ids))"
  have fin: "out = fst ?final" unfolding out ns(2) by simp
  obtain crs where crs: "out = (ps @ ms) @ crs" "set crs \<subseteq> set (ns @ rest)"
    using pool_acc.fold_extends [of cap False "ns @ rest"
        "stage_manual cap nodes manual_ids (stage_protected cap nodes protected_ids)"]
    unfolding ms(1) fin by blast
  have inv: "append_acc.acc_inv ?final"
    unfolding stage_manual_def stage_protected_def
    by (intro pool_acc.fold_inv pool_acc.acc_inv_empty)
  have bound: "length (fst ?final) \<le> cap"
    unfolding stage_manual_def stage_protected_def
    by (intro pool_acc.fold_bound) simp
  show ?thesis
  proof (rule that [of ps ms crs "[]"])
    show "out = ps @ ms @ crs @ []" using crs(1) by simp
    show "ps = fst (stage_protected cap nodes protected_ids)" using ps(1) by simp
    show "ps @ ms = fst (stage_manual cap nodes manual_ids (stage_protected cap nodes protected_ids))"
      using ms(1) by simp
    show "\<exists>k \<in> set (sorted_list_of_set protected_ids). map_of (index_nodes nodes []) k = Some n"
      if "n \<in> set ps" for n using subsetD [OF ps(2) that] by (simp only: map_filter_mem)
    show "(\<exists>k \<in> set (sorted_list_of_set manual_ids). map_of (index_nodes nodes []) k = Some n)
      \<and> is_available n" if "n \<in> set ms" for n
      using subsetD [OF ms(2) that] bspec [OF ms(3) that] by (simp only: map_filter_mem simp_thms)
    show "n \<in> set (available_nodes nodes)" if "n \<in> set (crs @ [])" for n
      using that crs(2) ns(1) rest by auto
    show "distinct (map node_id out)" using inv fin by (simp add: acc_inv_append)
    show "length out \<le> cap" using bound fin by simp
  qed
qed

text \<open>Every identity chosen under a list of identities comes from that list.\<close>

lemma looked_up_ids:
  assumes "\<And>n. n \<in> set ps \<Longrightarrow> \<exists>k \<in> set ids. map_of (index_nodes nodes []) k = Some n"
  shows "node_id ` set ps \<subseteq> set ids" and "\<And>n. n \<in> set ps \<Longrightarrow> latest nodes n \<and> node_id n \<noteq> []"
  using assms by (auto simp: index_lookup)

text \<open>Rebalancing returns at most the capacity (itself at most 512) nodes, no identity
  twice and none empty, each node is the newest version offered under its identity, and a
  node that is not available is there only because it is protected.\<close>

theorem rebalance_well_formed:
  assumes "rebalance_valid_pool existing refreshed protected_ids manual_ids limit = Inr out"
    and "finite protected_ids"
  shows "int (length out) \<le> max 0 (min 512 limit) \<and> distinct (map node_id out)
    \<and> (\<forall>n \<in> set out. node_id n \<noteq> [] \<and> latest (existing @ refreshed) n
          \<and> (is_available n \<or> node_id n \<in> protected_ids))"
proof -
  let ?cap = "nat (max 0 (min 512 limit))"
  let ?nodes = "existing @ refreshed"
  obtain ps ms cs rs where out: "out = ps @ ms @ cs @ rs"
    and ps: "\<And>n. n \<in> set ps \<Longrightarrow> \<exists>k \<in> set (sorted_list_of_set protected_ids).
        map_of (index_nodes ?nodes []) k = Some n"
    and ms: "\<And>n. n \<in> set ms \<Longrightarrow> (\<exists>k \<in> set (sorted_list_of_set manual_ids).
        map_of (index_nodes ?nodes []) k = Some n) \<and> is_available n"
    and cs: "\<And>n. n \<in> set (cs @ rs) \<Longrightarrow> n \<in> set (available_nodes ?nodes)"
    and d: "distinct (map node_id out)" "length out \<le> ?cap"
    by (rule stage_chain [OF assms(1)]) (rule that)
  have "node_id n \<noteq> [] \<and> latest ?nodes n \<and> (is_available n \<or> node_id n \<in> protected_ids)"
    if "n \<in> set out" for n
  proof -
    from that out consider "n \<in> set ps" | "n \<in> set ms" | "n \<in> set (cs @ rs)" by auto
    then show ?thesis
    proof cases
      case 1
      then show ?thesis
        using looked_up_ids [of ps "sorted_list_of_set protected_ids" ?nodes] ps assms(2) by auto
    next
      case 2
      then show ?thesis using ms [OF 2] by (auto simp: index_lookup)
    next
      case 3
      then show ?thesis using cs [OF 3] by (simp add: mem_available_nodes)
    qed
  qed
  with d show ?thesis by auto
qed

text \<open>A protected node, available or not, survives rebalancing as long as the protected
  identities fit into the capacity.\<close>

theorem rebalance_keeps_protected:
  assumes "rebalance_valid_pool existing refreshed protected_ids manual_ids limit = Inr out"
    and "finite protected_ids" and "int (card protected_ids) \<le> max 0 (min 512 limit)"
    and "p \<in> protected_ids" and "p \<noteq> []" and "p \<in> node_id ` set (existing @ refreshed)"
  shows "p \<in> node_id ` set out"
proof -
  let ?cap = "nat (max 0 (min 512 limit))"
  let ?nodes = "existing @ refreshed"
  let ?ids = "sorted_list_of_set protected_ids"
  let ?P = "List.map_filter (map_of (index_nodes ?nodes [])) ?ids"
  obtain ps ms cs rs where out: "out = ps @ ms @ cs @ rs"
    and ps: "ps = fst (stage_protected ?cap ?nodes protected_ids)"
      "\<And>n. n \<in> set ps \<Longrightarrow> \<exists>k \<in> set ?ids. map_of (index_nodes ?nodes []) k = Some n"
    and d: "distinct (map node_id out)"
    by (rule stage_chain [OF assms(1)]) (rule that)
  have sub: "node_id ` set ps \<subseteq> protected_ids"
    using looked_up_ids(1) [of ps ?ids ?nodes] ps(2) assms(2) by auto
  have len: "length ps = card (node_id ` set ps)"
    using d out distinct_card [of "map node_id ps"] by simp
  obtain m where m: "m \<in> set ?nodes" "node_id m = p" using assms(6) by auto
  then have "find (\<lambda>x. node_id x = p) (rev ?nodes) \<noteq> None"
    unfolding find_None_iff by (metis set_rev)
  then obtain n where n: "find (\<lambda>x. node_id x = p) (rev ?nodes) = Some n" by blast
  then have np: "node_id n = p" by (auto simp: find_Some_iff)
  with n assms(5) have "map_of (index_nodes ?nodes []) p = Some n"
    by (simp add: index_lookup latest_def)
  then have nP: "n \<in> set ?P" using assms(2,4) by (auto simp: map_filter_mem)
  have "p \<in> node_id ` set ps"
  proof (cases "length ps < ?cap")
    case True
    have "node_id n \<noteq> [] \<and> (True \<or> is_available n)" using np assms(5) by simp
    from pool_acc.fold_complete [OF pool_acc.acc_inv_empty nP this
        True [unfolded ps(1) stage_protected_def]]
    show ?thesis unfolding ps(1) stage_protected_def np .
  next
    case False
    with len assms(3) have "card protected_ids \<le> card (node_id ` set ps)" by linarith
    then have "node_id ` set ps = protected_ids"
      using sub assms(2) by (metis card_seteq)
    with assms(4) show ?thesis by simp
  qed
  with out show ?thesis by auto
qed

text \<open>The identity of a node is a string in every document the service writes.\<close>

definition string_id :: "pydict \<Rightarrow> bool" where
  "string_id n = (\<exists>s. dget n ''id'' = Some (PStr s))"

lemma py_eq_dict_field:
  assumes "py_eq (PDict x) (PDict n)" "dget x k = Some (PStr s)"
  shows "dget n k = Some (PStr s)"
proof -
  from assms(2) have "(k, PStr s) \<in> set x" by (simp add: dget_def map_of_SomeD)
  moreover have "\<forall>p \<in> set x. case map_of n (fst p) of
      None \<Rightarrow> False | Some w \<Rightarrow> py_eq (snd p) w"
    using assms(1) by (simp add: py_eq.simps [of "PDict x" "PDict n"])
  ultimately have "case map_of n k of None \<Rightarrow> False | Some w \<Rightarrow> py_eq (PStr s) w"
    by (metis fst_conv snd_conv)
  then obtain w where "map_of n k = Some w" "py_eq (PStr s) w" by (auto split: option.splits)
  then show ?thesis by (cases w) (auto simp: py_eq.simps [of "PStr s"] dget_def)
qed

text \<open>Unless the result is full, no available node is left out: rebalancing drops a
  healthy node only for lack of room.\<close>

theorem rebalance_complete:
  assumes "rebalance_valid_pool existing refreshed protected_ids manual_ids limit = Inr out"
    and "int (length out) < max 0 (min 512 limit)"
    and "\<forall>n \<in> set (existing @ refreshed). string_id n"
    and "latest (existing @ refreshed) n" and "is_available n" and "node_id n \<noteq> []"
  shows "node_id n \<in> node_id ` set out"
proof -
  let ?cap = "nat (max 0 (min 512 limit))"
  let ?nodes = "existing @ refreshed"
  obtain codes rest where out:
    "out = fst (fold (pool_add ?cap False) rest
      (add_countries ?cap (set (map node_id existing)) (available_nodes ?nodes) codes
        (stage_manual ?cap ?nodes manual_ids (stage_protected ?cap ?nodes protected_ids))))"
    and rest: "set rest \<subseteq> set (available_nodes ?nodes)"
      "\<And>n. n \<in> set (available_nodes ?nodes) \<Longrightarrow>
        n \<in> set rest \<or> (\<exists>x \<in> set rest. py_eq (PDict x) (PDict n))"
    by (rule rebalance_stages [OF assms(1)]) (rule that)
  let ?acc = "add_countries ?cap (set (map node_id existing)) (available_nodes ?nodes) codes
        (stage_manual ?cap ?nodes manual_ids (stage_protected ?cap ?nodes protected_ids))"
  obtain ns where ns: "?acc = fold (pool_add ?cap False) ns
      (stage_manual ?cap ?nodes manual_ids (stage_protected ?cap ?nodes protected_ids))"
    using add_countries_fold by blast
  have "append_acc.acc_inv (fold (pool_add ?cap False) ns
      (stage_manual ?cap ?nodes manual_ids (stage_protected ?cap ?nodes protected_ids)))"
    unfolding stage_manual_def stage_protected_def
    by (intro pool_acc.fold_inv pool_acc.acc_inv_empty)
  then have inv: "append_acc.acc_inv ?acc" by (simp only: ns)
  have complete: "node_id x \<in> node_id ` set out" if "x \<in> set rest" for x
  proof -
    from that rest(1) have "is_available x" "node_id x \<noteq> []" by (auto simp: mem_available_nodes)
    moreover have "length (fst (fold (pool_add ?cap False) rest ?acc)) < ?cap"
      using assms(2) unfolding out by linarith
    ultimately show ?thesis
      using pool_acc.fold_complete [OF inv that, where allow = False and capacity = ?cap]
      unfolding out by blast
  qed
  have "n \<in> set (available_nodes ?nodes)" using assms(4-6) by (simp add: mem_available_nodes)
  then consider "n \<in> set rest" | x where "x \<in> set rest" "py_eq (PDict x) (PDict n)"
    using rest(2) by blast
  then show ?thesis
  proof cases
    case 1
    then show ?thesis by (rule complete)
  next
    case 2
    then have "latest ?nodes x" using rest(1) mem_available_nodes by blast
    then have "x \<in> set ?nodes" by (rule latest_mem)
    with assms(3) obtain s where "dget x ''id'' = Some (PStr s)" by (auto simp: string_id_def)
    with 2 have "dget n ''id'' = Some (PStr s)" by (metis py_eq_dict_field)
    with \<open>dget x ''id'' = Some (PStr s)\<close> have "node_id n = node_id x"
      by (simp add: node_id_def dget_or_def)
    with complete [OF 2(1)] show ?thesis by simp
  qed
qed

text \<open>The country loop represents every listed country while there is room for all.\<close>

lemma pool_add_takes:
  "append_acc.acc_inv acc \<Longrightarrow> length (fst acc) < capacity \<Longrightarrow> node_id n \<noteq> [] \<Longrightarrow> is_available n \<Longrightarrow>
    node_id n \<notin> node_id ` set (fst acc) \<Longrightarrow> fst (pool_add capacity False n acc) = fst acc @ [n]"
  by (auto simp: pool_add_def acc_inv_append split: prod.split)

lemma add_countries_cover:
  assumes "append_acc.acc_inv acc" "\<forall>x \<in> set (fst acc). latest nodes x"
    and "length (fst acc) + length codes \<le> capacity"
    and "\<forall>c \<in> set codes. c \<in> country_of ` set (available_nodes nodes)"
  shows "set codes \<subseteq> country_of ` set (fst (add_countries capacity ids (available_nodes nodes) codes acc))"
  using assms
proof (induction codes arbitrary: acc)
  case Nil
  then show ?case by simp
next
  case (Cons c codes)
  let ?av = "available_nodes nodes"
  let ?cands = "filter (\<lambda>i. country_of i = c) ?av"
  let ?old = "filter (\<lambda>i. node_id i \<in> ids) ?cands"
  let ?choice = "if ?old = [] then ?cands else ?old"
  obtain acc' where acc': "add_countries capacity ids ?av (c # codes) acc
      = add_countries capacity ids ?av codes acc'"
    "c \<in> country_of ` set (fst acc')" "append_acc.acc_inv acc'"
    "\<forall>x \<in> set (fst acc'). latest nodes x" "length (fst acc') \<le> Suc (length (fst acc))"
  proof (cases "list_ex (\<lambda>i. country_of i = c) (fst acc)")
    case True
    with Cons.prems show ?thesis by (intro that [of acc]) (auto simp: list_ex_iff)
  next
    case False
    have "?choice \<noteq> []" using Cons.prems(4) by (auto simp: filter_empty_conv)
    then obtain best more where best: "sort_key quality_rank ?choice = best # more"
      by (rule sort_key_nonempty)
    then have "best \<in> set ?choice" by (rule sort_key_hd_mem)
    then have b: "country_of best = c" "best \<in> set ?av" by (auto split: if_splits)
    then have bl: "latest nodes best" "node_id best \<noteq> []" "is_available best"
      by (simp_all add: mem_available_nodes)
    have "node_id best \<notin> node_id ` set (fst acc)"
    proof
      assume "node_id best \<in> node_id ` set (fst acc)"
      then obtain y where "y \<in> set (fst acc)" "node_id y = node_id best" by auto
      with Cons.prems(2) bl(1) have "best \<in> set (fst acc)" by (metis latest_unique)
      with False b(1) show False by (auto simp: list_ex_iff)
    qed
    then have "fst (pool_add capacity False best acc) = fst acc @ [best]"
      using Cons.prems(1,3) bl by (intro pool_add_takes) auto
    moreover have "append_acc.acc_inv (pool_add capacity False best acc)"
      using pool_acc.collect_inv Cons.prems(1) .
    moreover have "add_countries capacity ids ?av (c # codes) acc
      = add_countries capacity ids ?av codes (pool_add capacity False best acc)"
      using False best by (simp only: add_countries.simps Let_def if_False list.case)
    ultimately show ?thesis using Cons.prems(2) b bl
      by (intro that [of "pool_add capacity False best acc"]) auto
  qed
  then have "set codes \<subseteq> country_of ` set (fst (add_countries capacity ids ?av codes acc'))"
    using Cons.prems(3,4) by (intro Cons.IH) auto
  moreover obtain ns where
    "add_countries capacity ids ?av codes acc' = fold (pool_add capacity False) ns acc'"
    using add_countries_fold by blast
  then have "set (fst acc') \<subseteq> set (fst (add_countries capacity ids ?av codes acc'))"
    using pool_acc.fold_subset by metis
  ultimately show ?case using acc'(1,2) by auto
qed

text \<open>Every country with an available node keeps a representative, as long as the protected
  and manual identities and one node for each country fit into the capacity.\<close>

theorem rebalance_covers_countries:
  assumes "rebalance_valid_pool existing refreshed protected_ids manual_ids limit = Inr out"
    and "finite protected_ids" and "finite manual_ids"
    and "int (card protected_ids + card manual_ids
          + card (country_of ` {m. latest (existing @ refreshed) m \<and> is_available m \<and> node_id m \<noteq> []} - {[]}))
        \<le> max 0 (min 512 limit)"
    and "latest (existing @ refreshed) n" and "is_available n" and "node_id n \<noteq> []"
    and "country_of n \<noteq> []"
  shows "country_of n \<in> country_of ` set out"
proof -
  define cap where "cap = nat (max 0 (min 512 limit))"
  define nodes where "nodes = existing @ refreshed"
  let ?av = "available_nodes nodes"
  obtain codes rest where out:
    "out = fst (fold (pool_add cap False) rest
      (add_countries cap (set (map node_id existing)) ?av codes
        (stage_manual cap nodes manual_ids (stage_protected cap nodes protected_ids))))"
    and codes: "set codes = {c. c \<noteq> [] \<and> c \<in> country_of ` set ?av}" "distinct codes"
    by (rule rebalance_stages [OF assms(1), folded cap_def nodes_def]) (rule that)
  obtain ps ms cs rs where parts: "out = ps @ ms @ cs @ rs"
    "ps @ ms = fst (stage_manual cap nodes manual_ids (stage_protected cap nodes protected_ids))"
    and ps: "\<And>n. n \<in> set ps \<Longrightarrow> \<exists>k \<in> set (sorted_list_of_set protected_ids).
      map_of (index_nodes nodes []) k = Some n"
    and ms: "\<And>n. n \<in> set ms \<Longrightarrow> (\<exists>k \<in> set (sorted_list_of_set manual_ids).
      map_of (index_nodes nodes []) k = Some n) \<and> is_available n"
    and d: "distinct (map node_id out)"
    by (rule stage_chain [OF assms(1), folded cap_def nodes_def]) (rule that)
  let ?acc = "stage_manual cap nodes manual_ids (stage_protected cap nodes protected_ids)"
  have idp: "node_id ` set ps \<subseteq> protected_ids" "\<And>x. x \<in> set ps \<Longrightarrow> latest nodes x"
    using looked_up_ids [of ps "sorted_list_of_set protected_ids" nodes] ps assms(2) by auto
  have idm: "node_id ` set ms \<subseteq> manual_ids" "\<And>x. x \<in> set ms \<Longrightarrow> latest nodes x"
    using looked_up_ids [of ms "sorted_list_of_set manual_ids" nodes] ms assms(3) by auto
  have "length ps = card (node_id ` set ps)" "length ms = card (node_id ` set ms)"
    using d parts(1) distinct_card [of "map node_id ps"] distinct_card [of "map node_id ms"] by auto
  then have "length (ps @ ms) \<le> card protected_ids + card manual_ids"
    using card_mono [OF assms(2) idp(1)] card_mono [OF assms(3) idm(1)] by simp
  moreover have "set codes = country_of ` {m. latest nodes m \<and> is_available m \<and> node_id m \<noteq> []} - {[]}"
    unfolding codes(1) using mem_available_nodes [of _ nodes] by auto
  then have "length codes = card (country_of ` {m. latest nodes m \<and> is_available m \<and> node_id m \<noteq> []} - {[]})"
    using distinct_card [OF codes(2)] by simp
  ultimately have "length (ps @ ms) + length codes \<le> cap"
    using assms(4) [folded nodes_def] unfolding cap_def by linarith
  then have room: "length (fst ?acc) + length codes \<le> cap"
    by (simp only: parts(2))
  have inv: "append_acc.acc_inv ?acc"
    unfolding stage_manual_def stage_protected_def
    by (intro pool_acc.fold_inv pool_acc.acc_inv_empty)
  have lat: "\<forall>x \<in> set (fst ?acc). latest nodes x"
    unfolding parts(2) [symmetric] using idp(2) idm(2) by auto
  have "set codes \<subseteq> country_of ` set (fst (add_countries cap (set (map node_id existing)) ?av codes ?acc))"
    using codes(1) by (intro add_countries_cover inv lat room) auto
  moreover have "n \<in> set ?av" using assms(5-7) unfolding nodes_def by (simp add: mem_available_nodes)
  then have "country_of n \<in> set codes" using assms(8) codes(1) by auto
  ultimately show ?thesis
    unfolding out using pool_acc.fold_subset [of _ cap False rest] by (meson image_mono subsetD)
qed

section \<open>What a country refresh guarantees\<close>

abbreviation append_to :: "pydict \<Rightarrow> pool_acc \<Rightarrow> pool_acc" where
  "append_to n acc \<equiv> fst (append_node n acc)"

lemma append_covers:
  "append_acc.acc_inv acc \<Longrightarrow> n \<in> set ns \<Longrightarrow> node_id n \<noteq> [] \<Longrightarrow>
    node_id n \<in> node_id ` set (fst (fold append_to ns acc))"
proof (induction ns arbitrary: acc)
  case (Cons m ns)
  have inv: "append_acc.acc_inv (append_to m acc)"
    using Cons.prems(1) by (rule append_acc.collect_inv)
  show ?case
  proof (cases "n = m")
    case True
    have "node_id m \<in> node_id ` set (fst (append_to m acc))"
      using Cons.prems True by (auto simp: append_node_def acc_inv_append split: prod.split)
    then show ?thesis unfolding True fold_simps by (rule append_acc.fold_ident_mono)
  next
    case False
    with Cons.prems(2) have "n \<in> set ns" by simp
    from Cons.IH [OF inv this Cons.prems(3)] show ?thesis by (simp only: fold_simps)
  qed
qed simp

lemma append_added: "snd (append_node n acc) \<longleftrightarrow> length (fst (append_to n acc)) = Suc (length (fst acc))"
  and append_not_added: "\<not> snd (append_node n acc) \<Longrightarrow> append_to n acc = acc"
  by (auto simp: append_node_def split: prod.split)

lemma keep_other_fold:
  "keep_other_countries w ns acc
    = fold append_to (filter (\<lambda>n. country_of n \<noteq> w) ns) acc"
  by (induction ns arbitrary: acc) (auto simp: country_of_def)

lemma keep_protected_fold:
  "keep_protected w P ns (acc, k) =
    (let acc' = fold append_to (filter (\<lambda>n. country_of n = w \<and> node_id n \<in> P) ns) acc
     in (acc', k + int (length (fst acc')) - int (length (fst acc))))"
proof (induction ns arbitrary: acc k)
  case (Cons n ns)
  obtain acc' b where a: "append_node n acc = (acc', b)" by (cases "append_node n acc")
  then have b: "if b then length (fst acc') = Suc (length (fst acc)) else acc' = acc"
    using append_added [of n acc] append_not_added [of n acc] by auto
  show ?case
    using a b by (cases b) (simp_all add: Cons.IH Let_def country_of_def [symmetric])
qed simp

lemma add_refreshed_fold:
  "\<exists>ns'. fst (add_refreshed w target ns (acc, k)) = fold append_to ns' acc
     \<and> set ns' \<subseteq> {n \<in> set ns. country_of n = w \<and> is_available n}
     \<and> int (length (fst (fold append_to ns' acc))) - int (length (fst acc)) \<le> max 0 (target - k)"
proof (induction ns arbitrary: acc k)
  case Nil
  show ?case by (intro exI [of _ "[]"]) simp
next
  case (Cons n ns)
  consider "target \<le> k"
    | "\<not> target \<le> k" "country_of n \<noteq> w \<or> \<not> is_available n"
    | "\<not> target \<le> k" "country_of n = w" "is_available n" by blast
  then show ?case
  proof cases
    case 1
    then show ?thesis by (intro exI [of _ "[]"]) simp
  next
    case 2
    then show ?thesis using Cons.IH [of acc k] by (force simp: country_of_def)
  next
    case 3
    obtain acc' b where a: "append_node n acc = (acc', b)" by (cases "append_node n acc")
    then have b: "if b then length (fst acc') = Suc (length (fst acc)) else acc' = acc"
      using append_added [of n acc] append_not_added [of n acc] by auto
    let ?k = "if b then k + 1 else k"
    obtain ns' where ns': "fst (add_refreshed w target ns (acc', ?k)) = fold append_to ns' acc'"
      "set ns' \<subseteq> {n \<in> set ns. country_of n = w \<and> is_available n}"
      "int (length (fst (fold append_to ns' acc'))) - int (length (fst acc')) \<le> max 0 (target - ?k)"
      using Cons.IH by blast
    have "fst (add_refreshed w target (n # ns) (acc, k)) = fold append_to (n # ns') acc"
      using 3 a ns'(1) by (simp add: country_of_def)
    moreover have "int (length (fst (fold append_to (n # ns') acc))) - int (length (fst acc))
        \<le> max 0 (target - k)"
      using ns'(3) a b 3(1) by (cases b) auto
    ultimately show ?thesis using ns'(2) 3 by (intro exI [of _ "n # ns'"]) auto
  qed
qed

text \<open>The nodes of the refreshed country that have to stay.\<close>

definition kept_nodes :: "string \<Rightarrow> string set \<Rightarrow> pydict list \<Rightarrow> pydict list" where
  "kept_nodes wanted protected existing =
     filter (\<lambda>n. country_of n = wanted \<and> node_id n \<in> protected) existing"

lemma merge_country_stages:
  fixes country :: string and protected_ids :: "string set" and existing :: "pydict list"
  defines "wanted \<equiv> py_upper (py_strip country)"
  defines "others \<equiv> fold append_to (filter (\<lambda>n. country_of n \<noteq> wanted) existing) ([], {})"
  defines "kept \<equiv> fold append_to (kept_nodes wanted (py_strip ` protected_ids) existing) others"
  obtains ns where
    "merge_country_pool existing refreshed country protected_ids target = fst (fold append_to ns kept)"
    "set ns \<subseteq> {n \<in> set refreshed. country_of n = wanted \<and> is_available n}"
    "int (length (fst (fold append_to ns kept)))
       \<le> int (length (fst others)) + max target (int (length (kept_nodes wanted (py_strip ` protected_ids) existing)))"
proof -
  define k where "k = int (length (fst kept)) - int (length (fst others))"
  obtain ns where ns:
    "fst (add_refreshed wanted target refreshed (kept, k)) = fold append_to ns kept"
    "set ns \<subseteq> {n \<in> set refreshed. country_of n = wanted \<and> is_available n}"
    "int (length (fst (fold append_to ns kept))) - int (length (fst kept)) \<le> max 0 (target - k)"
    using add_refreshed_fold by blast
  have "merge_country_pool existing refreshed country protected_ids target
      = fst (fst (add_refreshed wanted target refreshed (kept, k)))"
    unfolding merge_country_pool_def Let_def wanted_def [symmetric] keep_other_fold
      others_def [symmetric] keep_protected_fold
      kept_nodes_def [of wanted "py_strip ` protected_ids" existing, symmetric]
      kept_def [symmetric] k_def
    by simp
  moreover have "k \<le> int (length (kept_nodes wanted (py_strip ` protected_ids) existing))"
  proof -
    have "length (fst (fold append_to xs acc)) \<le> length (fst acc) + length xs" for xs acc
    proof (induction xs arbitrary: acc)
      case (Cons x xs)
      have "length (fst (append_to x acc)) \<le> Suc (length (fst acc))"
        by (simp add: append_node_def split: prod.split)
      with Cons [of "append_to x acc"] show ?case by simp
    qed simp
    from this [of "kept_nodes wanted (py_strip ` protected_ids) existing" others]
    show ?thesis unfolding k_def kept_def by linarith
  qed
  ultimately show ?thesis using ns k_def by (intro that [of ns]) auto
qed

text \<open>Refreshing one country never repeats an identity, keeps the identities of every other
  country and of every protected node, takes nodes of that country only from the protected
  ones or from the available refreshed ones, and does not exceed the target by more than the
  protected nodes force.\<close>

theorem merge_country_pool_correct:
  assumes "out = merge_country_pool existing refreshed country protected_ids target"
    and "wanted = py_upper (py_strip country)"
  shows "distinct (map node_id out) \<and> [] \<notin> node_id ` set out
    \<and> (\<forall>n \<in> set existing. node_id n \<noteq> [] \<and> (country_of n \<noteq> wanted \<or> node_id n \<in> py_strip ` protected_ids)
         \<longrightarrow> node_id n \<in> node_id ` set out)
    \<and> (\<forall>n \<in> set out. if country_of n = wanted
         then n \<in> set (kept_nodes wanted (py_strip ` protected_ids) existing)
              \<or> n \<in> set refreshed \<and> is_available n
         else n \<in> set existing)
    \<and> int (length (filter (\<lambda>n. country_of n = wanted) out))
         \<le> max target (int (length (kept_nodes wanted (py_strip ` protected_ids) existing)))"
proof -
  let ?K = "kept_nodes wanted (py_strip ` protected_ids) existing"
  let ?O = "filter (\<lambda>n. country_of n \<noteq> wanted) existing"
  let ?others = "fold append_to ?O ([], {})"
  let ?kept = "fold append_to ?K ?others"
  obtain ns where ns: "out = fst (fold append_to ns ?kept)"
    "set ns \<subseteq> {n \<in> set refreshed. country_of n = wanted \<and> is_available n}"
    "int (length (fst (fold append_to ns ?kept))) \<le> int (length (fst ?others)) + max target (int (length ?K))"
    by (rule merge_country_stages [of existing refreshed country protected_ids target,
        folded assms(2), folded assms(1)]) (rule that)
  have inv: "append_acc.acc_inv ?others" "append_acc.acc_inv ?kept"
      "append_acc.acc_inv (fold append_to ns ?kept)"
    by (intro append_acc.fold_inv append_acc.acc_inv_empty)+
  obtain os where os: "fst ?others = os" "set os \<subseteq> set ?O" "\<forall>z \<in> set os. node_id z \<noteq> []"
    using append_acc.fold_extends [of ?O "([], {})"] by auto
  obtain ks where ks: "fst ?kept = os @ ks" "set ks \<subseteq> set ?K" "\<forall>z \<in> set ks. node_id z \<noteq> []"
    using append_acc.fold_extends [of ?K ?others] unfolding os(1) by blast
  obtain rs where rs: "out = os @ ks @ rs" "set rs \<subseteq> set ns" "\<forall>z \<in> set rs. node_id z \<noteq> []"
    using append_acc.fold_extends [of ns ?kept] unfolding ks(1) ns(1) append_assoc by blast
  have "node_id n \<in> node_id ` set out"
    if n: "n \<in> set existing" "node_id n \<noteq> []"
      "country_of n \<noteq> wanted \<or> node_id n \<in> py_strip ` protected_ids" for n
  proof (cases "country_of n = wanted")
    case True
    then have "n \<in> set ?K" using n by (auto simp: kept_nodes_def)
    from append_covers [OF inv(1) this n(2)] show ?thesis
      unfolding ns(1) by (rule append_acc.fold_ident_mono)
  next
    case False
    then have "n \<in> set ?O" using n by simp
    from append_covers [OF append_acc.acc_inv_empty this n(2)] show ?thesis
      unfolding ns(1) by (rule append_acc.fold_ident_mono [OF append_acc.fold_ident_mono])
  qed
  moreover have "if country_of n = wanted then n \<in> set ?K \<or> n \<in> set refreshed \<and> is_available n
      else n \<in> set existing" if "n \<in> set out" for n
    using that rs(1,2) os(2) ks(2) ns(2) by (auto simp: kept_nodes_def)
  moreover have "filter (\<lambda>n. country_of n = wanted) out = ks @ rs"
  proof -
    have "filter (\<lambda>n. country_of n = wanted) os = []" using os(2) by (auto simp: filter_empty_conv)
    moreover have "filter (\<lambda>n. country_of n = wanted) ks = ks"
      using ks(2) by (intro filter_True) (auto simp: kept_nodes_def)
    moreover have "filter (\<lambda>n. country_of n = wanted) rs = rs"
      using rs(2) ns(2) by (intro filter_True) auto
    ultimately show ?thesis using rs(1) by simp
  qed
  then have "int (length (filter (\<lambda>n. country_of n = wanted) out)) \<le> max target (int (length ?K))"
    using ns(3) unfolding ns(1) [symmetric] os(1) rs(1) by simp
  moreover have "[] \<notin> node_id ` set out" using rs(1,3) ks(3) os(3) by auto
  moreover have "distinct (map node_id out)" using inv(3) ns(1) by (simp add: acc_inv_append)
  ultimately show ?thesis by blast
qed

section \<open>What the probe queue guarantees\<close>

lemma sort_key_two:
  "sort_key (\<lambda>x. if P x then 0 else (1::nat)) xs = filter P xs @ filter (\<lambda>x. \<not> P x) xs"
proof -
  let ?f = "\<lambda>x. if P x then 0 else (1::nat)"
  have ins: "insort_key ?f x (as @ bs) = (if P x then x # as @ bs else as @ x # bs)"
    if "\<forall>a \<in> set as. P a" "\<forall>b \<in> set bs. \<not> P b" for x as bs
    using that
  proof (induction as)
    case Nil
    then show ?case by (cases bs) auto
  qed auto
  show ?thesis by (induction xs) (simp_all add: sort_key_def ins)
qed

text \<open>A node that the queue accepts: named, neither retained nor tested, and not cooling down.\<close>

definition queueable :: "(string \<rightharpoonup> pydict) \<Rightarrow> rat \<Rightarrow> string set \<Rightarrow> pydict \<Rightarrow> bool" where
  "queueable blacklist now excluded n =
     (node_id n \<noteq> [] \<and> node_id n \<notin> excluded \<and> cooling blacklist now (node_id n) = Inr False)"

lemma queue_loop_spec:
  assumes "queue_loop blacklist now excluded ns acc = Inr out" "append_acc.acc_inv acc"
  shows "append_acc.acc_inv out \<and> (\<exists>zs. fst out = fst acc @ zs \<and> subseq zs ns
      \<and> (\<forall>z \<in> set zs. queueable blacklist now excluded z))
    \<and> (\<forall>n \<in> set ns. queueable blacklist now excluded n \<longrightarrow> node_id n \<in> node_id ` set (fst out))"
  using assms
proof (induction ns arbitrary: acc)
  case Nil
  then show ?case by auto
next
  case (Cons n ns)
  obtain queue seen where acc: "acc = (queue, seen)" by (cases acc)
  obtain cool where cool: "cooling blacklist now (node_id n) = Inr cool"
    using Cons.prems(1) by (auto simp: acc err_bind_Inr)
  let ?take = "node_id n \<noteq> [] \<and> node_id n \<notin> seen \<and> node_id n \<notin> excluded \<and> \<not> cool"
  let ?acc = "if ?take then (queue @ [n], insert (node_id n) seen) else (queue, seen)"
  have step: "queue_loop blacklist now excluded ns ?acc = Inr out"
    using Cons.prems(1) by (simp only: acc queue_loop.simps cool err_bind.simps)
  have inv: "append_acc.acc_inv ?acc"
    using Cons.prems(2) by (auto simp: acc acc_inv_append)
  from Cons.IH [OF step inv] obtain zs where ih: "append_acc.acc_inv out"
    "fst out = fst ?acc @ zs" "subseq zs ns" "\<forall>z \<in> set zs. queueable blacklist now excluded z"
    "\<forall>n \<in> set ns. queueable blacklist now excluded n \<longrightarrow> node_id n \<in> node_id ` set (fst out)"
    by blast
  have here: "node_id n \<in> node_id ` set (fst out)" if "queueable blacklist now excluded n"
  proof -
    have "node_id n \<in> node_id ` set (fst ?acc)"
      using that cool Cons.prems(2) by (auto simp: queueable_def acc acc_inv_append)
    then show ?thesis unfolding ih(2) by auto
  qed
  show ?case
  proof (cases ?take)
    case True
    then have "queueable blacklist now excluded n" using cool by (simp add: queueable_def)
    then show ?thesis using ih here True acc
      by (intro conjI exI [of _ "n # zs"]) auto
  next
    case False
    then have "fst out = fst acc @ zs" using ih(2) acc by (simp only: if_False fst_conv)
    then show ?thesis using ih here
      by (intro conjI exI [of _ zs]) auto
  qed
qed

text \<open>The probe queue holds exactly the identities that may be probed, each once; the
  preferred nodes come first and each of the two groups keeps the order of the candidates.\<close>

theorem candidate_queue_correct:
  assumes "candidate_queue candidates retained blacklist tested now preferred = Inr queue"
  shows "distinct (map node_id queue)
    \<and> node_id ` set queue = node_id ` {n \<in> set candidates.
         queueable blacklist now (set (map node_id retained) \<union> tested) n}
    \<and> (\<exists>picked. subseq picked candidates
         \<and> queue = filter (\<lambda>n. node_id n \<in> preferred) picked
             @ filter (\<lambda>n. node_id n \<notin> preferred) picked)"
proof -
  let ?ex = "set (map node_id retained) \<union> tested"
  obtain out where loop: "queue_loop blacklist now ?ex candidates ([], {}) = Inr out"
    and q: "queue = sort_key (\<lambda>n. if node_id n \<in> preferred then 0 else (1::nat)) (fst out)"
    using assms by (auto simp: candidate_queue_def err_bind_Inr Let_def split: prod.splits)
  from queue_loop_spec [OF loop append_acc.acc_inv_empty]
  have spec: "append_acc.acc_inv out" "subseq (fst out) candidates"
    "\<forall>z \<in> set (fst out). queueable blacklist now ?ex z"
    "\<forall>n \<in> set candidates. queueable blacklist now ?ex n \<longrightarrow> node_id n \<in> node_id ` set (fst out)"
    by auto
  have s: "set queue = set (fst out)" by (simp add: q)
  have "set (fst out) \<subseteq> set candidates"
    using list_emb_set [OF spec(2)] by (metis subsetI)
  then have "node_id ` set queue = node_id ` {n \<in> set candidates. queueable blacklist now ?ex n}"
    using spec(3,4) s by blast
  moreover have "distinct (map node_id queue)"
  proof -
    have "mset queue = mset (fst out)" unfolding q by (rule mset_sort)
    then have "mset (map node_id queue) = mset (map node_id (fst out))" by (simp only: mset_map)
    then show ?thesis using spec(1) unfolding acc_inv_append by (metis mset_eq_imp_distinct_iff)
  qed
  moreover have "queue = filter (\<lambda>n. node_id n \<in> preferred) (fst out)
      @ filter (\<lambda>n. node_id n \<notin> preferred) (fst out)"
    unfolding q by (rule sort_key_two)
  ultimately show ?thesis using spec(2) by (intro conjI exI [of _ "fst out"])
qed

section \<open>What merging probe results guarantees\<close>

definition probe_add :: "nat \<Rightarrow> pydict \<Rightarrow> pool_acc \<Rightarrow> pool_acc" where
  "probe_add target n acc =
     (if is_available n \<and> node_id n \<noteq> [] \<and> node_id n \<notin> snd acc \<and> length (fst acc) < target
      then (fst acc @ [n], insert (node_id n) (snd acc)) else acc)"

interpretation probe_acc: bounded_dedup node_id "\<lambda>n. is_available n \<and> node_id n \<noteq> []"
  "probe_add target" target for target
  by unfold_locales (auto simp: probe_add_def)

lemma probe_loop_fold:
  "0 \<le> target \<Longrightarrow> probe_loop target ns (acc, failed) =
    (fold (probe_add (nat target)) ns acc, failed @ filter (\<lambda>n. \<not> is_available n) ns)"
proof (induction ns arbitrary: acc failed)
  case (Cons n ns)
  have "int (length (fst acc)) < target \<longleftrightarrow> length (fst acc) < nat target"
    using Cons.prems by linarith
  then show ?case
    using Cons by (cases acc) (auto simp: probe_add_def)
qed simp

text \<open>A probe round adds available nodes with new identities to the end of the pool, up to
  the target and leaving none out while there is room; the failed nodes are exactly the others,
  in order.\<close>

theorem merge_probe_results_correct:
  assumes "merge_probe_results pool results target = (merged, failed)"
    and "distinct (map node_id pool)" and "int (length pool) \<le> target"
  shows "failed = filter (\<lambda>n. \<not> is_available n) results
    \<and> int (length merged) \<le> target \<and> distinct (map node_id merged)
    \<and> (\<exists>added. merged = pool @ added \<and> set added \<subseteq> set results
         \<and> (\<forall>n \<in> set added. is_available n \<and> node_id n \<noteq> []))
    \<and> (int (length merged) < target \<longrightarrow> (\<forall>n \<in> set results. is_available n \<and> node_id n \<noteq> []
         \<longrightarrow> node_id n \<in> node_id ` set merged))"
proof -
  have t: "0 \<le> target" using assms(3) by linarith
  let ?acc = "fold (probe_add (nat target)) results (pool, set (map node_id pool))"
  have inv0: "append_acc.acc_inv (pool, set (map node_id pool))"
    using assms(2) by (simp add: acc_inv_append)
  have bound: "length (fst ?acc) \<le> nat target"
    using assms(3) by (intro probe_acc.fold_bound) simp
  have res: "merged = slice_to (fst ?acc) target" "failed = filter (\<lambda>n. \<not> is_available n) results"
    using assms(1) by (auto simp: merge_probe_results_def probe_loop_fold [OF t] split: prod.splits)
  have m: "merged = fst ?acc" unfolding res(1) using bound t by (intro slice_to_all) linarith
  have inv: "append_acc.acc_inv ?acc" using inv0 by (rule probe_acc.fold_inv)
  obtain added where "fst ?acc = pool @ added" "set added \<subseteq> set results"
    "\<forall>n \<in> set added. is_available n \<and> node_id n \<noteq> []"
    using probe_acc.fold_extends [of "nat target" results "(pool, set (map node_id pool))"] by auto
  moreover have "node_id n \<in> node_id ` set merged"
    if "int (length merged) < target" "n \<in> set results" "is_available n \<and> node_id n \<noteq> []" for n
  proof -
    have "length (fst ?acc) < nat target" using that(1) unfolding m by linarith
    from probe_acc.fold_complete [OF inv0 that(2,3) this] show ?thesis unfolding m .
  qed
  moreover have "distinct (map node_id merged)" using inv m by (simp add: acc_inv_append)
  moreover have "int (length merged) \<le> target" using bound t unfolding m by linarith
  ultimately show ?thesis using res(2) m by auto
qed

section \<open>Concrete pools\<close>

definition sample_node :: "string \<Rightarrow> string \<Rightarrow> string \<Rightarrow> string \<Rightarrow> int \<Rightarrow> pydict" where
  "sample_node nid country status kind latency =
     [(''id'', PStr nid), (''country_short'', PStr country), (''probe_status'', PStr status),
      (''ip_type'', PStr kind), (''latency_ms'', PInt latency)]"

definition sample_existing :: "pydict list" where
  "sample_existing = [sample_node ''a'' ''JP'' ''available'' ''hosting'' 20,
     sample_node ''b'' ''JP'' ''unavailable'' ''hosting'' 30]"

definition sample_refreshed :: "pydict list" where
  "sample_refreshed = [sample_node ''c'' ''us'' ''available'' ''residential'' 90,
     sample_node ''d'' ''US'' ''available'' ''residential'' 40]"

definition sample_pool :: "pydict list" where
  "sample_pool = [sample_node ''b'' ''JP'' ''unavailable'' ''hosting'' 30,
     sample_node ''a'' ''JP'' ''available'' ''hosting'' 20,
     sample_node ''d'' ''US'' ''available'' ''residential'' 40]"

lemma sample_rebalance:
  "rebalance_valid_pool sample_existing sample_refreshed {''b''} {''a''} 3 = Inr sample_pool"
  by code_simp

lemma sample_rebalance_roomy:
  "rebalance_valid_pool sample_existing sample_refreshed {''b''} {''a''} 30
    = Inr (sample_pool @ [sample_node ''c'' ''us'' ''available'' ''residential'' 90])"
  by code_simp

lemma sample_string_ids: "\<forall>n \<in> set (sample_existing @ sample_refreshed). string_id n"
  by (simp add: sample_existing_def sample_refreshed_def sample_node_def string_id_def)

lemma rebalance_well_formed_witness:
  "int (length sample_pool) \<le> max 0 (min 512 3) \<and> distinct (map node_id sample_pool)
    \<and> list_all (\<lambda>n. latest (sample_existing @ sample_refreshed) n) sample_pool"
  using rebalance_well_formed [OF sample_rebalance] by (simp add: list_all_iff)

lemma rebalance_keeps_protected_witness: "''b'' \<in> node_id ` set sample_pool"
proof -
  have "''b'' \<in> node_id ` set (sample_existing @ sample_refreshed)" by code_simp
  then show ?thesis by (intro rebalance_keeps_protected [OF sample_rebalance]) auto
qed

lemma rebalance_complete_witness:
  "''c'' \<in> node_id ` set (sample_pool @ [sample_node ''c'' ''us'' ''available'' ''residential'' 90])"
proof -
  let ?n = "sample_node ''c'' ''us'' ''available'' ''residential'' 90"
  let ?out = "sample_pool @ [?n]"
  have id: "node_id ?n = ''c''" by code_simp
  have l: "latest (sample_existing @ sample_refreshed) ?n" by code_simp
  have "is_available ?n" by code_simp
  moreover have "int (length ?out) < max 0 (min 512 30)" by code_simp
  ultimately have "node_id ?n \<in> node_id ` set ?out"
    using id by (intro rebalance_complete [OF sample_rebalance_roomy _ sample_string_ids l]) auto
  then show ?thesis by (simp only: id)
qed

lemma rebalance_covers_countries_witness: "''US'' \<in> country_of ` set sample_pool"
proof -
  let ?nodes = "sample_existing @ sample_refreshed"
  let ?n = "sample_node ''d'' ''US'' ''available'' ''residential'' 40"
  have sub: "{m. latest ?nodes m \<and> is_available m \<and> node_id m \<noteq> []} \<subseteq> set ?nodes"
    using latest_mem by blast
  have "country_of ` set ?nodes = {''JP'', ''US''}" by code_simp
  with sub have "country_of ` {m. latest ?nodes m \<and> is_available m \<and> node_id m \<noteq> []} - {[]}
      \<subseteq> {''JP'', ''US''}" by (metis (no_types, lifting) Diff_subset image_mono subset_trans)
  then have card: "card (country_of ` {m. latest ?nodes m \<and> is_available m \<and> node_id m \<noteq> []} - {[]}) \<le> 2"
    by (rule card_mono [rotated, THEN order_trans]) auto
  have c: "country_of ?n = ''US''" by code_simp
  have n: "latest ?nodes ?n" "is_available ?n" "node_id ?n \<noteq> []" by code_simp+
  have r: "rebalance_valid_pool sample_existing sample_refreshed {''b''} {''a''} 30
    = Inr (sample_pool @ [sample_node ''c'' ''us'' ''available'' ''residential'' 90])"
    by (rule sample_rebalance_roomy)
  have "country_of ?n \<in> country_of ` set (sample_pool
      @ [sample_node ''c'' ''us'' ''available'' ''residential'' 90])"
    using card c by (intro rebalance_covers_countries [OF r _ _ _ n]) auto
  moreover have "country_of ` set sample_pool = {''JP'', ''US''}" by code_simp
  ultimately show ?thesis by simp
qed

definition merged_us_pool :: "pydict list" where
  "merged_us_pool = merge_country_pool (sample_pool @ [sample_node ''e'' ''US'' ''available'' ''mobile'' 9])
     sample_refreshed ''us'' {''e''} 2"

lemma merge_country_pool_correct_witness:
  "int (length (filter (\<lambda>n. country_of n = ''US'') merged_us_pool))
    \<le> max 2 (int (length (kept_nodes ''US'' (py_strip ` {''e''})
        (sample_pool @ [sample_node ''e'' ''US'' ''available'' ''mobile'' 9]))))
   \<and> map node_id merged_us_pool = [''b'', ''a'', ''e'', ''c'']"
proof -
  have c: "''US'' = py_upper (py_strip ''us'')" by code_simp
  have ids: "map node_id merged_us_pool = [''b'', ''a'', ''e'', ''c'']" by code_simp
  show ?thesis
    using merge_country_pool_correct [OF merged_us_pool_def c] ids by blast
qed

definition sample_queue :: "pydict list" where
  "sample_queue = [sample_node ''d'' ''US'' ''available'' ''residential'' 40,
     sample_node ''c'' ''us'' ''available'' ''residential'' 90]"

lemma candidate_queue_correct_witness:
  "distinct (map node_id sample_queue)
    \<and> node_id ` set sample_queue = node_id ` {n \<in> set (sample_refreshed @ sample_existing).
         queueable (map_of [(''b'', [(''until'', PInt 100)])]) 50
           (set (map node_id []) \<union> {''a''}) n}"
proof -
  have "candidate_queue (sample_refreshed @ sample_existing) []
      (map_of [(''b'', [(''until'', PInt 100)])]) {''a''} 50 {''d''} = Inr sample_queue"
    by code_simp
  from candidate_queue_correct [OF this] show ?thesis by blast
qed

lemma merge_probe_results_correct_witness:
  "int (length (sample_pool @ [sample_node ''c'' ''us'' ''available'' ''residential'' 90])) \<le> 5
    \<and> distinct (map node_id (sample_pool @ [sample_node ''c'' ''us'' ''available'' ''residential'' 90]))"
proof -
  have "merge_probe_results sample_pool (sample_refreshed @ sample_existing) 5
      = (sample_pool @ [sample_node ''c'' ''us'' ''available'' ''residential'' 90],
         [sample_node ''b'' ''JP'' ''unavailable'' ''hosting'' 30])"
    by code_simp
  moreover have "distinct (map node_id sample_pool)" "int (length sample_pool) \<le> 5" by code_simp+
  ultimately show ?thesis using merge_probe_results_correct by blast
qed

end
