(* ===== verification/Recovery_Policy.thy ===== *)
theory Recovery_Policy
  imports Py_Base "HOL-Library.Multiset"
begin

text \<open>
  \<^verbatim>\<open>services/aimili-egress/recovery_policy.py\<close>: the settings of the automatic
  recovery, the country statistics, the ranking of standby candidates and the bounded
  back-off. A setting is read with \<open>setting_int\<close> or \<open>setting_bool\<close>: a missing key is a
  \<open>KeyError\<close>, and settings that passed \<open>validate\<close> hold only integers and booleans. The
  clock is an argument.
\<close>

section \<open>Settings\<close>

definition DEFAULTS :: pydict where
  "DEFAULTS =
    [(''failureThreshold'', PInt 3), (''healthIntervalSeconds'', PInt 30),
     (''standbyIntervalSeconds'', PInt 30), (''standbyFailureThreshold'', PInt 2),
     (''dialTimeoutSeconds'', PInt 25), (''candidatesPerRound'', PInt 8),
     (''maxConcurrentDials'', PInt 1), (''retryInitialSeconds'', PInt 10),
     (''retryMaxSeconds'', PInt 120), (''candidateCooldownSeconds'', PInt 600),
     (''recoveryBudgetSeconds'', PInt 1800), (''freshnessSeconds'', PInt 120),
     (''allowCrossCountry'', PBool True), (''allowDatacenter'', PBool True)]"

definition BOUNDS :: "(string \<times> int \<times> int) list" where
  "BOUNDS =
    [(''failureThreshold'', 1, 10), (''healthIntervalSeconds'', 10, 300),
     (''standbyIntervalSeconds'', 10, 300), (''standbyFailureThreshold'', 1, 10),
     (''dialTimeoutSeconds'', 10, 120), (''candidatesPerRound'', 1, 32),
     (''maxConcurrentDials'', 1, 4), (''retryInitialSeconds'', 5, 300),
     (''retryMaxSeconds'', 10, 1800), (''candidateCooldownSeconds'', 30, 86400),
     (''recoveryBudgetSeconds'', 60, 86400), (''freshnessSeconds'', 30, 3600)]"

definition setting_int :: "pydict \<Rightarrow> string \<Rightarrow> pyexc + int" where
  "setting_int s k = (case dget s k of
     None \<Rightarrow> Inl KeyError
   | Some (PInt i) \<Rightarrow> Inr i
   | Some (PBool b) \<Rightarrow> Inr (if b then 1 else 0)
   | Some _ \<Rightarrow> Inl TypeError)"

definition setting_bool :: "pydict \<Rightarrow> string \<Rightarrow> pyexc + bool" where
  "setting_bool s k = (case dget s k of None \<Rightarrow> Inl KeyError | Some v \<Rightarrow> Inr (truthy v))"

text \<open>One round of the loop of \<open>validate\<close>: the type of the default and the bounds.\<close>

definition setting_ok :: "pydict \<Rightarrow> string \<times> pyval \<Rightarrow> bool" where
  "setting_ok values entry = (case entry of (key, dflt) \<Rightarrow>
     (case (dflt, dget values key) of
        (PBool _, Some (PBool _)) \<Rightarrow> True
      | (PInt _, Some (PInt i)) \<Rightarrow>
          (case map_of BOUNDS key of None \<Rightarrow> True | Some (lo, hi) \<Rightarrow> lo \<le> i \<and> i \<le> hi)
      | _ \<Rightarrow> False))"

definition validate :: "pyval \<Rightarrow> pyexc + pydict" where
  "validate v = (case v of
     PDict values \<Rightarrow>
       if dkeys values \<noteq> dkeys DEFAULTS then Inl ValueError
       else if \<not> list_all (setting_ok values) DEFAULTS then Inl ValueError
       else err_bind (setting_int values ''retryMaxSeconds'') (\<lambda>longest.
         err_bind (setting_int values ''retryInitialSeconds'') (\<lambda>initial.
         if longest < initial then Inl ValueError
         else err_bind (setting_int values ''recoveryBudgetSeconds'') (\<lambda>budget.
           err_bind (setting_int values ''dialTimeoutSeconds'') (\<lambda>dial.
           if budget < dial then Inl ValueError else Inr values))))
   | _ \<Rightarrow> Inl ValueError)"

section \<open>Targets and candidates\<close>

definition targets :: "int list \<Rightarrow> pydict list" where
  "targets slots =
     [(''index'', PInt 0), (''target'', PStr ''main''), (''countries'', PList [])]
     # map (\<lambda>i. [(''index'', PInt (i + 1)), (''target'', PStr (''slot:'' @ int_str i)),
                  (''countries'', PList [])])
         (sorted_set slots)"

definition residential :: "pydict \<Rightarrow> bool" where
  "residential node = (let kind = py_lower (str_or_empty (dgetN node ''ip_type''))
     in kind = ''residential'' \<or> kind = ''mobile'')"

definition number :: "pyval \<Rightarrow> rat \<Rightarrow> pyexc + rat" where
  "number v dflt = (case py_float v of
     Inr (Fin r) \<Rightarrow> Inr (if 0 \<le> r then r else dflt)
   | Inr _ \<Rightarrow> Inr dflt
   | Inl ValueError \<Rightarrow> Inr dflt
   | Inl TypeError \<Rightarrow> Inr dflt
   | Inl e \<Rightarrow> Inl e)"

text \<open>\<open>sorted(xs, key=...)\<close> with a key that may raise.\<close>

fun with_keys :: "('a \<Rightarrow> pyexc + 'k) \<Rightarrow> 'a list \<Rightarrow> pyexc + ('k \<times> 'a) list" where
  "with_keys f [] = Inr []"
| "with_keys f (x # xs) =
     err_bind (f x) (\<lambda>k. err_bind (with_keys f xs) (\<lambda>kxs. Inr ((k, x) # kxs)))"

definition sorted_by :: "('a \<Rightarrow> pyexc + 'k::linorder) \<Rightarrow> 'a list \<Rightarrow> pyexc + 'a list" where
  "sorted_by f xs = err_bind (with_keys f xs) (\<lambda>kxs. Inr (map snd (sort_key fst kxs)))"

record country_row =
  row_code :: string
  dialableCount :: int
  freshEgressCount :: int
  residentialCount :: int
  datacenterCount :: int
  checkedAt :: rat

definition new_row :: "string \<Rightarrow> country_row" where
  "new_row c = \<lparr> row_code = c, dialableCount = 0, freshEgressCount = 0, residentialCount = 0,
     datacenterCount = 0, checkedAt = 0 \<rparr>"

definition country_code :: "pydict \<Rightarrow> string" where
  "country_code node = py_upper (str_or_empty (dgetN node ''country_short''))"

definition node_identity :: "pydict \<Rightarrow> string" where
  "node_identity node = str_or_empty
     (py_or (py_or (dgetN node ''exit_ip'') (dgetN node ''ip'')) (dgetN node ''id''))"

definition dialable :: "pydict \<Rightarrow> bool" where
  "dialable node = (dgetN node ''probe_status'' = PStr ''available''
     \<and> truthy (dgetN node ''config_text''))"

definition count_node :: "rat \<Rightarrow> int \<Rightarrow> pydict \<Rightarrow> rat \<Rightarrow> country_row \<Rightarrow> country_row" where
  "count_node now freshness node checked row =
    (let row = row\<lparr>dialableCount := dialableCount row + 1\<rparr>;
         row = (if residential node then row\<lparr>residentialCount := residentialCount row + 1\<rparr>
                else row\<lparr>datacenterCount := datacenterCount row + 1\<rparr>);
         row = row\<lparr>checkedAt := max (checkedAt row) checked\<rparr>
     in if truthy (dgetN node ''exit_ip'') \<and> 0 \<le> now - checked \<and> now - checked \<le> of_int freshness
        then row\<lparr>freshEgressCount := freshEgressCount row + 1\<rparr> else row)"

type_synonym statistics = "(string \<times> country_row) list \<times> string set"

definition statistics_step ::
  "rat \<Rightarrow> int \<Rightarrow> pydict \<Rightarrow> statistics \<Rightarrow> pyexc + statistics" where
  "statistics_step now freshness node st = (case st of (countries, seen) \<Rightarrow>
    (let code = country_code node; identity = node_identity node in
     if length code \<noteq> 2 \<or> \<not> py_isalpha code \<or> identity = [] \<or> identity \<in> seen
     then Inr (countries, seen)
     else
       (let row = (case map_of countries code of None \<Rightarrow> new_row code | Some r \<Rightarrow> r);
            countries = AList.update code row countries
        in if \<not> dialable node then Inr (countries, seen)
           else err_bind (number (dgetN node ''probed_at'') 0) (\<lambda>checked.
             Inr (AList.update code (count_node now freshness node checked row) countries,
                  insert identity seen)))))"

fun statistics_loop :: "rat \<Rightarrow> int \<Rightarrow> pydict list \<Rightarrow> statistics \<Rightarrow> pyexc + statistics" where
  "statistics_loop now freshness [] st = Inr st"
| "statistics_loop now freshness (node # rest) st =
     err_bind (statistics_step now freshness node st) (statistics_loop now freshness rest)"

definition row_key :: "country_row \<Rightarrow> int \<times> int \<times> int \<times> string" where
  "row_key r = (- freshEgressCount r, - dialableCount r, - residentialCount r, row_code r)"

definition country_statistics ::
  "pydict list \<Rightarrow> rat \<Rightarrow> int \<Rightarrow> pyexc + country_row list" where
  "country_statistics nodes now freshness =
     err_bind (sorted_by (\<lambda>n. err_bind (number (dgetN n ''probed_at'') 0) (\<lambda>r. Inr (- r))) nodes)
       (\<lambda>ordered. err_bind (statistics_loop now freshness ordered ([], {})) (\<lambda>st.
         Inr (sort_key row_key (map snd (fst st)))))"

definition eligible :: "string \<Rightarrow> bool \<Rightarrow> bool \<Rightarrow> pydict \<Rightarrow> bool" where
  "eligible country allow_datacenter allow_cross n =
     (dialable n \<and> (allow_datacenter \<or> residential n)
      \<and> (allow_cross \<or> py_eq (dgetN n ''country_short'') (PStr country)))"

text \<open>\<open>country_rank.get(v, default)\<close>: a list or a dictionary cannot be hashed.\<close>

fun rank_lookup :: "(string \<times> int) list \<Rightarrow> pyval \<Rightarrow> int \<Rightarrow> pyexc + int" where
  "rank_lookup m (PStr s) d = Inr (case map_of m s of None \<Rightarrow> d | Some r \<Rightarrow> r)"
| "rank_lookup m (PList _) d = Inl TypeError"
| "rank_lookup m (PDict _) d = Inl TypeError"
| "rank_lookup m _ d = Inr d"

definition rank_table :: "country_row list \<Rightarrow> string \<Rightarrow> (string \<times> int) list" where
  "rank_table stats country =
     (country, 0) # zip (map row_code stats) (map int [1..<Suc (length stats)])"

definition candidate_key ::
  "(string \<times> int) list \<Rightarrow> int \<Rightarrow> pydict \<Rightarrow> pyexc + int \<times> nat \<times> rat \<times> string" where
  "candidate_key ranks other n =
     err_bind (rank_lookup ranks (dgetN n ''country_short'') other) (\<lambda>r.
     err_bind (number (py_or (dgetN n ''egress_latency_ms'') (dgetN n ''latency_ms'')) 999999) (\<lambda>l.
     Inr (r, if residential n then 0 else 1, l, str_or_empty (dgetN n ''id''))))"

definition rank_candidates ::
  "pydict list \<Rightarrow> string \<Rightarrow> pydict \<Rightarrow> rat \<Rightarrow> pyexc + pydict list" where
  "rank_candidates nodes country settings now =
     err_bind (setting_bool settings ''allowDatacenter'') (\<lambda>datacenter.
     err_bind (setting_bool settings ''allowCrossCountry'') (\<lambda>cross.
     (let chosen = filter (eligible country datacenter cross) nodes in
      err_bind (setting_int settings ''freshnessSeconds'') (\<lambda>freshness.
      err_bind (country_statistics chosen now freshness) (\<lambda>stats.
        sorted_by (candidate_key (rank_table stats country) (int (length stats) + 1)) chosen)))))"

section \<open>The bounded back-off\<close>

record round_result =
  startedAt :: rat
  attempt :: int
  round_status :: string
  nextAttemptAt :: rat
  lastErrorCode :: string

definition failed_round :: "pydict \<Rightarrow> rat \<Rightarrow> pydict \<Rightarrow> string \<Rightarrow> pyexc + round_result" where
  "failed_round state now settings reason =
     err_bind (number (dget_or state ''startedAt'' PNone) now) (\<lambda>started.
     (let started = (if started \<le> 0 \<or> now < started then now else started) in
      err_bind (number (dget_or state ''attempt'' PNone) 0) (\<lambda>count.
      (let attempt = \<lfloor>count\<rfloor> + 1 in
       err_bind (setting_int settings ''retryMaxSeconds'') (\<lambda>longest.
       err_bind (setting_int settings ''retryInitialSeconds'') (\<lambda>initial.
       (let delay = min longest (initial * 2 ^ nat (min (attempt - 1) 16)) in
        err_bind (setting_int settings ''recoveryBudgetSeconds'') (\<lambda>budget.
        (let manual = (of_int budget \<le> now - started) in
         Inr \<lparr> startedAt = started, attempt = attempt,
               round_status = (if manual then ''manual_required'' else ''retry_wait''),
               nextAttemptAt = (if manual then 0 else now + of_int delay),
               lastErrorCode = reason \<rparr>)))))))))"

section \<open>What validation guarantees\<close>

definition int_setting :: "pydict \<Rightarrow> string \<Rightarrow> int \<Rightarrow> int \<Rightarrow> bool" where
  "int_setting s k lo hi = (case dget s k of Some (PInt i) \<Rightarrow> lo \<le> i \<and> i \<le> hi | _ \<Rightarrow> False)"

definition bool_setting :: "pydict \<Rightarrow> string \<Rightarrow> bool" where
  "bool_setting s k = (case dget s k of Some (PBool _) \<Rightarrow> True | _ \<Rightarrow> False)"

definition setting :: "pydict \<Rightarrow> string \<Rightarrow> int" where
  "setting s k = (case dget s k of Some (PInt i) \<Rightarrow> i | _ \<Rightarrow> 0)"

lemma setting_ok_int:
  "map_of BOUNDS k = Some (lo, hi) \<Longrightarrow> setting_ok s (k, PInt d) = int_setting s k lo hi"
  by (simp add: setting_ok_def int_setting_def split: option.split pyval.split)

lemma setting_ok_bool: "setting_ok s (k, PBool d) = bool_setting s k"
  by (simp add: setting_ok_def bool_setting_def split: option.split pyval.split)

lemma int_setting_reads:
  "int_setting s k lo hi \<Longrightarrow> setting_int s k = Inr (setting s k) \<and> lo \<le> setting s k \<and> setting s k \<le> hi"
  by (auto simp: int_setting_def setting_int_def setting_def split: option.splits pyval.splits)

definition settings_in_bounds :: "pydict \<Rightarrow> bool" where
  "settings_in_bounds s =
     (list_all (\<lambda>(k, lo, hi). int_setting s k lo hi) BOUNDS
      \<and> bool_setting s ''allowCrossCountry'' \<and> bool_setting s ''allowDatacenter'')"

lemma settings_ok_bounds: "list_all (setting_ok s) DEFAULTS = settings_in_bounds s"
  by (simp add: DEFAULTS_def settings_in_bounds_def BOUNDS_def setting_ok_bool
      setting_ok_int [unfolded BOUNDS_def])

lemma in_bounds_setting:
  "settings_in_bounds s \<Longrightarrow> map_of BOUNDS k = Some (lo, hi) \<Longrightarrow> int_setting s k lo hi"
  by (auto simp: settings_in_bounds_def list_all_iff dest!: map_of_SomeD)

lemma validate_iff:
  "validate v = Inr s \<longleftrightarrow> v = PDict s \<and> dkeys s = dkeys DEFAULTS \<and> settings_in_bounds s
    \<and> setting s ''retryInitialSeconds'' \<le> setting s ''retryMaxSeconds''
    \<and> setting s ''dialTimeoutSeconds'' \<le> setting s ''recoveryBudgetSeconds''"
proof -
  have reads: "setting_int d k = Inr (setting d k)"
    if "settings_in_bounds d" "map_of BOUNDS k = Some (lo, hi)" for d k lo hi
    using int_setting_reads [OF in_bounds_setting [OF that]] by simp
  note r = reads [of _ "''retryMaxSeconds''" 10 1800] reads [of _ "''retryInitialSeconds''" 5 300]
    reads [of _ "''recoveryBudgetSeconds''" 60 86400] reads [of _ "''dialTimeoutSeconds''" 10 120]
  show ?thesis
  proof (cases v)
    case (PDict d)
    show ?thesis
    proof (cases "dkeys d = dkeys DEFAULTS \<and> settings_in_bounds d")
      case True
      then have "validate v =
          (if setting d ''retryMaxSeconds'' < setting d ''retryInitialSeconds'' then Inl ValueError
           else if setting d ''recoveryBudgetSeconds'' < setting d ''dialTimeoutSeconds''
           then Inl ValueError else Inr d)"
        by (simp add: validate_def PDict settings_ok_bounds r BOUNDS_def)
      with True PDict show ?thesis by auto
    next
      case False
      then have "validate v = Inl ValueError"
        by (auto simp: validate_def PDict settings_ok_bounds)
      with False PDict show ?thesis by auto
    qed
  qed (simp_all add: validate_def)
qed

lemma validated_reads:
  assumes "validate v = Inr s" "map_of BOUNDS k = Some (lo, hi)"
  shows "setting_int s k = Inr (setting s k)" "lo \<le> setting s k" "setting s k \<le> hi"
  using int_setting_reads [OF in_bounds_setting [OF _ assms(2)]] assms(1)
  by (auto simp: validate_iff)

text \<open>Validation accepts a value exactly when it is a dictionary with the known keys,
  integers within their bounds, genuine booleans, a longest delay not below the initial one
  and a budget that covers a dial; it returns the settings unchanged. The defaults pass.\<close>

theorem validate_correct:
  "(validate v = Inr s \<longleftrightarrow> v = PDict s \<and> dkeys s = dkeys DEFAULTS \<and> settings_in_bounds s
      \<and> setting s ''retryInitialSeconds'' \<le> setting s ''retryMaxSeconds''
      \<and> setting s ''dialTimeoutSeconds'' \<le> setting s ''recoveryBudgetSeconds'')
    \<and> validate (PDict DEFAULTS) = Inr DEFAULTS"
proof -
  have "validate (PDict DEFAULTS) = Inr DEFAULTS" by code_simp
  then show ?thesis by (simp only: validate_iff simp_thms)
qed

section \<open>What the back-off guarantees\<close>

lemma number_nonneg: "number v d = Inr r \<Longrightarrow> 0 \<le> d \<Longrightarrow> 0 \<le> r"
  by (auto simp: number_def split: sum.splits flt.splits pyexc.splits if_splits)

lemma number_Fin [simp]: "0 \<le> r \<Longrightarrow> number (PFloat (Fin r)) d = Inr r"
  by (simp add: number_def)

lemma number_PInt: "number (PInt n) d = Inr r \<Longrightarrow> 0 \<le> n \<Longrightarrow> r = of_int n"
  by (auto simp: number_def split: if_splits)

text \<open>The delay before the next attempt.\<close>

definition backoff :: "pydict \<Rightarrow> int \<Rightarrow> int" where
  "backoff s n = min (setting s ''retryMaxSeconds'')
     (setting s ''retryInitialSeconds'' * 2 ^ nat (min (n - 1) 16))"

lemma backoff_bounds:
  assumes "validate v = Inr s"
  shows "setting s ''retryInitialSeconds'' \<le> backoff s n" "backoff s n \<le> setting s ''retryMaxSeconds''"
proof -
  have "5 \<le> setting s ''retryInitialSeconds''"
    using validated_reads(2) [OF assms, of "''retryInitialSeconds''" 5 300] by (simp add: BOUNDS_def)
  then have "setting s ''retryInitialSeconds'' * 1
      \<le> setting s ''retryInitialSeconds'' * 2 ^ nat (min (n - 1) 16)"
    by (intro mult_left_mono) auto
  moreover have "setting s ''retryInitialSeconds'' \<le> setting s ''retryMaxSeconds''"
    using assms by (simp add: validate_iff)
  ultimately show "setting s ''retryInitialSeconds'' \<le> backoff s n"
    by (simp add: backoff_def)
qed (simp add: backoff_def)

lemma backoff_mono:
  assumes "validate v = Inr s" "m \<le> n"
  shows "backoff s m \<le> backoff s n"
proof -
  have "5 \<le> setting s ''retryInitialSeconds''"
    using validated_reads(2) [OF assms(1), of "''retryInitialSeconds''" 5 300]
    by (simp add: BOUNDS_def)
  moreover have "(2::int) ^ nat (min (m - 1) 16) \<le> 2 ^ nat (min (n - 1) 16)"
    using assms(2) by (intro power_increasing nat_mono) auto
  ultimately have "setting s ''retryInitialSeconds'' * 2 ^ nat (min (m - 1) 16)
      \<le> setting s ''retryInitialSeconds'' * 2 ^ nat (min (n - 1) 16)"
    by (intro mult_left_mono) auto
  then show ?thesis by (simp add: backoff_def min.coboundedI2 min_le_iff_disj)
qed

lemma failed_round_eq:
  assumes "validate v = Inr s"
  shows "failed_round st now s reason =
     err_bind (number (dgetN st ''startedAt'') now) (\<lambda>started.
     err_bind (number (dgetN st ''attempt'') 0) (\<lambda>count.
       (let started = (if started \<le> 0 \<or> now < started then now else started);
            n = \<lfloor>count\<rfloor> + 1;
            manual = (of_int (setting s ''recoveryBudgetSeconds'') \<le> now - started)
        in Inr \<lparr> startedAt = started, attempt = n,
             round_status = (if manual then ''manual_required'' else ''retry_wait''),
             nextAttemptAt = (if manual then 0 else now + of_int (backoff s n)),
             lastErrorCode = reason \<rparr>)))"
proof -
  note r = validated_reads(1) [OF assms, of "''retryMaxSeconds''" 10 1800]
    validated_reads(1) [OF assms, of "''retryInitialSeconds''" 5 300]
    validated_reads(1) [OF assms, of "''recoveryBudgetSeconds''" 60 86400]
  show ?thesis
    unfolding failed_round_def backoff_def using r by (simp add: Let_def BOUNDS_def)
qed

text \<open>Under validated settings a failed round counts one more attempt, asks for manual
  work exactly when the budget since the first failure is used up, and otherwise waits an
  exponential delay that stays between the initial and the longest one and never shrinks as
  the attempts grow.\<close>

theorem failed_round_correct:
  assumes "validate v = Inr s" and "failed_round st now s reason = Inr r"
  shows "startedAt r \<le> now \<and> 1 \<le> attempt r \<and> lastErrorCode r = reason
    \<and> (round_status r = (if of_int (setting s ''recoveryBudgetSeconds'') \<le> now - startedAt r
                          then ''manual_required'' else ''retry_wait''))
    \<and> nextAttemptAt r = (if round_status r = ''manual_required'' then 0
                          else now + of_int (backoff s (attempt r)))
    \<and> setting s ''retryInitialSeconds'' \<le> backoff s (attempt r)
    \<and> backoff s (attempt r) \<le> backoff s (attempt r + 1)
    \<and> backoff s (attempt r + 1) \<le> setting s ''retryMaxSeconds''"
proof -
  obtain started count where r: "number (dgetN st ''startedAt'') now = Inr started"
    "number (dgetN st ''attempt'') 0 = Inr count"
    using assms(2) by (auto simp: failed_round_eq [OF assms(1)] err_bind_Inr)
  have "0 \<le> count" using number_nonneg [OF r(2)] by simp
  then have n: "1 \<le> \<lfloor>count\<rfloor> + 1" by simp
  let ?started = "if started \<le> 0 \<or> now < started then now else started"
  have "r = \<lparr> startedAt = ?started, attempt = \<lfloor>count\<rfloor> + 1,
       round_status = (if of_int (setting s ''recoveryBudgetSeconds'') \<le> now - ?started
         then ''manual_required'' else ''retry_wait''),
       nextAttemptAt = (if of_int (setting s ''recoveryBudgetSeconds'') \<le> now - ?started then 0
         else now + of_int (backoff s (\<lfloor>count\<rfloor> + 1))),
       lastErrorCode = reason \<rparr>"
    using assms(2) by (simp add: failed_round_eq [OF assms(1)] r Let_def)
  then show ?thesis
    using n backoff_bounds [OF assms(1)] backoff_mono [OF assms(1)] by auto
qed

lemma failed_round_wait:
  assumes "validate v = Inr s" "failed_round st now s reason = Inr r"
  shows "round_status r = ''manual_required''
    \<or> (round_status r = ''retry_wait'' \<and> (\<exists>n. nextAttemptAt r = now + of_int (backoff s n)))"
  using assms(2) by (auto simp: failed_round_eq [OF assms(1)] err_bind_Inr Let_def split: if_splits)

text \<open>The rounds of one recovery: each starts no earlier than the time the one before set.\<close>

definition round_state :: "round_result \<Rightarrow> pydict" where
  "round_state r = [(''startedAt'', PFloat (Fin (startedAt r))), (''attempt'', PInt (attempt r))]"

inductive retries :: "pydict \<Rightarrow> rat \<Rightarrow> nat \<Rightarrow> round_result \<Rightarrow> bool" for s t0 where
  first_round: "0 < t0 \<Longrightarrow> failed_round [] t0 s reason = Inr r \<Longrightarrow> retries s t0 1 r"
| next_round: "retries s t0 n r \<Longrightarrow> round_status r = ''retry_wait'' \<Longrightarrow> nextAttemptAt r \<le> now \<Longrightarrow>
    failed_round (round_state r) now s reason = Inr r' \<Longrightarrow> retries s t0 (Suc n) r'"

lemma retries_progress:
  assumes "validate v = Inr s" "retries s t0 n r"
  shows "0 < t0 \<and> startedAt r = t0 \<and> attempt r = int n \<and> 1 \<le> n
    \<and> (round_status r = ''retry_wait'' \<longrightarrow>
         t0 + of_int (int n * setting s ''retryInitialSeconds'') \<le> nextAttemptAt r
         \<and> (int n - 1) * setting s ''retryInitialSeconds'' < setting s ''recoveryBudgetSeconds'')"
  using assms(2)
proof (induction rule: retries.induct)
  case (first_round reason r)
  have num: "number PNone d = Inr d" for d by (simp add: number_def)
  have "60 \<le> setting s ''recoveryBudgetSeconds''"
    using validated_reads(2) [OF assms(1), of "''recoveryBudgetSeconds''" 60 86400]
    by (simp add: BOUNDS_def)
  moreover have "r = \<lparr> startedAt = t0, attempt = 1,
       round_status = (if of_int (setting s ''recoveryBudgetSeconds'') \<le> (0::rat)
         then ''manual_required'' else ''retry_wait''),
       nextAttemptAt = (if of_int (setting s ''recoveryBudgetSeconds'') \<le> (0::rat) then 0
         else t0 + of_int (backoff s 1)), lastErrorCode = reason \<rparr>"
    using first_round by (simp add: failed_round_eq [OF assms(1)] num Let_def split: if_splits)
  ultimately show ?case
    using backoff_bounds(1) [OF assms(1), of 1] first_round(1) by simp
next
  case (next_round n r now reason r')
  let ?i = "setting s ''retryInitialSeconds''" and ?b = "setting s ''recoveryBudgetSeconds''"
  have i: "5 \<le> ?i"
    using validated_reads(2) [OF assms(1), of "''retryInitialSeconds''" 5 300] by (simp add: BOUNDS_def)
  from next_round have ih: "0 < t0" "startedAt r = t0" "attempt r = int n" "1 \<le> n"
    "t0 + of_int (int n * ?i) \<le> nextAttemptAt r" by auto
  have step: "t0 + of_int (int n * ?i) \<le> now" using ih(5) next_round.hyps(3) by linarith
  moreover have "(0::rat) \<le> of_int (int n * ?i)" using i by simp
  ultimately have now: "t0 \<le> now" by linarith
  obtain count where count: "number (PInt (int n)) 0 = Inr count"
    using next_round.hyps(4) ih by (auto simp: failed_round_eq [OF assms(1)] round_state_def err_bind_Inr)
  then have c: "count = of_int (int n)" by (rule number_PInt) simp
  have r': "r' = \<lparr> startedAt = t0, attempt = int n + 1,
       round_status = (if of_int ?b \<le> now - t0 then ''manual_required'' else ''retry_wait''),
       nextAttemptAt = (if of_int ?b \<le> now - t0 then 0 else now + of_int (backoff s (int n + 1))),
       lastErrorCode = reason \<rparr>"
    using next_round.hyps(4) ih now count c
    by (simp add: failed_round_eq [OF assms(1)] round_state_def Let_def split: if_splits)
  show ?case
  proof (cases "of_int ?b \<le> now - t0")
    case True
    with r' ih show ?thesis by simp
  next
    case False
    have "(of_int (int n * ?i) :: rat) < of_int ?b" using False step by linarith
    then have "int n * ?i < ?b" by (simp only: of_int_less_iff)
    moreover have "t0 + of_int ((int n + 1) * ?i) \<le> now + of_int (backoff s (int n + 1))"
    proof -
      have "(of_int ((int n + 1) * ?i) :: rat) = of_int (int n * ?i) + of_int ?i"
        by (simp add: algebra_simps)
      moreover have "(of_int ?i :: rat) \<le> of_int (backoff s (int n + 1))"
        using backoff_bounds(1) [OF assms(1)] by simp
      ultimately show ?thesis using step by linarith
    qed
    ultimately show ?thesis using r' ih False by (simp add: add.commute)
  qed
qed

text \<open>A recovery cannot retry for ever: when every round waits as told, the number of
  rounds is bounded by the budget over the initial delay, after which it asks for manual
  work.\<close>

theorem recovery_terminates:
  assumes "validate v = Inr s" and "retries s t0 n r"
    and "setting s ''recoveryBudgetSeconds'' \<le> (int n - 1) * setting s ''retryInitialSeconds''"
  shows "round_status r = ''manual_required''"
proof -
  from assms(2) obtain st now reason where "failed_round st now s reason = Inr r"
    by (cases rule: retries.cases) blast+
  then have "round_status r = ''manual_required'' \<or> round_status r = ''retry_wait''"
    by (auto simp: failed_round_eq [OF assms(1)] err_bind_Inr Let_def split: if_splits)
  with retries_progress [OF assms(1,2)] assms(3) show ?thesis by auto
qed

section \<open>What the statistics and the ranking guarantee\<close>

lemma with_keys_Inr:
  "with_keys f xs = Inr kxs \<Longrightarrow> map snd kxs = xs \<and> (\<forall>p \<in> set kxs. f (snd p) = Inr (fst p))"
  by (induction xs arbitrary: kxs) (fastforce simp: err_bind_Inr)+

lemma sorted_by_Inr:
  assumes "sorted_by f xs = Inr ys"
  shows "mset ys = mset xs"
    and "sorted_wrt (\<lambda>a b. \<exists>k l. f a = Inr k \<and> f b = Inr l \<and> k \<le> l) ys"
    and "\<And>y. y \<in> set ys \<Longrightarrow> \<exists>k. f y = Inr k"
proof -
  obtain kxs where k: "with_keys f xs = Inr kxs" "ys = map snd (sort_key fst kxs)"
    using assms by (auto simp: sorted_by_def err_bind_Inr)
  have m: "map snd kxs = xs" "\<And>p. p \<in> set kxs \<Longrightarrow> f (snd p) = Inr (fst p)"
    using with_keys_Inr [OF k(1)] by auto
  show "mset ys = mset xs" unfolding k(2) m(1) [symmetric] by (simp only: mset_map mset_sort)
  have "sorted (map fst (sort_key fst kxs))" by (rule sorted_sort_key)
  then have "sorted_wrt (\<lambda>p q. fst p \<le> fst q) (sort_key fst kxs)"
    by (simp only: sorted_map)
  then have "sorted_wrt (\<lambda>p q. \<exists>k l. f (snd p) = Inr k \<and> f (snd q) = Inr l \<and> k \<le> l) (sort_key fst kxs)"
    by (rule sorted_wrt_mono_rel [rotated]) (use m(2) in simp)
  then show "sorted_wrt (\<lambda>a b. \<exists>k l. f a = Inr k \<and> f b = Inr l \<and> k \<le> l) ys"
    unfolding k(2) by (simp only: sorted_wrt_map)
  show "\<exists>k. f y = Inr k" if "y \<in> set ys" for y
  proof -
    from that obtain p where "p \<in> set kxs" "y = snd p" unfolding k(2) by auto
    with m(2) show ?thesis by metis
  qed
qed

text \<open>A node that the statistics count.\<close>

definition countable_node :: "pydict \<Rightarrow> bool" where
  "countable_node n = (length (country_code n) = 2 \<and> py_isalpha (country_code n)
     \<and> node_identity n \<noteq> [] \<and> dialable n)"

definition row_ok :: "country_row \<Rightarrow> bool" where
  "row_ok r = (dialableCount r = residentialCount r + datacenterCount r
     \<and> 0 \<le> residentialCount r \<and> 0 \<le> datacenterCount r
     \<and> 0 \<le> freshEgressCount r \<and> freshEgressCount r \<le> dialableCount r \<and> 0 \<le> checkedAt r)"

definition statistics_inv :: "pydict set \<Rightarrow> statistics \<Rightarrow> bool" where
  "statistics_inv old st = (case st of (countries, seen) \<Rightarrow>
     distinct (map fst countries) \<and> list_all (\<lambda>(c, r). row_code r = c \<and> row_ok r) countries
     \<and> seen = node_identity ` {n \<in> old. countable_node n} \<and> finite seen
     \<and> sum_list (map (dialableCount \<circ> snd) countries) = int (card seen))"

lemma sum_list_update:
  "distinct (map fst m) \<Longrightarrow> sum_list (map (g \<circ> snd) (AList.update k v m))
    = sum_list (map (g \<circ> snd) m) - (case map_of m k of None \<Rightarrow> 0 | Some w \<Rightarrow> g w) + (g v :: int)"
  by (induction m) (auto split: option.splits simp: map_of_eq_None_iff)

lemma list_all_update:
  "list_all P m \<Longrightarrow> P (k, v) \<Longrightarrow> list_all P (AList.update k v m)"
  by (induction m) auto

lemma list_all_map_of: "list_all P m \<Longrightarrow> map_of m k = Some v \<Longrightarrow> P (k, v)"
  by (auto simp: list_all_iff dest: map_of_SomeD)

lemma count_node_ok:
  "row_ok r \<Longrightarrow> 0 \<le> checked \<Longrightarrow> row_ok (count_node now f n checked r)
    \<and> row_code (count_node now f n checked r) = row_code r
    \<and> dialableCount (count_node now f n checked r) = dialableCount r + 1"
  by (simp add: row_ok_def count_node_def Let_def le_max_iff_disj)

lemma statistics_step_inv:
  assumes "statistics_inv old st" "statistics_step now f n st = Inr st'"
  shows "statistics_inv (insert n old) st'"
proof -
  obtain countries seen where st: "st = (countries, seen)" by (cases st)
  let ?code = "country_code n" and ?id = "node_identity n"
  let ?row = "case map_of countries ?code of None \<Rightarrow> new_row ?code | Some r \<Rightarrow> r"
  from assms(1) have inv: "distinct (map fst countries)"
    "list_all (\<lambda>(c, r). row_code r = c \<and> row_ok r) countries"
    "seen = node_identity ` {n \<in> old. countable_node n}" "finite seen"
    "sum_list (map (dialableCount \<circ> snd) countries) = int (card seen)"
    unfolding statistics_inv_def st prod.case by blast+
  have new: "row_ok (new_row c)" for c by (simp add: new_row_def row_ok_def)
  have row: "row_code ?row = ?code" "row_ok ?row"
    using list_all_map_of [OF inv(2)] new by (auto simp: new_row_def split: option.split)
  have sum: "sum_list (map (dialableCount \<circ> snd) (AList.update ?code r countries))
      = int (card seen) - dialableCount ?row + dialableCount r" for r
    unfolding sum_list_update [OF inv(1)] inv(5) by (simp add: new_row_def split: option.split)
  consider (skip) "length ?code \<noteq> 2 \<or> \<not> py_isalpha ?code \<or> ?id = [] \<or> ?id \<in> seen"
    | (undialable) "\<not> (length ?code \<noteq> 2 \<or> \<not> py_isalpha ?code \<or> ?id = [] \<or> ?id \<in> seen)" "\<not> dialable n"
    | (counted) "\<not> (length ?code \<noteq> 2 \<or> \<not> py_isalpha ?code \<or> ?id = [] \<or> ?id \<in> seen)" "dialable n"
    by blast
  then show ?thesis
  proof cases
    case skip
    then have "st' = (countries, seen)" using assms(2) by (simp add: statistics_step_def st Let_def)
    moreover have "node_identity ` {m \<in> insert n old. countable_node m} = seen"
      using skip inv(3) by (auto simp: countable_node_def)
    ultimately show ?thesis using inv by (simp add: statistics_inv_def)
  next
    case undialable
    then have "st' = (AList.update ?code ?row countries, seen)"
      using assms(2) by (simp add: statistics_step_def st Let_def)
    moreover have "node_identity ` {m \<in> insert n old. countable_node m} = seen"
      using undialable inv(3) by (auto simp: countable_node_def)
    ultimately show ?thesis using inv row sum [of ?row]
      by (simp add: statistics_inv_def distinct_update list_all_update)
  next
    case counted
    obtain checked where c: "number (dgetN n ''probed_at'') 0 = Inr checked"
      "st' = (AList.update ?code (count_node now f n checked ?row)
                (AList.update ?code ?row countries), insert ?id seen)"
      using assms(2) counted by (auto simp: statistics_step_def st Let_def err_bind_Inr)
    have "0 \<le> checked" using number_nonneg [OF c(1)] by simp
    note cn = count_node_ok [OF row(2) this, of now f n]
    have seen: "node_identity ` {m \<in> insert n old. countable_node m} = insert ?id seen"
      using counted inv(3) by (auto simp: countable_node_def)
    have "sum_list (map (dialableCount \<circ> snd) (fst st')) = int (card seen) + 1"
      unfolding c(2) fst_conv using sum [of "count_node now f n checked ?row"] cn by simp
    moreover have "card (insert ?id seen) = Suc (card seen)" using counted inv(4) by simp
    ultimately show ?thesis using inv row cn seen
      unfolding c(2) statistics_inv_def prod.case
      by (intro conjI distinct_update list_all_update) auto
  qed
qed

lemma statistics_loop_inv:
  "statistics_inv old st \<Longrightarrow> statistics_loop now f ns st = Inr st' \<Longrightarrow>
    statistics_inv (old \<union> set ns) st'"
proof (induction ns arbitrary: old st)
  case (Cons n ns)
  then obtain st1 where "statistics_step now f n st = Inr st1" "statistics_loop now f ns st1 = Inr st'"
    by (auto simp: err_bind_Inr)
  with Cons.IH [OF statistics_step_inv [OF Cons.prems(1)]] show ?case by fastforce
qed simp

lemma country_statistics_inv:
  assumes "country_statistics nodes now f = Inr rows"
  obtains countries seen where "statistics_inv (set nodes) (countries, seen)"
    "rows = sort_key row_key (map snd countries)"
proof -
  obtain ordered st where o: "sorted_by (\<lambda>n. err_bind (number (dgetN n ''probed_at'') 0) (\<lambda>r. Inr (- r))) nodes
      = Inr ordered"
    "statistics_loop now f ordered ([], {}) = Inr st" "rows = sort_key row_key (map snd (fst st))"
    using assms unfolding country_statistics_def err_bind_Inr by blast
  have "set ordered = set nodes" using sorted_by_Inr(1) [OF o(1)] by (rule mset_eq_setD)
  moreover have "statistics_inv {} ([], {})" by (simp add: statistics_inv_def)
  ultimately have "statistics_inv (set nodes) st"
    using statistics_loop_inv [OF _ o(2), of "{}"] by simp
  with o(3) show ?thesis by (intro that [of "fst st" "snd st"]) auto
qed

text \<open>The statistics have one row for each country, every row splits its dialable nodes
  into residential and other ones and counts no more fresh ones than dialable ones, and the
  rows together count every identity with a dialable node exactly once.\<close>

theorem country_statistics_correct:
  assumes "country_statistics nodes now f = Inr rows"
  shows "distinct (map row_code rows) \<and> (\<forall>r \<in> set rows. row_ok r)
    \<and> sum_list (map dialableCount rows) = int (card (node_identity ` {n \<in> set nodes. countable_node n}))
    \<and> sorted (map row_key rows)"
proof -
  obtain countries seen where inv: "statistics_inv (set nodes) (countries, seen)"
    and rows: "rows = sort_key row_key (map snd countries)"
    by (rule country_statistics_inv [OF assms])
  have perm: "mset rows = mset (map snd countries)" unfolding rows by (rule mset_sort)
  have codes: "map (row_code \<circ> snd) countries = map fst countries"
    using inv by (auto simp: statistics_inv_def list_all_iff)
  have "mset (map row_code rows) = mset (map fst countries)"
    using perm codes by (metis list.map_comp mset_map)
  then have "distinct (map row_code rows)"
    using inv by (metis (no_types, lifting) case_prodD mset_eq_imp_distinct_iff statistics_inv_def)
  moreover have "\<forall>r \<in> set rows. row_ok r"
    using inv unfolding rows by (auto simp: statistics_inv_def list_all_iff)
  moreover have "sum_list (map dialableCount rows) = sum_list (map (dialableCount \<circ> snd) countries)"
    using perm by (metis list.map_comp mset_map sum_mset_sum_list)
  moreover have "sorted (map row_key rows)" unfolding rows by (rule sorted_sort_key)
  ultimately show ?thesis using inv by (simp add: statistics_inv_def)
qed

definition at_home :: "string \<Rightarrow> pydict \<Rightarrow> bool" where
  "at_home country n = (dgetN n ''country_short'' = PStr country)"

lemma rank_positive:
  assumes "rank_lookup (rank_table stats country) v d = Inr r" "0 < d"
  shows "0 \<le> r \<and> (r = 0 \<longleftrightarrow> v = PStr country)"
proof (cases "\<exists>s. v = PStr s \<and> s \<noteq> country")
  case False
  then show ?thesis using assms by (cases v) (auto simp: rank_table_def)
next
  case True
  then obtain s where v: "v = PStr s" "s \<noteq> country" by blast
  have "0 < k" if "map_of (zip (map row_code stats) (map int [1..<Suc (length stats)])) s = Some k" for k
  proof -
    from map_of_SomeD [OF that] have "k \<in> set (map int [1..<Suc (length stats)])"
      by (rule set_zip_rightD)
    then show ?thesis by auto
  qed
  then show ?thesis using assms v by (auto simp: rank_table_def split: option.splits)
qed

text \<open>The ranking permutes the eligible candidates: nodes of the wanted country come before
  all others, and among them residential nodes come first.\<close>

theorem rank_candidates_correct:
  assumes "rank_candidates nodes country s now = Inr out"
    and "setting_bool s ''allowDatacenter'' = Inr datacenter"
    and "setting_bool s ''allowCrossCountry'' = Inr cross"
  shows "mset out = mset (filter (eligible country datacenter cross) nodes)
    \<and> sorted_wrt (\<lambda>a b. at_home country b \<longrightarrow>
         at_home country a \<and> (residential b \<longrightarrow> residential a)) out"
proof -
  let ?E = "filter (eligible country datacenter cross) nodes"
  obtain stats where sort:
    "sorted_by (candidate_key (rank_table stats country) (int (length stats) + 1)) ?E = Inr out"
    using assms by (auto simp: rank_candidates_def err_bind_Inr Let_def)
  have "at_home country b \<longrightarrow> at_home country a \<and> (residential b \<longrightarrow> residential a)"
    if k: "candidate_key (rank_table stats country) (int (length stats) + 1) a = Inr k"
      and l: "candidate_key (rank_table stats country) (int (length stats) + 1) b = Inr l"
      and "k \<le> l" for a b k l
  proof
    assume b: "at_home country b"
    have pos: "0 < int (length stats) + 1" by simp
    obtain ra la where a: "rank_lookup (rank_table stats country) (dgetN a ''country_short'')
        (int (length stats) + 1) = Inr ra"
      "k = (ra, if residential a then 0 else 1, la, str_or_empty (dgetN a ''id''))"
      using k by (auto simp: candidate_key_def err_bind_Inr)
    obtain rb lb where b': "rank_lookup (rank_table stats country) (dgetN b ''country_short'')
        (int (length stats) + 1) = Inr rb"
      "l = (rb, if residential b then 0 else 1, lb, str_or_empty (dgetN b ''id''))"
      using l by (auto simp: candidate_key_def err_bind_Inr)
    have "rb = 0" using rank_positive [OF b'(1) pos] b by (simp add: at_home_def)
    moreover have "ra \<le> rb" using \<open>k \<le> l\<close> by (auto simp: a(2) b'(2))
    ultimately have "ra = 0" using rank_positive [OF a(1) pos] by simp
    then have "at_home country a" using rank_positive [OF a(1) pos] by (simp add: at_home_def)
    moreover have "residential b \<longrightarrow> residential a"
      using \<open>k \<le> l\<close> \<open>ra = 0\<close> \<open>rb = 0\<close> by (auto simp: a(2) b'(2) split: if_splits)
    ultimately show "at_home country a \<and> (residential b \<longrightarrow> residential a)" by blast
  qed
  then have "sorted_wrt (\<lambda>a b. at_home country b \<longrightarrow>
      at_home country a \<and> (residential b \<longrightarrow> residential a)) out"
    by (intro sorted_wrt_mono_rel [OF _ sorted_by_Inr(2) [OF sort]]) (elim exE conjE)
  with sorted_by_Inr(1) [OF sort] show ?thesis by blast
qed

section \<open>Concrete runs\<close>

lemma DEFAULTS_valid: "validate (PDict DEFAULTS) = Inr DEFAULTS"
  by code_simp

definition third_round :: round_result where
  "third_round = \<lparr> startedAt = 100, attempt = 3, round_status = ''retry_wait'',
     nextAttemptAt = 190, lastErrorCode = ''dial_failed'' \<rparr>"

lemma failed_round_correct_witness:
  "nextAttemptAt third_round = 150 + of_int (backoff DEFAULTS 3) \<and> backoff DEFAULTS 3 = 40"
proof -
  have "failed_round [(''startedAt'', PInt 100), (''attempt'', PInt 2)] 150 DEFAULTS ''dial_failed''
      = Inr third_round" by code_simp
  from failed_round_correct [OF DEFAULTS_valid this] have
    "nextAttemptAt third_round = (if round_status third_round = ''manual_required'' then 0
       else 150 + of_int (backoff DEFAULTS (attempt third_round)))" by blast
  moreover have "backoff DEFAULTS 3 = 40" by code_simp
  ultimately show ?thesis by (simp add: third_round_def)
qed

definition last_round :: round_result where
  "last_round = \<lparr> startedAt = 100, attempt = 2, round_status = ''manual_required'',
     nextAttemptAt = 0, lastErrorCode = ''dial_failed'' \<rparr>"

definition slow_settings :: pydict where
  "slow_settings = dset (dset (dset DEFAULTS ''retryInitialSeconds'' (PInt 60))
     ''retryMaxSeconds'' (PInt 60)) ''recoveryBudgetSeconds'' (PInt 60)"

lemma recovery_terminates_witness: "round_status last_round = ''manual_required''"
proof -
  have v: "validate (PDict slow_settings) = Inr slow_settings" by code_simp
  let ?first = "\<lparr> startedAt = 100, attempt = 1, round_status = ''retry_wait'',
     nextAttemptAt = 160, lastErrorCode = ''dial_failed'' \<rparr>"
  have f: "failed_round [] 100 slow_settings ''dial_failed'' = Inr ?first" by code_simp
  have one: "retries slow_settings 100 1 ?first" by (rule first_round [OF _ f]) simp
  have "failed_round (round_state ?first) 160 slow_settings ''dial_failed'' = Inr last_round"
    by code_simp
  then have "retries slow_settings 100 (Suc 1) last_round"
    by (rule next_round [OF one, rotated 2]) simp_all
  moreover have "setting slow_settings ''recoveryBudgetSeconds''
      \<le> (int (Suc 1) - 1) * setting slow_settings ''retryInitialSeconds''" by code_simp
  ultimately show ?thesis by (rule recovery_terminates [OF v])
qed

definition policy_node :: "string \<Rightarrow> string \<Rightarrow> string \<Rightarrow> int \<Rightarrow> pydict" where
  "policy_node nid country kind probed =
     [(''id'', PStr nid), (''country_short'', PStr country), (''ip_type'', PStr kind),
      (''probe_status'', PStr ''available''), (''config_text'', PStr ''client''),
      (''exit_ip'', PStr nid), (''probed_at'', PInt probed)]"

definition policy_nodes :: "pydict list" where
  "policy_nodes = [policy_node ''1'' ''US'' ''hosting'' 90, policy_node ''2'' ''JP'' ''hosting'' 95,
     policy_node ''3'' ''JP'' ''mobile'' 10, policy_node ''2'' ''JP'' ''hosting'' 80]"

lemma country_statistics_correct_witness:
  "sum_list (map dialableCount
     [\<lparr> row_code = ''JP'', dialableCount = 2, freshEgressCount = 1, residentialCount = 1,
        datacenterCount = 1, checkedAt = 95 \<rparr>,
      \<lparr> row_code = ''US'', dialableCount = 1, freshEgressCount = 1, residentialCount = 0,
        datacenterCount = 1, checkedAt = 90 \<rparr>])
   = int (card (node_identity ` {n \<in> set policy_nodes. countable_node n}))"
proof -
  have "country_statistics policy_nodes 100 60 = Inr
     [\<lparr> row_code = ''JP'', dialableCount = 2, freshEgressCount = 1, residentialCount = 1,
        datacenterCount = 1, checkedAt = 95 \<rparr>,
      \<lparr> row_code = ''US'', dialableCount = 1, freshEgressCount = 1, residentialCount = 0,
        datacenterCount = 1, checkedAt = 90 \<rparr>]" by code_simp
  from country_statistics_correct [OF this] show ?thesis by blast
qed

lemma rank_candidates_correct_witness:
  "mset [policy_node ''3'' ''JP'' ''mobile'' 10, policy_node ''2'' ''JP'' ''hosting'' 95,
         policy_node ''2'' ''JP'' ''hosting'' 80, policy_node ''1'' ''US'' ''hosting'' 90]
    = mset (filter (eligible ''JP'' True True) policy_nodes)"
proof -
  have "rank_candidates policy_nodes ''JP'' DEFAULTS 100 = Inr
     [policy_node ''3'' ''JP'' ''mobile'' 10, policy_node ''2'' ''JP'' ''hosting'' 95,
      policy_node ''2'' ''JP'' ''hosting'' 80, policy_node ''1'' ''US'' ''hosting'' 90]" by code_simp
  moreover have "setting_bool DEFAULTS ''allowDatacenter'' = Inr True"
    "setting_bool DEFAULTS ''allowCrossCountry'' = Inr True" by code_simp+
  ultimately show ?thesis using rank_candidates_correct by blast
qed

end
