(* ===== verification/Egress_Repair.thy ===== *)
theory Egress_Repair
  imports Recovery_Policy
begin

text \<open>
  \<^verbatim>\<open>services/aimili-egress/egress_repair.py\<close>: the store of the repair state of every
  exit. The state is what the file holds: \<open>Some v\<close> for a JSON text with value \<open>v\<close>,
  \<open>None\<close> for a file that is missing or unreadable. Every operation runs under the lock of
  the store, so it is one function from the file to the file; it writes at most once, as its
  last act, so an exception leaves the file alone. Clock readings are arguments.
\<close>

section \<open>The document\<close>

type_synonym disk = "pyval option"

definition empty_document :: pydict where
  "empty_document = [(''version'', PInt 1), (''egresses'', PDict [])]"

definition read_document :: "disk \<Rightarrow> pydict" where
  "read_document disk = (case disk of
     Some (PDict d) \<Rightarrow> (case dget d ''egresses'' of Some (PDict _) \<Rightarrow> d | _ \<Rightarrow> empty_document)
   | _ \<Rightarrow> empty_document)"

definition egresses :: "pydict \<Rightarrow> pydict" where
  "egresses document = (case dget document ''egresses'' of Some (PDict e) \<Rightarrow> e | _ \<Rightarrow> [])"

definition write_row :: "pydict \<Rightarrow> string \<Rightarrow> pydict \<Rightarrow> disk" where
  "write_row document key row =
     Some (PDict (dset document ''egresses'' (PDict (dset (egresses document) key (PDict row)))))"

text \<open>\<open>document["egresses"].get(key, {})\<close> and the same value as a dictionary.\<close>

definition row_value :: "disk \<Rightarrow> string \<Rightarrow> pyval" where
  "row_value disk key = dget_or (egresses (read_document disk)) key (PDict [])"

definition row_of :: "disk \<Rightarrow> string \<Rightarrow> pyexc + pydict" where
  "row_of disk key = dict_of (row_value disk key)"

definition get_row :: "disk \<Rightarrow> string \<Rightarrow> pydict" where
  "get_row disk egress = (case row_value disk egress of PDict r \<Rightarrow> r | _ \<Rightarrow> [])"

text \<open>\<open>v in {...}\<close> for a set of strings: lists and dictionaries cannot be hashed.\<close>

fun in_set :: "pyval \<Rightarrow> string set \<Rightarrow> pyexc + bool" where
  "in_set (PStr s) S = Inr (s \<in> S)"
| "in_set (PList _) S = Inl TypeError"
| "in_set (PDict _) S = Inl TypeError"
| "in_set _ S = Inr False"

definition is_str :: "pyval \<Rightarrow> string \<Rightarrow> bool" where
  "is_str v s = (v = PStr s)"

text \<open>\<open>v > now\<close> and \<open>now - v >= budget\<close> for a value of the document.\<close>

definition after_now :: "pyval \<Rightarrow> rat \<Rightarrow> pyexc + bool" where
  "after_now v now = (case num_of v of None \<Rightarrow> Inl TypeError | Some f \<Rightarrow> Inr (flt_less (Fin now) f))"

definition elapsed_reached :: "rat \<Rightarrow> pyval \<Rightarrow> int \<Rightarrow> pyexc + bool" where
  "elapsed_reached now started budget = (case num_of started of
     None \<Rightarrow> Inl TypeError
   | Some (Fin r) \<Rightarrow> Inr (of_int budget \<le> now - r)
   | Some NegInf \<Rightarrow> Inr True
   | Some _ \<Rightarrow> Inr False)"

section \<open>The operations\<close>

definition claim :: "rat \<Rightarrow> string \<Rightarrow> string \<Rightarrow> string \<Rightarrow> disk \<Rightarrow> pyexc + bool \<times> disk" where
  "claim now egress candidate_id country disk =
     err_bind (case row_value disk egress of
         PDict current \<Rightarrow> in_set (dgetN current ''status'') {''repairing'', ''manual_required''}
       | _ \<Rightarrow> Inr False) (\<lambda>unresolved.
     if unresolved then Inr (False, disk)
     else Inr (True, write_row (read_document disk) egress
       [(''status'', PStr ''repairing''),
        (''failed_candidate_id'', PStr (py_strip candidate_id)),
        (''country'', PStr (py_upper (py_strip country))),
        (''attempt_count'', PInt 1),
        (''attempted_at'', PFloat (Fin now)),
        (''replacement_candidate_id'', PStr []),
        (''error_code'', PStr [])]))"

definition attempts_of :: "pydict \<Rightarrow> pyexc + int" where
  "attempts_of current = err_bind (py_int (py_or (dgetN current ''attempt_count'') (PInt 0)))
     (\<lambda>n. Inr (max 1 n))"

definition require_manual ::
  "rat \<Rightarrow> string \<Rightarrow> string \<Rightarrow> string \<Rightarrow> disk \<Rightarrow> pyexc + disk" where
  "require_manual now egress error_code replacement disk =
     err_bind (row_of disk egress) (\<lambda>current.
     err_bind (attempts_of current) (\<lambda>attempts.
     Inr (write_row (read_document disk) egress (dupdate current
       [(''status'', PStr ''manual_required''),
        (''attempt_count'', PInt attempts),
        (''replacement_candidate_id'', PStr replacement),
        (''error_code'', PStr (if error_code = [] then ''auto_repair_failed'' else error_code)),
        (''finished_at'', PFloat (Fin now))]))))"

definition wait_for_standby ::
  "rat \<Rightarrow> string \<Rightarrow> string \<Rightarrow> string \<Rightarrow> bool \<Rightarrow> disk \<Rightarrow> pyexc + bool \<times> disk" where
  "wait_for_standby now egress candidate_id country allow_healthy disk =
     err_bind (row_of disk egress) (\<lambda>row.
     let status = dgetN row ''status'' in
     if is_str status ''waiting_standby'' \<or> is_str status ''manual_required'' then Inr (False, disk)
     else if is_str status ''healthy'' \<and> \<not> allow_healthy
       \<and> py_strip (str_or_empty (dgetN row ''candidate_id'')) \<noteq> py_strip candidate_id
     then Inr (False, disk)
     else Inr (True, write_row (read_document disk) egress
       [(''status'', PStr ''waiting_standby''), (''failed_candidate_id'', PStr candidate_id),
        (''country'', PStr country), (''started_at'', PFloat (Fin now)),
        (''attempt_count'', PInt 0), (''error_code'', PStr ''recovery_pending''),
        (''recovery_version'', PInt 2)]))"

definition legacy_errors :: "string set" where
  "legacy_errors = {''replacement_failed'', ''no_same_country_candidate'', ''repair_interrupted''}"

definition requeue_for_standby ::
  "rat \<Rightarrow> string \<Rightarrow> string \<Rightarrow> string \<Rightarrow> disk \<Rightarrow> pyexc + bool \<times> disk" where
  "requeue_for_standby now egress candidate_id country disk =
     (case row_value disk egress of
        PDict row \<Rightarrow>
          if \<not> is_str (dgetN row ''status'') ''manual_required''
            \<or> py_eq (dgetN row ''recovery_version'') (PInt 2) then Inr (False, disk)
          else err_bind (in_set (dgetN row ''error_code'') legacy_errors) (\<lambda>legacy.
            if \<not> legacy then Inr (False, disk)
            else Inr (True, write_row (read_document disk) egress
              [(''status'', PStr ''waiting_standby''),
               (''failed_candidate_id'', PStr (if candidate_id \<noteq> [] then candidate_id
                  else str_or_empty (dgetN row ''failed_candidate_id''))),
               (''country'', PStr (py_upper (if country \<noteq> [] then country
                  else str_or_empty (dgetN row ''country'')))),
               (''started_at'', PFloat (Fin now)), (''attempt_count'', PInt 0),
               (''error_code'', PStr ''recovery_pending''), (''recovery_version'', PInt 2),
               (''previous_error_code'', PStr (str_or_empty (dgetN row ''error_code'')))]))
      | _ \<Rightarrow> Inr (False, disk))"

definition begin_round ::
  "rat \<Rightarrow> string \<Rightarrow> string \<Rightarrow> pydict \<Rightarrow> disk \<Rightarrow> pyexc + bool \<times> disk" where
  "begin_round now egress country settings disk =
     err_bind (row_of disk egress) (\<lambda>row.
     let status = dgetN row ''status'' in
     if is_str status ''manual_required'' \<or> is_str status ''repairing'' then Inr (False, disk)
     else let row = (if is_str status ''healthy'' then [] else row);
              started = dget_or row ''started_at'' (PFloat (Fin now)) in
       err_bind (setting_int settings ''recoveryBudgetSeconds'') (\<lambda>budget.
       err_bind (elapsed_reached now started budget) (\<lambda>over.
       if over then Inr (False, write_row (read_document disk) egress (dupdate row
         [(''status'', PStr ''manual_required''), (''error_code'', PStr ''recovery_budget_exhausted''),
          (''next_attempt_at'', PInt 0)]))
       else err_bind (after_now (dget_or row ''next_attempt_at'' (PInt 0)) now) (\<lambda>early.
         if early then Inr (False, disk)
         else Inr (True, write_row (read_document disk) egress (dupdate row
           [(''status'', PStr ''repairing''), (''country'', PStr country), (''started_at'', started),
            (''attempted_at'', PFloat (Fin now)), (''recovery_version'', PInt 2)]))))))"

text \<open>\<open>finish_round\<close> reads the clock twice: for a missing start and for the round.\<close>

definition finish_round ::
  "rat \<Rightarrow> rat \<Rightarrow> string \<Rightarrow> pydict \<Rightarrow> string \<Rightarrow> disk \<Rightarrow> pyexc + pydict \<times> disk" where
  "finish_round now1 now egress settings error_code disk =
     err_bind (row_of disk egress) (\<lambda>row.
     err_bind (failed_round
       [(''startedAt'', dget_or row ''started_at'' (PFloat (Fin now1))),
        (''attempt'', dget_or row ''attempt_count'' (PInt 0))] now settings error_code) (\<lambda>result.
     let row = dupdate row
       [(''status'', PStr (round_status result)), (''started_at'', PFloat (Fin (startedAt result))),
        (''attempt_count'', PInt (attempt result)),
        (''next_attempt_at'', if round_status result = ''manual_required'' then PInt 0
           else PFloat (Fin (nextAttemptAt result))),
        (''error_code'', PStr (lastErrorCode result)), (''recovery_version'', PInt 2)]
     in Inr (row, write_row (read_document disk) egress row)))"

fun live_cooldowns :: "rat \<Rightarrow> pydict \<Rightarrow> pyexc + pydict" where
  "live_cooldowns now [] = Inr []"
| "live_cooldowns now ((key, until) # rest) =
     err_bind (after_now until now) (\<lambda>live.
     err_bind (live_cooldowns now rest) (\<lambda>kept.
     Inr (if live then (key, until) # kept else kept)))"

definition cool_candidate ::
  "rat \<Rightarrow> string \<Rightarrow> string \<Rightarrow> int \<Rightarrow> disk \<Rightarrow> pyexc + disk" where
  "cool_candidate now egress candidate_id seconds disk =
     err_bind (row_of disk egress) (\<lambda>row.
     err_bind (dict_of (dget_or row ''cooldowns'' (PDict []))) (\<lambda>cooldowns.
     err_bind (live_cooldowns now cooldowns) (\<lambda>kept.
     Inr (write_row (read_document disk) egress (dset row ''cooldowns''
       (PDict (dset kept candidate_id (PFloat (Fin (now + of_int seconds))))))))))"

text \<open>\<open>recover_interrupted\<close>: \<open>clock key\<close> is the reading taken for the row of \<open>key\<close>.\<close>

definition recover_row :: "rat \<Rightarrow> pyval \<Rightarrow> pyexc + (pyval \<times> bool)" where
  "recover_row now v = (case v of
     PDict current \<Rightarrow>
       if \<not> is_str (dgetN current ''status'') ''repairing'' then Inr (v, False)
       else if py_eq (dgetN current ''recovery_version'') (PInt 2)
       then Inr (PDict (dupdate current
         [(''status'', PStr ''retry_wait''), (''next_attempt_at'', PFloat (Fin now)),
          (''error_code'', PStr ''recovery_resumed'')]), True)
       else err_bind (attempts_of current) (\<lambda>attempts.
         Inr (PDict (dupdate current
           [(''status'', PStr ''manual_required''), (''attempt_count'', PInt attempts),
            (''error_code'', PStr ''repair_interrupted''), (''finished_at'', PFloat (Fin now))]), True))
   | _ \<Rightarrow> Inr (v, False))"

fun recover_rows :: "(string \<Rightarrow> rat) \<Rightarrow> pydict \<Rightarrow> pyexc + (pydict \<times> string list)" where
  "recover_rows clock [] = Inr ([], [])"
| "recover_rows clock ((key, v) # rest) =
     err_bind (recover_row (clock key) v) (\<lambda>(v', changed).
     err_bind (recover_rows clock rest) (\<lambda>(rows, recovered).
     Inr ((key, v') # rows, if changed then key # recovered else recovered)))"

definition recover_interrupted :: "(string \<Rightarrow> rat) \<Rightarrow> disk \<Rightarrow> pyexc + (string list \<times> disk)" where
  "recover_interrupted clock disk =
     err_bind (recover_rows clock (egresses (read_document disk))) (\<lambda>(rows, recovered).
     Inr (recovered, if recovered = [] then disk
       else Some (PDict (dset (read_document disk) ''egresses'' (PDict rows)))))"

definition mark_healthy :: "rat \<Rightarrow> string \<Rightarrow> string \<Rightarrow> disk \<Rightarrow> disk" where
  "mark_healthy now egress candidate_id disk =
     (if (case row_value disk egress of
            PDict current \<Rightarrow> is_str (dgetN current ''status'') ''healthy''
              \<and> str_or_empty (dgetN current ''candidate_id'') = candidate_id
          | _ \<Rightarrow> False) then disk
      else write_row (read_document disk) egress
        [(''status'', PStr ''healthy''), (''candidate_id'', PStr candidate_id),
         (''attempt_count'', PInt 0), (''error_code'', PStr []), (''healthy_at'', PFloat (Fin now))])"

definition clear_row :: "string \<Rightarrow> disk \<Rightarrow> disk" where
  "clear_row egress disk =
     (let document = read_document disk in
      case dget (egresses document) egress of
        None \<Rightarrow> disk
      | Some PNone \<Rightarrow> disk
      | Some _ \<Rightarrow> Some (PDict (dset document ''egresses'' (PDict (dpop (egresses document) egress)))))"

section \<open>The store as a step function\<close>

datatype repair_op =
    Claim string string
  | RequireManual string string
  | WaitStandby string string bool
  | Requeue string string
  | BeginRound string pydict
  | FinishRound pydict string
  | CoolCandidate string int
  | MarkHealthy string
  | Clear

text \<open>The answer is true when the operation reports that it took effect.\<close>

fun run_op :: "rat \<Rightarrow> string \<Rightarrow> repair_op \<Rightarrow> disk \<Rightarrow> pyexc + bool \<times> disk" where
  "run_op now e (Claim c country) d = claim now e c country d"
| "run_op now e (RequireManual err repl) d = err_bind (require_manual now e err repl d) (\<lambda>d'. Inr (True, d'))"
| "run_op now e (WaitStandby c country h) d = wait_for_standby now e c country h d"
| "run_op now e (Requeue c country) d = requeue_for_standby now e c country d"
| "run_op now e (BeginRound country s) d = begin_round now e country s d"
| "run_op now e (FinishRound s err) d = err_bind (finish_round now now e s err d) (\<lambda>(_, d'). Inr (True, d'))"
| "run_op now e (CoolCandidate c n) d = err_bind (cool_candidate now e c n d) (\<lambda>d'. Inr (True, d'))"
| "run_op now e (MarkHealthy c) d = Inr (True, mark_healthy now e c d)"
| "run_op now e Clear d = Inr (True, clear_row e d)"

section \<open>Reading what was written\<close>

lemma egresses_read: "dget (read_document d) ''egresses'' = Some (PDict (egresses (read_document d)))"
  by (auto simp: read_document_def egresses_def empty_document_def split: option.split pyval.split)

lemma read_with_rows:
  "read_document (Some (PDict (dset doc ''egresses'' (PDict rows)))) = dset doc ''egresses'' (PDict rows)"
  "egresses (dset doc ''egresses'' (PDict rows)) = rows"
  by (simp_all add: read_document_def egresses_def)

lemma row_value_write [simp]:
  "row_value (write_row (read_document d) k row) k' = (if k' = k then PDict row else row_value d k')"
  by (auto simp: row_value_def write_row_def read_with_rows)

lemma row_value_clear [simp]:
  "row_value (clear_row k d) k' = (if k' = k then
     (if dget (egresses (read_document d)) k = Some PNone then PNone else PDict []) else row_value d k')"
  by (auto simp: row_value_def clear_row_def Let_def read_with_rows dget_or_def
      split: option.split pyval.split)

lemma row_of_Inr: "row_of d k = Inr r \<longleftrightarrow> row_value d k = PDict r"
  by (simp add: row_of_def)

lemma row_of_write [simp]: "row_of (write_row (read_document d) k row) k = Inr row"
  by (simp add: row_of_Inr)

definition has_status :: "disk \<Rightarrow> string \<Rightarrow> string \<Rightarrow> bool" where
  "has_status d k s = (case row_value d k of PDict r \<Rightarrow> dgetN r ''status'' = PStr s | _ \<Rightarrow> False)"

definition unresolved :: "disk \<Rightarrow> string \<Rightarrow> bool" where
  "unresolved d k = (has_status d k ''repairing'' \<or> has_status d k ''manual_required'')"

lemma dget_or_dupdate: "k \<notin> dkeys e \<Longrightarrow> dget_or (dupdate d e) k v = dget_or d k v"
  by (induction d e rule: dupdate.induct) auto

lemma dget_dupdate_Cons:
  "dget_or (dupdate d ((k, v) # e)) k' w = dget_or (dupdate (dset d k v) e) k' w"
  by simp

lemma cool_candidate_Inr:
  "cool_candidate now e c n d = Inr d' \<longleftrightarrow> (\<exists>row cs kept. row_value d e = PDict row
     \<and> dget_or row ''cooldowns'' (PDict []) = PDict cs \<and> live_cooldowns now cs = Inr kept
     \<and> d' = write_row (read_document d) e (dset row ''cooldowns''
         (PDict (dset kept c (PFloat (Fin (now + of_int n)))))))"
  by (auto simp: cool_candidate_def err_bind_Inr row_of_Inr)

lemmas repair_defs = claim_def require_manual_def wait_for_standby_def requeue_for_standby_def
  begin_round_def finish_round_def cool_candidate_Inr mark_healthy_def Let_def is_str_def

lemma run_op_frame:
  "run_op now e oper d = Inr (answer, d') \<Longrightarrow> e' \<noteq> e \<Longrightarrow> row_value d' e' = row_value d e'"
  by (cases oper) (auto simp: repair_defs err_bind_Inr split: if_splits pyval.splits)

section \<open>One claim for each fault\<close>

text \<open>Operations of the automatic repair that keep an open claim, and those that take one.\<close>

fun keeps_claim :: "repair_op \<Rightarrow> bool" where
  "keeps_claim (Claim _ _) = True"
| "keeps_claim (RequireManual _ _) = True"
| "keeps_claim (BeginRound _ _) = True"
| "keeps_claim (CoolCandidate _ _) = True"
| "keeps_claim _ = False"

fun takes_claim :: "repair_op \<Rightarrow> bool" where
  "takes_claim (Claim _ _) = True"
| "takes_claim (BeginRound _ _) = True"
| "takes_claim _ = False"

text \<open>A run of operations: the answers (false for an exception) and the file at the end.\<close>

fun repair_trace :: "(rat \<times> string \<times> repair_op) list \<Rightarrow> disk \<Rightarrow> bool list \<times> disk" where
  "repair_trace [] d = ([], d)"
| "repair_trace ((now, e, oper) # rest) d =
     (case run_op now e oper d of
        Inl _ \<Rightarrow> (case repair_trace rest d of (bs, d') \<Rightarrow> (False # bs, d'))
      | Inr (b, d1) \<Rightarrow> (case repair_trace rest d1 of (bs, d') \<Rightarrow> (b # bs, d')))"

lemma unresolved_cases:
  "unresolved d e \<longleftrightarrow> (\<exists>r. row_value d e = PDict r
     \<and> (dgetN r ''status'' = PStr ''repairing'' \<or> dgetN r ''status'' = PStr ''manual_required''))"
  by (auto simp: unresolved_def has_status_def split: pyval.splits)

lemma open_claim_stays:
  assumes "unresolved d e" "keeps_claim oper" "run_op now e oper d = Inr (answer, d')"
  shows "unresolved d' e \<and> (takes_claim oper \<longrightarrow> \<not> answer)"
proof -
  obtain r where r: "row_value d e = PDict r"
    "dgetN r ''status'' = PStr ''repairing'' \<or> dgetN r ''status'' = PStr ''manual_required''"
    using assms(1) unfolding unresolved_cases by blast
  show ?thesis
  proof (cases oper)
    case (Claim c country)
    then show ?thesis using assms r by (auto simp: claim_def)
  next
    case (RequireManual err repl)
    then show ?thesis using assms r
      by (auto simp: require_manual_def err_bind_Inr unresolved_cases)
  next
    case (BeginRound country s)
    then show ?thesis using assms r by (auto simp: begin_round_def row_of_def is_str_def Let_def)
  next
    case (CoolCandidate c n)
    then show ?thesis using assms r
      by (auto simp: cool_candidate_Inr err_bind_Inr unresolved_cases)
  qed (use assms(2) in simp_all)
qed

text \<open>Operations on other exits, in any number and order and whether they fail or not, leave
  the repair state of an exit as it was.\<close>

theorem repair_frame:
  assumes "list_all (\<lambda>(now, e', oper). e' \<noteq> e) ops"
  shows "row_value (snd (repair_trace ops d)) e = row_value d e"
  using assms
proof (induction ops arbitrary: d)
  case (Cons x ops)
  obtain now e' oper where x: "x = (now, e', oper)" by (cases x)
  show ?case
  proof (cases "run_op now e' oper d")
    case (Inl err)
    then show ?thesis using Cons x by (simp add: case_prod_beta)
  next
    case (Inr res)
    then have "row_value (snd res) e = row_value d e"
      using run_op_frame [of now e' oper d "fst res" "snd res" e] Cons.prems x by auto
    then show ?thesis using Inr Cons x by (simp add: case_prod_beta)
  qed
qed simp

lemma unresolved_frame:
  "run_op now e oper d = Inr (answer, d') \<Longrightarrow> e' \<noteq> e \<Longrightarrow> unresolved d' e' = unresolved d e'"
  unfolding unresolved_def has_status_def using run_op_frame by simp

lemma open_claim_trace:
  assumes "unresolved d e" "list_all (\<lambda>(now, e', oper). e' = e \<longrightarrow> keeps_claim oper) ops"
  shows "unresolved (snd (repair_trace ops d)) e
    \<and> list_all (\<lambda>((now, e', oper), answer). e' = e \<and> takes_claim oper \<longrightarrow> \<not> answer)
        (zip ops (fst (repair_trace ops d)))"
  using assms
proof (induction ops arbitrary: d)
  case Nil
  then show ?case by simp
next
  case (Cons x ops)
  obtain now e' oper where x: "x = (now, e', oper)" by (cases x)
  show ?case
  proof (cases "run_op now e' oper d")
    case (Inl err)
    then show ?thesis using Cons x by (simp add: case_prod_beta)
  next
    case (Inr res)
    then obtain answer d1 where run: "run_op now e' oper d = Inr (answer, d1)" by (cases res) auto
    have "unresolved d1 e \<and> (e' = e \<and> takes_claim oper \<longrightarrow> \<not> answer)"
    proof (cases "e' = e")
      case True
      then show ?thesis using open_claim_stays [OF Cons.prems(1) _ run [unfolded True]] Cons.prems(2) x
        by simp
    next
      case False
      then show ?thesis using unresolved_frame [OF run] Cons.prems(1) by auto
    qed
    then show ?thesis using Cons.IH [of d1] Cons.prems(2) run x
      by (simp add: case_prod_beta)
  qed
qed

text \<open>C22. A fault is claimed at most once: after a successful claim, whatever the automatic
  repair does with the exit short of resolving it, and whatever happens to other exits, no
  further claim and no round on it succeeds, and the claim stays open.\<close>

theorem claimed_once:
  assumes "claim now e candidate country d = Inr (True, d1)"
    and "list_all (\<lambda>(now, e', oper). e' = e \<longrightarrow> keeps_claim oper) ops"
  shows "unresolved (snd (repair_trace ops d1)) e
    \<and> list_all (\<lambda>((now, e', oper), answer). e' = e \<and> takes_claim oper \<longrightarrow> \<not> answer)
        (zip ops (fst (repair_trace ops d1)))"
proof -
  have "unresolved d1 e"
    using assms(1) by (auto simp: claim_def err_bind_Inr unresolved_cases split: if_splits)
  from open_claim_trace [OF this assms(2)] show ?thesis .
qed

section \<open>Rounds respect budget and back-off\<close>

lemma begin_round_waits:
  assumes "validate v = Inr s" "row_value d e = PDict row"
    and "dgetN row ''status'' = PStr ''retry_wait''"
    and "dget row ''started_at'' = Some (PFloat (Fin st))"
    and "dget row ''next_attempt_at'' = Some (PFloat (Fin next))" "later < next"
  shows "\<exists>d'. begin_round later e country s d = Inr (False, d')"
proof -
  have "setting_int s ''recoveryBudgetSeconds'' = Inr (setting s ''recoveryBudgetSeconds'')"
    by (rule validated_reads(1) [OF assms(1), of _ 60 86400]) (simp add: BOUNDS_def)
  then show ?thesis using assms(2-)
    by (simp add: begin_round_def row_of_def is_str_def dget_or_def elapsed_reached_def after_now_def)
qed

text \<open>After a failed round the exit either asks for manual work and never starts a round
  by itself again, or no round can start before the back-off delay of at least the initial
  one is over.\<close>

theorem failed_round_blocks:
  assumes "validate v = Inr s" and "finish_round now1 now e s error_code d = Inr (row, d')"
  shows "(has_status d' e ''manual_required''
      \<and> (\<forall>later country. begin_round later e country s d' = Inr (False, d')))
    \<or> (has_status d' e ''retry_wait''
      \<and> (\<exists>next. now + of_int (setting s ''retryInitialSeconds'') \<le> next
          \<and> (\<forall>later country. later < next \<longrightarrow>
               (\<exists>d''. begin_round later e country s d' = Inr (False, d'')))))"
proof -
  obtain old st r where r: "row_of d e = Inr old" "failed_round st now s error_code = Inr r"
    and row: "row = dupdate old
       [(''status'', PStr (round_status r)), (''started_at'', PFloat (Fin (startedAt r))),
        (''attempt_count'', PInt (attempt r)),
        (''next_attempt_at'', if round_status r = ''manual_required'' then PInt 0
           else PFloat (Fin (nextAttemptAt r))),
        (''error_code'', PStr (lastErrorCode r)), (''recovery_version'', PInt 2)]"
    and d': "d' = write_row (read_document d) e row"
    using assms(2) unfolding finish_round_def err_bind_Inr Let_def by blast
  have val: "row_value d' e = PDict row" by (simp add: d')
  have st: "dgetN row ''status'' = PStr (round_status r)"
    "dget row ''started_at'' = Some (PFloat (Fin (startedAt r)))"
    by (simp_all add: row)
  have "(round_status r = ''manual_required'') \<or> (round_status r = ''retry_wait''
      \<and> now + of_int (setting s ''retryInitialSeconds'') \<le> nextAttemptAt r)"
  proof -
    have "(of_int (setting s ''retryInitialSeconds'') :: rat) \<le> of_int (backoff s n)" for n
      using backoff_bounds(1) [OF assms(1)] by simp
    then show ?thesis using failed_round_wait [OF assms(1) r(2)] by auto
  qed
  then show ?thesis
  proof
    assume m: "round_status r = ''manual_required''"
    then have "begin_round later e country s d' = Inr (False, d')" for later country
      using st val by (simp add: begin_round_def row_of_def is_str_def Let_def)
    with m st val show ?thesis by (simp add: has_status_def)
  next
    assume w: "round_status r = ''retry_wait''
      \<and> now + of_int (setting s ''retryInitialSeconds'') \<le> nextAttemptAt r"
    then have "dget row ''next_attempt_at'' = Some (PFloat (Fin (nextAttemptAt r)))"
      by (simp add: row)
    then have "\<exists>d''. begin_round later e country s d' = Inr (False, d'')"
      if "later < nextAttemptAt r" for later country
      using begin_round_waits [OF assms(1) val _ st(2) _ that] st(1) w by simp
    with w st val show ?thesis by (auto simp: has_status_def)
  qed
qed

section \<open>Recovery after a crash\<close>

lemma recover_rows_lookup:
  "recover_rows clock rows = Inr (rows', recovered) \<Longrightarrow> wf_dict rows \<Longrightarrow>
    (case dget rows k of
       None \<Rightarrow> dget rows' k = None \<and> k \<notin> set recovered
     | Some v \<Rightarrow> (\<exists>v' b. recover_row (clock k) v = Inr (v', b) \<and> dget rows' k = Some v'
         \<and> (k \<in> set recovered \<longleftrightarrow> b)))"
proof (induction rows arbitrary: rows' recovered)
  case Nil
  then show ?case by simp
next
  case (Cons p rows)
  obtain key v where p: "p = (key, v)" by (cases p)
  obtain v1 b1 r1 rec1 where step: "recover_row (clock key) v = Inr (v1, b1)"
    "recover_rows clock rows = Inr (r1, rec1)" "rows' = (key, v1) # r1"
    "recovered = (if b1 then key # rec1 else rec1)"
    using Cons.prems(1) by (auto simp: p err_bind_Inr split: prod.splits)
  have wf: "wf_dict rows" "key \<notin> dkeys rows" using Cons.prems(2) by (auto simp: p)
  note ih = Cons.IH [OF step(2) wf(1)]
  have absent: "key \<notin> set rec1" if "k = key" using ih wf(2) that by (auto simp: dkeys_dget)
  show ?case
  proof (cases "k = key")
    case True
    then show ?thesis using step absent by (auto simp: p)
  next
    case False
    then show ?thesis using step ih by (auto simp: p split: option.splits)
  qed
qed

lemma recover_row_status:
  assumes "recover_row now v = Inr (v', b)"
  shows "b = (\<exists>r. v = PDict r \<and> dgetN r ''status'' = PStr ''repairing'')"
    and "\<not> b \<Longrightarrow> v' = v"
    and "b \<Longrightarrow> \<exists>r. v' = PDict r \<and> (dgetN r ''status'' = PStr ''retry_wait''
       \<or> dgetN r ''status'' = PStr ''manual_required'')"
  using assms by (auto simp: recover_row_def is_str_def err_bind_Inr split: pyval.splits if_splits)

text \<open>After the start-up recovery no exit is left in repair: exactly the exits that were
  in repair are reported, each of them then waits for a retry or for manual work, and all
  other rows are as they were.\<close>

theorem recover_interrupted_correct:
  assumes "recover_interrupted clock d = Inr (recovered, d')"
    and "wf_dict (egresses (read_document d))"
  shows "set recovered = {e. has_status d e ''repairing''}
    \<and> (\<forall>e. if e \<in> set recovered
         then has_status d' e ''retry_wait'' \<or> has_status d' e ''manual_required''
         else row_value d' e = row_value d e)
    \<and> (\<forall>e. \<not> has_status d' e ''repairing'')"
proof -
  obtain rows where rows: "recover_rows clock (egresses (read_document d)) = Inr (rows, recovered)"
    and d': "d' = (if recovered = [] then d
       else Some (PDict (dset (read_document d) ''egresses'' (PDict rows))))"
    using assms(1) by (auto simp: recover_interrupted_def err_bind_Inr split: prod.splits)
  note look = recover_rows_lookup [OF rows assms(2)]
  have val: "row_value d' e = (if recovered = [] then row_value d e else dget_or rows e (PDict []))" for e
    by (simp add: d' row_value_def read_with_rows)
  have inrec: "e \<in> set recovered \<longleftrightarrow> has_status d e ''repairing''" for e
  proof (cases "dget (egresses (read_document d)) e")
    case None
    then show ?thesis using look [of e] by (simp add: has_status_def row_value_def dget_or_def)
  next
    case (Some v)
    then obtain v' b where v: "recover_row (clock e) v = Inr (v', b)" "e \<in> set recovered \<longleftrightarrow> b"
      using look [of e] by auto
    have "has_status d e ''repairing'' \<longleftrightarrow> (\<exists>r. v = PDict r \<and> dgetN r ''status'' = PStr ''repairing'')"
      using Some by (auto simp: has_status_def row_value_def dget_or_def split: pyval.splits)
    with recover_row_status(1) [OF v(1)] v(2) show ?thesis by simp
  qed
  have other: "row_value d' e = row_value d e" if "e \<notin> set recovered" for e
  proof -
    have "dget rows e = dget (egresses (read_document d)) e"
      using look [of e] that recover_row_status(2) by (auto split: option.splits)
    then show ?thesis unfolding val by (simp add: row_value_def dget_or_def)
  qed
  have new: "has_status d' e ''retry_wait'' \<or> has_status d' e ''manual_required''"
    if e: "e \<in> set recovered" for e
  proof -
    have "recovered \<noteq> []" using e by auto
    obtain v v' where v: "dget (egresses (read_document d)) e = Some v"
      "recover_row (clock e) v = Inr (v', True)" "dget rows e = Some v'"
      using look [of e] e by (auto split: option.splits)
    from recover_row_status(3) [OF v(2)] show ?thesis
      using v(3) \<open>recovered \<noteq> []\<close> by (auto simp: has_status_def val dget_or_def)
  qed
  have "\<not> has_status d' e ''repairing''" for e
  proof (cases "e \<in> set recovered")
    case True
    from new [OF this] show ?thesis by (auto simp: has_status_def split: pyval.splits)
  next
    case False
    then show ?thesis using other inrec by (simp add: has_status_def)
  qed
  with inrec other new show ?thesis by auto
qed

section \<open>Concrete runs\<close>

definition claimed_file :: disk where
  "claimed_file = (case claim 10 ''main'' ''n1'' ''jp'' None of Inr (_, d) \<Rightarrow> d | Inl _ \<Rightarrow> None)"

definition sample_ops :: "(rat \<times> string \<times> repair_op) list" where
  "sample_ops = [(11, ''main'', Claim ''n2'' ''us''), (12, ''slot:1'', Claim ''n3'' ''us''),
     (13, ''main'', RequireManual ''replacement_failed'' []), (14, ''main'', BeginRound ''us'' DEFAULTS),
     (15, ''main'', Claim ''n4'' ''us'')]"

lemma claimed_once_witness:
  "unresolved (snd (repair_trace sample_ops claimed_file)) ''main''
    \<and> fst (repair_trace sample_ops claimed_file) = [False, True, True, False, False]"
proof -
  have "claim 10 ''main'' ''n1'' ''jp'' None = Inr (True, claimed_file)" by code_simp
  moreover have "list_all (\<lambda>(now, e', oper). e' = ''main'' \<longrightarrow> keeps_claim oper) sample_ops"
    by code_simp
  moreover have "fst (repair_trace sample_ops claimed_file) = [False, True, True, False, False]"
    by code_simp
  ultimately show ?thesis using claimed_once by blast
qed

lemma repair_frame_witness:
  "row_value (snd (repair_trace sample_ops claimed_file)) ''slot:2'' = row_value claimed_file ''slot:2''"
proof -
  have "list_all (\<lambda>(now, e', oper). e' \<noteq> ''slot:2'') sample_ops" by code_simp
  then show ?thesis by (rule repair_frame)
qed

definition round_file :: disk where
  "round_file = (case begin_round 10 ''main'' ''JP'' DEFAULTS None of Inr (_, d) \<Rightarrow> d | Inl _ \<Rightarrow> None)"

definition failed_row :: pydict where
  "failed_row = (case finish_round 20 20 ''main'' DEFAULTS ''dial_failed'' round_file of
     Inr (r, _) \<Rightarrow> r | Inl _ \<Rightarrow> [])"

definition failed_file :: disk where
  "failed_file = (case finish_round 20 20 ''main'' DEFAULTS ''dial_failed'' round_file of
     Inr (_, d) \<Rightarrow> d | Inl _ \<Rightarrow> None)"

lemma failed_round_blocks_witness:
  "has_status failed_file ''main'' ''retry_wait''
    \<and> (\<exists>due. (20::rat) + of_int (setting DEFAULTS ''retryInitialSeconds'') \<le> due
        \<and> (\<exists>d''. begin_round 25 ''main'' ''JP'' DEFAULTS failed_file = Inr (False, d'')))"
proof -
  have f: "finish_round 20 20 ''main'' DEFAULTS ''dial_failed'' round_file = Inr (failed_row, failed_file)"
    by code_simp
  have m: "\<not> has_status failed_file ''main'' ''manual_required''"
    "setting DEFAULTS ''retryInitialSeconds'' = 10" by code_simp+
  with failed_round_blocks [OF DEFAULTS_valid f] obtain due where
    "has_status failed_file ''main'' ''retry_wait''"
    "20 + of_int (setting DEFAULTS ''retryInitialSeconds'') \<le> due"
    "\<forall>later country. later < due \<longrightarrow>
       (\<exists>d''. begin_round later ''main'' country DEFAULTS failed_file = Inr (False, d''))" by blast
  moreover from this(2) m(2) have "25 < due" by simp
  ultimately show ?thesis by blast
qed

definition recovered_file :: disk where
  "recovered_file = (case recover_interrupted (\<lambda>_. 30) round_file of Inr (_, d) \<Rightarrow> d | Inl _ \<Rightarrow> None)"

lemma recover_interrupted_correct_witness:
  "{''main''} = {e. has_status round_file e ''repairing''}
    \<and> has_status recovered_file ''main'' ''retry_wait''"
proof -
  have r: "recover_interrupted (\<lambda>_. 30) round_file = Inr ([''main''], recovered_file)" by code_simp
  have wf: "wf_dict (egresses (read_document round_file))" by code_simp
  have "has_status recovered_file ''main'' ''retry_wait''" by code_simp
  with recover_interrupted_correct [OF r wf] show ?thesis by simp
qed

end
