(* ===== verification/Json_Text.thy ===== *)
theory Json_Text
  imports Py_Base
begin

text \<open>
  \<open>json.dumps(d, sort_keys=True, separators=(",", ":"))\<close> for a dictionary whose values are
  strings: the canonical text that requests are hashed by. Characters outside the printable
  ASCII range, the quote and the backslash are escaped as the standard library does it.
\<close>

section \<open>The encoder\<close>

definition hex_digit :: "nat \<Rightarrow> char" where
  "hex_digit n = (if n < 10 then char_of (48 + n) else char_of (87 + n))"

definition hex4 :: "nat \<Rightarrow> string" where
  "hex4 n = [hex_digit (n div 4096 mod 16), hex_digit (n div 256 mod 16),
     hex_digit (n div 16 mod 16), hex_digit (n mod 16)]"

definition short_escape :: "char \<Rightarrow> char option" where
  "short_escape c = map_of
     [(CHR 0x22, CHR 0x22), (CHR 0x5C, CHR 0x5C), (CHR 0x0A, CHR ''n''), (CHR 0x0D, CHR ''r''),
      (CHR 0x09, CHR ''t''), (CHR 0x08, CHR ''b''), (CHR 0x0C, CHR ''f'')] c"

definition json_char :: "char \<Rightarrow> string" where
  "json_char c = (case short_escape c of
     Some e \<Rightarrow> [CHR 0x5C, e]
   | None \<Rightarrow> if 32 \<le> chr_code c \<and> chr_code c \<le> 126 then [c]
             else CHR 0x5C # CHR ''u'' # hex4 (chr_code c))"

definition json_string :: "string \<Rightarrow> string" where
  "json_string s = CHR 0x22 # concat (map json_char s) @ [CHR 0x22]"

fun json_items :: "(string \<times> string) list \<Rightarrow> string" where
  "json_items [] = []"
| "json_items [(k, v)] = json_string k @ CHR '':'' # json_string v"
| "json_items ((k, v) # d) = json_string k @ CHR '':'' # json_string v @ CHR '','' # json_items d"

definition json_object_text :: "(string \<times> string) list \<Rightarrow> string" where
  "json_object_text d = CHR ''{'' # json_items (sort_key fst d) @ [CHR ''}'']"

section \<open>Reading one character back\<close>

definition hex_val :: "char \<Rightarrow> nat" where
  "hex_val c = (if chr_code c < 58 then chr_code c - 48 else chr_code c - 87)"

definition json_unchar :: "string \<Rightarrow> (char \<times> string) option" where
  "json_unchar s = (case s of
     [] \<Rightarrow> None
   | c # r \<Rightarrow>
       if c = CHR 0x22 then None
       else if c \<noteq> CHR 0x5C then Some (c, r)
       else (case r of
           [] \<Rightarrow> None
         | e # r' \<Rightarrow>
             if e = CHR ''u'' then
               (case r' of
                  a # b # c # d # r'' \<Rightarrow>
                    Some (char_of (4096 * hex_val a + 256 * hex_val b + 16 * hex_val c + hex_val d), r'')
                | _ \<Rightarrow> None)
             else map_option (\<lambda>x. (x, r')) (map_of
               [(CHR 0x22, CHR 0x22), (CHR 0x5C, CHR 0x5C), (CHR ''n'', CHR 0x0A), (CHR ''r'', CHR 0x0D),
                (CHR ''t'', CHR 0x09), (CHR ''b'', CHR 0x08), (CHR ''f'', CHR 0x0C)] e)))"

lemma hex_val_digit [simp]: "n < 16 \<Longrightarrow> hex_val (hex_digit n) = n"
  by (auto simp: hex_val_def hex_digit_def chr_code_def)

lemma hex4_value:
  assumes "n < 256"
  shows "4096 * hex_val (hex_digit (n div 4096 mod 16)) + 256 * hex_val (hex_digit (n div 256 mod 16))
    + 16 * hex_val (hex_digit (n div 16 mod 16)) + hex_val (hex_digit (n mod 16)) = n"
proof -
  have "n div 4096 = 0" "n div 256 = 0" "n div 16 mod 16 = n div 16" using assms by simp_all
  then show ?thesis by (simp del: mod_div_trivial)
qed

lemma json_unchar_char: "json_unchar (json_char c @ r) = Some (c, r)"
proof (cases "short_escape c")
  case (Some e)
  then consider "c = CHR 0x22" | "c = CHR 0x5C" | "c = CHR 0x0A" | "c = CHR 0x0D" | "c = CHR 0x09"
    | "c = CHR 0x08" | "c = CHR 0x0C"
    by (auto simp: short_escape_def split: if_splits)
  then show ?thesis by cases (simp_all add: json_char_def short_escape_def json_unchar_def)
next
  case None
  then have ne: "c \<noteq> CHR 0x22" "c \<noteq> CHR 0x5C" by (auto simp: short_escape_def)
  show ?thesis
  proof (cases "32 \<le> chr_code c \<and> chr_code c \<le> 126")
    case True
    with None ne show ?thesis by (simp add: json_char_def json_unchar_def)
  next
    case False
    have "chr_code c < 256" by (simp add: chr_code_def)
    note val = hex4_value [OF this]
    have "json_char c = CHR 0x5C # CHR ''u'' # hex4 (chr_code c)"
      using None False by (auto simp only: json_char_def option.case if_False)
    then have "json_unchar (json_char c @ r) = Some (char_of (chr_code c), r)"
      unfolding json_unchar_def hex4_def by (simp only: append_Cons append_Nil list.case val) simp
    then show ?thesis by (simp add: chr_code_def)
  qed
qed

lemma json_unchar_quote: "json_unchar (CHR 0x22 # r) = None"
  by (simp add: json_unchar_def)

lemma json_body_inj:
  "concat (map json_char s) @ CHR 0x22 # r = concat (map json_char t) @ CHR 0x22 # r' \<Longrightarrow>
    s = t \<and> r = r'"
proof (induction s arbitrary: t)
  case Nil
  show ?case
  proof (cases t)
    case (Cons c t')
    with Nil have "CHR 0x22 # r = json_char c @ concat (map json_char t') @ CHR 0x22 # r'" by simp
    then have "json_unchar (CHR 0x22 # r) = Some (c, concat (map json_char t') @ CHR 0x22 # r')"
      by (simp only: json_unchar_char)
    then show ?thesis by (simp add: json_unchar_quote)
  qed (use Nil in simp)
next
  case (Cons c s)
  show ?case
  proof (cases t)
    case Nil
    with Cons.prems have "json_char c @ concat (map json_char s) @ CHR 0x22 # r = CHR 0x22 # r'" by simp
    then have "json_unchar (CHR 0x22 # r') = Some (c, concat (map json_char s) @ CHR 0x22 # r)"
      by (metis json_unchar_char)
    then show ?thesis by (simp add: json_unchar_quote)
  next
    case (Cons d t')
    with Cons.prems have eq: "json_char c @ concat (map json_char s) @ CHR 0x22 # r
        = json_char d @ concat (map json_char t') @ CHR 0x22 # r'" by simp
    then have "Some (c, concat (map json_char s) @ CHR 0x22 # r)
        = Some (d, concat (map json_char t') @ CHR 0x22 # r')"
      by (metis json_unchar_char)
    with Cons.IH [of t'] Cons show ?thesis by simp
  qed
qed

lemma json_string_inj: "json_string s @ r = json_string t @ r' \<longleftrightarrow> s = t \<and> r = r'"
  using json_body_inj [of s r t r'] by (auto simp: json_string_def)

lemma json_items_inj:
  "map fst d = map fst e \<Longrightarrow> json_items d = json_items e \<Longrightarrow> d = e"
proof (induction d arbitrary: e rule: json_items.induct)
  case 1
  then show ?case by simp
next
  case (2 k v)
  then show ?case
    using json_string_inj [of _ "[]" _ "[]"]
    by (cases e rule: json_items.cases) (auto simp: json_string_inj)
next
  case (3 k v p d)
  from 3(2) obtain k' v' q e' where e: "e = (k', v') # q # e'" "map fst (p # d) = map fst (q # e')"
    by (cases e rule: json_items.cases) auto
  with 3(3) have "k = k' \<and> v = v' \<and> json_items (p # d) = json_items (q # e')"
    by (simp add: json_string_inj)
  with 3(1) [OF e(2)] e(1) show ?case by simp
qed

text \<open>Dictionaries with the same keys in the same order have different texts.\<close>

lemma json_object_text_inj:
  assumes "map fst d = map fst e" "sorted (map fst d)" "json_object_text d = json_object_text e"
  shows "d = e"
proof -
  have "sort_key fst d = d" "sort_key fst e = e"
    using assms(1,2) by (simp_all add: sort_key_id_if_sorted)
  then show ?thesis
    using assms json_items_inj [of d e] by (simp add: json_object_text_def)
qed

end
