(* ===== verification/Main_Assignment.thy ===== *)
theory Main_Assignment
  imports Json_Text
begin

text \<open>
  \<^verbatim>\<open>services/aimili-egress/main_assignment.py\<close>: the coordinator of the two-phase switch of
  the main connection. The record \<open>coord\<close> is its \<open>_state\<close> (active operation, history of
  operations, mutation lease), the set of operations this process is working on, and the file.
  A method that calls out (the probe of a candidate, the restoration of the previous
  connection) releases the lock around the call, so it is split at that point: one function
  for each section under the lock, and the method composed of them with the call as an
  argument that may change the state, as other threads may do meanwhile.

  The SHA-256 digest, clock readings and random identifiers are arguments. A validation result
  is \<open>PDict []\<close> when the call raised. Writing the file succeeds.
\<close>

section \<open>Constants and validity of documents\<close>

definition BLOCKING_STATES :: "string set" where
  "BLOCKING_STATES = {''switching'', ''pending_commit'', ''pending_gateway_validation'',
     ''rolling_back'', ''repairing'', ''repair_required''}"

definition OPERATION_STATES :: "string set" where
  "OPERATION_STATES = BLOCKING_STATES \<union> {''committed'', ''rolled_back''}"

definition LEASE_STATES :: "string set" where
  "LEASE_STATES = {''active'', ''released'', ''expired''}"

definition LEGACY_TERMINAL_RESOLUTIONS :: "string set" where
  "LEGACY_TERMINAL_RESOLUTIONS = {''committed_new_after_repair'', ''replaced_after_repair''}"

definition OPERATION_REQUIRED_FIELDS :: "string set" where
  "OPERATION_REQUIRED_FIELDS = {''ok'', ''operation_id'', ''state'', ''old_candidate_id'',
     ''new_candidate_id'', ''country'', ''proxy_type'', ''port'', ''dns_verified'', ''exit_verified'',
     ''available'', ''error_code'', ''created_at'', ''expires_at'', ''idempotency_hash'',
     ''request_hash'', ''previous''}"

definition OPERATION_OPTIONAL_FIELDS :: "string set" where
  "OPERATION_OPTIONAL_FIELDS = {''repair_request_hash'', ''resolution''}"

definition PREVIOUS_FIELDS :: "string set" where
  "PREVIOUS_FIELDS = {''candidate_id'', ''country'', ''proxy_type'', ''connection_enabled'',
     ''routing_mode'', ''routing_ip_type'', ''fixed_node_id''}"

fun is_str_in :: "string set \<Rightarrow> pyval \<Rightarrow> bool" where
  "is_str_in S (PStr s) = (s \<in> S)"
| "is_str_in S _ = False"

fun is_bool :: "pyval \<Rightarrow> bool" where
  "is_bool (PBool _) = True"
| "is_bool _ = False"

fun str_within :: "nat \<Rightarrow> nat \<Rightarrow> pyval \<Rightarrow> bool" where
  "str_within lo hi (PStr s) = (lo \<le> length s \<and> length s \<le> hi)"
| "str_within lo hi _ = False"

text \<open>\<open>_valid_number\<close>: an integer that \<open>float\<close> cannot hold raises \<open>OverflowError\<close> there,
  which \<open>_read\<close> turns into the same outcome as an invalid document.\<close>

fun valid_number :: "pyval \<Rightarrow> bool" where
  "valid_number (PInt i) = (0 \<le> i \<and> i < float_overflow)"
| "valid_number (PFloat (Fin r)) = (0 \<le> r)"
| "valid_number _ = False"

definition hex_char :: "char \<Rightarrow> bool" where
  "hex_char c = (digit_char c \<or> (97 \<le> chr_code c \<and> chr_code c \<le> 102))"

fun valid_hash :: "pyval \<Rightarrow> bool" where
  "valid_hash (PStr s) = (length s = 64 \<and> list_all hex_char s)"
| "valid_hash _ = False"

abbreviation valid_text :: "pyval \<Rightarrow> nat \<Rightarrow> bool" where
  "valid_text v maximum \<equiv> str_within 1 maximum v"

definition identifier_char :: "char \<Rightarrow> bool" where
  "identifier_char c = (ascii_upper_char c \<or> ascii_lower_char c \<or> digit_char c
     \<or> c = CHR ''_'' \<or> c = CHR ''-'')"

fun valid_identifier :: "pyval \<Rightarrow> nat \<Rightarrow> nat \<Rightarrow> bool" where
  "valid_identifier (PStr s) maximum minimum =
     (minimum \<le> length s \<and> length s \<le> maximum \<and> list_all identifier_char s)"
| "valid_identifier _ maximum minimum = False"

fun valid_country :: "pyval \<Rightarrow> bool" where
  "valid_country (PStr s) = (length s = 2 \<and> list_all ascii_upper_char s)"
| "valid_country _ = False"

definition field_ok :: "pydict \<Rightarrow> string \<Rightarrow> (pyval \<Rightarrow> bool) \<Rightarrow> bool" where
  "field_ok d k ok = (case dget d k of None \<Rightarrow> True | Some v \<Rightarrow> ok v)"

definition valid_previous :: "pyval \<Rightarrow> bool" where
  "valid_previous v = (case v of
     PDict p \<Rightarrow>
       dhas p ''candidate_id'' \<and> dkeys p \<subseteq> PREVIOUS_FIELDS
       \<and> str_within 0 256 (dgetN p ''candidate_id'')
       \<and> field_ok p ''country'' (\<lambda>c. c = PStr [] \<or> valid_country c)
       \<and> field_ok p ''proxy_type'' (is_str_in {[], ''residential'', ''datacenter''})
       \<and> field_ok p ''connection_enabled'' is_bool
       \<and> field_ok p ''routing_mode'' (is_str_in {''auto'', ''fixed_ip'', ''fixed_region'', ''favorites''})
       \<and> field_ok p ''routing_ip_type'' (is_str_in {''all'', ''residential'', ''hosting''})
       \<and> field_ok p ''fixed_node_id'' (str_within 0 256)
   | _ \<Rightarrow> False)"

definition num_le :: "pyval \<Rightarrow> pyval \<Rightarrow> bool" where
  "num_le a b = (case (num_of a, num_of b) of (Some x, Some y) \<Rightarrow> flt_le x y | _ \<Rightarrow> False)"

definition repair_fields_ok :: "pydict \<Rightarrow> bool" where
  "repair_fields_ok op =
     (let repair_hash = dgetN op ''repair_request_hash''; resolution = dgetN op ''resolution'' in
      (repair_hash = PNone) = (resolution = PNone)
      \<and> (repair_hash \<noteq> PNone \<longrightarrow> valid_hash repair_hash
           \<and> is_str_in {''repair_commit'', ''repair_replace''} resolution)
      \<and> (is_str_in {''repairing'', ''pending_gateway_validation''} (dgetN op ''state'')
           \<longrightarrow> repair_hash \<noteq> PNone))"

definition valid_operation :: "pydict \<Rightarrow> bool" where
  "valid_operation op =
     (OPERATION_REQUIRED_FIELDS \<subseteq> dkeys op
      \<and> dkeys op \<subseteq> OPERATION_REQUIRED_FIELDS \<union> OPERATION_OPTIONAL_FIELDS
      \<and> is_bool (dgetN op ''ok'')
      \<and> valid_identifier (dgetN op ''operation_id'') 128 1
      \<and> is_str_in OPERATION_STATES (dgetN op ''state'')
      \<and> str_within 0 256 (dgetN op ''old_candidate_id'')
      \<and> valid_text (dgetN op ''new_candidate_id'') 256
      \<and> valid_country (dgetN op ''country'')
      \<and> is_str_in {''residential'', ''datacenter''} (dgetN op ''proxy_type'')
      \<and> dgetN op ''port'' = PInt 7928
      \<and> is_bool (dgetN op ''dns_verified'') \<and> is_bool (dgetN op ''exit_verified'')
      \<and> is_bool (dgetN op ''available'')
      \<and> str_within 0 128 (dgetN op ''error_code'')
      \<and> valid_number (dgetN op ''created_at'') \<and> valid_number (dgetN op ''expires_at'')
      \<and> num_le (dgetN op ''created_at'') (dgetN op ''expires_at'')
      \<and> valid_hash (dgetN op ''idempotency_hash'') \<and> valid_hash (dgetN op ''request_hash'')
      \<and> valid_previous (dgetN op ''previous'')
      \<and> repair_fields_ok op)"

definition valid_lease :: "pydict \<Rightarrow> bool" where
  "valid_lease lease =
     (is_str_in LEASE_STATES (dgetN lease ''state'')
      \<and> dkeys lease = {''ok'', ''state'', ''lease_id'', ''idempotency_hash''}
          \<union> (if dgetN lease ''state'' = PStr ''active'' then {''expires_at''} else {})
      \<and> dgetN lease ''ok'' = PBool True
      \<and> valid_identifier (dgetN lease ''lease_id'') 128 32
      \<and> valid_hash (dgetN lease ''idempotency_hash'')
      \<and> (dgetN lease ''state'' = PStr ''active'' \<longrightarrow> valid_number (dgetN lease ''expires_at'')))"

definition op_state :: "pydict \<Rightarrow> pyval" where
  "op_state op = dgetN op ''state''"

definition blocking :: "pydict \<Rightarrow> bool" where
  "blocking op = is_str_in BLOCKING_STATES (op_state op)"

text \<open>The loop over the history: keys, operations and identities, and the blocking ones.\<close>

fun valid_history :: "pydict \<Rightarrow> pyval list \<Rightarrow> bool" where
  "valid_history [] ids = True"
| "valid_history ((key, v) # rest) ids =
     (valid_hash (PStr key)
      \<and> (case v of
           PDict op \<Rightarrow> valid_operation op \<and> dgetN op ''idempotency_hash'' = PStr key
             \<and> dgetN op ''operation_id'' \<notin> set ids
             \<and> valid_history rest (dgetN op ''operation_id'' # ids)
         | _ \<Rightarrow> False))"

definition blocking_count :: "pydict \<Rightarrow> nat" where
  "blocking_count ops = length (filter (\<lambda>(_, v). case v of PDict op \<Rightarrow> blocking op | _ \<Rightarrow> False) ops)"

definition valid_active :: "pyval \<Rightarrow> pydict \<Rightarrow> bool" where
  "valid_active active ops = (case active of
     PNone \<Rightarrow> blocking_count ops = 0
   | PDict a \<Rightarrow> valid_operation a \<and> blocking a
       \<and> (case dgetN a ''idempotency_hash'' of
            PStr h \<Rightarrow> (case dget ops h of None \<Rightarrow> False | Some v \<Rightarrow> py_eq v (PDict a))
          | _ \<Rightarrow> False)
       \<and> blocking_count ops = 1
   | _ \<Rightarrow> False)"

definition valid_document :: "pyval \<Rightarrow> bool" where
  "valid_document raw = (case raw of
     PDict d \<Rightarrow>
       dkeys d = {''version'', ''active'', ''operations'', ''mutation_lease''}
       \<and> dgetN d ''version'' = PInt 1
       \<and> (case dgetN d ''operations'' of
            PDict ops \<Rightarrow> valid_history ops [] \<and> valid_active (dgetN d ''active'') ops
          | _ \<Rightarrow> False)
       \<and> (case dgetN d ''mutation_lease'' of
            PNone \<Rightarrow> True | PDict lease \<Rightarrow> valid_lease lease | _ \<Rightarrow> False)
   | _ \<Rightarrow> False)"

section \<open>The state and the file\<close>

datatype state_file = Missing | Unreadable | NotUtf8 | NotJson | Json pyval

record coord =
  co_active :: "pydict option"
  co_operations :: "(string \<times> pydict) list"
  co_lease :: "pydict option"
  co_live :: "string set"
  co_file :: state_file

definition opt_value :: "pydict option \<Rightarrow> pyval" where
  "opt_value x = (case x of None \<Rightarrow> PNone | Some d \<Rightarrow> PDict d)"

definition history_value :: "(string \<times> pydict) list \<Rightarrow> pydict" where
  "history_value ops = map (\<lambda>(k, op). (k, PDict op)) ops"

definition document :: "coord \<Rightarrow> pyval" where
  "document st = PDict
     [(''version'', PInt 1), (''active'', opt_value (co_active st)),
      (''operations'', PDict (history_value (co_operations st))),
      (''mutation_lease'', opt_value (co_lease st))]"

definition write_state :: "coord \<Rightarrow> coord" where
  "write_state st = st\<lparr>co_file := Json (document st)\<rparr>"

definition fresh_state :: coord where
  "fresh_state = \<lparr> co_active = None, co_operations = [], co_lease = None, co_live = {},
     co_file = Missing \<rparr>"

definition corrupt_active :: pydict where
  "corrupt_active = [(''ok'', PBool False), (''state'', PStr ''repair_required''),
     (''error_code'', PStr ''state_corrupt'')]"

definition corrupt_state :: coord where
  "corrupt_state = fresh_state\<lparr>co_active := Some corrupt_active\<rparr>"

fun opt_dict :: "pyval \<Rightarrow> pydict option" where
  "opt_dict (PDict d) = Some d"
| "opt_dict _ = None"

definition state_of_document :: "pydict \<Rightarrow> coord" where
  "state_of_document d = fresh_state
     \<lparr>co_active := opt_dict (dgetN d ''active''),
      co_operations := (case dgetN d ''operations'' of
         PDict ops \<Rightarrow> List.map_filter (\<lambda>(k, v). map_option (Pair k) (opt_dict v)) ops | _ \<Rightarrow> []),
      co_lease := opt_dict (dgetN d ''mutation_lease'')\<rparr>"

text \<open>\<open>_canonicalize_legacy_terminal_history\<close>: the loop over the operations returns the new
  history and whether it changed anything.\<close>

fun canonicalize_loop :: "pydict \<Rightarrow> (pydict \<times> bool) option" where
  "canonicalize_loop [] = Some ([], False)"
| "canonicalize_loop ((key, stored) # rest) =
     (case stored of
        PDict op \<Rightarrow>
          if \<not> is_str_in {''committed'', ''rolled_back''} (op_state op) then None
          else if is_str_in LEGACY_TERMINAL_RESOLUTIONS (dgetN op ''resolution'')
          then (if op_state op \<noteq> PStr ''committed'' \<or> dhas op ''repair_request_hash'' then None
                else map_option (\<lambda>(ops, _). ((key, PDict (dpop op ''resolution'')) # ops, True))
                       (canonicalize_loop rest))
          else map_option (\<lambda>(ops, b). ((key, PDict op) # ops, b)) (canonicalize_loop rest)
      | _ \<Rightarrow> None)"

definition canonicalize_legacy_terminal_history :: "pydict \<Rightarrow> pydict option" where
  "canonicalize_legacy_terminal_history raw =
     (case (dgetN raw ''active'', dgetN raw ''operations'') of
        (PNone, PDict ops) \<Rightarrow>
          (case canonicalize_loop ops of
             Some (operations, True) \<Rightarrow> Some
               [(''version'', dgetN raw ''version''), (''active'', PNone),
                (''operations'', PDict operations), (''mutation_lease'', PNone)]
           | _ \<Rightarrow> None)
      | _ \<Rightarrow> None)"

text \<open>\<open>_read\<close>: the state and whether it was migrated. A text that is not UTF-8 raises a
  \<open>ValueError\<close> that nothing catches.\<close>

definition read_value :: "pyval \<Rightarrow> coord \<times> bool" where
  "read_value raw = (case raw of
     PDict d \<Rightarrow>
       if valid_document raw then (state_of_document d, False)
       else if dkeys d = {''version'', ''active'', ''operations''} then
         (let migrated = dset d ''mutation_lease'' PNone in
          if valid_document (PDict migrated) then (state_of_document migrated, True)
          else (case canonicalize_legacy_terminal_history d of
                  Some m \<Rightarrow> if valid_document (PDict m) then (state_of_document m, True)
                            else (corrupt_state, False)
                | None \<Rightarrow> (corrupt_state, False)))
       else (corrupt_state, False)
   | _ \<Rightarrow> (corrupt_state, False))"

definition read_state :: "state_file \<Rightarrow> pyexc + coord \<times> bool" where
  "read_state f = (case f of
     Missing \<Rightarrow> Inr (fresh_state, False)
   | Unreadable \<Rightarrow> Inr (corrupt_state, False)
   | NotUtf8 \<Rightarrow> Inl ValueError
   | NotJson \<Rightarrow> Inr (corrupt_state, False)
   | Json raw \<Rightarrow> Inr (read_value raw))"

text \<open>The constructor.\<close>

definition open_coordinator :: "state_file \<Rightarrow> pyexc + coord" where
  "open_coordinator f = err_bind (read_state f) (\<lambda>(st, migrated).
     let st = st\<lparr>co_file := f\<rparr> in Inr (if migrated then write_state st else st))"

section \<open>Small helpers\<close>

definition reply_error :: "string \<Rightarrow> pydict" where
  "reply_error code = [(''ok'', PBool False), (''error_code'', PStr code)]"

definition public_fields :: "string set" where
  "public_fields = {''ok'', ''operation_id'', ''state'', ''old_candidate_id'', ''new_candidate_id'',
     ''country'', ''proxy_type'', ''port'', ''dns_verified'', ''exit_verified'', ''available'',
     ''error_code'', ''resolution'', ''expires_at''}"

definition public :: "pydict \<Rightarrow> pydict" where
  "public operation = filter (\<lambda>(k, _). k \<in> public_fields) operation"

definition public_mutation_lease :: "pydict \<Rightarrow> pydict" where
  "public_mutation_lease lease =
     filter (\<lambda>(k, _). k \<in> {''ok'', ''state'', ''lease_id'', ''expires_at''}) lease"

definition is_true :: "pydict \<Rightarrow> string \<Rightarrow> bool" where
  "is_true d k = (dgetN d k = PBool True)"

definition validation :: "pyval \<Rightarrow> pydict" where
  "validation v = (let d = (case v of PDict d \<Rightarrow> d | _ \<Rightarrow> []) in
     [(''dns_verified'', PBool (is_true d ''dns_verified'')),
      (''exit_verified'', PBool (is_true d ''exit_verified'')),
      (''available'', PBool (is_true d ''available''))])"

definition verified :: "pydict \<Rightarrow> bool" where
  "verified d = (is_true d ''dns_verified'' \<and> is_true d ''exit_verified'' \<and> is_true d ''available'')"

text \<open>\<open>now >= float(d.get("expires_at") or 0)\<close>.\<close>

definition deadline_passed :: "rat \<Rightarrow> pydict \<Rightarrow> bool" where
  "deadline_passed now d = (case py_float (py_or (dgetN d ''expires_at'') (PInt 0)) of
     Inr f \<Rightarrow> flt_le f (Fin now) | Inl _ \<Rightarrow> False)"

definition str_field :: "pydict \<Rightarrow> string \<Rightarrow> string" where
  "str_field d k = (case dgetN d k of PStr s \<Rightarrow> s | _ \<Rightarrow> [])"

definition save_operation :: "pydict \<Rightarrow> bool \<Rightarrow> coord \<Rightarrow> coord" where
  "save_operation operation active st = write_state
     (st\<lparr>co_operations := AList.update (str_field operation ''idempotency_hash'') operation
           (co_operations st),
         co_active := if active then Some operation else None\<rparr>)"

definition find_operation :: "string \<Rightarrow> coord \<Rightarrow> pydict option" where
  "find_operation wanted st =
     find (\<lambda>op. dgetN op ''operation_id'' = PStr wanted) (map snd (co_operations st))"

definition lease_active :: "coord \<Rightarrow> bool" where
  "lease_active st = (case co_lease st of
     None \<Rightarrow> False | Some lease \<Rightarrow> dgetN lease ''state'' = PStr ''active'')"

definition expire_lease :: "rat \<Rightarrow> coord \<Rightarrow> coord" where
  "expire_lease now st = (case co_lease st of
     None \<Rightarrow> st
   | Some lease \<Rightarrow>
       if lease_active st \<and> deadline_passed now lease
       then write_state (st\<lparr>co_lease :=
              Some (dpop (dset lease ''state'' (PStr ''expired'')) ''expires_at'')\<rparr>)
       else st)"

definition active_blocking :: "coord \<Rightarrow> bool" where
  "active_blocking st = (case co_active st of None \<Rightarrow> False | Some a \<Rightarrow> blocking a)"

definition mutation_allowed :: "rat \<Rightarrow> coord \<Rightarrow> bool \<times> coord" where
  "mutation_allowed now st = (let st = expire_lease now st in
     (\<not> active_blocking st \<and> \<not> lease_active st, st))"

definition background_mutation_allowed :: "rat \<Rightarrow> coord \<Rightarrow> bool \<times> coord" where
  "background_mutation_allowed now st = (let st = expire_lease now st in
     ((case co_active st of None \<Rightarrow> True
       | Some a \<Rightarrow> \<not> is_str_in (BLOCKING_STATES - {''repair_required''}) (op_state a))
      \<and> \<not> lease_active st, st))"

definition assignment_action_allowed :: "rat \<Rightarrow> coord \<Rightarrow> bool \<times> coord" where
  "assignment_action_allowed now st = (let st = expire_lease now st in (\<not> lease_active st, st))"

section \<open>The mutation lease\<close>

definition lease_key_ok :: "string \<Rightarrow> bool" where
  "lease_key_ok key = (8 \<le> length key \<and> length key \<le> 256
     \<and> list_all (\<lambda>c. 33 \<le> chr_code c \<and> chr_code c \<le> 126) key)"

definition acquire_mutation_lease ::
  "(string \<Rightarrow> string) \<Rightarrow> int \<Rightarrow> rat \<Rightarrow> rat \<Rightarrow> string \<Rightarrow> string \<Rightarrow> coord \<Rightarrow> pydict \<times> coord" where
  "acquire_mutation_lease digest ttl t1 t2 new_id key st =
    (if \<not> lease_key_ok key then (reply_error ''invalid_request'', st)
     else let st = expire_lease t1 st in
       if lease_active st
       then (let lease = the (co_lease st) in
             if dgetN lease ''idempotency_hash'' = PStr (digest key)
             then (public_mutation_lease lease, st) else (reply_error ''lease_busy'', st))
       else if active_blocking st then (reply_error ''operation_busy'', st)
       else (let lease = [(''ok'', PBool True), (''state'', PStr ''active''), (''lease_id'', PStr new_id),
                (''idempotency_hash'', PStr (digest key)),
                (''expires_at'', PFloat (Fin (t2 + of_int ttl)))]
             in (public_mutation_lease lease, write_state (st\<lparr>co_lease := Some lease\<rparr>))))"

definition renew_mutation_lease ::
  "int \<Rightarrow> rat \<Rightarrow> rat \<Rightarrow> string \<Rightarrow> coord \<Rightarrow> pyexc + pydict \<times> coord" where
  "renew_mutation_lease ttl t1 t2 wanted st =
    (let st = expire_lease t1 st in
     if \<not> lease_active st then Inr (reply_error ''lease_not_found'', st)
     else let lease = the (co_lease st) in
       err_bind (compare_digest (str_or_empty (dgetN lease ''lease_id'')) wanted) (\<lambda>same.
       if \<not> same then Inr (reply_error ''lease_not_found'', st)
       else let lease = dset lease ''expires_at'' (PFloat (Fin (t2 + of_int ttl))) in
         Inr (public_mutation_lease lease, write_state (st\<lparr>co_lease := Some lease\<rparr>))))"

definition release_mutation_lease :: "rat \<Rightarrow> string \<Rightarrow> coord \<Rightarrow> pyexc + pydict \<times> coord" where
  "release_mutation_lease now wanted st = (case co_lease st of
     None \<Rightarrow> Inr (reply_error ''lease_not_found'', st)
   | Some lease \<Rightarrow>
       err_bind (compare_digest (str_or_empty (dgetN lease ''lease_id'')) wanted) (\<lambda>same.
       if \<not> same then Inr (reply_error ''lease_not_found'', st)
       else if dgetN lease ''state'' = PStr ''released''
       then Inr ([(''ok'', PBool True), (''state'', PStr ''released'')], st)
       else if dgetN lease ''state'' \<noteq> PStr ''active'' \<or> deadline_passed now lease
       then Inr (reply_error ''lease_not_found'', st)
       else Inr ([(''ok'', PBool True), (''state'', PStr ''released'')],
         write_state (st\<lparr>co_lease :=
           Some (dpop (dset lease ''state'' (PStr ''released'')) ''expires_at'')\<rparr>))))"

section \<open>Reading the state\<close>

definition reserved_candidate_ids :: "coord \<Rightarrow> string set" where
  "reserved_candidate_ids st = (case co_active st of
     None \<Rightarrow> {}
   | Some a \<Rightarrow> if \<not> blocking a then {}
       else {py_strip (str_or_empty (dgetN a ''old_candidate_id'')),
             py_strip (str_or_empty (dgetN a ''new_candidate_id''))} - {[]})"

definition idle :: pydict where
  "idle = [(''ok'', PBool True), (''state'', PStr ''idle'')]"

definition snapshot :: "coord \<Rightarrow> pydict" where
  "snapshot st = (case co_active st of Some a \<Rightarrow> public a | None \<Rightarrow> idle)"

section \<open>The switch\<close>

text \<open>What a section under the lock ends with: an answer, or the local copy of the operation
  that the method goes on with.\<close>

datatype outcome = Reply pydict | Proceed pydict

record stage_request =
  rq_candidate :: string
  rq_country :: string
  rq_type :: string
  rq_expected :: string

definition make_request :: "string \<Rightarrow> string \<Rightarrow> string \<Rightarrow> string \<Rightarrow> stage_request" where
  "make_request candidate_id country proxy_type expected =
     \<lparr> rq_candidate = py_strip candidate_id, rq_country = py_upper (py_strip country),
       rq_type = py_strip proxy_type, rq_expected = py_strip expected \<rparr>"

definition request_text :: "stage_request \<Rightarrow> string" where
  "request_text rq = json_object_text
     [(''candidate_id'', rq_candidate rq), (''country'', rq_country rq),
      (''expected_current_candidate_id'', rq_expected rq), (''proxy_type'', rq_type rq)]"

text \<open>The readings taken by one call of \<open>stage\<close>: for the lease, for the creation and for the
  deadline.\<close>

record clock3 =
  at_lease :: rat
  at_create :: rat
  at_deadline :: rat

definition new_operation ::
  "(string \<Rightarrow> string) \<Rightarrow> int \<Rightarrow> clock3 \<Rightarrow> string \<Rightarrow> stage_request \<Rightarrow> string \<Rightarrow> string \<Rightarrow> pydict \<Rightarrow> pydict" where
  "new_operation digest ttl clk operation_id rq key current_id current =
     [(''ok'', PBool True), (''operation_id'', PStr operation_id), (''state'', PStr ''switching''),
      (''old_candidate_id'', PStr current_id), (''new_candidate_id'', PStr (rq_candidate rq)),
      (''country'', PStr (rq_country rq)), (''proxy_type'', PStr (rq_type rq)),
      (''port'', PInt 7928), (''dns_verified'', PBool False), (''exit_verified'', PBool False),
      (''available'', PBool False), (''error_code'', PStr []),
      (''created_at'', PFloat (Fin (at_create clk))),
      (''expires_at'', PFloat (Fin (at_deadline clk + of_int ttl))),
      (''idempotency_hash'', PStr (digest key)), (''request_hash'', PStr (digest (request_text rq))),
      (''previous'', PDict (filter (\<lambda>(k, _). k \<in> PREVIOUS_FIELDS) current))]"

definition stage_begin ::
  "(string \<Rightarrow> string) \<Rightarrow> int \<Rightarrow> clock3 \<Rightarrow> string \<Rightarrow> stage_request \<Rightarrow> string \<Rightarrow> pydict \<Rightarrow> string set
    \<Rightarrow> coord \<Rightarrow> outcome \<times> coord" where
  "stage_begin digest ttl clk operation_id rq key current slot_ids st =
     (case map_of (co_operations st) (digest key) of
        Some old \<Rightarrow>
          (if dgetN old ''request_hash'' \<noteq> PStr (digest (request_text rq))
           then (Reply (reply_error ''idempotency_conflict''), st) else (Reply (public old), st))
      | None \<Rightarrow>
          let current_id = py_strip (str_or_empty (dgetN current ''candidate_id'')) in
          if rq_expected rq \<noteq> current_id then (Reply (reply_error ''current_mismatch''), st)
          else if current_id \<noteq> [] \<and> \<not> is_true current ''restorable''
          then (Reply (reply_error ''current_not_restorable''), st)
          else if rq_candidate rq \<in> py_strip ` slot_ids
          then (Reply (reply_error ''candidate_in_use''), st)
          else (case mutation_allowed (at_lease clk) st of (allowed, st) \<Rightarrow>
            if \<not> allowed then (Reply (reply_error ''operation_busy''), st)
            else let operation = new_operation digest ttl clk operation_id rq key current_id current;
                     st = save_operation operation True st
              in (Proceed operation, st\<lparr>co_live := insert operation_id (co_live st)\<rparr>)))"

definition discard_live :: "pydict \<Rightarrow> coord \<Rightarrow> coord" where
  "discard_live operation st = st\<lparr>co_live := co_live st - {str_field operation ''operation_id''}\<rparr>"

definition active_is :: "coord \<Rightarrow> pyval \<Rightarrow> bool" where
  "active_is st operation_id = (case co_active st of
     None \<Rightarrow> False | Some a \<Rightarrow> dgetN a ''operation_id'' = operation_id)"

definition active_state :: "coord \<Rightarrow> string \<Rightarrow> bool" where
  "active_state st s = (case co_active st of None \<Rightarrow> False | Some a \<Rightarrow> op_state a = PStr s)"

definition conflict_reply :: "coord \<Rightarrow> pydict" where
  "conflict_reply st = (case co_active st of
     Some a \<Rightarrow> public a | None \<Rightarrow> reply_error ''operation_state_conflict'')"

definition stage_finish :: "pydict \<Rightarrow> pyval \<Rightarrow> coord \<Rightarrow> outcome \<times> coord" where
  "stage_finish operation result st =
     (if \<not> active_is st (dgetN operation ''operation_id'') \<or> \<not> active_state st ''switching''
      then (Reply (conflict_reply st), discard_live operation st)
      else let operation = dupdate operation (validation result) in
        if verified operation
        then let operation = dset operation ''state'' (PStr ''pending_commit'') in
          (Reply (public operation), discard_live operation (save_operation operation True st))
        else (Proceed operation, st))"

section \<open>Restoring the previous connection\<close>

definition stored_reply :: "pydict \<Rightarrow> coord \<Rightarrow> pydict" where
  "stored_reply operation st =
     (case find_operation (str_or_empty (dgetN operation ''operation_id'')) st of
        Some stored \<Rightarrow> public stored | None \<Rightarrow> reply_error ''operation_state_conflict'')"

definition restore_begin :: "pydict \<Rightarrow> coord \<Rightarrow> outcome \<times> coord" where
  "restore_begin operation st =
     (if \<not> active_is st (dgetN operation ''operation_id'') then (Reply (stored_reply operation st), st)
      else let active = the (co_active st) in
        if op_state active = PStr ''rolling_back'' then (Reply (public active), st)
        else let operation = dset active ''state'' (PStr ''rolling_back'') in
          (Proceed operation, save_operation operation True st))"

definition restore_finish :: "pydict \<Rightarrow> pyval \<Rightarrow> string \<Rightarrow> coord \<Rightarrow> pydict \<times> coord" where
  "restore_finish operation result success_error st =
     (if \<not> active_is st (dgetN operation ''operation_id'') \<or> \<not> active_state st ''rolling_back''
      then (stored_reply operation st, st)
      else let operation = dupdate operation (validation result) in
        if verified operation
        then let operation = dupdate operation [(''state'', PStr ''rolled_back''),
               (''error_code'', PStr success_error), (''ok'', PBool (success_error = []))] in
          (public operation, save_operation operation False st)
        else let operation = dupdate operation [(''state'', PStr ''repair_required''),
               (''error_code'', PStr ''rollback_failed''), (''ok'', PBool False)] in
          (public operation, save_operation operation True st))"

text \<open>A call out of the coordinator: it sees the state and may meet a changed one afterwards.\<close>

type_synonym 'a call_out = "'a \<Rightarrow> coord \<Rightarrow> pyval \<times> coord"

definition previous_of :: "pydict \<Rightarrow> pydict" where
  "previous_of operation = (case dgetN operation ''previous'' of PDict p \<Rightarrow> p | _ \<Rightarrow> [])"

definition restore :: "pydict \<Rightarrow> pydict call_out \<Rightarrow> string \<Rightarrow> coord \<Rightarrow> pydict \<times> coord" where
  "restore operation restore_previous success_error st =
     (case restore_begin operation st of
        (Reply r, st) \<Rightarrow> (r, st)
      | (Proceed operation, st) \<Rightarrow>
          (case restore_previous (previous_of operation) st of
             (result, st) \<Rightarrow> restore_finish operation result success_error st))"

definition stage ::
  "(string \<Rightarrow> string) \<Rightarrow> int \<Rightarrow> clock3 \<Rightarrow> string \<Rightarrow> stage_request \<Rightarrow> string \<Rightarrow> pydict \<Rightarrow> string set
    \<Rightarrow> string call_out \<Rightarrow> pydict call_out \<Rightarrow> coord \<Rightarrow> pydict \<times> coord" where
  "stage digest ttl clk operation_id rq key current slot_ids stage_candidate restore_previous st =
     (case stage_begin digest ttl clk operation_id rq key current slot_ids st of
        (Reply r, st) \<Rightarrow> (r, st)
      | (Proceed operation, st) \<Rightarrow>
          (case stage_candidate (rq_candidate rq) st of (result, st) \<Rightarrow>
            (case stage_finish operation result st of
               (Reply r, st) \<Rightarrow> (r, st)
             | (Proceed operation, st) \<Rightarrow>
                 (case restore operation restore_previous ''assign_failed_rolled_back'' st of
                    (r, st) \<Rightarrow> (r, discard_live operation st)))))"

section \<open>Commit, rollback, repair and recovery\<close>

definition pending :: "pydict \<Rightarrow> bool" where
  "pending op = is_str_in {''pending_commit'', ''pending_gateway_validation''} (op_state op)"

definition commit :: "rat \<Rightarrow> rat \<Rightarrow> string \<Rightarrow> coord \<Rightarrow> pydict \<times> coord" where
  "commit t1 t2 operation_id st =
     (case assignment_action_allowed t1 st of (allowed, st) \<Rightarrow>
      if \<not> allowed then (reply_error ''operation_busy'', st)
      else case find_operation operation_id st of
        None \<Rightarrow> (reply_error ''operation_not_found'', st)
      | Some operation \<Rightarrow>
          if op_state operation = PStr ''committed'' then (public operation, st)
          else if pending operation \<and> deadline_passed t2 operation
          then (reply_error ''operation_expired'', st)
          else if \<not> pending operation \<or> \<not> active_is st (PStr operation_id)
          then (reply_error ''operation_state_conflict'', st)
          else let operation = dupdate operation
                 [(''state'', PStr ''committed''), (''error_code'', PStr [])] in
            (public operation, save_operation operation False st))"

definition rollback_begin :: "string \<Rightarrow> coord \<Rightarrow> outcome" where
  "rollback_begin operation_id st = (case find_operation operation_id st of
     None \<Rightarrow> Reply (reply_error ''operation_not_found'')
   | Some operation \<Rightarrow>
       if op_state operation = PStr ''rolled_back'' then Reply (public operation)
       else if \<not> is_str_in {''switching'', ''pending_commit'', ''pending_gateway_validation'',
              ''rolling_back'', ''repair_required''} (op_state operation)
         \<or> \<not> active_is st (PStr operation_id)
       then Reply (reply_error ''operation_state_conflict'')
       else Proceed operation)"

definition rollback :: "string \<Rightarrow> pydict call_out \<Rightarrow> coord \<Rightarrow> pydict \<times> coord" where
  "rollback operation_id restore_previous st = (case rollback_begin operation_id st of
     Reply r \<Rightarrow> (r, st)
   | Proceed operation \<Rightarrow> restore operation restore_previous [] st)"

text \<open>The replacement of \<open>repair_replace\<close>, in the order of its dictionary.\<close>

definition replacement_fields :: "string \<Rightarrow> string \<Rightarrow> string \<Rightarrow> (string \<times> string) list" where
  "replacement_fields candidate_id country proxy_type =
     [(''new_candidate_id'', py_strip candidate_id), (''country'', py_upper (py_strip country)),
      (''proxy_type'', py_strip proxy_type)]"

definition replacement_ok :: "string \<Rightarrow> string \<Rightarrow> string \<Rightarrow> bool" where
  "replacement_ok candidate_id country proxy_type =
     (py_strip candidate_id \<noteq> [] \<and> length (py_upper (py_strip country)) = 2
      \<and> py_strip proxy_type \<in> {''residential'', ''datacenter''})"

datatype repair_kind = RepairCommit | RepairReplace string string string

fun repair_fields :: "repair_kind \<Rightarrow> (string \<times> string) list" where
  "repair_fields RepairCommit = []"
| "repair_fields (RepairReplace c co ty) = replacement_fields c co ty"

fun repair_action :: "repair_kind \<Rightarrow> string" where
  "repair_action RepairCommit = ''repair_commit''"
| "repair_action (RepairReplace _ _ _) = ''repair_replace''"

definition repair_text :: "repair_kind \<Rightarrow> string" where
  "repair_text kind = json_object_text ((''action'', repair_action kind) # repair_fields kind)"

definition repair_begin ::
  "(string \<Rightarrow> string) \<Rightarrow> int \<Rightarrow> rat \<Rightarrow> repair_kind \<Rightarrow> string \<Rightarrow> coord \<Rightarrow> outcome \<times> coord" where
  "repair_begin digest ttl now kind operation_id st =
     (let hash = digest (repair_text kind) in
      case find_operation operation_id st of
        None \<Rightarrow> (Reply (reply_error ''operation_not_found''), st)
      | Some operation \<Rightarrow>
          if is_str_in {''pending_gateway_validation'', ''committed''} (op_state operation)
          then (let stored = dgetN operation ''repair_request_hash'' in
            if \<not> truthy stored then (Reply (reply_error ''operation_state_conflict''), st)
            else if stored \<noteq> PStr hash then (Reply (reply_error ''idempotency_conflict''), st)
            else if op_state operation = PStr ''pending_gateway_validation''
              \<and> deadline_passed now operation then (Reply (reply_error ''operation_expired''), st)
            else (Reply (public operation), st))
          else if op_state operation \<noteq> PStr ''repair_required'' \<or> \<not> active_is st (PStr operation_id)
          then (Reply (reply_error ''operation_state_conflict''), st)
          else let operation = dupdate operation (map (\<lambda>(k, v). (k, PStr v)) (repair_fields kind));
                   operation = dupdate operation
                     [(''state'', PStr ''repairing''), (''repair_request_hash'', PStr hash),
                      (''resolution'', PStr (repair_action kind)),
                      (''expires_at'', PFloat (Fin (now + of_int ttl)))];
                   st = save_operation operation True st
            in (Proceed operation, st\<lparr>co_live := insert operation_id (co_live st)\<rparr>))"

definition repair_finish :: "repair_kind \<Rightarrow> pydict \<Rightarrow> pyval \<Rightarrow> coord \<Rightarrow> pydict \<times> coord" where
  "repair_finish kind operation result st =
     (if \<not> active_is st (dgetN operation ''operation_id'') \<or> \<not> active_state st ''repairing''
      then (conflict_reply st, discard_live operation st)
      else let operation = dupdate operation (validation result);
               operation = (if verified operation
                 then dupdate operation [(''state'', PStr ''pending_gateway_validation''),
                        (''error_code'', PStr []), (''ok'', PBool True)]
                 else dpop (dpop (dupdate operation [(''state'', PStr ''repair_required''),
                        (''error_code'', PStr (repair_action kind @ ''_failed'')), (''ok'', PBool False)])
                        ''repair_request_hash'') ''resolution'')
        in (public operation, discard_live operation (save_operation operation True st)))"

definition repair_candidate ::
  "(string \<Rightarrow> string) \<Rightarrow> int \<Rightarrow> rat \<Rightarrow> repair_kind \<Rightarrow> string \<Rightarrow> string call_out \<Rightarrow> coord \<Rightarrow> pydict \<times> coord" where
  "repair_candidate digest ttl now kind operation_id activate_candidate st =
     (case repair_begin digest ttl now kind operation_id st of
        (Reply r, st) \<Rightarrow> (r, st)
      | (Proceed operation, st) \<Rightarrow>
          (case activate_candidate (str_or_empty (dgetN operation ''new_candidate_id'')) st of
             (result, st) \<Rightarrow> repair_finish kind operation result st))"

definition repair_replace ::
  "(string \<Rightarrow> string) \<Rightarrow> int \<Rightarrow> rat \<Rightarrow> string \<Rightarrow> string \<Rightarrow> string \<Rightarrow> string \<Rightarrow> string call_out \<Rightarrow> coord
    \<Rightarrow> pydict \<times> coord" where
  "repair_replace digest ttl now operation_id candidate_id country proxy_type activate st =
     (if \<not> replacement_ok candidate_id country proxy_type then (reply_error ''invalid_request'', st)
      else repair_candidate digest ttl now (RepairReplace candidate_id country proxy_type)
             operation_id activate st)"

definition recover_begin :: "rat \<Rightarrow> coord \<Rightarrow> outcome" where
  "recover_begin now st = (case co_active st of
     None \<Rightarrow> Reply idle
   | Some active \<Rightarrow>
       if op_state active = PStr ''repair_required'' then Reply (public active)
       else if is_str_in {''switching'', ''repairing''} (op_state active)
         \<and> is_str_in (co_live st) (dgetN active ''operation_id'') \<and> \<not> deadline_passed now active
       then Reply (public active)
       else if pending active \<and> \<not> deadline_passed now active then Reply (public active)
       else Proceed active)"

definition recover :: "rat \<Rightarrow> pydict call_out \<Rightarrow> coord \<Rightarrow> pydict \<times> coord" where
  "recover now restore_previous st = (case recover_begin now st of
     Reply r \<Rightarrow> (r, st)
   | Proceed operation \<Rightarrow> restore operation restore_previous ''assignment_expired'' st)"

end
