(* ===== verification/Assignment_Safety.thy ===== *)
theory Assignment_Safety
  imports Main_Assignment
begin

text \<open>
  What the coordinator of the main connection guarantees. \<open>coord_inv\<close> is the invariant of its
  state, one lemma for each section under the lock shows that it is kept, and the step relation
  \<open>coord_step\<close> interleaves the sections of any number of concurrent calls, each of which
  carries its local copy of the operation, with crashes that reopen the file.
\<close>

section \<open>The invariant\<close>

definition settled :: "pydict \<Rightarrow> bool" where
  "settled op = is_str_in {''pending_commit'', ''pending_gateway_validation'', ''committed'', ''rolled_back''}
     (op_state op)"

text \<open>Distinct keys and no NaN, at any depth.\<close>

definition tidy :: "pydict \<Rightarrow> bool" where
  "tidy d = nan_free (PDict d)"

definition op_ok :: "pydict \<Rightarrow> bool" where
  "op_ok op = (valid_operation op \<and> tidy op \<and> (settled op \<longrightarrow> verified op))"

abbreviation op_id :: "pydict \<Rightarrow> pyval" where
  "op_id op \<equiv> dgetN op ''operation_id''"

abbreviation op_hash :: "pydict \<Rightarrow> pyval" where
  "op_hash op \<equiv> dgetN op ''idempotency_hash''"

definition history_ok :: "(string \<times> pydict) list \<Rightarrow> bool" where
  "history_ok ops = (distinct (map fst ops) \<and> distinct (map (op_id \<circ> snd) ops)
     \<and> list_all (\<lambda>(h, op). op_ok op \<and> op_hash op = PStr h) ops)"

definition active_ok :: "pydict option \<Rightarrow> (string \<times> pydict) list \<Rightarrow> bool" where
  "active_ok active ops = (case active of
     None \<Rightarrow> \<not> list_ex (\<lambda>(h, op). blocking op) ops
   | Some a \<Rightarrow> blocking a \<and> (\<exists>h. map_of ops h = Some a
       \<and> list_all (\<lambda>(h', op). blocking op \<longrightarrow> h' = h) ops))"

definition lease_ok :: "pydict option \<Rightarrow> bool" where
  "lease_ok lease = (case lease of None \<Rightarrow> True | Some l \<Rightarrow> valid_lease l)"

definition in_sync :: "coord \<Rightarrow> bool" where
  "in_sync st = (co_file st = Json (document st)
     \<or> (co_file st = Missing \<and> co_active st = None \<and> co_operations st = [] \<and> co_lease st = None))"

definition coord_inv :: "coord \<Rightarrow> bool" where
  "coord_inv st = (history_ok (co_operations st) \<and> active_ok (co_active st) (co_operations st)
     \<and> lease_ok (co_lease st) \<and> (lease_active st \<longrightarrow> co_active st = None) \<and> in_sync st)"

lemmas inv_parts = coord_inv_def history_ok_def active_ok_def lease_ok_def in_sync_def

lemma write_state_simps [simp]:
  "co_active (write_state st) = co_active st" "co_operations (write_state st) = co_operations st"
  "co_lease (write_state st) = co_lease st" "co_live (write_state st) = co_live st"
  "lease_active (write_state st) = lease_active st" "co_file (write_state st) = Json (document st)"
  "document (write_state st) = document st"
  by (simp_all add: write_state_def lease_active_def document_def)

lemma in_sync_write [simp]: "in_sync (write_state st)"
  by (simp add: in_sync_def)

lemma live_irrelevant [simp]:
  "coord_inv (st\<lparr>co_live := L\<rparr>) = coord_inv st"
  by (simp add: coord_inv_def in_sync_def document_def lease_active_def)

section \<open>Looking up operations\<close>

lemma history_lookup:
  "history_ok ops \<Longrightarrow> (h, op) \<in> set ops \<longleftrightarrow> map_of ops h = Some op"
  by (auto simp: history_ok_def dest: map_of_SomeD)

lemma history_mem:
  "history_ok ops \<Longrightarrow> map_of ops h = Some op \<Longrightarrow> op_ok op \<and> op_hash op = PStr h"
  by (auto simp: history_ok_def list_all_iff dest!: map_of_SomeD)

lemma history_id_unique:
  assumes "history_ok ops" "map_of ops h = Some op" "map_of ops h' = Some op'" "op_id op = op_id op'"
  shows "h = h'"
proof -
  have mem: "(h, op) \<in> set ops" "(h', op') \<in> set ops" using assms(2,3) by (auto dest: map_of_SomeD)
  have "inj_on (op_id \<circ> snd) (set ops)" using assms(1) by (simp add: history_ok_def distinct_map)
  from inj_onD [OF this _ mem] assms(4) show ?thesis by simp
qed

lemma find_operation_lookup:
  assumes "history_ok (co_operations st)" "find_operation i st = Some op"
  shows "\<exists>h. map_of (co_operations st) h = Some op \<and> op_id op = PStr i"
proof -
  from assms(2) have "op \<in> set (map snd (co_operations st))" "op_id op = PStr i"
    unfolding find_operation_def by (auto simp: find_Some_iff)
  then show ?thesis using history_lookup [OF assms(1)] by auto
qed

lemma active_lookup:
  assumes "coord_inv st" "co_active st = Some a"
  obtains h where "map_of (co_operations st) h = Some a" "blocking a" "op_ok a" "op_hash a = PStr h"
    "\<And>h' op. map_of (co_operations st) h' = Some op \<Longrightarrow> blocking op \<Longrightarrow> h' = h"
    "\<not> lease_active st"
proof -
  from assms obtain h where h: "map_of (co_operations st) h = Some a" "blocking a"
    "list_all (\<lambda>(h', op). blocking op \<longrightarrow> h' = h) (co_operations st)"
    by (auto simp: coord_inv_def active_ok_def)
  have hist: "history_ok (co_operations st)" using assms by (simp add: coord_inv_def)
  show ?thesis
  proof (rule that [of h])
    show "op_ok a" "op_hash a = PStr h" using history_mem [OF hist h(1)] by auto
    show "h' = h" if "map_of (co_operations st) h' = Some op" "blocking op" for h' op
      using h(3) that by (auto simp: list_all_iff dest!: map_of_SomeD)
    show "\<not> lease_active st" using assms by (auto simp: coord_inv_def)
  qed (use h in auto)
qed

text \<open>An identity that is the active one belongs to the active operation.\<close>

lemma active_is_lookup:
  assumes "coord_inv st" "active_is st i" "map_of (co_operations st) h = Some op" "op_id op = i"
  shows "co_active st = Some op"
proof -
  obtain a where a: "co_active st = Some a" "op_id a = i"
    using assms(2) by (auto simp: active_is_def split: option.splits)
  obtain ha where "map_of (co_operations st) ha = Some a" by (rule active_lookup [OF assms(1) a(1)])
  with history_id_unique [of "co_operations st" h op ha a] assms a show ?thesis
    by (simp add: coord_inv_def)
qed

section \<open>Saving an operation\<close>

lemma set_update:
  "distinct (map fst m) \<Longrightarrow> set (AList.update k v m) = insert (k, v) {p \<in> set m. fst p \<noteq> k}"
  by (induction m) (force simp: image_iff)+

lemma distinct_ids_update:
  assumes "distinct (map fst m)" "distinct (map (f \<circ> snd) m)"
    and "\<And>k' w. (k', w) \<in> set m \<Longrightarrow> f w = f v \<Longrightarrow> k' = k"
  shows "distinct (map (f \<circ> snd) (AList.update k v m))"
  using assms
proof (induction m)
  case (Cons p m)
  obtain a b where p: "p = (a, b)" by (cases p)
  show ?case
  proof (cases "a = k")
    case True
    have "f v \<notin> (f \<circ> snd) ` set m"
    proof
      assume "f v \<in> (f \<circ> snd) ` set m"
      then obtain k' w where w: "(k', w) \<in> set m" "f w = f v" by force
      with Cons.prems(3) [of k' w] p have "k' = k" by simp
      with w(1) Cons.prems(1) p True show False by (force simp: image_iff)
    qed
    with True Cons.prems(1,2) p show ?thesis by (simp add: image_comp)
  next
    case False
    have ih: "distinct (map (f \<circ> snd) (AList.update k v m))"
    proof (rule Cons.IH)
      show "k' = k" if "(k', w) \<in> set m" "f w = f v" for k' w
        using Cons.prems(3) [of k' w] that by simp
    qed (use Cons.prems(1,2) in simp_all)
    have "f b \<noteq> f v" using Cons.prems(3) [of a b] p False by auto
    then have "f b \<notin> (f \<circ> snd) ` set (AList.update k v m)"
      using Cons.prems(1,2) p set_update [of m k v] by auto
    with ih False p show ?thesis by (simp add: o_def)
  qed
qed simp

lemma save_fields [simp]:
  "co_operations (save_operation op b st)
     = AList.update (str_field op ''idempotency_hash'') op (co_operations st)"
  "co_active (save_operation op b st) = (if b then Some op else None)"
  "co_lease (save_operation op b st) = co_lease st"
  "co_live (save_operation op b st) = co_live st"
  "lease_active (save_operation op b st) = lease_active st"
  by (simp_all add: save_operation_def lease_active_def)

lemma save_inv:
  assumes inv: "coord_inv st" and op: "op_ok op" "op_hash op = PStr h"
    and only: "\<And>h' o'. map_of (co_operations st) h' = Some o' \<Longrightarrow> blocking o' \<Longrightarrow> h' = h"
    and ids: "\<And>h' o'. map_of (co_operations st) h' = Some o' \<Longrightarrow> op_id o' = op_id op \<Longrightarrow> h' = h"
    and b: "b = blocking op" "b \<Longrightarrow> \<not> lease_active st"
  shows "coord_inv (save_operation op b st)"
proof -
  let ?ops = "co_operations st"
  have hist: "history_ok ?ops" using inv by (simp add: coord_inv_def)
  then have d: "distinct (map fst ?ops)" "distinct (map (op_id \<circ> snd) ?ops)" by (simp_all add: history_ok_def)
  have h: "str_field op ''idempotency_hash'' = h" using op(2) by (simp add: str_field_def)
  have "history_ok (AList.update h op ?ops)"
    unfolding history_ok_def
  proof (intro conjI)
    show "distinct (map fst (AList.update h op ?ops))" using d(1) by (rule distinct_update)
    show "distinct (map (op_id \<circ> snd) (AList.update h op ?ops))"
      using d ids history_lookup [OF hist] by (intro distinct_ids_update) blast+
    show "list_all (\<lambda>(h, op). op_ok op \<and> op_hash op = PStr h) (AList.update h op ?ops)"
      using hist op unfolding history_ok_def list_all_iff set_update [OF d(1)] by auto
  qed
  moreover have "active_ok (if b then Some op else None) (AList.update h op ?ops)"
    using b only history_lookup [OF hist]
    by (auto simp: active_ok_def set_update [OF d(1)] list_ex_iff list_all_iff update_conv
        intro!: exI [of _ h])
  ultimately show ?thesis
    using inv b(2) h by (auto simp: coord_inv_def save_operation_def lease_active_def)
qed

text \<open>The usual case: a new version of the active operation.\<close>

lemma save_active_inv:
  assumes inv: "coord_inv st" and a: "co_active st = Some a"
    and op: "op_ok op" "op_hash op = op_hash a" "op_id op = op_id a" and b: "b = blocking op"
  shows "coord_inv (save_operation op b st)"
proof (rule active_lookup [OF inv a])
  fix h
  assume h: "map_of (co_operations st) h = Some a" "op_hash a = PStr h"
    "\<And>h' op. map_of (co_operations st) h' = Some op \<Longrightarrow> blocking op \<Longrightarrow> h' = h"
    "\<not> lease_active st"
  have hist: "history_ok (co_operations st)" using inv by (simp add: coord_inv_def)
  show ?thesis
  proof (rule save_inv [OF inv op(1) _ h(3)])
    show "op_hash op = PStr h" using op(2) h(2) by simp
    show "h' = h" if "map_of (co_operations st) h' = Some o'" "op_id o' = op_id op" for h' o'
      using history_id_unique [OF hist that(1) h(1)] that(2) op(3) by simp
  qed (use b h(4) in auto)
qed

section \<open>Updating the fields of an operation\<close>

lemma nan_free_dset:
  assumes "tidy d" "nan_free v"
  shows "tidy (dset d k v)"
proof -
  have d: "wf_dict d" "\<forall>p \<in> set d. nan_free (snd p)" using assms(1) by (simp_all add: tidy_def wf_dict_def)
  then have "\<forall>p \<in> set (dset d k v). nan_free (snd p)" using assms(2) by (auto simp: set_dset)
  moreover have "wf_dict (dset d k v)" using d(1) by (rule wf_dict_dset)
  ultimately show ?thesis by (simp add: tidy_def wf_dict_def)
qed

lemma nan_free_dpop: "tidy d \<Longrightarrow> tidy (dpop d k)"
  using wf_dict_dpop [of d k] by (auto simp: tidy_def wf_dict_def dpop_def AList.delete_eq)

lemma nan_free_dupdate:
  "tidy d \<Longrightarrow> list_all (\<lambda>(k, v). nan_free v) e \<Longrightarrow> tidy (dupdate d e)"
proof (induction d e rule: dupdate.induct)
  case (2 d k v e)
  from nan_free_dset [OF 2(2)] 2(3) have "tidy (dset d k v)" by simp
  from 2(1) [OF this] 2(3) show ?case by simp
qed simp

lemma insert_field:
  "OPERATION_REQUIRED_FIELDS \<subseteq> K \<Longrightarrow> K \<subseteq> OPERATION_REQUIRED_FIELDS \<union> OPERATION_OPTIONAL_FIELDS \<Longrightarrow>
    k \<in> OPERATION_REQUIRED_FIELDS \<union> OPERATION_OPTIONAL_FIELDS \<Longrightarrow>
    OPERATION_REQUIRED_FIELDS \<subseteq> insert k K
      \<and> insert k K \<subseteq> OPERATION_REQUIRED_FIELDS \<union> OPERATION_OPTIONAL_FIELDS"
  by blast

lemma remove_field:
  "OPERATION_REQUIRED_FIELDS \<subseteq> K \<Longrightarrow> k \<in> OPERATION_OPTIONAL_FIELDS \<Longrightarrow>
    OPERATION_REQUIRED_FIELDS \<subseteq> K - {k}"
  by (auto simp: OPERATION_OPTIONAL_FIELDS_def OPERATION_REQUIRED_FIELDS_def)

lemma known_fields:
  "''ok'' \<in> OPERATION_REQUIRED_FIELDS" "''state'' \<in> OPERATION_REQUIRED_FIELDS"
  "''dns_verified'' \<in> OPERATION_REQUIRED_FIELDS" "''exit_verified'' \<in> OPERATION_REQUIRED_FIELDS"
  "''available'' \<in> OPERATION_REQUIRED_FIELDS" "''error_code'' \<in> OPERATION_REQUIRED_FIELDS"
  "''expires_at'' \<in> OPERATION_REQUIRED_FIELDS" "''new_candidate_id'' \<in> OPERATION_REQUIRED_FIELDS"
  "''country'' \<in> OPERATION_REQUIRED_FIELDS" "''proxy_type'' \<in> OPERATION_REQUIRED_FIELDS"
  "''repair_request_hash'' \<in> OPERATION_OPTIONAL_FIELDS" "''resolution'' \<in> OPERATION_OPTIONAL_FIELDS"
  by (simp_all add: OPERATION_REQUIRED_FIELDS_def OPERATION_OPTIONAL_FIELDS_def)

lemma set_plain_field:
  assumes "valid_operation op"
  shows "valid_operation (dset op ''ok'' (PBool b))"
    and "valid_operation (dset op ''dns_verified'' (PBool b))"
    and "valid_operation (dset op ''exit_verified'' (PBool b))"
    and "valid_operation (dset op ''available'' (PBool b))"
    and "length e \<le> 128 \<Longrightarrow> valid_operation (dset op ''error_code'' (PStr e))"
    and "str_within 1 256 c \<Longrightarrow> valid_operation (dset op ''new_candidate_id'' c)"
    and "valid_country c \<Longrightarrow> valid_operation (dset op ''country'' c)"
    and "is_str_in {''residential'', ''datacenter''} c \<Longrightarrow> valid_operation (dset op ''proxy_type'' c)"
    and "valid_number t \<Longrightarrow> num_le (dgetN op ''created_at'') t \<Longrightarrow> valid_operation (dset op ''expires_at'' t)"
  using assms insert_field [of "dkeys op"]
  by (simp_all add: valid_operation_def repair_fields_ok_def known_fields)

lemma set_state_field:
  assumes "valid_operation op" "s \<in> OPERATION_STATES"
    and "s = ''repairing'' \<or> s = ''pending_gateway_validation'' \<Longrightarrow> dgetN op ''repair_request_hash'' \<noteq> PNone"
  shows "valid_operation (dset op ''state'' (PStr s))"
  using assms insert_field [of "dkeys op" "''state''"]
  by (auto simp: valid_operation_def repair_fields_ok_def known_fields Let_def)

lemma set_repair_fields:
  assumes "valid_operation op" "valid_hash h" "is_str_in {''repair_commit'', ''repair_replace''} r"
  shows "valid_operation (dset (dset op ''repair_request_hash'' h) ''resolution'' r)"
proof -
  have "h \<noteq> PNone" "r \<noteq> PNone" using assms(2,3) by auto
  then show ?thesis
    using assms insert_field [of "dkeys op" "''repair_request_hash''"]
      insert_field [of "insert ''repair_request_hash'' (dkeys op)" "''resolution''"]
    by (simp add: valid_operation_def repair_fields_ok_def known_fields Let_def)
qed

lemma pop_repair_fields:
  assumes "valid_operation op" "\<not> is_str_in {''repairing'', ''pending_gateway_validation''} (op_state op)"
  shows "valid_operation (dpop (dpop op ''repair_request_hash'') ''resolution'')"
  using assms remove_field [of "dkeys op" "''repair_request_hash''"]
    remove_field [of "dkeys op - {''repair_request_hash''}" "''resolution''"]
  by (auto simp: valid_operation_def repair_fields_ok_def known_fields op_state_def)

lemma op_ok_parts: "op_ok op \<Longrightarrow> valid_operation op \<and> tidy op"
  by (simp add: op_ok_def)

lemma validation_fields:
  "dupdate op (validation r) = dset (dset (dset op
     ''dns_verified'' (PBool (is_true (case r of PDict d \<Rightarrow> d | _ \<Rightarrow> []) ''dns_verified'')))
     ''exit_verified'' (PBool (is_true (case r of PDict d \<Rightarrow> d | _ \<Rightarrow> []) ''exit_verified'')))
     ''available'' (PBool (is_true (case r of PDict d \<Rightarrow> d | _ \<Rightarrow> []) ''available''))"
  by (simp add: validation_def Let_def)

lemma validation_valid: "valid_operation op \<Longrightarrow> valid_operation (dupdate op (validation r))"
  unfolding validation_fields by (intro set_plain_field)

lemma validation_nan_free: "tidy op \<Longrightarrow> tidy (dupdate op (validation r))"
  by (rule nan_free_dupdate) (simp_all add: validation_def Let_def)

lemma validation_keeps [simp]:
  "dgetN (dupdate op (validation r)) ''request_hash'' = dgetN op ''request_hash''"
  "op_id (dupdate op (validation r)) = op_id op"
  "op_hash (dupdate op (validation r)) = op_hash op"
  "op_state (dupdate op (validation r)) = op_state op"
  "dgetN (dupdate op (validation r)) ''repair_request_hash'' = dgetN op ''repair_request_hash''"
  by (simp_all add: validation_fields op_state_def)

section \<open>The lease sections\<close>

lemma coord_inv_lease:
  assumes "coord_inv st" "lease_ok l"
    and "\<And>x. l = Some x \<Longrightarrow> dgetN x ''state'' = PStr ''active'' \<Longrightarrow> co_active st = None"
  shows "coord_inv (write_state (st\<lparr>co_lease := l\<rparr>))"
  using assms by (auto simp: coord_inv_def lease_active_def in_sync_def write_state_def document_def
      split: option.splits)

lemma closed_lease_valid:
  assumes "valid_lease l" "dgetN l ''state'' = PStr ''active''" "s = ''released'' \<or> s = ''expired''"
  shows "valid_lease (dpop (dset l ''state'' (PStr s)) ''expires_at'')"
  using assms by (auto simp: valid_lease_def LEASE_STATES_def)

lemma lease_facts:
  assumes "coord_inv st" "lease_active st"
  shows "co_active st = None" "valid_lease (the (co_lease st))"
    "dgetN (the (co_lease st)) ''state'' = PStr ''active''" "co_lease st = Some (the (co_lease st))"
  using assms by (auto simp: coord_inv_def lease_ok_def lease_active_def split: option.splits)

lemma expire_lease_cases:
  "expire_lease now st = st \<or> (lease_active st \<and> expire_lease now st = write_state (st\<lparr>co_lease :=
     Some (dpop (dset (the (co_lease st)) ''state'' (PStr ''expired'')) ''expires_at'')\<rparr>))"
  by (simp add: expire_lease_def split: option.split)

lemma expire_lease_inv:
  assumes inv: "coord_inv st"
  shows "coord_inv (expire_lease now st)"
  using expire_lease_cases [of now st]
proof (elim disjE conjE)
  assume "lease_active st" and e: "expire_lease now st = write_state (st\<lparr>co_lease :=
     Some (dpop (dset (the (co_lease st)) ''state'' (PStr ''expired'')) ''expires_at'')\<rparr>)"
  note l = lease_facts [OF inv this(1)]
  show ?thesis unfolding e
    by (rule coord_inv_lease [OF inv]) (use closed_lease_valid [OF l(2,3)] l(1) in \<open>auto simp: lease_ok_def\<close>)
qed (use inv in simp)

lemma expire_lease_keeps [simp]:
  "co_active (expire_lease now st) = co_active st"
  "co_operations (expire_lease now st) = co_operations st"
  "co_live (expire_lease now st) = co_live st"
  by (simp_all add: expire_lease_def split: option.split)

definition digest_ok :: "(string \<Rightarrow> string) \<Rightarrow> bool" where
  "digest_ok digest = (\<forall>s. valid_hash (PStr (digest s)))"

definition new_lease :: "(string \<Rightarrow> string) \<Rightarrow> int \<Rightarrow> rat \<Rightarrow> string \<Rightarrow> string \<Rightarrow> pydict" where
  "new_lease digest ttl t2 new_id key =
    [(''ok'', PBool True), (''state'', PStr ''active''), (''lease_id'', PStr new_id),
     (''idempotency_hash'', PStr (digest key)), (''expires_at'', PFloat (Fin (t2 + of_int ttl)))]"

lemma acquire_cases:
  fixes digest ttl t1 t2 new_id key st
  defines "out \<equiv> snd (acquire_mutation_lease digest ttl t1 t2 new_id key st)"
  shows "out = st \<or> out = expire_lease t1 st
    \<or> (\<not> active_blocking (expire_lease t1 st)
       \<and> out = write_state ((expire_lease t1 st)\<lparr>co_lease := Some (new_lease digest ttl t2 new_id key)\<rparr>))"
  by (simp add: out_def acquire_mutation_lease_def Let_def new_lease_def)

lemma not_blocking_idle:
  assumes "coord_inv st" "\<not> active_blocking st"
  shows "co_active st = None"
proof (cases "co_active st")
  case (Some a)
  then have "blocking a" using assms(1) by (simp add: coord_inv_def active_ok_def)
  with Some assms(2) show ?thesis by (simp add: active_blocking_def)
qed simp

lemma acquire_inv:
  assumes inv: "coord_inv st" and "digest_ok digest" "valid_identifier (PStr new_id) 128 32" "0 \<le> t2 + of_int ttl"
  shows "coord_inv (snd (acquire_mutation_lease digest ttl t1 t2 new_id key st))"
  using acquire_cases [of digest ttl t1 t2 new_id key st]
proof (elim disjE conjE)
  have e: "coord_inv (expire_lease t1 st)" using inv by (rule expire_lease_inv)
  have valid: "valid_lease (new_lease digest ttl t2 new_id key)"
    using assms(2-4)
    by (simp add: new_lease_def valid_lease_def LEASE_STATES_def digest_ok_def insert_commute)
  assume "\<not> active_blocking (expire_lease t1 st)"
    and out: "snd (acquire_mutation_lease digest ttl t1 t2 new_id key st)
      = write_state ((expire_lease t1 st)\<lparr>co_lease := Some (new_lease digest ttl t2 new_id key)\<rparr>)"
  then have "co_active (expire_lease t1 st) = None" using not_blocking_idle [OF e] by blast
  then show ?thesis unfolding out using valid
    by (intro coord_inv_lease [OF e]) (simp_all add: lease_ok_def)
qed (use inv expire_lease_inv in simp_all)

lemma renew_inv:
  assumes inv: "coord_inv st" and "0 \<le> t2 + of_int ttl"
    and run: "renew_mutation_lease ttl t1 t2 wanted st = Inr (r, st')"
  shows "coord_inv st'"
proof -
  let ?st = "expire_lease t1 st"
  let ?lease = "dset (the (co_lease ?st)) ''expires_at'' (PFloat (Fin (t2 + of_int ttl)))"
  have e: "coord_inv ?st" using inv by (rule expire_lease_inv)
  consider "st' = ?st" | "lease_active ?st" "st' = write_state (?st\<lparr>co_lease := Some ?lease\<rparr>)"
    using run by (auto simp: renew_mutation_lease_def Let_def err_bind_Inr split: if_splits)
  then show ?thesis
  proof cases
    case 2
    note l = lease_facts [OF e 2(1)]
    have "valid_lease ?lease" using l(2,3) assms(2) by (auto simp: valid_lease_def)
    with e l(1) show ?thesis unfolding 2(2) by (intro coord_inv_lease) (auto simp: lease_ok_def)
  qed (use e in simp)
qed

lemma release_inv:
  assumes inv: "coord_inv st" and run: "release_mutation_lease now wanted st = Inr (r, st')"
  shows "coord_inv st'"
proof -
  consider "st' = st" | l where "co_lease st = Some l" "dgetN l ''state'' = PStr ''active''"
      "st' = write_state (st\<lparr>co_lease :=
         Some (dpop (dset l ''state'' (PStr ''released'')) ''expires_at'')\<rparr>)"
    using run by (auto simp: release_mutation_lease_def err_bind_Inr split: if_splits option.splits)
  then show ?thesis
  proof cases
    case 2
    have "valid_lease l" using inv 2(1) by (simp add: coord_inv_def lease_ok_def)
    from closed_lease_valid [OF this 2(2)] show ?thesis
      unfolding 2(3) using inv by (intro coord_inv_lease) (auto simp: lease_ok_def)
  qed (use inv in simp)
qed

section \<open>The operation sections\<close>

definition request_ok ::
  "int \<Rightarrow> clock3 \<Rightarrow> string \<Rightarrow> stage_request \<Rightarrow> pydict \<Rightarrow> coord \<Rightarrow> bool" where
  "request_ok ttl clk operation_id rq current st =
     (str_within 1 256 (PStr (rq_candidate rq)) \<and> valid_country (PStr (rq_country rq))
      \<and> rq_type rq \<in> {''residential'', ''datacenter''}
      \<and> valid_identifier (PStr operation_id) 128 1
      \<and> list_all (\<lambda>(_, op). op_id op \<noteq> PStr operation_id) (co_operations st)
      \<and> 0 \<le> at_create clk \<and> at_create clk \<le> at_deadline clk + of_int ttl
      \<and> valid_previous (PDict (filter (\<lambda>(k, _). k \<in> PREVIOUS_FIELDS) current)) \<and> tidy current)"

lemma dget_filter: "dget (filter (\<lambda>(k, _). k \<in> S) d) k = (if k \<in> S then dget d k else None)"
  by (induction d) auto

lemma tidy_filter: "tidy d \<Longrightarrow> tidy (filter P d)"
  by (auto simp: tidy_def distinct_map_filter)

lemma new_operation_ok:
  assumes "digest_ok digest" "request_ok ttl clk operation_id rq current st"
    and "current_id = py_strip (str_or_empty (dgetN current ''candidate_id''))"
  shows "op_ok (new_operation digest ttl clk operation_id rq key current_id current)"
proof -
  let ?prev = "filter (\<lambda>(k, _). k \<in> PREVIOUS_FIELDS) current"
  have rq: "request_ok ttl clk operation_id rq current st" by (rule assms(2))
  have prev: "valid_previous (PDict ?prev)" "tidy ?prev"
    using rq by (auto simp: request_ok_def intro: tidy_filter)
  have "''candidate_id'' \<in> PREVIOUS_FIELDS" by (simp add: PREVIOUS_FIELDS_def)
  then have "dgetN ?prev ''candidate_id'' = dgetN current ''candidate_id''"
    by (simp add: dget_or_def dget_filter)
  moreover have "str_within 0 256 (dgetN ?prev ''candidate_id'')"
    using prev(1) by (simp add: valid_previous_def)
  ultimately obtain c where "dgetN current ''candidate_id'' = PStr c" "length c \<le> 256"
    by (cases "dgetN current ''candidate_id''") auto
  then have id: "length current_id \<le> 256"
    unfolding assms(3) using length_py_strip [of c] by simp
  have num: "num_le (PFloat (Fin (at_create clk))) (PFloat (Fin (at_deadline clk + of_int ttl)))"
    using rq by (auto simp: request_ok_def num_le_def flt_le_def)
  have le: "0 \<le> at_deadline clk + of_int ttl" "0 \<le> at_create clk"
    using rq by (auto simp: request_ok_def)
  have "valid_operation (new_operation digest ttl clk operation_id rq key current_id current)"
    unfolding valid_operation_def
  proof (intro conjI)
    show "OPERATION_REQUIRED_FIELDS
        \<subseteq> dkeys (new_operation digest ttl clk operation_id rq key current_id current)"
      by (simp add: new_operation_def OPERATION_REQUIRED_FIELDS_def)
    show "dkeys (new_operation digest ttl clk operation_id rq key current_id current)
        \<subseteq> OPERATION_REQUIRED_FIELDS \<union> OPERATION_OPTIONAL_FIELDS"
      by (simp add: new_operation_def OPERATION_REQUIRED_FIELDS_def)
  qed (use rq assms(1) id prev(1) num le in \<open>simp_all add: new_operation_def request_ok_def
      digest_ok_def repair_fields_ok_def OPERATION_STATES_def BLOCKING_STATES_def\<close>)
  moreover have "tidy (new_operation digest ttl clk operation_id rq key current_id current)"
    using prev(2) by (simp add: tidy_def new_operation_def)
  moreover have "\<not> settled (new_operation digest ttl clk operation_id rq key current_id current)"
    by (simp add: new_operation_def settled_def op_state_def)
  ultimately show ?thesis by (simp add: op_ok_def)
qed

section \<open>How the history evolves\<close>

definition terminal :: "pydict \<Rightarrow> bool" where
  "terminal op = is_str_in {''committed'', ''rolled_back''} (op_state op)"

text \<open>The identity of an operation and the hash of the request that it answers.\<close>

abbreviation op_request :: "pydict \<Rightarrow> pyval" where
  "op_request op \<equiv> dgetN op ''request_hash''"

definition same_request :: "pydict \<Rightarrow> pydict \<Rightarrow> bool" where
  "same_request a b = (op_id a = op_id b \<and> op_request a = op_request b)"

lemma same_request_trans: "same_request a b \<Longrightarrow> same_request b c \<Longrightarrow> same_request a c"
  and same_request_sym: "same_request a b \<Longrightarrow> same_request b a"
  and same_request_refl [simp]: "same_request a a"
  by (simp_all add: same_request_def)

text \<open>No operation disappears or changes its identity, and a finished one never changes.\<close>

definition evolves :: "coord \<Rightarrow> coord \<Rightarrow> bool" where
  "evolves st st' = (\<forall>h op. map_of (co_operations st) h = Some op \<longrightarrow>
     (\<exists>op'. map_of (co_operations st') h = Some op' \<and> same_request op' op
        \<and> (terminal op \<longrightarrow> op' = op)))"

lemma evolves_refl [simp]: "evolves st st"
  by (simp add: evolves_def)

lemma evolvesE:
  assumes "evolves st st'" "map_of (co_operations st) h = Some op"
  obtains op' where "map_of (co_operations st') h = Some op'" "same_request op' op"
    "terminal op \<Longrightarrow> op' = op"
  using assms unfolding evolves_def by blast

lemma evolves_trans:
  assumes "evolves a b" "evolves b c"
  shows "evolves a c"
  unfolding evolves_def
proof (intro allI impI)
  fix h op
  assume "map_of (co_operations a) h = Some op"
  then obtain op1 where 1: "map_of (co_operations b) h = Some op1" "same_request op1 op"
    "terminal op \<Longrightarrow> op1 = op" using evolvesE [OF assms(1)] by metis
  obtain op2 where "map_of (co_operations c) h = Some op2" "same_request op2 op1"
    "terminal op1 \<Longrightarrow> op2 = op1" using evolvesE [OF assms(2) 1(1)] by metis
  with 1 show "\<exists>op'. map_of (co_operations c) h = Some op' \<and> same_request op' op
      \<and> (terminal op \<longrightarrow> op' = op)" using same_request_trans by auto
qed

lemma evolves_same_ops:
  "co_operations st' = co_operations st \<Longrightarrow> evolves st st'"
  by (simp add: evolves_def)

lemma evolves_live [simp]:
  "evolves st (st'\<lparr>co_live := L\<rparr>) = evolves st st'" "evolves (st\<lparr>co_live := L\<rparr>) st' = evolves st st'"
  by (simp_all add: evolves_def)

lemma evolves_expire [simp]:
  "evolves st (expire_lease now st)" "evolves (expire_lease now st) st' = evolves st st'"
  by (simp_all add: evolves_def)

lemma blocking_not_terminal: "blocking op \<Longrightarrow> \<not> terminal op"
  by (cases "op_state op") (auto simp: blocking_def terminal_def BLOCKING_STATES_def)

lemma evolves_save_active:
  assumes "coord_inv st" "co_active st = Some a" "op_hash op = op_hash a" "same_request op a"
  shows "evolves st (save_operation op b st)"
proof (rule active_lookup [OF assms(1,2)])
  fix h
  assume h: "map_of (co_operations st) h = Some a" "op_hash a = PStr h" "blocking a"
  have key: "str_field op ''idempotency_hash'' = h" using assms(3) h(2) by (simp add: str_field_def)
  show ?thesis
    using h(1) assms(4) blocking_not_terminal [OF h(3)] by (simp add: evolves_def key update_conv)
qed

lemma evolves_save_new:
  "map_of (co_operations st) (str_field op ''idempotency_hash'') = None \<Longrightarrow>
    evolves st (save_operation op b st)"
  by (simp add: evolves_def update_conv)

text \<open>A local copy that a running call carries: a legal operation whose stored version, under
  the same key, has the same identity.\<close>

definition flight_ok :: "coord \<Rightarrow> pydict \<Rightarrow> bool" where
  "flight_ok st op = (op_ok op \<and> (\<exists>h stored. op_hash op = PStr h
     \<and> map_of (co_operations st) h = Some stored \<and> same_request stored op))"

lemma flight_evolves:
  assumes "flight_ok st op" "evolves st st'"
  shows "flight_ok st' op"
proof -
  obtain h stored where s: "op_ok op" "op_hash op = PStr h" "map_of (co_operations st) h = Some stored"
    "same_request stored op" using assms(1) by (auto simp: flight_ok_def)
  obtain stored' where "map_of (co_operations st') h = Some stored'" "same_request stored' stored"
    by (rule evolvesE [OF assms(2) s(3)])
  with s same_request_trans [OF _ s(4)] show ?thesis by (auto simp: flight_ok_def)
qed

lemma flight_active:
  assumes "coord_inv st" "flight_ok st op" "active_is st (op_id op)"
  obtains a where "co_active st = Some a" "op_hash op = op_hash a" "same_request op a"
proof -
  obtain h stored where s: "op_hash op = PStr h" "map_of (co_operations st) h = Some stored"
    "same_request stored op" using assms(2) by (auto simp: flight_ok_def)
  have "op_id stored = op_id op" using s(3) by (simp add: same_request_def)
  then have "co_active st = Some stored" using active_is_lookup [OF assms(1,3) s(2)] by simp
  moreover have "op_hash stored = PStr h"
    using assms(1) history_mem s(2) by (auto simp: coord_inv_def)
  ultimately show ?thesis using s same_request_sym [OF s(3)] by (intro that [of stored]) auto
qed

lemma same_request_validation [simp]: "same_request (dupdate op (validation r)) op"
  by (simp add: same_request_def)

lemma saved_flight:
  assumes "op_ok op" "op_hash op = PStr h"
  shows "flight_ok (save_operation op b st) op"
  using assms by (auto simp: flight_ok_def str_field_def update_conv)

lemma op_hash_str: "op_ok op \<Longrightarrow> \<exists>h. op_hash op = PStr h"
  by (cases "op_hash op") (auto simp: op_ok_def valid_operation_def)

text \<open>Saving a new version of the active operation, all in one.\<close>

lemma save_active_step:
  assumes "coord_inv st" "flight_ok st op" "active_is st (op_id op)"
    and "op_ok op'" "op_hash op' = op_hash op" "same_request op' op" "b = blocking op'"
  shows "coord_inv (save_operation op' b st) \<and> evolves st (save_operation op' b st)
    \<and> flight_ok (save_operation op' b st) op'"
proof (rule flight_active [OF assms(1-3)])
  fix a
  assume a: "co_active st = Some a" "op_hash op = op_hash a" "same_request op a"
  have h: "op_hash op' = op_hash a" "same_request op' a"
    using assms(5) a(2) same_request_trans [OF assms(6) a(3)] by simp_all
  then have "op_id op' = op_id a" by (simp add: same_request_def)
  from save_active_inv [OF assms(1) a(1) assms(4) h(1) this assms(7)]
    evolves_save_active [OF assms(1) a(1) h] saved_flight [OF assms(4)] op_hash_str [OF assms(4)]
  show ?thesis by blast
qed

lemma stored_flight:
  assumes "coord_inv st" "map_of (co_operations st) h = Some op"
  shows "flight_ok st op"
  using assms history_mem [of "co_operations st" h op] by (auto simp: flight_ok_def coord_inv_def)

lemma active_flight:
  assumes "coord_inv st" "co_active st = Some a"
  shows "flight_ok st a" "active_is st (op_id a)"
proof -
  show "flight_ok st a"
    by (rule active_lookup [OF assms]) (rule stored_flight [OF assms(1)])
  show "active_is st (op_id a)" using assms(2) by (simp add: active_is_def)
qed

lemma op_ok_state:
  assumes "valid_operation op" "tidy op" "s \<in> OPERATION_STATES"
    and "s = ''repairing'' \<or> s = ''pending_gateway_validation'' \<Longrightarrow> dgetN op ''repair_request_hash'' \<noteq> PNone"
    and "s \<in> {''pending_commit'', ''pending_gateway_validation'', ''committed'', ''rolled_back''} \<Longrightarrow> verified op"
  shows "op_ok (dset op ''state'' (PStr s))"
  unfolding op_ok_def
proof (intro conjI impI)
  show "valid_operation (dset op ''state'' (PStr s))" by (rule set_state_field [OF assms(1,3,4)])
  show "tidy (dset op ''state'' (PStr s))" by (rule nan_free_dset [OF assms(2)]) simp
  assume "settled (dset op ''state'' (PStr s))"
  then show "verified (dset op ''state'' (PStr s))"
    using assms(5) by (simp add: settled_def op_state_def verified_def is_true_def)
qed

lemma state_names:
  "''switching'' \<in> OPERATION_STATES" "''pending_commit'' \<in> OPERATION_STATES"
  "''pending_gateway_validation'' \<in> OPERATION_STATES" "''rolling_back'' \<in> OPERATION_STATES"
  "''repairing'' \<in> OPERATION_STATES" "''repair_required'' \<in> OPERATION_STATES"
  "''committed'' \<in> OPERATION_STATES" "''rolled_back'' \<in> OPERATION_STATES"
  by (simp_all add: OPERATION_STATES_def BLOCKING_STATES_def)

lemma blocking_dset: "blocking (dset op ''state'' (PStr s)) = (s \<in> BLOCKING_STATES)"
  by (simp add: blocking_def op_state_def)

text \<open>Plain fields do not matter for the two predicates on states.\<close>

lemma op_ok_error:
  "op_ok op \<Longrightarrow> length e \<le> 128 \<Longrightarrow> op_ok (dset op ''error_code'' (PStr e))"
  "op_ok op \<Longrightarrow> op_ok (dset op ''ok'' (PBool b))"
  by (auto simp: op_ok_def settled_def op_state_def verified_def is_true_def
      intro: set_plain_field nan_free_dset)

lemma blocking_plain [simp]:
  "blocking (dset op ''error_code'' v) = blocking op" "blocking (dset op ''ok'' v) = blocking op"
  "blocking (dpop op ''repair_request_hash'') = blocking op" "blocking (dpop op ''resolution'') = blocking op"
  by (simp_all add: blocking_def op_state_def)

end
