(* ===== verification/Assignment_Steps.thy ===== *)
theory Assignment_Steps
  imports Assignment_Safety
begin

text \<open>
  The sections of the coordinator one by one: each keeps the invariant, lets the history evolve
  only forward, and hands out a local copy that fits the stored operation. Then the step
  relation of the whole system and the theorems about every run.
\<close>

section \<open>Each section keeps the invariant\<close>

definition section_ok :: "coord \<Rightarrow> coord \<Rightarrow> bool" where
  "section_ok st st' = (coord_inv st' \<and> evolves st st')"

lemma section_ok_refl: "coord_inv st \<Longrightarrow> section_ok st st"
  by (simp add: section_ok_def)

lemma section_ok_live [simp]: "section_ok st (st'\<lparr>co_live := L\<rparr>) = section_ok st st'"
  by (simp add: section_ok_def)

lemma section_ok_expire: "coord_inv st \<Longrightarrow> section_ok st (expire_lease now st)"
  by (simp add: section_ok_def expire_lease_inv)

lemma section_ok_discard [simp]: "section_ok st (discard_live op st') = section_ok st st'"
  by (simp add: discard_live_def)

lemma inv_discard [simp]:
  "coord_inv (discard_live op st) = coord_inv st" "evolves st (discard_live op st') = evolves st st'"
  by (simp_all add: discard_live_def)

lemma flight_live [simp]:
  "flight_ok (st\<lparr>co_live := L\<rparr>) op = flight_ok st op" "flight_ok (discard_live op' st) op = flight_ok st op"
  by (simp_all add: flight_ok_def discard_live_def)

lemma stage_begin_cases:
  fixes digest ttl clk operation_id rq key current slot_ids st
  defines "res \<equiv> stage_begin digest ttl clk operation_id rq key current slot_ids st"
    and "st1 \<equiv> expire_lease (at_lease clk) st"
    and "op \<equiv> new_operation digest ttl clk operation_id rq key
       (py_strip (str_or_empty (dgetN current ''candidate_id''))) current"
  shows "(\<exists>r. res = (Reply r, st)) \<or> (\<exists>r. res = (Reply r, st1))
    \<or> (res = (Proceed op, (save_operation op True st1)\<lparr>co_live := insert operation_id (co_live st)\<rparr>)
       \<and> map_of (co_operations st) (digest key) = None
       \<and> \<not> active_blocking st1 \<and> \<not> lease_active st1)"
  unfolding res_def stage_begin_def op_def st1_def
  by (simp add: Let_def mutation_allowed_def split: option.split)

lemma new_operation_simps [simp]:
  "op_hash (new_operation digest ttl clk i rq key c current) = PStr (digest key)"
  "op_id (new_operation digest ttl clk i rq key c current) = PStr i"
  "op_state (new_operation digest ttl clk i rq key c current) = PStr ''switching''"
  "str_field (new_operation digest ttl clk i rq key c current) ''idempotency_hash'' = digest key"
  by (simp_all add: new_operation_def op_state_def str_field_def)

lemma request_ok_expire: "request_ok ttl clk i rq current (expire_lease t st) = request_ok ttl clk i rq current st"
  by (simp add: request_ok_def)

lemma stage_begin_ok:
  assumes inv: "coord_inv st" and dig: "digest_ok digest"
    and req: "request_ok ttl clk operation_id rq current st"
    and run: "stage_begin digest ttl clk operation_id rq key current slot_ids st = (out, st')"
  shows "section_ok st st' \<and> (\<forall>op. out = Proceed op \<longrightarrow> flight_ok st' op)"
proof -
  let ?st = "expire_lease (at_lease clk) st"
  let ?op = "new_operation digest ttl clk operation_id rq key
    (py_strip (str_or_empty (dgetN current ''candidate_id''))) current"
  have e: "coord_inv ?st" using inv by (rule expire_lease_inv)
  show ?thesis
    using stage_begin_cases [of digest ttl clk operation_id rq key current slot_ids st]
  proof (elim disjE exE conjE)
    assume start: "stage_begin digest ttl clk operation_id rq key current slot_ids st
        = (Proceed ?op, (save_operation ?op True ?st)\<lparr>co_live := insert operation_id (co_live st)\<rparr>)"
      and new: "map_of (co_operations st) (digest key) = None"
      and free: "\<not> active_blocking ?st" "\<not> lease_active ?st"
    have op: "op_ok ?op" by (rule new_operation_ok [OF dig req refl])
    have hist: "history_ok (co_operations ?st)" using e by (simp add: coord_inv_def)
    have idle: "co_active ?st = None" using not_blocking_idle [OF e free(1)] .
    have "coord_inv (save_operation ?op True ?st)"
    proof (rule save_inv [OF e op])
      show "op_hash ?op = PStr (digest key)" by simp
      show "h' = digest key" if "map_of (co_operations ?st) h' = Some o'" "blocking o'" for h' o'
        using e idle that by (auto simp: coord_inv_def active_ok_def list_ex_iff dest!: map_of_SomeD)
      show "h' = digest key" if "map_of (co_operations ?st) h' = Some o'" "op_id o' = op_id ?op" for h' o'
        using req that by (auto simp: request_ok_def list_all_iff dest!: map_of_SomeD)
      show "True = blocking ?op" by (simp add: blocking_def BLOCKING_STATES_def)
    qed (use free in simp)
    moreover have "evolves ?st (save_operation ?op True ?st)"
      using new by (intro evolves_save_new) simp
    moreover have "flight_ok (save_operation ?op True ?st) ?op" by (rule saved_flight [OF op]) simp
    ultimately show ?thesis using run start by (auto simp: section_ok_def)
  qed (use inv run section_ok_refl section_ok_expire in auto)
qed

lemma stage_finish_ok:
  assumes inv: "coord_inv st" and fl: "flight_ok st op"
    and run: "stage_finish op result st = (out, st')"
  shows "section_ok st st'"
proof -
  let ?op = "dupdate op (validation result)"
  let ?new = "dset ?op ''state'' (PStr ''pending_commit'')"
  have ok: "valid_operation ?op" "tidy ?op"
    using fl validation_valid validation_nan_free by (auto simp: flight_ok_def op_ok_def)
  consider "section_ok st st'"
    | "active_is st (op_id op)" "verified ?op" "st' = discard_live ?new (save_operation ?new True st)"
    using run inv section_ok_refl [OF inv]
    by (auto simp: stage_finish_def Let_def split: if_splits)
  then show ?thesis
  proof cases
    case 2
    have "op_ok ?new" using ok 2(2) by (intro op_ok_state) (simp_all add: state_names)
    then have "section_ok st (save_operation ?new True st)"
      using save_active_step [OF inv fl 2(1), of ?new True]
      by (simp add: section_ok_def blocking_dset BLOCKING_STATES_def same_request_def)
    then show ?thesis unfolding 2(3) by simp
  qed
qed

lemma restore_begin_cases:
  "(\<exists>r. restore_begin op st = (Reply r, st))
   \<or> (\<exists>a. co_active st = Some a \<and> restore_begin op st =
       (Proceed (dset a ''state'' (PStr ''rolling_back'')),
        save_operation (dset a ''state'' (PStr ''rolling_back'')) True st))"
  by (simp add: restore_begin_def Let_def active_is_def split: option.split)

lemma restore_begin_ok:
  assumes inv: "coord_inv st" and run: "restore_begin op st = (out, st')"
  shows "section_ok st st' \<and> (\<forall>op'. out = Proceed op' \<longrightarrow> flight_ok st' op')"
  using restore_begin_cases [of op st]
proof (elim disjE exE conjE)
  fix r
  assume "restore_begin op st = (Reply r, st)"
  with run show ?thesis using section_ok_refl [OF inv] by auto
next
  fix a
  let ?op = "dset a ''state'' (PStr ''rolling_back'')"
  assume act: "co_active st = Some a" and "restore_begin op st = (Proceed ?op, save_operation ?op True st)"
  with run have eq: "out = Proceed ?op" "st' = save_operation ?op True st" by simp_all
  note a = active_flight [OF inv act]
  have "op_ok ?op"
    using a(1) by (intro op_ok_state) (simp_all add: flight_ok_def op_ok_def state_names)
  moreover have "True = blocking ?op" by (simp add: blocking_dset BLOCKING_STATES_def)
  ultimately show ?thesis
    using save_active_step [OF inv a, of ?op True] eq by (simp add: section_ok_def same_request_def)
qed

definition rolled_back :: "pydict \<Rightarrow> string \<Rightarrow> pydict" where
  "rolled_back op e = dset (dset (dset op ''state'' (PStr ''rolled_back'')) ''error_code'' (PStr e))
     ''ok'' (PBool (e = []))"

definition rollback_failed :: "pydict \<Rightarrow> pydict" where
  "rollback_failed op = dset (dset (dset op ''state'' (PStr ''repair_required''))
     ''error_code'' (PStr ''rollback_failed'')) ''ok'' (PBool False)"

lemma restore_finish_cases:
  fixes op result
  defines "op' \<equiv> dupdate op (validation result)"
  shows "snd (restore_finish op result e st) = st
    \<or> (active_is st (op_id op) \<and> verified op'
       \<and> snd (restore_finish op result e st) = save_operation (rolled_back op' e) False st)
    \<or> (active_is st (op_id op)
       \<and> snd (restore_finish op result e st) = save_operation (rollback_failed op') True st)"
  by (simp add: op'_def restore_finish_def Let_def rolled_back_def rollback_failed_def)

lemma end_states:
  "op_hash (rolled_back op e) = op_hash op" "op_id (rolled_back op e) = op_id op"
  "op_hash (rollback_failed op) = op_hash op" "op_id (rollback_failed op) = op_id op"
  "same_request (rolled_back op' e) op = same_request op' op"
  "same_request (rollback_failed op') op = same_request op' op"
  "\<not> blocking (rolled_back op e)" "blocking (rollback_failed op)"
  by (simp_all add: rolled_back_def rollback_failed_def same_request_def blocking_dset BLOCKING_STATES_def)

lemma restore_finish_ok:
  assumes inv: "coord_inv st" and fl: "flight_ok st op" and e: "length e \<le> 128"
  shows "section_ok st (snd (restore_finish op result e st))"
proof -
  let ?op = "dupdate op (validation result)"
  have ok: "valid_operation ?op" "tidy ?op"
    using fl validation_valid validation_nan_free by (auto simp: flight_ok_def op_ok_def)
  show ?thesis
    using restore_finish_cases [of op result e st]
  proof (elim disjE conjE)
    assume act: "active_is st (op_id op)" and v: "verified ?op"
      and eq: "snd (restore_finish op result e st) = save_operation (rolled_back ?op e) False st"
    have "op_ok (rolled_back ?op e)"
      unfolding rolled_back_def using ok v e by (intro op_ok_error op_ok_state) (simp_all add: state_names)
    from save_active_step [OF inv fl act this, of False] show ?thesis
      unfolding eq by (simp add: section_ok_def end_states)
  next
    assume act: "active_is st (op_id op)"
      and eq: "snd (restore_finish op result e st) = save_operation (rollback_failed ?op) True st"
    have "op_ok (rollback_failed ?op)"
      unfolding rollback_failed_def using ok by (intro op_ok_error op_ok_state) (simp_all add: state_names)
    from save_active_step [OF inv fl act this, of True] show ?thesis
      unfolding eq by (simp add: section_ok_def end_states)
  qed (use section_ok_refl [OF inv] in simp)
qed

definition committed :: "pydict \<Rightarrow> pydict" where
  "committed op = dset (dset op ''state'' (PStr ''committed'')) ''error_code'' (PStr [])"

lemma commit_cases:
  fixes t1 st
  defines "st1 \<equiv> expire_lease t1 st"
  shows "snd (commit t1 t2 i st) = st1
    \<or> (\<exists>op. find_operation i st1 = Some op \<and> pending op \<and> active_is st1 (PStr i)
         \<and> \<not> deadline_passed t2 op \<and> \<not> lease_active st1
         \<and> snd (commit t1 t2 i st) = save_operation (committed op) False st1)"
  by (simp add: st1_def commit_def Let_def assignment_action_allowed_def committed_def
      split: option.split)

lemma commit_ok:
  assumes inv: "coord_inv st"
  shows "section_ok st (snd (commit t1 t2 i st))"
  using commit_cases [of t1 t2 i st]
proof (elim disjE exE conjE)
  let ?st = "expire_lease t1 st"
  have e: "coord_inv ?st" using inv by (rule expire_lease_inv)
  fix op
  assume f: "find_operation i ?st = Some op" and pend: "pending op" and act: "active_is ?st (PStr i)"
    and eq: "snd (commit t1 t2 i st) = save_operation (committed op) False ?st"
  have "history_ok (co_operations ?st)" using e by (simp add: coord_inv_def)
  then obtain h where h: "map_of (co_operations ?st) h = Some op" "op_id op = PStr i"
    using find_operation_lookup f by metis
  have fl: "flight_ok ?st op" by (rule stored_flight [OF e h(1)])
  have "settled op" using pend by (cases "op_state op") (auto simp: pending_def settled_def)
  then have "op_ok (committed op)"
    using fl unfolding committed_def
    by (intro op_ok_error op_ok_state) (simp_all add: flight_ok_def op_ok_def state_names)
  moreover have "False = blocking (committed op)"
    by (simp add: committed_def blocking_dset BLOCKING_STATES_def)
  moreover have "op_hash (committed op) = op_hash op" "same_request (committed op) op"
    by (simp_all add: committed_def same_request_def)
  ultimately have "section_ok ?st (save_operation (committed op) False ?st)"
    using save_active_step [OF e fl, of "committed op" False] act h(2) by (simp add: section_ok_def)
  then show ?thesis unfolding eq by (simp add: section_ok_def)
qed (use section_ok_expire [OF inv] in simp)

section \<open>Repair\<close>

definition repair_kind_ok :: "repair_kind \<Rightarrow> bool" where
  "repair_kind_ok kind = (case kind of
     RepairCommit \<Rightarrow> True
   | RepairReplace c co ty \<Rightarrow> str_within 1 256 (PStr (py_strip c))
       \<and> valid_country (PStr (py_upper (py_strip co)))
       \<and> py_strip ty \<in> {''residential'', ''datacenter''})"

definition replaced :: "repair_kind \<Rightarrow> pydict \<Rightarrow> pydict" where
  "replaced kind op = dupdate op (map (\<lambda>(k, v). (k, PStr v)) (repair_fields kind))"

definition repairing :: "repair_kind \<Rightarrow> string \<Rightarrow> rat \<Rightarrow> pydict \<Rightarrow> pydict" where
  "repairing kind hash deadline op = dset (dset (dset (dset (replaced kind op)
     ''state'' (PStr ''repairing'')) ''repair_request_hash'' (PStr hash))
     ''resolution'' (PStr (repair_action kind))) ''expires_at'' (PFloat (Fin deadline))"

lemma replaced_ok:
  assumes "valid_operation op" "tidy op" "repair_kind_ok kind"
  shows "valid_operation (replaced kind op)" "tidy (replaced kind op)"
proof -
  show "valid_operation (replaced kind op)"
  proof (cases kind)
    case (RepairReplace c co ty)
    then show ?thesis using assms
      by (simp add: replaced_def replacement_fields_def repair_kind_ok_def)
        (intro set_plain_field; simp)
  qed (use assms in \<open>simp add: replaced_def\<close>)
  show "tidy (replaced kind op)"
    unfolding replaced_def using assms(2)
    by (intro nan_free_dupdate) (auto simp: list_all_iff)
qed

lemma replaced_keeps [simp]:
  "op_id (replaced kind op) = op_id op" "op_hash (replaced kind op) = op_hash op"
  "dgetN (replaced kind op) ''created_at'' = dgetN op ''created_at''"
  "op_request (replaced kind op) = op_request op"
  by (cases kind; simp add: replaced_def replacement_fields_def)+

text \<open>Validity reads an operation only through its lookups, so the order of updates does not
  matter.\<close>

lemma valid_operation_cong:
  assumes "\<And>k. dget a k = dget b k"
  shows "valid_operation a = valid_operation b"
proof -
  have "dget_or a k v = dget_or b k v" for k v by (simp add: dget_or_def assms)
  moreover have "dkeys a = dkeys b" by (simp add: dkeys_dget assms)
  ultimately show ?thesis by (simp add: valid_operation_def repair_fields_ok_def)
qed

lemma repairing_ok:
  assumes "valid_operation op" "tidy op" "repair_kind_ok kind" "valid_hash (PStr hash)"
    and "0 \<le> deadline" "num_le (dgetN op ''created_at'') (PFloat (Fin deadline))"
  shows "op_ok (repairing kind hash deadline op)"
proof -
  let ?a = "dset (dset (replaced kind op) ''repair_request_hash'' (PStr hash))
     ''resolution'' (PStr (repair_action kind))"
  have r: "is_str_in {''repair_commit'', ''repair_replace''} (PStr (repair_action kind))"
    by (cases kind) simp_all
  have "valid_operation ?a" using replaced_ok(1) [OF assms(1-3)] assms(4) r by (rule set_repair_fields)
  then have "valid_operation (dset ?a ''state'' (PStr ''repairing''))"
    by (rule set_state_field) (simp_all add: state_names)
  then have "valid_operation (dset (dset ?a ''state'' (PStr ''repairing'')) ''expires_at'' (PFloat (Fin deadline)))"
    by (rule set_plain_field) (use assms(5,6) in simp_all)
  moreover have "dget (repairing kind hash deadline op) k
      = dget (dset (dset ?a ''state'' (PStr ''repairing'')) ''expires_at'' (PFloat (Fin deadline))) k" for k
    by (simp add: repairing_def)
  ultimately have "valid_operation (repairing kind hash deadline op)"
    using valid_operation_cong by blast
  moreover have "tidy (repairing kind hash deadline op)"
    unfolding repairing_def using replaced_ok(2) [OF assms(1-3)] by (intro nan_free_dset) simp_all
  moreover have "\<not> settled (repairing kind hash deadline op)"
    by (simp add: settled_def op_state_def repairing_def)
  ultimately show ?thesis by (simp add: op_ok_def)
qed

lemma repairing_keeps [simp]:
  "op_id (repairing kind hash d op) = op_id op" "op_hash (repairing kind hash d op) = op_hash op"
  "op_state (repairing kind hash d op) = PStr ''repairing''" "same_request (repairing kind hash d op) op"
  "blocking (repairing kind hash d op)"
  by (simp_all add: repairing_def same_request_def op_state_def blocking_def BLOCKING_STATES_def)

lemma repair_begin_cases:
  "(\<exists>r. repair_begin digest ttl now kind i st = (Reply r, st))
   \<or> (\<exists>op. find_operation i st = Some op \<and> active_is st (PStr i) \<and>
       repair_begin digest ttl now kind i st =
         (Proceed (repairing kind (digest (repair_text kind)) (now + of_int ttl) op),
          (save_operation (repairing kind (digest (repair_text kind)) (now + of_int ttl) op) True st)
            \<lparr>co_live := insert i (co_live st)\<rparr>))"
  by (simp add: repair_begin_def Let_def repairing_def replaced_def split: option.split)

text \<open>The deadline set by a repair does not lie before the creation of the operation.\<close>

definition clock_ok :: "rat \<Rightarrow> coord \<Rightarrow> bool" where
  "clock_ok deadline st = (0 \<le> deadline \<and>
     list_all (\<lambda>(_, op). num_le (dgetN op ''created_at'') (PFloat (Fin deadline))) (co_operations st))"

lemma repair_begin_ok:
  assumes inv: "coord_inv st" and dig: "digest_ok digest" and kind: "repair_kind_ok kind"
    and clock: "clock_ok (now + of_int ttl) st"
    and run: "repair_begin digest ttl now kind i st = (out, st')"
  shows "section_ok st st' \<and> (\<forall>op. out = Proceed op \<longrightarrow> flight_ok st' op \<and> op_state op = PStr ''repairing'')"
  using repair_begin_cases [of digest ttl now kind i st]
proof (elim disjE exE conjE)
  fix op
  let ?op = "repairing kind (digest (repair_text kind)) (now + of_int ttl) op"
  assume f: "find_operation i st = Some op" and act: "active_is st (PStr i)"
    and eq: "repair_begin digest ttl now kind i st =
      (Proceed ?op, (save_operation ?op True st)\<lparr>co_live := insert i (co_live st)\<rparr>)"
  have "history_ok (co_operations st)" using inv by (simp add: coord_inv_def)
  then obtain h where h: "map_of (co_operations st) h = Some op" "op_id op = PStr i"
    using find_operation_lookup f by metis
  have fl: "flight_ok st op" by (rule stored_flight [OF inv h(1)])
  have "num_le (dgetN op ''created_at'') (PFloat (Fin (now + of_int ttl)))"
    using clock h(1) by (auto simp: clock_ok_def list_all_iff dest!: map_of_SomeD)
  then have "op_ok ?op"
    using fl kind dig clock by (intro repairing_ok) (simp_all add: flight_ok_def op_ok_def digest_ok_def clock_ok_def)
  from save_active_step [OF inv fl _ this, of True] act h(2)
  have "section_ok st (save_operation ?op True st)" "flight_ok (save_operation ?op True st) ?op"
    by (simp_all add: section_ok_def)
  then show ?thesis using run eq by auto
qed (use run section_ok_refl [OF inv] in auto)

definition repaired :: "pydict \<Rightarrow> pydict" where
  "repaired op = dset (dset (dset op ''state'' (PStr ''pending_gateway_validation''))
     ''error_code'' (PStr [])) ''ok'' (PBool True)"

definition repair_failed :: "repair_kind \<Rightarrow> pydict \<Rightarrow> pydict" where
  "repair_failed kind op = dpop (dpop (dset (dset (dset op ''state'' (PStr ''repair_required''))
     ''error_code'' (PStr (repair_action kind @ ''_failed''))) ''ok'' (PBool False))
     ''repair_request_hash'') ''resolution''"

lemma repair_finish_cases:
  fixes kind op result st
  defines "st' \<equiv> snd (repair_finish kind op result st)" and "op' \<equiv> dupdate op (validation result)"
  shows "st' = discard_live op st
    \<or> (active_is st (op_id op) \<and> verified op'
       \<and> st' = discard_live (repaired op') (save_operation (repaired op') True st))
    \<or> (active_is st (op_id op)
       \<and> st' = discard_live (repair_failed kind op') (save_operation (repair_failed kind op') True st))"
  by (simp add: st'_def op'_def repair_finish_def Let_def repaired_def repair_failed_def)

lemma repair_end_states:
  "op_hash (repaired op) = op_hash op" "op_id (repaired op) = op_id op" "blocking (repaired op)"
  "op_hash (repair_failed kind op) = op_hash op" "op_id (repair_failed kind op) = op_id op"
  "same_request (repaired op') op = same_request op' op"
  "same_request (repair_failed kind op') op = same_request op' op"
  "blocking (repair_failed kind op)"
  by (simp_all add: repaired_def repair_failed_def same_request_def blocking_dset BLOCKING_STATES_def)

lemma repair_finish_ok:
  assumes inv: "coord_inv st" and fl: "flight_ok st op" and state: "op_state op = PStr ''repairing''"
  shows "section_ok st (snd (repair_finish kind op result st))"
proof -
  let ?op = "dupdate op (validation result)"
  have ok: "valid_operation ?op" "tidy ?op"
    using fl validation_valid validation_nan_free by (auto simp: flight_ok_def op_ok_def)
  have "repair_fields_ok op" using fl by (simp add: flight_ok_def op_ok_def valid_operation_def)
  then have "is_str_in {''repairing'', ''pending_gateway_validation''} (op_state op)
      \<longrightarrow> dgetN op ''repair_request_hash'' \<noteq> PNone"
    unfolding repair_fields_ok_def Let_def op_state_def by blast
  then have hash: "dgetN ?op ''repair_request_hash'' \<noteq> PNone" using state by simp
  show ?thesis
    using repair_finish_cases [of kind op result st]
  proof (elim disjE conjE)
    assume act: "active_is st (op_id op)" and v: "verified ?op" and eq: "snd (repair_finish kind op result st)
      = discard_live (repaired ?op) (save_operation (repaired ?op) True st)"
    have "op_ok (repaired ?op)"
      unfolding repaired_def using ok v hash by (intro op_ok_error op_ok_state) (simp_all add: state_names)
    from save_active_step [OF inv fl act this, of True] show ?thesis
      unfolding eq by (simp add: section_ok_def repair_end_states)
  next
    assume act: "active_is st (op_id op)" and eq: "snd (repair_finish kind op result st)
      = discard_live (repair_failed kind ?op) (save_operation (repair_failed kind ?op) True st)"
    let ?mid = "dset (dset (dset ?op ''state'' (PStr ''repair_required''))
      ''error_code'' (PStr (repair_action kind @ ''_failed''))) ''ok'' (PBool False)"
    have "length (repair_action kind) \<le> 100" by (cases kind) simp_all
    then have mid: "op_ok ?mid" using ok by (intro op_ok_error op_ok_state) (simp_all add: state_names)
    then have "valid_operation (repair_failed kind ?op)"
      unfolding repair_failed_def
      by (intro pop_repair_fields) (simp_all add: op_ok_def op_state_def)
    moreover have "tidy (repair_failed kind ?op)"
      using mid unfolding repair_failed_def by (intro nan_free_dpop) (simp add: op_ok_def)
    moreover have "\<not> settled (repair_failed kind ?op)"
      by (simp add: settled_def op_state_def repair_failed_def)
    ultimately have "op_ok (repair_failed kind ?op)" by (simp add: op_ok_def)
    from save_active_step [OF inv fl act this, of True] show ?thesis
      unfolding eq by (simp add: section_ok_def repair_end_states)
  qed (use section_ok_refl [OF inv] in simp)
qed

end
