(* ===== verification/Assignment_Runs.thy ===== *)
theory Assignment_Runs
  imports Assignment_Steps
begin

text \<open>
  Runs of the coordinator: what is written can be read back, the step relation that interleaves
  the sections of concurrent calls, and the theorems about every reachable state.
\<close>

section \<open>What is written can be read back\<close>

lemma valid_history_value:
  assumes "list_all (\<lambda>(h, op). op_ok op \<and> op_hash op = PStr h) ops"
    and "distinct (map (op_id \<circ> snd) ops)" and "set ids \<inter> (op_id \<circ> snd) ` set ops = {}"
  shows "valid_history (history_value ops) ids"
  using assms
proof (induction ops arbitrary: ids)
  case Nil
  then show ?case by (simp add: history_value_def)
next
  case (Cons p ops)
  obtain h op where p: "p = (h, op)" by (cases p)
  have op: "op_ok op" "op_hash op = PStr h" using Cons.prems(1) p by auto
  have "valid_hash (PStr h)" using op by (metis op_ok_def valid_operation_def)
  moreover have "valid_history (history_value ops) (op_id op # ids)"
    using Cons.prems p by (intro Cons.IH) auto
  ultimately show ?case using op Cons.prems(3) p by (simp add: history_value_def op_ok_def)
qed

lemma blocking_count_value:
  "blocking_count (history_value ops) = length (filter (\<lambda>(h, op). blocking op) ops)"
  by (induction ops) (auto simp: blocking_count_def history_value_def)

lemma dget_history_value: "dget (history_value ops) h = map_option PDict (map_of ops h)"
  by (induction ops) (auto simp: history_value_def)

lemma one_blocking:
  assumes "distinct (map fst ops)" "map_of ops h = Some a" "blocking a"
    and "list_all (\<lambda>(h', op). blocking op \<longrightarrow> h' = h) ops"
  shows "length (filter (\<lambda>(h, op). blocking op) ops) = 1"
proof -
  let ?f = "filter (\<lambda>(h, op). blocking op) ops"
  have "set (map fst ?f) = {h}"
    using assms by (force simp: list_all_iff dest: map_of_SomeD)
  moreover have "distinct (map fst ?f)" using assms(1) by (rule distinct_map_filter)
  ultimately have "length (map fst ?f) = 1" by (metis distinct_card card.empty card_insert_disjoint
      empty_iff finite.emptyI One_nat_def)
  then show ?thesis by simp
qed

lemma document_valid:
  assumes "coord_inv st"
  shows "valid_document (document st)"
proof -
  let ?ops = "co_operations st"
  have hist: "history_ok ?ops" and act: "active_ok (co_active st) ?ops" and lease: "lease_ok (co_lease st)"
    using assms by (simp_all add: coord_inv_def)
  have "valid_history (history_value ?ops) []"
    using hist by (intro valid_history_value) (auto simp: history_ok_def)
  moreover have "valid_active (opt_value (co_active st)) (history_value ?ops)"
  proof (cases "co_active st")
    case None
    then have "filter (\<lambda>(h, op). blocking op) ?ops = []"
      using act by (auto simp: active_ok_def list_ex_iff filter_empty_conv)
    with None show ?thesis by (simp add: valid_active_def opt_value_def blocking_count_value)
  next
    case (Some a)
    then obtain h where h: "map_of ?ops h = Some a" "blocking a"
      "list_all (\<lambda>(h', op). blocking op \<longrightarrow> h' = h) ?ops" using act by (auto simp: active_ok_def)
    have a: "op_ok a" "op_hash a = PStr h" using history_mem [OF hist h(1)] by auto
    have "py_eq (PDict a) (PDict a)" using a(1) by (intro py_eq_refl) (simp only: op_ok_def tidy_def)
    then show ?thesis
      using Some h a one_blocking [OF _ h] hist
      by (simp add: valid_active_def opt_value_def blocking_count_value dget_history_value op_ok_def
          history_ok_def)
  qed
  moreover have "case opt_value (co_lease st) of PNone \<Rightarrow> True | PDict l \<Rightarrow> valid_lease l | _ \<Rightarrow> False"
    using lease by (simp add: lease_ok_def opt_value_def split: option.splits)
  ultimately show ?thesis by (simp add: valid_document_def document_def)
qed

lemma opt_dict_value [simp]: "opt_dict (opt_value x) = x"
  by (simp add: opt_value_def split: option.split)

lemma history_of_value:
  "List.map_filter (\<lambda>(k, v). map_option (Pair k) (opt_dict v)) (history_value ops) = ops"
  by (induction ops) (auto simp: history_value_def map_filter_simps)

lemma read_document:
  assumes "coord_inv st"
  shows "open_coordinator (Json (document st)) = Inr (st\<lparr>co_live := {}, co_file := Json (document st)\<rparr>)"
proof -
  obtain d where d: "document st = PDict d" by (simp add: document_def)
  have "state_of_document d = st\<lparr>co_live := {}, co_file := Missing\<rparr>"
    using d history_of_value [of "co_operations st"]
    by (auto simp: document_def state_of_document_def fresh_state_def)
  then show ?thesis using document_valid [OF assms] d
    by (simp add: open_coordinator_def read_state_def read_value_def)
qed

lemma reopen_file:
  assumes "coord_inv st"
  shows "open_coordinator (co_file st) = Inr (st\<lparr>co_live := {}\<rparr>)"
proof -
  from assms consider "co_file st = Json (document st)"
    | "co_file st = Missing" "co_active st = None" "co_operations st = []" "co_lease st = None"
    by (auto simp: coord_inv_def in_sync_def)
  then show ?thesis
  proof cases
    case 1
    then show ?thesis using read_document [OF assms] by simp
  next
    case 2
    then show ?thesis by (simp add: open_coordinator_def read_state_def fresh_state_def)
  qed
qed

section \<open>The system of concurrent calls\<close>

text \<open>A call between two sections: its local operation and what it still has to do.\<close>

datatype flight =
    FStage pydict
  | FRestore pydict string
  | FRestoring pydict string
  | FRepair repair_kind pydict

type_synonym system = "coord \<times> flight list"

inductive coord_step :: "(string \<Rightarrow> string) \<Rightarrow> int \<Rightarrow> int \<Rightarrow> system \<Rightarrow> system \<Rightarrow> bool"
  for digest ttl lease_ttl where
  acquire: "valid_identifier (PStr new_id) 128 32 \<Longrightarrow> 0 \<le> t2 + of_int lease_ttl \<Longrightarrow>
    coord_step digest ttl lease_ttl (st, fl)
      (snd (acquire_mutation_lease digest lease_ttl t1 t2 new_id key st), fl)"
| renew: "0 \<le> t2 + of_int lease_ttl \<Longrightarrow>
    renew_mutation_lease lease_ttl t1 t2 wanted st = Inr (r, st') \<Longrightarrow>
    coord_step digest ttl lease_ttl (st, fl) (st', fl)"
| release: "release_mutation_lease now wanted st = Inr (r, st') \<Longrightarrow>
    coord_step digest ttl lease_ttl (st, fl) (st', fl)"
| expire: "coord_step digest ttl lease_ttl (st, fl) (expire_lease now st, fl)"
| stage_refused: "stage_begin digest ttl clk i rq key current slot_ids st = (Reply r, st') \<Longrightarrow>
    coord_step digest ttl lease_ttl (st, fl) (st', fl)"
| stage_started: "request_ok ttl clk i rq current st \<Longrightarrow>
    stage_begin digest ttl clk i rq key current slot_ids st = (Proceed op, st') \<Longrightarrow>
    coord_step digest ttl lease_ttl (st, fl) (st', FStage op # fl)"
| stage_done: "FStage op \<in> set fl \<Longrightarrow> stage_finish op result st = (Reply r, st') \<Longrightarrow>
    coord_step digest ttl lease_ttl (st, fl) (st', remove1 (FStage op) fl)"
| stage_failed: "FStage op \<in> set fl \<Longrightarrow> stage_finish op result st = (Proceed op', st') \<Longrightarrow>
    coord_step digest ttl lease_ttl (st, fl)
      (st', FRestore op' ''assign_failed_rolled_back'' # remove1 (FStage op) fl)"
| commit: "coord_step digest ttl lease_ttl (st, fl) (snd (commit t1 t2 i st), fl)"
| rollback: "rollback_begin i st = Proceed op \<Longrightarrow>
    coord_step digest ttl lease_ttl (st, fl) (st, FRestore op [] # fl)"
| recover: "recover_begin now st = Proceed op \<Longrightarrow>
    coord_step digest ttl lease_ttl (st, fl) (st, FRestore op ''assignment_expired'' # fl)"
| restore_skipped: "FRestore op e \<in> set fl \<Longrightarrow> restore_begin op st = (Reply r, st') \<Longrightarrow>
    coord_step digest ttl lease_ttl (st, fl) (st', remove1 (FRestore op e) fl)"
| restore_started: "FRestore op e \<in> set fl \<Longrightarrow> restore_begin op st = (Proceed op', st') \<Longrightarrow>
    coord_step digest ttl lease_ttl (st, fl) (st', FRestoring op' e # remove1 (FRestore op e) fl)"
| restore_done: "FRestoring op e \<in> set fl \<Longrightarrow>
    coord_step digest ttl lease_ttl (st, fl)
      (snd (restore_finish op result e st), remove1 (FRestoring op e) fl)"
| repair_refused: "repair_begin digest ttl now kind i st = (Reply r, st') \<Longrightarrow>
    coord_step digest ttl lease_ttl (st, fl) (st', fl)"
| repair_started: "repair_kind_ok kind \<Longrightarrow> clock_ok (now + of_int ttl) st \<Longrightarrow>
    repair_begin digest ttl now kind i st = (Proceed op, st') \<Longrightarrow>
    coord_step digest ttl lease_ttl (st, fl) (st', FRepair kind op # fl)"
| repair_done: "FRepair kind op \<in> set fl \<Longrightarrow>
    coord_step digest ttl lease_ttl (st, fl)
      (snd (repair_finish kind op result st), remove1 (FRepair kind op) fl)"
| restart: "open_coordinator (co_file st) = Inr st' \<Longrightarrow>
    coord_step digest ttl lease_ttl (st, fl) (st', [])"

fun flight_fits :: "coord \<Rightarrow> flight \<Rightarrow> bool" where
  "flight_fits st (FStage op) = flight_ok st op"
| "flight_fits st (FRestore op e) = (length e \<le> 128)"
| "flight_fits st (FRestoring op e) = (flight_ok st op \<and> length e \<le> 128)"
| "flight_fits st (FRepair kind op) = (flight_ok st op \<and> op_state op = PStr ''repairing'')"

definition system_inv :: "system \<Rightarrow> bool" where
  "system_inv s = (coord_inv (fst s) \<and> list_all (flight_fits (fst s)) (snd s))"

lemma fits_evolve: "flight_fits st f \<Longrightarrow> evolves st st' \<Longrightarrow> flight_fits st' f"
  by (cases f) (auto intro: flight_evolves)

lemma flights_evolve:
  "list_all (flight_fits st) fl \<Longrightarrow> evolves st st' \<Longrightarrow> list_all (flight_fits st') fl"
  by (auto simp: list_all_iff intro: fits_evolve)

lemma section_step:
  assumes "system_inv (st, fl)" "section_ok st st'" "set fl' \<subseteq> set fl \<union> new"
    and "\<And>f. f \<in> new \<Longrightarrow> flight_fits st' f"
  shows "system_inv (st', fl') \<and> evolves st st'"
proof -
  have "list_all (flight_fits st') fl"
    using assms(1,2) by (auto simp: system_inv_def section_ok_def intro: flights_evolve)
  then have "list_all (flight_fits st') fl'" using assms(3,4) by (auto simp: list_all_iff)
  then show ?thesis using assms(2) by (simp add: system_inv_def section_ok_def)
qed

lemma fits_mem: "system_inv (st, fl) \<Longrightarrow> f \<in> set fl \<Longrightarrow> coord_inv st \<and> flight_fits st f"
  by (auto simp: system_inv_def list_all_iff)

lemma remove1_sub: "set (remove1 x xs) \<subseteq> set xs \<union> {}"
  by (simp add: set_remove1_subset)

lemma evolves_reopen: "coord_inv st \<Longrightarrow> open_coordinator (co_file st) = Inr st' \<Longrightarrow> section_ok st st'"
  using reopen_file by (auto simp: section_ok_def)

lemma stage_begin_reply:
  assumes "coord_inv st" "stage_begin digest ttl clk i rq key current slot_ids st = (Reply r, st')"
  shows "section_ok st st'"
  using stage_begin_cases [of digest ttl clk i rq key current slot_ids st] assms
    section_ok_refl section_ok_expire by auto

lemma repair_begin_reply:
  assumes "coord_inv st" "repair_begin digest ttl now kind i st = (Reply r, st')"
  shows "section_ok st st'"
  using repair_begin_cases [of digest ttl now kind i st] assms section_ok_refl by auto

lemma coord_step_inv:
  assumes dig: "digest_ok digest" and step: "coord_step digest ttl lease_ttl s s'" and inv: "system_inv s"
  shows "system_inv s' \<and> evolves (fst s) (fst s')"
  using step inv
proof (cases rule: coord_step.cases)
  case (acquire new_id t2 st fl t1 key)
  have "section_ok st (snd (acquire_mutation_lease digest lease_ttl t1 t2 new_id key st))"
    using acquire_cases [of digest lease_ttl t1 t2 new_id key st] acquire_inv [OF _ dig acquire(3,4)]
      inv acquire(1) by (auto simp: section_ok_def system_inv_def evolves_same_ops)
  from section_step [OF inv [unfolded acquire(1)] this, of fl "{}"] acquire show ?thesis by simp
next
  case (renew t2 t1 wanted st r st' fl)
  have "co_operations st' = co_operations st"
    using renew(4) by (auto simp: renew_mutation_lease_def Let_def err_bind_Inr split: if_splits)
  then have "section_ok st st'"
    using renew_inv [OF _ renew(3,4)] inv renew(1)
    by (simp add: section_ok_def system_inv_def evolves_same_ops)
  from section_step [OF inv [unfolded renew(1)] this, of fl "{}"] renew show ?thesis by simp
next
  case (release now wanted st r st' fl)
  have "co_operations st' = co_operations st"
    using release(3) by (auto simp: release_mutation_lease_def err_bind_Inr split: if_splits option.splits)
  then have "section_ok st st'"
    using release_inv [OF _ release(3)] inv release(1)
    by (simp add: section_ok_def system_inv_def evolves_same_ops)
  from section_step [OF inv [unfolded release(1)] this, of fl "{}"] release show ?thesis by simp
next
  case (expire st fl now)
  have "section_ok st (expire_lease now st)"
    using inv expire(1) by (intro section_ok_expire) (simp add: system_inv_def)
  from section_step [OF inv [unfolded expire(1)] this, of fl "{}"] expire show ?thesis by simp
next
  case (stage_refused clk i rq key current slot_ids st r st' fl)
  have "section_ok st st'"
    using inv stage_refused(1) by (intro stage_begin_reply [OF _ stage_refused(3)]) (simp add: system_inv_def)
  from section_step [OF inv [unfolded stage_refused(1)] this, of fl "{}"] stage_refused show ?thesis by simp
next
  case (stage_started clk i rq current st key slot_ids op st' fl)
  have "section_ok st st' \<and> flight_ok st' op"
    using inv stage_started(1) stage_begin_ok [OF _ dig stage_started(3,4)] by (simp add: system_inv_def)
  then show ?thesis
    using section_step [OF inv [unfolded stage_started(1)], of st' "FStage op # fl" "{FStage op}"] stage_started(1,2)
    by auto
next
  case (stage_done op fl result st r st')
  have "section_ok st st'"
    using fits_mem [OF inv [unfolded stage_done(1)] stage_done(3)] stage_finish_ok [OF _ _ stage_done(4)] by simp
  from section_step [OF inv [unfolded stage_done(1)] this remove1_sub] stage_done(1,2) show ?thesis by simp
next
  case (stage_failed op fl result st op' st')
  have "section_ok st st'"
    using fits_mem [OF inv [unfolded stage_failed(1)] stage_failed(3)] stage_finish_ok [OF _ _ stage_failed(4)] by simp
  from section_step [OF inv [unfolded stage_failed(1)] this, of
      "FRestore op' ''assign_failed_rolled_back'' # remove1 (FStage op) fl"
      "{FRestore op' ''assign_failed_rolled_back''}"] stage_failed(1,2) set_remove1_subset [of "FStage op" fl]
  show ?thesis by auto
next
  case (commit st fl t1 t2 i)
  have "section_ok st (snd (commit t1 t2 i st))"
    using inv commit(1) by (intro commit_ok) (simp add: system_inv_def)
  from section_step [OF inv [unfolded commit(1)] this, of fl "{}"] commit show ?thesis by simp
next
  case (rollback i st op fl)
  have "section_ok st st" using inv rollback(1) by (intro section_ok_refl) (simp add: system_inv_def)
  from section_step [OF inv [unfolded rollback(1)] this, of "FRestore op [] # fl" "{FRestore op []}"]
    rollback show ?thesis by auto
next
  case (recover now st op fl)
  have "section_ok st st" using inv recover(1) by (intro section_ok_refl) (simp add: system_inv_def)
  from section_step [OF inv [unfolded recover(1)] this, of "FRestore op ''assignment_expired'' # fl"
      "{FRestore op ''assignment_expired''}"] recover show ?thesis by auto
next
  case (restore_skipped op e fl st r st')
  have "section_ok st st'"
    using inv restore_skipped(1) restore_begin_ok [OF _ restore_skipped(4)] by (simp add: system_inv_def)
  from section_step [OF inv [unfolded restore_skipped(1)] this remove1_sub] restore_skipped(1,2)
  show ?thesis by simp
next
  case (restore_started op e fl st op' st')
  have "section_ok st st' \<and> flight_ok st' op'"
    using inv restore_started(1) restore_begin_ok [OF _ restore_started(4)] by (simp add: system_inv_def)
  moreover have "length e \<le> 128" using fits_mem [OF inv [unfolded restore_started(1)] restore_started(3)] by simp
  ultimately show ?thesis
    using section_step [OF inv [unfolded restore_started(1)], of st'
        "FRestoring op' e # remove1 (FRestore op e) fl" "{FRestoring op' e}"]
      restore_started(1,2) set_remove1_subset [of "FRestore op e" fl] by auto
next
  case (restore_done op e fl st result)
  have "section_ok st (snd (restore_finish op result e st))"
    using fits_mem [OF inv [unfolded restore_done(1)] restore_done(3)] by (intro restore_finish_ok) simp_all
  from section_step [OF inv [unfolded restore_done(1)] this remove1_sub] restore_done(1,2) show ?thesis by simp
next
  case (repair_refused now kind i st r st' fl)
  have "section_ok st st'"
    using inv repair_refused(1) by (intro repair_begin_reply [OF _ repair_refused(3)]) (simp add: system_inv_def)
  from section_step [OF inv [unfolded repair_refused(1)] this, of fl "{}"] repair_refused show ?thesis by simp
next
  case (repair_started kind now st i op st' fl)
  have "section_ok st st' \<and> flight_fits st' (FRepair kind op)"
    using inv repair_started(1) repair_begin_ok [OF _ dig repair_started(3,4,5)] by (simp add: system_inv_def)
  then show ?thesis
    using section_step [OF inv [unfolded repair_started(1)], of st' "FRepair kind op # fl" "{FRepair kind op}"]
      repair_started(1,2) by auto
next
  case (repair_done kind op fl st result)
  have "section_ok st (snd (repair_finish kind op result st))"
    using fits_mem [OF inv [unfolded repair_done(1)] repair_done(3)] by (intro repair_finish_ok) simp_all
  from section_step [OF inv [unfolded repair_done(1)] this remove1_sub] repair_done(1,2) show ?thesis by simp
next
  case (restart st st' fl)
  have "section_ok st st'"
    using inv restart(1) by (intro evolves_reopen [OF _ restart(3)]) (simp add: system_inv_def)
  from section_step [OF inv [unfolded restart(1)] this, of "[]" "{}"] restart show ?thesis by simp
qed

section \<open>Every reachable state\<close>

inductive coord_reachable :: "(string \<Rightarrow> string) \<Rightarrow> int \<Rightarrow> int \<Rightarrow> system \<Rightarrow> bool"
  for digest ttl lease_ttl where
  start: "coord_reachable digest ttl lease_ttl (fresh_state, [])"
| more: "coord_reachable digest ttl lease_ttl s \<Longrightarrow> coord_step digest ttl lease_ttl s s' \<Longrightarrow>
    coord_reachable digest ttl lease_ttl s'"

abbreviation coord_steps :: "(string \<Rightarrow> string) \<Rightarrow> int \<Rightarrow> int \<Rightarrow> system \<Rightarrow> system \<Rightarrow> bool" where
  "coord_steps digest ttl lease_ttl \<equiv> (coord_step digest ttl lease_ttl)\<^sup>*\<^sup>*"

lemma fresh_inv: "coord_inv fresh_state"
  by (simp add: inv_parts fresh_state_def lease_active_def)

lemma reachable_inv:
  "coord_reachable digest ttl lease_ttl s \<Longrightarrow> digest_ok digest \<Longrightarrow> system_inv s"
proof (induction rule: coord_reachable.induct)
  case start
  show ?case by (simp add: system_inv_def fresh_inv)
next
  case (more s s')
  then show ?case using coord_step_inv by blast
qed

lemma steps_inv:
  assumes "coord_steps digest ttl lease_ttl s s'" "digest_ok digest" "system_inv s"
  shows "system_inv s' \<and> evolves (fst s) (fst s')"
  using assms(1)
proof (induction rule: rtranclp_induct)
  case base
  show ?case using assms(3) by simp
next
  case (step y z)
  then show ?case using coord_step_inv [OF assms(2) step(2)] evolves_trans by blast
qed

lemma reachable_coord_inv:
  "coord_reachable digest ttl lease_ttl (st, fl) \<Longrightarrow> digest_ok digest \<Longrightarrow> coord_inv st"
  using reachable_inv by (force simp: system_inv_def)

text \<open>Every state that concurrent calls and crashes can produce passes the validation of
  state files, and a restart from the file finds exactly the same operations, active operation
  and lease.\<close>

theorem restart_finds_same_state:
  assumes "coord_reachable digest ttl lease_ttl (st, fl)" and "digest_ok digest"
  shows "valid_document (document st) \<and> open_coordinator (co_file st) = Inr (st\<lparr>co_live := {}\<rparr>)"
proof -
  have "coord_inv st" using assms by (rule reachable_coord_inv)
  then show ?thesis by (simp add: document_valid reopen_file)
qed

text \<open>C8. At most one operation is unfinished at any time, and an active mutation lease and an
  unfinished operation exclude each other.\<close>

theorem switch_and_lease_exclusive:
  assumes "coord_reachable digest ttl lease_ttl (st, fl)" and "digest_ok digest"
  shows "length (filter (\<lambda>(h, op). blocking op) (co_operations st)) \<le> 1
    \<and> \<not> (lease_active st \<and> active_blocking st)
    \<and> (active_blocking st \<longleftrightarrow> list_ex (\<lambda>(h, op). blocking op) (co_operations st))"
proof -
  have inv: "coord_inv st" using assms by (rule reachable_coord_inv)
  show ?thesis
  proof (cases "co_active st")
    case None
    then have "\<not> list_ex (\<lambda>(h, op). blocking op) (co_operations st)"
      using inv by (simp add: coord_inv_def active_ok_def)
    moreover from this have "filter (\<lambda>(h, op). blocking op) (co_operations st) = []"
      by (auto simp: list_ex_iff filter_empty_conv)
    ultimately show ?thesis using None by (simp add: active_blocking_def)
  next
    case (Some a)
    then obtain h where h: "map_of (co_operations st) h = Some a" "blocking a"
      "list_all (\<lambda>(h', op). blocking op \<longrightarrow> h' = h) (co_operations st)"
      using inv by (auto simp: coord_inv_def active_ok_def)
    have "distinct (map fst (co_operations st))" using inv by (simp add: coord_inv_def history_ok_def)
    from one_blocking [OF this h] have "length (filter (\<lambda>(h, op). blocking op) (co_operations st)) = 1" .
    moreover have "list_ex (\<lambda>(h, op). blocking op) (co_operations st)"
      using h(1,2) by (auto simp: list_ex_iff dest!: map_of_SomeD)
    moreover have "\<not> lease_active st" using inv Some by (auto simp: coord_inv_def)
    ultimately show ?thesis using Some h(2) by (simp add: active_blocking_def)
  qed
qed

text \<open>C1. No operation is offered for commit, committed or reported as rolled back unless DNS,
  exit and availability of the connection it left active were all verified.\<close>

theorem settled_operations_verified:
  assumes "coord_reachable digest ttl lease_ttl (st, fl)" and "digest_ok digest"
    and "(h, op) \<in> set (co_operations st)"
    and "op_state op \<in> PStr ` {''pending_commit'', ''pending_gateway_validation'', ''committed'', ''rolled_back''}"
  shows "verified op"
proof -
  have "coord_inv st" using assms(1,2) by (rule reachable_coord_inv)
  then have "op_ok op" using assms(3) by (auto simp: coord_inv_def history_ok_def list_all_iff)
  moreover have "settled op" using assms(4) by (auto simp: settled_def)
  ultimately show ?thesis by (simp add: op_ok_def)
qed

text \<open>A committed or rolled back operation is never changed or lost again, whatever calls
  and crashes follow.\<close>

theorem finished_operations_final:
  assumes "coord_reachable digest ttl lease_ttl s" and "digest_ok digest"
    and "coord_steps digest ttl lease_ttl s s'"
    and "map_of (co_operations (fst s)) h = Some op" and "terminal op"
  shows "map_of (co_operations (fst s')) h = Some op"
proof -
  have "evolves (fst s) (fst s')" using steps_inv [OF assms(3,2)] reachable_inv assms(1,2) by blast
  from evolvesE [OF this assms(4)] assms(5) show ?thesis by metis
qed

section \<open>Idempotence of the switch\<close>

lemma request_text_inj: "request_text a = request_text b \<longleftrightarrow> a = b"
proof
  assume eq: "request_text a = request_text b"
  let ?items = "\<lambda>r. [(''candidate_id'', rq_candidate r), (''country'', rq_country r),
      (''expected_current_candidate_id'', rq_expected r), (''proxy_type'', rq_type r)]"
  have "?items a = ?items b"
  proof (rule json_object_text_inj)
    show "sorted (map fst (?items a))" by (simp add: less_eq_char_def)
  qed (use eq in \<open>simp_all add: request_text_def\<close>)
  then show "a = b" by simp
qed simp

lemma replay_reply:
  assumes "map_of (co_operations st) (digest key) = Some old"
    and "op_request old = PStr (digest (request_text rq))"
  shows "stage_begin digest ttl clk i rq' key current slots st =
    (Reply (if digest (request_text rq') = digest (request_text rq) then public old
            else reply_error ''idempotency_conflict''), st)"
  using assms by (auto simp: stage_begin_def)

text \<open>Once a switch has started under an idempotency key, no call with that key ever starts
  another one: the same request gets the state of that operation, and any other request is
  refused as a conflict, as long as the digest tells the two request texts apart.\<close>

theorem stage_idempotent:
  assumes "coord_reachable digest ttl lease_ttl (st, fl)" and "digest_ok digest"
    and "request_ok ttl clk i rq current st"
    and "stage_begin digest ttl clk i rq key current slots st = (Proceed op, st1)"
    and "coord_steps digest ttl lease_ttl (st1, FStage op # fl) (st2, fl2)"
    and "digest (request_text rq') = digest (request_text rq) \<Longrightarrow> request_text rq' = request_text rq"
  shows "\<exists>old. map_of (co_operations st2) (digest key) = Some old \<and> op_id old = PStr i
    \<and> stage_begin digest ttl clk' i' rq' key current' slots' st2
        = (Reply (if rq' = rq then public old else reply_error ''idempotency_conflict''), st2)"
proof -
  have inv: "system_inv (st, fl)" using assms(1,2) by (rule reachable_inv)
  have "coord_step digest ttl lease_ttl (st, fl) (st1, FStage op # fl)"
    using assms(3,4) by (rule coord_step.stage_started)
  then have inv1: "system_inv (st1, FStage op # fl)" using coord_step_inv [OF assms(2)] inv by blast
  have new: "op = new_operation digest ttl clk i rq key
      (py_strip (str_or_empty (dgetN current ''candidate_id''))) current"
    "map_of (co_operations st1) (digest key) = Some op"
    using stage_begin_cases [of digest ttl clk i rq key current slots st] assms(4)
    by (auto simp: update_conv)
  have "evolves st1 st2" using steps_inv [OF assms(5,2) inv1] by simp
  from evolvesE [OF this new(2)] obtain old where old: "map_of (co_operations st2) (digest key) = Some old"
    "same_request old op" by metis
  have req: "op_id op = PStr i" "op_request op = PStr (digest (request_text rq))"
    by (simp_all add: new(1) new_operation_def)
  then have "op_request old = PStr (digest (request_text rq))" "op_id old = PStr i"
    using old(2) by (simp_all add: same_request_def)
  moreover have "digest (request_text rq') = digest (request_text rq) \<longleftrightarrow> rq' = rq"
    using assms(6) request_text_inj by metis
  ultimately show ?thesis using replay_reply [of st2 digest key old rq] old(1) by simp
qed

section \<open>A damaged file\<close>

definition locked_down :: "coord \<Rightarrow> bool" where
  "locked_down st = (co_active st = Some corrupt_active \<and> co_operations st = [] \<and> co_lease st = None)"

lemma corrupt_blocks: "blocking corrupt_active" "op_state corrupt_active = PStr ''repair_required''"
  by (simp_all add: blocking_def op_state_def corrupt_active_def BLOCKING_STATES_def)

text \<open>A legacy document that can be brought up to date.\<close>

definition migratable :: "pyval \<Rightarrow> bool" where
  "migratable raw \<longleftrightarrow> (\<exists>d. raw = PDict d \<and> dkeys d = {''version'', ''active'', ''operations''}
     \<and> (valid_document (PDict (dset d ''mutation_lease'' PNone))
        \<or> (\<exists>m. canonicalize_legacy_terminal_history d = Some m \<and> valid_document (PDict m))))"

definition damaged :: "state_file \<Rightarrow> bool" where
  "damaged f \<longleftrightarrow> f = Unreadable \<or> f = NotJson \<or> (\<exists>raw. f = Json raw \<and> \<not> valid_document raw \<and> \<not> migratable raw)"

definition refusing :: "pydict \<Rightarrow> bool" where
  "refusing r \<longleftrightarrow> dget r ''ok'' = Some (PBool False)"

lemma refusing_reply [simp]: "refusing (reply_error c)" "refusing (public corrupt_active)"
  by (simp add: refusing_def reply_error_def) code_simp

lemma read_damaged: "damaged f \<Longrightarrow> read_state f = Inr (corrupt_state, False)"
  by (auto simp: damaged_def migratable_def read_state_def read_value_def Let_def split: pyval.split option.split)

lemma valid_not_corrupt: "valid_document (PDict d) \<Longrightarrow> co_active (state_of_document d) \<noteq> Some corrupt_active"
proof
  assume v: "valid_document (PDict d)" and a: "co_active (state_of_document d) = Some corrupt_active"
  have "\<not> valid_operation corrupt_active" by code_simp
  moreover from a have "dgetN d ''active'' = PDict corrupt_active"
    by (cases "dgetN d ''active''") (auto simp: state_of_document_def fresh_state_def)
  ultimately show False using v by (auto simp: valid_document_def valid_active_def Let_def split: option.splits pyval.splits)
qed

lemma read_value_sound:
  assumes "valid_document raw \<or> migratable raw"
  shows "co_active (fst (read_value raw)) \<noteq> Some corrupt_active"
proof -
  from assms obtain d where d: "raw = PDict d" by (cases raw) (auto simp: migratable_def valid_document_def)
  show ?thesis
  proof (cases "valid_document (PDict d)")
    case True
    then show ?thesis using valid_not_corrupt [OF True] by (simp add: d read_value_def)
  next
    case False
    let ?m = "dset d ''mutation_lease'' PNone"
    from assms d False have k: "dkeys d = {''version'', ''active'', ''operations''}"
      and m: "valid_document (PDict ?m) \<or> (\<exists>m. canonicalize_legacy_terminal_history d = Some m \<and> valid_document (PDict m))"
      by (simp_all add: migratable_def)
    show ?thesis
    proof (cases "valid_document (PDict ?m)")
      case True
      then show ?thesis using valid_not_corrupt [OF True] False k by (simp add: d read_value_def Let_def)
    next
      case no: False
      with m obtain n where n: "canonicalize_legacy_terminal_history d = Some n" "valid_document (PDict n)" by blast
      then show ?thesis using valid_not_corrupt [OF n(2)] False no k by (simp add: d read_value_def Let_def)
    qed
  qed
qed

lemma locked_steps:
  assumes "coord_steps digest ttl lease_ttl s s'" "s = (st, [])" "locked_down st" "damaged (co_file st)"
    "open_coordinator (co_file st) = Inr st"
  shows "s' = (st, [])"
proof -
  have e: "expire_lease t st = st" for t using assms(3) by (simp add: expire_lease_def locked_down_def)
  have nl: "\<not> lease_active st" "active_blocking st"
    using assms(3) corrupt_blocks by (simp_all add: lease_active_def active_blocking_def locked_down_def)
  have no: "find_operation j st = None" for j using assms(3) by (simp add: find_operation_def locked_down_def)
  have m: "mutation_allowed t st = (False, st)" for t using e nl by (simp add: mutation_allowed_def)
  have "coord_step digest ttl lease_ttl (st, []) u \<Longrightarrow> u = (st, [])" for u
    using assms(3,5) e nl no m corrupt_blocks
    by (auto elim!: coord_step.cases simp: acquire_mutation_lease_def renew_mutation_lease_def release_mutation_lease_def
        stage_begin_def commit_def assignment_action_allowed_def rollback_begin_def repair_begin_def recover_begin_def
        locked_down_def Let_def split: if_splits)
  with assms(1,2) show ?thesis by (induction rule: rtranclp_induct) auto
qed

text \<open>C32. A state file that cannot be read, is not JSON, or is JSON that neither validates nor
  can be migrated, and only such a file, locks the coordinator: every call that would change something is refused
  (acquiring, renewing and releasing a lease, a switch, a commit, a rollback, a repair, a recovery), and
  no sequence of steps of the coordinator, restarts included, ever changes its state or the file. A file
  that is not UTF-8 does not get that far: opening it raises ValueError.\<close>

theorem damaged_file_locks:
  "open_coordinator NotUtf8 = Inl ValueError
   \<and> (f \<noteq> NotUtf8 \<longrightarrow> (\<exists>st. open_coordinator f = Inr st \<and> (locked_down st \<longleftrightarrow> damaged f)
     \<and> (damaged f \<longrightarrow> co_file st = f
        \<and> (\<forall>s. coord_steps digest ttl lease_ttl (st, []) s \<longrightarrow> s = (st, []))
        \<and> mutation_allowed now st = (False, st)
        \<and> refusing (fst (acquire_mutation_lease digest lease_ttl t1 t2 new_id key st))
        \<and> (\<exists>r. renew_mutation_lease lease_ttl t1 t2 i st = Inr (r, st) \<and> refusing r)
        \<and> (\<exists>r. release_mutation_lease now i st = Inr (r, st) \<and> refusing r)
        \<and> (\<exists>r. stage_begin digest ttl clk i rq key current slots st = (Reply r, st) \<and> refusing r)
        \<and> refusing (fst (commit t1 t2 i st)) \<and> (\<exists>r. rollback_begin i st = Reply r \<and> refusing r)
        \<and> (\<exists>r. repair_begin digest ttl now kind i st = (Reply r, st) \<and> refusing r)
        \<and> (\<exists>r. recover_begin now st = Reply r \<and> refusing r))))"
proof (intro conjI impI)
  show "open_coordinator NotUtf8 = Inl ValueError" by (simp add: open_coordinator_def read_state_def)
  assume utf: "f \<noteq> NotUtf8"
  show "\<exists>st. open_coordinator f = Inr st \<and> (locked_down st \<longleftrightarrow> damaged f)
     \<and> (damaged f \<longrightarrow> co_file st = f
        \<and> (\<forall>s. coord_steps digest ttl lease_ttl (st, []) s \<longrightarrow> s = (st, []))
        \<and> mutation_allowed now st = (False, st)
        \<and> refusing (fst (acquire_mutation_lease digest lease_ttl t1 t2 new_id key st))
        \<and> (\<exists>r. renew_mutation_lease lease_ttl t1 t2 i st = Inr (r, st) \<and> refusing r)
        \<and> (\<exists>r. release_mutation_lease now i st = Inr (r, st) \<and> refusing r)
        \<and> (\<exists>r. stage_begin digest ttl clk i rq key current slots st = (Reply r, st) \<and> refusing r)
        \<and> refusing (fst (commit t1 t2 i st)) \<and> (\<exists>r. rollback_begin i st = Reply r \<and> refusing r)
        \<and> (\<exists>r. repair_begin digest ttl now kind i st = (Reply r, st) \<and> refusing r)
        \<and> (\<exists>r. recover_begin now st = Reply r \<and> refusing r))"
  proof (cases "damaged f")
    case True
    let ?st = "corrupt_state\<lparr>co_file := f\<rparr>"
    have o: "open_coordinator f = Inr ?st" using read_damaged [OF True] by (simp add: open_coordinator_def)
    have l: "locked_down ?st" "co_file ?st = f" by (simp_all add: locked_down_def corrupt_state_def fresh_state_def)
    have e: "expire_lease t ?st = ?st" for t using l by (simp add: expire_lease_def locked_down_def)
    have nl: "\<not> lease_active ?st" "active_blocking ?st" "co_lease ?st = None" "co_active ?st = Some corrupt_active"
      using l corrupt_blocks by (simp_all add: lease_active_def active_blocking_def locked_down_def)
    have no: "find_operation j ?st = None" for j using l by (simp add: find_operation_def locked_down_def)
    have m: "mutation_allowed t ?st = (False, ?st)" for t using e nl by (simp add: mutation_allowed_def)
    have steps: "s = (?st, [])" if "coord_steps digest ttl lease_ttl (?st, []) s" for s
      using that refl l(1) by (rule locked_steps) (use True o l in simp_all)
    have none: "map_of (co_operations ?st) k = None" for k using l by (simp add: locked_down_def)
    have lease: "refusing (fst (acquire_mutation_lease digest lease_ttl t1 t2 new_id key ?st))"
      "\<exists>r. renew_mutation_lease lease_ttl t1 t2 i ?st = Inr (r, ?st) \<and> refusing r"
      "\<exists>r. release_mutation_lease now i ?st = Inr (r, ?st) \<and> refusing r"
      using e nl by (simp_all add: acquire_mutation_lease_def renew_mutation_lease_def release_mutation_lease_def Let_def)
    have stage: "\<exists>r. stage_begin digest ttl clk i rq key current slots ?st = (Reply r, ?st) \<and> refusing r"
      using none m by (simp add: stage_begin_def Let_def)
    have rest: "refusing (fst (commit t1 t2 i ?st))" "\<exists>r. rollback_begin i ?st = Reply r \<and> refusing r"
      "\<exists>r. repair_begin digest ttl now kind i ?st = (Reply r, ?st) \<and> refusing r"
      "\<exists>r. recover_begin now ?st = Reply r \<and> refusing r"
      using e nl no corrupt_blocks
      by (simp_all add: commit_def assignment_action_allowed_def rollback_begin_def repair_begin_def recover_begin_def Let_def)
    show ?thesis
      by (intro exI [of _ ?st] conjI impI allI) (use o l steps m lease stage rest True in \<open>assumption | simp\<close>)+
  next
    case False
    have "\<exists>st b. read_state f = Inr (st, b) \<and> co_active st \<noteq> Some corrupt_active"
    proof (cases f)
      case (Json raw)
      with False have "valid_document raw \<or> migratable raw" by (auto simp: damaged_def)
      from read_value_sound [OF this] Json show ?thesis
        by (intro exI [of _ "fst (read_value raw)"] exI [of _ "snd (read_value raw)"]) (simp add: read_state_def)
    qed (use False utf in \<open>auto simp: damaged_def read_state_def fresh_state_def\<close>)
    then obtain st b where st: "read_state f = Inr (st, b)" "co_active st \<noteq> Some corrupt_active" by blast
    then have "\<exists>st. open_coordinator f = Inr st \<and> \<not> locked_down st"
      by (auto simp: open_coordinator_def Let_def locked_down_def write_state_def)
    with False show ?thesis by blast
  qed
qed

section \<open>When a commit takes effect\<close>

text \<open>C15. A call of commit that leaves an operation committed found it committed already, or found
  it the active operation, pending, before its deadline and without an active lease; it then
  ends the switch.\<close>

theorem commit_guarded:
  assumes "coord_reachable digest ttl lease_ttl (st, fl)" and "digest_ok digest"
    and "commit t1 t2 i st = (r, st')"
    and "find_operation i st' = Some op'" and "op_state op' = PStr ''committed''"
  shows "find_operation i st = Some op'
    \<or> (\<exists>op. find_operation i st = Some op \<and> co_active st = Some op \<and> pending op
         \<and> \<not> deadline_passed t2 op \<and> \<not> lease_active (expire_lease t1 st) \<and> co_active st' = None)"
proof -
  have inv: "coord_inv (expire_lease t1 st)"
    using reachable_coord_inv [OF assms(1,2)] by (rule expire_lease_inv)
  have same: "find_operation j (expire_lease t1 st) = find_operation j st" for j
    by (simp add: find_operation_def)
  show ?thesis
    using commit_cases [of t1 t2 i st]
  proof (elim disjE exE conjE)
    assume "snd (commit t1 t2 i st) = expire_lease t1 st"
    then show ?thesis using assms(3,4) same by simp
  next
    fix op
    assume op: "find_operation i (expire_lease t1 st) = Some op" "pending op"
        "active_is (expire_lease t1 st) (PStr i)" "\<not> deadline_passed t2 op" "\<not> lease_active (expire_lease t1 st)"
      and eq: "snd (commit t1 t2 i st) = save_operation (committed op) False (expire_lease t1 st)"
    have "history_ok (co_operations (expire_lease t1 st))" using inv by (simp add: coord_inv_def)
    from find_operation_lookup [OF this op(1)] obtain h where
      h: "map_of (co_operations (expire_lease t1 st)) h = Some op" "op_id op = PStr i" by blast
    have "co_active (expire_lease t1 st) = Some op" using active_is_lookup [OF inv op(3) h] .
    then show ?thesis using op same eq assms(3) by auto
  qed
qed

section \<open>A switch without interference\<close>

definition undisturbed :: "pyval \<Rightarrow> 'a \<Rightarrow> coord \<Rightarrow> pyval \<times> coord" where
  "undisturbed result x st = (result, st)"

lemma active_after_save:
  "active_is (save_operation op True st\<lparr>co_live := L\<rparr>) (op_id op)"
  "active_is (save_operation op True st) (op_id op)"
  "active_state (save_operation op True st\<lparr>co_live := L\<rparr>) s = (op_state op = PStr s)"
  "active_state (save_operation op True st) s = (op_state op = PStr s)"
  by (simp_all add: active_is_def active_state_def)

lemma stage_finish_undisturbed:
  assumes "active_is st (op_id op)" "active_state st ''switching''"
  shows "stage_finish op result st =
    (if verified (validation result)
     then (let op' = dset (dupdate op (validation result)) ''state'' (PStr ''pending_commit'')
           in (Reply (public op'), discard_live op' (save_operation op' True st)))
     else (Proceed (dupdate op (validation result)), st))"
proof -
  have "verified (dupdate op (validation result)) = verified (validation result)"
    by (simp add: verified_def is_true_def validation_def Let_def)
  with assms show ?thesis by (simp add: stage_finish_def Let_def)
qed

lemma verified_validation: "verified (dupdate op (validation v)) = verified (validation v)"
  by (simp add: verified_def is_true_def validation_def Let_def)

lemma public_field: "k \<in> public_fields \<Longrightarrow> dgetN (public op) k = dgetN op k"
  by (simp add: public_def dget_or_def dget_filter)

definition settled_as :: "string \<Rightarrow> pydict \<Rightarrow> string \<Rightarrow> coord \<Rightarrow> bool" where
  "settled_as s r i st = (dgetN r ''state'' = PStr s \<and> dgetN r ''operation_id'' = PStr i
     \<and> i \<notin> co_live st \<and> (active_blocking st \<longleftrightarrow> s \<noteq> ''rolled_back''))"

lemma restore_undisturbed:
  assumes "co_active st = Some a" "op_id a = PStr i" "op_id op = PStr i" "op_state a \<noteq> PStr ''rolling_back''"
    and "restore op (undisturbed w) e st = (r, st')"
  shows "settled_as (if verified (validation w) then ''rolled_back'' else ''repair_required'') r i
    (discard_live op st')"
proof -
  let ?a = "dset a ''state'' (PStr ''rolling_back'')"
  let ?st = "save_operation ?a True st"
  have start: "restore_begin op st = (Proceed ?a, ?st)"
    using assms(1-4) by (simp add: restore_begin_def active_is_def Let_def)
  have "active_is ?st (op_id ?a)" "active_state ?st ''rolling_back''"
    by (simp_all add: active_is_def active_state_def op_state_def)
  then have "restore_finish ?a w e ?st =
     (let op' = dupdate ?a (validation w) in
      if verified (validation w)
      then (public (rolled_back op' e), save_operation (rolled_back op' e) False ?st)
      else (public (rollback_failed op'), save_operation (rollback_failed op') True ?st))"
    unfolding restore_finish_def Let_def verified_validation
    by (simp add: rolled_back_def rollback_failed_def)
  then have fin: "(r, st') = (let op' = dupdate ?a (validation w) in
      if verified (validation w)
      then (public (rolled_back op' e), save_operation (rolled_back op' e) False ?st)
      else (public (rollback_failed op'), save_operation (rollback_failed op') True ?st))"
    using assms(5) by (simp add: restore_def start undisturbed_def)
  have f: "''state'' \<in> public_fields" "''operation_id'' \<in> public_fields" by (simp_all add: public_fields_def)
  have "str_field op ''operation_id'' = i" using assms(3) by (simp add: str_field_def)
  then show ?thesis
    using fin assms(2) by (auto simp: Let_def settled_as_def public_field f discard_live_def
        active_blocking_def end_states rolled_back_def rollback_failed_def blocking_dset
        BLOCKING_STATES_def split: if_splits)
qed

text \<open>A switch that is accepted and that no other call disturbs ends with the new connection
  pending for commit when the candidate verified, otherwise with the previous connection
  rolled back when that verified, and otherwise asking for repair; it leaves an unfinished
  operation in all cases but the second, and is no longer live.\<close>

theorem stage_outcome:
  assumes "stage_begin digest ttl clk i rq key current slots st = (Proceed op, st1)"
    and "stage digest ttl clk i rq key current slots (undisturbed v) (undisturbed w) st = (r, st')"
  shows "settled_as (if verified (validation v) then ''pending_commit''
      else if verified (validation w) then ''rolled_back'' else ''repair_required'') r i st'"
proof -
  let ?st = "expire_lease (at_lease clk) st"
  have st1: "st1 = (save_operation op True ?st)\<lparr>co_live := insert i (co_live st)\<rparr>"
    "op = new_operation digest ttl clk i rq key (py_strip (str_or_empty (dgetN current ''candidate_id''))) current"
    using stage_begin_cases [of digest ttl clk i rq key current slots st] assms(1) by auto
  have op: "op_id op = PStr i" "op_state op = PStr ''switching''" by (simp_all add: st1(2))
  have act: "co_active st1 = Some op" "active_is st1 (op_id op)" "active_state st1 ''switching''"
    using op by (simp_all add: st1(1) active_is_def active_state_def)
  note finish = stage_finish_undisturbed [OF act(2,3), of v]
  have f: "''state'' \<in> public_fields" "''operation_id'' \<in> public_fields" by (simp_all add: public_fields_def)
  show ?thesis
  proof (cases "verified (validation v)")
    case True
    then have "r = public (dset (dupdate op (validation v)) ''state'' (PStr ''pending_commit''))"
      "st' = discard_live (dset (dupdate op (validation v)) ''state'' (PStr ''pending_commit''))
         (save_operation (dset (dupdate op (validation v)) ''state'' (PStr ''pending_commit'')) True st1)"
      using assms finish by (simp_all add: stage_def undisturbed_def Let_def)
    then show ?thesis using True op
      by (simp add: settled_as_def public_field f discard_live_def str_field_def active_blocking_def
          blocking_dset BLOCKING_STATES_def)
  next
    case False
    obtain r2 st2 where run: "restore (dupdate op (validation v)) (undisturbed w) ''assign_failed_rolled_back'' st1 = (r2, st2)"
      by fastforce
    have "r = r2" "st' = discard_live (dupdate op (validation v)) st2"
      using assms finish False run by (simp_all add: stage_def undisturbed_def)
    then show ?thesis
      using restore_undisturbed [OF act(1) op(1) _ _ run] op False by simp
  qed
qed

section \<open>A concrete run\<close>

definition sample_digest :: "string \<Rightarrow> string" where
  "sample_digest s = replicate 64 (CHR ''a'')"

lemma sample_digest_ok: "digest_ok sample_digest"
  by (simp add: digest_ok_def sample_digest_def hex_char_def digit_char_def chr_code_def list_all_iff)

definition run_request :: stage_request where
  "run_request = make_request ''new'' ''jp'' ''residential'' ''old''"

definition run_clock :: clock3 where
  "run_clock = \<lparr> at_lease = 10, at_create = 10, at_deadline = 10 \<rparr>"

definition run_current :: pydict where
  "run_current = [(''candidate_id'', PStr ''old''), (''restorable'', PBool True), (''country'', PStr ''US''),
     (''connection_enabled'', PBool True)]"

definition run_op :: pydict where
  "run_op = [(''ok'', PBool True), (''operation_id'', PStr ''op1''), (''state'', PStr ''switching''),
     (''old_candidate_id'', PStr ''old''), (''new_candidate_id'', PStr ''new''),
     (''country'', PStr ''JP''), (''proxy_type'', PStr ''residential''), (''port'', PInt 7928),
     (''dns_verified'', PBool False), (''exit_verified'', PBool False), (''available'', PBool False),
     (''error_code'', PStr []), (''created_at'', PFloat (Fin 10)), (''expires_at'', PFloat (Fin 190)),
     (''idempotency_hash'', PStr (replicate 64 (CHR ''a''))),
     (''request_hash'', PStr (replicate 64 (CHR ''a''))),
     (''previous'', PDict [(''candidate_id'', PStr ''old''), (''country'', PStr ''US''),
        (''connection_enabled'', PBool True)])]"

definition run_staged :: coord where
  "run_staged = (save_operation run_op True fresh_state)\<lparr>co_live := {''op1''}\<rparr>"

definition all_verified :: pyval where
  "all_verified = PDict [(''dns_verified'', PBool True), (''exit_verified'', PBool True), (''available'', PBool True)]"

definition run_pending :: coord where
  "run_pending = snd (stage_finish run_op all_verified run_staged)"

definition run_committed :: coord where
  "run_committed = snd (commit 20 20 ''op1'' run_pending)"

definition run_final :: pydict where
  "run_final = the (find_operation ''op1'' run_committed)"

abbreviation "run_reachable \<equiv> coord_reachable sample_digest 180 60"

lemma run_begin_eq:
  "stage_begin sample_digest 180 run_clock ''op1'' run_request ''key-0001'' run_current {''s1''} fresh_state
    = (Proceed run_op, run_staged)"
proof -
  have rq: "rq_candidate run_request = ''new''" "rq_country run_request = ''JP''"
    "rq_type run_request = ''residential''" "rq_expected run_request = ''old''" by code_simp+
  have id: "py_strip (str_or_empty (dgetN run_current ''candidate_id'')) = ''old''"
    "py_strip ''s1'' = ''s1''" "is_true run_current ''restorable''" by code_simp+
  have op: "new_operation sample_digest 180 run_clock ''op1'' run_request ''key-0001'' ''old'' run_current = run_op"
    by (simp add: new_operation_def run_op_def rq run_clock_def sample_digest_def run_current_def
        PREVIOUS_FIELDS_def)
  have "mutation_allowed (at_lease run_clock) fresh_state = (True, fresh_state)" by code_simp
  moreover have "map_of (co_operations fresh_state) k = None" "co_live fresh_state = {}" for k
    by (simp_all add: fresh_state_def)
  ultimately show ?thesis
    by (simp add: stage_begin_def rq id op Let_def run_staged_def)
qed

lemma run_request_ok: "request_ok 180 run_clock ''op1'' run_request run_current fresh_state"
  by code_simp

lemma run_stage_reachable: "run_reachable (run_staged, [FStage run_op])"
  by (rule more [OF start]) (rule coord_step.stage_started [OF run_request_ok run_begin_eq])

lemma run_pending_step:
  "coord_step sample_digest 180 60 (run_staged, [FStage run_op]) (run_pending, [])"
proof -
  have "\<exists>r. stage_finish run_op all_verified run_staged = (Reply r, run_pending)"
  proof -
    have "case fst (stage_finish run_op all_verified run_staged) of Reply r \<Rightarrow> True | Proceed _ \<Rightarrow> False"
      by code_simp
    then obtain r where "fst (stage_finish run_op all_verified run_staged) = Reply r"
      by (auto split: outcome.splits)
    then show ?thesis unfolding run_pending_def by (metis prod.collapse)
  qed
  then obtain r where "stage_finish run_op all_verified run_staged = (Reply r, run_pending)" ..
  from coord_step.stage_done [OF _ this, of "[FStage run_op]"] show ?thesis by simp
qed

lemma run_pending_reachable: "run_reachable (run_pending, [])"
  by (rule more [OF run_stage_reachable run_pending_step])

lemma run_commit_step: "coord_step sample_digest 180 60 (run_pending, []) (run_committed, [])"
  unfolding run_committed_def by (rule coord_step.commit)

lemma run_committed_reachable: "run_reachable (run_committed, [])"
  by (rule more [OF run_pending_reachable run_commit_step])

theorem restart_finds_same_state_witness:
  "valid_document (document run_pending)
    \<and> open_coordinator (co_file run_pending) = Inr (run_pending\<lparr>co_live := {}\<rparr>)"
  by (rule restart_finds_same_state [OF run_pending_reachable sample_digest_ok])

theorem switch_and_lease_exclusive_witness:
  "length (filter (\<lambda>(h, op). blocking op) (co_operations run_pending)) \<le> 1 \<and> active_blocking run_pending"
proof -
  have "active_blocking run_pending" by code_simp
  with switch_and_lease_exclusive [OF run_pending_reachable sample_digest_ok] show ?thesis by blast
qed

lemma run_final_lookup: "map_of (co_operations run_committed) (sample_digest ''key-0001'') = Some run_final"
  by code_simp

theorem settled_operations_verified_witness: "verified run_final"
proof -
  have "(sample_digest ''key-0001'', run_final) \<in> set (co_operations run_committed)"
    using run_final_lookup by (rule map_of_SomeD)
  moreover have "op_state run_final = PStr ''committed''" by code_simp
  ultimately show ?thesis
    using settled_operations_verified [OF run_committed_reachable sample_digest_ok] by auto
qed

theorem finished_operations_final_witness:
  "map_of (co_operations (fst (expire_lease 50 run_committed, [] :: flight list))) (sample_digest ''key-0001'')
    = Some run_final"
proof (rule finished_operations_final [OF run_committed_reachable sample_digest_ok])
  show "coord_steps sample_digest 180 60 (run_committed, []) (expire_lease 50 run_committed, [])"
    by (rule r_into_rtranclp) (rule coord_step.expire)
  show "map_of (co_operations (fst (run_committed, [] :: flight list))) (sample_digest ''key-0001'') = Some run_final"
    using run_final_lookup by simp
  show "terminal run_final" by code_simp
qed

theorem stage_idempotent_witness:
  "\<exists>old. map_of (co_operations run_committed) (sample_digest ''key-0001'') = Some old \<and> op_id old = PStr ''op1''
    \<and> stage_begin sample_digest 180 run_clock ''op2'' run_request ''key-0001'' run_current {} run_committed
      = (Reply (if run_request = run_request then public old
                else reply_error ''idempotency_conflict''), run_committed)"
proof (rule stage_idempotent [OF start sample_digest_ok run_request_ok run_begin_eq])
  show "coord_steps sample_digest 180 60 (run_staged, FStage run_op # []) (run_committed, [])"
    using run_pending_step run_commit_step by (meson converse_rtranclp_into_rtranclp rtranclp.rtrancl_refl)
qed simp

theorem damaged_file_locks_witness:
  "\<exists>st. open_coordinator NotJson = Inr st \<and> locked_down st
    \<and> (\<forall>s. coord_steps sample_digest 180 60 (st, []) s \<longrightarrow> s = (st, []))"
proof -
  have "damaged NotJson" "NotJson \<noteq> NotUtf8" by (simp_all add: damaged_def)
  then show ?thesis using damaged_file_locks [of NotJson sample_digest 180 60] by blast
qed

theorem commit_guarded_witness:
  "find_operation ''op1'' run_pending = Some run_final
    \<or> (\<exists>op. find_operation ''op1'' run_pending = Some op \<and> co_active run_pending = Some op
         \<and> \<not> deadline_passed 20 op)"
proof -
  have "commit 20 20 ''op1'' run_pending = (fst (commit 20 20 ''op1'' run_pending), run_committed)"
    by (simp add: run_committed_def)
  moreover have "find_operation ''op1'' run_committed = Some run_final" by code_simp
  moreover have "op_state run_final = PStr ''committed''" by code_simp
  ultimately show ?thesis
    using commit_guarded [OF run_pending_reachable sample_digest_ok] by blast
qed

definition failed_switch :: "pydict \<times> coord" where
  "failed_switch = stage sample_digest 180 run_clock ''op1'' run_request ''key-0001'' run_current {''s1''}
     (undisturbed PNone) (undisturbed all_verified) fresh_state"

theorem stage_outcome_witness: "settled_as ''rolled_back'' (fst failed_switch) ''op1'' (snd failed_switch)"
proof -
  have "stage sample_digest 180 run_clock ''op1'' run_request ''key-0001'' run_current {''s1''}
     (undisturbed PNone) (undisturbed all_verified) fresh_state = (fst failed_switch, snd failed_switch)"
    by (simp add: failed_switch_def)
  from stage_outcome [OF run_begin_eq this] show ?thesis
    by (simp add: verified_def is_true_def validation_def all_verified_def)
qed

end
