(* ===== verification/Control_Api.thy ===== *)
theory Control_Api
  imports Main_Assignment
begin

text \<open>
  \<^verbatim>\<open>services/aimili-egress/control_api.py\<close>: the control interface on the loopback address.
  A request is turned into a plan, either an answer or one call of the manager with the way its
  result is reported, and \<open>handle\<close> runs the plan and turns exceptions into error answers; it
  also returns the list of manager calls made. The manager is a function from calls to results
  or exceptions, and the decoding of a body (UTF-8 and JSON) a function on its bytes.
\<close>

section \<open>Requests, answers and manager calls\<close>

record request =
  req_method :: string
  req_path :: string
  req_authorization :: string
  req_length :: string
  req_body :: string

record response =
  res_status :: int
  res_payload :: "pyval option"

datatype manager_call =
    SafeCandidateSnapshot | CapacitySnapshot | UpdateCapacity pyval pyval pyval
  | StandbySnapshot | RecoverySnapshot | UpdateRecovery pyval | RetryStandby int
  | SetStandbyConfig pyval | AssignStandby int string | SafeMainStatus | MainAssignmentSnapshot
  | AcquireLease string | RenewLease string | ReleaseLease string
  | StageMain string string string string string
  | RepairReplaceMain string string string string
  | CommitMain string | RollbackMain string | RepairCommitMain string
  | CountryCatalog | RefreshSnapshot | StartRefresh string
  | AccountStatus | UpdateAccount string string | VerifyAccount string string | IssueSession
  | SlotsSnapshot | CreateSlot string string string | SlotSnapshot int | AssignSlot int string string string
  | RotateSlot int | CheckSlot int | DeleteSlot int

text \<open>How the result of the call is reported.\<close>

datatype report = ReportData int | ReportSnapshot | ReportNoContent | ReportRefresh

datatype plan = Answer response | CallManager manager_call report

definition answer_error :: "int \<Rightarrow> string \<Rightarrow> response" where
  "answer_error status code = \<lparr> res_status = status,
     res_payload = Some (PDict [(''error'', PDict [(''code'', PStr code)])]) \<rparr>"

definition answer_data :: "int \<Rightarrow> pyval \<Rightarrow> response" where
  "answer_data status v = \<lparr> res_status = status, res_payload = Some (PDict [(''data'', v)]) \<rparr>"

definition API_PREFIX :: string where "API_PREFIX = ''/control/v1''"
definition MAX_REQUEST_BYTES :: int where "MAX_REQUEST_BYTES = 16 * 1024"

definition CAPABILITIES :: "string list" where
  "CAPABILITIES = [''candidates.read'', ''candidate-countries.read'', ''candidates.refresh.country'',
     ''candidates.refresh.status'', ''capacity.read'', ''capacity.update'', ''slots.create'', ''slots.read'',
     ''slots.rotate'', ''slots.check'', ''slots.assign'', ''slots.delete'', ''standbys.read'',
     ''standbys.configure'', ''standbys.assign'', ''standbys.retry'', ''recovery.read'', ''recovery.update'',
     ''main.read'', ''main.assignment.read'', ''main.assign'', ''main.assign.commit'',
     ''main.assign.rollback'', ''main.assign.repair-commit'', ''main.assign.repair-replace'',
     ''mutation-leases.acquire'', ''mutation-leases.renew'', ''mutation-leases.release'', ''admin.read'',
     ''admin.verify'', ''admin.update'', ''admin.sessions.issue'']"

section \<open>Authorization and bodies\<close>

definition authorized :: "string \<Rightarrow> string \<Rightarrow> pyexc + bool" where
  "authorized token header = (case py_partition (CHR '' '') header of (scheme, sep, v) \<Rightarrow>
     if sep \<and> scheme = ''Bearer'' \<and> v \<noteq> [] then compare_digest v token else Inr False)"

definition read_object ::
  "(string \<Rightarrow> pyval option) \<Rightarrow> string set \<Rightarrow> request \<Rightarrow> pyexc + pydict" where
  "read_object decode allowed req = (case int_of_str (req_length req) of
     None \<Rightarrow> Inl ValueError
   | Some len \<Rightarrow>
       if len < 0 \<or> MAX_REQUEST_BYTES < len then Inl ValueError
       else (case decode (if len \<noteq> 0 then take (nat len) (req_body req) else ''{}'') of
          Some (PDict payload) \<Rightarrow> if dkeys payload \<subseteq> allowed then Inr payload else Inl ValueError
        | _ \<Rightarrow> Inl ValueError))"

definition text_field :: "pydict \<Rightarrow> string \<Rightarrow> string" where
  "text_field payload k = py_strip (str_or_empty (dgetN payload k))"

definition raw_field :: "pydict \<Rightarrow> string \<Rightarrow> string" where
  "raw_field payload k = str_or_empty (dgetN payload k)"

definition country_ok :: "string \<Rightarrow> bool" where
  "country_ok c = (length c = 2 \<and> list_all ascii_upper_char c)"

definition proxy_type_ok :: "string \<Rightarrow> bool" where
  "proxy_type_ok t = (t = ''residential'' \<or> t = ''datacenter'')"

definition candidate_ok :: "string \<Rightarrow> bool" where
  "candidate_ok c = (c \<noteq> [] \<and> length c \<le> 256)"

section \<open>Routes\<close>

definition after_prefix :: "string \<Rightarrow> string \<Rightarrow> string option" where
  "after_prefix p s = (if starts_with p s then Some (drop (length p) s) else None)"

definition slot_route :: "string \<Rightarrow> (int \<times> string) option" where
  "slot_route path = (case after_prefix ''/control/v1/slots/'' path of
     None \<Rightarrow> None
   | Some rest \<Rightarrow>
       let digits = takeWhile digit_char rest; tail = dropWhile digit_char rest in
       if digits = [] then None
       else if tail = [] then Some (int (digits_val digits), [])
       else if tail \<in> {''/rotate'', ''/check'', ''/assign''}
       then Some (int (digits_val digits), tl tail) else None)"

definition main_assignment_action :: "string \<Rightarrow> (string \<times> string) option" where
  "main_assignment_action path = (case after_prefix ''/control/v1/main/assign/'' path of
     None \<Rightarrow> None
   | Some rest \<Rightarrow>
       let i = takeWhile identifier_char rest; tail = dropWhile identifier_char rest in
       if 8 \<le> length i \<and> length i \<le> 128
         \<and> tail \<in> {''/commit'', ''/rollback'', ''/repair-commit'', ''/repair-replace''}
       then Some (i, tl tail) else None)"

definition mutation_lease_action :: "string \<Rightarrow> (string \<times> string) option" where
  "mutation_lease_action path = (case after_prefix ''/control/v1/mutation-leases/'' path of
     None \<Rightarrow> None
   | Some rest \<Rightarrow>
       let i = takeWhile identifier_char rest; tail = dropWhile identifier_char rest in
       if 32 \<le> length i \<and> length i \<le> 128 \<and> tail \<in> {[], ''/renew''}
       then Some (i, if tail = [] then ''release'' else tl tail) else None)"

text \<open>\<open>/control/v1/standbys/(\d+)/suffix\<close>.\<close>

definition standby_route :: "string \<Rightarrow> string \<Rightarrow> int option" where
  "standby_route suffix path = (case after_prefix ''/control/v1/standbys/'' path of
     None \<Rightarrow> None
   | Some rest \<Rightarrow>
       let digits = takeWhile digit_char rest; tail = dropWhile digit_char rest in
       if digits \<noteq> [] \<and> tail = CHR ''/'' # suffix then Some (int (digits_val digits)) else None)"

section \<open>The result of the manager\<close>

definition error_status :: "string \<Rightarrow> int" where
  "error_status code =
     (if code \<in> {''slot_not_found'', ''candidate_not_found'', ''operation_not_found'', ''lease_not_found''}
      then 404
      else if code \<in> {''invalid_request'', ''candidate_mismatch'', ''invalid_recovery_settings''} then 400
      else if code \<in> {''rollback_failed'', ''repair_commit_failed'', ''repair_replace_failed''} then 503
      else 409)"

definition refused :: "pyval \<Rightarrow> bool" where
  "refused result = (case result of PDict d \<Rightarrow> dget d ''ok'' = Some (PBool False) | _ \<Rightarrow> False)"

definition manager_result :: "pyval \<Rightarrow> int \<Rightarrow> response" where
  "manager_result result success = (case result of
     PDict d \<Rightarrow>
       if refused result then
         (let code = py_str (py_or (dgetN d ''error_code'') (PStr ''operation_failed''));
              rejected = (case dget d ''candidate_rejected'' of
                Some (PBool b) \<Rightarrow> [(''candidateRejected'', PBool b)] | _ \<Rightarrow> [])
          in \<lparr> res_status = error_status code,
               res_payload = Some (PDict [(''error'', PDict ((''code'', PStr code) # rejected))]) \<rparr>)
       else answer_data success (PDict (dpop d ''ok''))
   | _ \<Rightarrow> answer_data success result)"

definition refresh_result :: "pyval \<Rightarrow> response" where
  "refresh_result result = (case result of
     PDict d \<Rightarrow>
       if dgetN d ''state'' = PStr ''failed'' then
         (let code = py_str (py_or (dgetN d ''errorCode'') (PStr ''refresh_failed'')) in
          if code \<in> {''maintenance_busy'', ''operation_busy''} then answer_error 409 code
          else if code = ''invalid_country'' then answer_error 400 code
          else answer_error 500 ''refresh_failed'')
       else manager_result result 202
   | _ \<Rightarrow> manager_result result 202)"

definition report_result :: "report \<Rightarrow> pyval \<Rightarrow> response" where
  "report_result mode result = (case mode of
     ReportData success \<Rightarrow> manager_result result success
   | ReportSnapshot \<Rightarrow> (case result of
        PDict d \<Rightarrow> answer_data 200 (PDict (dpop d ''ok''))
      | _ \<Rightarrow> answer_error 500 ''invalid_response'')
   | ReportNoContent \<Rightarrow>
        if refused result then manager_result result 200
        else \<lparr> res_status = 204, res_payload = None \<rparr>
   | ReportRefresh \<Rightarrow> refresh_result result)"

abbreviation ask :: "manager_call \<Rightarrow> pyexc + plan" where
  "ask c \<equiv> Inr (CallManager c (ReportData 200))"

section \<open>The handlers that read a body\<close>

definition plan_capacity :: "pydict \<Rightarrow> plan" where
  "plan_capacity payload =
     (let conflict = (\<lambda>k. dhas payload k
        \<and> \<not> py_eq (dgetN payload k) (dgetN payload ''candidatePoolCapacity'')) in
      if dhas payload ''candidatePoolCapacity'' \<and> (conflict ''targetValidNodeCount'' \<or> conflict ''maxValidNodeCount'')
      then Answer (manager_result (PDict (reply_error ''invalid_capacity'')) 200)
      else CallManager (UpdateCapacity (dgetN payload ''targetValidNodeCount'')
             (dget_or payload ''candidatePoolCapacity'' (dgetN payload ''maxValidNodeCount''))
             (dgetN payload ''regularExitSlots'')) (ReportData 200))"

definition plan_standby_assign :: "int \<Rightarrow> pydict \<Rightarrow> pyexc + plan" where
  "plan_standby_assign n payload = (let c = text_field payload ''candidateId'' in
     if \<not> candidate_ok c then Inl ValueError else ask (AssignStandby n c))"

definition plan_lease :: "pydict \<Rightarrow> pyexc + plan" where
  "plan_lease payload = (let key = raw_field payload ''idempotencyKey'' in
     if \<not> lease_key_ok key then Inl ValueError
     else Inr (CallManager (AcquireLease key) (ReportData 201)))"

definition switch_key_ok :: "string \<Rightarrow> bool" where
  "switch_key_ok key = (8 \<le> length key \<and> length key \<le> 256
     \<and> list_all (\<lambda>c. 33 \<le> chr_code c \<and> chr_code c \<noteq> 127) key)"

definition plan_stage :: "pydict \<Rightarrow> pyexc + plan" where
  "plan_stage payload =
     (let c = text_field payload ''candidateId''; country = py_upper (text_field payload ''country'');
          ty = py_lower (text_field payload ''proxyType'');
          expected = text_field payload ''expectedCurrentCandidateId'';
          key = text_field payload ''idempotencyKey'' in
      if \<not> candidate_ok c \<or> \<not> country_ok country \<or> \<not> proxy_type_ok ty \<or> 256 < length expected
        \<or> \<not> switch_key_ok key then Inl ValueError
      else Inr (CallManager (StageMain c country ty expected key) (ReportData 202)))"

definition plan_replace :: "string \<Rightarrow> pydict \<Rightarrow> pyexc + plan" where
  "plan_replace i payload =
     (let c = text_field payload ''candidateId''; country = py_upper (text_field payload ''country'');
          ty = py_lower (text_field payload ''proxyType'') in
      if \<not> candidate_ok c \<or> \<not> country_ok country \<or> \<not> proxy_type_ok ty then Inl ValueError
      else ask (RepairReplaceMain i c country ty))"

definition plan_refresh :: "pydict \<Rightarrow> pyexc + plan" where
  "plan_refresh payload = (let country = py_upper (text_field payload ''country'') in
     if country \<noteq> ''ALL'' \<and> \<not> country_ok country then Inl ValueError
     else Inr (CallManager (StartRefresh country) ReportRefresh))"

definition plan_create_slot :: "pydict \<Rightarrow> pyexc + plan" where
  "plan_create_slot payload =
     (let c = text_field payload ''candidateId''; country = py_upper (text_field payload ''country'');
          ty = py_lower (text_field payload ''proxyType'') in
      if \<not> country_ok country \<or> \<not> proxy_type_ok ty \<or> 256 < length c then Inl ValueError
      else Inr (CallManager (CreateSlot country ty c) (ReportData 201)))"

definition plan_slot_assign :: "int \<Rightarrow> pydict \<Rightarrow> pyexc + plan" where
  "plan_slot_assign slot payload =
     (let c = text_field payload ''candidateId''; country = py_upper (text_field payload ''country'');
          ty = py_lower (text_field payload ''proxyType'') in
      if \<not> candidate_ok c \<or> \<not> country_ok country \<or> \<not> proxy_type_ok ty then Inl ValueError
      else ask (AssignSlot slot c country ty))"

section \<open>Dispatch\<close>

text \<open>The reading routes that only report what the manager returns, by their path.\<close>

definition get_routes :: "(string \<times> manager_call \<times> report) list" where
  "get_routes =
    [(''/candidates'', SafeCandidateSnapshot, ReportData 200),
     (''/capacity'', CapacitySnapshot, ReportData 200),
     (''/standbys'', StandbySnapshot, ReportData 200),
     (''/recovery'', RecoverySnapshot, ReportData 200),
     (''/main'', SafeMainStatus, ReportData 200),
     (''/main/assignment'', MainAssignmentSnapshot, ReportSnapshot),
     (''/candidates/countries'', CountryCatalog, ReportData 200),
     (''/candidates/refresh'', RefreshSnapshot, ReportData 200),
     (''/admin'', AccountStatus, ReportData 200),
     (''/slots'', SlotsSnapshot, ReportData 200)]"

text \<open>The routes with a fixed path that read a body: the allowed fields and what follows.\<close>

definition body_routes :: "((string \<times> string) \<times> string set \<times> (pydict \<Rightarrow> pyexc + plan)) list" where
  "body_routes =
    [((''PUT'', ''/capacity''), {''candidatePoolCapacity'', ''targetValidNodeCount'', ''maxValidNodeCount'',
        ''regularExitSlots''}, \<lambda>p. Inr (plan_capacity p)),
     ((''PUT'', ''/recovery''), {''settings''}, \<lambda>p. ask (UpdateRecovery (dgetN p ''settings''))),
     ((''PUT'', ''/standbys''), {''standbys''}, \<lambda>p. ask (SetStandbyConfig (dgetN p ''standbys''))),
     ((''POST'', ''/mutation-leases''), {''idempotencyKey''}, plan_lease),
     ((''POST'', ''/main/assign''), {''candidateId'', ''country'', ''proxyType'',
        ''expectedCurrentCandidateId'', ''idempotencyKey''}, plan_stage),
     ((''POST'', ''/candidates/refresh''), {''country''}, plan_refresh),
     ((''PUT'', ''/admin''), {''username'', ''password''},
        \<lambda>p. Inr (CallManager (UpdateAccount (raw_field p ''username'') (raw_field p ''password'')) ReportNoContent)),
     ((''POST'', ''/admin/verify''), {''username'', ''password''},
        \<lambda>p. Inr (CallManager (VerifyAccount (raw_field p ''username'') (raw_field p ''password'')) ReportNoContent)),
     ((''POST'', ''/admin/sessions''), {}, \<lambda>p. Inr (CallManager IssueSession (ReportData 201))),
     ((''POST'', ''/slots''), {''country'', ''proxyType'', ''candidateId''}, plan_create_slot)]"

definition main_action_plan ::
  "(string \<Rightarrow> pyval option) \<Rightarrow> request \<Rightarrow> string \<Rightarrow> string \<Rightarrow> pyexc + plan" where
  "main_action_plan decode req i action =
     (if action = ''repair-replace''
      then err_bind (read_object decode {''candidateId'', ''country'', ''proxyType''} req) (plan_replace i)
      else err_bind (read_object decode {} req) (\<lambda>_.
        ask (if action = ''commit'' then CommitMain i
             else if action = ''rollback'' then RollbackMain i else RepairCommitMain i)))"

definition slot_plan ::
  "(string \<Rightarrow> pyval option) \<Rightarrow> request \<Rightarrow> int \<Rightarrow> string \<Rightarrow> pyexc + plan" where
  "slot_plan decode req slot action =
     (if req_method req = ''GET'' \<and> action = [] then ask (SlotSnapshot slot)
      else if req_method req = ''POST'' \<and> action \<in> {''rotate'', ''check'', ''assign''}
      then (if action = ''assign''
            then err_bind (read_object decode {''candidateId'', ''country'', ''proxyType''} req) (plan_slot_assign slot)
            else err_bind (read_object decode {} req) (\<lambda>_.
              ask (if action = ''rotate'' then RotateSlot slot else CheckSlot slot)))
      else if req_method req = ''DELETE'' \<and> action = []
      then Inr (CallManager (DeleteSlot slot) ReportNoContent)
      else Inr (Answer (answer_error 404 ''not_found'')))"

text \<open>The routes with a parameter in the path.\<close>

definition parameter_routes :: "(string \<Rightarrow> pyval option) \<Rightarrow> request \<Rightarrow> string \<Rightarrow> pyexc + plan" where
  "parameter_routes decode req path =
     (case (if req_method req = ''POST'' then standby_route ''retry'' path else None) of
        Some n \<Rightarrow> err_bind (read_object decode {} req) (\<lambda>_. ask (RetryStandby n))
      | None \<Rightarrow>
     (case (if req_method req = ''POST'' then standby_route ''assign'' path else None) of
        Some n \<Rightarrow> err_bind (read_object decode {''candidateId''} req) (plan_standby_assign n)
      | None \<Rightarrow>
     (case mutation_lease_action path of
        Some (i, action) \<Rightarrow>
          if req_method req = ''POST'' \<and> action = ''renew''
          then err_bind (read_object decode {} req) (\<lambda>_. ask (RenewLease i))
          else if req_method req = ''DELETE'' \<and> action = ''release'' then ask (ReleaseLease i)
          else Inr (Answer (answer_error 404 ''not_found''))
      | None \<Rightarrow>
     (case (if req_method req = ''POST'' then main_assignment_action path else None) of
        Some (i, action) \<Rightarrow> main_action_plan decode req i action
      | None \<Rightarrow>
     (case slot_route path of
        Some (slot, action) \<Rightarrow> slot_plan decode req slot action
      | None \<Rightarrow> Inr (Answer (answer_error 404 ''not_found'')))))))"

definition capabilities_answer :: response where
  "capabilities_answer = answer_data 200 (PDict [(''apiVersion'', PStr ''v1''),
     (''serviceVersion'', PStr ''custom-v1''), (''capabilities'', PList (map PStr CAPABILITIES))])"

definition dispatch ::
  "(string \<Rightarrow> pyval option) \<Rightarrow> string \<Rightarrow> request \<Rightarrow> pyexc + plan" where
  "dispatch decode token req =
     err_bind (authorized token (req_authorization req)) (\<lambda>ok.
     if \<not> ok then Inr (Answer (answer_error 401 ''unauthorized''))
     else let path = fst (py_partition (CHR ''?'') (req_path req)) in
       case after_prefix API_PREFIX path of
         None \<Rightarrow> Inr (Answer (answer_error 404 ''not_found''))
       | Some route \<Rightarrow>
           if req_method req = ''GET'' \<and> route = ''/capabilities'' then Inr (Answer capabilities_answer)
           else (case (if req_method req = ''GET'' then map_of get_routes route else None) of
             Some (c, mode) \<Rightarrow> Inr (CallManager c mode)
           | None \<Rightarrow>
               (case map_of body_routes (req_method req, route) of
                  Some (allowed, follow) \<Rightarrow> err_bind (read_object decode allowed req) follow
                | None \<Rightarrow> parameter_routes decode req path)))"

text \<open>\<open>_handle\<close>: a \<open>ValueError\<close> is a bad request, any other exception an internal error.
  The second result lists the calls made on the manager.\<close>

definition exception_answer :: "pyexc \<Rightarrow> response" where
  "exception_answer e = (if e = ValueError then answer_error 400 ''invalid_request''
     else answer_error 500 ''internal_error'')"

definition handle ::
  "(string \<Rightarrow> pyval option) \<Rightarrow> string \<Rightarrow> (manager_call \<Rightarrow> pyexc + pyval) \<Rightarrow> request
    \<Rightarrow> response \<times> manager_call list" where
  "handle decode token manager req = (case dispatch decode token req of
     Inl e \<Rightarrow> (exception_answer e, [])
   | Inr (Answer r) \<Rightarrow> (r, [])
   | Inr (CallManager c mode) \<Rightarrow> (case manager c of
       Inl e \<Rightarrow> (exception_answer e, [c]) | Inr v \<Rightarrow> (report_result mode v, [c])))"

section \<open>Starting the server\<close>

text \<open>\<open>is_loopback\<close> is \<open>ipaddress.ip_address(host).is_loopback\<close>, undefined where that raises.\<close>

record control_server =
  cs_host :: string
  cs_port :: int
  cs_token :: string

definition create_server ::
  "(string \<Rightarrow> bool option) \<Rightarrow> string \<Rightarrow> int \<Rightarrow> string \<Rightarrow> pyexc + control_server" where
  "create_server is_loopback host port token = (case is_loopback host of
     None \<Rightarrow> Inl ValueError
   | Some loopback \<Rightarrow>
       if \<not> loopback \<or> \<not> (0 \<le> port \<and> port \<le> 65535) then Inl ValueError
       else if py_strip token = [] then Inl ValueError
       else Inr \<lparr> cs_host = host, cs_port = port, cs_token = py_strip token \<rparr>)"

definition start_control_server ::
  "(string \<Rightarrow> bool option) \<Rightarrow> string \<Rightarrow> string option \<Rightarrow> pyexc + control_server" where
  "start_control_server is_loopback address token_file = (case py_rpartition (CHR '':'') address of
     (host, sep, raw_port) \<Rightarrow>
       if \<not> sep \<or> host = [] then Inl ValueError
       else (case (int_of_str raw_port, token_file) of
         (Some port, Some text) \<Rightarrow> create_server is_loopback host port (py_strip text)
       | _ \<Rightarrow> Inl ValueError))"

section \<open>What reaches the manager\<close>

definition identifier_ok :: "nat \<Rightarrow> nat \<Rightarrow> string \<Rightarrow> bool" where
  "identifier_ok lo hi i = (lo \<le> length i \<and> length i \<le> hi \<and> list_all identifier_char i)"

text \<open>The calls that the interface is meant to let through.\<close>

fun call_ok :: "manager_call \<Rightarrow> bool" where
  "call_ok (StageMain c country ty expected key) = (candidate_ok c \<and> country_ok country \<and> proxy_type_ok ty
     \<and> length expected \<le> 256 \<and> switch_key_ok key \<and> py_strip c = c \<and> py_strip expected = expected)"
| "call_ok (RepairReplaceMain i c country ty) = (identifier_ok 8 128 i \<and> candidate_ok c
     \<and> country_ok country \<and> proxy_type_ok ty \<and> py_strip c = c)"
| "call_ok (CommitMain i) = identifier_ok 8 128 i"
| "call_ok (RollbackMain i) = identifier_ok 8 128 i"
| "call_ok (RepairCommitMain i) = identifier_ok 8 128 i"
| "call_ok (AcquireLease key) = lease_key_ok key"
| "call_ok (RenewLease i) = identifier_ok 32 128 i"
| "call_ok (ReleaseLease i) = identifier_ok 32 128 i"
| "call_ok (StartRefresh country) = (country = ''ALL'' \<or> country_ok country)"
| "call_ok (CreateSlot country ty c) = (country_ok country \<and> proxy_type_ok ty \<and> length c \<le> 256)"
| "call_ok (AssignSlot n c country ty) = (0 \<le> n \<and> candidate_ok c \<and> country_ok country \<and> proxy_type_ok ty)"
| "call_ok (AssignStandby n c) = (0 \<le> n \<and> candidate_ok c)"
| "call_ok (RetryStandby n) = (0 \<le> n)"
| "call_ok (SlotSnapshot n) = (0 \<le> n)"
| "call_ok (RotateSlot n) = (0 \<le> n)"
| "call_ok (CheckSlot n) = (0 \<le> n)"
| "call_ok (DeleteSlot n) = (0 \<le> n)"
| "call_ok _ = True"

definition plan_ok :: "pyexc + plan \<Rightarrow> bool" where
  "plan_ok p = (case p of
     Inr (CallManager c mode) \<Rightarrow> call_ok c \<and> (mode = ReportSnapshot \<longrightarrow> c = MainAssignmentSnapshot)
   | _ \<Rightarrow> True)"

lemma plan_ok_simps [simp]:
  "plan_ok (Inl e)" "plan_ok (Inr (Answer r))"
  "plan_ok (Inr (CallManager c mode)) = (call_ok c \<and> (mode = ReportSnapshot \<longrightarrow> c = MainAssignmentSnapshot))"
  by (simp_all add: plan_ok_def)

lemma plan_ok_bind: "(\<And>x. m = Inr x \<Longrightarrow> plan_ok (f x)) \<Longrightarrow> plan_ok (err_bind m f)"
  by (cases m) auto

lemma plan_ok_body [simp]: "(\<And>x. plan_ok (f x)) \<Longrightarrow> plan_ok (err_bind m f)"
  by (rule plan_ok_bind)

lemma text_field_strip [simp]: "py_strip (text_field p k) = text_field p k"
  by (simp add: text_field_def)

lemmas plan_defs = plan_capacity_def plan_standby_assign_def plan_lease_def plan_stage_def
  plan_replace_def plan_refresh_def plan_create_slot_def plan_slot_assign_def Let_def

lemma identifier_span:
  "takeWhile identifier_char r = i \<Longrightarrow> list_all identifier_char i"
  by (auto simp: list_all_iff dest: set_takeWhileD)

lemma route_facts:
  "slot_route path = Some (n, a) \<Longrightarrow> 0 \<le> n"
  "standby_route sfx path = Some n \<Longrightarrow> 0 \<le> n"
  "main_assignment_action path = Some (i, a) \<Longrightarrow> identifier_ok 8 128 i"
  "mutation_lease_action path = Some (i, a) \<Longrightarrow> identifier_ok 32 128 i"
  by (auto simp: slot_route_def standby_route_def main_assignment_action_def mutation_lease_action_def
      identifier_ok_def Let_def identifier_span split: option.splits if_splits)

lemma list_all_lookup: "list_all P m \<Longrightarrow> map_of m k = Some v \<Longrightarrow> P (k, v)"
  by (auto simp: list_all_iff dest: map_of_SomeD)

lemma get_routes_ok: "map_of get_routes r = Some (c, mode) \<Longrightarrow> plan_ok (Inr (CallManager c mode))"
proof -
  have "list_all (\<lambda>(r, c, mode). plan_ok (Inr (CallManager c mode))) get_routes"
    by (simp add: get_routes_def)
  then show "map_of get_routes r = Some (c, mode) \<Longrightarrow> plan_ok (Inr (CallManager c mode))"
    using list_all_lookup by fastforce
qed

lemma body_plans_ok:
  "plan_ok (Inr (plan_capacity p))"
  "0 \<le> n \<Longrightarrow> plan_ok (plan_standby_assign n p)" "0 \<le> n \<Longrightarrow> plan_ok (plan_slot_assign n p)"
  "identifier_ok 8 128 i \<Longrightarrow> plan_ok (plan_replace i p)"
  "plan_ok (plan_lease p)" "plan_ok (plan_stage p)" "plan_ok (plan_refresh p)" "plan_ok (plan_create_slot p)"
  by (simp_all add: plan_defs)

lemma body_routes_ok: "map_of body_routes r = Some (allowed, follow) \<Longrightarrow> plan_ok (err_bind m follow)"
proof -
  have "list_all (\<lambda>(r, allowed, follow). \<forall>p. plan_ok (follow p)) body_routes"
    by (simp add: body_routes_def body_plans_ok)
  then show "map_of body_routes r = Some (allowed, follow) \<Longrightarrow> plan_ok (err_bind m follow)"
    using list_all_lookup [of _ body_routes r "(allowed, follow)"] by (intro plan_ok_bind) auto
qed

lemma main_action_plan_ok: "identifier_ok 8 128 i \<Longrightarrow> plan_ok (main_action_plan decode req i action)"
  by (simp add: main_action_plan_def body_plans_ok)

lemma slot_plan_ok: "0 \<le> n \<Longrightarrow> plan_ok (slot_plan decode req n action)"
  by (simp add: slot_plan_def body_plans_ok)

lemma option_case_ok:
  "(\<And>x. m = Some x \<Longrightarrow> plan_ok (f x)) \<Longrightarrow> plan_ok q \<Longrightarrow> plan_ok (case m of Some x \<Rightarrow> f x | None \<Rightarrow> q)"
  by (cases m) simp_all

lemma parameter_routes_ok: "plan_ok (parameter_routes decode req path)"
  unfolding parameter_routes_def
  by (intro option_case_ok)
    (auto simp: body_plans_ok route_facts main_action_plan_ok slot_plan_ok split: if_splits)

lemma dispatch_ok: "plan_ok (dispatch decode token req)"
  unfolding dispatch_def Let_def
proof (rule plan_ok_bind)
  fix ok
  let ?path = "fst (py_partition (CHR ''?'') (req_path req))"
  let ?rest = "\<lambda>route. case map_of body_routes (req_method req, route) of
      Some (allowed, follow) \<Rightarrow> err_bind (read_object decode allowed req) follow
    | None \<Rightarrow> parameter_routes decode req ?path"
  have rest: "plan_ok (?rest route)" for route
    by (rule option_case_ok [OF _ parameter_routes_ok]) (auto intro: body_routes_ok)
  have get: "plan_ok (case (if req_method req = ''GET'' then map_of get_routes route else None) of
      Some (c, mode) \<Rightarrow> Inr (CallManager c mode) | None \<Rightarrow> ?rest route)" for route
    by (rule option_case_ok [OF _ rest])
      (auto simp del: plan_ok_simps(3) intro: get_routes_ok split: if_splits)
  show "plan_ok (if \<not> ok then Inr (Answer (answer_error 401 ''unauthorized''))
     else case after_prefix API_PREFIX ?path of
         None \<Rightarrow> Inr (Answer (answer_error 404 ''not_found''))
       | Some route \<Rightarrow>
           if req_method req = ''GET'' \<and> route = ''/capabilities'' then Inr (Answer capabilities_answer)
           else (case (if req_method req = ''GET'' then map_of get_routes route else None) of
             Some (c, mode) \<Rightarrow> Inr (CallManager c mode) | None \<Rightarrow> ?rest route))"
    using get by (simp split: option.split)
qed

lemma handle_calls:
  assumes "c \<in> set (snd (handle decode token manager req))"
  obtains mode where "dispatch decode token req = Inr (CallManager c mode)"
  using assms by (auto simp: handle_def split: sum.splits plan.splits)

section \<open>What a request asks for\<close>

text \<open>The documented requests, restated without the routing of the code: method and path (up to the
  query), a JSON object of at most 16 KiB with no other field than those of the route, and the call it
  stands for.\<close>

definition requests :: "request \<Rightarrow> string \<Rightarrow> string \<Rightarrow> bool" where
  "requests req m r \<longleftrightarrow> req_method req = m \<and> fst (py_partition (CHR ''?'') (req_path req)) = ''/control/v1'' @ r"

definition carries :: "(string \<Rightarrow> pyval option) \<Rightarrow> request \<Rightarrow> string set \<Rightarrow> pydict \<Rightarrow> bool" where
  "carries decode req allowed p \<longleftrightarrow> (\<exists>len. int_of_str (req_length req) = Some len \<and> 0 \<le> len \<and> len \<le> 16384
     \<and> decode (if len = 0 then ''{}'' else take (nat len) (req_body req)) = Some (PDict p) \<and> dkeys p \<subseteq> allowed)"

definition trimmed :: "pydict \<Rightarrow> string \<Rightarrow> string" where
  "trimmed p k = py_strip (str_or_empty (dgetN p k))"

definition numbered :: "int \<Rightarrow> string \<Rightarrow> bool" where
  "numbered n ds \<longleftrightarrow> ds \<noteq> [] \<and> list_all digit_char ds \<and> n = int (digits_val ds)"

fun asked_for :: "(string \<Rightarrow> pyval option) \<Rightarrow> request \<Rightarrow> manager_call \<Rightarrow> bool" where
  "asked_for decode req SafeCandidateSnapshot = requests req ''GET'' ''/candidates''"
| "asked_for decode req CapacitySnapshot = requests req ''GET'' ''/capacity''"
| "asked_for decode req StandbySnapshot = requests req ''GET'' ''/standbys''"
| "asked_for decode req RecoverySnapshot = requests req ''GET'' ''/recovery''"
| "asked_for decode req SafeMainStatus = requests req ''GET'' ''/main''"
| "asked_for decode req MainAssignmentSnapshot = requests req ''GET'' ''/main/assignment''"
| "asked_for decode req CountryCatalog = requests req ''GET'' ''/candidates/countries''"
| "asked_for decode req RefreshSnapshot = requests req ''GET'' ''/candidates/refresh''"
| "asked_for decode req AccountStatus = requests req ''GET'' ''/admin''"
| "asked_for decode req SlotsSnapshot = requests req ''GET'' ''/slots''"
| "asked_for decode req (UpdateCapacity t m s) = (\<exists>p. requests req ''PUT'' ''/capacity'' \<and> carries decode req {''candidatePoolCapacity'', ''targetValidNodeCount'', ''maxValidNodeCount'', ''regularExitSlots''} p
     \<and> t = dgetN p ''targetValidNodeCount''
     \<and> s = dgetN p ''regularExitSlots''
     \<and> m = (if dhas p ''candidatePoolCapacity'' then dgetN p ''candidatePoolCapacity'' else dgetN p ''maxValidNodeCount'')
     \<and> (\<forall>k \<in> {''targetValidNodeCount'', ''maxValidNodeCount''}. dhas p ''candidatePoolCapacity'' \<and> dhas p k
          \<longrightarrow> py_eq (dgetN p k) (dgetN p ''candidatePoolCapacity'')))"
| "asked_for decode req (UpdateRecovery v) = (\<exists>p. requests req ''PUT'' ''/recovery'' \<and> carries decode req {''settings''} p
     \<and> v = dgetN p ''settings'')"
| "asked_for decode req (SetStandbyConfig v) = (\<exists>p. requests req ''PUT'' ''/standbys'' \<and> carries decode req {''standbys''} p
     \<and> v = dgetN p ''standbys'')"
| "asked_for decode req (AcquireLease key) = (\<exists>p. requests req ''POST'' ''/mutation-leases'' \<and> carries decode req {''idempotencyKey''} p
     \<and> key = str_or_empty (dgetN p ''idempotencyKey''))"
| "asked_for decode req (StageMain c country ty expected key) = (\<exists>p. requests req ''POST'' ''/main/assign'' \<and> carries decode req {''candidateId'', ''country'', ''proxyType'', ''expectedCurrentCandidateId'', ''idempotencyKey''} p
     \<and> c = trimmed p ''candidateId''
     \<and> country = py_upper (trimmed p ''country'')
     \<and> ty = py_lower (trimmed p ''proxyType'')
     \<and> expected = trimmed p ''expectedCurrentCandidateId''
     \<and> key = trimmed p ''idempotencyKey'')"
| "asked_for decode req (StartRefresh country) = (\<exists>p. requests req ''POST'' ''/candidates/refresh'' \<and> carries decode req {''country''} p
     \<and> country = py_upper (trimmed p ''country''))"
| "asked_for decode req (UpdateAccount name word) = (\<exists>p. requests req ''PUT'' ''/admin'' \<and> carries decode req {''username'', ''password''} p
     \<and> name = str_or_empty (dgetN p ''username'')
     \<and> word = str_or_empty (dgetN p ''password''))"
| "asked_for decode req (VerifyAccount name word) = (\<exists>p. requests req ''POST'' ''/admin/verify'' \<and> carries decode req {''username'', ''password''} p
     \<and> name = str_or_empty (dgetN p ''username'')
     \<and> word = str_or_empty (dgetN p ''password''))"
| "asked_for decode req IssueSession = (\<exists>p. requests req ''POST'' ''/admin/sessions'' \<and> carries decode req {} p)"
| "asked_for decode req (CreateSlot country ty c) = (\<exists>p. requests req ''POST'' ''/slots'' \<and> carries decode req {''country'', ''proxyType'', ''candidateId''} p
     \<and> country = py_upper (trimmed p ''country'')
     \<and> ty = py_lower (trimmed p ''proxyType'')
     \<and> c = trimmed p ''candidateId'')"
| "asked_for decode req (RetryStandby n) = (\<exists>ds p. numbered n ds \<and> requests req ''POST'' (''/standbys/'' @ ds @ ''/retry'') \<and> carries decode req {} p)"
| "asked_for decode req (AssignStandby n c) = (\<exists>ds p. numbered n ds \<and> requests req ''POST'' (''/standbys/'' @ ds @ ''/assign'') \<and> carries decode req {''candidateId''} p
     \<and> c = trimmed p ''candidateId'')"
| "asked_for decode req (RenewLease i) = (\<exists>p. requests req ''POST'' (''/mutation-leases/'' @ i @ ''/renew'') \<and> carries decode req {} p)"
| "asked_for decode req (ReleaseLease i) = requests req ''DELETE'' (''/mutation-leases/'' @ i)"
| "asked_for decode req (CommitMain i) = (\<exists>p. requests req ''POST'' (''/main/assign/'' @ i @ ''/commit'') \<and> carries decode req {} p)"
| "asked_for decode req (RollbackMain i) = (\<exists>p. requests req ''POST'' (''/main/assign/'' @ i @ ''/rollback'') \<and> carries decode req {} p)"
| "asked_for decode req (RepairCommitMain i) = (\<exists>p. requests req ''POST'' (''/main/assign/'' @ i @ ''/repair-commit'') \<and> carries decode req {} p)"
| "asked_for decode req (RepairReplaceMain i c country ty) = (\<exists>p. requests req ''POST'' (''/main/assign/'' @ i @ ''/repair-replace'') \<and> carries decode req {''candidateId'', ''country'', ''proxyType''} p
     \<and> c = trimmed p ''candidateId''
     \<and> country = py_upper (trimmed p ''country'')
     \<and> ty = py_lower (trimmed p ''proxyType''))"
| "asked_for decode req (SlotSnapshot n) = (\<exists>ds. numbered n ds \<and> requests req ''GET'' (''/slots/'' @ ds))"
| "asked_for decode req (DeleteSlot n) = (\<exists>ds. numbered n ds \<and> requests req ''DELETE'' (''/slots/'' @ ds))"
| "asked_for decode req (RotateSlot n) = (\<exists>ds p. numbered n ds \<and> requests req ''POST'' (''/slots/'' @ ds @ ''/rotate'') \<and> carries decode req {} p)"
| "asked_for decode req (CheckSlot n) = (\<exists>ds p. numbered n ds \<and> requests req ''POST'' (''/slots/'' @ ds @ ''/check'') \<and> carries decode req {} p)"
| "asked_for decode req (AssignSlot n c country ty) = (\<exists>ds p. numbered n ds \<and> requests req ''POST'' (''/slots/'' @ ds @ ''/assign'') \<and> carries decode req {''candidateId'', ''country'', ''proxyType''} p
     \<and> c = trimmed p ''candidateId''
     \<and> country = py_upper (trimmed p ''country'')
     \<and> ty = py_lower (trimmed p ''proxyType''))"

definition plan_asked :: "(string \<Rightarrow> pyval option) \<Rightarrow> request \<Rightarrow> pyexc + plan \<Rightarrow> bool" where
  "plan_asked decode req p = (case p of Inr (CallManager c mode) \<Rightarrow> asked_for decode req c | _ \<Rightarrow> True)"

lemma plan_asked_simps [simp]:
  "plan_asked decode req (Inl e)" "plan_asked decode req (Inr (Answer r))"
  "plan_asked decode req (Inr (CallManager c mode)) = asked_for decode req c"
  by (simp_all add: plan_asked_def)

lemma plan_asked_bind: "(\<And>x. m = Inr x \<Longrightarrow> plan_asked decode req (f x)) \<Longrightarrow> plan_asked decode req (err_bind m f)"
  by (cases m) auto

lemma read_object_carries: "read_object decode allowed req = Inr p \<Longrightarrow> carries decode req allowed p"
  by (auto simp: read_object_def carries_def MAX_REQUEST_BYTES_def split: option.splits if_splits pyval.splits)

lemma after_prefix_Some: "after_prefix p s = Some r \<longleftrightarrow> s = p @ r"
  by (auto simp: after_prefix_def starts_with_def) (metis append_take_drop_id)

lemma text_trimmed: "text_field p k = trimmed p k" "raw_field p k = str_or_empty (dgetN p k)"
  by (simp_all add: text_field_def trimmed_def raw_field_def)

lemma digits_of_path:
  "takeWhile digit_char r \<noteq> [] \<Longrightarrow> dropWhile digit_char r = suf \<Longrightarrow>
   \<exists>ds. numbered (int (digits_val (takeWhile digit_char r))) ds \<and> r = ds @ suf"
  by (intro exI [of _ "takeWhile digit_char r"])
    (auto simp: numbered_def list_all_iff dest: set_takeWhileD)

lemma standby_route_path:
  assumes "standby_route sfx path = Some n"
  shows "\<exists>ds. numbered n ds \<and> path = ''/control/v1/standbys/'' @ ds @ CHR ''/'' # sfx"
proof -
  from assms obtain r where r: "path = ''/control/v1/standbys/'' @ r" "takeWhile digit_char r \<noteq> []"
    "dropWhile digit_char r = CHR ''/'' # sfx" "n = int (digits_val (takeWhile digit_char r))"
    unfolding standby_route_def by (auto simp: after_prefix_Some Let_def split: option.splits if_splits)
  with digits_of_path [OF r(2,3)] show ?thesis by auto
qed

lemma slot_route_path:
  assumes "slot_route path = Some (n, a)"
  shows "\<exists>ds. numbered n ds \<and> path = ''/control/v1/slots/'' @ ds @ (if a = [] then [] else CHR ''/'' # a)"
proof -
  from assms obtain r where r: "path = ''/control/v1/slots/'' @ r" "takeWhile digit_char r \<noteq> []"
    "dropWhile digit_char r = (if a = [] then [] else CHR ''/'' # a)" "n = int (digits_val (takeWhile digit_char r))"
    unfolding slot_route_def by (auto simp: after_prefix_Some Let_def split: option.splits if_splits)
  with digits_of_path [OF r(2,3)] show ?thesis by auto
qed

lemma identifier_path: "r = takeWhile P r @ dropWhile P r"
  by simp

lemma main_action_path:
  assumes "main_assignment_action path = Some (i, a)"
  shows "path = ''/control/v1/main/assign/'' @ i @ CHR ''/'' # a
    \<and> a \<in> {''commit'', ''rollback'', ''repair-commit'', ''repair-replace''}"
proof -
  from assms obtain r where r: "path = ''/control/v1/main/assign/'' @ r" "i = takeWhile identifier_char r"
    "dropWhile identifier_char r = CHR ''/'' # a" "a \<in> {''commit'', ''rollback'', ''repair-commit'', ''repair-replace''}"
    unfolding main_assignment_action_def by (auto simp: after_prefix_Some Let_def split: option.splits if_splits)
  with identifier_path [of r identifier_char] show ?thesis by simp
qed

lemma lease_action_path:
  assumes "mutation_lease_action path = Some (i, a)"
  shows "path = ''/control/v1/mutation-leases/'' @ i @ (if a = ''release'' then [] else CHR ''/'' # a)"
proof -
  from assms obtain r where r: "path = ''/control/v1/mutation-leases/'' @ r" "i = takeWhile identifier_char r"
    "dropWhile identifier_char r = (if a = ''release'' then [] else CHR ''/'' # a)"
    unfolding mutation_lease_action_def by (auto simp: after_prefix_Some Let_def split: option.splits if_splits)
  with identifier_path [of r identifier_char] show ?thesis by simp
qed

abbreviation request_path :: "request \<Rightarrow> string" where
  "request_path req \<equiv> fst (py_partition (CHR ''?'') (req_path req))"

lemma get_routes_asked:
  assumes "map_of get_routes r = Some (c, mode)" "req_method req = ''GET''" "request_path req = API_PREFIX @ r"
  shows "asked_for decode req c"
proof -
  have "list_all (\<lambda>(r, c, mode). \<forall>req. requests req ''GET'' r \<longrightarrow> asked_for decode req c) get_routes"
    by (simp add: get_routes_def)
  with assms show ?thesis
    using list_all_lookup [of _ get_routes r "(c, mode)"] by (auto simp: requests_def API_PREFIX_def)
qed

lemma dget_or_dhas: "dget_or p k d = (if dhas p k then dgetN p k else d)"
  by (auto simp: dget_or_def dhas_def split: option.splits)

lemma asked_capacity: "requests req ''PUT'' ''/capacity'' \<Longrightarrow> carries decode req {''candidatePoolCapacity'', ''targetValidNodeCount'', ''maxValidNodeCount'', ''regularExitSlots''} p
    \<Longrightarrow> plan_asked decode req (Inr (plan_capacity p))"
  by (auto simp: plan_capacity_def Let_def dget_or_dhas [of p "''candidatePoolCapacity''" "dgetN p ''maxValidNodeCount''"] text_trimmed intro!: exI [of _ p] split: if_splits)

lemma asked_recovery: "requests req ''PUT'' ''/recovery'' \<Longrightarrow> carries decode req {''settings''} p
    \<Longrightarrow> plan_asked decode req (ask (UpdateRecovery (dgetN p ''settings'')))"
  by (auto simp: Let_def text_trimmed intro!: exI [of _ p] split: if_splits)

lemma asked_standbys: "requests req ''PUT'' ''/standbys'' \<Longrightarrow> carries decode req {''standbys''} p
    \<Longrightarrow> plan_asked decode req (ask (SetStandbyConfig (dgetN p ''standbys'')))"
  by (auto simp: Let_def text_trimmed intro!: exI [of _ p] split: if_splits)

lemma asked_lease: "requests req ''POST'' ''/mutation-leases'' \<Longrightarrow> carries decode req {''idempotencyKey''} p
    \<Longrightarrow> plan_asked decode req (plan_lease p)"
  by (auto simp: plan_lease_def Let_def text_trimmed intro!: exI [of _ p] split: if_splits)

lemma asked_stage: "requests req ''POST'' ''/main/assign'' \<Longrightarrow> carries decode req {''candidateId'', ''country'', ''proxyType'', ''expectedCurrentCandidateId'', ''idempotencyKey''} p
    \<Longrightarrow> plan_asked decode req (plan_stage p)"
  by (auto simp: plan_stage_def Let_def text_trimmed intro!: exI [of _ p] split: if_splits)

lemma asked_refresh: "requests req ''POST'' ''/candidates/refresh'' \<Longrightarrow> carries decode req {''country''} p
    \<Longrightarrow> plan_asked decode req (plan_refresh p)"
  by (auto simp: plan_refresh_def Let_def text_trimmed intro!: exI [of _ p] split: if_splits)

lemma asked_account: "requests req ''PUT'' ''/admin'' \<Longrightarrow> carries decode req {''username'', ''password''} p
    \<Longrightarrow> plan_asked decode req (Inr (CallManager (UpdateAccount (raw_field p ''username'') (raw_field p ''password'')) ReportNoContent))"
  by (auto simp: Let_def text_trimmed intro!: exI [of _ p] split: if_splits)

lemma asked_verify: "requests req ''POST'' ''/admin/verify'' \<Longrightarrow> carries decode req {''username'', ''password''} p
    \<Longrightarrow> plan_asked decode req (Inr (CallManager (VerifyAccount (raw_field p ''username'') (raw_field p ''password'')) ReportNoContent))"
  by (auto simp: Let_def text_trimmed intro!: exI [of _ p] split: if_splits)

lemma asked_session: "requests req ''POST'' ''/admin/sessions'' \<Longrightarrow> carries decode req {} p
    \<Longrightarrow> plan_asked decode req (Inr (CallManager IssueSession (ReportData 201)))"
  by (auto simp: Let_def text_trimmed intro!: exI [of _ p] split: if_splits)

lemma asked_slot: "requests req ''POST'' ''/slots'' \<Longrightarrow> carries decode req {''country'', ''proxyType'', ''candidateId''} p
    \<Longrightarrow> plan_asked decode req (plan_create_slot p)"
  by (auto simp: plan_create_slot_def Let_def text_trimmed intro!: exI [of _ p] split: if_splits)

lemma body_routes_asked:
  assumes "map_of body_routes (m, r) = Some (allowed, follow)" "req_method req = m" "request_path req = API_PREFIX @ r"
  shows "plan_asked decode req (err_bind (read_object decode allowed req) follow)"
proof (rule plan_asked_bind)
  fix p assume p: "read_object decode allowed req = Inr p"
  have "list_all (\<lambda>((m, r), allowed, follow). \<forall>p. requests req m r \<and> carries decode req allowed p \<longrightarrow> plan_asked decode req (follow p)) body_routes"
    unfolding body_routes_def list.pred_inject prod.case
    apply (intro conjI allI impI list.pred_inject(1))
    apply (elim conjE, rule asked_capacity asked_recovery asked_standbys asked_lease asked_stage asked_refresh asked_account asked_verify asked_session asked_slot, assumption, assumption)+
    done
  with assms p show "plan_asked decode req (follow p)"
    using list_all_lookup [of _ body_routes "(m, r)" "(allowed, follow)"] read_object_carries [OF p]
    by (auto simp: requests_def API_PREFIX_def)
qed

lemma main_action_asked:
  assumes "main_assignment_action (request_path req) = Some (i, action)" "req_method req = ''POST''"
  shows "plan_asked decode req (main_action_plan decode req i action)"
proof -
  from main_action_path [OF assms(1)] have r: "requests req ''POST'' (''/main/assign/'' @ i @ CHR ''/'' # action)"
    and a: "action \<in> {''commit'', ''rollback'', ''repair-commit'', ''repair-replace''}"
    using assms(2) by (simp_all add: requests_def)
  show ?thesis
  proof (cases "action = ''repair-replace''")
    case True
    have "plan_asked decode req (plan_replace i p)" if "carries decode req {''candidateId'', ''country'', ''proxyType''} p" for p
      using r that True by (auto simp: plan_replace_def Let_def text_trimmed intro!: exI [of _ p])
    then show ?thesis
      using True by (auto simp: main_action_plan_def intro!: plan_asked_bind dest: read_object_carries)
  next
    case False
    have "asked_for decode req (if action = ''commit'' then CommitMain i
        else if action = ''rollback'' then RollbackMain i else RepairCommitMain i)" if "carries decode req {} p" for p
      using r that False a by (auto intro!: exI [of _ p])
    then show ?thesis
      using False by (auto simp: main_action_plan_def intro!: plan_asked_bind dest: read_object_carries)
  qed
qed

lemma slot_asked:
  assumes "slot_route (request_path req) = Some (n, action)"
  shows "plan_asked decode req (slot_plan decode req n action)"
proof -
  from slot_route_path [OF assms] obtain ds where ds: "numbered n ds"
    "request_path req = ''/control/v1/slots/'' @ ds @ (if action = [] then [] else CHR ''/'' # action)" by blast
  have assign: "plan_asked decode req (plan_slot_assign n p)"
    if "carries decode req {''candidateId'', ''country'', ''proxyType''} p" "action = ''assign''" "req_method req = ''POST''" for p
    using ds that by (auto simp: plan_slot_assign_def Let_def text_trimmed requests_def intro!: exI [of _ ds] exI [of _ p])
  have other: "asked_for decode req (if action = ''rotate'' then RotateSlot n else CheckSlot n)"
    if "carries decode req {} p" "action \<in> {''rotate'', ''check''}" "req_method req = ''POST''" for p
    using ds that by (auto simp: requests_def intro!: exI [of _ ds] exI [of _ p])
  have plain: "action = [] \<Longrightarrow> req_method req = ''GET'' \<Longrightarrow> asked_for decode req (SlotSnapshot n)"
    "action = [] \<Longrightarrow> req_method req = ''DELETE'' \<Longrightarrow> asked_for decode req (DeleteSlot n)"
    using ds by (auto simp: requests_def intro!: exI [of _ ds])
  show ?thesis
    unfolding slot_plan_def using assign other plain
    by (auto intro!: plan_asked_bind dest!: read_object_carries)
qed

lemma parameter_routes_asked: "plan_asked decode req (parameter_routes decode req (request_path req))"
proof -
  let ?path = "request_path req"
  have split: "plan_asked decode req (case m of Some x \<Rightarrow> f x | None \<Rightarrow> q)"
    if "\<And>x. m = Some x \<Longrightarrow> plan_asked decode req (f x)" "plan_asked decode req q" for m :: "'a option" and f q
    using that by (cases m) simp_all
  have retry: "plan_asked decode req (err_bind (read_object decode {} req) (\<lambda>_. ask (RetryStandby n)))"
    if h: "(if req_method req = ''POST'' then standby_route ''retry'' ?path else None) = Some n" for n
  proof (rule plan_asked_bind)
    fix p assume p: "read_object decode {} req = Inr p"
    from h have "req_method req = ''POST''" "standby_route ''retry'' ?path = Some n" by (auto split: if_splits)
    with standby_route_path [of "''retry''" ?path n] read_object_carries [OF p]
    show "plan_asked decode req (ask (RetryStandby n))" by (fastforce simp: requests_def)
  qed
  have assign: "plan_asked decode req (err_bind (read_object decode {''candidateId''} req) (plan_standby_assign n))"
    if h: "(if req_method req = ''POST'' then standby_route ''assign'' ?path else None) = Some n" for n
  proof (rule plan_asked_bind)
    fix p assume p: "read_object decode {''candidateId''} req = Inr p"
    from h have "req_method req = ''POST''" "standby_route ''assign'' ?path = Some n" by (auto split: if_splits)
    with standby_route_path [of "''assign''" ?path n] read_object_carries [OF p]
    show "plan_asked decode req (plan_standby_assign n p)"
      by (fastforce simp: requests_def plan_standby_assign_def Let_def text_trimmed)
  qed
  have lease: "plan_asked decode req (if req_method req = ''POST'' \<and> action = ''renew''
          then err_bind (read_object decode {} req) (\<lambda>_. ask (RenewLease i))
          else if req_method req = ''DELETE'' \<and> action = ''release'' then ask (ReleaseLease i)
          else Inr (Answer (answer_error 404 ''not_found'')))"
    if h: "mutation_lease_action ?path = Some (i, action)" for i action
  proof -
    note path = lease_action_path [OF h]
    have "plan_asked decode req (err_bind (read_object decode {} req) (\<lambda>_. ask (RenewLease i)))"
      if "req_method req = ''POST''" "action = ''renew''"
      using that path by (intro plan_asked_bind) (auto simp: requests_def dest: read_object_carries)
    with path show ?thesis by (auto simp: requests_def)
  qed
  have main: "plan_asked decode req (main_action_plan decode req i action)"
    if "(if req_method req = ''POST'' then main_assignment_action ?path else None) = Some (i, action)" for i action
    using that main_action_asked by (auto split: if_splits)
  have pairs: "plan_asked decode req (case x of (i, action) \<Rightarrow> f i action)"
    if "\<And>i action. x = (i, action) \<Longrightarrow> plan_asked decode req (f i action)" for x :: "'a \<times> 'b" and f
    using that by (cases x) simp
  show ?thesis
    unfolding parameter_routes_def
    by (rule split, erule retry, rule split, erule assign, rule split, rule pairs, rule lease, simp,
      rule split, rule pairs, rule main, simp, rule split, rule pairs, rule slot_asked, simp, simp)
qed

lemma dispatch_asked: "plan_asked decode req (dispatch decode token req)"
  unfolding dispatch_def Let_def
proof (rule plan_asked_bind)
  fix ok
  let ?path = "request_path req"
  have rest: "plan_asked decode req (case map_of body_routes (req_method req, route) of
      Some (allowed, follow) \<Rightarrow> err_bind (read_object decode allowed req) follow
    | None \<Rightarrow> parameter_routes decode req ?path)" if "?path = API_PREFIX @ route" for route
    using body_routes_asked [OF _ refl that] parameter_routes_asked by (auto split: option.split)
  show "plan_asked decode req (if \<not> ok then Inr (Answer (answer_error 401 ''unauthorized''))
     else case after_prefix API_PREFIX ?path of
         None \<Rightarrow> Inr (Answer (answer_error 404 ''not_found''))
       | Some route \<Rightarrow>
           if req_method req = ''GET'' \<and> route = ''/capabilities'' then Inr (Answer capabilities_answer)
           else (case (if req_method req = ''GET'' then map_of get_routes route else None) of
             Some (c, mode) \<Rightarrow> Inr (CallManager c mode)
           | None \<Rightarrow> (case map_of body_routes (req_method req, route) of
                  Some (allowed, follow) \<Rightarrow> err_bind (read_object decode allowed req) follow
                | None \<Rightarrow> parameter_routes decode req ?path)))"
  proof (cases "after_prefix API_PREFIX ?path")
    case pre: (Some route)
    then have path: "?path = API_PREFIX @ route" by (simp add: after_prefix_Some)
    show ?thesis
    proof (cases "if req_method req = ''GET'' then map_of get_routes route else None")
      case None
      with pre rest [OF path] show ?thesis by simp
    next
      case (Some cm)
      then obtain c mode where cm: "cm = (c, mode)" "map_of get_routes route = Some (c, mode)" "req_method req = ''GET''"
        by (cases cm) (auto split: if_splits)
      with get_routes_asked [OF cm(2,3) path] Some pre show ?thesis by simp
    qed
  qed simp
qed

text \<open>C33. Every call that reaches the manager is the one the request asks for: its method and path, and
  a body that is an object of at most 16 KiB with no other field than those of the route, name exactly this call with
  exactly these arguments, including the values of the capacity, recovery, standby and account calls,
  which are passed on as they are (and conflicting capacities never). And the arguments the
  interface checks are in the documented form: stripped and bounded candidates, two-letter
  upper-case countries, known proxy types, printable keys and well-formed identifiers.\<close>

theorem manager_calls_validated:
  "list_all (\<lambda>c. asked_for decode req c \<and> call_ok c) (snd (handle decode token manager req))"
proof -
  have "asked_for decode req c \<and> call_ok c" if "c \<in> set (snd (handle decode token manager req))" for c
  proof (rule handle_calls [OF that])
    fix mode
    assume "dispatch decode token req = Inr (CallManager c mode)"
    with dispatch_ok [of decode token req] dispatch_asked [of decode req token] show ?thesis by simp
  qed
  then show ?thesis by (simp add: list_all_iff)
qed

lemma authorized_iff:
  "authorized token header = Inr True \<longleftrightarrow> header = ''Bearer '' @ token \<and> token \<noteq> [] \<and> list_all ascii_char token"
proof -
  obtain a f b where p: "py_partition (CHR '' '') header = (a, f, b)" by (cases "py_partition (CHR '' '') header")
  show ?thesis
  proof (cases f)
    case True
    with p have h: "header = a @ CHR '' '' # b" "CHR '' '' \<notin> set a" by (simp_all add: py_partition_found)
    have "header = ''Bearer '' @ token \<longleftrightarrow> a = ''Bearer'' \<and> b = token"
    proof
      assume "header = ''Bearer '' @ token"
      then have "py_partition (CHR '' '') header = (''Bearer'', True, token)"
        by (subst py_partition_found) simp
      with p show "a = ''Bearer'' \<and> b = token" by simp
    qed (use h in simp)
    then show ?thesis using p True by (auto simp: authorized_def compare_digest_def)
  next
    case False
    with p have "CHR '' '' \<notin> set header" by (simp add: py_partition_absent)
    with p False show ?thesis by (auto simp: authorized_def)
  qed
qed

text \<open>C34. A request whose authorization header is not exactly the bearer token never reaches the
  manager. It is answered as unauthorized, except that a bearer value with a character outside
  ASCII makes the comparison raise and is answered as an internal error.\<close>

theorem unauthorized_request_stopped:
  assumes "req_authorization req \<noteq> ''Bearer '' @ token"
  shows "snd (handle decode token manager req) = []
    \<and> res_status (fst (handle decode token manager req))
        = (if authorized token (req_authorization req) = Inl TypeError then 500 else 401)
    \<and> (list_all ascii_char (req_authorization req @ token)
        \<longrightarrow> res_status (fst (handle decode token manager req)) = 401)"
proof -
  have no: "authorized token (req_authorization req) \<noteq> Inr True" using assms by (simp add: authorized_iff)
  have cases: "authorized token (req_authorization req) = Inr False
      \<or> authorized token (req_authorization req) = Inl TypeError
        \<and> \<not> list_all ascii_char (req_authorization req @ token)"
  proof (cases "authorized token (req_authorization req)")
    case (Inl e)
    obtain a f b where p: "py_partition (CHR '' '') (req_authorization req) = (a, f, b)"
      by (cases "py_partition (CHR '' '') (req_authorization req)")
    with Inl have "compare_digest b token = Inl e" "f"
      by (auto simp: authorized_def split: if_splits)
    then have e: "e = TypeError" "\<not> (list_all ascii_char b \<and> list_all ascii_char token)"
      by (auto simp: compare_digest_def split: if_splits)
    moreover have "set b \<subseteq> set (req_authorization req)"
      using p \<open>f\<close> py_partition_found [of "CHR '' ''" "req_authorization req" a b] by auto
    ultimately show ?thesis using Inl by (auto simp: list_all_iff)
  next
    case (Inr b)
    with no show ?thesis by (cases b) auto
  qed
  then show ?thesis
    by (auto simp: handle_def dispatch_def answer_error_def exception_answer_def)
qed

text \<open>A call that the manager refuses is never reported as a success, whatever route it came
  from; only the snapshot of the assignment reports the state of a refused operation as data.\<close>

theorem refusal_not_reported_as_success:
  assumes "handle decode token manager req = (r, [c])" and "manager c = Inr v"
    and "refused v" and "c \<noteq> MainAssignmentSnapshot"
  shows "400 \<le> res_status r"
proof -
  obtain mode where d: "dispatch decode token req = Inr (CallManager c mode)"
    using handle_calls [of c decode token manager req] assms(1) by auto
  with dispatch_ok [of decode token req] assms(4) have m: "mode \<noteq> ReportSnapshot" by auto
  have r: "r = report_result mode v" using assms(1,2) d by (simp add: handle_def)
  obtain p where v: "v = PDict p" using assms(3) by (auto simp: refused_def split: pyval.splits)
  have err: "400 \<le> error_status code" for code by (simp add: error_status_def)
  have mr: "400 \<le> res_status (manager_result v s)" for s
    using assms(3) err by (simp add: manager_result_def v Let_def)
  then show ?thesis
    using m assms(3) v by (cases mode) (auto simp: r report_result_def refresh_result_def answer_error_def Let_def)
qed

section \<open>Concrete requests\<close>

definition sample_decode :: "string \<Rightarrow> pyval option" where
  "sample_decode body = (if body = ''{}'' then Some (PDict []) else None)"

definition sample_request :: "string \<Rightarrow> request" where
  "sample_request header = \<lparr> req_method = ''GET'', req_path = ''/control/v1/capacity'',
     req_authorization = header, req_length = ''0'', req_body = [] \<rparr>"

definition sample_manager :: "manager_call \<Rightarrow> pyexc + pyval" where
  "sample_manager c = Inr (PDict (reply_error ''capacity_busy''))"

theorem unauthorized_request_stopped_witness:
  "snd (handle sample_decode ''secret'' sample_manager (sample_request ''Bearer secreT'')) = []"
proof -
  have "req_authorization (sample_request ''Bearer secreT'') \<noteq> ''Bearer '' @ ''secret''"
    by (simp add: sample_request_def)
  from unauthorized_request_stopped [OF this] show ?thesis by blast
qed

definition refused_answer :: response where
  "refused_answer = \<lparr> res_status = 409,
     res_payload = Some (PDict [(''error'', PDict [(''code'', PStr ''capacity_busy'')])]) \<rparr>"

theorem refusal_not_reported_as_success_witness: "400 \<le> res_status refused_answer"
proof -
  have h: "handle sample_decode ''secret'' sample_manager (sample_request ''Bearer secret'')
      = (refused_answer, [CapacitySnapshot])" by code_simp
  have "refused (PDict (reply_error ''capacity_busy''))" by code_simp
  from refusal_not_reported_as_success [OF h _ this] show ?thesis by (simp add: sample_manager_def)
qed

end
