(* ===== verification/Proxy_Capacity.thy ===== *)
theory Proxy_Capacity
  imports Py_Base "HOL-Library.AList"
begin

text \<open>
  The first part of \<^verbatim>\<open>services/aimili-egress/proxy_server.py\<close>: the numbers read from the
  environment, the resource headroom, the connection capacity shared by the listeners, the rate
  limit of the diagnostics and the registry of connections. The capacity is used through the
  interface \<open>slot_pool\<close>; the client threads of the listeners are its users. Clock readings,
  the sampled headroom and what other threads do while a thread waits are arguments.
\<close>

section \<open>Numbers from the environment\<close>

definition env_text :: "string option \<Rightarrow> string option" where
  "env_text v = (case v of Some s \<Rightarrow> if s = [] then None else Some s | None \<Rightarrow> None)"

definition parse_positive_int :: "string option \<Rightarrow> int \<Rightarrow> int" where
  "parse_positive_int v dflt = (case env_text v of
     None \<Rightarrow> max 1 dflt
   | Some s \<Rightarrow> (case int_of_str s of Some n \<Rightarrow> max 1 n | None \<Rightarrow> dflt))"

definition parse_nonnegative_int :: "string option \<Rightarrow> int \<Rightarrow> int" where
  "parse_nonnegative_int v dflt = (case env_text v of
     None \<Rightarrow> max 0 dflt
   | Some s \<Rightarrow> (case int_of_str s of Some n \<Rightarrow> max 0 n | None \<Rightarrow> dflt))"

definition parse_positive_float :: "string option \<Rightarrow> flt \<Rightarrow> flt" where
  "parse_positive_float v dflt = (case env_text v of
     None \<Rightarrow> dflt
   | Some s \<Rightarrow> (case float_of_str s of Some x \<Rightarrow> if flt_less (Fin 0) x then x else dflt | None \<Rightarrow> dflt))"

section \<open>Resource headroom\<close>

text \<open>What \<open>proxy_resource_headroom\<close> reads; a file that cannot be read is \<open>None\<close>. The limit on
  open files is \<open>None\<close> when the module or the call is missing, \<open>Some None\<close> when it is infinite.
  A control group file is read by the components of its directory below \<^verbatim>\<open>/sys/fs/cgroup\<close>.\<close>

record resource_view =
  rv_meminfo :: "string option"
  rv_nofile :: "int option option"
  rv_fd_count :: "int option"
  rv_cgroup :: "string option"
  rv_group_file :: "string list \<Rightarrow> string \<Rightarrow> string option"

definition mib :: int where "mib = 1024 * 1024"

fun colon_entries :: "string list \<Rightarrow> (string \<times> string) list option" where
  "colon_entries [] = Some []"
| "colon_entries (l # ls) = (case py_partition (CHR '':'') l of (k, found, v) \<Rightarrow>
     if \<not> found then None else map_option ((#) (k, v)) (colon_entries ls))"

text \<open>\<open>Inl\<close> is the exception that leaves the function: \<open>split()[0]\<close> of an empty value.\<close>

definition memory_budget :: "string option \<Rightarrow> pyexc + int" where
  "memory_budget meminfo = (case meminfo of
     None \<Rightarrow> Inr 32
   | Some text \<Rightarrow> (case colon_entries (py_splitlines text) of
       None \<Rightarrow> Inr 32
     | Some info \<Rightarrow> (case map_of (rev info) ''MemAvailable'' of
         None \<Rightarrow> Inr 32
       | Some v \<Rightarrow> (case py_words v of
           [] \<Rightarrow> Inl IndexError
         | w # _ \<Rightarrow> (case int_of_str w of
             None \<Rightarrow> Inr 32
           | Some kb \<Rightarrow> Inr ((kb * 1024 - 64 * mib) div mib))))))"

definition group_budget :: "resource_view \<Rightarrow> string list \<Rightarrow> string \<times> int \<times> int \<Rightarrow> int list" where
  "group_budget rv dir entry = (case entry of (kind, reserve, cost) \<Rightarrow>
     (case rv_group_file rv dir (kind @ ''.max'') of
        None \<Rightarrow> []
      | Some limit \<Rightarrow>
          if py_strip limit = ''max'' then []
          else (case rv_group_file rv dir (kind @ ''.current'') of
             None \<Rightarrow> []
           | Some current \<Rightarrow> (case (int_of_str current, int_of_str limit) of
               (Some used, Some most) \<Rightarrow> [(most - used - reserve) div cost] | _ \<Rightarrow> []))))"

definition directory_budgets :: "resource_view \<Rightarrow> string list \<Rightarrow> int list" where
  "directory_budgets rv dir = concat (map (group_budget rv dir)
     [(''pids'', 32, 1), (''memory'', 32 * mib, mib)])"

text \<open>The directories from the control group up to the base, which is the empty list.\<close>

fun group_budgets :: "resource_view \<Rightarrow> string list \<Rightarrow> int list" where
  "group_budgets rv [] = directory_budgets rv []"
| "group_budgets rv (d # up) = directory_budgets rv (rev (d # up)) @ group_budgets rv up"

definition group_path :: "string \<Rightarrow> string list" where
  "group_path g = filter (\<lambda>part. part \<noteq> [] \<and> part \<noteq> ''.'') (py_split (CHR ''/'') g)"

definition group_of_cgroup :: "string \<Rightarrow> string option" where
  "group_of_cgroup text = map_option (drop 3) (find (starts_with ''0::'') (py_splitlines text))"

definition limit_budgets :: "resource_view \<Rightarrow> int list" where
  "limit_budgets rv = (case rv_nofile rv of
     None \<Rightarrow> []
   | Some soft \<Rightarrow>
       let files = (case soft of None \<Rightarrow> Some []
          | Some n \<Rightarrow> map_option (\<lambda>used. [(n - used - 32) div 2]) (rv_fd_count rv)) in
       (case files of
          None \<Rightarrow> []
        | Some budgets \<Rightarrow> budgets @ (case Option.bind (rv_cgroup rv) group_of_cgroup of
             None \<Rightarrow> []
           | Some g \<Rightarrow> group_budgets rv (rev (group_path g)))))"

definition proxy_resource_headroom :: "resource_view \<Rightarrow> pyexc + int" where
  "proxy_resource_headroom rv = err_bind (memory_budget (rv_meminfo rv)) (\<lambda>b.
     Inr (max 0 (Min (set (b # limit_budgets rv)))))"

section \<open>The shared capacity\<close>

record proxy_capacity =
  pc_configured_limit :: int
  pc_global_limit :: int
  pc_per_listener_limit :: int
  pc_active :: int
  pc_listeners :: "(string \<times> int) list"
  pc_registered :: "string list"
  pc_sample_after :: rat
  pc_wait_ms :: int
  pc_reserve :: int

definition new_capacity :: "int \<Rightarrow> int \<Rightarrow> int \<Rightarrow> int \<Rightarrow> proxy_capacity" where
  "new_capacity global_limit per_listener_limit wait_ms reserve =
     \<lparr> pc_configured_limit = max 1 global_limit, pc_global_limit = max 1 global_limit,
       pc_per_listener_limit = max 1 (min per_listener_limit (max 1 global_limit)),
       pc_active = 0, pc_listeners = [], pc_registered = [], pc_sample_after = 0,
       pc_wait_ms = max 0 wait_ms, pc_reserve = max 0 reserve \<rparr>"

definition register_listener :: "string \<Rightarrow> proxy_capacity \<Rightarrow> proxy_capacity" where
  "register_listener k s = s\<lparr> pc_registered := List.insert k (pc_registered s) \<rparr>"

definition unregister_listener :: "string \<Rightarrow> proxy_capacity \<Rightarrow> proxy_capacity" where
  "unregister_listener k s = s\<lparr> pc_registered := removeAll k (pc_registered s) \<rparr>"

text \<open>What one pass under the lock sees: the sampled headroom (\<open>None\<close> without a sampler) and the
  readings of the clock before and after the sample and when the remaining time is computed.\<close>

record cap_round =
  rd_sample :: "int option"
  rd_now :: rat
  rd_sampled :: rat
  rd_check :: rat

definition refresh :: "cap_round \<Rightarrow> proxy_capacity \<Rightarrow> proxy_capacity" where
  "refresh r s = (case rd_sample r of
     Some n \<Rightarrow>
       if pc_sample_after s \<le> rd_now r
       then s\<lparr> pc_global_limit := min (pc_configured_limit s) (pc_active s + max 0 n),
              pc_sample_after := rd_sampled r + 5 \<rparr>
       else s
   | None \<Rightarrow> s)"

definition held :: "proxy_capacity \<Rightarrow> string \<Rightarrow> int" where
  "held s k = (case map_of (pc_listeners s) k of Some n \<Rightarrow> n | None \<Rightarrow> 0)"

definition reserved :: "string \<Rightarrow> proxy_capacity \<Rightarrow> int" where
  "reserved k s = min
     (sum_list (map (\<lambda>key. max 0 (pc_reserve s - held s key)) (filter (\<lambda>key. key \<noteq> k) (pc_registered s))))
     (max 0 (pc_global_limit s - 1))"

definition admissible :: "string \<Rightarrow> proxy_capacity \<Rightarrow> bool" where
  "admissible k s = (held s k < pc_per_listener_limit s \<and> pc_active s < pc_global_limit s - reserved k s)"

text \<open>One pass of the loop of \<open>try_acquire\<close> up to the decision.\<close>

definition attempt :: "cap_round \<Rightarrow> string \<Rightarrow> proxy_capacity \<Rightarrow> bool \<times> proxy_capacity" where
  "attempt r k s = (let s = refresh r s in
     if admissible k s
     then (True, s\<lparr> pc_active := pc_active s + 1, pc_listeners := AList.update k (held s k + 1) (pc_listeners s) \<rparr>)
     else (False, s))"

definition rejection_reason :: "string \<Rightarrow> proxy_capacity \<Rightarrow> string" where
  "rejection_reason k s =
     (if pc_per_listener_limit s \<le> held s k then ''listener_limit''
      else if pc_global_limit s < pc_configured_limit s then ''resource_pressure'' else ''global_limit'')"

text \<open>The loop: after each round that fails the other threads change the state while the thread
  waits. \<open>None\<close> is a thread that still waits after the rounds given; a result comes with the
  reason left in the thread.\<close>

fun acquire_loop ::
  "string \<Rightarrow> rat \<Rightarrow> (cap_round \<times> (proxy_capacity \<Rightarrow> proxy_capacity)) list \<Rightarrow> proxy_capacity
    \<Rightarrow> (bool \<times> string) option \<times> proxy_capacity" where
  "acquire_loop k deadline [] s = (None, s)"
| "acquire_loop k deadline ((r, others) # rounds) s = (case attempt r k s of
     (True, s') \<Rightarrow> (Some (True, []), s')
   | (False, s') \<Rightarrow>
       if deadline - rd_check r \<le> 0 then (Some (False, rejection_reason k s'), s')
       else acquire_loop k deadline rounds (others s'))"

definition try_acquire ::
  "string \<Rightarrow> rat \<Rightarrow> (cap_round \<times> (proxy_capacity \<Rightarrow> proxy_capacity)) list \<Rightarrow> proxy_capacity
    \<Rightarrow> (bool \<times> string) option \<times> proxy_capacity" where
  "try_acquire k now rounds s = acquire_loop k (now + of_int (pc_wait_ms s) / 1000) rounds s"

definition release :: "string \<Rightarrow> proxy_capacity \<Rightarrow> pyexc + proxy_capacity" where
  "release k s =
     (if held s k \<le> 0 then Inl ValueError
      else let n = held s k - 1 in
        Inr (s\<lparr> pc_listeners := (if n = 0 then AList.delete k (pc_listeners s) else AList.update k n (pc_listeners s)),
               pc_active := pc_active s - 1 \<rparr>))"

record capacity_view =
  cv_active :: int
  cv_global_limit :: int
  cv_per_listener_limit :: int
  cv_listeners :: "(string \<times> int) list"

definition capacity_snapshot :: "cap_round \<Rightarrow> proxy_capacity \<Rightarrow> capacity_view \<times> proxy_capacity" where
  "capacity_snapshot r s = (let s = refresh r s in
     (\<lparr> cv_active = pc_active s, cv_global_limit = pc_global_limit s,
        cv_per_listener_limit = pc_per_listener_limit s, cv_listeners = pc_listeners s \<rparr>, s))"

section \<open>Diagnostics and the registry of connections\<close>

text \<open>\<open>diagnostic\<close>: whether the message is printed, and the next time of each key.\<close>

definition diagnostic :: "string \<Rightarrow> rat \<Rightarrow> (string \<times> rat) list \<Rightarrow> bool \<times> (string \<times> rat) list" where
  "diagnostic k now due =
     (if now < (case map_of due k of Some t \<Rightarrow> t | None \<Rightarrow> 0) then (False, due)
      else (True, AList.update k (now + 10) (if 512 < length due then [] else due)))"

definition registry_add :: "nat \<Rightarrow> nat list \<Rightarrow> nat list" where
  "registry_add sock conns = List.insert sock conns"

definition registry_discard :: "nat \<Rightarrow> nat list \<Rightarrow> nat list" where
  "registry_discard sock conns = removeAll sock conns"

text \<open>\<open>close_all\<close>: the number of sockets whose \<open>close\<close> did not raise, those sockets, and the
  empty registry; \<open>closes\<close> tells which sockets close.\<close>

definition registry_close_all :: "(nat \<Rightarrow> bool) \<Rightarrow> nat list \<Rightarrow> int \<times> nat list \<times> nat list" where
  "registry_close_all closes conns = (let shut = filter closes conns in (int (length shut), shut, []))"

section \<open>The interface of a slot pool\<close>

locale slot_pool =
  fixes sound :: "'s \<Rightarrow> bool"
    and holds :: "'s \<Rightarrow> 'k \<Rightarrow> int"
    and total :: "'s \<Rightarrow> int"
    and take_slot :: "'e \<Rightarrow> 'k \<Rightarrow> 's \<Rightarrow> bool \<times> 's"
    and give_slot :: "'k \<Rightarrow> 's \<Rightarrow> pyexc + 's"
  assumes taken: "sound s \<Longrightarrow> take_slot e k s = (True, s') \<Longrightarrow>
      sound s' \<and> holds s' = (holds s)(k := holds s k + 1) \<and> total s' = total s + 1"
    and refused: "sound s \<Longrightarrow> take_slot e k s = (False, s') \<Longrightarrow>
      sound s' \<and> holds s' = holds s \<and> total s' = total s"
    and given: "sound s \<Longrightarrow> 0 < holds s k \<Longrightarrow> \<exists>s'. give_slot k s = Inr s' \<and>
      sound s' \<and> holds s' = (holds s)(k := holds s k - 1) \<and> total s' = total s - 1"
begin

text \<open>The pool and the list of the keys of the live users agree.\<close>

definition tracks :: "'s \<Rightarrow> 'k list \<Rightarrow> bool" where
  "tracks s ks = (sound s \<and> (\<forall>k. holds s k = int (count_list ks k)) \<and> total s = int (length ks))"

lemma tracks_taken: "tracks s ks \<Longrightarrow> take_slot e k s = (True, s') \<Longrightarrow> tracks s' (k # ks)"
  using taken [of s e k s'] by (auto simp: tracks_def)

lemma tracks_refused: "tracks s ks \<Longrightarrow> take_slot e k s = (False, s') \<Longrightarrow> tracks s' ks"
  using refused [of s e k s'] by (auto simp: tracks_def)

lemma count_remove1: "count_list (remove1 k ks) j = count_list ks j - (if j = k then 1 else 0)"
  by (induction ks) (auto simp: count_list_0_iff)

lemma tracks_given:
  assumes "tracks s ks" "k \<in> set ks"
  shows "\<exists>s'. give_slot k s = Inr s' \<and> tracks s' (remove1 k ks)"
proof -
  have pos: "0 < count_list ks k" using assms(2) by (simp add: count_list_0_iff zero_less_iff_neq_zero)
  have "0 < length ks" using assms(2) by (cases ks) auto
  with given [of s k] assms pos show ?thesis
    by (auto simp: tracks_def count_remove1 length_remove1 of_nat_diff Suc_leI)
qed

lemma tracks_holds: "tracks s ks \<Longrightarrow> k \<in> set ks \<Longrightarrow> 0 < holds s k"
  by (simp add: tracks_def count_list_0_iff zero_less_iff_neq_zero)

end

section \<open>The capacity is a slot pool\<close>

definition cap_sound :: "proxy_capacity \<Rightarrow> bool" where
  "cap_sound s = (pc_active s \<le> pc_global_limit s \<and> pc_global_limit s \<le> pc_configured_limit s
     \<and> 1 \<le> pc_per_listener_limit s
     \<and> list_all (\<lambda>(k, n). 0 < n \<and> n \<le> pc_per_listener_limit s) (pc_listeners s))"

lemma cap_sound_new [simp]: "cap_sound (new_capacity g p w r)"
  by (simp add: cap_sound_def new_capacity_def)

lemma held_new [simp]: "held (new_capacity g p w r) k = 0"
  by (simp add: held_def new_capacity_def)

lemma refresh_fields [simp]:
  "pc_active (refresh r s) = pc_active s" "pc_listeners (refresh r s) = pc_listeners s"
  "pc_configured_limit (refresh r s) = pc_configured_limit s" "pc_registered (refresh r s) = pc_registered s"
  "pc_per_listener_limit (refresh r s) = pc_per_listener_limit s" "pc_reserve (refresh r s) = pc_reserve s"
  "held (refresh r s) = held s"
  by (simp_all add: refresh_def held_def fun_eq_iff split: option.split)

lemma cap_sound_refresh: "cap_sound s \<Longrightarrow> cap_sound (refresh r s)"
  by (auto simp: cap_sound_def refresh_def split: option.split)

lemma list_all_alist_update:
  "P (k, v) \<Longrightarrow> list_all P xs \<Longrightarrow> list_all P (AList.update k v xs)"
  by (induction xs) auto

lemma list_all_delete: "list_all P xs \<Longrightarrow> list_all P (AList.delete k xs)"
  by (auto simp: list_all_iff AList.delete_eq)

lemma held_bound: "cap_sound s \<Longrightarrow> 0 \<le> held s k \<and> held s k \<le> pc_per_listener_limit s"
  by (auto simp: cap_sound_def held_def list_all_iff split: option.split dest!: map_of_SomeD)

lemma attempt_true:
  assumes "attempt r k s = (True, s')"
  shows "admissible k (refresh r s)"
    and "s' = (refresh r s)\<lparr> pc_active := pc_active s + 1,
      pc_listeners := AList.update k (held s k + 1) (pc_listeners s) \<rparr>"
  using assms by (auto simp: attempt_def Let_def split: if_splits)

lemma attempt_false: "attempt r k s = (False, s') \<longleftrightarrow> \<not> admissible k (refresh r s) \<and> s' = refresh r s"
  by (auto simp: attempt_def Let_def)

lemma reserved_nonneg: "0 \<le> reserved k s"
  by (auto simp: reserved_def intro!: sum_list_nonneg)

lemma attempt_taken:
  assumes "cap_sound s" "attempt r k s = (True, s')"
  shows "cap_sound s' \<and> held s' = (held s)(k := held s k + 1) \<and> pc_active s' = pc_active s + 1"
proof -
  have a: "admissible k (refresh r s)" and s': "s' = (refresh r s)\<lparr> pc_active := pc_active s + 1,
      pc_listeners := AList.update k (held s k + 1) (pc_listeners s) \<rparr>"
    using attempt_true [OF assms(2)] by blast+
  have room: "pc_active s < pc_global_limit (refresh r s)" "held s k < pc_per_listener_limit s"
    using a reserved_nonneg [of k "refresh r s"] by (auto simp: admissible_def)
  have "cap_sound (refresh r s)" using assms(1) by (rule cap_sound_refresh)
  moreover have "0 \<le> held s k" using held_bound [OF assms(1)] by blast
  ultimately have "cap_sound s'"
    using room by (auto simp: s' cap_sound_def intro: list_all_alist_update)
  moreover have "held s' = (held s)(k := held s k + 1)"
    by (rule ext) (simp add: s' held_def update_conv')
  ultimately show ?thesis by (simp add: s')
qed

lemma release_given:
  assumes "cap_sound s" "0 < held s k"
  shows "\<exists>s'. release k s = Inr s' \<and> cap_sound s'
    \<and> held s' = (held s)(k := held s k - 1) \<and> pc_active s' = pc_active s - 1"
proof -
  let ?ls = "if held s k - 1 = 0 then AList.delete k (pc_listeners s)
    else AList.update k (held s k - 1) (pc_listeners s)"
  let ?s = "s\<lparr> pc_listeners := ?ls, pc_active := pc_active s - 1 \<rparr>"
  have "release k s = Inr ?s" using assms(2) by (simp add: release_def Let_def)
  moreover have "cap_sound ?s"
    using assms held_bound [OF assms(1), of k]
    by (auto simp: cap_sound_def intro: list_all_alist_update list_all_delete)
  moreover have "held ?s = (held s)(k := held s k - 1)"
    by (rule ext) (simp add: held_def update_conv' delete_conv')
  ultimately show ?thesis by auto
qed

interpretation cap: slot_pool cap_sound held pc_active attempt release
proof unfold_locales
  show "cap_sound s \<Longrightarrow> attempt e k s = (True, s') \<Longrightarrow>
      cap_sound s' \<and> held s' = (held s)(k := held s k + 1) \<and> pc_active s' = pc_active s + 1" for s s' e k
    by (rule attempt_taken)
  show "cap_sound s \<Longrightarrow> attempt e k s = (False, s') \<Longrightarrow>
      cap_sound s' \<and> held s' = held s \<and> pc_active s' = pc_active s" for s s' e k
    by (auto simp: attempt_false cap_sound_refresh)
  show "cap_sound s \<Longrightarrow> 0 < held s k \<Longrightarrow> \<exists>s'. release k s = Inr s' \<and> cap_sound s' \<and>
      held s' = (held s)(k := held s k - 1) \<and> pc_active s' = pc_active s - 1" for s k
    by (rule release_given)
qed

end
