(* ===== verification/Proxy_Listener.thy ===== *)
theory Proxy_Listener
  imports Proxy_Capacity
begin

text \<open>
  The listeners of \<^verbatim>\<open>proxy_server.py\<close> and their client threads. \<open>start_proxy_client_thread\<close> and the
  thread it starts are cut at the points where other threads can run: an attempt to get a slot,
  the start of the thread, its failure and its end. Each is an event on the shared state, and a
  run is any interleaving of events of any listeners. The accounting of the slots is proved
  through the interface \<open>slot_pool\<close>.
\<close>

section \<open>Binding a listener\<close>

text \<open>\<open>start_proxy_server\<close> up to the loop: \<open>binds\<close> tells whether a socket of the given family
  (IPv6 or not) can be created, bound to the host and listened on.\<close>

definition bind_listener :: "(bool \<Rightarrow> string \<Rightarrow> bool) \<Rightarrow> string \<Rightarrow> (bool \<times> string) option" where
  "bind_listener binds host = (let is_ipv6 = (CHR '':'' \<in> set host \<or> host = []) in
     if binds is_ipv6 host then Some (is_ipv6, host)
     else if is_ipv6 \<and> (host = ''::'' \<or> host = [])
     then (if binds False ''0.0.0.0'' then Some (False, ''0.0.0.0'') else None)
     else if is_ipv6 \<and> host = ''::1''
     then (if binds False ''127.0.0.1'' then Some (False, ''127.0.0.1'') else None)
     else None)"

definition listener_key :: "string \<Rightarrow> int \<Rightarrow> string" where
  "listener_key host port = host @ '':'' @ int_str port"

section \<open>Listeners and client threads\<close>

text \<open>A client has the key of its listener, its socket and whether its thread runs. Every listener
  has a registry, used when the listener was given one.\<close>

record proxy_state =
  px_capacity :: proxy_capacity
  px_tracked :: "string \<Rightarrow> bool"
  px_registry :: "string \<Rightarrow> nat list"
  px_clients :: "(string \<times> nat \<times> bool) list"
  px_closed :: "nat list"

definition px_start :: "proxy_capacity \<Rightarrow> (string \<Rightarrow> bool) \<Rightarrow> proxy_state" where
  "px_start cap tracked = \<lparr> px_capacity = cap, px_tracked = tracked, px_registry = (\<lambda>_. []),
     px_clients = [], px_closed = [] \<rparr>"

datatype proxy_event =
    Listen string
  | StopListening string
  | Snapshot cap_round
  | WaitForSlot cap_round string
  | Admit cap_round string nat
  | Refuse cap_round string nat
  | ThreadStarts string nat
  | ThreadFails string nat
  | ClientEnds string nat
  | CloseAll string "nat \<Rightarrow> bool"

definition release_client :: "string \<Rightarrow> nat \<Rightarrow> bool \<Rightarrow> proxy_state \<Rightarrow> pyexc + proxy_state" where
  "release_client k sock running s = err_bind (release k (px_capacity s)) (\<lambda>cap.
     Inr (s\<lparr> px_capacity := cap, px_clients := remove1 (k, sock, running) (px_clients s),
            px_closed := sock # px_closed s \<rparr>))"

definition untrack :: "string \<Rightarrow> nat \<Rightarrow> proxy_state \<Rightarrow> proxy_state" where
  "untrack k sock s = (if px_tracked s k
     then s\<lparr> px_registry := (px_registry s)(k := registry_discard sock (px_registry s k)) \<rparr> else s)"

text \<open>\<open>None\<close> when the event cannot happen in the state, \<open>Inl\<close> when it raises.\<close>

fun px_event :: "proxy_event \<Rightarrow> proxy_state \<Rightarrow> (pyexc + proxy_state) option" where
  "px_event (Listen k) s = Some (Inr (s\<lparr> px_capacity := register_listener k (px_capacity s) \<rparr>))"
| "px_event (StopListening k) s = Some (Inr (s\<lparr> px_capacity := unregister_listener k (px_capacity s) \<rparr>))"
| "px_event (Snapshot r) s = Some (Inr (s\<lparr> px_capacity := snd (capacity_snapshot r (px_capacity s)) \<rparr>))"
| "px_event (WaitForSlot r k) s = (case attempt r k (px_capacity s) of
     (False, cap) \<Rightarrow> Some (Inr (s\<lparr> px_capacity := cap \<rparr>)) | (True, cap) \<Rightarrow> None)"
| "px_event (Admit r k sock) s = (case attempt r k (px_capacity s) of
     (True, cap) \<Rightarrow> Some (Inr (s\<lparr> px_capacity := cap, px_clients := (k, sock, False) # px_clients s \<rparr>))
   | (False, cap) \<Rightarrow> None)"
| "px_event (Refuse r k sock) s = (case attempt r k (px_capacity s) of
     (False, cap) \<Rightarrow> Some (Inr (s\<lparr> px_capacity := cap, px_closed := sock # px_closed s \<rparr>))
   | (True, cap) \<Rightarrow> None)"
| "px_event (ThreadStarts k sock) s =
     (if (k, sock, False) \<in> set (px_clients s)
      then Some (Inr (s\<lparr> px_clients := (k, sock, True) # remove1 (k, sock, False) (px_clients s),
             px_registry := (if px_tracked s k then (px_registry s)(k := registry_add sock (px_registry s k))
               else px_registry s) \<rparr>))
      else None)"
| "px_event (ThreadFails k sock) s =
     (if (k, sock, False) \<in> set (px_clients s) then Some (release_client k sock False s) else None)"
| "px_event (ClientEnds k sock) s =
     (if (k, sock, True) \<in> set (px_clients s) then Some (release_client k sock True (untrack k sock s)) else None)"
| "px_event (CloseAll k closes) s = (case registry_close_all closes (px_registry s k) of
     (n, shut, conns) \<Rightarrow> Some (Inr (s\<lparr> px_registry := (px_registry s)(k := conns),
        px_closed := shut @ px_closed s \<rparr>)))"

inductive px_run :: "proxy_state \<Rightarrow> proxy_event list \<Rightarrow> proxy_state \<Rightarrow> bool" where
  px_stop: "px_run s [] s"
| px_step: "px_run s es t \<Longrightarrow> px_event e t = Some (Inr u) \<Longrightarrow> px_run s (es @ [e]) u"

section \<open>Accounting\<close>

text \<open>The slots are held by the clients, and every registered socket is that of a client whose
  thread runs.\<close>

definition px_inv :: "proxy_state \<Rightarrow> bool" where
  "px_inv s = (cap.tracks (px_capacity s) (map fst (px_clients s))
     \<and> (\<forall>k. set (px_registry s k) \<subseteq> {sock. (k, sock, True) \<in> set (px_clients s)})
     \<and> (\<forall>k. px_tracked s k \<or> px_registry s k = []))"

lemma px_inv_start: "px_inv (px_start (new_capacity g p w r) tracked)"
  by (simp add: px_inv_def px_start_def cap.tracks_def) (simp add: new_capacity_def)

lemma cap_sound_listeners [simp]:
  "cap_sound (register_listener k c) = cap_sound c" "cap_sound (unregister_listener k c) = cap_sound c"
  "held (register_listener k c) = held c" "held (unregister_listener k c) = held c"
  "pc_active (register_listener k c) = pc_active c" "pc_active (unregister_listener k c) = pc_active c"
  by (simp_all add: cap_sound_def register_listener_def unregister_listener_def held_def fun_eq_iff)

lemma tracks_keep:
  "cap.tracks c ks \<Longrightarrow> cap.tracks (register_listener k c) ks"
  "cap.tracks c ks \<Longrightarrow> cap.tracks (unregister_listener k c) ks"
  "cap.tracks c ks \<Longrightarrow> cap.tracks (refresh r c) ks"
  by (auto simp: cap.tracks_def cap_sound_refresh)

lemma tracks_mset: "cap.tracks c ks \<Longrightarrow> (\<And>k. count_list ls k = count_list ks k) \<Longrightarrow> length ls = length ks
    \<Longrightarrow> cap.tracks c ls"
  by (simp add: cap.tracks_def)

lemma count_map_pos: "x \<in> set xs \<Longrightarrow> 0 < count_list (map f xs) (f x)"
  by (induction xs) auto

lemma count_map_remove1:
  assumes "x \<in> set xs"
  shows "count_list (map f (remove1 x xs)) k = count_list (map f xs) k - (if f x = k then 1 else 0)"
  using assms
proof (induction xs)
  case (Cons y ys)
  show ?case
  proof (cases "x = y")
    case False
    with Cons have "x \<in> set ys" by simp
    with Cons.IH count_map_pos [OF this, of f] False show ?thesis by auto
  qed simp
qed simp

lemma release_client_ok:
  assumes inv: "px_inv s" and mem: "(k, sock, b) \<in> set (px_clients s)"
    and reg: "b \<Longrightarrow> px_tracked s k \<Longrightarrow> sock \<notin> set (px_registry s k)"
  shows "\<exists>s'. release_client k sock b s = Inr s' \<and> px_inv s'"
proof -
  have "k \<in> set (map fst (px_clients s))" using mem by force
  moreover have "cap.tracks (px_capacity s) (map fst (px_clients s))" using inv by (simp add: px_inv_def)
  ultimately obtain c where
    c: "release k (px_capacity s) = Inr c" "cap.tracks c (remove1 k (map fst (px_clients s)))"
    using cap.tracks_given by blast
  have "cap.tracks c (map fst (remove1 (k, sock, b) (px_clients s)))"
    using mem \<open>k \<in> set (map fst (px_clients s))\<close>
    by (intro tracks_mset [OF c(2)]) (simp_all add: count_map_remove1 cap.count_remove1 length_remove1)
  moreover have "set (px_registry s j) \<subseteq> {x. (j, x, True) \<in> set (remove1 (k, sock, b) (px_clients s))}" for j
  proof
    fix x assume x: "x \<in> set (px_registry s j)"
    then have "(j, x, True) \<in> set (px_clients s)" using inv by (auto simp: px_inv_def)
    moreover have "px_tracked s k \<or> px_registry s k = []" using inv by (simp add: px_inv_def)
    then have "(j, x, True) \<noteq> (k, sock, b)" using x reg by auto
    ultimately show "x \<in> {x. (j, x, True) \<in> set (remove1 (k, sock, b) (px_clients s))}"
      by (simp add: in_set_remove1)
  qed
  ultimately show ?thesis using inv by (simp add: release_client_def c(1) px_inv_def)
qed


lemma px_inv_event:
  assumes inv: "px_inv s"
  shows "\<not> (\<exists>e'. px_event e s = Some (Inl e'))" "px_event e s = Some (Inr t) \<Longrightarrow> px_inv t"
proof -
  have tr: "cap.tracks (px_capacity s) (map fst (px_clients s))" using inv by (simp add: px_inv_def)
  have "(\<exists>u. px_event e s = Some (Inr u) \<and> px_inv u) \<or> px_event e s = None"
  proof (cases e)
    case (Snapshot r)
    then show ?thesis using inv by (simp add: px_inv_def capacity_snapshot_def Let_def tracks_keep)
  next
    case (WaitForSlot r k)
    then show ?thesis using inv tr cap.tracks_refused [OF tr, of r k] by (auto simp: px_inv_def split: prod.splits bool.splits)
  next
    case (Admit r k sock)
    then show ?thesis using inv cap.tracks_taken [OF tr, of r k] by (fastforce simp: px_inv_def split: prod.splits bool.splits)
  next
    case (Refuse r k sock)
    then show ?thesis using inv cap.tracks_refused [OF tr, of r k] by (auto simp: px_inv_def split: prod.splits bool.splits)
  next
    case (ThreadStarts k sock)
    show ?thesis
    proof (cases "(k, sock, False) \<in> set (px_clients s)")
      case True
      have "cap.tracks (px_capacity s) (map fst ((k, sock, True) # remove1 (k, sock, False) (px_clients s)))"
        using True count_map_pos [OF True, of fst] length_pos_if_in_set [OF True]
        by (intro tracks_mset [OF tr]) (auto simp: count_map_remove1 [OF True] length_remove1)
      then show ?thesis
        using True inv ThreadStarts by (auto simp: px_inv_def registry_add_def in_set_remove1)
    qed (simp add: ThreadStarts)
  next
    case (ThreadFails k sock)
    then show ?thesis using release_client_ok [OF inv, of k sock False] by auto
  next
    case (ClientEnds k sock)
    let ?s = "untrack k sock s"
    have "px_inv ?s" using inv by (auto simp: px_inv_def untrack_def registry_discard_def)
    moreover have "px_tracked ?s k \<Longrightarrow> sock \<notin> set (px_registry ?s k)"
      by (cases "px_tracked s k") (simp_all add: untrack_def registry_discard_def)
    moreover have "px_clients ?s = px_clients s" by (simp add: untrack_def)
    ultimately show ?thesis using release_client_ok [of ?s k sock True] ClientEnds by auto
  next
    case (CloseAll k closes)
    then show ?thesis using inv by (auto simp: px_inv_def registry_close_all_def Let_def)
  qed (use inv in \<open>simp_all add: px_inv_def tracks_keep\<close>)
  then show "\<not> (\<exists>e'. px_event e s = Some (Inl e'))" "px_event e s = Some (Inr t) \<Longrightarrow> px_inv t" by auto
qed

lemma px_run_inv: "px_run s es t \<Longrightarrow> px_inv s \<Longrightarrow> px_inv t"
  by (induction rule: px_run.induct) (auto dest: px_inv_event(2))


section \<open>Reserved places\<close>

definition shortage :: "proxy_capacity \<Rightarrow> string \<Rightarrow> int" where
  "shortage c k = max 0 (pc_reserve c - held c k)"

text \<open>What the registered listeners could still claim, together with what is in use, fits.\<close>

definition reserve_fits :: "proxy_capacity \<Rightarrow> bool" where
  "reserve_fits c = (distinct (pc_registered c)
     \<and> pc_active c + sum_list (map (shortage c) (pc_registered c)) \<le> pc_global_limit c
     \<and> pc_reserve c * int (length (pc_registered c)) < pc_global_limit c
     \<and> pc_global_limit c = pc_configured_limit c)"

lemma shortage_nonneg: "0 \<le> shortage c k"
  by (simp add: shortage_def)

lemma shortage_bound: "0 \<le> held c k \<Longrightarrow> 0 \<le> pc_reserve c \<Longrightarrow> shortage c k \<le> pc_reserve c"
  by (simp add: shortage_def)

lemma sum_list_le:
  fixes f :: "'a \<Rightarrow> int"
  shows "(\<And>x. f x \<le> m) \<Longrightarrow> sum_list (map f xs) \<le> m * int (length xs)"
proof (induction xs)
  case (Cons a xs)
  have "f a + sum_list (map f xs) \<le> m + m * int (length xs)" using Cons by (intro add_mono) auto
  then show ?case by (simp add: algebra_simps)
qed simp

lemma sum_filter_split:
  fixes f :: "'a \<Rightarrow> int"
  shows "distinct ks \<Longrightarrow> sum_list (map f ks)
    = sum_list (map f (filter (\<lambda>j. j \<noteq> k) ks)) + (if k \<in> set ks then f k else 0)"
proof (induction ks)
  case (Cons a ks)
  show ?case
  proof (cases "a = k")
    case True
    with Cons.prems have "filter (\<lambda>j. j \<noteq> k) ks = ks" by (auto intro: filter_True)
    with True Cons.prems show ?thesis by simp
  next
    case False
    with Cons.prems Cons.IH show ?thesis by simp
  qed
qed simp

lemma reserved_shortage:
  "reserved k c = min (sum_list (map (shortage c) (filter (\<lambda>j. j \<noteq> k) (pc_registered c)))) (max 0 (pc_global_limit c - 1))"
proof -
  have "(\<lambda>key. max 0 (pc_reserve c - held c key)) = shortage c" by (simp add: shortage_def fun_eq_iff)
  then show ?thesis by (simp add: reserved_def)
qed

lemma reserve_admits:
  assumes fits: "reserve_fits c" and k: "k \<in> set (pc_registered c)"
    and low: "held c k < pc_reserve c" "held c k < pc_per_listener_limit c"
  shows "admissible k c"
proof -
  let ?others = "sum_list (map (shortage c) (filter (\<lambda>j. j \<noteq> k) (pc_registered c)))"
  have "pc_active c + (?others + shortage c k) \<le> pc_global_limit c"
    using fits k sum_filter_split [of "pc_registered c" "shortage c" k] by (simp add: reserve_fits_def)
  moreover have "1 \<le> shortage c k" using low(1) by (simp add: shortage_def)
  ultimately have "pc_active c < pc_global_limit c - ?others" by linarith
  with low(2) show ?thesis unfolding admissible_def reserved_shortage by linarith
qed

lemma admit_keeps_fit:
  assumes fits: "reserve_fits c" and adm: "admissible k c"
    and c': "held c' = (held c)(k := held c k + 1)" "pc_active c' = pc_active c + 1"
      "pc_registered c' = pc_registered c" "pc_reserve c' = pc_reserve c"
      "pc_global_limit c' = pc_global_limit c" "pc_configured_limit c' = pc_configured_limit c"
    and sound: "cap_sound c" "0 \<le> pc_reserve c"
  shows "reserve_fits c'"
proof -
  let ?rest = "filter (\<lambda>j. j \<noteq> k) (pc_registered c)"
  have d: "distinct (pc_registered c)" using fits by (simp add: reserve_fits_def)
  have short: "shortage c' j = shortage c j" if "j \<noteq> k" for j using that by (simp add: shortage_def c')
  then have same: "map (shortage c') ?rest = map (shortage c) ?rest" by simp
  have others: "0 \<le> sum_list (map (shortage c) ?rest)"
    by (auto simp: shortage_nonneg intro!: sum_list_nonneg)
  have old: "pc_active c + (sum_list (map (shortage c) ?rest)
      + (if k \<in> set (pc_registered c) then shortage c k else 0)) \<le> pc_global_limit c"
    using fits sum_filter_split [OF d, of "shortage c" k] by (simp add: reserve_fits_def)
  have "pc_active c + 1 + (sum_list (map (shortage c) ?rest)
      + (if k \<in> set (pc_registered c) then shortage c' k else 0)) \<le> pc_global_limit c"
  proof (cases "k \<in> set (pc_registered c) \<and> held c k < pc_reserve c")
    case True
    then have "shortage c' k = shortage c k - 1" by (simp add: shortage_def c')
    with old True show ?thesis by simp
  next
    case False
    then have "(if k \<in> set (pc_registered c) then shortage c' k else 0) = 0"
      by (auto simp: shortage_def c')
    moreover have "sum_list (map (shortage c) ?rest) \<le> pc_global_limit c - 1"
    proof -
      have "sum_list (map (shortage c) ?rest) \<le> sum_list (map (shortage c) (pc_registered c))"
        using sum_filter_split [OF d, of "shortage c" k] shortage_nonneg [of c k] by auto
      also have "\<dots> \<le> pc_reserve c * int (length (pc_registered c))"
        using shortage_bound held_bound [OF sound(1)] sound(2) by (intro sum_list_le) blast
      finally show ?thesis using fits by (simp add: reserve_fits_def)
    qed
    then have "reserved k c = sum_list (map (shortage c) ?rest)"
      unfolding reserved_shortage using others by simp
    then have "pc_active c < pc_global_limit c - sum_list (map (shortage c) ?rest)"
      using adm by (simp add: admissible_def)
    ultimately show ?thesis by linarith
  qed
  then show ?thesis
    using fits sum_filter_split [OF d, of "shortage c'" k] same by (simp add: reserve_fits_def c')
qed


lemma release_fields:
  assumes "release k c = Inr c'"
  shows "held c' = (held c)(k := held c k - 1)" "pc_active c' = pc_active c - 1"
    "pc_registered c' = pc_registered c" "pc_reserve c' = pc_reserve c"
    "pc_global_limit c' = pc_global_limit c" "pc_configured_limit c' = pc_configured_limit c"
  using assms by (auto simp: release_def Let_def held_def fun_eq_iff update_conv' delete_conv' split: if_splits)

lemma release_keeps_fit:
  assumes fits: "reserve_fits c" and rel: "release k c = Inr c'"
  shows "reserve_fits c'"
proof -
  note c' = release_fields [OF rel]
  let ?rest = "filter (\<lambda>j. j \<noteq> k) (pc_registered c)"
  have d: "distinct (pc_registered c)" using fits by (simp add: reserve_fits_def)
  have "map (shortage c') ?rest = map (shortage c) ?rest" by (simp add: shortage_def c')
  then have "sum_list (map (shortage c') ?rest) = sum_list (map (shortage c) ?rest)" by (rule arg_cong)
  moreover have "shortage c' k \<le> shortage c k + 1" by (simp add: shortage_def c')
  ultimately have "sum_list (map (shortage c') (pc_registered c)) \<le> sum_list (map (shortage c) (pc_registered c)) + 1"
    using sum_filter_split [OF d, of "shortage c'" k] sum_filter_split [OF d, of "shortage c" k]
    by (cases "k \<in> set (pc_registered c)") simp_all
  with fits show ?thesis by (auto simp: reserve_fits_def c')
qed

lemma unregister_keeps_fit:
  assumes fits: "reserve_fits c" "0 \<le> pc_reserve c"
  shows "reserve_fits (unregister_listener k c)"
proof -
  let ?c = "unregister_listener k c"
  have d: "distinct (pc_registered c)" using fits by (simp add: reserve_fits_def)
  have reg: "pc_registered ?c = filter (\<lambda>j. j \<noteq> k) (pc_registered c)"
    by (auto simp: unregister_listener_def removeAll_filter_not_eq intro: filter_cong)
  have "shortage ?c = shortage c"
    by (simp add: shortage_def fun_eq_iff) (simp add: unregister_listener_def)
  then have "sum_list (map (shortage ?c) (pc_registered ?c)) \<le> sum_list (map (shortage c) (pc_registered c))"
    using sum_filter_split [OF d, of "shortage c" k] shortage_nonneg [of c k] by (auto simp: reg)
  moreover have "pc_reserve c * int (length (pc_registered ?c)) \<le> pc_reserve c * int (length (pc_registered c))"
    using fits(2) by (intro mult_left_mono) (simp_all add: reg)
  moreover have "distinct (pc_registered ?c)" using d by (simp add: reg)
  ultimately show ?thesis using fits by (auto simp: reserve_fits_def unregister_listener_def)
qed

text \<open>Events of a host with room: no sample is below the limit that was configured.\<close>

definition roomy :: "int \<Rightarrow> cap_round \<Rightarrow> bool" where
  "roomy limit r = (case rd_sample r of None \<Rightarrow> True | Some n \<Rightarrow> limit \<le> n)"

fun roomy_event :: "int \<Rightarrow> proxy_event \<Rightarrow> bool" where
  "roomy_event limit (Snapshot r) = roomy limit r"
| "roomy_event limit (WaitForSlot r k) = roomy limit r"
| "roomy_event limit (Admit r k sock) = roomy limit r"
| "roomy_event limit (Refuse r k sock) = roomy limit r"
| "roomy_event limit _ = True"

text \<open>A listener starts with room: the connections in use, what the registered listeners may still
  claim and its own reserve fit below the limit.\<close>

definition room_to_listen :: "int \<Rightarrow> string \<Rightarrow> proxy_capacity \<Rightarrow> bool" where
  "room_to_listen limit k c = (let ks = List.insert k (pc_registered c) in
     pc_active c + sum_list (map (\<lambda>i. max 0 (pc_reserve c - held c i)) ks) \<le> limit
     \<and> pc_reserve c * int (length ks) < limit)"

fun listens_with_room :: "int \<Rightarrow> proxy_event list \<Rightarrow> proxy_state \<Rightarrow> bool" where
  "listens_with_room limit [] s = True"
| "listens_with_room limit (e # es) s =
     ((case e of Listen k \<Rightarrow> room_to_listen limit k (px_capacity s) | _ \<Rightarrow> True)
      \<and> (case px_event e s of Some (Inr t) \<Rightarrow> listens_with_room limit es t | _ \<Rightarrow> True))"

lemma refresh_roomy:
  assumes "reserve_fits c" "0 \<le> pc_active c" "roomy (pc_configured_limit c) r"
  shows "pc_global_limit (refresh r c) = pc_global_limit c" "reserve_fits (refresh r c)"
proof -
  show g: "pc_global_limit (refresh r c) = pc_global_limit c"
    using assms by (auto simp: refresh_def roomy_def reserve_fits_def split: option.split)
  have "shortage (refresh r c) = shortage c" by (simp add: shortage_def fun_eq_iff)
  then show "reserve_fits (refresh r c)" using assms(1) g by (simp add: reserve_fits_def)
qed

definition fit_inv :: "int \<Rightarrow> proxy_state \<Rightarrow> bool" where
  "fit_inv limit s = (px_inv s \<and> reserve_fits (px_capacity s) \<and> 0 \<le> pc_reserve (px_capacity s)
     \<and> pc_configured_limit (px_capacity s) = limit)"

lemma tracks_active: "cap.tracks c ks \<Longrightarrow> 0 \<le> pc_active c"
  by (simp add: cap.tracks_def)

lemma attempt_keeps_fit:
  assumes "reserve_fits c" "cap_sound c" "0 \<le> pc_active c" "0 \<le> pc_reserve c"
    and "roomy (pc_configured_limit c) r" and att: "attempt r k c = (b, c')"
  shows "reserve_fits c'"
proof (cases b)
  case True
  with att have "attempt r k c = (True, c')" by simp
  note adm = attempt_true(1) [OF this] and c' = attempt_true(2) [OF this]
    and held' = attempt_taken [OF assms(2) this]
  show ?thesis
  proof (rule admit_keeps_fit [of "refresh r c" k])
    show "cap_sound (refresh r c)" using assms(2) by (rule cap_sound_refresh)
  qed (use refresh_roomy [OF assms(1,3,5)] adm held' assms(4) in \<open>simp_all add: c'\<close>)
next
  case False
  with att attempt_false [of r k c c'] refresh_roomy [OF assms(1,3,5)] show ?thesis by simp
qed

lemma attempt_constants:
  "attempt r k c = (b, c') \<Longrightarrow> pc_reserve c' = pc_reserve c \<and> pc_configured_limit c' = pc_configured_limit c"
  by (auto simp: attempt_def Let_def split: if_splits)

lemma fit_inv_event:
  assumes inv: "fit_inv limit s" and ev: "px_event e s = Some (Inr t)" and room: "roomy_event limit e"
    and listen: "\<And>k. e = Listen k \<Longrightarrow> room_to_listen limit k (px_capacity s)"
  shows "fit_inv limit t"
proof -
  let ?c = "px_capacity s"
  have "px_inv s" using inv by (simp add: fit_inv_def)
  then have px: "px_inv t" using ev by (rule px_inv_event(2))
  have tr: "cap.tracks ?c (map fst (px_clients s))" using inv by (simp add: fit_inv_def px_inv_def)
  have facts: "reserve_fits ?c" "cap_sound ?c" "0 \<le> pc_active ?c" "0 \<le> pc_reserve ?c" "pc_configured_limit ?c = limit"
    using inv tr tracks_active [OF tr] by (auto simp: fit_inv_def cap.tracks_def)
  have "reserve_fits (px_capacity t) \<and> 0 \<le> pc_reserve (px_capacity t) \<and> pc_configured_limit (px_capacity t) = limit"
  proof -
    have att: "?thesis" if "attempt r k ?c = (b, px_capacity t)" "roomy limit r" for r k b
      using attempt_keeps_fit [OF facts(1-4) _ that(1)] attempt_constants [OF that(1)] that(2) facts by simp
    have rel: "?thesis" if "release k ?c = Inr (px_capacity t)" for k
      using release_keeps_fit [OF facts(1) that] release_fields [OF that] facts by simp
    have fin: "?thesis" if "release_client k sock b s' = Inr t" "px_capacity s' = ?c" for k sock b s'
      using that rel [of k] by (auto simp: release_client_def err_bind_Inr)
    show ?thesis
      using ev room facts
    proof (cases e)
      case (Listen k)
      have "shortage (register_listener k ?c) = shortage ?c"
        by (simp add: shortage_def fun_eq_iff) (simp add: register_listener_def)
      moreover have "(\<lambda>i. max 0 (pc_reserve ?c - held ?c i)) = shortage ?c" by (simp add: shortage_def fun_eq_iff)
      ultimately have "reserve_fits (register_listener k ?c)"
        using listen [OF Listen] facts unfolding room_to_listen_def Let_def reserve_fits_def
        by (simp add: register_listener_def)
      with Listen ev facts show ?thesis by (auto simp: register_listener_def)
    next
      case (StopListening k)
      with ev facts unregister_keeps_fit [of ?c k] show ?thesis by (auto simp: unregister_listener_def)
    next
      case (Snapshot r)
      with ev facts room refresh_roomy(2) [OF facts(1,3), of r] show ?thesis
        by (auto simp: capacity_snapshot_def Let_def)
    next
      case (ClientEnds k sock)
      with ev fin [of k sock True "untrack k sock s"] show ?thesis
        by (auto simp: untrack_def split: if_splits)
    next
      case (ThreadFails k sock)
      with ev fin [of k sock False s] show ?thesis by (auto split: if_splits)
    next
      case (CloseAll k closes)
      with ev facts show ?thesis by (auto simp: registry_close_all_def Let_def)
    qed (use ev room facts att in \<open>auto split: prod.splits bool.splits if_splits\<close>)
  qed
  then show ?thesis using px by (simp add: fit_inv_def)
qed

fun px_events :: "proxy_event list \<Rightarrow> proxy_state \<Rightarrow> proxy_state option" where
  "px_events [] s = Some s"
| "px_events (e # es) s = (case px_event e s of Some (Inr t) \<Rightarrow> px_events es t | _ \<Rightarrow> None)"

lemma px_events_snoc: "px_events es s = Some t \<Longrightarrow> px_event e t = Some (Inr u) \<Longrightarrow> px_events (es @ [e]) s = Some u"
  by (induction es arbitrary: s) (auto split: option.splits sum.splits)

lemma px_run_events: "px_run s es t \<Longrightarrow> px_events es s = Some t"
  by (induction rule: px_run.induct) (auto intro: px_events_snoc)

lemma fit_inv_events:
  "px_events es s = Some t \<Longrightarrow> fit_inv limit s \<Longrightarrow> list_all (roomy_event limit) es \<Longrightarrow> listens_with_room limit es s
    \<Longrightarrow> fit_inv limit t"
proof (induction es arbitrary: s)
  case (Cons e es)
  then obtain u where u: "px_event e s = Some (Inr u)" "px_events es u = Some t"
    by (auto split: option.splits sum.splits)
  have "fit_inv limit u"
    by (rule fit_inv_event [OF Cons.prems(2) u(1)]) (use Cons.prems in auto)
  with Cons u show ?case by simp
qed simp

section \<open>Properties\<close>

definition limits_of :: "proxy_capacity \<Rightarrow> int \<times> int \<times> int" where
  "limits_of c = (pc_configured_limit c, pc_per_listener_limit c, pc_reserve c)"

lemma limits_of_keep:
  "limits_of (register_listener k c) = limits_of c" "limits_of (unregister_listener k c) = limits_of c"
  "limits_of (snd (capacity_snapshot r c)) = limits_of c"
  "attempt r k c = (b, c') \<Longrightarrow> limits_of c' = limits_of c"
  "release k c = Inr c' \<Longrightarrow> limits_of c' = limits_of c"
  by (auto simp: limits_of_def register_listener_def unregister_listener_def capacity_snapshot_def
      attempt_def release_def Let_def split: if_splits)

lemma px_event_limits:
  "px_event e s = Some (Inr t) \<Longrightarrow> limits_of (px_capacity t) = limits_of (px_capacity s)"
  by (cases e) (auto simp: limits_of_keep release_client_def err_bind_Inr untrack_def registry_close_all_def
      Let_def split: if_splits prod.splits bool.splits)

lemma px_run_limits: "px_run s es t \<Longrightarrow> limits_of (px_capacity t) = limits_of (px_capacity s)"
  by (induction rule: px_run.induct) (auto dest: px_event_limits)

text \<open>C9. In every interleaving of the listeners, client threads, failed thread starts and forced
  closes, the shared capacity counts exactly the clients alive, in total and for each listener,
  within the global and the per-listener limit; no event raises, so every client gives its slot
  back exactly once; and a registry holds only sockets of clients whose thread runs.\<close>

theorem capacity_accounting:
  assumes "px_run (px_start (new_capacity g p w r) tracked) es s"
  shows "pc_active (px_capacity s) = int (length (px_clients s))
    \<and> held (px_capacity s) k = int (count_list (map fst (px_clients s)) k)
    \<and> pc_active (px_capacity s) \<le> max 1 g
    \<and> held (px_capacity s) k \<le> max 1 (min p (max 1 g))
    \<and> px_event e s \<noteq> Some (Inl err)
    \<and> set (px_registry s k) \<subseteq> {sock. (k, sock, True) \<in> set (px_clients s)}"
proof -
  have inv: "px_inv s" using px_run_inv [OF assms px_inv_start] .
  have lim: "pc_configured_limit (px_capacity s) = max 1 g"
    "pc_per_listener_limit (px_capacity s) = max 1 (min p (max 1 g))"
    using px_run_limits [OF assms] by (auto simp: limits_of_def px_start_def new_capacity_def)
  have tr: "cap.tracks (px_capacity s) (map fst (px_clients s))" using inv by (simp add: px_inv_def)
  then have sound: "cap_sound (px_capacity s)" by (simp add: cap.tracks_def)
  then have "pc_active (px_capacity s) \<le> max 1 g" by (simp add: cap_sound_def lim(1))
  with tr held_bound [OF sound, of k] px_inv_event(1) [OF inv, of e] inv show ?thesis
    by (auto simp: cap.tracks_def lim px_inv_def)
qed

lemma new_capacity_fields:
  "pc_active (new_capacity g p w r) = 0" "pc_registered (new_capacity g p w r) = []"
  "pc_global_limit (new_capacity g p w r) = max 1 g" "pc_configured_limit (new_capacity g p w r) = max 1 g"
  "pc_per_listener_limit (new_capacity g p w r) = max 1 (min p (max 1 g))"
  "pc_reserve (new_capacity g p w r) = max 0 r"
  by (simp_all add: new_capacity_def)

lemma fit_inv_start:
  assumes "0 \<le> r"
  shows "fit_inv (max 1 g) (px_start (new_capacity g p w r) tracked)"
  using px_inv_start [of g p w r tracked] assms
  by (simp add: fit_inv_def px_start_def reserve_fits_def new_capacity_fields max_def)

text \<open>C29. On a host with room, a reserve is kept whatever the other listeners do: they may be
  started and stopped at any time, as long as each is started when the connections in use
  and the reserves still open leave room for its own, and their traffic is arbitrary. In
  every state that follows, a listener that runs and holds fewer connections than its reserve gets
  its next connection at the first attempt.\<close>

theorem reserve_guaranteed:
  assumes "px_run (px_start (new_capacity g p w r) tracked) es s"
    and "list_all (roomy_event (max 1 g)) es" and "roomy (max 1 g) rd"
    and "0 \<le> r" and "listens_with_room (max 1 g) es (px_start (new_capacity g p w r) tracked)"
    and "k \<in> set (pc_registered (px_capacity s))"
    and "held (px_capacity s) k < r" and "held (px_capacity s) k < max 1 (min p (max 1 g))"
  shows "fst (attempt rd k (px_capacity s))"
proof -
  let ?c = "px_capacity s"
  have inv: "fit_inv (max 1 g) s"
    by (rule fit_inv_events [OF px_run_events [OF assms(1)] fit_inv_start [OF assms(4)] assms(2,5)])
  have "limits_of ?c = limits_of (new_capacity g p w r)"
    using px_run_limits [OF assms(1)] by (simp add: px_start_def)
  then have lim: "limits_of ?c = (max 1 g, max 1 (min p (max 1 g)), r)"
    using assms(4) by (simp add: limits_of_def new_capacity_fields)
  have act: "0 \<le> pc_active ?c" using inv tracks_active by (auto simp: fit_inv_def px_inv_def)
  have fits: "reserve_fits (refresh rd ?c)"
    using refresh_roomy(2) [of ?c rd] inv act assms(3) by (simp add: fit_inv_def)
  have "admissible k (refresh rd ?c)"
    using fits assms(6,7,8) lim by (intro reserve_admits) (simp_all add: limits_of_def)
  then show ?thesis by (simp add: attempt_def)
qed


section \<open>Concrete runs\<close>

lemma px_events_run_from: "px_run s0 es0 s \<Longrightarrow> px_events es s = Some t \<Longrightarrow> px_run s0 (es0 @ es) t"
proof (induction es arbitrary: es0 s)
  case (Cons e es)
  then obtain u where u: "px_event e s = Some (Inr u)" "px_events es u = Some t"
    by (auto split: option.splits sum.splits)
  with Cons.IH [OF px_step [OF Cons.prems(1) u(1)]] show ?case by simp
qed simp

lemma px_events_run: "px_events es s = Some t \<Longrightarrow> px_run s es t"
  using px_events_run_from [OF px_stop, of es s t] by simp

definition sample_round :: cap_round where
  "sample_round = \<lparr> rd_sample = Some 8, rd_now = 1, rd_sampled = 1, rd_check = 2 \<rparr>"

definition sample_start :: proxy_state where
  "sample_start = px_start (new_capacity 5 4 250 1) (\<lambda>k. k = ''a'')"

definition sample_events :: "proxy_event list" where
  "sample_events = [Listen ''b'', Listen ''a'', Admit sample_round ''a'' 1, ThreadStarts ''a'' 1, Admit sample_round ''a'' 2,
     ThreadFails ''a'' 2, Admit sample_round ''a'' 3, Listen ''c'', Admit sample_round ''a'' 4, Refuse sample_round ''a'' 5, StopListening ''c'']"

definition sample_state :: proxy_state where
  "sample_state = (case px_events sample_events sample_start of Some s \<Rightarrow> s | None \<Rightarrow> sample_start)"

lemma sample_run: "px_run sample_start sample_events sample_state"
proof -
  have "px_events sample_events sample_start \<noteq> None" by code_simp
  then have "px_events sample_events sample_start = Some sample_state"
    by (auto simp: sample_state_def)
  then show ?thesis by (rule px_events_run)
qed

definition plain_state :: proxy_state where
  "plain_state = px_start (new_capacity 5 4 250 2) (\<lambda>k. k = ''a'')"

definition plain_events :: "proxy_event list" where
  "plain_events = [Listen ''a'', Admit sample_round ''a'' 1, ThreadStarts ''a'' 1, Admit sample_round ''a'' 2]"

definition plain_end :: proxy_state where
  "plain_end = (case px_events plain_events plain_state of Some s \<Rightarrow> s | None \<Rightarrow> plain_state)"

lemma plain_run: "px_run plain_state plain_events plain_end"
proof -
  have "px_events plain_events plain_state \<noteq> None" by code_simp
  then have "px_events plain_events plain_state = Some plain_end" by (auto simp: plain_end_def)
  then show ?thesis by (rule px_events_run)
qed

theorem capacity_accounting_witness:
  "pc_active (px_capacity plain_end) = int (length (px_clients plain_end))
    \<and> length (px_clients plain_end) = 2"
proof -
  have "length (px_clients plain_end) = 2" by code_simp
  with capacity_accounting [OF plain_run [unfolded plain_state_def]] show ?thesis by simp
qed

theorem reserve_guaranteed_witness:
  "held (px_capacity sample_state) ''a'' = 3 \<and> fst (attempt sample_round ''b'' (px_capacity sample_state))"
proof -
  have "list_all (roomy_event (max 1 5)) sample_events" by code_simp
  moreover have "roomy (max 1 5) sample_round" by code_simp
  moreover have "''b'' \<in> set (pc_registered (px_capacity sample_state))" by code_simp
  moreover have "held (px_capacity sample_state) ''b'' < 1" by code_simp
  moreover have "held (px_capacity sample_state) ''b'' < max 1 (min 4 (max 1 5))" by code_simp
  moreover have "listens_with_room (max 1 5) sample_events sample_start" by code_simp
  ultimately have "fst (attempt sample_round ''b'' (px_capacity sample_state))"
    using reserve_guaranteed [OF sample_run [unfolded sample_start_def]] by (simp add: sample_start_def)
  moreover have "held (px_capacity sample_state) ''a'' = 3" by code_simp
  ultimately show ?thesis by blast
qed

end
