(* ===== verification/Bytes.thy ===== *)
theory Bytes
  imports Py_Base "HOL-Library.Word"
begin

text \<open>
  Bytes as machine words: the numbers that \<open>to_bytes\<close> and \<open>from_bytes\<close> write and read in network
  order, and \<open>recv_exact\<close> of \<^verbatim>\<open>services/aimili-egress/proxy_server.py\<close>, which collects a given number
  of bytes from what single calls of \<open>recv\<close> deliver.
\<close>

unbundle bit_operations_syntax

type_synonym byte = "8 word"

definition from_be :: "byte list \<Rightarrow> nat" where
  "from_be bs = foldl (\<lambda>n b. n * 256 + unat b) 0 bs"

text \<open>\<open>n.to_bytes(2, "big")\<close> raises when the number does not fit.\<close>

definition be2 :: "nat \<Rightarrow> byte list" where
  "be2 n = [of_nat (n div 256), of_nat (n mod 256)]"

definition to_be2 :: "nat \<Rightarrow> pyexc + byte list" where
  "to_be2 n = (if n < 65536 then Inr (be2 n) else Inl OverflowError)"

lemma length_be2 [simp]: "length (be2 n) = 2"
  by (simp add: be2_def)

lemma from_be_be2 [simp]: "n < 65536 \<Longrightarrow> from_be (be2 n) = n"
  by (simp add: from_be_def be2_def unat_of_nat take_bit_eq_mod)

definition ascii_bytes :: "string \<Rightarrow> byte list" where
  "ascii_bytes s = map (\<lambda>c. of_nat (of_char c)) s"

section \<open>Reading an exact number of bytes\<close>

text \<open>The chunks are what the calls of \<open>recv\<close> deliver, each at most what is asked for; the end of
  the list or an empty chunk is the end of the stream or a timeout.\<close>

function recv_loop :: "nat \<Rightarrow> byte list \<Rightarrow> byte list list \<Rightarrow> pyexc + byte list \<times> byte list list" where
  "recv_loop want data chunks =
     (if want \<le> length data then Inr (data, chunks)
      else (case chunks of
          [] \<Rightarrow> Inl OSError
        | c # cs \<Rightarrow>
            if c = [] then Inl OSError
            else recv_loop want (data @ take (want - length data) c)
              (if length c \<le> want - length data then cs else drop (want - length data) c # cs)))"
  by pat_completeness auto
termination by (relation "measure (\<lambda>(want, data, chunks). length (concat chunks))") auto

declare recv_loop.simps [simp del]

definition recv_exact :: "nat \<Rightarrow> byte list list \<Rightarrow> pyexc + byte list \<times> byte list list" where
  "recv_exact want chunks = recv_loop want [] chunks"

text \<open>How the bytes are cut into chunks does not matter.\<close>

lemma recv_loop_stream:
  assumes "[] \<notin> set chunks" "length data \<le> want"
  shows "(\<exists>rest. recv_loop want data chunks = Inr (data @ take (want - length data) (concat chunks), rest)
            \<and> concat rest = drop (want - length data) (concat chunks) \<and> [] \<notin> set rest
            \<and> want \<le> length data + length (concat chunks))
    \<or> recv_loop want data chunks = Inl OSError \<and> length data + length (concat chunks) < want"
  using assms
proof (induction want data chunks rule: recv_loop.induct)
  case (1 want data chunks)
  show ?case
  proof (cases "want \<le> length data")
    case True
    with "1.prems" show ?thesis by (simp add: recv_loop.simps [of want data])
  next
    case False
    show ?thesis
    proof (cases chunks)
      case Nil
      with False show ?thesis by (simp add: recv_loop.simps [of want data])
    next
      case (Cons c cs)
      let ?n = "want - length data"
      let ?rest = "if length c \<le> ?n then cs else drop ?n c # cs"
      have c: "c \<noteq> []" "[] \<notin> set cs" using "1.prems"(1) Cons by auto
      have step: "recv_loop want data chunks = recv_loop want (data @ take ?n c) ?rest"
        using False Cons c by (simp add: recv_loop.simps [of want data])
      have ih: "(\<exists>rest. recv_loop want (data @ take ?n c) ?rest
            = Inr ((data @ take ?n c) @ take (want - length (data @ take ?n c)) (concat ?rest), rest)
          \<and> concat rest = drop (want - length (data @ take ?n c)) (concat ?rest) \<and> [] \<notin> set rest
          \<and> want \<le> length (data @ take ?n c) + length (concat ?rest))
        \<or> recv_loop want (data @ take ?n c) ?rest = Inl OSError
          \<and> length (data @ take ?n c) + length (concat ?rest) < want"
        using c False by (intro "1.IH" [OF False Cons]) auto
      show ?thesis
      proof (cases "length c \<le> ?n")
        case True
        with ih show ?thesis unfolding step by (simp add: Cons add.assoc)
      next
        case False
        with ih show ?thesis unfolding step by (auto simp: Cons)
      qed
    qed
  qed
qed

lemma recv_exact_stream:
  assumes "[] \<notin> set chunks"
  shows "recv_exact want chunks = Inr (bs, rest) \<Longrightarrow> bs = take want (concat chunks)
      \<and> concat rest = drop want (concat chunks) \<and> [] \<notin> set rest"
    and "want \<le> length (concat chunks) \<Longrightarrow> \<exists>rest. recv_exact want chunks = Inr (take want (concat chunks), rest)"
  using recv_loop_stream [OF assms, of "[]" want] by (auto simp: recv_exact_def)

lemma recv_loop_length:
  "recv_loop want data chunks = Inr (bs, rest) \<Longrightarrow> length data \<le> want \<Longrightarrow> length bs = want"
proof (induction want data chunks rule: recv_loop.induct)
  case (1 want data chunks)
  note unfold = recv_loop.simps [of want data chunks]
  show ?case
  proof (cases "want \<le> length data")
    case True
    with "1.prems" unfold show ?thesis by simp
  next
    case False
    show ?thesis
    proof (cases chunks)
      case Nil
      with "1.prems"(1) False unfold show ?thesis by simp
    next
      case (Cons c cs)
      then have c: "c \<noteq> []" using "1.prems"(1) False unfold by (cases "c = []") simp_all
      have "length (data @ take (want - length data) c) \<le> want" using False by simp
      with "1.IH" [OF False Cons c] "1.prems"(1) False Cons c unfold show ?thesis by simp
    qed
  qed
qed

lemma recv_exact_length: "recv_exact want chunks = Inr (bs, rest) \<Longrightarrow> length bs = want"
  using recv_loop_length [of want "[]" chunks] by (simp add: recv_exact_def)

end
