(* ===== verification/Proxy_Relay.thy ===== *)
theory Proxy_Relay
  imports Bytes
begin

text \<open>
  \<open>relay\<close> of \<^verbatim>\<open>services/aimili-egress/proxy_server.py\<close>: the loop that copies bytes between two
  sockets with a bounded buffer in each direction and passes on the end of each stream. One
  iteration is a function of what \<open>select\<close>, \<open>recv\<close> and \<open>send\<close> answer. The state also records
  the history: the bytes read from each socket and the bytes accepted by each socket.
\<close>

datatype side = LeftSide | RightSide

fun peer :: "side \<Rightarrow> side" where
  "peer LeftSide = RightSide"
| "peer RightSide = LeftSide"

lemma peer_peer [simp]: "peer (peer s) = s"
  by (cases s) simp_all

lemma peer_neq [simp]: "peer s \<noteq> s" "s \<noteq> peer s"
  by (cases s; simp)+

lemma peer_inj [simp]: "peer s = peer t \<longleftrightarrow> s = t"
  by (cases s; cases t) simp_all

lemma peer_swap: "peer s = t \<longleftrightarrow> s = peer t"
  by (cases s; cases t) simp_all

abbreviation both_sides :: "side list" where "both_sides \<equiv> [LeftSide, RightSide]"

lemma side_all: "(\<forall>s. P s) \<longleftrightarrow> P LeftSide \<and> P RightSide"
  by (metis side.exhaust)

record relay_state =
  out_buf :: "side \<Rightarrow> byte list"
  read_open :: "side \<Rightarrow> bool"
  write_shutdown :: "side \<Rightarrow> bool"
  got :: "side \<Rightarrow> byte list"
  sent :: "side \<Rightarrow> byte list"

definition relay_start :: relay_state where
  "relay_start = \<lparr> out_buf = (\<lambda>_. []), read_open = (\<lambda>_. True), write_shutdown = (\<lambda>_. False),
     got = (\<lambda>_. []), sent = (\<lambda>_. []) \<rparr>"

datatype recv_answer = RecvBlocked | RecvError | Recv "byte list"
datatype send_answer = SendBlocked | SendError | Accepted nat

text \<open>What the system answers in one iteration: whether \<open>select\<close> raises or reports an exceptional
  socket, which of the sockets asked for are ready, and what reading and writing them gives.\<close>

record poll =
  po_fails :: bool
  po_errored :: bool
  po_readable :: "side \<Rightarrow> bool"
  po_writable :: "side \<Rightarrow> bool"
  po_recv :: "side \<Rightarrow> recv_answer"
  po_send :: "side \<Rightarrow> send_answer"

datatype relay_exit = NothingOpen | SelectFailed | SocketErrored | TimedOut | RecvFailed | SendFailed | Completed

definition read_chunk :: nat where "read_chunk = 65536"

text \<open>What one call of \<open>recv\<close> returns of the bytes that arrived.\<close>

definition first_chunk :: "byte list \<Rightarrow> byte list" where
  "first_chunk bytes = take read_chunk bytes"

lemma first_chunk_code [code]:
  "first_chunk bytes = (if int (length bytes) \<le> 65536 then bytes else take read_chunk bytes)"
  by (simp add: first_chunk_def read_chunk_def)

lemma first_chunk_simps [simp]:
  "first_chunk [] = []" "first_chunk bytes = [] \<longleftrightarrow> bytes = []"
  "length (first_chunk bytes) \<le> read_chunk"
  by (simp_all add: first_chunk_def read_chunk_def)

definition rlist :: "nat \<Rightarrow> relay_state \<Rightarrow> side list" where
  "rlist high st = filter (\<lambda>s. read_open st s \<and> length (out_buf st (peer s)) < high) both_sides"

definition wlist :: "relay_state \<Rightarrow> side list" where
  "wlist st = filter (\<lambda>s. out_buf st s \<noteq> []) both_sides"

definition read_from :: "poll \<Rightarrow> side \<Rightarrow> relay_state \<Rightarrow> (relay_exit \<times> relay_state) + relay_state" where
  "read_from po s st = (case po_recv po s of
     RecvBlocked \<Rightarrow> Inr st
   | RecvError \<Rightarrow> Inl (RecvFailed, st)
   | Recv bytes \<Rightarrow>
       let data = first_chunk bytes in
       if data = [] then Inr (st\<lparr> read_open := (read_open st)(s := False) \<rparr>)
       else Inr (st\<lparr> out_buf := (out_buf st)(peer s := out_buf st (peer s) @ data),
                    got := (got st)(s := got st s @ data) \<rparr>))"

definition write_to :: "poll \<Rightarrow> side \<Rightarrow> relay_state \<Rightarrow> (relay_exit \<times> relay_state) + relay_state" where
  "write_to po t st =
     (if out_buf st t = [] then Inr st
      else (case po_send po t of
        SendBlocked \<Rightarrow> Inr st
      | SendError \<Rightarrow> Inl (SendFailed, st)
      | Accepted n \<Rightarrow> Inr (st\<lparr> out_buf := (out_buf st)(t := drop n (out_buf st t)),
                             sent := (sent st)(t := sent st t @ take n (out_buf st t)) \<rparr>)))"

fun each_side :: "(side \<Rightarrow> relay_state \<Rightarrow> (relay_exit \<times> relay_state) + relay_state) \<Rightarrow> side list
    \<Rightarrow> relay_state \<Rightarrow> (relay_exit \<times> relay_state) + relay_state" where
  "each_side f [] st = Inr st"
| "each_side f (s # ss) st = err_bind (f s st) (each_side f ss)"

text \<open>The end of a stream that has been forwarded completely is passed on to the peer.\<close>

definition stream_finished :: "relay_state \<Rightarrow> side \<Rightarrow> bool" where
  "stream_finished st s = (\<not> read_open st s \<and> out_buf st (peer s) = [])"

definition propagate_eof :: "side \<Rightarrow> relay_state \<Rightarrow> relay_state" where
  "propagate_eof s st =
     (if stream_finished st s \<and> \<not> write_shutdown st (peer s)
      then st\<lparr> write_shutdown := (write_shutdown st)(peer s := True) \<rparr> else st)"

definition pass_on_ends :: "relay_state \<Rightarrow> (relay_exit \<times> relay_state) + relay_state" where
  "pass_on_ends st = (let st = propagate_eof RightSide (propagate_eof LeftSide st) in
     if stream_finished st LeftSide \<and> stream_finished st RightSide then Inl (Completed, st) else Inr st)"

text \<open>One iteration: \<open>Inl\<close> when the loop returns.\<close>

definition relay_iteration :: "nat \<Rightarrow> poll \<Rightarrow> relay_state \<Rightarrow> (relay_exit \<times> relay_state) + relay_state" where
  "relay_iteration high po st =
     (let readable = filter (po_readable po) (rlist high st);
          writable = filter (po_writable po) (wlist st) in
      if rlist high st = [] \<and> wlist st = [] then Inl (NothingOpen, st)
      else if po_fails po then Inl (SelectFailed, st)
      else if po_errored po then Inl (SocketErrored, st)
      else if readable = [] \<and> writable = [] then Inl (TimedOut, st)
      else err_bind (each_side (read_from po) readable st) (\<lambda>st.
           err_bind (each_side (write_to po) writable st) pass_on_ends))"

text \<open>The loop over the answers of its iterations: no exit yet after all of them, or the exit.\<close>

fun relay_run :: "nat \<Rightarrow> poll list \<Rightarrow> relay_state \<Rightarrow> relay_exit option \<times> relay_state" where
  "relay_run high [] st = (None, st)"
| "relay_run high (po # polls) st = (case relay_iteration high po st of
     Inl (e, st') \<Rightarrow> (Some e, st') | Inr st' \<Rightarrow> relay_run high polls st')"

section \<open>What the loop keeps\<close>

text \<open>Nothing is lost, duplicated or reordered, the buffers are bounded, a socket is shut down for
  writing only after all of its stream was delivered, and the history only grows.\<close>

definition conserved :: "relay_state \<Rightarrow> bool" where
  "conserved st = list_all (\<lambda>t. got st (peer t) = sent st t @ out_buf st t) both_sides"

definition eof_sound :: "relay_state \<Rightarrow> bool" where
  "eof_sound st = list_all (\<lambda>t. write_shutdown st t \<longrightarrow> stream_finished st (peer t)) both_sides"

definition bounded_buffers :: "nat \<Rightarrow> relay_state \<Rightarrow> bool" where
  "bounded_buffers m st = list_all (\<lambda>t. length (out_buf st t) \<le> m) both_sides"

lemma conserved_iff: "conserved st \<longleftrightarrow> (\<forall>t. got st (peer t) = sent st t @ out_buf st t)"
  by (simp add: conserved_def side_all)

lemma eof_sound_iff: "eof_sound st \<longleftrightarrow> (\<forall>t. write_shutdown st t \<longrightarrow> stream_finished st (peer t))"
  by (simp add: eof_sound_def side_all)

lemma bounded_buffers_iff: "bounded_buffers m st \<longleftrightarrow> (\<forall>t. length (out_buf st t) \<le> m)"
  by (simp add: bounded_buffers_def side_all)

text \<open>An exit or the next state of a step.\<close>

definition outcome_state :: "(relay_exit \<times> relay_state) + relay_state \<Rightarrow> relay_state" where
  "outcome_state x = (case x of Inl (e, st) \<Rightarrow> st | Inr st \<Rightarrow> st)"

lemma outcome_simps [simp]:
  "outcome_state (Inr st) = st" "outcome_state (Inl (e, st)) = st"
  by (simp_all add: outcome_state_def)

text \<open>A loop over distinct sides keeps a property when its body does under a guard that the body
  for one side does not break for the others.\<close>

lemma each_side_invariant:
  assumes step: "\<And>s st. Q s st \<Longrightarrow> P st \<Longrightarrow> P (outcome_state (f s st))"
    and frame: "\<And>s t st. s \<noteq> t \<Longrightarrow> Q t st \<Longrightarrow> Q t (outcome_state (f s st))"
  shows "distinct ss \<Longrightarrow> \<forall>s \<in> set ss. Q s st \<Longrightarrow> P st \<Longrightarrow> P (outcome_state (each_side f ss st))"
proof (induction ss arbitrary: st)
  case (Cons s ss)
  then have now: "P (outcome_state (f s st))" using step by simp
  show ?case
  proof (cases "f s st")
    case (Inl x)
    with now show ?thesis by (cases x) simp
  next
    case (Inr st')
    have "\<forall>t \<in> set ss. Q t st'"
    proof
      fix t assume "t \<in> set ss"
      with Cons.prems have "s \<noteq> t" "Q t st" by auto
      from frame [OF this] Inr show "Q t st'" by simp
    qed
    with Cons.IH [of st'] Cons.prems now Inr show ?thesis by simp
  qed
qed simp

definition relay_inv :: "nat \<Rightarrow> relay_state \<Rightarrow> bool" where
  "relay_inv high st = (conserved st \<and> eof_sound st \<and> bounded_buffers (high + read_chunk) st)"

definition may_read :: "nat \<Rightarrow> side \<Rightarrow> relay_state \<Rightarrow> bool" where
  "may_read high s st = (read_open st s \<and> length (out_buf st (peer s)) < high)"

lemma conserved_read: "conserved st \<Longrightarrow> got st s = sent st (peer s) @ out_buf st (peer s)"
  using conserved_iff [of st] by (metis peer_peer)

lemma relay_inv_start: "relay_inv high relay_start"
  by (simp add: relay_inv_def conserved_def eof_sound_def bounded_buffers_def relay_start_def)

lemma read_inv:
  assumes may: "may_read high s st" and inv: "relay_inv high st"
  shows "relay_inv high (outcome_state (read_from po s st))"
proof -
  have open': "read_open st s" and room: "length (out_buf st (peer s)) < high"
    using may by (simp_all add: may_read_def)
  have c: "conserved (outcome_state (read_from po s st))"
    using inv conserved_read [of st s]
    by (auto simp: relay_inv_def conserved_iff read_from_def Let_def peer_swap split: recv_answer.split)
  have not_shut: "\<not> write_shutdown st (peer s)"
    using inv open' by (auto simp: relay_inv_def eof_sound_iff stream_finished_def)
  have "eof_sound (outcome_state (read_from po s st))"
    using inv not_shut
    by (auto simp: relay_inv_def eof_sound_iff stream_finished_def read_from_def Let_def peer_swap
        split: recv_answer.split)
  moreover have "bounded_buffers (high + read_chunk) (outcome_state (read_from po s st))"
    using inv room
    by (auto simp: relay_inv_def bounded_buffers_iff read_from_def Let_def
        intro: add_mono less_imp_le split: recv_answer.split)
  ultimately show ?thesis using c by (simp add: relay_inv_def)
qed

lemma read_frame: "s \<noteq> t \<Longrightarrow> may_read high t st \<Longrightarrow> may_read high t (outcome_state (read_from po s st))"
  by (auto simp: may_read_def read_from_def Let_def split: recv_answer.split)

lemma write_inv: "relay_inv high st \<Longrightarrow> relay_inv high (outcome_state (write_to po t st))"
  by (auto simp: relay_inv_def conserved_iff eof_sound_iff bounded_buffers_iff stream_finished_def write_to_def
      intro: order_trans [OF diff_le_self] split: send_answer.split)

lemma propagate_fields [simp]:
  "out_buf (propagate_eof s st) = out_buf st" "read_open (propagate_eof s st) = read_open st"
  "got (propagate_eof s st) = got st" "sent (propagate_eof s st) = sent st"
  "stream_finished (propagate_eof s st) = stream_finished st"
  by (simp_all add: propagate_eof_def stream_finished_def fun_eq_iff)

lemma propagate_inv: "relay_inv high st \<Longrightarrow> relay_inv high (propagate_eof s st)"
proof -
  assume inv: "relay_inv high st"
  have "eof_sound (propagate_eof s st)"
    using inv by (auto simp: relay_inv_def eof_sound_iff) (auto simp: propagate_eof_def split: if_splits)
  with inv show ?thesis by (simp add: relay_inv_def conserved_def bounded_buffers_def)
qed

lemma pass_on_inv: "relay_inv high st \<Longrightarrow> relay_inv high (outcome_state (pass_on_ends st))"
  by (simp add: pass_on_ends_def Let_def propagate_inv)

lemma pass_on_shuts:
  "stream_finished st s \<Longrightarrow> write_shutdown (outcome_state (pass_on_ends st)) (peer s)"
  by (cases s) (auto simp: pass_on_ends_def Let_def propagate_eof_def stream_finished_def)

lemma rlist_facts: "distinct (rlist high st)" "\<forall>s \<in> set (rlist high st). may_read high s st"
  by (auto simp: rlist_def may_read_def)

lemma wlist_facts: "distinct (wlist st)" "\<forall>s \<in> set (wlist st). out_buf st s \<noteq> []"
  by (auto simp: wlist_def)

lemma reads_inv: "relay_inv high st \<Longrightarrow> relay_inv high (outcome_state (each_side (read_from po) (filter p (rlist high st)) st))"
  using each_side_invariant [of "may_read high" "relay_inv high" "read_from po" "filter p (rlist high st)" st,
      OF read_inv read_frame] rlist_facts by auto

lemma writes_inv: "distinct ss \<Longrightarrow> relay_inv high st \<Longrightarrow> relay_inv high (outcome_state (each_side (write_to po) ss st))"
  using each_side_invariant [of "\<lambda>_ _. True" "relay_inv high" "write_to po" ss st, OF write_inv] by simp

lemma bind_outcome:
  "P (outcome_state m) \<Longrightarrow> (\<And>st. P st \<Longrightarrow> P (outcome_state (f st))) \<Longrightarrow> P (outcome_state (err_bind m f))"
  by (cases m) auto

lemma iteration_inv:
  assumes inv: "relay_inv high st"
  shows "relay_inv high (outcome_state (relay_iteration high po st))"
proof -
  have "relay_inv high (outcome_state (err_bind (each_side (read_from po) (filter (po_readable po) (rlist high st)) st)
      (\<lambda>st1. err_bind (each_side (write_to po) (filter (po_writable po) (wlist st)) st1) pass_on_ends)))"
    by (intro bind_outcome [where P = "relay_inv high"] reads_inv [OF inv] writes_inv pass_on_inv)
      (simp_all add: wlist_facts)
  with inv show ?thesis
    by (simp add: relay_iteration_def Let_def)
qed

lemma run_inv: "relay_inv high st \<Longrightarrow> relay_inv high (snd (relay_run high polls st))"
proof (induction polls arbitrary: st)
  case (Cons po polls)
  have inv: "relay_inv high (outcome_state (relay_iteration high po st))"
    using Cons.prems by (rule iteration_inv)
  show ?case
  proof (cases "relay_iteration high po st")
    case (Inl x)
    with inv show ?thesis by (cases x) simp
  next
    case (Inr st')
    with inv Cons.IH [of st'] show ?thesis by simp
  qed
qed simp


section \<open>How the loop ends\<close>

definition unfinished :: "relay_state \<Rightarrow> bool" where
  "unfinished st = (\<not> (stream_finished st LeftSide \<and> stream_finished st RightSide))"

text \<open>A finished stream has been shut down at its other end.\<close>

definition ends_passed :: "relay_state \<Rightarrow> bool" where
  "ends_passed st = (\<forall>s. stream_finished st s \<longrightarrow> write_shutdown st (peer s))"

lemma pass_on_stream [simp]: "stream_finished (outcome_state (pass_on_ends st)) = stream_finished st"
  by (simp add: pass_on_ends_def Let_def)

lemma pass_on_ends_passed: "ends_passed (outcome_state (pass_on_ends st))"
  using pass_on_shuts by (simp add: ends_passed_def)

lemma pass_on_cases:
  "pass_on_ends st = Inl (Completed, outcome_state (pass_on_ends st)) \<and> \<not> unfinished st
    \<or> pass_on_ends st = Inr (outcome_state (pass_on_ends st)) \<and> unfinished st"
  by (simp add: pass_on_ends_def Let_def unfinished_def)

lemma nothing_open: "0 < high \<Longrightarrow> rlist high st = [] \<Longrightarrow> wlist st = [] \<Longrightarrow> \<not> unfinished st"
  by (auto simp: rlist_def wlist_def unfinished_def stream_finished_def split: if_splits)

lemma each_side_exit:
  assumes body: "\<And>s st e' st'. f s st = Inl (e', st') \<Longrightarrow> e' = e"
  shows "each_side f ss st = Inl (e', st') \<Longrightarrow> e' = e"
proof (induction ss arbitrary: st)
  case (Cons s ss)
  show ?case
  proof (cases "f s st")
    case (Inl x)
    with Cons.prems body show ?thesis by simp
  next
    case (Inr st1)
    with Cons show ?thesis by simp
  qed
qed simp

lemma read_exit: "read_from po s st = Inl (e', st') \<Longrightarrow> e' = RecvFailed"
  by (auto simp: read_from_def Let_def split: recv_answer.splits if_splits)

lemma write_exit: "write_to po s st = Inl (e', st') \<Longrightarrow> e' = SendFailed"
  by (auto simp: write_to_def split: send_answer.splits if_splits)

text \<open>An iteration fails, has nothing to wait for, or ends by passing on the ends.\<close>

lemma iteration_cases:
  obtains e st1 where "relay_iteration high po st = Inl (e, st1)" "e \<noteq> NothingOpen" "e \<noteq> Completed"
  | "rlist high st = []" "wlist st = []" "relay_iteration high po st = Inl (NothingOpen, st)"
  | st2 where "relay_iteration high po st = pass_on_ends st2"
proof -
  let ?r = "relay_iteration high po st"
  let ?reads = "each_side (read_from po) (filter (po_readable po) (rlist high st)) st"
  let ?writes = "each_side (write_to po) (filter (po_writable po) (wlist st))"
  consider "rlist high st = [] \<and> wlist st = []" | e where "?r = Inl (e, st)" "e \<noteq> NothingOpen" "e \<noteq> Completed"
    | "?r = err_bind ?reads (\<lambda>st. err_bind (?writes st) pass_on_ends)"
    by (cases "rlist high st = [] \<and> wlist st = []"; cases "po_fails po"; cases "po_errored po";
        cases "filter (po_readable po) (rlist high st) = [] \<and> filter (po_writable po) (wlist st) = []")
      (simp_all only: relay_iteration_def Let_def if_True if_False simp_thms relay_exit.distinct)
  then show thesis
  proof cases
    case 1
    then show thesis using that(2) by (simp add: relay_iteration_def Let_def)
  next
    case (2 e)
    then show thesis using that(1) by blast
  next
    case 3
    show thesis
    proof (cases ?reads)
      case (Inl x)
      then show thesis
        using 3 that(1) each_side_exit [of "read_from po" RecvFailed, OF read_exit] by (cases x) force
    next
      case (Inr st1)
      note reads = this
      show thesis
      proof (cases "?writes st1")
        case (Inl x)
        then show thesis
          using 3 reads that(1) each_side_exit [of "write_to po" SendFailed, OF write_exit] by (cases x) force
      next
        case (Inr st2)
        then show thesis using 3 reads that(3) [of st2] by simp
      qed
    qed
  qed
qed

lemma iteration_end:
  assumes "0 < high" "unfinished st"
  shows "(\<exists>e st'. relay_iteration high po st = Inl (e, st') \<and> e \<noteq> NothingOpen \<and> e \<noteq> Completed)
    \<or> (\<exists>st'. relay_iteration high po st = Inl (Completed, st') \<and> ends_passed st' \<and> \<not> unfinished st')
    \<or> (\<exists>st'. relay_iteration high po st = Inr st' \<and> ends_passed st' \<and> unfinished st')"
proof (rule iteration_cases [of high po st])
  fix st2 assume r: "relay_iteration high po st = pass_on_ends st2"
  let ?t = "outcome_state (pass_on_ends st2)"
  have "ends_passed ?t" "unfinished ?t = unfinished st2"
    using pass_on_ends_passed [of st2] by (simp_all add: unfinished_def)
  with pass_on_cases [of st2] r show ?thesis by metis
qed (use nothing_open [OF assms(1), of st] assms(2) in auto)

lemma run_end:
  assumes "0 < high"
  shows "relay_run high polls st = (e, st') \<Longrightarrow> unfinished st \<Longrightarrow> ends_passed st \<Longrightarrow>
    e \<noteq> Some NothingOpen \<and> (e = None \<longrightarrow> ends_passed st' \<and> unfinished st')
    \<and> (e = Some Completed \<longrightarrow> ends_passed st' \<and> \<not> unfinished st')"
proof (induction polls arbitrary: st)
  case (Cons po polls)
  from iteration_end [OF assms Cons.prems(2), of po] show ?case
  proof (elim disjE exE conjE)
    fix st1
    assume "relay_iteration high po st = Inr st1" "ends_passed st1" "unfinished st1"
    with Cons.IH [of st1] Cons.prems(1) show ?thesis by simp
  qed (use Cons.prems(1) in auto)
qed auto

lemma unfinished_start: "unfinished relay_start" "ends_passed relay_start"
  by (simp_all add: unfinished_def ends_passed_def stream_finished_def relay_start_def)

text \<open>C10. Whatever the sockets answer, each socket has accepted exactly the bytes read from its
  peer except those still buffered, in order; a buffer holds at most one read more than its
  limit; a socket is shut down for writing only after its stream ended and was delivered, and at
  once then; when the loop completes, everything that was read was delivered in both directions;
  and it never returns because nothing is left to wait for.\<close>

theorem relay_faithful:
  assumes "0 < high" and "relay_run high polls relay_start = (e, st)"
  shows "list_all (\<lambda>s. got st (peer s) = sent st s @ out_buf st s \<and> length (out_buf st s) \<le> high + 65536
        \<and> (write_shutdown st s \<longrightarrow> \<not> read_open st (peer s) \<and> sent st s = got st (peer s))) both_sides
    \<and> (e = None \<longrightarrow> list_all (\<lambda>s. stream_finished st (peer s) \<longrightarrow> write_shutdown st s) both_sides)
    \<and> (e = Some Completed \<longrightarrow> list_all (\<lambda>s. sent st s = got st (peer s) \<and> write_shutdown st s) both_sides)
    \<and> e \<noteq> Some NothingOpen"
proof -
  have inv: "relay_inv high st" using run_inv [OF relay_inv_start, of high polls] assms(2) by simp
  then have c: "conserved st" and eo: "eof_sound st" and b: "bounded_buffers (high + read_chunk) st"
    by (simp_all add: relay_inv_def)
  have fin: "sent st s = got st (peer s)" if "stream_finished st (peer s)" for s
    using that c by (simp add: conserved_iff stream_finished_def)
  have each: "got st (peer s) = sent st s @ out_buf st s \<and> length (out_buf st s) \<le> high + 65536
        \<and> (write_shutdown st s \<longrightarrow> \<not> read_open st (peer s) \<and> sent st s = got st (peer s))" for s
    using c eo b fin [of s]
    by (auto simp: conserved_iff eof_sound_iff bounded_buffers_iff stream_finished_def read_chunk_def)
  have ends: "stream_finished st (peer s) \<longrightarrow> write_shutdown st s" if "ends_passed st" for s
    using that by (metis ends_passed_def peer_peer)
  have all: "stream_finished st (peer s)" if "\<not> unfinished st" for s
    using that by (cases s) (simp_all add: unfinished_def)
  note run = run_end [OF assms(1,2) unfinished_start]
  show ?thesis
  proof (intro conjI impI)
    show "list_all (\<lambda>s. stream_finished st (peer s) \<longrightarrow> write_shutdown st s) both_sides" if "e = None"
      unfolding list_all_iff using run ends that by blast
    show "list_all (\<lambda>s. sent st s = got st (peer s) \<and> write_shutdown st s) both_sides" if "e = Some Completed"
      unfolding list_all_iff using run ends all fin that by blast
    show "e \<noteq> Some NothingOpen" using run by blast
  qed (unfold list_all_iff, use each in blast)
qed

section \<open>Draining\<close>

text \<open>Answers of two sockets whose senders are done and that accept data.\<close>

definition draining :: "poll \<Rightarrow> bool" where
  "draining po = (\<not> po_fails po \<and> \<not> po_errored po
     \<and> list_all (\<lambda>s. po_readable po s \<and> po_writable po s \<and> po_recv po s = Recv []
         \<and> (case po_send po s of Accepted n \<Rightarrow> 0 < n | _ \<Rightarrow> False)) both_sides)"

definition accepts :: "poll \<Rightarrow> side \<Rightarrow> nat" where
  "accepts po s = (case po_send po s of Accepted n \<Rightarrow> n | _ \<Rightarrow> 0)"

lemma drainingD:
  assumes "draining po"
  shows "po_readable po s" "po_writable po s" "po_recv po s = Recv []" "po_send po s = Accepted (accepts po s)"
    "0 < accepts po s" "\<not> po_fails po" "\<not> po_errored po"
  using assms by (cases s; auto simp: draining_def accepts_def split: send_answer.splits)+

definition load :: "relay_state \<Rightarrow> side \<Rightarrow> nat" where
  "load st s = length (out_buf st s) + of_bool (read_open st s)"

definition work :: "relay_state \<Rightarrow> nat" where
  "work st = load st LeftSide + load st RightSide"

lemma work_less:
  assumes "\<And>s. load a s \<le> load b s" and "load a s < load b s"
  shows "work a < work b"
  using assms(1) [of LeftSide] assms(1) [of RightSide] assms(2) by (cases s) (simp_all add: work_def)

lemma drain_reads:
  assumes "draining po"
  shows "each_side (read_from po) ss st = Inr (st\<lparr> read_open := (\<lambda>s. read_open st s \<and> s \<notin> set ss) \<rparr>)"
proof (induction ss arbitrary: st)
  case (Cons a ss)
  have "read_from po a st = Inr (st\<lparr> read_open := (read_open st)(a := False) \<rparr>)"
    using drainingD(3) [OF assms] by (simp add: read_from_def)
  moreover have "(\<lambda>s. ((read_open st)(a := False)) s \<and> s \<notin> set ss) = (\<lambda>s. read_open st s \<and> s \<notin> set (a # ss))"
    by (auto simp: fun_eq_iff)
  ultimately show ?case by (simp add: Cons.IH)
qed simp

lemma drain_writes:
  assumes "draining po"
  shows "distinct ss \<Longrightarrow> each_side (write_to po) ss st
    = Inr (st\<lparr> out_buf := (\<lambda>t. if t \<in> set ss then drop (accepts po t) (out_buf st t) else out_buf st t),
             sent := (\<lambda>t. if t \<in> set ss then sent st t @ take (accepts po t) (out_buf st t) else sent st t) \<rparr>)"
proof (induction ss arbitrary: st)
  case (Cons a ss)
  let ?st = "st\<lparr> out_buf := (out_buf st)(a := drop (accepts po a) (out_buf st a)),
      sent := (sent st)(a := sent st a @ take (accepts po a) (out_buf st a)) \<rparr>"
  have w: "write_to po a st = Inr ?st"
  proof (cases "out_buf st a = []")
    case True
    then have "(out_buf st)(a := drop (accepts po a) (out_buf st a)) = out_buf st"
      "(sent st)(a := sent st a @ take (accepts po a) (out_buf st a)) = sent st"
      by (simp_all add: fun_eq_iff)
    with True show ?thesis by (simp add: write_to_def)
  qed (simp add: write_to_def drainingD(4) [OF assms])
  have b: "(\<lambda>t. if t \<in> set ss then drop (accepts po t) (out_buf ?st t) else out_buf ?st t)
      = (\<lambda>t. if t \<in> set (a # ss) then drop (accepts po t) (out_buf st t) else out_buf st t)"
    using Cons.prems by (auto simp: fun_eq_iff)
  have c: "(\<lambda>t. if t \<in> set ss then sent ?st t @ take (accepts po t) (out_buf ?st t) else sent ?st t)
      = (\<lambda>t. if t \<in> set (a # ss) then sent st t @ take (accepts po t) (out_buf st t) else sent st t)"
    using Cons.prems by (auto simp: fun_eq_iff)
  have "each_side (write_to po) (a # ss) st = each_side (write_to po) ss ?st" using w by simp
  also have "\<dots> = Inr (?st\<lparr> out_buf := (\<lambda>t. if t \<in> set ss then drop (accepts po t) (out_buf ?st t) else out_buf ?st t),
      sent := (\<lambda>t. if t \<in> set ss then sent ?st t @ take (accepts po t) (out_buf ?st t) else sent ?st t) \<rparr>)"
    using Cons.prems by (intro Cons.IH) simp
  also have "\<dots> = Inr (st\<lparr> out_buf := (\<lambda>t. if t \<in> set (a # ss) then drop (accepts po t) (out_buf st t) else out_buf st t),
      sent := (\<lambda>t. if t \<in> set (a # ss) then sent st t @ take (accepts po t) (out_buf st t) else sent st t) \<rparr>)"
    unfolding b c by simp
  finally show ?case .
qed simp

text \<open>A draining iteration finishes the loop or makes progress, and reads nothing more.\<close>

lemma drain_iteration:
  assumes "draining po" "0 < high" "unfinished st"
  shows "\<exists>st'. got st' = got st \<and> (relay_iteration high po st = Inl (Completed, st')
    \<or> relay_iteration high po st = Inr st' \<and> work st' < work st)"
proof -
  let ?st1 = "st\<lparr> read_open := (\<lambda>s. read_open st s \<and> s \<notin> set (rlist high st)) \<rparr>"
  let ?st2 = "?st1\<lparr> out_buf := (\<lambda>t. if t \<in> set (wlist st) then drop (accepts po t) (out_buf ?st1 t) else out_buf ?st1 t),
      sent := (\<lambda>t. if t \<in> set (wlist st) then sent ?st1 t @ take (accepts po t) (out_buf ?st1 t) else sent ?st1 t) \<rparr>"
  have all: "filter (po_readable po) (rlist high st) = rlist high st" "filter (po_writable po) (wlist st) = wlist st"
    using drainingD(1,2) [OF assms(1)] by simp_all
  have some: "(rlist high st = [] \<and> wlist st = []) = False" using nothing_open assms(2,3) by blast
  have calm: "po_fails po = False" "po_errored po = False" using drainingD(6,7) [OF assms(1)] by simp_all
  have "relay_iteration high po st = pass_on_ends ?st2"
    unfolding relay_iteration_def Let_def all some calm if_False drain_reads [OF assms(1)] err_bind.simps
      drain_writes [OF assms(1) wlist_facts(1)] by (rule refl)
  moreover have "work ?st2 < work st"
  proof -
    have buf: "length (out_buf ?st2 s) \<le> length (out_buf st s)"
      "s \<in> set (wlist st) \<Longrightarrow> length (out_buf ?st2 s) < length (out_buf st s)" for s
      using drainingD(5) [OF assms(1), of s] wlist_facts(2) [of st] by auto
    have flag: "read_open ?st2 s \<le> read_open st s" "s \<in> set (rlist high st) \<Longrightarrow> \<not> read_open ?st2 s \<and> read_open st s" for s
      using rlist_facts(2) [of high st] by (auto simp: may_read_def)
    have le: "load ?st2 s \<le> load st s" for s
      unfolding load_def by (intro add_mono buf(1)) (use flag(1) [of s] in \<open>simp add: of_bool_def\<close>)
    have less_w: "s \<in> set (wlist st) \<Longrightarrow> load ?st2 s < load st s" for s
      unfolding load_def by (intro add_less_le_mono buf(2)) (use flag(1) [of s] in \<open>simp_all add: of_bool_def\<close>)
    have less_r: "s \<in> set (rlist high st) \<Longrightarrow> load ?st2 s < load st s" for s
      unfolding load_def by (intro add_le_less_mono buf(1)) (use flag(2) [of s] in \<open>simp add: of_bool_def\<close>)
    obtain s where "s \<in> set (rlist high st) \<or> s \<in> set (wlist st)"
      using some list.set_intros(1) by (metis neq_Nil_conv)
    then have "load ?st2 s < load st s" using less_w less_r by blast
    then show ?thesis by (rule work_less [OF le])
  qed
  moreover have "got (outcome_state (pass_on_ends ?st2)) = got st" "work (outcome_state (pass_on_ends ?st2)) = work ?st2"
    by (simp_all add: pass_on_ends_def work_def load_def Let_def)
  ultimately have "\<exists>st2. relay_iteration high po st = pass_on_ends st2 \<and> work st2 < work st
      \<and> got (outcome_state (pass_on_ends st2)) = got st \<and> work (outcome_state (pass_on_ends st2)) = work st2"
    by (intro exI [of _ ?st2] conjI)
  then obtain st2 where st2: "relay_iteration high po st = pass_on_ends st2" "work st2 < work st"
    "got (outcome_state (pass_on_ends st2)) = got st" "work (outcome_state (pass_on_ends st2)) = work st2" by blast
  from pass_on_cases [of st2] show ?thesis
  proof
    assume "pass_on_ends st2 = Inl (Completed, outcome_state (pass_on_ends st2)) \<and> \<not> unfinished st2"
    then show ?thesis using st2(1,3) by (intro exI [of _ "outcome_state (pass_on_ends st2)"]) simp
  next
    assume "pass_on_ends st2 = Inr (outcome_state (pass_on_ends st2)) \<and> unfinished st2"
    then show ?thesis using st2 by (intro exI [of _ "outcome_state (pass_on_ends st2)"]) simp
  qed
qed


lemma drain_run:
  assumes "0 < high"
  shows "list_all draining polls \<Longrightarrow> unfinished st \<Longrightarrow> ends_passed st \<Longrightarrow> work st < length polls
    \<Longrightarrow> \<exists>st'. relay_run high polls st = (Some Completed, st') \<and> got st' = got st"
proof (induction polls arbitrary: st)
  case (Cons po polls)
  then have po: "draining po" "list_all draining polls" by simp_all
  from drain_iteration [OF po(1) assms Cons.prems(2)] obtain st1 where g: "got st1 = got st"
    and r: "relay_iteration high po st = Inl (Completed, st1) \<or> relay_iteration high po st = Inr st1 \<and> work st1 < work st"
    by blast
  from r show ?case
  proof
    assume "relay_iteration high po st = Inr st1 \<and> work st1 < work st"
    then have i: "relay_iteration high po st = Inr st1" "work st1 < work st" by blast+
    with iteration_end [OF assms Cons.prems(2), of po] have "unfinished st1" "ends_passed st1" by auto
    with Cons.IH [OF po(2), of st1] Cons.prems(4) i g show ?thesis by simp
  qed (simp add: g)
qed simp

lemma run_append:
  "relay_run high pre st = (None, st1) \<Longrightarrow> relay_run high (pre @ polls) st = relay_run high polls st1"
  by (induction pre arbitrary: st) (auto split: sum.splits)

text \<open>C35. Once both ends have stopped sending and the sockets accept data, the loop completes:
  within as many iterations as there are buffered bytes and open directions it returns, with
  every byte ever read delivered to the other side.\<close>

theorem relay_finishes:
  assumes "0 < high" and "relay_run high pre relay_start = (None, st)"
    and "list_all draining polls"
    and "length (out_buf st LeftSide) + length (out_buf st RightSide) + 2 < length polls"
  shows "\<exists>st'. relay_run high (pre @ polls) relay_start = (Some Completed, st')
    \<and> list_all (\<lambda>s. sent st' (peer s) = got st s) both_sides"
proof -
  have u: "unfinished st" "ends_passed st"
    using run_end [OF assms(1,2) unfinished_start] by blast+
  have "work st < length polls" using assms(4) by (simp add: work_def load_def of_bool_def)
  from drain_run [OF assms(1,3) u this] obtain st' where
    st': "relay_run high polls st = (Some Completed, st')" "got st' = got st" by blast
  have r: "relay_run high (pre @ polls) relay_start = (Some Completed, st')"
    using run_append [OF assms(2)] st'(1) by simp
  have "conserved st'" using run_inv [OF relay_inv_start, of high "pre @ polls"] r by (simp add: relay_inv_def)
  moreover have "\<not> unfinished st'" using run_end [OF assms(1) r unfinished_start] by blast
  ultimately have "sent st' (peer s) = got st' s" for s
    by (cases s) (auto simp: unfinished_def stream_finished_def conserved_def)
  then have "list_all (\<lambda>s. sent st' (peer s) = got st s) both_sides"
    unfolding list_all_iff st'(2) by blast
  with r show ?thesis by blast
qed

section \<open>Concrete relays\<close>

definition echo_poll :: "byte list \<Rightarrow> byte list \<Rightarrow> nat \<Rightarrow> poll" where
  "echo_poll a b n = \<lparr> po_fails = False, po_errored = False, po_readable = (\<lambda>_. True), po_writable = (\<lambda>_. True),
     po_recv = (\<lambda>s. Recv (if s = LeftSide then a else b)), po_send = (\<lambda>_. Accepted n) \<rparr>"

definition started :: relay_state where
  "started = snd (relay_run 4 [echo_poll [1, 2, 3] [9] 1, echo_poll [4, 5] [] 1] relay_start)"

lemma started_run:
  "relay_run 4 [echo_poll [1, 2, 3] [9] 1, echo_poll [4, 5] [] 1] relay_start = (None, started)"
proof -
  have "fst (relay_run 4 [echo_poll [1, 2, 3] [9] 1, echo_poll [4, 5] [] 1] relay_start) = None" by code_simp
  then show ?thesis unfolding started_def by (metis prod.collapse)
qed

theorem relay_faithful_witness:
  "got started LeftSide = [1, 2, 3, 4, 5] \<and> sent started RightSide @ out_buf started RightSide = [1, 2, 3, 4, 5]"
proof -
  have "got started LeftSide = [1, 2, 3, 4, 5]" by code_simp
  moreover have "list_all (\<lambda>s. got started (peer s) = sent started s @ out_buf started s) both_sides"
    using relay_faithful [OF _ started_run] by simp
  ultimately show ?thesis by simp
qed

theorem relay_finishes_witness:
  "\<exists>st'. relay_run 4 ([echo_poll [1, 2, 3] [9] 1, echo_poll [4, 5] [] 1] @ replicate 9 (echo_poll [] [] 1)) relay_start
      = (Some Completed, st') \<and> sent st' RightSide = [1, 2, 3, 4, 5]"
proof -
  have g: "got started LeftSide = [1, 2, 3, 4, 5]" by code_simp
  have d: "list_all draining (replicate 9 (echo_poll [] [] 1))" by code_simp
  have l: "length (out_buf started LeftSide) + length (out_buf started RightSide) + 2
      < length (replicate 9 (echo_poll [] [] 1))" by code_simp
  from relay_finishes [OF _ started_run d l] g show ?thesis by auto
qed

end
