(* ===== verification/Dns_Wire.thy ===== *)
theory Dns_Wire
  imports Bytes
begin

text \<open>
  \<open>dns_query_over_tun0\<close> of \<^verbatim>\<open>services/aimili-egress/proxy_server.py\<close>: the query packet, the
  exchange over UDP with the fallback to TCP, and the reading of the response. The IDNA codec,
  the random transaction identifier and what the network delivers are arguments; an address is
  returned as the bytes that \<open>inet_ntoa\<close> or \<open>inet_ntop\<close> print.
\<close>

section \<open>The query\<close>

text \<open>\<open>Inr None\<close> is the early return for a label that is too long.\<close>

fun encode_labels :: "(string \<Rightarrow> pyexc + byte list) \<Rightarrow> string list \<Rightarrow> pyexc + byte list option" where
  "encode_labels idna [] = Inr (Some [])"
| "encode_labels idna (part # parts) =
     (if part = [] then encode_labels idna parts
      else err_bind (idna part) (\<lambda>b.
        if 63 < length b then Inr None
        else err_bind (encode_labels idna parts) (\<lambda>rest.
          Inr (map_option (\<lambda>bs. of_nat (length b) # b @ bs) rest))))"

definition encode_qname :: "(string \<Rightarrow> pyexc + byte list) \<Rightarrow> string \<Rightarrow> pyexc + byte list option" where
  "encode_qname idna host = err_bind (encode_labels idna (py_split (CHR ''.'') host)) (\<lambda>q.
     Inr (map_option (\<lambda>bs. bs @ [0]) q))"

definition dns_packet ::
  "(string \<Rightarrow> pyexc + byte list) \<Rightarrow> byte list \<Rightarrow> string \<Rightarrow> nat \<Rightarrow> pyexc + byte list option" where
  "dns_packet idna tx_id host qtype = err_bind (encode_qname idna host) (\<lambda>q.
     case q of
       None \<Rightarrow> Inr None
     | Some qname \<Rightarrow> err_bind (to_be2 qtype) (\<lambda>ty.
         Inr (Some (tx_id @ [1, 0] @ [0, 1] @ [0, 0, 0, 0, 0, 0] @ qname @ ty @ [0, 1]))))"

section \<open>The response\<close>

text \<open>The loop that skips a name, on the offset.\<close>

function skip_name :: "byte list \<Rightarrow> nat \<Rightarrow> nat" where
  "skip_name resp i =
     (if i < length resp then
        (let len = resp ! i in
         if len = 0 then i + 1
         else if len AND 192 = 192 then i + 2
         else skip_name resp (i + 1 + unat len))
      else i)"
  by pat_completeness auto
termination by (relation "measure (\<lambda>(resp, i). length resp - i)") auto

declare skip_name.simps [simp del]

definition field16 :: "byte list \<Rightarrow> nat \<Rightarrow> nat" where
  "field16 resp i = from_be (take 2 (drop i resp))"

text \<open>The loop over the answers: \<open>qtype\<close> 1 is an IPv4 address, 28 an IPv6 address.\<close>

definition wanted :: "nat \<Rightarrow> nat \<Rightarrow> nat \<Rightarrow> nat \<Rightarrow> bool" where
  "wanted qtype atype aclass len = (atype = qtype \<and> aclass = 1
     \<and> (qtype = 1 \<and> len = 4 \<or> qtype = 28 \<and> len = 16))"

fun read_answers :: "byte list \<Rightarrow> nat \<Rightarrow> nat \<Rightarrow> nat \<Rightarrow> byte list option" where
  "read_answers resp qtype 0 i = None"
| "read_answers resp qtype (Suc n) i =
     (if length resp \<le> i then None
      else let i = skip_name resp i in
        if length resp < i + 10 then None
        else let len = field16 resp (i + 8) in
          if length resp < i + 10 + len then None
          else if wanted qtype (field16 resp i) (field16 resp (i + 2)) len
          then Some (take len (drop (i + 10) resp))
          else read_answers resp qtype n (i + 10 + len))"

definition parse_response :: "byte list \<Rightarrow> nat \<Rightarrow> byte list \<Rightarrow> byte list option" where
  "parse_response tx_id qtype resp =
     (if length resp < 12 \<or> take 2 resp \<noteq> tx_id then None
      else if resp ! 3 AND 15 \<noteq> 0 then None
      else read_answers resp qtype (field16 resp 6) (skip_name resp 12 + 4))"

section \<open>The exchange\<close>

text \<open>What the network does: whether the UDP socket can be bound to the device, the datagram that
  comes back (\<open>None\<close> on an error or a timeout), and the stream of the TCP connection to the same
  server through the same device (\<open>None\<close> when it cannot be opened).\<close>

record dns_network =
  nw_bound :: bool
  nw_udp :: "byte list \<Rightarrow> byte list option"
  nw_tcp :: "byte list \<Rightarrow> byte list list option"

definition udp_unusable :: "byte list \<Rightarrow> byte list \<Rightarrow> bool" where
  "udp_unusable tx_id resp = (length resp < 12 \<or> take 2 resp \<noteq> tx_id \<or> resp ! 2 AND 2 \<noteq> 0)"

definition tcp_exchange :: "dns_network \<Rightarrow> byte list \<Rightarrow> pyexc + byte list" where
  "tcp_exchange nw packet = (case nw_tcp nw packet of
     None \<Rightarrow> Inl OSError
   | Some stream \<Rightarrow> err_bind (to_be2 (length packet)) (\<lambda>_.
       err_bind (recv_exact 2 stream) (\<lambda>(head, rest).
       err_bind (recv_exact (from_be head) rest) (\<lambda>(resp, _). Inr resp))))"

definition exchange :: "dns_network \<Rightarrow> byte list \<Rightarrow> byte list \<Rightarrow> pyexc + byte list" where
  "exchange nw tx_id packet =
     (let resp = (case nw_udp nw packet of Some r \<Rightarrow> r | None \<Rightarrow> []) in
      if udp_unusable tx_id resp then tcp_exchange nw packet else Inr resp)"

text \<open>Every exception of the exchange is caught and gives no address.\<close>

definition dns_query_over_tun0 ::
  "(string \<Rightarrow> pyexc + byte list) \<Rightarrow> dns_network \<Rightarrow> byte list \<Rightarrow> string \<Rightarrow> nat \<Rightarrow> byte list option" where
  "dns_query_over_tun0 idna nw tx_id host qtype = (case dns_packet idna tx_id host qtype of
     Inr (Some packet) \<Rightarrow>
       if \<not> nw_bound nw then None
       else (case exchange nw tx_id packet of Inr resp \<Rightarrow> parse_response tx_id qtype resp | Inl e \<Rightarrow> None)
   | _ \<Rightarrow> None)"

section \<open>Responses as a server writes them\<close>

text \<open>A name is a sequence of labels ended by the root or by a pointer.\<close>

fun name_bytes :: "byte list list \<Rightarrow> byte list option \<Rightarrow> byte list" where
  "name_bytes [] None = [0]"
| "name_bytes [] (Some p) = p"
| "name_bytes (l # ls) e = of_nat (length l) # l @ name_bytes ls e"

definition pointer_ok :: "byte list \<Rightarrow> bool" where
  "pointer_ok p = (length p = 2 \<and> p ! 0 AND 192 = 192)"

definition name_ok :: "byte list list \<Rightarrow> byte list option \<Rightarrow> bool" where
  "name_ok ls e = (list_all (\<lambda>l. 0 < length l \<and> length l \<le> 63) ls
     \<and> (case e of None \<Rightarrow> True | Some p \<Rightarrow> pointer_ok p))"

record resource_record =
  rr_labels :: "byte list list"
  rr_pointer :: "byte list option"
  rr_type :: nat
  rr_class :: nat
  rr_ttl :: "byte list"
  rr_data :: "byte list"

definition record_ok :: "resource_record \<Rightarrow> bool" where
  "record_ok r = (name_ok (rr_labels r) (rr_pointer r) \<and> rr_type r < 65536 \<and> rr_class r < 65536
     \<and> length (rr_ttl r) = 4 \<and> length (rr_data r) < 65536)"

definition record_bytes :: "resource_record \<Rightarrow> byte list" where
  "record_bytes r = name_bytes (rr_labels r) (rr_pointer r) @ be2 (rr_type r) @ be2 (rr_class r)
     @ rr_ttl r @ be2 (length (rr_data r)) @ rr_data r"

text \<open>The response to a query for the name with these labels, with two flag bytes.\<close>

definition response_bytes ::
  "byte list \<Rightarrow> byte \<times> byte \<Rightarrow> byte list list \<Rightarrow> nat \<Rightarrow> resource_record list \<Rightarrow> byte list" where
  "response_bytes tx_id flags labels qtype rrs = tx_id @ [fst flags, snd flags] @ [0, 1]
     @ be2 (length rrs) @ [0, 0, 0, 0] @ name_bytes labels None @ be2 qtype @ [0, 1]
     @ concat (map record_bytes rrs)"

definition first_address :: "nat \<Rightarrow> resource_record list \<Rightarrow> byte list option" where
  "first_address qtype rrs = map_option rr_data
     (find (\<lambda>r. wanted qtype (rr_type r) (rr_class r) (length (rr_data r))) rrs)"


section \<open>Reading back what a server writes\<close>

lemma small_label_byte:
  assumes "n \<le> 63"
  shows "(of_nat n :: byte) AND 192 \<noteq> 192" "unat (of_nat n :: byte) = n" "0 < n \<Longrightarrow> (of_nat n :: byte) \<noteq> 0"
proof -
  have "list_all (\<lambda>n. (of_nat n :: byte) AND 192 \<noteq> 192) [0..<64]" by code_simp
  then show "(of_nat n :: byte) AND 192 \<noteq> 192" using assms by (auto simp: list_all_iff)
  show u: "unat (of_nat n :: byte) = n" using assms by (simp add: unat_of_nat take_bit_eq_mod)
  show "0 < n \<Longrightarrow> (of_nat n :: byte) \<noteq> 0" using u by (metis unat_0 less_irrefl)
qed

lemma length_name_pos: "name_ok ls e \<Longrightarrow> 0 < length (name_bytes ls e)"
  by (cases ls; cases e) (auto simp: name_ok_def pointer_ok_def)

lemma skip_written_name:
  "name_ok ls e \<Longrightarrow> skip_name (pre @ name_bytes ls e @ post) (length pre) = length pre + length (name_bytes ls e)"
proof (induction ls arbitrary: pre)
  case Nil
  show ?case
  proof (cases e)
    case None
    then show ?thesis by (simp add: skip_name.simps)
  next
    case (Some p)
    with Nil have p: "length p = 2" "p ! 0 AND 192 = 192" by (simp_all add: name_ok_def pointer_ok_def)
    then have "p ! 0 \<noteq> 0" by auto
    with p Some show ?thesis by (simp add: skip_name.simps nth_append)
  qed
next
  case (Cons l ls)
  let ?resp = "pre @ name_bytes (l # ls) e @ post"
  have l: "0 < length l" "length l \<le> 63" and ok: "name_ok ls e" using Cons.prems by (auto simp: name_ok_def)
  have "skip_name ?resp (length pre) = skip_name ?resp (length pre + 1 + length l)"
    using small_label_byte [OF l(2)] l(1) by (subst skip_name.simps) (simp add: nth_append)
  also have "\<dots> = skip_name ((pre @ of_nat (length l) # l) @ name_bytes ls e @ post) (length (pre @ of_nat (length l) # l))"
    by simp
  also have "\<dots> = length (pre @ of_nat (length l) # l) + length (name_bytes ls e)" using ok by (rule Cons.IH)
  finally show ?case by simp
qed

lemma field16_at: "n < 65536 \<Longrightarrow> i = length xs \<Longrightarrow> field16 (xs @ be2 n @ ys) i = n"
  by (simp add: field16_def)

text \<open>One record is read with its type, class and data, or skipped.\<close>

lemma read_one_record:
  assumes "record_ok r"
  shows "read_answers (pre @ record_bytes r @ post) qtype (Suc n) (length pre)
    = (if wanted qtype (rr_type r) (rr_class r) (length (rr_data r)) then Some (rr_data r)
       else read_answers (pre @ record_bytes r @ post) qtype n (length (pre @ record_bytes r)))"
proof -
  let ?name = "name_bytes (rr_labels r) (rr_pointer r)"
  let ?resp = "pre @ record_bytes r @ post"
  let ?i = "length (pre @ ?name)"
  have ok: "name_ok (rr_labels r) (rr_pointer r)" "rr_type r < 65536" "rr_class r < 65536"
    "length (rr_ttl r) = 4" "length (rr_data r) < 65536"
    using assms by (simp_all add: record_ok_def)
  have resp: "?resp = (pre @ ?name) @ be2 (rr_type r) @ be2 (rr_class r) @ rr_ttl r
      @ be2 (length (rr_data r)) @ rr_data r @ post"
    by (simp add: record_bytes_def)
  have i: "skip_name ?resp (length pre) = ?i"
    using skip_written_name [OF ok(1), of pre "be2 (rr_type r) @ be2 (rr_class r) @ rr_ttl r
      @ be2 (length (rr_data r)) @ rr_data r @ post"] by (simp add: record_bytes_def)
  have ty: "field16 ?resp ?i = rr_type r" unfolding resp by (rule field16_at [OF ok(2)]) simp
  have cl: "field16 ?resp (?i + 2) = rr_class r"
    using field16_at [OF ok(3), of "?i + 2" "(pre @ ?name) @ be2 (rr_type r)"] unfolding resp by simp
  have len: "field16 ?resp (?i + 8) = length (rr_data r)"
    using field16_at [OF ok(5), of "?i + 8" "(pre @ ?name) @ be2 (rr_type r) @ be2 (rr_class r) @ rr_ttl r"] ok(4)
    unfolding resp by simp
  have total: "length ?resp = ?i + 10 + length (rr_data r) + length post"
    using ok(4) by (simp add: record_bytes_def)
  then have inside: "(length ?resp \<le> length pre) = False" "(length ?resp < ?i + 10) = False"
    "(length ?resp < ?i + 10 + length (rr_data r)) = False"
    by simp_all
  have data: "take (length (rr_data r)) (drop (?i + 10) ?resp) = rr_data r"
    unfolding resp using ok(4) by simp
  have after': "?i + 10 + length (rr_data r) = length (pre @ record_bytes r)"
    using ok(4) by (simp add: record_bytes_def)
  show ?thesis
    unfolding read_answers.simps(2) Let_def i ty cl len inside if_False data unfolding after' by (rule refl)
qed

lemma read_written_answers:
  "list_all record_ok rrs \<Longrightarrow>
    read_answers (pre @ concat (map record_bytes rrs)) qtype (length rrs) (length pre) = first_address qtype rrs"
proof (induction rrs arbitrary: pre)
  case (Cons r rrs)
  have "read_answers (pre @ record_bytes r @ concat (map record_bytes rrs)) qtype (Suc (length rrs)) (length pre)
      = (if wanted qtype (rr_type r) (rr_class r) (length (rr_data r)) then Some (rr_data r)
         else read_answers (pre @ record_bytes r @ concat (map record_bytes rrs)) qtype (length rrs)
           (length (pre @ record_bytes r)))"
    using Cons.prems by (intro read_one_record) simp
  with Cons.IH [of "pre @ record_bytes r"] Cons.prems show ?case
    by (simp add: first_address_def)
qed (simp add: first_address_def)

text \<open>C28. The address taken from a well-formed response with the identifier of the query and no
  error code is the data of the first record of the asked type, of class IN and of the size of
  an address; records of other types, names by labels or by pointers and further records are
  skipped. A response with another identifier or an error code gives none.\<close>

theorem dns_response_read:
  assumes "length tx_id = 2" and "name_ok labels None" and "list_all record_ok rrs"
    and "length rrs < 65536"
  shows "parse_response tx_id qtype (response_bytes tx_id flags labels qtype' rrs)
      = (if snd flags AND 15 = 0 then first_address qtype rrs else None)
    \<and> (other \<noteq> tx_id \<longrightarrow> length other = 2
        \<longrightarrow> parse_response tx_id qtype (response_bytes other flags labels qtype' rrs) = None)"
proof -
  let ?rest = "\<lambda>tx. [fst flags, snd flags] @ [0, 1] @ be2 (length rrs) @ [0, 0, 0, 0]"
  let ?pre = "tx_id @ [fst flags, snd flags] @ [0, 1] @ be2 (length rrs) @ [0, 0, 0, 0]"
  let ?q = "be2 qtype' @ [0, 1]"
  let ?resp = "response_bytes tx_id flags labels qtype' rrs"
  have resp: "?resp = ?pre @ name_bytes labels None @ ?q @ concat (map record_bytes rrs)"
    by (simp add: response_bytes_def)
  have pre: "length ?pre = 12" using assms(1) by simp
  have skip: "skip_name ?resp 12 = 12 + length (name_bytes labels None)"
    using skip_written_name [OF assms(2), of ?pre "?q @ concat (map record_bytes rrs)"] pre resp by simp
  have count: "field16 ?resp 6 = length rrs"
    using field16_at [OF assms(4), of 6 "tx_id @ [fst flags, snd flags] @ [0, 1]"] assms(1)
    by (simp add: response_bytes_def)
  have "read_answers ?resp qtype (length rrs) (12 + length (name_bytes labels None) + 4) = first_address qtype rrs"
    using read_written_answers [OF assms(3), of "?pre @ name_bytes labels None @ ?q" qtype] pre resp
    by (simp add: add.assoc)
  moreover have "12 \<le> length ?resp" "take 2 ?resp = tx_id" "?resp ! 3 = snd flags"
    using assms(1) by (simp_all add: response_bytes_def nth_append)
  ultimately have "parse_response tx_id qtype ?resp = (if snd flags AND 15 = 0 then first_address qtype rrs else None)"
    by (simp add: parse_response_def skip count)
  moreover have "take 2 (response_bytes other flags labels qtype' rrs) = other" if "length other = 2"
    using that by (simp add: response_bytes_def)
  ultimately show ?thesis by (auto simp: parse_response_def)
qed

definition sample_records :: "resource_record list" where
  "sample_records =
    [\<lparr> rr_labels = [], rr_pointer = Some [192, 12], rr_type = 5, rr_class = 1, rr_ttl = [0, 0, 1, 0],
       rr_data = [1, 97, 0] \<rparr>,
     \<lparr> rr_labels = [[97]], rr_pointer = None, rr_type = 1, rr_class = 1, rr_ttl = [0, 0, 1, 0],
       rr_data = [10, 8, 0, 1] \<rparr>]"

theorem dns_response_read_witness:
  "parse_response [7, 9] 1 (response_bytes [7, 9] (129, 128) [[97, 98], [99]] 1 sample_records) = Some [10, 8, 0, 1]"
proof -
  have "list_all record_ok sample_records" "name_ok [[97, 98], [99]] None"
    by (simp_all add: sample_records_def record_ok_def name_ok_def pointer_ok_def)
  moreover have "length [7, 9 :: byte] = 2" "length sample_records < 65536" by (simp_all add: sample_records_def)
  ultimately have "parse_response [7, 9] 1 (response_bytes [7, 9] (129, 128) [[97, 98], [99]] 1 sample_records)
      = (if snd (129 :: byte, 128 :: byte) AND 15 = 0 then first_address 1 sample_records else None)"
    by (intro conjunct1 [OF dns_response_read])
  also have "\<dots> = first_address 1 sample_records" by simp
  also have "\<dots> = Some [10, 8, 0, 1]" by code_simp
  finally show ?thesis .
qed

end
