(* ===== verification/Dns_Cache.thy ===== *)
theory Dns_Cache
  imports Dedup_Acc "HOL-Library.AList" "HOL-Library.Sublist"
begin

text \<open>
  The resolver state of \<^verbatim>\<open>services/aimili-egress/proxy_server.py\<close>: the servers that tunnels pushed, the
  cache of addresses for each tunnel, the lookups in progress and the generation that a purge
  advances. \<open>resolve_dns_over_tun0\<close> is cut into its two critical sections and the queries
  between them, so that the lookups of many threads interleave with purges. The lists of servers
  are collected through the interface \<open>dedup_acc\<close>.
\<close>

section \<open>Addresses and server lists\<close>

text \<open>\<open>str(ipaddress.IPv4Address(s))\<close>: four decimal numbers up to 255 without leading zeros.\<close>

definition ipv4_octet :: "string \<Rightarrow> bool" where
  "ipv4_octet p = (p \<noteq> [] \<and> list_all digit_char p \<and> length p \<le> 3
     \<and> (length p = 1 \<or> hd p \<noteq> CHR ''0'') \<and> digits_val p \<le> 255)"

definition ipv4_address :: "string \<Rightarrow> string option" where
  "ipv4_address s = (let parts = py_split (CHR ''.'') s in
     if length parts = 4 \<and> list_all ipv4_octet parts then Some s else None)"

definition collect_server :: "string \<Rightarrow> string list \<times> string set \<Rightarrow> string list \<times> string set" where
  "collect_server s acc = (case acc of (servers, seen) \<Rightarrow>
     (case ipv4_address s of
        None \<Rightarrow> (servers, seen)
      | Some a \<Rightarrow> if a \<in> seen then (servers, seen) else (servers @ [a], insert a seen)))"

definition server_list :: "string list \<Rightarrow> string list" where
  "server_list raw = fst (fold collect_server raw ([], {}))"

lemma ipv4_address_same: "ipv4_address s = Some a \<Longrightarrow> a = s"
  by (simp add: ipv4_address_def Let_def split: if_splits)

interpretation servers: dedup_acc "\<lambda>s. s" "\<lambda>s. ipv4_address s = Some s" collect_server
proof
  show "collect_server n (xs, seen) = (xs, seen) \<or>
      collect_server n (xs, seen) = (xs @ [n], insert n seen) \<and> n \<notin> seen \<and> ipv4_address n = Some n"
    for n xs seen
    using ipv4_address_same [of n] by (auto simp: collect_server_def split: option.split)
qed

lemma server_list_ok:
  "distinct (server_list raw)" "set (server_list raw) \<subseteq> set raw"
  "list_all (\<lambda>s. ipv4_address s = Some s) (server_list raw)"
proof -
  show "distinct (server_list raw)"
    using servers.fold_inv [OF servers.acc_inv_empty, of raw] by (simp add: servers.acc_inv_def server_list_def)
  from servers.fold_extends [of raw "([], {})"]
  show "set (server_list raw) \<subseteq> set raw" "list_all (\<lambda>s. ipv4_address s = Some s) (server_list raw)"
    by (auto simp: server_list_def list_all_iff)
qed

section \<open>The state\<close>

record dns_state =
  ds_cache :: "(string \<times> string \<times> rat) list"
  ds_servers :: "(string \<times> string list) list"
  ds_pending :: "string list"
  ds_generation :: "(string \<times> int) list"

definition dns_start :: dns_state where
  "dns_start = \<lparr> ds_cache = [], ds_servers = [], ds_pending = [], ds_generation = [] \<rparr>"

definition generation :: "dns_state \<Rightarrow> string \<Rightarrow> int" where
  "generation s d = (case map_of (ds_generation s) d of Some n \<Rightarrow> n | None \<Rightarrow> 0)"

definition cache_key :: "string \<Rightarrow> string \<Rightarrow> string" where
  "cache_key device host = device @ ''|'' @ host"

definition pending_key :: "string \<Rightarrow> string \<Rightarrow> string option \<Rightarrow> bool \<Rightarrow> string" where
  "pending_key device host server ipv4_only = cache_key device host @ ''|''
     @ (case server of Some x \<Rightarrow> x | None \<Rightarrow> []) @ ''|'' @ (if ipv4_only then ''A'' else ''any'')"

definition advance :: "string \<Rightarrow> dns_state \<Rightarrow> dns_state" where
  "advance d s = s\<lparr> ds_generation := AList.update d (generation s d + 1) (ds_generation s) \<rparr>"

text \<open>\<open>_purge_dns_cache_locked\<close>: the number of entries dropped and the state.\<close>

definition purge_device :: "string \<Rightarrow> dns_state \<Rightarrow> int \<times> dns_state" where
  "purge_device d s = (let mine = (\<lambda>(k, v). starts_with (d @ ''|'') k) in
     (int (length (filter mine (ds_cache s))),
      advance d (s\<lparr> ds_cache := filter (\<lambda>e. \<not> mine e) (ds_cache s) \<rparr>)))"

definition purge_dns_cache :: "string option \<Rightarrow> dns_state \<Rightarrow> int \<times> dns_state" where
  "purge_dns_cache device s = (case device of
     Some d \<Rightarrow> purge_device d s
   | None \<Rightarrow> (int (length (ds_cache s)),
       fold advance (remdups (map fst (ds_generation s) @ map fst (ds_servers s))) (s\<lparr> ds_cache := [] \<rparr>)))"

definition register_tun_dns_servers :: "string \<Rightarrow> string list \<Rightarrow> dns_state \<Rightarrow> dns_state" where
  "register_tun_dns_servers d raw s = (let normalized = server_list (map py_strip raw) in
     if normalized = [] \<or> d = [] then s
     else if map_of (ds_servers s) d = Some normalized then s
     else snd (purge_device d (s\<lparr> ds_servers := AList.update d normalized (ds_servers s) \<rparr>)))"

definition clear_tun_dns_servers :: "string \<Rightarrow> dns_state \<Rightarrow> dns_state" where
  "clear_tun_dns_servers d s = snd (purge_device d (s\<lparr> ds_servers := AList.delete d (ds_servers s) \<rparr>))"

text \<open>\<open>configured\<close> is the environment variable, with its default when it is not set.\<close>

definition get_tun_dns_servers :: "string option \<Rightarrow> string option \<Rightarrow> dns_state \<Rightarrow> string list" where
  "get_tun_dns_servers configured device s =
     (let raw = (case configured of Some t \<Rightarrow> t | None \<Rightarrow> ''8.8.8.8,1.1.1.1'');
          conf = filter (\<lambda>x. x \<noteq> []) (map py_strip (py_split (CHR '','') raw));
          registered = (case map_of (ds_servers s) (case device of Some d \<Rightarrow> d | None \<Rightarrow> []) of
            Some xs \<Rightarrow> xs | None \<Rightarrow> []);
          servers = server_list (registered @ conf) in
      if servers = [] then [''8.8.8.8''] else servers)"

section \<open>A lookup\<close>

text \<open>The settings \<open>DNS_CACHE_TTL\<close> and \<open>DNS_CACHE_MAX\<close>.\<close>

record dns_settings =
  dc_ttl :: int
  dc_max :: int

definition usable :: "dns_settings \<Rightarrow> dns_state \<Rightarrow> string \<Rightarrow> bool \<Rightarrow> rat \<Rightarrow> string option" where
  "usable conf s key ipv4_only now = (case map_of (ds_cache s) key of
     Some (a, t) \<Rightarrow> if now - t < of_int (dc_ttl conf) \<and> \<not> (ipv4_only \<and> CHR '':'' \<in> set a) then Some a else None
   | None \<Rightarrow> None)"

datatype lookup_start = Hit string | Wait int | Own int

text \<open>The first critical section of \<open>resolve_dns_over_tun0\<close>.\<close>

definition begin_lookup ::
  "dns_settings \<Rightarrow> string \<Rightarrow> string \<Rightarrow> string option \<Rightarrow> bool \<Rightarrow> rat \<Rightarrow> dns_state \<Rightarrow> lookup_start \<times> dns_state" where
  "begin_lookup conf device host server ipv4_only now s =
     (let pk = pending_key device host server ipv4_only in
      case usable conf s (cache_key device host) ipv4_only now of
        Some a \<Rightarrow> (Hit a, s)
      | None \<Rightarrow>
          if pk \<in> set (ds_pending s) then (Wait (generation s device), s)
          else (Own (generation s device), s\<lparr> ds_pending := pk # ds_pending s \<rparr>))"

text \<open>What a waiting lookup returns after the event is set or its time is over.\<close>

definition end_wait ::
  "dns_settings \<Rightarrow> string \<Rightarrow> string \<Rightarrow> bool \<Rightarrow> int \<Rightarrow> rat \<Rightarrow> dns_state \<Rightarrow> string option" where
  "end_wait conf device host ipv4_only gen now s =
     (if gen = generation s device then usable conf s (cache_key device host) ipv4_only now else None)"

text \<open>The queries of the owner. The remaining times that the loop computes are a list; \<open>query\<close> is
  \<open>dns_query_over_tun0\<close> with the time it is given. The inner loop leaves at the first answer or
  when no time is left, and the outer loop goes on in the second case.\<close>

fun try_servers ::
  "(nat \<Rightarrow> string \<Rightarrow> rat \<Rightarrow> string option) \<Rightarrow> rat \<Rightarrow> nat \<Rightarrow> string list \<Rightarrow> rat list \<Rightarrow> string option \<times> rat list" where
  "try_servers query most qtype [] remaining = (None, remaining)"
| "try_servers query most qtype (x # xs) [] = (None, [])"
| "try_servers query most qtype (x # xs) (r # rs) =
     (if r \<le> 0 then (None, rs)
      else (case query qtype x (min most r) of
         Some a \<Rightarrow> if a \<noteq> [] then (Some a, rs) else try_servers query most qtype xs rs
       | None \<Rightarrow> try_servers query most qtype xs rs))"

fun try_types ::
  "(nat \<Rightarrow> string \<Rightarrow> rat \<Rightarrow> string option) \<Rightarrow> rat \<Rightarrow> nat list \<Rightarrow> string list \<Rightarrow> rat list \<Rightarrow> string option" where
  "try_types query most [] servers remaining = None"
| "try_types query most (q # qs) servers remaining = (case try_servers query most q servers remaining of
     (Some a, rs) \<Rightarrow> Some a | (None, rs) \<Rightarrow> try_types query most qs servers rs)"

definition owner_queries ::
  "(nat \<Rightarrow> string \<Rightarrow> rat \<Rightarrow> string option) \<Rightarrow> rat \<Rightarrow> bool \<Rightarrow> string option \<Rightarrow> string list \<Rightarrow> rat list \<Rightarrow> string option" where
  "owner_queries query most ipv4_only server tun_servers remaining =
     try_types query most (if ipv4_only then [1] else [1, 28])
       (case server of Some x \<Rightarrow> if x \<noteq> [] then [x] else tun_servers | None \<Rightarrow> tun_servers) remaining"

text \<open>The second critical section of the owner, in the \<open>finally\<close> block; \<open>resolved\<close> is \<open>None\<close> after
  an exception too.\<close>

definition finish_lookup ::
  "dns_settings \<Rightarrow> string \<Rightarrow> string \<Rightarrow> string option \<Rightarrow> bool \<Rightarrow> int \<Rightarrow> string option \<Rightarrow> rat \<Rightarrow> dns_state
    \<Rightarrow> string option \<times> dns_state" where
  "finish_lookup conf device host server ipv4_only gen resolved now s =
     (let res = (if gen \<noteq> generation s device then None else resolved);
          cache = (case res of
            Some a \<Rightarrow> AList.update (cache_key device host) (a, now)
              (if dc_max conf \<le> int (length (ds_cache s)) then [] else ds_cache s)
          | None \<Rightarrow> ds_cache s) in
      (res, s\<lparr> ds_cache := cache,
              ds_pending := removeAll (pending_key device host server ipv4_only) (ds_pending s) \<rparr>))"

section \<open>Connecting\<close>

text \<open>The attempts over the addresses of \<open>getaddrinfo\<close>: the index of the one that connected, or the
  number of the error raised, if it has one. Errors 1 and 19, also recognized by their text, are
  replaced by errors without a number; an empty list raises one without a number too.\<close>

datatype connect_attempt = Connected | Failed "int option" string

fun connect_first :: "nat \<Rightarrow> connect_attempt list \<Rightarrow> int option \<Rightarrow> int option + nat" where
  "connect_first i [] err = Inl err"
| "connect_first i (Connected # as) err = Inr i"
| "connect_first i (Failed no text # as) err = connect_first (i + 1) as
     (if py_contains ''operation not permitted'' (py_lower text) \<or> no = Some 1
        \<or> py_contains ''no such device'' (py_lower text) \<or> no = Some 19 then None else no)"

text \<open>\<open>gaierror(EAI_AGAIN)\<close> has the number -3.\<close>

definition open_connection :: "string option \<Rightarrow> (string \<Rightarrow> connect_attempt list) \<Rightarrow> int option + nat" where
  "open_connection resolved attempts = (case resolved of
     None \<Rightarrow> Inl (Some (-3))
   | Some ip \<Rightarrow> if ip = [] then Inl (Some (-3)) else connect_first 0 (attempts ip) None)"

definition ENETUNREACH :: int where "ENETUNREACH = 101"
definition EHOSTUNREACH :: int where "EHOSTUNREACH = 113"

text \<open>\<open>create_connection\<close>: the first attempt with any address, and a second one with IPv4 only after
  the host name was dropped from the cache, when the network is unreachable and the host is not
  a literal address. The resolver is run on the state before each attempt.\<close>

definition create_connection ::
  "(bool \<Rightarrow> dns_state \<Rightarrow> string option \<times> dns_state) \<Rightarrow> (bool \<Rightarrow> string \<Rightarrow> connect_attempt list) \<Rightarrow> bool
    \<Rightarrow> string \<Rightarrow> string \<Rightarrow> dns_state \<Rightarrow> (int option + nat) \<times> dns_state" where
  "create_connection resolver attempts literal device host s =
     (case resolver False s of (ip, s1) \<Rightarrow>
      (case open_connection ip (attempts False) of
         Inr i \<Rightarrow> (Inr i, s1)
       | Inl no \<Rightarrow>
           if literal \<or> no \<notin> {Some ENETUNREACH, Some EHOSTUNREACH} then (Inl no, s1)
           else let s2 = s1\<lparr> ds_cache := AList.delete (cache_key device host) (ds_cache s1) \<rparr> in
             (case resolver True s2 of (ip', s3) \<Rightarrow> (open_connection ip' (attempts True), s3))))"


section \<open>Lookups and purges of many threads\<close>

text \<open>A lookup in progress, and the state of all of them. \<open>dw_origin\<close> records, for the history,
  the lookup whose answer is cached under each key.\<close>

record flight =
  fl_device :: string
  fl_host :: string
  fl_server :: "string option"
  fl_ipv4 :: bool
  fl_generation :: int

record dns_world =
  dw_state :: dns_state
  dw_flights :: "(nat \<times> flight) list"
  dw_origin :: "(string \<times> nat) list"

definition dns_world_start :: dns_world where
  "dns_world_start = \<lparr> dw_state = dns_start, dw_flights = [], dw_origin = [] \<rparr>"

datatype dns_action =
    BeginLookup nat string string "string option" bool rat
  | FinishLookup nat "string option" rat
  | PurgeDns "string option"
  | RegisterServers string "string list"
  | ClearServers string
  | DropHost string string

text \<open>Lookups that hit the cache or wait do not change the state.\<close>

fun dns_event :: "dns_settings \<Rightarrow> dns_action \<Rightarrow> dns_world \<Rightarrow> dns_world option" where
  "dns_event conf (BeginLookup i d h srv v4 now) w =
     (if i \<in> fst ` set (dw_flights w) then None
      else (case begin_lookup conf d h srv v4 now (dw_state w) of
        (Own g, s) \<Rightarrow> Some (w\<lparr> dw_state := s, dw_flights := (i, \<lparr> fl_device = d, fl_host = h, fl_server = srv,
            fl_ipv4 = v4, fl_generation = g \<rparr>) # dw_flights w \<rparr>)
      | (_, s) \<Rightarrow> Some w))"
| "dns_event conf (FinishLookup i resolved now) w = (case map_of (dw_flights w) i of
     None \<Rightarrow> None
   | Some f \<Rightarrow> (case finish_lookup conf (fl_device f) (fl_host f) (fl_server f) (fl_ipv4 f) (fl_generation f)
         resolved now (dw_state w) of
       (res, s) \<Rightarrow> Some (w\<lparr> dw_state := s, dw_flights := AList.delete i (dw_flights w),
          dw_origin := (if res = None then dw_origin w
            else AList.update (cache_key (fl_device f) (fl_host f)) i (dw_origin w)) \<rparr>)))"
| "dns_event conf (PurgeDns d) w = Some (w\<lparr> dw_state := snd (purge_dns_cache d (dw_state w)) \<rparr>)"
| "dns_event conf (RegisterServers d raw) w = Some (w\<lparr> dw_state := register_tun_dns_servers d raw (dw_state w) \<rparr>)"
| "dns_event conf (ClearServers d) w = Some (w\<lparr> dw_state := clear_tun_dns_servers d (dw_state w) \<rparr>)"
| "dns_event conf (DropHost d h) w = Some (w\<lparr> dw_state := (dw_state w)\<lparr> ds_cache :=
      AList.delete (cache_key d h) (ds_cache (dw_state w)) \<rparr> \<rparr>)"

inductive dns_run :: "dns_settings \<Rightarrow> dns_world \<Rightarrow> dns_action list \<Rightarrow> dns_world \<Rightarrow> bool" for conf where
  dns_stop: "dns_run conf w [] w"
| dns_step: "dns_run conf w es v \<Longrightarrow> dns_event conf e v = Some u \<Longrightarrow> dns_run conf w (es @ [e]) u"

text \<open>The lookups that a list of events begins, and the device of a lookup event.\<close>

fun begun :: "dns_action \<Rightarrow> nat list" where
  "begun (BeginLookup i d h srv v4 now) = [i]"
| "begun _ = []"

fun plain_device :: "dns_action \<Rightarrow> bool" where
  "plain_device (BeginLookup i d h srv v4 now) = (CHR ''|'' \<notin> set d)"
| "plain_device _ = True"

section \<open>Generations\<close>

lemma generation_advance [simp]:
  "generation (advance d s) e = generation s e + (if d = e then 1 else 0)"
  by (simp add: advance_def generation_def update_conv')

lemma generation_congs [simp]:
  "generation (s\<lparr> ds_cache := c \<rparr>) = generation s" "generation (s\<lparr> ds_servers := x \<rparr>) = generation s"
  "generation (s\<lparr> ds_pending := p \<rparr>) = generation s"
  by (simp_all add: generation_def fun_eq_iff)

lemma advance_cache [simp]: "ds_cache (advance d s) = ds_cache s"
  by (simp add: advance_def)

lemma fold_advance [simp]:
  "ds_cache (fold advance ds s) = ds_cache s" "generation s d \<le> generation (fold advance ds s) d"
proof -
  show "ds_cache (fold advance ds s) = ds_cache s" by (induction ds arbitrary: s) simp_all
  show "generation s d \<le> generation (fold advance ds s) d"
  proof (induction ds arbitrary: s)
    case (Cons a ds)
    show ?case using Cons.IH [of "advance a s"] by (simp split: if_splits)
  qed simp
qed

definition mine :: "string \<Rightarrow> string \<Rightarrow> bool" where
  "mine d k = starts_with (d @ ''|'') k"

lemma purge_facts:
  "ds_cache (snd (purge_device d s)) = filter (\<lambda>(k, v). \<not> mine d k) (ds_cache s)"
  "generation (snd (purge_device d s)) e = generation s e + (if d = e then 1 else 0)"
  by (simp_all add: purge_device_def Let_def mine_def case_prod_unfold)

lemma mine_cache_key:
  assumes "CHR ''|'' \<notin> set d" "CHR ''|'' \<notin> set d'"
  shows "mine d (cache_key d' h) \<longleftrightarrow> d = d'"
proof
  assume m: "mine d (cache_key d' h)"
  define r where "r = drop (length (d @ ''|'')) (cache_key d' h)"
  have "d @ CHR ''|'' # r = d' @ CHR ''|'' # h"
    using m append_take_drop_id [of "length (d @ ''|'')" "cache_key d' h"]
    by (simp add: mine_def starts_with_def r_def) (simp add: cache_key_def)
  then have "takeWhile (\<lambda>c. c \<noteq> CHR ''|'') (d @ CHR ''|'' # r) = takeWhile (\<lambda>c. c \<noteq> CHR ''|'') (d' @ CHR ''|'' # h)"
    by (rule arg_cong)
  moreover have "takeWhile (\<lambda>c. c \<noteq> CHR ''|'') (x @ CHR ''|'' # y) = x" if "CHR ''|'' \<notin> set x" for x y
    using that by (subst takeWhile_append2) auto
  ultimately show "d = d'" using assms by simp
qed (simp add: mine_def starts_with_def cache_key_def)


section \<open>A purge separates old lookups from new answers\<close>

text \<open>The actions that purge a device: the explicit purge, clearing its servers, and registering
  servers that differ from the registered ones.\<close>

fun purging :: "string \<Rightarrow> dns_action \<Rightarrow> dns_state \<Rightarrow> bool" where
  "purging d (PurgeDns (Some d')) s = (d' = d)"
| "purging d (ClearServers d') s = (d' = d)"
| "purging d (RegisterServers d' raw) s = (let new = server_list (map py_strip raw) in
     d' = d \<and> d \<noteq> [] \<and> new \<noteq> [] \<and> map_of (ds_servers s) d \<noteq> Some new)"
| "purging d _ s = False"

definition cached_keys :: "dns_state \<Rightarrow> string set" where
  "cached_keys s = fst ` set (ds_cache s)"

lemma cached_keys_simps [simp]:
  "cached_keys (s\<lparr> ds_servers := x \<rparr>) = cached_keys s"
  "cached_keys (s\<lparr> ds_cache := [] \<rparr>) = {}"
  "cached_keys (s\<lparr> ds_cache := AList.delete k (ds_cache s) \<rparr>) = cached_keys s - {k}"
  "cached_keys (fold advance ds s) = cached_keys s"
  "cached_keys (snd (purge_device d s)) = {k \<in> cached_keys s. \<not> mine d k}"
  by (force simp: cached_keys_def AList.delete_eq purge_facts)+

definition flights_sound :: "dns_world \<Rightarrow> bool" where
  "flights_sound w = (\<forall>(i, f) \<in> set (dw_flights w). CHR ''|'' \<notin> set (fl_device f)
     \<and> fl_generation f \<le> generation (dw_state w) (fl_device f))"

text \<open>With the lookups \<open>B\<close> begun since the purge: what is cached for the device comes from them,
  and every other lookup of the device has an older generation.\<close>

definition separated :: "string \<Rightarrow> nat set \<Rightarrow> dns_world \<Rightarrow> bool" where
  "separated d B w =
     ((\<forall>k \<in> cached_keys (dw_state w). mine d k \<longrightarrow> map_of (dw_origin w) k \<in> Some ` B)
      \<and> (\<forall>(i, f) \<in> set (dw_flights w). fl_device f = d \<longrightarrow> i \<in> B \<or> fl_generation f < generation (dw_state w) d))"

lemma separated_mono: "separated d B w \<Longrightarrow> B \<subseteq> B' \<Longrightarrow> separated d B' w"
  unfolding separated_def by (intro conjI ballI impI) (blast, fastforce)

lemma separated_insert: "separated d B w \<Longrightarrow> separated d (insert i B) w"
  by (erule separated_mono) blast

text \<open>Actions other than those of a lookup: the cache shrinks and generations grow.\<close>

definition shrinks :: "dns_state \<Rightarrow> dns_state \<Rightarrow> bool" where
  "shrinks s s' = (cached_keys s' \<subseteq> cached_keys s \<and> (\<forall>d. generation s d \<le> generation s' d))"

lemma shrinks_purge: "shrinks s (snd (purge_device d s))"
  by (auto simp: shrinks_def purge_facts)

lemma shrinks_all:
  "shrinks s (snd (purge_dns_cache d s))" "shrinks s (clear_tun_dns_servers d' s)"
  "shrinks s (register_tun_dns_servers d' raw s)"
  "shrinks s (s\<lparr> ds_cache := AList.delete k (ds_cache s) \<rparr>)"
proof -
  have fold: "shrinks s (fold advance ds (s\<lparr> ds_cache := [] \<rparr>))" for ds
    using fold_advance(2) [of "s\<lparr> ds_cache := [] \<rparr>"] by (simp add: shrinks_def)
  have srv: "shrinks s (snd (purge_device d' (s\<lparr> ds_servers := x \<rparr>)))" for x
    using shrinks_purge [of "s\<lparr> ds_servers := x \<rparr>" d'] by (simp add: shrinks_def)
  show "shrinks s (snd (purge_dns_cache d s))"
    using fold shrinks_purge [of s] by (cases d) (simp_all add: purge_dns_cache_def)
  show "shrinks s (clear_tun_dns_servers d' s)" using srv by (simp add: clear_tun_dns_servers_def)
  show "shrinks s (register_tun_dns_servers d' raw s)"
    using srv by (simp add: register_tun_dns_servers_def Let_def) (simp add: shrinks_def)
  show "shrinks s (s\<lparr> ds_cache := AList.delete k (ds_cache s) \<rparr>)"
    by (auto simp: shrinks_def)
qed

lemma shrinks_keeps:
  assumes "shrinks (dw_state w) s"
  shows "flights_sound w \<Longrightarrow> flights_sound (w\<lparr> dw_state := s \<rparr>)"
    and "separated d B w \<Longrightarrow> separated d B (w\<lparr> dw_state := s \<rparr>)"
proof -
  have g: "generation (dw_state w) d \<le> generation s d" for d using assms by (simp add: shrinks_def)
  have c: "cached_keys s \<subseteq> cached_keys (dw_state w)" using assms by (simp add: shrinks_def)
  show "flights_sound w \<Longrightarrow> flights_sound (w\<lparr> dw_state := s \<rparr>)"
    unfolding flights_sound_def using g by (auto intro: order_trans)
  show "separated d B w \<Longrightarrow> separated d B (w\<lparr> dw_state := s \<rparr>)"
    unfolding separated_def using c g [of d] less_le_trans by (fastforce simp del: not_less)
qed

lemma finish_fields:
  assumes "finish_lookup conf d h srv v4 g r now s = (res, s')"
  shows "generation s' = generation s"
    and "res \<noteq> None \<Longrightarrow> g = generation s d"
    and "cached_keys s' \<subseteq> (if res = None then {} else {cache_key d h}) \<union> cached_keys s"
proof -
  note fin = assms [unfolded finish_lookup_def Let_def]
  from fin show "generation s' = generation s" by (auto simp: generation_def fun_eq_iff)
  from fin show "res \<noteq> None \<Longrightarrow> g = generation s d" by (auto split: if_splits)
  show "cached_keys s' \<subseteq> (if res = None then {} else {cache_key d h}) \<union> cached_keys s"
  proof (cases res)
    case None
    with fin show ?thesis by (auto simp: cached_keys_def)
  next
    case (Some a)
    with fin have s': "ds_cache s' = AList.update (cache_key d h) (a, now)
        (if dc_max conf \<le> int (length (ds_cache s)) then [] else ds_cache s)" by auto
    have "cached_keys s' = {cache_key d h} \<union> fst ` set (if dc_max conf \<le> int (length (ds_cache s)) then [] else ds_cache s)"
      unfolding cached_keys_def s' by (rule AList.dom_update)
    with Some show ?thesis by (auto simp: cached_keys_def)
  qed
qed

lemma begin_fields:
  assumes "begin_lookup conf d h srv v4 now s = (r, s')"
  shows "generation s' = generation s" "cached_keys s' = cached_keys s" "r = Own g \<Longrightarrow> g = generation s d"
  using assms by (auto simp: begin_lookup_def Let_def cached_keys_def split: option.splits if_splits)

text \<open>One action keeps both properties, with the lookups it begins added.\<close>

lemma dns_event_sound:
  assumes ev: "dns_event conf e w = Some u" and plain: "plain_device e" and fs: "flights_sound w"
  shows "flights_sound u"
    and "CHR ''|'' \<notin> set d \<Longrightarrow> separated d B w \<Longrightarrow> separated d (B \<union> set (begun e)) u"
proof -
  have "flights_sound u \<and> (CHR ''|'' \<notin> set d \<longrightarrow> separated d B w \<longrightarrow> separated d (B \<union> set (begun e)) u)"
  proof (cases e)
    case (BeginLookup i dev h srv v4 now)
    obtain r s where b: "begin_lookup conf dev h srv v4 now (dw_state w) = (r, s)" by (cases "begin_lookup conf dev h srv v4 now (dw_state w)")
    note f = begin_fields [OF b]
    show ?thesis
    proof (cases r)
      case (Own g)
      define fl where "fl = \<lparr> fl_device = dev, fl_host = h, fl_server = srv, fl_ipv4 = v4, fl_generation = g \<rparr>"
      have u: "u = w\<lparr> dw_state := s, dw_flights := (i, fl) # dw_flights w \<rparr>"
        using ev Own b by (auto simp: BeginLookup fl_def split: if_splits)
      have fl: "fl_device fl = dev" "fl_generation fl = generation (dw_state w) dev"
        using f(3) Own by (simp_all add: fl_def)
      have "flights_sound u" using fs plain fl f(1) by (auto simp: flights_sound_def u BeginLookup)
      moreover have "separated d (B \<union> {i}) u" if "separated d B w"
        using that f(1,2) unfolding separated_def u by auto
      ultimately show ?thesis by (simp add: BeginLookup)
    qed (use ev b fs separated_insert in \<open>auto simp: BeginLookup split: if_splits\<close>)
  next
    case (FinishLookup i resolved now)
    obtain f where fl: "map_of (dw_flights w) i = Some f" using ev by (auto simp: FinishLookup split: option.splits)
    obtain res s where fin: "finish_lookup conf (fl_device f) (fl_host f) (fl_server f) (fl_ipv4 f) (fl_generation f)
        resolved now (dw_state w) = (res, s)"
      by (cases "finish_lookup conf (fl_device f) (fl_host f) (fl_server f) (fl_ipv4 f) (fl_generation f) resolved now (dw_state w)")
    note ff = finish_fields [OF fin]
    define org where "org = (if res = None then dw_origin w
      else AList.update (cache_key (fl_device f) (fl_host f)) i (dw_origin w))"
    have u: "u = w\<lparr> dw_state := s, dw_flights := AList.delete i (dw_flights w), dw_origin := org \<rparr>"
      using ev fl fin by (simp add: FinishLookup org_def)
    have mem: "(i, f) \<in> set (dw_flights w)" using fl by (rule map_of_SomeD)
    have sub: "set (AList.delete i (dw_flights w)) \<subseteq> set (dw_flights w)" by (auto simp: AList.delete_eq)
    have "flights_sound u" using fs sub ff(1) by (auto simp: flights_sound_def u)
    moreover have "separated d B u" if d: "CHR ''|'' \<notin> set d" and sep: "separated d B w"
      unfolding separated_def
    proof
      show "\<forall>k \<in> cached_keys (dw_state u). mine d k \<longrightarrow> map_of (dw_origin u) k \<in> Some ` B"
      proof (intro ballI impI)
        fix k assume k: "k \<in> cached_keys (dw_state u)" "mine d k"
        show "map_of (dw_origin u) k \<in> Some ` B"
        proof (cases "res \<noteq> None \<and> k = cache_key (fl_device f) (fl_host f)")
          case True
          have "CHR ''|'' \<notin> set (fl_device f)" using fs mem by (auto simp: flights_sound_def)
          with True k(2) d have "fl_device f = d" using mine_cache_key by metis
          then have "i \<in> B" using sep mem ff(2) True by (auto simp: separated_def)
          with True show ?thesis by (auto simp: u org_def update_conv')
        next
          case False
          then have "k \<in> cached_keys (dw_state w)" using k(1) ff(3) by (auto simp: u split: if_splits)
          then have "map_of (dw_origin w) k \<in> Some ` B" using sep k(2) by (simp add: separated_def)
          with False show ?thesis by (auto simp: u org_def update_conv')
        qed
      qed
      show "\<forall>(i, f) \<in> set (dw_flights u). fl_device f = d \<longrightarrow> i \<in> B \<or> fl_generation f < generation (dw_state u) d"
        using sep sub ff(1) by (auto simp: separated_def u)
    qed
    ultimately show ?thesis by (simp add: FinishLookup)
  qed (use ev fs shrinks_all shrinks_keeps in \<open>auto\<close>)
  then show "flights_sound u" "CHR ''|'' \<notin> set d \<Longrightarrow> separated d B w \<Longrightarrow> separated d (B \<union> set (begun e)) u"
    by blast+
qed


lemma dns_run_sound:
  "dns_run conf w es v \<Longrightarrow> flights_sound w \<Longrightarrow> list_all plain_device es \<Longrightarrow> flights_sound v"
  by (induction rule: dns_run.induct) (auto dest: dns_event_sound(1))

lemma dns_run_separated:
  "dns_run conf w es v \<Longrightarrow> flights_sound w \<Longrightarrow> list_all plain_device es \<Longrightarrow> CHR ''|'' \<notin> set d
    \<Longrightarrow> separated d {} w \<Longrightarrow> separated d (set (concat (map begun es))) v"
proof (induction rule: dns_run.induct)
  case (dns_step w es v e u)
  then have "flights_sound v" by (auto intro: dns_run_sound)
  with dns_step show ?case using dns_event_sound(2) [of conf e v u d] by simp
qed simp

text \<open>A purging action leaves no entry of the device and moves its generation past every lookup.\<close>

lemma purging_separates:
  assumes p: "purging d e (dw_state w)" and ev: "dns_event conf e w = Some u" and fs: "flights_sound w"
  shows "separated d {} u \<and> flights_sound u"
proof -
  obtain s where s: "dw_state u = snd (purge_device d s)" "dw_flights u = dw_flights w"
    "generation s = generation (dw_state w)"
    using p ev by (cases "(d, e, dw_state w)" rule: purging.cases)
      (auto simp: purge_dns_cache_def clear_tun_dns_servers_def register_tun_dns_servers_def Let_def)
  then have "generation (dw_state u) x = generation (dw_state w) x + (if d = x then 1 else 0)" for x
    by (simp add: purge_facts)
  with fs s show ?thesis by (fastforce simp: separated_def flights_sound_def)
qed

lemma flights_sound_start: "flights_sound dns_world_start"
  by (simp add: flights_sound_def dns_world_start_def)

text \<open>C16. After the cache of a tunnel is purged, because its exit was switched or its DNS servers
  changed, no answer obtained by a lookup that began before the purge is kept: whatever lookups and
  other actions interleave, each cached address of the tunnel comes from a lookup begun after the
  purge, and a lookup from before it that finishes late returns nothing.\<close>

theorem purge_forgets_lookups:
  assumes "dns_run conf dns_world_start before w" and "purging d e (dw_state w)"
    and "dns_event conf e w = Some w'" and "dns_run conf w' later u"
    and "list_all plain_device (before @ later)" and "CHR ''|'' \<notin> set d"
  shows "(\<forall>k \<in> cached_keys (dw_state u). mine d k \<longrightarrow> map_of (dw_origin u) k \<in> Some ` set (concat (map begun later)))
    \<and> (\<forall>(i, f) \<in> set (dw_flights u). fl_device f = d \<longrightarrow> i \<notin> set (concat (map begun later))
        \<longrightarrow> fst (finish_lookup conf d (fl_host f) (fl_server f) (fl_ipv4 f) (fl_generation f) resolved now
              (dw_state u)) = None)"
proof -
  have fs: "flights_sound w" using dns_run_sound [OF assms(1) flights_sound_start] assms(5) by simp
  from purging_separates [OF assms(2,3) fs] have "separated d {} w'" "flights_sound w'" by blast+
  with dns_run_separated [OF assms(4)] assms(5,6) have sep: "separated d (set (concat (map begun later))) u" by simp
  then show ?thesis unfolding separated_def finish_lookup_def Let_def by (auto split: if_splits)
qed

section \<open>A concrete interleaving\<close>

fun dns_events :: "dns_settings \<Rightarrow> dns_action list \<Rightarrow> dns_world \<Rightarrow> dns_world option" where
  "dns_events conf [] w = Some w"
| "dns_events conf (e # es) w = (case dns_event conf e w of Some u \<Rightarrow> dns_events conf es u | None \<Rightarrow> None)"

lemma dns_events_from: "dns_run conf w0 es0 w \<Longrightarrow> dns_events conf es w = Some u \<Longrightarrow> dns_run conf w0 (es0 @ es) u"
proof (induction es arbitrary: es0 w)
  case (Cons e es)
  then obtain v where v: "dns_event conf e w = Some v" "dns_events conf es v = Some u" by (auto split: option.splits)
  with Cons.IH [OF dns_step [OF Cons.prems(1) v(1)]] show ?case by simp
qed simp

definition sample_settings :: dns_settings where
  "sample_settings = \<lparr> dc_ttl = 300, dc_max = 4096 \<rparr>"

definition world_after :: "dns_action list \<Rightarrow> dns_world" where
  "world_after es = (case dns_events sample_settings es dns_world_start of Some w \<Rightarrow> w | None \<Rightarrow> dns_world_start)"

definition early :: "dns_action list" where
  "early = [BeginLookup 1 ''tun0'' ''a.b'' None False 5, BeginLookup 2 ''tun0'' ''c.d'' None False 5,
     FinishLookup 2 (Some ''10.0.0.1'') 6]"

definition late :: "dns_action list" where
  "late = [BeginLookup 3 ''tun0'' ''e.f'' None False 7, FinishLookup 3 (Some ''10.0.0.2'') 8]"

lemma world_after_run:
  "dns_events sample_settings es dns_world_start \<noteq> None \<Longrightarrow> dns_run sample_settings dns_world_start es (world_after es)"
  using dns_events_from [OF dns_stop, of sample_settings es dns_world_start "world_after es"]
  by (auto simp: world_after_def)

definition purged :: dns_world where
  "purged = (case dns_event sample_settings (PurgeDns (Some ''tun0'')) (world_after early) of Some w \<Rightarrow> w | None \<Rightarrow> dns_world_start)"

definition refilled :: dns_world where
  "refilled = (case dns_events sample_settings late purged of Some w \<Rightarrow> w | None \<Rightarrow> dns_world_start)"

theorem purge_forgets_lookups_witness:
  "fst (finish_lookup sample_settings ''tun0'' ''a.b'' None False 0 (Some ''10.9.9.9'') 9 (dw_state refilled)) = None
    \<and> map_of (dw_origin refilled) ''tun0|e.f'' = Some 3"
proof -
  have r1: "dns_run sample_settings dns_world_start early (world_after early)"
    by (rule world_after_run) code_simp
  have e: "dns_event sample_settings (PurgeDns (Some ''tun0'')) (world_after early) = Some purged"
    by (simp add: purged_def)
  have "dns_events sample_settings late purged \<noteq> None" by code_simp
  then have "dns_events sample_settings late purged = Some refilled" by (auto simp: refilled_def)
  then have r2: "dns_run sample_settings purged late refilled"
    using dns_events_from [OF dns_stop] by fastforce
  have p: "purging ''tun0'' (PurgeDns (Some ''tun0'')) (dw_state (world_after early))" by simp
  have pl: "list_all plain_device (early @ late)" by (simp add: early_def late_def)
  have mem: "(1, \<lparr> fl_device = ''tun0'', fl_host = ''a.b'', fl_server = None, fl_ipv4 = False, fl_generation = 0 \<rparr>)
      \<in> set (dw_flights refilled)" by code_simp
  from purge_forgets_lookups [OF r1 p e r2 pl, of "Some ''10.9.9.9''" 9] mem
  have "fst (finish_lookup sample_settings ''tun0'' ''a.b'' None False 0 (Some ''10.9.9.9'') 9 (dw_state refilled)) = None"
    by (fastforce simp: late_def)
  moreover have "map_of (dw_origin refilled) ''tun0|e.f'' = Some 3" by code_simp
  ultimately show ?thesis by blast
qed

text \<open>Purging everything misses a device without servers that was never purged before: a lookup of
  it in progress still stores its answer afterwards.\<close>

lemma purge_all_misses_new_device:
  "fst (finish_lookup sample_settings ''tun0'' ''a.b'' None False 0 (Some ''10.9.9.9'') 9
     (snd (purge_dns_cache None (dw_state (world_after early))))) = Some ''10.9.9.9''"
  by code_simp

end
