(* ===== verification/Proxy_Clients.thy ===== *)
theory Proxy_Clients
  imports Bytes
begin

text \<open>
  The client side of \<^verbatim>\<open>services/aimili-egress/proxy_server.py\<close>: the credentials of the proxy, the SOCKS5
  and HTTP handshakes and the choice between them. A handler is a function of the chunks that the
  client sends; it returns the actions it takes in order and the exception it ends with, if any.
  HTTP text is a list of characters, one for each byte (ISO-8859-1). The codecs of the library
  (UTF-8, IDNA, base64, address printing, URL splitting) and the outcome of a connection are
  arguments.
\<close>

section \<open>Devices, hosts and ports\<close>

definition parse_int :: "string \<Rightarrow> int" where
  "parse_int v = (case int_of_str v of Some n \<Rightarrow> n | None \<Rightarrow> 0)"

definition resolve_device :: "pyval \<Rightarrow> string" where
  "resolve_device v = (let normalized = py_strip (str_or_empty v) in
     if normalized = [] then ''tun0'' else normalized)"

definition int_or :: "int \<Rightarrow> int \<Rightarrow> int" where
  "int_or n d = (if n = 0 then d else n)"

definition lstrip_char :: "char \<Rightarrow> string \<Rightarrow> string" where
  "lstrip_char c s = dropWhile (\<lambda>x. x = c) s"

definition parse_host_port :: "string \<Rightarrow> int \<Rightarrow> string \<times> int" where
  "parse_host_port authority default_port = (let a = py_strip authority in
     if starts_with ''['' a then
       (case py_partition (CHR '']'') a of (host_part, sep, rest) \<Rightarrow>
         (lstrip_char (CHR ''['') host_part,
          if sep \<and> starts_with '':'' rest then int_or (parse_int (tl rest)) default_port else default_port))
     else if count_list a (CHR '':'') = 1 then
       (case py_rpartition (CHR '':'') a of (host, sep, port_text) \<Rightarrow>
         (host, int_or (parse_int port_text) default_port))
     else (a, default_port))"

section \<open>Credentials\<close>

text \<open>The four environment variables; \<open>None\<close> is a variable that is not set.\<close>

record proxy_env =
  pe_user :: "string option"
  pe_username :: "string option"
  pe_pass :: "string option"
  pe_password :: "string option"

definition text_or :: "string option \<Rightarrow> string option \<Rightarrow> string option" where
  "text_or a b = (if a = None \<or> a = Some [] then b else a)"

definition or_empty :: "string option \<Rightarrow> string" where
  "or_empty a = (case a of Some s \<Rightarrow> s | None \<Rightarrow> [])"

definition get_proxy_credentials :: "proxy_env \<Rightarrow> (string \<times> string) option" where
  "get_proxy_credentials env =
     (let user = text_or (pe_user env) (pe_username env); password = text_or (pe_pass env) (pe_password env) in
      if user = None \<and> password = None then None else Some (or_empty user, or_empty password))"

definition proxy_auth_enabled :: "proxy_env \<Rightarrow> bool" where
  "proxy_auth_enabled env = (get_proxy_credentials env \<noteq> None)"

definition check_credentials :: "proxy_env \<Rightarrow> string option \<Rightarrow> string option \<Rightarrow> pyexc + bool" where
  "check_credentials env username password = (case get_proxy_credentials env of
     None \<Rightarrow> Inr True
   | Some (user, pass) \<Rightarrow> err_bind (compare_digest (or_empty username) user) (\<lambda>same.
       if same then compare_digest (or_empty password) pass else Inr False))"

text \<open>\<open>decode64\<close>: base64 with validation, then UTF-8 with replacement.\<close>

fun parse_http_basic_auth :: "(string \<Rightarrow> string option) \<Rightarrow> string list \<Rightarrow> string option \<times> string option" where
  "parse_http_basic_auth decode64 [] = (None, None)"
| "parse_http_basic_auth decode64 (line # lines) = (case py_partition (CHR '':'') line of (name, sep, v) \<Rightarrow>
     if \<not> sep \<or> py_lower (py_strip name) \<noteq> ''proxy-authorization'' then parse_http_basic_auth decode64 lines
     else (case py_partition (CHR '' '') (py_strip v) of (scheme, _, token) \<Rightarrow>
       if py_lower scheme \<noteq> ''basic'' \<or> token = [] then (None, None)
       else (case decode64 token of
         None \<Rightarrow> (None, None)
       | Some decoded \<Rightarrow> (case py_partition (CHR '':'') decoded of (username, found, password) \<Rightarrow>
           if \<not> found then (None, None) else (Some username, Some password)))))"

section \<open>Actions of a handler\<close>

datatype 'b client_action =
    Reply "'b list" | ConnectTo string int | Forward "'b list" | Relay

type_synonym 'b trace = "'b client_action list \<times> pyexc option"

record url_parts =
  up_scheme :: string
  up_hostname :: "string option"
  up_port :: "pyexc + int option"
  up_path :: string
  up_query :: string

record codecs =
  cx_utf8 :: "byte list \<Rightarrow> string"
  cx_idna :: "byte list \<Rightarrow> pyexc + string"
  cx_ntoa :: "byte list \<Rightarrow> string"
  cx_ntop6 :: "byte list \<Rightarrow> string"
  cx_decode64 :: "string \<Rightarrow> string option"
  cx_urlsplit :: "string \<Rightarrow> pyexc + url_parts"
  cx_urlunsplit :: "string \<Rightarrow> string \<Rightarrow> string"

section \<open>SOCKS5\<close>

definition reading ::
  "nat \<Rightarrow> byte client_action list \<Rightarrow> byte list list \<Rightarrow> (byte list \<Rightarrow> byte list list \<Rightarrow> byte trace) \<Rightarrow> byte trace" where
  "reading n acts chunks k = (case recv_exact n chunks of Inl e \<Rightarrow> (acts, Some e) | Inr (bs, rest) \<Rightarrow> k bs rest)"

text \<open>A length byte and that many bytes.\<close>

definition reading_counted ::
  "byte client_action list \<Rightarrow> byte list list \<Rightarrow> (byte list \<Rightarrow> byte list list \<Rightarrow> byte trace) \<Rightarrow> byte trace" where
  "reading_counted acts chunks k = reading 1 acts chunks (\<lambda>n rest. reading (unat (n ! 0)) acts rest k)"

definition socks_reply :: "byte \<Rightarrow> byte client_action" where
  "socks_reply code = Reply [5, code, 0, 1, 0, 0, 0, 0, 0, 0]"

definition socks5_connect ::
  "(string \<Rightarrow> int \<Rightarrow> pyexc + unit) \<Rightarrow> byte client_action list \<Rightarrow> pyexc + string \<Rightarrow> byte list list \<Rightarrow> byte trace" where
  "socks5_connect connect acts host chunks = (case host of
     Inl e \<Rightarrow> (acts, Some e)
   | Inr h \<Rightarrow> reading 2 acts chunks (\<lambda>p rest. let port = int (from_be p) in
       case connect h port of
         Inl e \<Rightarrow> (acts @ [ConnectTo h port, socks_reply 4], Some e)
       | Inr _ \<Rightarrow> (acts @ [ConnectTo h port, socks_reply 0, Relay], None)))"

definition socks5_request ::
  "codecs \<Rightarrow> (string \<Rightarrow> int \<Rightarrow> pyexc + unit) \<Rightarrow> byte client_action list \<Rightarrow> byte list list \<Rightarrow> byte trace" where
  "socks5_request cx connect acts chunks = reading 4 acts chunks (\<lambda>hd4 rest.
     if hd4 ! 0 \<noteq> 5 \<or> hd4 ! 1 \<noteq> 1 then (acts @ [socks_reply 7], None)
     else if hd4 ! 3 = 1
     then reading 4 acts rest (\<lambda>a rest. socks5_connect connect acts (Inr (cx_ntoa cx a)) rest)
     else if hd4 ! 3 = 3
     then reading_counted acts rest (\<lambda>a rest. socks5_connect connect acts (cx_idna cx a) rest)
     else if hd4 ! 3 = 4
     then reading 16 acts rest (\<lambda>a rest. socks5_connect connect acts (Inr (cx_ntop6 cx a)) rest)
     else (acts @ [socks_reply 8], None))"

text \<open>The sub-negotiation with user name and password.\<close>

definition socks5_check ::
  "proxy_env \<Rightarrow> codecs \<Rightarrow> (string \<Rightarrow> int \<Rightarrow> pyexc + unit) \<Rightarrow> byte list \<Rightarrow> byte list \<Rightarrow> byte list list \<Rightarrow> byte trace" where
  "socks5_check env cx connect u p rest =
     (case check_credentials env (Some (cx_utf8 cx u)) (Some (cx_utf8 cx p)) of
        Inl e \<Rightarrow> ([Reply [5, 2]], Some e)
      | Inr same \<Rightarrow>
          if same then socks5_request cx connect [Reply [5, 2], Reply [1, 0]] rest
          else ([Reply [5, 2], Reply [1, 1]], None))"

definition socks5_login ::
  "proxy_env \<Rightarrow> codecs \<Rightarrow> (string \<Rightarrow> int \<Rightarrow> pyexc + unit) \<Rightarrow> byte list list \<Rightarrow> byte trace" where
  "socks5_login env cx connect chunks = reading 1 [Reply [5, 2]] chunks (\<lambda>version rest.
     if version ! 0 \<noteq> 1 then ([Reply [5, 2], Reply [1, 1]], None)
     else reading_counted [Reply [5, 2]] rest (\<lambda>u rest.
       reading_counted [Reply [5, 2]] rest (\<lambda>p rest. socks5_check env cx connect u p rest)))"

definition socks5_client ::
  "proxy_env \<Rightarrow> codecs \<Rightarrow> (string \<Rightarrow> int \<Rightarrow> pyexc + unit) \<Rightarrow> byte list list \<Rightarrow> byte trace" where
  "socks5_client env cx connect chunks = reading_counted [] chunks (\<lambda>methods rest.
     if \<not> proxy_auth_enabled env then socks5_request cx connect [Reply [5, 0]] rest
     else if 2 \<notin> set methods then ([Reply [5, 255]], None)
     else socks5_login env cx connect rest)"

section \<open>HTTP\<close>

definition crlf :: string where "crlf = [CHR 0x0D, CHR 0x0A]"

fun read_http_header :: "string \<Rightarrow> string list \<Rightarrow> string" where
  "read_http_header data [] = data"
| "read_http_header data (chunk # chunks) =
     (if py_contains (crlf @ crlf) data \<or> 65536 \<le> int (length data) \<or> chunk = [] then data
      else read_http_header (data @ chunk) chunks)"

text \<open>\<open>s.split(sep, 1)\<close> for a separator that occurs, and \<open>s.split("\r\n")\<close>.\<close>

fun split_once :: "string \<Rightarrow> string \<Rightarrow> (string \<times> string) option" where
  "split_once sep [] = None"
| "split_once sep (c # s) =
     (if starts_with sep (c # s) then Some ([], drop (length sep) (c # s))
      else map_option (\<lambda>(a, b). (c # a, b)) (split_once sep s))"

fun split_crlf :: "string \<Rightarrow> string list" where
  "split_crlf [] = [[]]"
| "split_crlf [c] = [[c]]"
| "split_crlf (c # d # s) =
     (if [c, d] = crlf then [] # split_crlf s
      else (case split_crlf (d # s) of [] \<Rightarrow> [[c]] | l # ls \<Rightarrow> (c # l) # ls))"

fun join_crlf :: "string list \<Rightarrow> string" where
  "join_crlf [] = []"
| "join_crlf [l] = l"
| "join_crlf (l # ls) = l @ crlf @ join_crlf ls"

text \<open>The request line: exactly the two first blanks separate.\<close>

definition request_line :: "string \<Rightarrow> (string \<times> string \<times> string) option" where
  "request_line line = (case py_partition (CHR '' '') line of (method, f1, rest) \<Rightarrow>
     (case py_partition (CHR '' '') rest of (target, f2, version) \<Rightarrow>
       if f1 \<and> f2 then Some (method, target, version) else None))"

definition empty_answer :: "string \<Rightarrow> string" where
  "empty_answer status = ''HTTP/1.1 '' @ status @ crlf @ ''Content-Length: 0'' @ crlf @ crlf"

definition bad_request :: string where "bad_request = empty_answer ''400 Bad Request''"
definition bad_gateway :: string where "bad_gateway = empty_answer ''502 Bad Gateway''"

definition auth_required :: string where
  "auth_required = ''HTTP/1.1 407 Proxy Authentication Required'' @ crlf
     @ ''Proxy-Authenticate: Basic realm='' @ [CHR 0x22] @ ''AimiliVPN Proxy'' @ [CHR 0x22] @ crlf
     @ ''Content-Length: 0'' @ crlf @ crlf"

definition established :: string where
  "established = ''HTTP/1.1 200 Connection Established'' @ crlf @ crlf"

text \<open>The host and port from the first \<open>Host\<close> header, with the port of the target as default.\<close>

definition host_header :: "string \<Rightarrow> pyexc + string \<times> int option" where
  "host_header host_val =
     (if CHR ''['' \<in> set host_val \<and> CHR '']'' \<in> set host_val then
        (case py_rpartition (CHR '']'') host_val of (host_part, _, port_part) \<Rightarrow>
          let hostname = lstrip_char (CHR ''['') host_part in
          if starts_with '':'' port_part then
            (let p_val = lstrip_char (CHR '':'') port_part in
             if py_isdigit p_val
             then (case int_of_str p_val of Some n \<Rightarrow> Inr (hostname, Some n) | None \<Rightarrow> Inl ValueError)
             else Inr (hostname, None))
          else Inr (hostname, None))
      else (case parse_host_port host_val 0 of (hostname, port) \<Rightarrow>
        Inr (hostname, if port = 0 then None else Some port)))"

fun from_host_header :: "int option \<Rightarrow> string list \<Rightarrow> pyexc + string \<times> int option" where
  "from_host_header port [] = Inr ([], port)"
| "from_host_header port (line # lines) =
     (if starts_with ''host:'' (py_lower line)
      then host_header (py_strip (snd (snd (py_partition (CHR '':'') line))))
      else from_host_header port lines)"

definition hop_header :: "string \<Rightarrow> bool" where
  "hop_header line = (let l = py_lower line in starts_with ''proxy-connection:'' l
     \<or> starts_with ''connection:'' l \<or> starts_with ''proxy-authorization:'' l)"

definition forwarded_request :: "codecs \<Rightarrow> string \<Rightarrow> string \<Rightarrow> url_parts \<Rightarrow> string list \<Rightarrow> string" where
  "forwarded_request cx method version parsed headers =
     method @ '' '' @ cx_urlunsplit cx (if up_path parsed = [] then ''/'' else up_path parsed) (up_query parsed)
     @ '' '' @ version @ crlf @ join_crlf (filter (\<lambda>l. \<not> hop_header l) headers)
     @ crlf @ ''Connection: close'' @ crlf @ crlf"

definition http_connect ::
  "(string \<Rightarrow> int \<Rightarrow> pyexc + unit) \<Rightarrow> string \<Rightarrow> int \<Rightarrow> char client_action list \<Rightarrow> char trace" where
  "http_connect connect host port after_open = (case connect host port of
     Inl e \<Rightarrow> ([ConnectTo host port], Some e)
   | Inr _ \<Rightarrow> (ConnectTo host port # after_open @ [Relay], None))"

definition http_plain_request ::
  "codecs \<Rightarrow> (string \<Rightarrow> int \<Rightarrow> pyexc + unit) \<Rightarrow> string \<Rightarrow> string \<Rightarrow> string \<Rightarrow> string list \<Rightarrow> string \<Rightarrow> char trace" where
  "http_plain_request cx connect method target version headers rest = (case cx_urlsplit cx target of
     Inl e \<Rightarrow> if e = ValueError then ([Reply bad_request], None) else ([], Some e)
   | Inr parsed \<Rightarrow> (case up_port parsed of
       Inl e \<Rightarrow> ([], Some e)
     | Inr url_port \<Rightarrow>
       (case (if up_hostname parsed = None \<or> up_hostname parsed = Some [] then from_host_header url_port headers
              else Inr (or_empty (up_hostname parsed), url_port)) of
          Inl e \<Rightarrow> ([], Some e)
        | Inr (hostname, port) \<Rightarrow>
            if hostname = [] then ([Reply bad_request], None)
            else http_connect connect hostname
              (int_or (case port of Some p \<Rightarrow> p | None \<Rightarrow> 0) (if up_scheme parsed = ''https'' then 443 else 80))
              [Forward (forwarded_request cx method version parsed headers @ rest)])))"

definition http_request ::
  "proxy_env \<Rightarrow> codecs \<Rightarrow> (string \<Rightarrow> int \<Rightarrow> pyexc + unit) \<Rightarrow> string \<Rightarrow> char trace" where
  "http_request env cx connect header = (case split_once (crlf @ crlf) header of
     None \<Rightarrow> ([Reply bad_request], None)
   | Some (head, rest) \<Rightarrow> (case split_crlf head of
       [] \<Rightarrow> ([], Some IndexError)
     | first_line # headers \<Rightarrow> (case request_line first_line of
         None \<Rightarrow> ([Reply bad_request], None)
       | Some (method, target, version) \<Rightarrow>
           if \<not> starts_with ''HTTP/'' version then ([Reply bad_request], None)
           else (case (if proxy_auth_enabled env
                       then (case parse_http_basic_auth (cx_decode64 cx) headers of (u, p) \<Rightarrow> check_credentials env u p)
                       else Inr True) of
              Inl e \<Rightarrow> ([], Some e)
            | Inr False \<Rightarrow> ([Reply auth_required], None)
            | Inr True \<Rightarrow>
                if py_upper method = ''CONNECT''
                then (case parse_host_port target 443 of (host, port) \<Rightarrow>
                  http_connect connect host port
                    (Reply established # (if rest = [] then [] else [Forward rest])))
                else http_plain_request cx connect method target version headers rest))))"

text \<open>Every exception is answered with a gateway error.\<close>

definition http_client ::
  "proxy_env \<Rightarrow> codecs \<Rightarrow> (string \<Rightarrow> int \<Rightarrow> pyexc + unit) \<Rightarrow> string \<Rightarrow> string list \<Rightarrow> char client_action list" where
  "http_client env cx connect first chunks =
     (case http_request env cx connect (read_http_header first chunks) of
        (acts, None) \<Rightarrow> acts | (acts, Some e) \<Rightarrow> acts @ [Reply bad_gateway])"

section \<open>The choice of the protocol\<close>

definition latin1 :: "byte list \<Rightarrow> string" where
  "latin1 bs = map (\<lambda>b. char_of (unat b)) bs"

datatype client_run = NoByte | Socks "byte client_action list" | Http "char client_action list"

definition proxy_client ::
  "proxy_env \<Rightarrow> codecs \<Rightarrow> (string \<Rightarrow> int \<Rightarrow> pyexc + unit) \<Rightarrow> byte list list \<Rightarrow> client_run" where
  "proxy_client env cx connect chunks = (case recv_exact 1 chunks of
     Inl e \<Rightarrow> NoByte
   | Inr (first, rest) \<Rightarrow>
       if first = [5] then Socks (fst (socks5_client env cx connect rest))
       else Http (http_client env cx connect (latin1 first) (map latin1 rest)))"


section \<open>Who gets a connection\<close>

text \<open>A step of the handshake that leads to a connection has read its bytes from the stream.\<close>

lemma reading_connects:
  assumes "[] \<notin> set chunks" "ConnectTo h p \<in> set (fst (reading n acts chunks k))" "ConnectTo h p \<notin> set acts"
  obtains bs rest where "concat chunks = bs @ concat rest" "length bs = n" "[] \<notin> set rest"
    "ConnectTo h p \<in> set (fst (k bs rest))"
proof -
  from assms(2,3) obtain bs rest where r: "recv_exact n chunks = Inr (bs, rest)" "ConnectTo h p \<in> set (fst (k bs rest))"
    by (auto simp: reading_def split: sum.splits)
  from recv_exact_stream(1) [OF assms(1) r(1)] recv_exact_length [OF r(1)] r(2) show thesis
    by (intro that [of bs rest]) auto
qed

lemma reading_counted_connects:
  assumes "[] \<notin> set chunks" "ConnectTo h p \<in> set (fst (reading_counted acts chunks k))" "ConnectTo h p \<notin> set acts"
  obtains bs rest where "concat chunks = of_nat (length bs) # bs @ concat rest" "[] \<notin> set rest"
    "ConnectTo h p \<in> set (fst (k bs rest))"
proof -
  from reading_connects [OF assms(1) assms(2) [unfolded reading_counted_def] assms(3)] obtain c rest
    where c: "concat chunks = c @ concat rest" "length c = 1" "[] \<notin> set rest"
      "ConnectTo h p \<in> set (fst (reading (unat (c ! 0)) acts rest k))" by blast
  from reading_connects [OF c(3,4) assms(3)] obtain bs rest'
    where b: "concat rest = bs @ concat rest'" "length bs = unat (c ! 0)" "[] \<notin> set rest'"
      "ConnectTo h p \<in> set (fst (k bs rest'))" by blast
  have "c = [c ! 0]" using c(2) by (cases c) auto
  moreover have "of_nat (length bs) = c ! 0" using b(2) by simp
  ultimately have "concat chunks = of_nat (length bs) # bs @ concat rest'" using c(1) b(1) by (metis append_Cons append_Nil)
  with b show thesis by (intro that [of bs rest'])
qed

lemma compare_digest_same [dest]: "compare_digest a b = Inr True \<Longrightarrow> a = b"
  by (simp add: compare_digest_def split: if_splits)

lemma check_credentials_same:
  assumes "get_proxy_credentials env = Some (user, pass)" "check_credentials env u p = Inr True"
  shows "or_empty u = user \<and> or_empty p = pass"
  using assms by (auto simp: check_credentials_def err_bind_Inr split: if_splits)

definition socks_presents :: "codecs \<Rightarrow> byte list \<Rightarrow> string \<Rightarrow> string \<Rightarrow> bool" where
  "socks_presents cx stream user pass = (\<exists>methods u p rest.
     stream = of_nat (length methods) # methods @ [1, of_nat (length u)] @ u @ [of_nat (length p)] @ p @ rest
     \<and> cx_utf8 cx u = user \<and> cx_utf8 cx p = pass)"

lemma socks_connection:
  assumes creds: "get_proxy_credentials env = Some (user, pass)" and clean: "[] \<notin> set chunks"
    and conn: "ConnectTo h p \<in> set (fst (socks5_client env cx connect chunks))"
  shows "socks_presents cx (concat chunks) user pass"
proof -
  have auth: "proxy_auth_enabled env" using creds by (simp add: proxy_auth_enabled_def)
  obtain methods r1 where m: "concat chunks = of_nat (length methods) # methods @ concat r1" "[] \<notin> set r1"
      "ConnectTo h p \<in> set (fst (socks5_login env cx connect r1))"
    using auth by (rule_tac reading_counted_connects [OF clean conn [unfolded socks5_client_def]])
      (auto split: if_splits)
  obtain v r2 where v: "concat r1 = v @ concat r2" "length v = 1" "[] \<notin> set r2" "v ! 0 = 1"
      "ConnectTo h p \<in> set (fst (reading_counted [Reply [5, 2]] r2 (\<lambda>u rest.
       reading_counted [Reply [5, 2]] rest (\<lambda>p rest. socks5_check env cx connect u p rest))))"
    by (rule reading_connects [OF m(2) m(3) [unfolded socks5_login_def]]) (auto split: if_splits)
  obtain u r3 where u: "concat r2 = of_nat (length u) # u @ concat r3" "[] \<notin> set r3"
      "ConnectTo h p \<in> set (fst (reading_counted [Reply [5, 2]] r3 (\<lambda>p rest. socks5_check env cx connect u p rest)))"
    by (rule reading_counted_connects [OF v(3,5)]) auto
  obtain w r4 where w: "concat r3 = of_nat (length w) # w @ concat r4"
      "ConnectTo h p \<in> set (fst (socks5_check env cx connect u w r4))"
    by (rule reading_counted_connects [OF u(2,3)]) auto
  have "check_credentials env (Some (cx_utf8 cx u)) (Some (cx_utf8 cx w)) = Inr True"
    using w(2) by (auto simp: socks5_check_def split: sum.splits if_splits)
  note same = check_credentials_same [OF creds this]
  have "v = [1]" using v(2,4) by (cases v) auto
  with m(1) v(1) u(1) w(1) same show ?thesis
    unfolding socks_presents_def by (intro exI [of _ methods] exI [of _ u] exI [of _ w] exI [of _ "concat r4"])
      (simp add: or_empty_def)
qed

definition http_presents :: "codecs \<Rightarrow> string \<Rightarrow> string \<Rightarrow> string \<Rightarrow> bool" where
  "http_presents cx header user pass = (case split_once (crlf @ crlf) header of
     None \<Rightarrow> False
   | Some (head, rest) \<Rightarrow> (case parse_http_basic_auth (cx_decode64 cx) (tl (split_crlf head)) of (u, p) \<Rightarrow>
       or_empty u = user \<and> or_empty p = pass))"

lemma http_connection:
  assumes creds: "get_proxy_credentials env = Some (user, pass)"
    and conn: "ConnectTo h p \<in> set (fst (http_request env cx connect header))"
  shows "http_presents cx header user pass"
proof -
  have auth: "proxy_auth_enabled env" using creds by (simp add: proxy_auth_enabled_def)
  from conn obtain head rest where sp: "split_once (crlf @ crlf) header = Some (head, rest)"
    by (auto simp: http_request_def split: option.splits)
  with conn obtain l ls where ls: "split_crlf head = l # ls"
    by (auto simp: http_request_def split: list.splits)
  with conn sp obtain rl where "request_line l = Some rl"
    by (auto simp: http_request_def split: option.splits)
  with conn sp ls auth have "(case parse_http_basic_auth (cx_decode64 cx) ls of (u, p) \<Rightarrow> check_credentials env u p) = Inr True"
    by (cases rl) (auto simp: http_request_def split: if_splits sum.splits bool.splits)
  with check_credentials_same [OF creds] sp ls show ?thesis
    by (auto simp: http_presents_def split: prod.splits)
qed

lemma header_of_stream: "\<exists>rest. data @ concat chunks = read_http_header data chunks @ rest"
proof (induction chunks arbitrary: data)
  case (Cons c cs)
  from Cons.IH [of "data @ c"] show ?case by auto
qed simp

lemma latin1_concat: "concat (map latin1 cs) = latin1 (concat cs)"
  by (induction cs) (simp_all add: latin1_def)

text \<open>C17. When the proxy has credentials, no client is connected anywhere without presenting them:
  a SOCKS5 client that gets a connection has sent the user name and password in its handshake, and
  an HTTP client in the authorization header of the request it started with. The bytes may arrive
  in any pieces.\<close>

theorem proxy_requires_credentials:
  assumes "get_proxy_credentials env = Some (user, pass)" and "[] \<notin> set chunks"
  shows "case proxy_client env cx connect chunks of
      NoByte \<Rightarrow> concat chunks = []
    | Socks acts \<Rightarrow> ConnectTo host port \<in> set acts \<longrightarrow>
        (\<exists>stream. concat chunks = 5 # stream \<and> socks_presents cx stream user pass)
    | Http acts \<Rightarrow> ConnectTo host port \<in> set acts \<longrightarrow>
        (\<exists>header rest. latin1 (concat chunks) = header @ rest \<and> http_presents cx header user pass)"
proof (cases "recv_exact 1 chunks")
  case (Inl e)
  then have "concat chunks = []" using recv_exact_stream(2) [OF assms(2), of 1] by (cases "concat chunks") auto
  with Inl show ?thesis by (simp add: proxy_client_def)
next
  case (Inr x)
  obtain first r where x: "recv_exact 1 chunks = Inr (first, r)" using Inr by (cases x) simp
  note st = recv_exact_stream(1) [OF assms(2) x]
  then have stream: "concat chunks = first @ concat r" "[] \<notin> set r" by auto
  show ?thesis
  proof (cases "first = [5]")
    case True
    with stream show ?thesis
      using socks_connection [OF assms(1) stream(2), of host port cx connect] x
      by (auto simp: proxy_client_def)
  next
    case False
    let ?header = "read_http_header (latin1 first) (map latin1 r)"
    obtain rest where "latin1 (concat chunks) = ?header @ rest"
      using header_of_stream [of "latin1 first" "map latin1 r"] stream(1) by (auto simp: latin1_concat) (auto simp: latin1_def)
    moreover have "http_presents cx ?header user pass" if "ConnectTo host port \<in> set (http_client env cx connect (latin1 first) (map latin1 r))"
    proof (rule http_connection [OF assms(1)])
      show "ConnectTo host port \<in> set (fst (http_request env cx connect ?header))"
        using that by (cases "http_request env cx connect ?header") (auto simp: http_client_def split: option.splits)
    qed
    ultimately show ?thesis using False x by (auto simp: proxy_client_def)
  qed
qed


section \<open>A concrete client\<close>

definition sample_env :: proxy_env where
  "sample_env = \<lparr> pe_user = Some ''u'', pe_username = None, pe_pass = Some ''p'', pe_password = None \<rparr>"

definition sample_codecs :: codecs where
  "sample_codecs = \<lparr> cx_utf8 = latin1, cx_idna = (\<lambda>bs. Inr (latin1 bs)), cx_ntoa = (\<lambda>_. ''10.0.0.1''),
     cx_ntop6 = (\<lambda>_. ''::1''), cx_decode64 = (\<lambda>_. None), cx_urlsplit = (\<lambda>_. Inl ValueError),
     cx_urlunsplit = (\<lambda>p q. p) \<rparr>"

definition sample_client :: "byte list list" where
  "sample_client = [[5, 1], [2, 1, 1, 117, 1], [112], [5, 1, 0, 1, 10, 0, 0, 1, 0, 80]]"

theorem proxy_requires_credentials_witness:
  "\<exists>stream. concat sample_client = 5 # stream \<and> socks_presents sample_codecs stream ''u'' ''p''"
proof -
  have run: "proxy_client sample_env sample_codecs (\<lambda>_ _. Inr ()) sample_client
      = Socks [Reply [5, 2], Reply [1, 0], ConnectTo ''10.0.0.1'' 80, socks_reply 0, Relay]" by code_simp
  have "get_proxy_credentials sample_env = Some (''u'', ''p'')" by code_simp
  moreover have "[] \<notin> set sample_client" by (simp add: sample_client_def)
  ultimately show ?thesis
    using proxy_requires_credentials [where env = sample_env and chunks = sample_client and cx = sample_codecs
        and connect = "\<lambda>_ _. Inr ()" and host = "''10.0.0.1''" and port = 80] by (simp add: run)
qed

text \<open>A request without headers to forward ends before the \<open>Connection\<close> header that is added: the
  blank line that closes the header comes right after the request line.\<close>

lemma headerless_request_split:
  assumes "list_all hop_header headers"
  shows "forwarded_request cx method version parsed headers
    = (method @ '' '' @ cx_urlunsplit cx (if up_path parsed = [] then ''/'' else up_path parsed) (up_query parsed)
       @ '' '' @ version) @ crlf @ crlf @ ''Connection: close'' @ crlf @ crlf"
proof -
  have "filter (\<lambda>l. \<not> hop_header l) headers = []" using assms by (auto simp: filter_empty_conv list_all_iff)
  then show ?thesis by (simp add: forwarded_request_def)
qed

text \<open>Reading back a host and port that were written with a colon.\<close>

lemma parse_host_port_written:
  assumes "CHR '':'' \<notin> set h" "h \<noteq> []" "hd h \<noteq> CHR ''[''" "list_all (\<lambda>c. \<not> py_isspace_char c) h" "0 < p"
  shows "parse_host_port (h @ '':'' @ int_str p) d = (h, p)"
proof -
  have digits: "int_str p = nat_str (nat p)" using assms(5) by (simp add: int_str_def)
  have nd: "list_all digit_char (nat_str (nat p))" by (rule nat_str_digits)
  have colon: "\<not> digit_char (CHR '':'')" by code_simp
  then have nc: "CHR '':'' \<notin> set (nat_str (nat p))" using nd by (auto simp: list_all_iff)
  let ?a = "h @ '':'' @ nat_str (nat p)"
  have nosp: "list_all (\<lambda>c. \<not> py_isspace_char c) (nat_str (nat p))"
    using nd digit_not_space by (auto simp: list_all_iff)
  have "\<not> py_isspace_char (CHR '':'')" by code_simp
  moreover have "\<not> py_isspace_char (hd h)" using assms(2,4) by (simp add: list_all_iff)
  moreover have "\<not> py_isspace_char (last (nat_str (nat p)))" using nosp by (simp add: list_all_iff)
  ultimately have "py_strip ?a = ?a" using assms(2) by (intro py_strip_no_space) (simp add: hd_append)
  moreover have "\<not> starts_with ''['' ?a" using assms(2,3) by (cases h) (auto simp: starts_with_def)
  moreover have "count_list ?a (CHR '':'') = 1" using assms(1) nc by (simp add: count_list_0_iff)
  moreover have "py_rpartition (CHR '':'') ?a = (h, True, nat_str (nat p))"
    using py_rpartition_found nc by simp
  moreover have "parse_int (nat_str (nat p)) = p" using int_of_str_int_str [of p] digits by (simp add: parse_int_def)
  ultimately show ?thesis using assms(5) by (simp add: parse_host_port_def digits int_or_def Let_def)
qed

end
