(* ===== verification/Json_Codec.thy ===== *)
theory Json_Codec
  imports Json_Text
begin

text \<open>
  The JSON reader and writer of the standard library, as the protocol helper uses them on
  the text columns of the panel's database: \<open>json.dumps(value, sort_keys=True,
  separators=(",", ":"))\<close> and \<open>json.loads(text)\<close>. The text of a float is left unspecified,
  and an escape for a code point above 255 is outside the character range of the model and
  is not read. The reader takes a step bound; every step consumes a character, so the
  length of the text is enough. The round trip is \<open>json_loads_dumps\<close>.
\<close>

section \<open>Writing\<close>

fun json_flt :: "flt \<Rightarrow> string" where
  "json_flt PosInf = ''Infinity''"
| "json_flt NegInf = ''-Infinity''"
| "json_flt NaN = ''NaN''"
| "json_flt (Fin r) = (undefined :: rat \<Rightarrow> string) r"

fun join_comma :: "string list \<Rightarrow> string" where
  "join_comma [] = []"
| "join_comma [t] = t"
| "join_comma (t # ts) = t @ CHR '','' # join_comma ts"

function json_dumps :: "pyval \<Rightarrow> string" where
  "json_dumps PNone = ''null''"
| "json_dumps (PBool b) = (if b then ''true'' else ''false'')"
| "json_dumps (PInt i) = int_str i"
| "json_dumps (PFloat f) = json_flt f"
| "json_dumps (PStr s) = json_string s"
| "json_dumps (PList xs) = CHR ''['' # join_comma (map json_dumps xs) @ '']''"
| "json_dumps (PDict d) = CHR ''{'' # join_comma (map snd (sort_key fst
     (map (\<lambda>p. (fst p, json_string (fst p) @ CHR '':'' # json_dumps (snd p))) d))) @ ''}''"
  by pat_completeness auto
termination
proof (relation "measure size", goal_cases)
  case (2 xs x)
  then show ?case using size_mem_list by fastforce
next
  case (3 d p)
  then show ?case using size_mem_dict by auto
qed simp

section \<open>Reading\<close>

definition json_space :: "char \<Rightarrow> bool" where
  "json_space c = (chr_code c \<in> {9, 10, 13, 32})"

definition json_skip :: "string \<Rightarrow> string" where
  "json_skip s = dropWhile json_space s"

definition hex_char :: "char \<Rightarrow> bool" where
  "hex_char c = (digit_char c \<or> (97 \<le> chr_code c \<and> chr_code c \<le> 102)
     \<or> (65 \<le> chr_code c \<and> chr_code c \<le> 70))"

definition json_hex_val :: "char \<Rightarrow> nat" where
  "json_hex_val c = (if digit_char c then chr_code c - 48
     else if 97 \<le> chr_code c then chr_code c - 87 else chr_code c - 55)"

definition json_unescape :: "char \<Rightarrow> char option" where
  "json_unescape c = map_of
     [(CHR 0x22, CHR 0x22), (CHR 0x5C, CHR 0x5C), (CHR ''/'', CHR ''/''), (CHR ''n'', CHR 0x0A),
      (CHR ''r'', CHR 0x0D), (CHR ''t'', CHR 0x09), (CHR ''b'', CHR 0x08), (CHR ''f'', CHR 0x0C)] c"

definition json_hex4 :: "string \<Rightarrow> (char \<times> string) option" where
  "json_hex4 s = (case s of
     a # b # c # d # r \<Rightarrow>
       (if list_all hex_char [a, b, c, d] then
          (let n = 4096 * json_hex_val a + 256 * json_hex_val b + 16 * json_hex_val c + json_hex_val d in
           if n < 256 then Some (char_of n, r) else None)
        else None)
   | _ \<Rightarrow> None)"

lemma json_hex4_shorter: "json_hex4 s = Some (x, r) \<Longrightarrow> length r < length s"
  by (auto simp: json_hex4_def Let_def split: list.splits if_splits)

function json_str_body :: "string \<Rightarrow> (string \<times> string) option" where
  "json_str_body [] = None"
| "json_str_body (c # s) =
     (if c = CHR 0x22 then Some ([], s)
      else if c = CHR 0x5C then
        (case s of
           [] \<Rightarrow> None
         | e # r \<Rightarrow>
             if e = CHR ''u'' then
               (case json_hex4 r of
                  None \<Rightarrow> None
                | Some (x, q) \<Rightarrow> map_option (apfst (Cons x)) (json_str_body q))
             else
               (case json_unescape e of
                  None \<Rightarrow> None
                | Some x \<Rightarrow> map_option (apfst (Cons x)) (json_str_body r)))
      else if chr_code c < 32 then None
      else map_option (apfst (Cons c)) (json_str_body s))"
  by pat_completeness auto
termination by (relation "measure length") (auto dest: json_hex4_shorter)

declare json_str_body.simps(2) [simp del]

text \<open>A number: \<open>-?(0|[1-9][0-9]*)\<close>, then an optional fraction and exponent.\<close>

definition json_int_part :: "string \<Rightarrow> (string \<times> string) option" where
  "json_int_part s = (case s of
     [] \<Rightarrow> None
   | c # r \<Rightarrow> if c = CHR ''0'' then Some ([c], r)
       else if digit_char c then Some (takeWhile digit_char s, dropWhile digit_char s)
       else None)"

definition json_fraction :: "string \<Rightarrow> string \<times> string" where
  "json_fraction s = (case s of
     c # d # r \<Rightarrow> if c = CHR ''.'' \<and> digit_char d
       then (takeWhile digit_char (d # r), dropWhile digit_char (d # r)) else ([], s)
   | _ \<Rightarrow> ([], s))"

definition json_exponent :: "string \<Rightarrow> int option \<times> string" where
  "json_exponent s = (case s of
     [] \<Rightarrow> (None, s)
   | c # r \<Rightarrow>
       if c \<noteq> CHR ''e'' \<and> c \<noteq> CHR ''E'' then (None, s)
       else (case sign_split r of (sg, t) \<Rightarrow>
         if t \<noteq> [] \<and> digit_char (hd t)
         then (Some (sg * int (digits_val (takeWhile digit_char t))), dropWhile digit_char t)
         else (None, s)))"

definition json_decimal :: "int \<Rightarrow> string \<Rightarrow> string \<Rightarrow> int \<Rightarrow> flt" where
  "json_decimal sg ds fs k =
     (let r = of_nat (digits_val (ds @ fs)) / 10 ^ length fs * ten_power k in
      if of_int float_overflow \<le> r then (if sg < 0 then NegInf else PosInf) else Fin (of_int sg * r))"

definition json_number :: "int \<Rightarrow> string \<Rightarrow> (pyval \<times> string) option" where
  "json_number sg s = (case json_int_part s of
     None \<Rightarrow> None
   | Some (ds, r) \<Rightarrow>
       (case json_fraction r of (fs, r1) \<Rightarrow>
        case json_exponent r1 of (ex, r2) \<Rightarrow>
          if fs = [] \<and> ex = None then Some (PInt (sg * int (digits_val ds)), r2)
          else Some (PFloat (json_decimal sg ds fs (case ex of None \<Rightarrow> 0 | Some k \<Rightarrow> k)), r2)))"

definition json_word :: "string \<Rightarrow> (pyval \<times> string) option" where
  "json_word s =
     (if starts_with ''null'' s then Some (PNone, drop 4 s)
      else if starts_with ''true'' s then Some (PBool True, drop 4 s)
      else if starts_with ''false'' s then Some (PBool False, drop 5 s)
      else if starts_with ''NaN'' s then Some (PFloat NaN, drop 3 s)
      else if starts_with ''Infinity'' s then Some (PFloat PosInf, drop 8 s)
      else if starts_with ''-Infinity'' s then Some (PFloat NegInf, drop 9 s)
      else if starts_with ''-'' s then json_number (- 1) (tl s)
      else json_number 1 s)"

text \<open>A value, the rest of a list after its first bracket or a comma, and the rest of an
  object likewise. A repeated key keeps its place and takes the later value.\<close>

fun json_value :: "nat \<Rightarrow> string \<Rightarrow> (pyval \<times> string) option"
and json_elems :: "nat \<Rightarrow> string \<Rightarrow> (pyval list \<times> string) option"
and json_pairs :: "nat \<Rightarrow> pydict \<Rightarrow> string \<Rightarrow> (pydict \<times> string) option" where
  "json_value 0 s = None"
| "json_value (Suc n) s = (case s of
     [] \<Rightarrow> None
   | c # r \<Rightarrow>
       if c = CHR 0x22 then map_option (apfst PStr) (json_str_body r)
       else if c = CHR ''['' then
         (let t = json_skip r in
          if starts_with '']'' t then Some (PList [], tl t)
          else map_option (apfst PList) (json_elems n t))
       else if c = CHR ''{'' then
         (let t = json_skip r in
          if starts_with ''}'' t then Some (PDict [], tl t)
          else map_option (apfst PDict) (json_pairs n [] t))
       else json_word s)"
| "json_elems 0 s = None"
| "json_elems (Suc n) s = (case json_value n s of
     None \<Rightarrow> None
   | Some (v, r) \<Rightarrow>
       (let t = json_skip r in
        if starts_with '','' t then map_option (apfst (Cons v)) (json_elems n (json_skip (tl t)))
        else if starts_with '']'' t then Some ([v], tl t)
        else None))"
| "json_pairs 0 d s = None"
| "json_pairs (Suc n) d s =
     (if \<not> starts_with [CHR 0x22] s then None
      else (case json_str_body (tl s) of
         None \<Rightarrow> None
       | Some (k, r) \<Rightarrow>
           (let t = json_skip r in
            if \<not> starts_with '':'' t then None
            else (case json_value n (json_skip (tl t)) of
               None \<Rightarrow> None
             | Some (v, q) \<Rightarrow>
                 (let u = json_skip q in
                  if starts_with '','' u then json_pairs n (dset d k v) (json_skip (tl u))
                  else if starts_with ''}'' u then Some (dset d k v, tl u)
                  else None)))))"

definition json_loads :: "string \<Rightarrow> pyval option" where
  "json_loads s = (case json_value (Suc (length s)) (json_skip s) of
     None \<Rightarrow> None
   | Some (v, r) \<Rightarrow> if json_skip r = [] then Some v else None)"

section \<open>The round trip\<close>

text \<open>Reading back sorts the keys of every object.\<close>

function json_norm :: "pyval \<Rightarrow> pyval" where
  "json_norm PNone = PNone"
| "json_norm (PBool b) = PBool b"
| "json_norm (PInt i) = PInt i"
| "json_norm (PFloat f) = PFloat f"
| "json_norm (PStr s) = PStr s"
| "json_norm (PList xs) = PList (map json_norm xs)"
| "json_norm (PDict d) = PDict (map (\<lambda>p. (fst p, json_norm (snd p))) (sort_key fst d))"
  by pat_completeness auto
termination
proof (relation "measure size", goal_cases)
  case (2 xs x)
  then show ?case using size_mem_list by fastforce
next
  case (3 d p)
  then show ?case using size_mem_dict by auto
qed simp

fun json_plain :: "pyval \<Rightarrow> bool" where
  "json_plain (PFloat f) = False"
| "json_plain (PList xs) = (\<forall>x \<in> set xs. json_plain x)"
| "json_plain (PDict d) = (wf_dict d \<and> (\<forall>p \<in> set d. json_plain (snd p)))"
| "json_plain _ = True"

lemma insort_key_map:
  "insort_key f (g x) (map g xs) = map g (insort_key (\<lambda>y. f (g y)) x xs)"
  by (induction xs) auto

lemma sort_key_map: "sort_key f (map g xs) = map g (sort_key (\<lambda>y. f (g y)) xs)"
  by (induction xs) (simp_all add: insort_key_map sort_key_def)

definition json_pair :: "string \<times> pyval \<Rightarrow> string" where
  "json_pair p = json_string (fst p) @ CHR '':'' # json_dumps (snd p)"

lemma json_dumps_dict:
  "json_dumps (PDict d) = CHR ''{'' # join_comma (map json_pair (sort_key fst d)) @ ''}''"
proof -
  have "json_pair = (\<lambda>p. json_string (fst p) @ CHR '':'' # json_dumps (snd p))"
    by (simp add: fun_eq_iff json_pair_def)
  then show ?thesis by (simp add: sort_key_map comp_def)
qed

lemma json_skip_id: "s = [] \<or> \<not> json_space (hd s) \<Longrightarrow> json_skip s = s"
  by (cases s) (auto simp: json_skip_def)

lemma json_skip_Nil [simp]: "json_skip [] = []"
  by (simp add: json_skip_def)

lemma json_skip_quote [simp]: "json_skip (CHR 0x22 # s) = CHR 0x22 # s"
  and json_skip_comma [simp]: "json_skip (CHR '','' # s) = CHR '','' # s"
  and json_skip_colon [simp]: "json_skip (CHR '':'' # s) = CHR '':'' # s"
  and json_skip_bracket [simp]: "json_skip (CHR '']'' # s) = CHR '']'' # s"
  and json_skip_brace [simp]: "json_skip (CHR ''}'' # s) = CHR ''}'' # s"
  by (simp_all add: json_skip_def json_space_def chr_code_def)

subsection \<open>Strings\<close>

lemma json_hex_digit [simp]:
  assumes "n < 16"
  shows "hex_char (hex_digit n)" "json_hex_val (hex_digit n) = n"
  using assms by (auto simp: hex_char_def json_hex_val_def hex_digit_def digit_char_def chr_code_def)

lemma json_hex4_hex4: "json_hex4 (hex4 (chr_code c) @ r) = Some (c, r)"
proof -
  have lt: "chr_code c < 256" by (simp add: chr_code_def)
  have same: "json_hex_val (hex_digit (m mod 16)) = hex_val (hex_digit (m mod 16))" for m
    by simp
  note val = hex4_value [OF lt, folded same]
  show ?thesis
    unfolding json_hex4_def hex4_def append_Cons append_Nil list.case Let_def val
    using lt by (simp add: chr_code_def)
qed

lemma json_str_body_char:
  "json_str_body (json_char c @ s) = map_option (apfst (Cons c)) (json_str_body s)"
proof (cases "short_escape c")
  case (Some e)
  then consider "c = CHR 0x22" | "c = CHR 0x5C" | "c = CHR 0x0A" | "c = CHR 0x0D" | "c = CHR 0x09"
    | "c = CHR 0x08" | "c = CHR 0x0C"
    by (auto simp: short_escape_def split: if_splits)
  then show ?thesis
    by cases (simp_all add: json_char_def short_escape_def json_str_body.simps(2) json_unescape_def)
next
  case None
  then have ne: "c \<noteq> CHR 0x22" "c \<noteq> CHR 0x5C" by (auto simp: short_escape_def)
  show ?thesis
  proof (cases "32 \<le> chr_code c \<and> chr_code c \<le> 126")
    case True
    with None ne show ?thesis by (simp add: json_char_def json_str_body.simps(2))
  next
    case False
    with None have "json_char c = CHR 0x5C # CHR ''u'' # hex4 (chr_code c)"
      by (auto simp only: json_char_def option.case if_False)
    then show ?thesis by (simp add: json_str_body.simps(2) json_hex4_hex4)
  qed
qed

lemma json_str_body_string: "json_str_body (concat (map json_char s) @ CHR 0x22 # r) = Some (s, r)"
  by (induction s) (simp_all add: json_str_body_char json_str_body.simps(2))

lemma json_string_Cons: "json_string s @ r = CHR 0x22 # concat (map json_char s) @ CHR 0x22 # r"
  by (simp add: json_string_def)

subsection \<open>Numbers\<close>

definition json_stop :: "string \<Rightarrow> bool" where
  "json_stop r = (r = [] \<or> hd r \<in> {CHR '','', CHR '']'', CHR ''}''})"

lemma json_stop_simps [simp]:
  "json_stop []" "json_stop (CHR '','' # r)" "json_stop (CHR '']'' # r)" "json_stop (CHR ''}'' # r)"
  by (simp_all add: json_stop_def)

lemma takeWhile_digits:
  assumes "list_all digit_char ds" "json_stop r"
  shows "takeWhile digit_char (ds @ r) = ds" "dropWhile digit_char (ds @ r) = r"
proof -
  have "r = [] \<or> \<not> digit_char (hd r)"
    using assms(2) by (auto simp: json_stop_def digit_char_def chr_code_def)
  then have r: "takeWhile digit_char r = []" "dropWhile digit_char r = r" by (cases r; simp)+
  show "takeWhile digit_char (ds @ r) = ds" "dropWhile digit_char (ds @ r) = r"
    using assms(1) r by (simp_all add: list_all_iff)
qed

lemma nat_str_leading_zero: "nat_str n = CHR ''0'' # t \<Longrightarrow> n = 0"
proof (induction n arbitrary: t rule: nat_str.induct)
  case (1 n)
  show ?case
  proof (cases "n < 10")
    case True
    with 1(2) have eq: "char_of (48 + n) = CHR ''0''"
      by (subst (asm) nat_str.simps) (simp add: digit_of_nat_def)
    have "(of_char (char_of (48 + n) :: char) :: nat) = of_char (CHR ''0'')" by (simp only: eq)
    with True show ?thesis by simp
  next
    case False
    with 1(2) have "nat_str (n div 10) @ [digit_of_nat (n mod 10)] = CHR ''0'' # t"
      by (subst (asm) nat_str.simps) simp
    then obtain u where "nat_str (n div 10) = CHR ''0'' # u"
      by (cases "nat_str (n div 10)") auto
    with 1(1) False have "n div 10 = 0" by blast
    with False show ?thesis by simp
  qed
qed

lemma nat_str_0 [simp]: "nat_str 0 = ''0''"
  by code_simp

lemma json_number_nat_str:
  assumes "json_stop r"
  shows "json_number sg (nat_str n @ r) = Some (PInt (sg * int n), r)"
proof -
  have part: "json_int_part (nat_str n @ r) = Some (nat_str n, r)"
  proof (cases "n = 0")
    case True
    then show ?thesis by (simp add: json_int_part_def)
  next
    case False
    obtain c t where ct: "nat_str n = c # t" by (cases "nat_str n") auto
    have "c \<noteq> CHR ''0''" using nat_str_leading_zero [of n t] ct False by auto
    moreover have "digit_char c" using nat_str_digits [of n] ct by simp
    moreover have "takeWhile digit_char (nat_str n @ r) = nat_str n"
      "dropWhile digit_char (nat_str n @ r) = r"
      using takeWhile_digits [OF nat_str_digits assms] by auto
    ultimately show ?thesis by (simp add: json_int_part_def ct)
  qed
  have "json_fraction r = ([], r)" "json_exponent r = (None, r)"
    using assms by (auto simp: json_stop_def json_fraction_def json_exponent_def split: list.splits)
  with part show ?thesis by (simp add: json_number_def)
qed

lemma starts_with_digit:
  "digit_char c \<Longrightarrow> p \<noteq> [] \<Longrightarrow> \<not> digit_char (hd p) \<Longrightarrow> \<not> starts_with p (c # s)"
  by (cases p) (auto simp: starts_with_def)

lemma json_word_int:
  assumes "json_stop r"
  shows "json_word (int_str i @ r) = Some (PInt i, r)"
proof (cases "i < 0")
  case True
  have "hd (nat_str (nat (- i))) \<noteq> CHR ''I''"
    using nat_str_digits [of "nat (- i)"] by (cases "nat_str (nat (- i))") (auto simp: digit_char_def chr_code_def)
  then have "\<not> starts_with ''-Infinity'' (CHR ''-'' # nat_str (nat (- i)) @ r)"
    using nat_str_nonempty [of "nat (- i)"] by (cases "nat_str (nat (- i))") (auto simp: starts_with_def)
  with True show ?thesis
    using json_number_nat_str [OF assms, of "- 1" "nat (- i)"]
    by (simp add: json_word_def int_str_def) (simp add: starts_with_def)
next
  case False
  obtain c t where ct: "nat_str (nat i) = c # t" by (cases "nat_str (nat i)") auto
  have "digit_char c" using nat_str_digits [of "nat i"] ct by simp
  note no = starts_with_digit [OF this, of _ "t @ r"]
  show ?thesis
    using False json_number_nat_str [OF assms, of 1 "nat i"]
    by (simp add: json_word_def int_str_def ct no digit_char_def chr_code_def)
qed

subsection \<open>Values\<close>

lemma json_dumps_first:
  assumes "json_plain v"
  obtains c t where "json_dumps v = c # t" "\<not> json_space c" "c \<noteq> CHR '']''" "c \<noteq> CHR ''}''"
proof -
  have "json_dumps v \<noteq> [] \<and> \<not> json_space (hd (json_dumps v)) \<and>
    hd (json_dumps v) \<noteq> CHR '']'' \<and> hd (json_dumps v) \<noteq> CHR ''}''"
  proof (cases v)
    case (PInt i)
    have "digit_char (hd (nat_str n)) \<and> nat_str n \<noteq> []" for n
      using nat_str_digits [of n] by (cases "nat_str n") auto
    then have "digit_char (hd (json_dumps v)) \<or> hd (json_dumps v) = CHR ''-''" "json_dumps v \<noteq> []"
      using PInt by (auto simp: int_str_def)
    then show ?thesis by (auto simp: digit_char_def json_space_def chr_code_def)
  qed (use assms in \<open>auto simp: json_space_def chr_code_def json_string_def\<close>)
  then show thesis using that by (cases "json_dumps v") auto
qed

definition reads_back :: "pyval \<Rightarrow> bool" where
  "reads_back v = (\<forall>n r. length (json_dumps v) \<le> n \<longrightarrow> json_stop r \<longrightarrow>
     json_value n (json_dumps v @ r) = Some (json_norm v, r))"

lemma json_elems_back:
  assumes "xs \<noteq> []" "\<forall>x \<in> set xs. reads_back x" "\<forall>x \<in> set xs. json_plain x"
    "length (join_comma (map json_dumps xs)) < n"
  shows "json_elems n (join_comma (map json_dumps xs) @ CHR '']'' # r) = Some (map json_norm xs, r)"
  using assms
proof (induction xs arbitrary: n)
  case Nil
  then show ?case by simp
next
  case (Cons x xs)
  then obtain m where n: "n = Suc m" by (cases n) auto
  show ?case
  proof (cases xs)
    case Nil
    with Cons.prems n have "json_value m (json_dumps x @ CHR '']'' # r) = Some (json_norm x, CHR '']'' # r)"
      by (auto simp: reads_back_def)
    with Nil n show ?thesis by (simp add: starts_with_def)
  next
    case (Cons y ys)
    let ?rest = "join_comma (map json_dumps xs)"
    have join: "join_comma (map json_dumps (x # xs)) = json_dumps x @ CHR '','' # ?rest"
      by (simp add: Cons)
    have le: "length (json_dumps x) \<le> m" "length ?rest < m"
      using Cons.prems(4) n unfolding join by auto
    have "json_value m (json_dumps x @ CHR '','' # ?rest @ CHR '']'' # r)
        = Some (json_norm x, CHR '','' # ?rest @ CHR '']'' # r)"
      using Cons.prems(2) le(1) by (auto simp: reads_back_def)
    moreover have "json_skip (?rest @ CHR '']'' # r) = ?rest @ CHR '']'' # r"
    proof -
      from Cons.prems(3) Cons have "json_plain y" by simp
      then obtain c t where "json_dumps y = c # t" "\<not> json_space c" by (rule json_dumps_first)
      then show ?thesis using Cons by (cases ys) (auto intro: json_skip_id)
    qed
    moreover have "json_elems m (?rest @ CHR '']'' # r) = Some (map json_norm xs, r)"
      using Cons.IH [of m] Cons.prems(2,3) Cons le(2) by auto
    ultimately show ?thesis unfolding join n by (simp add: starts_with_def)
  qed
qed

lemma wf_dict_append_fresh:
  "k \<notin> dkeys d \<Longrightarrow> dset d k v = d @ [(k, v)]"
  unfolding dset_def dkeys_def by (induction d) auto

lemma json_pairs_back:
  assumes "ps \<noteq> []" "\<forall>p \<in> set ps. reads_back (snd p)" "\<forall>p \<in> set ps. json_plain (snd p)"
    "length (join_comma (map json_pair ps)) < n" "distinct (map fst (d @ ps))"
  shows "json_pairs n d (join_comma (map json_pair ps) @ CHR ''}'' # r)
    = Some (d @ map (\<lambda>p. (fst p, json_norm (snd p))) ps, r)"
  using assms
proof (induction ps arbitrary: n d)
  case Nil
  then show ?case by simp
next
  case (Cons p ps)
  obtain k v where p: "p = (k, v)" by (cases p)
  obtain m where n: "n = Suc m" using Cons.prems(4) by (cases n) auto
  have plain: "json_plain v" and rb: "reads_back v" using Cons.prems(2,3) p by auto
  have fresh: "dset d k w = d @ [(k, w)]" for w
    using Cons.prems(5) p by (intro wf_dict_append_fresh) (auto simp: dkeys_def)
  have skip: "json_skip (json_dumps v @ s) = json_dumps v @ s" for s
    using json_dumps_first [OF plain] by (metis append_Cons json_skip_id list.sel(1))
  have key: "json_str_body (tl (json_pair p @ s)) = Some (k, CHR '':'' # json_dumps v @ s)"
    and quote: "starts_with [CHR 0x22] (json_pair p @ s)" for s
    using json_str_body_string [of k "CHR '':'' # json_dumps v @ s"]
    by (simp_all add: json_pair_def p json_string_Cons starts_with_def)
  show ?case
  proof (cases ps)
    case Nil
    then have "length (json_dumps v) \<le> m" using Cons.prems(4) n p by (simp add: json_pair_def)
    with rb have "json_value m (json_dumps v @ CHR ''}'' # r) = Some (json_norm v, CHR ''}'' # r)"
      by (simp add: reads_back_def)
    with Nil n fresh p key [of "CHR ''}'' # r"] quote [of "CHR ''}'' # r"] show ?thesis
      by (simp add: starts_with_def skip)
  next
    case (Cons q qs)
    let ?rest = "join_comma (map json_pair ps) @ CHR ''}'' # r"
    have join: "join_comma (map json_pair (p # ps)) @ CHR ''}'' # r = json_pair p @ CHR '','' # ?rest"
      by (simp add: Cons)
    have le: "length (json_dumps v) \<le> m" "length (join_comma (map json_pair ps)) < m"
    proof -
      have "length (json_pair p) + 1 + length (join_comma (map json_pair ps)) < n"
        using Cons.prems(4) Cons by simp
      moreover have "length (json_dumps v) < length (json_pair p)" by (simp add: json_pair_def p)
      ultimately show "length (json_dumps v) \<le> m" "length (join_comma (map json_pair ps)) < m"
        using n by linarith+
    qed
    have val: "json_value m (json_dumps v @ CHR '','' # ?rest) = Some (json_norm v, CHR '','' # ?rest)"
      using rb le(1) by (simp add: reads_back_def)
    have "json_skip ?rest = ?rest"
      using Cons by (cases qs) (simp_all add: json_pair_def json_string_Cons)
    moreover have "json_pairs m (d @ [(k, json_norm v)]) ?rest
        = Some ((d @ [(k, json_norm v)]) @ map (\<lambda>p. (fst p, json_norm (snd p))) ps, r)"
      using Cons.IH [of m "d @ [(k, json_norm v)]"] Cons.prems(2,3,5) Cons le(2) p by auto
    ultimately show ?thesis
      unfolding join n using val fresh key [of "CHR '','' # ?rest"] quote [of "CHR '','' # ?rest"] p
      by (simp add: starts_with_def skip)
  qed
qed

lemma reads_back_plain: "json_plain v \<Longrightarrow> reads_back v"
proof (induction v rule: json_dumps.induct)
  case (3 i)
  have word: "json_value (Suc m) (int_str i @ r) = json_word (int_str i @ r)" for m r
  proof -
    obtain c t where ct: "int_str i = c # t" "digit_char c \<or> c = CHR ''-''"
      using nat_str_digits [of "nat (- i)"] nat_str_digits [of "nat i"]
      by (cases "nat_str (nat i)"; cases "nat_str (nat (- i))"; cases "i < 0")
        (auto simp: int_str_def)
    then show ?thesis by (auto simp: digit_char_def chr_code_def)
  qed
  have "int_str i \<noteq> []" by (simp add: int_str_def)
  then show ?case
    unfolding reads_back_def
  proof (intro allI impI)
    fix n r assume "length (json_dumps (PInt i)) \<le> n" and r: "json_stop r"
    with \<open>int_str i \<noteq> []\<close> obtain m where "n = Suc m" by (cases n) auto
    with r show "json_value n (json_dumps (PInt i) @ r) = Some (json_norm (PInt i), r)"
      by (simp only: json_dumps.simps json_norm.simps word json_word_int)
  qed
next
  case (5 s)
  show ?case
    unfolding reads_back_def
  proof (intro allI impI)
    fix n r assume "length (json_dumps (PStr s)) \<le> n"
    then obtain m where "n = Suc m" by (cases n) (auto simp: json_string_def)
    then show "json_value n (json_dumps (PStr s) @ r) = Some (json_norm (PStr s), r)"
      by (simp add: json_string_Cons json_str_body_string)
  qed
next
  case (6 xs)
  show ?case
    unfolding reads_back_def
  proof (intro allI impI)
    fix n r assume le: "length (json_dumps (PList xs)) \<le> n"
    then obtain m where n: "n = Suc m" by (cases n) auto
    show "json_value n (json_dumps (PList xs) @ r) = Some (json_norm (PList xs), r)"
    proof (cases xs)
      case Nil
      with n show ?thesis by (simp add: starts_with_def)
    next
      case (Cons x ys)
      from 6(2) Cons have "json_plain x" by simp
      then obtain c t where ct: "json_dumps x = c # t" "\<not> json_space c" "c \<noteq> CHR '']''"
        by (rule json_dumps_first)
      obtain u where u: "join_comma (map json_dumps xs) = c # u" using Cons ct by (cases ys) auto
      have "json_elems m (join_comma (map json_dumps xs) @ CHR '']'' # r) = Some (map json_norm xs, r)"
        using 6 le n Cons by (intro json_elems_back) auto
      with n u ct(2,3) show ?thesis by (simp add: json_skip_id starts_with_def)
    qed
  qed
next
  case (7 d)
  show ?case
    unfolding reads_back_def
  proof (intro allI impI)
    fix n r assume le: "length (json_dumps (PDict d)) \<le> n"
    let ?e = "sort_key fst d"
    obtain m where n: "n = Suc m" using le by (cases n) auto
    show "json_value n (json_dumps (PDict d) @ r) = Some (json_norm (PDict d), r)"
    proof (cases ?e)
      case Nil
      with n show ?thesis by (simp add: json_dumps_dict starts_with_def del: json_dumps.simps)
    next
      case (Cons p ps)
      have dist: "distinct (map fst ?e)"
        using 7(2) by (simp add: wf_dict_def distinct_map)
      have mem: "\<forall>p \<in> set ?e. reads_back (snd p)" "\<forall>p \<in> set ?e. json_plain (snd p)"
        using 7 by auto
      have "json_pairs m [] (join_comma (map json_pair ?e) @ CHR ''}'' # r)
          = Some ([] @ map (\<lambda>p. (fst p, json_norm (snd p))) ?e, r)"
        by (rule json_pairs_back [OF _ mem])
          (use le n Cons dist in \<open>auto simp: json_dumps_dict simp del: json_dumps.simps\<close>)
      moreover obtain u where "join_comma (map json_pair ?e) = CHR 0x22 # u"
        using Cons by (cases ps) (auto simp: json_pair_def json_string_def)
      ultimately show ?thesis
        using n by (simp add: json_dumps_dict starts_with_def del: json_dumps.simps)
    qed
  qed
next
  case 1
  show ?case
    unfolding reads_back_def
  proof (intro allI impI)
    fix n r assume "length (json_dumps PNone) \<le> n"
    then obtain m where "n = Suc m" by (cases n) auto
    then show "json_value n (json_dumps PNone @ r) = Some (json_norm PNone, r)"
      by (simp add: json_word_def starts_with_def)
  qed
next
  case (2 b)
  show ?case
    unfolding reads_back_def
  proof (intro allI impI)
    fix n r assume "length (json_dumps (PBool b)) \<le> n"
    then obtain m where "n = Suc m" by (cases n) (auto split: if_splits)
    then show "json_value n (json_dumps (PBool b) @ r) = Some (json_norm (PBool b), r)"
      by (simp add: json_word_def starts_with_def)
  qed
qed simp

theorem json_loads_dumps:
  assumes "json_plain v"
  shows "json_loads (json_dumps v) = Some (json_norm v)"
proof -
  from assms obtain c t where "json_dumps v = c # t" "\<not> json_space c" by (rule json_dumps_first)
  then have "json_skip (json_dumps v) = json_dumps v" by (intro json_skip_id) simp
  moreover have "json_value (Suc (length (json_dumps v))) (json_dumps v @ []) = Some (json_norm v, [])"
    using reads_back_plain [OF assms] unfolding reads_back_def by (meson json_stop_simps(1) le_Suc_eq order_refl)
  ultimately show ?thesis by (simp add: json_loads_def)
qed

end
