(* ===== verification/Effects.thy ===== *)
theory Effects
  imports Main
begin

text \<open>
  Programs that change a state and may raise: the methods of the protocol helper and of the
  updater are of this form, each over a state of its own. Every query to the outside is a part of
  the state, so what fails where is arbitrary. The triples have one postcondition for each way to end.
\<close>

section \<open>Methods as state transformers\<close>

text \<open>A method is a function from the state to an exception or a result and a new state.\<close>

type_synonym ('s, 'e, 'a) eff = "'s \<Rightarrow> ('e + 'a) \<times> 's"

definition tret :: "'a \<Rightarrow> ('s, 'e, 'a) eff" where
  "tret a w = (Inr a, w)"

definition traise :: "'e \<Rightarrow> ('s, 'e, 'a) eff" where
  "traise e w = (Inl e, w)"

definition tbind :: "('s, 'e, 'a) eff \<Rightarrow> ('a \<Rightarrow> ('s, 'e, 'b) eff) \<Rightarrow> ('s, 'e, 'b) eff" where
  "tbind m k w = (case m w of (Inl e, w') \<Rightarrow> (Inl e, w') | (Inr a, w') \<Rightarrow> k a w')"

definition tlift :: "'e + 'a \<Rightarrow> ('s, 'e, 'a) eff" where
  "tlift r w = (r, w)"

definition tget :: "('s \<Rightarrow> 'a) \<Rightarrow> ('s, 'e, 'a) eff" where
  "tget f w = (Inr (f w), w)"

definition tput :: "('s \<Rightarrow> 's) \<Rightarrow> ('s, 'e, unit) eff" where
  "tput f w = (Inr (), f w)"

text \<open>\<open>try: m except ... as e: h\<close> and \<open>try: m finally: f\<close>.\<close>

definition tcatch :: "('s, 'e, 'a) eff \<Rightarrow> ('e \<Rightarrow> ('s, 'e, 'a) eff) \<Rightarrow> ('s, 'e, 'a) eff" where
  "tcatch m h w = (case m w of (Inl e, w') \<Rightarrow> h e w' | (Inr a, w') \<Rightarrow> (Inr a, w'))"

text \<open>\<open>try: m except C as e: h\<close>, where \<open>p\<close> are the exceptions of class \<open>C\<close>.\<close>

definition trescue :: "('e \<Rightarrow> bool) \<Rightarrow> ('s, 'e, 'a) eff \<Rightarrow> ('e \<Rightarrow> ('s, 'e, 'a) eff) \<Rightarrow> ('s, 'e, 'a) eff" where
  "trescue p m h = tcatch m (\<lambda>e. if p e then h e else traise e)"

definition tfinally :: "('s, 'e, 'a) eff \<Rightarrow> ('s, 'e, unit) eff \<Rightarrow> ('s, 'e, 'a) eff" where
  "tfinally m f w = (case m w of (r, w') \<Rightarrow>
     (case f w' of (Inl e, w'') \<Rightarrow> (Inl e, w'') | (Inr u, w'') \<Rightarrow> (r, w'')))"

fun tfor :: "'a list \<Rightarrow> ('a \<Rightarrow> ('s, 'e, unit) eff) \<Rightarrow> ('s, 'e, unit) eff" where
  "tfor [] f = tret ()"
| "tfor (a # as) f = tbind (f a) (\<lambda>_. tfor as f)"

section \<open>Triples\<close>

definition triple ::
  "('s \<Rightarrow> bool) \<Rightarrow> ('s, 'e, 'a) eff \<Rightarrow> ('a \<Rightarrow> 's \<Rightarrow> bool) \<Rightarrow> ('e \<Rightarrow> 's \<Rightarrow> bool) \<Rightarrow> bool"
  where
  "triple P m Q E = (\<forall>w. P w \<longrightarrow>
     (case m w of (Inl e, w') \<Rightarrow> E e w' | (Inr a, w') \<Rightarrow> Q a w'))"

named_theorems triple_rules \<open>triples of the primitives\<close>

lemma tripleI:
  "(\<And>w e w'. P w \<Longrightarrow> m w = (Inl e, w') \<Longrightarrow> E e w') \<Longrightarrow>
   (\<And>w a w'. P w \<Longrightarrow> m w = (Inr a, w') \<Longrightarrow> Q a w') \<Longrightarrow> triple P m Q E"
  unfolding triple_def by (auto split: prod.splits sum.splits)

lemma triple_Inr: "triple P m Q E \<Longrightarrow> P w \<Longrightarrow> m w = (Inr a, w') \<Longrightarrow> Q a w'"
  and triple_Inl: "triple P m Q E \<Longrightarrow> P w \<Longrightarrow> m w = (Inl e, w') \<Longrightarrow> E e w'"
  unfolding triple_def by (drule spec, erule (1) impE, simp)+

lemma triple_conseq:
  assumes "triple P m Q E" "\<And>w. P' w \<Longrightarrow> P w" "\<And>a w. Q a w \<Longrightarrow> Q' a w" "\<And>e w. E e w \<Longrightarrow> E' e w"
  shows "triple P' m Q' E'"
  using assms(2-4) triple_Inr [OF assms(1)] triple_Inl [OF assms(1)] by (intro tripleI) blast+

lemma triple_pre: "triple P m Q E \<Longrightarrow> (\<And>w. P' w \<Longrightarrow> P w) \<Longrightarrow> triple P' m Q E"
  by (rule triple_conseq)

lemma triple_pure:
  assumes "\<And>w. P w \<Longrightarrow> C" "C \<Longrightarrow> triple P m Q E"
  shows "triple P m Q E"
proof (cases C)
  case False
  with assms(1) have "\<not> P w" for w by blast
  then show ?thesis by (simp add: triple_def)
qed (rule assms(2))

lemma triple_ret: "(\<And>w. P w \<Longrightarrow> Q a w) \<Longrightarrow> triple P (tret a) Q E"
  by (simp add: triple_def tret_def)

lemma triple_raise: "(\<And>w. P w \<Longrightarrow> E e w) \<Longrightarrow> triple P (traise e) Q E"
  by (simp add: triple_def traise_def)

lemma triple_bind:
  "triple P m R E \<Longrightarrow> (\<And>a. triple (R a) (k a) Q E) \<Longrightarrow> triple P (tbind m k) Q E"
  unfolding triple_def tbind_def by (fastforce split: prod.splits sum.splits)

lemma triple_catch:
  "triple P m Q R \<Longrightarrow> (\<And>e. triple (R e) (h e) Q E) \<Longrightarrow> triple P (tcatch m h) Q E"
  unfolding triple_def tcatch_def by (fastforce split: prod.splits sum.splits)

lemma triple_if:
  "(b \<Longrightarrow> triple P m Q E) \<Longrightarrow> (\<not> b \<Longrightarrow> triple P n Q E) \<Longrightarrow> triple P (if b then m else n) Q E"
  by simp

text \<open>A method that keeps a predicate however it ends.\<close>

definition keeps :: "('s \<Rightarrow> bool) \<Rightarrow> ('s, 'e, 'a) eff \<Rightarrow> bool" where
  "keeps I m = (\<forall>w. I w \<longrightarrow> I (snd (m w)))"

named_theorems keeps_intros \<open>rules for predicates a method keeps\<close>

lemma keeps_triple: "keeps I m \<longleftrightarrow> triple I m (\<lambda>_. I) (\<lambda>_. I)"
  unfolding keeps_def triple_def by (fastforce split: prod.splits sum.splits)

lemma keepsD: "keeps I m \<Longrightarrow> I w \<Longrightarrow> m w = (r, w') \<Longrightarrow> I w'"
  unfolding keeps_def by fastforce

lemma keeps_ret [keeps_intros]: "keeps I (tret a)"
  and keeps_raise [keeps_intros]: "keeps I (traise e)"
  and keeps_lift [keeps_intros]: "keeps I (tlift r)"
  and keeps_get [keeps_intros]: "keeps I (tget f)"
  by (simp_all add: keeps_def tret_def traise_def tlift_def tget_def)

lemma keeps_bind [keeps_intros]:
  "keeps I m \<Longrightarrow> (\<And>a. keeps I (k a)) \<Longrightarrow> keeps I (tbind m k)"
  unfolding keeps_def tbind_def by (fastforce split: prod.splits sum.splits)

lemma keeps_catch [keeps_intros]:
  "keeps I m \<Longrightarrow> (\<And>e. keeps I (h e)) \<Longrightarrow> keeps I (tcatch m h)"
  unfolding keeps_def tcatch_def by (fastforce split: prod.splits sum.splits)

lemma keeps_finally [keeps_intros]:
  "keeps I m \<Longrightarrow> keeps I f \<Longrightarrow> keeps I (tfinally m f)"
  unfolding keeps_def tfinally_def by (fastforce split: prod.splits sum.splits)

lemma keeps_if [keeps_intros]:
  "(b \<Longrightarrow> keeps I m) \<Longrightarrow> (\<not> b \<Longrightarrow> keeps I n) \<Longrightarrow> keeps I (if b then m else n)"
  by simp

lemma keeps_option [keeps_intros]:
  "keeps I m \<Longrightarrow> (\<And>a. keeps I (f a)) \<Longrightarrow> keeps I (case r of None \<Rightarrow> m | Some a \<Rightarrow> f a)"
  by (cases r) auto

lemma keeps_for [keeps_intros]: "(\<And>a. a \<in> set as \<Longrightarrow> keeps I (f a)) \<Longrightarrow> keeps I (tfor as f)"
  by (induction as) (auto intro: keeps_intros)

lemma keeps_put [keeps_intros]: "(\<And>w. I w \<Longrightarrow> I (f w)) \<Longrightarrow> keeps I (tput f)"
  by (simp add: keeps_def tput_def)

text \<open>Triples of the shapes the methods are built from.\<close>

lemma triple_bind_lift:
  "(\<And>a. r = Inr a \<Longrightarrow> triple P (k a) Q E) \<Longrightarrow> (\<And>e w. P w \<Longrightarrow> r = Inl e \<Longrightarrow> E e w) \<Longrightarrow>
   triple P (tbind (tlift r) k) Q E"
  by (cases r) (simp_all add: triple_def tbind_def tlift_def)

lemma triple_bind_get:
  "(\<And>x. triple (\<lambda>w. P w \<and> f w = x) (k x) Q E) \<Longrightarrow> triple P (tbind (tget f) k) Q E"
  by (simp add: triple_def tbind_def tget_def)

lemma triple_keep_bind:
  "keeps I m \<Longrightarrow> (\<And>a. triple I (k a) Q E) \<Longrightarrow> (\<And>e w. I w \<Longrightarrow> E e w) \<Longrightarrow> triple I (tbind m k) Q E"
  unfolding keeps_triple by (rule triple_bind [where R = "\<lambda>_. I"], erule triple_conseq) auto

lemma triple_keeps:
  "keeps I m \<Longrightarrow> (\<And>w. P w \<Longrightarrow> I w) \<Longrightarrow> (\<And>a w. I w \<Longrightarrow> Q a w) \<Longrightarrow> (\<And>e w. I w \<Longrightarrow> E e w) \<Longrightarrow> triple P m Q E"
  unfolding keeps_triple by (erule triple_conseq)

lemma triple_keep_all: "keeps I m \<Longrightarrow> triple I m (\<lambda>_. I) (\<lambda>_. I)"
  by (simp add: keeps_triple)

text \<open>A fact about the result that holds whatever the state.\<close>

lemma triple_conj_keeps:
  "triple P m Q E \<Longrightarrow> keeps I m \<Longrightarrow>
   triple (\<lambda>w. P w \<and> I w) m (\<lambda>a w. Q a w \<and> I w) (\<lambda>e w. E e w \<and> I w)"
  by (rule tripleI) (auto dest: triple_Inr triple_Inl keepsD)

lemma keeps_rescue [keeps_intros]:
  "keeps I m \<Longrightarrow> (\<And>e. p e \<Longrightarrow> keeps I (h e)) \<Longrightarrow> keeps I (trescue p m h)"
  unfolding trescue_def by (intro keeps_catch keeps_if keeps_raise)

lemma triple_rescue:
  assumes "triple P m Q R" "\<And>e. p e \<Longrightarrow> triple (R e) (h e) Q E" "\<And>e w. \<not> p e \<Longrightarrow> R e w \<Longrightarrow> E e w"
  shows "triple P (trescue p m h) Q E"
  unfolding trescue_def
  by (rule triple_catch [OF assms(1)]) (use assms(2,3) in \<open>auto intro: triple_if triple_raise\<close>)

end
