(* ===== verification/Txn_Base.thy ===== *)
theory Txn_Base
  imports Json_Codec Effects
begin

text \<open>
  The ground of the inbound protocol transaction helper
  (\<open>scripts/aimili_xui_protocol_transaction.py\<close>): its exceptions, the state it works on, the
  outside it asks, and the file and command primitives.

  \<^item> The state is the panel's database, the snapshot directory (one directory for each
    operation, with its snapshot document and the temporary files in it), the profile
    directory, the two spool directories and the outside \<open>'x\<close>.
  \<^item> The outside answers queries: the file system (does a step succeed), the database engine
    (does a statement fail), the Xray binary, the clock, the token generator and the fault
    injector. It is a parameter, and its state may change with every answer, so every failure
    at every place is covered.
  \<^item> A method is a function from the state to a result or an exception and a new state. The
    Hoare triples below have one postcondition for each way to end.
\<close>

section \<open>Exceptions, state and the outside\<close>

datatype txexc = TxError string | PyError pyexc | SqlError | SimulatedCrash

text \<open>A row of \<open>client_inbounds\<close>. Rows of the other two tables are dictionaries, as
  \<open>dict(row)\<close> makes them; column values are None, integers or strings.\<close>

record link =
  l_client :: int
  l_inbound :: int
  l_flow :: pyval

record panel_db =
  db_inbounds :: "pydict list"
  db_clients :: "pydict list"
  db_links :: "link list"
  db_settings :: "(string \<times> pyval) list option"

datatype snapfile = NoFile | Doc pydict | Unreadable

record opdir =
  od_snap :: snapfile
  od_temps :: "string list"

text \<open>A request file of the spool: its size and what reading it as UTF-8 JSON gives.\<close>

datatype spool_text = Parsed pyval | NotJson | NotText

record spool_file =
  sf_size :: nat
  sf_text :: spool_text

record 'x world =
  w_db :: panel_db
  w_dirs :: "(string \<times> opdir) list"
  w_profiles :: "(string \<times> snapfile) list"
  w_requests :: "(string \<times> spool_file) list"
  w_results :: "(string \<times> pydict) list"
  w_x :: 'x

type_synonym path = "string list"

text \<open>Queries to the file system; the answer None is an \<open>OSError\<close>. For \<open>RmTree\<close> the answer
  False is a failure after the snapshot file has been removed.\<close>

datatype fsq =
    IsSymlink path | IsFile path | IsDir path | MakeDir path | Chmod path
  | Lstat path | OpenNew path | ReadFrom path | WriteTo path | Replace path | Unlink path | RmTree path

record 'x outside =
  x_fs :: "fsq \<Rightarrow> 'x \<Rightarrow> bool option \<times> 'x"
  x_sql :: "string \<Rightarrow> 'x \<Rightarrow> bool \<times> 'x"
  x_run :: "string list \<Rightarrow> pyval \<Rightarrow> 'x \<Rightarrow> (int \<times> string) option \<times> 'x"
  x_fault :: "string \<Rightarrow> 'x \<Rightarrow> txexc option \<times> 'x"
  x_runtime :: "'x \<Rightarrow> pyval option \<times> 'x"
  x_now :: "'x \<Rightarrow> int \<times> 'x"
  x_token :: "'x \<Rightarrow> pyval \<times> 'x"
  x_sha256 :: "string \<Rightarrow> string"

record txconfig =
  cfg_database :: path
  cfg_snapshots :: path
  cfg_runtime :: path
  cfg_certificate :: path
  cfg_private_key :: path
  cfg_xray :: path
  cfg_profiles :: path
  cfg_api_server :: string
  cfg_ports :: "int list"
  cfg_tls_name :: string

section \<open>Methods\<close>

type_synonym ('x, 'a) tx = "('x world, txexc, 'a) eff"

definition tfail :: "string \<Rightarrow> ('x, 'a) tx" where
  "tfail c = traise (TxError c)"

definition tguard :: "bool \<Rightarrow> string \<Rightarrow> ('x, unit) tx" where
  "tguard b c = (if b then tret () else tfail c)"

definition ask :: "('x \<Rightarrow> 'a \<times> 'x) \<Rightarrow> ('x, 'a) tx" where
  "ask q w = (case q (w_x w) of (a, x) \<Rightarrow> (Inr a, w\<lparr>w_x := x\<rparr>))"

lemma triple_fail: "(\<And>w. P w \<Longrightarrow> E (TxError c) w) \<Longrightarrow> triple P (tfail c) Q E"
  by (simp add: tfail_def triple_raise)

lemma keeps_fail [keeps_intros]: "keeps I (tfail c)"
  and keeps_guard [keeps_intros]: "keeps I (tguard b c)"
  by (simp_all add: keeps_def tret_def traise_def tfail_def tguard_def)

lemma keeps_snap [keeps_intros]:
  "keeps I m \<Longrightarrow> (\<And>d. keeps I (f d)) \<Longrightarrow> keeps I n \<Longrightarrow>
   keeps I (case r of NoFile \<Rightarrow> m | Doc d \<Rightarrow> f d | Unreadable \<Rightarrow> n)"
  by (cases r) auto

lemma keeps_ask [keeps_intros]: "(\<And>w x. I w \<Longrightarrow> I (w\<lparr>w_x := x\<rparr>)) \<Longrightarrow> keeps I (ask q)"
  by (simp add: keeps_def ask_def split: prod.splits)

text \<open>A predicate that does not look at the outside.\<close>

definition blind :: "('x world \<Rightarrow> bool) \<Rightarrow> bool" where
  "blind I = (\<forall>w x. I (w\<lparr>w_x := x\<rparr>) = I w)"

lemma blind_ask [keeps_intros]: "blind I \<Longrightarrow> keeps I (ask q)"
  by (rule keeps_ask) (simp add: blind_def)

named_theorems blind_intros \<open>predicates that do not look at the outside\<close>

lemma blind_db [blind_intros]: "blind (\<lambda>w. C (w_db w))"
  and blind_dirs [blind_intros]: "blind (\<lambda>w. D (w_dirs w))"
  and blind_const [blind_intros]: "blind (\<lambda>w. b)"
  by (simp_all add: blind_def)

lemma blind_conj [blind_intros]: "blind I \<Longrightarrow> blind J \<Longrightarrow> blind (\<lambda>w. I w \<and> J w)"
  and blind_imp [blind_intros]: "blind I \<Longrightarrow> blind J \<Longrightarrow> blind (\<lambda>w. I w \<longrightarrow> J w)"
  and blind_disj [blind_intros]: "blind I \<Longrightarrow> blind J \<Longrightarrow> blind (\<lambda>w. I w \<or> J w)"
  by (simp_all add: blind_def)

lemma triple_bind_guard:
  "(b \<Longrightarrow> triple P (k ()) Q E) \<Longrightarrow> (\<And>w. P w \<Longrightarrow> \<not> b \<Longrightarrow> E (TxError c) w) \<Longrightarrow>
   triple P (tbind (tguard b c) k) Q E"
  by (cases b) (simp_all add: triple_def tbind_def tguard_def tret_def tfail_def traise_def)

end
