(* ===== verification/Txn_Files.thy ===== *)
theory Txn_Files
  imports Txn_Base
begin

text \<open>
  The file primitives and the Xray command boundary of the protocol transaction helper:
  path checks, the atomic write of a private document, the temporary files of an operation,
  the removal of its directory, the four Xray commands and the reading of their tag list.
\<close>

section \<open>Identifiers\<close>

definition word_char :: "char \<Rightarrow> bool" where
  "word_char c = (digit_char c \<or> ascii_lower_char c \<or> ascii_upper_char c \<or> c = CHR ''_'' \<or> c = CHR ''-'')"

definition lower_word_char :: "char \<Rightarrow> bool" where
  "lower_word_char c = (digit_char c \<or> ascii_lower_char c \<or> c = CHR ''_'' \<or> c = CHR ''-'')"

definition hex_lower_char :: "char \<Rightarrow> bool" where
  "hex_lower_char c = (digit_char c \<or> (97 \<le> chr_code c \<and> chr_code c \<le> 102))"

definition code_char :: "char \<Rightarrow> bool" where
  "code_char c = (digit_char c \<or> ascii_lower_char c \<or> c = CHR ''_'')"

definition tag_char :: "char \<Rightarrow> bool" where
  "tag_char c = (word_char c \<or> c = CHR ''.'' \<or> c = CHR '':'')"

definition safe_operation_id :: "string \<Rightarrow> bool" where
  "safe_operation_id s = (8 \<le> length s \<and> length s \<le> 128 \<and> list_all word_char s)"

definition safe_egress_id :: "string \<Rightarrow> bool" where
  "safe_egress_id s = (case drop 4 s of
     [] \<Rightarrow> False
   | c # r \<Rightarrow> starts_with ''agw-'' s \<and> (digit_char c \<or> ascii_lower_char c)
       \<and> length r \<le> 95 \<and> list_all lower_word_char r)"

definition safe_hex_256 :: "string \<Rightarrow> bool" where
  "safe_hex_256 s = (length s = 64 \<and> list_all hex_lower_char s)"

definition tag_text :: "string \<Rightarrow> bool" where
  "tag_text s = (1 \<le> length s \<and> length s \<le> 128 \<and> list_all tag_char s)"

definition error_code_text :: "string \<Rightarrow> bool" where
  "error_code_text s = (length s \<le> 64 \<and> list_all code_char s)"

definition local_api_server :: "string \<Rightarrow> bool" where
  "local_api_server s = (starts_with ''127.0.0.1:'' s \<and>
     (case drop 10 s of
        [] \<Rightarrow> False
      | c # r \<Rightarrow> digit_char c \<and> c \<noteq> CHR ''0'' \<and> length r \<le> 4 \<and> list_all digit_char r))"

section \<open>Paths\<close>

definition fs_must :: "'x outside \<Rightarrow> fsq \<Rightarrow> string \<Rightarrow> ('x, unit) tx" where
  "fs_must e q c = tbind (ask (x_fs e q)) (\<lambda>r. tguard (r = Some True) c)"

definition fs_must_not :: "'x outside \<Rightarrow> fsq \<Rightarrow> string \<Rightarrow> ('x, unit) tx" where
  "fs_must_not e q c = tbind (ask (x_fs e q)) (\<lambda>r. tguard (r = Some False) c)"

definition ancestors :: "path \<Rightarrow> path list" where
  "ancestors p = map (\<lambda>n. take n p) [1..<Suc (length p)]"

definition reject_symlink_components :: "'x outside \<Rightarrow> path \<Rightarrow> ('x, unit) tx" where
  "reject_symlink_components e p = tfor (ancestors p) (\<lambda>q. fs_must_not e (IsSymlink q) ''unsafe_path'')"

definition require_regular_file :: "'x outside \<Rightarrow> path \<Rightarrow> ('x, unit) tx" where
  "require_regular_file e p = tbind (reject_symlink_components e p) (\<lambda>_.
     tbind (fs_must_not e (IsSymlink p) ''unsafe_path'') (\<lambda>_.
     fs_must e (IsFile p) ''unsafe_path''))"

definition ensure_private_directory :: "'x outside \<Rightarrow> path \<Rightarrow> ('x, unit) tx" where
  "ensure_private_directory e p = tbind (reject_symlink_components e (butlast p)) (\<lambda>_.
     tbind (fs_must e (MakeDir p) ''unsafe_path'') (\<lambda>_.
     tbind (fs_must_not e (IsSymlink p) ''unsafe_path'') (\<lambda>_.
     tbind (fs_must e (IsDir p) ''unsafe_path'') (\<lambda>_.
     fs_must e (Chmod p) ''unsafe_path''))))"

text \<open>The write goes to a fresh temporary file that replaces the target; the mode is set after
  the replacement, so a failure there leaves the new document in place.\<close>

definition private_atomic_json :: "'x outside \<Rightarrow> path \<Rightarrow> ('x world \<Rightarrow> 'x world) \<Rightarrow> ('x, unit) tx" where
  "private_atomic_json e p store = tbind (ensure_private_directory e (butlast p)) (\<lambda>_.
     tbind (fs_must_not e (IsSymlink p) ''unsafe_path'') (\<lambda>_.
     tbind (fs_must e (OpenNew (butlast p @ [CHR ''.'' # last p @ ''.tmp''])) ''snapshot_write_failed'') (\<lambda>_.
     tbind (fs_must e (WriteTo (butlast p @ [CHR ''.'' # last p @ ''.tmp''])) ''snapshot_write_failed'') (\<lambda>_.
     tbind (fs_must e (Replace p) ''snapshot_write_failed'') (\<lambda>_.
     tbind (tput store) (\<lambda>_.
     fs_must e (Chmod p) ''snapshot_write_failed''))))))"

section \<open>Operation directories\<close>

definition snap_of :: "'x world \<Rightarrow> string \<Rightarrow> snapfile" where
  "snap_of w i = (case map_of (w_dirs w) i of None \<Rightarrow> NoFile | Some d \<Rightarrow> od_snap d)"

definition temps_of :: "'x world \<Rightarrow> string \<Rightarrow> string list" where
  "temps_of w i = (case map_of (w_dirs w) i of None \<Rightarrow> [] | Some d \<Rightarrow> od_temps d)"

definition put_snap :: "string \<Rightarrow> snapfile \<Rightarrow> 'x world \<Rightarrow> 'x world" where
  "put_snap i s w = w\<lparr>w_dirs := AList.update i \<lparr>od_snap = s, od_temps = temps_of w i\<rparr> (w_dirs w)\<rparr>"

definition put_temps :: "string \<Rightarrow> string list \<Rightarrow> 'x world \<Rightarrow> 'x world" where
  "put_temps i ts w = w\<lparr>w_dirs := AList.update i \<lparr>od_snap = snap_of w i, od_temps = ts\<rparr> (w_dirs w)\<rparr>"

definition drop_dir :: "string \<Rightarrow> 'x world \<Rightarrow> 'x world" where
  "drop_dir i w = w\<lparr>w_dirs := AList.delete i (w_dirs w)\<rparr>"

definition snapshot_path :: "txconfig \<Rightarrow> string \<Rightarrow> ('x, path) tx" where
  "snapshot_path c i = (if safe_operation_id i then tret (cfg_snapshots c @ [i, ''snapshot.json''])
     else tfail ''invalid_request'')"

definition make_operation_dir :: "'x outside \<Rightarrow> txconfig \<Rightarrow> string \<Rightarrow> ('x, unit) tx" where
  "make_operation_dir e c i =
     tbind (tget (\<lambda>w. map_of (w_dirs w) i = None)) (\<lambda>fresh.
     tbind (tguard fresh ''snapshot_write_failed'') (\<lambda>_.
     tbind (fs_must e (MakeDir (cfg_snapshots c @ [i])) ''snapshot_write_failed'') (\<lambda>_.
     tbind (tput (put_snap i NoFile)) (\<lambda>_.
     fs_must e (Chmod (cfg_snapshots c @ [i])) ''snapshot_write_failed''))))"

definition read_snapshot :: "'x outside \<Rightarrow> txconfig \<Rightarrow> string \<Rightarrow> ('x, pydict) tx" where
  "read_snapshot e c i = (let p = cfg_snapshots c @ [i, ''snapshot.json''] in
     tbind (require_regular_file e p) (\<lambda>_.
     tbind (tget (\<lambda>w. snap_of w i)) (\<lambda>s.
     tbind (tguard (s \<noteq> NoFile) ''unsafe_path'') (\<lambda>_.
     tbind (fs_must e (ReadFrom p) ''snapshot_invalid'') (\<lambda>_.
     case s of NoFile \<Rightarrow> tfail ''unsafe_path'' | Doc d \<Rightarrow> tret d | Unreadable \<Rightarrow> tfail ''snapshot_invalid'')))))"

definition write_snapshot :: "'x outside \<Rightarrow> txconfig \<Rightarrow> string \<Rightarrow> pydict \<Rightarrow> ('x, unit) tx" where
  "write_snapshot e c i d =
     private_atomic_json e (cfg_snapshots c @ [i, ''snapshot.json'']) (put_snap i (Doc d))"

definition write_temporary_json :: "'x outside \<Rightarrow> txconfig \<Rightarrow> string \<Rightarrow> string \<Rightarrow> ('x, path) tx" where
  "write_temporary_json e c i name = (let p = cfg_snapshots c @ [i, name] in
     tbind (tget (\<lambda>w. temps_of w i)) (\<lambda>ts.
     tbind (tguard (name \<notin> set ts) ''unsafe_path'') (\<lambda>_.
     tbind (fs_must e (OpenNew p) ''temporary_write_failed'') (\<lambda>_.
     tbind (tput (put_temps i (name # ts))) (\<lambda>_.
     tbind (fs_must e (WriteTo p) ''temporary_write_failed'') (\<lambda>_.
     tbind (fs_must e (Chmod p) ''temporary_write_failed'') (\<lambda>_. tret p)))))))"

definition unlink_temporary :: "'x outside \<Rightarrow> txconfig \<Rightarrow> string \<Rightarrow> string \<Rightarrow> ('x, unit) tx" where
  "unlink_temporary e c i name =
     tbind (ask (x_fs e (Unlink (cfg_snapshots c @ [i, name])))) (\<lambda>r.
     if r = None then traise (PyError OSError)
     else tput (\<lambda>w. put_temps i (removeAll name (temps_of w i)) w))"

definition remove_operation_dir :: "'x outside \<Rightarrow> txconfig \<Rightarrow> string \<Rightarrow> ('x, unit) tx" where
  "remove_operation_dir e c i =
     tbind (fs_must_not e (IsSymlink (cfg_snapshots c @ [i])) ''unsafe_path'') (\<lambda>_.
     tbind (tguard (safe_operation_id i) ''unsafe_path'') (\<lambda>_.
     tbind (ask (x_fs e (RmTree (cfg_snapshots c @ [i])))) (\<lambda>r.
     if r = Some True then tput (drop_dir i)
     else if r = Some False then tbind (tput (put_snap i NoFile)) (\<lambda>_. tfail ''snapshot_cleanup_failed'')
     else tfail ''snapshot_cleanup_failed'')))"

section \<open>The Xray commands\<close>

definition path_text :: "path \<Rightarrow> string" where
  "path_text p = concat (map (\<lambda>s. CHR ''/'' # s) p)"

definition run_xray :: "'x outside \<Rightarrow> string list \<Rightarrow> pyval \<Rightarrow> string \<Rightarrow> ('x, string) tx" where
  "run_xray e argv doc c = tbind (ask (x_run e argv doc)) (\<lambda>r.
     case r of None \<Rightarrow> tfail c | Some (code, text_out) \<Rightarrow> if code \<noteq> 0 then tfail c else tret text_out)"

definition offline_test :: "'x outside \<Rightarrow> txconfig \<Rightarrow> path \<Rightarrow> pyval \<Rightarrow> ('x, unit) tx" where
  "offline_test e c p doc = tbind
     (run_xray e [path_text (cfg_xray c), ''run'', ''-test'', ''-config'', path_text p] doc ''xray_offline_test_failed'')
     (\<lambda>_. tret ())"

definition remove_inbound :: "'x outside \<Rightarrow> txconfig \<Rightarrow> string \<Rightarrow> ('x, unit) tx" where
  "remove_inbound e c tag = tbind
     (run_xray e [path_text (cfg_xray c), ''api'', ''rmi'', ''--server='' @ cfg_api_server c, tag] PNone
        ''xray_remove_inbound_failed'')
     (\<lambda>_. tret ())"

definition add_inbound :: "'x outside \<Rightarrow> txconfig \<Rightarrow> path \<Rightarrow> pyval \<Rightarrow> ('x, unit) tx" where
  "add_inbound e c p doc = tbind
     (run_xray e [path_text (cfg_xray c), ''api'', ''adi'', ''--server='' @ cfg_api_server c, path_text p] doc
        ''xray_add_inbound_failed'')
     (\<lambda>_. tret ())"

text \<open>Every string under a key \<open>tag\<close> (in any case), and every other string anywhere in the
  document that has the shape of a tag.\<close>

function collect_tags :: "pyval \<Rightarrow> string list" where
  "collect_tags v = (case v of
     PDict d \<Rightarrow> concat (map (\<lambda>p. case snd p of
         PStr s \<Rightarrow> if py_lower (fst p) = ''tag'' then [s] else if tag_text s then [s] else []
       | _ \<Rightarrow> collect_tags (snd p)) d)
   | PList xs \<Rightarrow> concat (map collect_tags xs)
   | PStr s \<Rightarrow> if tag_text s then [s] else []
   | _ \<Rightarrow> [])"
  by pat_completeness auto
termination
  by (relation "measure size") (auto dest: size_mem_dict size_mem_list)

definition strip_quotes :: "string \<Rightarrow> string" where
  "strip_quotes s = rev (dropWhile (\<lambda>c. c = CHR 0x22) (rev (dropWhile (\<lambda>c. c = CHR 0x22) s)))"

definition tags_of_output :: "string \<Rightarrow> string list" where
  "tags_of_output s = (case json_loads s of
     Some v \<Rightarrow> collect_tags v
   | None \<Rightarrow> filter tag_text (map (\<lambda>l. strip_quotes (py_strip l)) (py_splitlines s)))"

definition list_inbound_tags :: "'x outside \<Rightarrow> txconfig \<Rightarrow> ('x, string list) tx" where
  "list_inbound_tags e c = tbind
     (run_xray e [path_text (cfg_xray c), ''api'', ''lsi'', ''--server='' @ cfg_api_server c, ''--isOnlyTags=true'']
        PNone ''xray_list_inbounds_failed'')
     (\<lambda>s. tret (tags_of_output s))"

definition fault :: "'x outside \<Rightarrow> string \<Rightarrow> ('x, unit) tx" where
  "fault e p = tbind (ask (x_fault e p)) (\<lambda>r. case r of None \<Rightarrow> tret () | Some ex \<Rightarrow> traise ex)"

definition sql :: "'x outside \<Rightarrow> string \<Rightarrow> string \<Rightarrow> ('x, unit) tx" where
  "sql e q c = tbind (ask (x_sql e q)) (\<lambda>ok. tguard ok c)"

section \<open>What the primitives keep\<close>

lemma keeps_prod [keeps_intros]: "(\<And>a b. keeps I (f a b)) \<Longrightarrow> keeps I (case p of (a, b) \<Rightarrow> f a b)"
  by (cases p) auto

lemma keeps_fs_must [keeps_intros]: "blind I \<Longrightarrow> keeps I (fs_must e q c)"
  and keeps_fs_must_not [keeps_intros]: "blind I \<Longrightarrow> keeps I (fs_must_not e q c)"
  unfolding fs_must_def fs_must_not_def by (auto intro!: keeps_intros)

lemma keeps_reject [keeps_intros]: "blind I \<Longrightarrow> keeps I (reject_symlink_components e p)"
  unfolding reject_symlink_components_def by (auto intro!: keeps_intros)

lemma keeps_regular [keeps_intros]: "blind I \<Longrightarrow> keeps I (require_regular_file e p)"
  and keeps_private_dir [keeps_intros]: "blind I \<Longrightarrow> keeps I (ensure_private_directory e p)"
  unfolding require_regular_file_def ensure_private_directory_def by (auto intro!: keeps_intros)

lemma keeps_atomic [keeps_intros]:
  "blind I \<Longrightarrow> (\<And>w. I w \<Longrightarrow> I (store w)) \<Longrightarrow> keeps I (private_atomic_json e p store)"
  unfolding private_atomic_json_def by (auto intro!: keeps_intros)

lemma keeps_snapshot_path [keeps_intros]: "keeps I (snapshot_path c i)"
  unfolding snapshot_path_def by (auto intro!: keeps_intros)

lemma keeps_make_dir [keeps_intros]:
  "blind I \<Longrightarrow> (\<And>w. I w \<Longrightarrow> I (put_snap i NoFile w)) \<Longrightarrow> keeps I (make_operation_dir e c i)"
  unfolding make_operation_dir_def by (auto intro!: keeps_intros)

lemma keeps_read_snapshot [keeps_intros]: "blind I \<Longrightarrow> keeps I (read_snapshot e c i)"
  unfolding read_snapshot_def Let_def by (auto intro!: keeps_intros)

lemma keeps_write_snapshot [keeps_intros]:
  "blind I \<Longrightarrow> (\<And>w. I w \<Longrightarrow> I (put_snap i (Doc d) w)) \<Longrightarrow> keeps I (write_snapshot e c i d)"
  unfolding write_snapshot_def by (auto intro!: keeps_intros)

lemma keeps_write_temporary [keeps_intros]:
  "blind I \<Longrightarrow> (\<And>w ts. I w \<Longrightarrow> I (put_temps i ts w)) \<Longrightarrow> keeps I (write_temporary_json e c i name)"
  and keeps_unlink_temporary [keeps_intros]:
  "blind I \<Longrightarrow> (\<And>w ts. I w \<Longrightarrow> I (put_temps i ts w)) \<Longrightarrow> keeps I (unlink_temporary e c i name)"
  unfolding write_temporary_json_def unlink_temporary_def Let_def by (auto intro!: keeps_intros)

lemma keeps_remove_dir [keeps_intros]:
  "blind I \<Longrightarrow> (\<And>w. I w \<Longrightarrow> I (drop_dir i w)) \<Longrightarrow> (\<And>w. I w \<Longrightarrow> I (put_snap i NoFile w)) \<Longrightarrow>
   keeps I (remove_operation_dir e c i)"
  unfolding remove_operation_dir_def by (auto intro!: keeps_intros)

lemma keeps_run_xray [keeps_intros]: "blind I \<Longrightarrow> keeps I (run_xray e argv doc c)"
  unfolding run_xray_def by (auto intro!: keeps_intros)

lemma keeps_commands [keeps_intros]:
  "blind I \<Longrightarrow> keeps I (offline_test e c p doc)"
  "blind I \<Longrightarrow> keeps I (remove_inbound e c tag)"
  "blind I \<Longrightarrow> keeps I (add_inbound e c p doc)"
  "blind I \<Longrightarrow> keeps I (list_inbound_tags e c)"
  "blind I \<Longrightarrow> keeps I (fault e ph)"
  "blind I \<Longrightarrow> keeps I (sql e q code)"
  unfolding offline_test_def remove_inbound_def add_inbound_def list_inbound_tags_def fault_def sql_def
  by (auto intro!: keeps_intros)

text \<open>Reading the state after an update.\<close>

named_theorems world_simps \<open>projections of an updated state\<close>

lemma put_snap_simps [simp, world_simps]:
  "w_db (put_snap i s w) = w_db w"
  "snap_of (put_snap i s w) j = (if j = i then s else snap_of w j)"
  "temps_of (put_snap i s w) j = temps_of w j"
  by (auto simp: put_snap_def snap_of_def temps_of_def update_conv)

lemma put_temps_simps [simp, world_simps]:
  "w_db (put_temps i ts w) = w_db w"
  "snap_of (put_temps i ts w) j = snap_of w j"
  "temps_of (put_temps i ts w) j = (if j = i then ts else temps_of w j)"
  by (auto simp: put_temps_def snap_of_def temps_of_def update_conv)

lemma drop_dir_simps [simp, world_simps]:
  "w_db (drop_dir i w) = w_db w"
  "snap_of (drop_dir i w) j = (if j = i then NoFile else snap_of w j)"
  "temps_of (drop_dir i w) j = (if j = i then [] else temps_of w j)"
  by (auto simp: drop_dir_def snap_of_def temps_of_def delete_conv)

lemma outside_simps [simp, world_simps]:
  "snap_of (w\<lparr>w_x := x\<rparr>) i = snap_of w i"
  "temps_of (w\<lparr>w_x := x\<rparr>) i = temps_of w i"
  by (simp_all add: snap_of_def temps_of_def)

lemma blindI: "(\<And>w x. I (w\<lparr>w_x := x\<rparr>) = I w) \<Longrightarrow> blind I"
  by (simp add: blind_def)

end
