(* ===== verification/Txn_Source.thy ===== *)
theory Txn_Source
  imports Txn_Files
begin

text \<open>
  What the protocol helper reads and builds before it changes anything: the closed request
  and its fingerprint, the composed runtime configuration, the ownership check, the protocol
  mode of a database row, the Reality profile, the template of the new mode, the inbound
  handed to Xray, the test configuration and the snapshot.
\<close>

section \<open>Helpers\<close>

definition ditem :: "pydict \<Rightarrow> string \<Rightarrow> txexc + pyval" where
  "ditem d k = (case dget d k of None \<Rightarrow> Inl (PyError KeyError) | Some v \<Rightarrow> Inr v)"

fun py_res :: "pyexc + 'a \<Rightarrow> txexc + 'a" where
  "py_res (Inl x) = Inl (PyError x)"
| "py_res (Inr a) = Inr a"

definition err_if :: "bool \<Rightarrow> string \<Rightarrow> txexc + unit" where
  "err_if b c = (if b then Inl (TxError c) else Inr ())"

fun hashable :: "pyval \<Rightarrow> bool" where
  "hashable (PList xs) = False"
| "hashable (PDict d) = False"
| "hashable v = True"

text \<open>\<open>value in {...}\<close> raises on a value that cannot be hashed.\<close>

definition in_set :: "pyval \<Rightarrow> pyval list \<Rightarrow> txexc + bool" where
  "in_set v xs = (if hashable v then Inr (list_ex (py_eq v) xs) else Inl (PyError TypeError))"

definition json_object :: "string \<Rightarrow> pyval \<Rightarrow> txexc + pydict" where
  "json_object c v = (case v of
     PStr s \<Rightarrow> (case json_loads s of Some (PDict d) \<Rightarrow> Inr d | _ \<Rightarrow> Inl (TxError c))
   | _ \<Rightarrow> Inl (TxError c))"

abbreviation drift :: string where
  "drift \<equiv> ''managed_resource_drift''"

text \<open>\<open>int(row["id"])\<close>, where the code knows that the value is an integer.\<close>

definition pk :: "pydict \<Rightarrow> int" where
  "pk r = (case dgetN r ''id'' of PInt i \<Rightarrow> i | PBool True \<Rightarrow> 1 | _ \<Rightarrow> 0)"

definition req_str :: "pydict \<Rightarrow> string \<Rightarrow> string" where
  "req_str d k = (case dgetN d k of PStr s \<Rightarrow> s | _ \<Rightarrow> [])"

definition req_int :: "pydict \<Rightarrow> string \<Rightarrow> int" where
  "req_int d k = (case dgetN d k of PInt i \<Rightarrow> i | _ \<Rightarrow> 0)"

section \<open>The request\<close>

definition VLESS_TCP_REALITY_VISION :: string where
  "VLESS_TCP_REALITY_VISION = ''vless_tcp_reality_vision''"

definition VLESS_XHTTP_REALITY :: string where
  "VLESS_XHTTP_REALITY = ''vless_xhttp_reality''"

definition HYSTERIA2_QUIC_TLS :: string where
  "HYSTERIA2_QUIC_TLS = ''hysteria2_quic_tls''"

definition PROTOCOL_MODES :: "string list" where
  "PROTOCOL_MODES = [VLESS_TCP_REALITY_VISION, VLESS_XHTTP_REALITY, HYSTERIA2_QUIC_TLS]"

definition FINGERPRINT_FIELDS :: "string list" where
  "FINGERPRINT_FIELDS =
     [''operationId'', ''egressId'', ''inboundId'', ''inboundTag'', ''port'', ''oldMode'', ''newMode'']"

definition REQUEST_FIELDS :: "string list" where
  "REQUEST_FIELDS = ''expectedFingerprint'' # FINGERPRINT_FIELDS"

definition request_fingerprint :: "'x outside \<Rightarrow> pydict \<Rightarrow> string" where
  "request_fingerprint e d = x_sha256 e (json_dumps (PDict
     (concat (map (\<lambda>k. case dget d k of None \<Rightarrow> [] | Some v \<Rightarrow> [(k, v)]) (sort FINGERPRINT_FIELDS)))))"

definition canonical_fingerprint :: "'x outside \<Rightarrow> pyval \<Rightarrow> string" where
  "canonical_fingerprint e v = x_sha256 e (json_dumps v)"

definition known_mode :: "pyval \<Rightarrow> txexc + bool" where
  "known_mode v = in_set v (map PStr PROTOCOL_MODES)"

definition validate_config_paths :: "'x outside \<Rightarrow> txconfig \<Rightarrow> ('x, unit) tx" where
  "validate_config_paths e c =
     tbind (tfor [cfg_database c, cfg_runtime c, cfg_certificate c, cfg_private_key c, cfg_xray c]
              (require_regular_file e)) (\<lambda>_.
     tbind (tguard (local_api_server (cfg_api_server c)) ''invalid_config'') (\<lambda>_.
     let ports = sorted_set (cfg_ports c) in
     tbind (tguard (2 \<le> length ports \<and> length ports \<le> 65
              \<and> ports = 8443 # map int [20000..<20000 + length ports - 1]) ''invalid_config'') (\<lambda>_.
     tbind (ensure_private_directory e (cfg_snapshots c)) (\<lambda>_.
     ensure_private_directory e (cfg_profiles c)))))"

text \<open>The tests of \<open>validate_request\<close> on the closed request, in the order of the code.\<close>

definition request_modes :: "'x outside \<Rightarrow> pydict \<Rightarrow> txexc + unit" where
  "request_modes e d =
     err_bind (known_mode (dgetN d ''oldMode'')) (\<lambda>a.
     err_bind (err_if (\<not> a) ''invalid_request'') (\<lambda>_.
     err_bind (known_mode (dgetN d ''newMode'')) (\<lambda>b.
     err_bind (err_if (\<not> b \<or> dgetN d ''oldMode'' = dgetN d ''newMode'') ''invalid_request'') (\<lambda>_.
     case dgetN d ''expectedFingerprint'' of
       PStr x \<Rightarrow> err_if (\<not> safe_hex_256 x \<or> request_fingerprint e d \<noteq> x) ''invalid_request''
     | _ \<Rightarrow> Inl (TxError ''invalid_request'')))))"

definition request_shape :: "'x outside \<Rightarrow> txconfig \<Rightarrow> pydict \<Rightarrow> txexc + unit" where
  "request_shape e c d =
     (case (dgetN d ''operationId'', dgetN d ''egressId'', dgetN d ''inboundId'', dgetN d ''inboundTag'',
            dgetN d ''port'') of
        (PStr i, PStr egress, PInt inbound, PStr tag, PInt port) \<Rightarrow>
          err_bind (err_if (\<not> safe_operation_id i \<or> \<not> safe_egress_id egress \<or> inbound \<le> 0
              \<or> port \<notin> set (cfg_ports c)) ''invalid_request'') (\<lambda>_.
          err_bind (request_modes e d) (\<lambda>_.
          if egress = ''agw-main'' then err_if (tag \<noteq> ''aimili-reality'' \<or> port \<noteq> 8443) ''invalid_request''
          else err_if (tag \<noteq> egress @ ''-vless'' \<or> port = 8443) ''invalid_request''))
      | _ \<Rightarrow> Inl (TxError ''invalid_request''))"

section \<open>The runtime configuration\<close>

definition strip_settings :: "pydict \<Rightarrow> string \<Rightarrow> pydict" where
  "strip_settings stream k = (case dgetN stream k of
     PDict s \<Rightarrow> dset stream k (PDict (dpop s ''settings'')) | _ \<Rightarrow> stream)"

definition runtime_stream :: "pydict \<Rightarrow> pydict" where
  "runtime_stream stream = strip_settings (strip_settings stream ''tlsSettings'') ''realitySettings''"

definition inbound_of_row :: "pydict \<Rightarrow> string \<Rightarrow> txexc + pydict" where
  "inbound_of_row r tag =
     err_bind (if dgetN r ''stream_settings'' = PStr [] then Inr []
       else json_object ''runtime_config_invalid'' (dgetN r ''stream_settings'')) (\<lambda>stream.
     err_bind (py_res (py_int (dgetN r ''port''))) (\<lambda>port.
     err_bind (json_object ''runtime_config_invalid'' (dgetN r ''settings'')) (\<lambda>settings.
     err_bind (json_object ''runtime_config_invalid'' (dgetN r ''sniffing'')) (\<lambda>sniffing.
     let inbound = [(''port'', PInt port), (''protocol'', PStr (py_str (dgetN r ''protocol''))),
        (''settings'', PDict settings), (''streamSettings'', PDict (runtime_stream stream)),
        (''tag'', PStr tag), (''sniffing'', PDict sniffing)] in
     Inr (if truthy (dgetN r ''listen'') then dset inbound ''listen'' (PStr (py_str (dgetN r ''listen'')))
          else inbound)))))"

fun compose_rows :: "pydict list \<Rightarrow> pyval list \<Rightarrow> pyval list \<Rightarrow> txexc + pyval list" where
  "compose_rows [] tags acc = Inr acc"
| "compose_rows (r # rs) tags acc =
     (let tag = str_or_empty (dgetN r ''tag'') in
      err_bind (err_if (tag = [] \<or> PStr tag \<in> set tags) ''runtime_config_invalid'') (\<lambda>_.
      err_bind (inbound_of_row r tag) (\<lambda>inbound.
      compose_rows rs (PStr tag # tags) (acc @ [PDict inbound]))))"

definition dict_items :: "pyval list \<Rightarrow> pydict list" where
  "dict_items xs = concat (map (\<lambda>v. case v of PDict d \<Rightarrow> [d] | _ \<Rightarrow> []) xs)"

definition compose_runtime :: "pyval \<Rightarrow> panel_db \<Rightarrow> txexc + pydict" where
  "compose_runtime stored db =
     err_bind (json_object ''runtime_config_invalid'' stored) (\<lambda>template.
     case dgetN template ''inbounds'' of
       PList inbounds \<Rightarrow>
         (let tags = map (\<lambda>d. dgetN d ''tag'') (dict_items inbounds) in
          if \<not> list_all hashable tags then Inl (PyError TypeError)
          else err_bind (compose_rows
             (sort_key pk (filter (\<lambda>r. dgetN r ''enable'' = PInt 1) (db_inbounds db))) tags inbounds)
             (\<lambda>xs. Inr (dset template ''inbounds'' (PList xs))))
     | _ \<Rightarrow> Inl (TxError ''runtime_config_invalid''))"

definition connect :: "'x outside \<Rightarrow> ('x, unit) tx" where
  "connect e = sql e ''connect'' ''database_open_failed''"

definition load_runtime_config :: "'x outside \<Rightarrow> ('x, pydict) tx" where
  "load_runtime_config e = tbind (ask (x_runtime e)) (\<lambda>r.
     case r of
       Some (PDict doc) \<Rightarrow>
         tbind (connect e) (\<lambda>_.
         tbind (sql e ''settings'' ''database_read_failed'') (\<lambda>_.
         tbind (tget w_db) (\<lambda>db.
           (case db_settings db of
              None \<Rightarrow> tret doc
            | Some tab \<Rightarrow>
                (case map_of tab ''xrayTemplateConfig'' of
                   None \<Rightarrow> tret doc
                 | Some stored \<Rightarrow> tlift (compose_runtime stored db))))))
     | _ \<Rightarrow> tfail ''runtime_config_invalid'')"

section \<open>The row, its clients and its owner\<close>

definition find_inbound :: "panel_db \<Rightarrow> int \<Rightarrow> pydict option" where
  "find_inbound db i = List.find (\<lambda>r. pk r = i) (db_inbounds db)"

definition load_inbound_row :: "'x outside \<Rightarrow> int \<Rightarrow> ('x, pydict) tx" where
  "load_inbound_row e i =
     tbind (connect e) (\<lambda>_.
     tbind (sql e ''inbound'' ''database_read_failed'') (\<lambda>_.
     tbind (tget w_db) (\<lambda>db.
     case find_inbound db i of None \<Rightarrow> tfail ''managed_resource_missing'' | Some r \<Rightarrow> tret r)))"

definition find_client :: "panel_db \<Rightarrow> int \<Rightarrow> pydict option" where
  "find_client db i = List.find (\<lambda>r. pk r = i) (db_clients db)"

text \<open>The join of the clients with the links of one inbound, in the order of the client ids.\<close>

definition attached :: "panel_db \<Rightarrow> int \<Rightarrow> pydict list" where
  "attached db i = sort_key pk (concat (map (\<lambda>l. if l_inbound l \<noteq> i then []
     else case find_client db (l_client l) of None \<Rightarrow> []
        | Some r \<Rightarrow> [dset r ''inbound_flow_override'' (l_flow l)]) (db_links db)))"

definition load_attached_clients :: "'x outside \<Rightarrow> int \<Rightarrow> ('x, pydict list) tx" where
  "load_attached_clients e i =
     tbind (connect e) (\<lambda>_.
     tbind (sql e ''clients'' ''database_read_failed'') (\<lambda>_.
     tget (\<lambda>w. attached (w_db w) i)))"

definition owner_names :: "txconfig \<Rightarrow> string \<Rightarrow> string \<times> string \<times> int list" where
  "owner_names c egress =
     (if egress = ''agw-main'' then (''Aimili Reality'', ''aimili-socks'', [7928])
      else (''Aimili Gateway '' @ egress @ '' VLESS'', egress @ ''-socks'',
        map int [17928..<17928 + length (cfg_ports c) - 1]))"

definition owned_row :: "pydict \<Rightarrow> pydict \<Rightarrow> txexc + unit" where
  "owned_row req row =
     err_bind (err_if (\<not> py_eq (dgetN row ''id'') (dgetN req ''inboundId'')
         \<or> \<not> py_eq (dgetN row ''tag'') (dgetN req ''inboundTag'')
         \<or> \<not> py_eq (dgetN row ''port'') (dgetN req ''port'')) ''ownership_conflict'') (\<lambda>_.
     err_bind (py_res (py_int (dget_or row ''enable'' (PInt 0)))) (\<lambda>enabled.
     err_if (enabled \<noteq> 1 \<or> dgetN row ''node_id'' \<noteq> PNone \<or> dgetN row ''protocol'' = PStr ''mixed'')
       ''ownership_conflict''))"

definition tagged :: "pyval list \<Rightarrow> string \<Rightarrow> pydict list" where
  "tagged xs tag = filter (\<lambda>d. dgetN d ''tag'' = PStr tag) (dict_items xs)"

definition owned_outbound :: "pyval list \<Rightarrow> string \<Rightarrow> int list \<Rightarrow> txexc + unit" where
  "owned_outbound outbounds tag ports = (case tagged outbounds tag of
     [out] \<Rightarrow>
       err_bind (err_if (dgetN out ''protocol'' \<noteq> PStr ''socks'') ''ownership_conflict'') (\<lambda>_.
       case dgetN out ''settings'' of
         PDict settings \<Rightarrow>
           (case dgetN settings ''servers'' of
              PList [PDict server] \<Rightarrow>
                err_bind (err_if (dgetN server ''address'' \<noteq> PStr ''127.0.0.1'') ''ownership_conflict'') (\<lambda>_.
                err_bind (in_set (dgetN server ''port'') (map PInt ports)) (\<lambda>known.
                err_if (\<not> known) ''ownership_conflict''))
            | _ \<Rightarrow> Inl (TxError ''ownership_conflict''))
       | _ \<Rightarrow> Inl (TxError ''ownership_conflict''))
   | _ \<Rightarrow> Inl (TxError ''ownership_conflict''))"

definition owned_rules :: "pyval list \<Rightarrow> string \<Rightarrow> string \<Rightarrow> pydict list" where
  "owned_rules rules outbound tag = filter (\<lambda>r. dgetN r ''outboundTag'' = PStr outbound \<and>
     (case dgetN r ''inboundTag'' of PList ts \<Rightarrow> PStr tag \<in> set ts | _ \<Rightarrow> False)) (dict_items rules)"

definition validate_ownership :: "txconfig \<Rightarrow> pydict \<Rightarrow> pydict \<Rightarrow> pydict \<Rightarrow> txexc + unit" where
  "validate_ownership c req row runtime =
     err_bind (owned_row req row) (\<lambda>_.
     case owner_names c (req_str req ''egressId'') of (remark, outbound, ports) \<Rightarrow>
     err_bind (err_if (dgetN row ''remark'' \<noteq> PStr remark) ''ownership_conflict'') (\<lambda>_.
     case (dgetN runtime ''inbounds'', dgetN runtime ''outbounds'', dgetN runtime ''routing'') of
       (PList inbounds, PList outbounds, PDict routing) \<Rightarrow>
         (case dgetN routing ''rules'' of
            PList rules \<Rightarrow>
              err_bind (case tagged inbounds (req_str req ''inboundTag'') of
                  [d] \<Rightarrow> err_if (\<not> py_eq (dgetN d ''port'') (dgetN req ''port'')) drift
                | _ \<Rightarrow> Inl (TxError drift)) (\<lambda>_.
              err_bind (owned_outbound outbounds outbound ports) (\<lambda>_.
              err_if (length (owned_rules rules outbound (req_str req ''inboundTag'')) \<noteq> 1)
                ''ownership_conflict''))
          | _ \<Rightarrow> Inl (TxError ''runtime_config_invalid''))
     | _ \<Rightarrow> Inl (TxError ''runtime_config_invalid'')))"

definition mode_for_row :: "pydict \<Rightarrow> txexc + string" where
  "mode_for_row row =
     err_bind (json_object drift (dget_or row ''stream_settings'' (PStr []))) (\<lambda>stream.
     err_bind (json_object drift (dget_or row ''settings'' (PStr []))) (\<lambda>settings.
     let protocol = dgetN row ''protocol''; network = dgetN stream ''network'';
         security = dgetN stream ''security''; no_flow = truthy (dgetN row ''disable_flow'') in
     if protocol = PStr ''vless'' \<and> network = PStr ''tcp'' \<and> security = PStr ''reality''
        \<and> dgetN settings ''decryption'' = PStr ''none'' \<and> \<not> no_flow
     then Inr VLESS_TCP_REALITY_VISION
     else if protocol = PStr ''vless'' \<and> network = PStr ''xhttp'' \<and> security = PStr ''reality''
        \<and> dgetN settings ''decryption'' = PStr ''none'' \<and> no_flow
     then Inr VLESS_XHTTP_REALITY
     else if protocol = PStr ''hysteria'' \<and> network = PStr ''hysteria'' \<and> security = PStr ''tls''
        \<and> py_eq (dgetN settings ''version'') (PInt 2)
     then Inr HYSTERIA2_QUIC_TLS
     else Inl (TxError drift)))"

end
