(* ===== verification/Txn_Template.thy ===== *)
theory Txn_Template
  imports Txn_Source
begin

text \<open>
  The template of a protocol mode: the Reality profile kept for each egress, the client
  entries, the stream settings, the inbound handed to Xray, the configuration for the offline
  test, the snapshot, and the loading of the target that all of them start from.
\<close>

section \<open>The profile\<close>

record source =
  s_request :: pydict
  s_row :: pydict
  s_clients :: "pydict list"
  s_runtime :: pydict
  s_profile :: pydict

definition profile_of :: "'x world \<Rightarrow> string \<Rightarrow> snapfile" where
  "profile_of w i = (case map_of (w_profiles w) i of None \<Rightarrow> NoFile | Some f \<Rightarrow> f)"

definition xhttp_path :: "'x outside \<Rightarrow> string \<Rightarrow> string" where
  "xhttp_path e egress = CHR ''/'' # take 24 (x_sha256 e (''aimili-xhttp:'' @ egress))"

definition reality_settings :: "pydict \<Rightarrow> txexc + pydict" where
  "reality_settings row =
     err_bind (ditem row ''stream_settings'') (\<lambda>text_in.
     err_bind (json_object drift text_in) (\<lambda>stream.
     case dgetN stream ''realitySettings'' of
       PDict reality \<Rightarrow>
         if truthy (dgetN reality ''privateKey'') \<and> truthy (dgetN reality ''shortIds'') then Inr reality
         else Inl (TxError drift)
     | _ \<Rightarrow> Inl (TxError drift)))"

definition profile_path :: "txconfig \<Rightarrow> string \<Rightarrow> ('x, path) tx" where
  "profile_path c egress = (if safe_egress_id egress then tret (cfg_profiles c @ [egress @ ''.json''])
     else tfail ''invalid_request'')"

definition read_profile :: "'x outside \<Rightarrow> path \<Rightarrow> string \<Rightarrow> ('x, pydict) tx" where
  "read_profile e p egress =
     tbind (tget (\<lambda>w. profile_of w egress)) (\<lambda>f.
     tbind (tguard (f \<noteq> NoFile) ''managed_profile_missing'') (\<lambda>_.
     tbind (require_regular_file e p) (\<lambda>_.
     tbind (fs_must e (ReadFrom p) ''snapshot_invalid'') (\<lambda>_.
     case f of
       NoFile \<Rightarrow> tfail ''managed_profile_missing''
     | Unreadable \<Rightarrow> tfail ''snapshot_invalid''
     | Doc d \<Rightarrow>
         (case (dgetN d ''egressId'', dgetN d ''realitySettings'') of
            (PStr i, PDict _) \<Rightarrow> if i = egress then tret d else tfail ''managed_profile_invalid''
          | _ \<Rightarrow> tfail ''managed_profile_invalid'')))))"

definition load_or_capture_profile ::
  "'x outside \<Rightarrow> txconfig \<Rightarrow> string \<Rightarrow> pydict \<Rightarrow> string \<Rightarrow> ('x, pydict) tx" where
  "load_or_capture_profile e c egress row mode =
     tbind (profile_path c egress) (\<lambda>p.
     if mode = VLESS_TCP_REALITY_VISION \<or> mode = VLESS_XHTTP_REALITY then
       tbind (tlift (reality_settings row)) (\<lambda>reality.
       let profile = [(''egressId'', PStr egress), (''realitySettings'', PDict reality),
             (''xhttpPath'', PStr (xhttp_path e egress))] in
       tbind (private_atomic_json e p
          (\<lambda>w. w\<lparr>w_profiles := AList.update egress (Doc profile) (w_profiles w)\<rparr>)) (\<lambda>_.
       tret profile))
     else read_profile e p egress)"

section \<open>Loading the target\<close>

definition load_target :: "'x outside \<Rightarrow> txconfig \<Rightarrow> pydict \<Rightarrow> ('x, source) tx" where
  "load_target e c req =
     tbind (load_runtime_config e) (\<lambda>runtime.
     tbind (load_inbound_row e (req_int req ''inboundId'')) (\<lambda>row.
     tbind (tlift (validate_ownership c req row runtime)) (\<lambda>_.
     tbind (load_attached_clients e (req_int req ''inboundId'')) (\<lambda>clients.
     tbind (tguard (clients \<noteq> []) ''managed_resource_missing'') (\<lambda>_.
     tbind (tlift (mode_for_row row)) (\<lambda>mode.
     tbind (tguard (PStr mode = dgetN req ''oldMode'') ''expected_state_mismatch'') (\<lambda>_.
     tbind (load_or_capture_profile e c (req_str req ''egressId'') row mode) (\<lambda>profile.
     tret \<lparr>s_request = req, s_row = row, s_clients = clients, s_runtime = runtime,
       s_profile = profile\<rparr>))))))))"

definition validate_request :: "'x outside \<Rightarrow> txconfig \<Rightarrow> pyval \<Rightarrow> ('x, pydict) tx" where
  "validate_request e c v =
     tbind (validate_config_paths e c) (\<lambda>_.
     case v of
       PDict d \<Rightarrow>
         tbind (tguard (set (map fst d) = set REQUEST_FIELDS) ''invalid_request'') (\<lambda>_.
         tbind (tlift (request_shape e c d)) (\<lambda>_.
         tbind (load_target e c d) (\<lambda>_. tret d)))
     | _ \<Rightarrow> tfail ''invalid_request'')"

section \<open>Client entries\<close>

fun enabled_clients :: "pydict list \<Rightarrow> txexc + pydict list" where
  "enabled_clients [] = Inr []"
| "enabled_clients (r # rs) =
     err_bind (py_res (py_int (dget_or r ''enable'' (PInt 0)))) (\<lambda>n.
     err_bind (enabled_clients rs) (\<lambda>xs. Inr (if n = 1 then r # xs else xs)))"

fun vless_clients :: "string \<Rightarrow> pydict list \<Rightarrow> txexc + pyval list" where
  "vless_clients flow [] = Inr []"
| "vless_clients flow (r # rs) =
     (let client_id = str_or_empty (dgetN r ''uuid''); email = str_or_empty (dgetN r ''email'') in
      err_bind (err_if (client_id = [] \<or> email = []) drift) (\<lambda>_.
      err_bind (vless_clients flow rs) (\<lambda>xs.
      Inr (PDict ([(''id'', PStr client_id), (''email'', PStr email)]
        @ (if flow = [] then [] else [(''flow'', PStr flow)])) # xs))))"

definition token_ok :: "pyval \<Rightarrow> bool" where
  "token_ok v = (case v of
     PStr s \<Rightarrow> 16 \<le> length s \<and> length s \<le> 256 \<and> \<not> list_ex py_isspace_char s | _ \<Rightarrow> False)"

text \<open>A client without a credential gets a generated one, recorded under its id.\<close>

definition client_auth :: "'x outside \<Rightarrow> pydict \<Rightarrow> ('x, string \<times> pydict) tx" where
  "client_auth e r = (let auth = str_or_empty (dgetN r ''auth'') in
     if auth \<noteq> [] then tret (auth, [])
     else tbind (ask (x_token e)) (\<lambda>t.
       tbind (tguard (token_ok t) ''credential_generation_failed'') (\<lambda>_.
       tbind (tlift (ditem r ''id'')) (\<lambda>i. tret (py_str t, [(py_str i, t)])))))"

fun hysteria_clients :: "'x outside \<Rightarrow> pydict list \<Rightarrow> ('x, pyval list \<times> pydict) tx" where
  "hysteria_clients e [] = tret ([], [])"
| "hysteria_clients e (r # rs) =
     (let email = str_or_empty (dgetN r ''email'') in
      tbind (tguard (email \<noteq> []) drift) (\<lambda>_.
      tbind (client_auth e r) (\<lambda>(auth, new).
      tbind (hysteria_clients e rs) (\<lambda>(xs, updates).
      tret (PDict [(''auth'', PStr auth), (''email'', PStr email)] # xs, dupdate new updates)))))"

section \<open>The template\<close>

definition template_base :: "pydict \<Rightarrow> txexc + pydict" where
  "template_base row =
     err_bind (ditem row ''id'') (\<lambda>i.
     err_bind (ditem row ''remark'') (\<lambda>remark.
     err_bind (ditem row ''port'') (\<lambda>port.
     err_bind (ditem row ''tag'') (\<lambda>tag.
     err_bind (ditem row ''sniffing'') (\<lambda>text_in.
     err_bind (json_object drift text_in) (\<lambda>sniffing.
     Inr [(''id'', i), (''remark'', remark), (''listen'', dget_or row ''listen'' (PStr [])), (''port'', port),
       (''tag'', tag), (''sniffing'', PDict sniffing), (''disableFlow'', PBool False),
       (''_clientAuthUpdates'', PDict []), (''_clientInboundFlowOverride'', PStr [])]))))))"

definition vless_stream :: "string \<Rightarrow> pyval \<Rightarrow> pyval \<Rightarrow> pydict" where
  "vless_stream mode reality xpath =
     (if mode = VLESS_TCP_REALITY_VISION then
        [(''network'', PStr ''tcp''), (''security'', PStr ''reality''), (''tcpSettings'', PDict []),
         (''realitySettings'', reality)]
      else
        [(''network'', PStr ''xhttp''), (''security'', PStr ''reality''),
         (''xhttpSettings'', PDict [(''path'', xpath), (''mode'', PStr ''auto'')]),
         (''sockopt'', PDict [(''trustedXForwardedFor'', PList [PStr ''127.0.0.1'', PStr ''::1''])]),
         (''realitySettings'', reality)])"

definition vless_template :: "source \<Rightarrow> pydict list \<Rightarrow> string \<Rightarrow> pydict \<Rightarrow> txexc + pydict" where
  "vless_template s clients mode base =
     (let flow = (if mode = VLESS_TCP_REALITY_VISION then ''xtls-rprx-vision'' else []) in
      err_bind (ditem (s_profile s) ''realitySettings'') (\<lambda>reality.
      err_bind (vless_clients flow clients) (\<lambda>entries.
      err_bind (if mode = VLESS_TCP_REALITY_VISION then Inr PNone else ditem (s_profile s) ''xhttpPath'') (\<lambda>xpath.
      Inr (dupdate base
        [(''_clientInboundFlowOverride'', PStr flow), (''protocol'', PStr ''vless''),
         (''settings'', PDict [(''clients'', PList entries), (''decryption'', PStr ''none'')]),
         (''disableFlow'', PBool (mode \<noteq> VLESS_TCP_REALITY_VISION)),
         (''streamSettings'', PDict (vless_stream mode reality xpath))])))))"

definition server_name :: "txconfig \<Rightarrow> source \<Rightarrow> txexc + pyval" where
  "server_name c s =
     err_bind (if cfg_tls_name c \<noteq> [] then Inr (PStr (cfg_tls_name c))
       else err_bind (ditem (s_profile s) ''realitySettings'') (\<lambda>v.
         case v of
           PDict reality \<Rightarrow>
             (case dget_or reality ''serverNames'' (PList []) of PList (n # ns) \<Rightarrow> Inr n | _ \<Rightarrow> Inr (PStr []))
         | _ \<Rightarrow> Inl (PyError AttributeError))) (\<lambda>name.
     if truthy name then Inr name else Inl (TxError ''invalid_config''))"

definition certificate_entry :: "txconfig \<Rightarrow> pyval" where
  "certificate_entry c = PDict
     [(''certificateFile'', PStr (path_text (cfg_certificate c))), (''keyFile'', PStr (path_text (cfg_private_key c))),
      (''oneTimeLoading'', PBool False), (''usage'', PStr ''encipherment''), (''ocspStapling'', PInt 0),
      (''buildChain'', PBool False)]"

definition hysteria_stream :: "txconfig \<Rightarrow> pyval \<Rightarrow> pydict" where
  "hysteria_stream c name =
     [(''network'', PStr ''hysteria''), (''security'', PStr ''tls''),
      (''hysteriaSettings'', PDict [(''version'', PInt 2), (''udpIdleTimeout'', PInt 60)]),
      (''tlsSettings'', PDict [(''serverName'', name), (''minVersion'', PStr ''1.2''), (''maxVersion'', PStr ''1.3''),
         (''alpn'', PList [PStr ''h3'']), (''certificates'', PList [certificate_entry c])])]"

definition hysteria_template ::
  "'x outside \<Rightarrow> txconfig \<Rightarrow> source \<Rightarrow> pydict list \<Rightarrow> pydict \<Rightarrow> ('x, pydict) tx" where
  "hysteria_template e c s clients base =
     tbind (hysteria_clients e clients) (\<lambda>(entries, updates).
     tbind (tlift (server_name c s)) (\<lambda>name.
     tret (dupdate base
       [(''protocol'', PStr ''hysteria''),
        (''settings'', PDict [(''version'', PInt 2), (''clients'', PList entries)]),
        (''streamSettings'', PDict (hysteria_stream c name)), (''_clientAuthUpdates'', PDict updates)])))"

definition build_template :: "'x outside \<Rightarrow> txconfig \<Rightarrow> source \<Rightarrow> string \<Rightarrow> ('x, pydict) tx" where
  "build_template e c s mode =
     tbind (tguard (mode \<in> set PROTOCOL_MODES) ''invalid_request'') (\<lambda>_.
     tbind (tlift (enabled_clients (s_clients s))) (\<lambda>clients.
     tbind (tguard (clients \<noteq> []) ''managed_resource_missing'') (\<lambda>_.
     tbind (tlift (template_base (s_row s))) (\<lambda>base.
     if mode = VLESS_TCP_REALITY_VISION \<or> mode = VLESS_XHTTP_REALITY
     then tlift (vless_template s clients mode base)
     else hysteria_template e c s clients base))))"

section \<open>The inbound and the test configuration\<close>

definition runtime_inbound :: "pydict \<Rightarrow> pydict" where
  "runtime_inbound t =
     (let stream = (case dgetN t ''streamSettings'' of PDict d \<Rightarrow> d | _ \<Rightarrow> []);
          inbound = [(''port'', dgetN t ''port''), (''protocol'', dgetN t ''protocol''),
            (''settings'', dgetN t ''settings''), (''streamSettings'', PDict (runtime_stream stream)),
            (''tag'', dgetN t ''tag''), (''sniffing'', dgetN t ''sniffing'')]
      in if truthy (dgetN t ''listen'') then dset inbound ''listen'' (dgetN t ''listen'') else inbound)"

definition runtime_from_source :: "'x outside \<Rightarrow> txconfig \<Rightarrow> source \<Rightarrow> ('x, pydict) tx" where
  "runtime_from_source e c s =
     tbind (tlift (mode_for_row (s_row s))) (\<lambda>mode.
     tbind (build_template e c s mode) (\<lambda>t. tret (runtime_inbound t)))"

definition full_test_config :: "pydict \<Rightarrow> pydict \<Rightarrow> txexc + pyval" where
  "full_test_config runtime t =
     (let desired = runtime_inbound t;
          hit = (\<lambda>v. case v of PDict d \<Rightarrow> py_eq (dgetN d ''tag'') (dgetN desired ''tag'') | _ \<Rightarrow> False) in
      case dgetN runtime ''inbounds'' of
        PList inbounds \<Rightarrow>
          err_bind (err_if (length (filter hit inbounds) \<noteq> 1) drift) (\<lambda>_.
          Inr (PDict (dset runtime ''inbounds''
            (PList (map (\<lambda>v. if hit v then PDict desired else v) inbounds)))))
      | _ \<Rightarrow> Inl (PyError TypeError))"

definition new_snapshot :: "'x outside \<Rightarrow> txconfig \<Rightarrow> source \<Rightarrow> pydict \<Rightarrow> ('x, pydict) tx" where
  "new_snapshot e c s t =
     tbind (ask (x_now e)) (\<lambda>now.
     tbind (runtime_from_source e c s) (\<lambda>old.
     tret [(''version'', PInt 1), (''phase'', PStr ''snapshot''), (''createdAt'', PInt now),
       (''leaseUpdatedAt'', PInt now), (''request'', PDict (s_request s)), (''row'', PDict (s_row s)),
       (''clients'', PList (map PDict (s_clients s))), (''oldRuntimeInbound'', PDict old),
       (''desiredTemplate'', PDict t)]))"

definition save_snapshot :: "'x outside \<Rightarrow> txconfig \<Rightarrow> string \<Rightarrow> pydict \<Rightarrow> string \<Rightarrow> ('x, unit) tx" where
  "save_snapshot e c i snap phase = write_snapshot e c i (dset snap ''phase'' (PStr phase))"

end
