(* ===== verification/Txn_Database.thy ===== *)
theory Txn_Database
  imports Txn_Template
begin

text \<open>
  The database side of the protocol transaction: writing a template, restoring a snapshot,
  comparing the database with a snapshot, the check before a rollback and the check after an
  apply. A database transaction is a function of the database that fails or returns the new
  database; on any failure SQLite rolls back and the database keeps its contents.
\<close>

section \<open>Statements\<close>

definition MUTATED_INBOUND_COLUMNS :: "string list" where
  "MUTATED_INBOUND_COLUMNS = [''protocol'', ''settings'', ''stream_settings'', ''sniffing'', ''disable_flow'']"

abbreviation concurrent :: "txexc + 'a" where
  "concurrent \<equiv> Inl (TxError ''database_concurrent_change'')"

abbreviation invalid_snapshot :: "txexc + 'a" where
  "invalid_snapshot \<equiv> Inl (TxError ''snapshot_invalid'')"

text \<open>\<open>UPDATE ... WHERE\<close>: the new rows, provided that exactly one row matched.\<close>

definition update_one :: "('r \<Rightarrow> bool) \<Rightarrow> ('r \<Rightarrow> 'r) \<Rightarrow> 'r list \<Rightarrow> txexc + 'r list" where
  "update_one P f rs = (if length (filter P rs) = 1 then Inr (map (\<lambda>r. if P r then f r else r) rs)
     else concurrent)"

definition sql_eq :: "pyval \<Rightarrow> pyval \<Rightarrow> bool" where
  "sql_eq a b = (a \<noteq> PNone \<and> a = b)"

definition set_columns :: "pyval list \<Rightarrow> pydict \<Rightarrow> pydict" where
  "set_columns vs r = dupdate r (zip MUTATED_INBOUND_COLUMNS vs)"

text \<open>\<open>UPDATE inbounds SET ... WHERE id=? AND tag=? AND port=?\<close>.\<close>

definition update_inbound :: "pydict \<Rightarrow> pyval list \<Rightarrow> panel_db \<Rightarrow> txexc + panel_db" where
  "update_inbound row vs db =
     err_bind (update_one (\<lambda>r. pk r = pk row \<and> sql_eq (dgetN r ''tag'') (dgetN row ''tag'')
         \<and> sql_eq (dgetN r ''port'') (dgetN row ''port'')) (set_columns vs) (db_inbounds db)) (\<lambda>rs.
     Inr (db\<lparr>db_inbounds := rs\<rparr>))"

definition update_auth :: "int \<Rightarrow> pyval list \<Rightarrow> pyval \<Rightarrow> panel_db \<Rightarrow> txexc + panel_db" where
  "update_auth i olds v db =
     err_bind (update_one (\<lambda>r. pk r = i \<and> dgetN r ''auth'' \<in> set olds) (\<lambda>r. dset r ''auth'' v)
        (db_clients db)) (\<lambda>rs.
     Inr (db\<lparr>db_clients := rs\<rparr>))"

text \<open>\<open>UPDATE client_inbounds SET flow_override=? WHERE client_id=? AND inbound_id=? AND
  flow_override IS ?\<close>.\<close>

definition update_flow :: "int \<Rightarrow> int \<Rightarrow> pyval \<Rightarrow> pyval \<Rightarrow> panel_db \<Rightarrow> txexc + panel_db" where
  "update_flow i inbound old v db =
     err_bind (update_one (\<lambda>l. l_client l = i \<and> l_inbound l = inbound \<and> l_flow l = old)
        (\<lambda>l. l\<lparr>l_flow := v\<rparr>) (db_links db)) (\<lambda>ls.
     Inr (db\<lparr>db_links := ls\<rparr>))"

definition linked_ids :: "panel_db \<Rightarrow> int \<Rightarrow> int list" where
  "linked_ids db i = sort (map l_client
     (filter (\<lambda>l. l_inbound l = i \<and> find_client db (l_client l) \<noteq> None) (db_links db)))"

definition find_link :: "panel_db \<Rightarrow> int \<Rightarrow> int \<Rightarrow> link option" where
  "find_link db i inbound = List.find (\<lambda>l. l_client l = i \<and> l_inbound l = inbound) (db_links db)"

text \<open>A loop of statements.\<close>

fun each :: "('a \<Rightarrow> 'd \<Rightarrow> txexc + 'd) \<Rightarrow> 'a list \<Rightarrow> 'd \<Rightarrow> txexc + 'd" where
  "each f [] db = Inr db"
| "each f (a # as) db = err_bind (f a db) (each f as)"

section \<open>Writing the template\<close>

definition template_columns :: "pydict \<Rightarrow> pyval list" where
  "template_columns t =
     [dgetN t ''protocol'', PStr (json_dumps (dgetN t ''settings'')),
      PStr (json_dumps (dgetN t ''streamSettings'')), PStr (json_dumps (dgetN t ''sniffing'')),
      PInt (if truthy (dgetN t ''disableFlow'') then 1 else 0)]"

definition auth_items :: "pydict \<Rightarrow> pydict" where
  "auth_items t = (case dgetN t ''_clientAuthUpdates'' of PDict d \<Rightarrow> d | _ \<Rightarrow> [])"

definition write_auth :: "string \<times> pyval \<Rightarrow> panel_db \<Rightarrow> txexc + panel_db" where
  "write_auth p db = (case int_of_str (fst p) of
     None \<Rightarrow> Inl (PyError ValueError)
   | Some i \<Rightarrow> update_auth i [PStr [], PNone] (snd p) db)"

definition write_flow :: "int \<Rightarrow> pyval \<Rightarrow> pydict \<Rightarrow> panel_db \<Rightarrow> txexc + panel_db" where
  "write_flow inbound v client db =
     update_flow (pk client) inbound (dgetN client ''inbound_flow_override'') v db"

definition persist_db :: "source \<Rightarrow> pydict \<Rightarrow> panel_db \<Rightarrow> txexc + panel_db" where
  "persist_db s t db =
     err_bind (update_inbound (s_row s) (template_columns t) db) (\<lambda>db1.
     err_bind (each write_auth (auth_items t) db1) (\<lambda>db2.
     err_bind (err_if (linked_ids db2 (pk (s_row s)) \<noteq> map pk (s_clients s)) ''database_concurrent_change'') (\<lambda>_.
     each (write_flow (pk (s_row s)) (dgetN t ''_clientInboundFlowOverride'')) (s_clients s) db2)))"

text \<open>Running a database transaction: it commits as a whole or not at all.\<close>

definition transaction ::
  "'x outside \<Rightarrow> string \<Rightarrow> string \<Rightarrow> (panel_db \<Rightarrow> txexc + panel_db) \<Rightarrow> ('x, unit) tx" where
  "transaction e q code f =
     tbind (connect e) (\<lambda>_.
     tbind (tget w_db) (\<lambda>db.
     tbind (tlift (f db)) (\<lambda>db'.
     tbind (sql e q code) (\<lambda>_.
     tput (\<lambda>w. w\<lparr>w_db := db'\<rparr>)))))"

definition persist_template :: "'x outside \<Rightarrow> source \<Rightarrow> pydict \<Rightarrow> ('x, unit) tx" where
  "persist_template e s t = transaction e ''persist'' ''database_write_failed'' (persist_db s t)"

section \<open>Reading a snapshot\<close>

definition snapshot_client :: "pyval \<Rightarrow> txexc + pydict" where
  "snapshot_client v = (case v of
     PDict c \<Rightarrow> (case (dgetN c ''id'', dgetN c ''inbound_flow_override'') of
         (PInt _, PStr _) \<Rightarrow> Inr c | (PBool _, PStr _) \<Rightarrow> Inr c | _ \<Rightarrow> invalid_snapshot)
   | _ \<Rightarrow> invalid_snapshot)"

fun snapshot_client_list :: "pyval list \<Rightarrow> txexc + pydict list" where
  "snapshot_client_list [] = Inr []"
| "snapshot_client_list (v # vs) =
     err_bind (snapshot_client v) (\<lambda>c. err_bind (snapshot_client_list vs) (\<lambda>cs. Inr (c # cs)))"

definition validated_snapshot_clients :: "pydict \<Rightarrow> txexc + pydict list" where
  "validated_snapshot_clients snap = (case dgetN snap ''clients'' of
     PList (v # vs) \<Rightarrow> snapshot_client_list (v # vs) | _ \<Rightarrow> invalid_snapshot)"

fun auth_update_list :: "int set \<Rightarrow> pydict \<Rightarrow> txexc + (int \<times> string) list" where
  "auth_update_list ids [] = Inr []"
| "auth_update_list ids ((k, v) # d) = (case (int_of_str k, v) of
     (Some i, PStr s) \<Rightarrow>
       if i \<in> ids then err_bind (auth_update_list ids d) (\<lambda>u. Inr (if i \<in> fst ` set u then u else (i, s) # u))
       else invalid_snapshot
   | _ \<Rightarrow> invalid_snapshot)"

definition snapshot_template :: "pydict \<Rightarrow> txexc + pydict" where
  "snapshot_template snap = (case dgetN snap ''desiredTemplate'' of
     PDict t \<Rightarrow> Inr t | _ \<Rightarrow> invalid_snapshot)"

definition snapshot_auth_updates :: "pydict \<Rightarrow> pydict list \<Rightarrow> txexc + (int \<times> string) list" where
  "snapshot_auth_updates snap clients =
     err_bind (snapshot_template snap) (\<lambda>t.
     case dgetN t ''_clientAuthUpdates'' of
       PDict d \<Rightarrow> auth_update_list (set (map pk clients)) d | _ \<Rightarrow> invalid_snapshot)"

definition snapshot_flow :: "pydict \<Rightarrow> txexc + string" where
  "snapshot_flow snap =
     err_bind (snapshot_template snap) (\<lambda>t.
     case dgetN t ''_clientInboundFlowOverride'' of PStr s \<Rightarrow> Inr s | _ \<Rightarrow> invalid_snapshot)"

text \<open>\<open>snapshot["row"]\<close>, then \<open>row["protocol"], ...\<close>.\<close>

definition snapshot_row :: "pydict \<Rightarrow> txexc + pydict" where
  "snapshot_row snap = err_bind (ditem snap ''row'') (\<lambda>v.
     case v of PDict r \<Rightarrow> Inr r | _ \<Rightarrow> Inl (PyError TypeError))"

fun ditems :: "pydict \<Rightarrow> string list \<Rightarrow> txexc + pyval list" where
  "ditems d [] = Inr []"
| "ditems d (k # ks) = err_bind (ditem d k) (\<lambda>v. err_bind (ditems d ks) (\<lambda>vs. Inr (v # vs)))"

section \<open>Restoring a snapshot\<close>

definition restore_auth :: "(int \<times> string) list \<Rightarrow> pydict \<Rightarrow> panel_db \<Rightarrow> txexc + panel_db" where
  "restore_auth updates client db = (case map_of updates (pk client) of
     None \<Rightarrow> Inr db
   | Some desired \<Rightarrow>
       (let old = dget_or client ''auth'' (PStr []) in
        case find_client db (pk client) of
          None \<Rightarrow> concurrent
        | Some r \<Rightarrow>
            if dgetN r ''auth'' = old then Inr db
            else if dgetN r ''auth'' \<noteq> PStr desired then concurrent
            else update_auth (pk client) [PStr desired] old db))"

definition restore_flow :: "int \<Rightarrow> string \<Rightarrow> pydict \<Rightarrow> panel_db \<Rightarrow> txexc + panel_db" where
  "restore_flow inbound desired client db = (case find_link db (pk client) inbound of
     None \<Rightarrow> concurrent
   | Some l \<Rightarrow>
       (let old = dgetN client ''inbound_flow_override'' in
        if l_flow l = old then Inr db
        else if l_flow l \<noteq> PStr desired then concurrent
        else update_flow (pk client) inbound (PStr desired) old db))"

definition restore_client ::
  "(int \<times> string) list \<Rightarrow> int \<Rightarrow> string \<Rightarrow> pydict \<Rightarrow> panel_db \<Rightarrow> txexc + panel_db" where
  "restore_client updates inbound flow client db =
     err_bind (restore_auth updates client db) (restore_flow inbound flow client)"

definition restore_db ::
  "pydict \<Rightarrow> pydict list \<Rightarrow> (int \<times> string) list \<Rightarrow> string \<Rightarrow> panel_db \<Rightarrow> txexc + panel_db" where
  "restore_db row clients updates flow db =
     err_bind (err_if (linked_ids db (pk row) \<noteq> map pk clients) ''database_concurrent_change'') (\<lambda>_.
     err_bind (ditems row MUTATED_INBOUND_COLUMNS) (\<lambda>vs.
     err_bind (update_inbound row vs db) (\<lambda>db1.
     each (restore_client updates (pk row) flow) clients db1)))"

definition restore_database :: "'x outside \<Rightarrow> pydict \<Rightarrow> ('x, unit) tx" where
  "restore_database e snap =
     tbind (tlift (snapshot_row snap)) (\<lambda>row.
     tbind (tlift (validated_snapshot_clients snap)) (\<lambda>clients.
     tbind (tlift (snapshot_flow snap)) (\<lambda>flow.
     tbind (tlift (snapshot_auth_updates snap clients)) (\<lambda>updates.
     transaction e ''restore'' ''database_restore_failed'' (restore_db row clients updates flow)))))"

section \<open>Comparing with a snapshot\<close>

definition client_matches :: "panel_db \<Rightarrow> int \<Rightarrow> (int \<times> string) list \<Rightarrow> pydict \<Rightarrow> bool" where
  "client_matches db inbound updates client =
     (case (find_client db (pk client), find_link db (pk client) inbound) of
        (Some r, Some l) \<Rightarrow> l_flow l = dgetN client ''inbound_flow_override''
          \<and> (pk client \<in> fst ` set updates \<longrightarrow> dgetN r ''auth'' = dget_or client ''auth'' (PStr []))
      | _ \<Rightarrow> False)"

definition database_matches_snapshot :: "'x outside \<Rightarrow> pydict \<Rightarrow> ('x, bool) tx" where
  "database_matches_snapshot e snap =
     tbind (tlift (snapshot_row snap)) (\<lambda>row.
     tbind (tlift (validated_snapshot_clients snap)) (\<lambda>clients.
     tbind (tlift (snapshot_auth_updates snap clients)) (\<lambda>updates.
     tbind (load_inbound_row e (pk row)) (\<lambda>current.
     tbind (tlift (ditems current MUTATED_INBOUND_COLUMNS)) (\<lambda>now.
     tbind (tlift (ditems row MUTATED_INBOUND_COLUMNS)) (\<lambda>saved.
     if now \<noteq> saved then tret False
     else tbind (connect e) (\<lambda>_.
       tbind (sql e ''compare'' ''database_read_failed'') (\<lambda>_.
       tget (\<lambda>w. linked_ids (w_db w) (pk row) = map pk clients
         \<and> list_all (client_matches (w_db w) (pk row) updates) clients)))))))))"

text \<open>Before a rollback: each attached client must be one of the snapshot and hold its old
  value or the value the transaction meant to write.\<close>

definition boundary_client :: "panel_db \<Rightarrow> int \<Rightarrow> (int \<times> string) list \<Rightarrow> string \<Rightarrow> pydict \<Rightarrow> bool" where
  "boundary_client db inbound updates flow client =
     (case (find_client db (pk client), find_link db (pk client) inbound) of
        (Some r, Some l) \<Rightarrow>
          (l_flow l = dgetN client ''inbound_flow_override'' \<or> l_flow l = PStr flow)
          \<and> (case map_of updates (pk client) of None \<Rightarrow> True
             | Some a \<Rightarrow> dgetN r ''auth'' = dget_or client ''auth'' (PStr []) \<or> dgetN r ''auth'' = PStr a)
      | _ \<Rightarrow> False)"

definition validate_rollback_database_boundary :: "'x outside \<Rightarrow> pydict \<Rightarrow> ('x, unit) tx" where
  "validate_rollback_database_boundary e snap =
     tbind (tlift (validated_snapshot_clients snap)) (\<lambda>clients.
     tbind (tlift (snapshot_template snap)) (\<lambda>_.
     case dgetN snap ''row'' of
       PDict row \<Rightarrow>
         tbind (tlift (snapshot_flow snap)) (\<lambda>flow.
         tbind (tlift (snapshot_auth_updates snap clients)) (\<lambda>updates.
         tbind (connect e) (\<lambda>_.
         tbind (sql e ''boundary'' ''database_read_failed'') (\<lambda>_.
         tbind (tget w_db) (\<lambda>db.
         tguard (linked_ids db (pk row) = map pk clients
             \<and> list_all (boundary_client db (pk row) updates flow) clients)
           ''database_concurrent_change'')))))
     | _ \<Rightarrow> tfail ''snapshot_invalid''))"

section \<open>Checking an applied template\<close>

definition persisted_view :: "pydict \<Rightarrow> txexc + pydict" where
  "persisted_view row =
     err_bind (ditem row ''protocol'') (\<lambda>protocol.
     err_bind (err_bind (ditem row ''settings'') (json_object drift)) (\<lambda>settings.
     err_bind (err_bind (ditem row ''stream_settings'') (json_object drift)) (\<lambda>stream.
     err_bind (err_bind (ditem row ''sniffing'') (json_object drift)) (\<lambda>sniffing.
     err_bind (ditem row ''disable_flow'') (\<lambda>no_flow.
     Inr [(''protocol'', protocol), (''settings'', PDict settings), (''streamSettings'', PDict stream),
       (''sniffing'', PDict sniffing), (''disableFlow'', PBool (truthy no_flow))])))))"

definition expected_view :: "pydict \<Rightarrow> pydict" where
  "expected_view t = [(''protocol'', dgetN t ''protocol''), (''settings'', dgetN t ''settings''),
     (''streamSettings'', dgetN t ''streamSettings''), (''sniffing'', dgetN t ''sniffing''),
     (''disableFlow'', PBool (truthy (dgetN t ''disableFlow'')))]"

definition auth_written :: "panel_db \<Rightarrow> string \<times> pyval \<Rightarrow> bool" where
  "auth_written db p = (case int_of_str (fst p) of
     None \<Rightarrow> False
   | Some i \<Rightarrow> (case find_client db i of None \<Rightarrow> False | Some r \<Rightarrow> dgetN r ''auth'' = snd p))"

definition flow_written :: "panel_db \<Rightarrow> int \<Rightarrow> pyval \<Rightarrow> pydict \<Rightarrow> bool" where
  "flow_written db inbound v client = (case find_link db (pk client) inbound of
     None \<Rightarrow> False | Some l \<Rightarrow> l_flow l = v)"

definition verify_applied :: "'x outside \<Rightarrow> txconfig \<Rightarrow> source \<Rightarrow> pydict \<Rightarrow> ('x, unit) tx" where
  "verify_applied e c s t =
     tbind (list_inbound_tags e c) (\<lambda>tags.
     tbind (tguard (dgetN t ''tag'' \<in> PStr ` set tags) ''runtime_verification_failed'') (\<lambda>_.
     tbind (load_inbound_row e (pk (s_row s))) (\<lambda>row.
     tbind (tlift (persisted_view row)) (\<lambda>persisted.
     tbind (tguard (canonical_fingerprint e (PDict persisted) = canonical_fingerprint e (PDict (expected_view t)))
        ''database_verification_failed'') (\<lambda>_.
     tbind (connect e) (\<lambda>_.
     tbind (tget w_db) (\<lambda>db.
     tbind (tguard (list_all (auth_written db) (auth_items t)) ''database_verification_failed'') (\<lambda>_.
     tguard (list_all (flow_written db (pk (s_row s)) (dgetN t ''_clientInboundFlowOverride'')) (s_clients s))
       ''database_verification_failed''))))))))"

end
