(* ===== verification/Txn_Restore.thy ===== *)
theory Txn_Restore
  imports Txn_Database
begin

text \<open>
  Why a restore brings the old database back. A transaction writes only into the cells of its
  own inbound: the five columns of one row, the credentials of some attached clients and the
  flow of their links. \<open>near\<close> says that two databases differ at most in such cells. Every
  statement of the helper keeps \<open>near\<close>; a restore that succeeds, and a comparison that
  answers yes, leave no cell that could differ, so the databases are equal.
\<close>

section \<open>Databases that differ in some cells\<close>

definition near_row :: "string list \<Rightarrow> pydict \<Rightarrow> pydict \<Rightarrow> bool" where
  "near_row ks r0 r = (map fst r = map fst r0 \<and> (\<forall>k. k \<notin> set ks \<longrightarrow> dget r k = dget r0 k))"

definition near_link :: "(int \<times> int) set \<Rightarrow> link \<Rightarrow> link \<Rightarrow> bool" where
  "near_link L l0 l = (l_client l = l_client l0 \<and> l_inbound l = l_inbound l0
     \<and> ((l_client l0, l_inbound l0) \<notin> L \<longrightarrow> l_flow l = l_flow l0))"

definition near :: "int set \<Rightarrow> int set \<Rightarrow> (int \<times> int) set \<Rightarrow> panel_db \<Rightarrow> panel_db \<Rightarrow> bool" where
  "near I A L db0 db = (db_settings db = db_settings db0
     \<and> list_all2 (\<lambda>r0 r. near_row (if pk r0 \<in> I then MUTATED_INBOUND_COLUMNS else []) r0 r)
         (db_inbounds db0) (db_inbounds db)
     \<and> list_all2 (\<lambda>r0 r. near_row (if pk r0 \<in> A then [''auth''] else []) r0 r)
         (db_clients db0) (db_clients db)
     \<and> list_all2 (near_link L) (db_links db0) (db_links db))"

text \<open>What the schema of the panel gives: distinct primary keys and the columns in place.\<close>

definition wf_db :: "panel_db \<Rightarrow> bool" where
  "wf_db db = (distinct (map pk (db_inbounds db)) \<and> distinct (map pk (db_clients db))
     \<and> distinct (map (\<lambda>l. (l_client l, l_inbound l)) (db_links db))
     \<and> list_all (\<lambda>r. wf_dict r \<and> list_all (dhas r) MUTATED_INBOUND_COLUMNS) (db_inbounds db)
     \<and> list_all (\<lambda>r. wf_dict r \<and> dhas r ''auth'') (db_clients db))"

lemma dict_ext: "map fst r = map fst r0 \<Longrightarrow> wf_dict r0 \<Longrightarrow> (\<And>k. dget r k = dget r0 k) \<Longrightarrow> r = r0"
proof (induction r arbitrary: r0)
  case Nil
  then show ?case by simp
next
  case (Cons p r)
  from Cons.prems(1) obtain q s where r0: "r0 = q # s" "fst p = fst q" "map fst r = map fst s"
    by (cases r0) auto
  have "snd p = snd q"
    using Cons.prems(3) [of "fst q"] r0 by (cases p; cases q) simp
  moreover have "dget r k = dget s k" for k
  proof (cases "k = fst q")
    case True
    have "fst q \<notin> fst ` set s" using Cons.prems(2) r0 by (cases q) (auto simp: dkeys_def)
    then have "dget s k = None" "dget r k = None"
      using True r0(3) by (simp_all add: dget_def map_of_eq_None_iff) (metis list.set_map)
    then show ?thesis by simp
  next
    case False
    with Cons.prems(3) [of k] r0 show ?thesis by (cases p; cases q) simp
  qed
  ultimately show ?case
    using Cons.IH [OF r0(3)] Cons.prems(2) r0 by (cases p; cases q) auto
qed

lemma near_row_refl [simp]: "near_row ks r r"
  by (simp add: near_row_def)

lemma near_row_eq: "near_row [] r0 r \<Longrightarrow> wf_dict r0 \<Longrightarrow> r = r0"
  by (auto simp: near_row_def intro: dict_ext)

lemma near_row_mono: "near_row ks r0 r \<Longrightarrow> set ks \<subseteq> set ks' \<Longrightarrow> near_row ks' r0 r"
  by (auto simp: near_row_def)

lemma near_row_pk: "near_row ks r0 r \<Longrightarrow> ''id'' \<notin> set ks \<Longrightarrow> pk r = pk r0"
  by (simp add: near_row_def pk_def dget_or_def)

lemma dset_keys: "dhas d k \<Longrightarrow> map fst (dset d k v) = map fst d"
  unfolding dset_def dhas_def dget_def
  by (induction d) (auto split: if_splits)

lemma near_row_keys: "near_row ks r0 r \<Longrightarrow> dhas r k = dhas r0 k"
  unfolding near_row_def dhas_def dget_def by (metis map_of_eq_None_iff list.set_map)

lemma near_row_dset:
  "near_row ks r0 r \<Longrightarrow> dhas r0 k \<Longrightarrow> k \<in> set ks \<Longrightarrow> near_row ks r0 (dset r k v)"
  using near_row_keys [of ks r0 r k] by (auto simp: near_row_def dset_keys)

lemma near_row_dset_back:
  "near_row ks r0 r \<Longrightarrow> dget r0 k = Some v \<Longrightarrow> near_row (removeAll k ks) r0 (dset r k v)"
  using near_row_keys [of ks r0 r k] by (auto simp: near_row_def dset_keys dhas_def)

lemma near_row_done:
  "near_row ks r0 r \<Longrightarrow> dget r k = dget r0 k \<Longrightarrow> near_row (removeAll k ks) r0 r"
  by (auto simp: near_row_def)

lemma near_refl: "near I A L db db"
  by (auto simp: near_def near_link_def list_all2_refl)

lemma near_eq:
  assumes "near {} {} {} db0 db" "wf_db db0"
  shows "db = db0"
proof -
  have rows: "rs = rs0" if "list_all2 (near_row []) rs0 rs" "list_all wf_dict rs0" for rs0 rs
    using that by (induction rule: list_all2_induct) (auto intro: near_row_eq)
  have links: "ls = ls0" if "list_all2 (near_link {}) ls0 ls" for ls0 ls
    using that by (induction rule: list_all2_induct) (auto simp: near_link_def)
  from assms show ?thesis
    by (auto simp: near_def wf_db_def intro!: panel_db.equality rows links elim!: list.pred_mono_strong)
qed

lemma near_mono:
  assumes "near I A L db0 db" "I \<subseteq> I'" "A \<subseteq> A'" "L \<subseteq> L'"
  shows "near I' A' L' db0 db"
proof -
  have "near_row (if pk r0 \<in> I' then MUTATED_INBOUND_COLUMNS else []) r0 r"
    if "near_row (if pk r0 \<in> I then MUTATED_INBOUND_COLUMNS else []) r0 r" for r0 r
    using that assms(2) by (intro near_row_mono [OF that]) auto
  moreover have "near_row (if pk r0 \<in> A' then [''auth''] else []) r0 r"
    if "near_row (if pk r0 \<in> A then [''auth''] else []) r0 r" for r0 r
    using that assms(3) by (intro near_row_mono [OF that]) auto
  moreover have "near_link L' l0 l" if "near_link L l0 l" for l0 l
    using that assms(4) by (auto simp: near_link_def)
  ultimately show ?thesis
    using assms(1) unfolding near_def by (auto elim!: list.rel_mono_strong)
qed

section \<open>Looking up in a nearby database\<close>

lemma list_all2_partner: "list_all2 R xs ys \<Longrightarrow> y \<in> set ys \<Longrightarrow> \<exists>x \<in> set xs. R x y"
  by (induction rule: list_all2_induct) auto

lemma find_pk:
  assumes "distinct (map pk rs)"
  shows "List.find (\<lambda>r. pk r = i) rs = Some r \<longleftrightarrow> r \<in> set rs \<and> pk r = i"
  using assms by (induction rs) (auto simp: image_iff)

lemma near_inbound:
  assumes "near I A L db0 db" "r \<in> set (db_inbounds db)"
  obtains r0 where "r0 \<in> set (db_inbounds db0)" "pk r = pk r0"
    "near_row (if pk r0 \<in> I then MUTATED_INBOUND_COLUMNS else []) r0 r"
proof -
  from assms obtain r0 where r0: "r0 \<in> set (db_inbounds db0)"
    "near_row (if pk r0 \<in> I then MUTATED_INBOUND_COLUMNS else []) r0 r"
    unfolding near_def by (blast dest: list_all2_partner)
  moreover from r0(2) have "pk r = pk r0"
    by (rule near_row_pk) (simp add: MUTATED_INBOUND_COLUMNS_def)
  ultimately show thesis using that by blast
qed

lemma near_client:
  assumes "near I A L db0 db" "r \<in> set (db_clients db)"
  obtains r0 where "r0 \<in> set (db_clients db0)" "pk r = pk r0"
    "near_row (if pk r0 \<in> A then [''auth''] else []) r0 r"
proof -
  from assms obtain r0 where r0: "r0 \<in> set (db_clients db0)"
    "near_row (if pk r0 \<in> A then [''auth''] else []) r0 r"
    unfolding near_def by (blast dest: list_all2_partner)
  moreover from r0(2) have "pk r = pk r0" by (rule near_row_pk) simp
  ultimately show thesis using that by blast
qed

lemma near_pks:
  assumes "near I A L db0 db"
  shows "map pk (db_inbounds db) = map pk (db_inbounds db0)"
    "map pk (db_clients db) = map pk (db_clients db0)"
proof -
  have same: "map pk rs = map pk rs0"
    if "list_all2 (\<lambda>r0 r. near_row (if pk r0 \<in> S then ks else []) r0 r) rs0 rs" "''id'' \<notin> set ks" for rs0 rs S ks
    using that by (induction rule: list_all2_induct) (auto dest: near_row_pk split: if_splits)
  from assms show "map pk (db_inbounds db) = map pk (db_inbounds db0)"
    unfolding near_def by (intro same [where ks = MUTATED_INBOUND_COLUMNS]) (auto simp: MUTATED_INBOUND_COLUMNS_def)
  from assms show "map pk (db_clients db) = map pk (db_clients db0)"
    unfolding near_def by (intro same [where ks = "[''auth'']"]) auto
qed

lemma near_link_keys:
  assumes "near I A L db0 db"
  shows "map (\<lambda>l. (l_client l, l_inbound l)) (db_links db) = map (\<lambda>l. (l_client l, l_inbound l)) (db_links db0)"
proof -
  have "map (\<lambda>l. (l_client l, l_inbound l)) ls = map (\<lambda>l. (l_client l, l_inbound l)) ls0"
    if "list_all2 (near_link L) ls0 ls" for ls0 ls
    using that by (induction rule: list_all2_induct) (auto simp: near_link_def)
  with assms show ?thesis by (simp add: near_def)
qed

lemma distinct_map_same: "distinct (map f xs) \<Longrightarrow> x \<in> set xs \<Longrightarrow> y \<in> set xs \<Longrightarrow> f x = f y \<Longrightarrow> x = y"
  by (auto simp: distinct_map inj_on_def)

lemma find_client_Some:
  "wf_db db0 \<Longrightarrow> near I A L db0 db \<Longrightarrow>
   find_client db i = Some r \<longleftrightarrow> r \<in> set (db_clients db) \<and> pk r = i"
  unfolding find_client_def by (rule find_pk) (simp add: near_pks(2) wf_db_def)

lemma find_inbound_Some:
  "wf_db db0 \<Longrightarrow> near I A L db0 db \<Longrightarrow>
   find_inbound db i = Some r \<longleftrightarrow> r \<in> set (db_inbounds db) \<and> pk r = i"
  unfolding find_inbound_def by (rule find_pk) (simp add: near_pks(1) wf_db_def)

lemma find_link_in: "find_link db i b = Some l \<Longrightarrow> l \<in> set (db_links db) \<and> l_client l = i \<and> l_inbound l = b"
  unfolding find_link_def by (metis (mono_tags, lifting) find_Some_iff nth_mem)

section \<open>Statements stay in their cells\<close>

lemma list_all2_map_keep:
  "list_all2 R xs ys \<Longrightarrow> (\<And>x y. x \<in> set xs \<Longrightarrow> y \<in> set ys \<Longrightarrow> R x y \<Longrightarrow> R' x (g y)) \<Longrightarrow>
   list_all2 R' xs (map g ys)"
  by (induction rule: list_all2_induct) auto

lemma near_row_dupdate:
  "near_row ks r0 r \<Longrightarrow> \<forall>p \<in> set ps. fst p \<in> set ks \<and> dhas r0 (fst p) \<Longrightarrow> near_row ks r0 (dupdate r ps)"
  by (induction r ps rule: dupdate.induct) (auto intro: near_row_dset)

lemma near_row_dupdate_back:
  "near_row ks r0 r \<Longrightarrow> \<forall>p \<in> set ps. dget r0 (fst p) = Some (snd p) \<Longrightarrow> set ks \<subseteq> S \<union> fst ` set ps \<Longrightarrow>
   S = {} \<Longrightarrow> near_row [] r0 (dupdate r ps)"
proof (induction r ps arbitrary: ks rule: dupdate.induct)
  case (1 d)
  then show ?case by (auto elim: near_row_mono)
next
  case (2 d k v e)
  have "near_row (removeAll k ks) r0 (dset d k v)" using 2(2,3) by (intro near_row_dset_back) auto
  from 2(1) [OF this] 2(3-5) show ?case by auto
qed

lemma update_one_Inr: "update_one P f rs = Inr rs' \<Longrightarrow> rs' = map (\<lambda>r. if P r then f r else r) rs"
  by (simp add: update_one_def split: if_splits)

abbreviation inbound_cells :: "int set \<Rightarrow> pydict \<Rightarrow> string list" where
  "inbound_cells I r0 \<equiv> if pk r0 \<in> I then MUTATED_INBOUND_COLUMNS else []"

abbreviation client_cells :: "int set \<Rightarrow> pydict \<Rightarrow> string list" where
  "client_cells A r0 \<equiv> if pk r0 \<in> A then [''auth''] else []"

lemma near_set_inbounds:
  assumes "near I A L db0 db"
    "\<And>r0 r. r0 \<in> set (db_inbounds db0) \<Longrightarrow> r \<in> set (db_inbounds db) \<Longrightarrow> pk r = pk r0 \<Longrightarrow>
      near_row (inbound_cells I r0) r0 r \<Longrightarrow> near_row (inbound_cells I' r0) r0 (g r)"
  shows "near I' A L db0 (db\<lparr>db_inbounds := map g (db_inbounds db)\<rparr>)"
proof -
  have "list_all2 (\<lambda>r0. near_row (inbound_cells I' r0) r0) (db_inbounds db0) (map g (db_inbounds db))"
    by (rule list_all2_map_keep [where R = "\<lambda>r0. near_row (inbound_cells I r0) r0"])
      (use assms near_row_pk in \<open>auto simp: near_def MUTATED_INBOUND_COLUMNS_def\<close>)
  with assms(1) show ?thesis by (simp add: near_def)
qed

lemma near_set_clients:
  assumes "near I A L db0 db"
    "\<And>r0 r. r0 \<in> set (db_clients db0) \<Longrightarrow> r \<in> set (db_clients db) \<Longrightarrow> pk r = pk r0 \<Longrightarrow>
      near_row (client_cells A r0) r0 r \<Longrightarrow> near_row (client_cells A' r0) r0 (g r)"
  shows "near I A' L db0 (db\<lparr>db_clients := map g (db_clients db)\<rparr>)"
proof -
  have "list_all2 (\<lambda>r0. near_row (client_cells A' r0) r0) (db_clients db0) (map g (db_clients db))"
    by (rule list_all2_map_keep [where R = "\<lambda>r0. near_row (client_cells A r0) r0"])
      (use assms near_row_pk in \<open>auto simp: near_def\<close>)
  with assms(1) show ?thesis by (simp add: near_def)
qed

lemma near_set_links:
  assumes "near I A L db0 db"
    "\<And>l0 l. l0 \<in> set (db_links db0) \<Longrightarrow> l \<in> set (db_links db) \<Longrightarrow> near_link L l0 l \<Longrightarrow> near_link L' l0 (g l)"
  shows "near I A L' db0 (db\<lparr>db_links := map g (db_links db)\<rparr>)"
proof -
  have "list_all2 (near_link L') (db_links db0) (map g (db_links db))"
    by (rule list_all2_map_keep [where R = "near_link L"]) (use assms in \<open>auto simp: near_def\<close>)
  with assms(1) show ?thesis by (simp add: near_def)
qed

lemma update_inbound_Inr:
  "update_inbound row vs db = Inr db' \<Longrightarrow>
   db' = db\<lparr>db_inbounds := map (\<lambda>r. if pk r = pk row \<and> sql_eq (dgetN r ''tag'') (dgetN row ''tag'')
      \<and> sql_eq (dgetN r ''port'') (dgetN row ''port'') then set_columns vs r else r) (db_inbounds db)\<rparr>"
  by (auto simp: update_inbound_def err_bind_Inr dest!: update_one_Inr)

lemma update_auth_Inr:
  "update_auth i olds v db = Inr db' \<Longrightarrow>
   db' = db\<lparr>db_clients := map (\<lambda>r. if pk r = i \<and> dgetN r ''auth'' \<in> set olds then dset r ''auth'' v else r)
      (db_clients db)\<rparr>"
  by (auto simp: update_auth_def err_bind_Inr dest!: update_one_Inr)

lemma update_flow_Inr:
  "update_flow i b old v db = Inr db' \<Longrightarrow>
   db' = db\<lparr>db_links := map (\<lambda>l. if l_client l = i \<and> l_inbound l = b \<and> l_flow l = old
      then l\<lparr>l_flow := v\<rparr> else l) (db_links db)\<rparr>"
  by (auto simp: update_flow_def err_bind_Inr dest!: update_one_Inr)

lemma near_update_inbound:
  assumes "near I A L db0 db" "wf_db db0" "update_inbound row vs db = Inr db'" "pk row \<in> I"
  shows "near I A L db0 db'"
  unfolding update_inbound_Inr [OF assms(3)]
proof (rule near_set_inbounds [OF assms(1)], goal_cases)
  case (1 r0 r)
  have "near_row MUTATED_INBOUND_COLUMNS r0 (set_columns vs r)" if "near_row MUTATED_INBOUND_COLUMNS r0 r"
    using that assms(2) 1(1) unfolding set_columns_def
    by (intro near_row_dupdate) (auto simp: wf_db_def list_all_iff dest: set_zip_leftD)
  with 1 assms(4) show ?case by auto
qed

lemma near_update_auth:
  assumes "near I A L db0 db" "wf_db db0" "update_auth i olds v db = Inr db'" "i \<in> A"
  shows "near I A L db0 db'"
  unfolding update_auth_Inr [OF assms(3)]
  by (rule near_set_clients [OF assms(1)])
    (use assms(2,4) in \<open>auto simp: wf_db_def list_all_iff intro: near_row_dset\<close>)

lemma near_update_flow:
  assumes "near I A L db0 db" "update_flow i b old v db = Inr db'" "(i, b) \<in> L"
  shows "near I A L db0 db'"
  unfolding update_flow_Inr [OF assms(2)]
  by (rule near_set_links [OF assms(1)]) (use assms(3) in \<open>auto simp: near_link_def\<close>)

lemma near_each:
  assumes "near I A L db0 db" "each f as db = Inr db'"
    "\<And>a db db'. a \<in> set as \<Longrightarrow> near I A L db0 db \<Longrightarrow> f a db = Inr db' \<Longrightarrow> near I A L db0 db'"
  shows "near I A L db0 db'"
  using assms by (induction as arbitrary: db) (auto simp: err_bind_Inr)

text \<open>The cells of one transaction.\<close>

definition auth_ids :: "pydict \<Rightarrow> int set" where
  "auth_ids t = {i. \<exists>k v. (k, v) \<in> set (auth_items t) \<and> int_of_str k = Some i}"

definition flow_cells :: "source \<Rightarrow> (int \<times> int) set" where
  "flow_cells s = (\<lambda>r. (pk r, pk (s_row s))) ` set (s_clients s)"

abbreviation near_source :: "source \<Rightarrow> pydict \<Rightarrow> panel_db \<Rightarrow> panel_db \<Rightarrow> bool" where
  "near_source s t \<equiv> near {pk (s_row s)} (auth_ids t) (flow_cells s)"

lemma near_persist:
  assumes "near_source s t db0 db" "wf_db db0" "persist_db s t db = Inr db'"
  shows "near_source s t db0 db'"
proof -
  from assms(3) obtain db1 db2 where steps:
    "update_inbound (s_row s) (template_columns t) db = Inr db1"
    "each write_auth (auth_items t) db1 = Inr db2"
    "each (write_flow (pk (s_row s)) (dgetN t ''_clientInboundFlowOverride'')) (s_clients s) db2 = Inr db'"
    by (auto simp: persist_db_def err_bind_Inr)
  have "near_source s t db0 db1"
    using near_update_inbound [OF assms(1,2) steps(1)] by simp
  then have "near_source s t db0 db2"
    by (rule near_each [OF _ steps(2)])
      (auto simp: write_auth_def auth_ids_def split: option.splits elim!: near_update_auth [OF _ assms(2)])
  then show ?thesis
    by (rule near_each [OF _ steps(3)])
      (auto simp: write_flow_def flow_cells_def elim!: near_update_flow)
qed

section \<open>Restoring closes the cells\<close>

lemma ditems_Inr:
  "ditems d ks = Inr vs \<Longrightarrow> length vs = length ks \<and> (\<forall>p \<in> set (zip ks vs). dget d (fst p) = Some (snd p))"
proof (induction ks arbitrary: vs)
  case (Cons k ks)
  from Cons.prems obtain v ws where "ditem d k = Inr v" "ditems d ks = Inr ws" "vs = v # ws"
    by (auto simp: err_bind_Inr)
  with Cons.IH [of ws] show ?case by (auto simp: ditem_def split: option.splits)
qed simp

lemma update_one_hit:
  assumes "update_one P f rs = Inr rs'"
  obtains r where "r \<in> set rs" "P r"
proof -
  have "filter P rs \<noteq> []" using assms by (auto simp: update_one_def split: if_splits)
  then show thesis using that by (auto simp: filter_empty_conv)
qed

lemma restore_inbound:
  assumes near: "near {pk row} A L db0 db" and wf: "wf_db db0" and row: "find_inbound db0 (pk row) = Some row"
    and vs: "ditems row MUTATED_INBOUND_COLUMNS = Inr vs" and upd: "update_inbound row vs db = Inr db'"
  shows "near {} A L db0 db'"
proof -
  let ?P = "\<lambda>r. pk r = pk row \<and> sql_eq (dgetN r ''tag'') (dgetN row ''tag'') \<and> sql_eq (dgetN r ''port'') (dgetN row ''port'')"
  have row_in: "row \<in> set (db_inbounds db0)"
    using row find_inbound_Some [OF wf near_refl] by blast
  obtain h where h: "h \<in> set (db_inbounds db)" "?P h"
    using upd by (auto simp: update_inbound_def err_bind_Inr elim: update_one_hit)
  have dist: "distinct (map pk (db_inbounds db))" "distinct (map pk (db_inbounds db0))"
    using wf near_pks(1) [OF near] by (simp_all add: wf_db_def)
  show ?thesis
    unfolding update_inbound_Inr [OF upd]
  proof (rule near_set_inbounds [OF near], goal_cases)
    case (1 r0 r)
    show ?case
    proof (cases "pk r0 = pk row")
      case True
      then have "r0 = row" "r = h"
        using distinct_map_same [OF dist(2) 1(1) row_in] distinct_map_same [OF dist(1) 1(2) h(1)] 1(3) h(2)
        by simp_all
      moreover have "near_row [] row (dupdate r (zip MUTATED_INBOUND_COLUMNS vs))"
      proof (rule near_row_dupdate_back [where S = "{}"])
        show "near_row MUTATED_INBOUND_COLUMNS row r" using 1(4) \<open>r0 = row\<close> by simp
        show "set MUTATED_INBOUND_COLUMNS \<subseteq> {} \<union> fst ` set (zip MUTATED_INBOUND_COLUMNS vs)"
          using ditems_Inr [OF vs] by (metis map_fst_zip list.set_map sup_bot_left order_refl)
      qed (use ditems_Inr [OF vs] in auto)
      ultimately show ?thesis using h(2) by (simp add: set_columns_def)
    qed (use 1 in auto)
  qed
qed

text \<open>A client of the snapshot is the old row of the client with the old flow of its link.\<close>

lemma attached_client:
  assumes "c \<in> set (attached db0 i)" "wf_db db0"
  obtains r l where "r \<in> set (db_clients db0)" "l \<in> set (db_links db0)" "l_inbound l = i"
    "l_client l = pk r" "c = dset r ''inbound_flow_override'' (l_flow l)" "pk c = pk r"
proof -
  from assms(1) obtain l r where "l \<in> set (db_links db0)" "l_inbound l = i" "find_client db0 (l_client l) = Some r"
    "c = dset r ''inbound_flow_override'' (l_flow l)"
  proof -
    from assms(1) obtain l where l: "l \<in> set (db_links db0)" "c \<in> set (if l_inbound l \<noteq> i then []
        else case find_client db0 (l_client l) of None \<Rightarrow> []
          | Some r \<Rightarrow> [dset r ''inbound_flow_override'' (l_flow l)])"
      unfolding attached_def set_sort set_concat set_map by blast
    with that [of l] show thesis
      by (cases "find_client db0 (l_client l)") (auto split: if_splits)
  qed
  moreover from this have "r \<in> set (db_clients db0)" "l_client l = pk r"
    using find_client_Some [OF assms(2) near_refl, of "l_client l" r] by auto
  moreover have "pk (dset r ''inbound_flow_override'' v) = pk r" for v by (simp add: pk_def)
  ultimately show thesis using that by blast
qed

lemma close_auth:
  assumes near: "near I A L db0 db" and wf: "wf_db db0" and c: "c \<in> set (attached db0 i)"
    and r: "find_client db (pk c) = Some r" and old: "dgetN r ''auth'' = dget_or c ''auth'' (PStr [])"
  shows "near I (A - {pk c}) L db0 db"
proof -
  obtain r1 where r1: "r1 \<in> set (db_clients db0)" "pk c = pk r1" "dget c ''auth'' = dget r1 ''auth''"
    using c wf by (rule attached_client) auto
  have has: "dget r0 ''auth'' \<noteq> None" if "r0 \<in> set (db_clients db0)" for r0
    using wf that by (auto simp: wf_db_def list_all_iff dhas_def)
  have r': "r \<in> set (db_clients db)" "pk r = pk c" using r find_client_Some [OF wf near] by auto
  have dist: "distinct (map pk (db_clients db))" "distinct (map pk (db_clients db0))"
    using wf near_pks(2) [OF near] by (simp_all add: wf_db_def)
  have "near I (A - {pk c}) L db0 (db\<lparr>db_clients := map (\<lambda>x. x) (db_clients db)\<rparr>)"
  proof (rule near_set_clients [OF near], goal_cases)
    case (1 r0 x)
    show ?case
    proof (cases "pk r0 = pk c")
      case True
      then have eq: "r0 = r1" "x = r"
        using distinct_map_same [OF dist(2) 1(1) r1(1)] distinct_map_same [OF dist(1) 1(2) r'(1)] 1(3) r1(2) r'(2)
        by simp_all
      have "dget r ''auth'' \<noteq> None"
        using has [OF 1(1)] near_row_keys [OF 1(4), of "''auth''"] eq by (simp add: dhas_def)
      with old r1(3) has [OF r1(1)] have "dget x ''auth'' = dget r0 ''auth''"
        using eq by (auto simp: dget_or_def split: option.splits)
      then have "near_row (removeAll ''auth'' (client_cells A r0)) r0 x" using 1(4) by (intro near_row_done)
      then show ?thesis by (rule near_row_mono) auto
    qed (use 1 in auto)
  qed
  then show ?thesis by simp
qed

lemma find_client_update_auth:
  assumes "find_client db i = Some r" "update_auth i olds v db = Inr db'"
    "distinct (map pk (db_clients db))"
  shows "\<exists>r'. find_client db' i = Some r' \<and> dgetN r' ''auth'' = v"
proof -
  let ?P = "\<lambda>r. pk r = i \<and> dgetN r ''auth'' \<in> set olds"
  let ?g = "\<lambda>r. if ?P r then dset r ''auth'' v else r"
  have pk_g: "pk (?g x) = pk x" for x by (simp add: pk_def)
  obtain h where h: "h \<in> set (db_clients db)" "?P h"
    using assms(2) by (auto simp: update_auth_def err_bind_Inr elim: update_one_hit)
  have "db_clients db' = map ?g (db_clients db)" using update_auth_Inr [OF assms(2)] by simp
  moreover have "distinct (map pk (map ?g (db_clients db)))" using assms(3) pk_g by (simp add: comp_def)
  ultimately have "find_client db' i = Some (?g h)"
    unfolding find_client_def using h find_pk [of "map ?g (db_clients db)" i "?g h"] pk_g [of h] by force
  with h show ?thesis by auto
qed

lemma restore_auth_near:
  assumes near: "near I A L db0 db" and wf: "wf_db db0" and c: "c \<in> set (attached db0 i)"
    and run: "restore_auth updates c db = Inr db'" and A: "A \<subseteq> fst ` set updates"
  shows "near I (A - {pk c}) L db0 db'"
proof (cases "map_of updates (pk c)")
  case None
  then have "pk c \<notin> A" using A by (auto simp: map_of_eq_None_iff)
  with run None near show ?thesis by (simp add: restore_auth_def)
next
  case (Some desired)
  with run obtain r where r: "find_client db (pk c) = Some r"
    by (auto simp: restore_auth_def Let_def split: option.splits)
  show ?thesis
  proof (cases "dgetN r ''auth'' = dget_or c ''auth'' (PStr [])")
    case True
    with run Some r have "db' = db" by (simp add: restore_auth_def Let_def)
    with close_auth [OF near wf c r True] show ?thesis by simp
  next
    case False
    with run Some r have upd: "update_auth (pk c) [PStr desired] (dget_or c ''auth'' (PStr [])) db = Inr db'"
      by (auto simp: restore_auth_def Let_def split: if_splits)
    have "distinct (map pk (db_clients db))" using wf near_pks(2) [OF near] by (simp add: wf_db_def)
    from find_client_update_auth [OF r upd this] obtain r' where
      r': "find_client db' (pk c) = Some r'" "dgetN r' ''auth'' = dget_or c ''auth'' (PStr [])" by blast
    have "near I (insert (pk c) A) L db0 db'"
      by (rule near_update_auth [OF near_mono [OF near] wf upd]) auto
    from close_auth [OF this wf c r'] show ?thesis by (rule near_mono) auto
  qed
qed

lemma close_flow:
  assumes near: "near I A L db0 db" and wf: "wf_db db0" and c: "c \<in> set (attached db0 i)"
    and l: "find_link db (pk c) i = Some l" and old: "l_flow l = dgetN c ''inbound_flow_override''"
  shows "near I A (L - {(pk c, i)}) db0 db"
proof -
  obtain l1 where l1: "l1 \<in> set (db_links db0)" "(l_client l1, l_inbound l1) = (pk c, i)"
    "l_flow l1 = dgetN c ''inbound_flow_override''"
    using c wf by (rule attached_client) auto
  have l': "l \<in> set (db_links db)" "(l_client l, l_inbound l) = (pk c, i)" using find_link_in [OF l] by auto
  have dist: "distinct (map (\<lambda>l. (l_client l, l_inbound l)) (db_links db0))"
    "distinct (map (\<lambda>l. (l_client l, l_inbound l)) (db_links db))"
    using wf near_link_keys [OF near] by (simp_all add: wf_db_def)
  have "near I A (L - {(pk c, i)}) db0 (db\<lparr>db_links := map (\<lambda>x. x) (db_links db)\<rparr>)"
  proof (rule near_set_links [OF near], goal_cases)
    case (1 l0 x)
    show ?case
    proof (cases "(l_client l0, l_inbound l0) = (pk c, i)")
      case True
      then have "l0 = l1" "x = l"
        using distinct_map_same [OF dist(1) 1(1) l1(1)] distinct_map_same [OF dist(2) 1(2) l'(1)] 1(3) l1(2) l'(2)
        by (simp_all add: near_link_def)
      with 1(3) old l1(3) show ?thesis by (simp add: near_link_def)
    qed (use 1(3) in \<open>auto simp: near_link_def\<close>)
  qed
  then show ?thesis by simp
qed

lemma find_link_update_flow:
  assumes "update_flow i b old v db = Inr db'"
    "distinct (map (\<lambda>l. (l_client l, l_inbound l)) (db_links db))"
  shows "\<exists>l'. find_link db' i b = Some l' \<and> l_flow l' = v"
proof -
  let ?P = "\<lambda>l. l_client l = i \<and> l_inbound l = b \<and> l_flow l = old"
  let ?g = "\<lambda>l. if ?P l then l\<lparr>l_flow := v\<rparr> else l"
  obtain h where h: "h \<in> set (db_links db)" "?P h"
    using assms(1) by (auto simp: update_flow_def err_bind_Inr elim: update_one_hit)
  have links: "db_links db' = map ?g (db_links db)" using update_flow_Inr [OF assms(1)] by simp
  have "?g h \<in> set (db_links db')" using imageI [OF h(1), of ?g] unfolding links set_map .
  moreover have "l_client (?g h) = i \<and> l_inbound (?g h) = b" using h(2) by simp
  ultimately have "find_link db' i b \<noteq> None"
    unfolding find_link_def by (auto simp: find_None_iff)
  then obtain l' where l': "find_link db' i b = Some l'" by blast
  then have "l' \<in> ?g ` set (db_links db)" using find_link_in [OF l'] links by (simp only: set_map)
  then obtain x where x: "x \<in> set (db_links db)" "l' = ?g x" by (rule imageE)
  moreover have "(l_client x, l_inbound x) = (i, b)" using find_link_in [OF l'] x(2) by (auto split: if_splits)
  ultimately have "x = h" using distinct_map_same [OF assms(2) x(1) h(1)] h(2) by simp
  with l' x(2) h(2) show ?thesis by simp
qed

lemma restore_flow_near:
  assumes near: "near I A L db0 db" and wf: "wf_db db0" and c: "c \<in> set (attached db0 i)"
    and run: "restore_flow i flow c db = Inr db'"
  shows "near I A (L - {(pk c, i)}) db0 db'"
proof -
  from run obtain l where l: "find_link db (pk c) i = Some l"
    by (auto simp: restore_flow_def split: option.splits)
  show ?thesis
  proof (cases "l_flow l = dgetN c ''inbound_flow_override''")
    case True
    with run l have "db' = db" by (simp add: restore_flow_def Let_def)
    with close_flow [OF near wf c l True] show ?thesis by simp
  next
    case False
    with run l have upd: "update_flow (pk c) i (PStr flow) (dgetN c ''inbound_flow_override'') db = Inr db'"
      by (auto simp: restore_flow_def Let_def split: if_splits)
    have "distinct (map (\<lambda>l. (l_client l, l_inbound l)) (db_links db))"
      using wf near_link_keys [OF near] by (simp add: wf_db_def)
    from find_link_update_flow [OF upd this] obtain l' where
      l': "find_link db' (pk c) i = Some l'" "l_flow l' = dgetN c ''inbound_flow_override''" by blast
    have "near I A (insert (pk c, i) L) db0 db'"
      by (rule near_update_flow [OF near_mono [OF near] upd]) auto
    from close_flow [OF this wf c l'] show ?thesis by (rule near_mono) auto
  qed
qed

lemma restore_clients_near:
  assumes "near {} A L db0 db" "wf_db db0" "set cs \<subseteq> set (attached db0 i)"
    "each (restore_client updates i flow) cs db = Inr db'" "A \<subseteq> fst ` set updates"
  shows "near {} (A - pk ` set cs) (L - (\<lambda>c. (pk c, i)) ` set cs) db0 db'"
  using assms
proof (induction cs arbitrary: A L db)
  case (Cons c cs)
  from Cons.prems(4) obtain db2 where db2: "restore_client updates i flow c db = Inr db2"
    "each (restore_client updates i flow) cs db2 = Inr db'"
    by (auto simp: err_bind_Inr)
  then obtain db1 where steps: "restore_auth updates c db = Inr db1" "restore_flow i flow c db1 = Inr db2"
    by (auto simp: restore_client_def err_bind_Inr)
  have c: "c \<in> set (attached db0 i)" using Cons.prems(3) by simp
  have "near {} (A - {pk c}) (L - {(pk c, i)}) db0 db2"
    using restore_flow_near [OF restore_auth_near [OF Cons.prems(1,2) c steps(1) Cons.prems(5)] Cons.prems(2) c steps(2)] .
  from Cons.IH [OF this Cons.prems(2) _ db2(2)] Cons.prems(3,5)
  have "near {} (A - {pk c} - pk ` set cs) (L - {(pk c, i)} - (\<lambda>c. (pk c, i)) ` set cs) db0 db'" by auto
  then show ?case by (rule near_mono) auto
qed simp

theorem restore_db_restores:
  assumes near: "near {pk row} A ((\<lambda>c. (pk c, pk row)) ` set cs) db0 db" and wf: "wf_db db0"
    and row: "find_inbound db0 (pk row) = Some row" and cs: "cs = attached db0 (pk row)"
    and A: "A \<subseteq> fst ` set updates" "A \<subseteq> pk ` set cs"
    and run: "restore_db row cs updates flow db = Inr db'"
  shows "db' = db0"
proof -
  from run obtain vs db1 where steps: "ditems row MUTATED_INBOUND_COLUMNS = Inr vs"
    "update_inbound row vs db = Inr db1" "each (restore_client updates (pk row) flow) cs db1 = Inr db'"
    by (auto simp: restore_db_def err_bind_Inr)
  have "near {} A ((\<lambda>c. (pk c, pk row)) ` set cs) db0 db1"
    by (rule restore_inbound [OF near wf row steps(1,2)])
  from restore_clients_near [OF this wf _ steps(3) A(1)] cs
  have "near {} (A - pk ` set cs) {} db0 db'" by simp
  moreover have "A - pk ` set cs = {}" using A(2) by auto
  ultimately show ?thesis using near_eq [OF _ wf] by simp
qed

text \<open>A database that matches the snapshot is the old one.\<close>

lemma matching_row:
  assumes near: "near {pk row} A L db0 db" and wf: "wf_db db0" and row: "find_inbound db0 (pk row) = Some row"
    and now: "find_inbound db (pk row) = Some r" "ditems r MUTATED_INBOUND_COLUMNS = Inr vs"
      "ditems row MUTATED_INBOUND_COLUMNS = Inr vs"
  shows "near {} A L db0 db"
proof -
  have row_in: "row \<in> set (db_inbounds db0)" and r: "r \<in> set (db_inbounds db)" "pk r = pk row"
    using row find_inbound_Some [OF wf near_refl] now(1) find_inbound_Some [OF wf near] by blast+
  have dist: "distinct (map pk (db_inbounds db))" "distinct (map pk (db_inbounds db0))"
    using wf near_pks(1) [OF near] by (simp_all add: wf_db_def)
  have same: "dget r k = dget row k" if "k \<in> set MUTATED_INBOUND_COLUMNS" for k
  proof -
    have "k \<in> fst ` set (zip MUTATED_INBOUND_COLUMNS vs)"
      using ditems_Inr [OF now(2)] that by (metis map_fst_zip list.set_map)
    then obtain v where "(k, v) \<in> set (zip MUTATED_INBOUND_COLUMNS vs)" by auto
    with ditems_Inr [OF now(2)] ditems_Inr [OF now(3)] show ?thesis by fastforce
  qed
  have "near {} A L db0 (db\<lparr>db_inbounds := map (\<lambda>x. x) (db_inbounds db)\<rparr>)"
  proof (rule near_set_inbounds [OF near], goal_cases)
    case (1 r0 x)
    show ?case
    proof (cases "pk r0 = pk row")
      case True
      then have "r0 = row" "x = r"
        using distinct_map_same [OF dist(2) 1(1) row_in] distinct_map_same [OF dist(1) 1(2) r(1)] 1(3) r(2)
        by simp_all
      with 1(4) same show ?thesis by (simp add: near_row_def) metis
    qed (use 1 in auto)
  qed
  then show ?thesis by simp
qed

lemma matching_clients:
  assumes "near {} A L db0 db" "wf_db db0" "set cs \<subseteq> set (attached db0 i)"
    "list_all (client_matches db i updates) cs" "A \<subseteq> fst ` set updates"
  shows "near {} (A - pk ` set cs) (L - (\<lambda>c. (pk c, i)) ` set cs) db0 db"
  using assms
proof (induction cs arbitrary: A L)
  case (Cons c cs)
  have c: "c \<in> set (attached db0 i)" using Cons.prems(3) by simp
  from Cons.prems(4) obtain r l where rl: "find_client db (pk c) = Some r" "find_link db (pk c) i = Some l"
    "l_flow l = dgetN c ''inbound_flow_override''"
    "pk c \<in> fst ` set updates \<longrightarrow> dgetN r ''auth'' = dget_or c ''auth'' (PStr [])"
    by (auto simp: client_matches_def split: option.splits)
  have "near {} (A - {pk c}) L db0 db"
  proof (cases "pk c \<in> A")
    case True
    with Cons.prems(5) rl(4) have "dgetN r ''auth'' = dget_or c ''auth'' (PStr [])" by auto
    with close_auth [OF Cons.prems(1,2) c rl(1)] show ?thesis by blast
  qed (use Cons.prems(1) in simp)
  from close_flow [OF this Cons.prems(2) c rl(2,3)]
  have "near {} (A - {pk c}) (L - {(pk c, i)}) db0 db" .
  from Cons.IH [OF this Cons.prems(2)] Cons.prems(3-5)
  have "near {} (A - {pk c} - pk ` set cs) (L - {(pk c, i)} - (\<lambda>c. (pk c, i)) ` set cs) db0 db" by auto
  then show ?case by (rule near_mono) auto
qed simp

theorem matching_is_old:
  assumes near: "near {pk row} A ((\<lambda>c. (pk c, pk row)) ` set cs) db0 db" and wf: "wf_db db0"
    and row: "find_inbound db0 (pk row) = Some row" and cs: "cs = attached db0 (pk row)"
    and A: "A \<subseteq> fst ` set updates" "A \<subseteq> pk ` set cs"
    and now: "find_inbound db (pk row) = Some r" "ditems r MUTATED_INBOUND_COLUMNS = Inr vs"
      "ditems row MUTATED_INBOUND_COLUMNS = Inr vs"
    and clients: "list_all (client_matches db (pk row) updates) cs"
  shows "db = db0"
proof -
  have "near {} A ((\<lambda>c. (pk c, pk row)) ` set cs) db0 db" by (rule matching_row [OF near wf row now])
  from matching_clients [OF this wf _ clients A(1)] cs
  have "near {} (A - pk ` set cs) {} db0 db" by simp
  moreover have "A - pk ` set cs = {}" using A(2) by auto
  ultimately show ?thesis using near_eq [OF _ wf] by simp
qed

end
