(* ===== verification/Txn_Protocol.thy ===== *)
theory Txn_Protocol
  imports Txn_Restore
begin

text \<open>
  The transaction itself: apply, renew, finalize, rollback and the recovery of operations that
  a crash left behind (\<open>ProtocolTransactionManager\<close>). The snapshot on disk names the phase:
  snapshot, runtime_remove_pending, runtime_add_pending, database_pending,
  database_committed, applied, then finalized, rolled_back or repair_required.
\<close>

section \<open>Results and markers\<close>

definition result :: "string \<Rightarrow> string \<Rightarrow> string \<Rightarrow> pydict" where
  "result i status code =
     [(''operationId'', PStr i), (''status'', PStr status), (''errorCode'', PStr code)]"

definition marker :: "string \<Rightarrow> string \<Rightarrow> pydict" where
  "marker i phase = [(''version'', PInt 1), (''operationId'', PStr i), (''phase'', PStr phase)]"

definition has_phase :: "pydict \<Rightarrow> string \<Rightarrow> bool" where
  "has_phase snap p = (dgetN snap ''phase'' = PStr p)"

section \<open>Rolling back a snapshot\<close>

definition rollback_runtime :: "'x outside \<Rightarrow> txconfig \<Rightarrow> string \<Rightarrow> pydict \<Rightarrow> pydict \<Rightarrow> ('x, unit) tx" where
  "rollback_runtime e c i req old =
     (let doc = PDict [(''inbounds'', PList [PDict old])] in
      tbind (write_temporary_json e c i ''rollback-inbound.json'') (\<lambda>p.
      tfinally
        (tbind (tlift (ditem req ''inboundTag'')) (\<lambda>tag.
         tbind (list_inbound_tags e c) (\<lambda>tags.
         tbind (if tag \<in> PStr ` set tags then remove_inbound e c (py_str tag) else tret ()) (\<lambda>_.
         add_inbound e c p doc))))
        (unlink_temporary e c i ''rollback-inbound.json'')))"

definition check_restored :: "'x outside \<Rightarrow> txconfig \<Rightarrow> pydict \<Rightarrow> pydict \<Rightarrow> ('x, unit) tx" where
  "check_restored e c snap req =
     tbind (list_inbound_tags e c) (\<lambda>tags.
     tbind (tlift (ditem req ''inboundTag'')) (\<lambda>tag.
     tbind (tguard (tag \<in> PStr ` set tags) ''rollback_verification_failed'') (\<lambda>_.
     tbind (tlift (snapshot_row snap)) (\<lambda>row.
     tbind (load_inbound_row e (pk row)) (\<lambda>current.
     tbind (tlift (ditems current MUTATED_INBOUND_COLUMNS)) (\<lambda>now.
     tbind (tlift (ditems row MUTATED_INBOUND_COLUMNS)) (\<lambda>saved.
     tguard (now = saved) ''rollback_verification_failed'')))))))"

definition rollback_steps ::
  "'x outside \<Rightarrow> txconfig \<Rightarrow> string \<Rightarrow> bool \<Rightarrow> pydict \<Rightarrow> pydict \<Rightarrow> pydict \<Rightarrow> ('x, unit) tx" where
  "rollback_steps e c i remove_on_success snap req old =
     tbind (validate_rollback_database_boundary e snap) (\<lambda>_.
     tbind (if has_phase snap ''snapshot'' then tret () else rollback_runtime e c i req old) (\<lambda>_.
     tbind (database_matches_snapshot e snap) (\<lambda>same.
     tbind (if same then tret () else restore_database e snap) (\<lambda>_.
     tbind (check_restored e c snap req) (\<lambda>_.
     if remove_on_success then remove_operation_dir e c i else tret ())))))"

definition rollback_snapshot :: "'x outside \<Rightarrow> txconfig \<Rightarrow> string \<Rightarrow> bool \<Rightarrow> ('x, unit) tx" where
  "rollback_snapshot e c i remove_on_success =
     tbind (read_snapshot e c i) (\<lambda>snap.
     case (dgetN snap ''request'', dgetN snap ''oldRuntimeInbound'') of
       (PDict req, PDict old) \<Rightarrow> rollback_steps e c i remove_on_success snap req old
     | _ \<Rightarrow> tfail ''snapshot_invalid'')"

section \<open>Applying\<close>

definition offline_phase :: "'x outside \<Rightarrow> txconfig \<Rightarrow> string \<Rightarrow> source \<Rightarrow> pydict \<Rightarrow> ('x, unit) tx" where
  "offline_phase e c i s t =
     tbind (tlift (full_test_config (s_runtime s) t)) (\<lambda>doc.
     tbind (write_temporary_json e c i ''offline-config.json'') (\<lambda>p.
     tfinally (tbind (fault e ''offline_test'') (\<lambda>_. offline_test e c p doc))
       (unlink_temporary e c i ''offline-config.json'')))"

definition runtime_phase :: "'x outside \<Rightarrow> txconfig \<Rightarrow> string \<Rightarrow> pydict \<Rightarrow> pydict \<Rightarrow> ('x, unit) tx" where
  "runtime_phase e c i t snap =
     (let doc = PDict [(''inbounds'', PList [PDict (runtime_inbound t)])] in
      tbind (write_temporary_json e c i ''desired-inbound.json'') (\<lambda>p.
      tfinally
        (tbind (save_snapshot e c i snap ''runtime_remove_pending'') (\<lambda>_.
         tbind (fault e ''runtime_remove'') (\<lambda>_.
         tbind (remove_inbound e c (py_str (dgetN t ''tag''))) (\<lambda>_.
         tbind (save_snapshot e c i snap ''runtime_add_pending'') (\<lambda>_.
         tbind (fault e ''runtime_add'') (\<lambda>_.
         add_inbound e c p doc))))))
        (unlink_temporary e c i ''desired-inbound.json'')))"

definition database_phase :: "'x outside \<Rightarrow> txconfig \<Rightarrow> string \<Rightarrow> source \<Rightarrow> pydict \<Rightarrow> pydict \<Rightarrow> ('x, unit) tx" where
  "database_phase e c i s t snap =
     tbind (save_snapshot e c i snap ''database_pending'') (\<lambda>_.
     tbind (fault e ''database'') (\<lambda>_.
     tbind (persist_template e s t) (\<lambda>_.
     tbind (save_snapshot e c i snap ''database_committed'') (\<lambda>_.
     tbind (fault e ''database_committed'') (\<lambda>_.
     tbind (fault e ''verify'') (\<lambda>_.
     tbind (verify_applied e c s t) (\<lambda>_.
     save_snapshot e c i snap ''applied'')))))))"

definition apply_phases :: "'x outside \<Rightarrow> txconfig \<Rightarrow> string \<Rightarrow> source \<Rightarrow> pydict \<Rightarrow> pydict \<Rightarrow> ('x, pydict) tx" where
  "apply_phases e c i s t snap =
     tbind (offline_phase e c i s t) (\<lambda>_.
     tbind (runtime_phase e c i t snap) (\<lambda>_.
     tbind (database_phase e c i s t snap) (\<lambda>_.
     tret (result i ''applied'' []))))"

fun original_error :: "txexc \<Rightarrow> txexc" where
  "original_error (TxError code) = TxError code"
| "original_error ex = TxError ''transaction_failed''"

definition mark_repair :: "'x outside \<Rightarrow> txconfig \<Rightarrow> string \<Rightarrow> ('x, unit) tx" where
  "mark_repair e c i =
     tcatch (tbind (read_snapshot e c i) (\<lambda>persisted. save_snapshot e c i persisted ''repair_required''))
       (\<lambda>_. tret ())"

definition apply_failed :: "'x outside \<Rightarrow> txconfig \<Rightarrow> string \<Rightarrow> txexc \<Rightarrow> ('x, pydict) tx" where
  "apply_failed e c i ex =
     (if ex = SimulatedCrash then traise ex
      else tbind (tcatch (rollback_snapshot e c i True)
          (\<lambda>_. tbind (mark_repair e c i) (\<lambda>_. tfail ''rollback_failed''))) (\<lambda>_.
        traise (original_error ex)))"

definition apply_fresh :: "'x outside \<Rightarrow> txconfig \<Rightarrow> string \<Rightarrow> pydict \<Rightarrow> ('x, pydict) tx" where
  "apply_fresh e c i req =
     tbind (make_operation_dir e c i) (\<lambda>_.
     tbind (load_target e c req) (\<lambda>s.
     tbind (build_template e c s (req_str req ''newMode'')) (\<lambda>t.
     tbind (new_snapshot e c s t) (\<lambda>snap.
     tbind (save_snapshot e c i snap ''snapshot'') (\<lambda>_.
     tbind (fault e ''snapshot'') (\<lambda>_.
     tcatch (apply_phases e c i s t snap) (apply_failed e c i)))))))"

definition apply_request :: "'x outside \<Rightarrow> txconfig \<Rightarrow> pyval \<Rightarrow> ('x, pydict) tx" where
  "apply_request e c v =
     tbind (validate_request e c v) (\<lambda>req.
     let i = req_str req ''operationId'' in
     tbind (snapshot_path c i) (\<lambda>_.
     tbind (tget (\<lambda>w. snap_of w i)) (\<lambda>f.
     if f \<noteq> NoFile then
       tbind (read_snapshot e c i) (\<lambda>existing.
       if py_eq (dgetN existing ''request'') (PDict req) \<and> has_phase existing ''applied''
       then tret (result i ''applied'' []) else tfail ''operation_conflict'')
     else apply_fresh e c i req)))"

section \<open>Renewing, finalizing, rolling back\<close>

definition finalize :: "'x outside \<Rightarrow> txconfig \<Rightarrow> string \<Rightarrow> ('x, pydict) tx" where
  "finalize e c i =
     tbind (snapshot_path c i) (\<lambda>_.
     tbind (read_snapshot e c i) (\<lambda>snap.
     if py_eq (PDict snap) (PDict (marker i ''finalized'')) then tret (result i ''finalized'' [])
     else tbind (tguard (has_phase snap ''applied'') ''operation_not_applied'') (\<lambda>_.
       tbind (write_snapshot e c i (marker i ''finalized'')) (\<lambda>_.
       tret (result i ''finalized'' [])))))"

definition renew :: "'x outside \<Rightarrow> txconfig \<Rightarrow> string \<Rightarrow> ('x, pydict) tx" where
  "renew e c i =
     tbind (snapshot_path c i) (\<lambda>_.
     tbind (read_snapshot e c i) (\<lambda>snap.
     tbind (tguard (has_phase snap ''applied'') ''operation_not_applied'') (\<lambda>_.
     tbind (ask (x_now e)) (\<lambda>now.
     tbind (write_snapshot e c i (dset snap ''leaseUpdatedAt'' (PInt now))) (\<lambda>_.
     tret (result i ''renewed'' []))))))"

definition rollback :: "'x outside \<Rightarrow> txconfig \<Rightarrow> string \<Rightarrow> ('x, pydict) tx" where
  "rollback e c i =
     tbind (snapshot_path c i) (\<lambda>p.
     tbind (tget (\<lambda>w. snap_of w i)) (\<lambda>f.
     tbind (tguard (f \<noteq> NoFile) ''operation_not_applied'') (\<lambda>_.
     tbind (fs_must e (Lstat p) ''unsafe_path'') (\<lambda>_.
     tbind (read_snapshot e c i) (\<lambda>snap.
     if py_eq (PDict snap) (PDict (marker i ''rolled_back'')) then tret (result i ''rolled_back'' [])
     else if py_eq (PDict snap) (PDict (marker i ''finalized''))
     then tret (result i ''failed'' ''operation_finalized'')
     else tbind (rollback_snapshot e c i False) (\<lambda>_.
       tbind (write_snapshot e c i (marker i ''rolled_back'')) (\<lambda>_.
       tret (result i ''rolled_back'' []))))))))"

section \<open>Recovery\<close>

definition fs_test :: "'x outside \<Rightarrow> fsq \<Rightarrow> ('x, bool) tx" where
  "fs_test e q = tbind (ask (x_fs e q)) (\<lambda>r.
     case r of None \<Rightarrow> traise (PyError OSError) | Some b \<Rightarrow> tret b)"

definition lease_times :: "pydict \<Rightarrow> int list" where
  "lease_times snap = concat (map (\<lambda>k. case dgetN snap k of PInt n \<Rightarrow> [n] | _ \<Rightarrow> [])
     [''createdAt'', ''leaseUpdatedAt''])"

definition lease_held :: "'x outside \<Rightarrow> int \<Rightarrow> pydict \<Rightarrow> ('x, bool) tx" where
  "lease_held e age snap =
     (if age = 0 \<or> lease_times snap = [] then tret False
      else tbind (ask (x_now e)) (\<lambda>now. tret (now - Max (set (lease_times snap)) < age)))"

definition recover_one :: "'x outside \<Rightarrow> txconfig \<Rightarrow> string \<Rightarrow> pydict \<Rightarrow> ('x, pydict list) tx" where
  "recover_one e c i snap =
     tcatch (tbind (rollback_snapshot e c i True) (\<lambda>_. tret [result i ''rolled_back'' []]))
       (\<lambda>_. tbind (save_snapshot e c i snap ''repair_required'') (\<lambda>_.
         tret [result i ''repair_required'' ''rollback_failed'']))"

definition recover_phase :: "'x outside \<Rightarrow> txconfig \<Rightarrow> int \<Rightarrow> string \<Rightarrow> pydict \<Rightarrow> ('x, pydict list) tx" where
  "recover_phase e c age i snap =
     tbind (tlift (in_set (dgetN snap ''phase'') (map PStr [''finalized'', ''repair_required'', ''rolled_back''])))
       (\<lambda>terminal.
     if terminal then tret []
     else tbind (lease_held e age snap) (\<lambda>held.
       if held then tret [] else recover_one e c i snap))"

definition recover_file :: "'x outside \<Rightarrow> txconfig \<Rightarrow> int \<Rightarrow> string \<Rightarrow> ('x, pydict list) tx" where
  "recover_file e c age i =
     tbind (fs_test e (IsSymlink (cfg_snapshots c @ [i, ''snapshot.json'']))) (\<lambda>link.
     if link then tret [] else tbind (read_snapshot e c i) (recover_phase e c age i))"

definition recover_dir :: "'x outside \<Rightarrow> txconfig \<Rightarrow> int \<Rightarrow> string \<Rightarrow> ('x, pydict list) tx" where
  "recover_dir e c age i =
     tbind (fs_test e (IsSymlink (cfg_snapshots c @ [i]))) (\<lambda>link.
     tbind (fs_test e (IsDir (cfg_snapshots c @ [i]))) (\<lambda>dir.
     if link \<or> \<not> dir \<or> \<not> safe_operation_id i then tret []
     else tbind (tget (\<lambda>w. snap_of w i)) (\<lambda>f.
       if f = NoFile then tret [] else recover_file e c age i)))"

fun recover_dirs :: "'x outside \<Rightarrow> txconfig \<Rightarrow> int \<Rightarrow> string list \<Rightarrow> ('x, pydict list) tx" where
  "recover_dirs e c age [] = tret []"
| "recover_dirs e c age (i # is) =
     tbind (recover_dir e c age i) (\<lambda>r. tbind (recover_dirs e c age is) (\<lambda>rs. tret (r @ rs)))"

definition recover_pending :: "'x outside \<Rightarrow> txconfig \<Rightarrow> int \<Rightarrow> ('x, pydict list) tx" where
  "recover_pending e c age =
     tbind (validate_config_paths e c) (\<lambda>_.
     tbind (tguard (0 \<le> age \<and> age \<le> 3600) ''invalid_request'') (\<lambda>_.
     tbind (tget (\<lambda>w. sorted_set (map fst (w_dirs w)))) (\<lambda>names.
     recover_dirs e c age names)))"

end
