(* ===== verification/Txn_Safety.thy ===== *)
theory Txn_Safety
  imports Txn_Protocol
begin

text \<open>
  A rollback that succeeds brings the old database back, whatever the transaction had done
  before it was interrupted: the invariant of an operation in flight, that every step keeps it,
  and what an apply and a rollback leave behind.
\<close>

section \<open>The operation in flight\<close>

text \<open>The source of an operation is the row and the clients of the database it started from.\<close>

definition good_source :: "panel_db \<Rightarrow> source \<Rightarrow> bool" where
  "good_source db0 s = (find_inbound db0 (pk (s_row s)) = Some (s_row s)
     \<and> s_clients s = attached db0 (pk (s_row s)))"

definition snap_for :: "source \<Rightarrow> pydict \<Rightarrow> pydict \<Rightarrow> bool" where
  "snap_for s t d = (dget d ''row'' = Some (PDict (s_row s))
     \<and> dgetN d ''clients'' = PList (map PDict (s_clients s))
     \<and> dgetN d ''desiredTemplate'' = PDict t)"

definition in_flight :: "panel_db \<Rightarrow> source \<Rightarrow> pydict \<Rightarrow> string \<Rightarrow> 'x world \<Rightarrow> bool" where
  "in_flight db0 s t i w = (near_source s t db0 (w_db w) \<and> (\<forall>d. snap_of w i = Doc d \<longrightarrow> snap_for s t d))"

lemma in_flight_blind [simp]: "blind (in_flight db0 s t i)"
  by (auto intro: blindI simp: in_flight_def)

lemma in_flight_simps [simp]:
  "in_flight db0 s t i (put_temps j ts w) = in_flight db0 s t i w"
  "in_flight db0 s t i w \<Longrightarrow> in_flight db0 s t i (drop_dir i w)"
  "in_flight db0 s t i w \<Longrightarrow> in_flight db0 s t i (put_snap i NoFile w)"
  "in_flight db0 s t i w \<Longrightarrow> snap_for s t d \<Longrightarrow> in_flight db0 s t i (put_snap i (Doc d) w)"
  by (simp_all add: in_flight_def)

lemma snap_for_dset [simp]:
  "k \<notin> {''row'', ''clients'', ''desiredTemplate''} \<Longrightarrow> snap_for s t (dset d k v) = snap_for s t d"
  by (auto simp: snap_for_def)

lemma blind_snap [blind_intros]: "blind (\<lambda>w. C (snap_of w i))"
  by (simp add: blind_def)

section \<open>Reading the snapshot back\<close>

lemma snapshot_client_list_map: "snapshot_client_list (map PDict cs) = Inr xs \<Longrightarrow> xs = cs"
  by (induction cs arbitrary: xs)
    (auto simp: err_bind_Inr snapshot_client_def split: pyval.splits)

lemma validated_clients_back:
  assumes "snap_for s t d" "validated_snapshot_clients d = Inr cs"
  shows "cs = s_clients s"
proof -
  have "snapshot_client_list (map PDict (s_clients s)) = Inr cs"
    using assms by (cases "s_clients s")
      (auto simp: validated_snapshot_clients_def snap_for_def simp del: snapshot_client_list.simps)
  then show ?thesis by (rule snapshot_client_list_map)
qed

lemma snapshot_row_back: "snap_for s t d \<Longrightarrow> snapshot_row d = Inr (s_row s)"
  by (simp add: snap_for_def snapshot_row_def ditem_def)

lemma auth_update_list_keys:
  "auth_update_list ids d = Inr u \<Longrightarrow>
   fst ` set u \<subseteq> ids \<and> {i. \<exists>k v. (k, v) \<in> set d \<and> int_of_str k = Some i} \<subseteq> fst ` set u"
proof (induction ids d arbitrary: u rule: auth_update_list.induct)
  case (2 ids k v d)
  then obtain i sv where i: "int_of_str k = Some i" "v = PStr sv"
    by (cases "int_of_str k"; cases v) auto
  with 2(2) have mem: "i \<in> ids" by (auto split: if_splits)
  with 2(2) i obtain u' where u': "auth_update_list ids d = Inr u'"
    by (cases "auth_update_list ids d") auto
  have "u = (if i \<in> fst ` set u' then u' else (i, sv) # u')" using 2(2) i mem u' by simp
  then have U: "fst ` set u = insert i (fst ` set u')" by auto
  have K: "{j. \<exists>k' v'. (k', v') \<in> set ((k, v) # d) \<and> int_of_str k' = Some j}
      \<subseteq> insert i {j. \<exists>k' v'. (k', v') \<in> set d \<and> int_of_str k' = Some j}"
    using i(1) by auto
  have "fst ` set u' \<subseteq> ids \<and> {j. \<exists>k' v'. (k', v') \<in> set d \<and> int_of_str k' = Some j} \<subseteq> fst ` set u'"
    using 2(1) [of "int_of_str k" v i sv u'] i mem u' by simp
  then show ?case
    unfolding U using mem by (intro conjI insert_subsetI subset_trans [OF K] insert_mono) simp_all
qed simp

lemma auth_updates_back:
  assumes "snap_for s t d" "snapshot_auth_updates d cs = Inr u"
  shows "auth_ids t \<subseteq> fst ` set u" "auth_ids t \<subseteq> pk ` set cs"
proof -
  have "auth_update_list (set (map pk cs)) (auth_items t) = Inr u"
    using assms
    by (auto simp: snapshot_auth_updates_def snapshot_template_def snap_for_def auth_items_def split: pyval.splits)
  from auth_update_list_keys [OF this]
  have "fst ` set u \<subseteq> pk ` set cs" "auth_ids t \<subseteq> fst ` set u" by (simp_all add: auth_ids_def)
  then show "auth_ids t \<subseteq> fst ` set u" "auth_ids t \<subseteq> pk ` set cs" by auto
qed

section \<open>The two ways back\<close>

lemma flow_cells_eq: "flow_cells s = (\<lambda>c. (pk c, pk (s_row s))) ` set (s_clients s)"
  by (simp add: flow_cells_def)

lemma load_inbound_triple:
  assumes "blind I"
  shows "triple I (load_inbound_row e j) (\<lambda>r w. I w \<and> find_inbound (w_db w) j = Some r) (\<lambda>_. I)"
  unfolding load_inbound_row_def connect_def
  by (intro triple_keep_bind keeps_intros assms triple_bind_get)
    (auto simp: triple_def tret_def tfail_def traise_def split: option.splits)

lemma keeps_load_inbound [keeps_intros]: "blind I \<Longrightarrow> keeps I (load_inbound_row e j)"
  unfolding keeps_triple by (rule triple_conseq [OF load_inbound_triple]) auto

lemma matches_triple:
  fixes e :: "'x outside"
  assumes good: "good_source db0 s" and wf: "wf_db db0" and d: "snap_for s t d"
  shows "triple (in_flight db0 s t i) (database_matches_snapshot e d)
    (\<lambda>same w. in_flight db0 s t i w \<and> (same \<longrightarrow> w_db w = db0)) (\<lambda>_. in_flight db0 s t i)"
  unfolding database_matches_snapshot_def snapshot_row_back [OF d]
proof (rule triple_bind_lift, goal_cases)
  case (1 row)
  then have row: "row = s_row s" by simp
  show ?case
  proof (rule triple_bind_lift, goal_cases)
    case (1 cs)
    with d have cs: "cs = s_clients s" by (rule validated_clients_back)
    show ?case
    proof (rule triple_bind_lift, goal_cases)
      case (1 u)
      note u = auth_updates_back [OF d 1]
      show ?case
      proof (rule triple_bind [OF load_inbound_triple], simp, rule triple_bind_lift, goal_cases)
        case (1 r now)
        note now = 1
        show ?case
        proof (rule triple_bind_lift, goal_cases)
          case (1 saved)
          have old: "w_db w = db0" if "in_flight db0 s t i w" "find_inbound (w_db w) (pk (s_row s)) = Some r"
            "now = saved" "list_all (client_matches (w_db w) (pk (s_row s)) u) (s_clients s)" for w :: "'x world"
          proof (rule matching_is_old [OF _ wf])
            show "near {pk (s_row s)} (auth_ids t) ((\<lambda>c. (pk c, pk (s_row s))) ` set (s_clients s)) db0 (w_db w)"
              using that(1) by (simp add: in_flight_def flow_cells_eq)
          qed (use good u cs that now 1 row in \<open>auto simp: good_source_def\<close>)
          have get: "triple (\<lambda>w :: 'x world. in_flight db0 s t i w \<and> find_inbound (w_db w) (pk (s_row s)) = Some r)
              (tget (\<lambda>w. linked_ids (w_db w) (pk row) = map pk cs \<and> list_all (client_matches (w_db w) (pk row) u) cs))
              (\<lambda>same w. in_flight db0 s t i w \<and> (same \<longrightarrow> w_db w = db0)) (\<lambda>_. in_flight db0 s t i)"
            if "now = saved"
            unfolding triple_def tget_def row cs using that by (auto intro: old)
          show ?case
            unfolding connect_def row
            by (intro triple_if triple_ret triple_keep_bind keeps_intros blind_intros in_flight_blind)
              (auto intro: get [unfolded row])
        qed auto
      qed auto
    qed auto
  qed auto
qed auto

lemma transaction_triple:
  assumes "blind I" "\<And>w db'. I w \<Longrightarrow> f (w_db w) = Inr db' \<Longrightarrow> Q () (w\<lparr>w_db := db'\<rparr>)"
    "\<And>x w. Q () (w\<lparr>w_x := x\<rparr>) = Q () w"
  shows "triple I (transaction e q code f) Q (\<lambda>_. I)"
  unfolding transaction_def connect_def
proof (rule triple_keep_bind [OF keeps_commands(6) [OF assms(1)]], rule triple_bind_get, goal_cases)
  case (1 _ db)
  show ?case
  proof (rule triple_bind_lift, goal_cases)
    case (1 db')
    have "triple (\<lambda>w. I w \<and> w_db w = db) (tput (\<lambda>w. w\<lparr>w_db := db'\<rparr>)) Q (\<lambda>_. I)"
      using assms(2) 1 by (auto simp: triple_def tput_def)
    then show ?case
      by (intro triple_keep_bind keeps_intros blind_intros assms(1)) auto
  qed auto
qed auto

lemma restore_triple:
  assumes good: "good_source db0 s" and wf: "wf_db db0" and d: "snap_for s t d"
  shows "triple (in_flight db0 s t i) (restore_database e d)
    (\<lambda>_ w. in_flight db0 s t i w \<and> w_db w = db0) (\<lambda>_. in_flight db0 s t i)"
  unfolding restore_database_def snapshot_row_back [OF d]
proof (rule triple_bind_lift, goal_cases)
  case (1 row)
  then have row: "row = s_row s" by simp
  show ?case
  proof (rule triple_bind_lift, goal_cases)
    case (1 cs)
    with d have cs: "cs = s_clients s" by (rule validated_clients_back)
    show ?case
    proof (rule triple_bind_lift, goal_cases)
      case (1 flow)
      show ?case
      proof (rule triple_bind_lift, goal_cases)
        case (1 u)
        note u = auth_updates_back [OF d 1]
        show ?case
        proof (rule transaction_triple, simp, goal_cases)
          case (1 w db')
          have "db' = db0"
          proof (rule restore_db_restores [OF _ wf _ _ u])
            show "near {pk row} (auth_ids t) ((\<lambda>c. (pk c, pk row)) ` set cs) db0 (w_db w)"
              using 1(1) by (simp add: in_flight_def flow_cells_eq row cs)
          qed (use good row cs 1(2) in \<open>auto simp: good_source_def\<close>)
          with 1(1) show ?case by (auto simp: in_flight_def snap_of_def near_refl)
        qed (auto simp: in_flight_def)
      qed auto
    qed auto
  qed auto
qed auto

section \<open>The rollback\<close>

lemma keeps_rollback_runtime [keeps_intros]:
  "blind I \<Longrightarrow> (\<And>w ts. I w \<Longrightarrow> I (put_temps i ts w)) \<Longrightarrow> keeps I (rollback_runtime e c i req old)"
  unfolding rollback_runtime_def Let_def by (auto intro!: keeps_intros)

lemma keeps_check_restored [keeps_intros]: "blind I \<Longrightarrow> keeps I (check_restored e c snap req)"
  unfolding check_restored_def by (auto intro!: keeps_intros)

lemma keeps_pyval [keeps_intros]:
  "(\<And>d. v = PDict d \<Longrightarrow> keeps I (f d)) \<Longrightarrow> (\<And>v. keeps I (g v)) \<Longrightarrow>
   keeps I (case v of PDict d \<Rightarrow> f d | _ \<Rightarrow> g v)"
  by (cases v) auto

lemma keeps_boundary [keeps_intros]: "blind I \<Longrightarrow> keeps I (validate_rollback_database_boundary e snap)"
  unfolding validate_rollback_database_boundary_def connect_def
  by (cases "dgetN snap ''row''") (auto intro!: keeps_intros)

lemma read_snapshot_triple:
  assumes "blind I"
  shows "triple I (read_snapshot e c i) (\<lambda>d w. I w \<and> snap_of w i = Doc d) (\<lambda>_. I)"
  unfolding read_snapshot_def Let_def
proof (rule triple_keep_bind [OF keeps_regular [OF assms]], rule triple_bind_get, rule triple_bind_guard, goal_cases)
  case (1 _ f)
  have "triple (\<lambda>w. I w \<and> snap_of w i = f)
      (case f of NoFile \<Rightarrow> tfail ''unsafe_path'' | Doc d \<Rightarrow> tret d | Unreadable \<Rightarrow> tfail ''snapshot_invalid'')
      (\<lambda>d w. I w \<and> snap_of w i = Doc d) (\<lambda>_. I)"
    by (cases f) (auto intro: triple_ret triple_fail)
  then show ?case
    by (intro triple_keep_bind keeps_intros blind_intros assms) auto
qed auto

lemma rollback_steps_triple:
  assumes good: "good_source db0 s" and wf: "wf_db db0" and d: "snap_for s t d"
  shows "triple (in_flight db0 s t i) (rollback_steps e c i b d req old)
    (\<lambda>_ w. w_db w = db0 \<and> in_flight db0 s t i w) (\<lambda>_. in_flight db0 s t i)"
proof -
  let ?I = "in_flight db0 s t i"
  have finish: "triple (\<lambda>w. ?I w \<and> w_db w = db0)
      (tbind (check_restored e c d req) (\<lambda>_. if b then remove_operation_dir e c i else tret ()))
      (\<lambda>_ w. w_db w = db0 \<and> ?I w) (\<lambda>_. ?I)"
    by (rule triple_keeps [where I = "\<lambda>w. ?I w \<and> w_db w = db0"])
      (auto intro!: keeps_intros blind_intros in_flight_blind)
  have undo: "triple (\<lambda>w. ?I w \<and> (same \<longrightarrow> w_db w = db0))
      (if same then tret () else restore_database e d) (\<lambda>_ w. ?I w \<and> w_db w = db0) (\<lambda>_. ?I)" for same
    using restore_triple [OF good wf d, of i e] by (cases same) (auto intro: triple_ret)
  have rest: "triple ?I (tbind (database_matches_snapshot e d) (\<lambda>same.
      tbind (if same then tret () else restore_database e d) (\<lambda>_.
      tbind (check_restored e c d req) (\<lambda>_. if b then remove_operation_dir e c i else tret ()))))
      (\<lambda>_ w. w_db w = db0 \<and> ?I w) (\<lambda>_. ?I)"
    by (rule triple_bind [OF matches_triple [OF good wf d]], rule triple_bind [OF undo], rule finish)
  have runtime: "keeps ?I (if has_phase d ''snapshot'' then tret () else rollback_runtime e c i req old)"
    by (auto intro!: keeps_intros)
  show ?thesis
    unfolding rollback_steps_def
    by (rule triple_keep_bind [OF keeps_boundary [OF in_flight_blind] triple_keep_bind [OF runtime rest]])
qed

lemma rollback_snapshot_triple:
  assumes good: "good_source db0 s" and wf: "wf_db db0"
  shows "triple (in_flight db0 s t i) (rollback_snapshot e c i b)
    (\<lambda>_ w. w_db w = db0 \<and> in_flight db0 s t i w) (\<lambda>_. in_flight db0 s t i)"
  unfolding rollback_snapshot_def
proof (rule triple_bind [OF read_snapshot_triple [OF in_flight_blind]], rule triple_pure)
  fix d
  assume d: "snap_for s t d"
  have "triple (in_flight db0 s t i)
      (case (dgetN d ''request'', dgetN d ''oldRuntimeInbound'') of
         (PDict req, PDict old) \<Rightarrow> rollback_steps e c i b d req old | _ \<Rightarrow> tfail ''snapshot_invalid'')
      (\<lambda>_ w. w_db w = db0 \<and> in_flight db0 s t i w) (\<lambda>_. in_flight db0 s t i)"
    using rollback_steps_triple [OF good wf d, of i e c b] by (simp add: triple_fail split: pyval.splits)
  then show "triple (\<lambda>w. in_flight db0 s t i w \<and> snap_of w i = Doc d)
      (case (dgetN d ''request'', dgetN d ''oldRuntimeInbound'') of
         (PDict req, PDict old) \<Rightarrow> rollback_steps e c i b d req old | _ \<Rightarrow> tfail ''snapshot_invalid'')
      (\<lambda>_ w. w_db w = db0 \<and> in_flight db0 s t i w) (\<lambda>_. in_flight db0 s t i)"
    by (rule triple_pre) simp
qed (simp add: in_flight_def)

section \<open>The apply\<close>

text \<open>Nothing but \<open>persist_template\<close> and \<open>restore_database\<close> writes into the database, so the
  steps before the snapshot keep it, and so does everything about directories.\<close>

lemma keeps_load_runtime [keeps_intros]: "blind I \<Longrightarrow> keeps I (load_runtime_config e)"
  unfolding load_runtime_config_def connect_def
  by (auto intro!: keeps_intros split: option.splits pyval.splits)

lemma keeps_load_clients [keeps_intros]: "blind I \<Longrightarrow> keeps I (load_attached_clients e j)"
  unfolding load_attached_clients_def connect_def by (auto intro!: keeps_intros)

lemma keeps_profile [keeps_intros]:
  "blind I \<Longrightarrow> (\<And>w ps. I w \<Longrightarrow> I (w\<lparr>w_profiles := ps\<rparr>)) \<Longrightarrow> keeps I (load_or_capture_profile e c egress row mode)"
  unfolding load_or_capture_profile_def read_profile_def profile_path_def Let_def
  by (auto intro!: keeps_intros split: pyval.splits)

lemma keeps_hysteria [keeps_intros]: "blind I \<Longrightarrow> keeps I (hysteria_clients e rs)"
  by (induction rs) (auto intro!: keeps_intros simp: client_auth_def Let_def)

lemma keeps_build [keeps_intros]: "blind I \<Longrightarrow> keeps I (build_template e c s mode)"
  unfolding build_template_def hysteria_template_def by (auto intro!: keeps_intros)

lemma keeps_new_snapshot [keeps_intros]: "blind I \<Longrightarrow> keeps I (new_snapshot e c s t)"
  unfolding new_snapshot_def runtime_from_source_def by (auto intro!: keeps_intros)

lemma keeps_config_paths [keeps_intros]: "blind I \<Longrightarrow> keeps I (validate_config_paths e c)"
  unfolding validate_config_paths_def Let_def by (auto intro!: keeps_intros)

lemma load_clients_triple:
  assumes "blind I"
  shows "triple I (load_attached_clients e j) (\<lambda>cs w. I w \<and> cs = attached (w_db w) j) (\<lambda>_. I)"
  unfolding load_attached_clients_def connect_def
  by (intro triple_keep_bind keeps_intros assms) (auto simp: triple_def tget_def)

lemma find_inbound_pk: "find_inbound db j = Some r \<Longrightarrow> pk r = j"
  unfolding find_inbound_def by (metis (mono_tags, lifting) find_Some_iff)

lemma load_target_triple:
  assumes I: "blind I" "\<And>w ps. I w \<Longrightarrow> I (w\<lparr>w_profiles := ps\<rparr>)"
  shows "triple (\<lambda>w. w_db w = db0 \<and> I w) (load_target e c req)
    (\<lambda>s w. good_source db0 s \<and> w_db w = db0 \<and> I w) (\<lambda>_ w. w_db w = db0 \<and> I w)"
proof -
  let ?K = "\<lambda>w. w_db w = db0 \<and> I w"
  have K: "blind ?K" by (intro blind_intros I)
  have prof: "triple ?K (tbind (load_or_capture_profile e c eg row mode) (\<lambda>profile.
       tret \<lparr>s_request = req, s_row = row, s_clients = cs, s_runtime = rt, s_profile = profile\<rparr>))
     (\<lambda>s w. good_source db0 s \<and> ?K w) (\<lambda>_. ?K)"
    if "find_inbound db0 j = Some row" "cs = attached db0 j" for eg row mode cs rt j
    by (rule triple_keep_bind [OF keeps_profile [OF K]])
      (use that find_inbound_pk [OF that(1)] I(2) in \<open>auto simp: good_source_def intro!: triple_ret\<close>)
  show ?thesis
    unfolding load_target_def
  proof (rule triple_keep_bind [OF keeps_load_runtime [OF K]], rule triple_bind [OF load_inbound_triple [OF K]])
    fix rt row
    let ?j = "req_int req ''inboundId''"
    show "triple (\<lambda>w. ?K w \<and> find_inbound (w_db w) ?j = Some row)
      (tbind (tlift (validate_ownership c req row rt)) (\<lambda>_.
       tbind (load_attached_clients e ?j) (\<lambda>clients.
       tbind (tguard (clients \<noteq> []) ''managed_resource_missing'') (\<lambda>_.
       tbind (tlift (mode_for_row row)) (\<lambda>mode.
       tbind (tguard (PStr mode = dgetN req ''oldMode'') ''expected_state_mismatch'') (\<lambda>_.
       tbind (load_or_capture_profile e c (req_str req ''egressId'') row mode) (\<lambda>profile.
       tret \<lparr>s_request = req, s_row = row, s_clients = clients, s_runtime = rt, s_profile = profile\<rparr>)))))))
      (\<lambda>s w. good_source db0 s \<and> ?K w) (\<lambda>_. ?K)"
    proof (rule triple_pure)
      assume row: "find_inbound db0 ?j = Some row"
      have rest: "triple (\<lambda>w. ?K w \<and> cs = attached (w_db w) ?j)
       (tbind (tguard (cs \<noteq> []) ''managed_resource_missing'') (\<lambda>_.
       tbind (tlift (mode_for_row row)) (\<lambda>mode.
       tbind (tguard (PStr mode = dgetN req ''oldMode'') ''expected_state_mismatch'') (\<lambda>_.
       tbind (load_or_capture_profile e c (req_str req ''egressId'') row mode) (\<lambda>profile.
       tret \<lparr>s_request = req, s_row = row, s_clients = cs, s_runtime = rt, s_profile = profile\<rparr>)))))
       (\<lambda>s w. good_source db0 s \<and> ?K w) (\<lambda>_. ?K)" for cs
      proof (rule triple_pure)
        assume cs: "cs = attached db0 ?j"
        show "triple (\<lambda>w. ?K w \<and> cs = attached (w_db w) ?j)
       (tbind (tguard (cs \<noteq> []) ''managed_resource_missing'') (\<lambda>_.
       tbind (tlift (mode_for_row row)) (\<lambda>mode.
       tbind (tguard (PStr mode = dgetN req ''oldMode'') ''expected_state_mismatch'') (\<lambda>_.
       tbind (load_or_capture_profile e c (req_str req ''egressId'') row mode) (\<lambda>profile.
       tret \<lparr>s_request = req, s_row = row, s_clients = cs, s_runtime = rt, s_profile = profile\<rparr>)))))
       (\<lambda>s w. good_source db0 s \<and> ?K w) (\<lambda>_. ?K)"
          by (rule triple_pre [where P = ?K], intro triple_bind_guard triple_bind_lift prof [OF row cs]) auto
      qed auto
      show "triple (\<lambda>w. ?K w \<and> find_inbound (w_db w) ?j = Some row)
      (tbind (tlift (validate_ownership c req row rt)) (\<lambda>_.
       tbind (load_attached_clients e ?j) (\<lambda>clients.
       tbind (tguard (clients \<noteq> []) ''managed_resource_missing'') (\<lambda>_.
       tbind (tlift (mode_for_row row)) (\<lambda>mode.
       tbind (tguard (PStr mode = dgetN req ''oldMode'') ''expected_state_mismatch'') (\<lambda>_.
       tbind (load_or_capture_profile e c (req_str req ''egressId'') row mode) (\<lambda>profile.
       tret \<lparr>s_request = req, s_row = row, s_clients = clients, s_runtime = rt, s_profile = profile\<rparr>)))))))
      (\<lambda>s w. good_source db0 s \<and> ?K w) (\<lambda>_. ?K)"
        by (rule triple_pre [where P = ?K], rule triple_bind_lift,
            rule triple_bind [OF load_clients_triple [OF K] rest]) auto
    qed auto
  qed auto
qed

lemma new_snapshot_for: "triple P (new_snapshot e c s t) (\<lambda>d _. snap_for s t d) (\<lambda>_ _. True)"
  unfolding new_snapshot_def
  by (rule triple_bind [where R = "\<lambda>_ _. True"], simp add: triple_def split: prod.splits sum.splits,
      rule triple_bind [where R = "\<lambda>_ _. True"], simp add: triple_def split: prod.splits sum.splits)
    (auto simp: snap_for_def intro!: triple_ret)

lemma keeps_save [keeps_intros]:
  "blind I \<Longrightarrow> (\<And>w p. I w \<Longrightarrow> I (put_snap i (Doc (dset snap ''phase'' p)) w)) \<Longrightarrow> keeps I (save_snapshot e c i snap ph)"
  unfolding save_snapshot_def by (auto intro!: keeps_intros)

lemma keeps_verify [keeps_intros]: "blind I \<Longrightarrow> keeps I (verify_applied e c s t)"
  unfolding verify_applied_def connect_def by (auto intro!: keeps_intros)

lemma keeps_persist:
  assumes "wf_db db0"
  shows "keeps (in_flight db0 s t i) (persist_template e s t)"
proof -
  have "triple (in_flight db0 s t i) (persist_template e s t) (\<lambda>_. in_flight db0 s t i) (\<lambda>_. in_flight db0 s t i)"
    unfolding persist_template_def
  proof (rule transaction_triple, simp, goal_cases)
    case (1 w db')
    with near_persist [OF _ assms 1(2)] show ?case by (simp add: in_flight_def snap_of_def)
  qed (simp add: in_flight_def)
  then show ?thesis by (simp add: keeps_triple)
qed

lemma keeps_apply_phases:
  assumes "wf_db db0" "snap_for s t snap"
  shows "keeps (in_flight db0 s t i) (apply_phases e c i s t snap)"
  unfolding apply_phases_def offline_phase_def runtime_phase_def database_phase_def Let_def
  using assms by (auto intro!: keeps_intros keeps_persist)

lemma keeps_rollback_flight:
  assumes "good_source db0 s" "wf_db db0"
  shows "keeps (in_flight db0 s t i) (rollback_snapshot e c i b)"
  unfolding keeps_triple by (rule triple_conseq [OF rollback_snapshot_triple [OF assms]]) auto

lemma mark_repair_triple:
  "triple (in_flight db0 s t i) (mark_repair e c i) (\<lambda>_. in_flight db0 s t i) (\<lambda>_ _. False)"
proof -
  have save: "triple (\<lambda>w. in_flight db0 s t i w \<and> snap_of w i = Doc d) (save_snapshot e c i d ph)
      (\<lambda>_. in_flight db0 s t i) (\<lambda>_. in_flight db0 s t i)" for d ph
  proof (rule triple_pure [where C = "snap_for s t d"])
    assume "snap_for s t d"
    then have "keeps (in_flight db0 s t i) (save_snapshot e c i d ph)" by (auto intro!: keeps_intros)
    then show "triple (\<lambda>w. in_flight db0 s t i w \<and> snap_of w i = Doc d) (save_snapshot e c i d ph)
      (\<lambda>_. in_flight db0 s t i) (\<lambda>_. in_flight db0 s t i)" by (rule triple_keeps) auto
  qed (simp add: in_flight_def)
  show ?thesis
    unfolding mark_repair_def
    by (rule triple_catch [where R = "\<lambda>_. in_flight db0 s t i"],
        rule triple_bind [OF read_snapshot_triple [OF in_flight_blind] save]) (rule triple_ret, simp)
qed

definition unfinished_error :: "txexc \<Rightarrow> bool" where
  "unfinished_error ex = (ex = SimulatedCrash \<or> ex = TxError ''rollback_failed'')"

lemma apply_failed_triple:
  assumes "good_source db0 s" "wf_db db0"
  shows "triple (in_flight db0 s t i) (apply_failed e c i ex) (\<lambda>_ _. False)
    (\<lambda>ex w. in_flight db0 s t i w \<and> (\<not> unfinished_error ex \<longrightarrow> w_db w = db0))"
proof (cases "ex = SimulatedCrash")
  case True
  then show ?thesis unfolding apply_failed_def by (auto simp: unfinished_error_def intro!: triple_raise)
next
  case False
  let ?E = "\<lambda>ex w. in_flight db0 s t i w \<and> (\<not> unfinished_error ex \<longrightarrow> w_db w = db0)"
  have "triple (in_flight db0 s t i) (tcatch (rollback_snapshot e c i True)
      (\<lambda>_. tbind (mark_repair e c i) (\<lambda>_. tfail ''rollback_failed'')))
      (\<lambda>_ w. w_db w = db0 \<and> in_flight db0 s t i w) ?E"
  proof (rule triple_catch [OF rollback_snapshot_triple [OF assms]])
    show "triple (in_flight db0 s t i) (tbind (mark_repair e c i) (\<lambda>_. tfail ''rollback_failed''))
      (\<lambda>_ w. w_db w = db0 \<and> in_flight db0 s t i w) ?E"
      by (rule triple_bind [where R = "\<lambda>_. in_flight db0 s t i"], rule triple_conseq [OF mark_repair_triple])
        (auto simp: unfinished_error_def intro!: triple_fail)
  qed
  with False show ?thesis
    unfolding apply_failed_def by (auto intro!: triple_bind triple_raise)
qed

text \<open>What an apply leaves behind: either nothing has happened, or the operation is in flight.\<close>

definition undoable :: "panel_db \<Rightarrow> string \<Rightarrow> 'x world \<Rightarrow> bool" where
  "undoable db0 i w = ((snap_of w i = NoFile \<and> w_db w = db0)
     \<or> (\<exists>s t. good_source db0 s \<and> in_flight db0 s t i w))"

lemma undoableI: "good_source db0 s \<Longrightarrow> in_flight db0 s t i w \<Longrightarrow> undoable db0 i w"
  by (auto simp: undoable_def)

lemma undoable_fresh: "snap_of w i = NoFile \<Longrightarrow> undoable (w_db w) i w"
  by (simp add: undoable_def)

lemma keeps_write_phase:
  assumes "snap_for s t snap"
  shows "keeps (\<lambda>w. in_flight db0 s t i w \<and> w_db w = db0) (save_snapshot e c i snap ph)"
  using assms by (auto intro!: keeps_intros blind_intros in_flight_blind)

lemma apply_started_triple:
  assumes good: "good_source db0 s" and wf: "wf_db db0" and snap: "snap_for s t snap"
  shows "triple (\<lambda>w. w_db w = db0 \<and> snap_of w i = NoFile)
    (tbind (save_snapshot e c i snap ''snapshot'') (\<lambda>_.
     tbind (fault e ''snapshot'') (\<lambda>_.
     tcatch (apply_phases e c i s t snap) (apply_failed e c i))))
    (\<lambda>_. undoable db0 i) (\<lambda>ex w. undoable db0 i w \<and> (\<not> unfinished_error ex \<longrightarrow> w_db w = db0))"
proof -
  let ?I = "in_flight db0 s t i" and ?E = "\<lambda>ex w. in_flight db0 s t i w \<and> (\<not> unfinished_error ex \<longrightarrow> w_db w = db0)"
  have caught: "triple ?I (tcatch (apply_phases e c i s t snap) (apply_failed e c i)) (\<lambda>_. ?I) ?E"
    by (rule triple_catch [OF triple_keep_all [OF keeps_apply_phases [OF wf snap]]],
        rule triple_conseq [OF apply_failed_triple [OF good wf]]) auto
  have "triple (\<lambda>w. ?I w \<and> w_db w = db0)
    (tbind (save_snapshot e c i snap ''snapshot'') (\<lambda>_.
     tbind (fault e ''snapshot'') (\<lambda>_.
     tcatch (apply_phases e c i s t snap) (apply_failed e c i)))) (\<lambda>_. ?I) ?E"
    by (rule triple_keep_bind [OF keeps_write_phase [OF snap]], rule triple_keep_bind,
        intro keeps_intros blind_intros in_flight_blind, rule triple_pre [OF caught]) auto
  then show ?thesis
    by (rule triple_conseq) (simp add: in_flight_def near_refl, erule undoableI [OF good],
        simp add: undoableI [OF good, of t])
qed

lemma apply_fresh_triple:
  assumes wf: "wf_db db0"
  shows "triple (\<lambda>w. w_db w = db0 \<and> snap_of w i = NoFile) (apply_fresh e c i req)
    (\<lambda>_. undoable db0 i) (\<lambda>ex w. undoable db0 i w \<and> (\<not> unfinished_error ex \<longrightarrow> w_db w = db0))"
proof -
  let ?K = "\<lambda>w. w_db w = db0 \<and> snap_of w i = NoFile"
  have K: "blind ?K" by (intro blind_intros)
  have quiet: "undoable db0 i w \<and> (\<not> unfinished_error ex \<longrightarrow> w_db w = db0)" if "?K w" for ex w
    using that by (simp add: undoable_def)
  have tail: "triple ?K (tbind (new_snapshot e c s t) (\<lambda>snap.
     tbind (save_snapshot e c i snap ''snapshot'') (\<lambda>_.
     tbind (fault e ''snapshot'') (\<lambda>_.
     tcatch (apply_phases e c i s t snap) (apply_failed e c i)))))
    (\<lambda>_. undoable db0 i) (\<lambda>ex w. undoable db0 i w \<and> (\<not> unfinished_error ex \<longrightarrow> w_db w = db0))"
    if good: "good_source db0 s" for s t
  proof (rule triple_bind)
    show "triple ?K (new_snapshot e c s t) (\<lambda>d w. snap_for s t d \<and> ?K w)
      (\<lambda>ex w. undoable db0 i w \<and> (\<not> unfinished_error ex \<longrightarrow> w_db w = db0))"
      by (rule triple_conseq [OF triple_conj_keeps [OF new_snapshot_for [of "\<lambda>_. True"] keeps_new_snapshot [OF K]]])
        (auto intro: undoable_fresh)
    fix d
    show "triple (\<lambda>w. snap_for s t d \<and> ?K w)
      (tbind (save_snapshot e c i d ''snapshot'') (\<lambda>_.
       tbind (fault e ''snapshot'') (\<lambda>_.
       tcatch (apply_phases e c i s t d) (apply_failed e c i))))
      (\<lambda>_. undoable db0 i) (\<lambda>ex w. undoable db0 i w \<and> (\<not> unfinished_error ex \<longrightarrow> w_db w = db0))"
      by (rule triple_pure [where C = "snap_for s t d"], simp,
          rule triple_pre [OF apply_started_triple [OF good wf]]) auto
  qed
  have loaded: "triple (\<lambda>w. good_source db0 s \<and> ?K w) (tbind (build_template e c s mode) (\<lambda>t.
     tbind (new_snapshot e c s t) (\<lambda>snap.
     tbind (save_snapshot e c i snap ''snapshot'') (\<lambda>_.
     tbind (fault e ''snapshot'') (\<lambda>_.
     tcatch (apply_phases e c i s t snap) (apply_failed e c i))))))
    (\<lambda>_. undoable db0 i) (\<lambda>ex w. undoable db0 i w \<and> (\<not> unfinished_error ex \<longrightarrow> w_db w = db0))" for s mode
  proof (rule triple_pure [where C = "good_source db0 s"])
    assume "good_source db0 s"
    note rest = triple_keep_bind [OF keeps_build [OF K] tail [OF this] quiet]
    show "triple (\<lambda>w. good_source db0 s \<and> ?K w) (tbind (build_template e c s mode) (\<lambda>t.
     tbind (new_snapshot e c s t) (\<lambda>snap.
     tbind (save_snapshot e c i snap ''snapshot'') (\<lambda>_.
     tbind (fault e ''snapshot'') (\<lambda>_.
     tcatch (apply_phases e c i s t snap) (apply_failed e c i))))))
    (\<lambda>_. undoable db0 i) (\<lambda>ex w. undoable db0 i w \<and> (\<not> unfinished_error ex \<longrightarrow> w_db w = db0))"
      by (rule triple_pre [OF rest]) auto
  qed simp
  have target: "triple ?K (load_target e c req) (\<lambda>s w. good_source db0 s \<and> ?K w)
      (\<lambda>ex w. undoable db0 i w \<and> (\<not> unfinished_error ex \<longrightarrow> w_db w = db0))"
    by (rule triple_conseq [OF load_target_triple [where I = "\<lambda>w. snap_of w i = NoFile"]])
      (auto intro: undoable_fresh blind_intros simp: snap_of_def)
  show ?thesis
    unfolding apply_fresh_def
    by (rule triple_keep_bind [OF keeps_make_dir [OF K]], simp, rule triple_bind [OF target loaded]) (rule quiet)
qed

lemma validate_triple:
  assumes "blind I" "\<And>w ps. I w \<Longrightarrow> I (w\<lparr>w_profiles := ps\<rparr>)"
  shows "triple (\<lambda>w. w_db w = db0 \<and> I w) (validate_request e c (PDict d))
    (\<lambda>r w. r = d \<and> w_db w = db0 \<and> I w) (\<lambda>_ w. w_db w = db0 \<and> I w)"
proof -
  let ?K = "\<lambda>w. w_db w = db0 \<and> I w"
  have K: "blind ?K" by (intro blind_intros assms)
  have target: "keeps ?K (load_target e c d)"
    unfolding keeps_triple by (rule triple_conseq [OF load_target_triple [OF assms]]) auto
  have "triple ?K (tbind (load_target e c d) (\<lambda>_. tret d)) (\<lambda>r w. r = d \<and> ?K w) (\<lambda>_. ?K)"
    by (rule triple_keep_bind [OF target]) (auto intro: triple_ret)
  then show ?thesis
    unfolding validate_request_def pyval.case
    by (intro triple_keep_bind [OF keeps_config_paths [OF K]] triple_bind_guard triple_bind_lift) auto
qed

lemma apply_request_triple:
  assumes wf: "wf_db db0" and i: "i = req_str d ''operationId''"
  shows "triple (\<lambda>w. w_db w = db0 \<and> snap_of w i = NoFile) (apply_request e c (PDict d))
    (\<lambda>_. undoable db0 i) (\<lambda>ex w. undoable db0 i w \<and> (\<not> unfinished_error ex \<longrightarrow> w_db w = db0))"
proof -
  let ?K = "\<lambda>w. w_db w = db0 \<and> snap_of w i = NoFile"
  let ?Q = "\<lambda>_ :: pydict. undoable db0 i"
  let ?E = "\<lambda>ex w. undoable db0 i w \<and> (\<not> unfinished_error ex \<longrightarrow> w_db w = db0)"
  have quiet: "?E ex w" if "?K w" for ex w using that by (auto intro: undoable_fresh)
  have validated: "triple ?K (validate_request e c (PDict d)) (\<lambda>r w. r = d \<and> ?K w) ?E"
    by (rule triple_conseq [OF validate_triple [where I = "\<lambda>w. snap_of w i = NoFile"]])
      (auto intro: undoable_fresh blind_intros simp: snap_of_def)
  have rest: "triple (\<lambda>w. r = d \<and> ?K w) (let i = req_str r ''operationId'' in
     tbind (snapshot_path c i) (\<lambda>_.
     tbind (tget (\<lambda>w. snap_of w i)) (\<lambda>f.
     if f \<noteq> NoFile then
       tbind (read_snapshot e c i) (\<lambda>existing.
       if py_eq (dgetN existing ''request'') (PDict r) \<and> has_phase existing ''applied''
       then tret (result i ''applied'' []) else tfail ''operation_conflict'')
     else apply_fresh e c i r))) ?Q ?E" for r
  proof (rule triple_pure [where C = "r = d"])
    assume r: "r = d"
    have "triple ?K (tbind (snapshot_path c i) (\<lambda>_.
     tbind (tget (\<lambda>w. snap_of w i)) (\<lambda>f.
     if f \<noteq> NoFile then
       tbind (read_snapshot e c i) (\<lambda>existing.
       if py_eq (dgetN existing ''request'') (PDict d) \<and> has_phase existing ''applied''
       then tret (result i ''applied'' []) else tfail ''operation_conflict'')
     else apply_fresh e c i d))) ?Q ?E"
    proof (rule triple_keep_bind [OF keeps_snapshot_path], rule triple_bind_get, rule triple_if, goal_cases)
      case (1 _ f)
      then show ?case by (auto simp: triple_def)
    next
      case (2 _ f)
      show ?case by (rule triple_pre [OF apply_fresh_triple [OF wf]]) auto
    qed (rule quiet)
    then have "triple (\<lambda>w. r = d \<and> ?K w) (tbind (snapshot_path c i) (\<lambda>_.
     tbind (tget (\<lambda>w. snap_of w i)) (\<lambda>f.
     if f \<noteq> NoFile then
       tbind (read_snapshot e c i) (\<lambda>existing.
       if py_eq (dgetN existing ''request'') (PDict d) \<and> has_phase existing ''applied''
       then tret (result i ''applied'' []) else tfail ''operation_conflict'')
     else apply_fresh e c i d))) ?Q ?E"
      by (rule triple_pre) simp
    then show ?thesis by (simp only: r Let_def i [symmetric])
  qed simp
  show ?thesis
    unfolding apply_request_def by (rule triple_bind [OF validated rest])
qed

end
