(* ===== verification/Txn_Example.thy ===== *)
theory Txn_Example
  imports Txn_Safety "HOL-Library.Code_Target_Nat"
begin

text \<open>
  One concrete run of the protocol transaction, evaluated step by step: the main inbound is
  switched from VLESS over TCP to VLESS over XHTTP, and the fault injector raises a chosen
  exception after the database has been committed. The lemmas give the state after each phase;
  the properties of the transaction are instantiated on this run.
\<close>

section \<open>The outside, the configuration and the database of the run\<close>

definition run_fs :: "fsq \<Rightarrow> unit \<Rightarrow> bool option \<times> unit" where
  "run_fs q x = (case q of IsSymlink p \<Rightarrow> (Some False, x) | _ \<Rightarrow> (Some True, x))"

definition run_runtime :: pydict where
  "run_runtime =
    [(''inbounds'', PList [PDict [(''tag'', PStr ''aimili-reality''), (''port'', PInt 8443)]]),
     (''outbounds'', PList [PDict [(''tag'', PStr ''aimili-socks''), (''protocol'', PStr ''socks''),
        (''settings'', PDict [(''servers'', PList [PDict [(''address'', PStr ''127.0.0.1''), (''port'', PInt 7928)]])])]]),
     (''routing'', PDict [(''rules'', PList [PDict [(''outboundTag'', PStr ''aimili-socks''),
        (''inboundTag'', PList [PStr ''aimili-reality''])]])])]"

definition run_outside :: "txexc \<Rightarrow> unit outside" where
  "run_outside ex = \<lparr>x_fs = run_fs, x_sql = (\<lambda>_ x. (True, x)),
     x_run = (\<lambda>argv doc x. (Some (0, ''[\"aimili-reality\"]''), x)),
     x_fault = (\<lambda>p x. (if p = ''verify'' then Some ex else None, x)),
     x_runtime = (\<lambda>x. (Some (PDict run_runtime), x)), x_now = (\<lambda>x. (1000, x)),
     x_token = (\<lambda>x. (PStr ''0123456789abcdef'', x)), x_sha256 = (\<lambda>_. replicate 64 CHR ''0'')\<rparr>"

definition run_config :: txconfig where
  "run_config = \<lparr>cfg_database = [''x-ui.db''], cfg_snapshots = [''snapshots''], cfg_runtime = [''config.json''],
     cfg_certificate = [''cert.pem''], cfg_private_key = [''key.pem''], cfg_xray = [''xray''],
     cfg_profiles = [''profiles''], cfg_api_server = ''127.0.0.1:10085'', cfg_ports = [8443, 20000],
     cfg_tls_name = []\<rparr>"

definition run_id :: string where
  "run_id = ''op-00001''"

definition run_request :: pydict where
  "run_request = [(''operationId'', PStr run_id), (''egressId'', PStr ''agw-main''), (''inboundId'', PInt 1),
     (''inboundTag'', PStr ''aimili-reality''), (''port'', PInt 8443), (''oldMode'', PStr VLESS_TCP_REALITY_VISION),
     (''newMode'', PStr VLESS_XHTTP_REALITY), (''expectedFingerprint'', PStr (replicate 64 CHR ''0''))]"

definition run_row :: pydict where
  "run_row = [(''id'', PInt 1), (''tag'', PStr ''aimili-reality''), (''port'', PInt 8443),
     (''enable'', PInt 1), (''node_id'', PNone), (''remark'', PStr ''Aimili Reality''), (''listen'', PStr []),
     (''protocol'', PStr ''vless''), (''settings'', PStr ''{\"decryption\":\"none\"}''),
     (''stream_settings'', PStr ''{\"network\":\"tcp\",\"security\":\"reality\",\"realitySettings\":{\"privateKey\":\"k\",\"shortIds\":[1]}}''),
     (''sniffing'', PStr ''{}''), (''disable_flow'', PInt 0)]"

definition run_client :: pydict where
  "run_client = [(''id'', PInt 5), (''enable'', PInt 1), (''uuid'', PStr ''u''), (''email'', PStr ''m''),
     (''auth'', PStr [])]"

definition run_db :: panel_db where
  "run_db = \<lparr>db_inbounds = [run_row], db_clients = [run_client],
     db_links = [\<lparr>l_client = 5, l_inbound = 1, l_flow = PStr ''xtls-rprx-vision''\<rparr>], db_settings = None\<rparr>"

definition run_start :: "unit world" where
  "run_start = \<lparr>w_db = run_db, w_dirs = [], w_profiles = [], w_requests = [], w_results = [], w_x = ()\<rparr>"

section \<open>What the run computes\<close>

definition run_reality :: pyval where
  "run_reality = PDict [(''privateKey'', PStr ''k''), (''shortIds'', PList [PInt 1])]"

definition run_profile :: pydict where
  "run_profile = [(''egressId'', PStr ''agw-main''), (''realitySettings'', run_reality),
     (''xhttpPath'', PStr (CHR ''/'' # replicate 24 CHR ''0''))]"

definition run_source :: source where
  "run_source = \<lparr>s_request = run_request, s_row = run_row,
     s_clients = [run_client @ [(''inbound_flow_override'', PStr ''xtls-rprx-vision'')]],
     s_runtime = run_runtime, s_profile = run_profile\<rparr>"

definition run_template :: pydict where
  "run_template = [(''id'', PInt 1), (''remark'', PStr ''Aimili Reality''), (''listen'', PStr []), (''port'', PInt 8443),
     (''tag'', PStr ''aimili-reality''), (''sniffing'', PDict []), (''disableFlow'', PBool True),
     (''_clientAuthUpdates'', PDict []), (''_clientInboundFlowOverride'', PStr []), (''protocol'', PStr ''vless''),
     (''settings'', PDict [(''clients'', PList [PDict [(''id'', PStr ''u''), (''email'', PStr ''m'')]]),
        (''decryption'', PStr ''none'')]),
     (''streamSettings'', PDict (vless_stream VLESS_XHTTP_REALITY run_reality (PStr (CHR ''/'' # replicate 24 CHR ''0''))))]"

definition run_old_inbound :: pydict where
  "run_old_inbound = [(''port'', PInt 8443), (''protocol'', PStr ''vless''),
     (''settings'', PDict [(''clients'', PList [PDict [(''id'', PStr ''u''), (''email'', PStr ''m''),
        (''flow'', PStr ''xtls-rprx-vision'')]]), (''decryption'', PStr ''none'')]),
     (''streamSettings'', PDict (vless_stream VLESS_TCP_REALITY_VISION run_reality PNone)),
     (''tag'', PStr ''aimili-reality''), (''sniffing'', PDict [])]"

definition run_snapshot :: "string \<Rightarrow> pydict" where
  "run_snapshot phase = [(''version'', PInt 1), (''phase'', PStr phase), (''createdAt'', PInt 1000),
     (''leaseUpdatedAt'', PInt 1000), (''request'', PDict run_request), (''row'', PDict run_row),
     (''clients'', PList (map PDict (s_clients run_source))), (''oldRuntimeInbound'', PDict run_old_inbound),
     (''desiredTemplate'', PDict run_template)]"

definition run_new_db :: panel_db where
  "run_new_db = run_db\<lparr>db_inbounds := [set_columns (template_columns run_template) run_row],
     db_links := [\<lparr>l_client = 5, l_inbound = 1, l_flow = PStr []\<rparr>]\<rparr>"

definition run_world :: "panel_db \<Rightarrow> (string \<times> opdir) list \<Rightarrow> unit world" where
  "run_world db dirs = \<lparr>w_db = db, w_dirs = dirs, w_profiles = [(''agw-main'', Doc run_profile)],
     w_requests = [], w_results = [], w_x = ()\<rparr>"

definition run_dir :: "panel_db \<Rightarrow> string list \<Rightarrow> string \<Rightarrow> unit world" where
  "run_dir db ts phase = run_world db [(run_id, \<lparr>od_snap = Doc (run_snapshot phase), od_temps = ts\<rparr>)]"

abbreviation run_at :: "panel_db \<Rightarrow> string \<Rightarrow> unit world" where
  "run_at db phase \<equiv> run_dir db [] phase"

section \<open>The phases\<close>

lemma run_paths: "validate_config_paths (run_outside ex) run_config run_start = (Inr (), run_start)"
  by code_simp

lemma run_shape: "request_shape (run_outside ex) run_config run_request = Inr ()"
  by code_simp

lemma run_load_first: "load_target (run_outside ex) run_config run_request run_start = (Inr run_source, run_world run_db [])"
  by code_simp

lemma run_load_again:
  "load_target (run_outside ex) run_config run_request (run_world run_db [(run_id, \<lparr>od_snap = NoFile, od_temps = []\<rparr>)])
    = (Inr run_source, run_world run_db [(run_id, \<lparr>od_snap = NoFile, od_temps = []\<rparr>)])"
  by code_simp

lemma run_build: "build_template (run_outside ex) run_config run_source VLESS_XHTTP_REALITY w = (Inr run_template, w)"
  by code_simp

lemma run_new_snapshot:
  "new_snapshot (run_outside ex) run_config run_source run_template (run_world run_db dirs)
    = (Inr (run_snapshot ''snapshot''), run_world run_db dirs)"
  by code_simp

text \<open>The steps that work on the directory of the operation.\<close>

lemma run_fs_must [simp]:
  "fs_must (run_outside ex) q code w = (if \<exists>p. q = IsSymlink p then (Inl (TxError code), w) else (Inr (), w))"
  "fs_must_not (run_outside ex) q code w = (if \<exists>p. q = IsSymlink p then (Inr (), w) else (Inl (TxError code), w))"
  by (cases q; simp add: fs_must_def fs_must_not_def tbind_def ask_def run_outside_def run_fs_def tguard_def tret_def
      tfail_def traise_def)+

lemma run_for_symlinks: "tfor ps (\<lambda>q. fs_must_not (run_outside ex) (IsSymlink q) code) w = (Inr (), w)"
  by (induction ps) (simp_all add: tret_def tbind_def)

lemma run_file_checks [simp]:
  "require_regular_file (run_outside ex) p w = (Inr (), w)"
  "ensure_private_directory (run_outside ex) p w = (Inr (), w)"
  "private_atomic_json (run_outside ex) p store w = (Inr (), store w)"
  by (simp_all add: require_regular_file_def ensure_private_directory_def private_atomic_json_def
      reject_symlink_components_def run_for_symlinks tbind_def tput_def)

lemma run_put [simp]:
  "put_snap run_id (Doc (run_snapshot q)) (run_dir db ts p) = run_dir db ts q"
  "put_snap run_id (Doc (run_snapshot q)) (run_world db [(run_id, \<lparr>od_snap = NoFile, od_temps = []\<rparr>)]) = run_at db q"
  "put_temps run_id us (run_dir db ts p) = run_dir db us p"
  "snap_of (run_dir db ts p) run_id = Doc (run_snapshot p)"
  "temps_of (run_dir db ts p) run_id = ts"
  "drop_dir run_id (run_dir db ts p) = run_world db []"
  by (simp_all add: put_snap_def put_temps_def snap_of_def temps_of_def drop_dir_def run_dir_def run_world_def)

lemma run_phase [simp]: "dset (run_snapshot p) ''phase'' (PStr q) = run_snapshot q"
  by (simp add: run_snapshot_def dset_def)

lemma run_save [simp]:
  "save_snapshot (run_outside ex) run_config run_id (run_snapshot p) q w = (Inr (), put_snap run_id (Doc (run_snapshot q)) w)"
  by (simp add: save_snapshot_def write_snapshot_def)

lemma run_read [simp]:
  "read_snapshot (run_outside ex) run_config run_id (run_dir db ts p) = (Inr (run_snapshot p), run_dir db ts p)"
  by (simp add: read_snapshot_def Let_def tbind_def tget_def tguard_def tret_def)

lemma run_ask: "ask (x_fs (run_outside ex) (Unlink p)) w = (Inr (Some True), w)"
  by (cases w) (simp add: ask_def run_outside_def run_fs_def)

lemma run_temporary [simp]:
  "write_temporary_json (run_outside ex) run_config run_id name (run_dir db [] p)
    = (Inr (cfg_snapshots run_config @ [run_id, name]), run_dir db [name] p)"
  "unlink_temporary (run_outside ex) run_config run_id name (run_dir db [name] p) = (Inr (), run_dir db [] p)"
  by (simp_all add: write_temporary_json_def unlink_temporary_def Let_def tbind_def tget_def tguard_def tret_def
      tput_def run_ask)

lemma run_commands [simp]:
  "run_xray (run_outside ex) argv doc code w = (Inr ''[\"aimili-reality\"]'', w)"
  by (simp add: run_xray_def tbind_def ask_def run_outside_def tret_def)

lemma run_tags: "tags_of_output ''[\"aimili-reality\"]'' = [''aimili-reality'']"
  by code_simp

lemma run_xray_steps [simp]:
  "offline_test (run_outside ex) run_config p doc w = (Inr (), w)"
  "remove_inbound (run_outside ex) run_config tag w = (Inr (), w)"
  "add_inbound (run_outside ex) run_config p doc w = (Inr (), w)"
  "list_inbound_tags (run_outside ex) run_config w = (Inr [''aimili-reality''], w)"
  by (simp_all add: offline_test_def remove_inbound_def add_inbound_def list_inbound_tags_def tbind_def tret_def run_tags)

lemma run_fault [simp]:
  "fault (run_outside ex) p w = (if p = ''verify'' then Inl ex else Inr (), w)"
  by (simp add: fault_def tbind_def ask_def run_outside_def tret_def traise_def)

lemma run_sql [simp]: "sql (run_outside ex) q code w = (Inr (), w)" "connect (run_outside ex) w = (Inr (), w)"
  by (simp_all add: connect_def sql_def tbind_def ask_def run_outside_def tguard_def tret_def)

lemma run_full_config: "\<exists>doc. full_test_config (s_runtime run_source) run_template = Inr doc"
  by (simp add: full_test_config_def run_source_def run_runtime_def run_template_def runtime_inbound_def Let_def
      dict_items_def err_if_def)

lemma run_offline [simp]:
  "offline_phase (run_outside ex) run_config run_id run_source run_template (run_at db p) = (Inr (), run_at db p)"
  using run_full_config by (auto simp: offline_phase_def tbind_def tlift_def tfinally_def)

lemma run_runtime_phase [simp]:
  "runtime_phase (run_outside ex) run_config run_id run_template (run_snapshot p) (run_at db q)
    = (Inr (), run_at db ''runtime_add_pending'')"
  by (simp add: runtime_phase_def tbind_def tfinally_def)

section \<open>The database\<close>

text \<open>The texts of the new columns stay unevaluated; they are never read in this run.\<close>

lemma run_new_row: "set_columns (template_columns run_template) run_row =
    [(''id'', PInt 1), (''tag'', PStr ''aimili-reality''), (''port'', PInt 8443), (''enable'', PInt 1),
     (''node_id'', PNone), (''remark'', PStr ''Aimili Reality''), (''listen'', PStr []), (''protocol'', PStr ''vless''),
     (''settings'', PStr (json_dumps (dgetN run_template ''settings''))),
     (''stream_settings'', PStr (json_dumps (dgetN run_template ''streamSettings''))),
     (''sniffing'', PStr (json_dumps (dgetN run_template ''sniffing''))), (''disable_flow'', PInt 1)]"
proof -
  have "dgetN run_template ''protocol'' = PStr ''vless''" "dgetN run_template ''disableFlow'' = PBool True"
    by (simp_all add: run_template_def)
  then show ?thesis
    by (simp add: set_columns_def template_columns_def run_row_def MUTATED_INBOUND_COLUMNS_def dset_def
        del: json_dumps.simps)
qed

lemma run_auth_items: "auth_items run_template = []" "dgetN run_template ''_clientInboundFlowOverride'' = PStr []"
  by (simp_all add: auth_items_def run_template_def)

lemmas run_db_defs = run_db_def run_new_db_def run_source_def run_client_def pk_def sql_eq_def
  update_inbound_def update_one_def update_flow_def linked_ids_def find_client_def find_link_def find_inbound_def
  err_if_def

lemma run_row_cells: "dgetN run_row ''id'' = PInt 1" "dgetN run_row ''tag'' = PStr ''aimili-reality''"
  "dgetN run_row ''port'' = PInt 8443"
  by (simp_all add: run_row_def)

lemma run_persist: "persist_db run_source run_template run_db = Inr run_new_db"
  by (simp add: persist_db_def write_flow_def run_db_defs run_auth_items run_row_cells)

lemma run_commit [simp]:
  "persist_template (run_outside ex) run_source run_template (run_dir run_db ts p) = (Inr (), run_dir run_new_db ts p)"
  by (simp add: persist_template_def transaction_def tbind_def tget_def tlift_def tput_def run_dir_def run_world_def
      run_persist)

lemma run_database_phase [simp]:
  "database_phase (run_outside ex) run_config run_id run_source run_template (run_snapshot p) (run_at run_db q)
    = (Inl ex, run_at run_new_db ''database_committed'')"
  by (simp add: database_phase_def tbind_def)

section \<open>Rolling back\<close>

lemma run_snapshot_parts [simp]:
  "validated_snapshot_clients (run_snapshot p) = Inr (s_clients run_source)"
  "snapshot_template (run_snapshot p) = Inr run_template"
  "snapshot_row (run_snapshot p) = Inr run_row"
  "dgetN (run_snapshot p) ''row'' = PDict run_row"
  "dgetN (run_snapshot p) ''request'' = PDict run_request"
  "dgetN (run_snapshot p) ''oldRuntimeInbound'' = PDict run_old_inbound"
  "has_phase (run_snapshot p) q = (p = q)"
  by (simp_all add: run_snapshot_def validated_snapshot_clients_def snapshot_client_def snapshot_template_def
      snapshot_row_def ditem_def has_phase_def run_source_def run_client_def)

lemma run_snapshot_updates [simp]:
  "snapshot_flow (run_snapshot p) = Inr []"
  "snapshot_auth_updates (run_snapshot p) cs = Inr []"
  by (simp_all add: snapshot_flow_def snapshot_auth_updates_def run_template_def)

lemma run_row_columns [simp]:
  "ditems run_row MUTATED_INBOUND_COLUMNS = Inr [PStr ''vless'', dgetN run_row ''settings'',
     dgetN run_row ''stream_settings'', dgetN run_row ''sniffing'', PInt 0]"
  by (simp add: run_row_def MUTATED_INBOUND_COLUMNS_def ditem_def)

lemma run_new_columns [simp]:
  "ditems (set_columns (template_columns run_template) run_row) MUTATED_INBOUND_COLUMNS = Inr [PStr ''vless'',
     PStr (json_dumps (dgetN run_template ''settings'')), PStr (json_dumps (dgetN run_template ''streamSettings'')),
     PStr (json_dumps (dgetN run_template ''sniffing'')), PInt 1]"
  by (simp add: run_new_row MUTATED_INBOUND_COLUMNS_def ditem_def del: json_dumps.simps)

lemma run_new_cells: "dgetN (set_columns (template_columns run_template) run_row) ''id'' = PInt 1"
  "dgetN (set_columns (template_columns run_template) run_row) ''tag'' = PStr ''aimili-reality''"
  "dgetN (set_columns (template_columns run_template) run_row) ''port'' = PInt 8443"
  by (simp_all add: run_new_row)

lemma run_set_back:
  "set_columns [PStr ''vless'', dgetN run_row ''settings'', dgetN run_row ''stream_settings'',
     dgetN run_row ''sniffing'', PInt 0] (set_columns (template_columns run_template) run_row) = run_row"
  unfolding run_new_row
  by (simp add: set_columns_def MUTATED_INBOUND_COLUMNS_def dset_def run_row_def del: json_dumps.simps)

lemma run_restore_db: "restore_db run_row (s_clients run_source) [] [] run_new_db = Inr run_db"
  by (simp add: restore_db_def restore_client_def restore_auth_def restore_flow_def run_db_defs run_row_cells
      run_new_cells run_set_back)

lemma run_world_db [simp]: "w_db (run_dir db ts p) = db" "w_db (run_world db ds) = db"
  by (simp_all add: run_dir_def run_world_def)

lemma run_inbound [simp]:
  "load_inbound_row (run_outside ex) (pk run_row) (run_dir run_new_db ts p)
    = (Inr (set_columns (template_columns run_template) run_row), run_dir run_new_db ts p)"
  "load_inbound_row (run_outside ex) (pk run_row) (run_dir run_db ts p) = (Inr run_row, run_dir run_db ts p)"
  by (simp_all add: load_inbound_row_def tbind_def tget_def tret_def run_db_defs run_row_cells run_new_cells)

lemma run_boundary [simp]:
  "validate_rollback_database_boundary (run_outside ex) (run_snapshot p) (run_dir run_new_db ts q)
    = (Inr (), run_dir run_new_db ts q)"
  by (simp add: validate_rollback_database_boundary_def tbind_def tlift_def tget_def tguard_def tret_def
      boundary_client_def run_db_defs run_row_cells)

lemma run_rollback_runtime [simp]:
  "rollback_runtime (run_outside ex) run_config run_id run_request old (run_at db p) = (Inr (), run_at db p)"
  by (simp add: rollback_runtime_def tbind_def tfinally_def tlift_def ditem_def run_request_def)

lemma run_differs [simp]:
  "database_matches_snapshot (run_outside ex) (run_snapshot p) (run_dir run_new_db ts q)
    = (Inr False, run_dir run_new_db ts q)"
  by (simp add: database_matches_snapshot_def tbind_def tlift_def tret_def)

lemma run_restore [simp]:
  "restore_database (run_outside ex) (run_snapshot p) (run_dir run_new_db ts q) = (Inr (), run_dir run_db ts q)"
  by (simp add: restore_database_def transaction_def tbind_def tlift_def tget_def tput_def run_restore_db)
    (simp add: run_dir_def run_world_def)

lemma run_check [simp]:
  "check_restored (run_outside ex) run_config (run_snapshot p) run_request (run_dir run_db ts q)
    = (Inr (), run_dir run_db ts q)"
  by (simp add: check_restored_def tbind_def tlift_def ditem_def tguard_def tret_def run_request_def)

lemma run_remove [simp]:
  "remove_operation_dir (run_outside ex) run_config run_id (run_dir db ts p) = (Inr (), run_world db [])"
proof -
  have "safe_operation_id run_id" by code_simp
  moreover have "ask (x_fs (run_outside ex) (RmTree p)) w = (Inr (Some True), w)" for p w
    by (cases w) (simp add: ask_def run_outside_def run_fs_def)
  ultimately show ?thesis by (simp add: remove_operation_dir_def tbind_def tguard_def tret_def tput_def)
qed

lemma run_rollback:
  "p \<noteq> ''snapshot'' \<Longrightarrow> rollback_snapshot (run_outside ex) run_config run_id True (run_at run_new_db p)
    = (Inr (), run_world run_db [])"
  by (simp add: rollback_snapshot_def rollback_steps_def tbind_def tret_def)

section \<open>The whole run\<close>

lemma run_validate:
  "validate_request (run_outside ex) run_config (PDict run_request) run_start = (Inr run_request, run_world run_db [])"
  by (simp add: validate_request_def tbind_def run_paths run_shape run_load_first tlift_def tguard_def tret_def)
    (simp add: run_request_def REQUEST_FIELDS_def FINGERPRINT_FIELDS_def insert_commute)

lemma run_operation: "req_str run_request ''operationId'' = run_id" "req_str run_request ''newMode'' = VLESS_XHTTP_REALITY"
  by (simp_all add: req_str_def run_request_def)

lemma run_apply_phases:
  "apply_phases (run_outside ex) run_config run_id run_source run_template (run_snapshot p) (run_at run_db q)
    = (Inl ex, run_at run_new_db ''database_committed'')"
  by (simp add: apply_phases_def tbind_def)

lemma run_make_dir:
  "make_operation_dir (run_outside ex) run_config run_id (run_world run_db [])
    = (Inr (), run_world run_db [(run_id, \<lparr>od_snap = NoFile, od_temps = []\<rparr>)])"
  by (simp add: make_operation_dir_def tbind_def tget_def tguard_def tret_def tput_def)
    (simp add: put_snap_def temps_of_def run_world_def)

lemma run_apply:
  "apply_request (run_outside ex) run_config (PDict run_request) run_start
    = apply_failed (run_outside ex) run_config run_id ex (run_at run_new_db ''database_committed'')"
proof -
  have "safe_operation_id run_id" by code_simp
  moreover have "snap_of (run_world run_db []) run_id = NoFile" by (simp add: snap_of_def run_world_def)
  ultimately show ?thesis
    by (simp add: apply_request_def apply_fresh_def snapshot_path_def tbind_def tget_def tret_def tcatch_def
        run_validate run_operation run_make_dir run_load_again run_build run_new_snapshot run_apply_phases)
qed

end
