(* ===== verification/Txn_Modes.thy ===== *)
theory Txn_Modes
  imports Txn_Safety
begin

text \<open>
  The shape of the templates the helper builds, and why a template read back from its database
  row is recognised as the mode it was built for: the texts of the columns are canonical JSON,
  and the reader of \<open>Json_Codec\<close> gives the documents back with sorted keys.
\<close>

section \<open>Reading a column back\<close>

lemma dget_map_snd: "dget (map (\<lambda>p. (fst p, f (snd p))) d) k = map_option f (dget d k)"
  by (induction d) auto

lemma dget_sort_key:
  assumes "wf_dict d"
  shows "dget (sort_key fst d) k = dget d k"
proof -
  have "wf_dict (sort_key fst d)" using assms by (simp add: wf_dict_def distinct_map)
  then have "dget (sort_key fst d) k = Some v \<longleftrightarrow> dget d k = Some v" for v
    using assms by (simp add: set_dget [symmetric])
  then show ?thesis by (cases "dget d k"; cases "dget (sort_key fst d) k") auto
qed

lemma json_object_dumps:
  assumes "json_plain (PDict d)"
  shows "\<exists>d'. json_object c (PStr (json_dumps (PDict d))) = Inr d' \<and> (\<forall>k. dget d' k = map_option json_norm (dget d k))"
  using assms
  by (simp add: json_object_def json_loads_dumps dget_map_snd dget_sort_key del: json_dumps.simps)

lemma set_columns_get:
  assumes "vs = [a, b, c, d, f]"
  shows "dget_or (set_columns vs row) ''protocol'' w = a" "dget_or (set_columns vs row) ''settings'' w = b"
    "dget_or (set_columns vs row) ''stream_settings'' w = c" "dget_or (set_columns vs row) ''disable_flow'' w = f"
  by (simp_all add: assms set_columns_def MUTATED_INBOUND_COLUMNS_def)

section \<open>The shape of a template\<close>

definition built :: "string \<Rightarrow> pydict \<Rightarrow> bool" where
  "built mode t =
     (if mode = HYSTERIA2_QUIC_TLS then
        dgetN t ''protocol'' = PStr ''hysteria''
        \<and> (\<exists>xs. (\<forall>x \<in> set xs. json_plain x)
             \<and> dgetN t ''settings'' = PDict [(''version'', PInt 2), (''clients'', PList xs)])
        \<and> (\<exists>c name. dgetN t ''streamSettings'' = PDict (hysteria_stream c name))
      else
        (mode = VLESS_TCP_REALITY_VISION \<or> mode = VLESS_XHTTP_REALITY)
        \<and> dgetN t ''protocol'' = PStr ''vless''
        \<and> (\<exists>xs. (\<forall>x \<in> set xs. json_plain x)
             \<and> dgetN t ''settings'' = PDict [(''clients'', PList xs), (''decryption'', PStr ''none'')])
        \<and> (\<exists>reality xpath. dgetN t ''streamSettings'' = PDict (vless_stream mode reality xpath))
        \<and> dgetN t ''disableFlow'' = PBool (mode \<noteq> VLESS_TCP_REALITY_VISION))"

lemma vless_clients_plain: "vless_clients flow rs = Inr xs \<Longrightarrow> x \<in> set xs \<Longrightarrow> json_plain x"
  by (induction rs arbitrary: xs) (auto simp: Let_def err_bind_Inr split: if_splits)

lemma triple_any: "triple P m (\<lambda>_ _. True) (\<lambda>_ _. True)"
  by (simp add: triple_def split: prod.splits sum.splits)

lemma hysteria_clients_plain:
  "triple (\<lambda>_. True) (hysteria_clients e rs) (\<lambda>r _. \<forall>x \<in> set (fst r). json_plain x) (\<lambda>_ _. True)"
proof (induction rs)
  case Nil
  show ?case by (auto intro: triple_ret)
next
  case (Cons r rs)
  have entry: "triple (\<lambda>_. True) (tbind (hysteria_clients e rs) (\<lambda>(xs, updates).
      tret (PDict [(''auth'', PStr a), (''email'', PStr b)] # xs, dupdate new updates)))
      (\<lambda>r _. \<forall>x \<in> set (fst r). json_plain x) (\<lambda>_ _. True)" for a b new
    by (rule triple_bind [OF Cons.IH]) (auto intro!: triple_ret split: prod.splits)
  have "triple (\<lambda>_. True) (case p of (auth, new) \<Rightarrow> tbind (hysteria_clients e rs) (\<lambda>(xs, updates).
      tret (PDict [(''auth'', PStr auth), (''email'', PStr b)] # xs, dupdate new updates)))
      (\<lambda>r _. \<forall>x \<in> set (fst r). json_plain x) (\<lambda>_ _. True)" for p b
    using entry by (cases p) simp
  then show ?case
    unfolding hysteria_clients.simps Let_def
    by (intro triple_bind_guard triple_bind [OF triple_any]) auto
qed

lemma vless_template_built:
  assumes "vless_template s cs mode base = Inr t" "mode = VLESS_TCP_REALITY_VISION \<or> mode = VLESS_XHTTP_REALITY"
  shows "built mode t"
proof -
  from assms(1) obtain reality xs xpath flow where
    t: "t = dupdate base [(''_clientInboundFlowOverride'', PStr flow), (''protocol'', PStr ''vless''),
      (''settings'', PDict [(''clients'', PList xs), (''decryption'', PStr ''none'')]),
      (''disableFlow'', PBool (mode \<noteq> VLESS_TCP_REALITY_VISION)),
      (''streamSettings'', PDict (vless_stream mode reality xpath))]" "vless_clients flow cs = Inr xs"
    by (auto simp: vless_template_def Let_def err_bind_Inr simp del: dupdate.simps)
  moreover have "mode \<noteq> HYSTERIA2_QUIC_TLS"
    using assms(2) by (auto simp: VLESS_TCP_REALITY_VISION_def VLESS_XHTTP_REALITY_def HYSTERIA2_QUIC_TLS_def)
  ultimately show ?thesis
    using assms(2) vless_clients_plain [OF t(2)] by (auto simp: built_def)
qed

lemma hysteria_template_built:
  "triple (\<lambda>_. True) (hysteria_template e c s cs base) (\<lambda>t _. built HYSTERIA2_QUIC_TLS t) (\<lambda>_ _. True)"
  unfolding hysteria_template_def
proof (rule triple_bind [OF hysteria_clients_plain])
  fix p
  show "triple (\<lambda>_. \<forall>x \<in> set (fst p). json_plain x) (case p of (entries, updates) \<Rightarrow>
      tbind (tlift (server_name c s)) (\<lambda>name.
      tret (dupdate base
       [(''protocol'', PStr ''hysteria''),
        (''settings'', PDict [(''version'', PInt 2), (''clients'', PList entries)]),
        (''streamSettings'', PDict (hysteria_stream c name)), (''_clientAuthUpdates'', PDict updates)])))
      (\<lambda>t _. built HYSTERIA2_QUIC_TLS t) (\<lambda>_ _. True)"
    by (cases p) (auto intro!: triple_bind_lift triple_ret simp: built_def, blast)
qed

lemma build_template_built:
  "triple (\<lambda>_. True) (build_template e c s mode) (\<lambda>t _. built mode t) (\<lambda>_ _. True)"
proof -
  have lift: "triple (\<lambda>_. True) (tlift r) (\<lambda>t _. built mode t) (\<lambda>_ _. True)" if "\<And>t. r = Inr t \<Longrightarrow> built mode t" for r
    using that by (cases r) (auto simp: triple_def tlift_def)
  show ?thesis
    unfolding build_template_def
  proof (intro triple_bind_guard triple_bind_lift triple_if lift, goal_cases)
    case 1
    then show ?case by (auto intro: vless_template_built)
  next
    case 2
    then have "mode = HYSTERIA2_QUIC_TLS" by (auto simp: PROTOCOL_MODES_def)
    then show ?case using hysteria_template_built by simp
  qed auto
qed

section \<open>The mode of a built template\<close>

lemma built_mode:
  assumes "built mode t" "json_plain (dgetN t ''streamSettings'')"
  shows "mode_for_row (set_columns (template_columns t) row) = Inr mode"
proof -
  let ?row = "set_columns (template_columns t) row"
  note get = set_columns_get [OF template_columns_def, of t row]
  obtain sd where sd: "dgetN t ''settings'' = PDict sd" "json_plain (PDict sd)"
    using assms(1) by (auto simp: built_def wf_dict_def split: if_splits)
  obtain st where st: "dgetN t ''streamSettings'' = PDict st" "json_plain (PDict st)"
    using assms by (auto simp: built_def split: if_splits)
  obtain settings where settings: "json_object drift (PStr (json_dumps (PDict sd))) = Inr settings"
    "\<forall>k. dget settings k = map_option json_norm (dget sd k)"
    using json_object_dumps [OF sd(2)] by blast
  obtain stream where stream: "json_object drift (PStr (json_dumps (PDict st))) = Inr stream"
    "\<forall>k. dget stream k = map_option json_norm (dget st k)"
    using json_object_dumps [OF st(2)] by blast
  have row: "mode_for_row ?row =
     (let protocol = dgetN t ''protocol''; network = dgetN stream ''network'';
         security = dgetN stream ''security''; no_flow = truthy (dgetN t ''disableFlow'') in
     if protocol = PStr ''vless'' \<and> network = PStr ''tcp'' \<and> security = PStr ''reality''
        \<and> dgetN settings ''decryption'' = PStr ''none'' \<and> \<not> no_flow
     then Inr VLESS_TCP_REALITY_VISION
     else if protocol = PStr ''vless'' \<and> network = PStr ''xhttp'' \<and> security = PStr ''reality''
        \<and> dgetN settings ''decryption'' = PStr ''none'' \<and> no_flow
     then Inr VLESS_XHTTP_REALITY
     else if protocol = PStr ''hysteria'' \<and> network = PStr ''hysteria'' \<and> security = PStr ''tls''
        \<and> py_eq (dgetN settings ''version'') (PInt 2)
     then Inr HYSTERIA2_QUIC_TLS
     else Inl (TxError drift))"
    by (simp add: mode_for_row_def get sd(1) st(1) settings(1) stream(1) Let_def del: json_dumps.simps)
  have get_settings: "dgetN settings k = (case dget sd k of None \<Rightarrow> PNone | Some v \<Rightarrow> json_norm v)"
    and get_stream: "dgetN stream k = (case dget st k of None \<Rightarrow> PNone | Some v \<Rightarrow> json_norm v)" for k
    using settings(2) stream(2) by (simp_all add: dget_or_def split: option.splits)
  consider (hysteria) "mode = HYSTERIA2_QUIC_TLS" | (tcp) "mode = VLESS_TCP_REALITY_VISION"
    | (xhttp) "mode = VLESS_XHTTP_REALITY" "mode \<noteq> VLESS_TCP_REALITY_VISION" "mode \<noteq> HYSTERIA2_QUIC_TLS"
    using assms(1) by (auto simp: built_def split: if_splits)
  then show ?thesis
  proof cases
    case hysteria
    then obtain xs c name where "dgetN t ''protocol'' = PStr ''hysteria''"
      "sd = [(''version'', PInt 2), (''clients'', PList xs)]" "st = hysteria_stream c name"
      using assms(1) sd(1) st(1) by (auto simp: built_def)
    then show ?thesis
      unfolding row Let_def get_settings get_stream using hysteria by (simp add: hysteria_stream_def)
  next
    case tcp
    moreover have "VLESS_TCP_REALITY_VISION \<noteq> HYSTERIA2_QUIC_TLS"
      by (simp add: VLESS_TCP_REALITY_VISION_def HYSTERIA2_QUIC_TLS_def)
    ultimately obtain xs reality xpath where "dgetN t ''protocol'' = PStr ''vless''"
      "sd = [(''clients'', PList xs), (''decryption'', PStr ''none'')]" "st = vless_stream mode reality xpath"
      "dgetN t ''disableFlow'' = PBool False"
      using assms(1) sd(1) st(1) by (auto simp: built_def)
    then show ?thesis
      unfolding row Let_def get_settings get_stream using tcp by (simp add: vless_stream_def)
  next
    case xhttp
    then obtain xs reality xpath where "dgetN t ''protocol'' = PStr ''vless''"
      "sd = [(''clients'', PList xs), (''decryption'', PStr ''none'')]" "st = vless_stream mode reality xpath"
      "dgetN t ''disableFlow'' = PBool True"
      using assms(1) sd(1) st(1) by (auto simp: built_def)
    then show ?thesis
      unfolding row Let_def get_settings get_stream using xhttp by (simp add: vless_stream_def)
  qed
qed

end
