(* ===== verification/Txn_Recovery.thy ===== *)
theory Txn_Recovery
  imports Txn_Safety
begin

text \<open>
  What the recovery run leaves behind: an operation that ended stays as it is, one whose lease is
  still young is not touched, and every other one is either gone (rolled back) or marked for repair
  because its rollback failed; what a rollback raises never stops the run. The directories of other operations are not
  touched while one is handled.
\<close>

definition settled_phase :: "pydict \<Rightarrow> bool" where
  "settled_phase d = (has_phase d ''finalized'' \<or> has_phase d ''repair_required'' \<or> has_phase d ''rolled_back'')"

text \<open>The lease of a snapshot at a reading of the clock: what \<open>x\<close> is asked for the time answers.\<close>

definition young :: "'x outside \<Rightarrow> int \<Rightarrow> pydict \<Rightarrow> 'x \<Rightarrow> bool" where
  "young e age d x \<longleftrightarrow> 0 < age \<and> lease_times d \<noteq> [] \<and> fst (x_now e x) - Max (set (lease_times d)) < age"

text \<open>What becomes of a snapshot \<open>s0\<close> in a run that reports \<open>rs\<close>.\<close>

definition handled :: "'x outside \<Rightarrow> int \<Rightarrow> string \<Rightarrow> snapfile \<Rightarrow> pydict list \<Rightarrow> snapfile \<Rightarrow> bool" where
  "handled e age i s0 rs s \<longleftrightarrow> (case s0 of
     NoFile \<Rightarrow> s = NoFile
   | Unreadable \<Rightarrow> False
   | Doc d \<Rightarrow>
       if settled_phase d then s = Doc d
       else (\<exists>x. young e age d x) \<and> s = Doc d
         \<or> (\<exists>x. \<not> young e age d x)
            \<and> (s = NoFile \<and> result i ''rolled_back'' [] \<in> set rs
               \<or> s = Doc (dset d ''phase'' (PStr ''repair_required'')) \<and> result i ''repair_required'' ''rollback_failed'' \<in> set rs))"

text \<open>What can stop a run: a snapshot that cannot be read, a phase that cannot be compared, or the
  mark for repair that cannot be saved. The state is the one in which it happened.\<close>

definition recovery_stopped :: "'x outside \<Rightarrow> txconfig \<Rightarrow> txexc \<Rightarrow> 'x world \<Rightarrow> bool" where
  "recovery_stopped e c ex w' \<longleftrightarrow>
     (\<exists>j w. read_snapshot e c j w = (Inl ex, w'))
   \<or> (\<exists>j d. snap_of w' j = Doc d \<and> \<not> hashable (dgetN d ''phase'') \<and> ex = PyError TypeError)
   \<or> (\<exists>j d w. save_snapshot e c j d ''repair_required'' w = (Inl ex, w'))"

section \<open>One operation does not touch another\<close>

lemma keeps_transaction:
  "blind I \<Longrightarrow> (\<And>w db. I w \<Longrightarrow> I (w\<lparr>w_db := db\<rparr>)) \<Longrightarrow> keeps I (transaction e q code f)"
  unfolding transaction_def connect_def by (auto intro!: keeps_intros)

lemma keeps_restore:
  "blind I \<Longrightarrow> (\<And>w db. I w \<Longrightarrow> I (w\<lparr>w_db := db\<rparr>)) \<Longrightarrow> keeps I (restore_database e snap)"
  unfolding restore_database_def by (auto intro!: keeps_intros keeps_transaction)

lemma keeps_matches: "blind I \<Longrightarrow> keeps I (database_matches_snapshot e snap)"
  unfolding database_matches_snapshot_def connect_def by (auto intro!: keeps_intros)

lemma keeps_rollback_steps:
  assumes "blind I" "\<And>w db. I w \<Longrightarrow> I (w\<lparr>w_db := db\<rparr>)" "\<And>w ts. I w \<Longrightarrow> I (put_temps j ts w)"
    "\<And>w. I w \<Longrightarrow> I (drop_dir j w)" "\<And>w. I w \<Longrightarrow> I (put_snap j NoFile w)"
  shows "keeps I (rollback_steps e c j b snap req old)"
  unfolding rollback_steps_def using assms
  by (intro keeps_intros keeps_restore keeps_matches) auto

lemma keeps_rollback_other:
  assumes "blind I" "\<And>w db. I w \<Longrightarrow> I (w\<lparr>w_db := db\<rparr>)" "\<And>w ts. I w \<Longrightarrow> I (put_temps j ts w)"
    "\<And>w. I w \<Longrightarrow> I (drop_dir j w)" "\<And>w. I w \<Longrightarrow> I (put_snap j NoFile w)"
  shows "keeps I (rollback_snapshot e c j b)"
proof -
  have "keeps I (case (dgetN d ''request'', dgetN d ''oldRuntimeInbound'') of
       (PDict req, PDict old) \<Rightarrow> rollback_steps e c j b d req old | _ \<Rightarrow> tfail ''snapshot_invalid'')" for d
    using keeps_rollback_steps [OF assms, of e c b d] by (auto intro: keeps_intros split: pyval.splits)
  then show ?thesis
    unfolding rollback_snapshot_def by (rule keeps_bind [OF keeps_read_snapshot [OF assms(1)]])
qed

lemma keeps_fs_test [keeps_intros]: "blind I \<Longrightarrow> keeps I (fs_test e q)"
  unfolding fs_test_def by (auto intro!: keeps_intros)

lemma keeps_lease [keeps_intros]: "blind I \<Longrightarrow> keeps I (lease_held e age snap)"
  unfolding lease_held_def by (auto intro!: keeps_intros)

lemma keeps_recover_other:
  assumes "i \<noteq> j"
  shows "keeps (\<lambda>w. S (snap_of w i)) (recover_dir e c age j)"
proof -
  let ?I = "\<lambda>w. S (snap_of w i)"
  have I: "blind ?I" by (rule blind_snap)
  have rollback: "keeps ?I (rollback_snapshot e c j b)" for b
    by (rule keeps_rollback_other [OF I]) (use assms in \<open>auto simp: snap_of_def [of "_\<lparr>w_db := _\<rparr>"]\<close>, simp add: snap_of_def)
  show ?thesis
    unfolding recover_dir_def recover_file_def recover_phase_def recover_one_def
    using assms by (intro keeps_intros I rollback) auto
qed

lemma keeps_recover_others:
  "i \<notin> set js \<Longrightarrow> keeps (\<lambda>w. S (snap_of w i)) (recover_dirs e c age js)"
  by (induction js) (auto intro!: keeps_intros keeps_recover_other)

section \<open>One operation is settled\<close>

lemma rollback_removes:
  "triple P (rollback_snapshot e c i True) (\<lambda>_ w. snap_of w i = NoFile) (\<lambda>_ _. True)"
proof -
  have any: "triple P m (\<lambda>_ _. True) (\<lambda>_ _. True)" for P and m :: "('a, 'b) tx"
    by (simp add: triple_def split: prod.splits sum.splits)
  have remove: "triple P (remove_operation_dir e c i) (\<lambda>_ w. snap_of w i = NoFile) (\<lambda>_ _. True)" for P
    unfolding remove_operation_dir_def
    by (intro triple_bind [OF any] triple_if) (auto simp: triple_def tput_def tbind_def tfail_def traise_def)
  have steps: "triple P (rollback_steps e c i True d req old) (\<lambda>_ w. snap_of w i = NoFile) (\<lambda>_ _. True)" for P d req old
    unfolding rollback_steps_def if_True by (intro triple_bind [OF any] remove)
  have "triple (\<lambda>_. True) (case (dgetN d ''request'', dgetN d ''oldRuntimeInbound'') of
       (PDict req, PDict old) \<Rightarrow> rollback_steps e c i True d req old | _ \<Rightarrow> tfail ''snapshot_invalid'')
      (\<lambda>_ w. snap_of w i = NoFile) (\<lambda>_ _. True)" for d
    using steps by (simp add: triple_fail split: pyval.splits)
  then show ?thesis unfolding rollback_snapshot_def by (rule triple_bind [OF any])
qed

lemma triple_raises:
  "triple P m Q (\<lambda>_ _. True) \<Longrightarrow> triple P m Q (\<lambda>ex w'. \<exists>w. m w = (Inl ex, w'))"
  by (rule tripleI) (auto dest: triple_Inr)

lemma recover_one_handles:
  assumes "\<not> settled_phase d" "\<not> young e age d x"
  shows "triple P (recover_one e c i d) (\<lambda>rs w. handled e age i (Doc d) rs (snap_of w i)) (recovery_stopped e c)"
proof -
  let ?marked = "\<lambda>w :: 'a world. snap_of w i = Doc (dset d ''phase'' (PStr ''repair_required''))"
  have any: "triple P m (\<lambda>_ _. True) (\<lambda>_ _. True)" for P and m :: "('a, 'b) tx"
    by (simp add: triple_def split: prod.splits sum.splits)
  have save: "triple P (save_snapshot e c i d ''repair_required'') (\<lambda>_. ?marked) (recovery_stopped e c)" for P
  proof -
    have store: "triple (\<lambda>_. True) (tbind (tput (put_snap i (Doc (dset d ''phase'' (PStr ''repair_required'')))))
        (\<lambda>_. fs_must e (Chmod p) ''snapshot_write_failed'')) (\<lambda>_. ?marked) (\<lambda>_ _. True)" for p
    proof (rule triple_bind)
      show "triple (\<lambda>_. True) (tput (put_snap i (Doc (dset d ''phase'' (PStr ''repair_required''))))) (\<lambda>_. ?marked) (\<lambda>_ _. True)"
        by (simp add: triple_def tput_def)
      have "keeps ?marked (fs_must e (Chmod p) ''snapshot_write_failed'')"
        by (intro keeps_intros blindI) simp
      then show "triple ?marked (fs_must e (Chmod p) ''snapshot_write_failed'') (\<lambda>_. ?marked) (\<lambda>_ _. True)"
        by (rule triple_keeps) auto
    qed
    have "triple P (save_snapshot e c i d ''repair_required'') (\<lambda>_. ?marked) (\<lambda>_ _. True)"
      unfolding save_snapshot_def write_snapshot_def private_atomic_json_def
      by (intro triple_bind [OF any] store)
    from triple_raises [OF this] show ?thesis
      by (rule triple_conseq) (auto simp: recovery_stopped_def)
  qed
  have good: "triple P (tbind (rollback_snapshot e c i True) (\<lambda>_. tret [result i ''rolled_back'' []]))
      (\<lambda>rs w. handled e age i (Doc d) rs (snap_of w i)) (\<lambda>_ _. True)"
    by (rule triple_bind [OF rollback_removes], rule triple_ret) (use assms in \<open>auto simp: handled_def\<close>)
  have bad: "triple (\<lambda>_. True) (tbind (save_snapshot e c i d ''repair_required'') (\<lambda>_.
      tret [result i ''repair_required'' ''rollback_failed'']))
      (\<lambda>rs w. handled e age i (Doc d) rs (snap_of w i)) (recovery_stopped e c)"
    by (rule triple_bind [OF save], rule triple_ret) (use assms in \<open>auto simp: handled_def\<close>)
  show ?thesis
    unfolding recover_one_def by (rule triple_catch [OF good bad])
qed

lemma fs_test_answer:
  assumes "\<And>x. fst (x_fs e q x) = Some b"
  shows "triple P (fs_test e q) (\<lambda>r w. r = b \<and> True) (\<lambda>_ _. False)"
  unfolding triple_def
proof (intro allI impI)
  fix w :: "'a world"
  obtain x' where "x_fs e q (w_x w) = (Some b, x')" using assms [of "w_x w"] by (cases "x_fs e q (w_x w)") auto
  then have "fs_test e q w = (Inr b, w\<lparr>w_x := x'\<rparr>)"
    by (simp add: fs_test_def tbind_def ask_def tret_def)
  then show "case fs_test e q w of (Inl ex, w') \<Rightarrow> False | (Inr r, w') \<Rightarrow> r = b \<and> True" by simp
qed

lemma fs_test_keeps_answer:
  assumes "\<And>x. fst (x_fs e q x) = Some b" "blind I"
  shows "triple I (fs_test e q) (\<lambda>r w. r = b \<and> I w) E"
  by (rule triple_conseq [OF triple_conj_keeps [OF fs_test_answer [OF assms(1), of I] keeps_fs_test [OF assms(2)]]]) auto

lemma terminal_phase:
  assumes "in_set (dgetN d ''phase'') (map PStr [''finalized'', ''repair_required'', ''rolled_back'']) = Inr a"
  shows "a \<longleftrightarrow> settled_phase d"
proof -
  have "py_eq v (PStr s) \<longleftrightarrow> v = PStr s" for s v
    by (cases v) (auto simp: py_eq.simps split: option.splits)
  with assms show ?thesis
    by (auto simp: in_set_def settled_phase_def has_phase_def split: if_splits)
qed

lemma lease_held_young:
  "triple (\<lambda>w. snap_of w i = s) (lease_held e age d) (\<lambda>held w. snap_of w i = s \<and> (\<exists>x. held = young e age d x)) E"
  if "0 \<le> age"
proof (cases "age = 0 \<or> lease_times d = []")
  case True
  then have "lease_held e age d = tret False" "\<not> young e age d x" for x by (auto simp: lease_held_def young_def)
  then show ?thesis by (auto intro: triple_ret)
next
  case False
  show ?thesis
  proof (rule tripleI)
    fix w w' and held :: bool
    assume "snap_of w i = s" "lease_held e age d w = (Inr held, w')"
    with False that show "snap_of w' i = s \<and> (\<exists>x. held = young e age d x)"
      by (cases "x_now e (w_x w)") (auto simp: lease_held_def tbind_def ask_def tret_def young_def snap_of_def intro!: exI [of _ "w_x w"])
  next
    fix w w' ex
    assume "lease_held e age d w = (Inl ex, w')"
    with False show "E ex w'" by (cases "x_now e (w_x w)") (auto simp: lease_held_def tbind_def ask_def tret_def)
  qed
qed

lemma recover_phase_handles:
  assumes "0 \<le> age"
  shows "triple (\<lambda>w. snap_of w i = Doc d) (recover_phase e c age i d)
    (\<lambda>rs w. handled e age i (Doc d) rs (snap_of w i)) (recovery_stopped e c)"
  unfolding recover_phase_def
proof (rule triple_bind_lift, rule triple_if)
  fix a
  assume "in_set (dgetN d ''phase'') (map PStr [''finalized'', ''repair_required'', ''rolled_back'']) = Inr a" a
  then have "settled_phase d" using terminal_phase by blast
  then show "triple (\<lambda>w. snap_of w i = Doc d) (tret []) (\<lambda>rs w. handled e age i (Doc d) rs (snap_of w i)) (recovery_stopped e c)"
    by (auto intro: triple_ret simp: handled_def)
next
  fix a
  assume "in_set (dgetN d ''phase'') (map PStr [''finalized'', ''repair_required'', ''rolled_back'']) = Inr a" "\<not> a"
  then have u: "\<not> settled_phase d" using terminal_phase by blast
  show "triple (\<lambda>w. snap_of w i = Doc d) (tbind (lease_held e age d) (\<lambda>held. if held then tret [] else recover_one e c i d))
      (\<lambda>rs w. handled e age i (Doc d) rs (snap_of w i)) (recovery_stopped e c)"
  proof (rule triple_bind [OF lease_held_young [OF assms]], rule triple_pure)
    fix held and w :: "'a world"
    assume "snap_of w i = Doc d \<and> (\<exists>x. held = young e age d x)"
    then show "\<exists>x. held = young e age d x" by blast
  next
    fix held
    assume "\<exists>x. held = young e age d x"
    then obtain x where x: "held = young e age d x" by blast
    show "triple (\<lambda>w. snap_of w i = Doc d \<and> (\<exists>x. held = young e age d x)) (if held then tret [] else recover_one e c i d)
      (\<lambda>rs w. handled e age i (Doc d) rs (snap_of w i)) (recovery_stopped e c)"
    proof (rule triple_if)
      show "held \<Longrightarrow> triple (\<lambda>w. snap_of w i = Doc d \<and> (\<exists>x. held = young e age d x)) (tret [])
        (\<lambda>rs w. handled e age i (Doc d) rs (snap_of w i)) (recovery_stopped e c)"
        using u x by (intro triple_ret) (auto simp: handled_def)
      show "\<not> held \<Longrightarrow> triple (\<lambda>w. snap_of w i = Doc d \<and> (\<exists>x. held = young e age d x)) (recover_one e c i d)
        (\<lambda>rs w. handled e age i (Doc d) rs (snap_of w i)) (recovery_stopped e c)"
        using u x by (intro recover_one_handles) auto
    qed
  qed
next
  fix ex and w :: "'a world"
  assume "snap_of w i = Doc d"
    "in_set (dgetN d ''phase'') (map PStr [''finalized'', ''repair_required'', ''rolled_back'']) = Inl ex"
  then show "recovery_stopped e c ex w" by (auto simp: in_set_def recovery_stopped_def split: if_splits)
qed

lemma recover_file_handles:
  assumes "\<And>p x. fst (x_fs e (IsSymlink p) x) = Some False" "0 \<le> age"
  shows "triple (\<lambda>w. snap_of w i = s0 \<and> s0 \<noteq> NoFile) (recover_file e c age i)
    (\<lambda>rs w. handled e age i s0 rs (snap_of w i)) (recovery_stopped e c)"
  unfolding recover_file_def
proof (rule triple_bind [OF fs_test_keeps_answer [OF assms(1)]], intro blind_intros, rule triple_if)
  fix link
  let ?I = "\<lambda>w :: 'a world. snap_of w i = s0 \<and> s0 \<noteq> NoFile"
  show "link \<Longrightarrow> triple (\<lambda>w. link = False \<and> ?I w) (tret []) (\<lambda>rs w. handled e age i s0 rs (snap_of w i)) (recovery_stopped e c)"
    by (simp add: triple_def)
  have "triple ?I (read_snapshot e c i) (\<lambda>d w. snap_of w i = Doc d \<and> snap_of w i = s0) (\<lambda>_ _. True)"
    by (rule triple_conseq [OF read_snapshot_triple [where I = "\<lambda>w. snap_of w i = s0"]]) (auto intro: blind_intros)
  then have read: "triple ?I (read_snapshot e c i) (\<lambda>d w. snap_of w i = Doc d \<and> snap_of w i = s0) (recovery_stopped e c)"
    by (rule triple_conseq [OF triple_raises]) (auto simp: recovery_stopped_def)
  have "triple (\<lambda>w. snap_of w i = Doc d \<and> snap_of w i = s0) (recover_phase e c age i d)
      (\<lambda>rs w. handled e age i s0 rs (snap_of w i)) (recovery_stopped e c)" for d
    by (rule triple_pure [where C = "s0 = Doc d"]) (auto intro: triple_pre [OF recover_phase_handles [OF assms(2)]])
  from triple_bind [OF read this]
  show "triple (\<lambda>w. link = False \<and> ?I w) (tbind (read_snapshot e c i) (recover_phase e c age i))
      (\<lambda>rs w. handled e age i s0 rs (snap_of w i)) (recovery_stopped e c)"
    by (rule triple_pre) simp
qed

lemma recover_dir_handles:
  assumes honest: "\<And>p x. fst (x_fs e (IsSymlink p) x) = Some False" "\<And>p x. fst (x_fs e (IsDir p) x) = Some True"
    and age: "0 \<le> age"
  shows "triple (\<lambda>w. snap_of w i = s0) (recover_dir e c age i)
    (\<lambda>rs w. safe_operation_id i \<longrightarrow> handled e age i s0 rs (snap_of w i)) (recovery_stopped e c)"
  unfolding recover_dir_def
proof (rule triple_bind [OF fs_test_keeps_answer [OF honest(1) blind_snap]], rule triple_bind)
  let ?Q = "\<lambda>rs w. safe_operation_id i \<longrightarrow> handled e age i s0 rs (snap_of w i)"
  fix link
  show "triple (\<lambda>w. link = False \<and> snap_of w i = s0) (fs_test e (IsDir (cfg_snapshots c @ [i])))
      (\<lambda>dir w. dir = True \<and> link = False \<and> snap_of w i = s0) (recovery_stopped e c)"
    by (rule fs_test_keeps_answer [OF honest(2)]) (intro blind_intros)
  fix dir
  show "triple (\<lambda>w. dir = True \<and> link = False \<and> snap_of w i = s0) (if link \<or> \<not> dir \<or> \<not> safe_operation_id i then tret []
     else tbind (tget (\<lambda>w. snap_of w i)) (\<lambda>f. if f = NoFile then tret [] else recover_file e c age i))
      ?Q (recovery_stopped e c)"
  proof (rule triple_if)
    show "link \<or> \<not> dir \<or> \<not> safe_operation_id i \<Longrightarrow>
        triple (\<lambda>w. dir = True \<and> link = False \<and> snap_of w i = s0) (tret []) ?Q (recovery_stopped e c)"
      by (auto simp: triple_def tret_def)
    have "triple (\<lambda>w. (dir = True \<and> link = False \<and> snap_of w i = s0) \<and> snap_of w i = f)
        (if f = NoFile then tret [] else recover_file e c age i) ?Q (recovery_stopped e c)" for f
    proof (rule triple_if)
      show "f = NoFile \<Longrightarrow> triple (\<lambda>w. (dir = True \<and> link = False \<and> snap_of w i = s0) \<and> snap_of w i = f) (tret []) ?Q (recovery_stopped e c)"
        by (rule triple_ret) (auto simp: handled_def)
      show "f \<noteq> NoFile \<Longrightarrow> triple (\<lambda>w. (dir = True \<and> link = False \<and> snap_of w i = s0) \<and> snap_of w i = f) (recover_file e c age i) ?Q (recovery_stopped e c)"
        by (rule triple_conseq [OF recover_file_handles [OF honest(1) age, of i s0]]) auto
    qed
    then show "triple (\<lambda>w. dir = True \<and> link = False \<and> snap_of w i = s0)
        (tbind (tget (\<lambda>w. snap_of w i)) (\<lambda>f. if f = NoFile then tret [] else recover_file e c age i)) ?Q (recovery_stopped e c)"
      by (rule triple_bind_get)
  qed
qed

lemma handled_more: "handled e age i s0 rs s \<Longrightarrow> set rs \<subseteq> set ts \<Longrightarrow> handled e age i s0 ts s"
  by (auto simp: handled_def split: snapfile.splits if_splits)

lemma recover_dirs_handle:
  assumes honest: "\<And>p x. fst (x_fs e (IsSymlink p) x) = Some False" "\<And>p x. fst (x_fs e (IsDir p) x) = Some True"
    and age: "0 \<le> age" and safe: "safe_operation_id i"
  shows "distinct js \<Longrightarrow> triple (\<lambda>w. snap_of w i = s0) (recover_dirs e c age js)
    (\<lambda>rs w. if i \<in> set js then handled e age i s0 rs (snap_of w i) else snap_of w i = s0) (recovery_stopped e c)"
proof (induction js arbitrary: s0)
  case (Cons j js)
  have d: "distinct js" using Cons.prems by simp
  have any: "triple P (recover_dir e c age j) (\<lambda>_ _. True) (recovery_stopped e c)" for P
    by (rule tripleI) (auto dest: triple_Inl [OF recover_dir_handles [OF honest age] refl])
  have anys: "triple P (recover_dirs e c age js) (\<lambda>_ _. True) (recovery_stopped e c)" for P
    by (rule tripleI) (auto dest: triple_Inl [OF Cons.IH [OF d] refl])
  show ?case
  proof (cases "j = i")
    case True
    have i: "i \<notin> set js" "distinct js" using Cons.prems True by auto
    have "triple (\<lambda>w. handled e age i s0 r (snap_of w i)) (tbind (recover_dirs e c age js) (\<lambda>rs. tret (r @ rs)))
        (\<lambda>rs w. handled e age i s0 rs (snap_of w i)) (recovery_stopped e c)" for r
    proof (rule triple_bind)
      show "triple (\<lambda>w. handled e age i s0 r (snap_of w i)) (recover_dirs e c age js)
          (\<lambda>_ w. handled e age i s0 r (snap_of w i)) (recovery_stopped e c)"
        by (rule triple_conseq [OF triple_conj_keeps [OF anys keeps_recover_others [OF i(1)]]]) auto
      show "triple (\<lambda>w. handled e age i s0 r (snap_of w i)) (tret (r @ rs))
          (\<lambda>rs w. handled e age i s0 rs (snap_of w i)) (recovery_stopped e c)" for rs
        by (rule triple_ret) (auto elim: handled_more)
    qed
    then have "triple (\<lambda>w. safe_operation_id i \<longrightarrow> handled e age i s0 r (snap_of w i)) (tbind (recover_dirs e c age js) (\<lambda>rs. tret (r @ rs)))
        (\<lambda>rs w. handled e age i s0 rs (snap_of w i)) (recovery_stopped e c)" for r
      by (rule triple_pre) (use safe in simp)
    from triple_bind [OF recover_dir_handles [OF honest age] this] True show ?thesis by simp
  next
    case False
    have first: "triple (\<lambda>w. snap_of w i = s0) (recover_dir e c age j) (\<lambda>_ w. snap_of w i = s0) (recovery_stopped e c)"
      by (rule triple_conseq [OF triple_conj_keeps [OF any keeps_recover_other [OF False [symmetric]]]]) auto
    have rest: "triple (\<lambda>w. snap_of w i = s0) (tbind (recover_dirs e c age js) (\<lambda>rs. tret (r @ rs)))
        (\<lambda>rs w. if i \<in> set js then handled e age i s0 rs (snap_of w i) else snap_of w i = s0) (recovery_stopped e c)" for r
      by (rule triple_bind [OF Cons.IH [OF d]], rule triple_ret) (auto elim: handled_more split: if_splits)
    from triple_bind [OF first rest] False show ?thesis by simp
  qed
qed (simp add: triple_def tret_def)

lemma recover_pending_cases:
  assumes honest: "\<And>p x. fst (x_fs e (IsSymlink p) x) = Some False" "\<And>p x. fst (x_fs e (IsDir p) x) = Some True"
    and safe: "safe_operation_id i" "i \<in> set (map fst (w_dirs w))" and run: "recover_pending e c age w = (r, w')"
  shows "case r of
      Inr rs \<Rightarrow> 0 \<le> age \<and> age \<le> 3600 \<and> handled e age i (snap_of w i) rs (snap_of w' i)
    | Inl ex \<Rightarrow> validate_config_paths e c w = (Inl ex, w') \<or> \<not> (0 \<le> age \<and> age \<le> 3600) \<or> recovery_stopped e c ex w'"
proof -
  obtain v w1 where v: "validate_config_paths e c w = (v, w1)" by (cases "validate_config_paths e c w")
  show ?thesis
  proof (cases v)
    case (Inl ex)
    with run v show ?thesis by (auto simp: recover_pending_def tbind_def)
  next
    case (Inr u)
    show ?thesis
    proof (cases "0 \<le> age \<and> age \<le> 3600")
      case False
      with run v Inr show ?thesis
        by (auto simp: recover_pending_def tbind_def tguard_def tfail_def traise_def)
    next
      case True
      let ?names = "sorted_set (map fst (w_dirs w1))"
      have "w_dirs w1 = w_dirs w"
        using keepsD [OF keeps_config_paths [where I = "\<lambda>u. w_dirs u = w_dirs w"] refl v] by (simp add: blind_def)
      then have same: "snap_of w1 i = snap_of w i" "i \<in> set ?names" "distinct ?names"
        using safe(2) by (simp_all add: snap_of_def set_sorted_set distinct_sorted_set)
      have loop: "recover_dirs e c age ?names w1 = (r, w')"
        using run v Inr True by (simp add: recover_pending_def tbind_def tguard_def tret_def tget_def)
      note t = recover_dirs_handle [OF honest conjunct1 [OF True] safe(1) same(3), of "snap_of w i" c]
      show ?thesis
        using triple_Inr [OF t same(1)] triple_Inl [OF t same(1)] loop True same(2) by (cases r) auto
    qed
  qed
qed

end
