(* ===== verification/Txn_Spool.thy ===== *)
theory Txn_Spool
  imports Txn_Recovery
begin

text \<open>
  The spool: requests are files named after the operation and the action; each is checked,
  handed to the transaction, answered with a result file of the same name and removed.
\<close>

section \<open>Names and envelopes\<close>

definition spool_name :: "string \<Rightarrow> (string \<times> string) option" where
  "spool_name name = (case py_split (CHR ''.'') name of
     [i, a, ext] \<Rightarrow>
       if safe_operation_id i \<and> a \<in> {''apply'', ''renew'', ''finalize'', ''rollback''} \<and> ext = ''json''
       then Some (i, a) else None
   | _ \<Rightarrow> None)"

definition expected_fields :: "string \<Rightarrow> string list" where
  "expected_fields a = [''action'', ''operationId'']
     @ (if a = ''apply'' then [''request''] else if a = ''renew'' then [''heartbeatId''] else [])"

definition allowed_status :: "string \<Rightarrow> string list" where
  "allowed_status a =
     [if a = ''apply'' then ''applied'' else if a = ''renew'' then ''renewed''
      else if a = ''finalize'' then ''finalized'' else ''rolled_back'', ''failed'', ''repair_required'']"

definition heartbeat_text :: "string \<Rightarrow> bool" where
  "heartbeat_text s = (length s = 32 \<and> list_all hex_lower_char s)"

definition envelope_detail :: "string \<Rightarrow> string \<Rightarrow> pydict \<Rightarrow> bool" where
  "envelope_detail i a d =
     (if a = ''apply'' then (case dgetN d ''request'' of PDict r \<Rightarrow> dgetN r ''operationId'' = PStr i | _ \<Rightarrow> False)
      else if a = ''renew'' then (case dgetN d ''heartbeatId'' of PStr s \<Rightarrow> heartbeat_text s | _ \<Rightarrow> False)
      else True)"

definition read_envelope ::
  "'x outside \<Rightarrow> path \<Rightarrow> string \<Rightarrow> string \<Rightarrow> string \<Rightarrow> spool_file \<Rightarrow> ('x, pydict) tx" where
  "read_envelope e dir name i a f =
     tbind (require_regular_file e (dir @ [name])) (\<lambda>_.
     tbind (tguard (0 < sf_size f \<and> sf_size f \<le> 16 * 1024) ''invalid_request'') (\<lambda>_.
     tbind (fs_must e (ReadFrom (dir @ [name])) ''invalid_request'') (\<lambda>_.
     case sf_text f of
       NotJson \<Rightarrow> tfail ''invalid_request''
     | NotText \<Rightarrow> traise (PyError ValueError)
     | Parsed v \<Rightarrow>
         (case v of
            PDict d \<Rightarrow>
              tbind (tguard (set (map fst d) = set (expected_fields a) \<and> dgetN d ''action'' = PStr a
                 \<and> dgetN d ''operationId'' = PStr i \<and> envelope_detail i a d) ''invalid_request'') (\<lambda>_. tret d)
          | _ \<Rightarrow> tfail ''invalid_request''))))"

section \<open>Handling one request\<close>

definition manager_call :: "'x outside \<Rightarrow> txconfig \<Rightarrow> string \<Rightarrow> string \<Rightarrow> pydict \<Rightarrow> ('x, pydict) tx" where
  "manager_call e c i a d =
     (if a = ''apply'' then apply_request e c (dgetN d ''request'')
      else if a = ''renew'' then renew e c i
      else if a = ''finalize'' then finalize e c i
      else rollback e c i)"

definition checked_result :: "string \<Rightarrow> string \<Rightarrow> pydict \<Rightarrow> txexc + pydict" where
  "checked_result i a r =
     (case (dgetN r ''status'', dget_or r ''errorCode'' (PStr [])) of
        (PStr s, PStr code) \<Rightarrow>
          if dgetN r ''operationId'' = PStr i \<and> error_code_text code \<and> s \<in> set (allowed_status a) then Inr (result i s code)
          else Inl (TxError ''transaction_failed'')
      | _ \<Rightarrow> Inl (TxError ''transaction_failed''))"

text \<open>Every exception but a crash becomes a failed result.\<close>

definition failed_result :: "string \<Rightarrow> txexc \<Rightarrow> ('x, pydict) tx" where
  "failed_result i ex = (case ex of
     SimulatedCrash \<Rightarrow> traise ex
   | TxError code \<Rightarrow> tret (result i ''failed'' code)
   | PyError p \<Rightarrow> tret (result i ''failed'' (if p = OSError then ''invalid_request'' else ''transaction_failed''))
   | SqlError \<Rightarrow> tret (result i ''failed'' ''transaction_failed''))"

definition with_heartbeat :: "string \<Rightarrow> pydict \<Rightarrow> pydict \<Rightarrow> pydict" where
  "with_heartbeat a d r = (if a = ''renew'' then r @ [(''heartbeatId'', dgetN d ''heartbeatId'')] else r)"

definition answer ::
  "'x outside \<Rightarrow> txconfig \<Rightarrow> path \<Rightarrow> string \<Rightarrow> string \<Rightarrow> string \<Rightarrow> spool_file \<Rightarrow> ('x, pydict) tx" where
  "answer e c dir name i a f =
     tcatch (tbind (read_envelope e dir name i a f) (\<lambda>d.
         tbind (tcatch (tbind (manager_call e c i a d) (\<lambda>r. tlift (checked_result i a r))) (failed_result i)) (\<lambda>r.
         tret (with_heartbeat a d r))))
       (failed_result i)"

text \<open>The result file: an \<open>OSError\<close> anywhere is \<open>result_write_failed\<close>.\<close>

definition fs_expect :: "'x outside \<Rightarrow> fsq \<Rightarrow> bool \<Rightarrow> string \<Rightarrow> ('x, unit) tx" where
  "fs_expect e q b code = tbind (ask (x_fs e q)) (\<lambda>r.
     case r of None \<Rightarrow> tfail ''result_write_failed'' | Some v \<Rightarrow> tguard (v = b) code)"

definition spool_atomic_result :: "'x outside \<Rightarrow> path \<Rightarrow> string \<Rightarrow> pydict \<Rightarrow> ('x, unit) tx" where
  "spool_atomic_result e dir name r =
     tbind (reject_symlink_components e dir) (\<lambda>_.
     tbind (fs_expect e (MakeDir dir) True ''result_write_failed'') (\<lambda>_.
     tbind (fs_expect e (IsSymlink dir) False ''unsafe_path'') (\<lambda>_.
     tbind (fs_expect e (IsDir dir) True ''unsafe_path'') (\<lambda>_.
     tbind (fs_expect e (Chmod dir) True ''result_write_failed'') (\<lambda>_.
     tbind (fs_expect e (IsSymlink (dir @ [name])) False ''unsafe_path'') (\<lambda>_.
     tbind (fs_expect e (OpenNew (dir @ [CHR ''.'' # name @ ''.tmp''])) True ''result_write_failed'') (\<lambda>_.
     tbind (fs_expect e (WriteTo (dir @ [CHR ''.'' # name @ ''.tmp''])) True ''result_write_failed'') (\<lambda>_.
     tbind (fs_expect e (Replace (dir @ [name])) True ''result_write_failed'') (\<lambda>_.
     tbind (tput (\<lambda>w. w\<lparr>w_results := AList.update name r (w_results w)\<rparr>)) (\<lambda>_.
     fs_expect e (Chmod (dir @ [name])) True ''result_write_failed''))))))))))"

definition remove_request :: "'x outside \<Rightarrow> path \<Rightarrow> string \<Rightarrow> ('x, unit) tx" where
  "remove_request e dir name =
     tbind (fs_must e (Unlink (dir @ [name])) ''request_cleanup_failed'') (\<lambda>_.
     tput (\<lambda>w. w\<lparr>w_requests := AList.delete name (w_requests w)\<rparr>))"

definition process_request ::
  "'x outside \<Rightarrow> txconfig \<Rightarrow> path \<Rightarrow> path \<Rightarrow> string \<Rightarrow> spool_file \<Rightarrow> ('x, pydict list) tx" where
  "process_request e c req_dir res_dir name f = (case spool_name name of
     None \<Rightarrow> tret []
   | Some (i, a) \<Rightarrow>
       tbind (answer e c req_dir name i a f) (\<lambda>r.
       tbind (spool_atomic_result e res_dir name r) (\<lambda>_.
       tbind (remove_request e req_dir name) (\<lambda>_. tret [r]))))"

fun process_requests ::
  "'x outside \<Rightarrow> txconfig \<Rightarrow> path \<Rightarrow> path \<Rightarrow> (string \<times> spool_file) list \<Rightarrow> ('x, pydict list) tx" where
  "process_requests e c req_dir res_dir [] = tret []"
| "process_requests e c req_dir res_dir ((name, f) # fs) =
     tbind (process_request e c req_dir res_dir name f) (\<lambda>r.
     tbind (process_requests e c req_dir res_dir fs) (\<lambda>rs. tret (r @ rs)))"

definition process_spool :: "'x outside \<Rightarrow> txconfig \<Rightarrow> path \<Rightarrow> path \<Rightarrow> ('x, pydict list) tx" where
  "process_spool e c req_dir res_dir =
     tbind (reject_symlink_components e req_dir) (\<lambda>_.
     tbind (reject_symlink_components e res_dir) (\<lambda>_.
     tbind (fs_must_not e (IsSymlink req_dir) ''unsafe_path'') (\<lambda>_.
     tbind (fs_must e (IsDir req_dir) ''unsafe_path'') (\<lambda>_.
     tbind (fs_must_not e (IsSymlink res_dir) ''unsafe_path'') (\<lambda>_.
     tbind (fs_must e (IsDir res_dir) ''unsafe_path'') (\<lambda>_.
     tbind (tget (\<lambda>w. sort_key fst (w_requests w))) (\<lambda>fs.
     process_requests e c req_dir res_dir fs)))))))"

definition process_spool_cycle ::
  "'x outside \<Rightarrow> txconfig \<Rightarrow> path \<Rightarrow> path \<Rightarrow> ('x, pydict list \<times> pydict list) tx" where
  "process_spool_cycle e c req_dir res_dir =
     tbind (process_spool e c req_dir res_dir) (\<lambda>operations.
     tbind (recover_pending e c 180) (\<lambda>recovered. tret (recovered, operations)))"

section \<open>The transaction does not touch the spool\<close>

definition spool_only :: "('x world \<Rightarrow> bool) \<Rightarrow> bool" where
  "spool_only I = (\<forall>w w'. w_requests w = w_requests w' \<longrightarrow> w_results w = w_results w' \<longrightarrow> I w = I w')"

lemma spool_only_updates [simp]:
  assumes "spool_only I"
  shows "I (w\<lparr>w_x := x\<rparr>) = I w" "I (w\<lparr>w_db := db\<rparr>) = I w" "I (w\<lparr>w_profiles := ps\<rparr>) = I w"
    "I (put_snap i s w) = I w" "I (put_temps i ts w) = I w" "I (drop_dir i w) = I w"
  by (rule assms [unfolded spool_only_def, rule_format];
      simp add: put_snap_def put_temps_def drop_dir_def)+

lemma spool_only_blind [intro, simp]: "spool_only I \<Longrightarrow> blind I"
  by (simp add: blind_def)

lemma keeps_spool_rollback:
  assumes "spool_only I"
  shows "keeps I (rollback_snapshot e c i b)"
  by (rule keeps_rollback_other) (use assms in auto)

lemma keeps_spool_target: "spool_only I \<Longrightarrow> keeps I (load_target e c req)"
  unfolding load_target_def by (auto intro!: keeps_intros)

lemma keeps_spool_validate: "spool_only I \<Longrightarrow> keeps I (validate_request e c v)"
  unfolding validate_request_def
  by (cases v) (auto intro!: keeps_intros keeps_spool_target)

lemma keeps_spool_phases: "spool_only I \<Longrightarrow> keeps I (apply_phases e c i s t snap)"
  unfolding apply_phases_def offline_phase_def runtime_phase_def database_phase_def Let_def persist_template_def
  by (auto intro!: keeps_intros keeps_transaction)

lemma keeps_spool_apply:
  assumes "spool_only I"
  shows "keeps I (apply_request e c v)"
  unfolding apply_request_def apply_fresh_def apply_failed_def mark_repair_def Let_def
  by (intro keeps_intros keeps_spool_validate keeps_spool_target keeps_spool_phases keeps_spool_rollback)
    (use assms in auto)

lemma keeps_spool_calls:
  assumes "spool_only I"
  shows "keeps I (manager_call e c i a d)"
  unfolding manager_call_def renew_def finalize_def rollback_def
  by (intro keeps_intros keeps_spool_apply keeps_spool_rollback) (use assms in auto)

section \<open>Every request is answered\<close>

lemma keeps_read_envelope: "blind I \<Longrightarrow> keeps I (read_envelope e dir name i a f)"
proof -
  assume I: "blind I"
  have "keeps I (case sf_text f of
       NotJson \<Rightarrow> tfail ''invalid_request''
     | NotText \<Rightarrow> traise (PyError ValueError)
     | Parsed v \<Rightarrow>
         (case v of
            PDict d \<Rightarrow>
              tbind (tguard (set (map fst d) = set (expected_fields a) \<and> dgetN d ''action'' = PStr a
                 \<and> dgetN d ''operationId'' = PStr i \<and> envelope_detail i a d) ''invalid_request'') (\<lambda>_. tret d)
          | _ \<Rightarrow> tfail ''invalid_request''))"
    by (auto intro!: keeps_intros split: spool_text.split)
  with I show ?thesis unfolding read_envelope_def by (intro keeps_intros)
qed

lemma keeps_failed: "keeps I (failed_result i ex)"
  unfolding failed_result_def by (cases ex) (auto intro!: keeps_intros)

lemma keeps_answer:
  assumes "spool_only I"
  shows "keeps I (answer e c dir name i a f)"
  unfolding answer_def
  by (intro keeps_intros keeps_read_envelope keeps_failed keeps_spool_calls) (use assms in auto)

text \<open>The code a result reports for an exception.\<close>

definition code_of :: "txexc \<Rightarrow> string" where
  "code_of ex = (case ex of TxError code \<Rightarrow> code
     | PyError p \<Rightarrow> if p = OSError then ''invalid_request'' else ''transaction_failed'' | _ \<Rightarrow> ''transaction_failed'')"

text \<open>A reply of the manager that may be passed on.\<close>

definition conforming :: "string \<Rightarrow> string \<Rightarrow> pydict \<Rightarrow> string \<Rightarrow> string \<Rightarrow> bool" where
  "conforming i a m s code \<longleftrightarrow> dgetN m ''operationId'' = PStr i \<and> dgetN m ''status'' = PStr s \<and> s \<in> set (allowed_status a)
     \<and> dget_or m ''errorCode'' (PStr []) = PStr code \<and> error_code_text code"

text \<open>The status and code that answer a request: of the envelope that is not accepted, of what the
  manager raised, or of what it returned.\<close>

definition outcome_of :: "string \<Rightarrow> string \<Rightarrow> txexc + pydict \<Rightarrow> string \<Rightarrow> string \<Rightarrow> bool" where
  "outcome_of i a called s code \<longleftrightarrow> (case called of
     Inl ex \<Rightarrow> ex \<noteq> SimulatedCrash \<and> s = ''failed'' \<and> code = code_of ex
   | Inr m \<Rightarrow> conforming i a m s code
       \<or> (\<nexists>s code. conforming i a m s code) \<and> s = ''failed'' \<and> code = ''transaction_failed'')"

definition good_answer ::
  "'x outside \<Rightarrow> txconfig \<Rightarrow> path \<Rightarrow> string \<Rightarrow> spool_file \<Rightarrow> string \<Rightarrow> string \<Rightarrow> pydict \<Rightarrow> bool" where
  "good_answer e c dir name f i a r \<longleftrightarrow>
     (\<exists>s \<in> set (allowed_status a). dget r ''operationId'' = Some (PStr i) \<and> dget r ''status'' = Some (PStr s))
   \<and> ((\<exists>w w' ex. read_envelope e dir name i a f w = (Inl ex, w') \<and> ex \<noteq> SimulatedCrash
          \<and> r = result i ''failed'' (code_of ex))
     \<or> (\<exists>d v v' w w' called s code. read_envelope e dir name i a f v = (Inr d, v') \<and> manager_call e c i a d w = (called, w')
          \<and> outcome_of i a called s code
          \<and> r = result i s code @ (if a = ''renew'' then [(''heartbeatId'', dgetN d ''heartbeatId'')] else [])))"

lemma failed_allowed: "''failed'' \<in> set (allowed_status a)"
  by (simp add: allowed_status_def)

lemma dget_append: "dget (d @ e) k = (case dget d k of None \<Rightarrow> dget e k | Some v \<Rightarrow> Some v)"
  by (induction d) auto

lemma result_fields: "dget (result i s code @ d) ''operationId'' = Some (PStr i)" "dget (result i s code @ d) ''status'' = Some (PStr s)"
  by (simp_all add: result_def)

lemma outcome_status: "outcome_of i a called s code \<Longrightarrow> s \<in> set (allowed_status a)"
  by (auto simp: outcome_of_def conforming_def failed_allowed split: sum.splits)

lemma failed_triple:
  "triple P (failed_result i ex) (\<lambda>r _. ex \<noteq> SimulatedCrash \<and> r = result i ''failed'' (code_of ex)) (\<lambda>x _. x = SimulatedCrash)"
  unfolding failed_result_def code_of_def by (cases ex) (simp_all add: triple_def tret_def traise_def)

lemma checked_result_cases:
  "case checked_result i a m of Inr r \<Rightarrow> \<exists>s code. conforming i a m s code \<and> r = result i s code
     | Inl ex \<Rightarrow> ex = TxError ''transaction_failed'' \<and> (\<nexists>s code. conforming i a m s code)"
  unfolding checked_result_def conforming_def
  by (cases "dgetN m ''status''"; cases "dget_or m ''errorCode'' (PStr [])") auto

lemma raised_triple: "triple P m (\<lambda>r w'. \<exists>w. m w = (Inr r, w')) (\<lambda>ex w'. \<exists>w. m w = (Inl ex, w'))"
  by (rule tripleI) auto

lemma called_triple:
  "triple P (tcatch (tbind (manager_call e c i a d) (\<lambda>r. tlift (checked_result i a r))) (failed_result i))
     (\<lambda>r _. \<exists>w w' called s code. manager_call e c i a d w = (called, w') \<and> outcome_of i a called s code \<and> r = result i s code)
     (\<lambda>x _. x = SimulatedCrash)"
proof -
  let ?Q = "\<lambda>r _. \<exists>w w' called s code. manager_call e c i a d w = (called, w') \<and> outcome_of i a called s code \<and> r = result i s code"
  let ?R = "\<lambda>ex _. (\<exists>w w'. manager_call e c i a d w = (Inl ex, w')) \<or> (ex = TxError ''transaction_failed''
      \<and> (\<exists>w w' m. manager_call e c i a d w = (Inr m, w') \<and> (\<nexists>s code. conforming i a m s code)))"
  have lift: "triple (\<lambda>w'. \<exists>w. manager_call e c i a d w = (Inr m, w')) (tlift (checked_result i a m)) ?Q ?R" for m
    using checked_result_cases [of i a m] unfolding outcome_of_def
    by (cases "checked_result i a m") (fastforce simp: triple_def tlift_def)+
  have "triple P (tbind (manager_call e c i a d) (\<lambda>r. tlift (checked_result i a r))) ?Q ?R"
    by (rule triple_bind [OF triple_conseq [OF raised_triple] lift]) auto
  moreover have "triple (?R ex) (failed_result i ex) ?Q (\<lambda>x _. x = SimulatedCrash)" for ex
  proof (rule triple_pure)
    assume h: "(\<exists>w w'. manager_call e c i a d w = (Inl ex, w')) \<or> (ex = TxError ''transaction_failed''
      \<and> (\<exists>w w' m. manager_call e c i a d w = (Inr m, w') \<and> (\<nexists>s code. conforming i a m s code)))"
    show "triple (?R ex) (failed_result i ex) ?Q (\<lambda>x _. x = SimulatedCrash)"
      by (rule triple_conseq [OF failed_triple])
        (use h in \<open>fastforce simp: outcome_of_def code_of_def\<close>)+
  qed blast
  ultimately show ?thesis by (rule triple_catch)
qed

lemma answer_good: "triple P (answer e c dir name i a f) (\<lambda>r _. good_answer e c dir name f i a r) (\<lambda>x _. x = SimulatedCrash)"
proof -
  let ?Q = "\<lambda>r _. good_answer e c dir name f i a r"
  let ?R = "\<lambda>ex (_ :: 'a world). ex = SimulatedCrash \<or> (\<exists>w w'. read_envelope e dir name i a f w = (Inl ex, w'))"
  have kept: "triple (\<lambda>v'. \<exists>v. read_envelope e dir name i a f v = (Inr d, v'))
      (tbind (tcatch (tbind (manager_call e c i a d) (\<lambda>r. tlift (checked_result i a r))) (failed_result i))
        (\<lambda>r. tret (with_heartbeat a d r))) ?Q ?R" for d
  proof (rule triple_pure)
    assume d: "\<exists>v v'. read_envelope e dir name i a f v = (Inr d, v')"
    have fin: "good_answer e c dir name f i a (with_heartbeat a d r)"
      if "\<exists>w w' called s code. manager_call e c i a d w = (called, w') \<and> outcome_of i a called s code \<and> r = result i s code" for r
      using that d outcome_status unfolding good_answer_def with_heartbeat_def
      by (auto simp: result_fields result_fields [where d = "[]", simplified]) blast+
    show "triple (\<lambda>v'. \<exists>v. read_envelope e dir name i a f v = (Inr d, v'))
      (tbind (tcatch (tbind (manager_call e c i a d) (\<lambda>r. tlift (checked_result i a r))) (failed_result i))
        (\<lambda>r. tret (with_heartbeat a d r))) ?Q ?R"
      by (rule triple_bind [OF triple_conseq [OF called_triple]], assumption, assumption, simp, rule triple_ret, rule fin, assumption)
  qed blast
  have caught: "triple (?R ex) (failed_result i ex) ?Q (\<lambda>x _. x = SimulatedCrash)" for ex
  proof (rule triple_pure)
    assume h: "ex = SimulatedCrash \<or> (\<exists>w w'. read_envelope e dir name i a f w = (Inl ex, w'))"
    show "triple (?R ex) (failed_result i ex) ?Q (\<lambda>x _. x = SimulatedCrash)"
      by (rule triple_conseq [OF failed_triple])
        (use h in \<open>auto simp: good_answer_def failed_allowed result_fields [where d = "[]", simplified] intro: bexI [OF _ failed_allowed]\<close>)
  qed blast
  show ?thesis
    unfolding answer_def
    by (rule triple_catch [OF triple_bind [OF triple_conseq [OF raised_triple] kept] caught]) auto
qed

lemma keys_delete: "fst ` set (AList.delete k al) = fst ` set al - {k}"
  by (metis delete_keys list.set_map set_removeAll)

definition answered ::
  "'x outside \<Rightarrow> txconfig \<Rightarrow> path \<Rightarrow> string \<Rightarrow> spool_file \<Rightarrow> string \<Rightarrow> string \<Rightarrow> 'x world \<Rightarrow> bool" where
  "answered e c dir name f i a w = (name \<notin> fst ` set (w_requests w)
     \<and> (\<exists>r. map_of (w_results w) name = Some r \<and> good_answer e c dir name f i a r))"

text \<open>What can stop a pass: the directories of the spool, a crash, the writing of a result or the removal of a request.\<close>

definition spool_stopped :: "'x outside \<Rightarrow> path \<Rightarrow> path \<Rightarrow> txexc \<Rightarrow> 'x world \<Rightarrow> bool" where
  "spool_stopped e rq rs ex w' \<longleftrightarrow> ex = SimulatedCrash
   \<or> (\<exists>d \<in> {rq, rs}. \<exists>w. reject_symlink_components e d w = (Inl ex, w')
        \<or> fs_must_not e (IsSymlink d) ''unsafe_path'' w = (Inl ex, w') \<or> fs_must e (IsDir d) ''unsafe_path'' w = (Inl ex, w'))
   \<or> (\<exists>name r w. spool_atomic_result e rs name r w = (Inl ex, w'))
   \<or> (\<exists>name w. remove_request e rq name w = (Inl ex, w'))"

lemma blind_answered [simp]: "blind (answered e c dir name f i a)"
  by (simp add: blind_def answered_def)

lemma keeps_fs_expect [keeps_intros]: "blind I \<Longrightarrow> keeps I (fs_expect e q b code)"
  unfolding fs_expect_def by (auto intro!: keeps_intros)

lemma triple_stopped:
  assumes "triple P m Q (\<lambda>_ _. True)" "\<And>ex w w'. m w = (Inl ex, w') \<Longrightarrow> E ex w'"
  shows "triple P m Q E"
  by (rule triple_conseq [OF triple_raises [OF assms(1)]]) (use assms(2) in blast)+

lemma process_request_answers:
  assumes "spool_name name = Some (i, a)"
  shows "triple P (process_request e c rq rs name f) (\<lambda>_. answered e c rq name f i a) (spool_stopped e rq rs)"
proof -
  let ?g = "good_answer e c rq name f i a"
  let ?R = "\<lambda>w. \<exists>r. map_of (w_results w) name = Some r \<and> ?g r"
  have R: "blind ?R" by (simp add: blind_def)
  have pre: "triple (\<lambda>_. ?g r) m (\<lambda>_ _. ?g r) (\<lambda>_ _. True)" for r and m :: "('a, unit) tx"
    by (simp add: triple_def split: prod.splits sum.splits)
  have store: "triple (\<lambda>_. ?g r) (tbind (tput (\<lambda>w. w\<lparr>w_results := AList.update name r (w_results w)\<rparr>))
      (\<lambda>_. fs_expect e (Chmod (rs @ [name])) True ''result_write_failed'')) (\<lambda>_. ?R) (\<lambda>_ _. True)" for r
  proof (rule triple_bind)
    show "triple (\<lambda>_. ?g r) (tput (\<lambda>w. w\<lparr>w_results := AList.update name r (w_results w)\<rparr>)) (\<lambda>_. ?R) (\<lambda>_ _. True)"
      by (simp add: triple_def tput_def update_conv)
    show "triple ?R (fs_expect e (Chmod (rs @ [name])) True ''result_write_failed'') (\<lambda>_. ?R) (\<lambda>_ _. True)"
      by (rule triple_keeps [OF keeps_fs_expect [OF R]]) auto
  qed
  have "triple (\<lambda>_. ?g r) (spool_atomic_result e rs name r) (\<lambda>_. ?R) (\<lambda>_ _. True)" for r
    unfolding spool_atomic_result_def by (intro triple_bind [OF pre] store)
  then have written: "triple (\<lambda>_. ?g r) (spool_atomic_result e rs name r) (\<lambda>_. ?R) (spool_stopped e rq rs)" for r
    by (rule triple_stopped) (auto simp: spool_stopped_def)
  have "triple ?R (remove_request e rq name) (\<lambda>_. answered e c rq name f i a) (\<lambda>_ _. True)"
    unfolding remove_request_def
    by (rule triple_keep_bind [OF keeps_fs_must [OF R]])
      (auto simp: triple_def tput_def answered_def keys_delete)
  then have removed: "triple ?R (remove_request e rq name) (\<lambda>_. answered e c rq name f i a) (spool_stopped e rq rs)"
    by (rule triple_stopped) (auto simp: spool_stopped_def)
  have good: "triple P (answer e c rq name i a f) (\<lambda>r _. ?g r) (spool_stopped e rq rs)"
    by (rule triple_conseq [OF answer_good]) (auto simp: spool_stopped_def)
  have "triple (answered e c rq name f i a) (tret [r]) (\<lambda>_. answered e c rq name f i a) (spool_stopped e rq rs)" for r
    by (rule triple_ret)
  from triple_bind [OF good triple_bind [OF written triple_bind [OF removed this]]]
  show ?thesis by (simp add: process_request_def assms)
qed

lemma process_request_stops: "triple P (process_request e c rq rs name f) (\<lambda>_ _. True) (spool_stopped e rq rs)"
proof (cases "spool_name name")
  case None
  then show ?thesis by (auto simp: process_request_def intro: triple_ret)
next
  case (Some ia)
  then show ?thesis
    by (cases ia) (auto intro: triple_conseq [OF process_request_answers])
qed

lemma process_requests_stop: "triple P (process_requests e c rq rs fs) (\<lambda>_ _. True) (spool_stopped e rq rs)"
proof (induction fs arbitrary: P)
  case (Cons p fs)
  obtain name f where "p = (name, f)" by (cases p)
  then show ?case
    using triple_bind [OF process_request_stops triple_bind [OF Cons.IH triple_ret]] by fastforce
qed (simp add: triple_ret)

lemma keeps_other_request:
  assumes "name \<noteq> other"
  shows "keeps (answered e' c' dir name f' i a) (process_request e c rq rs other f)"
proof -
  let ?A = "answered e' c' dir name f' i a"
  have I: "spool_only ?A" by (simp add: spool_only_def answered_def)
  have "keeps ?A (spool_atomic_result e rs other r)" for r
    unfolding spool_atomic_result_def using assms
    by (intro keeps_intros blind_answered) (simp add: answered_def update_conv)
  moreover have "keeps ?A (remove_request e rq other)"
    unfolding remove_request_def using assms
    by (intro keeps_intros blind_answered) (auto simp: answered_def keys_delete)
  ultimately show ?thesis
    unfolding process_request_def
    by (cases "spool_name other") (auto intro!: keeps_intros keeps_answer [OF I] split: prod.splits)
qed

lemma keeps_other_requests:
  "name \<notin> fst ` set fs \<Longrightarrow> keeps (answered e' c' dir name f' i a) (process_requests e c rq rs fs)"
  by (induction fs) (auto intro!: keeps_intros keeps_other_request)

lemma process_requests_answer:
  assumes "spool_name name = Some (i, a)" "distinct (map fst fs)" "(name, f) \<in> set fs"
  shows "triple P (process_requests e c rq rs fs) (\<lambda>_. answered e c rq name f i a) (spool_stopped e rq rs)"
  using assms(2,3)
proof (induction fs arbitrary: P)
  case (Cons p fs)
  obtain other g where p: "p = (other, g)" by (cases p)
  let ?A = "answered e c rq name f i a"
  show ?case
  proof (cases "other = name")
    case True
    with Cons.prems p have f: "g = f" "name \<notin> fst ` set fs" by (auto simp: image_iff)
    have "triple ?A (process_requests e c rq rs fs) (\<lambda>_. ?A) (spool_stopped e rq rs)"
      by (rule triple_conseq [OF triple_conj_keeps [OF process_requests_stop [of ?A] keeps_other_requests [OF f(2)]]]) auto
    then have "triple ?A (tbind (process_requests e c rq rs fs) (\<lambda>xs. tret (r @ xs))) (\<lambda>_. ?A) (spool_stopped e rq rs)" for r
      by (rule triple_bind) (rule triple_ret)
    then show ?thesis
      unfolding p True f(1) process_requests.simps by (rule triple_bind [OF process_request_answers [OF assms(1)]])
  next
    case False
    have "triple (\<lambda>_. True) (tbind (process_requests e c rq rs fs) (\<lambda>xs. tret (r @ xs))) (\<lambda>_. ?A) (spool_stopped e rq rs)" for r
      using Cons.IH Cons.prems False p
      by (intro triple_bind [where R = "\<lambda>_. ?A"] triple_ret) auto
    then show ?thesis unfolding p process_requests.simps by (rule triple_bind [OF process_request_stops])
  qed
qed simp

lemma process_spool_answers:
  assumes "spool_name name = Some (i, a)"
  shows "triple (\<lambda>w. (name, f) \<in> set (w_requests w) \<and> distinct (map fst (w_requests w)))
    (process_spool e c rq rs) (\<lambda>_. answered e c rq name f i a) (spool_stopped e rq rs)"
proof -
  let ?I = "\<lambda>w. (name, f) \<in> set (w_requests w) \<and> distinct (map fst (w_requests w))"
  have I: "blind ?I" by (simp add: blind_def)
  have loop: "triple ?I (tbind (tget (\<lambda>w. sort_key fst (w_requests w))) (process_requests e c rq rs))
      (\<lambda>_. answered e c rq name f i a) (spool_stopped e rq rs)"
  proof (rule triple_bind_get, rule triple_pure)
    fix fs :: "(string \<times> spool_file) list"
    assume "(name, f) \<in> set fs \<and> distinct (map fst fs)"
    then show "triple (\<lambda>w. ?I w \<and> sort_key fst (w_requests w) = fs) (process_requests e c rq rs fs)
      (\<lambda>_. answered e c rq name f i a) (spool_stopped e rq rs)"
      using process_requests_answer [OF assms] by blast
  qed (auto simp: distinct_map)
  have first: "triple ?I m (\<lambda>_. ?I) (spool_stopped e rq rs)"
    if "keeps ?I m" "\<And>ex w w'. m w = (Inl ex, w') \<Longrightarrow> spool_stopped e rq rs ex w'" for m :: "('a, unit) tx"
    by (rule triple_stopped [OF triple_keeps [OF that(1)] that(2)]) auto
  have checks: "triple ?I (reject_symlink_components e d) (\<lambda>_. ?I) (spool_stopped e rq rs)"
    "triple ?I (fs_must_not e (IsSymlink d) ''unsafe_path'') (\<lambda>_. ?I) (spool_stopped e rq rs)"
    "triple ?I (fs_must e (IsDir d) ''unsafe_path'') (\<lambda>_. ?I) (spool_stopped e rq rs)" if "d \<in> {rq, rs}" for d
    by (rule first, intro keeps_reject keeps_fs_must keeps_fs_must_not I, use that in \<open>auto simp: spool_stopped_def\<close>)+
  show ?thesis
    unfolding process_spool_def
    by (intro triple_bind [OF checks(1)] triple_bind [OF checks(2)] triple_bind [OF checks(3)] loop) simp_all
qed

end
