(* ===== verification/Txn_Claims.thy ===== *)
theory Txn_Claims
  imports Txn_Example Txn_Modes Txn_Spool
begin

text \<open>
  The properties of the protocol transaction, each with a witness on the concrete run.
\<close>

section \<open>Properties\<close>

text \<open>C2. An apply that fails leaves the database of the panel as it found it: when a request
  for a new operation ends in an error other than rollback_failed (and is not cut off by a
  crash), every row of the database is what it was before, wherever the failure happened: in a
  check, in the offline test, in an Xray command, in the database transaction, in writing a
  snapshot or in the final verification.\<close>

theorem failed_apply_changes_nothing:
  assumes "wf_db (w_db w)" "snap_of w (req_str d ''operationId'') = NoFile"
    and "apply_request e c (PDict d) w = (Inl ex, w')"
    and "ex \<noteq> SimulatedCrash" "ex \<noteq> TxError ''rollback_failed''"
  shows "w_db w' = w_db w"
  using triple_Inl [OF apply_request_triple [OF assms(1) refl] _ assms(3)] assms(2,4,5)
  by (simp add: unfinished_error_def)

theorem failed_apply_changes_nothing_witness:
  "let r = apply_request (run_outside (TxError ''injected'')) run_config (PDict run_request) run_start in
   fst r = Inl (TxError ''injected'') \<and> w_db (snd r) = run_db"
proof -
  have run: "apply_request (run_outside (TxError ''injected'')) run_config (PDict run_request) run_start
      = (Inl (TxError ''injected''), run_world run_db [])"
    unfolding run_apply by (simp add: apply_failed_def tbind_def tcatch_def run_rollback traise_def)
  have wf: "wf_db (w_db run_start)" by code_simp
  have fresh: "snap_of run_start (req_str run_request ''operationId'') = NoFile" by code_simp
  have "w_db (run_world run_db []) = w_db run_start"
    by (rule failed_apply_changes_nothing [OF wf fresh run]) simp_all
  with run show ?thesis by (simp add: run_start_def)
qed

text \<open>C3. Whatever way an apply of a new operation ended (applied, failed, or cut off by a crash
  at any point between two steps), a later rollback of its snapshot that succeeds brings the
  database back exactly to what it was before the apply, under any behaviour of the outside
  during the rollback.\<close>

theorem rollback_undoes_apply:
  assumes "wf_db (w_db w)" "snap_of w (req_str d ''operationId'') = NoFile"
    and "apply_request e c (PDict d) w = (r, w1)"
    and "rollback_snapshot e' c' (req_str d ''operationId'') b w1 = (Inr (), w2)"
  shows "w_db w2 = w_db w"
proof -
  let ?i = "req_str d ''operationId''"
  have "undoable (w_db w) ?i w1"
  proof (cases r)
    case (Inl ex)
    with triple_Inl [OF apply_request_triple [OF assms(1) refl], of w d e c ex w1] assms(2,3)
    show ?thesis by simp
  next
    case (Inr a)
    with triple_Inr [OF apply_request_triple [OF assms(1) refl], of w d e c a w1] assms(2,3)
    show ?thesis by simp
  qed
  then consider "snap_of w1 ?i = NoFile" | s t where "good_source (w_db w) s" "in_flight (w_db w) s t ?i w1"
    by (auto simp: undoable_def)
  then show ?thesis
  proof cases
    case 1
    have "triple (\<lambda>w. snap_of w ?i = NoFile) (rollback_snapshot e' c' ?i b) (\<lambda>_ _. False) (\<lambda>_ _. True)"
      unfolding rollback_snapshot_def
      by (rule triple_bind [where R = "\<lambda>_ _. False"],
          rule triple_conseq [OF read_snapshot_triple [where I = "\<lambda>w. snap_of w ?i = NoFile"]])
        (auto simp: triple_def [of "\<lambda>_. False"] intro: blind_intros)
    from triple_Inr [OF this 1 assms(4)] show ?thesis by simp
  next
    case (2 s t)
    from triple_Inr [OF rollback_snapshot_triple [OF 2(1) assms(1)] 2(2) assms(4)] show ?thesis by simp
  qed
qed

theorem rollback_undoes_apply_witness:
  "let w1 = snd (apply_request (run_outside SimulatedCrash) run_config (PDict run_request) run_start);
       r = rollback_snapshot (run_outside SimulatedCrash) run_config run_id True w1
   in w_db w1 \<noteq> run_db \<and> fst r = Inr () \<and> w_db (snd r) = run_db"
proof -
  have run: "apply_request (run_outside SimulatedCrash) run_config (PDict run_request) run_start
      = (Inl SimulatedCrash, run_at run_new_db ''database_committed'')"
    unfolding run_apply by (simp add: apply_failed_def traise_def)
  have undo: "rollback_snapshot (run_outside SimulatedCrash) run_config (req_str run_request ''operationId'') True
      (run_at run_new_db ''database_committed'') = (Inr (), run_world run_db [])"
    unfolding run_operation by (rule run_rollback) simp
  have wf: "wf_db (w_db run_start)" by code_simp
  have fresh: "snap_of run_start (req_str run_request ''operationId'') = NoFile" by code_simp
  have "w_db (run_world run_db []) = w_db run_start"
    by (rule rollback_undoes_apply [OF wf fresh run undo])
  moreover have "run_new_db \<noteq> run_db" by (simp add: run_new_db_def run_db_def)
  ultimately show ?thesis using undo by (simp add: Let_def run run_operation)
qed

text \<open>C18. A template reads back as the mode it was built for: whatever mode the builder is asked
  for, the row that holds its columns, with settings and stream settings written as canonical
  JSON text, is recognised as that mode when the helper parses the row again (for a Reality
  profile and a server name without floats and without repeated keys).\<close>

theorem template_mode_roundtrip:
  assumes "build_template e c s mode w = (Inr t, w')" "json_plain (dgetN t ''streamSettings'')"
  shows "mode_for_row (set_columns (template_columns t) row) = Inr mode"
  using built_mode triple_Inr [OF build_template_built TrueI assms(1)] assms(2) by blast

theorem template_mode_roundtrip_witness:
  "mode_for_row (set_columns (template_columns run_template) run_row) = Inr VLESS_XHTTP_REALITY"
  by (rule template_mode_roundtrip [OF run_build [of SimulatedCrash run_start]])
    (simp add: run_template_def vless_stream_def run_reality_def wf_dict_def VLESS_XHTTP_REALITY_def)





end
