(* ===== verification/Ui_Config.thy ===== *)
theory Ui_Config
  imports Py_Base
begin

text \<open>
  The configuration of the manager's web interface (\<^verbatim>\<open>services/aimili-egress/vpngate_manager.py\<close>):
  the file \<^verbatim>\<open>ui_auth.json\<close> with its defaults and repairs, the managed account, and the sessions.
  The state is what the file holds and the table of sessions. Random draws, clock readings and
  the outcome of a write are arguments.
\<close>

section \<open>Numbers from settings\<close>

definition outside_range :: "int \<Rightarrow> int option \<Rightarrow> int option \<Rightarrow> bool" where
  "outside_range n lo hi =
     ((case lo of None \<Rightarrow> False | Some l \<Rightarrow> n < l) \<or> (case hi of None \<Rightarrow> False | Some h \<Rightarrow> h < n))"

text \<open>A variable of the environment is absent or a string.\<close>

definition env_int :: "string option \<Rightarrow> int \<Rightarrow> int option \<Rightarrow> int option \<Rightarrow> int" where
  "env_int raw default_value lo hi =
     (let n = (case raw of
          None \<Rightarrow> default_value
        | Some s \<Rightarrow> if s = [] then default_value
            else (case int_of_str s of None \<Rightarrow> default_value | Some i \<Rightarrow> i))
      in if outside_range n lo hi then default_value else n)"

definition bounded_int :: "pyval \<Rightarrow> int \<Rightarrow> int option \<Rightarrow> int option \<Rightarrow> pyexc + int" where
  "bounded_int v default_value lo hi = (case py_int v of
     Inr n \<Rightarrow> Inr (if outside_range n lo hi then default_value else n)
   | Inl ValueError \<Rightarrow> Inr default_value
   | Inl TypeError \<Rightarrow> Inr default_value
   | Inl e \<Rightarrow> Inl e)"

section \<open>Generated credentials\<close>

definition mixed_text :: "string \<Rightarrow> bool" where
  "mixed_text s = (list_ex ascii_lower_char s \<and> list_ex ascii_upper_char s \<and> list_ex digit_char s)"

text \<open>The draws are twelve letters and digits each; the loops take the first that qualifies.\<close>

definition generate_random_password :: "string list \<Rightarrow> string option" where
  "generate_random_password draws = List.find mixed_text draws"

definition generate_random_username :: "string list \<Rightarrow> string option" where
  "generate_random_username draws =
     List.find (\<lambda>s. (case s of [] \<Rightarrow> False | c # _ \<Rightarrow> py_isalpha_char c) \<and> mixed_text s) draws"

section \<open>The file\<close>

datatype ui_file = Absent | Damaged | Stored pyval

text \<open>Writing a file in place may succeed, leave it alone, or leave a part of the text.\<close>

datatype write_outcome = Written | Untouched | Torn

definition write_in_place :: "write_outcome \<Rightarrow> pydict \<Rightarrow> ui_file \<Rightarrow> ui_file" where
  "write_in_place out cfg file = (case out of
     Written \<Rightarrow> Stored (PDict cfg) | Untouched \<Rightarrow> file | Torn \<Rightarrow> Damaged)"

record ui_env =
  env_host :: string
  env_port :: int
  env_proxy_port :: int

definition default_ui_config :: "ui_env \<Rightarrow> pydict" where
  "default_ui_config env =
     [(''username'', PStr []), (''secret_path'', PStr ''EJsW2EeBo9lY''), (''password'', PStr []),
      (''host'', PStr (env_host env)), (''port'', PInt (env_port env)),
      (''proxy_port'', PInt (env_proxy_port env)), (''routing_mode'', PStr ''auto''),
      (''force_country'', PStr []), (''routing_ip_type'', PStr ''all''),
      (''connection_enabled'', PBool True), (''fixed_node_id'', PStr []),
      (''favorite_node_ids'', PList []), (''fav_fail_fallback'', PBool True)]"

definition expected_keys :: "string list" where
  "expected_keys = [''host'', ''port'', ''proxy_port'', ''routing_mode'', ''force_country'', ''routing_ip_type'',
     ''connection_enabled'', ''fixed_node_id'', ''favorite_node_ids'', ''fav_fail_fallback'']"

definition merged_config :: "ui_env \<Rightarrow> ui_file \<Rightarrow> pydict \<times> bool" where
  "merged_config env file = (case file of
     Stored (PDict d) \<Rightarrow> (dupdate (default_ui_config env) d, \<not> list_all (dhas d) expected_keys)
   | _ \<Rightarrow> (default_ui_config env, False))"

definition fill_in :: "string \<Rightarrow> string \<Rightarrow> pydict \<times> bool \<Rightarrow> pydict \<times> bool" where
  "fill_in key text_value st = (if truthy (dgetN (fst st) key) then st
     else (dset (fst st) key (PStr text_value), True))"

definition put_number :: "string \<Rightarrow> int \<Rightarrow> pydict \<times> bool \<Rightarrow> pydict \<times> bool" where
  "put_number key n st = (if py_eq (PInt n) (dgetN (fst st) key) then st
     else (dset (fst st) key (PInt n), True))"

definition proxy_port_beside :: "int \<Rightarrow> int \<Rightarrow> int \<Rightarrow> int" where
  "proxy_port_beside local_port port proxy =
     (if proxy \<noteq> port then proxy
      else let fallback = (if local_port \<noteq> port then local_port else 7928)
        in if fallback = port then 7929 else fallback)"

definition normalized_config :: "ui_env \<Rightarrow> string \<Rightarrow> string \<Rightarrow> ui_file \<Rightarrow> pyexc + pydict \<times> bool" where
  "normalized_config env username password file =
     (let st = fill_in ''password'' password (fill_in ''username'' username (merged_config env file)) in
      err_bind (bounded_int (dgetN (fst st) ''port'') (env_port env) (Some 1) (Some 65535)) (\<lambda>port.
      let st = put_number ''port'' port st in
      err_bind (bounded_int (dgetN (fst st) ''proxy_port'') (env_proxy_port env) (Some 1024) (Some 65535)) (\<lambda>proxy.
      Inr (put_number ''proxy_port'' (proxy_port_beside (env_proxy_port env) port proxy) st))))"

definition load_ui_config ::
  "ui_env \<Rightarrow> string \<Rightarrow> string \<Rightarrow> write_outcome \<Rightarrow> ui_file \<Rightarrow> pyexc + pydict \<times> ui_file" where
  "load_ui_config env username password out file =
     err_bind (normalized_config env username password file) (\<lambda>(cfg, updated).
     Inr (cfg, if file = Absent \<or> updated then write_in_place out cfg file else file))"

section \<open>The managed account\<close>

definition printable :: "string \<Rightarrow> bool" where
  "printable s = list_all (\<lambda>c. \<not> (chr_code c < 32 \<or> chr_code c = 127)) s"

definition valid_managed_credentials :: "string \<Rightarrow> string \<Rightarrow> bool" where
  "valid_managed_credentials username password =
     (1 \<le> length username \<and> length username \<le> 64 \<and> username = py_strip username \<and> printable username
      \<and> 12 \<le> length password \<and> length password \<le> 256 \<and> password = py_strip password \<and> printable password)"

record ui_state =
  ui_file :: ui_file
  ui_sessions :: "(string \<times> rat) list"

definition refusal :: "string \<Rightarrow> pydict" where
  "refusal code = [(''ok'', PBool False), (''error_code'', PStr code)]"

text \<open>The write goes to a temporary file first, so a failure leaves the old file.\<close>

definition update_managed_account ::
  "ui_env \<Rightarrow> string \<Rightarrow> string \<Rightarrow> write_outcome \<Rightarrow> bool \<Rightarrow> string \<Rightarrow> string \<Rightarrow> ui_state \<Rightarrow> pyexc + pydict \<times> ui_state"
  where
  "update_managed_account env gen_u gen_p out written username password st =
     (if \<not> valid_managed_credentials username password then Inr (refusal ''invalid_credentials'', st)
      else err_bind (load_ui_config env gen_u gen_p out (ui_file st)) (\<lambda>(cfg, file).
        if \<not> written then Inl OSError
        else Inr ([(''ok'', PBool True)],
          \<lparr>ui_file = Stored (PDict (dset (dset cfg ''username'' (PStr username)) ''password'' (PStr password))),
           ui_sessions = []\<rparr>)))"

definition verify_managed_account ::
  "ui_env \<Rightarrow> string \<Rightarrow> string \<Rightarrow> write_outcome \<Rightarrow> string \<Rightarrow> string \<Rightarrow> ui_state \<Rightarrow> pyexc + pydict \<times> ui_state" where
  "verify_managed_account env gen_u gen_p out username password st =
     err_bind (load_ui_config env gen_u gen_p out (ui_file st)) (\<lambda>(cfg, file).
     err_bind (compare_digest username (str_or_empty (dgetN cfg ''username''))) (\<lambda>same_name.
     err_bind (compare_digest password (str_or_empty (dgetN cfg ''password''))) (\<lambda>same_word.
     Inr (if same_name \<and> same_word then [(''ok'', PBool True)] else refusal ''credentials_rejected'',
       st\<lparr>ui_file := file\<rparr>))))"

definition issue_managed_ui_session :: "rat \<Rightarrow> string \<Rightarrow> ui_state \<Rightarrow> pydict \<times> ui_state" where
  "issue_managed_ui_session now token st =
     ([(''cookieName'', PStr ''session''), (''sessionToken'', PStr token), (''expiresAt'', PFloat (Fin (now + 300)))],
      st\<lparr>ui_sessions := AList.update token (now + 300) (ui_sessions st)\<rparr>)"

section \<open>Facts about loading\<close>

lemma bounded_int_Inr:
  "bounded_int v d (Some lo) (Some hi) = Inr n \<Longrightarrow> lo \<le> d \<Longrightarrow> d \<le> hi \<Longrightarrow> lo \<le> n \<and> n \<le> hi"
  by (auto simp: bounded_int_def outside_range_def split: sum.splits pyexc.splits if_splits)

lemma py_int_same: "py_eq (PInt n) v \<Longrightarrow> py_int v = Inr n"
proof (cases v)
  case (PFloat f)
  assume "py_eq (PInt n) v"
  with PFloat have "f = Fin (of_int n)" by (cases f) (simp_all add: py_eq.simps [of "PInt n"])
  with PFloat show ?thesis by (simp add: rat_trunc_def flip: of_int_minus)
qed (simp_all add: py_eq.simps [of "PInt n"] of_int_eq_iff split: if_splits)

lemma py_eq_int_refl [simp]: "py_eq (PInt n) (PInt n)"
  by simp

lemma dget_dupdate:
  "wf_dict e \<Longrightarrow> dget (dupdate d e) k = (case dget e k of None \<Rightarrow> dget d k | Some v \<Rightarrow> Some v)"
proof (induction d e rule: dupdate.induct)
  case (2 d k' v e)
  then show ?case by (auto simp: dkeys_dget split: option.splits)
qed simp

lemma wf_dupdate [simp, intro]: "wf_dict d \<Longrightarrow> wf_dict (dupdate d e)"
  by (induction d e rule: dupdate.induct) auto

lemma proxy_port_beside_distinct: "proxy_port_beside l port proxy \<noteq> port"
  by (auto simp: proxy_port_beside_def Let_def)


lemma dset_fresh: "k \<notin> dkeys d \<Longrightarrow> dset d k v = d @ [(k, v)]"
  by (induction d) (auto simp: dset_def)

lemma dset_middle: "k \<notin> dkeys d \<Longrightarrow> dset (d @ (k, w) # e) k v = d @ (k, v) # e"
  by (induction d) (auto simp: dset_def)

lemma dkeys_append [simp]: "dkeys (d @ e) = dkeys d \<union> dkeys e"
  by (auto simp: dkeys_def)

lemma dupdate_prefix:
  assumes "distinct (map fst (d @ e))" "length c \<le> length e" "map fst c = take (length c) (map fst e)"
  shows "dupdate (d @ c) e = d @ e"
  using assms
proof (induction e arbitrary: d c)
  case (Cons p e)
  obtain k v where p: "p = (k, v)" by (cases p)
  with Cons.prems have fresh: "k \<notin> dkeys d" by (force simp: dkeys_def)
  show ?case
  proof (cases c)
    case Nil
    with p fresh Cons.prems Cons.IH [of "d @ [(k, v)]" "[]"] show ?thesis by (simp add: dset_fresh)
  next
    case (Cons q c')
    with Cons.prems p obtain w where "q = (k, w)" by (cases q) auto
    with Cons p fresh Cons.prems Cons.IH [of "d @ [(k, v)]" c'] show ?thesis by (simp add: dset_middle)
  qed
qed simp

text \<open>The keys of the defaults come first and in order, so a document written from a loaded
  configuration is read back as it is.\<close>

definition defaults_first :: "ui_env \<Rightarrow> pydict \<Rightarrow> bool" where
  "defaults_first env cfg = (\<exists>rest. map fst cfg = map fst (default_ui_config env) @ rest)"

lemma defaults_first_dset:
  assumes "defaults_first env cfg"
  shows "defaults_first env (dset cfg k v)"
proof -
  have "map fst (dset cfg k v) = map fst cfg \<or> map fst (dset cfg k v) = map fst cfg @ [k]"
    unfolding dset_def by (induction cfg) auto
  then show ?thesis using assms unfolding defaults_first_def by (metis append.assoc)
qed

lemma defaults_first_dupdate: "defaults_first env cfg \<Longrightarrow> defaults_first env (dupdate cfg d)"
  by (induction cfg d rule: dupdate.induct) (simp_all add: defaults_first_dset)

lemma merged_config_defaults_first: "defaults_first env (fst (merged_config env f))"
proof -
  have d: "defaults_first env (default_ui_config env)" unfolding defaults_first_def by (rule exI [of _ "[]"]) simp
  show ?thesis
    by (cases f) (auto simp: merged_config_def d intro: defaults_first_dupdate split: pyval.split)
qed

lemma reread_defaults_first:
  assumes "defaults_first env cfg" "wf_dict cfg"
  shows "merged_config env (Stored (PDict cfg)) = (cfg, False)"
proof -
  obtain rest where r: "map fst cfg = map fst (default_ui_config env) @ rest"
    using assms(1) by (auto simp: defaults_first_def)
  have "length cfg = length (default_ui_config env) + length rest" using r by (metis length_append length_map)
  then have "dupdate ([] @ default_ui_config env) cfg = [] @ cfg"
    using assms(2) r by (intro dupdate_prefix) (simp_all add: wf_dict_def)
  moreover have "list_all (dhas cfg) expected_keys"
  proof -
    have "set (map fst (default_ui_config env)) \<subseteq> dkeys cfg" using r by (auto simp: dkeys_def simp flip: set_map)
    moreover have "set expected_keys \<subseteq> set (map fst (default_ui_config env))"
      by (simp add: expected_keys_def default_ui_config_def)
    ultimately have "set expected_keys \<subseteq> dkeys cfg" by (rule order_trans [rotated])
    then show ?thesis unfolding list_all_iff dhas_def dkeys_dget by blast
  qed
  ultimately show ?thesis by (simp add: merged_config_def)
qed


text \<open>What the repairs establish: a configuration that reading and repairing again leaves alone.\<close>

definition usable_config :: "ui_env \<Rightarrow> pydict \<Rightarrow> bool" where
  "usable_config env cfg =
     (wf_dict cfg \<and> defaults_first env cfg \<and> truthy (dgetN cfg ''username'') \<and> truthy (dgetN cfg ''password'')
      \<and> (\<exists>port proxy. py_int (dgetN cfg ''port'') = Inr port \<and> py_int (dgetN cfg ''proxy_port'') = Inr proxy
          \<and> py_eq (PInt port) (dgetN cfg ''port'') \<and> py_eq (PInt proxy) (dgetN cfg ''proxy_port'')
          \<and> 1 \<le> port \<and> port \<le> 65535 \<and> 1 \<le> proxy \<and> proxy \<le> 65535 \<and> port \<noteq> proxy
          \<and> (proxy < 1024 \<longrightarrow> proxy = env_proxy_port env)))"

definition env_ports_ok :: "ui_env \<Rightarrow> bool" where
  "env_ports_ok env = (1 \<le> env_port env \<and> env_port env \<le> 65535 \<and> 1 \<le> env_proxy_port env \<and> env_proxy_port env \<le> 65535)"

fun stored_wf :: "ui_file \<Rightarrow> bool" where
  "stored_wf (Stored (PDict d)) = wf_dict d"
| "stored_wf f = True"

definition tidy :: "ui_env \<Rightarrow> pydict \<times> bool \<Rightarrow> bool" where
  "tidy env st = (wf_dict (fst st) \<and> defaults_first env (fst st))"

lemma tidy_dset: "tidy env st \<Longrightarrow> tidy env (dset (fst st) k v, b)"
  by (simp add: tidy_def defaults_first_dset)

lemma tidy_fill_in: "tidy env st \<Longrightarrow> tidy env (fill_in k s st)"
  by (simp add: fill_in_def tidy_dset)

lemma tidy_put_number: "tidy env st \<Longrightarrow> tidy env (put_number k n st)"
  by (simp add: put_number_def tidy_dset)

lemma tidy_merged: "stored_wf f \<Longrightarrow> tidy env (merged_config env f)"
proof -
  have "wf_dict (default_ui_config env)" by (simp add: default_ui_config_def)
  then show "stored_wf f \<Longrightarrow> tidy env (merged_config env f)"
    unfolding tidy_def
    by (intro conjI merged_config_defaults_first)
      (auto simp: merged_config_def split: ui_file.split pyval.split)
qed

lemma fill_in_get: "s \<noteq> [] \<Longrightarrow> truthy (dgetN (fst (fill_in k s st)) k)"
  by (simp add: fill_in_def)

lemma fill_in_other: "k' \<noteq> k \<Longrightarrow> dgetN (fst (fill_in k s st)) k' = dgetN (fst st) k'"
  by (auto simp: fill_in_def)

lemma put_number_get: "py_eq (PInt n) (dgetN (fst (put_number k n st)) k)"
  by (simp add: put_number_def)

lemma put_number_other: "k' \<noteq> k \<Longrightarrow> dgetN (fst (put_number k n st)) k' = dgetN (fst st) k'"
  by (auto simp: put_number_def)

lemma normalized_usable:
  assumes n: "normalized_config env u p f = Inr (cfg, b)" and "u \<noteq> []" "p \<noteq> []" "stored_wf f" "env_ports_ok env"
  shows "usable_config env cfg"
proof -
  let ?s0 = "fill_in ''password'' p (fill_in ''username'' u (merged_config env f))"
  from n obtain port proxy where port: "bounded_int (dgetN (fst ?s0) ''port'') (env_port env) (Some 1) (Some 65535) = Inr port"
    and proxy: "bounded_int (dgetN (fst (put_number ''port'' port ?s0)) ''proxy_port'') (env_proxy_port env) (Some 1024) (Some 65535) = Inr proxy"
    and c: "(cfg, b) = put_number ''proxy_port'' (proxy_port_beside (env_proxy_port env) port proxy) (put_number ''port'' port ?s0)"
    unfolding normalized_config_def Let_def err_bind_Inr by auto
  let ?q = "proxy_port_beside (env_proxy_port env) port proxy"
  let ?s2 = "put_number ''proxy_port'' ?q (put_number ''port'' port ?s0)"
  have cfg: "cfg = fst ?s2" using c by (metis fst_conv)
  have "tidy env ?s2" using assms by (intro tidy_put_number tidy_fill_in tidy_merged)
  moreover have "truthy (dgetN cfg ''username'')" "truthy (dgetN cfg ''password'')"
    unfolding cfg using assms fill_in_get [of u "''username''"] fill_in_get [of p "''password''"]
    by (simp_all add: put_number_other fill_in_other)
  moreover have e1: "py_eq (PInt port) (dgetN cfg ''port'')"
    unfolding cfg using put_number_get [of port "''port''" ?s0] by (simp add: put_number_other)
  moreover have e2: "py_eq (PInt ?q) (dgetN cfg ''proxy_port'')" unfolding cfg by (rule put_number_get)
  moreover have "1 \<le> port \<and> port \<le> 65535"
    using bounded_int_Inr [OF port] assms(5) by (simp add: env_ports_ok_def)
  moreover have "1024 \<le> proxy \<and> proxy \<le> 65535 \<or> proxy = env_proxy_port env"
    using proxy by (auto simp: bounded_int_def outside_range_def split: sum.splits pyexc.splits if_splits)
  then have "1 \<le> ?q \<and> ?q \<le> 65535 \<and> (?q < 1024 \<longrightarrow> ?q = env_proxy_port env)"
    using assms(5) by (auto simp: env_ports_ok_def proxy_port_beside_def Let_def)
  ultimately show ?thesis
    unfolding usable_config_def tidy_def cfg [symmetric]
    using py_int_same [OF e1] py_int_same [OF e2] proxy_port_beside_distinct [of "env_proxy_port env" port proxy]
    by (intro conjI exI [of _ port] exI [of _ ?q]) auto
qed

lemma usable_fixpoint:
  assumes "usable_config env cfg"
  shows "normalized_config env u p (Stored (PDict cfg)) = Inr (cfg, False)"
proof -
  from assms obtain port proxy where h: "py_int (dgetN cfg ''port'') = Inr port" "py_int (dgetN cfg ''proxy_port'') = Inr proxy"
    "py_eq (PInt port) (dgetN cfg ''port'')" "py_eq (PInt proxy) (dgetN cfg ''proxy_port'')"
    "1 \<le> port" "port \<le> 65535" "proxy \<le> 65535" "port \<noteq> proxy" "proxy < 1024 \<longrightarrow> proxy = env_proxy_port env"
    and t: "truthy (dgetN cfg ''username'')" "truthy (dgetN cfg ''password'')"
    unfolding usable_config_def by blast
  have m: "merged_config env (Stored (PDict cfg)) = (cfg, False)"
    using assms by (intro reread_defaults_first) (simp_all add: usable_config_def)
  have b: "bounded_int (dgetN cfg ''port'') (env_port env) (Some 1) (Some 65535) = Inr port"
    "bounded_int (dgetN cfg ''proxy_port'') (env_proxy_port env) (Some 1024) (Some 65535) = Inr proxy"
    using h by (auto simp: bounded_int_def outside_range_def)
  show ?thesis
    using b h(3,4,8) t by (simp add: normalized_config_def Let_def m fill_in_def put_number_def proxy_port_beside_def)
qed

section \<open>What a load keeps and where it raises\<close>

text \<open>The number JSON writes as 1e999 or Infinity: int() raises OverflowError on it, which the
  bounded reader does not catch.\<close>

definition infinite_port :: "ui_file \<Rightarrow> bool" where
  "infinite_port f \<longleftrightarrow> (\<exists>d. f = Stored (PDict d) \<and> (\<exists>k \<in> set [''port'', ''proxy_port''].
     dgetN d k = PFloat PosInf \<or> dgetN d k = PFloat NegInf))"

text \<open>What a stored document determines.\<close>

definition keeps_stored :: "ui_file \<Rightarrow> pydict \<Rightarrow> bool" where
  "keeps_stored f cfg \<longleftrightarrow> (\<forall>d. f = Stored (PDict d) \<longrightarrow>
     (\<forall>k v. dget d k = Some v \<and> k \<notin> set [''username'', ''password'', ''port'', ''proxy_port''] \<longrightarrow> dget cfg k = Some v)
     \<and> (\<forall>k \<in> set [''username'', ''password'']. truthy (dgetN d k) \<longrightarrow> dgetN cfg k = dgetN d k)
     \<and> (\<forall>n. py_int (dgetN d ''port'') = Inr n \<and> 1 \<le> n \<and> n \<le> 65535 \<longrightarrow> py_int (dgetN cfg ''port'') = Inr n))"

lemma bounded_int_Inl: "bounded_int v d lo hi = Inl e \<longleftrightarrow> e = OverflowError \<and> (v = PFloat PosInf \<or> v = PFloat NegInf)"
proof (cases v)
  case (PFloat f)
  then show ?thesis by (cases f) (auto simp: bounded_int_def)
qed (auto simp: bounded_int_def split: option.splits)

lemma merged_get:
  assumes "stored_wf f"
  shows "dget (fst (merged_config env f)) k = (case f of Stored (PDict d) \<Rightarrow>
      (case dget d k of None \<Rightarrow> dget (default_ui_config env) k | Some v \<Rightarrow> Some v) | _ \<Rightarrow> dget (default_ui_config env) k)"
  using assms by (auto simp: merged_config_def dget_dupdate split: ui_file.splits pyval.splits)

lemma merged_port:
  assumes "stored_wf f" "k \<in> {''port'', ''proxy_port''}" "dgetN (fst (merged_config env f)) k = PFloat x"
  shows "\<exists>d. f = Stored (PDict d) \<and> dgetN d k = PFloat x"
proof -
  have d: "dget (default_ui_config env) k = Some (PInt (if k = ''port'' then env_port env else env_proxy_port env))"
    using assms(2) by (auto simp: default_ui_config_def)
  show ?thesis
    using assms(3) unfolding dget_or_def merged_get [OF assms(1)] d
    by (auto split: ui_file.splits pyval.splits option.splits)
qed

lemma put_number_dget: "k' \<noteq> k \<Longrightarrow> dget (fst (put_number k n st)) k' = dget (fst st) k'"
  by (auto simp: put_number_def)

lemma fill_in_dget: "k' \<noteq> k \<Longrightarrow> dget (fst (fill_in k s st)) k' = dget (fst st) k'"
  by (auto simp: fill_in_def)

lemma fill_in_kept: "truthy (dgetN (fst st) k) \<Longrightarrow> dgetN (fst (fill_in k s st)) k = dgetN (fst st) k"
  by (simp add: fill_in_def)

lemma normalized_Inl:
  assumes "stored_wf f"
  shows "normalized_config env u p f = Inl e \<Longrightarrow> e = OverflowError \<and> infinite_port f"
    and "normalized_config env u p f = Inr r \<Longrightarrow> \<not> infinite_port f"
proof -
  let ?s0 = "fill_in ''password'' p (fill_in ''username'' u (merged_config env f))"
  let ?m = "fst (merged_config env f)"
  have g: "dgetN (fst ?s0) ''port'' = dgetN ?m ''port''"
    "dgetN (fst (put_number ''port'' port ?s0)) ''proxy_port'' = dgetN ?m ''proxy_port''" for port
    by (simp_all add: put_number_other fill_in_other)
  note n = normalized_config_def Let_def g
  show "e = OverflowError \<and> infinite_port f" if "normalized_config env u p f = Inl e"
    using that merged_port [OF assms, of _ env] unfolding n infinite_port_def err_bind_Inl bounded_int_Inl by fastforce
  show "\<not> infinite_port f" if r: "normalized_config env u p f = Inr r"
  proof
    assume "infinite_port f"
    then obtain d k where d: "f = Stored (PDict d)" "k = ''port'' \<or> k = ''proxy_port''" "dgetN d k \<in> {PFloat PosInf, PFloat NegInf}"
      unfolding infinite_port_def by auto
    then have "dgetN ?m k = dgetN d k" unfolding dget_or_def merged_get [OF assms] by (auto split: option.splits)
    with d(2,3) have "\<exists>e. bounded_int (dgetN ?m ''port'') (env_port env) (Some 1) (Some 65535) = Inl e
        \<or> bounded_int (dgetN ?m ''proxy_port'') (env_proxy_port env) (Some 1024) (Some 65535) = Inl e"
      unfolding bounded_int_Inl by auto
    with r show False unfolding n err_bind_Inr by auto
  qed
qed

lemma normalized_keeps:
  assumes n: "normalized_config env u p f = Inr (cfg, b)" and "stored_wf f"
  shows "keeps_stored f cfg"
  unfolding keeps_stored_def
proof (intro allI impI)
  fix d assume f: "f = Stored (PDict d)"
  let ?m = "merged_config env f"
  let ?s0 = "fill_in ''password'' p (fill_in ''username'' u ?m)"
  from n obtain port proxy where port: "bounded_int (dgetN (fst ?s0) ''port'') (env_port env) (Some 1) (Some 65535) = Inr port"
    and c: "put_number ''proxy_port'' proxy (put_number ''port'' port ?s0) = (cfg, b)"
    unfolding normalized_config_def Let_def err_bind_Inr by auto
  have cfg: "cfg = fst (put_number ''proxy_port'' proxy (put_number ''port'' port ?s0))" using c by (metis fst_conv)
  have m: "dget d k = Some v \<Longrightarrow> dget (fst ?m) k = Some v" for k v using merged_get [OF assms(2), of env k] f by simp
  have mN: "truthy (dgetN d k) \<Longrightarrow> dgetN (fst ?m) k = dgetN d k" for k
    using m [of k] by (cases "dget d k") (simp_all add: dget_or_def)
  have a: "dget cfg k = Some v" if "dget d k = Some v \<and> k \<notin> set [''username'', ''password'', ''port'', ''proxy_port'']" for k v
    using that m unfolding cfg by (auto simp: put_number_dget fill_in_dget)
  have w: "dgetN cfg k = dgetN d k" if "k \<in> set [''username'', ''password'']" "truthy (dgetN d k)" for k
  proof -
    have t: "dgetN (fst ?m) k = dgetN d k" "truthy (dgetN (fst ?m) k)" using mN [OF that(2)] that(2) by simp_all
    then show ?thesis using that(1) unfolding cfg
      by (auto simp: put_number_other fill_in_other fill_in_kept)
  qed
  have q: "py_int (dgetN cfg ''port'') = Inr n" if h: "py_int (dgetN d ''port'') = Inr n \<and> 1 \<le> n \<and> n \<le> 65535" for n
  proof -
    have "dget d ''port'' \<noteq> None" using h by (auto simp: dget_or_def split: option.splits)
    then have "dgetN (fst ?m) ''port'' = dgetN d ''port''" using m by (auto simp: dget_or_def)
    then have "port = n" using port h by (simp add: fill_in_other bounded_int_def outside_range_def)
    moreover have "py_eq (PInt port) (dgetN cfg ''port'')"
      unfolding cfg using put_number_get [of port "''port''" ?s0] by (simp add: put_number_other)
    ultimately show ?thesis using py_int_same by blast
  qed
  show "(\<forall>k v. dget d k = Some v \<and> k \<notin> set [''username'', ''password'', ''port'', ''proxy_port''] \<longrightarrow> dget cfg k = Some v)
     \<and> (\<forall>k \<in> set [''username'', ''password'']. truthy (dgetN d k) \<longrightarrow> dgetN cfg k = dgetN d k)
     \<and> (\<forall>n. py_int (dgetN d ''port'') = Inr n \<and> 1 \<le> n \<and> n \<le> 65535 \<longrightarrow> py_int (dgetN cfg ''port'') = Inr n)"
    using a w q by blast
qed

lemma written_config_stays:
  assumes "load_ui_config env u p Written f = Inr (cfg, f')" "usable_config env cfg"
  shows "load_ui_config env u' p' out' f' = Inr (cfg, f')"
proof -
  from assms(1) obtain b where n: "normalized_config env u p f = Inr (cfg, b)"
    and f': "f' = (if f = Absent \<or> b then write_in_place Written cfg f else f)"
    by (auto simp: load_ui_config_def err_bind_Inr)
  show ?thesis
  proof (cases "f = Absent \<or> b")
    case True
    with f' have "f' = Stored (PDict cfg)" by (simp add: write_in_place_def)
    then show ?thesis by (simp add: load_ui_config_def usable_fixpoint [OF assms(2)])
  next
    case False
    then have m: "b = False" "f \<noteq> Absent" "f' = f" using f' by auto
    let ?m = "merged_config env f"
    let ?s0 = "\<lambda>u p. fill_in ''password'' p (fill_in ''username'' u ?m)"
    have mono: "snd (put_number k i st) = False \<Longrightarrow> put_number k i st = st" for k i st
      by (auto simp: put_number_def split: if_splits)
    have fmono: "snd (fill_in k s st) = False \<Longrightarrow> fill_in k s st = st \<and> truthy (dgetN (fst st) k)" for k s st
      by (auto simp: fill_in_def split: if_splits)
    from n m(1) obtain port proxy where "put_number ''proxy_port'' proxy (put_number ''port'' port (?s0 u p)) = (cfg, False)"
      unfolding normalized_config_def Let_def err_bind_Inr by auto
    then have s: "snd (?s0 u p) = False" using mono by (metis snd_conv)
    then have one: "?s0 u p = fill_in ''username'' u ?m" "truthy (dgetN (fst (fill_in ''username'' u ?m)) ''password'')"
      using fmono by blast+
    with s have two: "fill_in ''username'' u ?m = ?m" "truthy (dgetN (fst ?m) ''username'')"
      using fmono by metis+
    have "fill_in ''username'' u' ?m = ?m" using two(2) by (simp add: fill_in_def)
    moreover have "fill_in ''password'' p' ?m = ?m" using one(2) two(1) by (simp add: fill_in_def)
    ultimately have "?s0 u' p' = ?s0 u p" using one two by simp
    then have "normalized_config env u' p' f = normalized_config env u p f" by (simp add: normalized_config_def)
    with n m show ?thesis by (simp add: load_ui_config_def)
  qed
qed

section \<open>Properties\<close>

text \<open>C20. Whatever ui_auth.json holds (nothing, a damaged text, a document that is not an object,
  missing fields, ports of any type, out of range or equal), a load raises only OverflowError, and
  only for a document that stores an infinite number as a port (1e999). Otherwise it gives a configuration that
  can be used: a user name and a password, two different ports in their ranges, every default
  field, and it keeps what the document stored: every other field, credentials that are not empty,
  a port in range. If the write succeeds, or none was needed, every later load gives the same configuration and leaves
  the file alone, whatever credentials it draws.\<close>

theorem load_ui_config_usable:
  assumes "u \<noteq> []" "p \<noteq> []" "stored_wf f" "env_ports_ok env"
  shows "case load_ui_config env u p out f of
     Inl e \<Rightarrow> e = OverflowError \<and> infinite_port f
   | Inr (cfg, f') \<Rightarrow> \<not> infinite_port f \<and> usable_config env cfg \<and> keeps_stored f cfg
       \<and> (f' = f \<or> f' = write_in_place out cfg f)
       \<and> (out = Written \<longrightarrow> (\<forall>u' p' out'. load_ui_config env u' p' out' f' = Inr (cfg, f')))"
proof (cases "normalized_config env u p f")
  case (Inl e)
  then show ?thesis using normalized_Inl(1) [OF assms(3) Inl] by (simp add: load_ui_config_def)
next
  case (Inr r)
  obtain cfg b where r: "r = (cfg, b)" by (cases r)
  note n = Inr [unfolded r]
  obtain f' where l: "load_ui_config env u p out f = Inr (cfg, f')" "f' = f \<or> f' = write_in_place out cfg f"
    by (simp add: load_ui_config_def n)
  have "usable_config env cfg" using n assms by (rule normalized_usable)
  with l n normalized_Inl(2) [OF assms(3) Inr] normalized_keeps [OF n assms(3)] written_config_stays show ?thesis by auto
qed

definition example_env :: ui_env where
  "example_env = \<lparr>env_host = ''0.0.0.0'', env_port = 8787, env_proxy_port = 7928\<rparr>"

lemma load_ui_config_usable_witness:
  "usable_config example_env (fst (projr (load_ui_config example_env ''aB1'' ''cD2'' Written
      (Stored (PDict [(''proxy_port'', PStr ''8787'')])))))
   \<and> load_ui_config example_env ''aB1'' ''cD2'' Written (Stored (PDict [(''port'', PFloat PosInf)])) = Inl OverflowError"
proof -
  let ?f = "Stored (PDict [(''proxy_port'', PStr ''8787'')])"
  let ?r = "load_ui_config example_env ''aB1'' ''cD2'' Written ?f"
  let ?g = "Stored (PDict [(''port'', PFloat PosInf)])"
  have e: "env_ports_ok example_env" by code_simp
  have "\<not> infinite_port ?f" by (simp add: infinite_port_def)
  then have one: "usable_config example_env (fst (projr ?r))"
    using load_ui_config_usable [of "''aB1''" "''cD2''" ?f example_env Written] e by (auto split: sum.splits)
  have "infinite_port ?g" by (simp add: infinite_port_def)
  then have "load_ui_config example_env ''aB1'' ''cD2'' Written ?g = Inl OverflowError"
    using load_ui_config_usable [of "''aB1''" "''cD2''" ?g example_env Written] e by (auto split: sum.splits)
  with one show ?thesis by blast
qed

text \<open>The managed account is what was set last: after an update that succeeds, exactly the new
  user name and password are accepted (on text in ASCII, which the comparison demands) and no
  earlier session survives; credentials that break the rules change nothing.\<close>

theorem managed_account_correct:
  assumes "update_managed_account env u p out written name word st = Inr (reply, st')"
    and "u \<noteq> []" "p \<noteq> []" "stored_wf (ui_file st)" "env_ports_ok env"
  shows "if valid_managed_credentials name word
    then reply = [(''ok'', PBool True)] \<and> ui_sessions st' = []
      \<and> (\<forall>u' p' out' name' word'. list_all ascii_char (name @ word @ name' @ word') \<longrightarrow>
          verify_managed_account env u' p' out' name' word' st'
            = Inr (if name' = name \<and> word' = word then [(''ok'', PBool True)] else refusal ''credentials_rejected'', st'))
    else reply = refusal ''invalid_credentials'' \<and> st' = st"
proof (cases "valid_managed_credentials name word")
  case True
  then have ne: "name \<noteq> []" "word \<noteq> []" by (auto simp: valid_managed_credentials_def)
  from assms(1) True obtain cfg f where l: "load_ui_config env u p out (ui_file st) = Inr (cfg, f)"
    and w: "written" and reply: "reply = [(''ok'', PBool True)]"
    and st': "st' = \<lparr>ui_file = Stored (PDict (dset (dset cfg ''username'' (PStr name)) ''password'' (PStr word))), ui_sessions = []\<rparr>"
    by (auto simp: update_managed_account_def err_bind_Inr split: if_splits)
  let ?cfg = "dset (dset cfg ''username'' (PStr name)) ''password'' (PStr word)"
  from l obtain b where "normalized_config env u p (ui_file st) = Inr (cfg, b)"
    by (auto simp: load_ui_config_def err_bind_Inr)
  then have "usable_config env cfg" using assms(2-5) by (rule normalized_usable)
  then have "usable_config env ?cfg" using ne by (simp add: usable_config_def defaults_first_dset)
  then have "load_ui_config env u' p' out' (ui_file st') = Inr (?cfg, ui_file st')" for u' p' out'
    by (simp add: load_ui_config_def usable_fixpoint st')
  then show ?thesis
    using True reply st' by (auto simp: verify_managed_account_def compare_digest_def)
next
  case False
  with assms(1) show ?thesis by (simp add: update_managed_account_def)
qed

lemma managed_account_correct_witness:
  "\<exists>st'. update_managed_account example_env ''aB1'' ''cD2'' Written True ''admin'' ''correct horse''
       \<lparr>ui_file = Absent, ui_sessions = [(''t'', 5)]\<rparr> = Inr ([(''ok'', PBool True)], st')
     \<and> verify_managed_account example_env ''x'' ''y'' Torn ''admin'' ''wrong'' st' = Inr (refusal ''credentials_rejected'', st')"
proof -
  let ?st = "\<lparr>ui_file = Absent, ui_sessions = [(''t'', 5)]\<rparr>"
  let ?r = "update_managed_account example_env ''aB1'' ''cD2'' Written True ''admin'' ''correct horse'' ?st"
  have "(\<lambda>r. case r of Inr (c, f) \<Rightarrow> True | Inl e \<Rightarrow> False) ?r" by code_simp
  then obtain reply st' where r: "?r = Inr (reply, st')" by (auto split: sum.splits)
  have v: "valid_managed_credentials ''admin'' ''correct horse''" by code_simp
  have a: "list_all ascii_char (''admin'' @ ''correct horse'' @ ''admin'' @ ''wrong'')" by code_simp
  show ?thesis
    using managed_account_correct [OF r] v a r by (auto simp: env_ports_ok_def example_env_def)
qed

end
