(* ===== verification/Web_Sessions.thy ===== *)
theory Web_Sessions
  imports Ui_Config
begin

text \<open>
  The handler of the manager's web interface: the secret path, the session cookie, login and
  logout, and the endpoints that change the configuration. A request that is not a login or a
  logout reaches its endpoint only with a live session. The endpoints that act on nodes and
  slots are an argument here: they may do anything to the file and nothing to the sessions.
  The texts of error messages are left out of the replies.
\<close>

section \<open>Requests\<close>

definition secret_path :: "pydict \<Rightarrow> pyval" where
  "secret_path cfg = dget_or cfg ''secret_path'' (PStr ''EJsW2EeBo9lY'')"

datatype path_answer = Effective string | Redirect string | No_Such_Path

definition validate_path :: "pydict \<Rightarrow> string \<Rightarrow> path_answer" where
  "validate_path cfg request_path =
     (if \<not> truthy (secret_path cfg) then Effective request_path
      else let prefix = ''/'' @ py_str (secret_path cfg) in
        if request_path = prefix then Redirect (prefix @ ''/'')
        else if starts_with (prefix @ ''/'') request_path
        then Effective (''/'' @ drop (length prefix + 1) request_path)
        else No_Such_Path)"

definition cookie_item :: "string \<Rightarrow> (string \<times> string) list \<Rightarrow> (string \<times> string) list" where
  "cookie_item item cookies = (case py_partition (CHR ''='') (py_strip item) of
     (k, True, v) \<Rightarrow> AList.update (py_strip k) (py_strip v) cookies
   | _ \<Rightarrow> cookies)"

definition session_cookie :: "string \<Rightarrow> string" where
  "session_cookie header = (if header = [] then [] else
     (case map_of (fold cookie_item (py_split (CHR '';'') header) []) ''session'' of
        None \<Rightarrow> [] | Some t \<Rightarrow> t))"

text \<open>What a request draws and how its in-place writes end.\<close>

record web_draws =
  draw_username :: string
  draw_password :: string
  draw_load :: write_outcome
  draw_save :: write_outcome

definition load_config :: "ui_env \<Rightarrow> web_draws \<Rightarrow> ui_state \<Rightarrow> pyexc + pydict \<times> ui_state" where
  "load_config env dr st =
     err_bind (load_ui_config env (draw_username dr) (draw_password dr) (draw_load dr) (ui_file st)) (\<lambda>(cfg, file).
     Inr (cfg, st\<lparr>ui_file := file\<rparr>))"

definition is_authorized :: "pydict \<Rightarrow> string \<Rightarrow> rat \<Rightarrow> ui_state \<Rightarrow> bool" where
  "is_authorized cfg header now st =
     (truthy (dgetN cfg ''password'') \<and> session_cookie header \<noteq> [] \<and>
      (case map_of (ui_sessions st) (session_cookie header) of None \<Rightarrow> False | Some t \<Rightarrow> now < t))"

section \<open>Endpoints\<close>

datatype web_reply = Status nat pydict | Logged_In string | Logged_Out | No_Answer

definition ok_reply :: "pydict \<Rightarrow> web_reply" where
  "ok_reply d = Status 200 ((''ok'', PBool True) # d)"

definition not_ok :: "nat \<Rightarrow> web_reply" where
  "not_ok code = Status code [(''ok'', PBool False)]"

definition login_matches :: "pydict \<Rightarrow> pydict \<Rightarrow> bool" where
  "login_matches cfg payload =
     (truthy (dget_or cfg ''password'' (PStr []))
      \<and> dget_or cfg ''password'' (PStr []) = PStr (str_or_empty (dgetN payload ''password''))
      \<and> dget_or cfg ''username'' (PStr ''admin'') = PStr (str_or_empty (dgetN payload ''username'')))"

definition login_seconds :: rat where
  "login_seconds = 30 * 24 * 3600"

definition login ::
  "ui_env \<Rightarrow> web_draws \<Rightarrow> rat \<Rightarrow> string \<Rightarrow> pydict \<Rightarrow> ui_state \<Rightarrow> web_reply \<times> ui_state" where
  "login env dr now token payload st = (case load_config env dr st of
     Inl _ \<Rightarrow> (not_ok 500, st)
   | Inr (cfg, st) \<Rightarrow>
       if login_matches cfg payload
       then (Logged_In token, st\<lparr>ui_sessions := AList.update token (now + login_seconds) (ui_sessions st)\<rparr>)
       else (not_ok 403, st))"

definition logout :: "string \<Rightarrow> ui_state \<Rightarrow> web_reply \<times> ui_state" where
  "logout header st = (Logged_Out,
     if session_cookie header = [] then st
     else st\<lparr>ui_sessions := AList.delete (session_cookie header) (ui_sessions st)\<rparr>)"

definition suffix_ok :: "string \<Rightarrow> bool" where
  "suffix_ok s = (s \<noteq> [] \<and> list_all (\<lambda>c. digit_char c \<or> ascii_lower_char c \<or> ascii_upper_char c) s)"

definition port_of :: "pyval \<Rightarrow> int \<Rightarrow> (pyexc + int) option" where
  "port_of v lo = (case py_int v of
     Inr n \<Rightarrow> if lo \<le> n \<and> n \<le> 65535 then Some (Inr n) else None
   | Inl ValueError \<Rightarrow> None
   | Inl TypeError \<Rightarrow> None
   | Inl e \<Rightarrow> Some (Inl e))"

definition save_config :: "web_draws \<Rightarrow> pydict \<Rightarrow> ui_state \<Rightarrow> ui_state" where
  "save_config dr cfg st = st\<lparr>ui_file := write_in_place (draw_save dr) cfg (ui_file st)\<rparr>"

text \<open>\<open>a or (b and c)\<close> is the empty string when nothing changes and no password is given.\<close>

definition reauth_required :: "pydict \<Rightarrow> string \<Rightarrow> string \<Rightarrow> pyval" where
  "reauth_required cfg username password =
     (if dget_or cfg ''username'' (PStr []) \<noteq> PStr username then PBool True
      else if password = [] then PStr []
      else PBool (dget_or cfg ''password'' (PStr []) \<noteq> PStr password))"

text \<open>A failed write raises before the sessions are dropped.\<close>

definition update_credentials :: "ui_env \<Rightarrow> web_draws \<Rightarrow> pydict \<Rightarrow> ui_state \<Rightarrow> web_reply \<times> ui_state" where
  "update_credentials env dr payload st =
     (let username = py_strip (str_or_empty (dgetN payload ''username''));
          password = py_strip (str_or_empty (dgetN payload ''password''));
          suffix = py_strip (str_or_empty (dgetN payload ''secret_path'')) in
      case load_config env dr st of
        Inl _ \<Rightarrow> (not_ok 500, st)
      | Inr (cfg, st) \<Rightarrow>
          if username = [] \<or> (password = [] \<and> \<not> truthy (dgetN cfg ''password'')) then (not_ok 400, st)
          else (case port_of (dgetN payload ''port'') 1 of
              None \<Rightarrow> (not_ok 400, st)
            | Some (Inl _) \<Rightarrow> (not_ok 500, st)
            | Some (Inr port) \<Rightarrow>
                if \<not> suffix_ok suffix then (not_ok 400, st)
                else let cfg1 = dset cfg ''username'' (PStr username);
                    cfg2 = (if password = [] then cfg1 else dset cfg1 ''password'' (PStr password));
                    cfg3 = dset (dset cfg2 ''port'' (PInt port)) ''secret_path'' (PStr suffix);
                    st' = save_config dr cfg3 st;
                    reauth = reauth_required cfg username password;
                    restart = (\<not> py_eq (PInt port) (dget_or cfg ''port'' (PInt 8787))
                      \<or> PStr suffix \<noteq> dget_or cfg ''secret_path'' (PStr ''EJsW2EeBo9lY''))
                  in if draw_save dr \<noteq> Written then (not_ok 500, st')
                     else (ok_reply [(''restart_needed'', PBool restart), (''reauth_required'', reauth)],
                       if truthy reauth then st'\<lparr>ui_sessions := []\<rparr> else st')))"

definition routing_fields :: "pydict \<Rightarrow> (string \<times> string \<times> string \<times> string) option" where
  "routing_fields payload =
     (let mode = py_strip (py_str (py_or (dgetN payload ''routing_mode'') (PStr ''auto'')));
          country = py_strip (str_or_empty (dgetN payload ''force_country''));
          kind = py_strip (py_str (py_or (dgetN payload ''routing_ip_type'') (PStr ''all'')));
          isp = py_strip (str_or_empty (dgetN payload ''routing_isp''))
      in if mode \<in> {''auto'', ''fixed_ip'', ''fixed_region'', ''favorites''}
            \<and> kind \<in> {''all'', ''residential'', ''hosting''}
         then Some (mode, country, kind, isp) else None)"

definition set_routing :: "string \<times> string \<times> string \<times> string \<Rightarrow> pydict \<Rightarrow> pydict" where
  "set_routing r cfg = (case r of (mode, country, kind, isp) \<Rightarrow>
     dset (dset (dset (dset cfg ''routing_mode'' (PStr mode)) ''force_country'' (PStr country))
       ''routing_ip_type'' (PStr kind)) ''routing_isp'' (PStr isp))"

definition saved_reply :: "web_draws \<Rightarrow> pydict \<Rightarrow> pydict \<Rightarrow> ui_state \<Rightarrow> web_reply \<times> ui_state" where
  "saved_reply dr d cfg st =
     (if draw_save dr = Written then ok_reply d else not_ok 500, save_config dr cfg st)"

definition update_settings :: "ui_env \<Rightarrow> web_draws \<Rightarrow> pydict \<Rightarrow> ui_state \<Rightarrow> web_reply \<times> ui_state" where
  "update_settings env dr payload st = (case port_of (dgetN payload ''proxy_port'') 1024 of
     None \<Rightarrow> (not_ok 400, st)
   | Some (Inl _) \<Rightarrow> (not_ok 500, st)
   | Some (Inr port) \<Rightarrow>
       (case routing_fields payload of
          None \<Rightarrow> (not_ok 400, st)
        | Some r \<Rightarrow>
            (case load_config env dr st of
               Inl _ \<Rightarrow> (not_ok 500, st)
             | Inr (cfg, st) \<Rightarrow>
                 if py_eq (PInt port) (dget_or cfg ''port'' (PInt 8787)) then (not_ok 400, st)
                 else saved_reply dr
                   [(''restart_needed'', PBool (\<not> py_eq (PInt port) (dget_or cfg ''proxy_port'' (PInt 7928))))]
                   (set_routing r (dset cfg ''proxy_port'' (PInt port))) st)))"

definition update_routing :: "ui_env \<Rightarrow> web_draws \<Rightarrow> pydict \<Rightarrow> ui_state \<Rightarrow> web_reply \<times> ui_state" where
  "update_routing env dr payload st = (case routing_fields payload of
     None \<Rightarrow> (not_ok 400, st)
   | Some r \<Rightarrow>
       (case load_config env dr st of
          Inl _ \<Rightarrow> (not_ok 500, st)
        | Inr (cfg, st) \<Rightarrow> saved_reply dr []
            (dpop (dset (set_routing r cfg) ''fav_fail_fallback''
               (PBool (truthy (dget_or payload ''fav_fail_fallback'' (PBool True))))) ''enable_force_country'') st))"

definition toggle_favorite :: "ui_env \<Rightarrow> web_draws \<Rightarrow> pydict \<Rightarrow> ui_state \<Rightarrow> web_reply \<times> ui_state" where
  "toggle_favorite env dr payload st =
     (let node = PStr (py_strip (str_or_empty (dgetN payload ''id''))) in
      case load_config env dr st of
        Inl _ \<Rightarrow> (not_ok 500, st)
      | Inr (cfg, st) \<Rightarrow>
          (let ids = (case dget_or cfg ''favorite_node_ids'' (PList []) of PList xs \<Rightarrow> xs | _ \<Rightarrow> []);
               ids' = (if node \<in> set ids then remove1 node ids else ids @ [node])
           in saved_reply dr [(''favorite_node_ids'', PList ids')]
                (dset cfg ''favorite_node_ids'' (PList ids')) st))"

section \<open>Dispatch\<close>

text \<open>\<open>None\<close> is a body that is no JSON object, which every endpoint answers with a server error.
  The argument \<open>rest\<close> stands for the other endpoints.\<close>

type_synonym other_endpoints = "string \<Rightarrow> pydict option \<Rightarrow> ui_file \<Rightarrow> web_reply \<times> ui_file"

definition configured ::
  "other_endpoints \<Rightarrow> ui_env \<Rightarrow> web_draws \<Rightarrow> string \<Rightarrow> pydict option \<Rightarrow> ui_state \<Rightarrow> web_reply \<times> ui_state" where
  "configured rest env dr path body st =
     (if path \<in> {''/api/update_credentials'', ''/api/update_settings'', ''/api/update_routing'', ''/api/toggle_favorite''}
      then (case body of
          None \<Rightarrow> (not_ok 500, st)
        | Some payload \<Rightarrow>
            if path = ''/api/update_credentials'' then update_credentials env dr payload st
            else if path = ''/api/update_settings'' then update_settings env dr payload st
            else if path = ''/api/update_routing'' then update_routing env dr payload st
            else toggle_favorite env dr payload st)
      else (case rest path body (ui_file st) of (r, f) \<Rightarrow> (r, st\<lparr>ui_file := f\<rparr>)))"

definition do_post ::
  "other_endpoints \<Rightarrow> ui_env \<Rightarrow> web_draws \<Rightarrow> rat \<Rightarrow> string \<Rightarrow> string \<Rightarrow> string \<Rightarrow> pydict option \<Rightarrow> ui_state
    \<Rightarrow> web_reply \<times> ui_state" where
  "do_post rest env dr now token request_path header body st = (case load_config env dr st of
     Inl _ \<Rightarrow> (No_Answer, st)
   | Inr (cfg, st) \<Rightarrow>
       (case validate_path cfg request_path of
          Redirect p \<Rightarrow> (Status 302 [(''Location'', PStr p)], st)
        | No_Such_Path \<Rightarrow> (Status 404 [], st)
        | Effective path \<Rightarrow>
            if path = [] then (No_Answer, st)
            else if path = ''/api/login'' then
              (case body of None \<Rightarrow> (not_ok 500, st) | Some payload \<Rightarrow> login env dr now token payload st)
            else if path = ''/api/logout'' then logout header st
            else (case load_config env dr st of
                Inl _ \<Rightarrow> (No_Answer, st)
              | Inr (cfg, st) \<Rightarrow>
                  if \<not> is_authorized cfg header now st then (Status 401 [(''error'', PStr ''Unauthorized'')], st)
                  else configured rest env dr path body st)))"

definition do_get ::
  "(string \<Rightarrow> ui_file \<Rightarrow> web_reply \<times> ui_file) \<Rightarrow> ui_env \<Rightarrow> web_draws \<Rightarrow> rat \<Rightarrow> string \<Rightarrow> string \<Rightarrow> ui_state
    \<Rightarrow> web_reply \<times> ui_state" where
  "do_get pages env dr now request_path header st = (case load_config env dr st of
     Inl _ \<Rightarrow> (No_Answer, st)
   | Inr (cfg, st) \<Rightarrow>
       (case validate_path cfg request_path of
          Redirect p \<Rightarrow> (Status 302 [(''Location'', PStr p)], st)
        | No_Such_Path \<Rightarrow> (Status 404 [], st)
        | Effective path \<Rightarrow>
            if path = [] then (No_Answer, st)
            else (case load_config env dr st of
                Inl _ \<Rightarrow> (No_Answer, st)
              | Inr (cfg, st) \<Rightarrow>
                  if \<not> is_authorized cfg header now st then
                    (if path \<in> {''/'', ''/index.html''} then (Status 200 [(''page'', PStr ''login'')], st)
                     else (Status 401 [(''error'', PStr ''Unauthorized'')], st))
                  else (case pages path (ui_file st) of (r, f) \<Rightarrow> (r, st\<lparr>ui_file := f\<rparr>)))))"

section \<open>Histories\<close>

text \<open>Everything that touches the sessions: requests, and the two calls of the control interface.\<close>

datatype web_event =
    Post web_draws rat string string string "pydict option"
  | Get web_draws rat string string
  | Issue rat string
  | Account web_draws bool string string

fun web_step ::
  "other_endpoints \<Rightarrow> (string \<Rightarrow> ui_file \<Rightarrow> web_reply \<times> ui_file) \<Rightarrow> ui_env \<Rightarrow> web_event \<Rightarrow> ui_state \<Rightarrow> ui_state"
  where
  "web_step rest pages env (Post dr now token path header body) st =
     snd (do_post rest env dr now token path header body st)"
| "web_step rest pages env (Get dr now path header) st = snd (do_get pages env dr now path header st)"
| "web_step rest pages env (Issue now token) st = snd (issue_managed_ui_session now token st)"
| "web_step rest pages env (Account dr written username password) st =
     (case update_managed_account env (draw_username dr) (draw_password dr) (draw_load dr) written username password st of
        Inl _ \<Rightarrow> st | Inr (r, st') \<Rightarrow> st')"

text \<open>A session is granted by a login whose user name and password are those of the configuration
  at that moment, or by the control interface.\<close>

fun grants :: "ui_env \<Rightarrow> web_event \<Rightarrow> ui_state \<Rightarrow> string \<Rightarrow> rat \<Rightarrow> bool" where
  "grants env (Post dr now token path header body) st t until =
     (token = t \<and> until = now + login_seconds \<and>
      (\<exists>cfg st' payload. load_config env dr st = Inr (cfg, st')
         \<and> (\<exists>cfg' st''. load_config env dr st' = Inr (cfg', st'')
         \<and> validate_path cfg path = Effective ''/api/login'' \<and> body = Some payload \<and> login_matches cfg' payload)))"
| "grants env (Issue now token) st t until = (token = t \<and> until = now + 300)"
| "grants env e st t until = False"

lemma load_config_sessions: "load_config env dr st = Inr (cfg, st') \<Longrightarrow> ui_sessions st' = ui_sessions st"
  by (auto simp: load_config_def err_bind_Inr)

lemma save_config_sessions [simp]: "ui_sessions (save_config dr cfg st) = ui_sessions st"
  by (simp add: save_config_def)

lemma saved_reply_sessions [simp]: "ui_sessions (snd (saved_reply dr d cfg st)) = ui_sessions st"
  by (simp add: saved_reply_def)

lemma endpoints_sessions:
  "ui_sessions (snd (update_settings env dr payload st)) = ui_sessions st"
  "ui_sessions (snd (update_routing env dr payload st)) = ui_sessions st"
  "ui_sessions (snd (toggle_favorite env dr payload st)) = ui_sessions st"
  by (auto simp: update_settings_def update_routing_def toggle_favorite_def Let_def load_config_sessions
      split: option.split sum.split)

lemma credentials_sessions:
  "ui_sessions (snd (update_credentials env dr payload st)) \<in> {ui_sessions st, []}"
  by (auto simp: update_credentials_def Let_def load_config_sessions split: option.split sum.split)

lemma configured_sessions: "ui_sessions (snd (configured rest env dr path body st)) \<in> {ui_sessions st, []}"
  using credentials_sessions
  by (auto simp: configured_def endpoints_sessions split: option.split prod.split)

text \<open>A session ends with its logout, with new credentials entered in the interface and with new
  credentials from the control interface.\<close>

fun drops :: "other_endpoints \<Rightarrow> ui_env \<Rightarrow> web_event \<Rightarrow> ui_state \<Rightarrow> string \<Rightarrow> bool" where
  "drops rest env (Post dr now token path header body) st t =
     (\<exists>cfg st'. load_config env dr st = Inr (cfg, st') \<and>
        (validate_path cfg path = Effective ''/api/logout'' \<and> session_cookie header = t \<and> t \<noteq> []
         \<or> validate_path cfg path = Effective ''/api/update_credentials''
           \<and> (\<exists>restart. fst (do_post rest env dr now token path header body st)
                = ok_reply [(''restart_needed'', restart), (''reauth_required'', PBool True)])))"
| "drops rest env (Account dr written username password) st t =
     (valid_managed_credentials username password \<and> written \<and> (\<exists>x. load_config env dr st = Inr x))"
| "drops rest env e st t = False"

definition web_run ::
  "other_endpoints \<Rightarrow> (string \<Rightarrow> ui_file \<Rightarrow> web_reply \<times> ui_file) \<Rightarrow> ui_env \<Rightarrow> web_event list \<Rightarrow> ui_state \<Rightarrow> ui_state"
  where
  "web_run rest pages env es st = fold (web_step rest pages env) es st"

lemma session_after_post:
  assumes "map_of (ui_sessions (snd (do_post rest env dr now token path header body st))) t = Some u"
  shows "grants env (Post dr now token path header body) st t u \<or> map_of (ui_sessions st) t = Some u"
proof (cases "load_config env dr st")
  case (Inl e)
  with assms show ?thesis by (simp add: do_post_def)
next
  case (Inr p)
  obtain cfg st1 where p: "p = (cfg, st1)" by (cases p)
  note load = load_config_sessions [OF Inr [unfolded p]]
  show ?thesis
  proof (cases "validate_path cfg path")
    case (Effective q)
    consider "q = []" | "q = ''/api/login''" | "q = ''/api/logout''"
      | "q \<noteq> []" "q \<noteq> ''/api/login''" "q \<noteq> ''/api/logout''" by blast
    then show ?thesis
    proof cases
      case 2
      then show ?thesis using assms Inr p Effective load
        by (auto simp: do_post_def login_def update_conv load_config_sessions
            split: option.splits sum.splits if_splits)
    next
      case 3
      then show ?thesis using assms Inr p Effective load
        by (auto simp: do_post_def logout_def delete_conv split: if_splits)
    next
      case 4
      then show ?thesis
        using assms Inr p Effective load configured_sessions [of rest env dr q body]
        by (auto simp: do_post_def load_config_sessions split: sum.splits if_splits) (metis empty_iff load_config_sessions map_of.simps(1) option.distinct(1) insert_iff)
    qed (use assms Inr p Effective load in \<open>simp add: do_post_def\<close>)
  qed (use assms Inr p load in \<open>simp_all add: do_post_def\<close>)
qed

lemma load_config_account:
  "err_bind (load_ui_config env (draw_username dr) (draw_password dr) (draw_load dr) (ui_file st)) k =
   err_bind (load_config env dr st) (\<lambda>(cfg, st'). k (cfg, ui_file st'))"
  by (cases "load_ui_config env (draw_username dr) (draw_password dr) (draw_load dr) (ui_file st)")
    (auto simp: load_config_def)

lemma session_after_step:
  assumes "map_of (ui_sessions (web_step rest pages env e st)) t = Some u"
  shows "grants env e st t u \<or> map_of (ui_sessions st) t = Some u"
proof (cases e)
  case (Post dr now token path header body)
  with assms session_after_post show ?thesis by fastforce
next
  case (Get dr now path header)
  with assms show ?thesis
    by (auto simp: do_get_def load_config_sessions split: sum.splits path_answer.splits if_splits prod.splits)
next
  case (Issue now token)
  with assms show ?thesis by (auto simp: issue_managed_ui_session_def update_conv split: if_splits)
next
  case (Account dr written u' p')
  with assms show ?thesis
    by (auto simp: update_managed_account_def load_config_account split: sum.splits if_splits
        elim!: err_bind.elims)
qed

lemma dropped_session:
  assumes "drops rest env e st t"
  shows "map_of (ui_sessions (web_step rest pages env e st)) t = None"
proof (cases e)
  case (Post dr now token path header body)
  with assms obtain cfg st1 where load: "load_config env dr st = Inr (cfg, st1)"
    and cases: "validate_path cfg path = Effective ''/api/logout'' \<and> session_cookie header = t \<and> t \<noteq> []
      \<or> validate_path cfg path = Effective ''/api/update_credentials'' \<and> (\<exists>restart. fst (do_post rest env dr now token path header body st)
                = ok_reply [(''restart_needed'', restart), (''reauth_required'', PBool True)])"
    by auto
  from cases show ?thesis
  proof
    assume "validate_path cfg path = Effective ''/api/logout'' \<and> session_cookie header = t \<and> t \<noteq> []"
    with Post load show ?thesis by (simp add: do_post_def logout_def delete_conv)
  next
    assume h: "validate_path cfg path = Effective ''/api/update_credentials'' \<and> (\<exists>restart. fst (do_post rest env dr now token path header body st)
                = ok_reply [(''restart_needed'', restart), (''reauth_required'', PBool True)])"
    with Post load show ?thesis
      by (auto simp: do_post_def configured_def update_credentials_def Let_def not_ok_def ok_reply_def
          split: sum.splits if_splits option.splits)
  qed
next
  case (Account dr written u p)
  with assms show ?thesis by (auto simp: update_managed_account_def load_config_account)
qed (use assms in simp_all)

section \<open>Properties\<close>

text \<open>C5. A live session of the web interface is genuine: in every history of requests that starts
  without sessions, a request is treated as authorized only if its cookie was handed out by a
  login with the user name and password configured at that moment (or by the control
  interface), has not expired, and was not dropped since by its logout or by a change of the
  credentials.\<close>

theorem authorized_session_genuine:
  assumes "ui_sessions st = []" "is_authorized cfg header now (web_run rest pages env es st)"
  shows "\<exists>pre e post until. es = pre @ e # post
    \<and> grants env e (web_run rest pages env pre st) (session_cookie header) until \<and> now < until
    \<and> (\<forall>mid x tail. post = mid @ x # tail \<longrightarrow>
         \<not> drops rest env x (web_run rest pages env (pre @ e # mid) st) (session_cookie header))"
proof -
  let ?t = "session_cookie header"
  let ?run = "\<lambda>es. web_run rest pages env es st"
  have "\<exists>pre e post. es = pre @ e # post \<and> grants env e (?run pre) ?t u
      \<and> (\<forall>mid x tail. post = mid @ x # tail \<longrightarrow> \<not> drops rest env x (?run (pre @ e # mid)) ?t)"
    if "map_of (ui_sessions (?run es)) ?t = Some u" for u
    using that
  proof (induction es rule: rev_induct)
    case Nil
    with assms(1) show ?case by (simp add: web_run_def)
  next
    case (snoc e es)
    have step: "?run (es @ [e]) = web_step rest pages env e (?run es)" by (simp add: web_run_def)
    with snoc.prems consider "grants env e (?run es) ?t u" | "map_of (ui_sessions (?run es)) ?t = Some u"
      using session_after_step by metis
    then show ?case
    proof cases
      case 1
      then show ?thesis by (intro exI [of _ es] exI [of _ e] exI [of _ "[]"]) simp
    next
      case 2
      with snoc.IH obtain pre g post where h: "es = pre @ g # post" "grants env g (?run pre) ?t u"
        "\<forall>mid x tail. post = mid @ x # tail \<longrightarrow> \<not> drops rest env x (?run (pre @ g # mid)) ?t" by blast
      have last: "\<not> drops rest env e (?run es) ?t"
        using snoc.prems dropped_session [of rest env e "?run es" ?t pages] by (auto simp: step)
      have later: "\<not> drops rest env x (?run (pre @ g # mid)) ?t"
        if m: "post @ [e] = mid @ x # tail" for mid x tail
      proof (cases tail rule: rev_cases)
        case Nil
        with m h(1) last show ?thesis by simp
      next
        case (snoc ts y)
        with m have "post = mid @ x # ts" by simp
        with h(3) show ?thesis by blast
      qed
      have "es @ [e] = pre @ g # (post @ [e])" using h(1) by simp
      with h(2) later show ?thesis by blast
    qed
  qed
  moreover from assms(2) obtain u where "map_of (ui_sessions (?run es)) ?t = Some u" "now < u"
    by (auto simp: is_authorized_def split: option.splits)
  ultimately show ?thesis by blast
qed


definition example_draws :: web_draws where
  "example_draws = \<lparr>draw_username = ''aB1'', draw_password = ''cD2'', draw_load = Written, draw_save = Written\<rparr>"

definition example_login :: web_event where
  "example_login = Post example_draws 100 ''tok'' ''/EJsW2EeBo9lY/api/login'' []
     (Some [(''username'', PStr ''aB1''), (''password'', PStr ''cD2'')])"

definition example_start :: ui_state where
  "example_start = \<lparr>ui_file = Absent, ui_sessions = []\<rparr>"

lemma authorized_session_genuine_witness:
  "is_authorized [(''password'', PStr ''cD2'')] ''session=tok'' 200
      (web_run (\<lambda>p b f. (No_Answer, f)) (\<lambda>p f. (No_Answer, f)) example_env [example_login] example_start)
   \<and> grants example_env example_login example_start ''tok'' (100 + login_seconds)"
proof -
  let ?r = "\<lambda>p b f. (No_Answer, f)" and ?g = "\<lambda>p f. (No_Answer, f)"
  have a: "is_authorized [(''password'', PStr ''cD2'')] ''session=tok'' 200
      (web_run ?r ?g example_env [example_login] example_start)" by code_simp
  have t: "session_cookie ''session=tok'' = ''tok''" by code_simp
  have s: "ui_sessions example_start = []" by (simp add: example_start_def)
  from authorized_session_genuine [OF s a] obtain pre e post until where
    h: "[example_login] = pre @ e # post" "grants example_env e (web_run ?r ?g example_env pre example_start) ''tok'' until"
    unfolding t by blast
  then have "pre = []" "e = example_login" by (simp_all add: Cons_eq_append_conv)
  with h(2) have "grants example_env example_login example_start ''tok'' until" by (simp add: web_run_def)
  moreover from this have "until = 100 + login_seconds" by (simp add: example_login_def)
  ultimately show ?thesis using a by simp
qed

end
