(* ===== verification/Candidates.thy ===== *)
theory Candidates
  imports Node_Pool Dns_Cache
begin

text \<open>
  The candidates of the manager: the numeric address by which two nodes are the same exit, the
  reservations that keep two dials off one candidate, and the node file with its list of
  candidates that failed. A failed candidate leaves the pool for a back-off time.
\<close>

section \<open>Addresses\<close>

text \<open>\<open>str(ipaddress.ip_address(s))\<close>. A mapped IPv4 address is printed in hexadecimal.\<close>

definition hex_digit :: "char \<Rightarrow> bool" where
  "hex_digit c = (digit_char c \<or> (65 \<le> chr_code c \<and> chr_code c \<le> 70) \<or> (97 \<le> chr_code c \<and> chr_code c \<le> 102))"

definition hex_value :: "char \<Rightarrow> nat" where
  "hex_value c = (if digit_char c then chr_code c - 48
     else if chr_code c \<le> 70 then chr_code c - 55 else chr_code c - 87)"

definition hextet :: "string \<Rightarrow> nat option" where
  "hextet p = (if p \<noteq> [] \<and> length p \<le> 4 \<and> list_all hex_digit p
     then Some (foldl (\<lambda>n c. 16 * n + hex_value c) 0 p) else None)"

fun hextets :: "string list \<Rightarrow> nat list option" where
  "hextets [] = Some []"
| "hextets (p # ps) = (case (hextet p, hextets ps) of (Some n, Some ns) \<Rightarrow> Some (n # ns) | _ \<Rightarrow> None)"

definition ipv4_words :: "string \<Rightarrow> nat list option" where
  "ipv4_words s = (case ipv4_address s of None \<Rightarrow> None
     | Some a \<Rightarrow> (case map digits_val (py_split (CHR ''.'') a) of
         [p, q, r, t] \<Rightarrow> Some [256 * p + q, 256 * r + t] | _ \<Rightarrow> None))"

text \<open>The words of the parts between the colons, where the last part may be an IPv4 address.\<close>

definition tail_words :: "string list \<Rightarrow> nat list option" where
  "tail_words ps = (if ps = [] then Some []
     else if CHR ''.'' \<in> set (last ps)
     then (case (hextets (butlast ps), ipv4_words (last ps)) of (Some ns, Some ms) \<Rightarrow> Some (ns @ ms) | _ \<Rightarrow> None)
     else hextets ps)"

definition gap_words :: "string list \<Rightarrow> string list \<Rightarrow> nat list option" where
  "gap_words hi lo = (case (hextets (if hi = [[]] then [] else hi), tail_words (if lo = [[]] then [] else lo)) of
     (Some xs, Some ys) \<Rightarrow> if length xs + length ys < 8 then Some (xs @ replicate (8 - length xs - length ys) 0 @ ys) else None
   | _ \<Rightarrow> None)"

definition ipv6_words :: "string \<Rightarrow> nat list option" where
  "ipv6_words s = (let ps = py_split (CHR '':'') s in
     if length ps < 3 then None
     else (case filter (\<lambda>i. ps ! i = []) [1..<length ps - 1] of
         [] \<Rightarrow> (case tail_words ps of Some ns \<Rightarrow> if length ns = 8 then Some ns else None | None \<Rightarrow> None)
       | [i] \<Rightarrow> gap_words (take i ps) (drop (i + 1) ps)
       | _ \<Rightarrow> None))"

fun hex_text :: "nat \<Rightarrow> string" where
  "hex_text n = (if n < 16 then [''0123456789abcdef'' ! n] else hex_text (n div 16) @ [''0123456789abcdef'' ! (n mod 16)])"

text \<open>The first longest run of zero words is written as two colons, if it has two words or more.\<close>

fun zero_run :: "nat list \<Rightarrow> nat" where
  "zero_run (0 # ns) = Suc (zero_run ns)"
| "zero_run _ = 0"

definition longest_gap :: "nat list \<Rightarrow> nat \<times> nat" where
  "longest_gap ns = fold (\<lambda>i (best, len). let r = zero_run (drop i ns) in if len < r then (i, r) else (best, len))
     [0..<length ns] (0, 0)"

definition colons :: "string list \<Rightarrow> string" where
  "colons ps = concat (map (\<lambda>(i, p). if i = 0 then p else CHR '':'' # p) (zip [0..<length ps] ps))"

definition ipv6_text :: "nat list \<Rightarrow> string" where
  "ipv6_text ns = (case longest_gap ns of (i, len) \<Rightarrow>
     if len < 2 then colons (map hex_text ns)
     else colons (map hex_text (take i ns)) @ ''::'' @ colons (map hex_text (drop (i + len) ns)))"

definition ipv6_address :: "string \<Rightarrow> string option" where
  "ipv6_address s = (case py_partition (CHR ''%'') s of (addr, scoped, scope) \<Rightarrow>
     if CHR ''/'' \<in> set s \<or> (scoped \<and> (scope = [] \<or> CHR ''%'' \<in> set scope)) then None
     else map_option (\<lambda>ns. ipv6_text ns @ (if scoped then CHR ''%'' # scope else [])) (ipv6_words addr))"

definition ip_address :: "string \<Rightarrow> string option" where
  "ip_address s = (case ipv4_address s of Some a \<Rightarrow> Some a | None \<Rightarrow> ipv6_address s)"

section \<open>Identity of a candidate\<close>

definition address_field :: "pydict \<Rightarrow> string \<Rightarrow> string option" where
  "address_field node field =
     (let v = py_strip (str_or_empty (dgetN node field)) in if v = [] then None else ip_address v)"

definition candidate_ip_identity :: "pydict \<Rightarrow> string" where
  "candidate_ip_identity node =
     (case List.map_filter (address_field node) [''exit_ip'', ''ip'', ''remote_host''] of [] \<Rightarrow> [] | a # _ \<Rightarrow> a)"

definition candidate_ip_identities :: "pydict list \<Rightarrow> string set \<Rightarrow> string set" where
  "candidate_ip_identities nodes ids =
     candidate_ip_identity ` {n \<in> set nodes. node_id n \<in> py_strip ` ids - {[]}} - {[]}"

definition candidate_conflicts_with_ids :: "pydict list \<Rightarrow> pydict \<Rightarrow> string set \<Rightarrow> bool" where
  "candidate_conflicts_with_ids nodes node ids =
     ((node_id node \<noteq> [] \<and> node_id node \<in> py_strip ` ids)
      \<or> (candidate_ip_identity node \<noteq> [] \<and> candidate_ip_identity node \<in> candidate_ip_identities nodes (py_strip ` ids)))"

definition candidate_node :: "pydict list \<Rightarrow> string \<Rightarrow> pydict" where
  "candidate_node nodes cid = (case List.find (\<lambda>n. node_id n = cid) nodes of
     Some n \<Rightarrow> n | None \<Rightarrow> [(''id'', PStr cid)])"

section \<open>Reservations\<close>

definition reserve_candidate :: "pydict list \<Rightarrow> string \<Rightarrow> string set \<Rightarrow> string set \<Rightarrow> bool \<times> string set" where
  "reserve_candidate nodes cid used pending =
     (let cid = py_strip cid in
      if cid = [] \<or> candidate_conflicts_with_ids nodes (candidate_node nodes cid) (used \<union> pending) then (False, pending)
      else (True, insert cid pending))"

definition release_candidate_reservation :: "string \<Rightarrow> string set \<Rightarrow> string set" where
  "release_candidate_reservation cid pending = pending - {py_strip cid}"

section \<open>The node file\<close>

record node_store =
  stored_nodes :: pyval
  stored_blacklist :: pyval

text \<open>Entries whose time has passed are dropped; an entry of another shape as well.\<close>

fun clean_entries :: "rat \<Rightarrow> pydict \<Rightarrow> pyexc + pydict \<times> bool" where
  "clean_entries now [] = Inr ([], False)"
| "clean_entries now ((k, v) # rest) = (case v of
     PDict d \<Rightarrow>
       err_bind (py_float (py_or (dget_or d ''until'' (PInt 0)) (PInt 0))) (\<lambda>until.
       err_bind (clean_entries now rest) (\<lambda>(kept, changed).
       Inr (if until \<noteq> Fin 0 \<and> flt_less (Fin now) until then ((k, v) # kept, changed) else (kept, True))))
   | _ \<Rightarrow> err_bind (clean_entries now rest) (\<lambda>(kept, changed). Inr (kept, True)))"

definition write_file :: "bool \<Rightarrow> (node_store \<Rightarrow> node_store) \<Rightarrow> node_store \<Rightarrow> pyexc + node_store" where
  "write_file written change st = (if written then Inr (change st) else Inl OSError)"

definition load_blacklist :: "rat \<Rightarrow> bool \<Rightarrow> node_store \<Rightarrow> pyexc + pydict \<times> node_store" where
  "load_blacklist now written st = (case stored_blacklist st of
     PDict raw \<Rightarrow>
       err_bind (clean_entries now raw) (\<lambda>(cleaned, changed).
       err_bind (if changed then write_file written (stored_blacklist_update (\<lambda>_. PDict cleaned)) st else Inr st) (\<lambda>st'.
       Inr (cleaned, st')))
   | _ \<Rightarrow> Inr ([], st))"

fun node_dicts :: "pyval list \<Rightarrow> pydict list" where
  "node_dicts [] = []"
| "node_dicts (PDict d # vs) = d # node_dicts vs"
| "node_dicts (_ # vs) = node_dicts vs"

definition read_nodes :: "rat \<Rightarrow> bool \<Rightarrow> node_store \<Rightarrow> pyexc + pydict list \<times> node_store" where
  "read_nodes now written st = (case stored_nodes st of
     PList raw \<Rightarrow>
       err_bind (load_blacklist now written st) (\<lambda>(black, st').
       Inr (filter (\<lambda>n. node_id n \<notin> dkeys black) (node_dicts raw), st'))
   | _ \<Rightarrow> Inr ([], st))"

definition address_text :: "pydict \<Rightarrow> pyval" where
  "address_text node = py_or (py_or (dgetN node ''ip'') (dgetN node ''remote_host'')) (PStr [])"

definition blacklist_entry :: "string \<Rightarrow> pydict \<Rightarrow> string \<Rightarrow> rat \<Rightarrow> rat \<Rightarrow> pydict" where
  "blacklist_entry cid node reason marked backoff =
     [(''id'', PStr cid), (''ip'', address_text node), (''country'', dget_or node ''country'' (PStr [])),
      (''reason'', PStr reason), (''marked_at'', PFloat (Fin marked)), (''until'', PFloat (Fin (marked + backoff)))]"

text \<open>\<open>clock\<close> and \<open>written\<close> give the readings of the clock and the outcomes of the writes in order.\<close>

definition mark_blacklisted ::
  "rat \<Rightarrow> (nat \<Rightarrow> rat) \<Rightarrow> (nat \<Rightarrow> bool) \<Rightarrow> pydict \<Rightarrow> string \<Rightarrow> node_store \<Rightarrow> pyexc + node_store" where
  "mark_blacklisted backoff clock written node message st =
     (if node_id node = [] then Inr st
      else err_bind (load_blacklist (clock 0) (written 0) st) (\<lambda>(black, st).
        write_file (written 1) (stored_blacklist_update (\<lambda>_. PDict
          (dset black (node_id node) (PDict (blacklist_entry (node_id node) node message (clock 1) backoff))))) st))"

definition CANDIDATE_FAILURE_CODES :: "string set" where
  "CANDIDATE_FAILURE_CODES = {''candidate_dial_failed'', ''candidate_egress_failed''}"

definition failed_node :: "string \<Rightarrow> rat \<Rightarrow> pydict \<Rightarrow> pydict" where
  "failed_node reason moment node =
     dpop (dpop (dset (dset (dset (dset node ''probe_status'' (PStr ''unavailable''))
       ''probe_message'' (PStr reason)) ''last_probe_at'' (PFloat (Fin moment)))
       ''probed_at'' (PFloat (Fin moment))) ''exit_ip'') ''exit_ip_checked_at''"

definition failure_entry :: "string \<Rightarrow> pydict \<Rightarrow> string \<Rightarrow> rat \<Rightarrow> rat \<Rightarrow> pydict" where
  "failure_entry cid failed reason moment backoff =
     [(''id'', PStr cid), (''ip'', address_text failed),
      (''country'', py_or (dgetN failed ''country'') (PStr [])), (''reason'', PStr reason),
      (''reason_code'', PStr reason), (''marked_at'', PFloat (Fin moment)), (''until'', PFloat (Fin (moment + backoff)))]"

text \<open>The ids of the main connection, of the slots and of the coordinator stay in the pool.\<close>

record pool_limits =
  pl_active :: string
  pl_slots :: "string list"
  pl_coordinator :: "string set"
  pl_limit :: int
  pl_backoff :: rat

definition store_failure ::
  "pool_limits \<Rightarrow> (nat \<Rightarrow> rat) \<Rightarrow> (nat \<Rightarrow> bool) \<Rightarrow> string \<Rightarrow> string \<Rightarrow> pydict list \<Rightarrow> pydict \<Rightarrow> node_store
    \<Rightarrow> pyexc + node_store" where
  "store_failure lims clock written cid reason updated failed st =
     err_bind (load_blacklist (clock 2) (written 1) st) (\<lambda>(black, st).
     err_bind (rebalance_valid_pool updated []
       (protected_node_ids (pl_active lims) (pl_slots lims) \<union> pl_coordinator lims) {} (pl_limit lims)) (\<lambda>pool.
     let pool = (if cid \<notin> (\<lambda>n. str_or_empty (dgetN n ''id'')) ` set pool \<and> int (length pool) < pl_limit lims
         then pool @ [failed] else pool) in
     err_bind (write_file (written 2) (stored_blacklist_update (\<lambda>_. PDict
       (dset black cid (PDict (failure_entry cid failed reason (clock 0) (pl_backoff lims)))))) st) (\<lambda>st.
     write_file (written 3) (stored_nodes_update (\<lambda>_. PList (map PDict pool))) st)))"

definition mark_candidate_unavailable ::
  "pool_limits \<Rightarrow> (nat \<Rightarrow> rat) \<Rightarrow> (nat \<Rightarrow> bool) \<Rightarrow> string \<Rightarrow> string \<Rightarrow> node_store \<Rightarrow> pyexc + bool \<times> node_store" where
  "mark_candidate_unavailable lims clock written candidate_id reason_code st =
     (let cid = py_strip candidate_id; reason = py_strip reason_code in
      if cid = [] \<or> reason \<notin> CANDIDATE_FAILURE_CODES then Inr (False, st)
      else err_bind (read_nodes (clock 1) (written 0) st) (\<lambda>(nodes, st).
        let matches = filter (\<lambda>n. node_id n = cid) nodes in
        if matches = [] then Inr (False, st)
        else err_bind (store_failure lims clock written cid reason
            (map (\<lambda>n. if node_id n = cid then failed_node reason (clock 0) n else n) nodes)
            (failed_node reason (clock 0) (last matches)) st) (\<lambda>st'.
          Inr (True, st'))))"

section \<open>Facts\<close>

lemma candidate_ip_identities_mono: "ids \<subseteq> ids' \<Longrightarrow> candidate_ip_identities nodes ids \<subseteq> candidate_ip_identities nodes ids'"
  unfolding candidate_ip_identities_def by (intro Diff_mono image_mono) auto

lemma identities_strip [simp]: "candidate_ip_identities nodes (py_strip ` ids) = candidate_ip_identities nodes ids"
proof -
  have "py_strip ` py_strip ` ids = py_strip ` ids" by (simp add: image_image)
  then show ?thesis by (simp add: candidate_ip_identities_def)
qed

lemma node_id_strip [simp]: "py_strip (node_id n) = node_id n"
  by (simp add: node_id_def)

lemma candidate_node_id: "py_strip cid = cid \<Longrightarrow> node_id (candidate_node nodes cid) = cid"
  by (auto simp: candidate_node_def node_id_def find_Some_iff split: option.split)

lemma reserve_taken:
  assumes "reserve_candidate nodes d used pending = (True, pending')" "c \<in> pending" "py_strip c = c"
  shows "py_strip d \<noteq> c" and "candidate_ip_identity (candidate_node nodes (py_strip d)) \<notin> candidate_ip_identities nodes {c}"
proof -
  from assms(1) have d: "py_strip d \<noteq> []"
    "\<not> candidate_conflicts_with_ids nodes (candidate_node nodes (py_strip d)) (used \<union> pending)"
    by (auto simp: reserve_candidate_def Let_def split: if_splits)
  have "c \<in> py_strip ` (used \<union> pending)" using assms(2,3) by (metis UnI2 image_eqI)
  with d show "py_strip d \<noteq> c" by (auto simp: candidate_conflicts_with_ids_def candidate_node_id)
  have "candidate_ip_identities nodes {c} \<subseteq> candidate_ip_identities nodes (used \<union> pending)"
    using assms(2) by (intro candidate_ip_identities_mono) auto
  moreover have "[] \<notin> candidate_ip_identities nodes {c}" by (simp add: candidate_ip_identities_def)
  ultimately show "candidate_ip_identity (candidate_node nodes (py_strip d)) \<notin> candidate_ip_identities nodes {c}"
    using d(2) by (auto simp: candidate_conflicts_with_ids_def)
qed

lemma clean_entries_keeps:
  assumes "clean_entries now d = Inr (kept, changed)" "(k, PDict e) \<in> set d" "dget e ''until'' = Some (PFloat (Fin u))"
    "now < u" "0 < u"
  shows "k \<in> dkeys kept"
  using assms
proof (induction now d arbitrary: kept changed rule: clean_entries.induct)
  case (2 now k' v rest)
  show ?case
  proof (cases v)
    case (PDict e')
    with 2 show ?thesis
      by (fastforce simp: err_bind_Inr dget_or_def py_or_def split: if_splits)
  qed (use 2 in \<open>auto simp: err_bind_Inr\<close>)
qed simp

lemma clean_entries_subset: "clean_entries now d = Inr (kept, changed) \<Longrightarrow> set kept \<subseteq> set d"
proof (induction now d arbitrary: kept changed rule: clean_entries.induct)
  case (2 now k' v rest)
  then show ?case by (cases v) (fastforce simp: err_bind_Inr split: if_splits)+
qed simp

lemma read_nodes_blacklisted:
  assumes "read_nodes now written st = Inr (nodes, st')" "stored_blacklist st = PDict black"
    "(cid, PDict e) \<in> set black" "dget e ''until'' = Some (PFloat (Fin u))" "now < u" "0 < u"
  shows "cid \<notin> node_id ` set nodes"
  using assms clean_entries_keeps [OF _ assms(3,4,5,6)]
  by (auto simp: read_nodes_def load_blacklist_def err_bind_Inr split: pyval.splits)

text \<open>What happens at the reservations between two moments, each with the catalog of its moment.\<close>

datatype reservation_event = Reserve "pydict list" string "string set" | Release string

fun reservation_step :: "reservation_event \<Rightarrow> string set \<Rightarrow> string set" where
  "reservation_step (Reserve nodes cid used) pending = snd (reserve_candidate nodes cid used pending)"
| "reservation_step (Release cid) pending = release_candidate_reservation cid pending"

lemma reservation_kept:
  assumes "c \<in> pending" "\<forall>d. Release d \<in> set events \<longrightarrow> py_strip d \<noteq> c"
  shows "c \<in> fold reservation_step events pending"
  using assms
proof (induction events arbitrary: pending)
  case (Cons e events)
  have "c \<in> reservation_step e pending"
    using Cons.prems by (cases e) (auto simp: reserve_candidate_def Let_def release_candidate_reservation_def)
  with Cons show ?case by simp
qed simp

section \<open>Properties\<close>

text \<open>C19. A reserved candidate is exclusive: from a reservation that succeeds until its release,
  whatever the other threads reserve and release and however the catalog changes, no second
  reservation succeeds for the same candidate or for a candidate with the same exit address.\<close>

theorem reservation_exclusive:
  assumes "reserve_candidate nodes c used pending = (True, pending1)"
    and "\<forall>d. Release d \<in> set events \<longrightarrow> py_strip d \<noteq> py_strip c"
    and "reserve_candidate nodes' d used' (fold reservation_step events pending1) = (True, pending2)"
  shows "py_strip d \<noteq> py_strip c
    \<and> candidate_ip_identity (candidate_node nodes' (py_strip d)) \<notin> candidate_ip_identities nodes' {py_strip c}"
proof -
  from assms(1) have "py_strip c \<in> pending1" by (auto simp: reserve_candidate_def Let_def split: if_splits)
  then have "py_strip c \<in> fold reservation_step events pending1" using assms(2) by (rule reservation_kept)
  with reserve_taken [OF assms(3)] show ?thesis by simp
qed

definition candidate_example :: "string \<Rightarrow> string \<Rightarrow> pydict" where
  "candidate_example i a = [(''id'', PStr i), (''ip'', PStr a), (''probe_status'', PStr ''available'')]"

definition candidate_examples :: "pydict list" where
  "candidate_examples = [candidate_example ''a'' ''1.2.3.4'', candidate_example ''b'' '' 1.2.3.4'',
     candidate_example ''c'' ''5.6.7.8'']"

lemma reservation_exclusive_witness:
  "reserve_candidate candidate_examples ''b'' {} (fold reservation_step [Release ''c''] {''a''}) = (False, {''a''})
   \<and> candidate_ip_identity (candidate_node candidate_examples (py_strip ''c'')) \<notin> candidate_ip_identities candidate_examples {py_strip ''a''}"
proof -
  have r: "reserve_candidate candidate_examples ''a'' {} {} = (True, {''a''})" by code_simp
  have d: "reserve_candidate candidate_examples ''c'' {} (fold reservation_step [Release ''c''] {''a''}) = (True, {''c'', ''a''})"
    by code_simp
  have e: "\<forall>d. Release d \<in> set [Release ''c''] \<longrightarrow> py_strip d \<noteq> py_strip ''a''"
    by (simp add: py_strip_no_space py_isspace_char_def chr_code_def)
  from reservation_exclusive [OF r e d] show ?thesis by code_simp
qed

text \<open>A candidate that failed is out of use: after mark_candidate_unavailable answers that it
  did, no read of the nodes gives the candidate until the back-off has passed, whatever is written
  to the node file since; and it marks only candidates that exist, for the two failures it knows.\<close>

theorem failed_candidate_stays_out:
  assumes "mark_candidate_unavailable lims clock written cid reason st = Inr (marked, st')"
    and "stored_blacklist later = stored_blacklist st'" "read_nodes now w later = Inr (nodes, later')"
    and "now < clock 0 + pl_backoff lims" "0 < clock 0 + pl_backoff lims"
  shows "if marked then py_strip cid \<notin> node_id ` set nodes \<and> py_strip reason \<in> CANDIDATE_FAILURE_CODES \<and> py_strip cid \<noteq> []
    else stored_nodes st' = stored_nodes st"
proof -
  let ?c = "py_strip cid" and ?r = "py_strip reason"
  have black: "\<exists>black e. stored_blacklist s' = PDict black \<and> (?c, PDict e) \<in> set black
      \<and> dget e ''until'' = Some (PFloat (Fin (clock 0 + pl_backoff lims)))"
    if s: "store_failure lims clock written ?c ?r ns f s = Inr s'" for ns f s s'
  proof -
    from s obtain b where b: "stored_blacklist s' = PDict (dset b ?c (PDict (failure_entry ?c f ?r (clock 0) (pl_backoff lims))))"
      by (auto simp: store_failure_def err_bind_Inr write_file_def Let_def split: if_splits)
    have "(?c, v) \<in> set (dset b ?c v)" for v by (induction b) (auto simp: dset_def)
    with b show ?thesis by (force simp: failure_entry_def)
  qed
  show ?thesis
  proof (cases marked)
    case True
    with assms(1) obtain s ns f where "store_failure lims clock written ?c ?r ns f s = Inr st'"
      "?c \<noteq> []" "?r \<in> CANDIDATE_FAILURE_CODES"
      by (auto simp: mark_candidate_unavailable_def Let_def err_bind_Inr split: if_splits)
    with black obtain b e where "stored_blacklist st' = PDict b" "(?c, PDict e) \<in> set b"
      "dget e ''until'' = Some (PFloat (Fin (clock 0 + pl_backoff lims)))" by metis
    with read_nodes_blacklisted [OF assms(3) _ _ _ assms(4,5)] assms(2) True \<open>?c \<noteq> []\<close> \<open>?r \<in> _\<close>
    show ?thesis by auto
  next
    case False
    with assms(1) show ?thesis
      by (auto simp: mark_candidate_unavailable_def Let_def err_bind_Inr read_nodes_def load_blacklist_def write_file_def
          split: if_splits pyval.splits)
  qed
qed

definition store_example :: node_store where
  "store_example = \<lparr>stored_nodes = PList (map PDict candidate_examples), stored_blacklist = PDict []\<rparr>"

definition limits_example :: pool_limits where
  "limits_example = \<lparr>pl_active = [], pl_slots = [], pl_coordinator = {}, pl_limit = 150, pl_backoff = 1800\<rparr>"

lemma failed_candidate_stays_out_witness:
  "\<exists>st' nodes st''. mark_candidate_unavailable limits_example (\<lambda>_. 100) (\<lambda>_. True) '' a'' ''candidate_dial_failed'' store_example = Inr (True, st')
     \<and> read_nodes 1000 True st' = Inr (nodes, st'') \<and> ''a'' \<notin> node_id ` set nodes \<and> ''c'' \<in> node_id ` set nodes"
proof -
  let ?m = "mark_candidate_unavailable limits_example (\<lambda>_. 100) (\<lambda>_. True) '' a'' ''candidate_dial_failed'' store_example"
  have "(\<lambda>r. case r of Inr (b, st') \<Rightarrow> b \<and> (case read_nodes 1000 True st' of Inr (nodes, s) \<Rightarrow> ''c'' \<in> node_id ` set nodes | Inl e \<Rightarrow> False)
      | Inl e \<Rightarrow> False) ?m" by code_simp
  then obtain b st' where m: "?m = Inr (b, st')"
    "b \<and> (case read_nodes 1000 True st' of Inr (nodes, s) \<Rightarrow> ''c'' \<in> node_id ` set nodes | Inl e \<Rightarrow> False)"
    by (cases ?m) auto
  then obtain nodes st'' where h: "?m = Inr (True, st')" "read_nodes 1000 True st' = Inr (nodes, st'')" "''c'' \<in> node_id ` set nodes"
    by (cases "read_nodes 1000 True st'") auto
  have "py_strip '' a'' = ''a''" by code_simp
  with failed_candidate_stays_out [OF h(1) refl h(2)] h show ?thesis by (auto simp: limits_example_def)
qed

end
