(* ===== verification/Refinement.thy ===== *)
theory Refinement
  imports Main
begin

text \<open>
  The interface between a component and its abstract specification: operations of the code and
  of the specification, and a relation between their states that every operation keeps. The
  consequence for whole histories is proved once here; the components provide interpretations.
\<close>

locale simulation =
  fixes spec :: "'op \<Rightarrow> 'a \<Rightarrow> 'a"
    and impl :: "'op \<Rightarrow> 'c \<Rightarrow> 'c"
    and allowed :: "'op \<Rightarrow> bool"
    and rel :: "'a \<Rightarrow> 'c \<Rightarrow> bool"
  assumes step: "allowed x \<Longrightarrow> rel a c \<Longrightarrow> rel (spec x a) (impl x c)"
begin

lemma run: "list_all allowed xs \<Longrightarrow> rel a c \<Longrightarrow> rel (fold spec xs a) (fold impl xs c)"
  by (induction xs arbitrary: a c) (simp_all add: step)

end

text \<open>An invariant of the code under operations that are allowed in the state they start in.\<close>

locale guarded_invariant =
  fixes impl :: "'op \<Rightarrow> 'c \<Rightarrow> 'c"
    and guard :: "'op \<Rightarrow> 'c \<Rightarrow> bool"
    and inv :: "'c \<Rightarrow> bool"
  assumes step: "guard x c \<Longrightarrow> inv c \<Longrightarrow> inv (impl x c)"
begin

lemma run:
  assumes "inv c" "\<And>pre x post. xs = pre @ x # post \<Longrightarrow> guard x (fold impl pre c)"
  shows "inv (fold impl xs c)"
  using assms
proof (induction xs rule: rev_induct)
  case (snoc x xs)
  have "inv (fold impl xs c)" using snoc.prems(2) by (intro snoc.IH [OF snoc.prems(1)]) simp
  with snoc.prems(2) [of xs x "[]"] show ?case by (simp add: step)
qed simp

end

end
