(* ===== verification/Slot_Config.thy ===== *)
theory Slot_Config
  imports Web_Sessions Recovery_Policy Refinement
begin

text \<open>
  The configuration of the exit slots, kept in \<^verbatim>\<open>ui_auth.json\<close>: which slots exist and which are
  paused, the filters of each slot, and the operations of the control interface on them. Every
  operation loads the file several times; each load and each write has draws of its own. What an
  operation does to tunnels and listeners is listed as effects, in order.
\<close>

section \<open>A state monad with exceptions over the file\<close>

type_synonym 'a filed = "ui_file \<Rightarrow> (pyexc + 'a) \<times> ui_file"

definition fd_return :: "'a \<Rightarrow> 'a filed" where
  "fd_return x = (\<lambda>f. (Inr x, f))"

definition fd_bind :: "'a filed \<Rightarrow> ('a \<Rightarrow> 'b filed) \<Rightarrow> 'b filed" where
  "fd_bind m k = (\<lambda>f. case m f of (Inl e, f') \<Rightarrow> (Inl e, f') | (Inr x, f') \<Rightarrow> k x f')"

definition fd_lift :: "pyexc + 'a \<Rightarrow> 'a filed" where
  "fd_lift r = (\<lambda>f. (r, f))"

record slot_env =
  slot_ui :: ui_env
  max_exit_slots :: int
  default_exit_slots :: int
  slot_port_base :: int

definition fd_load :: "slot_env \<Rightarrow> web_draws \<Rightarrow> pydict filed" where
  "fd_load env dr = (\<lambda>f.
     case load_ui_config (slot_ui env) (draw_username dr) (draw_password dr) (draw_load dr) f of
       Inl e \<Rightarrow> (Inl e, f) | Inr (cfg, f') \<Rightarrow> (Inr cfg, f'))"

text \<open>A write in place, and the same inside \<^verbatim>\<open>try\<close> with the failure printed.\<close>

definition fd_save :: "web_draws \<Rightarrow> pydict \<Rightarrow> unit filed" where
  "fd_save dr cfg = (\<lambda>f. (if draw_save dr = Written then Inr () else Inl OSError,
     write_in_place (draw_save dr) cfg f))"

definition fd_try_save :: "web_draws \<Rightarrow> pydict \<Rightarrow> unit filed" where
  "fd_try_save dr cfg = (\<lambda>f. (Inr (), write_in_place (draw_save dr) cfg f))"

lemma fd_simps [simp]:
  "fd_bind (fd_return x) k = k x"
  "fd_bind (fd_lift (Inr x)) k = k x"
  "fd_bind (fd_lift (Inl e)) k f = (Inl e, f)"
  by (simp_all add: fd_bind_def fd_return_def fd_lift_def fun_eq_iff)

section \<open>Slot lists\<close>

definition index_of_item :: "int \<Rightarrow> pyval \<Rightarrow> pyexc + int list" where
  "index_of_item limit v = (case py_int v of
     Inr i \<Rightarrow> Inr (if 0 \<le> i \<and> i < limit then [i] else [])
   | Inl ValueError \<Rightarrow> Inr []
   | Inl TypeError \<Rightarrow> Inr []
   | Inl e \<Rightarrow> Inl e)"

fun collect_indices :: "int \<Rightarrow> pyval list \<Rightarrow> pyexc + int list" where
  "collect_indices limit [] = Inr []"
| "collect_indices limit (v # vs) =
     err_bind (index_of_item limit v) (\<lambda>is. err_bind (collect_indices limit vs) (\<lambda>js. Inr (is @ js)))"

definition normalize_index_list :: "int \<Rightarrow> pyval \<Rightarrow> pyexc + int list" where
  "normalize_index_list limit raw = (case raw of
     PList vs \<Rightarrow> err_bind (collect_indices limit vs) (\<lambda>is. Inr (sorted_set is))
   | _ \<Rightarrow> Inr [])"

definition range_list :: "int \<Rightarrow> int list" where
  "range_list n = map int [0..<nat n]"

definition active_slots :: "slot_env \<Rightarrow> pydict \<Rightarrow> pyexc + int list" where
  "active_slots env cfg =
     (if dhas cfg ''exit_slot_active'' then normalize_index_list (max_exit_slots env) (dgetN cfg ''exit_slot_active'')
      else err_bind (bounded_int (dgetN cfg ''exit_slot_count'') (default_exit_slots env) (Some 0) (Some (max_exit_slots env)))
        (\<lambda>n. Inr (range_list n)))"

definition paused_slots :: "slot_env \<Rightarrow> pydict \<Rightarrow> pyexc + int list" where
  "paused_slots env cfg = normalize_index_list (max_exit_slots env) (dgetN cfg ''exit_slot_paused'')"

definition get_active_slots :: "slot_env \<Rightarrow> web_draws \<Rightarrow> int list filed" where
  "get_active_slots env dr = fd_bind (fd_load env dr) (\<lambda>cfg. fd_lift (active_slots env cfg))"

definition get_paused_slots :: "slot_env \<Rightarrow> web_draws \<Rightarrow> int list filed" where
  "get_paused_slots env dr = fd_bind (fd_load env dr) (\<lambda>cfg. fd_lift (paused_slots env cfg))"

definition index_value :: "int list \<Rightarrow> pyval" where
  "index_value is = PList (map PInt is)"

definition with_slot_lists :: "int list option \<Rightarrow> int list option \<Rightarrow> pydict \<Rightarrow> pydict" where
  "with_slot_lists active paused cfg =
     (let cfg1 = (case active of None \<Rightarrow> cfg
          | Some xs \<Rightarrow> dset (dset cfg ''exit_slot_active'' (index_value xs)) ''exit_slot_count'' (PInt (int (length xs))))
      in case paused of None \<Rightarrow> cfg1 | Some ps \<Rightarrow> dset cfg1 ''exit_slot_paused'' (index_value (sorted_set ps)))"

definition slot_config_reply :: "pydict \<Rightarrow> int list \<Rightarrow> int list \<Rightarrow> pydict" where
  "slot_config_reply cfg active paused =
     [(''count'', PInt (int (length active))), (''active'', index_value active),
      (''paused'', index_value (filter (\<lambda>i. i \<in> set active) paused)),
      (''country'', PStr (py_upper (py_strip (str_or_empty (dget_or cfg ''exit_slot_country'' (PStr [])))))),
      (''isp'', PStr (py_strip (str_or_empty (dget_or cfg ''exit_slot_isp'' (PStr []))))),
      (''residential_only'', PBool (truthy (dget_or cfg ''exit_slot_residential_only'' (PBool False))))]"

definition get_exit_slot_config :: "slot_env \<Rightarrow> (nat \<Rightarrow> web_draws) \<Rightarrow> pydict filed" where
  "get_exit_slot_config env dr =
     fd_bind (fd_load env (dr 0)) (\<lambda>cfg.
     fd_bind (get_active_slots env (dr 1)) (\<lambda>active.
     fd_bind (get_paused_slots env (dr 2)) (\<lambda>paused.
     fd_return (slot_config_reply cfg active paused))))"

section \<open>Operations\<close>

datatype slot_effect = Tear_Down int | Clear_Repair int | Mark_Paused int | Write_Slots | Supervise

type_synonym slot_answer = "pydict \<times> slot_effect list"

text \<open>Slot operations obey the lease of the main assignment and a running country refresh that
  the thread is not part of.\<close>

definition slot_guard_allows :: "bool \<Rightarrow> bool \<Rightarrow> bool \<Rightarrow> bool" where
  "slot_guard_allows assignment_allowed refresh_running authorized =
     (assignment_allowed \<and> (\<not> refresh_running \<or> authorized))"

definition slot_mutation_guard :: "bool \<Rightarrow> slot_answer filed \<Rightarrow> slot_answer filed" where
  "slot_mutation_guard allowed m =
     (if allowed then m else fd_return ([(''ok'', PBool False), (''error_code'', PStr ''operation_busy'')], []))"

definition failed_reply :: pydict where
  "failed_reply = [(''ok'', PBool False)]"

definition slot_reply :: "int \<Rightarrow> pydict" where
  "slot_reply i = [(''ok'', PBool True), (''slot'', PInt i)]"

definition put_some :: "string \<Rightarrow> pyval option \<Rightarrow> pydict \<Rightarrow> pydict" where
  "put_some key v cfg = (case v of None \<Rightarrow> cfg | Some w \<Rightarrow> dset cfg key w)"

definition text_setting :: "(string \<Rightarrow> string) \<Rightarrow> pyval \<Rightarrow> pyval option" where
  "text_setting tidy_text v = (if v = PNone then None else Some (PStr (tidy_text (py_strip (str_or_empty v)))))"

definition put_scope :: "pyval \<Rightarrow> pyval \<Rightarrow> pyval \<Rightarrow> pydict \<Rightarrow> pydict" where
  "put_scope country residential_only isp cfg =
     put_some ''exit_slot_residential_only'' (if residential_only = PNone then None else Some (PBool (truthy residential_only)))
      (put_some ''exit_slot_isp'' (text_setting id isp)
        (put_some ''exit_slot_country'' (text_setting py_upper country) cfg))"

definition save_slot_config ::
  "slot_env \<Rightarrow> (nat \<Rightarrow> web_draws) \<Rightarrow> pydict \<Rightarrow> int list option \<Rightarrow> int list option \<Rightarrow> slot_answer filed" where
  "save_slot_config env dr cfg active paused =
     fd_bind (fd_try_save (dr 2) (with_slot_lists active paused cfg)) (\<lambda>_.
     fd_bind (get_exit_slot_config env (\<lambda>k. dr (k + 3))) (\<lambda>reply. fd_return (reply, [])))"

definition set_exit_slot_config ::
  "slot_env \<Rightarrow> int \<Rightarrow> (nat \<Rightarrow> web_draws) \<Rightarrow> pyval \<Rightarrow> pyval \<Rightarrow> pyval \<Rightarrow> pyval \<Rightarrow> slot_answer filed" where
  "set_exit_slot_config env regular_max dr wanted country residential_only isp =
     fd_bind (fd_load env (dr 0)) (\<lambda>cfg.
     if wanted = PNone then save_slot_config env dr (put_scope country residential_only isp cfg) None None
     else (case py_int wanted of
         Inl e \<Rightarrow> if e = ValueError \<or> e = TypeError then fd_return (refusal ''invalid_capacity'', [])
           else fd_lift (Inl e)
       | Inr n \<Rightarrow>
           if n < 0 \<or> min (max_exit_slots env) regular_max < n
           then fd_return (refusal ''capacity_limit_exceeded'', [])
           else fd_bind (get_paused_slots env (dr 1)) (\<lambda>paused.
             save_slot_config env dr (put_scope country residential_only isp cfg) (Some (range_list n))
               (Some (filter (\<lambda>i. i \<in> set (range_list n)) paused)))))"

definition first_free :: "int \<Rightarrow> int list \<Rightarrow> int option" where
  "first_free limit active = List.find (\<lambda>i. i \<notin> set active) (range_list limit)"

definition add_one_slot :: "slot_env \<Rightarrow> int \<Rightarrow> (nat \<Rightarrow> web_draws) \<Rightarrow> slot_answer filed" where
  "add_one_slot env regular_max dr =
     fd_bind (get_active_slots env (dr 0)) (\<lambda>active.
     if min (max_exit_slots env) regular_max \<le> int (length active) then fd_return (failed_reply, [])
     else (case first_free (min (max_exit_slots env) regular_max) active of
         None \<Rightarrow> fd_return (failed_reply, [])
       | Some free \<Rightarrow>
           fd_bind (fd_load env (dr 1)) (\<lambda>cfg.
           fd_bind (fd_save (dr 1) (with_slot_lists (Some (sort (active @ [free]))) None cfg)) (\<lambda>_.
           fd_return (slot_reply free @ [(''port'', PInt (slot_port_base env + free))], [Supervise])))))"

definition drop_entry :: "string \<Rightarrow> int \<Rightarrow> pydict \<Rightarrow> pydict" where
  "drop_entry field i cfg = (case dgetN cfg field of
     PDict d \<Rightarrow> dset cfg field (PDict (dpop d (int_str i))) | _ \<Rightarrow> cfg)"

definition delete_slot :: "slot_env \<Rightarrow> (nat \<Rightarrow> web_draws) \<Rightarrow> int \<Rightarrow> slot_answer filed" where
  "delete_slot env dr i =
     fd_bind (get_active_slots env (dr 0)) (\<lambda>active.
     if i \<notin> set active then fd_return (failed_reply, [])
     else fd_bind (fd_load env (dr 1)) (\<lambda>cfg.
       fd_bind (get_paused_slots env (dr 2)) (\<lambda>paused.
       fd_bind (fd_save (dr 2) (with_slot_lists (Some (filter (\<lambda>x. x \<noteq> i) active)) (Some (filter (\<lambda>x. x \<noteq> i) paused))
           (drop_entry ''exit_slot_pin_map'' i (drop_entry ''exit_slot_country_map'' i cfg)))) (\<lambda>_.
       fd_return (slot_reply i, [Tear_Down i, Clear_Repair i, Write_Slots])))))"

definition stop_slot :: "slot_env \<Rightarrow> (nat \<Rightarrow> web_draws) \<Rightarrow> int \<Rightarrow> slot_answer filed" where
  "stop_slot env dr i =
     fd_bind (get_active_slots env (dr 0)) (\<lambda>active.
     if i \<notin> set active then fd_return (failed_reply, [])
     else fd_bind (fd_load env (dr 1)) (\<lambda>cfg.
       fd_bind (get_paused_slots env (dr 2)) (\<lambda>paused.
       fd_bind (fd_save (dr 2) (with_slot_lists None (Some (i # paused)) cfg)) (\<lambda>_.
       fd_return (slot_reply i, [Tear_Down i, Mark_Paused i, Write_Slots])))))"

definition start_slot :: "slot_env \<Rightarrow> (nat \<Rightarrow> web_draws) \<Rightarrow> int \<Rightarrow> slot_answer filed" where
  "start_slot env dr i =
     fd_bind (get_active_slots env (dr 0)) (\<lambda>active.
     if i \<notin> set active then fd_return (failed_reply, [])
     else fd_bind (fd_load env (dr 1)) (\<lambda>cfg.
       fd_bind (get_paused_slots env (dr 2)) (\<lambda>paused.
       fd_bind (fd_save (dr 2) (with_slot_lists None (Some (filter (\<lambda>x. x \<noteq> i) paused)) cfg)) (\<lambda>_.
       fd_return (slot_reply i, [Supervise])))))"

section \<open>Filters of a slot\<close>

definition normalize_proxy_type :: "pyval \<Rightarrow> string" where
  "normalize_proxy_type v =
     (let t = py_lower (py_strip (str_or_empty v)) in
      if t \<in> {''residential'', ''mobile''} then ''residential''
      else if t \<in> {''datacenter'', ''hosting'', ''proxy''} then ''datacenter'' else [])"

definition slot_map :: "string \<Rightarrow> pydict \<Rightarrow> pydict" where
  "slot_map field cfg = (case py_or (dgetN cfg field) (PDict []) of PDict d \<Rightarrow> d | _ \<Rightarrow> [])"

definition country_map :: "pydict \<Rightarrow> (string \<times> string) list" where
  "country_map cfg = map (\<lambda>(k, v). (k, py_upper (py_strip (str_or_empty v)))) (slot_map ''exit_slot_country_map'' cfg)"

definition isp_map :: "pydict \<Rightarrow> (string \<times> string) list" where
  "isp_map cfg = map (\<lambda>(k, v). (k, py_strip (str_or_empty v))) (slot_map ''exit_slot_isp_map'' cfg)"

definition type_map :: "pydict \<Rightarrow> (string \<times> string) list" where
  "type_map cfg = filter (\<lambda>(k, t). t \<noteq> [])
     (map (\<lambda>(k, v). (k, normalize_proxy_type v)) (slot_map ''exit_slot_type_map'' cfg))"

definition pin_map :: "pydict \<Rightarrow> (string \<times> string) list" where
  "pin_map cfg = map (\<lambda>(k, v). (k, py_str v)) (filter (\<lambda>(k, v). truthy v) (slot_map ''exit_slot_pin_map'' cfg))"

definition entry_of :: "(string \<times> string) list \<Rightarrow> int \<Rightarrow> string" where
  "entry_of m i = (case map_of m (int_str i) of None \<Rightarrow> [] | Some s \<Rightarrow> s)"

definition global_country :: "pydict \<Rightarrow> string" where
  "global_country cfg = py_upper (py_strip (str_or_empty (dget_or cfg ''exit_slot_country'' (PStr []))))"

definition global_isp :: "pydict \<Rightarrow> string" where
  "global_isp cfg = py_strip (str_or_empty (dget_or cfg ''exit_slot_isp'' (PStr [])))"

definition per_slot_country :: "pydict \<Rightarrow> int \<Rightarrow> string" where
  "per_slot_country cfg i = (let c = entry_of (country_map cfg) i in if c = [] then global_country cfg else c)"

definition per_slot_isp :: "pydict \<Rightarrow> int \<Rightarrow> string" where
  "per_slot_isp cfg i = (let p = entry_of (isp_map cfg) i in if p = [] then global_isp cfg else p)"

definition per_slot_type :: "pydict \<Rightarrow> int \<Rightarrow> string" where
  "per_slot_type cfg i = entry_of (type_map cfg) i"

definition put_entry :: "string \<Rightarrow> int \<Rightarrow> string \<Rightarrow> pydict \<Rightarrow> pydict" where
  "put_entry field i v cfg =
     (let d = (case dgetN cfg field of PDict d \<Rightarrow> d | _ \<Rightarrow> []) in
      dset cfg field (PDict (if v = [] then dpop d (int_str i) else dset d (int_str i) (PStr v))))"

definition set_slot_entry ::
  "slot_env \<Rightarrow> (nat \<Rightarrow> web_draws) \<Rightarrow> string \<Rightarrow> (pydict \<Rightarrow> (string \<times> string) list) \<Rightarrow> int \<Rightarrow> string
    \<Rightarrow> (string \<times> string) list filed" where
  "set_slot_entry env dr field read i v =
     fd_bind (fd_load env (dr 0)) (\<lambda>cfg.
     fd_bind (fd_try_save (dr 0) (put_entry field i v cfg)) (\<lambda>_.
     fd_bind (fd_load env (dr 1)) (\<lambda>cfg'. fd_return (read cfg'))))"

definition set_slot_country :: "slot_env \<Rightarrow> (nat \<Rightarrow> web_draws) \<Rightarrow> int \<Rightarrow> pyval \<Rightarrow> (string \<times> string) list filed" where
  "set_slot_country env dr i country =
     set_slot_entry env dr ''exit_slot_country_map'' country_map i (py_upper (py_strip (str_or_empty country)))"

definition set_slot_isp :: "slot_env \<Rightarrow> (nat \<Rightarrow> web_draws) \<Rightarrow> int \<Rightarrow> pyval \<Rightarrow> (string \<times> string) list filed" where
  "set_slot_isp env dr i isp =
     set_slot_entry env dr ''exit_slot_isp_map'' isp_map i (py_strip (str_or_empty isp))"

definition set_slot_pin :: "slot_env \<Rightarrow> (nat \<Rightarrow> web_draws) \<Rightarrow> int \<Rightarrow> pyval \<Rightarrow> (string \<times> string) list filed" where
  "set_slot_pin env dr i node =
     set_slot_entry env dr ''exit_slot_pin_map'' pin_map i (py_strip (str_or_empty node))"

definition set_slot_type :: "slot_env \<Rightarrow> (nat \<Rightarrow> web_draws) \<Rightarrow> int \<Rightarrow> pyval \<Rightarrow> (string \<times> string) list filed" where
  "set_slot_type env dr i kind =
     (if py_strip (str_or_empty kind) \<noteq> [] \<and> normalize_proxy_type kind = [] then fd_lift (Inl ValueError)
      else fd_bind (fd_load env (dr 0)) (\<lambda>cfg.
        fd_bind (fd_save (dr 0) (put_entry ''exit_slot_type_map'' i (normalize_proxy_type kind) cfg)) (\<lambda>_.
        fd_bind (fd_load env (dr 1)) (\<lambda>cfg'. fd_return (type_map cfg')))))"


section \<open>Settled files\<close>

text \<open>A file is settled when every load gives the same usable configuration and leaves it alone.\<close>

definition settled :: "slot_env \<Rightarrow> ui_file \<Rightarrow> pydict \<Rightarrow> bool" where
  "settled env f cfg = (usable_config (slot_ui env) cfg
     \<and> (\<forall>u p out. load_ui_config (slot_ui env) u p out f = Inr (cfg, f)))"

lemma fd_load_settled: "settled env f cfg \<Longrightarrow> fd_load env dr f = (Inr cfg, f)"
  by (simp add: settled_def fd_load_def)

lemma fd_bind_load [simp]: "settled env f cfg \<Longrightarrow> fd_bind (fd_load env dr) k f = k cfg f"
  by (simp add: fd_bind_def fd_load_settled)

lemma fd_bind_save [simp]:
  "draw_save dr = Written \<Longrightarrow> fd_bind (fd_save dr cfg) k f = k () (Stored (PDict cfg))"
  "draw_save dr = Written \<Longrightarrow> fd_bind (fd_try_save dr cfg) k f = k () (Stored (PDict cfg))"
  by (simp_all add: fd_bind_def fd_save_def fd_try_save_def write_in_place_def)

lemma fd_bind_assoc: "fd_bind (fd_bind m k) l = fd_bind m (\<lambda>x. fd_bind (k x) l)"
  by (auto simp: fd_bind_def fun_eq_iff split: prod.split sum.split)

lemma fd_bind_active [simp]:
  "settled env f cfg \<Longrightarrow> active_slots env cfg = Inr as \<Longrightarrow> fd_bind (get_active_slots env dr) k f = k as f"
  by (simp add: get_active_slots_def fd_bind_assoc)

lemma fd_bind_paused [simp]:
  "settled env f cfg \<Longrightarrow> paused_slots env cfg = Inr ps \<Longrightarrow> fd_bind (get_paused_slots env dr) k f = k ps f"
  by (simp add: get_paused_slots_def fd_bind_assoc)

lemma settled_stored: "usable_config (slot_ui env) cfg \<Longrightarrow> settled env (Stored (PDict cfg)) cfg"
  by (simp add: settled_def load_ui_config_def usable_fixpoint)

lemma usable_dset:
  assumes "usable_config e cfg" "k \<notin> {''username'', ''password'', ''port'', ''proxy_port''}"
  shows "usable_config e (dset cfg k v)"
proof -
  have "\<forall>k' \<in> {''username'', ''password'', ''port'', ''proxy_port''}. dgetN (dset cfg k v) k' = dgetN cfg k'"
    using assms(2) by auto
  then show ?thesis
    using assms(1) unfolding usable_config_def by (simp add: defaults_first_dset del: dget_or_dset)
qed

lemma usable_slot_lists:
  "usable_config e cfg \<Longrightarrow> usable_config e (with_slot_lists a p cfg)"
  by (auto simp: with_slot_lists_def Let_def usable_dset split: option.split)

lemma usable_scope: "usable_config e cfg \<Longrightarrow> usable_config e (put_scope c r i cfg)"
  by (auto simp: put_scope_def put_some_def usable_dset split: option.split)

lemma usable_drop: "usable_config e cfg \<Longrightarrow> k \<notin> {''username'', ''password'', ''port'', ''proxy_port''}
    \<Longrightarrow> usable_config e (drop_entry k i cfg)"
  by (auto simp: drop_entry_def usable_dset split: pyval.split)

section \<open>The slots as two sets\<close>

lemma collect_indices_ints:
  "collect_indices limit (map PInt is) = Inr (filter (\<lambda>i. 0 \<le> i \<and> i < limit) is)"
  by (induction "is") (auto simp: index_of_item_def)

lemma active_slots_put:
  "active_slots env (with_slot_lists (Some as) p cfg) = Inr (sorted_set (filter (\<lambda>i. 0 \<le> i \<and> i < max_exit_slots env) as))"
  by (auto simp: active_slots_def with_slot_lists_def Let_def normalize_index_list_def index_value_def collect_indices_ints
      split: option.split)

lemma active_slots_keep: "active_slots env (with_slot_lists None p cfg) = active_slots env cfg"
  by (auto simp: active_slots_def with_slot_lists_def split: option.split)

lemma paused_slots_put:
  "paused_slots env (with_slot_lists a (Some ps) cfg) = Inr (sorted_set (filter (\<lambda>i. 0 \<le> i \<and> i < max_exit_slots env) (sorted_set ps)))"
  by (auto simp: paused_slots_def with_slot_lists_def Let_def normalize_index_list_def index_value_def collect_indices_ints
      split: option.split)

lemma paused_slots_keep: "paused_slots env (with_slot_lists a None cfg) = paused_slots env cfg"
  by (auto simp: paused_slots_def with_slot_lists_def Let_def split: option.split)

lemma slots_scope [simp]:
  "active_slots env (put_scope c r i cfg) = active_slots env cfg"
  "paused_slots env (put_scope c r i cfg) = paused_slots env cfg"
  by (auto simp: active_slots_def paused_slots_def put_scope_def put_some_def split: option.split)

lemma paused_slots_drop [simp]: "k \<noteq> ''exit_slot_paused'' \<Longrightarrow> paused_slots env (drop_entry k i cfg) = paused_slots env cfg"
  by (auto simp: paused_slots_def drop_entry_def split: pyval.split)

lemma range_list_set [simp]: "set (range_list n) = {0..<n}"
  by (cases "0 \<le> n") (simp_all add: range_list_def image_int_atLeastLessThan)

lemma distinct_range_list [simp]: "distinct (range_list n)"
  by (simp add: range_list_def distinct_map)

lemma active_slots_distinct: "active_slots env cfg = Inr as \<Longrightarrow> distinct as"
  by (auto simp: active_slots_def normalize_index_list_def err_bind_Inr split: if_splits pyval.splits)

text \<open>The abstract state: the slots that exist and the slots that are paused.\<close>

type_synonym slot_sets = "int set \<times> int set"

datatype slot_op = Set_Count int | Add | Delete int | Stop int | Start int

fun slot_spec :: "int \<Rightarrow> slot_op \<Rightarrow> slot_sets \<Rightarrow> slot_sets" where
  "slot_spec limit (Set_Count n) (A, P) = (if 0 \<le> n \<and> n \<le> limit then ({0..<n}, P \<inter> {0..<n}) else (A, P))"
| "slot_spec limit Add (A, P) = (if int (card A) < limit then (insert (Min ({0..<limit} - A)) A, P) else (A, P))"
| "slot_spec limit (Delete i) (A, P) = (A - {i}, if i \<in> A then P - {i} else P)"
| "slot_spec limit (Stop i) (A, P) = (A, if i \<in> A then insert i P else P)"
| "slot_spec limit (Start i) (A, P) = (A, if i \<in> A then P - {i} else P)"

definition slot_rel :: "slot_env \<Rightarrow> slot_sets \<Rightarrow> ui_file \<Rightarrow> bool" where
  "slot_rel env S f = (\<exists>cfg as ps. settled env f cfg \<and> active_slots env cfg = Inr as \<and> paused_slots env cfg = Inr ps
     \<and> S = (set as, set ps) \<and> set ps \<subseteq> set as \<and> set as \<subseteq> {0..<max_exit_slots env})"

fun slot_call :: "slot_env \<Rightarrow> int \<Rightarrow> (nat \<Rightarrow> web_draws) \<Rightarrow> slot_op \<Rightarrow> slot_answer filed" where
  "slot_call env m dr (Set_Count n) = set_exit_slot_config env m dr (PInt n) PNone PNone PNone"
| "slot_call env m dr Add = add_one_slot env m dr"
| "slot_call env m dr (Delete i) = delete_slot env dr i"
| "slot_call env m dr (Stop i) = stop_slot env dr i"
| "slot_call env m dr (Start i) = start_slot env dr i"


lemma first_free_Min:
  assumes "int (card (set as)) < limit"
  shows "first_free limit as = Some (Min ({0..<limit} - set as))"
proof -
  have "\<not> {0..<limit} \<subseteq> set as"
    using card_mono [of "set as" "{0..<limit}"] assms by auto
  then have ne: "{0..<limit} - set as \<noteq> {}" by blast
  then obtain x where x: "first_free limit as = Some x"
    unfolding first_free_def by (cases "List.find (\<lambda>i. i \<notin> set as) (range_list limit)") (auto simp: find_None_iff)
  then obtain i where i: "i < length (range_list limit)" "range_list limit ! i \<notin> set as" "x = range_list limit ! i"
    "\<forall>j<i. range_list limit ! j \<in> set as"
    unfolding first_free_def by (auto simp: find_Some_iff)
  have nth: "range_list limit ! j = int j" if "j < nat limit" for j
    using that by (simp add: range_list_def)
  have len: "length (range_list limit) = nat limit" by (simp add: range_list_def)
  have "Min ({0..<limit} - set as) = x"
  proof (rule Min_eqI)
    show "x \<in> {0..<limit} - set as" using i nth len by auto
    fix y assume y: "y \<in> {0..<limit} - set as"
    show "x \<le> y"
    proof (rule ccontr)
      assume "\<not> x \<le> y"
      with y i nth len have "nat y < i" by (auto simp: nat_less_iff)
      with i(4) nth i(1) len y show False by fastforce
    qed
  qed simp
  with x show ?thesis by simp
qed

lemma in_range_filter: "set xs \<subseteq> {0..<limit::int} \<Longrightarrow> filter (\<lambda>i. 0 \<le> i \<and> i < limit) xs = xs"
  by (auto simp: filter_id_conv)

text \<open>A write that succeeds settles the file with the lists written.\<close>

lemma slot_rel_saved:
  assumes "usable_config (slot_ui env) cfg" "set ps \<subseteq> set as" "set as \<subseteq> {0..<max_exit_slots env}"
    "active_slots env (with_slot_lists a p cfg) = Inr as'" "set as' = set as"
    "paused_slots env (with_slot_lists a p cfg) = Inr ps'" "set ps' = set ps"
  shows "slot_rel env (set as, set ps) (Stored (PDict (with_slot_lists a p cfg)))"
  unfolding slot_rel_def using assms settled_stored [OF usable_slot_lists [OF assms(1)], of a p] by metis

lemma save_slot_config_file:
  assumes "usable_config (slot_ui env) cfg" "draw_save (dr 2) = Written"
    "active_slots env (with_slot_lists a p cfg) = Inr as'" "paused_slots env (with_slot_lists a p cfg) = Inr ps'"
  shows "\<exists>r. save_slot_config env dr cfg a p f = (Inr r, Stored (PDict (with_slot_lists a p cfg)))"
proof -
  let ?c = "with_slot_lists a p cfg"
  have s: "settled env (Stored (PDict ?c)) ?c" using assms(1) by (intro settled_stored usable_slot_lists)
  show ?thesis
    using assms s by (simp add: save_slot_config_def get_exit_slot_config_def fd_bind_assoc fd_return_def [of "(_, [])"])
qed

lemma set_count_step:
  assumes "slot_rel env S f" "\<forall>k. draw_save (dr k) = Written" "m \<le> max_exit_slots env"
  shows "slot_rel env (slot_spec m (Set_Count n) S) (snd (set_exit_slot_config env m dr (PInt n) PNone PNone PNone f))"
proof -
  from assms(1) obtain cfg as ps where h: "settled env f cfg" "active_slots env cfg = Inr as" "paused_slots env cfg = Inr ps"
    "S = (set as, set ps)" "set ps \<subseteq> set as" "set as \<subseteq> {0..<max_exit_slots env}" unfolding slot_rel_def by blast
  have lim: "min (max_exit_slots env) m = m" using assms(3) by simp
  show ?thesis
  proof (cases "0 \<le> n \<and> n \<le> m")
    case False
    then show ?thesis using assms(1) h lim by (auto simp: set_exit_slot_config_def fd_return_def)
  next
    case True
    let ?a = "Some (range_list n)" and ?p = "Some (filter (\<lambda>i. 0 \<le> i \<and> i < n) ps)"
    let ?cfg = "put_scope PNone PNone PNone cfg"
    have u: "usable_config (slot_ui env) ?cfg" using h(1) by (intro usable_scope) (simp add: settled_def)
    have sub: "set (range_list n) \<subseteq> {0..<max_exit_slots env}" using True assms(3) by auto
    obtain r where "save_slot_config env dr ?cfg ?a ?p f = (Inr r, Stored (PDict (with_slot_lists ?a ?p ?cfg)))"
      using save_slot_config_file [where env = env and dr = dr and a = ?a and p = ?p and f = f, OF u _ active_slots_put paused_slots_put]
        assms(2) by blast
    then have "snd (set_exit_slot_config env m dr (PInt n) PNone PNone PNone f) = Stored (PDict (with_slot_lists ?a ?p ?cfg))"
      using h True lim by (simp add: set_exit_slot_config_def fd_bind_def [of "fd_load env _"] fd_load_settled)
    moreover have "slot_rel env (set (range_list n), set (filter (\<lambda>i. 0 \<le> i \<and> i < n) ps)) (Stored (PDict (with_slot_lists ?a ?p ?cfg)))"
      using sub u by (intro slot_rel_saved [OF _ _ _ active_slots_put _ paused_slots_put]) auto
    moreover have "set (filter (\<lambda>i. 0 \<le> i \<and> i < n) ps) = set ps \<inter> {0..<n}" by auto
    ultimately show ?thesis using h(4) True by simp
  qed
qed

lemma add_step:
  assumes "slot_rel env S f" "\<forall>k. draw_save (dr k) = Written" "m \<le> max_exit_slots env"
  shows "slot_rel env (slot_spec m Add S) (snd (add_one_slot env m dr f))"
proof -
  from assms(1) obtain cfg as ps where h: "settled env f cfg" "active_slots env cfg = Inr as" "paused_slots env cfg = Inr ps"
    "S = (set as, set ps)" "set ps \<subseteq> set as" "set as \<subseteq> {0..<max_exit_slots env}" unfolding slot_rel_def by blast
  have lim: "min (max_exit_slots env) m = m" using assms(3) by simp
  have len: "length as = card (set as)" using active_slots_distinct [OF h(2)] by (simp add: distinct_card)
  show ?thesis
  proof (cases "int (card (set as)) < m")
    case False
    then show ?thesis using assms(1) h lim len by (simp add: add_one_slot_def fd_return_def)
  next
    case True
    let ?x = "Min ({0..<m} - set as)"
    have ff: "first_free m as = Some ?x" by (rule first_free_Min [OF True])
    then have x: "?x \<in> {0..<m}" unfolding first_free_def by (auto simp: find_Some_iff dest!: nth_mem)
    let ?a = "Some (sort (as @ [?x]))"
    have u: "usable_config (slot_ui env) cfg" using h(1) by (simp add: settled_def)
    have sub: "set (?x # as) \<subseteq> {0..<max_exit_slots env}" using x h(6) assms(3) by auto
    have "snd (add_one_slot env m dr f) = Stored (PDict (with_slot_lists ?a None cfg))"
      using h True lim len ff assms(2) by (simp add: add_one_slot_def fd_return_def)
    moreover have "slot_rel env (set (?x # as), set ps) (Stored (PDict (with_slot_lists ?a None cfg)))"
      using sub u h(3,5) by (intro slot_rel_saved [OF _ _ _ active_slots_put _ _, where ps' = ps]) (auto simp: paused_slots_keep)
    ultimately show ?thesis using h(4) True by simp
  qed
qed

lemma delete_step:
  assumes "slot_rel env S f" "\<forall>k. draw_save (dr k) = Written"
  shows "slot_rel env (slot_spec m (Delete i) S) (snd (delete_slot env dr i f))"
proof -
  from assms(1) obtain cfg as ps where h: "settled env f cfg" "active_slots env cfg = Inr as" "paused_slots env cfg = Inr ps"
    "S = (set as, set ps)" "set ps \<subseteq> set as" "set as \<subseteq> {0..<max_exit_slots env}" unfolding slot_rel_def by blast
  show ?thesis
  proof (cases "i \<in> set as")
    case False
    then show ?thesis using assms(1) h by (simp add: delete_slot_def fd_return_def)
  next
    case True
    let ?as = "filter (\<lambda>x. x \<noteq> i) as" and ?ps = "filter (\<lambda>x. x \<noteq> i) ps"
    let ?cfg = "drop_entry ''exit_slot_pin_map'' i (drop_entry ''exit_slot_country_map'' i cfg)"
    have u: "usable_config (slot_ui env) ?cfg" using h(1) by (intro usable_drop) (auto simp: settled_def)
    have "snd (delete_slot env dr i f) = Stored (PDict (with_slot_lists (Some ?as) (Some ?ps) ?cfg))"
      using h True assms(2) by (simp add: delete_slot_def fd_return_def)
    moreover have "slot_rel env (set ?as, set ?ps) (Stored (PDict (with_slot_lists (Some ?as) (Some ?ps) ?cfg)))"
      using u h(5,6) by (intro slot_rel_saved [OF _ _ _ active_slots_put _ paused_slots_put]) auto
    moreover have "set ?as = set as - {i}" "set ?ps = set ps - {i}" by auto
    ultimately show ?thesis using h(4) True by simp
  qed
qed

lemma pause_step:
  assumes "slot_rel env S f" "\<forall>k. draw_save (dr k) = Written"
  shows "slot_rel env (slot_spec m (Stop i) S) (snd (stop_slot env dr i f))"
    and "slot_rel env (slot_spec m (Start i) S) (snd (start_slot env dr i f))"
proof -
  from assms(1) obtain cfg as ps where h: "settled env f cfg" "active_slots env cfg = Inr as" "paused_slots env cfg = Inr ps"
    "S = (set as, set ps)" "set ps \<subseteq> set as" "set as \<subseteq> {0..<max_exit_slots env}" unfolding slot_rel_def by blast
  have u: "usable_config (slot_ui env) cfg" using h(1) by (simp add: settled_def)
  have rel: "slot_rel env (set as, set qs) (Stored (PDict (with_slot_lists None (Some qs) cfg)))" if "set qs \<subseteq> set as" for qs
    using u that h(2,6) by (intro slot_rel_saved [OF _ _ _ _ _ paused_slots_put, where as' = as]) (auto simp: active_slots_keep)
  show "slot_rel env (slot_spec m (Stop i) S) (snd (stop_slot env dr i f))"
  proof (cases "i \<in> set as")
    case True
    then show ?thesis using h assms(2) rel [of "i # ps"] by (simp add: stop_slot_def fd_return_def)
  qed (use assms(1) h in \<open>simp add: stop_slot_def fd_return_def\<close>)
  show "slot_rel env (slot_spec m (Start i) S) (snd (start_slot env dr i f))"
  proof (cases "i \<in> set as")
    case True
    have "set (filter (\<lambda>x. x \<noteq> i) ps) = set ps - {i}" by auto
    with True show ?thesis using h assms(2) rel [of "filter (\<lambda>x. x \<noteq> i) ps"] by (auto simp: start_slot_def fd_return_def)
  qed (use assms(1) h in \<open>simp add: start_slot_def fd_return_def\<close>)
qed

text \<open>A call is an operation with the limit of the moment and its draws.\<close>

type_synonym slot_request = "slot_op \<times> int \<times> (nat \<Rightarrow> web_draws)"

fun spec_call :: "slot_request \<Rightarrow> slot_sets \<Rightarrow> slot_sets" where
  "spec_call (op, m, dr) S = slot_spec m op S"

fun impl_call :: "slot_env \<Rightarrow> slot_request \<Rightarrow> ui_file \<Rightarrow> ui_file" where
  "impl_call env (op, m, dr) f = snd (slot_call env m dr op f)"

definition call_ok :: "slot_env \<Rightarrow> slot_request \<Rightarrow> bool" where
  "call_ok env = (\<lambda>(op, m, dr). m \<le> max_exit_slots env \<and> (\<forall>k. draw_save (dr k) = Written))"

interpretation slot_sim: simulation spec_call "impl_call env" "call_ok env" "slot_rel env" for env
proof
  fix x S f
  assume h: "call_ok env x" "slot_rel env S f"
  obtain op m dr where x: "x = (op, m, dr)" by (cases x)
  show "slot_rel env (spec_call x S) (impl_call env x f)"
    using h set_count_step add_step delete_step pause_step unfolding x
    by (cases op) (simp_all add: call_ok_def)
qed

section \<open>Properties\<close>

text \<open>C6. The slot operations implement two sets, the slots that exist and the slots that are
  paused: after any sequence of setting the number of slots, adding, deleting, stopping and
  starting, with the limit of the capacity at each moment and writes that succeed, loading
  ui_auth.json gives exactly the sets that the specification computes, the paused slots
  exist, and every slot is in the range of the addresses.\<close>

theorem slot_operations_refine_sets:
  assumes "slot_rel env S f" "list_all (call_ok env) calls"
  shows "\<exists>cfg as ps. (\<forall>dr. fd_load env dr (fold (impl_call env) calls f) = (Inr cfg, fold (impl_call env) calls f))
    \<and> active_slots env cfg = Inr as \<and> paused_slots env cfg = Inr ps
    \<and> (set as, set ps) = fold spec_call calls S \<and> distinct as \<and> set ps \<subseteq> set as \<and> set as \<subseteq> {0..<max_exit_slots env}"
proof -
  have "slot_rel env (fold spec_call calls S) (fold (impl_call env) calls f)"
    by (rule slot_sim.run [OF assms(2,1)])
  then show ?thesis unfolding slot_rel_def using fd_load_settled active_slots_distinct by metis
qed

definition slots_example_env :: slot_env where
  "slots_example_env = \<lparr>slot_ui = example_env, max_exit_slots = 16, default_exit_slots = 0, slot_port_base = 17928\<rparr>"

definition slots_example_file :: ui_file where
  "slots_example_file = Stored (PDict (fst (projr
     (normalized_config example_env ''aB1'' ''cD2'' Absent))))"

lemma slots_example_start: "slot_rel slots_example_env ({}, {}) slots_example_file"
proof -
  let ?cfg = "fst (projr (normalized_config example_env ''aB1'' ''cD2'' Absent))"
  have "(\<lambda>r. case r of Inr (c, b) \<Rightarrow> True | Inl e \<Rightarrow> False) (normalized_config example_env ''aB1'' ''cD2'' Absent)" by code_simp
  then obtain cfg b where n: "normalized_config example_env ''aB1'' ''cD2'' Absent = Inr (cfg, b)" by (auto split: sum.splits)
  have u: "usable_config example_env cfg"
    by (rule normalized_usable [OF n]) (simp_all add: env_ports_ok_def example_env_def)
  have e: "slot_ui slots_example_env = example_env" by (simp add: slots_example_env_def)
  have f: "slots_example_file = Stored (PDict cfg)" by (simp add: slots_example_file_def n)
  have "active_slots slots_example_env ?cfg = Inr []" "paused_slots slots_example_env ?cfg = Inr []" by code_simp+
  then show ?thesis
    unfolding slot_rel_def f using u settled_stored [of slots_example_env cfg] by (intro exI [of _ cfg] exI [of _ "[]"]) (simp add: e n)
qed

lemma slot_operations_refine_sets_witness:
  "\<exists>cfg as ps. active_slots slots_example_env cfg = Inr as \<and> paused_slots slots_example_env cfg = Inr ps
     \<and> (set as, set ps) = ({0, 2, 3}, {2})"
proof -
  let ?c = "\<lambda>op. (op, 10, \<lambda>k. example_draws)"
  let ?calls = "[?c (Set_Count 3), ?c (Stop 1), ?c (Stop 2), ?c Add, ?c (Delete 1)]"
  have ok: "list_all (call_ok slots_example_env) ?calls"
    by (simp add: call_ok_def slots_example_env_def example_draws_def)
  have min: "Min ({0..<10} - {0..<3}) = (3::int)" by (rule Min_eqI) auto
  have "fold spec_call ?calls ({}, {}) = ({0, 2, 3}, {2})" using min by auto
  with slot_operations_refine_sets [OF slots_example_start ok] show ?thesis by metis
qed

end
