(* ===== verification/Standby_Config.thy ===== *)
theory Standby_Config
  imports Slot_Config
begin

text \<open>
  The assignment of the hot standbys: standby 0 belongs to the main connection, standby \<open>i + 1\<close>
  to slot \<open>i\<close>. The targets follow from the slot lists; the control interface may only confirm them.
\<close>

definition int_or_zero :: "pyval \<Rightarrow> pyexc + int" where
  "int_or_zero v = catch_value_error (py_int v) 0"

definition slot_number :: "string \<Rightarrow> int option" where
  "slot_number target = (if starts_with ''slot:'' target \<and> drop 5 target \<noteq> [] \<and> list_all digit_char (drop 5 target)
     then Some (int (digits_val (drop 5 target))) else None)"

definition slot_target :: "int \<Rightarrow> string" where
  "slot_target i = ''slot:'' @ int_str i"

definition normalize_standby_target :: "int \<Rightarrow> pyval \<Rightarrow> string" where
  "normalize_standby_target limit v =
     (let target = py_lower (py_strip (str_or_empty v)) in
      if target = ''main'' then target
      else (case slot_number target of
          Some i \<Rightarrow> if i < limit then slot_target i else []
        | None \<Rightarrow> []))"

definition standby_target_indices :: "slot_env \<Rightarrow> web_draws \<Rightarrow> int list filed" where
  "standby_target_indices env dr = fd_bind (get_active_slots env dr) (\<lambda>active.
     fd_return (0 # map (\<lambda>i. i + 1) (filter (\<lambda>i. i < max_exit_slots env) active)))"

definition standby_slot_indices :: "slot_env \<Rightarrow> (nat \<Rightarrow> web_draws) \<Rightarrow> int list filed" where
  "standby_slot_indices env dr =
     fd_bind (get_active_slots env (dr 0)) (\<lambda>active.
     fd_bind (get_paused_slots env (dr 1)) (\<lambda>paused.
     fd_return (sorted_set (filter (\<lambda>i. i \<notin> set paused) active))))"

definition dedicated_standby_config_snapshot :: "slot_env \<Rightarrow> (nat \<Rightarrow> web_draws) \<Rightarrow> pydict list filed" where
  "dedicated_standby_config_snapshot env dr =
     fd_bind (standby_slot_indices env dr) (\<lambda>slots. fd_return (targets slots))"

definition standby_row :: "int \<Rightarrow> pydict" where
  "standby_row index = [(''index'', PInt index),
     (''target'', PStr (if index = 0 then ''main'' else slot_target (index - 1))), (''countries'', PList [])]"

text \<open>The verdict on one row: an error code, or the index it confirms.\<close>

datatype 'a verdict = Refused string | Accepted 'a

definition check_row :: "int \<Rightarrow> int list \<Rightarrow> int list \<Rightarrow> int list \<Rightarrow> pyval \<Rightarrow> pyexc + int verdict" where
  "check_row limit indices running seen item = (case item of
     PDict d \<Rightarrow>
       err_bind (int_or_zero (dgetN d ''index'')) (\<lambda>index.
       let target = normalize_standby_target limit (dgetN d ''target'') in
       Inr (if index \<in> set seen \<or> index \<notin> set indices then Refused ''invalid_request''
         else if starts_with ''slot:'' target \<and> (case slot_number target of None \<Rightarrow> True | Some i \<Rightarrow> i \<notin> set running)
         then Refused ''slot_not_found''
         else if target \<noteq> (if index = 0 then ''main'' else slot_target (index - 1)) then Refused ''invalid_request''
         else Accepted index))
   | _ \<Rightarrow> Inr (Refused ''invalid_request''))"

fun check_rows :: "int \<Rightarrow> int list \<Rightarrow> int list \<Rightarrow> int list \<Rightarrow> pyval list \<Rightarrow> pyexc + int list verdict" where
  "check_rows limit indices running seen [] = Inr (Accepted seen)"
| "check_rows limit indices running seen (item # items) =
     err_bind (check_row limit indices running seen item) (\<lambda>r. case r of
       Refused code \<Rightarrow> Inr (Refused code)
     | Accepted index \<Rightarrow> check_rows limit indices running (seen @ [index]) items)"

text \<open>A standby whose row changed is torn down, its repair state cleared and its failures reset.\<close>

definition changed_standbys :: "pydict list \<Rightarrow> int list \<Rightarrow> int list" where
  "changed_standbys previous indices = filter (\<lambda>i.
     (case List.find (\<lambda>row. dgetN row ''index'' = PInt i) previous of
        None \<Rightarrow> True | Some row \<Rightarrow> row \<noteq> standby_row i)) indices"

text \<open>A write through a temporary file.\<close>

definition fd_save_atomic :: "bool \<Rightarrow> pydict \<Rightarrow> unit filed" where
  "fd_save_atomic written cfg = (\<lambda>f. if written then (Inr (), Stored (PDict cfg)) else (Inl OSError, f))"

type_synonym standby_answer = "pydict \<times> int list"

definition confirm_standbys :: "slot_env \<Rightarrow> (nat \<Rightarrow> web_draws) \<Rightarrow> bool \<Rightarrow> int list \<Rightarrow> standby_answer filed" where
  "confirm_standbys env dr written indices =
     fd_bind (dedicated_standby_config_snapshot env (\<lambda>k. dr (k + 3))) (\<lambda>previous.
     fd_bind (fd_load env (dr 5)) (\<lambda>cfg.
     fd_bind (fd_save_atomic written
       (dset cfg ''dedicated_standbys'' (PList (map (\<lambda>i. PDict (standby_row i)) indices)))) (\<lambda>_.
     fd_return ([(''ok'', PBool True)], changed_standbys previous indices))))"

definition set_dedicated_standby_config ::
  "slot_env \<Rightarrow> (nat \<Rightarrow> web_draws) \<Rightarrow> bool \<Rightarrow> pyval \<Rightarrow> standby_answer filed" where
  "set_dedicated_standby_config env dr written rows =
     fd_bind (standby_target_indices env (dr 0)) (\<lambda>indices.
     case rows of
       PList items \<Rightarrow>
         if length items \<noteq> length indices then fd_return (refusal ''invalid_request'', [])
         else fd_bind (standby_slot_indices env (\<lambda>k. dr (k + 1))) (\<lambda>running.
           fd_bind (fd_lift (check_rows (max_exit_slots env) indices running [] items)) (\<lambda>r. case r of
             Refused code \<Rightarrow> fd_return (refusal code, [])
           | Accepted seen \<Rightarrow>
               if set seen \<noteq> set indices then fd_return (refusal ''invalid_request'', [])
               else confirm_standbys env dr written (sort seen)))
     | _ \<Rightarrow> fd_return (refusal ''invalid_request'', []))"

section \<open>Targets\<close>

lemma py_lower_id: "list_all (\<lambda>c. \<not> (65 \<le> chr_code c \<and> chr_code c \<le> 90) \<and> chr_code c < 192) s \<Longrightarrow> py_lower s = s"
  by (induction s) (auto simp: py_lower_def py_lower_char_def)

lemma slot_target_text:
  assumes "0 \<le> i"
  shows "py_lower (slot_target i) = slot_target i" "py_strip (slot_target i) = slot_target i"
    "slot_number (slot_target i) = Some i"
proof -
  have t: "slot_target i = ''slot:'' @ nat_str (nat i)" using assms by (simp add: slot_target_def int_str_def)
  have d: "list_all digit_char (nat_str (nat i))" by (rule nat_str_digits)
  have "list_all (\<lambda>c. \<not> (65 \<le> chr_code c \<and> chr_code c \<le> 90) \<and> chr_code c < 192) (nat_str (nat i))"
    using d by (auto simp: list_all_iff digit_char_def)
  then show "py_lower (slot_target i) = slot_target i"
    unfolding t by (intro py_lower_id) (simp add: chr_code_def)
  have "\<not> py_isspace_char (last (nat_str (nat i)))"
    using d by (intro digit_not_space) (simp add: list_all_iff)
  then show "py_strip (slot_target i) = slot_target i"
    unfolding t by (intro py_strip_no_space) (simp add: py_isspace_char_def chr_code_def)
  show "slot_number (slot_target i) = Some i"
    unfolding slot_number_def t using d assms by (simp add: starts_with_def)
qed

lemma normalize_slot_target: "0 \<le> i \<Longrightarrow> i < limit \<Longrightarrow> normalize_standby_target limit (PStr (slot_target i)) = slot_target i"
  using slot_target_text [of i] by (simp add: normalize_standby_target_def) (simp add: slot_target_def)

lemma normalize_main: "normalize_standby_target limit (PStr ''main'') = ''main''"
proof -
  have "py_lower (py_strip ''main'') = ''main''" by code_simp
  then show ?thesis by (simp add: normalize_standby_target_def)
qed

lemma sorted_set_idem [simp]: "sorted_set (sorted_set xs) = sorted_set xs"
  by (simp add: sorted_set_def distinct_remdups_id sort_key_id_if_sorted)

lemma targets_rows: "\<forall>i \<in> set slots. 0 \<le> i \<Longrightarrow> targets slots = map standby_row (0 # map (\<lambda>i. i + 1) (sorted_set slots))"
  by (auto simp: targets_def standby_row_def slot_target_def)

lemma find_standby_row: "i \<in> set is \<Longrightarrow> List.find (\<lambda>row. dgetN row ''index'' = PInt i) (map standby_row is) = Some (standby_row i)"
  by (induction "is") (auto simp: standby_row_def)

lemma check_row_accepted:
  assumes "check_row limit indices running seen item = Inr (Accepted i)"
  shows "i \<notin> set seen \<and> i \<in> set indices \<and> (1 \<le> i \<longrightarrow> i - 1 \<in> set running)"
proof -
  have s: "starts_with ''slot:'' (slot_target j)" for j by (simp add: starts_with_def slot_target_def)
  show ?thesis
    using assms slot_target_text(3) [of "i - 1"] s [of "i - 1"]
    by (auto simp: check_row_def err_bind_Inr Let_def split: pyval.splits if_splits option.splits)
qed

lemma check_rows_accepted:
  assumes "check_rows limit indices running seen items = Inr (Accepted acc)" "distinct seen"
    "set seen \<subseteq> set indices" "\<forall>i \<in> set seen. 1 \<le> i \<longrightarrow> i - 1 \<in> set running"
  shows "distinct acc \<and> set acc \<subseteq> set indices \<and> length acc = length seen + length items
    \<and> (\<forall>i \<in> set acc. 1 \<le> i \<longrightarrow> i - 1 \<in> set running)"
  using assms
proof (induction items arbitrary: seen)
  case (Cons item items)
  from Cons.prems(1) obtain v where v: "check_row limit indices running seen item = Inr v"
    "(case v of Refused code \<Rightarrow> Inr (Refused code)
      | Accepted index \<Rightarrow> check_rows limit indices running (seen @ [index]) items) = Inr (Accepted acc)"
    by (auto simp: err_bind_Inr)
  then obtain i where i: "check_row limit indices running seen item = Inr (Accepted i)"
    "check_rows limit indices running (seen @ [i]) items = Inr (Accepted acc)"
    by (cases v) auto
  from Cons.IH [OF i(2)] check_row_accepted [OF i(1)] Cons.prems show ?case by auto
qed simp

lemma check_rows_all:
  assumes "\<forall>i \<in> set is. i \<in> set indices \<and> 0 \<le> i \<and> (1 \<le> i \<longrightarrow> i - 1 \<in> set running \<and> i - 1 < limit)"
    "distinct (seen @ is)"
  shows "check_rows limit indices running seen (map (\<lambda>i. PDict (standby_row i)) is) = Inr (Accepted (seen @ is))"
  using assms
proof (induction "is" arbitrary: seen)
  case (Cons i "is")
  have "check_row limit indices running seen (PDict (standby_row i)) = Inr (Accepted i)"
  proof (cases "i = 0")
    case True
    with Cons.prems show ?thesis
      by (simp add: check_row_def standby_row_def int_or_zero_def normalize_main starts_with_def)
  next
    case False
    with Cons.prems have "0 \<le> i - 1" "i - 1 < limit" by auto
    with Cons.prems False show ?thesis
      by (simp add: check_row_def standby_row_def int_or_zero_def normalize_slot_target slot_target_text)
  qed
  with Cons.IH [of "seen @ [i]"] Cons.prems show ?case by simp
qed simp

section \<open>Properties\<close>

definition indices_of :: "int list \<Rightarrow> int list" where
  "indices_of as = 0 # map (\<lambda>i. i + 1) as"

lemma fd_bind_indices:
  assumes "settled env f cfg" "active_slots env cfg = Inr as" "set as \<subseteq> {0..<max_exit_slots env}"
  shows "fd_bind (standby_target_indices env dr) k f = k (indices_of as) f"
proof -
  have "filter (\<lambda>i. i < max_exit_slots env) as = as" using assms(3) by (auto simp: filter_id_conv)
  then show ?thesis using assms by (simp add: standby_target_indices_def fd_bind_assoc indices_of_def)
qed

lemma fd_bind_running [simp]:
  "settled env f cfg \<Longrightarrow> active_slots env cfg = Inr as \<Longrightarrow> paused_slots env cfg = Inr ps
    \<Longrightarrow> fd_bind (standby_slot_indices env dr) k f = k (sorted_set (filter (\<lambda>i. i \<notin> set ps) as)) f"
  by (simp add: standby_slot_indices_def fd_bind_assoc)

text \<open>C36. The assignment of the hot standbys can be confirmed exactly when no slot is paused. While
  a slot is paused, every request is refused and changes nothing: the rows must name every
  existing slot, but the row of a paused slot is answered with slot_not_found. Without a
  paused slot the manager's own list is accepted, is written, and tears no standby down.\<close>

theorem standby_config_with_paused_slot:
  assumes "slot_rel env (A, P) f"
  shows "if P \<noteq> {} then
      (\<forall>dr written rows. snd (set_dedicated_standby_config env dr written rows f) = f
        \<and> (\<forall>reply changed. fst (set_dedicated_standby_config env dr written rows f) = Inr (reply, changed)
            \<longrightarrow> dgetN reply ''ok'' = PBool False \<and> changed = []))
    else (\<forall>dr dr'. \<exists>rows cfg. dedicated_standby_config_snapshot env dr f = (Inr rows, f)
        \<and> set_dedicated_standby_config env dr' True (PList (map PDict rows)) f
          = (Inr ([(''ok'', PBool True)], []), Stored (PDict (dset cfg ''dedicated_standbys'' (PList (map PDict rows))))))"
proof -
  from assms obtain cfg as ps where h: "settled env f cfg" "active_slots env cfg = Inr as" "paused_slots env cfg = Inr ps"
    "A = set as" "P = set ps" "set ps \<subseteq> set as" "set as \<subseteq> {0..<max_exit_slots env}" unfolding slot_rel_def by blast
  note bind = fd_bind_indices [OF h(1,2,7)] fd_bind_running [OF h(1,2,3)]
  have dist: "distinct as" using h(2) by (rule active_slots_distinct)
  then have di: "distinct (indices_of as)" using h(7) by (auto simp: indices_of_def distinct_map inj_on_def)
  let ?run = "sorted_set (filter (\<lambda>i. i \<notin> set ps) as)"
  show ?thesis
  proof (cases "P = {}")
    case False
    then obtain s where s: "s \<in> set ps" using h(5) by blast
    have never: "check_rows (max_exit_slots env) (indices_of as) ?run [] items \<noteq> Inr (Accepted acc)"
      if len: "length items = length (indices_of as)" for items acc
    proof
      assume "check_rows (max_exit_slots env) (indices_of as) ?run [] items = Inr (Accepted acc)"
      from check_rows_accepted [OF this] len have acc: "distinct acc" "set acc \<subseteq> set (indices_of as)"
        "length acc = length (indices_of as)" "\<forall>i \<in> set acc. 1 \<le> i \<longrightarrow> i - 1 \<in> set ?run" by auto
      have "card (set (indices_of as)) \<le> card (set acc)" using acc(1,3) di by (simp add: distinct_card)
      then have "set acc = set (indices_of as)" using acc(2) by (intro card_seteq) auto
      moreover have "s + 1 \<in> set (indices_of as)" "1 \<le> s + 1" using s h(6,7) by (auto simp: indices_of_def)
      ultimately have "s + 1 - 1 \<in> set ?run" using acc(4) by metis
      with s show False by simp
    qed
    have "snd (set_dedicated_standby_config env dr written rows f) = f
        \<and> (\<forall>reply changed. fst (set_dedicated_standby_config env dr written rows f) = Inr (reply, changed)
            \<longrightarrow> dgetN reply ''ok'' = PBool False \<and> changed = [])" for dr written rows
    proof (cases rows)
      case (PList items)
      show ?thesis
      proof (cases "length items = length (indices_of as)")
        case True
        show ?thesis
        proof (cases "check_rows (max_exit_slots env) (indices_of as) ?run [] items")
          case (Inl e)
          with True PList show ?thesis by (simp add: set_dedicated_standby_config_def bind)
        next
          case (Inr v)
          with never [OF True] obtain code where "v = Refused code" by (cases v) auto
          with Inr True PList show ?thesis by (simp add: set_dedicated_standby_config_def bind fd_return_def refusal_def)
        qed
      qed (use PList in \<open>simp add: set_dedicated_standby_config_def bind fd_return_def refusal_def\<close>)
    qed (simp_all add: set_dedicated_standby_config_def bind fd_return_def refusal_def)
    with False show ?thesis by simp
  next
    case True
    then have ps: "ps = []" using h(5) by simp
    let ?idx = "indices_of (sorted_set as)"
    have tr: "targets ?run = map standby_row ?idx" unfolding indices_of_def using h(7) ps by (subst targets_rows) auto
    have snap: "dedicated_standby_config_snapshot env dr f = (Inr (map standby_row ?idx), f)" for dr
      unfolding dedicated_standby_config_snapshot_def bind(2) using tr by (simp add: fd_return_def)
    have si: "set ?idx = set (indices_of as)" by (simp add: indices_of_def)
    have dx: "distinct ?idx" using h(7) by (auto simp: indices_of_def distinct_map inj_on_def)
    have chk: "check_rows (max_exit_slots env) (indices_of as) ?run [] (map (\<lambda>i. PDict (standby_row i)) ?idx) = Inr (Accepted ?idx)"
      using dx h(7) ps by (subst check_rows_all) (auto simp: indices_of_def)
    have srt: "sort ?idx = ?idx"
      using h(7) by (intro sort_key_id_if_sorted) (auto simp: indices_of_def sorted_map intro: sorted_wrt_mono_rel [OF _ sorted_sorted_set])
    have len: "length ?idx = length (indices_of as)" using dist by (simp add: indices_of_def sorted_set_def distinct_remdups_id)
    have same: "changed_standbys (map standby_row ?idx) ?idx = []"
      unfolding changed_standbys_def by (simp add: filter_empty_conv find_standby_row)
    let ?rows = "map (\<lambda>i. PDict (standby_row i)) ?idx"
    have conf: "confirm_standbys env dr' True ?idx f
        = (Inr ([(''ok'', PBool True)], []), Stored (PDict (dset cfg ''dedicated_standbys'' (PList ?rows))))" for dr'
      using h(1) by (simp add: confirm_standbys_def fd_bind_def [of "dedicated_standby_config_snapshot _ _"] snap same
          fd_bind_def [of "fd_save_atomic _ _"] fd_save_atomic_def)
        (simp add: fd_bind_def fd_return_def)
    have "set_dedicated_standby_config env dr' True (PList ?rows) f = confirm_standbys env dr' True ?idx f" for dr'
      by (simp add: set_dedicated_standby_config_def bind chk len si srt del: map_map)
    then have "set_dedicated_standby_config env dr' True (PList (map PDict (map standby_row ?idx))) f
        = (Inr ([(''ok'', PBool True)], []), Stored (PDict (dset cfg ''dedicated_standbys'' (PList (map PDict (map standby_row ?idx))))))" for dr'
      using conf by (simp add: o_def)
    with snap True show ?thesis by simp blast
  qed
qed


lemma standby_config_with_paused_slot_witness:
  "\<exists>f. slot_rel slots_example_env ({0, 1}, {1}) f
    \<and> snd (set_dedicated_standby_config slots_example_env (\<lambda>k. example_draws) True
        (PList [PDict (standby_row 0), PDict (standby_row 1), PDict (standby_row 2)]) f) = f"
proof -
  let ?c = "\<lambda>op. (op, 10, \<lambda>k. example_draws)"
  let ?calls = "[?c (Set_Count 2), ?c (Stop 1)]"
  have ok: "list_all (call_ok slots_example_env) ?calls"
    by (simp add: call_ok_def slots_example_env_def example_draws_def)
  have "fold spec_call ?calls ({}, {}) = ({0, 1}, {1})" by auto
  with slot_sim.run [OF ok slots_example_start]
  have r: "slot_rel slots_example_env ({0, 1}, {1}) (fold (impl_call slots_example_env) ?calls slots_example_file)" by simp
  from standby_config_with_paused_slot [OF r] r show ?thesis by auto
qed

end
