(* ===== verification/Node_Select.thy ===== *)
theory Node_Select
  imports Candidates Standby_Config
begin

text \<open>
  Which node an exit takes. The record \<open>stock\<close> is what the manager knows at the moment: the nodes
  it read, the loaded configuration, the slot rows saved by the last process, the running slots
  and standbys with the node each holds, the pending reservations, the ids the coordinator holds,
  the main connection and the cooling nodes. Identifiers are strings in every document the engine
  writes; a value of another type belongs to no set of identifiers.
\<close>

record stock =
  su_nodes :: "pydict list"
  su_cfg :: pydict
  su_active :: "int list"
  su_saved :: pyval
  su_slots :: "(int \<times> pydict) list"
  su_standbys :: "(int \<times> pydict) list"
  su_pending :: "string set"
  su_coordinator :: "string set"
  su_main :: string
  su_bad :: "(string \<times> rat) list"
  su_now :: rat

section \<open>Reserved identifiers\<close>

definition id_text :: "pyval \<Rightarrow> string" where
  "id_text v = (case v of PStr s \<Rightarrow> s | _ \<Rightarrow> [])"

definition runtime_id :: "pydict \<Rightarrow> string" where
  "runtime_id runtime = py_strip (str_or_empty (dgetN runtime ''node_id''))"

definition current_slot_node_ids :: "stock \<Rightarrow> string set" where
  "current_slot_node_ids su = (\<lambda>p. id_text (dgetN (snd p) ''node_id'')) ` set (su_slots su) - {[]}"

definition saved_rows :: "pyval \<Rightarrow> pydict list" where
  "saved_rows doc = (case doc of
     PDict d \<Rightarrow> (case dgetN d ''slots'' of PList rows \<Rightarrow> node_dicts rows | _ \<Rightarrow> []) | _ \<Rightarrow> [])"

definition row_slot :: "pydict \<Rightarrow> pyexc + int option" where
  "row_slot row = catch_value_error (err_bind (py_int (dgetN row ''slot'')) (\<lambda>i. Inr (Some i))) None"

fun persisted_ids :: "int list \<Rightarrow> int option \<Rightarrow> pydict list \<Rightarrow> pyexc + string list" where
  "persisted_ids active skipped [] = Inr []"
| "persisted_ids active skipped (row # rows) =
     err_bind (row_slot row) (\<lambda>slot.
     err_bind (persisted_ids active skipped rows) (\<lambda>ids.
     Inr (case slot of
         Some i \<Rightarrow> if i \<in> set active \<and> skipped \<noteq> Some i \<and> runtime_id row \<noteq> [] then runtime_id row # ids else ids
       | None \<Rightarrow> ids)))"

definition persisted_slot_node_ids :: "int option \<Rightarrow> stock \<Rightarrow> pyexc + string set" where
  "persisted_slot_node_ids skipped su =
     err_bind (persisted_ids (su_active su) skipped (saved_rows (su_saved su))) (\<lambda>ids. Inr (set ids))"

fun persisted_id :: "int \<Rightarrow> pydict list \<Rightarrow> pyexc + string" where
  "persisted_id i [] = Inr []"
| "persisted_id i (row # rows) =
     err_bind (row_slot row) (\<lambda>slot. if slot = Some i then Inr (runtime_id row) else persisted_id i rows)"

definition dedicated_standby_candidate_ids :: "int option \<Rightarrow> stock \<Rightarrow> string set" where
  "dedicated_standby_candidate_ids skipped su =
     (\<lambda>p. runtime_id (snd p)) ` {p \<in> set (su_standbys su). skipped \<noteq> Some (fst p)} - {[]}"

definition slot_runtime :: "stock \<Rightarrow> int \<Rightarrow> pydict" where
  "slot_runtime su i = (case map_of (su_slots su) i of None \<Rightarrow> [] | Some d \<Rightarrow> d)"

definition pins :: "stock \<Rightarrow> (string \<times> string) list" where
  "pins su = pin_map (su_cfg su)"

definition own_ids :: "stock \<Rightarrow> int option \<Rightarrow> string set" where
  "own_ids su skipped = (case skipped of None \<Rightarrow> {}
     | Some i \<Rightarrow> {runtime_id (slot_runtime su i), py_strip (entry_of (pins su) i)})"

definition pinned_ids :: "stock \<Rightarrow> int option \<Rightarrow> string set" where
  "pinned_ids su skipped = (\<lambda>p. py_strip (snd p)) `
     {p \<in> set (pins su). case skipped of None \<Rightarrow> True | Some i \<Rightarrow> fst p \<noteq> int_str i}"

definition reserved_slot_candidate_ids :: "int option \<Rightarrow> stock \<Rightarrow> pyexc + string set" where
  "reserved_slot_candidate_ids skipped su =
     err_bind (persisted_slot_node_ids skipped su) (\<lambda>persisted.
     Inr ((((current_slot_node_ids su \<union> persisted) - own_ids su skipped) \<union> pinned_ids su skipped) - {[]}
        \<union> dedicated_standby_candidate_ids None su \<union> su_pending su))"

definition main_reserved_candidate_ids :: "stock \<Rightarrow> string set" where
  "main_reserved_candidate_ids su =
     su_coordinator su \<union> ({py_strip (su_main su)} - {[]}) \<union> dedicated_standby_candidate_ids None su \<union> su_pending su"

section \<open>Quality\<close>

type_synonym speed_key = "int \<times> int \<times> int \<times> int \<times> int"

definition node_quality_key :: "pydict \<Rightarrow> pyexc + speed_key" where
  "node_quality_key node =
     err_bind (int_or_zero (dgetN node ''egress_latency_ms'')) (\<lambda>egress.
     err_bind (int_or_zero (dgetN node ''egress_latency_checked_at'')) (\<lambda>checked.
     err_bind (int_or_zero (dgetN node ''latency_ms'')) (\<lambda>ping.
     err_bind (int_or_zero (dgetN node ''score'')) (\<lambda>score.
     let measured = (0 < egress \<and> 0 < checked); server = (if ping = 0 then 999999 else ping);
         protocol = (if starts_with ''udp'' (py_lower (str_or_empty (dgetN node ''proto''))) then 0 else 1)
     in Inr (if measured then 0 else 1, if measured then egress else server, protocol, server, - score)))))"

definition node_type :: "pydict \<Rightarrow> string" where
  "node_type n = normalize_proxy_type (dgetN n ''ip_type'')"

definition residential_first :: "pydict \<Rightarrow> int" where
  "residential_first n = (if node_type n = ''residential'' then 0 else 1)"

definition select_key :: "pydict \<Rightarrow> pyexc + int \<times> speed_key" where
  "select_key n = err_bind (node_quality_key n) (\<lambda>k. Inr (residential_first n, k))"

section \<open>Choosing for a slot\<close>

definition comma_list :: "string \<Rightarrow> string list" where
  "comma_list s = filter (\<lambda>c. c \<noteq> []) (map py_strip (py_split (CHR '','') s))"

definition str_field :: "pydict \<Rightarrow> string \<Rightarrow> string" where
  "str_field n key = py_str (dget_or n key (PStr []))"

definition matches_isp :: "string list \<Rightarrow> pydict \<Rightarrow> bool" where
  "matches_isp kws n = (kws = [] \<or> list_ex (\<lambda>kw. py_contains kw
     (py_lower (str_field n ''owner'' @ '' '' @ str_field n ''as_name'' @ '' '' @ str_field n ''asn''))) kws)"

record slot_filter =
  sf_countries :: "string list"
  sf_isps :: "string list"
  sf_residential_only :: bool
  sf_type :: string

definition slot_filter_of :: "string \<Rightarrow> bool \<Rightarrow> string \<Rightarrow> string \<Rightarrow> slot_filter" where
  "slot_filter_of country residential_only isp proxy_type =
     \<lparr>sf_countries = comma_list country, sf_isps = map py_lower (comma_list isp),
      sf_residential_only = residential_only, sf_type = normalize_proxy_type (PStr proxy_type)\<rparr>"

definition passes_filter :: "slot_filter \<Rightarrow> pydict \<Rightarrow> bool" where
  "passes_filter flt n =
     (node_type n \<noteq> []
      \<and> (sf_residential_only flt \<longrightarrow> dgetN n ''ip_type'' \<in> {PStr ''residential'', PStr ''mobile''})
      \<and> (sf_type flt \<noteq> [] \<longrightarrow> node_type n = sf_type flt)
      \<and> (sf_countries flt \<noteq> [] \<longrightarrow> py_upper (str_field n ''country_short'') \<in> set (sf_countries flt))
      \<and> matches_isp (sf_isps flt) n)"

definition cooling_ids :: "stock \<Rightarrow> string set" where
  "cooling_ids su = fst ` {p \<in> set (su_bad su). su_now su < snd p}"

definition free_node :: "stock \<Rightarrow> string set \<Rightarrow> pydict \<Rightarrow> bool" where
  "free_node su used n =
     (id_text (dgetN n ''id'') \<notin> used \<and> id_text (dgetN n ''id'') \<notin> cooling_ids su
      \<and> candidate_ip_identity n \<notin> candidate_ip_identities (su_nodes su) used \<and> is_available n)"

definition select_slot_nodes ::
  "stock \<Rightarrow> string set \<Rightarrow> nat \<Rightarrow> string \<Rightarrow> bool \<Rightarrow> string \<Rightarrow> string \<Rightarrow> pyexc + pydict list" where
  "select_slot_nodes su used need country residential_only isp proxy_type =
     (let flt = slot_filter_of country residential_only isp proxy_type in
      if need = 0 \<or> (proxy_type \<noteq> [] \<and> sf_type flt = []) then Inr []
      else err_bind (sorted_by select_key (filter (\<lambda>n. free_node su (used \<union> main_reserved_candidate_ids su) n \<and> passes_filter flt n)
          (su_nodes su))) (\<lambda>pool. Inr (take need pool)))"

definition residential_only_setting :: "pydict \<Rightarrow> bool" where
  "residential_only_setting cfg = truthy (dget_or cfg ''exit_slot_residential_only'' (PBool False))"

text \<open>The nodes that the saved settings of a slot allow.\<close>

definition slot_choice :: "stock \<Rightarrow> int \<Rightarrow> string set \<Rightarrow> nat \<Rightarrow> pyexc + pydict list" where
  "slot_choice su i used need =
     (let cfg = su_cfg su; proxy_type = per_slot_type cfg i in
      select_slot_nodes su used need (per_slot_country cfg i)
        (residential_only_setting cfg \<and> proxy_type = []) (per_slot_isp cfg i) proxy_type)"

definition available_with_id :: "stock \<Rightarrow> string \<Rightarrow> pydict option" where
  "available_with_id su nid = List.find (\<lambda>n. dgetN n ''id'' = PStr nid \<and> is_available n) (su_nodes su)"

definition wanted_node :: "stock \<Rightarrow> string \<Rightarrow> string set \<Rightarrow> pydict option" where
  "wanted_node su nid used = (if nid \<noteq> [] \<and> nid \<notin> used then available_with_id su nid else None)"

definition many :: "int \<Rightarrow> nat" where
  "many limit = nat limit * 1024"

definition automatic_pick :: "stock \<Rightarrow> int \<Rightarrow> int \<Rightarrow> string set \<Rightarrow> (int \<times> string) list \<Rightarrow> pyexc + pydict option \<times> (int \<times> string) list"
  where
  "automatic_pick su limit i used hints =
     (let hint = (case map_of hints i of None \<Rightarrow> [] | Some h \<Rightarrow> h) in
      err_bind (slot_choice su i used (if hint = [] then 1 else many limit)) (\<lambda>picks.
      Inr (case (if hint = [] then None else List.find (\<lambda>n. dgetN n ''id'' = PStr hint) picks) of
          Some n \<Rightarrow> Some n
        | None \<Rightarrow> (case picks of [] \<Rightarrow> None | n # _ \<Rightarrow> Some n), AList.delete i hints)))"

definition pick_slot_node ::
  "stock \<Rightarrow> int \<Rightarrow> int \<Rightarrow> string set \<Rightarrow> (int \<times> string) list \<Rightarrow> pyexc + pydict option \<times> (int \<times> string) list" where
  "pick_slot_node su limit i used hints =
     err_bind (reserved_slot_candidate_ids (Some i) su) (\<lambda>reserved.
     let used = used \<union> reserved \<union> main_reserved_candidate_ids su in
     (case wanted_node su (entry_of (pins su) i) used of
        Some n \<Rightarrow> Inr (Some n, hints)
      | None \<Rightarrow>
          err_bind (persisted_id i (saved_rows (su_saved su))) (\<lambda>persisted.
          (case wanted_node su persisted used of
             Some n \<Rightarrow> Inr (Some n, hints)
           | None \<Rightarrow> automatic_pick su limit i used hints))))"

text \<open>Whether an empty slot may take over its own standby.\<close>

definition standby_node :: "stock \<Rightarrow> int \<Rightarrow> string" where
  "standby_node su index = (case map_of (su_standbys su) index of None \<Rightarrow> []
     | Some runtime \<Rightarrow> str_or_empty (dgetN runtime ''node_id''))"

definition initial_standby_eligible :: "stock \<Rightarrow> int \<Rightarrow> int \<Rightarrow> pyexc + bool" where
  "initial_standby_eligible su limit slot =
     (let nid = standby_node su (slot + 1); pinned = entry_of (pins su) slot in
      if nid = [] \<or> (pinned \<noteq> [] \<and> pinned \<noteq> nid) then Inr False
      else err_bind (reserved_slot_candidate_ids (Some slot) su) (\<lambda>reserved.
        err_bind (slot_choice su slot (reserved - {nid}) (many limit)) (\<lambda>eligible.
        Inr (list_ex (\<lambda>n. dgetN n ''id'' = PStr nid) eligible))))"

section \<open>Choosing for the main connection, a repair and a standby\<close>

definition two_letters :: "string \<Rightarrow> bool" where
  "two_letters s = (length s = 2 \<and> list_all ascii_upper_char s)"

definition main_key :: "pydict \<Rightarrow> pyexc + int \<times> int \<times> int" where
  "main_key n = err_bind (int_or_zero (dgetN n ''latency_ms'')) (\<lambda>ping.
     err_bind (int_or_zero (dgetN n ''score'')) (\<lambda>score.
     Inr (residential_first n, if ping = 0 then 999999 else ping, - score)))"

definition node_country :: "pydict \<Rightarrow> string" where
  "node_country n = py_upper (py_strip (str_or_empty (dgetN n ''country_short'')))"

definition plain_id :: "pydict \<Rightarrow> string" where
  "plain_id n = str_or_empty (dgetN n ''id'')"

definition automatic_main_candidates :: "stock \<Rightarrow> string set \<Rightarrow> string \<Rightarrow> pyexc + pydict list" where
  "automatic_main_candidates su main_bad country =
     (let country = py_upper (py_strip country) in
      if country \<noteq> [] \<and> \<not> two_letters country then Inr []
      else err_bind (reserved_slot_candidate_ids None su) (\<lambda>reserved.
        let reserved = reserved \<union> main_bad in
        sorted_by main_key (filter (\<lambda>n. is_available n \<and> plain_id n \<notin> reserved
            \<and> candidate_ip_identity n \<notin> candidate_ip_identities (su_nodes su) reserved
            \<and> two_letters (node_country n) \<and> (country = [] \<or> node_country n = country)) (su_nodes su))))"

definition automatic_slot_candidates :: "stock \<Rightarrow> int \<Rightarrow> int \<Rightarrow> string \<Rightarrow> pyexc + pydict list" where
  "automatic_slot_candidates su limit i country =
     (let country = py_upper (py_strip country) in
      if \<not> two_letters country then Inr []
      else err_bind (reserved_slot_candidate_ids (Some i) su) (\<lambda>used.
        err_bind (select_slot_nodes su used (many limit) country True [] []) (\<lambda>homes.
        let home_ids = plain_id ` set homes in
        err_bind (select_slot_nodes su (used \<union> home_ids) (many limit) country False [] []) (\<lambda>others.
        Inr (homes @ filter (\<lambda>n. plain_id n \<notin> home_ids) others)))))"

definition standby_candidates ::
  "stock \<Rightarrow> pydict \<Rightarrow> (string \<times> rat) list \<Rightarrow> bool \<Rightarrow> string \<Rightarrow> pyexc + pydict list" where
  "standby_candidates su settings cooldowns include_bad country =
     err_bind (reserved_slot_candidate_ids None su) (\<lambda>reserved.
     let used = reserved \<union> main_reserved_candidate_ids su \<union> dedicated_standby_candidate_ids None su;
         until = (\<lambda>m n. case map_of m (plain_id n) of None \<Rightarrow> 0 | Some t \<Rightarrow> t)
     in rank_candidates (filter (\<lambda>n. plain_id n \<notin> used
          \<and> candidate_ip_identity n \<notin> candidate_ip_identities (su_nodes su) used
          \<and> (include_bad \<or> until (su_bad su) n \<le> su_now su \<and> until cooldowns n \<le> su_now su)) (su_nodes su))
        country settings (su_now su))"


section \<open>Facts\<close>

text \<open>The stock as the engine keeps it: identifiers are non-empty strings without surrounding white
  space and no two nodes share one.\<close>

definition tidy_stock :: "stock \<Rightarrow> bool" where
  "tidy_stock su =
     ((\<forall>n \<in> set (su_nodes su). dgetN n ''id'' = PStr (node_id n) \<and> node_id n \<noteq> []) \<and> distinct (map node_id (su_nodes su))
      \<and> (\<forall>p \<in> set (su_slots su). py_strip (id_text (dgetN (snd p) ''node_id'')) = id_text (dgetN (snd p) ''node_id''))
      \<and> (\<forall>c \<in> su_pending su \<union> su_coordinator su. py_strip c = c))"

definition stripped :: "string set \<Rightarrow> bool" where
  "stripped ids = (\<forall>s \<in> ids. py_strip s = s)"

lemma stripped_simps [simp]:
  "stripped {}" "stripped (A \<union> B) = (stripped A \<and> stripped B)" "stripped A \<Longrightarrow> stripped (A - B)"
  "stripped (insert s A) = (py_strip s = s \<and> stripped A)"
  by (auto simp: stripped_def)

lemma runtime_id_strip [simp]: "py_strip (runtime_id d) = runtime_id d"
  by (simp add: runtime_id_def)

lemma stripped_main_reserved: "tidy_stock su \<Longrightarrow> stripped (main_reserved_candidate_ids su)"
  by (auto simp: main_reserved_candidate_ids_def dedicated_standby_candidate_ids_def tidy_stock_def stripped_def)

lemma stripped_persisted: "persisted_ids active skipped rows = Inr ids \<Longrightarrow> stripped (set ids)"
proof (induction rows arbitrary: ids)
  case (Cons row rows)
  then obtain slot ids' where "persisted_ids active skipped rows = Inr ids'" "set ids \<subseteq> insert (runtime_id row) (set ids')"
    by (fastforce simp: err_bind_Inr split: option.splits if_splits)
  with Cons.IH show ?case by (auto simp: stripped_def)
qed simp

lemma stripped_reserved:
  assumes "tidy_stock su" "reserved_slot_candidate_ids skipped su = Inr R"
  shows "stripped R"
proof -
  from assms(2) obtain ids where ids: "persisted_ids (su_active su) skipped (saved_rows (su_saved su)) = Inr ids"
    and R: "R = (((current_slot_node_ids su \<union> set ids) - own_ids su skipped) \<union> pinned_ids su skipped) - {[]}
        \<union> dedicated_standby_candidate_ids None su \<union> su_pending su"
    by (auto simp: reserved_slot_candidate_ids_def persisted_slot_node_ids_def err_bind_Inr)
  have "stripped (current_slot_node_ids su)" "stripped (su_pending su)"
    using assms(1) by (auto simp: current_slot_node_ids_def tidy_stock_def stripped_def)
  moreover have "stripped (pinned_ids su skipped)" "stripped (dedicated_standby_candidate_ids None su)"
    by (auto simp: pinned_ids_def dedicated_standby_candidate_ids_def stripped_def)
  ultimately show ?thesis using stripped_persisted [OF ids] R by simp
qed

lemma select_slot_nodes_Inr:
  assumes "select_slot_nodes su used need country ro isp kind = Inr picks"
  shows "\<exists>rest. mset (picks @ rest) = mset (if kind \<noteq> [] \<and> normalize_proxy_type (PStr kind) = [] then []
        else filter (\<lambda>n. free_node su (used \<union> main_reserved_candidate_ids su) n \<and> passes_filter (slot_filter_of country ro isp kind) n) (su_nodes su))
      \<and> sorted_wrt (\<lambda>a b. \<exists>k l. select_key a = Inr k \<and> select_key b = Inr l \<and> k \<le> l) (picks @ rest)
      \<and> (length picks = need \<or> rest = []) \<or> need = 0 \<and> picks = []"
proof -
  let ?flt = "slot_filter_of country ro isp kind"
  let ?E = "filter (\<lambda>n. free_node su (used \<union> main_reserved_candidate_ids su) n \<and> passes_filter ?flt n) (su_nodes su)"
  have t: "sf_type ?flt = normalize_proxy_type (PStr kind)" by (simp add: slot_filter_of_def)
  show ?thesis
  proof (cases "need = 0 \<or> (kind \<noteq> [] \<and> normalize_proxy_type (PStr kind) = [])")
    case True
    with assms show ?thesis by (auto simp: select_slot_nodes_def t Let_def)
  next
    case False
    with assms obtain pool where pool: "sorted_by select_key ?E = Inr pool" "picks = take need pool"
      by (auto simp: select_slot_nodes_def t Let_def err_bind_Inr)
    have "picks @ drop need pool = pool" by (simp add: pool(2))
    then show ?thesis
      using sorted_by_Inr(1,2) [OF pool(1)] False pool(2) by (intro exI [of _ "drop need pool"]) auto
  qed
qed

lemma select_slot_nodes_mem:
  assumes "select_slot_nodes su used need country ro isp kind = Inr picks" "n \<in> set picks"
  shows "n \<in> set (su_nodes su) \<and> free_node su (used \<union> main_reserved_candidate_ids su) n
    \<and> passes_filter (slot_filter_of country ro isp kind) n"
proof -
  from select_slot_nodes_Inr [OF assms(1)] assms(2) obtain rest where
    "mset (picks @ rest) = mset (if kind \<noteq> [] \<and> normalize_proxy_type (PStr kind) = [] then []
        else filter (\<lambda>n. free_node su (used \<union> main_reserved_candidate_ids su) n \<and> passes_filter (slot_filter_of country ro isp kind) n) (su_nodes su))"
    by auto
  then have "set (picks @ rest) = set (if kind \<noteq> [] \<and> normalize_proxy_type (PStr kind) = [] then []
        else filter (\<lambda>n. free_node su (used \<union> main_reserved_candidate_ids su) n \<and> passes_filter (slot_filter_of country ro isp kind) n) (su_nodes su))"
    by (rule mset_eq_setD)
  with assms(2) show ?thesis by (auto split: if_splits)
qed

lemma find_mem: "List.find P xs = Some x \<Longrightarrow> x \<in> set xs \<and> P x"
  by (auto simp: find_Some_iff dest!: nth_mem)

lemma automatic_pick_mem:
  assumes "automatic_pick su limit i used hints = Inr (Some n, hints')"
  obtains need picks where "slot_choice su i used need = Inr picks" "n \<in> set picks"
proof -
  let ?hint = "case map_of hints i of None \<Rightarrow> [] | Some h \<Rightarrow> h"
  let ?need = "if ?hint = [] then 1 else many limit"
  let ?again = "\<lambda>picks. if ?hint = [] then None else List.find (\<lambda>n. dgetN n ''id'' = PStr ?hint) picks"
  from assms obtain picks where c: "slot_choice su i used ?need = Inr picks"
    and r: "(case ?again picks of Some m \<Rightarrow> Some m | None \<Rightarrow> (case picks of [] \<Rightarrow> None | m # _ \<Rightarrow> Some m)) = Some n"
    by (simp only: automatic_pick_def Let_def err_bind_Inr) auto
  have "n \<in> set picks"
  proof (cases "?again picks")
    case None
    with r show ?thesis by (cases picks) simp_all
  next
    case (Some m)
    with r show ?thesis by (auto dest: find_mem split: if_splits)
  qed
  with c show ?thesis by (rule that)
qed

lemma candidate_node_self:
  assumes "distinct (map node_id nodes)" "n \<in> set nodes"
  shows "candidate_node nodes (node_id n) = n"
proof -
  have "List.find (\<lambda>m. node_id m = node_id n) nodes = Some n"
    using assms by (induction nodes) auto
  then show ?thesis by (simp add: candidate_node_def)
qed

lemma reservable:
  assumes "tidy_stock su" "n \<in> set (su_nodes su)" "stripped U" "su_pending su \<subseteq> U" "node_id n \<notin> U"
    "candidate_ip_identity n \<notin> candidate_ip_identities (su_nodes su) U"
  shows "reserve_candidate (su_nodes su) (node_id n) U (su_pending su) = (True, insert (node_id n) (su_pending su))"
proof -
  have "node_id n \<noteq> []" "candidate_node (su_nodes su) (node_id n) = n"
    using assms(1,2) candidate_node_self by (auto simp: tidy_stock_def)
  moreover have "U \<union> su_pending su = U" "py_strip ` U = U" using assms(3,4) by (auto simp: stripped_def image_iff)
  ultimately show ?thesis
    using assms(5,6) by (simp add: reserve_candidate_def candidate_conflicts_with_ids_def)
qed

section \<open>What a slot asks for\<close>

text \<open>What a slot asks for, restated over the raw fields of a node, without the code's filters and
  sort keys.\<close>

definition type_word :: "pyval \<Rightarrow> string" where
  "type_word v = py_lower (py_strip (str_or_empty v))"

definition home_word :: "string \<Rightarrow> bool" where
  "home_word w \<longleftrightarrow> w = ''residential'' \<or> w = ''mobile''"

definition server_word :: "string \<Rightarrow> bool" where
  "server_word w \<longleftrightarrow> w = ''datacenter'' \<or> w = ''hosting'' \<or> w = ''proxy''"

definition home_node :: "pydict \<Rightarrow> bool" where
  "home_node n \<longleftrightarrow> home_word (type_word (dgetN n ''ip_type''))"

definition type_wanted :: "bool \<Rightarrow> string \<Rightarrow> pydict \<Rightarrow> bool" where
  "type_wanted ro kind n \<longleftrightarrow>
     (ro \<longrightarrow> dgetN n ''ip_type'' = PStr ''residential'' \<or> dgetN n ''ip_type'' = PStr ''mobile'')
     \<and> (let w = type_word (dgetN n ''ip_type''); k = type_word (PStr kind) in
        (if kind = [] then home_word w \<or> server_word w
         else home_word w \<and> home_word k \<or> server_word w \<and> server_word k))"

definition country_wanted :: "string \<Rightarrow> pydict \<Rightarrow> bool" where
  "country_wanted country n \<longleftrightarrow>
     (\<forall>c \<in> set (py_split (CHR '','') country). py_strip c = [])
     \<or> (\<exists>c \<in> set (py_split (CHR '','') country). py_strip c \<noteq> [] \<and> py_strip c = py_upper (py_str (dget_or n ''country_short'' (PStr []))))"

definition isp_wanted :: "string \<Rightarrow> pydict \<Rightarrow> bool" where
  "isp_wanted isp n \<longleftrightarrow>
     (\<forall>k \<in> set (py_split (CHR '','') isp). py_strip k = [])
     \<or> (\<exists>k \<in> set (py_split (CHR '','') isp). py_strip k \<noteq> [] \<and> py_contains (py_lower (py_strip k))
          (py_lower (py_str (dget_or n ''owner'' (PStr [])) @ '' '' @ py_str (dget_or n ''as_name'' (PStr []))
             @ '' '' @ py_str (dget_or n ''asn'' (PStr [])))))"

definition wanted_by_slot :: "stock \<Rightarrow> string set \<Rightarrow> string \<Rightarrow> bool \<Rightarrow> string \<Rightarrow> string \<Rightarrow> pydict \<Rightarrow> bool" where
  "wanted_by_slot su held country ro isp kind n \<longleftrightarrow>
     dgetN n ''probe_status'' = PStr ''available''
     \<and> id_text (dgetN n ''id'') \<notin> held
     \<and> candidate_ip_identity n \<notin> candidate_ip_identities (su_nodes su) held
     \<and> \<not> (\<exists>until. (id_text (dgetN n ''id''), until) \<in> set (su_bad su) \<and> su_now su < until)
     \<and> type_wanted ro kind n \<and> country_wanted country n \<and> isp_wanted isp n"

definition field_number :: "pydict \<Rightarrow> string \<Rightarrow> int" where
  "field_number n f = (case int_or_zero (dgetN n f) of Inr k \<Rightarrow> k | Inl _ \<Rightarrow> 0)"

definition numbers_readable :: "pydict \<Rightarrow> bool" where
  "numbers_readable n \<longleftrightarrow> (\<forall>f \<in> set [''egress_latency_ms'', ''egress_latency_checked_at'', ''latency_ms'', ''score''].
     \<exists>k. int_or_zero (dgetN n f) = Inr k)"

definition was_measured :: "pydict \<Rightarrow> bool" where
  "was_measured n \<longleftrightarrow> 0 < field_number n ''egress_latency_ms'' \<and> 0 < field_number n ''egress_latency_checked_at''"

definition server_delay :: "pydict \<Rightarrow> int" where
  "server_delay n = (if field_number n ''latency_ms'' = 0 then 999999 else field_number n ''latency_ms'')"

definition over_udp :: "pydict \<Rightarrow> bool" where
  "over_udp n \<longleftrightarrow> take 3 (py_lower (str_or_empty (dgetN n ''proto''))) = ''udp''"

definition not_worse :: "pydict \<Rightarrow> pydict \<Rightarrow> bool" where
  "not_worse a b \<longleftrightarrow> (if home_node a \<noteq> home_node b then home_node a
     else if was_measured a \<noteq> was_measured b then was_measured a
     else let da = (if was_measured a then field_number a ''egress_latency_ms'' else server_delay a);
              db = (if was_measured b then field_number b ''egress_latency_ms'' else server_delay b) in
       if da \<noteq> db then da < db
       else if over_udp a \<noteq> over_udp b then over_udp a
       else if server_delay a \<noteq> server_delay b then server_delay a < server_delay b
       else field_number b ''score'' \<le> field_number a ''score'')"

lemma normalize_home: "normalize_proxy_type v = ''residential'' \<longleftrightarrow> home_word (type_word v)"
  by (auto simp: normalize_proxy_type_def home_word_def type_word_def Let_def)

lemma normalize_server: "normalize_proxy_type v = ''datacenter'' \<longleftrightarrow> server_word (type_word v)"
  by (auto simp: normalize_proxy_type_def server_word_def type_word_def Let_def)

lemma normalize_unknown: "normalize_proxy_type v = [] \<longleftrightarrow> \<not> home_word (type_word v) \<and> \<not> server_word (type_word v)"
  by (auto simp: normalize_proxy_type_def server_word_def home_word_def type_word_def Let_def)

lemma normalize_cases: "normalize_proxy_type v \<in> {[], ''residential'', ''datacenter''}"
  by (auto simp: normalize_proxy_type_def Let_def)

lemma same_type:
  "normalize_proxy_type v \<noteq> [] \<and> normalize_proxy_type v = normalize_proxy_type w
    \<longleftrightarrow> home_word (type_word v) \<and> home_word (type_word w) \<or> server_word (type_word v) \<and> server_word (type_word w)"
  unfolding normalize_home [symmetric] normalize_server [symmetric]
  using normalize_cases [of v] normalize_cases [of w] by auto

lemma comma_list_Nil: "comma_list s = [] \<longleftrightarrow> (\<forall>c \<in> set (py_split (CHR '','') s). py_strip c = [])"
  by (auto simp: comma_list_def filter_empty_conv)

lemma comma_list_mem: "x \<in> set (comma_list s) \<longleftrightarrow> (\<exists>c \<in> set (py_split (CHR '','') s). py_strip c \<noteq> [] \<and> py_strip c = x)"
  by (auto simp: comma_list_def)

lemma comma_list_ex:
  "(\<exists>x \<in> set (comma_list s). P x) \<longleftrightarrow> (\<exists>c \<in> set (py_split (CHR '','') s). py_strip c \<noteq> [] \<and> P (py_strip c))"
  by (auto simp: comma_list_def)

lemma passes_filter_wanted:
  assumes "kind = [] \<or> normalize_proxy_type (PStr kind) \<noteq> []"
  shows "passes_filter (slot_filter_of country ro isp kind) n
    \<longleftrightarrow> type_wanted ro kind n \<and> country_wanted country n \<and> isp_wanted isp n"
proof -
  let ?v = "dgetN n ''ip_type''"
  have blank: "normalize_proxy_type (PStr []) = []" by code_simp
  have t: "(node_type n \<noteq> [] \<and> (sf_type (slot_filter_of country ro isp kind) \<noteq> [] \<longrightarrow> node_type n = sf_type (slot_filter_of country ro isp kind)))
     \<longleftrightarrow> (let w = type_word ?v; k = type_word (PStr kind) in
        (if kind = [] then home_word w \<or> server_word w else home_word w \<and> home_word k \<or> server_word w \<and> server_word k))"
    using assms blank same_type [of ?v "PStr kind"] normalize_unknown [of ?v]
    by (auto simp: slot_filter_of_def node_type_def Let_def)
  have c: "(sf_countries (slot_filter_of country ro isp kind) \<noteq> [] \<longrightarrow>
      py_upper (str_field n ''country_short'') \<in> set (sf_countries (slot_filter_of country ro isp kind))) \<longleftrightarrow> country_wanted country n"
    by (auto simp: slot_filter_of_def country_wanted_def comma_list_Nil comma_list_mem str_field_def)
  have i: "matches_isp (sf_isps (slot_filter_of country ro isp kind)) n \<longleftrightarrow> isp_wanted isp n"
    by (simp add: slot_filter_of_def matches_isp_def isp_wanted_def comma_list_Nil [symmetric] list_ex_iff comma_list_ex str_field_def)
  have r: "sf_residential_only (slot_filter_of country ro isp kind) = ro" by (simp add: slot_filter_of_def)
  have "passes_filter f n \<longleftrightarrow> (sf_residential_only f \<longrightarrow> ?v = PStr ''residential'' \<or> ?v = PStr ''mobile'')
      \<and> (node_type n \<noteq> [] \<and> (sf_type f \<noteq> [] \<longrightarrow> node_type n = sf_type f))
      \<and> (sf_countries f \<noteq> [] \<longrightarrow> py_upper (str_field n ''country_short'') \<in> set (sf_countries f))
      \<and> matches_isp (sf_isps f) n" for f
    unfolding passes_filter_def insert_iff empty_iff by iprover
  then show ?thesis by (simp only: t c i r type_wanted_def) (simp only: conj_assoc)
qed

lemma select_key_Inr: "(\<exists>k. select_key n = Inr k) \<longleftrightarrow> numbers_readable n"
proof
  assume "numbers_readable n"
  then obtain e c p s where "int_or_zero (dgetN n ''egress_latency_ms'') = Inr e"
    "int_or_zero (dgetN n ''egress_latency_checked_at'') = Inr c" "int_or_zero (dgetN n ''latency_ms'') = Inr p"
    "int_or_zero (dgetN n ''score'') = Inr s" unfolding numbers_readable_def list.set ball_simps by metis
  then show "\<exists>k. select_key n = Inr k" by (simp add: select_key_def node_quality_key_def Let_def)
next
  assume "\<exists>k. select_key n = Inr k"
  then show "numbers_readable n"
    unfolding select_key_def node_quality_key_def err_bind_Inr numbers_readable_def list.set ball_simps by metis
qed

lemma starts_with_udp: "starts_with ''udp'' s \<longleftrightarrow> take 3 s = ''udp''"
  by (simp add: starts_with_def eval_nat_numeral)

lemma select_key_order:
  assumes "select_key a = Inr k" "select_key b = Inr l"
  shows "k \<le> l \<longleftrightarrow> not_worse a b"
proof -
  have key: "k = (if home_node n then 0 else 1, if was_measured n then 0 else 1,
      if was_measured n then field_number n ''egress_latency_ms'' else server_delay n,
      if over_udp n then 0 else 1, server_delay n, - field_number n ''score'')" if "select_key n = Inr k" for n k
    using that
    by (auto simp: select_key_def node_quality_key_def err_bind_Inr Let_def residential_first_def node_type_def normalize_home
        home_node_def was_measured_def field_number_def server_delay_def over_udp_def starts_with_udp)
  show ?thesis unfolding key [OF assms(1)] key [OF assms(2)] not_worse_def less_eq_prod_simp
    by (auto simp: Let_def)
qed
lemma sorted_by_Inl: "sorted_by f xs = Inl e \<Longrightarrow> \<exists>x \<in> set xs. \<not> (\<exists>k. f x = Inr k)"
proof -
  have "with_keys f xs = Inl e \<Longrightarrow> \<exists>x \<in> set xs. \<not> (\<exists>k. f x = Inr k)" for xs
    by (induction xs) (auto simp: err_bind_Inl)
  then show "sorted_by f xs = Inl e \<Longrightarrow> \<exists>x \<in> set xs. \<not> (\<exists>k. f x = Inr k)"
    by (auto simp: sorted_by_def err_bind_Inl)
qed

lemma free_node_iff:
  "free_node su held n \<longleftrightarrow> dgetN n ''probe_status'' = PStr ''available'' \<and> id_text (dgetN n ''id'') \<notin> held
     \<and> candidate_ip_identity n \<notin> candidate_ip_identities (su_nodes su) held
     \<and> \<not> (\<exists>until. (id_text (dgetN n ''id''), until) \<in> set (su_bad su) \<and> su_now su < until)"
  by (auto simp: free_node_def is_available_def cooling_ids_def image_iff)

lemma wanted_pool:
  assumes "kind = [] \<or> normalize_proxy_type (PStr kind) \<noteq> []"
  shows "filter (\<lambda>n. free_node su held n \<and> passes_filter (slot_filter_of country ro isp kind) n) ns
    = filter (wanted_by_slot su held country ro isp kind) ns"
  by (rule filter_cong) (simp_all add: free_node_iff passes_filter_wanted [OF assms] wanted_by_slot_def)

lemma wanted_no_type:
  assumes "kind \<noteq> []" "normalize_proxy_type (PStr kind) = []"
  shows "\<not> wanted_by_slot su held country ro isp kind n"
  using assms by (auto simp: wanted_by_slot_def type_wanted_def Let_def normalize_unknown)

section \<open>Properties\<close>

text \<open>C21. A slot gets the best nodes it may use: the selection is exactly the first need nodes, by
  residential first and then quality, of those that are available, not held by another exit by
  identifier or exit address, not cooling, and of a known type, country and provider the slot asks
  for. Filters and order are restated here over the raw fields of a node. The only way to raise is a
  wanted node with a field that int() cannot read.\<close>

theorem select_slot_nodes_correct:
  "let wanted = filter (wanted_by_slot su (used \<union> main_reserved_candidate_ids su) country ro isp kind) (su_nodes su) in
   case select_slot_nodes su used need country ro isp kind of
     Inr picks \<Rightarrow> if need = 0 then picks = []
       else (\<exists>rest. mset (picks @ rest) = mset wanted \<and> sorted_wrt not_worse (picks @ rest)
               \<and> (length picks = need \<or> rest = [] \<and> length picks < need))
   | Inl e \<Rightarrow> need \<noteq> 0 \<and> (\<exists>n. n \<in> set wanted \<and> \<not> numbers_readable n)"
proof (cases "need = 0 \<or> kind \<noteq> [] \<and> normalize_proxy_type (PStr kind) = []")
  case True
  then have "select_slot_nodes su used need country ro isp kind = Inr []"
    by (auto simp: select_slot_nodes_def slot_filter_of_def)
  then show ?thesis using True wanted_no_type [of kind] by (auto simp: Let_def)
next
  case False
  define W where "W = filter (wanted_by_slot su (used \<union> main_reserved_candidate_ids su) country ro isp kind) (su_nodes su)"
  have kind: "kind = [] \<or> normalize_proxy_type (PStr kind) \<noteq> []" using False by blast
  have sel: "select_slot_nodes su used need country ro isp kind = err_bind (sorted_by select_key W) (\<lambda>pool. Inr (take need pool))"
    unfolding W_def wanted_pool [OF kind, symmetric] select_slot_nodes_def Let_def using False kind by (auto simp: slot_filter_of_def)
  show ?thesis
  proof (cases "sorted_by select_key W")
    case (Inl e)
    have "\<exists>n. n \<in> set W \<and> \<not> numbers_readable n" using sorted_by_Inl [OF Inl] unfolding select_key_Inr by blast
    with False show ?thesis unfolding sel W_def [symmetric] Let_def Inl by simp
  next
    case (Inr pool)
    have "sorted_wrt not_worse pool"
      by (rule sorted_wrt_mono_rel [OF _ sorted_by_Inr(2) [OF Inr]]) (use select_key_order in blast)
    with sorted_by_Inr(1) [OF Inr] have "mset (take need pool @ drop need pool) = mset W"
      "sorted_wrt not_worse (take need pool @ drop need pool)" by simp_all
    then have "\<exists>rest. mset (take need pool @ rest) = mset W \<and> sorted_wrt not_worse (take need pool @ rest)
        \<and> (length (take need pool) = need \<or> rest = [] \<and> length (take need pool) < need)"
      by (intro exI [of _ "drop need pool"]) auto
    with False show ?thesis unfolding sel W_def [symmetric] Let_def Inr by simp
  qed
qed

definition stock_node :: "string \<Rightarrow> string \<Rightarrow> string \<Rightarrow> string \<Rightarrow> int \<Rightarrow> pydict" where
  "stock_node i a country kind ping = [(''id'', PStr i), (''ip'', PStr a), (''country_short'', PStr country),
     (''ip_type'', PStr kind), (''latency_ms'', PInt ping), (''probe_status'', PStr ''available'')]"

definition stock_example :: stock where
  "stock_example = \<lparr>su_nodes = [stock_node ''dc'' ''1.1.1.1'' ''JP'' ''hosting'' 5, stock_node ''home'' ''2.2.2.2'' ''JP'' ''residential'' 50,
       stock_node ''main'' ''3.3.3.3'' ''JP'' ''residential'' 1, stock_node ''twin'' ''3.3.3.3'' ''JP'' ''residential'' 2],
     su_cfg = [(''exit_slot_pin_map'', PDict [(''1'', PStr ''twin'')])], su_active = [0, 1], su_saved = PNone,
     su_slots = [], su_standbys = [(1, [(''node_id'', PStr ''dc'')])],
     su_pending = {}, su_coordinator = {}, su_main = ''main'', su_bad = [], su_now = 0\<rparr>"

lemma select_slot_nodes_correct_witness:
  "\<exists>rest. mset (stock_node ''home'' ''2.2.2.2'' ''JP'' ''residential'' 50 # rest)
       = mset (filter (wanted_by_slot stock_example ({} \<union> main_reserved_candidate_ids stock_example) ''JP'' False [] []) (su_nodes stock_example))
     \<and> rest = []"
proof -
  have "select_slot_nodes stock_example {} 2 ''JP'' False [] [] = Inr [stock_node ''home'' ''2.2.2.2'' ''JP'' ''residential'' 50]"
    by code_simp
  with select_slot_nodes_correct [of stock_example "{}" "''JP''" False "[]" "[]" 2] show ?thesis by (auto simp: Let_def)
qed

text \<open>C26. The node picked for a slot is available and held by nobody else, and its reservation
  succeeds as long as nothing else happens; the one exception is a pinned or formerly used node,
  which is picked by its identifier alone and may share its exit address with another exit.\<close>

theorem pick_slot_node_reservable:
  assumes "pick_slot_node su limit i used hints = Inr (Some n, hints')" "tidy_stock su"
    "reserved_slot_candidate_ids (Some i) su = Inr R" "U = main_reserved_candidate_ids su \<union> R"
  shows "n \<in> set (su_nodes su) \<and> is_available n \<and> node_id n \<notin> used \<union> U
    \<and> (reserve_candidate (su_nodes su) (node_id n) U (su_pending su) = (True, insert (node_id n) (su_pending su))
       \<or> (node_id n = entry_of (pins su) i \<or> persisted_id i (saved_rows (su_saved su)) = Inr (node_id n))
         \<and> candidate_ip_identity n \<in> candidate_ip_identities (su_nodes su) U)"
proof -
  let ?used = "used \<union> R \<union> main_reserved_candidate_ids su"
  have sU: "stripped U" using stripped_main_reserved stripped_reserved assms by simp
  have pU: "su_pending su \<subseteq> U" by (auto simp: assms(4) main_reserved_candidate_ids_def)
  have ids: "dgetN m ''id'' = PStr (node_id m)" if "m \<in> set (su_nodes su)" for m
    using assms(2) that by (simp add: tidy_stock_def)
  have wanted: "n \<in> set (su_nodes su) \<and> is_available n \<and> node_id n \<notin> used \<union> U \<and> node_id n = nid"
    if "wanted_node su nid ?used = Some n" for nid
    using that ids by (auto simp: wanted_node_def available_with_id_def find_Some_iff assms(4) split: if_splits dest!: nth_mem)
  from assms(1,3) consider (pin) "wanted_node su (entry_of (pins su) i) ?used = Some n"
    | (old) p where "persisted_id i (saved_rows (su_saved su)) = Inr p" "wanted_node su p ?used = Some n"
    | (auto) "automatic_pick su limit i ?used hints = Inr (Some n, hints')"
    by (auto simp: pick_slot_node_def err_bind_Inr Let_def split: option.splits)
  then show ?thesis
  proof cases
    case pin
    with wanted reservable [OF assms(2) _ sU pU] show ?thesis by blast
  next
    case old
    with wanted reservable [OF assms(2) _ sU pU] show ?thesis by blast
  next
    case auto
    then obtain need picks where "slot_choice su i ?used need = Inr picks" "n \<in> set picks" by (rule automatic_pick_mem)
    then have "n \<in> set (su_nodes su)" "free_node su (?used \<union> main_reserved_candidate_ids su) n"
      unfolding slot_choice_def Let_def using select_slot_nodes_mem by blast+
    moreover have "candidate_ip_identities (su_nodes su) U \<subseteq> candidate_ip_identities (su_nodes su) (?used \<union> main_reserved_candidate_ids su)"
      by (rule candidate_ip_identities_mono) (auto simp: assms(4))
    ultimately show ?thesis
      using ids reservable [OF assms(2) _ sU pU, of n] by (auto simp: free_node_def assms(4) id_text_def)
  qed
qed

lemma pick_slot_node_reservable_witness:
  "\<exists>n R hints'. pick_slot_node stock_example 16 1 {} [] = Inr (Some n, hints') \<and> node_id n = ''twin''
     \<and> reserved_slot_candidate_ids (Some 1) stock_example = Inr R
     \<and> fst (reserve_candidate (su_nodes stock_example) (node_id n) (main_reserved_candidate_ids stock_example \<union> R) {}) = False
     \<and> candidate_ip_identity n \<in> candidate_ip_identities (su_nodes stock_example) (main_reserved_candidate_ids stock_example \<union> R)"
proof -
  let ?n = "stock_node ''twin'' ''3.3.3.3'' ''JP'' ''residential'' 2"
  have p: "pick_slot_node stock_example 16 1 {} [] = Inr (Some ?n, [])" by code_simp
  have t: "tidy_stock stock_example" by code_simp
  have r: "reserved_slot_candidate_ids (Some 1) stock_example = Inr {''dc''}" by code_simp
  have f: "fst (reserve_candidate (su_nodes stock_example) (node_id ?n) (main_reserved_candidate_ids stock_example \<union> {''dc''})
      (su_pending stock_example)) = False" by code_simp
  have i: "node_id ?n = ''twin''" by code_simp
  have e: "su_pending stock_example = {}" by (simp add: stock_example_def)
  from pick_slot_node_reservable [OF p t r refl] f have
    "candidate_ip_identity ?n \<in> candidate_ip_identities (su_nodes stock_example) (main_reserved_candidate_ids stock_example \<union> {''dc''})"
    by auto
  with p r f i e show ?thesis by (intro exI [of _ ?n] exI [of _ "{''dc''}"] exI [of _ "[]"]) simp
qed

text \<open>C37. The shortcut that lets an empty slot take over its own standby never applies: the standby
  that holds the node also reserves it, and the selection excludes what any standby reserves, so
  no standby is ever eligible.\<close>

theorem initial_standby_never_eligible:
  assumes "initial_standby_eligible su limit slot = Inr answer"
    and "py_strip (standby_node su (slot + 1)) = standby_node su (slot + 1)"
  shows "\<not> answer"
proof
  assume a: answer
  let ?nid = "standby_node su (slot + 1)"
  from assms(1) a obtain R picks n where h: "?nid \<noteq> []" "slot_choice su slot (R - {?nid}) (many limit) = Inr picks"
    "n \<in> set picks" "dgetN n ''id'' = PStr ?nid"
    by (auto simp: initial_standby_eligible_def Let_def err_bind_Inr list_ex_iff split: if_splits)
  then have "free_node su (R - {?nid} \<union> main_reserved_candidate_ids su) n"
    unfolding slot_choice_def Let_def using select_slot_nodes_mem by blast
  then have free: "?nid \<notin> main_reserved_candidate_ids su" using h(4) by (simp add: free_node_def id_text_def)
  from h(1) obtain runtime where r: "map_of (su_standbys su) (slot + 1) = Some runtime" "?nid = str_or_empty (dgetN runtime ''node_id'')"
    by (auto simp: standby_node_def split: option.splits)
  then have "?nid = runtime_id runtime" using assms(2) by (simp add: runtime_id_def)
  moreover have "(slot + 1, runtime) \<in> set (su_standbys su)" using r(1) by (rule map_of_SomeD)
  ultimately have "?nid \<in> dedicated_standby_candidate_ids None su"
    using h(1) unfolding dedicated_standby_candidate_ids_def by force
  with free show False by (simp add: main_reserved_candidate_ids_def)
qed

lemma initial_standby_never_eligible_witness:
  "\<exists>answer. initial_standby_eligible stock_example 16 0 = Inr answer \<and> standby_node stock_example 1 = ''dc'' \<and> \<not> answer"
proof -
  have "(\<lambda>r. case r of Inr b \<Rightarrow> True | Inl e \<Rightarrow> False) (initial_standby_eligible stock_example 16 0)" by code_simp
  then obtain answer where e: "initial_standby_eligible stock_example 16 0 = Inr answer" by (auto split: sum.splits)
  have s: "standby_node stock_example 1 = ''dc''" "py_strip ''dc'' = ''dc''" by code_simp+
  have "\<not> answer" by (rule initial_standby_never_eligible [OF e]) (simp add: s(1) s(2))
  with s e show ?thesis by blast
qed

end
