(* ===== verification/Runtime_Locks.thy ===== *)
theory Runtime_Locks
  imports Slot_Config
begin

text \<open>
  The locks around changes of the running tunnels. Two re-entrant locks (recovery and mutation) form
  the runtime lease; the boundary of a switch adds the maintenance lock and the lock of the slot
  supervisor, which are not re-entrant. No acquisition waits. Every acquisition and every release
  is a step of its own, and the steps of all threads interleave; a thread has a stack of frames, one
  for each acquisition it is inside of, since guarded functions call guarded functions.
\<close>

section \<open>Locks\<close>

type_synonym thread = nat

type_synonym rlock = "(thread \<times> nat) option"

definition rlock_depth :: "rlock \<Rightarrow> thread \<Rightarrow> nat" where
  "rlock_depth l t = (case l of None \<Rightarrow> 0 | Some (h, n) \<Rightarrow> if h = t then n else 0)"

definition rlock_acquire :: "thread \<Rightarrow> rlock \<Rightarrow> rlock option" where
  "rlock_acquire t l = (case l of None \<Rightarrow> Some (Some (t, 1))
     | Some (h, n) \<Rightarrow> if h = t then Some (Some (t, n + 1)) else None)"

definition rlock_release :: "thread \<Rightarrow> rlock \<Rightarrow> rlock option" where
  "rlock_release t l = (case l of Some (h, n) \<Rightarrow>
       if h = t then Some (if n \<le> 1 then None else Some (t, n - 1)) else None
     | None \<Rightarrow> None)"

section \<open>Permissions\<close>

text \<open>Which of the coordinator's predicates decides: an action of the switch itself, a background
  repair, or any other change.\<close>

datatype access = Assignment_Action | Main_Repair | Foreground

record permissions =
  assignment_action_allowed :: bool
  background_mutation_allowed :: bool
  main_mutation_allowed :: bool
  refresh_running :: bool

definition access_allowed :: "permissions \<Rightarrow> access \<Rightarrow> bool \<Rightarrow> bool" where
  "access_allowed p a refresh_authorized =
     ((case a of Assignment_Action \<Rightarrow> assignment_action_allowed p
         | Main_Repair \<Rightarrow> background_mutation_allowed p
         | Foreground \<Rightarrow> main_mutation_allowed p)
      \<and> (\<not> refresh_running p \<or> refresh_authorized))"

definition guard_access :: "bool \<Rightarrow> bool \<Rightarrow> access" where
  "guard_access authorized allow_main_repair =
     (if authorized then Assignment_Action else if allow_main_repair then Main_Repair else Foreground)"

definition slot_change_allowed :: "permissions \<Rightarrow> bool \<Rightarrow> bool" where
  "slot_change_allowed p refresh_authorized =
     slot_guard_allows (assignment_action_allowed p) (refresh_running p) refresh_authorized"

section \<open>Threads\<close>

text \<open>Where a thread is inside of one acquisition: on its way in, inside, or on its way out.
  \<open>In_Recovery\<close> is \<open>repair_main_once\<close>, which takes the recovery lock before the lease.
  \<open>In_Refresh_Worker\<close> is \<open>_country_refresh_worker\<close>: it gets the maintenance lock from the
  thread that started it, or is called by one that has it, and at its end releases the lock whoever
  holds it (\<open>worker_ended\<close>).\<close>

datatype frame =
    Wants_Mutation access bool
  | Wants_Permission access bool
  | In_Runtime
  | Wants_Maintenance
  | Wants_Supervise
  | In_Boundary
  | Drops_Maintenance
  | Drops_Mutation
  | Drops_Recovery
  | In_Lease_Call
  | In_Maintenance
  | In_Supervise
  | In_Recovery
  | In_Refresh_Worker

fun holds_recovery :: "frame \<Rightarrow> bool" where
  "holds_recovery In_Lease_Call = False"
| "holds_recovery In_Maintenance = False"
| "holds_recovery In_Supervise = False"
| "holds_recovery In_Refresh_Worker = False"
| "holds_recovery _ = True"

fun holds_mutation :: "frame \<Rightarrow> bool" where
  "holds_mutation (Wants_Mutation a b) = False"
| "holds_mutation Drops_Recovery = False"
| "holds_mutation In_Maintenance = False"
| "holds_mutation In_Supervise = False"
| "holds_mutation In_Recovery = False"
| "holds_mutation In_Refresh_Worker = False"
| "holds_mutation _ = True"

definition holds_maintenance :: "frame \<Rightarrow> bool" where
  "holds_maintenance f = (f \<in> {Wants_Supervise, In_Boundary, Drops_Maintenance, In_Maintenance, In_Refresh_Worker})"

definition holds_supervise :: "frame \<Rightarrow> bool" where
  "holds_supervise f = (f \<in> {In_Boundary, In_Supervise})"

record locks =
  frames :: "thread \<Rightarrow> frame list"
  recovery :: rlock
  mutation :: rlock
  maintenance :: "thread option"
  supervise :: "thread option"
  granted :: permissions
  refresh_threads :: "thread set"

definition put_frames :: "thread \<Rightarrow> frame list \<Rightarrow> locks \<Rightarrow> locks" where
  "put_frames t fs s = s\<lparr>frames := (frames s)(t := fs)\<rparr>"

text \<open>A frame from which the thread may begin something else: no acquisition is half done.\<close>

definition settled_top :: "frame list \<Rightarrow> bool" where
  "settled_top fs = (case fs of [] \<Rightarrow> True
     | f # _ \<Rightarrow> f \<in> {In_Runtime, In_Boundary, In_Lease_Call, In_Maintenance, In_Supervise, In_Recovery, In_Refresh_Worker})"

inductive lock_step :: "locks \<Rightarrow> locks \<Rightarrow> bool" where
  begin_runtime: "settled_top (frames s t) \<Longrightarrow> rlock_acquire t (recovery s) = Some l
    \<Longrightarrow> lock_step s (put_frames t (Wants_Mutation a boundary # frames s t) (s\<lparr>recovery := l\<rparr>))"
| mutation_taken: "frames s t = Wants_Mutation a boundary # fs \<Longrightarrow> rlock_acquire t (mutation s) = Some l
    \<Longrightarrow> lock_step s (put_frames t (Wants_Permission a boundary # fs) (s\<lparr>mutation := l\<rparr>))"
| mutation_busy: "frames s t = Wants_Mutation a boundary # fs \<Longrightarrow> rlock_acquire t (mutation s) = None
    \<Longrightarrow> lock_step s (put_frames t (Drops_Recovery # fs) s)"
| permitted: "frames s t = Wants_Permission a boundary # fs
    \<Longrightarrow> access_allowed (granted s) a (t \<in> refresh_threads s)
    \<Longrightarrow> lock_step s (put_frames t ((if boundary then Wants_Maintenance else In_Runtime) # fs) s)"
| refused: "frames s t = Wants_Permission a boundary # fs
    \<Longrightarrow> \<not> access_allowed (granted s) a (t \<in> refresh_threads s)
    \<Longrightarrow> lock_step s (put_frames t (Drops_Mutation # fs) s)"
| maintenance_taken: "frames s t = Wants_Maintenance # fs \<Longrightarrow> maintenance s = None
    \<Longrightarrow> lock_step s (put_frames t (Wants_Supervise # fs) (s\<lparr>maintenance := Some t\<rparr>))"
| maintenance_busy: "frames s t = Wants_Maintenance # fs \<Longrightarrow> maintenance s \<noteq> None
    \<Longrightarrow> lock_step s (put_frames t (Drops_Mutation # fs) s)"
| supervise_taken: "frames s t = Wants_Supervise # fs \<Longrightarrow> supervise s = None
    \<Longrightarrow> lock_step s (put_frames t (In_Boundary # fs) (s\<lparr>supervise := Some t\<rparr>))"
| supervise_busy: "frames s t = Wants_Supervise # fs \<Longrightarrow> supervise s \<noteq> None
    \<Longrightarrow> lock_step s (put_frames t (Drops_Maintenance # fs) s)"
| boundary_left: "frames s t = In_Boundary # fs
    \<Longrightarrow> lock_step s (put_frames t (Drops_Maintenance # fs) (s\<lparr>supervise := None\<rparr>))"
| maintenance_dropped: "frames s t = Drops_Maintenance # fs
    \<Longrightarrow> lock_step s (put_frames t (Drops_Mutation # fs) (s\<lparr>maintenance := None\<rparr>))"
| runtime_left: "frames s t = In_Runtime # fs \<Longrightarrow> lock_step s (put_frames t (Drops_Mutation # fs) s)"
| mutation_dropped: "frames s t = Drops_Mutation # fs \<Longrightarrow> rlock_release t (mutation s) = Some l
    \<Longrightarrow> lock_step s (put_frames t (Drops_Recovery # fs) (s\<lparr>mutation := l\<rparr>))"
| recovery_dropped: "frames s t = Drops_Recovery # fs \<Longrightarrow> rlock_release t (recovery s) = Some l
    \<Longrightarrow> lock_step s (put_frames t fs (s\<lparr>recovery := l\<rparr>))"
| lease_begun: "settled_top (frames s t) \<Longrightarrow> rlock_acquire t (mutation s) = Some l
    \<Longrightarrow> lock_step s (put_frames t (In_Lease_Call # frames s t) (s\<lparr>mutation := l\<rparr>))"
| lease_ended: "frames s t = In_Lease_Call # fs \<Longrightarrow> rlock_release t (mutation s) = Some l
    \<Longrightarrow> lock_step s (put_frames t fs (s\<lparr>mutation := l\<rparr>))"
| maintenance_begun: "settled_top (frames s t) \<Longrightarrow> maintenance s = None
    \<Longrightarrow> lock_step s (put_frames t (In_Maintenance # frames s t) (s\<lparr>maintenance := Some t\<rparr>))"
| maintenance_ended: "frames s t = In_Maintenance # fs
    \<Longrightarrow> lock_step s (put_frames t fs (s\<lparr>maintenance := None\<rparr>))"
| maintenance_handed: "frames s t = In_Maintenance # fs \<Longrightarrow> frames s u = [] \<Longrightarrow> t \<noteq> u
    \<Longrightarrow> lock_step s (put_frames u [In_Refresh_Worker] (put_frames t fs (s\<lparr>maintenance := Some u\<rparr>)))"
| worker_called: "frames s t = In_Maintenance # fs \<Longrightarrow> lock_step s (put_frames t (In_Refresh_Worker # fs) s)"
| worker_ended: "frames s t = In_Refresh_Worker # fs
    \<Longrightarrow> lock_step s (put_frames t fs (s\<lparr>maintenance := None\<rparr>))"
| recovery_begun: "settled_top (frames s t) \<Longrightarrow> rlock_acquire t (recovery s) = Some l
    \<Longrightarrow> lock_step s (put_frames t (In_Recovery # frames s t) (s\<lparr>recovery := l\<rparr>))"
| recovery_ended: "frames s t = In_Recovery # fs \<Longrightarrow> rlock_release t (recovery s) = Some l
    \<Longrightarrow> lock_step s (put_frames t fs (s\<lparr>recovery := l\<rparr>))"
| supervise_begun: "settled_top (frames s t) \<Longrightarrow> supervise s = None
    \<Longrightarrow> lock_step s (put_frames t (In_Supervise # frames s t) (s\<lparr>supervise := Some t\<rparr>))"
| supervise_ended: "frames s t = In_Supervise # fs
    \<Longrightarrow> lock_step s (put_frames t fs (s\<lparr>supervise := None\<rparr>))"
| permissions_changed: "lock_step s (s\<lparr>granted := p, refresh_threads := ts\<rparr>)"

definition idle_locks :: "permissions \<Rightarrow> locks" where
  "idle_locks p = \<lparr>frames = (\<lambda>_. []), recovery = None, mutation = None, maintenance = None, supervise = None,
     granted = p, refresh_threads = {}\<rparr>"

inductive reached :: "locks \<Rightarrow> bool" where
  start: "reached (idle_locks p)"
| step: "reached s \<Longrightarrow> lock_step s s' \<Longrightarrow> reached s'"

section \<open>The invariant\<close>

text \<open>Every lock is held exactly as often as the frames say.\<close>

definition depth :: "(frame \<Rightarrow> bool) \<Rightarrow> frame list \<Rightarrow> nat" where
  "depth P fs = length (filter P fs)"

lemma depth_simps [simp]: "depth P [] = 0" "depth P (f # fs) = (if P f then Suc (depth P fs) else depth P fs)"
  by (simp_all add: depth_def)

definition plain_depth :: "thread option \<Rightarrow> thread \<Rightarrow> nat" where
  "plain_depth l t = (if l = Some t then 1 else 0)"

definition rlock_ok :: "(frame \<Rightarrow> bool) \<Rightarrow> rlock \<Rightarrow> (thread \<Rightarrow> frame list) \<Rightarrow> bool" where
  "rlock_ok P l fr = ((\<forall>t. rlock_depth l t = depth P (fr t)) \<and> (\<forall>h n. l = Some (h, n) \<longrightarrow> 0 < n))"

definition plain_ok :: "(frame \<Rightarrow> bool) \<Rightarrow> thread option \<Rightarrow> (thread \<Rightarrow> frame list) \<Rightarrow> bool" where
  "plain_ok P l fr = (\<forall>t. plain_depth l t = depth P (fr t))"

definition lock_inv :: "locks \<Rightarrow> bool" where
  "lock_inv s = (rlock_ok holds_recovery (recovery s) (frames s) \<and> rlock_ok holds_mutation (mutation s) (frames s)
     \<and> plain_ok holds_maintenance (maintenance s) (frames s) \<and> plain_ok holds_supervise (supervise s) (frames s))"

lemma rlock_ok_keep: "rlock_ok P l fr \<Longrightarrow> depth P fs = depth P (fr t) \<Longrightarrow> rlock_ok P l (fr(t := fs))"
  by (simp add: rlock_ok_def)

lemma rlock_ok_acquire:
  assumes "rlock_ok P l fr" "rlock_acquire t l = Some l'" "depth P fs = Suc (depth P (fr t))"
  shows "rlock_ok P l' (fr(t := fs))"
proof -
  have d: "rlock_depth l u = depth P (fr u)" for u using assms(1) by (simp add: rlock_ok_def)
  from assms(2) have l: "l' = Some (t, Suc (rlock_depth l t))" "l = None \<or> (\<exists>n. l = Some (t, n))"
    by (auto simp: rlock_acquire_def rlock_depth_def split: option.splits if_splits)
  then have "rlock_depth l' u = depth P ((fr(t := fs)) u)" for u
    using d [of u] d [of t] assms(3) by (auto simp: rlock_depth_def)
  with l show ?thesis by (auto simp: rlock_ok_def)
qed

lemma rlock_ok_release:
  assumes "rlock_ok P l fr" "rlock_release t l = Some l'" "depth P (fr t) = Suc (depth P fs)"
  shows "rlock_ok P l' (fr(t := fs))"
proof -
  from assms(2) obtain n where l: "l = Some (t, n)" "l' = (if n \<le> 1 then None else Some (t, n - 1))"
    by (auto simp: rlock_release_def split: option.splits if_splits)
  have d: "rlock_depth l u = depth P (fr u)" for u using assms(1) by (simp add: rlock_ok_def)
  have "n = Suc (depth P fs)" using d [of t] assms(3) l(1) by (simp add: rlock_depth_def)
  then have "rlock_depth l' u = depth P ((fr(t := fs)) u)" for u
    using d [of u] l by (auto simp: rlock_depth_def)
  with l show ?thesis by (auto simp: rlock_ok_def)
qed

lemma plain_ok_keep: "plain_ok P l fr \<Longrightarrow> depth P fs = depth P (fr t) \<Longrightarrow> plain_ok P l (fr(t := fs))"
  by (simp add: plain_ok_def)

lemma plain_ok_take: "plain_ok P None fr \<Longrightarrow> depth P fs = Suc (depth P (fr t)) \<Longrightarrow> plain_ok P (Some t) (fr(t := fs))"
  by (simp add: plain_ok_def plain_depth_def)

lemma plain_ok_drop:
  assumes "plain_ok P l fr" "depth P (fr t) = Suc (depth P fs)"
  shows "plain_ok P None (fr(t := fs))"
proof -
  have d: "plain_depth l u = depth P (fr u)" for u using assms(1) by (simp add: plain_ok_def)
  from d [of t] assms(2) have l: "l = Some t" "depth P fs = 0" by (auto simp: plain_depth_def split: if_splits)
  have "depth P (fr u) = 0" if "u \<noteq> t" for u using d [of u] l that by (simp add: plain_depth_def)
  with l show ?thesis by (simp add: plain_ok_def plain_depth_def)
qed

lemmas lock_ok_rules = rlock_ok_keep rlock_ok_acquire rlock_ok_release plain_ok_keep plain_ok_take plain_ok_drop

lemma locks_put [simp]:
  "frames (put_frames t fs s) = (frames s)(t := fs)" "recovery (put_frames t fs s) = recovery s"
  "mutation (put_frames t fs s) = mutation s" "maintenance (put_frames t fs s) = maintenance s"
  "supervise (put_frames t fs s) = supervise s"
  by (simp_all add: put_frames_def)

lemma lock_inv_step:
  assumes "lock_step s s'" "lock_inv s"
  shows "lock_inv s'"
proof -
  have i: "rlock_ok holds_recovery (recovery s) (frames s)" "rlock_ok holds_mutation (mutation s) (frames s)"
    "plain_ok holds_maintenance (maintenance s) (frames s)" "plain_ok holds_supervise (supervise s) (frames s)"
    using assms(2) by (simp_all add: lock_inv_def)
  show ?thesis
    using assms(1)
  proof cases
    case (maintenance_handed t fs u)
    have "plain_ok holds_maintenance None ((frames s)(t := fs))"
      using i(3) maintenance_handed by (intro plain_ok_drop) (simp_all add: holds_maintenance_def)
    with maintenance_handed i show ?thesis unfolding lock_inv_def
      by (simp add: rlock_ok_keep plain_ok_keep plain_ok_take holds_maintenance_def holds_supervise_def)
  next
    case (maintenance_taken t fs)
    with i show ?thesis unfolding lock_inv_def
      by (simp add: rlock_ok_keep plain_ok_keep plain_ok_take holds_maintenance_def holds_supervise_def)
  next
    case (supervise_taken t fs)
    with i show ?thesis unfolding lock_inv_def
      by (simp add: rlock_ok_keep plain_ok_keep plain_ok_take holds_maintenance_def holds_supervise_def)
  next
    case (maintenance_begun t)
    with i show ?thesis unfolding lock_inv_def
      by (simp add: rlock_ok_keep plain_ok_keep plain_ok_take holds_maintenance_def holds_supervise_def)
  next
    case (supervise_begun t)
    with i show ?thesis unfolding lock_inv_def
      by (simp add: rlock_ok_keep plain_ok_keep plain_ok_take holds_maintenance_def holds_supervise_def)
  qed (insert i, auto simp: lock_inv_def holds_maintenance_def holds_supervise_def
      intro: rlock_ok_keep rlock_ok_acquire rlock_ok_release plain_ok_keep plain_ok_drop)
qed


lemma lock_inv_reached: "reached s \<Longrightarrow> lock_inv s"
proof (induction rule: reached.induct)
  case (start p)
  show ?case by (simp add: idle_locks_def lock_inv_def rlock_ok_def plain_ok_def rlock_depth_def plain_depth_def)
next
  case (step s s')
  then show ?case by (simp add: lock_inv_step)
qed

section \<open>Consequences\<close>

lemma depth_positive: "f \<in> set fs \<Longrightarrow> P f \<Longrightarrow> 0 < depth P fs"
  by (auto simp: depth_def filter_empty_conv)

lemma rlock_one_holder:
  assumes "rlock_ok P l fr" "f \<in> set (fr t)" "P f" "g \<in> set (fr u)" "P g"
  shows "t = u"
proof -
  have "0 < rlock_depth l t" "0 < rlock_depth l u"
    using assms depth_positive by (simp_all add: rlock_ok_def)
  then show ?thesis by (auto simp: rlock_depth_def split: option.splits if_splits)
qed

lemma plain_one_holder:
  assumes "plain_ok P l fr" "f \<in> set (fr t)" "P f" "g \<in> set (fr u)" "P g"
  shows "t = u"
proof -
  have "0 < plain_depth l t" "0 < plain_depth l u"
    using assms depth_positive by (simp_all add: plain_ok_def)
  then show ?thesis by (auto simp: plain_depth_def split: if_splits)
qed

lemma plain_single:
  assumes "plain_ok P l fr"
  shows "depth P (fr t) \<le> 1"
  using assms by (simp add: plain_ok_def plain_depth_def split: if_splits) (metis One_nat_def le_refl zero_le)

lemma rlock_free: "rlock_ok P l fr \<Longrightarrow> \<forall>t. depth P (fr t) = 0 \<Longrightarrow> l = None"
  by (cases l) (auto simp: rlock_ok_def rlock_depth_def split: if_splits)

lemma plain_free: "plain_ok P l fr \<Longrightarrow> \<forall>t. depth P (fr t) = 0 \<Longrightarrow> l = None"
  by (cases l) (auto simp: plain_ok_def plain_depth_def split: if_splits)

definition changes_tunnels :: "frame \<Rightarrow> bool" where
  "changes_tunnels f = (f \<in> {In_Runtime, In_Boundary})"

section \<open>Properties\<close>

text \<open>C13. The locks are exclusive and never lost, in every interleaving of the threads' acquisitions
  and releases. Each of the four locks is held exactly as often as the calls that a thread is inside of
  say, and by one thread at most; so two threads are never both inside guarded functions, while
  a thread is inside the boundary of a switch no other one is inside a guarded function, a
  lease call, a repair, the maintenance, a refresh or the slot supervisor, and the boundary is never
  nested. A thread that has left everything holds nothing, whatever acquisitions failed half way; the
  worker of a refresh, which releases the maintenance lock whoever holds it, only releases its own.\<close>

theorem runtime_lease_exclusive:
  assumes "reached s"
  shows "rlock_depth (recovery s) t = depth holds_recovery (frames s t)
    \<and> rlock_depth (mutation s) t = depth holds_mutation (frames s t)
    \<and> plain_depth (maintenance s) t = depth holds_maintenance (frames s t)
    \<and> plain_depth (supervise s) t = depth holds_supervise (frames s t)
    \<and> (\<forall>P \<in> {holds_recovery, holds_mutation, holds_maintenance, holds_supervise}.
         f \<in> set (frames s t) \<and> P f \<and> g \<in> set (frames s u) \<and> P g \<longrightarrow> t = u)
    \<and> (f \<in> set (frames s t) \<and> changes_tunnels f \<and> g \<in> set (frames s u) \<and> changes_tunnels g \<longrightarrow> t = u)
    \<and> (In_Boundary \<in> set (frames s t) \<and> (changes_tunnels g \<or> g \<in> {In_Lease_Call, In_Recovery, In_Maintenance, In_Refresh_Worker, In_Supervise})
        \<and> g \<in> set (frames s u) \<longrightarrow> t = u)
    \<and> length (filter (\<lambda>f. f = In_Boundary) (frames s t)) \<le> 1
    \<and> (frames s t = [] \<longrightarrow> rlock_depth (recovery s) t = 0 \<and> rlock_depth (mutation s) t = 0
        \<and> maintenance s \<noteq> Some t \<and> supervise s \<noteq> Some t)
    \<and> (In_Refresh_Worker \<in> set (frames s t) \<longrightarrow> maintenance s = Some t)"
proof -
  have i: "rlock_ok holds_recovery (recovery s) (frames s)" "rlock_ok holds_mutation (mutation s) (frames s)"
    "plain_ok holds_maintenance (maintenance s) (frames s)" "plain_ok holds_supervise (supervise s) (frames s)"
    using lock_inv_reached [OF assms] by (simp_all add: lock_inv_def)
  have counts: "rlock_depth (recovery s) t = depth holds_recovery (frames s t)"
    "rlock_depth (mutation s) t = depth holds_mutation (frames s t)"
    "plain_depth (maintenance s) t = depth holds_maintenance (frames s t)"
    "plain_depth (supervise s) t = depth holds_supervise (frames s t)"
    using i by (simp_all add: rlock_ok_def plain_ok_def)
  have held: "t = u" if "P \<in> {holds_recovery, holds_mutation, holds_maintenance, holds_supervise}"
    "f \<in> set (frames s t)" "P f" "g \<in> set (frames s u)" "P g" for P f g
    using that(1) rlock_one_holder [OF i(1) that(2) _ that(4)] rlock_one_holder [OF i(2) that(2) _ that(4)]
      plain_one_holder [OF i(3) that(2) _ that(4)] plain_one_holder [OF i(4) that(2) _ that(4)] that(3,5) by auto
  have one: "t = u" if "f \<in> set (frames s t)" "changes_tunnels f" "g \<in> set (frames s u)" "changes_tunnels g" for f g
    using held [of holds_mutation f g] that by (auto simp: changes_tunnels_def)
  have two: "t = u" if "In_Boundary \<in> set (frames s t)" "g \<in> set (frames s u)"
    "changes_tunnels g \<or> g \<in> {In_Lease_Call, In_Recovery, In_Maintenance, In_Refresh_Worker, In_Supervise}" for g
    using held [of holds_recovery In_Boundary g] held [of holds_mutation In_Boundary g]
      held [of holds_maintenance In_Boundary g] held [of holds_supervise In_Boundary g] that
    by (auto simp: changes_tunnels_def holds_maintenance_def holds_supervise_def)
  have "length (filter (\<lambda>f. f = In_Boundary) fs) \<le> depth holds_supervise fs" for fs
    unfolding depth_def by (induction fs) (auto simp: holds_supervise_def)
  from this [of "frames s t"]
  have three: "length (filter (\<lambda>f. f = In_Boundary) (frames s t)) \<le> 1"
    using plain_single [OF i(4), of t] by (rule order_trans)
  have left: "frames s t = [] \<longrightarrow> rlock_depth (recovery s) t = 0 \<and> rlock_depth (mutation s) t = 0
      \<and> maintenance s \<noteq> Some t \<and> supervise s \<noteq> Some t"
    using counts by (auto simp: plain_depth_def)
  have worker: "In_Refresh_Worker \<in> set (frames s t) \<longrightarrow> maintenance s = Some t"
    using counts(3) depth_positive [of In_Refresh_Worker "frames s t" holds_maintenance]
    by (auto simp: plain_depth_def holds_maintenance_def split: if_splits)
  show ?thesis using counts held one two three left worker by blast
qed

definition free_permissions :: permissions where
  "free_permissions = \<lparr>assignment_action_allowed = True, background_mutation_allowed = True, main_mutation_allowed = True,
     refresh_running = False\<rparr>"

text \<open>A thread enters the boundary of a switch.\<close>

lemma boundary_reached: "\<exists>s. reached s \<and> frames s 1 = [In_Boundary] \<and> frames s 2 = []"
proof -
  let ?s0 = "idle_locks free_permissions"
  let ?s1 = "put_frames 1 [Wants_Mutation Assignment_Action True] (?s0\<lparr>recovery := Some (1, 1)\<rparr>)"
  let ?s2 = "put_frames 1 [Wants_Permission Assignment_Action True] (?s1\<lparr>mutation := Some (1, 1)\<rparr>)"
  let ?s3 = "put_frames 1 [Wants_Maintenance] ?s2"
  let ?s4 = "put_frames 1 [Wants_Supervise] (?s3\<lparr>maintenance := Some 1\<rparr>)"
  let ?s5 = "put_frames 1 [In_Boundary] (?s4\<lparr>supervise := Some 1\<rparr>)"
  note defs = put_frames_def idle_locks_def rlock_acquire_def settled_top_def free_permissions_def access_allowed_def
  have "lock_step ?s0 ?s1" using lock_step.begin_runtime [of ?s0 1 _ Assignment_Action True] by (simp add: defs)
  moreover have "lock_step ?s1 ?s2" using lock_step.mutation_taken [of ?s1 1 Assignment_Action True "[]"] by (simp add: defs)
  moreover have "lock_step ?s2 ?s3" using lock_step.permitted [of ?s2 1 Assignment_Action True "[]"] by (simp add: defs)
  moreover have "lock_step ?s3 ?s4" using lock_step.maintenance_taken [of ?s3 1 "[]"] by (simp add: defs)
  moreover have "lock_step ?s4 ?s5" using lock_step.supervise_taken [of ?s4 1 "[]"] by (simp add: defs)
  ultimately have "reached ?s5" using reached.intros by metis
  then show ?thesis by (intro exI [of _ ?s5]) (simp add: put_frames_def idle_locks_def)
qed

lemma runtime_lease_exclusive_witness:
  "\<exists>s. reached s \<and> In_Boundary \<in> set (frames s 1) \<and> In_Maintenance \<notin> set (frames s 2)
    \<and> length (filter (\<lambda>f. f = In_Boundary) (frames s 1)) \<le> 1"
proof -
  obtain s where s: "reached s" "frames s 1 = [In_Boundary]" using boundary_reached by blast
  from runtime_lease_exclusive [OF s(1), where t = 1 and u = 2 and f = In_Boundary and g = In_Maintenance] s show ?thesis by (intro exI [of _ s]) auto
qed

end
