(* ===== verification/Exit_Tunnels.thy ===== *)
theory Exit_Tunnels
  imports Standby_Config Refinement
begin

text \<open>
  The tunnels of the manager: the main connection, the slots and the hot standbys, with the device
  and the routing table of each. A standby is promoted by moving its running tunnel to the target;
  the target's old device and table become the standby's resource. Processes are numbers; whether
  a dial, a routing command or a probe succeeds is an argument, free of any condition: the system refuses to open a
  device that a live tunnel holds, the model lets such a dial also succeed, so what is proved here
  covers more than what can happen. A dial is one step. What an operation asks of other
  parts (the list of failed candidates, the stored repairs, the slot configuration, the reaping of
  orphaned processes, the state files) is recorded in order as calls. The paths of configuration
  files and the texts of messages are left out of the rows.
\<close>

section \<open>State\<close>

record exit_env =
  dev_base :: int
  table_base :: int
  port_base :: int
  slots_max :: int

text \<open>A row of \<open>exit_slots\<close> or \<open>dedicated_standbys\<close>: its fields and its process.\<close>

record runtime =
  rt_row :: pydict
  rt_pid :: "nat option"

text \<open>What the operations ask of other parts.\<close>

datatype exit_call =
    Reap_Standby int string
  | Reap_Slot int
  | Reap_Main
  | Candidate_Failed string string
  | Mark_Healthy string string
  | Repair_Clear string
  | Pin_Slot int string
  | Country_Of_Slot int string
  | Type_Of_Slot int string
  | Write_Slots_State
  | Write_Standby_State
  | Maintain_Standbys
  | Mark_Active_Node string
  | Reset_Main_Connections

record exits =
  main_pid :: "nat option"
  main_node :: string
  main_device :: string
  main_table :: int
  slot_rows :: "(int \<times> runtime) list"
  standby_rows :: "(int \<times> runtime) list"
  resources :: "(int \<times> string \<times> int) list"
  slot_proxies :: "(int \<times> string) list"
  standby_proxies :: "int list"
  running_pids :: "nat set"
  route_tables :: "(int \<times> string) list"
  calls :: "exit_call list"

definition call :: "exit_call \<Rightarrow> exits \<Rightarrow> exits" where
  "call c ex = ex\<lparr>calls := calls ex @ [c]\<rparr>"

definition tun_name :: "int \<Rightarrow> string" where
  "tun_name n = ''tun'' @ int_str n"

definition slot_device :: "exit_env \<Rightarrow> int \<Rightarrow> string" where
  "slot_device env i = tun_name (dev_base env + i)"

definition slot_table :: "exit_env \<Rightarrow> int \<Rightarrow> int" where
  "slot_table env i = table_base env + i"

definition slot_port :: "exit_env \<Rightarrow> int \<Rightarrow> int" where
  "slot_port env i = port_base env + i"

definition row_device :: "runtime \<Rightarrow> string" where
  "row_device r = str_or_empty (dgetN (rt_row r) ''device'')"

definition row_table :: "runtime \<Rightarrow> int" where
  "row_table r = (case int_or_zero (dgetN (rt_row r) ''table'') of Inr n \<Rightarrow> n | Inl e \<Rightarrow> 0)"

definition standby_dev_base :: "exit_env \<Rightarrow> int" where
  "standby_dev_base env = dev_base env + slots_max env"

definition standby_table_base :: "exit_env \<Rightarrow> int" where
  "standby_table_base env = table_base env + slots_max env"

definition standby_port :: "exit_env \<Rightarrow> int \<Rightarrow> int" where
  "standby_port env index = port_base env + slots_max env + index"

definition runtime_slot_device :: "exit_env \<Rightarrow> exits \<Rightarrow> int \<Rightarrow> string" where
  "runtime_slot_device env ex i = (case map_of (slot_rows ex) i of
     Some r \<Rightarrow> if row_device r = [] then slot_device env i else row_device r
   | None \<Rightarrow> slot_device env i)"

definition standby_device :: "exit_env \<Rightarrow> exits \<Rightarrow> int \<Rightarrow> string" where
  "standby_device env ex index = (case map_of (resources ex) index of
     Some (d, t) \<Rightarrow> if d = [] then tun_name (standby_dev_base env + index) else d
   | None \<Rightarrow> tun_name (standby_dev_base env + index))"

definition standby_table :: "exit_env \<Rightarrow> exits \<Rightarrow> int \<Rightarrow> int" where
  "standby_table env ex index = (case map_of (resources ex) index of
     Some (d, t) \<Rightarrow> if t = 0 then standby_table_base env + index else t
   | None \<Rightarrow> standby_table_base env + index)"

definition alive :: "exits \<Rightarrow> nat option \<Rightarrow> bool" where
  "alive ex p = (case p of None \<Rightarrow> False | Some n \<Rightarrow> n \<in> running_pids ex)"

section \<open>Live tunnels and free resources\<close>

definition live_rows :: "exits \<Rightarrow> runtime list" where
  "live_rows ex = filter (\<lambda>r. alive ex (rt_pid r)) (map snd (slot_rows ex) @ map snd (standby_rows ex))"

definition active_tunnel_devices :: "exits \<Rightarrow> string list" where
  "active_tunnel_devices ex =
     (if alive ex (main_pid ex) then [if main_device ex = [] then ''tun0'' else main_device ex] else [])
     @ filter (\<lambda>d. d \<noteq> []) (map row_device (live_rows ex))"

definition active_tables :: "exits \<Rightarrow> int list" where
  "active_tables ex =
     (if alive ex (main_pid ex) then [if main_table ex = 0 then 100 else main_table ex] else [])
     @ filter (\<lambda>t. t \<noteq> 0) (map row_table (live_rows ex))"

definition resource_range :: "exit_env \<Rightarrow> int list" where
  "resource_range env = range_list (slots_max env + (slots_max env + 1) + 8)"

definition free_device :: "exit_env \<Rightarrow> string list \<Rightarrow> string \<Rightarrow> string" where
  "free_device env used d = (if d \<notin> set used then d
     else (case List.find (\<lambda>c. c \<notin> set used) (map (\<lambda>k. tun_name (standby_dev_base env + k)) (resource_range env)) of
       Some c \<Rightarrow> c | None \<Rightarrow> d))"

definition free_table :: "exit_env \<Rightarrow> int list \<Rightarrow> int \<Rightarrow> int" where
  "free_table env used t = (if t \<notin> set used then t
     else (case List.find (\<lambda>c. c \<notin> set used) (map (\<lambda>k. standby_table_base env + k) (resource_range env)) of
       Some c \<Rightarrow> c | None \<Rightarrow> t))"

definition prepare_standby_resource :: "exit_env \<Rightarrow> exits \<Rightarrow> int \<Rightarrow> (string \<times> int) \<times> exits" where
  "prepare_standby_resource env ex index =
     (let d = free_device env (active_tunnel_devices ex) (standby_device env ex index);
          t = free_table env (active_tables ex) (standby_table env ex index)
      in ((d, t), ex\<lparr>resources := AList.update index (d, t) (resources ex)\<rparr>))"

section \<open>Processes, routes and listeners\<close>

definition stop_process :: "nat option \<Rightarrow> exits \<Rightarrow> exits" where
  "stop_process p ex = (case p of None \<Rightarrow> ex | Some n \<Rightarrow> ex\<lparr>running_pids := running_pids ex - {n}\<rparr>)"

definition cleanup_policy_routing :: "int \<Rightarrow> exits \<Rightarrow> exits" where
  "cleanup_policy_routing t ex = ex\<lparr>route_tables := AList.delete t (route_tables ex)\<rparr>"

text \<open>Setting a route up clears the table first; the addition may fail.\<close>

definition setup_policy_routing :: "bool \<Rightarrow> string \<Rightarrow> int \<Rightarrow> exits \<Rightarrow> exits" where
  "setup_policy_routing ok d t ex = (let ex = cleanup_policy_routing t ex in
     if ok then ex\<lparr>route_tables := AList.update t d (route_tables ex)\<rparr> else ex)"

definition or_table :: "int \<Rightarrow> int \<Rightarrow> int" where
  "or_table t d = (if t = 0 then d else t)"

definition tear_down_dedicated_standby :: "exit_env \<Rightarrow> int \<Rightarrow> bool \<Rightarrow> exits \<Rightarrow> runtime option \<times> exits" where
  "tear_down_dedicated_standby env index keep_tunnel ex =
     (let r = map_of (standby_rows ex) index;
          ex1 = ex\<lparr>standby_rows := AList.delete index (standby_rows ex),
                   standby_proxies := filter (\<lambda>j. j \<noteq> index) (standby_proxies ex)\<rparr>
      in (r, if keep_tunnel then ex1
         else cleanup_policy_routing
           (or_table (case r of None \<Rightarrow> 0 | Some row \<Rightarrow> row_table row) (standby_table env ex1 index))
           (stop_process (case r of None \<Rightarrow> None | Some row \<Rightarrow> rt_pid row) ex1)))"

definition tear_down_slot :: "exit_env \<Rightarrow> int \<Rightarrow> bool \<Rightarrow> exits \<Rightarrow> exits" where
  "tear_down_slot env i stop_proxy ex =
     (let r = map_of (slot_rows ex) i;
          ex1 = ex\<lparr>slot_rows := AList.delete i (slot_rows ex),
                   slot_proxies := (if stop_proxy then AList.delete i (slot_proxies ex) else slot_proxies ex)\<rparr>
      in cleanup_policy_routing
           (or_table (case r of None \<Rightarrow> 0 | Some row \<Rightarrow> row_table row) (slot_table env i))
           (stop_process (case r of None \<Rightarrow> None | Some row \<Rightarrow> rt_pid row) ex1))"

definition ensure_dedicated_standby_proxy :: "int \<Rightarrow> exits \<Rightarrow> exits" where
  "ensure_dedicated_standby_proxy index ex =
     (if index \<in> set (standby_proxies ex) then ex else ex\<lparr>standby_proxies := index # standby_proxies ex\<rparr>)"

definition ensure_slot_proxy :: "exit_env \<Rightarrow> int \<Rightarrow> string \<Rightarrow> exits \<Rightarrow> exits" where
  "ensure_slot_proxy env i device ex =
     ex\<lparr>slot_proxies := AList.update i (if device = [] then runtime_slot_device env ex i else device) (slot_proxies ex)\<rparr>"

section \<open>Bringing tunnels up\<close>

text \<open>How a dial ends: whether the configuration could be written, the process if the handshake
  completed, the routing commands and the probe of the exit.\<close>

record dial =
  dial_written :: bool
  dial_pid :: "nat option"
  dial_failure :: string
  dial_routed :: bool
  dial_egress :: "string option"
  dial_time :: rat

definition put_slot :: "int \<Rightarrow> runtime \<Rightarrow> exits \<Rightarrow> exits" where
  "put_slot i r ex = ex\<lparr>slot_rows := AList.update i r (slot_rows ex)\<rparr>"

definition put_standby :: "int \<Rightarrow> runtime \<Rightarrow> exits \<Rightarrow> exits" where
  "put_standby index r ex = ex\<lparr>standby_rows := AList.update index r (standby_rows ex)\<rparr>"

definition started :: "nat \<Rightarrow> exits \<Rightarrow> exits" where
  "started p ex = ex\<lparr>running_pids := insert p (running_pids ex)\<rparr>"

definition node_address :: "pydict \<Rightarrow> pyval" where
  "node_address node = py_or (dgetN node ''ip'') (dgetN node ''remote_host'')"

definition standby_row_of :: "exit_env \<Rightarrow> int \<Rightarrow> string \<Rightarrow> int \<Rightarrow> pydict \<Rightarrow> string option \<Rightarrow> rat \<Rightarrow> pydict" where
  "standby_row_of env index d t node egress now =
     [(''index'', PInt index), (''device'', PStr d), (''table'', PInt t), (''port'', PInt (standby_port env index)),
      (''node_id'', PStr (py_strip (str_or_empty (dgetN node ''id'')))), (''country'', PStr (str_or_empty (dgetN node ''country''))),
      (''country_short'', PStr (py_upper (str_or_empty (dgetN node ''country_short'')))),
      (''proxy_type'', PStr (normalize_proxy_type (dgetN node ''ip_type''))),
      (''candidate_ip'', PStr (str_or_empty (py_or (node_address node) (PStr [])))),
      (''status'', PStr (if egress = None then ''failed'' else ''ready'')), (''egress_ok'', PBool (egress \<noteq> None)),
      (''exit_ip'', PStr (case egress of None \<Rightarrow> [] | Some ip \<Rightarrow> ip)), (''checked_at'', PFloat (Fin now))]"

text \<open>The standby with the candidate reserved. A failed probe takes it down again.\<close>

definition standby_target :: "int \<Rightarrow> string" where
  "standby_target index = ''standby:'' @ int_str index"

text \<open>A failed dial is reported when its output names the candidate as the cause.\<close>

definition report_failure :: "pydict \<Rightarrow> string \<Rightarrow> exits \<Rightarrow> exits" where
  "report_failure node code ex =
     (if code = [] then ex else call (Candidate_Failed (py_strip (str_or_empty (dgetN node ''id''))) code) ex)"

definition dial_standby :: "exit_env \<Rightarrow> int \<Rightarrow> pydict \<Rightarrow> dial \<Rightarrow> string \<Rightarrow> int \<Rightarrow> nat \<Rightarrow> exits \<Rightarrow> bool \<times> exits" where
  "dial_standby env index node di d t p ex =
     (if \<not> dial_routed di then (False, cleanup_policy_routing t (stop_process (Some p) ex))
      else let row = \<lparr>rt_row = standby_row_of env index d t node (dial_egress di) (dial_time di), rt_pid = Some p\<rparr>;
          ex = ensure_dedicated_standby_proxy index (put_standby index row ex)
        in if dial_egress di = None
           then (False, snd (tear_down_dedicated_standby env index False (report_failure node ''candidate_egress_failed'' ex)))
           else (True, call Write_Standby_State
             (call (Mark_Healthy (standby_target index) (py_strip (str_or_empty (dgetN node ''id'')))) ex)))"

definition bring_up_reserved_standby :: "exit_env \<Rightarrow> int \<Rightarrow> pydict \<Rightarrow> dial \<Rightarrow> exits \<Rightarrow> bool \<times> exits" where
  "bring_up_reserved_standby env index node di ex =
     (case prepare_standby_resource env (snd (tear_down_dedicated_standby env index False ex)) index of ((d, t), ex) \<Rightarrow>
        if \<not> dial_written di then (False, call (Reap_Standby index d) ex)
        else (case dial_pid di of
            None \<Rightarrow> (False, report_failure node (dial_failure di) (call (Reap_Standby index d) ex))
          | Some p \<Rightarrow> dial_standby env index node di d t p
                (setup_policy_routing (dial_routed di) d t (started p (call (Reap_Standby index d) ex)))))"

definition slot_row_of :: "exit_env \<Rightarrow> int \<Rightarrow> pydict \<Rightarrow> rat \<Rightarrow> pydict" where
  "slot_row_of env i node now =
     [(''slot'', PInt i), (''device'', PStr (slot_device env i)), (''table'', PInt (slot_table env i)), (''port'', PInt (slot_port env i)),
      (''node_id'', dgetN node ''id''), (''country'', dgetN node ''country''), (''country_short'', dgetN node ''country_short''),
      (''ip'', node_address node), (''ip_type'', dgetN node ''ip_type''), (''location'', dgetN node ''location''),
      (''owner'', dgetN node ''owner''), (''latency_ms'', dgetN node ''latency_ms''), (''status'', PStr ''up''),
      (''since'', PFloat (Fin now)), (''message'', PStr [])]"

text \<open>A slot dials on its own device and table, whoever uses them.\<close>

definition bring_up_reserved_slot :: "exit_env \<Rightarrow> int \<Rightarrow> pydict \<Rightarrow> dial \<Rightarrow> exits \<Rightarrow> bool \<times> exits" where
  "bring_up_reserved_slot env i node di ex =
     (if \<not> dial_written di then (False, call (Reap_Slot i) ex)
      else (case dial_pid di of
          None \<Rightarrow> (False, report_failure node (dial_failure di) (call (Reap_Slot i) ex))
        | Some p \<Rightarrow>
            let ex = setup_policy_routing (dial_routed di) (slot_device env i) (slot_table env i) (started p (call (Reap_Slot i) ex)) in
            if \<not> dial_routed di then (False, cleanup_policy_routing (slot_table env i) (stop_process (Some p) ex))
            else (True, put_slot i \<lparr>rt_row = slot_row_of env i node (dial_time di), rt_pid = Some p\<rparr> (ensure_slot_proxy env i [] ex))))"

definition empty_row :: "exit_env \<Rightarrow> int \<Rightarrow> string \<Rightarrow> string \<Rightarrow> rat \<Rightarrow> pydict" where
  "empty_row env i status reason now =
     [(''slot'', PInt i), (''device'', PStr (slot_device env i)), (''table'', PInt (slot_table env i)), (''port'', PInt (slot_port env i)),
      (''node_id'', PStr []), (''country'', PStr []), (''country_short'', PStr []), (''ip'', PStr []), (''ip_type'', PStr []),
      (''location'', PStr []), (''owner'', PStr []), (''latency_ms'', PInt 0), (''status'', PStr status),
      (''since'', PFloat (Fin now)), (''message'', PStr reason)]"

definition mark_slot_pending :: "exit_env \<Rightarrow> int \<Rightarrow> string \<Rightarrow> rat \<Rightarrow> exits \<Rightarrow> exits" where
  "mark_slot_pending env i reason now ex = put_slot i \<lparr>rt_row = empty_row env i ''pending'' reason now, rt_pid = None\<rparr> ex"

definition mark_slot_paused :: "exit_env \<Rightarrow> int \<Rightarrow> string \<Rightarrow> rat \<Rightarrow> exits \<Rightarrow> exits" where
  "mark_slot_paused env i reason now ex = put_slot i \<lparr>rt_row = empty_row env i ''paused'' reason now, rt_pid = None\<rparr> ex"

definition slot_row :: "exits \<Rightarrow> int \<Rightarrow> pydict" where
  "slot_row ex i = (case map_of (slot_rows ex) i of None \<Rightarrow> [] | Some r \<Rightarrow> rt_row r)"

definition mark_slot_disconnected :: "exit_env \<Rightarrow> int \<Rightarrow> string \<Rightarrow> string \<Rightarrow> string \<Rightarrow> rat \<Rightarrow> exits \<Rightarrow> exits" where
  "mark_slot_disconnected env i reason candidate country now ex =
     (let prev = slot_row ex i;
          either = (\<lambda>s key. if s \<noteq> [] then s else str_or_empty (dgetN prev key))
      in put_slot i \<lparr>rt_row =
        [(''slot'', PInt i), (''device'', PStr (slot_device env i)), (''table'', PInt (slot_table env i)), (''port'', PInt (slot_port env i)),
         (''node_id'', PStr (either candidate ''node_id'')), (''country'', PStr (str_or_empty (dgetN prev ''country''))),
         (''country_short'', PStr (py_upper (either country ''country_short''))), (''ip'', PStr (str_or_empty (dgetN prev ''ip''))),
         (''ip_type'', PStr (str_or_empty (dgetN prev ''ip_type''))), (''location'', PStr (str_or_empty (dgetN prev ''location''))),
         (''owner'', PStr (str_or_empty (dgetN prev ''owner''))), (''latency_ms'', dget_or prev ''latency_ms'' (PInt 0)),
         (''status'', PStr ''disconnected''), (''since'', PFloat (Fin now)), (''message'', PStr reason),
         (''egress_ok'', PBool False), (''exit_ip'', PStr [])], rt_pid = None\<rparr> ex)"

section \<open>Promotion\<close>

text \<open>A standby counts as healthy when its process runs, its route is in place and one of three
  probes succeeds; a failed one is marked degraded.\<close>

definition set_egress :: "bool \<Rightarrow> string \<Rightarrow> rat \<Rightarrow> pydict \<Rightarrow> pydict" where
  "set_egress ok ip now row =
     (let row = dset (dset (dset row ''egress_ok'' (PBool ok)) ''exit_ip'' (PStr (if ok then ip else []))) ''checked_at'' (PFloat (Fin now))
      in if ok then row else dset row ''status'' (PStr ''degraded''))"

definition healthy_dedicated_standby :: "int \<Rightarrow> bool \<Rightarrow> string option list \<Rightarrow> rat \<Rightarrow> exits \<Rightarrow> bool \<times> exits" where
  "healthy_dedicated_standby index route_ok probes now ex = (case map_of (standby_rows ex) index of
     None \<Rightarrow> (False, ex)
   | Some r \<Rightarrow>
       if \<not> alive ex (rt_pid r) \<or> \<not> route_ok then (False, ex)
       else (case List.find (\<lambda>p. p \<noteq> None) (take 3 probes) of
           Some (Some ip) \<Rightarrow> (True, put_standby index (r\<lparr>rt_row := set_egress True ip now (rt_row r)\<rparr>) ex)
         | _ \<Rightarrow> (False, put_standby index (r\<lparr>rt_row := set_egress False [] now (rt_row r)\<rparr>) ex)))"

text \<open>The standbys of a target in the order of the configuration, with what their checks find.\<close>

fun healthy_standby_index :: "(int \<times> bool \<times> string option list) list \<Rightarrow> rat \<Rightarrow> exits \<Rightarrow> int option \<times> exits" where
  "healthy_standby_index [] now ex = (None, ex)"
| "healthy_standby_index ((index, route_ok, probes) # rest) now ex =
     (case healthy_dedicated_standby index route_ok probes now ex of
        (True, ex) \<Rightarrow> (Some index, ex)
      | (False, ex) \<Rightarrow> healthy_standby_index rest now ex)"

definition promoted_row :: "exit_env \<Rightarrow> int \<Rightarrow> pydict \<Rightarrow> rat \<Rightarrow> pydict" where
  "promoted_row env slot r now =
     [(''slot'', PInt slot), (''device'', dgetN r ''device''), (''table'', dgetN r ''table''), (''port'', PInt (slot_port env slot)),
      (''node_id'', dgetN r ''node_id''), (''country'', dgetN r ''country''), (''country_short'', dgetN r ''country_short''),
      (''ip'', dgetN r ''candidate_ip''), (''ip_type'', dgetN r ''proxy_type''), (''location'', PStr []), (''owner'', PStr []),
      (''latency_ms'', PInt 0), (''status'', PStr ''up''), (''since'', PFloat (Fin now)),
      (''egress_ok'', PBool True), (''exit_ip'', dgetN r ''exit_ip''), (''egress_checked_at'', PFloat (Fin now))]"

text \<open>The target's old device and table become the standby's resource.\<close>

definition take_over_slot :: "exit_env \<Rightarrow> int \<Rightarrow> int \<Rightarrow> string \<Rightarrow> int \<Rightarrow> runtime \<Rightarrow> rat \<Rightarrow> exits \<Rightarrow> exits" where
  "take_over_slot env index slot d t r now ex =
     ensure_slot_proxy env slot (row_device r)
       (put_slot slot \<lparr>rt_row = promoted_row env slot (rt_row r) now, rt_pid = rt_pid r\<rparr>
         (ex\<lparr>resources := AList.update index (d, t) (resources ex)\<rparr>))"

definition promotion_calls :: "int \<Rightarrow> int \<Rightarrow> pydict \<Rightarrow> exits \<Rightarrow> exits" where
  "promotion_calls index slot r ex = fold call
     [Pin_Slot slot [], Country_Of_Slot slot (str_or_empty (dgetN r ''country_short'')),
      Type_Of_Slot slot (str_or_empty (dgetN r ''proxy_type'')),
      Mark_Healthy (''slot:'' @ int_str slot) (str_or_empty (dgetN r ''node_id'')), Repair_Clear (standby_target index),
      Write_Slots_State, Write_Standby_State, Maintain_Standbys] ex"

definition promote_to_slot :: "exit_env \<Rightarrow> int \<Rightarrow> int \<Rightarrow> rat \<Rightarrow> exits \<Rightarrow> bool \<times> exits" where
  "promote_to_slot env index slot now ex =
     (let prev = slot_row ex slot;
          d = (let s = str_or_empty (dgetN prev ''device'') in if s = [] then slot_device env slot else s);
          t = or_table (case int_or_zero (dgetN prev ''table'') of Inr n \<Rightarrow> n | Inl e \<Rightarrow> 0) (slot_table env slot)
      in case tear_down_dedicated_standby env index True ex of
           (None, ex) \<Rightarrow> (False, ex)
         | (Some r, ex) \<Rightarrow>
             if \<not> alive ex (rt_pid r) then (False, ex)
             else (True, promotion_calls index slot (rt_row r)
               (take_over_slot env index slot d t r now (tear_down_slot env slot False ex))))"

text \<open>The promotion of the first healthy standby; another operation on it stops the promotion.\<close>

definition promote_dedicated_standby_to_slot ::
  "exit_env \<Rightarrow> (int \<times> bool \<times> string option list) list \<Rightarrow> bool \<Rightarrow> int \<Rightarrow> rat \<Rightarrow> exits \<Rightarrow> bool \<times> exits" where
  "promote_dedicated_standby_to_slot env found unlocked slot now ex = (case healthy_standby_index found now ex of
     (None, ex) \<Rightarrow> (False, ex)
   | (Some index, ex) \<Rightarrow> if unlocked then promote_to_slot env index slot now ex else (False, ex))"

definition stop_active_openvpn :: "exits \<Rightarrow> exits" where
  "stop_active_openvpn ex =
     call Reap_Main ((stop_process (main_pid ex) (cleanup_policy_routing (or_table (main_table ex) 100) ex))
       \<lparr>main_pid := None, main_node := [], main_device := ''tun0'', main_table := 100\<rparr>)"

definition take_over_main :: "exit_env \<Rightarrow> int \<Rightarrow> string \<Rightarrow> int \<Rightarrow> runtime \<Rightarrow> exits \<Rightarrow> exits" where
  "take_over_main env index d t r ex =
     (let ex = ex\<lparr>resources := AList.update index (d, t) (resources ex)\<rparr>
      in ex\<lparr>main_pid := rt_pid r, main_node := str_or_empty (dgetN (rt_row r) ''node_id''),
           main_device := (if row_device r = [] then standby_device env ex index else row_device r),
           main_table := or_table (row_table r) (standby_table env ex index)\<rparr>)"

definition main_calls :: "pydict \<Rightarrow> exits \<Rightarrow> exits" where
  "main_calls r ex = fold call [Mark_Active_Node (str_or_empty (dgetN r ''node_id'')), Reset_Main_Connections] ex"

definition main_healthy_calls :: "int \<Rightarrow> pydict \<Rightarrow> exits \<Rightarrow> exits" where
  "main_healthy_calls index r ex = fold call [Mark_Healthy ''main'' (str_or_empty (dgetN r ''node_id'')),
     Repair_Clear (standby_target index), Write_Standby_State, Maintain_Standbys] ex"

text \<open>The new main connection is checked up to three times and taken down if the checks fail.\<close>

definition promote_to_main :: "exit_env \<Rightarrow> int \<Rightarrow> bool list \<Rightarrow> exits \<Rightarrow> bool \<times> exits" where
  "promote_to_main env index checks ex =
     (let d = (if main_device ex = [] then ''tun0'' else main_device ex); t = or_table (main_table ex) 100
      in case tear_down_dedicated_standby env index True ex of
           (None, ex) \<Rightarrow> (False, ex)
         | (Some r, ex) \<Rightarrow>
             if \<not> alive ex (rt_pid r) then (False, ex)
             else let ex = main_calls (rt_row r) (take_over_main env index d t r (stop_active_openvpn ex))
               in if list_ex id (take 3 checks) then (True, main_healthy_calls index (rt_row r) ex)
                  else (False, stop_active_openvpn ex))"

definition promote_dedicated_standby_to_main ::
  "exit_env \<Rightarrow> (int \<times> bool \<times> string option list) list \<Rightarrow> bool \<Rightarrow> bool list \<Rightarrow> rat \<Rightarrow> exits \<Rightarrow> bool \<times> exits" where
  "promote_dedicated_standby_to_main env found unlocked checks now ex = (case healthy_standby_index found now ex of
     (None, ex) \<Rightarrow> (False, ex)
   | (Some index, ex) \<Rightarrow> if unlocked then promote_to_main env index checks ex else (False, ex))"

text \<open>A dial of the main connection always uses the first device and its table.\<close>

definition connect_main :: "string \<Rightarrow> dial \<Rightarrow> exits \<Rightarrow> bool \<times> exits" where
  "connect_main node di ex =
     (let ex = stop_active_openvpn ex in
      if \<not> dial_written di then (False, ex)
      else (case dial_pid di of
          None \<Rightarrow> (False, report_failure [(''id'', PStr node)] (dial_failure di) ex)
        | Some p \<Rightarrow>
            let ex = setup_policy_routing (dial_routed di) ''tun0'' 100
              ((started p ex)\<lparr>main_pid := Some p, main_node := node, main_device := ''tun0'', main_table := 100\<rparr>)
            in if dial_routed di then (True, ex)
               else (False, (stop_process (Some p) ex)\<lparr>main_pid := None, main_node := [], main_device := ''tun0'', main_table := 100\<rparr>)))"


section \<open>Who holds which device and table\<close>

datatype holder = Main | Slot int | Standby int

definition row_held :: "exits \<Rightarrow> runtime option \<Rightarrow> (string \<times> int) option" where
  "row_held ex r = (case r of None \<Rightarrow> None
     | Some row \<Rightarrow> if alive ex (rt_pid row) then Some (row_device row, row_table row) else None)"

definition held :: "exits \<Rightarrow> holder \<Rightarrow> (string \<times> int) option" where
  "held ex h = (case h of
     Main \<Rightarrow> if alive ex (main_pid ex)
       then Some (if main_device ex = [] then ''tun0'' else main_device ex, or_table (main_table ex) 100) else None
   | Slot i \<Rightarrow> row_held ex (map_of (slot_rows ex) i)
   | Standby j \<Rightarrow> row_held ex (map_of (standby_rows ex) j))"

text \<open>Live tunnels have devices and tables of their own.\<close>

definition disjoint_tunnels :: "exits \<Rightarrow> bool" where
  "disjoint_tunnels ex =
     (\<forall>h d t. held ex h = Some (d, t) \<longrightarrow> d \<noteq> [] \<and> t \<noteq> 0
        \<and> (\<forall>k d' t'. k \<noteq> h \<longrightarrow> held ex k = Some (d', t') \<longrightarrow> d' \<noteq> d \<and> t' \<noteq> t))"

definition rows_ok :: "exit_env \<Rightarrow> exits \<Rightarrow> bool" where
  "rows_ok env ex = (distinct (map fst (slot_rows ex)) \<and> fst ` set (slot_rows ex) \<subseteq> {0..<slots_max env}
     \<and> distinct (map fst (standby_rows ex)) \<and> fst ` set (standby_rows ex) \<subseteq> {0..slots_max env})"

definition free_resource :: "exits \<Rightarrow> string \<Rightarrow> int \<Rightarrow> bool" where
  "free_resource ex d t = (d \<noteq> [] \<and> t \<noteq> 0 \<and> (\<forall>h d' t'. held ex h = Some (d', t') \<longrightarrow> d' \<noteq> d \<and> t' \<noteq> t))"

definition fresh_pid :: "exits \<Rightarrow> nat \<Rightarrow> bool" where
  "fresh_pid ex p = (main_pid ex \<noteq> Some p
     \<and> (\<forall>r \<in> set (slot_rows ex) \<union> set (standby_rows ex). rt_pid (snd r) \<noteq> Some p))"

text \<open>Operations that only take tunnels away keep the tunnels apart.\<close>

definition fewer_tunnels :: "exits \<Rightarrow> exits \<Rightarrow> bool" where
  "fewer_tunnels ex ex' = (\<forall>h. held ex' h = None \<or> held ex' h = held ex h)"

lemma fewer_disjoint: "fewer_tunnels ex ex' \<Longrightarrow> disjoint_tunnels ex \<Longrightarrow> disjoint_tunnels ex'"
  unfolding fewer_tunnels_def disjoint_tunnels_def by (metis option.distinct(1))

lemma fewer_free: "fewer_tunnels ex ex' \<Longrightarrow> free_resource ex d t \<Longrightarrow> free_resource ex' d t"
  unfolding fewer_tunnels_def free_resource_def by (metis option.distinct(1))

lemma fewer_refl [simp]: "fewer_tunnels ex ex"
  by (simp add: fewer_tunnels_def)

lemma fewer_trans: "fewer_tunnels a b \<Longrightarrow> fewer_tunnels b c \<Longrightarrow> fewer_tunnels a c"
  unfolding fewer_tunnels_def by metis

lemmas held_defs = held_def row_held_def alive_def

lemma fewer_stop: "fewer_tunnels ex (stop_process p ex)"
  by (auto simp: fewer_tunnels_def held_defs stop_process_def split: holder.split option.split)

lemma fewer_delete_slot: "fewer_tunnels ex (ex\<lparr>slot_rows := AList.delete i (slot_rows ex), slot_proxies := q\<rparr>)"
  by (auto simp: fewer_tunnels_def held_defs delete_conv split: holder.split option.split)

lemma fewer_delete_standby: "fewer_tunnels ex (ex\<lparr>standby_rows := AList.delete i (standby_rows ex), standby_proxies := q\<rparr>)"
  by (auto simp: fewer_tunnels_def held_defs delete_conv split: holder.split option.split)

lemma held_routes [simp]: "held (cleanup_policy_routing t ex) = held ex" "held (ex\<lparr>resources := q\<rparr>) = held ex"
  "held (ensure_slot_proxy env i d ex) = held ex" "held (ensure_dedicated_standby_proxy i ex) = held ex"
  "held (setup_policy_routing ok d t ex) = held ex"
  by (auto simp: held_defs cleanup_policy_routing_def ensure_slot_proxy_def ensure_dedicated_standby_proxy_def
      setup_policy_routing_def Let_def split: holder.split option.split)

lemma call_same [simp]:
  "held (call c ex) = held ex" "alive (call c ex) = alive ex" "slot_rows (call c ex) = slot_rows ex"
  "standby_rows (call c ex) = standby_rows ex" "main_pid (call c ex) = main_pid ex"
  "resources (call c ex) = resources ex" "slot_proxies (call c ex) = slot_proxies ex"
  by (auto simp: call_def held_defs fun_eq_iff split: holder.split option.split)

lemma calls_same [simp]:
  "held (report_failure node code ex) = held ex" "held (promotion_calls j i r ex) = held ex"
  "held (main_calls r ex) = held ex" "held (main_healthy_calls j r ex) = held ex"
  "slot_proxies (promotion_calls j i r ex) = slot_proxies ex" "resources (promotion_calls j i r ex) = resources ex"
  by (simp_all add: report_failure_def promotion_calls_def main_calls_def main_healthy_calls_def)

lemma fewer_tear_down_standby: "fewer_tunnels ex (snd (tear_down_dedicated_standby env i keep ex))"
proof -
  let ?ex = "ex\<lparr>standby_rows := AList.delete i (standby_rows ex), standby_proxies := filter (\<lambda>j. j \<noteq> i) (standby_proxies ex)\<rparr>"
  have "fewer_tunnels ex (stop_process p ?ex)" for p
    by (rule fewer_trans [OF fewer_delete_standby fewer_stop])
  then show ?thesis
    using fewer_delete_standby by (simp add: tear_down_dedicated_standby_def Let_def fewer_tunnels_def)
qed

lemma fewer_tear_down_slot: "fewer_tunnels ex (tear_down_slot env i stop_proxy ex)"
  using fewer_trans [OF fewer_delete_slot fewer_stop]
  by (simp add: tear_down_slot_def Let_def fewer_tunnels_def)

lemma fewer_stop_main: "fewer_tunnels ex (stop_active_openvpn ex)"
  by (auto simp: fewer_tunnels_def held_defs stop_active_openvpn_def call_def stop_process_def cleanup_policy_routing_def
      split: holder.split option.split)

text \<open>A tunnel on a free resource keeps the tunnels apart.\<close>

definition one_more :: "exits \<Rightarrow> exits \<Rightarrow> string \<Rightarrow> int \<Rightarrow> bool" where
  "one_more ex ex' d t = (\<exists>h. held ex h = None \<and> (\<forall>k. k \<noteq> h \<longrightarrow> held ex' k = None \<or> held ex' k = held ex k)
     \<and> (held ex' h = None \<or> held ex' h = Some (d, t)))"

lemma disjointD:
  "disjoint_tunnels ex \<Longrightarrow> held ex h = Some (d, t) \<Longrightarrow> k \<noteq> h \<Longrightarrow> held ex k = Some (d', t') \<Longrightarrow> d' \<noteq> d \<and> t' \<noteq> t"
  unfolding disjoint_tunnels_def by blast

lemma disjoint_proper: "disjoint_tunnels ex \<Longrightarrow> held ex h = Some (d, t) \<Longrightarrow> d \<noteq> [] \<and> t \<noteq> 0"
  unfolding disjoint_tunnels_def by blast

lemma free_resourceD:
  "free_resource ex d t \<Longrightarrow> d \<noteq> [] \<and> t \<noteq> 0"
  "free_resource ex d t \<Longrightarrow> held ex h = Some (d', t') \<Longrightarrow> d' \<noteq> d \<and> t' \<noteq> t"
  unfolding free_resource_def by blast+

lemma one_more_disjoint:
  assumes "one_more ex ex' d t" "disjoint_tunnels ex" "free_resource ex d t"
  shows "disjoint_tunnels ex'"
proof -
  from assms(1) obtain h where h: "held ex h = None" "\<And>k. k \<noteq> h \<Longrightarrow> held ex' k = None \<or> held ex' k = held ex k"
    "held ex' h = None \<or> held ex' h = Some (d, t)" by (auto simp: one_more_def)
  have src: "k = h \<and> e = d \<and> u = t \<or> k \<noteq> h \<and> held ex k = Some (e, u)" if k: "held ex' k = Some (e, u)" for k e u
    using k h(3) h(2) [of k] by (cases "k = h") auto
  show ?thesis
    unfolding disjoint_tunnels_def
  proof (intro allI impI conjI)
    fix k e u l e' u' assume k: "held ex' k = Some (e, u)"
    show "e \<noteq> []" "u \<noteq> 0"
      using src [OF k] disjoint_proper [OF assms(2)] free_resourceD(1) [OF assms(3)] by blast+
    assume l: "l \<noteq> k" "held ex' l = Some (e', u')"
    have "e' \<noteq> e \<and> u' \<noteq> u"
      using src [OF k] src [OF l(2)] l(1) disjointD [OF assms(2), of k e u l e' u']
        free_resourceD(2) [OF assms(3), of k e u] free_resourceD(2) [OF assms(3), of l e' u'] by metis
    then show "e' \<noteq> e" "u' \<noteq> u" by blast+
  qed
qed

lemma held_started: "fresh_pid ex p \<Longrightarrow> held (started p ex) h = held ex h"
proof -
  assume f: "fresh_pid ex p"
  have "r \<in> set (slot_rows ex) \<union> set (standby_rows ex) \<Longrightarrow> rt_pid (snd r) \<noteq> Some p" for r
    using f by (simp add: fresh_pid_def)
  then have rows: "map_of (slot_rows ex) i = Some r \<Longrightarrow> rt_pid r \<noteq> Some p"
    "map_of (standby_rows ex) i = Some r \<Longrightarrow> rt_pid r \<noteq> Some p" for i r
    by (auto dest!: map_of_SomeD) fastforce+
  show ?thesis
    using f rows unfolding held_defs started_def fresh_pid_def
    by (auto split: holder.split option.split)
qed

section \<open>The resource of a standby is free\<close>

lemma find_unused:
  assumes "inj_on f {0..<n}" "length used < nat n"
  shows "\<exists>c. List.find (\<lambda>c. c \<notin> set used) (map f (range_list n)) = Some c \<and> c \<notin> set used"
proof -
  have "card (f ` {0..<n}) = nat n" using assms(1) by (simp add: card_image)
  moreover have "card (set used) < nat n" using card_length [of used] assms(2) by linarith
  ultimately have "\<not> f ` {0..<n} \<subseteq> set used"
    using card_mono [of "set used" "f ` {0..<n}"] by auto
  then obtain k where k: "k \<in> {0..<n}" "f k \<notin> set used" by blast
  then have "f k \<in> set (map f (range_list n))" by simp
  with k(2) have "List.find (\<lambda>c. c \<notin> set used) (map f (range_list n)) \<noteq> None"
    by (auto simp: find_None_iff)
  then show ?thesis by (auto simp: find_Some_iff)
qed

lemma tun_name_inj: "tun_name a = tun_name b \<Longrightarrow> a = b"
  by (metis append_same_eq int_of_str_int_str option.inject same_append_eq tun_name_def)

definition env_ok :: "exit_env \<Rightarrow> bool" where
  "env_ok env = (0 < table_base env \<and> 0 \<le> slots_max env)"

lemma few_rows:
  assumes "distinct (map fst (xs :: (int \<times> runtime) list))" "fst ` set xs \<subseteq> {0..<n}"
  shows "length xs \<le> nat n"
proof -
  have "length xs = card (fst ` set xs)" using distinct_card [OF assms(1)] by simp
  also have "\<dots> \<le> card {0..<n}" using assms(2) by (intro card_mono) auto
  finally show ?thesis by simp
qed

lemma active_bounds:
  assumes "rows_ok env ex" "env_ok env"
  shows "length (active_tunnel_devices ex) < nat (slots_max env + (slots_max env + 1) + 8)"
    "length (active_tables ex) < nat (slots_max env + (slots_max env + 1) + 8)"
proof -
  have s: "length (slot_rows ex) \<le> nat (slots_max env)" "length (standby_rows ex) \<le> nat (slots_max env + 1)"
    using assms by (auto simp: rows_ok_def intro!: few_rows)
  have live: "length (live_rows ex) \<le> length (slot_rows ex) + length (standby_rows ex)"
    unfolding live_rows_def by (rule order_trans [OF length_filter_le]) simp
  have "length (active_tunnel_devices ex) \<le> 1 + length (live_rows ex)"
    "length (active_tables ex) \<le> 1 + length (live_rows ex)"
    unfolding active_tunnel_devices_def active_tables_def
    by (simp_all add: le_SucI length_filter_le)
  with s live assms(2) show "length (active_tunnel_devices ex) < nat (slots_max env + (slots_max env + 1) + 8)"
    "length (active_tables ex) < nat (slots_max env + (slots_max env + 1) + 8)"
    by (auto simp: env_ok_def)
qed

lemma free_device_unused:
  assumes "rows_ok env ex" "env_ok env"
  shows "free_device env (active_tunnel_devices ex) d \<notin> set (active_tunnel_devices ex)"
proof -
  have "inj_on (\<lambda>k. tun_name (standby_dev_base env + k)) A" for A by (auto simp: inj_on_def dest: tun_name_inj)
  from find_unused [OF this active_bounds(1) [OF assms]] show ?thesis
    unfolding free_device_def resource_range_def by (auto split: if_split)
qed

lemma free_table_unused:
  assumes "rows_ok env ex" "env_ok env"
  shows "free_table env (active_tables ex) t \<notin> set (active_tables ex)"
proof -
  have "inj_on (\<lambda>k. standby_table_base env + k) A" for A by (auto simp: inj_on_def)
  from find_unused [OF this active_bounds(2) [OF assms]] show ?thesis
    unfolding free_table_def resource_range_def by (auto split: if_split)
qed

lemma held_active:
  assumes "held ex h = Some (d, t)"
  shows "d = [] \<or> d \<in> set (active_tunnel_devices ex)" "t = 0 \<or> t \<in> set (active_tables ex)"
proof -
  have row: "(d = [] \<or> d \<in> set (active_tunnel_devices ex)) \<and> (t = 0 \<or> t \<in> set (active_tables ex))"
    if "row_held ex (map_of rs i) = Some (d, t)" "set rs \<subseteq> set (slot_rows ex) \<union> set (standby_rows ex)" for rs i
  proof -
    from that obtain r where r: "map_of rs i = Some r" "alive ex (rt_pid r)" "d = row_device r" "t = row_table r"
      by (auto simp: row_held_def split: option.splits if_splits)
    from map_of_SomeD [OF r(1)] that(2) r(2) have "r \<in> set (live_rows ex)"
      unfolding live_rows_def by force
    with r show ?thesis by (auto simp: active_tunnel_devices_def active_tables_def)
  qed
  show "d = [] \<or> d \<in> set (active_tunnel_devices ex)" "t = 0 \<or> t \<in> set (active_tables ex)"
    using assms row [of "slot_rows ex"] row [of "standby_rows ex"]
    by (auto simp: held_def active_tunnel_devices_def active_tables_def or_table_def split: holder.splits if_splits)
qed

lemma tun_name_proper [simp]: "tun_name n \<noteq> []"
  by (simp add: tun_name_def)

lemma resource_proper:
  assumes "env_ok env" "0 \<le> index"
  shows "free_device env used (standby_device env ex index) \<noteq> []" "free_table env used' (standby_table env ex index) \<noteq> 0"
proof -
  have d: "standby_device env ex index \<noteq> []" by (auto simp: standby_device_def split: option.split)
  have t: "standby_table env ex index \<noteq> 0"
    using assms by (auto simp: standby_table_def standby_table_base_def env_ok_def split: option.split)
  show "free_device env used (standby_device env ex index) \<noteq> []"
    using d by (auto simp: free_device_def find_Some_iff split: option.split)
  show "free_table env used' (standby_table env ex index) \<noteq> 0"
    using t assms(1) by (auto simp: free_table_def find_Some_iff standby_table_base_def env_ok_def resource_range_def range_list_def split: option.split)
qed

lemma prepared_free:
  assumes "rows_ok env ex" "env_ok env" "0 \<le> index" "prepare_standby_resource env ex index = ((d, t), ex')"
  shows "free_resource ex' d t"
proof -
  from assms(4) have d: "d = free_device env (active_tunnel_devices ex) (standby_device env ex index)"
    "t = free_table env (active_tables ex) (standby_table env ex index)" "held ex' = held ex"
    by (auto simp: prepare_standby_resource_def Let_def)
  then have "d \<noteq> []" "t \<noteq> 0" "d \<notin> set (active_tunnel_devices ex)" "t \<notin> set (active_tables ex)"
    using resource_proper [OF assms(2,3)] free_device_unused [OF assms(1,2)] free_table_unused [OF assms(1,2)] by auto
  with d(3) held_active [of ex] show ?thesis unfolding free_resource_def by metis
qed

section \<open>Operations\<close>

datatype exit_op =
    StandbyUp int pydict dial
  | StandbyDown int
  | SlotUp int pydict dial
  | SlotDown int bool
  | SlotMark int pydict
  | MainUp string dial
  | MainDown
  | Check "(int \<times> bool \<times> string option list) list" rat
  | ToSlot "(int \<times> bool \<times> string option list) list" bool int rat
  | ToMain "(int \<times> bool \<times> string option list) list" bool "bool list" rat

definition exit_step :: "exit_env \<Rightarrow> exit_op \<Rightarrow> exits \<Rightarrow> exits" where
  "exit_step env x ex = (case x of
     StandbyUp index node di \<Rightarrow> snd (bring_up_reserved_standby env index node di ex)
   | StandbyDown index \<Rightarrow> snd (tear_down_dedicated_standby env index False ex)
   | SlotUp i node di \<Rightarrow> snd (bring_up_reserved_slot env i node di ex)
   | SlotDown i stop_proxy \<Rightarrow> tear_down_slot env i stop_proxy ex
   | SlotMark i row \<Rightarrow> put_slot i \<lparr>rt_row = row, rt_pid = None\<rparr> ex
   | MainUp node di \<Rightarrow> snd (connect_main node di ex)
   | MainDown \<Rightarrow> stop_active_openvpn ex
   | Check found now \<Rightarrow> snd (healthy_standby_index found now ex)
   | ToSlot found unlocked slot now \<Rightarrow> snd (promote_dedicated_standby_to_slot env found unlocked slot now ex)
   | ToMain found unlocked checks now \<Rightarrow> snd (promote_dedicated_standby_to_main env found unlocked checks now ex))"

text \<open>What the manager's checks guarantee when an operation starts, and for the dials of slots and
  of the main connection what they do not: that nothing lives on the device and the table.\<close>

definition fresh_dial :: "dial \<Rightarrow> exits \<Rightarrow> bool" where
  "fresh_dial di ex = (case dial_pid di of None \<Rightarrow> True | Some p \<Rightarrow> fresh_pid ex p)"

definition slot_in :: "exit_env \<Rightarrow> int \<Rightarrow> bool" where
  "slot_in env i = (0 \<le> i \<and> i < slots_max env)"

definition standby_in :: "exit_env \<Rightarrow> int \<Rightarrow> bool" where
  "standby_in env j = (0 \<le> j \<and> j \<le> slots_max env)"

definition exit_guard :: "exit_env \<Rightarrow> exit_op \<Rightarrow> exits \<Rightarrow> bool" where
  "exit_guard env x ex = (case x of
     StandbyUp index node di \<Rightarrow> standby_in env index \<and> fresh_dial di ex
   | SlotUp i node di \<Rightarrow> slot_in env i \<and> fresh_dial di ex \<and> held ex (Slot i) = None
       \<and> slot_device env i \<notin> set (active_tunnel_devices ex) \<and> slot_table env i \<notin> set (active_tables ex)
   | SlotMark i row \<Rightarrow> slot_in env i
   | MainUp node di \<Rightarrow> fresh_dial di ex \<and> ''tun0'' \<notin> set (active_tunnel_devices (stop_active_openvpn ex))
       \<and> 100 \<notin> set (active_tables (stop_active_openvpn ex))
   | ToSlot found unlocked slot now \<Rightarrow> slot_in env slot
   | _ \<Rightarrow> True)"

definition exits_inv :: "exit_env \<Rightarrow> exits \<Rightarrow> bool" where
  "exits_inv env ex = (disjoint_tunnels ex \<and> rows_ok env ex)"

text \<open>The keys of the rows.\<close>

lemma row_keys_update: "fst ` set (AList.update k v xs) = insert k (fst ` set xs)"
  by (induction xs) auto

lemma row_keys_delete: "fst ` set (AList.delete k xs) \<subseteq> fst ` set xs"
  by (induction xs) auto

lemma rows_put_slot: "rows_ok env ex \<Longrightarrow> slot_in env i \<Longrightarrow> rows_ok env (put_slot i r ex)"
  by (auto simp: rows_ok_def put_slot_def slot_in_def row_keys_update distinct_update)

lemma rows_put_standby: "rows_ok env ex \<Longrightarrow> standby_in env j \<Longrightarrow> rows_ok env (put_standby j r ex)"
  by (auto simp: rows_ok_def put_standby_def standby_in_def row_keys_update distinct_update)

lemma rows_other [simp]:
  "rows_ok env (ex\<lparr>resources := q\<rparr>) = rows_ok env ex"
  "rows_ok env (ex\<lparr>running_pids := ps\<rparr>) = rows_ok env ex"
  "rows_ok env (ex\<lparr>slot_proxies := sp\<rparr>) = rows_ok env ex"
  "rows_ok env (ex\<lparr>standby_proxies := bp\<rparr>) = rows_ok env ex"
  "rows_ok env (ex\<lparr>route_tables := rt\<rparr>) = rows_ok env ex"
  "rows_ok env (ex\<lparr>main_pid := a, main_node := n, main_device := d, main_table := t\<rparr>) = rows_ok env ex"
  "rows_ok env (stop_process p ex) = rows_ok env ex"
  "rows_ok env (started p' ex) = rows_ok env ex"
  "rows_ok env (cleanup_policy_routing t ex) = rows_ok env ex"
  "rows_ok env (setup_policy_routing ok d t ex) = rows_ok env ex"
  "rows_ok env (ensure_slot_proxy env' i d ex) = rows_ok env ex"
  "rows_ok env (ensure_dedicated_standby_proxy j ex) = rows_ok env ex"
  "rows_ok env (call c ex) = rows_ok env ex"
  "rows_ok env (report_failure node code ex) = rows_ok env ex"
  "rows_ok env (promotion_calls j i r ex) = rows_ok env ex"
  "rows_ok env (main_calls r ex) = rows_ok env ex"
  "rows_ok env (main_healthy_calls j r ex) = rows_ok env ex"
  by (auto simp: rows_ok_def stop_process_def started_def cleanup_policy_routing_def setup_policy_routing_def
      ensure_slot_proxy_def ensure_dedicated_standby_proxy_def Let_def report_failure_def promotion_calls_def
      main_calls_def main_healthy_calls_def split: option.split)

lemma rows_delete_slot: "rows_ok env ex \<Longrightarrow> rows_ok env (ex\<lparr>slot_rows := AList.delete i (slot_rows ex)\<rparr>)"
  by (simp add: rows_ok_def distinct_delete subset_trans [OF row_keys_delete])

lemma rows_delete_standby: "rows_ok env ex \<Longrightarrow> rows_ok env (ex\<lparr>standby_rows := AList.delete j (standby_rows ex)\<rparr>)"
  by (simp add: rows_ok_def distinct_delete subset_trans [OF row_keys_delete])

lemma rows_tear_down_slot: "rows_ok env ex \<Longrightarrow> rows_ok env (tear_down_slot env' i b ex)"
  by (simp add: tear_down_slot_def Let_def rows_delete_slot)

lemma rows_tear_down_standby: "rows_ok env ex \<Longrightarrow> rows_ok env (snd (tear_down_dedicated_standby env' j keep ex))"
  by (simp add: tear_down_dedicated_standby_def Let_def rows_delete_standby)

lemma rows_stop_main: "rows_ok env (stop_active_openvpn ex) = rows_ok env ex"
  by (simp add: stop_active_openvpn_def)

lemmas rows_kept = rows_put_slot rows_put_standby rows_tear_down_slot rows_tear_down_standby rows_stop_main

lemma inv_fewer: "exits_inv env ex \<Longrightarrow> fewer_tunnels ex ex' \<Longrightarrow> rows_ok env ex' \<Longrightarrow> exits_inv env ex'"
  by (auto simp: exits_inv_def intro: fewer_disjoint)

lemma inv_tear_down_slot: "exits_inv env ex \<Longrightarrow> exits_inv env (tear_down_slot env i b ex)"
  by (rule inv_fewer [OF _ fewer_tear_down_slot]) (auto simp: exits_inv_def rows_kept)

lemma inv_tear_down_standby: "exits_inv env ex \<Longrightarrow> exits_inv env (snd (tear_down_dedicated_standby env j keep ex))"
  by (rule inv_fewer [OF _ fewer_tear_down_standby]) (auto simp: exits_inv_def rows_kept)

lemma inv_stop_main: "exits_inv env ex \<Longrightarrow> exits_inv env (stop_active_openvpn ex)"
  by (rule inv_fewer [OF _ fewer_stop_main]) (auto simp: exits_inv_def rows_kept)

lemma inv_stop: "exits_inv env ex \<Longrightarrow> exits_inv env (stop_process p ex)"
  by (rule inv_fewer [OF _ fewer_stop]) (auto simp: exits_inv_def)

lemma inv_same: "exits_inv env ex \<Longrightarrow> held ex' = held ex \<Longrightarrow> rows_ok env ex' \<Longrightarrow> exits_inv env ex'"
  by (rule inv_fewer [of env ex]) (simp_all add: fewer_tunnels_def)

lemma inv_one_more:
  "exits_inv env ex \<Longrightarrow> one_more ex ex' d t \<Longrightarrow> free_resource ex d t \<Longrightarrow> rows_ok env ex' \<Longrightarrow> exits_inv env ex'"
  by (auto simp: exits_inv_def intro: one_more_disjoint)

lemma inv_routing [simp]: "exits_inv env (cleanup_policy_routing t ex) = exits_inv env ex"
  "exits_inv env (call c ex) = exits_inv env ex" "exits_inv env (report_failure node code ex) = exits_inv env ex"
  "exits_inv env (promotion_calls j i r ex) = exits_inv env ex" "exits_inv env (main_calls r ex) = exits_inv env ex"
  "exits_inv env (main_healthy_calls j r ex) = exits_inv env ex"
  by (simp_all add: exits_inv_def disjoint_tunnels_def)

lemma held_put_slot: "held (put_slot i r ex) h = (if h = Slot i then row_held ex (Some r) else held ex h)"
  by (auto simp: held_defs put_slot_def update_conv' split: holder.split option.split)

lemma held_put_standby: "held (put_standby j r ex) h = (if h = Standby j then row_held ex (Some r) else held ex h)"
  by (auto simp: held_defs put_standby_def update_conv' split: holder.split option.split)

lemma free_resource_same: "held ex' = held ex \<Longrightarrow> free_resource ex' d t = free_resource ex d t"
  by (simp add: free_resource_def)

lemma held_tear_down_standby: "held (snd (tear_down_dedicated_standby env j keep ex)) (Standby j) = None"
  by (auto simp: held_defs tear_down_dedicated_standby_def Let_def cleanup_policy_routing_def stop_process_def
      delete_conv split: option.split)

lemma held_tear_down_slot: "held (tear_down_slot env i b ex) (Slot i) = None"
  by (auto simp: held_defs tear_down_slot_def Let_def cleanup_policy_routing_def stop_process_def
      delete_conv split: option.split)

text \<open>A fresh process on a free resource, as each of the dials starts it.\<close>

lemma fresh_started_row: "fresh_pid ex p \<Longrightarrow> row_held (started p ex) (Some \<lparr>rt_row = row, rt_pid = Some p\<rparr>)
    = Some (str_or_empty (dgetN row ''device''), case int_or_zero (dgetN row ''table'') of Inr n \<Rightarrow> n | Inl e \<Rightarrow> 0)"
  by (simp add: row_held_def alive_def started_def row_device_def row_table_def)

lemma row_held_routed [simp]:
  "row_held (setup_policy_routing ok d t ex) r = row_held ex r" "row_held (ensure_slot_proxy env i d ex) r = row_held ex r"
  by (auto simp: row_held_def alive_def setup_policy_routing_def cleanup_policy_routing_def ensure_slot_proxy_def Let_def
      split: option.split)

lemma same_started: "fresh_pid ex p \<Longrightarrow> held (started p ex) = held ex"
  by (rule ext) (rule held_started)

lemma unused_free:
  assumes "d \<notin> set (active_tunnel_devices ex)" "t \<notin> set (active_tables ex)" "d \<noteq> []" "t \<noteq> 0"
  shows "free_resource ex d t"
  using assms held_active unfolding free_resource_def by metis

lemma inv_slot_up:
  assumes "exits_inv env ex" "exit_guard env (SlotUp i node di) ex" "env_ok env"
  shows "exits_inv env (snd (bring_up_reserved_slot env i node di ex))"
proof (cases "dial_pid di")
  case (Some p)
  have g: "slot_in env i" "fresh_pid ex p" "held ex (Slot i) = None" "free_resource ex (slot_device env i) (slot_table env i)"
    using assms(2,3) Some
    by (auto simp: exit_guard_def fresh_dial_def env_ok_def slot_in_def slot_device_def slot_table_def intro!: unused_free)
  let ?ex = "setup_policy_routing (dial_routed di) (slot_device env i) (slot_table env i) (started p (call (Reap_Slot i) ex))"
  have g': "fresh_pid (call (Reap_Slot i) ex) p" using g(2) by (simp add: fresh_pid_def)
  have same: "held ?ex = held ex" by (simp add: same_started [OF g'])
  have rows: "rows_ok env ?ex" using assms(1) by (simp add: exits_inv_def)
  have inv: "exits_inv env ?ex" by (rule inv_same [OF assms(1) same rows])
  let ?row = "\<lparr>rt_row = slot_row_of env i node (dial_time di), rt_pid = Some p\<rparr>"
  let ?up = "put_slot i ?row (ensure_slot_proxy env i [] ?ex)"
  have dev: "str_or_empty (dgetN (slot_row_of env i node (dial_time di)) ''device'') = slot_device env i"
    "int_or_zero (dgetN (slot_row_of env i node (dial_time di)) ''table'') = Inr (slot_table env i)"
    by (simp_all add: slot_row_of_def slot_device_def int_or_zero_def)
  have "one_more ?ex ?up (slot_device env i) (slot_table env i)"
    unfolding one_more_def
    by (rule exI [of _ "Slot i"])
      (simp add: same_started [OF g'] g(3) held_put_slot fresh_started_row [OF g'] dev)
  then have up: "exits_inv env ?up"
    using g(1,4) rows free_resource_same [OF same] by (intro inv_one_more [OF inv]) (simp_all add: rows_put_slot)
  have "snd (bring_up_reserved_slot env i node di ex) = (if \<not> dial_written di then call (Reap_Slot i) ex
      else if \<not> dial_routed di then cleanup_policy_routing (slot_table env i) (stop_process (Some p) ?ex) else ?up)"
    using Some by (simp add: bring_up_reserved_slot_def Let_def)
  with assms(1) inv_stop [OF inv, of "Some p"] up show ?thesis by (simp only: inv_routing split: if_split) simp
qed (use assms(1) in \<open>simp add: bring_up_reserved_slot_def\<close>)

lemma row_held_standby_proxy [simp]: "row_held (ensure_dedicated_standby_proxy j ex) r = row_held ex r"
  by (auto simp: row_held_def alive_def ensure_dedicated_standby_proxy_def split: option.split)

lemma delete_sub: "set (AList.delete k xs) \<subseteq> set xs"
  by (induction xs) auto

lemma stop_fields [simp]:
  "main_pid (stop_process q ex) = main_pid ex" "slot_rows (stop_process q ex) = slot_rows ex"
  "standby_rows (stop_process q ex) = standby_rows ex"
  "main_pid (cleanup_policy_routing t ex) = main_pid ex" "slot_rows (cleanup_policy_routing t ex) = slot_rows ex"
  "standby_rows (cleanup_policy_routing t ex) = standby_rows ex"
  by (simp_all add: stop_process_def cleanup_policy_routing_def split: option.split)

lemma tear_down_standby_fields [simp]:
  "main_pid (snd (tear_down_dedicated_standby env j keep ex)) = main_pid ex"
  "slot_rows (snd (tear_down_dedicated_standby env j keep ex)) = slot_rows ex"
  "standby_rows (snd (tear_down_dedicated_standby env j keep ex)) = AList.delete j (standby_rows ex)"
  by (simp_all add: tear_down_dedicated_standby_def Let_def)

lemma fresh_tear_down_standby: "fresh_pid ex p \<Longrightarrow> fresh_pid (snd (tear_down_dedicated_standby env j keep ex)) p"
  using delete_sub [of j "standby_rows ex"] unfolding fresh_pid_def tear_down_standby_fields by blast

lemma standby_row_cells:
  "str_or_empty (dgetN (standby_row_of env j d t node e now) ''device'') = d"
  "int_or_zero (dgetN (standby_row_of env j d t node e now) ''table'') = Inr t"
  by (simp_all add: standby_row_of_def int_or_zero_def)

lemma inv_standby_up:
  assumes inv: "exits_inv env ex" and env: "env_ok env" and guard: "exit_guard env (StandbyUp j node di) ex"
  shows "exits_inv env (snd (bring_up_reserved_standby env j node di ex))"
proof -
  have g: "standby_in env j" "fresh_dial di ex" using guard by (auto simp: exit_guard_def)
  let ?a = "snd (tear_down_dedicated_standby env j False ex)"
  have a: "exits_inv env ?a" "held ?a (Standby j) = None"
    using inv_tear_down_standby [OF inv] held_tear_down_standby by auto
  obtain d t b where b: "prepare_standby_resource env ?a j = ((d, t), b)" by (metis surj_pair)
  have same: "held b = held ?a" "rows_ok env b" "standby_rows b = standby_rows ?a" "slot_rows b = slot_rows ?a" "main_pid b = main_pid ?a"
    using b a(1) by (auto simp: prepare_standby_resource_def Let_def exits_inv_def)
  have free: "free_resource b d t"
    using prepared_free [OF _ env _ b] a(1) g(1) by (auto simp: exits_inv_def standby_in_def)
  have invb: "exits_inv env b" by (rule inv_same [OF a(1) same(1,2)])
  show ?thesis
  proof (cases "dial_pid di")
    case (Some p)
    let ?b = "call (Reap_Standby j d) b"
    have f: "fresh_pid ?b p"
      using fresh_tear_down_standby [of ex p env j False] g(2) Some same by (simp add: fresh_dial_def fresh_pid_def)
    let ?c = "setup_policy_routing (dial_routed di) d t (started p ?b)"
    have c: "held ?c = held b" "rows_ok env ?c" using same_started [OF f] same(2) by auto
    have invc: "exits_inv env ?c" by (rule inv_same [OF invb c])
    let ?row = "\<lparr>rt_row = standby_row_of env j d t node (dial_egress di) (dial_time di), rt_pid = Some p\<rparr>"
    let ?up = "ensure_dedicated_standby_proxy j (put_standby j ?row ?c)"
    have "one_more ?c ?up d t"
      unfolding one_more_def
      by (rule exI [of _ "Standby j"])
        (simp add: same_started [OF f] same(1) a(2) held_put_standby fresh_started_row [OF f] standby_row_cells)
    then have up: "exits_inv env ?up"
      using free c(2) g(1) free_resource_same [OF c(1)] by (intro inv_one_more [OF invc]) (simp_all add: rows_put_standby)
    have "exits_inv env (snd (dial_standby env j node di d t p ?c))"
      using inv_stop [OF invc, of "Some p"] up
        inv_tear_down_standby [of env "report_failure node ''candidate_egress_failed'' ?up" j False]
      unfolding dial_standby_def Let_def by (simp only: inv_routing snd_conv split: if_split) simp
    then show ?thesis
      using b Some invb by (simp add: bring_up_reserved_standby_def)
  qed (use b invb in \<open>simp add: bring_up_reserved_standby_def\<close>)
qed

text \<open>The main connection.\<close>

lemma held_main [simp]:
  "held (ex\<lparr>main_pid := q, main_node := n, main_device := d, main_table := t\<rparr>) h =
     (if h = Main then (if alive ex q then Some (if d = [] then ''tun0'' else d, or_table t 100) else None) else held ex h)"
  by (auto simp: held_defs split: holder.split option.split)

lemma main_stopped [simp]: "held (stop_active_openvpn ex) Main = None"
  by (simp add: stop_active_openvpn_def alive_def)

lemma stop_main_fields [simp]:
  "main_pid (stop_active_openvpn ex) = None" "slot_rows (stop_active_openvpn ex) = slot_rows ex"
  "standby_rows (stop_active_openvpn ex) = standby_rows ex"
  by (simp_all add: stop_active_openvpn_def)

lemma fresh_stop_main: "fresh_pid ex p \<Longrightarrow> fresh_pid (stop_active_openvpn ex) p"
  by (simp add: fresh_pid_def)

lemma alive_routed [simp]: "alive (setup_policy_routing ok d t ex) = alive ex" "alive (ensure_slot_proxy env i d ex) = alive ex"
  "alive (put_slot i r ex) = alive ex" "alive (ex\<lparr>resources := q\<rparr>) = alive ex"
  by (auto simp: alive_def fun_eq_iff setup_policy_routing_def cleanup_policy_routing_def ensure_slot_proxy_def put_slot_def
      Let_def split: option.split)

lemma inv_main_up:
  assumes "exits_inv env ex" "exit_guard env (MainUp node di) ex"
  shows "exits_inv env (snd (connect_main node di ex))"
proof -
  let ?a = "stop_active_openvpn ex"
  have a: "exits_inv env ?a" by (rule inv_stop_main [OF assms(1)])
  have g: "fresh_dial di ex" "free_resource ?a ''tun0'' 100"
    using assms(2) by (auto simp: exit_guard_def intro!: unused_free)
  show ?thesis
  proof (cases "dial_pid di")
    case (Some p)
    have f: "fresh_pid ?a p" using g(1) Some by (auto simp: fresh_dial_def intro: fresh_stop_main)
    let ?b = "(started p ?a)\<lparr>main_pid := Some p, main_node := node, main_device := ''tun0'', main_table := 100\<rparr>"
    let ?c = "setup_policy_routing (dial_routed di) ''tun0'' 100 ?b"
    have "one_more ?a ?b ''tun0'' 100"
      unfolding one_more_def
      by (rule exI [of _ Main]) (simp add: same_started [OF f] or_table_def)
    then have b: "exits_inv env ?b"
      using a by (intro inv_one_more [OF a _ g(2)]) (auto simp: exits_inv_def)
    have c: "exits_inv env ?c" by (rule inv_same [OF b]) (use b in \<open>simp_all add: exits_inv_def\<close>)
    have "fewer_tunnels (stop_process (Some p) ?c)
        ((stop_process (Some p) ?c)\<lparr>main_pid := None, main_node := [], main_device := ''tun0'', main_table := 100\<rparr>)"
      by (simp add: fewer_tunnels_def alive_def)
    then have d: "exits_inv env ((stop_process (Some p) ?c)\<lparr>main_pid := None, main_node := [], main_device := ''tun0'', main_table := 100\<rparr>)"
      by (rule inv_fewer [OF inv_stop [OF c]]) (use c in \<open>simp add: exits_inv_def\<close>)
    have "snd (connect_main node di ex) = (if \<not> dial_written di then ?a else if dial_routed di then ?c
        else (stop_process (Some p) ?c)\<lparr>main_pid := None, main_node := [], main_device := ''tun0'', main_table := 100\<rparr>)"
      using Some by (simp add: connect_main_def Let_def)
    with a c d show ?thesis by presburger
  qed (use a in \<open>simp add: connect_main_def Let_def\<close>)
qed

text \<open>Promotions move a live tunnel; its device and table were its own.\<close>

lemma moved_free:
  assumes "disjoint_tunnels ex" "held ex h = Some (d, t)" "fewer_tunnels ex ex'" "held ex' h = None"
  shows "free_resource ex' d t"
  unfolding free_resource_def
proof (intro conjI allI impI)
  show "d \<noteq> []" "t \<noteq> 0" using disjoint_proper [OF assms(1,2)] by auto
  fix k e u assume k: "held ex' k = Some (e, u)"
  with assms(4) have "k \<noteq> h" by auto
  moreover have "held ex k = Some (e, u)" using assms(3) k unfolding fewer_tunnels_def by (metis option.distinct(1))
  ultimately show "e \<noteq> d" "u \<noteq> t" using disjointD [OF assms(1,2)] by blast+
qed

lemma torn_down_row: "fst (tear_down_dedicated_standby env j keep ex) = map_of (standby_rows ex) j"
  by (simp add: tear_down_dedicated_standby_def Let_def)

lemma alive_kept: "alive (snd (tear_down_dedicated_standby env j True ex)) = alive ex"
  by (auto simp: tear_down_dedicated_standby_def Let_def alive_def fun_eq_iff split: option.split)

lemma held_standby: "map_of (standby_rows ex) j = Some r \<Longrightarrow> alive ex (rt_pid r) \<Longrightarrow> held ex (Standby j) = Some (row_device r, row_table r)"
  by (simp add: held_def row_held_def)

lemma torn_down_free:
  assumes "disjoint_tunnels ex" "map_of (standby_rows ex) j = Some r" "alive ex (rt_pid r)"
    "fewer_tunnels (snd (tear_down_dedicated_standby env j True ex)) ex'"
  shows "free_resource ex' (row_device r) (row_table r)"
proof (rule moved_free [OF assms(1) held_standby [OF assms(2,3)]])
  show "fewer_tunnels ex ex'" by (rule fewer_trans [OF fewer_tear_down_standby assms(4)])
  show "held ex' (Standby j) = None"
    using assms(4) held_tear_down_standby [of env j True ex] unfolding fewer_tunnels_def by metis
qed

lemma promote_to_slot_cases:
  "\<exists>d t. promote_to_slot env index slot now ex =
     (let a = snd (tear_down_dedicated_standby env index True ex) in
      case map_of (standby_rows ex) index of None \<Rightarrow> (False, a)
      | Some r \<Rightarrow> if \<not> alive ex (rt_pid r) then (False, a)
          else (True, promotion_calls index slot (rt_row r) (take_over_slot env index slot d t r now (tear_down_slot env slot False a))))"
  unfolding promote_to_slot_def Let_def
  using torn_down_row [of env index True ex] alive_kept [of env index ex]
  by (cases "tear_down_dedicated_standby env index True ex") (auto split: option.split)

lemma promoted_cells:
  "row_device \<lparr>rt_row = promoted_row env slot (rt_row r) now, rt_pid = q\<rparr> = row_device r"
  "row_table \<lparr>rt_row = promoted_row env slot (rt_row r) now, rt_pid = q\<rparr> = row_table r"
  by (simp_all add: row_device_def row_table_def promoted_row_def)

lemma held_take_over:
  "held (take_over_slot env index slot d t r now ex) h =
     (if h = Slot slot then if alive ex (rt_pid r) then Some (row_device r, row_table r) else None else held ex h)"
  by (simp add: take_over_slot_def held_put_slot row_held_def promoted_cells)

lemma inv_to_slot:
  assumes inv: "exits_inv env ex" and slot: "slot_in env slot"
  shows "exits_inv env (snd (promote_to_slot env index slot now ex))"
proof -
  let ?a = "snd (tear_down_dedicated_standby env index True ex)"
  let ?b = "tear_down_slot env slot False ?a"
  have a: "exits_inv env ?a" and b: "exits_inv env ?b"
    using inv by (simp_all add: inv_tear_down_standby inv_tear_down_slot)
  have up: "exits_inv env (take_over_slot env index slot d t r now ?b)"
    if r: "map_of (standby_rows ex) index = Some r" "alive ex (rt_pid r)" for d t r
  proof (rule inv_one_more [OF b])
    show "one_more ?b (take_over_slot env index slot d t r now ?b) (row_device r) (row_table r)"
      unfolding one_more_def by (rule exI [of _ "Slot slot"]) (simp add: held_take_over held_tear_down_slot)
    show "free_resource ?b (row_device r) (row_table r)"
      using inv r by (intro torn_down_free [OF _ r fewer_tear_down_slot]) (simp add: exits_inv_def)
    show "rows_ok env (take_over_slot env index slot d t r now ?b)"
      using b slot by (simp add: take_over_slot_def rows_put_slot exits_inv_def)
  qed
  from promote_to_slot_cases [of env index slot now ex] a up show ?thesis
    by (auto simp: Let_def split: option.splits if_splits)
qed

lemma promote_to_main_cases:
  "\<exists>d t. promote_to_main env index checks ex =
     (let a = snd (tear_down_dedicated_standby env index True ex) in
      case map_of (standby_rows ex) index of None \<Rightarrow> (False, a)
      | Some r \<Rightarrow> if \<not> alive ex (rt_pid r) then (False, a)
          else (let m = main_calls (rt_row r) (take_over_main env index d t r (stop_active_openvpn a))
            in if list_ex id (take 3 checks) then (True, main_healthy_calls index (rt_row r) m) else (False, stop_active_openvpn m)))"
  unfolding promote_to_main_def Let_def
  using torn_down_row [of env index True ex] alive_kept [of env index ex]
  by (cases "tear_down_dedicated_standby env index True ex") (auto split: option.split)

lemma inv_to_main:
  assumes inv: "exits_inv env ex"
  shows "exits_inv env (snd (promote_to_main env index checks ex))"
proof -
  let ?a = "snd (tear_down_dedicated_standby env index True ex)"
  let ?b = "stop_active_openvpn ?a"
  have a: "exits_inv env ?a" and b: "exits_inv env ?b"
    using inv by (simp_all add: inv_tear_down_standby inv_stop_main)
  have up: "exits_inv env (take_over_main env index d t r ?b)"
    if r: "map_of (standby_rows ex) index = Some r" "alive ex (rt_pid r)" for d t r
  proof (rule inv_one_more [OF b])
    show free: "free_resource ?b (row_device r) (row_table r)"
      using inv r by (intro torn_down_free [OF _ r fewer_stop_main]) (simp add: exits_inv_def)
    show "one_more ?b (take_over_main env index d t r ?b) (row_device r) (row_table r)"
      unfolding one_more_def using free_resourceD(1) [OF free]
      by (intro exI [of _ Main]) (simp add: take_over_main_def Let_def or_table_def)
    show "rows_ok env (take_over_main env index d t r ?b)"
      using b by (simp add: take_over_main_def Let_def exits_inv_def)
  qed
  from promote_to_main_cases [of env index checks ex] a up inv_stop_main show ?thesis
    by (auto simp: Let_def split: option.splits if_splits)
qed

lemma set_egress_cells:
  "row_device (r\<lparr>rt_row := set_egress ok ip now (rt_row r)\<rparr>) = row_device r"
  "row_table (r\<lparr>rt_row := set_egress ok ip now (rt_row r)\<rparr>) = row_table r"
  by (simp_all add: row_device_def row_table_def set_egress_def Let_def)

lemma put_checked_same:
  assumes "map_of (standby_rows ex) j = Some r"
  shows "held (put_standby j (r\<lparr>rt_row := set_egress ok ip now (rt_row r)\<rparr>) ex) = held ex"
proof
  fix h
  show "held (put_standby j (r\<lparr>rt_row := set_egress ok ip now (rt_row r)\<rparr>) ex) h = held ex h"
    unfolding held_put_standby using assms by (simp add: held_def row_held_def set_egress_cells)
qed

lemma inv_check:
  assumes "exits_inv env ex"
  shows "exits_inv env (snd (healthy_dedicated_standby j route_ok probes now ex))"
proof -
  have "exits_inv env (put_standby j (r\<lparr>rt_row := set_egress ok ip now (rt_row r)\<rparr>) ex)"
    if r: "map_of (standby_rows ex) j = Some r" for r ok ip
  proof (rule inv_same [OF assms put_checked_same [OF r]])
    have "j \<in> fst ` set (standby_rows ex)" using map_of_SomeD [OF r] by force
    then have "standby_in env j" using assms by (auto simp: exits_inv_def rows_ok_def standby_in_def)
    then show "rows_ok env (put_standby j (r\<lparr>rt_row := set_egress ok ip now (rt_row r)\<rparr>) ex)"
      using assms by (simp add: exits_inv_def rows_put_standby)
  qed
  with assms show ?thesis
    unfolding healthy_dedicated_standby_def by (auto split: option.split)
qed

lemma inv_found: "exits_inv env ex \<Longrightarrow> exits_inv env (snd (healthy_standby_index found now ex))"
proof (induction found now ex rule: healthy_standby_index.induct)
  case (2 j route_ok probes rest now ex)
  obtain ok ex' where r: "healthy_dedicated_standby j route_ok probes now ex = (ok, ex')" by fastforce
  with inv_check [OF "2.prems", of j route_ok probes now] have "exits_inv env ex'" by simp
  with r "2.IH" show ?case by (cases ok) auto
qed simp

lemma inv_promotions:
  assumes "exits_inv env ex"
  shows "slot_in env slot \<Longrightarrow> exits_inv env (snd (promote_dedicated_standby_to_slot env found unlocked slot now ex))"
    "exits_inv env (snd (promote_dedicated_standby_to_main env found unlocked checks now ex))"
  using inv_found [OF assms, of found now] inv_to_slot inv_to_main
  by (cases "healthy_standby_index found now ex",
      auto simp: promote_dedicated_standby_to_slot_def promote_dedicated_standby_to_main_def split: option.split)+

lemma exit_step_keeps:
  assumes "env_ok env" "exit_guard env x ex" "exits_inv env ex"
  shows "exits_inv env (exit_step env x ex)"
proof (cases x)
  case (SlotMark i row)
  have "held (put_slot i \<lparr>rt_row = row, rt_pid = None\<rparr> ex) h \<in> {None, held ex h}" for h
    by (simp add: held_put_slot row_held_def alive_def)
  then have "fewer_tunnels ex (put_slot i \<lparr>rt_row = row, rt_pid = None\<rparr> ex)" by (auto simp: fewer_tunnels_def)
  from inv_fewer [OF assms(3) this] assms SlotMark show ?thesis
    by (simp add: exit_step_def exit_guard_def exits_inv_def rows_put_slot)
qed (use assms in \<open>simp_all add: exit_step_def inv_standby_up inv_tear_down_standby inv_slot_up inv_tear_down_slot
    inv_main_up inv_stop_main inv_found inv_promotions\<close>, simp add: exit_guard_def inv_promotions)

text \<open>The interface of the library on the operations of the manager.\<close>

interpretation tunnels: guarded_invariant "exit_step env" "\<lambda>x ex. env_ok env \<and> exit_guard env x ex" "exits_inv env" for env
  by unfold_locales (simp add: exit_step_keeps)

definition no_exits :: exits where
  "no_exits = \<lparr>main_pid = None, main_node = [], main_device = ''tun0'', main_table = 100, slot_rows = [], standby_rows = [],
     resources = [], slot_proxies = [], standby_proxies = [], running_pids = {}, route_tables = [], calls = []\<rparr>"

text \<open>Every operation of a history is allowed in the state it starts in.\<close>

fun exits_allowed :: "exit_env \<Rightarrow> exit_op list \<Rightarrow> exits \<Rightarrow> bool" where
  "exits_allowed env [] ex = True"
| "exits_allowed env (x # xs) ex = (exit_guard env x ex \<and> exits_allowed env xs (exit_step env x ex))"

lemma exits_allowed_prefix: "exits_allowed env (pre @ x # post) ex \<Longrightarrow> exit_guard env x (fold (exit_step env) pre ex)"
  by (induction pre arbitrary: ex) auto

lemma no_exits_inv: "env_ok env \<Longrightarrow> exits_inv env no_exits"
  by (auto simp: exits_inv_def disjoint_tunnels_def rows_ok_def no_exits_def held_defs split: holder.split)

section \<open>Properties\<close>

text \<open>C12. Tunnels stay apart: over any history of dials, promotions of standbys to slots and to the
  main connection, health checks, tear-downs and marks that starts with no tunnel, in which a slot
  or the main connection is dialed only while nothing lives on its device and table, no two live
  tunnels ever share a device or a routing table, and each has one. For standbys nothing has to be
  required: the search for a free resource always ends at an unused one.\<close>

theorem tunnels_stay_apart:
  assumes "env_ok env" "exits_allowed env xs no_exits"
  shows "disjoint_tunnels (fold (exit_step env) xs no_exits)"
proof -
  have "exits_inv env (fold (exit_step env) xs no_exits)"
  proof (rule tunnels.run [OF no_exits_inv [OF assms(1)]])
    fix pre x post assume "xs = pre @ x # post"
    with assms exits_allowed_prefix show "env_ok env \<and> exit_guard env x (fold (exit_step env) pre no_exits)" by blast
  qed
  then show ?thesis by (simp add: exits_inv_def)
qed

definition sample_env :: exit_env where
  "sample_env = \<lparr>dev_base = 10, table_base = 110, port_base = 7930, slots_max = 4\<rparr>"

definition sample_dial :: "nat \<Rightarrow> dial" where
  "sample_dial p = \<lparr>dial_written = True, dial_pid = Some p, dial_failure = [], dial_routed = True, dial_egress = Some ''1.2.3.4'', dial_time = 0\<rparr>"

definition sample_ops :: "exit_op list" where
  "sample_ops = [StandbyUp 1 [] (sample_dial 2), ToSlot [(1, True, [None, Some ''1.2.3.4''])] True 0 6,
     StandbyUp 1 [] (sample_dial 3), MainUp ''n'' (sample_dial 5)]"

theorem tunnels_stay_apart_witness:
  "disjoint_tunnels (fold (exit_step sample_env) sample_ops no_exits)"
  by (rule tunnels_stay_apart) code_simp+

lemma alive_other: "p \<noteq> q \<Longrightarrow> alive ex q \<Longrightarrow> alive (stop_process p ex) q"
  by (auto simp: alive_def stop_process_def split: option.splits)

lemma alive_tear_down_slot:
  "alive ex q \<Longrightarrow> (\<forall>s. map_of (slot_rows ex) i = Some s \<longrightarrow> rt_pid s \<noteq> q) \<Longrightarrow> alive (tear_down_slot env i b ex) q"
  by (auto simp: alive_def tear_down_slot_def Let_def cleanup_policy_routing_def stop_process_def split: option.splits)

text \<open>C27. A promotion hands the running tunnel over: when the standby's process runs and is not
  the slot's own, the promotion succeeds, the slot holds exactly the device and table the standby
  held, its listener is bound to that device, the standby holds nothing, and the resource kept for
  the standby is the device and table the slot had before.\<close>

theorem promotion_hands_tunnel_over:
  assumes r: "map_of (standby_rows ex) j = Some r" "alive ex (rt_pid r)"
    and s: "map_of (slot_rows ex) i = Some s" "rt_pid s \<noteq> rt_pid r"
      "row_device s \<noteq> []" "int_or_zero (dgetN (rt_row s) ''table'') = Inr t" "t \<noteq> 0"
    and d: "row_device r \<noteq> []"
    and ex': "ex' = snd (promote_to_slot env j i now ex)"
  shows "fst (promote_to_slot env j i now ex)
    \<and> held ex' (Slot i) = held ex (Standby j) \<and> held ex (Standby j) = Some (row_device r, row_table r)
    \<and> held ex' (Standby j) = None
    \<and> map_of (slot_proxies ex') i = Some (row_device r)
    \<and> map_of (resources ex') j = Some (row_device s, t)"
proof -
  let ?a = "snd (tear_down_dedicated_standby env j True ex)"
  let ?b = "tear_down_slot env i False ?a"
  have ab: "alive ?a = alive ex" "slot_rows ?a = slot_rows ex" by (simp_all add: alive_kept)
  have old: "str_or_empty (dgetN (slot_row ex i) ''device'') = row_device s"
    "int_or_zero (dgetN (slot_row ex i) ''table'') = Inr t"
    using s by (simp_all add: slot_row_def row_device_def)
  have p: "promote_to_slot env j i now ex = (True, promotion_calls j i (rt_row r) (take_over_slot env j i (row_device s) t r now ?b))"
    using torn_down_row [of env j True ex] alive_kept [of env j ex] r s old
    unfolding promote_to_slot_def Let_def or_table_def
    by (cases "tear_down_dedicated_standby env j True ex") simp
  have "alive ?b (rt_pid r)" using r s ab by (intro alive_tear_down_slot) auto
  moreover have "held ?b (Standby j) = None"
    using fewer_tear_down_slot [of ?a env i False] held_tear_down_standby [of env j True ex] unfolding fewer_tunnels_def by metis
  ultimately show ?thesis
    using ex' p held_standby [OF r] d
    by (simp add: held_take_over) (simp add: take_over_slot_def ensure_slot_proxy_def put_slot_def update_conv')
qed

definition sample_slot :: "runtime" where
  "sample_slot = \<lparr>rt_row = slot_row_of sample_env 0 [] 0, rt_pid = Some 1\<rparr>"

definition sample_standby :: "runtime" where
  "sample_standby = \<lparr>rt_row = standby_row_of sample_env 1 ''tun15'' 115 [] (Some ''1.2.3.4'') 0, rt_pid = Some 2\<rparr>"

definition sample_pair :: exits where
  "sample_pair = put_standby 1 sample_standby (put_slot 0 sample_slot (started 2 (started 1 no_exits)))"

theorem promotion_hands_tunnel_over_witness:
  "held (snd (promote_to_slot sample_env 1 0 3 sample_pair)) (Slot 0) = held sample_pair (Standby 1)
    \<and> map_of (resources (snd (promote_to_slot sample_env 1 0 3 sample_pair))) 1 = Some (''tun10'', 110)"
proof -
  have h: "map_of (standby_rows sample_pair) 1 = Some sample_standby" "alive sample_pair (rt_pid sample_standby)"
    "map_of (slot_rows sample_pair) 0 = Some sample_slot" "rt_pid sample_slot \<noteq> rt_pid sample_standby"
    "row_device sample_slot \<noteq> []" "int_or_zero (dgetN (rt_row sample_slot) ''table'') = Inr 110" "(110 :: int) \<noteq> 0"
    "row_device sample_standby \<noteq> []" "row_device sample_slot = ''tun10''"
    by code_simp+
  from promotion_hands_tunnel_over [OF h(1-8) refl, of sample_env 3] h(9) show ?thesis by simp
qed

end
