(* ===== verification/Update_Manifest.thy ===== *)
theory Update_Manifest
  imports Json_Codec Effects
begin

text \<open>
  The pure part of the project updater (\<open>deploy/vps/project_update.py\<close>): requests, versions and
  release lists, the manifest of a release after its signature was checked, and the assessment
  whether this host can take the release. An exception is a value: an \<open>UpdateError\<close> with its code,
  any other exception of Python, or the end of the process, which nothing catches.
\<close>

datatype upexc = UpdateError string | OtherError | Killed

definition upfail :: "string \<Rightarrow> upexc + 'a" where
  "upfail c = Inl (UpdateError c)"

definition up_bind :: "upexc + 'a \<Rightarrow> ('a \<Rightarrow> upexc + 'b) \<Rightarrow> upexc + 'b" where
  "up_bind r f = (case r of Inl e \<Rightarrow> Inl e | Inr a \<Rightarrow> f a)"

lemma up_bind_simps [simp]: "up_bind (Inl e) f = Inl e" "up_bind (Inr a) f = f a"
  by (simp_all add: up_bind_def)

lemma up_bind_Inr: "up_bind r f = Inr b \<longleftrightarrow> (\<exists>a. r = Inr a \<and> f a = Inr b)"
  by (cases r) auto

definition up_guard :: "bool \<Rightarrow> string \<Rightarrow> (upexc + 'a) \<Rightarrow> upexc + 'a" where
  "up_guard b c r = (if b then r else upfail c)"

lemma up_guard_Inr: "up_guard b c r = Inr a \<longleftrightarrow> b \<and> r = Inr a"
  by (simp add: up_guard_def upfail_def)

section \<open>Versions\<close>

definition hex_text_char :: "char \<Rightarrow> bool" where
  "hex_text_char c = (digit_char c \<or> c \<in> set ''abcdef'')"

definition hex_of :: "nat \<Rightarrow> string \<Rightarrow> bool" where
  "hex_of n s = (length s = n \<and> list_all hex_text_char s)"

text \<open>A pattern on a value that must be a string; other types raise.\<close>

definition fullmatch :: "(string \<Rightarrow> bool) \<Rightarrow> pyval \<Rightarrow> upexc + bool" where
  "fullmatch p v = (case v of PStr s \<Rightarrow> Inr (p s) | _ \<Rightarrow> Inl OtherError)"

definition canonical_number :: "string \<Rightarrow> bool" where
  "canonical_number s = (s \<noteq> [] \<and> list_all digit_char s \<and> (hd s = CHR ''0'' \<longrightarrow> s = ''0''))"

definition version_text :: "string \<Rightarrow> string list option" where
  "version_text s =
     (let n = length s in
      if starts_with ''v'' s \<and> 5 \<le> n \<and> drop (n - 4) s = ''-vps'' then
        (let ps = py_split CHR ''.'' (drop 1 (take (n - 4) s)) in
         if length ps = 3 \<and> list_all canonical_number ps then Some ps else None)
      else None)"

definition is_version :: "string \<Rightarrow> bool" where
  "is_version s = (version_text s \<noteq> None)"

definition project_tag :: "string \<Rightarrow> string option" where
  "project_tag tag = (if starts_with ''project-'' tag \<and> is_version (drop 8 tag) then Some (drop 8 tag) else None)"

definition version_tuple :: "string \<Rightarrow> upexc + nat list" where
  "version_tuple s = (case version_text s of Some ps \<Rightarrow> Inr (map digits_val ps) | None \<Rightarrow> upfail ''version_invalid'')"

text \<open>Tuples are compared from the left.\<close>

fun tuple_less :: "nat list \<Rightarrow> nat list \<Rightarrow> bool" where
  "tuple_less (a # as) (b # bs) = (a < b \<or> a = b \<and> tuple_less as bs)"
| "tuple_less [] (b # bs) = True"
| "tuple_less _ [] = False"

definition is_newer :: "string \<Rightarrow> string \<Rightarrow> upexc + bool" where
  "is_newer target current =
     (if starts_with ''legacy-'' current then Inr True
      else if \<not> is_version current then Inr False
      else up_bind (version_tuple target) (\<lambda>t. up_bind (version_tuple current) (\<lambda>c. Inr (tuple_less c t))))"

section \<open>Requests and release lists\<close>

definition validate_request :: "pyval \<Rightarrow> upexc + pydict" where
  "validate_request v = (case v of
     PDict r \<Rightarrow>
       up_bind (fullmatch (hex_of 64) (dget_or r ''runId'' (PStr []))) (\<lambda>id_ok.
       if \<not> id_ok \<or> \<not> py_eq (dgetN r ''kind'') (PStr ''project'') \<or> truthy (dget_or r ''dryRun'' (PBool False))
       then upfail ''invalid_request''
       else if py_eq (dgetN r ''action'') (PStr ''check'') \<and> \<not> truthy (dgetN r ''version'') then Inr r
       else if py_eq (dgetN r ''action'') (PStr ''apply'') then
         up_bind (fullmatch is_version (dget_or r ''version'' (PStr []))) (\<lambda>ok.
         if ok then Inr r else upfail ''invalid_request'')
       else upfail ''invalid_request'')
   | _ \<Rightarrow> upfail ''invalid_request'')"

definition release_step :: "(string \<times> string) list \<Rightarrow> pyval \<Rightarrow> (string \<times> string) list" where
  "release_step candidates v = (case v of
     PDict item \<Rightarrow>
       if truthy (dgetN item ''draft'') \<or> truthy (dgetN item ''prerelease'') then candidates
       else (case dget_or item ''tag_name'' (PStr []) of
           PStr tag \<Rightarrow>
             let version = (case project_tag tag of Some v \<Rightarrow> v | None \<Rightarrow> tag) in
             if is_version version \<and> (map_of candidates version = None \<or> starts_with ''project-'' tag)
             then AList.update version tag candidates else candidates
         | _ \<Rightarrow> candidates)
   | _ \<Rightarrow> candidates)"

definition release_versions :: "pyval list \<Rightarrow> (string \<times> string) list" where
  "release_versions releases = foldl release_step [] releases"

text \<open>\<open>max(candidates, key=version_tuple)\<close>: the first of the greatest.\<close>

definition newest_step :: "string option \<Rightarrow> string \<Rightarrow> string option" where
  "newest_step best v = (case best of None \<Rightarrow> Some v
     | Some b \<Rightarrow> (case (version_tuple b, version_tuple v) of
         (Inr tb, Inr tv) \<Rightarrow> if tuple_less tb tv then Some v else Some b
       | _ \<Rightarrow> Some b))"

definition newest :: "string list \<Rightarrow> string option" where
  "newest vs = foldl newest_step None vs"

section \<open>The manifest\<close>

text \<open>\<open>isinstance(v, int)\<close> holds for truth values too.\<close>

definition int_like :: "pyval \<Rightarrow> int option" where
  "int_like v = (case v of PInt i \<Rightarrow> Some i | PBool b \<Rightarrow> Some (if b then 1 else 0) | _ \<Rightarrow> None)"

definition as_dict :: "pyval \<Rightarrow> pydict option" where
  "as_dict v = (case v of PDict d \<Rightarrow> Some d | _ \<Rightarrow> None)"

definition is_text :: "pyval \<Rightarrow> bool" where
  "is_text v = (case v of PStr s \<Rightarrow> True | _ \<Rightarrow> False)"

definition asset_ok :: "string \<Rightarrow> pyval \<Rightarrow> bool" where
  "asset_ok name v = (case as_dict v of
     Some a \<Rightarrow> py_eq (dgetN a ''name'') (PStr name)
       \<and> (case dgetN a ''sha256'' of PStr s \<Rightarrow> hex_of 64 s | _ \<Rightarrow> False)
   | None \<Rightarrow> False)"

definition manifest_assets :: "pydict \<Rightarrow> string \<Rightarrow> upexc + unit" where
  "manifest_assets assets tag =
     up_guard (asset_ok ''aimili-vps-package.tar.gz'' (dget_or assets ''package'' (PDict []))
       \<and> asset_ok ''x-ui-custom-linux-amd64'' (dget_or assets ''xui'' (PDict []))) ''invalid_payload''
     (case as_dict (dgetN assets ''xui'') of
        None \<Rightarrow> upfail ''invalid_payload''
      | Some xui \<Rightarrow> up_bind (fullmatch is_version (dget_or xui ''release'' (PStr tag))) (\<lambda>ok.
          up_guard (ok \<and> (dgetN assets ''updater'' = PNone \<or> asset_ok ''project-update-engine.py'' (dgetN assets ''updater'')))
            ''invalid_payload'' (Inr ())))"

text \<open>The document after its signature was accepted.\<close>

definition check_manifest :: "pyval \<Rightarrow> string \<Rightarrow> pyval option \<Rightarrow> upexc + pydict" where
  "check_manifest release_tag tag parsed = (case parsed of
     Some (PDict m) \<Rightarrow> (case as_dict (dgetN m ''assets'') of
         None \<Rightarrow> upfail ''invalid_payload''
       | Some assets \<Rightarrow>
           up_guard (py_eq (dgetN m ''schemaVersion'') (PInt 1) \<and> py_eq (dgetN m ''release'') (PStr tag) \<and> is_version tag
               \<and> (release_tag = PNone \<or> py_eq (dget_or m ''releaseTag'' release_tag) release_tag)
               \<and> (case int_like (dgetN m ''updateContract'') of Some n \<Rightarrow> 1 \<le> n | None \<Rightarrow> False)) ''invalid_payload''
           (up_bind (fullmatch (hex_of 40) (dget_or m ''gatewayCommit'' (PStr []))) (\<lambda>commit.
             up_guard commit ''invalid_payload'' (up_bind (manifest_assets assets tag) (\<lambda>_. Inr m)))))
   | _ \<Rightarrow> upfail ''invalid_payload'')"

text \<open>A file as it is read for JSON: at most 65536 bytes.\<close>

definition read_json_text :: "string \<Rightarrow> pyval option" where
  "read_json_text body = (if length body \<le> 65536 then json_loads body else None)"

text \<open>The pattern of a version raises on a tag that is no string.\<close>

definition check_tag :: "pyval \<Rightarrow> pyval \<Rightarrow> pyval option \<Rightarrow> upexc + pydict" where
  "check_tag release_tag tag parsed = (case tag of
     PStr t \<Rightarrow> check_manifest release_tag t parsed
   | _ \<Rightarrow> (case parsed of
       Some (PDict m) \<Rightarrow>
         if as_dict (dgetN m ''assets'') \<noteq> None \<and> py_eq (dgetN m ''schemaVersion'') (PInt 1) \<and> py_eq (dgetN m ''release'') tag
         then Inl OtherError else upfail ''invalid_payload''
     | _ \<Rightarrow> upfail ''invalid_payload''))"

definition verify_manifest :: "(string \<Rightarrow> string \<Rightarrow> bool) \<Rightarrow> string option \<Rightarrow> string option \<Rightarrow> pyval \<Rightarrow> pyval \<Rightarrow> upexc + pydict" where
  "verify_manifest signed body sig tag release_tag = (case (body, sig) of
     (Some b, Some s) \<Rightarrow>
       if signed b s then check_tag release_tag tag (read_json_text b) else upfail ''invalid_signature''
   | _ \<Rightarrow> upfail ''invalid_signature'')"

section \<open>Compatibility\<close>

record facts =
  f_platform :: string
  f_layout :: string
  f_schema :: "int option"
  f_free :: int
  f_updater :: int
  f_healthy :: bool
  f_unhealthy :: string
  f_os :: string

datatype report = Compatible bool | Blocked string string

definition component_actions :: "(string \<times> string list) list" where
  "component_actions =
     [(''gateway'', [''replace'', ''preserve'']), (''aimili-egress'', [''replace'', ''preserve'']),
      (''3x-ui'', [''replace'', ''preserve'']), (''protocol-helper'', [''replace'', ''preserve'']),
      (''account-helper'', [''replace'', ''preserve'']), (''updater'', [''replace'', ''preserve'']),
      (''xray'', [''preserve'']), (''caddy'', [''preserve'']), (''openvpn'', [''preserve'']), (''systemd'', [''preserve''])]"

definition required_actions :: "(string \<times> string) list" where
  "required_actions =
     [(''gateway'', ''replace''), (''aimili-egress'', ''replace''), (''3x-ui'', ''replace''), (''protocol-helper'', ''replace''),
      (''account-helper'', ''replace''), (''xray'', ''preserve''), (''caddy'', ''preserve''), (''openvpn'', ''preserve''),
      (''systemd'', ''preserve'')]"

definition actions_of :: "string \<Rightarrow> string list" where
  "actions_of name = (case map_of component_actions name of None \<Rightarrow> [] | Some as \<Rightarrow> as)"

text \<open>\<open>type(v) is int\<close>\<close>

definition exact_int :: "pyval \<Rightarrow> int option" where
  "exact_int v = (case v of PInt i \<Rightarrow> Some i | _ \<Rightarrow> None)"

definition blocked :: "string \<Rightarrow> upexc + report" where
  "blocked c = Inr (Blocked c [])"

text \<open>The loop over the components with the actions seen; a list or dictionary as an action
  cannot be looked up in a set.\<close>

fun check_components :: "(string \<times> string) list \<Rightarrow> pyval list \<Rightarrow> (upexc + report) + (string \<times> string) list" where
  "check_components seen [] = Inr seen"
| "check_components seen (v # vs) = (case as_dict v of
     None \<Rightarrow> Inl (blocked ''manifest_incompatible'')
   | Some item \<Rightarrow> (case dgetN item ''name'' of
       PStr name \<Rightarrow>
         if map_of seen name \<noteq> None then Inl (blocked ''manifest_incompatible'')
         else (case dgetN item ''action'' of
             PStr action \<Rightarrow>
               if action \<in> set (actions_of name) then check_components ((name, action) # seen) vs
               else Inl (Inr (Blocked ''unsupported_component'' (if map_of component_actions name \<noteq> None then name else ''unknown'')))
           | PList xs \<Rightarrow> Inl (Inl OtherError)
           | PDict d \<Rightarrow> Inl (Inl OtherError)
           | _ \<Rightarrow> Inl (Inr (Blocked ''unsupported_component'' (if map_of component_actions name \<noteq> None then name else ''unknown''))))
     | _ \<Rightarrow> Inl (blocked ''manifest_incompatible'')))"

fun check_required :: "(string \<times> string) list \<Rightarrow> (string \<times> string) list \<Rightarrow> report" where
  "check_required seen [] = Compatible False"
| "check_required seen ((name, action) # rest) =
     (if map_of seen name = Some action then check_required seen rest else Blocked ''unsupported_component'' name)"

definition assess_components :: "pyval list \<Rightarrow> upexc + report" where
  "assess_components components = (case check_components [] components of
     Inl r \<Rightarrow> r | Inr seen \<Rightarrow> Inr (check_required seen required_actions))"

text \<open>The updater of this host is too old for the release: can it be replaced first?\<close>

definition assess_upgrade :: "pydict \<Rightarrow> pydict \<Rightarrow> int \<Rightarrow> int \<Rightarrow> upexc + report" where
  "assess_upgrade manifest updater lo hi =
     (case as_dict (dget_or manifest ''assets'' (PDict [])) of
        None \<Rightarrow> Inl OtherError
      | Some assets \<Rightarrow> (case as_dict (dget_or assets ''updater'' (PDict [])) of
          None \<Rightarrow> Inl OtherError
        | Some asset \<Rightarrow> (case exact_int (dgetN updater ''version'') of
            None \<Rightarrow> blocked ''updater_upgrade_required''
          | Some v \<Rightarrow>
              if \<not> (lo \<le> v \<and> v \<le> hi) \<or> \<not> py_eq (dgetN asset ''name'') (PStr ''project-update-engine.py'')
              then blocked ''updater_upgrade_required''
              else up_bind (fullmatch (hex_of 64) (dget_or asset ''sha256'' (PStr []))) (\<lambda>ok.
                if ok then Inr (Compatible True) else blocked ''updater_upgrade_required''))))"

definition assess_updater :: "pydict \<Rightarrow> int \<Rightarrow> pydict \<Rightarrow> pyval list \<Rightarrow> facts \<Rightarrow> upexc + report" where
  "assess_updater manifest contract updater components facts =
     (case (exact_int (dgetN updater ''minVersion''), exact_int (dget_or updater ''maxVersion'' (dgetN updater ''version''))) of
        (Some lo, Some hi) \<Rightarrow>
          if lo < 1 \<or> hi < 1 \<or> hi < lo then blocked ''manifest_incompatible''
          else if f_updater facts < lo then assess_upgrade manifest updater lo hi
          else if hi < f_updater facts then blocked ''updater_too_new''
          else if contract \<noteq> 1 \<and> contract \<noteq> 2 then blocked ''updater_upgrade_required''
          else assess_components components
      | _ \<Rightarrow> blocked ''manifest_incompatible'')"

definition assess_host :: "pydict \<Rightarrow> facts \<Rightarrow> (upexc + report) \<Rightarrow> upexc + report" where
  "assess_host host facts rest =
     (if \<not> py_eq (dgetN host ''platform'') (PStr (f_platform facts)) then blocked ''platform_unsupported''
      else if \<not> py_eq (dgetN host ''osRelease'') (PStr (f_os facts)) then blocked ''platform_unsupported''
      else if \<not> py_eq (dgetN host ''layout'') (PStr (f_layout facts)) then blocked ''unsupported_layout''
      else (case (exact_int (dgetN host ''gatewaySchemaMin''), exact_int (dgetN host ''gatewaySchemaMax''),
                  exact_int (dgetN host ''requiredFreeBytes'')) of
          (Some lo, Some hi, Some free) \<Rightarrow>
            if lo < 0 \<or> hi < 0 \<or> free < 0 then blocked ''manifest_incompatible''
            else (case f_schema facts of
                None \<Rightarrow> Inr (Blocked ''database_invalid'' ''database'')
              | Some schema \<Rightarrow>
                  if schema < lo then blocked ''database_too_old''
                  else if hi < schema then blocked ''database_too_new''
                  else if f_free facts < free then blocked ''disk_full''
                  else if \<not> f_healthy facts then Inr (Blocked ''service_unhealthy'' (f_unhealthy facts))
                  else rest)
        | _ \<Rightarrow> blocked ''manifest_incompatible''))"

definition assess_compatibility :: "pydict \<Rightarrow> facts \<Rightarrow> upexc + report" where
  "assess_compatibility manifest facts =
     (case (int_like (dgetN manifest ''updateContract''), as_dict (dgetN manifest ''compatibility''),
            as_dict (dgetN manifest ''updater''), dgetN manifest ''components'') of
        (Some contract, Some host, Some updater, PList components) \<Rightarrow>
          if contract < 1 \<or> components = [] then blocked ''manifest_incompatible''
          else assess_host host facts (assess_updater manifest contract updater components facts)
      | _ \<Rightarrow> blocked ''manifest_incompatible'')"

section \<open>What compatible means\<close>

definition component_pair :: "pyval \<Rightarrow> (string \<times> string) option" where
  "component_pair v = (case as_dict v of
     Some item \<Rightarrow> (case (dgetN item ''name'', dgetN item ''action'') of (PStr n, PStr a) \<Rightarrow> Some (n, a) | _ \<Rightarrow> None)
   | None \<Rightarrow> None)"

text \<open>The components name each part once, with an action this updater can take, and contain every
  required pair.\<close>

definition components_fit :: "pyval list \<Rightarrow> bool" where
  "components_fit components =
     (\<exists>pairs. map component_pair components = map Some pairs \<and> distinct (map fst pairs)
        \<and> (\<forall>(n, a) \<in> set pairs. a \<in> set (actions_of n)) \<and> set required_actions \<subseteq> set pairs)"

lemma component_pair_Some:
  "component_pair v = Some (n, a) \<longleftrightarrow> (\<exists>item. v = PDict item \<and> dgetN item ''name'' = PStr n \<and> dgetN item ''action'' = PStr a)"
  by (auto simp: component_pair_def as_dict_def split: pyval.splits option.splits)

lemma check_components_Inr:
  "check_components seen vs = Inr seen' \<longleftrightarrow>
     (\<exists>pairs. map component_pair vs = map Some pairs \<and> seen' = rev pairs @ seen
        \<and> distinct (map fst pairs) \<and> fst ` set pairs \<inter> fst ` set seen = {}
        \<and> (\<forall>(n, a) \<in> set pairs. a \<in> set (actions_of n)))"
proof (induction vs arbitrary: seen seen')
  case (Cons v vs)
  show ?case
  proof (cases "\<exists>n a. component_pair v = Some (n, a) \<and> map_of seen n = None \<and> a \<in> set (actions_of n)")
    case True
    then obtain n a where v: "component_pair v = Some (n, a)" "map_of seen n = None" "a \<in> set (actions_of n)" by blast
    then obtain item where "v = PDict item" "dgetN item ''name'' = PStr n" "dgetN item ''action'' = PStr a"
      by (auto simp: component_pair_Some)
    with v have "check_components seen (v # vs) = check_components ((n, a) # seen) vs" by (simp add: as_dict_def)
    also have "(\<dots> = Inr seen') = (\<exists>pairs. map component_pair (v # vs) = map Some pairs \<and> seen' = rev pairs @ seen
        \<and> distinct (map fst pairs) \<and> fst ` set pairs \<inter> fst ` set seen = {}
        \<and> (\<forall>(n, a) \<in> set pairs. a \<in> set (actions_of n)))" (is "_ = ?R")
    proof
      assume "check_components ((n, a) # seen) vs = Inr seen'"
      then obtain pairs where "map component_pair vs = map Some pairs" "seen' = rev pairs @ (n, a) # seen"
        "distinct (map fst pairs)" "fst ` set pairs \<inter> fst ` set ((n, a) # seen) = {}"
        "\<forall>(n, a) \<in> set pairs. a \<in> set (actions_of n)" unfolding Cons.IH by blast
      with v show ?R by (intro exI [of _ "(n, a) # pairs"]) (auto simp: map_of_eq_None_iff)
    next
      assume ?R
      then obtain pairs where p: "map component_pair (v # vs) = map Some pairs" "seen' = rev pairs @ seen"
        "distinct (map fst pairs)" "fst ` set pairs \<inter> fst ` set seen = {}" "\<forall>(n, a) \<in> set pairs. a \<in> set (actions_of n)" by blast
      from p(1) v(1) obtain rest where "pairs = (n, a) # rest" by (cases pairs) auto
      with p v show "check_components ((n, a) # seen) vs = Inr seen'"
        unfolding Cons.IH by (intro exI [of _ rest]) auto
    qed
    finally show ?thesis .
  next
    case False
    then have "check_components seen (v # vs) \<noteq> Inr seen'"
      by (auto simp: component_pair_Some as_dict_def split: pyval.splits option.splits if_splits)
    moreover have "\<not> (map component_pair (v # vs) = map Some pairs \<and> fst ` set pairs \<inter> fst ` set seen = {}
        \<and> (\<forall>(n, a) \<in> set pairs. a \<in> set (actions_of n)))" for pairs
      using False by (cases pairs) (auto simp: map_of_eq_None_iff)
    ultimately show ?thesis by blast
  qed
qed auto

lemma check_required_Compatible: "check_required seen req = Compatible b \<longleftrightarrow> \<not> b \<and> (\<forall>(n, a) \<in> set req. map_of seen n = Some a)"
  by (induction req) (auto split: if_splits)

lemma check_components_Inl: "check_components seen vs = Inl r \<Longrightarrow> r \<noteq> Inr (Compatible b)"
  by (induction vs arbitrary: seen)
    (auto simp: blocked_def split: option.splits pyval.splits if_splits)

lemma assess_components_Compatible: "assess_components vs = Inr (Compatible b) \<longleftrightarrow> \<not> b \<and> components_fit vs"
proof -
  have "assess_components vs = Inr (Compatible b) \<longleftrightarrow>
      (\<exists>seen. check_components [] vs = Inr seen \<and> check_required seen required_actions = Compatible b)"
    using check_components_Inl [of "[]" vs] by (auto simp: assess_components_def split: sum.splits)
  also have "\<dots> \<longleftrightarrow> (\<exists>pairs. map component_pair vs = map Some pairs \<and> distinct (map fst pairs)
      \<and> (\<forall>(n, a) \<in> set pairs. a \<in> set (actions_of n)) \<and> check_required (rev pairs) required_actions = Compatible b)"
    unfolding check_components_Inr by auto
  also have "\<dots> \<longleftrightarrow> \<not> b \<and> components_fit vs"
  proof -
    have "check_required (rev pairs) required_actions = Compatible b \<longleftrightarrow> \<not> b \<and> set required_actions \<subseteq> set pairs"
      if "distinct (map fst pairs)" for pairs
    proof -
      have "distinct (map fst (rev pairs))" using that by (simp add: rev_map [symmetric])
      from map_of_eq_Some_iff [OF this] show ?thesis
        unfolding check_required_Compatible by (auto simp: case_prod_beta)
    qed
    then show ?thesis unfolding components_fit_def by blast
  qed
  finally show ?thesis .
qed

text \<open>This host can take the release as it is: the manifest is of a contract this updater knows, the
  host is the one it was built for, its database is in the range, there is room, everything
  runs, the updater is in the range and the components fit.\<close>

definition release_fits :: "pydict \<Rightarrow> facts \<Rightarrow> bool" where
  "release_fits m f =
     (\<exists>contract host updater components smin smax free lo hi schema.
        int_like (dgetN m ''updateContract'') = Some contract \<and> contract \<in> {1, 2}
      \<and> dgetN m ''compatibility'' = PDict host \<and> dgetN m ''updater'' = PDict updater
      \<and> dgetN m ''components'' = PList components \<and> components_fit components
      \<and> dgetN host ''platform'' = PStr (f_platform f) \<and> dgetN host ''osRelease'' = PStr (f_os f)
      \<and> dgetN host ''layout'' = PStr (f_layout f)
      \<and> dgetN host ''gatewaySchemaMin'' = PInt smin \<and> dgetN host ''gatewaySchemaMax'' = PInt smax \<and> 0 \<le> smin
      \<and> f_schema f = Some schema \<and> smin \<le> schema \<and> schema \<le> smax
      \<and> dgetN host ''requiredFreeBytes'' = PInt free \<and> 0 \<le> free \<and> free \<le> f_free f \<and> f_healthy f
      \<and> dgetN updater ''minVersion'' = PInt lo \<and> dget_or updater ''maxVersion'' (dgetN updater ''version'') = PInt hi
      \<and> 1 \<le> lo \<and> lo \<le> f_updater f \<and> f_updater f \<le> hi)"

lemma as_dict_Some: "as_dict v = Some d \<longleftrightarrow> v = PDict d"
  by (cases v) (auto simp: as_dict_def)

lemma exact_int_Some: "exact_int v = Some i \<longleftrightarrow> v = PInt i"
  by (cases v) (auto simp: exact_int_def)

lemma readings [simp]: "exact_int (PInt i) = Some i" "as_dict (PDict d) = Some d"
  by (simp_all add: exact_int_def as_dict_def)

lemma py_eq_PStr: "py_eq v (PStr s) \<longleftrightarrow> v = PStr s"
  by (cases v) (auto simp: py_eq.simps [of _ "PStr s"])

lemma assess_host_Compatible:
  "assess_host host f rest = Inr (Compatible b) \<longleftrightarrow> rest = Inr (Compatible b)
      \<and> dgetN host ''platform'' = PStr (f_platform f) \<and> dgetN host ''osRelease'' = PStr (f_os f)
      \<and> dgetN host ''layout'' = PStr (f_layout f)
      \<and> (\<exists>smin smax free schema. dgetN host ''gatewaySchemaMin'' = PInt smin \<and> dgetN host ''gatewaySchemaMax'' = PInt smax \<and> 0 \<le> smin
        \<and> f_schema f = Some schema \<and> smin \<le> schema \<and> schema \<le> smax
        \<and> dgetN host ''requiredFreeBytes'' = PInt free \<and> 0 \<le> free \<and> free \<le> f_free f) \<and> f_healthy f"
  unfolding assess_host_def py_eq_PStr blocked_def
  by (auto simp: exact_int_Some split: option.splits if_splits)

lemma assess_upgrade_never: "assess_upgrade m updater lo hi \<noteq> Inr (Compatible False)"
  by (auto simp: assess_upgrade_def blocked_def up_bind_Inr split: option.split if_splits)

lemma assess_updater_Compatible:
  "assess_updater m contract updater components f = Inr (Compatible False) \<longleftrightarrow>
     contract \<in> {1, 2} \<and> components_fit components
     \<and> (\<exists>lo hi. dgetN updater ''minVersion'' = PInt lo \<and> dget_or updater ''maxVersion'' (dgetN updater ''version'') = PInt hi
        \<and> 1 \<le> lo \<and> lo \<le> f_updater f \<and> f_updater f \<le> hi)"
proof (cases "\<exists>lo hi. dgetN updater ''minVersion'' = PInt lo \<and> dget_or updater ''maxVersion'' (dgetN updater ''version'') = PInt hi")
  case True
  then obtain lo hi where "dgetN updater ''minVersion'' = PInt lo" "dget_or updater ''maxVersion'' (dgetN updater ''version'') = PInt hi" by blast
  then show ?thesis
    using assess_upgrade_never [of m updater lo hi]
    by (auto simp: assess_updater_def blocked_def assess_components_Compatible)
next
  case False
  then show ?thesis
    by (auto simp: assess_updater_def blocked_def exact_int_Some split: option.split)
qed

text \<open>The release fits except that the updater of this host is older than the oldest one it accepts,
  and it ships an updater that it accepts: the answer then asks for the updater to be replaced first.
  The components are not looked at before that.\<close>

definition updater_replaceable :: "pydict \<Rightarrow> pydict \<Rightarrow> int \<Rightarrow> int \<Rightarrow> bool" where
  "updater_replaceable m updater lo hi \<longleftrightarrow>
     (\<exists>v assets asset sha. dgetN updater ''version'' = PInt v \<and> lo \<le> v \<and> v \<le> hi
        \<and> dgetN m ''assets'' = PDict assets \<and> dgetN assets ''updater'' = PDict asset
        \<and> dgetN asset ''name'' = PStr ''project-update-engine.py''
        \<and> dgetN asset ''sha256'' = PStr sha \<and> length sha = 64 \<and> list_all hex_text_char sha)"

definition fits_after_upgrade :: "pydict \<Rightarrow> facts \<Rightarrow> bool" where
  "fits_after_upgrade m f =
     (\<exists>contract host updater components smin smax free lo hi schema.
        int_like (dgetN m ''updateContract'') = Some contract \<and> 1 \<le> contract
      \<and> dgetN m ''compatibility'' = PDict host \<and> dgetN m ''updater'' = PDict updater
      \<and> dgetN m ''components'' = PList components \<and> components \<noteq> []
      \<and> dgetN host ''platform'' = PStr (f_platform f) \<and> dgetN host ''osRelease'' = PStr (f_os f)
      \<and> dgetN host ''layout'' = PStr (f_layout f)
      \<and> dgetN host ''gatewaySchemaMin'' = PInt smin \<and> dgetN host ''gatewaySchemaMax'' = PInt smax \<and> 0 \<le> smin
      \<and> f_schema f = Some schema \<and> smin \<le> schema \<and> schema \<le> smax
      \<and> dgetN host ''requiredFreeBytes'' = PInt free \<and> 0 \<le> free \<and> free \<le> f_free f \<and> f_healthy f
      \<and> dgetN updater ''minVersion'' = PInt lo \<and> dget_or updater ''maxVersion'' (dgetN updater ''version'') = PInt hi
      \<and> 1 \<le> lo \<and> lo \<le> hi \<and> f_updater f < lo \<and> updater_replaceable m updater lo hi)"

lemma dget_or_dict: "dget_or d k (PDict []) = PDict e \<Longrightarrow> e \<noteq> [] \<Longrightarrow> dgetN d k = PDict e"
  by (auto simp: dget_or_def split: option.splits)

lemma dget_or_PDict: "dgetN d k = PDict e \<Longrightarrow> dget_or d k w = PDict e"
  by (auto simp: dget_or_def split: option.splits)

lemma dget_or_PStr: "dgetN d k = PStr t \<Longrightarrow> dget_or d k w = PStr t"
  by (auto simp: dget_or_def split: option.splits)

lemma assess_upgrade_Compatible:
  "assess_upgrade m updater lo hi = Inr (Compatible True) \<longleftrightarrow> updater_replaceable m updater lo hi"
proof
  assume l: "assess_upgrade m updater lo hi = Inr (Compatible True)"
  then obtain assets asset v sha where d: "dget_or m ''assets'' (PDict []) = PDict assets" "dget_or assets ''updater'' (PDict []) = PDict asset"
    "dgetN updater ''version'' = PInt v" "lo \<le> v" "v \<le> hi" "dgetN asset ''name'' = PStr ''project-update-engine.py''"
    "dget_or asset ''sha256'' (PStr []) = PStr sha" "hex_of 64 sha"
    unfolding assess_upgrade_def py_eq_PStr blocked_def
    by (auto simp: as_dict_Some exact_int_Some up_bind_Inr fullmatch_def split: option.splits if_splits pyval.splits)
  from d(6) have "asset \<noteq> []" by (auto simp: dget_or_def)
  with d(2) have a: "dgetN assets ''updater'' = PDict asset" by (rule dget_or_dict)
  then have "assets \<noteq> []" by (auto simp: dget_or_def)
  with d(1) have "dgetN m ''assets'' = PDict assets" by (rule dget_or_dict)
  moreover have "sha \<noteq> []" using d(8) by (auto simp: hex_of_def)
  with d(7) have "dgetN asset ''sha256'' = PStr sha" by (auto simp: dget_or_def split: option.splits)
  ultimately show "updater_replaceable m updater lo hi"
    using a d(3-6,8) unfolding updater_replaceable_def hex_of_def by blast
next
  assume "updater_replaceable m updater lo hi"
  then obtain v assets asset sha where d: "dgetN updater ''version'' = PInt v" "lo \<le> v" "v \<le> hi"
    "dgetN m ''assets'' = PDict assets" "dgetN assets ''updater'' = PDict asset"
    "dgetN asset ''name'' = PStr ''project-update-engine.py''" "dgetN asset ''sha256'' = PStr sha" "hex_of 64 sha"
    unfolding updater_replaceable_def hex_of_def by blast
  show "assess_upgrade m updater lo hi = Inr (Compatible True)"
    unfolding assess_upgrade_def dget_or_PDict [OF d(4)] as_dict_Some dget_or_PStr [OF d(7)]
    by (simp add: dget_or_PDict [OF d(5)] dget_or_PStr [OF d(7)] d fullmatch_def)
qed

lemma assess_updater_upgrade:
  "assess_updater m contract updater components f = Inr (Compatible True) \<longleftrightarrow>
     (\<exists>lo hi. dgetN updater ''minVersion'' = PInt lo \<and> dget_or updater ''maxVersion'' (dgetN updater ''version'') = PInt hi
        \<and> 1 \<le> lo \<and> lo \<le> hi \<and> f_updater f < lo \<and> updater_replaceable m updater lo hi)"
proof (cases "\<exists>lo hi. dgetN updater ''minVersion'' = PInt lo \<and> dget_or updater ''maxVersion'' (dgetN updater ''version'') = PInt hi")
  case True
  then obtain lo hi where "dgetN updater ''minVersion'' = PInt lo" "dget_or updater ''maxVersion'' (dgetN updater ''version'') = PInt hi" by blast
  then show ?thesis
    by (auto simp: assess_updater_def blocked_def assess_components_Compatible assess_upgrade_Compatible)
next
  case False
  then show ?thesis
    by (auto simp: assess_updater_def blocked_def exact_int_Some split: option.split)
qed

text \<open>C25. The assessment of a release, a sequence of checks with early returns and a loop over the
  components, gives each of its two positive answers exactly when it should. Compatible: the
  release fits this host, that is contract, platform, system, layout, database version, free space, health,
  updater version, and components that name each part once, with supported actions and with every required
  one. Compatible once the updater is replaced: the host fits, its updater is older than the release
  accepts, and the release ships an updater that is in its range, has the name of the engine and a digest.\<close>

theorem assess_compatibility_iff_fits:
  "(assess_compatibility m f = Inr (Compatible False) \<longleftrightarrow> release_fits m f)
   \<and> (assess_compatibility m f = Inr (Compatible True) \<longleftrightarrow> fits_after_upgrade m f)"
proof (cases "\<exists>contract host updater components. int_like (dgetN m ''updateContract'') = Some contract
    \<and> dgetN m ''compatibility'' = PDict host \<and> dgetN m ''updater'' = PDict updater \<and> dgetN m ''components'' = PList components")
  case True
  then obtain contract host updater components where v: "int_like (dgetN m ''updateContract'') = Some contract"
    "dgetN m ''compatibility'' = PDict host" "dgetN m ''updater'' = PDict updater" "dgetN m ''components'' = PList components" by blast
  have required: "components_fit components \<Longrightarrow> components \<noteq> []"
    by (auto simp: components_fit_def required_actions_def)
  have "assess_compatibility m f = Inr (Compatible False) \<longleftrightarrow> release_fits m f"
    unfolding assess_compatibility_def release_fits_def
    using v required by (auto simp: blocked_def assess_host_Compatible assess_updater_Compatible)
  moreover have "assess_compatibility m f = Inr (Compatible True) \<longleftrightarrow> fits_after_upgrade m f"
    unfolding assess_compatibility_def fits_after_upgrade_def
    using v by (auto simp: blocked_def assess_host_Compatible assess_updater_upgrade)
  ultimately show ?thesis by blast
next
  case False
  then have "assess_compatibility m f = blocked ''manifest_incompatible''"
    by (auto simp: assess_compatibility_def as_dict_Some split: option.split pyval.split)
  with False show ?thesis by (auto simp: release_fits_def fits_after_upgrade_def blocked_def)
qed

section \<open>Versions are ordered\<close>

lemma tuple_less_irrefl: "\<not> tuple_less a a"
  by (induction a) auto

lemma tuple_less_trans: "tuple_less a b \<Longrightarrow> tuple_less b c \<Longrightarrow> tuple_less a c"
  by (induction a b arbitrary: c rule: tuple_less.induct; case_tac c) auto

lemma tuple_less_total: "length a = length b \<Longrightarrow> tuple_less a b \<or> a = b \<or> tuple_less b a"
  by (induction a b rule: list_induct2) auto

lemma version_tuple_version: "is_version v \<longleftrightarrow> (\<exists>t. version_tuple v = Inr t)"
  by (auto simp: is_version_def version_tuple_def upfail_def split: option.splits)

lemma version_tuple_length: "version_tuple v = Inr t \<Longrightarrow> length t = 3"
  by (auto simp: version_tuple_def version_text_def upfail_def Let_def split: option.splits if_splits)

lemma digit_of_nat_of_digit: "digit_char c \<Longrightarrow> digit_of_nat (nat_of_digit c) = c"
  by (simp add: digit_char_def digit_of_nat_def nat_of_digit_def chr_code_def)

lemma nat_of_digit_less: "digit_char c \<Longrightarrow> nat_of_digit c < 10"
  by (auto simp: digit_char_def nat_of_digit_def)

lemma digits_val_snoc: "digits_val (s @ [c]) = 10 * digits_val s + nat_of_digit c"
  by (simp add: digits_val_def)

lemma canonical_number_nat_str: "canonical_number s \<Longrightarrow> nat_str (digits_val s) = s"
proof (induction s rule: rev_induct)
  case (snoc c s)
  then have c: "digit_char c" by (simp add: canonical_number_def)
  show ?case
  proof (cases "s = []")
    case True
    then show ?thesis
      using c nat_of_digit_less [OF c] by (simp add: digits_val_def nat_str.simps [of "nat_of_digit c"] digit_of_nat_of_digit)
  next
    case False
    with snoc.prems have s: "canonical_number s" "hd s \<noteq> CHR ''0''" by (auto simp: canonical_number_def)
    have pos: "digits_val s \<noteq> 0"
    proof
      assume "digits_val s = 0"
      with snoc.IH [OF s(1)] have "s = nat_str 0" by simp
      then have "s = ''0''" by (simp add: nat_str.simps [of 0] digit_of_nat_def)
      with s(2) show False by simp
    qed
    let ?n = "10 * digits_val s + nat_of_digit c"
    have n: "\<not> ?n < 10" "?n div 10 = digits_val s" "?n mod 10 = nat_of_digit c"
      using pos nat_of_digit_less [OF c] by auto
    have "nat_str ?n = nat_str (?n div 10) @ [digit_of_nat (?n mod 10)]" using n(1) by (subst nat_str.simps) simp
    then show ?thesis using snoc.IH [OF s(1)] c unfolding n by (simp add: digits_val_snoc digit_of_nat_of_digit)
  qed
qed (simp add: canonical_number_def)

fun join_with :: "char \<Rightarrow> string list \<Rightarrow> string" where
  "join_with c [] = []"
| "join_with c [w] = w"
| "join_with c (w # ws) = w @ c # join_with c ws"

lemma py_split_cons: "py_split c s \<noteq> []"
  by (cases s) (auto split: list.split)

lemma join_py_split: "join_with c (py_split c s) = s"
proof (induction s)
  case (Cons x s)
  then show ?case
    using py_split_cons [of c s] by (cases "py_split c s"; cases "tl (py_split c s)") auto
qed simp

lemma version_text_Some:
  assumes "version_text v = Some ps"
  shows "v = ''v'' @ join_with CHR ''.'' ps @ ''-vps'' \<and> list_all canonical_number ps"
proof -
  let ?n = "length v"
  have v: "starts_with ''v'' v" "5 \<le> ?n" "drop (?n - 4) v = ''-vps''"
    "ps = py_split CHR ''.'' (drop 1 (take (?n - 4) v))" "list_all canonical_number ps"
    using assms by (auto simp: version_text_def Let_def split: if_splits)
  have "take (?n - 4) v = ''v'' @ drop 1 (take (?n - 4) v)"
    using v(1,2) by (cases v) (auto simp: starts_with_def take_Cons')
  moreover have "v = take (?n - 4) v @ drop (?n - 4) v" by simp
  ultimately have "v = ''v'' @ drop 1 (take (?n - 4) v) @ ''-vps''" using v(3) by (metis append.assoc)
  then show ?thesis using v(4,5) by (simp add: join_py_split)
qed

text \<open>A version is determined by its numbers.\<close>

lemma version_tuple_inj:
  assumes "version_tuple a = Inr t" "version_tuple b = Inr t"
  shows "a = b"
proof -
  have one: "a = ''v'' @ join_with CHR ''.'' (map nat_str t) @ ''-vps''" if va: "version_tuple a = Inr t" for a
  proof -
    from va obtain ps where ps: "version_text a = Some ps" "t = map digits_val ps"
      by (auto simp: version_tuple_def upfail_def split: option.splits)
    from version_text_Some [OF ps(1)] have "list_all canonical_number ps" by simp
    then have "map nat_str t = ps" unfolding ps(2) by (induction ps) (auto simp: canonical_number_nat_str)
    with version_text_Some [OF ps(1)] show ?thesis by simp
  qed
  show ?thesis using one [OF assms(1)] one [OF assms(2)] by simp
qed

section \<open>The release that is chosen\<close>

definition published :: "pyval list \<Rightarrow> string \<Rightarrow> bool" where
  "published rs tag = (\<exists>item. PDict item \<in> set rs \<and> \<not> truthy (dgetN item ''draft'') \<and> \<not> truthy (dgetN item ''prerelease'')
     \<and> dget_or item ''tag_name'' (PStr []) = PStr tag)"

definition tag_of_version :: "string \<Rightarrow> string \<Rightarrow> bool" where
  "tag_of_version tag v = (is_version v \<and> (tag = v \<or> tag = ''project-'' @ v))"

lemma starts_with_append: "starts_with p s \<longleftrightarrow> (\<exists>r. s = p @ r)"
  by (auto simp: starts_with_def) (metis append_take_drop_id)

lemma version_not_project: "is_version v \<Longrightarrow> \<not> starts_with ''project-'' v"
  by (cases v) (auto simp: is_version_def version_text_def starts_with_def Let_def)

lemma project_tag_Some: "project_tag tag = Some v \<longleftrightarrow> tag = ''project-'' @ v \<and> is_version v"
  by (auto simp: project_tag_def starts_with_append split: if_splits)

lemma version_of_tag:
  "is_version (case project_tag tag of Some v \<Rightarrow> v | None \<Rightarrow> tag) \<Longrightarrow>
     tag_of_version tag (case project_tag tag of Some v \<Rightarrow> v | None \<Rightarrow> tag)"
  by (auto simp: tag_of_version_def project_tag_Some split: option.splits)

definition releases_ok :: "pyval list \<Rightarrow> (string \<times> string) list \<Rightarrow> bool" where
  "releases_ok rs cs = (\<forall>v tag. map_of cs v = Some tag \<longrightarrow> tag_of_version tag v \<and> published rs tag
     \<and> (published rs (''project-'' @ v) \<longrightarrow> tag = ''project-'' @ v))"

definition releases_all :: "pyval list \<Rightarrow> (string \<times> string) list \<Rightarrow> bool" where
  "releases_all rs cs = (\<forall>v tag. published rs tag \<and> tag_of_version tag v \<longrightarrow> map_of cs v \<noteq> None)"

lemma published_snoc:
  "published (rs @ [x]) tag \<longleftrightarrow> published rs tag \<or>
     (\<exists>item. x = PDict item \<and> \<not> truthy (dgetN item ''draft'') \<and> \<not> truthy (dgetN item ''prerelease'')
       \<and> dget_or item ''tag_name'' (PStr []) = PStr tag)"
  by (auto simp: published_def)

lemma release_step_cases:
  obtains (skip) "release_step cs x = cs" "\<And>tag. published (rs @ [x]) tag \<longleftrightarrow> published rs tag"
  | (tag) tag where "\<And>t. published (rs @ [x]) t \<longleftrightarrow> published rs t \<or> t = tag"
      "release_step cs x = (let version = (case project_tag tag of Some v \<Rightarrow> v | None \<Rightarrow> tag) in
         if is_version version \<and> (map_of cs version = None \<or> starts_with ''project-'' tag)
         then AList.update version tag cs else cs)"
proof (cases "\<exists>item tag. x = PDict item \<and> \<not> truthy (dgetN item ''draft'') \<and> \<not> truthy (dgetN item ''prerelease'')
       \<and> dget_or item ''tag_name'' (PStr []) = PStr tag")
  case True
  then obtain item tag where i: "x = PDict item" "\<not> truthy (dgetN item ''draft'')" "\<not> truthy (dgetN item ''prerelease'')"
    "dget_or item ''tag_name'' (PStr []) = PStr tag" by blast
  have "\<And>t. published (rs @ [x]) t \<longleftrightarrow> published rs t \<or> t = tag" using i by (auto simp: published_snoc)
  moreover have "release_step cs x = (let version = (case project_tag tag of Some v \<Rightarrow> v | None \<Rightarrow> tag) in
         if is_version version \<and> (map_of cs version = None \<or> starts_with ''project-'' tag)
         then AList.update version tag cs else cs)"
    using i by (simp add: release_step_def Let_def)
  ultimately show ?thesis by (rule that(2))
next
  case False
  then have "\<And>tag. published (rs @ [x]) tag \<longleftrightarrow> published rs tag" by (auto simp: published_snoc)
  moreover have "release_step cs x = cs" using False by (auto simp: release_step_def split: pyval.splits)
  ultimately show ?thesis by (intro that(1))
qed

lemma tag_version_unique: "tag_of_version tag v \<Longrightarrow> tag_of_version tag u \<Longrightarrow> v = u"
  using version_not_project by (auto simp: tag_of_version_def starts_with_append)

lemma version_of_tag_eq:
  "tag_of_version tag v \<Longrightarrow> (case project_tag tag of Some v \<Rightarrow> v | None \<Rightarrow> tag) = v"
proof -
  assume t: "tag_of_version tag v"
  then have "project_tag tag = (if tag = v then None else Some v)"
    using version_not_project [of v] by (auto simp: tag_of_version_def project_tag_def starts_with_append)
  with t show ?thesis by (auto simp: tag_of_version_def)
qed

lemma release_versions_ok: "releases_ok rs (release_versions rs) \<and> releases_all rs (release_versions rs)"
proof (induction rs rule: rev_induct)
  case Nil
  show ?case by (simp add: releases_ok_def releases_all_def release_versions_def published_def)
next
  case (snoc x rs)
  let ?cs = "release_versions rs"
  have step: "release_versions (rs @ [x]) = release_step ?cs x" by (simp add: release_versions_def)
  from snoc have ok: "\<And>v tag. map_of ?cs v = Some tag \<Longrightarrow> tag_of_version tag v \<and> published rs tag
      \<and> (published rs (''project-'' @ v) \<longrightarrow> tag = ''project-'' @ v)"
    and complete: "\<And>v tag. published rs tag \<Longrightarrow> tag_of_version tag v \<Longrightarrow> map_of ?cs v \<noteq> None"
    unfolding releases_ok_def releases_all_def by blast+
  show ?case
    unfolding step
  proof (cases ?cs x rs rule: release_step_cases)
    case skip
    with ok complete show "releases_ok (rs @ [x]) (release_step ?cs x) \<and> releases_all (rs @ [x]) (release_step ?cs x)"
      unfolding releases_ok_def releases_all_def skip by blast
  next
    case (tag tag)
    show "releases_ok (rs @ [x]) (release_step ?cs x) \<and> releases_all (rs @ [x]) (release_step ?cs x)"
    proof (cases "\<exists>v. tag_of_version tag v")
      case True
      then obtain v where v: "tag_of_version tag v" "is_version v" by (auto simp: tag_of_version_def)
      have s: "release_step ?cs x = (if map_of ?cs v = None \<or> starts_with ''project-'' tag then AList.update v tag ?cs else ?cs)"
        using tag(2) v by (simp add: version_of_tag_eq [OF v(1)])
      have proj: "starts_with ''project-'' tag \<longleftrightarrow> tag = ''project-'' @ v"
        using v version_not_project by (auto simp: tag_of_version_def starts_with_append)
      have other: "tag = ''project-'' @ u \<Longrightarrow> is_version u \<Longrightarrow> u = v" for u
        using v tag_version_unique [of tag v u] by (auto simp: tag_of_version_def)
      have isv: "map_of ?cs u = Some t \<Longrightarrow> is_version u" for u t using ok by (auto simp: tag_of_version_def)
      let ?new = "map_of ?cs v = None \<or> starts_with ''project-'' tag"
      have m: "map_of (release_step ?cs x) u = (if ?new \<and> u = v then Some tag else map_of ?cs u)" for u
        unfolding s by (simp add: update_conv')
      have "releases_ok (rs @ [x]) (release_step ?cs x)"
        unfolding releases_ok_def tag(1) m
      proof (intro allI impI)
        fix u t assume h: "(if ?new \<and> u = v then Some tag else map_of ?cs u) = Some t"
        show "tag_of_version t u \<and> (published rs t \<or> t = tag)
            \<and> (published rs (''project-'' @ u) \<or> ''project-'' @ u = tag \<longrightarrow> t = ''project-'' @ u)"
        proof (cases "?new \<and> u = v")
          case True
          then have "published rs (''project-'' @ v) \<Longrightarrow> tag = ''project-'' @ v"
            using complete [of "''project-'' @ v" v] v(2) proj by (auto simp: tag_of_version_def)
          with True h v(1) show ?thesis by auto
        next
          case False
          with h have u: "map_of ?cs u = Some t" by (simp split: if_splits)
          have "''project-'' @ u = tag \<Longrightarrow> t = ''project-'' @ u"
            using False other [of u] isv [OF u] proj by metis
          with ok [OF u] show ?thesis by blast
        qed
      qed
      moreover have "releases_all (rs @ [x]) (release_step ?cs x)"
        unfolding releases_all_def tag(1) m using complete tag_version_unique [OF v(1)] by auto
      ultimately show ?thesis by blast
    next
      case False
      then have "release_step ?cs x = ?cs" using tag(2) version_of_tag [of tag] by (auto simp: Let_def)
      moreover have "tag = ''project-'' @ u \<Longrightarrow> \<not> is_version u" for u using False by (auto simp: tag_of_version_def)
      moreover have isv: "map_of ?cs u = Some t \<Longrightarrow> is_version u" for u t using ok by (auto simp: tag_of_version_def)
      ultimately show ?thesis
        using False ok complete unfolding releases_ok_def releases_all_def tag(1) by metis
    qed
  qed
qed

lemma is_newer_iff:
  assumes "version_tuple u = Inr tu" "version_tuple v = Inr tv"
  shows "is_newer v u = Inr True \<longleftrightarrow> tuple_less tu tv"
proof -
  have "is_version u" using assms(1) version_tuple_version by blast
  then have "\<not> starts_with ''legacy-'' u" by (cases u) (auto simp: is_version_def version_text_def starts_with_def Let_def)
  with \<open>is_version u\<close> assms show ?thesis by (simp add: is_newer_def)
qed

lemma is_newer_trans: "is_version a \<Longrightarrow> is_version b \<Longrightarrow> is_version c \<Longrightarrow>
    is_newer c b = Inr True \<Longrightarrow> is_newer b a = Inr True \<Longrightarrow> is_newer c a = Inr True"
  by (auto simp: version_tuple_version is_newer_iff intro: tuple_less_trans)

lemma is_newer_total: "is_version a \<Longrightarrow> is_version b \<Longrightarrow> is_newer a b = Inr True \<or> a = b \<or> is_newer b a = Inr True"
proof -
  assume "is_version a" "is_version b"
  then obtain ta tb where t: "version_tuple a = Inr ta" "version_tuple b = Inr tb" by (auto simp: version_tuple_version)
  have "length ta = length tb" using t by (simp add: version_tuple_length)
  from tuple_less_total [OF this] version_tuple_inj [of a ta b] t show ?thesis
    by (auto simp: is_newer_iff)
qed

lemma newest_step_Some:
  "list_all is_version vs \<Longrightarrow> is_version b \<Longrightarrow> \<exists>v. foldl newest_step (Some b) vs = Some v \<and> v \<in> insert b (set vs)
     \<and> (\<forall>u \<in> insert b (set vs). u = v \<or> is_newer v u = Inr True)"
proof (induction vs arbitrary: b)
  case (Cons a vs)
  then have ab: "is_version a" "is_version b" by auto
  then obtain tb ta where t: "version_tuple b = Inr tb" "version_tuple a = Inr ta" by (auto simp: version_tuple_version)
  let ?c = "if is_newer a b = Inr True then a else b"
  have c: "newest_step (Some b) a = Some ?c" using t by (simp add: newest_step_def is_newer_iff)
  have other: "u \<in> {a, b} \<Longrightarrow> u = ?c \<or> is_newer ?c u = Inr True" for u using is_newer_total [OF ab] by auto
  have "is_version ?c" using ab by simp
  with Cons.IH [of ?c] Cons.prems(1) obtain v where v: "foldl newest_step (Some ?c) vs = Some v" "v \<in> insert ?c (set vs)"
    "\<forall>u \<in> insert ?c (set vs). u = v \<or> is_newer v u = Inr True" by auto
  have vv: "is_version v" using v(2) Cons.prems by (auto simp: list_all_iff split: if_splits)
  have "u = v \<or> is_newer v u = Inr True" if u: "u \<in> insert b (set (a # vs))" for u
  proof (cases "u \<in> set vs")
    case True
    with v(3) show ?thesis by blast
  next
    case False
    with u have u: "u \<in> {a, b}" by auto
    then have "is_version u" "is_version ?c" using ab by auto
    with other [OF u] v(3) vv show ?thesis using is_newer_trans [of u ?c v] by auto
  qed
  with v c show ?case by (intro exI [of _ v]) (auto split: if_splits)
qed auto

text \<open>The release an update check finds: unless no release is published, the chosen version is
  published, newer than every other published version in the order of its three numbers, and no
  version is newer than it and older at the same time. Drafts, prereleases and tags that are not
  versions are left out, and a version published with a project tag is taken from that tag.\<close>

theorem newest_release_correct:
  assumes "release_versions rs \<noteq> []"
  shows "\<exists>v tag. newest (map fst (release_versions rs)) = Some v \<and> map_of (release_versions rs) v = Some tag
    \<and> published rs tag \<and> tag_of_version tag v
    \<and> (published rs (''project-'' @ v) \<longrightarrow> tag = ''project-'' @ v)
    \<and> (\<forall>u t. published rs t \<and> tag_of_version t u \<longrightarrow> u = v \<or> is_newer v u = Inr True \<and> is_newer u v = Inr False)"
proof -
  let ?cs = "release_versions rs"
  have ok: "releases_ok rs ?cs" "releases_all rs ?cs" using release_versions_ok by auto
  have versions: "is_version u" if "u \<in> fst ` set ?cs" for u
  proof -
    from that obtain t where "map_of ?cs u = Some t" by (metis map_of_eq_None_iff not_None_eq)
    with ok(1) show ?thesis by (auto simp: releases_ok_def tag_of_version_def)
  qed
  from assms obtain b vs where b: "map fst ?cs = b # vs" by (cases ?cs) auto
  then have "list_all is_version (b # vs)" using versions by (metis list.set_map list_all_iff)
  then obtain v where v: "foldl newest_step (Some b) vs = Some v" "v \<in> insert b (set vs)"
    "\<forall>u \<in> insert b (set vs). u = v \<or> is_newer v u = Inr True"
    using newest_step_Some [of vs b] by auto
  have new: "newest (map fst ?cs) = Some v" using b v(1) by (simp add: newest_def newest_step_def)
  have set: "set (map fst ?cs) = insert b (set vs)" using b by simp
  then obtain tag where tag: "map_of ?cs v = Some tag" using v(2) by (metis list.set_map map_of_eq_None_iff not_None_eq)
  have vv: "is_version v" using versions set v(2) by auto
  have "u = v \<or> is_newer v u = Inr True \<and> is_newer u v = Inr False" if u: "published rs t" "tag_of_version t u" for u t
  proof -
    have "u \<in> insert b (set vs)" using ok(2) u set by (metis list.set_map map_of_eq_None_iff releases_all_def)
    with v(3) have "u = v \<or> is_newer v u = Inr True" by blast
    moreover have "is_newer v u = Inr True \<Longrightarrow> is_newer u v = Inr False"
    proof -
      assume n: "is_newer v u = Inr True"
      have uv: "is_version u" using u by (simp add: tag_of_version_def)
      then obtain tu tv where t: "version_tuple u = Inr tu" "version_tuple v = Inr tv" using vv by (auto simp: version_tuple_version)
      with n have "tuple_less tu tv" by (simp add: is_newer_iff)
      then have "\<not> tuple_less tv tu" using tuple_less_trans tuple_less_irrefl by blast
      moreover have "\<not> starts_with ''legacy-'' v"
        using vv by (cases v) (auto simp: is_version_def version_text_def starts_with_def Let_def)
      ultimately show "is_newer u v = Inr False" using t vv by (simp add: is_newer_def)
    qed
    ultimately show ?thesis by blast
  qed
  with new tag ok(1) show ?thesis unfolding releases_ok_def by blast
qed

theorem newest_release_correct_witness:
  "\<exists>v tag. newest (map fst (release_versions [PDict [(''tag_name'', PStr ''v1.2.10-vps'')], PDict [(''tag_name'', PStr ''project-v1.2.9-vps'')]])) = Some v
     \<and> map_of (release_versions [PDict [(''tag_name'', PStr ''v1.2.10-vps'')], PDict [(''tag_name'', PStr ''project-v1.2.9-vps'')]]) v = Some tag"
proof -
  have "release_versions [PDict [(''tag_name'', PStr ''v1.2.10-vps'')], PDict [(''tag_name'', PStr ''project-v1.2.9-vps'')]] \<noteq> []"
    by code_simp
  from newest_release_correct [OF this] show ?thesis by blast
qed

end
