(* ===== verification/Update_Install.thy ===== *)
theory Update_Install
  imports Update_Manifest
begin

text \<open>
  The privileged part of the project updater (\<open>deploy/vps/project_update.py\<close>): a request is checked
  again, the signed package is unpacked, everything it replaces is saved, the new files are copied,
  and a failure or an interrupted run is rolled back with the journal.

  \<^item> The state holds the files of the host, the unpacked packages, the saved copies, the journal
    (\<open>active.json\<close>), the results, and the outside \<open>'x\<close>.
  \<^item> Every step asks the outside how it ends: done, broken (a failed command or call) before or
    after it took effect, or the end of the process before or after. While the services run
    they may write their databases and the directory of the egress.
  \<^item> The directory of the downloader is not trusted: each read of it is answered by the outside.
\<close>

section \<open>Paths\<close>

definition config_path :: string where "config_path = ''/etc/aimili-gateway/config.json''"
definition gateway_db :: string where "gateway_db = ''/var/lib/aimili-gateway/aimili-gateway.db''"
definition xui_db :: string where "xui_db = ''/etc/x-ui/x-ui.db''"
definition xui_binary :: string where "xui_binary = ''/usr/local/x-ui/x-ui''"
definition current_path :: string where "current_path = ''/var/lib/aimili-gateway/project-update/current.json''"
definition egress_dir :: string where "egress_dir = ''/var/lib/aimili-gateway/aimili-egress/''"

definition slots_dir :: string where "slots_dir = ''/usr/local/lib/aimili-gateway/update-engines/''"

definition side_files :: "string list" where
  "side_files = [gateway_db @ ''-wal'', gateway_db @ ''-shm'', xui_db @ ''-wal'', xui_db @ ''-shm'']"

text \<open>What the services write themselves.\<close>

definition service_path :: "string \<Rightarrow> bool" where
  "service_path p = (p = gateway_db \<or> p = xui_db \<or> p \<in> set side_files \<or> starts_with egress_dir p)"

section \<open>State and outside\<close>

record journal =
  j_request :: pydict
  j_run :: string
  j_files :: "(string \<times> nat option) list"
  j_ids :: string
  j_phase :: string

record 'x updworld =
  up_fs :: "(string \<times> string) list"
  up_private :: "((string \<times> string) \<times> string) list"
  up_packages :: "(string \<times> (string \<times> string) list) list"
  up_snapshots :: "string list"
  up_saved :: "((string \<times> nat) \<times> string) list"
  up_trees :: "(string \<times> (string \<times> string) list) list"
  up_active :: "journal option"
  up_local :: "journal option"
  up_results :: "(string \<times> string \<times> string) list"
  up_catalog :: "(pyval \<times> report list) option"
  up_running :: bool
  up_x :: 'x

datatype upquery =
    StopServices | StartServices | WaitHealth | ReadDatabases | ServiceUnit | VersionCommand
  | CopyTo string | RemoveFile string | SaveFile string | SaveTree | MakeSnapshot | WritePrivate string
  | WriteActive | RemoveActive | WriteResult string | WriteProgress string

datatype step_end = Went | Broke bool | Timeout bool | Died bool

record 'x upoutside =
  q_step :: "upquery \<Rightarrow> 'x \<Rightarrow> step_end \<times> 'x"
  q_writes :: "'x \<Rightarrow> (string \<times> string option) list \<times> 'x"
  q_free :: "'x \<Rightarrow> int \<times> 'x"
  q_layout :: "'x \<Rightarrow> (bool \<times> bool) \<times> 'x"
  q_trusted :: "'x \<Rightarrow> bool \<times> 'x"
  q_adopt :: "'x \<Rightarrow> upexc option \<times> 'x"
  q_facts :: "'x \<Rightarrow> facts \<times> 'x"
  q_stage :: "string \<Rightarrow> string \<Rightarrow> 'x \<Rightarrow> string option \<times> 'x"
  q_requests :: "'x \<Rightarrow> (string \<times> pyval option) list \<times> 'x"

datatype member_kind = PlainFile | Directory | Special

record member =
  m_name :: string
  m_kind :: member_kind
  m_data :: string

text \<open>Functions outside the repository: the signature check, the digest, the archive format, the
  output of a binary, the checks of the databases.\<close>

record upenv =
  e_signed :: "string \<Rightarrow> string \<Rightarrow> bool"
  e_sha :: "string \<Rightarrow> string"
  e_members :: "string \<Rightarrow> member list option"
  e_version :: "string \<Rightarrow> string option"
  e_sound :: "string option \<Rightarrow> bool option"
  e_ident :: "string option \<Rightarrow> string option \<Rightarrow> string option"

type_synonym ('x, 'a) upd = "('x updworld, upexc, 'a) eff"

section \<open>Steps\<close>

definition put_path :: "string \<Rightarrow> string option \<Rightarrow> (string \<times> string) list \<Rightarrow> (string \<times> string) list" where
  "put_path p c fs = (case c of Some s \<Rightarrow> AList.update p s fs | None \<Rightarrow> AList.delete p fs)"

definition put_file :: "string \<Rightarrow> string option \<Rightarrow> 'x updworld \<Rightarrow> 'x updworld" where
  "put_file p c w = w\<lparr>up_fs := put_path p c (up_fs w)\<rparr>"

definition file_of :: "'x updworld \<Rightarrow> string \<Rightarrow> string option" where
  "file_of w p = map_of (up_fs w) p"

definition serve :: "'x upoutside \<Rightarrow> 'x updworld \<Rightarrow> 'x updworld" where
  "serve q w = (if \<not> up_running w then w
     else (case q_writes q (up_x w) of (ws, x) \<Rightarrow>
       (foldl (\<lambda>v (p, c). if service_path p then put_file p c v else v) w ws)\<lparr>up_x := x\<rparr>))"

definition ustep :: "'x upoutside \<Rightarrow> upquery \<Rightarrow> upexc \<Rightarrow> ('x updworld \<Rightarrow> 'x updworld) \<Rightarrow> ('x, unit) upd" where
  "ustep q query err f w0 =
     (let w = serve q w0 in
      case q_step q query (up_x w) of (a, x) \<Rightarrow>
        let w = w\<lparr>up_x := x\<rparr> in
        (case a of
           Went \<Rightarrow> (Inr (), f w)
         | Broke b \<Rightarrow> (Inl err, if b then f w else w)
         | Timeout b \<Rightarrow> (Inl OtherError, if b then f w else w)
         | Died b \<Rightarrow> (Inl Killed, if b then f w else w)))"

text \<open>A single system call fails without an effect.\<close>

definition ucall :: "'x upoutside \<Rightarrow> upquery \<Rightarrow> upexc \<Rightarrow> ('x updworld \<Rightarrow> 'x updworld) \<Rightarrow> ('x, unit) upd" where
  "ucall q query err f w0 =
     (let w = serve q w0 in
      case q_step q query (up_x w) of (a, x) \<Rightarrow>
        let w = w\<lparr>up_x := x\<rparr> in
        (case a of
           Went \<Rightarrow> (Inr (), f w)
         | Broke b \<Rightarrow> (Inl err, w)
         | Timeout b \<Rightarrow> (Inl OtherError, w)
         | Died b \<Rightarrow> (Inl Killed, if b then f w else w)))"

definition uask :: "('x \<Rightarrow> 'a \<times> 'x) \<Rightarrow> ('x, 'a) upd" where
  "uask f w = (case f (up_x w) of (a, x) \<Rightarrow> (Inr a, w\<lparr>up_x := x\<rparr>))"

definition ufail :: "string \<Rightarrow> ('x, 'a) upd" where
  "ufail c = traise (UpdateError c)"

definition uguard :: "bool \<Rightarrow> string \<Rightarrow> ('x, unit) upd" where
  "uguard b c = (if b then tret () else ufail c)"

definition command_failed :: upexc where
  "command_failed = UpdateError ''command_failed''"

text \<open>\<open>except Exception\<close>: everything but the end of the process.\<close>

definition caught :: "upexc \<Rightarrow> bool" where
  "caught e = (e \<noteq> Killed)"

definition stop_services :: "'x upoutside \<Rightarrow> ('x, unit) upd" where
  "stop_services q = ustep q StopServices command_failed (\<lambda>w. w\<lparr>up_running := False\<rparr>)"

definition start_services :: "'x upoutside \<Rightarrow> ('x, unit) upd" where
  "start_services q = ustep q StartServices command_failed (\<lambda>w. w\<lparr>up_running := True\<rparr>)"

text \<open>Two minutes of checks; what the last of them raised is replaced by one code.\<close>

definition wait_health :: "'x upoutside \<Rightarrow> ('x, unit) upd" where
  "wait_health q = trescue caught (ustep q WaitHealth (UpdateError ''health_failed'') (\<lambda>w. w)) (\<lambda>_. ufail ''health_failed'')"

definition progress :: "'x upoutside \<Rightarrow> string \<Rightarrow> ('x, unit) upd" where
  "progress q phase = ustep q (WriteProgress phase) OtherError (\<lambda>w. w)"

definition finish :: "'x upoutside \<Rightarrow> string \<Rightarrow> string \<Rightarrow> string \<Rightarrow> ('x, unit) upd" where
  "finish q run state code = ustep q (WriteResult state) OtherError
     (\<lambda>w. w\<lparr>up_results := AList.update run (state, code) (up_results w)\<rparr>)"

definition write_active :: "'x upoutside \<Rightarrow> ('x, unit) upd" where
  "write_active q = ustep q WriteActive OtherError (\<lambda>w. w\<lparr>up_active := up_local w\<rparr>)"

definition remove_active :: "'x upoutside \<Rightarrow> ('x, unit) upd" where
  "remove_active q = tbind (tget up_active) (\<lambda>a.
     if a = None then traise OtherError else ucall q RemoveActive OtherError (\<lambda>w. w\<lparr>up_active := None\<rparr>))"

definition change_local :: "(journal \<Rightarrow> journal) \<Rightarrow> ('x, unit) upd" where
  "change_local f = tput (\<lambda>w. w\<lparr>up_local := map_option f (up_local w)\<rparr>)"

definition copy_atomic :: "'x upoutside \<Rightarrow> string option \<Rightarrow> string \<Rightarrow> ('x, unit) upd" where
  "copy_atomic q source target = (case source of
     None \<Rightarrow> traise OtherError
   | Some c \<Rightarrow> ucall q (CopyTo target) OtherError (put_file target (Some c)))"

definition remove_file :: "'x upoutside \<Rightarrow> string \<Rightarrow> ('x, unit) upd" where
  "remove_file q p = tbind (tget (\<lambda>w. file_of w p)) (\<lambda>c.
     if c = None then tret () else ucall q (RemoveFile p) OtherError (put_file p None))"

definition quick_check :: "upenv \<Rightarrow> 'x upoutside \<Rightarrow> ('x, unit) upd" where
  "quick_check e q = tbind (ustep q ReadDatabases OtherError (\<lambda>w. w)) (\<lambda>_.
     tbind (tget (\<lambda>w. [e_sound e (file_of w gateway_db), e_sound e (file_of w xui_db)])) (\<lambda>rs.
     tfor rs (\<lambda>r. case r of None \<Rightarrow> traise OtherError | Some ok \<Rightarrow> uguard ok ''database_invalid'')))"

definition identities :: "upenv \<Rightarrow> 'x upoutside \<Rightarrow> ('x, string) upd" where
  "identities e q = tbind (ustep q ReadDatabases OtherError (\<lambda>w. w)) (\<lambda>_.
     tbind (tget (\<lambda>w. e_ident e (file_of w gateway_db) (file_of w xui_db))) (\<lambda>r.
     case r of None \<Rightarrow> traise OtherError | Some i \<Rightarrow> tret i))"

definition read_json :: "string option \<Rightarrow> ('x, pyval) upd" where
  "read_json body = (case body of
     None \<Rightarrow> traise OtherError
   | Some b \<Rightarrow> if 65536 < length b then ufail ''invalid_payload''
       else (case json_loads b of None \<Rightarrow> traise OtherError | Some v \<Rightarrow> tret v))"

definition need_dict :: "pyval \<Rightarrow> ('x, pydict) upd" where
  "need_dict v = (case v of PDict d \<Rightarrow> tret d | _ \<Rightarrow> traise OtherError)"

section \<open>The package\<close>

definition path_parts :: "string \<Rightarrow> string list" where
  "path_parts name = filter (\<lambda>p. p \<noteq> [] \<and> p \<noteq> ''.'') (py_split CHR ''/'' name)"

definition rel_path :: "string list \<Rightarrow> string" where
  "rel_path parts = join_with CHR ''/'' parts"

text \<open>The directories above a path.\<close>

definition above :: "string list \<Rightarrow> string list list" where
  "above parts = map (\<lambda>n. take n parts) [1..<length parts]"

definition member_refused :: "string list list \<Rightarrow> int \<Rightarrow> member \<Rightarrow> bool" where
  "member_refused seen bytes m =
     (starts_with ''/'' (m_name m) \<or> ''..'' \<in> set (path_parts (m_name m)) \<or> m_kind m = Special
      \<or> path_parts (m_name m) \<in> set seen \<or> 805306368 < bytes + int (length (m_data m)))"

text \<open>The members in order: what was written before the first that is refused or cannot be written.\<close>

fun extract_members :: "string list list \<Rightarrow> int \<Rightarrow> string list list \<Rightarrow> (string \<times> string) list \<Rightarrow> member list \<Rightarrow> upexc option \<times> (string \<times> string) list"
where
  "extract_members seen bytes dirs files [] = (None, files)"
| "extract_members seen bytes dirs files (m # ms) =
     (let parts = path_parts (m_name m); p = rel_path parts in
      if member_refused seen bytes m then (Some (UpdateError ''invalid_payload''), files)
      else if \<exists>d \<in> set (above parts). map_of files (rel_path d) \<noteq> None then (Some OtherError, files)
      else if m_kind m = Directory then
        (if map_of files p \<noteq> None then (Some OtherError, files)
         else extract_members (parts # seen) (bytes + int (length (m_data m))) (parts # above parts @ dirs) files ms)
      else if parts = [] \<or> parts \<in> set dirs \<or> map_of files p \<noteq> None then (Some OtherError, files)
      else extract_members (parts # seen) (bytes + int (length (m_data m))) (above parts @ dirs) (AList.update p (m_data m) files) ms)"

definition package_of :: "string \<Rightarrow> 'x updworld \<Rightarrow> (string \<times> string) list" where
  "package_of run w = (case map_of (up_packages w) run of None \<Rightarrow> [] | Some p \<Rightarrow> p)"

definition private_of :: "string \<Rightarrow> string \<Rightarrow> 'x updworld \<Rightarrow> string option" where
  "private_of run name w = map_of (up_private w) (run, name)"

definition extract_package :: "upenv \<Rightarrow> string \<Rightarrow> ('x, unit) upd" where
  "extract_package e run = tbind (tget (private_of run ''aimili-vps-package.tar.gz'')) (\<lambda>archive.
     case archive of None \<Rightarrow> traise OtherError
     | Some a \<Rightarrow> (case e_members e a of None \<Rightarrow> traise OtherError
       | Some ms \<Rightarrow> tbind (tget (package_of run)) (\<lambda>files.
           case extract_members [] 0 [] files ms of (err, files) \<Rightarrow>
             tbind (tput (\<lambda>w. w\<lparr>up_packages := AList.update run files (up_packages w)\<rparr>)) (\<lambda>_.
             case err of None \<Rightarrow> tret () | Some x \<Rightarrow> traise x))))"

section \<open>What is installed where\<close>

definition ends_with :: "string \<Rightarrow> string \<Rightarrow> bool" where
  "ends_with p s = starts_with (rev p) (rev s)"

definition egress_sources :: "(string \<times> string) list \<Rightarrow> string list" where
  "egress_sources package = sort (map (\<lambda>p. drop 23 p)
     (filter (\<lambda>p. starts_with ''services/aimili-egress/'' p \<and> CHR ''/'' \<notin> set (drop 23 p) \<and> ends_with ''.py'' p) (map fst package)))"

definition plan_paths :: "(string \<times> string) list \<Rightarrow> (string \<times> string) list" where
  "plan_paths package =
     [(''bin/aimili-gateway'', ''/usr/local/bin/aimili-gateway''),
      (''bin/aimili-gateway-admin'', ''/usr/local/bin/aimili-gateway-admin'')]
     @ map (\<lambda>n. (''services/aimili-egress/'' @ n, ''/opt/aimili-gateway/services/aimili-egress/'' @ n)) (egress_sources package)
     @ [(''deploy/bin/aimili-gateway-account'', ''/usr/local/sbin/aimili-gateway-account''),
        (''deploy/bin/aimili'', ''/usr/local/bin/aimili''),
        (''scripts/aimili_xui_protocol_transaction.py'', ''/usr/lib/aimili-gateway/aimili_xui_protocol_transaction.py'')]"

text \<open>The contents with their targets, when every source is there.\<close>

definition install_plan :: "(string \<times> string) list \<Rightarrow> (string \<times> string) list option" where
  "install_plan package =
     (if map_of package ''services/aimili-egress/vpngate_manager.py'' = None
         \<or> (\<exists>(src, target) \<in> set (plan_paths package). map_of package src = None) then None
      else Some (map (\<lambda>(src, target). (target, case map_of package src of Some c \<Rightarrow> c | None \<Rightarrow> [])) (plan_paths package)))"

definition new_config :: "pydict \<Rightarrow> pydict" where
  "new_config cfg = foldl dpop (dset cfg ''externalUiRoot'' (PStr []))
     [''freesubFeedPath'', ''freesubSingBoxPath'', ''freesubStateDir'', ''freesubSocksPort'', ''freesubVLESSPort'', ''freesubMixedPort'']"

definition version_document :: "string \<Rightarrow> string" where
  "version_document v = json_dumps (PDict [(''version'', PStr v)])"

section \<open>Checks before the switch\<close>

definition check_layout :: "upenv \<Rightarrow> 'x upoutside \<Rightarrow> ('x, unit) upd" where
  "check_layout e q =
     tbind (tget (\<lambda>w. file_of w config_path)) (\<lambda>body.
     tbind (read_json body) (\<lambda>v. tbind (need_dict v) (\<lambda>cfg.
     tbind (uask (q_layout q)) (\<lambda>(egress_is_dir, unit_is_ours).
     tbind (uguard (py_eq (dgetN cfg ''databasePath'') (PStr gateway_db) \<and> egress_is_dir) ''unsupported_layout'') (\<lambda>_.
     tbind (ustep q ServiceUnit command_failed (\<lambda>w. w)) (\<lambda>_.
     tbind (uguard unit_is_ours ''unsupported_layout'') (\<lambda>_.
     tbind (ustep q ServiceUnit command_failed (\<lambda>w. w)) (\<lambda>_. quick_check e q))))))))"

text \<open>The new binary is asked for its version.\<close>

definition check_version :: "upenv \<Rightarrow> 'x upoutside \<Rightarrow> pydict \<Rightarrow> pydict \<Rightarrow> string option \<Rightarrow> ('x, unit) upd" where
  "check_version e q r manifest binary =
     tbind (ustep q VersionCommand command_failed (\<lambda>w. w)) (\<lambda>_.
     case binary of None \<Rightarrow> ufail ''command_failed''
     | Some b \<Rightarrow> (case e_version e b of None \<Rightarrow> ufail ''command_failed''
       | Some out \<Rightarrow> (case json_loads out of None \<Rightarrow> traise OtherError
         | Some v \<Rightarrow> tbind (need_dict v) (\<lambda>info.
             uguard (py_eq (dgetN info ''version'') (dgetN r ''version'')
               \<and> py_eq (dgetN info ''commit'') (dgetN manifest ''gatewayCommit'')) ''version_invalid''))))"

section \<open>Saving and restoring\<close>

definition saved_file :: "'x updworld \<Rightarrow> string \<Rightarrow> nat \<Rightarrow> string option" where
  "saved_file w run i = map_of (up_saved w) (run, i)"

text \<open>One target is copied to the snapshot and noted in the journal of the running process.\<close>

definition save_target :: "'x upoutside \<Rightarrow> string \<Rightarrow> nat \<times> string \<Rightarrow> ('x, unit) upd" where
  "save_target q run = (\<lambda>(i, target).
     tbind (tget (\<lambda>w. file_of w target)) (\<lambda>c.
     tbind (case c of None \<Rightarrow> tret ()
       | Some s \<Rightarrow> ustep q (SaveFile target) OtherError (\<lambda>w. w\<lparr>up_saved := AList.update (run, i) s (up_saved w)\<rparr>)) (\<lambda>_.
     tbind (tget (\<lambda>w. saved_file w run i)) (\<lambda>saved.
     change_local (\<lambda>j. j\<lparr>j_files := j_files j @ [(target, if saved = None then None else Some i)]\<rparr>)))))"

definition log_name :: "string \<Rightarrow> bool" where
  "log_name p = (\<exists>part \<in> set (path_parts p). part = ''logs'' \<or> ends_with ''.log'' part)"

definition egress_tree :: "'x updworld \<Rightarrow> (string \<times> string) list" where
  "egress_tree w = filter (\<lambda>(p, c). \<not> log_name p)
     (map (\<lambda>(p, c). (drop (length egress_dir) p, c)) (filter (\<lambda>(p, c). starts_with egress_dir p) (up_fs w)))"

definition save_tree :: "'x upoutside \<Rightarrow> string \<Rightarrow> ('x, unit) upd" where
  "save_tree q run = ustep q SaveTree OtherError (\<lambda>w. w\<lparr>up_trees := AList.update run (egress_tree w) (up_trees w)\<rparr>)"

definition restore_entry :: "'x upoutside \<Rightarrow> string \<Rightarrow> string \<times> nat option \<Rightarrow> ('x, unit) upd" where
  "restore_entry q run = (\<lambda>(target, saved). case saved of
     Some i \<Rightarrow> tbind (tget (\<lambda>w. saved_file w run i)) (\<lambda>c. copy_atomic q c target)
   | None \<Rightarrow> remove_file q target)"

definition restore_tree :: "'x upoutside \<Rightarrow> string \<Rightarrow> ('x, unit) upd" where
  "restore_tree q run = tbind (tget (\<lambda>w. map_of (up_trees w) run)) (\<lambda>t.
     tfor (case t of None \<Rightarrow> [] | Some files \<Rightarrow> files) (\<lambda>(p, c). copy_atomic q (Some c) (egress_dir @ p)))"

definition rollback :: "upenv \<Rightarrow> 'x upoutside \<Rightarrow> journal \<Rightarrow> ('x, unit) upd" where
  "rollback e q j =
     tbind (stop_services q) (\<lambda>_.
     tbind (tfor (j_files j) (restore_entry q (j_run j))) (\<lambda>_.
     tbind (tfor side_files (remove_file q)) (\<lambda>_.
     tbind (restore_tree q (j_run j)) (\<lambda>_.
     tbind (start_services q) (\<lambda>_. tbind (wait_health q) (\<lambda>_. tbind (quick_check e q) (\<lambda>_.
     tbind (identities e q) (\<lambda>i. uguard (i = j_ids j) ''identity_changed''))))))))"

section \<open>The switch\<close>

definition copy_all :: "'x upoutside \<Rightarrow> (string \<times> string) list \<Rightarrow> ('x, unit) upd" where
  "copy_all q pairs = tfor pairs (\<lambda>(target, c). copy_atomic q (Some c) target)"

definition targets_of :: "(string \<times> string) list \<Rightarrow> string list" where
  "targets_of pairs = map fst pairs @ [config_path, gateway_db, xui_db, current_path]"

definition rewrite_config :: "'x upoutside \<Rightarrow> string \<Rightarrow> ('x, unit) upd" where
  "rewrite_config q run =
     tbind (tget (\<lambda>w. file_of w config_path)) (\<lambda>body.
     tbind (read_json body) (\<lambda>v. tbind (need_dict v) (\<lambda>cfg.
     tbind (ustep q (WritePrivate ''config.json'') OtherError
       (\<lambda>w. w\<lparr>up_private := AList.update (run, ''config.json'') (json_dumps (PDict (new_config cfg))) (up_private w)\<rparr>)) (\<lambda>_.
     tbind (tget (private_of run ''config.json'')) (\<lambda>c. copy_atomic q c config_path)))))"

definition write_current :: "'x upoutside \<Rightarrow> string \<Rightarrow> ('x, unit) upd" where
  "write_current q v = ustep q (CopyTo current_path) OtherError (put_file current_path (Some (version_document v)))"

definition save_all :: "upenv \<Rightarrow> 'x upoutside \<Rightarrow> string \<Rightarrow> (string \<times> string) list \<Rightarrow> ('x, unit) upd" where
  "save_all e q run pairs =
     tbind (stop_services q) (\<lambda>_. tbind (quick_check e q) (\<lambda>_.
     tbind (tfor (enumerate 0 (targets_of pairs)) (save_target q run)) (\<lambda>_. save_tree q run)))"

text \<open>From the journal on.\<close>

definition switch_files :: "upenv \<Rightarrow> 'x upoutside \<Rightarrow> string \<Rightarrow> string \<Rightarrow> (string \<times> string) list \<Rightarrow> string \<Rightarrow> ('x, unit) upd" where
  "switch_files e q run version pairs ids =
     tbind (save_all e q run pairs) (\<lambda>_.
     tbind (change_local (\<lambda>j. j\<lparr>j_phase := ''installing''\<rparr>)) (\<lambda>_.
     tbind (write_active q) (\<lambda>_.
     tbind (progress q ''install'') (\<lambda>_.
     tbind (copy_all q pairs) (\<lambda>_.
     tbind (rewrite_config q run) (\<lambda>_.
     tbind (progress q ''restart'') (\<lambda>_.
     tbind (start_services q) (\<lambda>_. tbind (wait_health q) (\<lambda>_. tbind (quick_check e q) (\<lambda>_.
     tbind (progress q ''identities'') (\<lambda>_.
     tbind (identities e q) (\<lambda>i. tbind (uguard (i = ids) ''identity_changed'') (\<lambda>_.
     tbind (write_current q version) (\<lambda>_.
     tbind (finish q run ''success'' []) (\<lambda>_. remove_active q)))))))))))))))"

definition guide_codes :: "string list" where
  "guide_codes =
     [''invalid_signature'', ''invalid_payload'', ''download_failed'', ''release_missing'', ''health_failed'', ''rollback_failed'',
      ''interrupted'', ''command_failed'', ''operation_failed'', ''version_invalid'', ''unsupported_release'',
      ''platform_unsupported'', ''unsupported_layout'', ''database_too_new'', ''database_too_old'', ''disk_full'',
      ''updater_upgrade_required'', ''updater_too_new'', ''unsupported_component'', ''release_incomplete'',
      ''service_unhealthy'', ''manifest_incompatible'', ''updater_engine_failed'', ''identity_changed'', ''database_invalid'']"

definition guide_code :: "upexc \<Rightarrow> string" where
  "guide_code x = (case x of UpdateError c \<Rightarrow> if c \<in> set guide_codes then c else ''operation_failed'' | _ \<Rightarrow> ''operation_failed'')"

text \<open>The journal's phase decides whether anything has to be put back.\<close>

definition undo :: "upenv \<Rightarrow> 'x upoutside \<Rightarrow> journal \<Rightarrow> ('x, unit) upd" where
  "undo e q j = (if j_phase j = ''installing'' then rollback e q j
     else tbind (start_services q) (\<lambda>_. wait_health q))"

definition switch_failed :: "upenv \<Rightarrow> 'x upoutside \<Rightarrow> string \<Rightarrow> upexc \<Rightarrow> ('x, unit) upd" where
  "switch_failed e q run x =
     tbind (tget up_local) (\<lambda>l. case l of None \<Rightarrow> traise OtherError
     | Some j \<Rightarrow> tbind (trescue caught (tbind (undo e q j) (\<lambda>_. tret True))
           (\<lambda>_. tbind (finish q run ''repair_required'' ''rollback_failed'') (\<lambda>_. tret False))) (\<lambda>ok.
         if ok then tbind (finish q run ''rolled_back'' (guide_code x)) (\<lambda>_. remove_active q) else tret ()))"

text \<open>A new directory, which is empty.\<close>

definition make_snapshot :: "'x upoutside \<Rightarrow> string \<Rightarrow> ('x, unit) upd" where
  "make_snapshot q run = tbind (tget up_snapshots) (\<lambda>ss.
     if run \<in> set ss then traise OtherError
     else ustep q MakeSnapshot OtherError (\<lambda>w. w\<lparr>up_snapshots := run # up_snapshots w,
       up_saved := filter (\<lambda>((r, i), c). r \<noteq> run) (up_saved w)\<rparr>))"

definition new_journal :: "pydict \<Rightarrow> string \<Rightarrow> string \<Rightarrow> journal" where
  "new_journal r run ids = \<lparr>j_request = r, j_run = run, j_files = [], j_ids = ids, j_phase = ''stopping''\<rparr>"

text \<open>The pairs to install: the plan of the package and the panel's binary.\<close>

definition pairs_to_install :: "string \<Rightarrow> ('x, (string \<times> string) list) upd" where
  "pairs_to_install run =
     tbind (tget (package_of run)) (\<lambda>package. tbind (tget (private_of run ''x-ui-custom-linux-amd64'')) (\<lambda>xui.
       case (install_plan package, xui) of
         (None, _) \<Rightarrow> ufail ''invalid_payload''
       | (Some pairs, Some x) \<Rightarrow> tret (pairs @ [(xui_binary, x)])
       | (Some pairs, None) \<Rightarrow> traise OtherError))"

definition apply_update :: "upenv \<Rightarrow> 'x upoutside \<Rightarrow> pydict \<Rightarrow> string \<Rightarrow> string \<Rightarrow> pydict \<Rightarrow> ('x, unit) upd" where
  "apply_update e q r run version manifest =
     tbind (check_layout e q) (\<lambda>_.
     tbind (uask (q_free q)) (\<lambda>free. tbind (uguard (1073741824 \<le> free) ''disk_full'') (\<lambda>_.
     tbind (extract_package e run) (\<lambda>_.
     tbind (pairs_to_install run) (\<lambda>pairs.
     tbind (check_version e q r manifest (map_of pairs ''/usr/local/bin/aimili-gateway'')) (\<lambda>_.
     tbind (make_snapshot q run) (\<lambda>_.
     tbind (identities e q) (\<lambda>ids.
     tbind (tput (\<lambda>w. w\<lparr>up_local := Some (new_journal r run ids)\<rparr>)) (\<lambda>_.
     tbind (write_active q) (\<lambda>_.
     tbind (progress q ''backup'') (\<lambda>_.
     trescue caught (switch_files e q run version pairs ids) (switch_failed e q run))))))))))))"

section \<open>Files of the downloader\<close>

definition stage_file :: "'x upoutside \<Rightarrow> string \<Rightarrow> string \<Rightarrow> nat \<Rightarrow> ('x, string) upd" where
  "stage_file q run name limit = tbind (uask (q_stage q run name)) (\<lambda>c. case c of
     None \<Rightarrow> traise OtherError
   | Some body \<Rightarrow> if limit < length body then ufail ''invalid_payload'' else tret body)"

definition put_private :: "string \<Rightarrow> string \<Rightarrow> string \<Rightarrow> ('x, unit) upd" where
  "put_private run name body = tput (\<lambda>w. w\<lparr>up_private := AList.update (run, name) body (up_private w)\<rparr>)"

definition ready_errors :: "string list" where
  "ready_errors = [''invalid_signature'', ''unsupported_release'', ''invalid_payload'', ''release_missing'', ''release_incomplete'', ''download_failed'']"

text \<open>One asset is copied to the private directory first and compared there with the digest of the
  signed manifest.\<close>

definition take_asset :: "upenv \<Rightarrow> 'x upoutside \<Rightarrow> string \<Rightarrow> pydict \<Rightarrow> string \<Rightarrow> ('x, unit) upd" where
  "take_asset e q run assets key = (case dget assets key of
     None \<Rightarrow> tret ()
   | Some (PDict asset) \<Rightarrow> (case (dgetN asset ''name'', dgetN asset ''sha256'') of
       (PStr name, PStr digest) \<Rightarrow>
         tbind (stage_file q run name 268435456) (\<lambda>body.
         tbind (put_private run name body) (\<lambda>_.
         tbind (tget (private_of run name)) (\<lambda>c. uguard (map_option (e_sha e) c = Some digest) ''invalid_payload'')))
     | _ \<Rightarrow> traise OtherError)
   | Some _ \<Rightarrow> traise OtherError)"

section \<open>The update engine\<close>

definition engine_name :: "string \<Rightarrow> bool" where
  "engine_name f = (starts_with ''engine-'' f \<and> ends_with ''.py'' f \<and> (case py_split CHR ''-'' (take (length f - 3) f) of
     [a, v, d] \<Rightarrow> v \<noteq> [] \<and> list_all digit_char v \<and> hex_of 12 d | _ \<Rightarrow> False))"

definition engine_entry :: "string \<Rightarrow> string \<Rightarrow> pyval" where
  "engine_entry f digest = PDict [(''file'', PStr f), (''sha256'', PStr digest)]"

definition pointer_path :: string where
  "pointer_path = slots_dir @ ''current.json''"

definition updater_pointer :: "upenv \<Rightarrow> 'x upoutside \<Rightarrow> ('x, pydict) upd" where
  "updater_pointer e q =
     tbind (tget (\<lambda>w. file_of w pointer_path)) (\<lambda>body.
     tbind (uguard (body \<noteq> None) ''updater_upgrade_required'') (\<lambda>_.
     tbind (uask (q_trusted q)) (\<lambda>trusted. tbind (uguard trusted ''updater_upgrade_required'') (\<lambda>_.
     tbind (read_json body) (\<lambda>v. tbind (need_dict v) (\<lambda>state.
     case dget_or state ''current'' (PDict []) of
       PDict item \<Rightarrow> (case (dgetN item ''file'', dgetN item ''sha256'') of
           (PStr f, PStr digest) \<Rightarrow>
             tbind (uguard (engine_name f \<and> hex_of 64 digest) ''updater_upgrade_required'') (\<lambda>_.
             tbind (tget (\<lambda>w. file_of w (slots_dir @ f))) (\<lambda>c. case c of
               None \<Rightarrow> traise OtherError
             | Some b \<Rightarrow> tbind (uguard (e_sha e b = digest) ''updater_engine_failed'') (\<lambda>_. tret state)))
         | _ \<Rightarrow> ufail ''updater_upgrade_required'')
     | _ \<Rightarrow> ufail ''updater_upgrade_required''))))))"

definition slot_entry :: "upenv \<Rightarrow> 'x upoutside \<Rightarrow> string \<Rightarrow> int \<Rightarrow> ('x, pyval) upd" where
  "slot_entry e q source version =
     (let digest = e_sha e source; f = ''engine-'' @ int_str version @ ''-'' @ take 12 digest @ ''.py'' in
      tbind (tget (\<lambda>w. file_of w (slots_dir @ f))) (\<lambda>old.
      tbind (if map_option (e_sha e) old = Some digest then tret () else copy_atomic q (Some source) (slots_dir @ f)) (\<lambda>_.
      tret (engine_entry f digest))))"

definition promote_engine :: "upenv \<Rightarrow> 'x upoutside \<Rightarrow> string \<Rightarrow> pydict \<Rightarrow> ('x, unit) upd" where
  "promote_engine e q run manifest =
     (case (as_dict (dgetN manifest ''assets''), as_dict (dgetN manifest ''updater'')) of
        (Some assets, Some updater) \<Rightarrow>
          (case (as_dict (dgetN assets ''updater''), exact_int (dgetN updater ''version'')) of
             (Some asset, Some version) \<Rightarrow>
               (case (dgetN asset ''name'', dgetN asset ''sha256'') of
                  (PStr name, PStr digest) \<Rightarrow>
                    tbind (tget (private_of run name)) (\<lambda>c. case c of
                      None \<Rightarrow> traise OtherError
                    | Some source \<Rightarrow>
                        tbind (uguard (e_sha e source = digest) ''invalid_payload'') (\<lambda>_.
                        tbind (updater_pointer e q) (\<lambda>state.
                        tbind (uguard (\<not> py_eq (dgetN state ''failedHash'') (PStr digest)) ''updater_engine_failed'') (\<lambda>_.
                        tbind (slot_entry e q source version) (\<lambda>target.
                        if py_eq target (dgetN state ''current'') then tret ()
                        else ustep q (CopyTo pointer_path) OtherError
                          (put_file pointer_path (Some (json_dumps (PDict [(''current'', target), (''previous'', dgetN state ''current'')])))))))))
                | _ \<Rightarrow> traise OtherError)
           | _ \<Rightarrow> traise OtherError)
      | _ \<Rightarrow> traise OtherError)"

section \<open>One request\<close>

definition ready_json :: "'x upoutside \<Rightarrow> string \<Rightarrow> ('x, pydict) upd" where
  "ready_json q run = tbind (stage_file q run ''ready.json'' 65536) (\<lambda>body. tbind (read_json (Some body)) need_dict)"

text \<open>Nothing is ready yet: the progress of the downloader is passed on.\<close>

definition pass_progress :: "'x upoutside \<Rightarrow> string \<Rightarrow> ('x, unit) upd" where
  "pass_progress q run = tbind (uask (q_stage q run ''progress.json'')) (\<lambda>body. case body of
     None \<Rightarrow> tret ()
   | Some b \<Rightarrow> tbind (read_json (Some b)) (\<lambda>v. tbind (need_dict v) (\<lambda>d.
       case py_int (dget_or d ''percent'' (PInt 0)) of Inl x \<Rightarrow> traise OtherError | Inr n \<Rightarrow> progress q ''download'')))"

definition ready_error :: "pyval \<Rightarrow> upexc" where
  "ready_error v = (case v of
     PStr c \<Rightarrow> if c \<in> set ready_errors then UpdateError c else UpdateError ''download_failed''
   | PList xs \<Rightarrow> OtherError | PDict d \<Rightarrow> OtherError | _ \<Rightarrow> UpdateError ''download_failed'')"

definition copy_stage :: "'x upoutside \<Rightarrow> string \<Rightarrow> string \<Rightarrow> ('x, unit) upd" where
  "copy_stage q run name = tbind (stage_file q run name 65536) (put_private run name)"

definition verified_manifest :: "upenv \<Rightarrow> string \<Rightarrow> pyval \<Rightarrow> pyval \<Rightarrow> ('x, pydict) upd" where
  "verified_manifest e run tag release_tag =
     tbind (tget (private_of run ''manifest.json'')) (\<lambda>b. tbind (tget (private_of run ''manifest.sig'')) (\<lambda>s.
       tlift (verify_manifest (e_signed e) b s tag release_tag)))"

definition read_current :: "('x, pyval) upd" where
  "read_current = tbind (tget (\<lambda>w. file_of w current_path)) (\<lambda>b. tbind (read_json b) (\<lambda>v. tbind (need_dict v) (\<lambda>d.
     case dget d ''version'' of None \<Rightarrow> traise OtherError | Some c \<Rightarrow> tret c)))"

definition valid_current :: "pyval \<Rightarrow> bool" where
  "valid_current c = (case c of PStr s \<Rightarrow> is_version s \<or> starts_with ''legacy-'' s | _ \<Rightarrow> False)"

definition newer_than :: "string \<Rightarrow> pyval \<Rightarrow> upexc + bool" where
  "newer_than tag c = (case c of PStr s \<Rightarrow> is_newer tag s | _ \<Rightarrow> Inr False)"

definition publish_catalog :: "'x upoutside \<Rightarrow> string \<Rightarrow> string \<Rightarrow> pyval \<Rightarrow> report \<Rightarrow> ('x, unit) upd" where
  "publish_catalog q run tag c rep =
     tbind (tlift (if valid_current c then newer_than tag c else Inr True)) (\<lambda>shown.
     tbind (ustep q (WriteProgress ''catalog.json'') OtherError (\<lambda>w. w\<lparr>up_catalog := Some (PStr tag,
       if shown then [if valid_current c then rep else Blocked ''version_invalid'' []] else [])\<rparr>)) (\<lambda>_.
     tbind (progress q ''catalog'') (\<lambda>_. finish q run ''success'' [])))"

definition take_assets :: "upenv \<Rightarrow> 'x upoutside \<Rightarrow> string \<Rightarrow> pydict \<Rightarrow> ('x, unit) upd" where
  "take_assets e q run manifest = (case as_dict (dgetN manifest ''assets'') of
     None \<Rightarrow> traise OtherError
   | Some assets \<Rightarrow> tfor [''package'', ''xui'', ''updater''] (take_asset e q run assets))"

definition install_apply :: "upenv \<Rightarrow> 'x upoutside \<Rightarrow> pydict \<Rightarrow> string \<Rightarrow> string \<Rightarrow> pydict \<Rightarrow> pyval \<Rightarrow> report \<Rightarrow> ('x, unit) upd" where
  "install_apply e q r run tag manifest c rep =
     tbind (tlift (newer_than tag c)) (\<lambda>newer. tbind (uguard newer ''version_invalid'') (\<lambda>_.
     case rep of
       Blocked code part \<Rightarrow> ufail code
     | Compatible upgrade \<Rightarrow>
         tbind (progress q ''signature'') (\<lambda>_.
         tbind (take_assets e q run manifest) (\<lambda>_.
         if upgrade then tbind (progress q ''updater'') (\<lambda>_. tbind (promote_engine e q run manifest) (\<lambda>_. progress q ''updater''))
         else apply_update e q r run tag manifest))))"

text \<open>The verified release against the version that is installed.\<close>

definition install_release :: "upenv \<Rightarrow> 'x upoutside \<Rightarrow> pydict \<Rightarrow> string \<Rightarrow> pyval \<Rightarrow> pydict \<Rightarrow> pyval \<Rightarrow> ('x, unit) upd" where
  "install_release e q r run tagv manifest c = (case tagv of
     PStr tag \<Rightarrow>
       if py_eq (dgetN r ''action'') (PStr ''apply'') \<and> py_eq c tagv then tbind (write_current q tag) (\<lambda>_. finish q run ''success'' [])
       else tbind (uask (q_facts q)) (\<lambda>facts. tbind (tlift (assess_compatibility manifest facts)) (\<lambda>rep.
         if py_eq (dgetN r ''action'') (PStr ''apply'') then install_apply e q r run tag manifest c rep
         else publish_catalog q run tag c rep))
   | _ \<Rightarrow> traise OtherError)"

definition install_ready :: "upenv \<Rightarrow> 'x upoutside \<Rightarrow> pydict \<Rightarrow> string \<Rightarrow> pydict \<Rightarrow> ('x, unit) upd" where
  "install_ready e q r run ready =
     (let tagv = dget_or ready ''version'' (PStr []) in
      tbind (uguard (\<not> py_eq (dgetN r ''action'') (PStr ''apply'') \<or> py_eq tagv (dgetN r ''version'')) ''invalid_payload'') (\<lambda>_.
      tbind (copy_stage q run ''manifest.json'') (\<lambda>_. tbind (copy_stage q run ''manifest.sig'') (\<lambda>_.
      tbind (verified_manifest e run tagv (dgetN ready ''releaseTag'')) (\<lambda>manifest.
      tbind read_current (install_release e q r run tagv manifest))))))"

definition install_request :: "upenv \<Rightarrow> 'x upoutside \<Rightarrow> pydict \<Rightarrow> string \<Rightarrow> ('x, unit) upd" where
  "install_request e q r run =
     tbind (uask (q_stage q run ''ready.json'')) (\<lambda>there.
     if there = None then pass_progress q run
     else tbind (ready_json q run) (\<lambda>ready.
       if truthy (dgetN ready ''error'') then traise (ready_error (dgetN ready ''error''))
       else install_ready e q r run ready))"

section \<open>One run of the service\<close>

definition error_code :: "upexc \<Rightarrow> string" where
  "error_code x = (case x of UpdateError c \<Rightarrow> c | _ \<Rightarrow> ''operation_failed'')"

definition result_of :: "string \<Rightarrow> 'x updworld \<Rightarrow> string option" where
  "result_of run w = map_option fst (map_of (up_results w) run)"

text \<open>An interrupted run is settled before anything else.\<close>

definition recover_run :: "upenv \<Rightarrow> 'x upoutside \<Rightarrow> journal \<Rightarrow> ('x, unit) upd" where
  "recover_run e q j = tbind (tget (result_of (j_run j))) (\<lambda>res. case res of
     Some st \<Rightarrow> if st = ''repair_required'' then tret () else remove_active q
   | None \<Rightarrow> trescue caught
       (tbind (progress q ''rollback'') (\<lambda>_. tbind (undo e q j) (\<lambda>_.
        tbind (finish q (j_run j) ''rolled_back'' ''interrupted'') (\<lambda>_. remove_active q))))
       (\<lambda>_. finish q (j_run j) ''repair_required'' ''rollback_failed''))"

definition serve_request :: "upenv \<Rightarrow> 'x upoutside \<Rightarrow> pydict \<Rightarrow> string \<Rightarrow> ('x, unit) upd" where
  "serve_request e q r run = trescue caught (install_request e q r run)
     (\<lambda>x. tbind (tget up_active) (\<lambda>a.
       finish q run (if a = None then ''failed'' else ''repair_required'') (error_code x)))"

text \<open>The first request that is valid, named after its run and has no result.\<close>

fun pick_request :: "(string \<times> pyval option) list \<Rightarrow> 'x updworld \<Rightarrow> (string \<times> pydict) option" where
  "pick_request [] w = None"
| "pick_request ((stem, v) # rest) w = (case v of
     None \<Rightarrow> pick_request rest w
   | Some doc \<Rightarrow> (case validate_request doc of
       Inl x \<Rightarrow> pick_request rest w
     | Inr r \<Rightarrow> if py_eq (dgetN r ''runId'') (PStr stem) \<and> result_of stem w = None then Some (stem, r) else pick_request rest w))"

definition main_install :: "upenv \<Rightarrow> 'x upoutside \<Rightarrow> ('x, unit) upd" where
  "main_install e q =
     tbind (tput (\<lambda>w. w\<lparr>up_local := None\<rparr>)) (\<lambda>_.
     tbind (tget up_active) (\<lambda>a. case a of
       Some j \<Rightarrow> recover_run e q j
     | None \<Rightarrow>
         tbind (uask (q_adopt q)) (\<lambda>adopt.
         tbind (uask (q_requests q)) (\<lambda>reqs.
         tbind (tget (pick_request reqs)) (\<lambda>p. case p of
           None \<Rightarrow> tret ()
         | Some (run, r) \<Rightarrow> (case adopt of
             None \<Rightarrow> serve_request e q r run
           | Some (UpdateError c) \<Rightarrow> finish q run ''failed'' c
           | Some x \<Rightarrow> traise x))))))"

end
