(* ===== verification/Update_Safety.thy ===== *)
theory Update_Safety
  imports Update_Install
begin

text \<open>
  Why an update never leaves a mixture of two versions behind, wherever it fails or is killed. The
  program is what the host has outside the paths the services write and outside the slots of
  the update engine. Either no update is in progress and the program is one that was
  completely installed from signed content, or the journal says how to get back to such a one.
\<close>

section \<open>The program and what the steps leave alone\<close>

definition program_path :: "string \<Rightarrow> bool" where
  "program_path p = (\<not> service_path p \<and> \<not> starts_with slots_dir p)"

type_synonym program = "string \<Rightarrow> string option"

definition program :: "'x updworld \<Rightarrow> program" where
  "program w p = (if program_path p then file_of w p else None)"

definition prog_put :: "string \<Rightarrow> string option \<Rightarrow> program \<Rightarrow> program" where
  "prog_put t c f = (if program_path t then f(t := c) else f)"

lemma file_of_put: "file_of (put_file p c w) p' = (if p' = p then c else file_of w p')"
  by (auto simp: file_of_def put_file_def put_path_def update_conv' delete_conv' split: option.split)

lemma program_put: "program (put_file t c w) = prog_put t c (program w)"
  by (auto simp: program_def prog_put_def file_of_put fun_eq_iff)

record view =
  v_program :: program
  v_private :: "((string \<times> string) \<times> string) list"
  v_packages :: "(string \<times> (string \<times> string) list) list"
  v_saved :: "((string \<times> nat) \<times> string) list"
  v_active :: "journal option"
  v_local :: "journal option"
  v_results :: "(string \<times> string \<times> string) list"

definition view_of :: "'x updworld \<Rightarrow> view" where
  "view_of w = \<lparr>v_program = program w, v_private = up_private w, v_packages = up_packages w, v_saved = up_saved w,
     v_active = up_active w, v_local = up_local w, v_results = up_results w\<rparr>"

lemma view_fields [simp]:
  "view_of (w\<lparr>up_x := x\<rparr>) = view_of w" "view_of (w\<lparr>up_running := r\<rparr>) = view_of w"
  "view_of (w\<lparr>up_catalog := c\<rparr>) = view_of w" "view_of (w\<lparr>up_trees := t\<rparr>) = view_of w"
  "view_of (w\<lparr>up_snapshots := ss\<rparr>) = view_of w"
  by (simp_all add: view_of_def program_def file_of_def fun_eq_iff)

lemma view_put: "\<not> program_path p \<Longrightarrow> view_of (put_file p c w) = view_of w"
  by (simp add: view_of_def program_put prog_put_def) (simp add: put_file_def)

lemma view_serve [simp]: "view_of (serve q w) = view_of w"
proof -
  have "view_of (foldl (\<lambda>v (p, c). if service_path p then put_file p c v else v) w ws) = view_of w" for ws
    by (induction ws arbitrary: w) (auto simp: view_put program_path_def)
  then show ?thesis by (simp add: serve_def split: prod.split)
qed

text \<open>Predicates on the view.\<close>

definition seen :: "(view \<Rightarrow> bool) \<Rightarrow> 'x updworld \<Rightarrow> bool" where
  "seen I w = I (view_of w)"

lemma keeps_ustep [keeps_intros]: "(\<And>w. view_of (f w) = view_of w) \<Longrightarrow> keeps (seen I) (ustep q query err f)"
  by (simp add: keeps_def seen_def ustep_def Let_def split: prod.split step_end.split)

lemma keeps_ucall [keeps_intros]: "(\<And>w. view_of (f w) = view_of w) \<Longrightarrow> keeps (seen I) (ucall q query err f)"
  by (simp add: keeps_def seen_def ucall_def Let_def split: prod.split step_end.split)

lemma keeps_uask [keeps_intros]: "keeps (seen I) (uask f)"
  by (simp add: keeps_def seen_def uask_def split: prod.split)

lemma keeps_ufail [keeps_intros]: "keeps I (ufail c)"
  and keeps_uguard [keeps_intros]: "keeps I (uguard b c)"
  by (simp_all add: keeps_def ufail_def uguard_def traise_def tret_def)

lemma keeps_view_put [keeps_intros]: "(\<And>w. view_of (f w) = view_of w) \<Longrightarrow> keeps (seen I) (tput f)"
  by (simp add: keeps_def seen_def tput_def)

lemma keeps_read_json [keeps_intros]: "keeps I (read_json b)"
  unfolding read_json_def by (auto intro!: keeps_intros split: option.split)

lemma keeps_need_dict [keeps_intros]: "keeps I (need_dict v)"
  unfolding need_dict_def by (auto intro!: keeps_intros split: pyval.split)

lemma keeps_services [keeps_intros]: "keeps (seen I) (stop_services q)" "keeps (seen I) (start_services q)"
  "keeps (seen I) (wait_health q)" "keeps (seen I) (progress q ph)"
  unfolding stop_services_def start_services_def wait_health_def progress_def by (auto intro!: keeps_intros)

lemma keeps_checks [keeps_intros]: "keeps (seen I) (quick_check e q)" "keeps (seen I) (identities e q)"
  unfolding quick_check_def identities_def by (auto intro!: keeps_intros split: option.split)

lemma keeps_layout [keeps_intros]: "keeps (seen I) (check_layout e q)"
  unfolding check_layout_def by (auto intro!: keeps_intros)

lemma keeps_version [keeps_intros]: "keeps (seen I) (check_version e q r m b)"
  unfolding check_version_def by (auto intro!: keeps_intros split: option.split)

lemma keeps_copy_aside [keeps_intros]: "\<not> program_path t \<Longrightarrow> keeps (seen I) (copy_atomic q c t)"
  unfolding copy_atomic_def by (auto intro!: keeps_intros simp: view_put split: option.split)

lemma keeps_remove_aside [keeps_intros]: "\<not> program_path t \<Longrightarrow> keeps (seen I) (remove_file q t)"
  unfolding remove_file_def by (auto intro!: keeps_intros simp: view_put)

lemma keeps_restore_tree [keeps_intros]: "keeps (seen I) (restore_tree q run)"
proof -
  have "\<not> program_path (egress_dir @ p)" for p
    by (simp add: program_path_def service_path_def starts_with_def)
  then show ?thesis unfolding restore_tree_def by (auto intro!: keeps_intros)
qed

lemma keeps_side_files [keeps_intros]: "keeps (seen I) (tfor side_files (remove_file q))"
  by (intro keeps_intros) (simp add: program_path_def service_path_def)

lemma keeps_stage [keeps_intros]: "keeps (seen I) (stage_file q run name n)"
  unfolding stage_file_def by (auto intro!: keeps_intros split: option.split)

lemma keeps_ready [keeps_intros]: "keeps (seen I) (ready_json q run)"
  unfolding ready_json_def by (auto intro!: keeps_intros)

lemma keeps_pass_progress [keeps_intros]: "keeps (seen I) (pass_progress q run)"
  unfolding pass_progress_def by (auto intro!: keeps_intros split: option.split sum.split)

lemma keeps_manifest [keeps_intros]: "keeps (seen I) (verified_manifest e run tag rt)"
  unfolding verified_manifest_def by (auto intro!: keeps_intros)

lemma keeps_current [keeps_intros]: "keeps (seen I) read_current"
  unfolding read_current_def by (auto intro!: keeps_intros split: option.split)

lemma slots_aside: "\<not> program_path (slots_dir @ f)"
  by (simp add: program_path_def starts_with_def)

lemma keeps_pointer [keeps_intros]: "keeps (seen I) (updater_pointer e q)"
  unfolding updater_pointer_def by (auto intro!: keeps_intros split: pyval.split option.split)

lemma keeps_slot_entry [keeps_intros]: "keeps (seen I) (slot_entry e q s v)"
  unfolding slot_entry_def Let_def by (auto intro!: keeps_intros simp: slots_aside)

lemma keeps_promote [keeps_intros]: "keeps (seen I) (promote_engine e q run m)"
  unfolding promote_engine_def
  by (auto intro!: keeps_intros simp: slots_aside view_put pointer_path_def split: option.split pyval.split)

section \<open>Signed content and intact programs\<close>

text \<open>A manifest accepted under the release key.\<close>

definition signed_manifest :: "upenv \<Rightarrow> pydict \<Rightarrow> bool" where
  "signed_manifest e m = (\<exists>b s tag rt. e_signed e b s \<and> check_tag rt (PStr tag) (read_json_text b) = Inr m)"

definition names_content :: "upenv \<Rightarrow> pydict \<Rightarrow> string \<Rightarrow> string \<Rightarrow> bool" where
  "names_content e m key c = (\<exists>assets asset. dgetN m ''assets'' = PDict assets \<and> dget assets key = Some (PDict asset)
     \<and> dgetN asset ''sha256'' = PStr (e_sha e c))"

definition genuine_archive :: "upenv \<Rightarrow> string \<Rightarrow> bool" where
  "genuine_archive e a = (\<exists>m. signed_manifest e m \<and> names_content e m ''package'' a)"

definition genuine :: "upenv \<Rightarrow> string \<Rightarrow> bool" where
  "genuine e c =
     ((\<exists>a ms. genuine_archive e a \<and> e_members e a = Some ms \<and> c \<in> m_data ` set ms)
      \<or> (\<exists>m. signed_manifest e m \<and> names_content e m ''xui'' c))"

definition all_genuine :: "upenv \<Rightarrow> (string \<times> string) list \<Rightarrow> bool" where
  "all_genuine e files = (\<forall>p c. map_of files p = Some c \<longrightarrow> genuine e c)"

text \<open>What one release installs: its whole archive was unpacked (over what an earlier attempt may have
  left), every file of the plan is there, and the panel is the one the manifest names.\<close>

definition release_plan :: "upenv \<Rightarrow> pydict \<Rightarrow> (string \<times> string) list \<Rightarrow> bool" where
  "release_plan e m pairs = (\<exists>a ms old package plan x.
     names_content e m ''package'' a \<and> e_members e a = Some ms \<and> all_genuine e old
     \<and> extract_members [] 0 [] old ms = (None, package) \<and> install_plan package = Some plan
     \<and> names_content e m ''xui'' x \<and> pairs = plan @ [(xui_binary, x)])"

definition put_all :: "(string \<times> string) list \<Rightarrow> program \<Rightarrow> program" where
  "put_all pairs P = foldl (\<lambda>f (t, c). prog_put t (Some c) f) P pairs"

text \<open>The program after a complete installation.\<close>

definition installed :: "(string \<times> string) list \<Rightarrow> pydict \<Rightarrow> string \<Rightarrow> program \<Rightarrow> program" where
  "installed pairs cfg v P =
     prog_put current_path (Some (version_document v))
       (prog_put config_path (Some (json_dumps (PDict (new_config cfg)))) (put_all pairs P))"

definition config_of :: "program \<Rightarrow> pydict option" where
  "config_of P = (case P config_path of None \<Rightarrow> None
     | Some b \<Rightarrow> (case json_loads b of Some (PDict cfg) \<Rightarrow> Some cfg | _ \<Rightarrow> None))"

definition current_of :: "program \<Rightarrow> pyval option" where
  "current_of P = (case P current_path of None \<Rightarrow> None
     | Some b \<Rightarrow> (case json_loads b of Some (PDict d) \<Rightarrow> dget d ''version'' | _ \<Rightarrow> None))"

inductive intact :: "upenv \<Rightarrow> program \<Rightarrow> program \<Rightarrow> bool" for e P0 where
  start: "intact e P0 P0"
| update: "intact e P0 P \<Longrightarrow> release_plan e m pairs \<Longrightarrow> signed_manifest e m \<Longrightarrow> dgetN m ''release'' = PStr v
    \<Longrightarrow> current_of P = Some cur \<Longrightarrow> newer_than v cur = Inr True \<Longrightarrow> config_of (put_all pairs P) = Some cfg
    \<Longrightarrow> intact e P0 (installed pairs cfg v P)"
| confirm: "intact e P0 P \<Longrightarrow> current_of P = Some (PStr v)
    \<Longrightarrow> intact e P0 (prog_put current_path (Some (version_document v)) P)"

section \<open>The invariant\<close>

definition saved_value :: "view \<Rightarrow> string \<Rightarrow> nat option \<Rightarrow> string option" where
  "saved_value v run ix = (case ix of None \<Rightarrow> None | Some i \<Rightarrow> map_of (v_saved v) (run, i))"

text \<open>Every entry of the journal leads back to \<open>P\<close>, and what is not in the journal is as in \<open>P\<close>.\<close>

definition matches :: "journal \<Rightarrow> program \<Rightarrow> view \<Rightarrow> bool" where
  "matches j P v = (\<forall>(t, ix) \<in> set (j_files j). program_path t \<longrightarrow> saved_value v (j_run j) ix = P t)"

definition proper :: "program \<Rightarrow> bool" where
  "proper P = (\<forall>p. \<not> program_path p \<longrightarrow> P p = None)"

definition near :: "string set \<Rightarrow> program \<Rightarrow> view \<Rightarrow> bool" where
  "near D P v = (proper P \<and> proper (v_program v) \<and> (\<forall>p. p \<notin> D \<longrightarrow> v_program v p = P p))"

definition targets :: "journal \<Rightarrow> string set" where
  "targets j = fst ` set (j_files j)"

definition result_in :: "string \<Rightarrow> view \<Rightarrow> string option" where
  "result_in run v = map_option fst (map_of (v_results v) run)"

definition genuine_packages :: "upenv \<Rightarrow> view \<Rightarrow> bool" where
  "genuine_packages e v = (\<forall>run files p c. map_of (v_packages v) run = Some files \<longrightarrow> map_of files p = Some c \<longrightarrow> genuine e c)"

definition recoverable :: "upenv \<Rightarrow> program \<Rightarrow> journal \<Rightarrow> view \<Rightarrow> bool" where
  "recoverable e P0 j v =
     ((if j_phase j = ''installing'' then \<exists>P. intact e P0 P \<and> matches j P v \<and> near (targets j) P v
       else intact e P0 (v_program v))
      \<and> (\<forall>st. result_in (j_run j) v = Some st \<longrightarrow> st = ''repair_required'' \<or> intact e P0 (v_program v)))"

definition whole :: "upenv \<Rightarrow> program \<Rightarrow> view \<Rightarrow> bool" where
  "whole e P0 v = (genuine_packages e v \<and>
     (case v_active v of None \<Rightarrow> intact e P0 (v_program v) | Some j \<Rightarrow> recoverable e P0 j v))"

section \<open>Steps that change the view\<close>

lemma seenI: "I (view_of w) \<Longrightarrow> seen I w" by (simp add: seen_def)
lemma seenD: "seen I w \<Longrightarrow> I (view_of w)" by (simp add: seen_def)

text \<open>The end of a step: broken steps end in \<open>E\<close> whether they had an effect or not.\<close>

lemma triple_ustep:
  assumes "\<And>w. P (view_of w) \<Longrightarrow> Q (view_of (f w))" "\<And>v. P v \<Longrightarrow> E v" "\<And>v. Q v \<Longrightarrow> E v"
  shows "triple (seen P) (ustep q query err f) (\<lambda>_. seen Q) (\<lambda>_. seen E)"
  unfolding triple_def ustep_def Let_def seen_def
  using assms(1) [of "serve q _\<lparr>up_x := _\<rparr>"] assms(2,3) by (auto split: prod.splits step_end.splits)

lemma triple_ucall:
  assumes "\<And>w. P (view_of w) \<Longrightarrow> Q (view_of (f w))"
  shows "triple (seen P) (ucall q query err f) (\<lambda>_. seen Q) (\<lambda>x. seen (\<lambda>v. P v \<or> x = Killed \<and> Q v))"
  unfolding triple_def ucall_def Let_def seen_def
  using assms [of "serve q _\<lparr>up_x := _\<rparr>"] by (auto split: prod.splits step_end.splits)

lemma triple_seen_conseq:
  "triple (seen P) m (\<lambda>a. seen (Q a)) (\<lambda>x. seen (E x)) \<Longrightarrow> (\<And>v. P' v \<Longrightarrow> P v) \<Longrightarrow> (\<And>a v. Q a v \<Longrightarrow> Q' a v)
    \<Longrightarrow> (\<And>x v. E x v \<Longrightarrow> E' x v) \<Longrightarrow> triple (seen P') m (\<lambda>a. seen (Q' a)) (\<lambda>x. seen (E' x))"
  by (erule triple_conseq) (auto simp: seen_def)

lemma triple_kept: "keeps (seen P) m \<Longrightarrow> (\<And>v. P v \<Longrightarrow> E v) \<Longrightarrow> triple (seen P) m (\<lambda>_. seen P) (\<lambda>_. seen E)"
  by (auto simp: keeps_triple seen_def elim!: triple_conseq)

lemma triple_tput: "(\<And>w. P (view_of w) \<Longrightarrow> Q (view_of (f w))) \<Longrightarrow> triple (seen P) (tput f) (\<lambda>_. seen Q) E"
  by (simp add: triple_def tput_def seen_def)

lemma triple_bind_seen:
  "triple (seen P) m (\<lambda>a. seen (R a)) E \<Longrightarrow> (\<And>a. triple (seen (R a)) (k a) Q E) \<Longrightarrow> triple (seen P) (tbind m k) Q E"
  by (rule triple_bind)

section \<open>Restoring\<close>

definition active_view :: "view \<Rightarrow> journal option \<times> (string \<times> string \<times> string) list" where
  "active_view v = (v_active v, v_results v)"

lemma proper_put: "proper f \<Longrightarrow> proper (prog_put t c f)"
  by (simp add: proper_def prog_put_def)

lemma proper_view [simp]: "proper (v_program (view_of w))"
  by (simp add: proper_def view_of_def program_def)

lemma near_put: "near D P v \<Longrightarrow> (program_path t \<Longrightarrow> c = P t) \<Longrightarrow> near D P (v\<lparr>v_program := prog_put t c (v_program v)\<rparr>)"
  by (simp add: near_def proper_put) (simp add: prog_put_def)

lemma near_put_done:
  "near (insert t D) P v \<Longrightarrow> (program_path t \<Longrightarrow> c = P t) \<Longrightarrow> near D P (v\<lparr>v_program := prog_put t c (v_program v)\<rparr>)"
  by (simp add: near_def proper_put) (metis fun_upd_apply proper_def prog_put_def)

lemma near_put_inside: "near D P v \<Longrightarrow> t \<in> D \<Longrightarrow> near D P (v\<lparr>v_program := prog_put t c (v_program v)\<rparr>)"
  by (simp add: near_def proper_put) (auto simp: prog_put_def)

lemma near_empty: "near {} P v \<Longrightarrow> v_program v = P"
  by (auto simp: near_def)

lemma near_subset: "near D P v \<Longrightarrow> D \<subseteq> D' \<Longrightarrow> near D' P v"
  by (auto simp: near_def)

lemma near_start: "proper P \<Longrightarrow> near {} P (view_of w) \<longleftrightarrow> program w = P"
  by (auto simp: near_def) (auto simp: view_of_def)

lemma view_put_file: "view_of (put_file t c w) = (view_of w)\<lparr>v_program := prog_put t c (v_program (view_of w))\<rparr>"
  by (simp add: view_of_def program_put) (simp add: put_file_def)

text \<open>Facts about everything but the program.\<close>

definition aside :: "(view \<Rightarrow> bool) \<Rightarrow> bool" where
  "aside A = (\<forall>v f. A (v\<lparr>v_program := f\<rparr>) = A v)"

lemma aside_matches: "aside (matches j P)"
  by (simp add: aside_def matches_def saved_value_def split: option.split prod.split)

lemma aside_conj: "aside A \<Longrightarrow> aside B \<Longrightarrow> aside (\<lambda>v. A v \<and> B v)"
  by (simp add: aside_def)

definition entry_matches :: "string \<Rightarrow> program \<Rightarrow> string \<times> nat option \<Rightarrow> view \<Rightarrow> bool" where
  "entry_matches run P x v = (program_path (fst x) \<longrightarrow> saved_value v run (snd x) = P (fst x))"

lemma matches_entries: "matches j P v \<longleftrightarrow> (\<forall>x \<in> set (j_files j). entry_matches (j_run j) P x v)"
  by (auto simp: matches_def entry_matches_def)

lemma restore_entry_triple:
  assumes "aside A" "\<And>v. A v \<Longrightarrow> entry_matches run P (t, ix) v"
  shows "triple (seen (\<lambda>v. near (insert t T) P v \<and> near D P v \<and> A v)) (restore_entry q run (t, ix))
     (\<lambda>_. seen (\<lambda>v. near T P v \<and> near D P v \<and> A v)) (\<lambda>_. seen (\<lambda>v. near D P v \<and> A v))"
proof -
  let ?P = "\<lambda>v. near (insert t T) P v \<and> near D P v \<and> A v"
  let ?Q = "\<lambda>v. near T P v \<and> near D P v \<and> A v"
  have put: "?Q ((view_of w)\<lparr>v_program := prog_put t c (v_program (view_of w))\<rparr>)"
    if "?P (view_of w)" "program_path t \<Longrightarrow> c = P t" for w c
    using that assms(1) near_put_done near_put unfolding aside_def by blast
  show ?thesis
  proof (cases ix)
    case None
    have "triple (seen ?P) (remove_file q t) (\<lambda>_. seen ?Q) (\<lambda>_. seen (\<lambda>v. near D P v \<and> A v))"
      unfolding remove_file_def
    proof (rule triple_bind_get, rule triple_if)
      fix x :: "string option" assume "x = None"
      then show "triple (\<lambda>w. seen ?P w \<and> file_of w t = x) (tret ()) (\<lambda>_. seen ?Q) (\<lambda>_. seen (\<lambda>v. near D P v \<and> A v))"
      proof (intro triple_ret)
        fix w assume w: "seen ?P w \<and> file_of w t = x"
        have v: "prog_put t None (v_program (view_of w)) = v_program (view_of w)"
          using w \<open>x = None\<close> by (auto simp: prog_put_def view_of_def program_def fun_eq_iff)
        have "program_path t \<Longrightarrow> None = P t" using w None assms(2) by (auto simp: seen_def entry_matches_def saved_value_def)
        with put [of w None] w v show "seen ?Q w" by (auto simp: seen_def)
      qed
    next
      fix x :: "string option" assume "x \<noteq> None"
      have "triple (seen ?P) (ucall q (RemoveFile t) OtherError (put_file t None)) (\<lambda>_. seen ?Q)
          (\<lambda>x. seen (\<lambda>v. ?P v \<or> x = Killed \<and> ?Q v))"
      proof (rule triple_ucall)
        fix w :: "'a updworld" assume w: "?P (view_of w)"
        then have "program_path t \<Longrightarrow> None = P t" using None assms(2) by (auto simp: entry_matches_def saved_value_def)
        with put [OF w] show "?Q (view_of (put_file t None w))" by (simp add: view_put_file)
      qed
      then show "triple (\<lambda>w. seen ?P w \<and> file_of w t = x) (ucall q (RemoveFile t) OtherError (put_file t None)) (\<lambda>_. seen ?Q)
          (\<lambda>_. seen (\<lambda>v. near D P v \<and> A v))"
        by (rule triple_conseq) (auto simp: seen_def)
    qed
    then show ?thesis using None by (simp add: restore_entry_def)
  next
    case (Some i)
    have "triple (seen ?P) (tbind (tget (\<lambda>w. saved_file w run i)) (\<lambda>c. copy_atomic q c t)) (\<lambda>_. seen ?Q) (\<lambda>_. seen (\<lambda>v. near D P v \<and> A v))"
    proof (rule triple_bind_get)
      fix c :: "string option"
      show "triple (\<lambda>w. seen ?P w \<and> saved_file w run i = c) (copy_atomic q c t) (\<lambda>_. seen ?Q) (\<lambda>_. seen (\<lambda>v. near D P v \<and> A v))"
      proof (cases c)
        case None
        then show ?thesis unfolding copy_atomic_def by (auto intro!: triple_raise simp: seen_def)
      next
        case (Some b)
        have "triple (seen (\<lambda>v. ?P v \<and> map_of (v_saved v) (run, i) = c)) (ucall q (CopyTo t) OtherError (put_file t (Some b))) (\<lambda>_. seen ?Q)
            (\<lambda>x. seen (\<lambda>v. (?P v \<and> map_of (v_saved v) (run, i) = c) \<or> x = Killed \<and> ?Q v))"
        proof (rule triple_ucall)
          fix w :: "'a updworld" assume w: "?P (view_of w) \<and> map_of (v_saved (view_of w)) (run, i) = c"
          then have "program_path t \<Longrightarrow> Some b = P t"
            using \<open>ix = Some i\<close> \<open>c = Some b\<close> assms(2) by (auto simp: entry_matches_def saved_value_def)
          with put [of w "Some b"] w show "?Q (view_of (put_file t (Some b) w))" by (simp add: view_put_file)
        qed
        then show ?thesis
          unfolding copy_atomic_def Some option.case
          by (rule triple_conseq) (auto simp: seen_def view_of_def saved_file_def)
      qed
    qed
    then show ?thesis using Some by (simp add: restore_entry_def)
  qed
qed

end
