(* ===== verification/Update_Rollback.thy ===== *)
theory Update_Rollback
  imports Update_Safety
begin

text \<open>
  Going back: a rollback restores the saved program whatever was copied before, and neither the
  recovery of an interrupted run nor the handler of a failed switch ever leaves a state from which
  the program cannot be restored.
\<close>

section \<open>The rollback\<close>

lemma restore_all_triple:
  assumes "aside A" "\<And>v x. A v \<Longrightarrow> x \<in> set es \<Longrightarrow> entry_matches run P x v"
  shows "triple (seen (\<lambda>v. near (fst ` set es) P v \<and> near D P v \<and> A v)) (tfor es (restore_entry q run))
     (\<lambda>_. seen (\<lambda>v. near {} P v \<and> near D P v \<and> A v)) (\<lambda>_. seen (\<lambda>v. near D P v \<and> A v))"
  using assms(2)
proof (induction es)
  case Nil
  then show ?case by (auto intro!: triple_ret simp: seen_def)
next
  case (Cons x es)
  obtain t ix where x: "x = (t, ix)" by force
  have "triple (seen (\<lambda>v. near (insert t (fst ` set es)) P v \<and> near D P v \<and> A v)) (restore_entry q run (t, ix))
      (\<lambda>_. seen (\<lambda>v. near (fst ` set es) P v \<and> near D P v \<and> A v)) (\<lambda>_. seen (\<lambda>v. near D P v \<and> A v))"
    by (rule restore_entry_triple) (use assms(1) Cons.prems x in auto)
  then show ?case using Cons.IH Cons.prems by (auto simp: x intro: triple_bind)
qed

lemma rollback_triple:
  assumes "aside A" "\<And>v. A v \<Longrightarrow> matches j P v"
  shows "triple (seen (\<lambda>v. near (targets j) P v \<and> near D P v \<and> A v)) (rollback e q j)
     (\<lambda>_. seen (\<lambda>v. near {} P v \<and> near D P v \<and> A v)) (\<lambda>_. seen (\<lambda>v. near D P v \<and> A v))"
proof -
  let ?E = "\<lambda>v. near D P v \<and> A v"
  let ?Q = "\<lambda>v. near {} P v \<and> near D P v \<and> A v"
  have rest: "triple (seen ?Q) (tbind (tfor side_files (remove_file q)) (\<lambda>_. tbind (restore_tree q (j_run j)) (\<lambda>_.
      tbind (start_services q) (\<lambda>_. tbind (wait_health q) (\<lambda>_. tbind (quick_check e q) (\<lambda>_.
      tbind (identities e q) (\<lambda>i. uguard (i = j_ids j) ''identity_changed''))))))) (\<lambda>_. seen ?Q) (\<lambda>_. seen ?E)"
    by (rule triple_kept) (intro keeps_intros keeps_side_files, auto)
  have stop: "triple (seen (\<lambda>v. near (targets j) P v \<and> near D P v \<and> A v)) (stop_services q)
      (\<lambda>_. seen (\<lambda>v. near (targets j) P v \<and> near D P v \<and> A v)) (\<lambda>_. seen ?E)"
    by (rule triple_kept) (intro keeps_intros, auto)
  have all: "triple (seen (\<lambda>v. near (targets j) P v \<and> near D P v \<and> A v)) (tfor (j_files j) (restore_entry q (j_run j)))
      (\<lambda>_. seen ?Q) (\<lambda>_. seen ?E)"
    unfolding targets_def using assms by (intro restore_all_triple) (auto simp: matches_entries)
  show ?thesis unfolding rollback_def
    by (rule triple_bind [OF stop triple_bind [OF all rest]])
qed

section \<open>Results\<close>

definition with_result :: "string \<Rightarrow> string \<Rightarrow> string \<Rightarrow> view \<Rightarrow> view" where
  "with_result run st code v = v\<lparr>v_results := AList.update run (st, code) (v_results v)\<rparr>"

lemma view_result: "view_of (w\<lparr>up_results := AList.update run (st, c) (up_results w)\<rparr>) = with_result run st c (view_of w)"
  by (simp add: view_of_def with_result_def program_def file_of_def fun_eq_iff)

lemma with_result_fields [simp]:
  "v_program (with_result run st c v) = v_program v" "v_active (with_result run st c v) = v_active v"
  "v_local (with_result run st c v) = v_local v" "v_saved (with_result run st c v) = v_saved v"
  "v_packages (with_result run st c v) = v_packages v" "v_private (with_result run st c v) = v_private v"
  by (simp_all add: with_result_def)

lemma result_in_with [simp]: "result_in run' (with_result run st c v) = (if run' = run then Some st else result_in run' v)"
  by (simp add: result_in_def with_result_def update_conv')

lemma saved_with [simp]: "saved_value (with_result run st c v) = saved_value v"
  by (simp add: saved_value_def fun_eq_iff split: option.split)

lemma matches_with [simp]: "matches j P (with_result run st c v) = matches j P v"
  and near_with [simp]: "near D P (with_result run st c v) = near D P v"
  and genuine_packages_with [simp]: "genuine_packages e (with_result run st c v) = genuine_packages e v"
  by (simp_all add: matches_def near_def genuine_packages_def)

lemma whole_with:
  "whole e P0 v \<Longrightarrow> st = ''repair_required'' \<or> v_active v = None \<or> intact e P0 (v_program v) \<Longrightarrow> whole e P0 (with_result run st c v)"
  by (auto simp: whole_def recoverable_def split: option.splits)

lemma finish_triple:
  "triple (seen P) (finish q run st c) (\<lambda>_. seen Q) (\<lambda>_. seen E)"
  if "\<And>v. P v \<Longrightarrow> Q (with_result run st c v)" "\<And>v. P v \<Longrightarrow> E v" "\<And>v. Q v \<Longrightarrow> E v"
  unfolding finish_def by (rule triple_ustep) (use that in \<open>auto simp: view_result\<close>)

lemma finish_whole:
  assumes "\<And>v. I v \<Longrightarrow> whole e P0 v" "\<And>v. I v \<Longrightarrow> st = ''repair_required'' \<or> v_active v = None \<or> intact e P0 (v_program v)"
  shows "triple (seen I) (finish q run st c) (\<lambda>_. seen (whole e P0)) (\<lambda>_. seen (whole e P0))"
  by (rule finish_triple) (use assms in \<open>auto intro: whole_with\<close>)

lemma keeps_repair_required: "keeps (seen (whole e P0)) (finish q run ''repair_required'' c)"
  unfolding keeps_triple by (rule finish_whole) auto

lemma view_active: "view_of (w\<lparr>up_active := a\<rparr>) = (view_of w)\<lparr>v_active := a\<rparr>"
  and view_local: "view_of (w\<lparr>up_local := l\<rparr>) = (view_of w)\<lparr>v_local := l\<rparr>"
  by (simp_all add: view_of_def program_def file_of_def fun_eq_iff)

text \<open>The journal may go when the program is intact.\<close>

lemma remove_active_triple:
  assumes "\<And>v. I v \<Longrightarrow> whole e P0 v \<and> intact e P0 (v_program v)"
  shows "triple (seen I) (remove_active q) (\<lambda>_. seen (whole e P0)) (\<lambda>_. seen (whole e P0))"
proof -
  have "triple (seen I) (ucall q RemoveActive OtherError (\<lambda>w. w\<lparr>up_active := None\<rparr>)) (\<lambda>_. seen (whole e P0))
      (\<lambda>x. seen (\<lambda>v. I v \<or> x = Killed \<and> whole e P0 v))"
    by (rule triple_ucall) (use assms in \<open>auto simp: view_active whole_def genuine_packages_def\<close>)
  then have "triple (seen I) (ucall q RemoveActive OtherError (\<lambda>w. w\<lparr>up_active := None\<rparr>)) (\<lambda>_. seen (whole e P0)) (\<lambda>_. seen (whole e P0))"
    by (rule triple_seen_conseq) (use assms in auto)
  then show ?thesis
    unfolding remove_active_def using assms
    by (intro triple_bind_get triple_if triple_raise) (auto simp: seen_def elim: triple_pre)
qed

section \<open>An interrupted run\<close>

lemma undo_triple:
  assumes "aside A" "\<And>v. A v \<Longrightarrow> j_phase j = ''installing'' \<Longrightarrow> matches j P v"
  shows "triple (seen (\<lambda>v. near (if j_phase j = ''installing'' then targets j else {}) P v \<and> near D P v \<and> A v)) (undo e q j)
     (\<lambda>_. seen (\<lambda>v. near {} P v \<and> near D P v \<and> A v)) (\<lambda>_. seen (\<lambda>v. near D P v \<and> A v))"
proof (cases "j_phase j = ''installing''")
  case True
  with assms show ?thesis unfolding undo_def by (simp add: rollback_triple)
next
  case False
  then show ?thesis unfolding undo_def
    by simp (rule triple_kept, intro keeps_intros, auto)
qed

text \<open>What undoing an interrupted run must find.\<close>

definition undoable :: "upenv \<Rightarrow> program \<Rightarrow> journal \<Rightarrow> program \<Rightarrow> view \<Rightarrow> bool" where
  "undoable e P0 j P v = (genuine_packages e v \<and> v_active v = Some j \<and> result_in (j_run j) v = None \<and> intact e P0 P
     \<and> (j_phase j = ''installing'' \<longrightarrow> matches j P v))"

lemma aside_undoable: "aside (undoable e P0 j P)"
  by (simp add: aside_def undoable_def genuine_packages_def result_in_def matches_def saved_value_def split: option.split prod.split)

definition reach_of :: "journal \<Rightarrow> string set" where
  "reach_of j = (if j_phase j = ''installing'' then targets j else {})"

lemma undoable_whole: "undoable e P0 j P v \<Longrightarrow> near (reach_of j) P v \<Longrightarrow> whole e P0 v"
  by (auto simp: undoable_def whole_def recoverable_def reach_of_def dest: near_empty split: if_splits)

lemma whole_undoable:
  "whole e P0 (view_of w) \<Longrightarrow> v_active (view_of w) = Some j \<Longrightarrow> result_in (j_run j) (view_of w) = None
    \<Longrightarrow> \<exists>P. undoable e P0 j P (view_of w) \<and> near (reach_of j) P (view_of w)"
  by (auto simp: undoable_def whole_def recoverable_def reach_of_def split: if_splits)
     (auto simp: near_def)

lemma recover_undo_triple:
  "triple (seen (\<lambda>v. undoable e P0 j P v \<and> near (reach_of j) P v))
     (tbind (progress q ''rollback'') (\<lambda>_. tbind (undo e q j) (\<lambda>_.
        tbind (finish q (j_run j) ''rolled_back'' ''interrupted'') (\<lambda>_. remove_active q))))
     (\<lambda>_. seen (whole e P0)) (\<lambda>_. seen (whole e P0))"
proof -
  let ?S = "\<lambda>v. near (reach_of j) P v \<and> near (reach_of j) P v \<and> undoable e P0 j P v"
  let ?T = "\<lambda>v. near {} P v \<and> near (reach_of j) P v \<and> undoable e P0 j P v"
  have whole: "?T v \<Longrightarrow> whole e P0 v \<and> intact e P0 (v_program v)" for v
    using undoable_whole [of e P0 j P v] near_empty [of P v] unfolding undoable_def by metis
  have undo: "triple (seen ?S) (undo e q j) (\<lambda>_. seen ?T) (\<lambda>_. seen (whole e P0))"
    by (rule triple_seen_conseq [OF undo_triple [where A = "undoable e P0 j P" and P = P and D = "reach_of j"]])
       (use undoable_whole [of e P0 j P] in \<open>auto simp: aside_undoable reach_of_def undoable_def\<close>)
  have fin: "triple (seen ?T) (finish q (j_run j) ''rolled_back'' ''interrupted'')
      (\<lambda>_. seen (\<lambda>v. whole e P0 v \<and> intact e P0 (v_program v))) (\<lambda>_. seen (whole e P0))"
    by (rule finish_triple) (use whole in \<open>auto intro: whole_with\<close>)
  have rem: "triple (seen (\<lambda>v. whole e P0 v \<and> intact e P0 (v_program v))) (remove_active q)
      (\<lambda>_. seen (whole e P0)) (\<lambda>_. seen (whole e P0))"
    by (rule remove_active_triple)
  have "triple (seen ?S) (progress q ''rollback'') (\<lambda>_. seen ?S) (\<lambda>_. seen (whole e P0))"
    by (rule triple_kept) (auto intro: keeps_intros undoable_whole)
  then show ?thesis
    by (rule triple_pre [OF triple_bind [OF _ triple_bind [OF undo triple_bind [OF fin rem]]]]) (simp add: seen_def)
qed

lemma triple_seen_ex:
  "(\<And>P. triple (seen (I P)) m Q E) \<Longrightarrow> triple (seen (\<lambda>v. \<exists>P. I P v)) m Q E"
  unfolding triple_def seen_def by metis

lemma recover_run_whole:
  "triple (\<lambda>w. seen (whole e P0) w \<and> up_active w = Some j) (recover_run e q j) (\<lambda>_. seen (whole e P0)) (\<lambda>_. seen (whole e P0))"
  unfolding recover_run_def
proof (rule triple_bind_get)
  fix res :: "string option"
  let ?W = "\<lambda>w :: 'a updworld. (seen (whole e P0) w \<and> up_active w = Some j) \<and> result_of (j_run j) w = res"
  have res: "?W w \<Longrightarrow> v_active (view_of w) = Some j \<and> result_in (j_run j) (view_of w) = res" for w
    by (simp add: view_of_def result_in_def result_of_def)
  show "triple ?W (case res of Some st \<Rightarrow> if st = ''repair_required'' then tret () else remove_active q
     | None \<Rightarrow> trescue caught
       (tbind (progress q ''rollback'') (\<lambda>_. tbind (undo e q j) (\<lambda>_.
        tbind (finish q (j_run j) ''rolled_back'' ''interrupted'') (\<lambda>_. remove_active q))))
       (\<lambda>_. finish q (j_run j) ''repair_required'' ''rollback_failed'')) (\<lambda>_. seen (whole e P0)) (\<lambda>_. seen (whole e P0))"
  proof (cases res)
    case None
    have "seen (\<lambda>v. \<exists>P. undoable e P0 j P v \<and> near (reach_of j) P v) w" if "?W w" for w
      using that res [OF that] None by (simp add: seen_def whole_undoable)
    moreover have "triple (seen (\<lambda>v. \<exists>P. undoable e P0 j P v \<and> near (reach_of j) P v))
       (trescue caught (tbind (progress q ''rollback'') (\<lambda>_. tbind (undo e q j) (\<lambda>_.
          tbind (finish q (j_run j) ''rolled_back'' ''interrupted'') (\<lambda>_. remove_active q))))
       (\<lambda>_. finish q (j_run j) ''repair_required'' ''rollback_failed'')) (\<lambda>_. seen (whole e P0)) (\<lambda>_. seen (whole e P0))"
      using keeps_repair_required
      by (intro triple_seen_ex triple_rescue [OF recover_undo_triple]) (auto simp: keeps_triple)
    ultimately show ?thesis using None by (auto elim: triple_pre)
  next
    case (Some st)
    have "triple ?W (remove_active q) (\<lambda>_. seen (whole e P0)) (\<lambda>_. seen (whole e P0))" if "st \<noteq> ''repair_required''"
    proof -
      have "triple (seen (\<lambda>v. whole e P0 v \<and> intact e P0 (v_program v))) (remove_active q) (\<lambda>_. seen (whole e P0)) (\<lambda>_. seen (whole e P0))"
        by (rule remove_active_triple)
      then show ?thesis
        by (rule triple_pre) (use that Some res in \<open>fastforce simp: seen_def whole_def recoverable_def\<close>)
    qed
    then show ?thesis using Some by (auto intro!: triple_ret triple_if)
  qed
qed

end
