(* ===== verification/Update_Switch.thy ===== *)
theory Update_Switch
  imports Update_Rollback
begin

text \<open>
  The switch to a new version stage by stage: what was saved leads back to the old program, the
  journal is on disk before the first file is copied, and wherever a stage fails the handler of the
  switch leaves a whole state.
\<close>

section \<open>A switch that failed\<close>

text \<open>What the handler finds: the journal of the process, the journal on disk, and the program
  between the two.\<close>

definition undo_facts :: "upenv \<Rightarrow> program \<Rightarrow> program \<Rightarrow> string \<Rightarrow> journal \<Rightarrow> journal \<Rightarrow> view \<Rightarrow> bool" where
  "undo_facts e P0 P run j a v = (genuine_packages e v \<and> intact e P0 P \<and> result_in run v = None
     \<and> v_active v = Some a \<and> j_run j = run \<and> j_run a = run
     \<and> (j_phase a = ''installing'' \<longrightarrow> a = j) \<and> (j_phase j = ''installing'' \<longrightarrow> matches j P v))"

definition fallback :: "upenv \<Rightarrow> program \<Rightarrow> program \<Rightarrow> string \<Rightarrow> view \<Rightarrow> bool" where
  "fallback e P0 P run v = (\<exists>j a. v_local v = Some j \<and> undo_facts e P0 P run j a v \<and> near (reach_of a) P v)"

lemma aside_undo_facts: "aside (undo_facts e P0 P run j a)"
  by (simp add: aside_def undo_facts_def genuine_packages_def result_in_def matches_def saved_value_def split: option.split prod.split)

lemma undo_facts_whole: "undo_facts e P0 P run j a v \<Longrightarrow> near (reach_of a) P v \<Longrightarrow> whole e P0 v"
  by (auto simp: undo_facts_def whole_def recoverable_def reach_of_def dest: near_empty split: if_splits)

lemma fallback_whole: "fallback e P0 P run v \<Longrightarrow> whole e P0 v"
  by (auto simp: fallback_def intro: undo_facts_whole)

lemma undo_facts_intact: "undo_facts e P0 P run j a v \<Longrightarrow> near {} P v \<Longrightarrow> intact e P0 (v_program v)"
  by (auto simp: undo_facts_def dest: near_empty)

lemma undo_again_triple:
  "triple (seen (\<lambda>v. undo_facts e P0 P run j a v \<and> near (reach_of a) P v))
     (trescue caught (tbind (undo e q j) (\<lambda>_. tret True)) (\<lambda>_. tbind (finish q run' ''repair_required'' c) (\<lambda>_. tret False)))
     (\<lambda>ok. seen (\<lambda>v. whole e P0 v \<and> (ok \<longrightarrow> intact e P0 (v_program v)))) (\<lambda>_. seen (whole e P0))"
proof -
  let ?S = "\<lambda>v. near (reach_of j) P v \<and> near (reach_of a) P v \<and> undo_facts e P0 P run j a v"
  let ?Q = "\<lambda>ok v. whole e P0 v \<and> (ok \<longrightarrow> intact e P0 (v_program v))"
  have "triple (seen ?S) (undo e q j) (\<lambda>_. seen (?Q True)) (\<lambda>_. seen (whole e P0))"
    by (rule triple_seen_conseq [OF undo_triple [where A = "undo_facts e P0 P run j a" and P = P and D = "reach_of a"]])
       (use undo_facts_whole [of e P0 P run j a] undo_facts_intact [of e P0 P run j a] in
         \<open>auto simp: aside_undo_facts reach_of_def undo_facts_def\<close>)
  then have undo: "triple (seen ?S) (tbind (undo e q j) (\<lambda>_. tret True)) (\<lambda>ok. seen (?Q ok)) (\<lambda>_. seen (whole e P0))"
    by (rule triple_bind) (auto intro: triple_ret)
  have handler: "triple (seen (whole e P0)) (tbind (finish q run' ''repair_required'' c) (\<lambda>_. tret False)) (\<lambda>ok. seen (?Q ok)) (\<lambda>_. seen (whole e P0))"
    by (rule triple_bind [OF keeps_repair_required [unfolded keeps_triple]]) (auto intro!: triple_ret simp: seen_def)
  have pre: "undo_facts e P0 P run j a v \<Longrightarrow> near (reach_of a) P v \<Longrightarrow> near (reach_of j) P v" for v
    by (cases "j_phase a = ''installing''") (auto simp: reach_of_def undo_facts_def intro: near_subset)
  show ?thesis
    by (rule triple_pre [OF triple_rescue [OF undo handler]]) (use pre in \<open>auto simp: seen_def\<close>)
qed

lemma switch_failed_triple:
  "triple (seen (fallback e P0 P run)) (switch_failed e q run x) (\<lambda>_. seen (whole e P0)) (\<lambda>_. seen (whole e P0))"
  unfolding switch_failed_def
proof (rule triple_bind_get)
  fix l :: "journal option"
  let ?I = "\<lambda>v. whole e P0 v \<and> intact e P0 (v_program v)"
  have fin: "triple (seen (\<lambda>v. whole e P0 v \<and> (ok \<longrightarrow> intact e P0 (v_program v))))
      (if ok then tbind (finish q run ''rolled_back'' (guide_code x)) (\<lambda>_. remove_active q) else tret ())
      (\<lambda>_. seen (whole e P0)) (\<lambda>_. seen (whole e P0))" for ok
  proof -
    have f: "triple (seen ?I) (finish q run ''rolled_back'' (guide_code x)) (\<lambda>_. seen ?I) (\<lambda>_. seen (whole e P0))"
      by (rule finish_triple) (auto intro: whole_with)
    have r: "triple (seen ?I) (remove_active q) (\<lambda>_. seen (whole e P0)) (\<lambda>_. seen (whole e P0))"
      by (rule remove_active_triple)
    show ?thesis using triple_bind [OF f r] by (auto intro!: triple_ret simp: seen_def)
  qed
  show "triple (\<lambda>w. seen (fallback e P0 P run) w \<and> up_local w = l) (case l of None \<Rightarrow> traise OtherError
     | Some j \<Rightarrow> tbind (trescue caught (tbind (undo e q j) (\<lambda>_. tret True))
           (\<lambda>_. tbind (finish q run ''repair_required'' ''rollback_failed'') (\<lambda>_. tret False))) (\<lambda>ok.
         if ok then tbind (finish q run ''rolled_back'' (guide_code x)) (\<lambda>_. remove_active q) else tret ()))
     (\<lambda>_. seen (whole e P0)) (\<lambda>_. seen (whole e P0))"
  proof (cases l)
    case None
    then show ?thesis by (auto intro!: triple_raise simp: seen_def fallback_whole)
  next
    case (Some j)
    have "triple (seen (\<lambda>v. \<exists>a. undo_facts e P0 P run j a v \<and> near (reach_of a) P v))
       (tbind (trescue caught (tbind (undo e q j) (\<lambda>_. tret True))
           (\<lambda>_. tbind (finish q run ''repair_required'' ''rollback_failed'') (\<lambda>_. tret False))) (\<lambda>ok.
         if ok then tbind (finish q run ''rolled_back'' (guide_code x)) (\<lambda>_. remove_active q) else tret ()))
       (\<lambda>_. seen (whole e P0)) (\<lambda>_. seen (whole e P0))"
      by (rule triple_seen_ex, rule triple_bind [OF undo_again_triple fin])
    then show ?thesis using Some
      by (simp, elim triple_pre) (auto simp: seen_def fallback_def view_of_def)
  qed
qed

section \<open>Saving\<close>

text \<open>The targets \<open>ds\<close> are saved; the next index is free.\<close>

definition old_state :: "upenv \<Rightarrow> program \<Rightarrow> program \<Rightarrow> string \<Rightarrow> view \<Rightarrow> bool" where
  "old_state e P0 P run v = (genuine_packages e v \<and> intact e P0 P \<and> result_in run v = None \<and> near {} P v)"

definition journal_of :: "program \<Rightarrow> string \<Rightarrow> string list \<Rightarrow> journal \<Rightarrow> view \<Rightarrow> bool" where
  "journal_of P run ds j v = (j_run j = run \<and> matches j P v \<and> targets j = set ds
     \<and> (\<forall>t i. (t, Some i) \<in> set (j_files j) \<longrightarrow> i < length ds))"

definition stopped :: "string \<Rightarrow> view \<Rightarrow> bool" where
  "stopped run v = (\<exists>a. v_active v = Some a \<and> j_run a = run \<and> j_phase a \<noteq> ''installing'')"

definition saving :: "upenv \<Rightarrow> program \<Rightarrow> program \<Rightarrow> string \<Rightarrow> string list \<Rightarrow> view \<Rightarrow> bool" where
  "saving e P0 P run ds v = (old_state e P0 P run v \<and> stopped run v
     \<and> (\<exists>j. v_local v = Some j \<and> journal_of P run ds j v \<and> j_phase j \<noteq> ''installing''))"

definition unsaved :: "string \<Rightarrow> nat \<Rightarrow> view \<Rightarrow> bool" where
  "unsaved run n v = (\<forall>i\<ge>n. map_of (v_saved v) (run, i) = None)"

lemma stopped_fallback:
  "old_state e P0 P run v \<Longrightarrow> stopped run v \<Longrightarrow> v_local v = Some j \<Longrightarrow> j_run j = run
    \<Longrightarrow> (j_phase j = ''installing'' \<Longrightarrow> matches j P v) \<Longrightarrow> fallback e P0 P run v"
  by (auto simp: fallback_def old_state_def stopped_def undo_facts_def reach_of_def)

lemma saving_fallback: "saving e P0 P run ds v \<Longrightarrow> fallback e P0 P run v"
  by (auto simp: saving_def journal_of_def intro: stopped_fallback)

definition put_saved :: "string \<Rightarrow> nat \<Rightarrow> string \<Rightarrow> view \<Rightarrow> view" where
  "put_saved run i s v = v\<lparr>v_saved := AList.update (run, i) s (v_saved v)\<rparr>"

lemma view_saved: "view_of (w\<lparr>up_saved := AList.update (run, i) s (up_saved w)\<rparr>) = put_saved run i s (view_of w)"
  by (simp add: view_of_def put_saved_def program_def file_of_def fun_eq_iff)

lemma view_local_map:
  "view_of (w\<lparr>up_local := map_option f (up_local w)\<rparr>) = (view_of w)\<lparr>v_local := map_option f (v_local (view_of w))\<rparr>"
  by (simp add: view_local) (simp add: view_of_def)

lemma saving_put_saved: "saving e P0 P run ds v \<Longrightarrow> saving e P0 P run ds (put_saved run (length ds) s v)"
  by (auto simp: saving_def old_state_def stopped_def journal_of_def put_saved_def matches_def saved_value_def near_def
      genuine_packages_def result_in_def update_conv' split: option.splits)

lemma saving_push:
  assumes "saving e P0 P run ds v" "program_path t \<longrightarrow> map_of (v_saved v) (run, length ds) = P t"
  shows "saving e P0 P run (ds @ [t]) (v\<lparr>v_local := map_option
    (\<lambda>j. j\<lparr>j_files := j_files j @ [(t, if map_of (v_saved v) (run, length ds) = None then None else Some (length ds))]\<rparr>) (v_local v)\<rparr>)"
  using assms
  by (auto simp: saving_def old_state_def stopped_def journal_of_def matches_def saved_value_def near_def
      genuine_packages_def result_in_def targets_def less_Suc_eq split: option.splits)

lemma save_target_triple:
  "triple (seen (\<lambda>v. saving e P0 P run ds v \<and> unsaved run (length ds) v)) (save_target q run (length ds, t))
     (\<lambda>_. seen (\<lambda>v. saving e P0 P run (ds @ [t]) v \<and> unsaved run (length (ds @ [t])) v)) (\<lambda>_. seen (fallback e P0 P run))"
proof -
  let ?n = "length ds"
  let ?pre = "\<lambda>c v. saving e P0 P run ds v \<and> unsaved run ?n v \<and> (program_path t \<longrightarrow> P t = c)"
  let ?mid = "\<lambda>v. saving e P0 P run ds v \<and> unsaved run (Suc ?n) v \<and> (program_path t \<longrightarrow> map_of (v_saved v) (run, ?n) = P t)"
  let ?post = "\<lambda>v. saving e P0 P run (ds @ [t]) v \<and> unsaved run (length (ds @ [t])) v"
  have save: "triple (seen (?pre c)) (case c of None \<Rightarrow> tret ()
       | Some s \<Rightarrow> ustep q (SaveFile t) OtherError (\<lambda>w. w\<lparr>up_saved := AList.update (run, ?n) s (up_saved w)\<rparr>))
      (\<lambda>_. seen ?mid) (\<lambda>_. seen (fallback e P0 P run))" for c
  proof (cases c)
    case None
    then show ?thesis by (auto intro!: triple_ret simp: seen_def unsaved_def)
  next
    case (Some s)
    have "?mid (put_saved run ?n s v)" if "?pre c v" for v
      using that Some saving_put_saved by (auto simp: unsaved_def) (auto simp: put_saved_def update_conv')
    then show ?thesis using Some
      by simp (rule triple_ustep, auto simp: view_saved saving_fallback)
  qed
  have note_it: "triple (seen ?mid) (tbind (tget (\<lambda>w. saved_file w run ?n)) (\<lambda>saved.
      change_local (\<lambda>j. j\<lparr>j_files := j_files j @ [(t, if saved = None then None else Some ?n)]\<rparr>)))
      (\<lambda>_. seen ?post) (\<lambda>_. seen (fallback e P0 P run))"
  proof (rule triple_bind_get)
    fix saved :: "string option"
    define ix where "ix = (if saved = None then None else Some ?n)"
    have "triple (seen (\<lambda>v. ?mid v \<and> ix = (if map_of (v_saved v) (run, ?n) = None then None else Some ?n)))
      (change_local (\<lambda>j. j\<lparr>j_files := j_files j @ [(t, ix)]\<rparr>)) (\<lambda>_. seen ?post) (\<lambda>_. seen (fallback e P0 P run))"
      unfolding change_local_def
      by (rule triple_tput) (use saving_push [of e P0 P run ds _ t] in \<open>simp add: view_local_map unsaved_def\<close>)
    then show "triple (\<lambda>w. seen ?mid w \<and> saved_file w run ?n = saved)
      (change_local (\<lambda>j. j\<lparr>j_files := j_files j @ [(t, if saved = None then None else Some ?n)]\<rparr>))
      (\<lambda>_. seen ?post) (\<lambda>_. seen (fallback e P0 P run))"
      unfolding ix_def by (rule triple_pre) (auto simp: seen_def saved_file_def view_of_def)
  qed
  have "file_of w t = c \<Longrightarrow> near {} P (view_of w) \<Longrightarrow> program_path t \<Longrightarrow> P t = c" for w :: "'a updworld" and c
    using near_empty [of P "view_of w"] by (auto simp: view_of_def program_def)
  then show ?thesis unfolding save_target_def prod.case
    by (intro triple_bind_get triple_bind [OF _ note_it]) (rule triple_pre [OF save], auto simp: seen_def saving_def old_state_def)
qed

lemma save_targets_triple:
  "triple (seen (\<lambda>v. saving e P0 P run ds v \<and> unsaved run (length ds) v)) (tfor (enumerate (length ds) us) (save_target q run))
     (\<lambda>_. seen (saving e P0 P run (ds @ us))) (\<lambda>_. seen (fallback e P0 P run))"
proof (induction us arbitrary: ds)
  case Nil
  then show ?case by (auto intro!: triple_ret simp: seen_def)
next
  case (Cons t us)
  then show ?case using triple_bind [OF save_target_triple Cons.IH [of "ds @ [t]"]] by simp
qed

end
