(* ===== verification/Update_Copy.thy ===== *)
theory Update_Copy
  imports Update_Switch
begin

text \<open>
  From the journal on disk to the published result: every copy stays inside what the journal can
  undo, and a result of success is published only over a complete installation.
\<close>

section \<open>The outside at the end of a run\<close>

text \<open>Publishing the success and removing the journal happen or do not happen; they are not
  reported as failed after they took effect, and the journal can be removed.\<close>

definition settles :: "'x upoutside \<Rightarrow> bool" where
  "settles q = ((\<forall>x. fst (q_step q (WriteResult ''success'') x) \<notin> {Broke True, Timeout True})
     \<and> (\<forall>x. fst (q_step q RemoveActive x) \<in> {Went, Died True, Died False}))"

lemma triple_ustep_clean:
  assumes "\<And>x. fst (q_step q query x) \<notin> {Broke True, Timeout True}" "\<And>w. P (view_of w) \<Longrightarrow> Q (view_of (f w))"
  shows "triple (seen P) (ustep q query err f) (\<lambda>_. seen Q) (\<lambda>x. seen (\<lambda>v. P v \<or> x = Killed \<and> Q v))"
proof -
  have ends: "q_step q query x = (a, y) \<Longrightarrow> a \<notin> {Broke True, Timeout True}" for a x y
    using assms(1) by (metis fst_conv)
  show ?thesis
    unfolding triple_def ustep_def Let_def seen_def
    using assms(2) [of "serve q _\<lparr>up_x := _\<rparr>"] by (auto dest!: ends split: prod.splits step_end.splits)
qed

lemma published_triple:
  assumes "settles q" "\<And>v. P v \<Longrightarrow> Q (with_result run ''success'' c v)"
  shows "triple (seen P) (finish q run ''success'' c) (\<lambda>_. seen Q) (\<lambda>x. seen (\<lambda>v. P v \<or> x = Killed \<and> Q v))"
  unfolding finish_def
  by (rule triple_ustep_clean) (use assms in \<open>auto simp: settles_def view_result\<close>)

lemma removed_triple:
  fixes q :: "'x upoutside"
  assumes "settles q" "\<And>v. P v \<Longrightarrow> v_active v \<noteq> None" "\<And>v. P v \<Longrightarrow> R v" "\<And>v. P v \<Longrightarrow> R (v\<lparr>v_active := None\<rparr>)"
  shows "triple (seen P) (remove_active q) (\<lambda>_. seen R) (\<lambda>x w. x = Killed \<and> seen R w)"
proof -
  have "fst (q_step q RemoveActive x) \<in> {Went, Died True, Died False}" for x
    using assms(1) by (auto simp: settles_def)
  then have ends: "q_step q RemoveActive x = (a, y) \<Longrightarrow> a \<in> {Went, Died True, Died False}" for a x y
    by (metis fst_conv)
  have "triple (seen P) (ucall q RemoveActive OtherError (\<lambda>w. w\<lparr>up_active := None\<rparr>)) (\<lambda>_. seen R) (\<lambda>x w. x = Killed \<and> seen R w)"
    unfolding triple_def ucall_def Let_def seen_def
    using assms(3,4) by (auto simp: view_active dest!: ends split: prod.splits step_end.splits)
  moreover have some: "P (view_of w) \<Longrightarrow> up_active w = None \<Longrightarrow> False" for w :: "'x updworld"
    using assms(2) [of "view_of w"] by (auto simp: view_of_def)
  ultimately show ?thesis
    unfolding remove_active_def
    by (intro triple_bind_get triple_if triple_raise) (auto simp: seen_def dest: some elim: triple_pre)
qed

section \<open>The stages after saving\<close>

definition complete :: "program \<Rightarrow> string \<Rightarrow> string list \<Rightarrow> journal \<Rightarrow> view \<Rightarrow> bool" where
  "complete P run ts j v = (journal_of P run ts j v \<and> j_phase j = ''installing'')"

definition noted :: "upenv \<Rightarrow> program \<Rightarrow> program \<Rightarrow> string \<Rightarrow> string list \<Rightarrow> view \<Rightarrow> bool" where
  "noted e P0 P run ts v = (old_state e P0 P run v \<and> stopped run v \<and> (\<exists>j. v_local v = Some j \<and> complete P run ts j v))"

definition copying :: "upenv \<Rightarrow> program \<Rightarrow> program \<Rightarrow> string \<Rightarrow> string list \<Rightarrow> program \<Rightarrow> view \<Rightarrow> bool" where
  "copying e P0 P run ts f v = (genuine_packages e v \<and> intact e P0 P \<and> result_in run v = None \<and> near (set ts) P v
     \<and> (\<exists>j. v_local v = Some j \<and> v_active v = Some j \<and> complete P run ts j v) \<and> v_program v = f)"

lemma saving_noted:
  "saving e P0 P run ts v \<Longrightarrow> noted e P0 P run ts (v\<lparr>v_local := map_option (\<lambda>j. j\<lparr>j_phase := ''installing''\<rparr>) (v_local v)\<rparr>)"
  by (auto simp: saving_def noted_def complete_def old_state_def stopped_def journal_of_def matches_def saved_value_def near_def
      genuine_packages_def result_in_def targets_def split: option.splits)

lemma noted_copying: "noted e P0 P run ts v \<Longrightarrow> copying e P0 P run ts P (v\<lparr>v_active := v_local v\<rparr>)"
  by (auto simp: noted_def copying_def complete_def old_state_def journal_of_def matches_def saved_value_def near_def
      genuine_packages_def result_in_def split: option.splits)

lemma noted_fallback: "noted e P0 P run ts v \<Longrightarrow> fallback e P0 P run v"
  by (auto simp: noted_def complete_def journal_of_def intro: stopped_fallback)

lemma copying_fallback: "copying e P0 P run ts f v \<Longrightarrow> fallback e P0 P run v"
  unfolding copying_def complete_def journal_of_def fallback_def undo_facts_def reach_of_def by fastforce

lemma copying_put:
  "copying e P0 P run ts f v \<Longrightarrow> t \<in> set ts \<Longrightarrow> copying e P0 P run ts (prog_put t c f) (v\<lparr>v_program := prog_put t c (v_program v)\<rparr>)"
  by (auto simp: copying_def complete_def journal_of_def matches_def saved_value_def near_put_inside
      genuine_packages_def result_in_def split: option.splits)

lemma copying_private: "copying e P0 P run ts f (v\<lparr>v_private := p\<rparr>) = copying e P0 P run ts f v"
  by (simp add: copying_def complete_def journal_of_def matches_def saved_value_def near_def
      genuine_packages_def result_in_def cong: option.case_cong)

lemma write_active_triple:
  "triple (seen (noted e P0 P run ts)) (write_active q) (\<lambda>_. seen (copying e P0 P run ts P)) (\<lambda>_. seen (fallback e P0 P run))"
proof -
  have w: "view_of (w\<lparr>up_active := up_local w\<rparr>) = (view_of w)\<lparr>v_active := v_local (view_of w)\<rparr>" for w :: "'a updworld"
    by (simp add: view_active) (simp add: view_of_def)
  show ?thesis unfolding write_active_def
    by (rule triple_ustep) (auto simp: w noted_copying noted_fallback copying_fallback)
qed

lemma copy_triple:
  assumes "t \<in> set ts"
  shows "triple (seen (copying e P0 P run ts f)) (copy_atomic q (Some c) t)
     (\<lambda>_. seen (copying e P0 P run ts (prog_put t (Some c) f))) (\<lambda>_. seen (fallback e P0 P run))"
proof -
  have "triple (seen (copying e P0 P run ts f)) (ucall q (CopyTo t) OtherError (put_file t (Some c)))
     (\<lambda>_. seen (copying e P0 P run ts (prog_put t (Some c) f)))
     (\<lambda>x. seen (\<lambda>v. copying e P0 P run ts f v \<or> x = Killed \<and> copying e P0 P run ts (prog_put t (Some c) f) v))"
    by (rule triple_ucall) (simp add: view_put_file copying_put assms)
  then show ?thesis unfolding copy_atomic_def option.case
    by (rule triple_seen_conseq) (auto intro: copying_fallback)
qed

lemma copy_all_triple:
  "fst ` set pairs \<subseteq> set ts \<Longrightarrow> triple (seen (copying e P0 P run ts f)) (copy_all q pairs)
     (\<lambda>_. seen (copying e P0 P run ts (put_all pairs f))) (\<lambda>_. seen (fallback e P0 P run))"
proof (induction pairs arbitrary: f)
  case Nil
  then show ?case by (auto intro!: triple_ret simp: copy_all_def put_all_def seen_def)
next
  case (Cons x pairs)
  obtain t c where x: "x = (t, c)" by force
  have "triple (seen (copying e P0 P run ts f)) (copy_atomic q (Some c) t)
     (\<lambda>_. seen (copying e P0 P run ts (prog_put t (Some c) f))) (\<lambda>_. seen (fallback e P0 P run))"
    by (rule copy_triple) (use Cons.prems x in auto)
  then show ?case using triple_bind [OF _ Cons.IH [of "prog_put t (Some c) f"]] Cons.prems x
    by (simp add: copy_all_def put_all_def)
qed

section \<open>The configuration and the version\<close>

definition config_written :: "program \<Rightarrow> pydict \<Rightarrow> program" where
  "config_written f cfg = prog_put config_path (Some (json_dumps (PDict (new_config cfg)))) f"

lemma program_paths [simp]: "program_path config_path" "program_path current_path"
  by (simp_all add: program_path_def service_path_def side_files_def config_path_def current_path_def gateway_db_def xui_db_def
      egress_dir_def slots_dir_def starts_with_def)

lemma read_dict_triple:
  "triple P (tbind (read_json body) (\<lambda>v. tbind (need_dict v) k)) Q E"
  if "\<And>d. (\<exists>b. body = Some b \<and> json_loads b = Some (PDict d)) \<Longrightarrow> triple P (k d) Q E" "\<And>x w. P w \<Longrightarrow> E x w"
proof (rule triple_bind [where R = "\<lambda>v w. P w \<and> (\<exists>b. body = Some b \<and> json_loads b = Some v)"])
  show "triple P (read_json body) (\<lambda>v w. P w \<and> (\<exists>b. body = Some b \<and> json_loads b = Some v)) E"
    unfolding read_json_def ufail_def using that(2)
    by (auto intro!: triple_raise triple_ret triple_if split: option.split)
  fix v
  show "triple (\<lambda>w. P w \<and> (\<exists>b. body = Some b \<and> json_loads b = Some v)) (tbind (need_dict v) k) Q E"
  proof (rule triple_bind [where R = "\<lambda>d w. P w \<and> (\<exists>b. body = Some b \<and> json_loads b = Some (PDict d))"])
    show "triple (\<lambda>w. P w \<and> (\<exists>b. body = Some b \<and> json_loads b = Some v)) (need_dict v)
        (\<lambda>d w. P w \<and> (\<exists>b. body = Some b \<and> json_loads b = Some (PDict d))) E"
      unfolding need_dict_def using that(2) by (auto intro!: triple_raise triple_ret split: pyval.split)
    fix d
    show "triple (\<lambda>w. P w \<and> (\<exists>b. body = Some b \<and> json_loads b = Some (PDict d))) (k d) Q E"
    proof (rule triple_pure)
    assume "\<exists>b. body = Some b \<and> json_loads b = Some (PDict d)"
    from that(1) [OF this] show "triple (\<lambda>w. P w \<and> (\<exists>b. body = Some b \<and> json_loads b = Some (PDict d))) (k d) Q E"
      by (rule triple_pre) simp
  qed blast
  qed
qed

lemma rewrite_config_triple:
  assumes "config_path \<in> set ts"
  shows "triple (seen (copying e P0 P run ts f)) (rewrite_config q run)
     (\<lambda>_. seen (\<lambda>v. \<exists>cfg. config_of f = Some cfg \<and> copying e P0 P run ts (config_written f cfg) v)) (\<lambda>_. seen (fallback e P0 P run))"
  unfolding rewrite_config_def
proof (rule triple_bind_get, rule read_dict_triple)
  fix body :: "string option" and cfg
  assume body: "\<exists>b. body = Some b \<and> json_loads b = Some (PDict cfg)"
  let ?doc = "json_dumps (PDict (new_config cfg))"
  let ?pre = "\<lambda>v. copying e P0 P run ts f v \<and> f config_path = body"
  let ?mid = "\<lambda>v. ?pre v \<and> map_of (v_private v) (run, ''config.json'') = Some ?doc"
  have vp: "view_of (w\<lparr>up_private := p\<rparr>) = (view_of w)\<lparr>v_private := p\<rparr>" for w :: "'a updworld" and p
    by (simp add: view_of_def program_def file_of_def fun_eq_iff)
  have doc: "triple (seen ?pre) (ustep q (WritePrivate ''config.json'') OtherError
       (\<lambda>w. w\<lparr>up_private := AList.update (run, ''config.json'') ?doc (up_private w)\<rparr>)) (\<lambda>_. seen ?mid) (\<lambda>_. seen (fallback e P0 P run))"
    by (rule triple_ustep) (auto simp: vp copying_private update_conv' intro: copying_fallback)
  have cfg: "f config_path = body \<Longrightarrow> config_of f = Some cfg"
    using body by (auto simp: config_of_def)
  have copy: "triple (seen ?mid) (tbind (tget (private_of run ''config.json'')) (\<lambda>c. copy_atomic q c config_path))
     (\<lambda>_. seen (\<lambda>v. \<exists>cfg. config_of f = Some cfg \<and> copying e P0 P run ts (config_written f cfg) v)) (\<lambda>_. seen (fallback e P0 P run))"
  proof (rule triple_bind_get)
    fix c
    show "triple (\<lambda>w. seen ?mid w \<and> private_of run ''config.json'' w = c) (copy_atomic q c config_path)
       (\<lambda>_. seen (\<lambda>v. \<exists>cfg. config_of f = Some cfg \<and> copying e P0 P run ts (config_written f cfg) v)) (\<lambda>_. seen (fallback e P0 P run))"
    proof (rule triple_pure)
      show "seen ?mid w \<and> private_of run ''config.json'' w = c \<Longrightarrow> c = Some ?doc \<and> f config_path = body" for w
        by (auto simp: seen_def private_of_def view_of_def)
      assume c: "c = Some ?doc \<and> f config_path = body"
      then show "triple (\<lambda>w. seen ?mid w \<and> private_of run ''config.json'' w = c) (copy_atomic q c config_path)
       (\<lambda>_. seen (\<lambda>v. \<exists>cfg. config_of f = Some cfg \<and> copying e P0 P run ts (config_written f cfg) v)) (\<lambda>_. seen (fallback e P0 P run))"
        using cfg by (simp only:, intro triple_conseq [OF copy_triple [OF assms, of e P0 P run f q ?doc]])
          (auto simp: seen_def config_written_def simp del: json_dumps.simps)
    qed
  qed
  show "triple (\<lambda>w. seen (copying e P0 P run ts f) w \<and> file_of w config_path = body)
     (tbind (ustep q (WritePrivate ''config.json'') OtherError
       (\<lambda>w. w\<lparr>up_private := AList.update (run, ''config.json'') ?doc (up_private w)\<rparr>)) (\<lambda>_.
     tbind (tget (private_of run ''config.json'')) (\<lambda>c. copy_atomic q c config_path)))
     (\<lambda>_. seen (\<lambda>v. \<exists>cfg. config_of f = Some cfg \<and> copying e P0 P run ts (config_written f cfg) v)) (\<lambda>_. seen (fallback e P0 P run))"
    by (rule triple_pre [OF triple_bind [OF doc copy]])
      (auto simp: seen_def copying_def view_of_def program_def fun_eq_iff dest: spec [of _ config_path])
qed (auto simp: seen_def copying_fallback)

lemma write_current_triple:
  assumes "current_path \<in> set ts"
  shows "triple (seen (copying e P0 P run ts f)) (write_current q v)
     (\<lambda>_. seen (copying e P0 P run ts (prog_put current_path (Some (version_document v)) f))) (\<lambda>_. seen (fallback e P0 P run))"
  unfolding write_current_def
  by (rule triple_ustep) (auto simp: view_put_file copying_put assms intro: copying_fallback)

end
