(* ===== verification/Update_Runs.thy ===== *)
theory Update_Runs
  imports Update_Copy
begin

text \<open>
  Whole runs of the privileged updater: only content named by a signed manifest is installed, a
  run keeps the state whole however it ends, and so does every history of runs.
\<close>

section \<open>The switch\<close>

text \<open>The end of the switch before its handler.\<close>

definition ends :: "upenv \<Rightarrow> program \<Rightarrow> program \<Rightarrow> string \<Rightarrow> upexc \<Rightarrow> view \<Rightarrow> bool" where
  "ends e P0 P run x v = (if x = Killed then whole e P0 v else fallback e P0 P run v)"

lemma fallback_ends: "fallback e P0 P run v \<Longrightarrow> ends e P0 P run x v"
  by (simp add: ends_def fallback_whole)

lemma to_ends:
  "triple (seen I) m Q (\<lambda>_. seen (fallback e P0 P run)) \<Longrightarrow> triple (seen I) m Q (\<lambda>x. seen (ends e P0 P run x))"
  by (erule triple_conseq) (auto simp: seen_def fallback_ends)

lemma kept_ends:
  "keeps (seen I) m \<Longrightarrow> (\<And>v. I v \<Longrightarrow> fallback e P0 P run v) \<Longrightarrow> triple (seen I) m (\<lambda>_. seen I) (\<lambda>x. seen (ends e P0 P run x))"
  by (intro to_ends triple_kept)

lemma save_all_triple:
  "triple (seen (\<lambda>v. saving e P0 P run [] v \<and> unsaved run 0 v)) (save_all c q run pairs)
     (\<lambda>_. seen (saving e P0 P run (targets_of pairs))) (\<lambda>_. seen (fallback e P0 P run))"
proof -
  let ?S = "\<lambda>v. saving e P0 P run [] v \<and> unsaved run 0 v"
  have k: "triple (seen ?S) m (\<lambda>_. seen ?S) (\<lambda>_. seen (fallback e P0 P run))" if "keeps (seen ?S) m" for m :: "('a, unit) upd"
    by (rule triple_kept [OF that]) (auto intro: saving_fallback)
  have t: "keeps (seen (saving e P0 P run (targets_of pairs))) (save_tree q run)"
    unfolding save_tree_def by (intro keeps_intros) simp
  have tree: "triple (seen (saving e P0 P run (targets_of pairs))) (save_tree q run)
      (\<lambda>_. seen (saving e P0 P run (targets_of pairs))) (\<lambda>_. seen (fallback e P0 P run))"
    by (rule triple_kept [OF t saving_fallback])
  have all: "triple (seen ?S) (tfor (enumerate 0 (targets_of pairs)) (save_target q run))
      (\<lambda>_. seen (saving e P0 P run (targets_of pairs))) (\<lambda>_. seen (fallback e P0 P run))"
    using save_targets_triple [of e P0 P run "[]" "targets_of pairs" q] by simp
  show ?thesis unfolding save_all_def
    by (rule triple_bind [OF k triple_bind [OF k triple_bind [OF all tree]]]) (intro keeps_intros)+
qed

text \<open>Over a complete installation.\<close>

lemma success_whole:
  assumes "copying e P0 P run ts g v" "intact e P0 g"
  shows "whole e P0 (with_result run ''success'' c v)" "whole e P0 ((with_result run ''success'' c v)\<lparr>v_active := None\<rparr>)"
proof -
  show "whole e P0 (with_result run ''success'' c v)"
    using assms by (auto simp: whole_def recoverable_def copying_def complete_def journal_of_def)
  show "whole e P0 ((with_result run ''success'' c v)\<lparr>v_active := None\<rparr>)"
    using assms by (auto simp: whole_def copying_def genuine_packages_def)
qed

lemma publish_triple:
  assumes "settles q" "intact e P0 g"
  shows "triple (seen (copying e P0 P run ts g)) (tbind (finish q run ''success'' []) (\<lambda>_. remove_active q))
     (\<lambda>_. seen (whole e P0)) (\<lambda>x. seen (ends e P0 P run x))"
proof -
  let ?D = "\<lambda>v. \<exists>c u. copying e P0 P run ts g u \<and> v = with_result run ''success'' c u"
  have "triple (seen (copying e P0 P run ts g)) (finish q run ''success'' []) (\<lambda>_. seen ?D)
      (\<lambda>x. seen (\<lambda>v. copying e P0 P run ts g v \<or> x = Killed \<and> ?D v))"
    by (rule published_triple [OF assms(1)]) blast
  then have fin: "triple (seen (copying e P0 P run ts g)) (finish q run ''success'' []) (\<lambda>_. seen ?D) (\<lambda>x. seen (ends e P0 P run x))"
    by (rule triple_seen_conseq)
      (use assms(2) in \<open>auto simp: ends_def intro: success_whole copying_fallback fallback_whole\<close>)
  have "triple (seen ?D) (remove_active q) (\<lambda>_. seen (whole e P0)) (\<lambda>x w. x = Killed \<and> seen (whole e P0) w)"
    by (rule removed_triple [OF assms(1)]) (use assms(2) in \<open>auto simp: success_whole, auto simp: copying_def\<close>)
  then have rem: "triple (seen ?D) (remove_active q) (\<lambda>_. seen (whole e P0)) (\<lambda>x. seen (ends e P0 P run x))"
    by (rule triple_conseq) (auto simp: ends_def seen_def)
  show ?thesis by (rule triple_bind [OF fin rem])
qed

lemma switch_files_triple:
  assumes "settles q" "\<And>cfg. config_of (put_all pairs P) = Some cfg \<Longrightarrow> intact e P0 (installed pairs cfg v P)"
  shows "triple (seen (\<lambda>v. saving e P0 P run [] v \<and> unsaved run 0 v)) (switch_files c q run v pairs ids)
     (\<lambda>_. seen (whole e P0)) (\<lambda>x. seen (ends e P0 P run x))"
proof -
  let ?ts = "targets_of pairs"
  let ?C = "copying e P0 P run ?ts"
  let ?X = "\<lambda>x. seen (ends e P0 P run x)"
  have ts: "fst ` set pairs \<subseteq> set ?ts" "config_path \<in> set ?ts" "current_path \<in> set ?ts"
    by (auto simp: targets_of_def)
  have mark: "triple (seen (saving e P0 P run ?ts)) (change_local (\<lambda>j. j\<lparr>j_phase := ''installing''\<rparr>)) (\<lambda>_. seen (noted e P0 P run ?ts)) ?X"
    unfolding change_local_def by (rule triple_tput) (simp add: view_local_map saving_noted)
  have keepu: "triple (seen (?C f)) m (\<lambda>_. seen (?C f)) ?X" if "keeps (seen (?C f)) m" for f and m :: "('a, unit) upd"
    by (rule kept_ends [OF that copying_fallback])
  have current: "triple (seen (?C (config_written (put_all pairs P) cfg))) (write_current q v) (\<lambda>_. seen (?C (installed pairs cfg v P))) ?X" for cfg
    unfolding installed_def config_written_def [symmetric] by (rule to_ends [OF write_current_triple [OF ts(3)]])
  have last: "triple (seen (?C (config_written (put_all pairs P) cfg)))
     (tbind (progress q ''restart'') (\<lambda>_.
     tbind (start_services q) (\<lambda>_. tbind (wait_health q) (\<lambda>_. tbind (quick_check c q) (\<lambda>_.
     tbind (progress q ''identities'') (\<lambda>_.
     tbind (identities c q) (\<lambda>i. tbind (uguard (i = ids) ''identity_changed'') (\<lambda>_.
     tbind (write_current q v) (\<lambda>_.
     tbind (finish q run ''success'' []) (\<lambda>_. remove_active q))))))))))
     (\<lambda>_. seen (whole e P0)) ?X" if "config_of (put_all pairs P) = Some cfg" for cfg
  proof -
    let ?W = "?C (config_written (put_all pairs P) cfg)"
    have fin: "triple (seen ?W) (tbind (write_current q v) (\<lambda>_. tbind (finish q run ''success'' []) (\<lambda>_. remove_active q)))
        (\<lambda>_. seen (whole e P0)) ?X"
      by (rule triple_bind [OF current publish_triple [OF assms(1) assms(2) [OF that]]])
    have x: "seen ?W w \<Longrightarrow> ?X x w" for x w
      by (auto simp: seen_def intro: fallback_ends copying_fallback)
    show ?thesis
      by (rule triple_keep_bind [OF _ triple_keep_bind [OF _ triple_keep_bind [OF _ triple_keep_bind [OF _
            triple_keep_bind [OF _ triple_keep_bind [OF _ triple_keep_bind [OF _ fin x] x] x] x] x] x] x]) (intro keeps_intros)+
  qed
  then have last': "triple (seen (\<lambda>u. \<exists>cfg. config_of (put_all pairs P) = Some cfg \<and> ?C (config_written (put_all pairs P) cfg) u))
     (tbind (progress q ''restart'') (\<lambda>_.
     tbind (start_services q) (\<lambda>_. tbind (wait_health q) (\<lambda>_. tbind (quick_check c q) (\<lambda>_.
     tbind (progress q ''identities'') (\<lambda>_.
     tbind (identities c q) (\<lambda>i. tbind (uguard (i = ids) ''identity_changed'') (\<lambda>_.
     tbind (write_current q v) (\<lambda>_.
     tbind (finish q run ''success'' []) (\<lambda>_. remove_active q))))))))))
     (\<lambda>_. seen (whole e P0)) ?X"
    by (intro triple_seen_ex) (auto intro: triple_pure simp: triple_def seen_def)
  show ?thesis
    unfolding switch_files_def
    by (rule triple_bind [OF to_ends [OF save_all_triple]
          triple_bind [OF mark triple_bind [OF to_ends [OF write_active_triple]
          triple_bind [OF keepu triple_bind [OF to_ends [OF copy_all_triple [OF ts(1)]]
          triple_bind [OF to_ends [OF rewrite_config_triple [OF ts(2)]] last']]]]]])
       (intro keeps_intros)
qed

end
