(* ===== verification/Update_Apply.thy ===== *)
theory Update_Apply
  imports Update_Runs
begin

text \<open>
  Before the switch: the copies in the private directory are those the signed manifest names, what
  is unpacked comes from them, and nothing of the program changes before the journal is written.
\<close>

section \<open>Accepted manifests\<close>

definition accepted :: "upenv \<Rightarrow> string \<Rightarrow> pydict \<Rightarrow> bool" where
  "accepted e tag m = (\<exists>b s rt. e_signed e b s \<and> check_tag rt (PStr tag) (read_json_text b) = Inr m)"

lemma accepted_signed: "accepted e tag m \<Longrightarrow> signed_manifest e m"
  by (auto simp: accepted_def signed_manifest_def)

lemma asset_okD: "asset_ok n v \<Longrightarrow> \<exists>a s. v = PDict a \<and> dgetN a ''name'' = PStr n \<and> dgetN a ''sha256'' = PStr s"
  by (auto simp: asset_ok_def as_dict_def py_eq_PStr split: option.splits pyval.splits)

lemma asset_ok_entry:
  "asset_ok n (dget_or d k (PDict [])) \<Longrightarrow> \<exists>a s. dget d k = Some (PDict a) \<and> dgetN a ''name'' = PStr n \<and> dgetN a ''sha256'' = PStr s"
  by (auto simp: dget_or_def [of d] dest: asset_okD split: option.splits)

lemma accepted_manifest:
  assumes "accepted e tag m"
  shows "dgetN m ''release'' = PStr tag"
    and "\<exists>assets. dgetN m ''assets'' = PDict assets
      \<and> (\<exists>a s. dget assets ''package'' = Some (PDict a) \<and> dgetN a ''name'' = PStr ''aimili-vps-package.tar.gz'' \<and> dgetN a ''sha256'' = PStr s)
      \<and> (\<exists>a s. dget assets ''xui'' = Some (PDict a) \<and> dgetN a ''name'' = PStr ''x-ui-custom-linux-amd64'' \<and> dgetN a ''sha256'' = PStr s)
      \<and> (dgetN assets ''updater'' = PNone \<or> asset_ok ''project-update-engine.py'' (dgetN assets ''updater''))"
proof -
  obtain rt b where b: "check_tag rt (PStr tag) (read_json_text b) = Inr m" using assms by (auto simp: accepted_def)
  then show "dgetN m ''release'' = PStr tag"
    by (auto simp: check_tag_def check_manifest_def up_guard_def py_eq_PStr upfail_def up_bind_def split: option.splits pyval.splits if_splits sum.splits)
  obtain assets where "dgetN m ''assets'' = PDict assets" "manifest_assets assets tag = Inr ()"
    using b by (auto simp: check_tag_def check_manifest_def up_guard_def upfail_def up_bind_def as_dict_def split: option.splits pyval.splits if_splits sum.splits)
  moreover from this(2) have "asset_ok ''aimili-vps-package.tar.gz'' (dget_or assets ''package'' (PDict []))"
    "asset_ok ''x-ui-custom-linux-amd64'' (dget_or assets ''xui'' (PDict []))"
    "dgetN assets ''updater'' = PNone \<or> asset_ok ''project-update-engine.py'' (dgetN assets ''updater'')"
    by (auto simp: manifest_assets_def up_guard_def upfail_def up_bind_def split: option.splits if_splits sum.splits)
  ultimately show "\<exists>assets. dgetN m ''assets'' = PDict assets
      \<and> (\<exists>a s. dget assets ''package'' = Some (PDict a) \<and> dgetN a ''name'' = PStr ''aimili-vps-package.tar.gz'' \<and> dgetN a ''sha256'' = PStr s)
      \<and> (\<exists>a s. dget assets ''xui'' = Some (PDict a) \<and> dgetN a ''name'' = PStr ''x-ui-custom-linux-amd64'' \<and> dgetN a ''sha256'' = PStr s)
      \<and> (dgetN assets ''updater'' = PNone \<or> asset_ok ''project-update-engine.py'' (dgetN assets ''updater''))"
    using asset_ok_entry by blast
qed

section \<open>Private copies\<close>

definition idle :: "upenv \<Rightarrow> program \<Rightarrow> program \<Rightarrow> string \<Rightarrow> view \<Rightarrow> bool" where
  "idle e P0 P run v = (old_state e P0 P run v \<and> v_active v = None)"

definition has_copy :: "upenv \<Rightarrow> string \<Rightarrow> pydict \<Rightarrow> string \<Rightarrow> string \<Rightarrow> view \<Rightarrow> bool" where
  "has_copy e run m key n v = (\<exists>c. map_of (v_private v) (run, n) = Some c \<and> names_content e m key c)"

lemma view_private: "view_of (w\<lparr>up_private := p\<rparr>) = (view_of w)\<lparr>v_private := p\<rparr>"
  by (simp add: view_of_def program_def file_of_def fun_eq_iff)

lemma v_private_view: "v_private (view_of w) = up_private w"
  by (simp add: view_of_def)

lemma idle_fields [simp]:
  "idle e P0 P run (v\<lparr>v_private := p\<rparr>) = idle e P0 P run v"
  "idle e P0 P run (v\<lparr>v_saved := s\<rparr>) = idle e P0 P run v"
  "idle e P0 P run (v\<lparr>v_local := l\<rparr>) = idle e P0 P run v"
  by (simp_all add: idle_def old_state_def genuine_packages_def result_in_def near_def)

lemma idle_whole: "idle e P0 P run v \<Longrightarrow> whole e P0 v"
  by (auto simp: idle_def old_state_def whole_def dest: near_empty)

lemma keeps_put_private:
  "(\<And>v. I v \<Longrightarrow> I (v\<lparr>v_private := AList.update (run, n) c (v_private v)\<rparr>)) \<Longrightarrow> keeps (seen I) (put_private run n c)"
  by (auto simp: keeps_def put_private_def tput_def seen_def view_private simp flip: v_private_view)

lemma take_asset_triple:
  fixes q :: "'x upoutside"
  assumes a: "dgetN m ''assets'' = PDict assets" "dget assets key = Some (PDict asset)" "dgetN asset ''name'' = PStr n"
      "dgetN asset ''sha256'' = PStr s"
    and I: "\<And>v c. I v \<Longrightarrow> I (v\<lparr>v_private := AList.update (run, n) c (v_private v)\<rparr>)"
  shows "triple (seen I) (take_asset e q run assets key) (\<lambda>_. seen (\<lambda>v. I v \<and> has_copy e run m key n v)) (\<lambda>_. seen I)"
proof -
  have check: "triple (seen I) (tbind (tget (private_of run n)) (\<lambda>c. uguard (map_option (e_sha e) c = Some s) ''invalid_payload'') :: ('x, unit) upd)
      (\<lambda>_. seen (\<lambda>v. I v \<and> has_copy e run m key n v)) (\<lambda>_. seen I)"
  proof (rule triple_bind_get)
    fix c
    have copied: "private_of run n w = Some b \<Longrightarrow> s = e_sha e b \<Longrightarrow> has_copy e run m key n (view_of w)" for w :: "'x updworld" and b
      using a by (auto simp: has_copy_def names_content_def private_of_def v_private_view)
    show "triple (\<lambda>w :: 'x updworld. seen I w \<and> private_of run n w = c) (uguard (map_option (e_sha e) c = Some s) ''invalid_payload'')
        (\<lambda>_. seen (\<lambda>v. I v \<and> has_copy e run m key n v)) (\<lambda>_. seen I)"
      unfolding uguard_def ufail_def by (intro triple_if triple_ret triple_raise) (auto simp: seen_def intro: copied)
  qed
  have stage: "keeps (seen I) (stage_file q run n 268435456)" by (rule keeps_stage)
  have put: "keeps (seen I) (put_private run n body)" for body by (rule keeps_put_private) (rule I)
  show ?thesis
    unfolding take_asset_def a(2) option.case pyval.case a(3,4) prod.case
    by (rule triple_keep_bind [OF stage triple_keep_bind [OF put check]])
qed

lemma keeps_take_updater:
  assumes "dgetN assets ''updater'' = PNone \<or> asset_ok ''project-update-engine.py'' (dgetN assets ''updater'')"
    and I: "\<And>v c. I v \<Longrightarrow> I (v\<lparr>v_private := AList.update (run, ''project-update-engine.py'') c (v_private v)\<rparr>)"
  shows "keeps (seen I) (take_asset e q run assets ''updater'')"
proof (cases "dget assets ''updater''")
  case None
  then show ?thesis by (simp add: take_asset_def keeps_ret)
next
  case (Some v)
  then consider "v = PNone" | a s where "v = PDict a" "dgetN a ''name'' = PStr ''project-update-engine.py''" "dgetN a ''sha256'' = PStr s"
    using assms(1) asset_okD by (fastforce simp: dget_or_def)
  then show ?thesis
  proof cases
    case 1
    then show ?thesis using Some by (simp add: take_asset_def keeps_raise)
  next
    case 2
    have put: "keeps (seen I) (put_private run ''project-update-engine.py'' body)" for body
      by (rule keeps_put_private) (rule I)
    show ?thesis unfolding take_asset_def Some option.case 2 pyval.case prod.case
      by (intro keeps_intros put)
  qed
qed

text \<open>Both parts that will be installed.\<close>

definition provided :: "upenv \<Rightarrow> string \<Rightarrow> pydict \<Rightarrow> view \<Rightarrow> bool" where
  "provided e run m v = (has_copy e run m ''package'' ''aimili-vps-package.tar.gz'' v \<and> has_copy e run m ''xui'' ''x-ui-custom-linux-amd64'' v)"

lemma has_copy_other: "n' \<noteq> n \<Longrightarrow> has_copy e run m key n v \<Longrightarrow> has_copy e run m key n (v\<lparr>v_private := AList.update (run, n') c (v_private v)\<rparr>)"
  by (simp add: has_copy_def update_conv')

lemma take_assets_triple:
  assumes "accepted e tag m" "\<And>v p. I v \<Longrightarrow> I (v\<lparr>v_private := p\<rparr>)"
  shows "triple (seen I) (take_assets e q run m) (\<lambda>_. seen (\<lambda>v. I v \<and> provided e run m v)) (\<lambda>_. seen I)"
proof -
  let ?n1 = "''aimili-vps-package.tar.gz''" and ?n2 = "''x-ui-custom-linux-amd64''"
  obtain assets a s b t where m: "dgetN m ''assets'' = PDict assets"
    "dget assets ''package'' = Some (PDict a)" "dgetN a ''name'' = PStr ?n1" "dgetN a ''sha256'' = PStr s"
    "dget assets ''xui'' = Some (PDict b)" "dgetN b ''name'' = PStr ?n2" "dgetN b ''sha256'' = PStr t"
    "dgetN assets ''updater'' = PNone \<or> asset_ok ''project-update-engine.py'' (dgetN assets ''updater'')"
    using accepted_manifest(2) [OF assms(1)] by blast
  let ?I1 = "\<lambda>v. I v \<and> has_copy e run m ''package'' ?n1 v"
  let ?I2 = "\<lambda>v. ?I1 v \<and> has_copy e run m ''xui'' ?n2 v"
  have t1: "triple (seen I) (take_asset e q run assets ''package'') (\<lambda>_. seen ?I1) (\<lambda>_. seen I)"
    by (rule take_asset_triple [OF m(1-4)]) (rule assms(2))
  have "triple (seen ?I1) (take_asset e q run assets ''xui'') (\<lambda>_. seen ?I2) (\<lambda>_. seen ?I1)"
    by (rule take_asset_triple [OF m(1,5-7)]) (auto intro: assms(2) has_copy_other)
  then have t2: "triple (seen ?I1) (take_asset e q run assets ''xui'') (\<lambda>_. seen ?I2) (\<lambda>_. seen I)"
    by (rule triple_conseq) (auto simp: seen_def)
  have t3: "triple (seen ?I2) (tbind (take_asset e q run assets ''updater'') (\<lambda>_. tret ())) (\<lambda>_. seen ?I2) (\<lambda>_. seen I)"
    by (rule triple_kept, intro keeps_bind keeps_ret, rule keeps_take_updater [OF m(8)])
       (auto intro: assms(2) has_copy_other)
  show ?thesis unfolding take_assets_def m(1) as_dict_def pyval.case option.case tfor.simps
    by (rule triple_conseq [OF triple_bind [OF t1 triple_bind [OF t2 t3]]]) (auto simp: provided_def seen_def)
qed

section \<open>Unpacking\<close>

lemma genuine_if:
  "(b \<Longrightarrow> all_genuine e (snd x)) \<Longrightarrow> (\<not> b \<Longrightarrow> all_genuine e (snd y)) \<Longrightarrow> all_genuine e (snd (if b then x else y))"
  by simp

lemma extract_genuine:
  "all_genuine e files \<Longrightarrow> \<forall>m \<in> set ms. genuine e (m_data m) \<Longrightarrow> all_genuine e (snd (extract_members sn b dirs files ms))"
proof (induction sn b dirs files ms rule: extract_members.induct)
  case (2 sn b dirs files m ms)
  have put: "all_genuine e (AList.update p (m_data m) files)" for p
    using "2.prems" by (simp add: all_genuine_def update_conv')
  note IH = "2.IH"(1) [OF refl refl] "2.IH"(2) [OF refl refl]
  show ?case unfolding extract_members.simps Let_def
    by (intro genuine_if IH put) (use "2.prems" in simp_all)
qed simp

lemma provided_archive:
  assumes "provided e run m v"
  obtains a where "map_of (v_private v) (run, ''aimili-vps-package.tar.gz'') = Some a" "names_content e m ''package'' a"
  using assms by (auto simp: provided_def has_copy_def)

lemma provided_xui:
  assumes "provided e run m v"
  obtains c where "map_of (v_private v) (run, ''x-ui-custom-linux-amd64'') = Some c" "names_content e m ''xui'' c"
  using assms by (auto simp: provided_def has_copy_def)

text \<open>The archive of the manifest is unpacked.\<close>

definition unpacked :: "upenv \<Rightarrow> string \<Rightarrow> pydict \<Rightarrow> view \<Rightarrow> bool" where
  "unpacked e run m v = (\<exists>a ms old package. names_content e m ''package'' a \<and> e_members e a = Some ms \<and> all_genuine e old
     \<and> extract_members [] 0 [] old ms = (None, package) \<and> map_of (v_packages v) run = Some package)"

lemma view_packages: "view_of (w\<lparr>up_packages := p\<rparr>) = (view_of w)\<lparr>v_packages := p\<rparr>"
  by (simp add: view_of_def program_def file_of_def fun_eq_iff)

lemma idle_packages:
  "idle e P0 P run v \<Longrightarrow> all_genuine e files \<Longrightarrow> idle e P0 P run (v\<lparr>v_packages := AList.update run' files (v_packages v)\<rparr>)"
  by (auto simp: idle_def old_state_def genuine_packages_def all_genuine_def result_in_def near_def update_conv' split: if_splits)

lemma provided_packages [simp]: "provided e run m (v\<lparr>v_packages := p\<rparr>) = provided e run m v"
  and provided_saved [simp]: "provided e run m (v\<lparr>v_saved := s\<rparr>) = provided e run m v"
  and provided_local [simp]: "provided e run m (v\<lparr>v_local := l\<rparr>) = provided e run m v"
  by (simp_all add: provided_def has_copy_def)

definition ready_to_apply :: "upenv \<Rightarrow> program \<Rightarrow> program \<Rightarrow> string \<Rightarrow> pydict \<Rightarrow> view \<Rightarrow> bool" where
  "ready_to_apply e P0 P run m v = (idle e P0 P run v \<and> provided e run m v)"

lemma package_genuine: "idle e P0 P run (view_of w) \<Longrightarrow> all_genuine e (package_of run' w)"
  by (auto simp: idle_def old_state_def genuine_packages_def all_genuine_def package_of_def view_of_def split: option.splits)

lemma extract_triple:
  assumes "accepted e tag m"
  shows "triple (seen (ready_to_apply e P0 P run m)) (extract_package e run)
    (\<lambda>_. seen (\<lambda>v. ready_to_apply e P0 P run m v \<and> unpacked e run m v)) (\<lambda>_. seen (ready_to_apply e P0 P run m))"
proof -
  let ?I = "ready_to_apply e P0 P run m"
  have "case extract_package e run w of (Inl x, w') \<Rightarrow> seen ?I w' | (Inr u, w') \<Rightarrow> seen (\<lambda>v. ?I v \<and> unpacked e run m v) w'"
    if w: "seen ?I w" for w :: "'a updworld"
  proof -
    obtain a where a: "private_of run ''aimili-vps-package.tar.gz'' w = Some a" "names_content e m ''package'' a"
      using w provided_archive [of e run m "view_of w"]
      by (auto simp: seen_def ready_to_apply_def private_of_def v_private_view)
    show ?thesis
    proof (cases "e_members e a")
      case None
      then show ?thesis using w a by (simp add: extract_package_def tbind_def tget_def traise_def)
    next
      case (Some ms)
      obtain err files where x: "extract_members [] 0 [] (package_of run w) ms = (err, files)" by force
      have old: "all_genuine e (package_of run w)" using w package_genuine [of e P0 P run w run] by (simp add: seen_def ready_to_apply_def)
      have "genuine_archive e a" using a(2) accepted_signed [OF assms] by (auto simp: genuine_archive_def)
      then have "\<forall>m \<in> set ms. genuine e (m_data m)" using Some by (auto simp: genuine_def)
      then have "all_genuine e files" using extract_genuine [OF old, of ms "[]" 0 "[]"] x by simp
      then have "seen ?I (w\<lparr>up_packages := AList.update run files (up_packages w)\<rparr>)"
        using w idle_packages [of e P0 P run "view_of w" files run]
        by (auto simp: seen_def ready_to_apply_def view_packages) (simp add: view_of_def)
      moreover have "err = None \<Longrightarrow> unpacked e run m (view_of (w\<lparr>up_packages := AList.update run files (up_packages w)\<rparr>))"
        unfolding unpacked_def using a(2) Some old x by (auto simp: view_packages update_conv')
      ultimately show ?thesis using a Some x
        by (auto simp: seen_def extract_package_def tbind_def tget_def tput_def tret_def traise_def split: option.split)
    qed
  qed
  then show ?thesis by (simp add: triple_def)
qed

lemma pairs_triple:
  "triple (seen (\<lambda>v. ready_to_apply e P0 P run m v \<and> unpacked e run m v)) (pairs_to_install run)
    (\<lambda>pairs w. seen (ready_to_apply e P0 P run m) w \<and> release_plan e m pairs) (\<lambda>_. seen (ready_to_apply e P0 P run m))"
proof (rule tripleI)
  let ?J = "seen (\<lambda>v. ready_to_apply e P0 P run m v \<and> unpacked e run m v)"
  fix w :: "'a updworld" and x w' assume "?J w" "pairs_to_install run w = (Inl x, w')"
  then show "seen (ready_to_apply e P0 P run m) w'"
    by (auto simp: seen_def pairs_to_install_def tbind_def tget_def ufail_def traise_def tret_def split: option.splits)
next
  let ?J = "seen (\<lambda>v. ready_to_apply e P0 P run m v \<and> unpacked e run m v)"
  fix w :: "'a updworld" and pairs w'
  assume w: "?J w" "pairs_to_install run w = (Inr pairs, w')"
  then obtain plan x where p: "install_plan (package_of run w) = Some plan" "private_of run ''x-ui-custom-linux-amd64'' w = Some x"
    "pairs = plan @ [(xui_binary, x)]" "w' = w"
    by (auto simp: pairs_to_install_def tbind_def tget_def ufail_def traise_def tret_def split: option.splits)
  have "names_content e m ''xui'' x"
    using w(1) p(2) provided_xui [of e run m "view_of w"]
    by (auto simp: seen_def ready_to_apply_def private_of_def v_private_view)
  moreover obtain a ms old where "names_content e m ''package'' a" "e_members e a = Some ms" "all_genuine e old"
      "extract_members [] 0 [] old ms = (None, package_of run w)"
    using w(1) by (auto simp: seen_def unpacked_def package_of_def view_of_def)
  ultimately have "release_plan e m pairs" unfolding release_plan_def using p by blast
  then show "seen (ready_to_apply e P0 P run m) w' \<and> release_plan e m pairs"
    using w p by (simp add: seen_def)
qed

end
