(* ===== verification/Update_Requests.thy ===== *)
theory Update_Requests
  imports Update_Apply
begin

text \<open>
  The privileged updater as a whole: a request is served, or an interrupted run recovered, and
  every run keeps the state whole however it ends.
\<close>

section \<open>Applying a release\<close>

definition proven :: "upenv \<Rightarrow> program \<Rightarrow> pydict \<Rightarrow> string \<Rightarrow> pyval \<Rightarrow> bool" where
  "proven e P m tag cur = (accepted e tag m \<and> current_of P = Some cur \<and> newer_than tag cur = Inr True)"

lemma ready_whole: "ready_to_apply e P0 P run m v \<Longrightarrow> whole e P0 v"
  unfolding ready_to_apply_def by (auto intro: idle_whole)

lemma ready_fields [simp]:
  "ready_to_apply e P0 P run m (v\<lparr>v_saved := s\<rparr>) = ready_to_apply e P0 P run m v"
  "ready_to_apply e P0 P run m (v\<lparr>v_local := l\<rparr>) = ready_to_apply e P0 P run m v"
  by (simp_all add: ready_to_apply_def)

lemma snapshot_triple:
  "triple (seen (ready_to_apply e P0 P run m)) (make_snapshot q run)
     (\<lambda>_. seen (\<lambda>v. ready_to_apply e P0 P run m v \<and> unsaved run 0 v)) (\<lambda>_. seen (whole e P0))"
proof -
  let ?I = "ready_to_apply e P0 P run m"
  have empty: "map_of (filter (\<lambda>((r, i), c). r \<noteq> run) xs) (run, i) = None" for xs :: "((string \<times> nat) \<times> string) list" and i
    by (auto simp: map_of_eq_None_iff)
  have view: "view_of (w\<lparr>up_snapshots := ss, up_saved := s\<rparr>) = (view_of w)\<lparr>v_saved := s\<rparr>" for w :: "'a updworld" and ss s
    by (simp add: view_of_def program_def file_of_def fun_eq_iff)
  have make: "triple (seen ?I) (ustep q MakeSnapshot OtherError (\<lambda>w. w\<lparr>up_snapshots := run # up_snapshots w,
       up_saved := filter (\<lambda>((r, i), c). r \<noteq> run) (up_saved w)\<rparr>)) (\<lambda>_. seen (\<lambda>v. ?I v \<and> unsaved run 0 v)) (\<lambda>_. seen (whole e P0))"
    by (rule triple_ustep) (auto simp: view unsaved_def empty ready_whole)
  show ?thesis unfolding make_snapshot_def
    by (intro triple_bind_get triple_if triple_raise triple_pre [OF make]) (auto simp: seen_def ready_whole)
qed

lemma journal_triple:
  "triple (seen (\<lambda>v. ready_to_apply e P0 P run m v \<and> unsaved run 0 v \<and> v_local v = Some (new_journal r run ids))) (write_active q)
     (\<lambda>_. seen (\<lambda>v. saving e P0 P run [] v \<and> unsaved run 0 v)) (\<lambda>_. seen (whole e P0))"
proof -
  have w: "view_of (w\<lparr>up_active := up_local w\<rparr>) = (view_of w)\<lparr>v_active := v_local (view_of w)\<rparr>" for w :: "'a updworld"
    by (simp add: view_active) (simp add: view_of_def)
  show ?thesis unfolding write_active_def
  proof (rule triple_ustep)
    fix w :: "'a updworld"
    assume "ready_to_apply e P0 P run m (view_of w) \<and> unsaved run 0 (view_of w) \<and> v_local (view_of w) = Some (new_journal r run ids)"
    then show "saving e P0 P run [] (view_of (w\<lparr>up_active := up_local w\<rparr>)) \<and> unsaved run 0 (view_of (w\<lparr>up_active := up_local w\<rparr>))"
      by (auto simp: w saving_def stopped_def journal_of_def matches_def targets_def new_journal_def unsaved_def old_state_def
          ready_to_apply_def idle_def near_def genuine_packages_def result_in_def)
  qed (auto simp: ready_whole dest: saving_fallback fallback_whole)
qed

lemma installation_intact:
  assumes "proven e P m tag cur" "intact e P0 P" "release_plan e m pairs" "config_of (put_all pairs P) = Some cfg"
  shows "intact e P0 (installed pairs cfg tag P)"
  using assms intact.update accepted_signed accepted_manifest(1) unfolding proven_def by meson

lemma guarded_switch_triple:
  assumes "settles q" "proven e P m tag cur" "release_plan e m pairs"
  shows "triple (seen (\<lambda>v. saving e P0 P run [] v \<and> unsaved run 0 v))
     (trescue caught (switch_files e q run tag pairs ids) (switch_failed e q run)) (\<lambda>_. seen (whole e P0)) (\<lambda>_. seen (whole e P0))"
proof (rule triple_pure)
  show "seen (\<lambda>v. saving e P0 P run [] v \<and> unsaved run 0 v) w \<Longrightarrow> intact e P0 P" for w :: "'a updworld"
    by (auto simp: seen_def saving_def old_state_def)
  assume P: "intact e P0 P"
  have "triple (seen (\<lambda>v. saving e P0 P run [] v \<and> unsaved run 0 v)) (switch_files e q run tag pairs ids)
      (\<lambda>_. seen (whole e P0)) (\<lambda>x. seen (ends e P0 P run x))"
    by (rule switch_files_triple [OF assms(1) installation_intact [OF assms(2) P assms(3)]])
  then show "triple (seen (\<lambda>v. saving e P0 P run [] v \<and> unsaved run 0 v))
     (trescue caught (switch_files e q run tag pairs ids) (switch_failed e q run)) (\<lambda>_. seen (whole e P0)) (\<lambda>_. seen (whole e P0))"
  proof (rule triple_rescue)
    fix x assume "caught x"
    then show "triple (seen (ends e P0 P run x)) (switch_failed e q run x) (\<lambda>_. seen (whole e P0)) (\<lambda>_. seen (whole e P0))"
      by (intro triple_pre [OF switch_failed_triple [of e P0 P run]]) (simp add: seen_def ends_def caught_def)
  qed (auto simp: seen_def ends_def caught_def)
qed

lemma apply_update_triple:
  assumes "settles q" "proven e P m tag cur"
  shows "triple (seen (ready_to_apply e P0 P run m)) (apply_update e q r run tag m) (\<lambda>_. seen (whole e P0)) (\<lambda>_. seen (whole e P0))"
proof -
  let ?I = "ready_to_apply e P0 P run m"
  let ?U = "\<lambda>v. ?I v \<and> unpacked e run m v"
  let ?J = "\<lambda>v. ?I v \<and> unsaved run 0 v"
  let ?K = "\<lambda>ids v. ?I v \<and> unsaved run 0 v \<and> v_local v = Some (new_journal r run ids)"
  let ?S = "\<lambda>v. saving e P0 P run [] v \<and> unsaved run 0 v"
  let ?W = "seen (whole e P0)"
  have acc: "accepted e tag m" using assms(2) by (simp add: proven_def)
  have I: "seen ?I w \<Longrightarrow> ?W w" and J: "seen ?J w \<Longrightarrow> ?W w" for w :: "'z updworld"
    by (auto simp: seen_def intro: ready_whole)
  have S: "seen ?S w \<Longrightarrow> ?W w" for w :: "'a updworld"
    by (auto simp: seen_def dest: saving_fallback fallback_whole)
  have switch: "triple (seen ?S) (tbind (progress q ''backup'') (\<lambda>_.
      trescue caught (switch_files e q run tag pairs ids) (switch_failed e q run))) (\<lambda>_. ?W) (\<lambda>_. ?W)"
    if "release_plan e m pairs" for pairs ids
    by (rule triple_keep_bind [OF _ guarded_switch_triple [OF assms that] S]) (intro keeps_intros)
  have note_local: "triple (seen ?J) (tput (\<lambda>w. w\<lparr>up_local := Some (new_journal r run ids)\<rparr>)) (\<lambda>_. seen (?K ids)) (\<lambda>_. ?W)" for ids
    by (rule triple_tput) (auto simp: view_local unsaved_def)
  have journal: "triple (seen ?J) (tbind (identities e q) (\<lambda>ids.
     tbind (tput (\<lambda>w. w\<lparr>up_local := Some (new_journal r run ids)\<rparr>)) (\<lambda>_.
     tbind (write_active q) (\<lambda>_.
     tbind (progress q ''backup'') (\<lambda>_.
     trescue caught (switch_files e q run tag pairs ids) (switch_failed e q run)))))) (\<lambda>_. ?W) (\<lambda>_. ?W)"
    if "release_plan e m pairs" for pairs
    by (rule triple_keep_bind [OF _ triple_bind [OF note_local triple_bind [OF journal_triple switch [OF that]]] J]) (intro keeps_intros)
  have changed: "triple (\<lambda>w. seen ?I w \<and> (release_plan e m pairs))
     (tbind (check_version e q r m (map_of pairs ''/usr/local/bin/aimili-gateway'')) (\<lambda>_.
     tbind (make_snapshot q run) (\<lambda>_.
     tbind (identities e q) (\<lambda>ids.
     tbind (tput (\<lambda>w. w\<lparr>up_local := Some (new_journal r run ids)\<rparr>)) (\<lambda>_.
     tbind (write_active q) (\<lambda>_.
     tbind (progress q ''backup'') (\<lambda>_.
     trescue caught (switch_files e q run tag pairs ids) (switch_failed e q run)))))))) (\<lambda>_. ?W) (\<lambda>_. ?W)" for pairs
  proof (rule triple_pure)
    assume g: "release_plan e m pairs"
    show "triple (\<lambda>w. seen ?I w \<and> (release_plan e m pairs))
     (tbind (check_version e q r m (map_of pairs ''/usr/local/bin/aimili-gateway'')) (\<lambda>_.
     tbind (make_snapshot q run) (\<lambda>_.
     tbind (identities e q) (\<lambda>ids.
     tbind (tput (\<lambda>w. w\<lparr>up_local := Some (new_journal r run ids)\<rparr>)) (\<lambda>_.
     tbind (write_active q) (\<lambda>_.
     tbind (progress q ''backup'') (\<lambda>_.
     trescue caught (switch_files e q run tag pairs ids) (switch_failed e q run)))))))) (\<lambda>_. ?W) (\<lambda>_. ?W)"
      by (rule triple_pre [OF triple_keep_bind [OF _ triple_bind [OF snapshot_triple journal [OF g]] I]]) (intro keeps_intros, auto intro: I)
  qed simp
  have pairs: "triple (seen ?U) (pairs_to_install run) (\<lambda>pairs w. seen ?I w \<and> (release_plan e m pairs)) (\<lambda>_. ?W)"
    by (rule triple_conseq [OF pairs_triple]) (auto intro: I)
  have unpack: "triple (seen ?I) (extract_package e run) (\<lambda>_. seen ?U) (\<lambda>_. ?W)"
    by (rule triple_conseq [OF extract_triple [OF acc]]) (auto intro: I)
  show ?thesis unfolding apply_update_def
    by (rule triple_keep_bind [OF _ triple_keep_bind [OF _ triple_keep_bind [OF _ triple_bind [OF unpack
          triple_bind [OF pairs changed]] I] I] I]) (intro keeps_intros)+
qed

section \<open>One request\<close>

lemma keeps_whole_idle:
  "keeps (seen (idle e P0 P run)) m \<Longrightarrow> triple (seen (idle e P0 P run)) m (\<lambda>_. seen (whole e P0)) (\<lambda>_. seen (whole e P0))"
  by (rule triple_keeps [of "seen (idle e P0 P run)"]) (auto simp: seen_def idle_whole)

lemma keeps_copy_stage: "keeps (seen (idle e P0 P run)) (copy_stage q run' n)"
  unfolding copy_stage_def by (intro keeps_intros keeps_put_private) simp

lemma settled_triple:
  "triple (seen (\<lambda>v. whole e P0 v \<and> v_active v = None)) (finish q run st c) (\<lambda>_. seen (whole e P0)) (\<lambda>_. seen (whole e P0))"
  by (rule finish_whole) auto

lemma idle_settled: "idle e P0 P run v \<Longrightarrow> whole e P0 v \<and> v_active v = None"
  using idle_whole by (auto simp: idle_def)

lemma confirm_triple:
  assumes "current_of P = Some (PStr tag)"
  shows "triple (seen (idle e P0 P run)) (tbind (write_current q tag) (\<lambda>_. finish q run ''success'' []))
     (\<lambda>_. seen (whole e P0)) (\<lambda>_. seen (whole e P0))"
proof -
  let ?P = "prog_put current_path (Some (version_document tag)) P"
  have put: "idle e P0 ?P run (view_of (put_file current_path (Some (version_document tag)) w))" if "idle e P0 P run (view_of w)"
    for w :: "'a updworld"
  proof -
    have "near {} ?P ((view_of w)\<lparr>v_program := ?P\<rparr>)" "v_program (view_of w) = P"
      using that by (auto simp: idle_def old_state_def near_def proper_put)
    then show ?thesis using that intact.confirm [OF _ assms, of e P0]
      by (auto simp: view_put_file idle_def old_state_def genuine_packages_def result_in_def)
  qed
  have "triple (seen (idle e P0 P run)) (write_current q tag) (\<lambda>_. seen (idle e P0 ?P run)) (\<lambda>_. seen (whole e P0))"
    unfolding write_current_def by (rule triple_ustep) (auto simp: idle_whole put)
  moreover have "triple (seen (idle e P0 ?P run)) (finish q run ''success'' []) (\<lambda>_. seen (whole e P0)) (\<lambda>_. seen (whole e P0))"
    by (rule triple_pre [OF settled_triple]) (auto simp: seen_def dest: idle_settled)
  ultimately show ?thesis by (rule triple_bind)
qed

lemma install_apply_triple:
  assumes "settles q" "accepted e tag m" "current_of P = Some cur"
  shows "triple (seen (idle e P0 P run)) (install_apply e q r run tag m cur rep) (\<lambda>_. seen (whole e P0)) (\<lambda>_. seen (whole e P0))"
proof -
  have I: "seen (idle e P0 P run) w \<Longrightarrow> seen (whole e P0) w" for w :: "'z updworld"
    by (simp add: seen_def idle_whole)
  have take: "triple (seen (idle e P0 P run)) (take_assets e q run m) (\<lambda>_. seen (ready_to_apply e P0 P run m)) (\<lambda>_. seen (whole e P0))"
    unfolding ready_to_apply_def
    by (rule triple_conseq [OF take_assets_triple [OF assms(2), of "idle e P0 P run"]]) (auto intro: I)
  have go: "triple (seen (ready_to_apply e P0 P run m))
     (if up then tbind (progress q ''updater'') (\<lambda>_. tbind (promote_engine e q run m) (\<lambda>_. progress q ''updater''))
      else apply_update e q r run tag m) (\<lambda>_. seen (whole e P0)) (\<lambda>_. seen (whole e P0))"
    if "newer_than tag cur = Inr True" for up
  proof -
    have "triple (seen (ready_to_apply e P0 P run m)) (tbind (progress q ''updater'') (\<lambda>_. tbind (promote_engine e q run m) (\<lambda>_. progress q ''updater'')))
        (\<lambda>_. seen (whole e P0)) (\<lambda>_. seen (whole e P0))"
      by (rule triple_keeps [of "seen (ready_to_apply e P0 P run m)"], intro keeps_intros) (auto simp: seen_def ready_whole)
    moreover have "proven e P m tag cur" using assms(2,3) that by (simp add: proven_def)
    ultimately show ?thesis using apply_update_triple [OF assms(1)] by simp
  qed
  have rep: "triple (seen (idle e P0 P run)) (case rep of Blocked code part \<Rightarrow> ufail code
     | Compatible upgrade \<Rightarrow> tbind (progress q ''signature'') (\<lambda>_. tbind (take_assets e q run m) (\<lambda>_.
         if upgrade then tbind (progress q ''updater'') (\<lambda>_. tbind (promote_engine e q run m) (\<lambda>_. progress q ''updater''))
         else apply_update e q r run tag m))) (\<lambda>_. seen (whole e P0)) (\<lambda>_. seen (whole e P0))"
    if "newer_than tag cur = Inr True"
  proof (cases rep)
    case (Blocked code part)
    then show ?thesis by (auto simp: ufail_def intro: triple_raise I)
  next
    case (Compatible up)
    show ?thesis unfolding Compatible report.case
      by (rule triple_keep_bind [OF _ triple_bind [OF take go [OF that]] I]) (intro keeps_intros)
  qed
  show ?thesis unfolding install_apply_def uguard_def ufail_def
  proof (rule triple_bind_lift)
    fix newer assume "newer_than tag cur = Inr newer"
    then show "triple (seen (idle e P0 P run)) (tbind (if newer then tret () else traise (UpdateError ''version_invalid'')) (\<lambda>_.
       case rep of Blocked code part \<Rightarrow> traise (UpdateError code)
     | Compatible upgrade \<Rightarrow> tbind (progress q ''signature'') (\<lambda>_. tbind (take_assets e q run m) (\<lambda>_.
         if upgrade then tbind (progress q ''updater'') (\<lambda>_. tbind (promote_engine e q run m) (\<lambda>_. progress q ''updater''))
         else apply_update e q r run tag m)))) (\<lambda>_. seen (whole e P0)) (\<lambda>_. seen (whole e P0))"
      using triple_bind [OF triple_ret rep [unfolded ufail_def]] I
      by (cases newer) (auto simp: triple_def tbind_def tret_def traise_def)
  qed (auto intro: I)
qed

lemma publish_catalog_triple:
  "triple (seen (idle e P0 P run)) (publish_catalog q run' tag c rep) (\<lambda>_. seen (whole e P0)) (\<lambda>_. seen (whole e P0))"
proof -
  have I: "seen (idle e P0 P run) w \<Longrightarrow> seen (whole e P0) w" for w :: "'z updworld"
    by (simp add: seen_def idle_whole)
  have fin: "triple (seen (idle e P0 P run)) (finish q run' ''success'' []) (\<lambda>_. seen (whole e P0)) (\<lambda>_. seen (whole e P0))"
    by (rule triple_pre [OF settled_triple]) (auto simp: seen_def dest: idle_settled)
  show ?thesis unfolding publish_catalog_def
    by (rule triple_keep_bind [OF _ triple_keep_bind [OF _ triple_keep_bind [OF _ fin I] I] I]) (intro keeps_intros view_fields)+
qed

lemma read_current_triple:
  "triple (seen (idle e P0 P run)) read_current (\<lambda>c w. seen (idle e P0 P run) w \<and> current_of P = Some c) (\<lambda>_. seen (idle e P0 P run))"
  unfolding read_current_def
proof (rule triple_bind_get, rule read_dict_triple)
  fix b :: "string option" and d
  assume d: "\<exists>x. b = Some x \<and> json_loads x = Some (PDict d)"
  have found: "file_of w current_path = b \<Longrightarrow> seen (idle e P0 P run) w \<Longrightarrow> dget d ''version'' = Some c \<Longrightarrow> current_of P = Some c" for w :: "'z updworld" and c
  proof -
    assume w: "file_of w current_path = b" "seen (idle e P0 P run) w" "dget d ''version'' = Some c"
    then have "P = program w" by (auto simp: seen_def idle_def old_state_def view_of_def dest: near_empty)
    then have "P current_path = b" using w by (simp add: program_def)
    with d w show ?thesis by (auto simp: current_of_def)
  qed
  show "triple (\<lambda>w. seen (idle e P0 P run) w \<and> file_of w current_path = b)
      (case dget d ''version'' of None \<Rightarrow> traise OtherError | Some c \<Rightarrow> tret c)
      (\<lambda>c w. seen (idle e P0 P run) w \<and> current_of P = Some c) (\<lambda>_. seen (idle e P0 P run))"
    by (auto intro!: triple_ret triple_raise intro: found split: option.split)
qed auto

lemma manifest_triple:
  "triple I (verified_manifest e run tagv rt)
     (\<lambda>m w. I w \<and> (\<forall>tag. tagv = PStr tag \<longrightarrow> accepted e tag m)) (\<lambda>_. I)"
proof -
  have "verify_manifest (e_signed e) b s tagv rt = Inr m \<Longrightarrow> tagv = PStr tag \<Longrightarrow> accepted e tag m" for b s m tag
    by (auto simp: verify_manifest_def accepted_def upfail_def split: option.splits if_splits)
  then show ?thesis unfolding verified_manifest_def
    by (auto simp: triple_def tbind_def tget_def tlift_def split: sum.split)
qed

lemma install_release_triple:
  assumes "settles q" "\<forall>tag. tagv = PStr tag \<longrightarrow> accepted e tag m" "current_of P = Some c"
  shows "triple (seen (idle e P0 P run)) (install_release e q r run tagv m c) (\<lambda>_. seen (whole e P0)) (\<lambda>_. seen (whole e P0))"
proof -
  let ?I = "seen (idle e P0 P run)" and ?W = "seen (whole e P0)"
  have I: "?I w \<Longrightarrow> ?W w" for w :: "'z updworld"
    by (simp add: seen_def idle_whole)
  show ?thesis
  proof (cases "is_text tagv")
    case True
    then obtain tag where t: "tagv = PStr tag" by (auto simp: is_text_def split: pyval.splits)
    with assms have acc: "accepted e tag m" by simp
    have "triple ?I (if b then install_apply e q r run tag m c rep else publish_catalog q run tag c rep) (\<lambda>_. ?W) (\<lambda>_. ?W)" for b rep
      by (intro triple_if install_apply_triple [OF assms(1) acc assms(3)] publish_catalog_triple)
    then have "triple ?I (tbind (uask (q_facts q)) (\<lambda>facts. tbind (tlift (assess_compatibility m facts)) (\<lambda>rep.
         if b then install_apply e q r run tag m c rep else publish_catalog q run tag c rep))) (\<lambda>_. ?W) (\<lambda>_. ?W)" for b
      by (intro triple_keep_bind [OF keeps_uask triple_keep_bind [OF keeps_lift]]) (auto intro: I)
    moreover have "triple ?I (tbind (write_current q tag) (\<lambda>_. finish q run ''success'' [])) (\<lambda>_. ?W) (\<lambda>_. ?W)" if "py_eq c tagv"
      using that assms(3) by (intro confirm_triple) (simp add: t py_eq_PStr)
    ultimately show ?thesis unfolding install_release_def t pyval.case by (intro triple_if) (auto simp: t)
  next
    case False
    then show ?thesis unfolding install_release_def by (auto intro!: triple_raise I simp: is_text_def split: pyval.splits)
  qed
qed

lemma install_ready_triple:
  assumes "settles q"
  shows "triple (seen (idle e P0 P run)) (install_ready e q r run ready) (\<lambda>_. seen (whole e P0)) (\<lambda>_. seen (whole e P0))"
proof -
  let ?I = "seen (idle e P0 P run)" and ?W = "seen (whole e P0)"
  let ?A = "\<lambda>m. \<forall>tag. dget_or ready ''version'' (PStr []) = PStr tag \<longrightarrow> accepted e tag m"
  have I: "?I w \<Longrightarrow> ?W w" for w :: "'z updworld"
    by (simp add: seen_def idle_whole)
  have man: "triple ?I (verified_manifest e run (dget_or ready ''version'' (PStr [])) rt) (\<lambda>m w. ?I w \<and> ?A m) (\<lambda>_. ?W)" for rt
    by (rule triple_conseq [OF manifest_triple [of ?I]]) (auto intro: I)
  have cur: "triple ?I read_current (\<lambda>c w. ?I w \<and> current_of P = Some c) (\<lambda>_. ?W)"
    by (rule triple_conseq [OF read_current_triple]) (auto intro: I)
  have rel: "triple (\<lambda>w. ?I w \<and> current_of P = Some c) (install_release e q r run (dget_or ready ''version'' (PStr [])) m c) (\<lambda>_. ?W) (\<lambda>_. ?W)"
    if "?A m" for m c
    by (rule triple_pure, erule conjunct2, rule triple_pre, rule install_release_triple [OF assms that]) auto
  have after: "triple (\<lambda>w. ?I w \<and> ?A m) (tbind read_current (install_release e q r run (dget_or ready ''version'' (PStr [])) m))
      (\<lambda>_. ?W) (\<lambda>_. ?W)" for m
    by (rule triple_pure, erule conjunct2, rule triple_pre [OF triple_bind [OF cur rel]]) auto
  show ?thesis unfolding install_ready_def Let_def
    by (rule triple_keep_bind [OF _ triple_keep_bind [OF keeps_copy_stage triple_keep_bind [OF keeps_copy_stage
          triple_bind [OF man after] I] I] I]) (intro keeps_intros)
qed

lemma idle_seen: "seen (idle e P0 P run) w \<Longrightarrow> seen (whole e P0) w"
  by (simp add: seen_def idle_whole)

lemma install_request_triple:
  assumes "settles q"
  shows "triple (seen (idle e P0 P run)) (install_request e q r run) (\<lambda>_. seen (whole e P0)) (\<lambda>_. seen (whole e P0))"
proof -
  have wait: "triple (seen (idle e P0 P run)) (pass_progress q run) (\<lambda>_. seen (whole e P0)) (\<lambda>_. seen (whole e P0))"
    by (rule keeps_whole_idle) (intro keeps_intros)
  have ready: "triple (seen (idle e P0 P run)) (if truthy (dgetN ready ''error'') then traise (ready_error (dgetN ready ''error''))
      else install_ready e q r run ready) (\<lambda>_. seen (whole e P0)) (\<lambda>_. seen (whole e P0))" for ready
    by (intro triple_if triple_raise install_ready_triple [OF assms]) (rule idle_seen)
  show ?thesis unfolding install_request_def
    by (intro triple_keep_bind [OF keeps_uask] triple_if wait triple_keep_bind [OF keeps_ready ready]) (erule idle_seen)+
qed

lemma serve_request_triple:
  assumes "settles q"
  shows "triple (seen (idle e P0 P run)) (serve_request e q r run) (\<lambda>_. seen (whole e P0)) (\<lambda>_. seen (whole e P0))"
  unfolding serve_request_def
proof (rule triple_rescue [OF install_request_triple [OF assms]])
  fix x
  show "triple (seen (whole e P0)) (tbind (tget up_active) (\<lambda>a. finish q run (if a = None then ''failed'' else ''repair_required'') (error_code x)))
      (\<lambda>_. seen (whole e P0)) (\<lambda>_. seen (whole e P0))"
  proof (rule triple_bind_get)
    fix a :: "journal option"
    have "triple (seen (\<lambda>v. whole e P0 v \<and> v_active v = a)) (finish q run (if a = None then ''failed'' else ''repair_required'') (error_code x))
        (\<lambda>_. seen (whole e P0)) (\<lambda>_. seen (whole e P0))"
      by (rule finish_whole) auto
    then show "triple (\<lambda>w. seen (whole e P0) w \<and> up_active w = a) (finish q run (if a = None then ''failed'' else ''repair_required'') (error_code x))
        (\<lambda>_. seen (whole e P0)) (\<lambda>_. seen (whole e P0))"
      by (rule triple_pre) (auto simp: seen_def view_of_def)
  qed
qed auto

section \<open>A run of the service\<close>

lemma pick_request_fresh: "pick_request reqs w = Some (run, r) \<Longrightarrow> result_of run w = None"
  by (induction reqs) (auto split: option.splits sum.splits if_splits)

lemma whole_idle:
  assumes "whole e P0 (view_of w)" "up_active w = None" "result_of run w = None"
  shows "idle e P0 (program w) run (view_of w)"
proof -
  have "v_program (view_of w) = program w" "v_active (view_of w) = None" "result_in run (view_of w) = None"
    using assms(2,3) by (simp_all add: view_of_def result_in_def result_of_def)
  with assms(1) proper_view [of w] show ?thesis
    by (auto simp: idle_def old_state_def near_def whole_def)
qed

lemma whole_local: "whole e P0 (v\<lparr>v_local := l\<rparr>) = whole e P0 v"
proof -
  have "saved_value (v\<lparr>v_local := l\<rparr>) = saved_value v"
    by (simp add: saved_value_def fun_eq_iff split: option.split)
  then have "matches j P (v\<lparr>v_local := l\<rparr>) = matches j P v" "near D P (v\<lparr>v_local := l\<rparr>) = near D P v"
    "result_in run (v\<lparr>v_local := l\<rparr>) = result_in run v" for j P D run
    by (simp_all add: matches_def near_def result_in_def)
  then show ?thesis by (simp add: whole_def recoverable_def genuine_packages_def split: option.split)
qed

lemma keeps_main_install:
  assumes "settles q"
  shows "keeps (seen (whole e P0)) (main_install e q)"
proof -
  let ?W = "seen (whole e P0)"
  let ?S = "\<lambda>w. ?W w \<and> up_active w = None"
  have local: "keeps ?W (tput (\<lambda>w. w\<lparr>up_local := None\<rparr>))"
    by (rule keeps_put) (simp add: seen_def view_local whole_local)
  have ask: "keeps ?S (uask f)" for f :: "'a \<Rightarrow> 'c \<times> 'a"
    by (auto simp: keeps_def uask_def seen_def split: prod.split)
  have serve: "triple (\<lambda>w. ?W w \<and> up_active w = None \<and> pick_request reqs w = Some (run, r)) (serve_request e q r run) (\<lambda>_. ?W) (\<lambda>_. ?W)" for reqs run r
  proof -
    have "triple (seen (\<lambda>v. \<exists>P. idle e P0 P run v)) (serve_request e q r run) (\<lambda>_. ?W) (\<lambda>_. ?W)"
      by (intro triple_seen_ex serve_request_triple assms)
    moreover have "seen (\<lambda>v. \<exists>P. idle e P0 P run v) w" if "?W w \<and> up_active w = None \<and> pick_request reqs w = Some (run, r)" for w
      using that whole_idle [of e P0 w run] pick_request_fresh [of reqs w run r] by (auto simp: seen_def)
    ultimately show ?thesis by (rule triple_pre)
  qed
  have refuse: "triple (\<lambda>w. ?W w \<and> up_active w = None \<and> R w) (finish q run ''failed'' c) (\<lambda>_. ?W) (\<lambda>_. ?W)" for run c and R :: "'a updworld \<Rightarrow> bool"
    by (rule triple_pre [OF settled_triple]) (auto simp: seen_def view_of_def)
  have picked: "triple (\<lambda>w. ?S w \<and> pick_request reqs w = p) (case p of None \<Rightarrow> tret ()
         | Some (run, r) \<Rightarrow> (case adopt of
             None \<Rightarrow> serve_request e q r run
           | Some (UpdateError c) \<Rightarrow> finish q run ''failed'' c
           | Some x \<Rightarrow> traise x)) (\<lambda>_. ?W) (\<lambda>_. ?W)" for reqs p adopt
    using serve refuse by (auto intro!: triple_ret triple_raise split: option.split upexc.split)
  have fresh: "triple ?S (tbind (uask (q_adopt q)) (\<lambda>adopt. tbind (uask (q_requests q)) (\<lambda>reqs.
         tbind (tget (pick_request reqs)) (\<lambda>p. case p of None \<Rightarrow> tret ()
         | Some (run, r) \<Rightarrow> (case adopt of
             None \<Rightarrow> serve_request e q r run
           | Some (UpdateError c) \<Rightarrow> finish q run ''failed'' c
           | Some x \<Rightarrow> traise x))))) (\<lambda>_. ?W) (\<lambda>_. ?W)"
    by (rule triple_keep_bind [OF _ triple_keep_bind [OF _ triple_bind_get [OF picked]]]) (auto intro: ask)
  have "triple (\<lambda>w. ?W w \<and> up_active w = a) (case a of Some j \<Rightarrow> recover_run e q j
     | None \<Rightarrow> tbind (uask (q_adopt q)) (\<lambda>adopt. tbind (uask (q_requests q)) (\<lambda>reqs.
         tbind (tget (pick_request reqs)) (\<lambda>p. case p of None \<Rightarrow> tret ()
         | Some (run, r) \<Rightarrow> (case adopt of
             None \<Rightarrow> serve_request e q r run
           | Some (UpdateError c) \<Rightarrow> finish q run ''failed'' c
           | Some x \<Rightarrow> traise x))))) (\<lambda>_. ?W) (\<lambda>_. ?W)" for a
    by (cases a) (use fresh recover_run_whole in simp_all)
  then have "triple ?W (main_install e q) (\<lambda>_. ?W) (\<lambda>_. ?W)"
    unfolding main_install_def by (intro triple_keep_bind [OF local triple_bind_get]) auto
  then show ?thesis by (simp add: keeps_triple)
qed

text \<open>The life of a host: runs of the updater that end anyhow, and changes of everything that is
  not part of the program or the updater's own records.\<close>

inductive update_history :: "upenv \<Rightarrow> program \<Rightarrow> 'x updworld \<Rightarrow> bool" for e P0 where
  fresh: "up_active w = None \<Longrightarrow> up_packages w = [] \<Longrightarrow> program w = P0 \<Longrightarrow> update_history e P0 w"
| runs: "update_history e P0 w \<Longrightarrow> settles q \<Longrightarrow> main_install e q w = (res, w') \<Longrightarrow> update_history e P0 w'"
| other: "update_history e P0 w \<Longrightarrow> view_of w' = view_of w \<Longrightarrow> update_history e P0 w'"

lemma update_history_whole: "update_history e P0 w \<Longrightarrow> seen (whole e P0) w"
proof (induction rule: update_history.induct)
  case (fresh w)
  then show ?case by (auto simp: seen_def whole_def genuine_packages_def view_of_def intro: intact.start)
next
  case (runs w q res w')
  then show ?case using keepsD [OF keeps_main_install] by blast
qed (simp add: seen_def)

end
