(* ===== verification/Update_Example.thy ===== *)
theory Update_Example
  imports Update_Requests "HOL-Library.Code_Target_Nat"
begin

text \<open>
  Concrete runs of the updater, evaluated: a release is applied and the process is killed while the
  panel's binary is copied, the next run restores the old version; and a run whose last
  publication is reported as failed after it took effect.
\<close>

section \<open>The release and the host\<close>

definition demo_run :: string where "demo_run = replicate 64 CHR ''b''"
definition demo_digest :: string where "demo_digest = replicate 64 CHR ''a''"

definition demo_manifest :: pydict where
  "demo_manifest = [
     (''assets'', PDict [
        (''package'', PDict [(''name'', PStr ''aimili-vps-package.tar.gz''), (''sha256'', PStr demo_digest)]),
        (''xui'', PDict [(''name'', PStr ''x-ui-custom-linux-amd64''), (''sha256'', PStr demo_digest)])]),
     (''compatibility'', PDict [(''gatewaySchemaMax'', PInt 9), (''gatewaySchemaMin'', PInt 1), (''layout'', PStr ''unified-v1''),
        (''osRelease'', PStr ''debian-12''), (''platform'', PStr ''linux-amd64''), (''requiredFreeBytes'', PInt 0)]),
     (''components'', PList (map (\<lambda>(n, a). PDict [(''action'', PStr a), (''name'', PStr n)]) required_actions)),
     (''gatewayCommit'', PStr (replicate 40 CHR ''c'')),
     (''release'', PStr ''v1.1.0-vps''), (''schemaVersion'', PInt 1), (''updateContract'', PInt 2),
     (''updater'', PDict [(''maxVersion'', PInt 4), (''minVersion'', PInt 1)])]"

definition demo_text :: string where "demo_text = json_dumps (PDict demo_manifest)"
definition demo_ready :: string where "demo_ready = json_dumps (PDict [(''version'', PStr ''v1.1.0-vps'')])"

definition demo_config :: string where "demo_config = json_dumps (PDict [(''databasePath'', PStr gateway_db)])"

definition demo_new_config :: string where
  "demo_new_config = json_dumps (PDict [(''databasePath'', PStr gateway_db), (''externalUiRoot'', PStr [])])"

definition demo_output :: string where
  "demo_output = json_dumps (PDict [(''commit'', PStr (replicate 40 CHR ''c'')), (''version'', PStr ''v1.1.0-vps'')])"

definition demo_request :: pydict where
  "demo_request = [(''runId'', PStr demo_run), (''kind'', PStr ''project''), (''action'', PStr ''apply''), (''version'', PStr ''v1.1.0-vps'')]"

definition demo_sources :: "string list" where
  "demo_sources = [''bin/aimili-gateway'', ''bin/aimili-gateway-admin'', ''services/aimili-egress/vpngate_manager.py'',
      ''deploy/bin/aimili-gateway-account'', ''deploy/bin/aimili'', ''scripts/aimili_xui_protocol_transaction.py'']"

definition demo_members :: "member list" where
  "demo_members = map (\<lambda>p. \<lparr>m_name = p, m_kind = PlainFile, m_data = ''new''\<rparr>) demo_sources"

definition demo_env :: upenv where
  "demo_env = \<lparr>e_signed = (\<lambda>_ _. True), e_sha = (\<lambda>_. demo_digest),
     e_members = (\<lambda>_. Some demo_members),
     e_version = (\<lambda>_. Some demo_output), e_sound = (\<lambda>_. Some True), e_ident = (\<lambda>_ _. Some ''same'')\<rparr>"

definition demo_facts :: facts where
  "demo_facts = \<lparr>f_platform = ''linux-amd64'', f_layout = ''unified-v1'', f_schema = Some 3, f_free = 5, f_updater = 4, f_healthy = True,
     f_unhealthy = [], f_os = ''debian-12''\<rparr>"

definition demo_outside :: "(upquery \<Rightarrow> step_end) \<Rightarrow> unit upoutside" where
  "demo_outside ans = \<lparr>q_step = (\<lambda>q x. (ans q, x)),
     q_writes = (\<lambda>x. ([], x)), q_free = (\<lambda>x. (2147483648, x)), q_layout = (\<lambda>x. ((True, True), x)),
     q_trusted = (\<lambda>x. (True, x)), q_adopt = (\<lambda>x. (None, x)), q_facts = (\<lambda>x. (demo_facts, x)),
     q_stage = (\<lambda>run name x. (Some (if name = ''ready.json'' then demo_ready
       else if name = ''manifest.json'' then demo_text else ''new''), x)),
     q_requests = (\<lambda>x. ([(demo_run, Some (PDict demo_request))], x))\<rparr>"

text \<open>The files of the program: before, after the switch, and mixed.\<close>

definition demo_world :: "(string \<times> string) list \<Rightarrow> unit updworld" where
  "demo_world fs = \<lparr>up_fs = fs, up_private = [], up_packages = [], up_snapshots = [], up_saved = [], up_trees = [], up_active = None,
     up_local = None, up_results = [], up_catalog = None, up_running = True, up_x = ()\<rparr>"

definition demo_old_files :: "(string \<times> string) list" where
  "demo_old_files = [(config_path, demo_config), (current_path, version_document ''v1.0.0-vps''), (gateway_db, ''rows''), (xui_db, ''rows''),
     (''/usr/local/bin/aimili-gateway'', ''old'')]"

abbreviation demo_start :: "unit updworld" where
  "demo_start \<equiv> demo_world demo_old_files"

section \<open>Parts of a run\<close>

lemma demo_loads:
  "json_loads demo_text = Some (PDict demo_manifest)" "json_loads demo_ready = Some (PDict [(''version'', PStr ''v1.1.0-vps'')])"
  "json_loads demo_config = Some (PDict [(''databasePath'', PStr gateway_db)])"
  "json_loads demo_output = Some (PDict [(''commit'', PStr (replicate 40 CHR ''c'')), (''version'', PStr ''v1.1.0-vps'')])"
  "json_loads (version_document ''v1.0.0-vps'') = Some (PDict [(''version'', PStr ''v1.0.0-vps'')])"
  "json_loads (version_document ''v1.1.0-vps'') = Some (PDict [(''version'', PStr ''v1.1.0-vps'')])"
  by code_simp+

lemma demo_lengths:
  "length demo_text \<le> 65536" "length demo_ready \<le> 65536" "length demo_config \<le> 65536" "length (version_document ''v1.0.0-vps'') \<le> 65536"
  by code_simp+

lemma demo_new_config_eq: "json_dumps (PDict (new_config [(''databasePath'', PStr gateway_db)])) = demo_new_config"
  by code_simp

lemma demo_verified: "verify_manifest (e_signed demo_env) (Some demo_text) (Some s) (PStr ''v1.1.0-vps'') PNone = Inr demo_manifest"
  by code_simp

lemma demo_assessed: "assess_compatibility demo_manifest demo_facts = Inr (Compatible False)"
  by code_simp

lemma demo_valid: "validate_request (PDict demo_request) = Inr demo_request"
  by code_simp

lemma demo_newer: "newer_than ''v1.1.0-vps'' (PStr ''v1.0.0-vps'') = Inr True"
  by code_simp

definition demo_package :: "(string \<times> string) list" where
  "demo_package = map (\<lambda>p. (p, ''new'')) demo_sources"

lemma demo_unpacked: "extract_members [] 0 [] [] demo_members = (None, demo_package)"
  by code_simp

definition demo_targets :: "string list" where
  "demo_targets = [''/usr/local/bin/aimili-gateway'', ''/usr/local/bin/aimili-gateway-admin'',
     ''/opt/aimili-gateway/services/aimili-egress/vpngate_manager.py'', ''/usr/local/sbin/aimili-gateway-account'', ''/usr/local/bin/aimili'',
     ''/usr/lib/aimili-gateway/aimili_xui_protocol_transaction.py'']"

definition demo_pairs :: "(string \<times> string) list" where
  "demo_pairs = map (\<lambda>p. (p, ''new'')) (demo_targets @ [xui_binary])"

lemma demo_plan: "install_plan demo_package = Some (map (\<lambda>p. (p, ''new'')) demo_targets)"
  by code_simp

section \<open>Steps of a run\<close>

lemma demo_unit [simp]: "w\<lparr>up_x := u\<rparr> = w" for w :: "unit updworld"
  by (cases w) simp

lemma demo_serve [simp]: "serve (demo_outside ans) w = w"
  by (simp add: serve_def demo_outside_def)

lemma demo_ustep: "ustep (demo_outside ans) query err f w = (case ans query of
    Went \<Rightarrow> (Inr (), f w) | Broke b \<Rightarrow> (Inl err, if b then f w else w) | Timeout b \<Rightarrow> (Inl OtherError, if b then f w else w)
  | Died b \<Rightarrow> (Inl Killed, if b then f w else w))"
  by (simp add: ustep_def Let_def) (simp add: demo_outside_def split: step_end.split)

lemma demo_ucall: "ucall (demo_outside ans) query err f w = (case ans query of
    Went \<Rightarrow> (Inr (), f w) | Broke b \<Rightarrow> (Inl err, w) | Timeout b \<Rightarrow> (Inl OtherError, w)
  | Died b \<Rightarrow> (Inl Killed, if b then f w else w))"
  by (simp add: ucall_def Let_def) (simp add: demo_outside_def split: step_end.split)

lemma demo_uask: "uask f w = (Inr (fst (f ())), w)" for w :: "unit updworld"
  by (simp add: uask_def split: prod.split)

lemma demo_answers:
  "fst (q_free (demo_outside ans) ()) = 2147483648" "fst (q_layout (demo_outside ans) ()) = (True, True)"
  "fst (q_adopt (demo_outside ans) ()) = None" "fst (q_facts (demo_outside ans) ()) = demo_facts"
  "fst (q_stage (demo_outside ans) run name ()) = Some (if name = ''ready.json'' then demo_ready
       else if name = ''manifest.json'' then demo_text else ''new'')"
  "fst (q_requests (demo_outside ans) ()) = [(demo_run, Some (PDict demo_request))]"
  by (simp_all add: demo_outside_def)

text \<open>Only what is run next is evaluated.\<close>

lemma tbind_cong_weak: "w = w' \<Longrightarrow> tbind m k w = tbind m k w'"
  and trescue_cong_weak: "w = w' \<Longrightarrow> trescue p m h w = trescue p m h w'"
  and tfor_cong_weak: "as = bs \<Longrightarrow> tfor as f = tfor bs f"
  by simp_all

lemma trescue_run: "trescue p m h w = (case m w of (Inl e, w') \<Rightarrow> if p e then h e w' else (Inl e, w') | (Inr a, w') \<Rightarrow> (Inr a, w'))"
  by (simp add: trescue_def tcatch_def traise_def split: prod.split sum.split)

lemmas run_simps = tbind_def trescue_run tret_def traise_def tget_def tput_def tlift_def demo_ustep demo_ucall demo_uask demo_answers
  uguard_def ufail_def

lemma demo_stage: "stage_file (demo_outside ans) run name n w =
   (let b = (if name = ''ready.json'' then demo_ready else if name = ''manifest.json'' then demo_text else ''new'') in
    if n < length b then (Inl (UpdateError ''invalid_payload''), w) else (Inr b, w))"
  by (simp add: stage_file_def run_simps Let_def cong: tbind_cong_weak)

lemma demo_keys:
  "dgetN demo_request ''runId'' = PStr demo_run" "dgetN demo_request ''action'' = PStr ''apply''" "dgetN demo_request ''version'' = PStr ''v1.1.0-vps''"
  by (simp_all add: demo_request_def dget_or_def dget_def)

lemma demo_picked: "pick_request [(demo_run, Some (PDict demo_request))] (demo_world fs) = Some (demo_run, demo_request)"
  by (simp add: demo_valid demo_keys result_of_def demo_world_def)

lemma demo_read: "read_json (Some demo_ready) w = (Inr (PDict [(''version'', PStr ''v1.1.0-vps'')]), w)"
   "read_json (Some demo_config) w = (Inr (PDict [(''databasePath'', PStr gateway_db)]), w)"
   "read_json (Some (version_document ''v1.0.0-vps'')) w = (Inr (PDict [(''version'', PStr ''v1.0.0-vps'')]), w)"
  using demo_lengths by (simp_all add: read_json_def demo_loads tret_def)

lemma demo_request_served:
  "main_install demo_env (demo_outside ans) (demo_world fs) = serve_request demo_env (demo_outside ans) demo_request demo_run (demo_world fs)"
proof -
  have "demo_world fs\<lparr>up_local := None\<rparr> = demo_world fs" "up_active (demo_world fs) = None" by (simp_all add: demo_world_def)
  then show ?thesis
    by (simp add: main_install_def run_simps demo_picked del: pick_request.simps cong: tbind_cong_weak)
qed

definition demo_private :: "((string \<times> string) \<times> string) list" where
  "demo_private = [((demo_run, ''manifest.json''), demo_text), ((demo_run, ''manifest.sig''), ''new''),
     ((demo_run, ''aimili-vps-package.tar.gz''), ''new''), ((demo_run, ''x-ui-custom-linux-amd64''), ''new'')]"

lemma demo_ready_keys:
  "dget_or [(''version'', PStr v)] ''version'' d = PStr v" "dget_or [(''version'', PStr v)] ''error'' d = d"
  "dget_or [(''version'', PStr v)] ''releaseTag'' d = d"
  "dget [(''version'', PStr v)] ''version'' = Some (PStr v)"
  by (simp_all add: dget_or_def dget_def)

lemma demo_assets: "\<exists>assets. dgetN demo_manifest ''assets'' = PDict assets
   \<and> dget assets ''package'' = Some (PDict [(''name'', PStr ''aimili-vps-package.tar.gz''), (''sha256'', PStr demo_digest)])
   \<and> dget assets ''xui'' = Some (PDict [(''name'', PStr ''x-ui-custom-linux-amd64''), (''sha256'', PStr demo_digest)])
   \<and> dget assets ''updater'' = None"
  by (simp add: demo_manifest_def dget_or_def dget_def)

lemma demo_asset_keys: "dgetN [(''name'', n), (''sha256'', s)] ''name'' = n" "dgetN [(''name'', n), (''sha256'', s)] ''sha256'' = s"
  by (simp_all add: dget_or_def dget_def)

lemma demo_take_assets:
  "take_assets demo_env (demo_outside ans) demo_run demo_manifest w =
    (Inr (), w\<lparr>up_private := AList.update (demo_run, ''x-ui-custom-linux-amd64'') ''new''
       (AList.update (demo_run, ''aimili-vps-package.tar.gz'') ''new'' (up_private w))\<rparr>)"
proof -
  obtain assets where a: "dgetN demo_manifest ''assets'' = PDict assets"
    "dget assets ''package'' = Some (PDict [(''name'', PStr ''aimili-vps-package.tar.gz''), (''sha256'', PStr demo_digest)])"
    "dget assets ''xui'' = Some (PDict [(''name'', PStr ''x-ui-custom-linux-amd64''), (''sha256'', PStr demo_digest)])"
    "dget assets ''updater'' = None" using demo_assets by blast
  have "e_sha demo_env c = demo_digest" for c by (simp add: demo_env_def)
  then show ?thesis
    by (simp add: take_assets_def a as_dict_def take_asset_def run_simps demo_asset_keys demo_stage put_private_def private_of_def update_conv'
        cong: tbind_cong_weak tfor_cong_weak)
qed

lemma demo_start_files: "file_of demo_start config_path = Some demo_config" "file_of demo_start current_path = Some (version_document ''v1.0.0-vps'')"
  "file_of demo_start gateway_db = Some ''rows''" "file_of demo_start xui_db = Some ''rows''"
  by (simp_all add: file_of_def demo_world_def demo_old_files_def config_path_def current_path_def gateway_db_def xui_db_def)

lemma demo_verified_step:
  "map_of (up_private w) (demo_run, ''manifest.json'') = Some demo_text \<Longrightarrow> map_of (up_private w) (demo_run, ''manifest.sig'') = Some s
   \<Longrightarrow> verified_manifest demo_env demo_run (PStr ''v1.1.0-vps'') PNone w = (Inr demo_manifest, w)"
  by (simp add: verified_manifest_def run_simps private_of_def demo_verified cong: tbind_cong_weak)

lemma demo_current_step:
  "file_of w current_path = Some (version_document ''v1.0.0-vps'') \<Longrightarrow> read_current w = (Inr (PStr ''v1.0.0-vps''), w)"
  by (simp add: read_current_def run_simps demo_read need_dict_def demo_ready_keys cong: tbind_cong_weak)

definition prefix_goes :: "(upquery \<Rightarrow> step_end) \<Rightarrow> bool" where
  "prefix_goes ans = (\<forall>q. q \<noteq> CopyTo xui_binary \<and> q \<noteq> WriteResult ''success'' \<and> q \<noteq> RemoveFile ''/usr/local/bin/aimili'' \<longrightarrow> ans q = Went)"

lemma prefix_goesD [simp]: "prefix_goes ans \<Longrightarrow> ans (WriteProgress p) = Went" "prefix_goes ans \<Longrightarrow> ans StopServices = Went"
  "prefix_goes ans \<Longrightarrow> ans StartServices = Went" "prefix_goes ans \<Longrightarrow> ans WaitHealth = Went" "prefix_goes ans \<Longrightarrow> ans ReadDatabases = Went"
  "prefix_goes ans \<Longrightarrow> ans ServiceUnit = Went" "prefix_goes ans \<Longrightarrow> ans VersionCommand = Went" "prefix_goes ans \<Longrightarrow> ans (SaveFile p) = Went"
  "prefix_goes ans \<Longrightarrow> ans SaveTree = Went" "prefix_goes ans \<Longrightarrow> ans MakeSnapshot = Went" "prefix_goes ans \<Longrightarrow> ans (WritePrivate p) = Went"
  "prefix_goes ans \<Longrightarrow> ans WriteActive = Went" "prefix_goes ans \<Longrightarrow> ans RemoveActive = Went" "prefix_goes ans \<Longrightarrow> p \<noteq> xui_binary \<Longrightarrow> ans (CopyTo p) = Went"
  by (auto simp: prefix_goes_def)

lemma demo_staged:
  assumes "prefix_goes ans"
  shows "install_request demo_env (demo_outside ans) demo_request demo_run demo_start =
    apply_update demo_env (demo_outside ans) demo_request demo_run ''v1.1.0-vps'' demo_manifest (demo_start\<lparr>up_private := demo_private\<rparr>)"
proof -
  have p: "up_private demo_start = []" by (simp add: demo_world_def)
  have f: "file_of (demo_start\<lparr>up_private := p\<rparr>) t = file_of demo_start t" for p t by (simp add: file_of_def)
  show ?thesis
    using assms demo_lengths
    by (simp add: install_request_def install_ready_def install_release_def install_apply_def ready_json_def copy_stage_def put_private_def
        run_simps demo_stage demo_read need_dict_def demo_ready_keys demo_keys demo_verified_step demo_current_step demo_start_files p f
        demo_assessed demo_newer demo_take_assets progress_def Let_def demo_private_def
        cong: tbind_cong_weak)
qed

definition demo_journal :: journal where
  "demo_journal = new_journal demo_request demo_run ''same''"

definition demo_stopping :: "unit updworld" where
  "demo_stopping = demo_start\<lparr>up_private := demo_private, up_packages := [(demo_run, demo_package)], up_snapshots := [demo_run],
     up_local := Some demo_journal, up_active := Some demo_journal\<rparr>"

lemma demo_env_simps: "e_sound demo_env c = Some True" "e_ident demo_env a b = Some ''same''" "e_version demo_env d = Some demo_output"
  "e_members demo_env d = Some demo_members"
  by (simp_all add: demo_env_def)

lemma demo_config_keys: "dget_or [(''databasePath'', PStr p)] ''databasePath'' d = PStr p"
  by (simp add: dget_or_def dget_def)

lemma demo_output_keys: "dgetN [(''commit'', c), (''version'', v)] ''commit'' = c" "dgetN [(''commit'', c), (''version'', v)] ''version'' = v"
  "dgetN demo_manifest ''gatewayCommit'' = PStr (replicate 40 CHR ''c'')"
  by (simp_all add: dget_or_def dget_def demo_manifest_def)

lemma demo_database_checks:
  assumes "prefix_goes ans"
  shows "quick_check demo_env (demo_outside ans) w = (Inr (), w)" "identities demo_env (demo_outside ans) w = (Inr ''same'', w)"
  using assms by (simp_all add: quick_check_def identities_def run_simps demo_env_simps cong: tbind_cong_weak tfor_cong_weak)

lemma demo_checks:
  assumes "prefix_goes ans" "file_of w config_path = Some demo_config"
  shows "check_layout demo_env (demo_outside ans) w = (Inr (), w)"
    and "check_version demo_env (demo_outside ans) demo_request demo_manifest (Some b) w = (Inr (), w)"
  using assms
  by (simp_all add: check_layout_def demo_database_checks demo_read need_dict_def demo_config_keys check_version_def run_simps demo_env_simps
      demo_loads demo_output_keys demo_keys cong: tbind_cong_weak)

lemma demo_pairs_installed:
  "map_of (up_packages w) demo_run = Some demo_package \<Longrightarrow> map_of (up_private w) (demo_run, ''x-ui-custom-linux-amd64'') = Some ''new''
   \<Longrightarrow> pairs_to_install demo_run w = (Inr demo_pairs, w)"
  by (simp add: pairs_to_install_def run_simps package_of_def private_of_def demo_plan demo_pairs_def cong: tbind_cong_weak)

lemma demo_prepared:
  assumes "prefix_goes ans"
  shows "apply_update demo_env (demo_outside ans) demo_request demo_run ''v1.1.0-vps'' demo_manifest (demo_start\<lparr>up_private := demo_private\<rparr>)
    = trescue caught (switch_files demo_env (demo_outside ans) demo_run ''v1.1.0-vps'' demo_pairs ''same'')
        (switch_failed demo_env (demo_outside ans) demo_run) demo_stopping"
proof -
  have f: "file_of (demo_start\<lparr>up_private := p\<rparr>) t = file_of demo_start t"
     "file_of (demo_start\<lparr>up_private := p, up_packages := q\<rparr>) t = file_of demo_start t" 
     "file_of (demo_start\<lparr>up_private := p, up_packages := q, up_snapshots := s, up_saved := u\<rparr>) t = file_of demo_start t" for p q s t u
    by (simp_all add: file_of_def)
  have s: "up_packages demo_start = []" "up_snapshots demo_start = []" "up_saved demo_start = []" by (simp_all add: demo_world_def)
  have b: "map_of demo_pairs ''/usr/local/bin/aimili-gateway'' = Some ''new''" by (simp add: demo_pairs_def demo_targets_def)
  have sav: "demo_start\<lparr>up_private := p, up_packages := q, up_snapshots := s, up_saved := [], up_local := l, up_active := l\<rparr>
     = demo_start\<lparr>up_private := p, up_packages := q, up_snapshots := s, up_local := l, up_active := l\<rparr>" for p q s l
    by (simp add: demo_world_def)
  show ?thesis
    using assms
    by (simp add: apply_update_def run_simps demo_checks demo_database_checks f demo_start_files extract_package_def private_of_def package_of_def s demo_private_def
        demo_env_simps demo_unpacked demo_pairs_installed b make_snapshot_def write_active_def progress_def sav demo_stopping_def demo_journal_def
        cong: tbind_cong_weak trescue_cong_weak)
qed

definition demo_entries :: "(string \<times> nat option) list" where
  "demo_entries = (''/usr/local/bin/aimili-gateway'', Some 0) # map (\<lambda>p. (p, None)) (tl demo_targets @ [xui_binary])
     @ [(config_path, Some 7), (gateway_db, Some 8), (xui_db, Some 9), (current_path, Some 10)]"

definition demo_saved :: "((string \<times> nat) \<times> string) list" where
  "demo_saved = [((demo_run, 0), ''old''), ((demo_run, 7), demo_config), ((demo_run, 8), ''rows''), ((demo_run, 9), ''rows''),
     ((demo_run, 10), version_document ''v1.0.0-vps'')]"

definition demo_ready_to_copy :: "unit updworld" where
  "demo_ready_to_copy = demo_stopping\<lparr>up_running := False, up_saved := demo_saved, up_trees := [(demo_run, [])],
     up_local := Some (demo_journal\<lparr>j_files := demo_entries, j_phase := ''installing''\<rparr>),
     up_active := Some (demo_journal\<lparr>j_files := demo_entries, j_phase := ''installing''\<rparr>)\<rparr>"

lemmas demo_paths = config_path_def gateway_db_def xui_db_def current_path_def xui_binary_def demo_targets_def egress_dir_def

lemma demo_old_lookup:
  "map_of demo_old_files ''/usr/local/bin/aimili-gateway'' = Some ''old''" "\<forall>p \<in> set (tl demo_targets @ [xui_binary]). map_of demo_old_files p = None"
  "map_of demo_old_files config_path = Some demo_config" "map_of demo_old_files gateway_db = Some ''rows''"
  "map_of demo_old_files xui_db = Some ''rows''" "map_of demo_old_files current_path = Some (version_document ''v1.0.0-vps'')"
  by (simp_all add: demo_old_files_def demo_paths)

lemma demo_targets_indexed:
  "enumerate 0 (targets_of demo_pairs) = (0, ''/usr/local/bin/aimili-gateway'') # enumerate 1 (tl demo_targets @ [xui_binary])
     @ [(7, config_path), (8, gateway_db), (9, xui_db), (10, current_path)]"
  by (simp add: targets_of_def demo_pairs_def demo_targets_def)

lemma demo_no_tree: "egress_tree (demo_stopping\<lparr>up_running := r, up_saved := s, up_local := l\<rparr>) = []"
  by (simp add: egress_tree_def demo_stopping_def demo_world_def demo_old_files_def demo_paths starts_with_def)

lemma demo_save_present:
  "prefix_goes ans \<Longrightarrow> file_of w t = Some s \<Longrightarrow> up_local w = Some j \<Longrightarrow> save_target (demo_outside ans) run (i, t) w =
    (Inr (), w\<lparr>up_saved := AList.update (run, i) s (up_saved w), up_local := Some (j\<lparr>j_files := j_files j @ [(t, Some i)]\<rparr>)\<rparr>)"
  by (simp add: save_target_def run_simps saved_file_def change_local_def update_conv' cong: tbind_cong_weak)

lemma demo_save_absent:
  "file_of w t = None \<Longrightarrow> map_of (up_saved w) (run, i) = None \<Longrightarrow> up_local w = Some j \<Longrightarrow> save_target (demo_outside ans) run (i, t) w =
    (Inr (), w\<lparr>up_local := Some (j\<lparr>j_files := j_files j @ [(t, None)]\<rparr>)\<rparr>)"
  by (simp add: save_target_def run_simps saved_file_def change_local_def cong: tbind_cong_weak)

lemma demo_save_absents:
  "\<forall>t \<in> set ts. map_of (up_fs w) t = None \<Longrightarrow> \<forall>i. n \<le> i \<longrightarrow> map_of (up_saved w) (run, i) = None \<Longrightarrow> up_local w = Some j \<Longrightarrow>
    tfor (enumerate n ts @ rest) (save_target (demo_outside ans) run) w
    = tfor rest (save_target (demo_outside ans) run) (w\<lparr>up_local := Some (j\<lparr>j_files := j_files j @ map (\<lambda>p. (p, None)) ts\<rparr>)\<rparr>)"
proof (induction ts arbitrary: n w j)
  case Nil
  then have "w\<lparr>up_local := Some j\<rparr> = w" by (cases w) simp
  then show ?case by simp
next
  case (Cons t ts)
  then show ?case by (simp add: run_simps demo_save_absent file_of_def)
qed

lemma demo_stopping_fields: "up_fs demo_stopping = demo_old_files" "up_saved demo_stopping = []" "up_local demo_stopping = Some demo_journal"
  "up_active demo_stopping = Some demo_journal" "up_private demo_stopping = demo_private" "up_trees demo_stopping = []" "up_results demo_stopping = []"
  by (simp_all add: demo_stopping_def demo_world_def)

lemma demo_switch_starts:
  assumes "prefix_goes ans"
  shows "switch_files demo_env (demo_outside ans) demo_run ''v1.1.0-vps'' demo_pairs ''same'' demo_stopping =
    tbind (copy_all (demo_outside ans) demo_pairs) (\<lambda>_.
     tbind (rewrite_config (demo_outside ans) demo_run) (\<lambda>_.
     tbind (progress (demo_outside ans) ''restart'') (\<lambda>_.
     tbind (start_services (demo_outside ans)) (\<lambda>_. tbind (wait_health (demo_outside ans)) (\<lambda>_. tbind (quick_check demo_env (demo_outside ans)) (\<lambda>_.
     tbind (progress (demo_outside ans) ''identities'') (\<lambda>_.
     tbind (identities demo_env (demo_outside ans)) (\<lambda>i. tbind (uguard (i = ''same'') ''identity_changed'') (\<lambda>_.
     tbind (write_current (demo_outside ans) ''v1.1.0-vps'') (\<lambda>_.
     tbind (finish (demo_outside ans) demo_run ''success'' []) (\<lambda>_. remove_active (demo_outside ans)))))))))))) demo_ready_to_copy"
proof -
  have j: "j_files demo_journal = []" by (simp add: demo_journal_def new_journal_def)
  have cfg: "file_of (demo_stopping\<lparr>up_running := False\<rparr>) config_path = Some demo_config"
    by (simp add: file_of_def demo_stopping_fields demo_old_lookup)
  have all: "save_all demo_env (demo_outside ans) demo_run demo_pairs demo_stopping = (Inr (), demo_stopping\<lparr>up_running := False,
     up_saved := demo_saved, up_trees := [(demo_run, [])], up_local := Some (demo_journal\<lparr>j_files := demo_entries\<rparr>)\<rparr>)"
    using assms
    by (simp add: save_all_def run_simps stop_services_def demo_checks demo_database_checks cfg demo_targets_indexed demo_save_present demo_save_absents
        demo_stopping_fields demo_old_lookup file_of_def save_tree_def demo_no_tree demo_saved_def demo_entries_def j
        cong: tbind_cong_weak tfor_cong_weak)
  let ?w = "demo_stopping\<lparr>up_running := False, up_saved := demo_saved, up_trees := [(demo_run, [])],
     up_local := Some (demo_journal\<lparr>j_files := demo_entries, j_phase := ''installing''\<rparr>)\<rparr>"
  have phase: "change_local (\<lambda>j. j\<lparr>j_phase := ''installing''\<rparr>) (demo_stopping\<lparr>up_running := False,
     up_saved := demo_saved, up_trees := [(demo_run, [])], up_local := Some (demo_journal\<lparr>j_files := demo_entries\<rparr>)\<rparr>) = (Inr (), ?w)"
    by (simp add: change_local_def tput_def)
  have active: "write_active (demo_outside ans) ?w = (Inr (), demo_ready_to_copy)"
    using assms by (simp add: write_active_def demo_ustep demo_ready_to_copy_def)
  have prog: "progress (demo_outside ans) ''install'' demo_ready_to_copy = (Inr (), demo_ready_to_copy)"
    using assms by (simp add: progress_def demo_ustep)
  show ?thesis
    unfolding switch_files_def by (simp only: tbind_def all phase active prog prod.case sum.case)
qed

definition kill_ans :: "upquery \<Rightarrow> step_end" where
  "kill_ans q = (if q = CopyTo xui_binary then Died False else Went)"

definition break_ans :: "upquery \<Rightarrow> step_end" where
  "break_ans q = (if q = WriteResult ''success'' then Broke True else if q = RemoveFile ''/usr/local/bin/aimili'' then Died False else Went)"

lemma demo_prefixes: "prefix_goes kill_ans" "prefix_goes break_ans" "prefix_goes (\<lambda>_. Went)"
  by (auto simp: prefix_goes_def kill_ans_def break_ans_def)

definition demo_copied_files :: "(string \<times> string) list" where
  "demo_copied_files = [(config_path, demo_config), (current_path, version_document ''v1.0.0-vps''), (gateway_db, ''rows''), (xui_db, ''rows''),
     (''/usr/local/bin/aimili-gateway'', ''new'')] @ map (\<lambda>p. (p, ''new'')) (tl demo_targets)"

lemma demo_ready_fields: "up_fs demo_ready_to_copy = demo_old_files" by (simp add: demo_ready_to_copy_def demo_stopping_fields)

lemmas demo_copy_defs = copy_all_def demo_pairs_def copy_atomic_def put_file_def put_path_def demo_ready_fields demo_old_files_def
  demo_copied_files_def demo_paths

lemma demo_copy_killed:
  "copy_all (demo_outside kill_ans) demo_pairs demo_ready_to_copy = (Inl Killed, demo_ready_to_copy\<lparr>up_fs := demo_copied_files\<rparr>)"
  by (simp add: demo_copy_defs run_simps kill_ans_def cong: tbind_cong_weak tfor_cong_weak)

definition demo_all_copied :: "unit updworld" where
  "demo_all_copied = demo_ready_to_copy\<lparr>up_fs := demo_copied_files @ [(xui_binary, ''new'')]\<rparr>"

lemma demo_copy_done: "copy_all (demo_outside break_ans) demo_pairs demo_ready_to_copy = (Inr (), demo_all_copied)"
  by (simp add: demo_copy_defs demo_all_copied_def run_simps break_ans_def cong: tbind_cong_weak tfor_cong_weak)

definition demo_killed :: "unit updworld" where
  "demo_killed = demo_ready_to_copy\<lparr>up_fs := demo_copied_files\<rparr>"

lemma demo_run_killed: "main_install demo_env (demo_outside kill_ans) demo_start = (Inl Killed, demo_killed)"
proof -
  have "trescue caught (switch_files demo_env (demo_outside kill_ans) demo_run ''v1.1.0-vps'' demo_pairs ''same'')
      (switch_failed demo_env (demo_outside kill_ans) demo_run) demo_stopping = (Inl Killed, demo_killed)"
    by (simp add: trescue_run demo_switch_starts demo_prefixes tbind_def demo_copy_killed caught_def demo_killed_def cong: tbind_cong_weak)
  then show ?thesis
    by (simp add: demo_request_served serve_request_def trescue_run demo_staged demo_prepared demo_prefixes caught_def
        cong: trescue_cong_weak)
qed

section \<open>The next run\<close>

definition demo_restored :: "unit updworld" where
  "demo_restored = demo_killed\<lparr>up_fs := demo_old_files, up_running := True, up_local := None, up_active := None,
     up_results := [(demo_run, ''rolled_back'', ''interrupted'')]\<rparr>"

lemma demo_killed_fields: "up_fs demo_killed = demo_copied_files" "up_saved demo_killed = demo_saved" "up_trees demo_killed = [(demo_run, [])]"
  "up_active demo_killed = Some (demo_journal\<lparr>j_files := demo_entries, j_phase := ''installing''\<rparr>)" "up_results demo_killed = []"
  by (simp_all add: demo_killed_def demo_ready_to_copy_def demo_stopping_def demo_world_def)

lemma demo_journal_fields: "j_run demo_journal = demo_run" "j_ids demo_journal = ''same''" "j_run (demo_journal\<lparr>j_files := f, j_phase := p\<rparr>) = demo_run"
  "j_ids (demo_journal\<lparr>j_files := f, j_phase := p\<rparr>) = ''same''"
  by (simp_all add: demo_journal_def new_journal_def)

lemma demo_saved_lookup: "map_of demo_saved (demo_run, 0) = Some ''old''" "map_of demo_saved (demo_run, 7) = Some demo_config"
  "map_of demo_saved (demo_run, 8) = Some ''rows''" "map_of demo_saved (demo_run, 9) = Some ''rows''"
  "map_of demo_saved (demo_run, 10) = Some (version_document ''v1.0.0-vps'')"
  by (simp_all add: demo_saved_def)

lemma demo_restore:
  "tfor demo_entries (restore_entry (demo_outside (\<lambda>_. Went)) demo_run) (demo_killed\<lparr>up_local := None, up_running := False\<rparr>)
    = (Inr (), demo_killed\<lparr>up_local := None, up_running := False, up_fs := demo_old_files\<rparr>)"
  by (simp add: demo_entries_def restore_entry_def run_simps saved_file_def demo_killed_fields demo_saved_lookup copy_atomic_def remove_file_def
      file_of_def put_file_def put_path_def demo_copied_files_def demo_old_files_def demo_paths cong: tbind_cong_weak tfor_cong_weak)

lemma demo_side_files: "file_of w ` set side_files \<subseteq> {None} \<Longrightarrow> tfor side_files (remove_file q) w = (Inr (), w)"
  by (simp add: side_files_def remove_file_def run_simps cong: tbind_cong_weak tfor_cong_weak)

lemma demo_side_files_old: "file_of (w\<lparr>up_fs := demo_old_files\<rparr>) ` set side_files \<subseteq> {None}"
  by (simp add: side_files_def file_of_def demo_old_files_def demo_paths)

lemma demo_run_recovered: "main_install demo_env (demo_outside (\<lambda>_. Went)) demo_killed = (Inr (), demo_restored)"
proof -
  let ?q = "demo_outside (\<lambda>_. Went)" and ?w = "demo_killed\<lparr>up_local := None\<rparr>"
  let ?j = "demo_journal\<lparr>j_files := demo_entries, j_phase := ''installing''\<rparr>"
  let ?v = "demo_killed\<lparr>up_local := None, up_running := False, up_fs := demo_old_files\<rparr>"
  have tree: "restore_tree ?q demo_run ?v = (Inr (), ?v)"
    by (simp add: restore_tree_def run_simps demo_killed_fields cong: tbind_cong_weak tfor_cong_weak)
  have run: "undo demo_env ?q ?j ?w = (Inr (), ?v\<lparr>up_running := True\<rparr>)"
    by (simp add: undo_def rollback_def run_simps stop_services_def start_services_def wait_health_def demo_restore demo_journal_fields
        demo_side_files demo_side_files_old tree demo_checks demo_database_checks demo_prefixes cong: tbind_cong_weak trescue_cong_weak)
  have r: "result_of demo_run ?w = None" "up_active (?v\<lparr>up_running := True, up_results := r\<rparr>) = Some ?j" "up_results ?v = []"
    "up_active ?w = Some ?j" for r
    by (simp_all add: result_of_def demo_killed_fields)
  show ?thesis
    by (simp add: main_install_def recover_run_def run_simps progress_def run r demo_journal_fields finish_def remove_active_def
        demo_killed_fields cong: tbind_cong_weak trescue_cong_weak)
      (simp add: demo_restored_def)
qed

section \<open>A publication reported as failed\<close>

definition demo_switched :: "unit updworld" where
  "demo_switched = demo_all_copied\<lparr>up_private := AList.update (demo_run, ''config.json'') demo_new_config demo_private,
     up_fs := (config_path, demo_new_config) # (current_path, version_document ''v1.1.0-vps'') # drop 2 (up_fs demo_all_copied),
     up_running := True, up_results := [(demo_run, ''success'', [])]\<rparr>"

lemma demo_all_copied_fields: "up_fs demo_all_copied = demo_copied_files @ [(xui_binary, ''new'')]" "up_private demo_all_copied = demo_private"
  "up_saved demo_all_copied = demo_saved" "up_results demo_all_copied = []"
  "up_local demo_all_copied = Some (demo_journal\<lparr>j_files := demo_entries, j_phase := ''installing''\<rparr>)"
  "up_active demo_all_copied = Some (demo_journal\<lparr>j_files := demo_entries, j_phase := ''installing''\<rparr>)"
  by (simp_all add: demo_all_copied_def demo_ready_to_copy_def demo_stopping_def demo_world_def)

lemma demo_rewritten: "rewrite_config (demo_outside break_ans) demo_run demo_all_copied = (Inr (),
   demo_all_copied\<lparr>up_private := AList.update (demo_run, ''config.json'') demo_new_config demo_private,
     up_fs := (config_path, demo_new_config) # tl (up_fs demo_all_copied)\<rparr>)"
proof -
  have "file_of demo_all_copied config_path = Some demo_config" "xui_binary \<noteq> config_path"
    by (simp_all add: file_of_def demo_all_copied_fields demo_copied_files_def demo_paths)
  then show ?thesis
    by (simp add: rewrite_config_def run_simps demo_read need_dict_def demo_prefixes demo_new_config_eq private_of_def update_conv'
        demo_all_copied_fields copy_atomic_def put_file_def put_path_def demo_copied_files_def cong: tbind_cong_weak del: json_dumps.simps)
qed

lemma demo_published: "switch_files demo_env (demo_outside break_ans) demo_run ''v1.1.0-vps'' demo_pairs ''same'' demo_stopping = (Inl OtherError, demo_switched)"
proof -
  have b: "break_ans (WriteResult ''success'') = Broke True" by (simp add: break_ans_def)
  have p: "xui_binary \<noteq> current_path" "current_path \<noteq> xui_binary" "config_path \<noteq> current_path" by (simp_all add: demo_paths)
  have cfg: "file_of (w\<lparr>up_fs := (config_path, demo_new_config) # fs\<rparr>) config_path = Some demo_new_config" for w :: "unit updworld" and fs
    by (simp add: file_of_def)
  show ?thesis
    by (simp add: demo_database_checks demo_switch_starts demo_prefixes run_simps demo_copy_done demo_rewritten progress_def start_services_def wait_health_def
        write_current_def put_file_def put_path_def finish_def b p demo_all_copied_fields demo_copied_files_def cong: tbind_cong_weak trescue_cong_weak)
      (simp add: demo_switched_def demo_all_copied_fields demo_copied_files_def)
qed

definition demo_half_back :: "unit updworld" where
  "demo_half_back = demo_switched\<lparr>up_running := False, up_fs := [(config_path, demo_new_config), (current_path, version_document ''v1.1.0-vps''),
     (gateway_db, ''rows''), (xui_db, ''rows''), (''/usr/local/bin/aimili-gateway'', ''old''), (''/usr/local/bin/aimili'', ''new''),
     (''/usr/lib/aimili-gateway/aimili_xui_protocol_transaction.py'', ''new''), (xui_binary, ''new'')]\<rparr>"

lemma demo_run_broken: "main_install demo_env (demo_outside break_ans) demo_start = (Inl Killed, demo_half_back)"
proof -
  let ?q = "demo_outside break_ans"
  let ?j = "demo_journal\<lparr>j_files := demo_entries, j_phase := ''installing''\<rparr>"
  have f: "up_local demo_switched = Some ?j" "up_saved demo_switched = demo_saved"
     "up_fs demo_switched = (config_path, demo_new_config) # (current_path, version_document ''v1.1.0-vps'') # drop 2 (demo_copied_files @ [(xui_binary, ''new'')])"
    by (simp_all add: demo_switched_def demo_all_copied_fields)
  have restoring: "tfor demo_entries (restore_entry ?q demo_run) (demo_switched\<lparr>up_running := False\<rparr>) = (Inl Killed, demo_half_back)"
    by (simp add: demo_entries_def restore_entry_def run_simps saved_file_def f demo_saved_lookup copy_atomic_def remove_file_def break_ans_def
        file_of_def put_file_def put_path_def demo_copied_files_def demo_half_back_def demo_paths cong: tbind_cong_weak tfor_cong_weak)
  have "undo demo_env ?q ?j demo_switched = (Inl Killed, demo_half_back)"
    by (simp add: undo_def rollback_def run_simps stop_services_def demo_prefixes demo_journal_fields restoring cong: tbind_cong_weak)
  then have "switch_failed demo_env ?q demo_run OtherError demo_switched = (Inl Killed, demo_half_back)"
    by (simp add: switch_failed_def run_simps f caught_def cong: tbind_cong_weak trescue_cong_weak)
  then have "trescue caught (switch_files demo_env ?q demo_run ''v1.1.0-vps'' demo_pairs ''same'') (switch_failed demo_env ?q demo_run) demo_stopping
      = (Inl Killed, demo_half_back)"
    by (simp add: trescue_run demo_published caught_def)
  then show ?thesis
    by (simp add: demo_request_served serve_request_def trescue_run [of _ "install_request _ _ _ _"] demo_staged demo_prepared demo_prefixes caught_def
        cong: trescue_cong_weak)
qed

lemma demo_run_mixed: "main_install demo_env (demo_outside (\<lambda>_. Went)) demo_half_back
   = (Inr (), demo_half_back\<lparr>up_local := None, up_active := None\<rparr>)"
proof -
  have "up_active demo_half_back = Some (demo_journal\<lparr>j_files := demo_entries, j_phase := ''installing''\<rparr>)"
    "up_results demo_half_back = [(demo_run, ''success'', [])]"
    by (simp_all add: demo_half_back_def demo_switched_def demo_all_copied_fields)
  then show ?thesis
    by (simp add: main_install_def recover_run_def run_simps result_of_def demo_journal_fields remove_active_def cong: tbind_cong_weak)
qed
end
