(* ===== verification/Update_Claims.thy ===== *)
theory Update_Claims
  imports Update_Example
begin

text \<open>
  What the updater promises: no mixture of two versions, a journal that leads back, and the case in
  which the promise fails.
\<close>

section \<open>Every history of runs\<close>

text \<open>C4. However the runs of the updater end, failed or killed at any step, a host without an open
  update has the program it started with or one that a signed and newer release installed
  completely: no mixture of two versions is left behind. The histories are those in which every run settles
  (a premise of update_history): publishing the result of success does not fail after the result was written, and
  removing the journal does not fail (either may be cut off by a kill). Without that the claim is
  false: the runs of the last section end in a mixture.\<close>

theorem program_never_mixed:
  assumes "update_history e P0 w" "up_active w = None"
  shows "intact e P0 (program w)"
  using update_history_whole [OF assms(1)] assms(2) by (simp add: seen_def whole_def view_of_def)

text \<open>C11. While an update is open, its journal leads back: in the phase of the installation every
  file of the program that differs from an intact program is in the journal, and what the journal saved of it
  is that program's file; in every other phase the program is intact. This too is over histories in which every
  run settles: publishing the result of success does not fail after it was written, and removing the
  journal does not fail. After a late failure of either, the host may hold a mixture of versions
  (the runs of the last section), and the next update opens its journal on that mixture.\<close>

theorem open_update_recoverable:
  assumes "update_history e P0 w" "up_active w = Some j"
  shows "if j_phase j = ''installing'' then \<exists>P. intact e P0 P
      \<and> (\<forall>(t, ix) \<in> set (j_files j). program_path t \<longrightarrow> saved_value (view_of w) (j_run j) ix = P t)
      \<and> (\<forall>p. p \<notin> fst ` set (j_files j) \<longrightarrow> program w p = P p)
    else intact e P0 (program w)"
  using update_history_whole [OF assms(1)] assms(2)
  by (auto simp: seen_def whole_def recoverable_def matches_def near_def targets_def view_of_def)

section \<open>Two runs\<close>

lemma demo_history: "update_history demo_env (program demo_start) demo_start"
  by (rule update_history.fresh) (simp_all add: demo_world_def)

lemma demo_killed_history: "update_history demo_env (program demo_start) demo_killed"
  by (rule update_history.runs [OF demo_history _ demo_run_killed]) (auto simp: settles_def demo_outside_def kill_ans_def)

text \<open>The release is applied, the process dies while the panel's binary is copied, and the next run
  restores the old version.\<close>

theorem program_never_mixed_witness: "intact demo_env (program demo_start) (program demo_restored)"
proof (rule program_never_mixed)
  show "update_history demo_env (program demo_start) demo_restored"
    by (rule update_history.runs [OF demo_killed_history _ demo_run_recovered]) (simp add: settles_def demo_outside_def)
qed (simp add: demo_restored_def)

theorem open_update_recoverable_witness:
  "\<exists>P. intact demo_env (program demo_start) P
     \<and> (\<forall>(t, ix) \<in> set demo_entries. program_path t \<longrightarrow> saved_value (view_of demo_killed) demo_run ix = P t)
     \<and> (\<forall>p. p \<notin> fst ` set demo_entries \<longrightarrow> program demo_killed p = P p)"
  using open_update_recoverable [OF demo_killed_history demo_killed_fields(4)] by (simp add: demo_journal_fields)

section \<open>What an unpacked package holds\<close>

lemma extract_keeps:
  "extract_members sn b dirs files ms = (None, files') \<Longrightarrow> map_of files p = Some c \<Longrightarrow> map_of files' p = Some c"
proof (induction sn b dirs files ms rule: extract_members.induct)
  case (2 sn b dirs files m ms)
  note IH = "2.IH"(1) [OF refl refl] "2.IH"(2) [OF refl refl]
  show ?case
    using "2.prems" IH
    by (cases "p = rel_path (path_parts (m_name m))") (auto simp: Let_def update_conv' split: if_splits)
qed simp

lemma extract_holds:
  "extract_members sn b dirs files ms = (None, files') \<Longrightarrow> m \<in> set ms \<Longrightarrow> m_kind m \<noteq> Directory
    \<Longrightarrow> map_of files' (rel_path (path_parts (m_name m))) = Some (m_data m)"
proof (induction sn b dirs files ms rule: extract_members.induct)
  case (2 sn b dirs files n ms)
  note IH = "2.IH"(1) [OF refl refl] "2.IH"(2) [OF refl refl]
  have first: "extract_members sn' b' dirs' (AList.update p c files) ms = (None, files') \<Longrightarrow> map_of files' p = Some c" for sn' b' dirs' p c
    by (rule extract_keeps) (auto simp: update_conv')
  show ?case
    using "2.prems" IH first by (auto simp: Let_def simp del: set_append split: if_splits)
qed simp

lemma put_all_other: "t \<notin> fst ` set pairs \<Longrightarrow> put_all pairs P t = P t"
proof (induction pairs arbitrary: P)
  case (Cons x pairs)
  obtain u c where x: "x = (u, c)" by force
  with Cons.prems have "prog_put u (Some c) P t = P t" by (auto simp: prog_put_def)
  with Cons x show ?case by (simp add: put_all_def)
qed (simp add: put_all_def)

lemma put_all_first: "program_path t \<Longrightarrow> t \<notin> fst ` set pairs \<Longrightarrow> put_all ((t, c) # pairs) P t = Some c"
  using put_all_other [of t pairs "prog_put t (Some c) P"] by (simp add: put_all_def) (simp add: prog_put_def)

lemma gateway_path [simp]: "program_path ''/usr/local/bin/aimili-gateway''"
  by (simp add: program_path_def service_path_def side_files_def gateway_db_def xui_db_def egress_dir_def slots_dir_def starts_with_def)

lemma demo_release_gateway:
  assumes "release_plan demo_env m pairs"
  shows "put_all pairs P ''/usr/local/bin/aimili-gateway'' = Some ''new''"
proof -
  let ?gw = "''/usr/local/bin/aimili-gateway''"
  obtain old package plan x where r: "extract_members [] 0 [] old demo_members = (None, package)" "install_plan package = Some plan"
    "pairs = plan @ [(xui_binary, x)]"
    using assms by (auto simp: release_plan_def demo_env_simps)
  have "map_of package (rel_path (path_parts (m_name (hd demo_members)))) = Some (m_data (hd demo_members))"
    by (rule extract_holds [OF r(1)]) (simp_all add: demo_members_def demo_sources_def)
  moreover have "rel_path (path_parts ''bin/aimili-gateway'') = ''bin/aimili-gateway''" by code_simp
  ultimately have new: "map_of package ''bin/aimili-gateway'' = Some ''new''" by (simp add: demo_members_def demo_sources_def)
  define rest where "rest = map (\<lambda>(src, t). (t, case map_of package src of Some c \<Rightarrow> c | None \<Rightarrow> [])) (tl (plan_paths package)) @ [(xui_binary, x)]"
  have "pairs = (?gw, ''new'') # rest"
    using r(2,3) new by (auto simp: install_plan_def plan_paths_def rest_def split: if_splits)
  moreover have "?gw \<notin> fst ` set rest"
    by (auto simp: rest_def plan_paths_def xui_binary_def)
  ultimately show ?thesis using put_all_first [OF gateway_path] by simp
qed

section \<open>A failure that is reported late\<close>

text \<open>What every intact program of the example satisfies.\<close>

definition demo_sane :: "program \<Rightarrow> bool" where
  "demo_sane P = ((P ''/usr/local/bin/aimili-gateway'' = Some ''old'' \<and> current_of P = Some (PStr ''v1.0.0-vps''))
     \<or> P ''/usr/local/bin/aimili-gateway'' = Some ''new'')"

lemma demo_intact_sane: "intact demo_env (program demo_start) P \<Longrightarrow> demo_sane P"
proof (induction rule: intact.induct)
  case start
  have "program demo_start ''/usr/local/bin/aimili-gateway'' = Some ''old''"
    by (simp add: program_def file_of_def demo_world_def demo_old_lookup)
  moreover have "current_of (program demo_start) = Some (PStr ''v1.0.0-vps'')"
    by (simp add: current_of_def program_def demo_start_files demo_loads demo_ready_keys)
  ultimately show ?case by (simp add: demo_sane_def)
next
  case (update P pairs m v cur cfg)
  have "config_path \<noteq> ''/usr/local/bin/aimili-gateway''" "current_path \<noteq> ''/usr/local/bin/aimili-gateway''"
    by (simp_all add: config_path_def current_path_def)
  then show ?case using demo_release_gateway [OF update.hyps(2)] by (simp add: demo_sane_def installed_def prog_put_def)
next
  case (confirm P v)
  have "current_path \<noteq> ''/usr/local/bin/aimili-gateway''" by (simp add: current_path_def)
  moreover have "v = ''v1.0.0-vps'' \<Longrightarrow> current_of (prog_put current_path (Some (version_document v)) P) = Some (PStr v)"
    by (simp add: current_of_def prog_put_def demo_loads demo_ready_keys)
  ultimately show ?case using confirm by (auto simp: demo_sane_def) (simp_all add: prog_put_def)
qed

text \<open>C38. When the success was published and the publication is then reported as failed, the handler rolls
  back under a result of success. A kill in the middle of it and one further run leave a host
  without an open update whose program is no intact version.\<close>

theorem late_failure_mixes_versions:
  "\<exists>w w'. main_install demo_env (demo_outside break_ans) demo_start = (Inl Killed, w)
     \<and> main_install demo_env (demo_outside (\<lambda>_. Went)) w = (Inr (), w')
     \<and> up_active w' = None \<and> \<not> intact demo_env (program demo_start) (program w')"
proof -
  let ?w = "demo_half_back\<lparr>up_local := None, up_active := None\<rparr>"
  have "file_of ?w current_path = Some (version_document ''v1.1.0-vps'')" "file_of ?w ''/usr/local/bin/aimili-gateway'' = Some ''old''"
    by (simp_all add: file_of_def demo_half_back_def demo_paths)
  then have "\<not> demo_sane (program ?w)"
    by (simp add: demo_sane_def program_def current_of_def demo_loads demo_ready_keys)
  then show ?thesis using demo_run_broken demo_run_mixed demo_intact_sane by fastforce
qed

end
