(* ===== verification/Pool_World.thy ===== *)
theory Pool_World
  imports Node_Select Capacity Egress_Repair Effects
begin

text \<open>
  What the maintenance of the pool works on: the node file with its list of failed candidates, the
  files with the country catalog and the metadata of the pool, the state of the refresh that the
  panel shows, and the maintenance lock. A \<open>pool_view\<close> is what the rest of the manager
  answers at a moment; the views, the outcomes of the writes and the answers of the probes follow
  the questions asked (\<open>pw_tick\<close>), so nothing is assumed about how they change in between. The
  texts of messages are \<open>pe_reason\<close>; \<open>pe_rows\<close> is the download of the catalog with its CSV parser, \<open>pe_decode\<close>
  the base64 decoder, \<open>pe_translate\<close> the table of country names. The configured sizes are those of one run.
\<close>

record pool_view =
  pv_clock :: rat
  pv_monotonic :: rat
  pv_facts :: host_facts
  pv_stock :: stock
  pv_repair :: disk
  pv_standby_indices :: "int list"
  pv_standby_rows :: "pydict list"
  pv_assignment_requested :: bool
  pv_refresh_requested :: bool
  pv_background_allowed :: bool

record pool_env =
  pe_view :: "nat \<Rightarrow> pool_view"
  pe_written :: "nat \<Rightarrow> bool"
  pe_probe :: "nat \<Rightarrow> pydict list \<Rightarrow> pyexc + pydict list"
  pe_rows :: "nat \<Rightarrow> pyexc + pydict list"
  pe_decode :: "string \<Rightarrow> string option"
  pe_translate :: "string \<Rightarrow> string option"
  pe_directory :: string
  pe_absent :: "nat \<Rightarrow> pydict \<Rightarrow> bool"
  pe_slots :: int
  pe_target :: int
  pe_limit :: int
  pe_batch :: int
  pe_workers :: int
  pe_fetch_rows :: int
  pe_freshness :: int
  pe_cooldown :: rat
  pe_reason :: string

text \<open>\<open>pw_probes\<close> records the nodes handed to the probes with the answers.\<close>

record pool_world =
  pw_store :: node_store
  pw_catalog :: pyval
  pw_metadata :: pyval
  pw_refresh :: pydict
  pw_maintenance :: bool
  pw_probes :: "(pydict list \<times> pydict list) list"
  pw_tick :: nat

type_synonym 'a pooled = "(pool_world, pyexc, 'a) eff"

section \<open>Questions and writes\<close>

definition ticked :: "pool_world \<Rightarrow> pool_world" where
  "ticked w = w\<lparr>pw_tick := Suc (pw_tick w)\<rparr>"

definition answered :: "(nat \<Rightarrow> 'a) \<Rightarrow> 'a pooled" where
  "answered f w = (Inr (f (pw_tick w)), ticked w)"

definition asked :: "pool_env \<Rightarrow> (pool_view \<Rightarrow> 'a) \<Rightarrow> 'a pooled" where
  "asked env f = answered (\<lambda>n. f (pe_view env n))"

text \<open>\<open>write_json\<close> replaces a file as a whole or raises.\<close>

definition written :: "pool_env \<Rightarrow> (pool_world \<Rightarrow> pool_world) \<Rightarrow> unit pooled" where
  "written env change = tbind (answered (pe_written env)) (\<lambda>ok. if ok then tput change else traise OSError)"

definition on_store :: "pool_env \<Rightarrow> (rat \<Rightarrow> bool \<Rightarrow> node_store \<Rightarrow> pyexc + 'a \<times> node_store) \<Rightarrow> 'a pooled" where
  "on_store env f w =
     (case f (pv_clock (pe_view env (pw_tick w))) (pe_written env (pw_tick w)) (pw_store w) of
        Inl e \<Rightarrow> (Inl e, ticked w)
      | Inr (a, st) \<Rightarrow> (Inr a, (ticked w)\<lparr>pw_store := st\<rparr>))"

definition load_black :: "pool_env \<Rightarrow> pydict pooled" where
  "load_black env = on_store env load_blacklist"

definition nodes_now :: "pool_env \<Rightarrow> pydict list pooled" where
  "nodes_now env = on_store env read_nodes"

definition store_black :: "pool_env \<Rightarrow> pydict \<Rightarrow> unit pooled" where
  "store_black env d = written env (pw_store_update (stored_blacklist_update (\<lambda>_. PDict d)))"

definition store_nodes :: "pool_env \<Rightarrow> pydict list \<Rightarrow> unit pooled" where
  "store_nodes env nodes = written env (pw_store_update (stored_nodes_update (\<lambda>_. PList (map PDict nodes))))"

text \<open>The loaded list of failed candidates as the pool functions read it.\<close>

definition black_rows :: "pydict \<Rightarrow> string \<Rightarrow> pydict option" where
  "black_rows d k = (case dget d k of Some (PDict row) \<Rightarrow> Some row | _ \<Rightarrow> None)"

section \<open>Metadata of the pool\<close>

definition default_pool_metadata :: pydict where
  "default_pool_metadata =
     [(''schemaVersion'', PInt 1), (''maintenanceRound'', PInt 0), (''manualProtectedIds'', PList []),
      (''manualProtectionExpiresRound'', PInt 0), (''officialCandidateCount'', PInt 0),
      (''officialCountryCount'', PInt 0), (''observedAt'', PFloat (Fin 0)), (''lastRefresh'', PDict [])]"

definition known_metadata :: "pydict \<Rightarrow> pydict" where
  "known_metadata raw = map (\<lambda>(k, v). (k, dget_or raw k v)) default_pool_metadata"

fun is_list :: "pyval \<Rightarrow> bool" where
  "is_list (PList _) = True"
| "is_list _ = False"

fun is_dict :: "pyval \<Rightarrow> bool" where
  "is_dict (PDict _) = True"
| "is_dict _ = False"

definition repair_metadata :: "pydict \<Rightarrow> pydict" where
  "repair_metadata d =
     (let d = (if is_list (dgetN d ''manualProtectedIds'') then d else dset d ''manualProtectedIds'' (PList []))
      in if is_dict (dgetN d ''lastRefresh'') then d else dset d ''lastRefresh'' (PDict []))"

definition load_pool_metadata :: "pyval \<Rightarrow> pydict" where
  "load_pool_metadata file = (case file of
     PDict raw \<Rightarrow> if py_eq (dgetN raw ''schemaVersion'') (PInt 1) then repair_metadata (known_metadata raw)
       else default_pool_metadata
   | _ \<Rightarrow> default_pool_metadata)"

definition store_pool_metadata :: "pool_env \<Rightarrow> pydict \<Rightarrow> unit pooled" where
  "store_pool_metadata env metadata = written env (pw_metadata_update (\<lambda>_. PDict (known_metadata metadata)))"

section \<open>The state of a refresh\<close>

definition set_country_refresh :: "pydict \<Rightarrow> unit pooled" where
  "set_country_refresh updates = tput (pw_refresh_update (\<lambda>d. dupdate d updates))"

definition replace_country_refresh :: "pydict \<Rightarrow> unit pooled" where
  "replace_country_refresh values = tput (pw_refresh_update (\<lambda>_. dupdate [] values))"

section \<open>Whom the pool serves\<close>

definition repair_status :: "pool_view \<Rightarrow> string \<Rightarrow> pyval" where
  "repair_status v key = dgetN (get_row (pv_repair v) key) ''status''"

definition repair_keys :: "pool_env \<Rightarrow> pool_view \<Rightarrow> string list" where
  "repair_keys env v = ''main'' # map (\<lambda>i. ''slot:'' @ int_str i) (upto 0 (pe_slots env - 1))
     @ map (\<lambda>i. ''standby:'' @ int_str i) (pv_standby_indices v)"

definition row_candidates :: "pydict \<Rightarrow> string list" where
  "row_candidates row = filter (\<lambda>c. c \<noteq> [])
     (map (\<lambda>field. py_strip (str_or_empty (dgetN row field))) [''failed_candidate_id'', ''replacement_candidate_id''])"

definition manual_required_candidate_ids :: "pool_env \<Rightarrow> pool_view \<Rightarrow> string set" where
  "manual_required_candidate_ids env v = set (concat (map (\<lambda>key.
     if repair_status v key = PStr ''manual_required'' then row_candidates (get_row (pv_repair v) key) else [])
     (repair_keys env v)))"

definition pool_maintenance_should_yield :: "pool_view \<Rightarrow> bool" where
  "pool_maintenance_should_yield v =
     (pv_assignment_requested v \<or> pv_refresh_requested v
      \<or> repair_status v ''main'' = PStr ''waiting_standby''
        \<and> list_ex (\<lambda>row. dgetN row ''target'' = PStr ''main''
            \<and> repair_status v (''standby:'' @ py_str (dgetN row ''index'')) = PStr ''healthy'') (pv_standby_rows v))"

text \<open>\<open>protected_node_ids\<close> over a set of identifiers.\<close>

definition protected_set :: "pool_view \<Rightarrow> string set \<Rightarrow> string set" where
  "protected_set v ids = py_strip ` insert (su_main (pv_stock v)) ids - {[]}"

section \<open>Facts\<close>

lemma tbind_InrE:
  assumes "tbind m k w = (Inr b, w'')"
  obtains a w' where "m w = (Inr a, w')" "k a w' = (Inr b, w'')"
  using assms by (auto simp: tbind_def split: prod.splits sum.splits)

lemma protected_set_list: "protected_set v (set ids) = protected_node_ids (su_main (pv_stock v)) ids"
  by (simp add: protected_set_def protected_node_ids_def)

lemma known_metadata_keys: "map fst (known_metadata raw) = map fst default_pool_metadata"
  by (auto simp: known_metadata_def)

lemma known_metadata_idem: "known_metadata (known_metadata raw) = known_metadata raw"
  by (simp add: known_metadata_def default_pool_metadata_def)

text \<open>Loading is stable: what was loaded and stored again is loaded unchanged.\<close>

lemma load_known: "wf_dict (known_metadata raw)"
  unfolding wf_dict_def known_metadata_keys by (simp add: default_pool_metadata_def)

text \<open>Only a write of the nodes changes the node file.\<close>

definition nodes_are :: "pyval \<Rightarrow> pool_world \<Rightarrow> bool" where
  "nodes_are v w = (stored_nodes (pw_store w) = v)"

lemma nodes_are_simps [simp]:
  "nodes_are v (ticked w) = nodes_are v w"
  "nodes_are v (w\<lparr>pw_refresh := r\<rparr>) = nodes_are v w"
  "nodes_are v (w\<lparr>pw_catalog := c\<rparr>) = nodes_are v w"
  "nodes_are v (w\<lparr>pw_metadata := m\<rparr>) = nodes_are v w"
  "nodes_are v (w\<lparr>pw_maintenance := b\<rparr>) = nodes_are v w"
  "nodes_are v (w\<lparr>pw_probes := ps\<rparr>) = nodes_are v w"
  by (simp_all add: nodes_are_def ticked_def)

lemma load_blacklist_nodes: "load_blacklist now ok st = Inr (d, st') \<Longrightarrow> stored_nodes st' = stored_nodes st"
  by (auto simp: load_blacklist_def err_bind_Inr write_file_def split: pyval.splits if_splits)

lemma read_nodes_nodes: "read_nodes now ok st = Inr (ns, st') \<Longrightarrow> stored_nodes st' = stored_nodes st"
  by (auto simp: read_nodes_def err_bind_Inr split: pyval.splits dest: load_blacklist_nodes)

section \<open>A quiet manager\<close>

definition quiet_main :: string where
  "quiet_main = ''JP_1.2.3.4_443_unknown''"

definition quiet_view :: pool_view where
  "quiet_view = \<lparr>pv_clock = 1000, pv_monotonic = 0,
     pv_facts = \<lparr>memory_total_bytes = 1073741824, memory_available_bytes = 536870912, cpu_count = 2, load1 = 0\<rparr>,
     pv_stock = \<lparr>su_nodes = [], su_cfg = [], su_active = [], su_saved = PNone, su_slots = [], su_standbys = [],
       su_pending = {}, su_coordinator = {}, su_main = quiet_main, su_bad = [], su_now = 1000\<rparr>,
     pv_repair = None, pv_standby_indices = [0], pv_standby_rows = [],
     pv_assignment_requested = False, pv_refresh_requested = False, pv_background_allowed = True\<rparr>"

definition good_or_bad :: "string set \<Rightarrow> pydict \<Rightarrow> pydict" where
  "good_or_bad good n = dset n ''probe_status'' (PStr (if node_id n \<in> good then ''available'' else ''unavailable''))"

definition quiet_env :: "string set \<Rightarrow> pydict list \<Rightarrow> pool_env" where
  "quiet_env good rows = \<lparr>pe_view = (\<lambda>_. quiet_view), pe_written = (\<lambda>_. True),
     pe_probe = (\<lambda>_ batch. Inr (map (good_or_bad good) batch)), pe_rows = (\<lambda>_. Inr rows),
     pe_decode = Some, pe_translate = (\<lambda>_. None), pe_directory = ''/c'',
     pe_absent = (\<lambda>_ _. False), pe_slots = 2, pe_target = 3, pe_limit = 16, pe_batch = 2, pe_workers = 4, pe_fetch_rows = 100,
     pe_freshness = 120, pe_cooldown = 600,
     pe_reason = ''failed''\<rparr>"

definition quiet_world :: "pydict list \<Rightarrow> pool_world" where
  "quiet_world nodes = \<lparr>pw_store = \<lparr>stored_nodes = PList (map PDict nodes), stored_blacklist = PDict []\<rparr>,
     pw_catalog = PNone, pw_metadata = PNone, pw_refresh = [], pw_maintenance = False, pw_probes = [], pw_tick = 0\<rparr>"

definition offered_nodes :: "pydict list" where
  "offered_nodes = map (\<lambda>i. sample_node i ''JP'' ''not_checked'' [] 10) [''b'', ''c'', ''d'']"

end
