(* ===== verification/Pool_Replenish.thy ===== *)
theory Pool_Replenish
  imports Pool_World
begin

text \<open>
  Filling the pool (\<open>replenish_valid_pool\<close>): which nodes stay, which failed before, and the
  rounds of probes until the pool is full, nobody is left to probe, or somebody else has
  priority. Identifiers are compared unstripped here and stripped in the queue, so the loop ends
  when they agree, as they do for the identifiers the catalog makes. The loop takes fuel.
\<close>

section \<open>Where a run starts\<close>

definition probe_entry :: "pool_env \<Rightarrow> string \<Rightarrow> pydict \<Rightarrow> rat \<Rightarrow> rat \<Rightarrow> pydict" where
  "probe_entry env nid item marked until =
     [(''id'', PStr nid), (''ip'', address_text item), (''country'', dget_or item ''country'' (PStr [])),
      (''reason'', py_or (dgetN item ''probe_message'') (PStr (pe_reason env))),
      (''marked_at'', PFloat (Fin marked)), (''until'', PFloat (Fin until))]"

fun retain_available :: "pydict list \<Rightarrow> string set \<Rightarrow> pydict list" where
  "retain_available [] seen = []"
| "retain_available (item # rest) seen =
     (if plain_id item = [] \<or> plain_id item \<in> seen \<or> \<not> is_available item then retain_available rest seen
      else item # retain_available rest (insert (plain_id item) seen))"

definition initial_pool :: "bool \<Rightarrow> int \<Rightarrow> string set \<Rightarrow> pydict list \<Rightarrow> pydict list" where
  "initial_pool revalidate target protected existing =
     (let kept = filter (\<lambda>item. node_id item \<in> protected) existing in
      if revalidate then kept
      else kept @ take (nat (max 0 (target - int (length kept))))
        (retain_available existing (plain_id ` set kept - {[]})))"

definition initial_failures :: "pool_env \<Rightarrow> rat \<Rightarrow> string set \<Rightarrow> pydict list \<Rightarrow> pydict \<Rightarrow> pydict" where
  "initial_failures env now protected existing black = fold (\<lambda>item d.
     if plain_id item \<noteq> [] \<and> plain_id item \<notin> protected \<and> dgetN item ''probe_status'' = PStr ''unavailable''
     then dset d (plain_id item) (PDict (probe_entry env (plain_id item) item now (now + pe_cooldown env)))
     else d) existing black"

definition preferred_nodes :: "bool \<Rightarrow> string set \<Rightarrow> pydict list \<Rightarrow> string set" where
  "preferred_nodes revalidate protected existing =
     (if revalidate then plain_id ` {item \<in> set existing. is_available item \<and> plain_id item \<notin> protected} else {})"

section \<open>One round\<close>

text \<open>A probed node without an answer has failed.\<close>

definition unanswered :: "pool_env \<Rightarrow> rat \<Rightarrow> pydict \<Rightarrow> pydict" where
  "unanswered env now item = dupdate item
     [(''probe_status'', PStr ''unavailable''), (''probe_message'', PStr (pe_reason env)), (''probed_at'', PFloat (Fin now))]"

definition complete_results :: "pool_env \<Rightarrow> (pydict \<Rightarrow> string) \<Rightarrow> rat \<Rightarrow> pydict list \<Rightarrow> pydict list \<Rightarrow> pydict list" where
  "complete_results env ident now batch results =
     results @ map (unanswered env now) (filter (\<lambda>item. ident item \<notin> ident ` set results) batch)"

definition forget_passed :: "(pydict \<Rightarrow> string) \<Rightarrow> pydict list \<Rightarrow> pydict \<Rightarrow> pydict" where
  "forget_passed ident results d = fold (\<lambda>item d. if is_available item then dpop d (ident item) else d) results d"

definition note_failed :: "pool_env \<Rightarrow> (pydict \<Rightarrow> string) \<Rightarrow> rat \<Rightarrow> rat \<Rightarrow> pydict list \<Rightarrow> pydict \<Rightarrow> pydict" where
  "note_failed env ident marked until failed d = fold (\<lambda>item d.
     if ident item = [] then d else dset d (ident item) (PDict (probe_entry env (ident item) item marked until))) failed d"

record filling =
  fl_pool :: "pydict list"
  fl_failed :: pydict
  fl_tested :: "string set"
  fl_count :: int
  fl_batches :: int

text \<open>\<open>fa_stop\<close> is \<open>stop_requested\<close>, \<open>fa_probe\<close> is \<open>probe_batch\<close>.\<close>

record fill_args =
  fa_candidates :: "pydict list"
  fa_now :: rat
  fa_revalidate :: bool
  fa_stop :: "bool pooled option"
  fa_bounded :: bool
  fa_preferred :: "string set"
  fa_deadline :: rat
  fa_probe :: "pydict list \<Rightarrow> pydict list pooled"

definition stop_asked :: "fill_args \<Rightarrow> bool pooled" where
  "stop_asked a = (case fa_stop a of None \<Rightarrow> tret False | Some ask \<Rightarrow> ask)"

definition bounded_stop :: "pool_env \<Rightarrow> fill_args \<Rightarrow> int \<Rightarrow> string pooled" where
  "bounded_stop env a tested =
     tbind (stop_asked a) (\<lambda>stop. if stop then tret ''assignment_priority'' else
     tbind (asked env pv_facts) (\<lambda>facts. if \<not> pool_probe_allowed facts then tret ''resource_pressure'' else
     if 32 \<le> tested then tret ''batch_budget'' else
     tbind (asked env pv_monotonic) (\<lambda>now. tret (if fa_deadline a \<le> now then ''batch_budget'' else []))))"

definition batch_size :: "pool_env \<Rightarrow> fill_args \<Rightarrow> int \<Rightarrow> int" where
  "batch_size env a pooled = (let size = (if fa_bounded a then 1 else pe_batch env) in
     if fa_revalidate a then size else min size (max 1 (pe_target env - pooled)))"

datatype fill_step = Filled string filling | More filling

definition probe_round :: "pool_env \<Rightarrow> fill_args \<Rightarrow> filling \<Rightarrow> pydict list \<Rightarrow> fill_step pooled" where
  "probe_round env a st batch =
     tbind (fa_probe a batch) (\<lambda>answers.
     let results = complete_results env plain_id (fa_now a) batch answers;
         tested = fl_count st + int (length batch);
         (pool, failed) = merge_probe_results (fl_pool st) results (pe_target env);
         st = st\<lparr>fl_pool := pool, fl_failed := forget_passed plain_id results (fl_failed st),
           fl_tested := fl_tested st \<union> plain_id ` set batch, fl_count := tested, fl_batches := fl_batches st + 1\<rparr>
     in tbind (if fa_bounded a then set_country_refresh [(''testedCount'', PInt tested)] else tret ()) (\<lambda>_.
     tbind (stop_asked a) (\<lambda>stop.
     tret (if stop then Filled ''assignment_priority'' st
       else More (st\<lparr>fl_failed := note_failed env plain_id (fa_now a) (fa_now a + pe_cooldown env) failed (fl_failed st)\<rparr>)))))"

definition fill_round :: "pool_env \<Rightarrow> fill_args \<Rightarrow> filling \<Rightarrow> fill_step pooled" where
  "fill_round env a st =
     tbind (if fa_bounded a then bounded_stop env a (fl_count st) else tret []) (\<lambda>reason.
     if reason \<noteq> [] then tret (Filled reason st) else
     tbind (tlift (candidate_queue (fa_candidates a) (fl_pool st) (black_rows (fl_failed st)) (fl_tested st)
       (fa_now a) (fa_preferred a))) (\<lambda>queue.
     if queue = [] then tret (Filled ''candidates_exhausted'' st)
     else probe_round env a st (take (nat (batch_size env a (int (length (fl_pool st))))) queue)))"

fun fill_loop :: "pool_env \<Rightarrow> fill_args \<Rightarrow> nat \<Rightarrow> filling \<Rightarrow> (string \<times> filling) option pooled" where
  "fill_loop env a 0 st = tret None"
| "fill_loop env a (Suc fuel) st =
     (if int (length (fl_pool st)) < pe_target env
      then tbind (fill_round env a st) (\<lambda>step. case step of
             Filled reason st \<Rightarrow> tret (Some (reason, st)) | More st \<Rightarrow> fill_loop env a fuel st)
      else tret (Some (''target_reached'', st)))"

text \<open>The identifiers that a run may not replace.\<close>

definition fill_protected :: "bool \<Rightarrow> string set \<Rightarrow> pool_view \<Rightarrow> pyexc + string set" where
  "fill_protected bounded fresh v =
     (let ids = protected_set v (current_slot_node_ids (pv_stock v) \<union> snd ` set (pins (pv_stock v))) \<union> fresh in
      if bounded then err_bind (reserved_slot_candidate_ids None (pv_stock v)) (\<lambda>more. Inr (ids \<union> more)) else Inr ids)"

definition replenish_valid_pool ::
  "pool_env \<Rightarrow> nat \<Rightarrow> pydict list \<Rightarrow> pydict list \<Rightarrow> pydict \<Rightarrow> (pydict list \<Rightarrow> pydict list pooled) \<Rightarrow> rat option
    \<Rightarrow> bool \<Rightarrow> bool pooled option \<Rightarrow> bool \<Rightarrow> string set \<Rightarrow> (string \<times> filling) option pooled" where
  "replenish_valid_pool env fuel existing candidates black probe now revalidate stop bounded fresh =
     tbind (case now of None \<Rightarrow> asked env pv_clock | Some t \<Rightarrow> tret t) (\<lambda>checked.
     tbind (asked env (fill_protected bounded fresh)) (\<lambda>ids. tbind (tlift ids) (\<lambda>protected.
     tbind (asked env pv_monotonic) (\<lambda>started.
     fill_loop env
       \<lparr>fa_candidates = candidates, fa_now = checked, fa_revalidate = revalidate, fa_stop = stop,
        fa_bounded = bounded, fa_preferred = preferred_nodes revalidate protected existing,
        fa_deadline = started + 120, fa_probe = probe\<rparr> fuel
       \<lparr>fl_pool = initial_pool revalidate (pe_target env) protected existing,
        fl_failed = initial_failures env checked protected existing black,
        fl_tested = {}, fl_count = 0, fl_batches = 0\<rparr>))))"

section \<open>Facts about the loop\<close>

text \<open>Identifiers without surrounding white space.\<close>

definition plain_ids :: "pydict list \<Rightarrow> bool" where
  "plain_ids ns = (\<forall>n \<in> set ns. plain_id n = node_id n)"

lemma queue_members:
  assumes "candidate_queue candidates retained black tested now preferred = Inr queue"
  shows "set queue \<subseteq> set candidates" "distinct (map node_id queue)"
    "n \<in> set queue \<Longrightarrow> node_id n \<noteq> [] \<and> node_id n \<notin> tested \<and> node_id n \<notin> node_id ` set retained"
proof -
  note q = candidate_queue_correct [OF assms]
  from q show "distinct (map node_id queue)" by simp
  from q obtain picked where p: "subseq picked candidates"
    "queue = filter (\<lambda>n. node_id n \<in> preferred) picked @ filter (\<lambda>n. node_id n \<notin> preferred) picked" by blast
  then have "set queue = set picked" by auto
  with list_emb_set [OF p(1)] show "set queue \<subseteq> set candidates" by blast
  assume "n \<in> set queue"
  then have "node_id n \<in> node_id ` {m \<in> set candidates. queueable black now (set (map node_id retained) \<union> tested) m}"
    using q by blast
  then obtain m where "node_id n = node_id m" "queueable black now (set (map node_id retained) \<union> tested) m" by blast
  then show "node_id n \<noteq> [] \<and> node_id n \<notin> tested \<and> node_id n \<notin> node_id ` set retained"
    by (simp add: queueable_def)
qed

text \<open>What is in the pool: where it started, or what a probe answered as available.\<close>

lemma merge_subset:
  assumes "merge_probe_results pool results target = (merged, failed)"
  shows "set merged \<subseteq> set pool \<union> {n \<in> set results. is_available n}"
    and "failed = filter (\<lambda>n. \<not> is_available n) results"
proof -
  have "set (fst (fst (probe_loop target results ((p, seen), f)))) \<subseteq> set p \<union> {n \<in> set results. is_available n}
      \<and> snd (probe_loop target results ((p, seen), f)) = f @ filter (\<lambda>n. \<not> is_available n) results" for p seen f
  proof (induction results arbitrary: p seen f)
    case (Cons n ns)
    show ?case
      using Cons.IH [of "p @ [n]" "insert (node_id n) seen" f] Cons.IH [of p seen f] Cons.IH [of p seen "f @ [n]"]
      by auto
  qed simp
  from this [of pool "set (map node_id pool)" "[]"]
  have "set (fst (fst (probe_loop target results ((pool, set (map node_id pool)), [])))) \<subseteq> set pool \<union> {n \<in> set results. is_available n}"
    "snd (probe_loop target results ((pool, set (map node_id pool)), [])) = filter (\<lambda>n. \<not> is_available n) results" by simp_all
  moreover have "set (slice_to xs k) \<subseteq> set xs" for xs :: "pydict list" and k
    by (auto simp: slice_to_def dest: in_set_takeD)
  ultimately show "set merged \<subseteq> set pool \<union> {n \<in> set results. is_available n}"
    "failed = filter (\<lambda>n. \<not> is_available n) results"
    using assms by (fastforce simp: merge_probe_results_def split: prod.splits)+
qed

lemma length_merged:
  assumes "merge_probe_results pool results target = (merged, failed)" "0 \<le> target"
  shows "int (length merged) \<le> target"
  using assms by (auto simp: merge_probe_results_def slice_to_def split: prod.splits)

lemma merge_keeps:
  assumes "merge_probe_results pool results target = (merged, failed)" "int (length pool) \<le> target"
  shows "set pool \<subseteq> set merged"
proof -
  have "\<exists>more. fst (fst (probe_loop target results ((p, seen), f))) = p @ more" for p seen f
  proof (induction results arbitrary: p seen f)
    case (Cons n ns)
    show ?case using Cons.IH [of "p @ [n]" "insert (node_id n) seen" f] Cons.IH [of p seen f] Cons.IH [of p seen "f @ [n]"] by auto
  qed simp
  then obtain more where "fst (fst (probe_loop target results ((pool, set (map node_id pool)), []))) = pool @ more" by blast
  with assms have "merged = slice_to (pool @ more) target" by (auto simp: merge_probe_results_def split: prod.splits)
  with assms(2) show ?thesis by (auto simp: slice_to_def)
qed

text \<open>A probe of a run: the world in which the probe was asked, the batch and what it answered.
  A bounded run asks for one node at a time, and only when the host allows it and its time is not over.\<close>

type_synonym probe_call = "pool_world \<times> pydict list \<times> pydict list"

definition probed_call :: "pool_env \<Rightarrow> fill_args \<Rightarrow> probe_call \<Rightarrow> bool" where
  "probed_call env a r \<longleftrightarrow> (case r of (w, batch, answers) \<Rightarrow>
     (\<exists>w'. fa_probe a batch w = (Inr answers, w')) \<and> batch \<noteq> [] \<and> set batch \<subseteq> set (fa_candidates a)
     \<and> int (length batch) \<le> (if fa_bounded a then 1 else pe_batch env)
     \<and> (fa_bounded a \<longrightarrow> (\<exists>n. pw_tick w = n + 2 \<and> pool_probe_allowed (pv_facts (pe_view env n))
          \<and> pv_monotonic (pe_view env (n + 1)) < fa_deadline a)))"

definition probed_nodes :: "probe_call list \<Rightarrow> pydict list" where
  "probed_nodes calls = concat (map (\<lambda>(w, batch, answers). batch) calls)"

text \<open>What holds in every round, for the probes made so far.\<close>

definition fill_inv :: "pool_env \<Rightarrow> fill_args \<Rightarrow> pydict list \<Rightarrow> probe_call list \<Rightarrow> filling \<Rightarrow> bool" where
  "fill_inv env a start calls st \<longleftrightarrow>
     (\<forall>r \<in> set calls. probed_call env a r)
     \<and> distinct (map node_id (probed_nodes calls))
     \<and> fl_batches st = int (length calls) \<and> fl_count st = int (length (probed_nodes calls))
     \<and> fl_tested st = node_id ` set (probed_nodes calls)
     \<and> (fa_bounded a \<longrightarrow> fl_count st \<le> 32)
     \<and> (\<forall>n \<in> set (fl_pool st). n \<in> set start \<or> is_available n \<and> (\<exists>(w, batch, answers) \<in> set calls. n \<in> set answers))
     \<and> set start \<subseteq> set (fl_pool st)
     \<and> int (length (fl_pool st)) \<le> max (pe_target env) (int (length start))"

definition nobody_left :: "pydict list \<Rightarrow> rat \<Rightarrow> filling \<Rightarrow> bool" where
  "nobody_left candidates now st = (\<forall>c \<in> set candidates.
     \<not> queueable (black_rows (fl_failed st)) now (set (map node_id (fl_pool st)) \<union> fl_tested st) c)"

text \<open>What each reason to stop says about the last question before the run ended in world \<open>w\<close>.\<close>

definition stop_reason :: "pool_env \<Rightarrow> fill_args \<Rightarrow> int \<Rightarrow> pool_world \<Rightarrow> string \<Rightarrow> bool" where
  "stop_reason env a tested w reason \<longleftrightarrow>
     reason = ''assignment_priority'' \<and> (\<exists>w1. stop_asked a w1 = (Inr True, w))
   \<or> reason = ''resource_pressure'' \<and> (\<exists>n. pw_tick w = n + 1 \<and> \<not> pool_probe_allowed (pv_facts (pe_view env n)))
   \<or> reason = ''batch_budget'' \<and> (32 \<le> tested \<or> (\<exists>n. pw_tick w = n + 1 \<and> fa_deadline a \<le> pv_monotonic (pe_view env n)))"

definition reason_holds :: "pool_env \<Rightarrow> fill_args \<Rightarrow> pool_world \<Rightarrow> string \<Rightarrow> filling \<Rightarrow> bool" where
  "reason_holds env a w reason st \<longleftrightarrow>
     reason = ''target_reached'' \<and> pe_target env \<le> int (length (fl_pool st))
   \<or> reason = ''candidates_exhausted'' \<and> nobody_left (fa_candidates a) (fa_now a) st
   \<or> reason = ''assignment_priority'' \<and> (\<exists>w1. stop_asked a w1 = (Inr True, w))
   \<or> fa_bounded a \<and> stop_reason env a (fl_count st) w reason"

text \<open>Nothing raises but the probe, the request to stop and the reading of the failed candidates.\<close>

definition fill_raises :: "fill_args \<Rightarrow> pyexc \<Rightarrow> bool" where
  "fill_raises a e \<longleftrightarrow> (\<exists>batch w w'. fa_probe a batch w = (Inl e, w')) \<or> (\<exists>w w'. stop_asked a w = (Inl e, w'))
     \<or> (\<exists>st :: filling. candidate_queue (fa_candidates a) (fl_pool st) (black_rows (fl_failed st)) (fl_tested st)
          (fa_now a) (fa_preferred a) = Inl e)"

lemma empty_queue:
  assumes "candidate_queue candidates retained black tested now preferred = Inr []" "c \<in> set candidates"
  shows "\<not> queueable black now (set (map node_id retained) \<union> tested) c"
  using candidate_queue_correct [OF assms(1)] assms(2) by auto

lemma bounded_stop_cases:
  assumes "bounded_stop env a k w = (r, w')"
  shows "case r of Inl e \<Rightarrow> \<exists>w1. stop_asked a w = (Inl e, w1)
    | Inr reason \<Rightarrow> if reason = [] then k < 32 \<and> (\<exists>n. pw_tick w' = n + 2 \<and> pool_probe_allowed (pv_facts (pe_view env n))
          \<and> pv_monotonic (pe_view env (n + 1)) < fa_deadline a)
        else stop_reason env a k w' reason"
proof -
  obtain s w1 where s: "stop_asked a w = (s, w1)" by (cases "stop_asked a w")
  show ?thesis
    using assms s
    by (cases s) (auto simp: bounded_stop_def tbind_def tret_def asked_def answered_def ticked_def stop_reason_def split: if_splits)
qed

text \<open>One round that probes.\<close>

definition round_of :: "pool_env \<Rightarrow> fill_args \<Rightarrow> filling \<Rightarrow> probe_call \<Rightarrow> filling \<Rightarrow> bool" where
  "round_of env a st r st' \<longleftrightarrow> (case r of (w, batch, answers) \<Rightarrow>
     probed_call env a r \<and> (fa_bounded a \<longrightarrow> fl_count st < 32)
     \<and> distinct (map node_id batch) \<and> node_id ` set batch \<inter> fl_tested st = {}
     \<and> fl_tested st' = fl_tested st \<union> plain_id ` set batch \<and> fl_count st' = fl_count st + int (length batch)
     \<and> fl_batches st' = fl_batches st + 1
     \<and> (\<exists>failed. merge_probe_results (fl_pool st) (complete_results env plain_id (fa_now a) batch answers) (pe_target env)
          = (fl_pool st', failed)))"

definition step_ok :: "pool_env \<Rightarrow> fill_args \<Rightarrow> filling \<Rightarrow> pool_world \<Rightarrow> fill_step \<Rightarrow> bool" where
  "step_ok env a st w step = (case step of
     More st' \<Rightarrow> \<exists>r. round_of env a st r st'
   | Filled reason st' \<Rightarrow> st' = st \<and> reason_holds env a w reason st
       \<or> reason = ''assignment_priority'' \<and> reason_holds env a w reason st' \<and> (\<exists>r. round_of env a st r st'))"

lemma probe_round_cases:
  assumes "probe_round env a st batch w = (r, w')"
    and "\<And>answers w1. fa_probe a batch w = (Inr answers, w1) \<Longrightarrow> probed_call env a (w, batch, answers)"
    and "fa_bounded a \<longrightarrow> fl_count st < 32" "distinct (map node_id batch)" "node_id ` set batch \<inter> fl_tested st = {}"
  shows "case r of Inl e \<Rightarrow> fill_raises a e | Inr step \<Rightarrow> step_ok env a st w' step"
proof -
  obtain p w1 where p: "fa_probe a batch w = (p, w1)" by (cases "fa_probe a batch w")
  show ?thesis
  proof (cases p)
    case (Inl e)
    then have "r = Inl e" using assms(1) p by (simp add: probe_round_def tbind_def)
    then show ?thesis using Inl p by (auto simp: fill_raises_def)
  next
    case (Inr answers)
    let ?results = "complete_results env plain_id (fa_now a) batch answers"
    obtain pool failed where m: "merge_probe_results (fl_pool st) ?results (pe_target env) = (pool, failed)"
      by (cases "merge_probe_results (fl_pool st) ?results (pe_target env)")
    note call = assms(2) [OF p [unfolded Inr]]
    have rnd: "round_of env a st (w, batch, answers) st'"
      if "fl_pool st' = pool" "fl_tested st' = fl_tested st \<union> plain_id ` set batch"
        "fl_count st' = fl_count st + int (length batch)" "fl_batches st' = fl_batches st + 1" for st'
      using that call assms(3-5) m by (simp add: round_of_def)
    obtain w2 where w2: "(if fa_bounded a then set_country_refresh [(''testedCount'', PInt (fl_count st + int (length batch)))] else tret ()) w1
        = (Inr (), w2)"
      by (cases "fa_bounded a") (auto simp: set_country_refresh_def tput_def tret_def)
    obtain s w3 where s: "stop_asked a w2 = (s, w3)" by (cases "stop_asked a w2")
    show ?thesis
    proof (cases s)
      case (Inl e)
      then have "r = Inl e" using assms(1) p Inr w2 s by (simp add: probe_round_def tbind_def m Let_def)
      then show ?thesis using Inl s by (auto simp: fill_raises_def)
    next
      case stop: (Inr stop)
      let ?s1 = "st\<lparr>fl_pool := pool, fl_failed := forget_passed plain_id ?results (fl_failed st),
        fl_tested := fl_tested st \<union> plain_id ` set batch, fl_count := fl_count st + int (length batch), fl_batches := fl_batches st + 1\<rparr>"
      let ?s2 = "?s1\<lparr>fl_failed := note_failed env plain_id (fa_now a) (fa_now a + pe_cooldown env) failed (fl_failed ?s1)\<rparr>"
      have r: "r = Inr (if stop then Filled ''assignment_priority'' ?s1 else More ?s2)" "w' = w3"
        using assms(1) by (simp_all add: probe_round_def tbind_def tret_def m Let_def p Inr w2 s stop)
      have "round_of env a st (w, batch, answers) ?s1" "round_of env a st (w, batch, answers) ?s2"
        by (rule rnd; simp)+
      then show ?thesis using s stop unfolding r step_ok_def reason_holds_def by auto
    qed
  qed
qed

lemma fill_round_cases:
  assumes "fill_round env a st w = (r, w')" "1 \<le> pe_batch env"
  shows "case r of Inl e \<Rightarrow> fill_raises a e | Inr step \<Rightarrow> step_ok env a st w' step"
proof -
  let ?ask = "if fa_bounded a then bounded_stop env a (fl_count st) else tret []"
  let ?queue = "candidate_queue (fa_candidates a) (fl_pool st) (black_rows (fl_failed st)) (fl_tested st) (fa_now a) (fa_preferred a)"
  obtain s w1 where s: "?ask w = (s, w1)" by (cases "?ask w")
  have ask: "case s of Inl e \<Rightarrow> fa_bounded a \<and> (\<exists>w2. stop_asked a w = (Inl e, w2))
    | Inr reason \<Rightarrow> if reason = [] then fa_bounded a \<longrightarrow> fl_count st < 32 \<and> (\<exists>n. pw_tick w1 = n + 2
          \<and> pool_probe_allowed (pv_facts (pe_view env n)) \<and> pv_monotonic (pe_view env (n + 1)) < fa_deadline a)
        else fa_bounded a \<and> stop_reason env a (fl_count st) w1 reason"
    using s bounded_stop_cases [of env a "fl_count st" w s w1] by (cases "fa_bounded a") (auto simp: tret_def split: sum.splits)
  show ?thesis
  proof (cases s)
    case (Inl e)
    then have "r = Inl e" using assms(1) s by (simp add: fill_round_def tbind_def)
    then show ?thesis using ask Inl by (auto simp: fill_raises_def)
  next
    case reason: (Inr reason)
    show ?thesis
    proof (cases "reason = []")
      case False
      then have "r = Inr (Filled reason st)" "w' = w1" using assms(1) s reason by (simp_all add: fill_round_def tbind_def tret_def)
      then show ?thesis using ask reason False by (simp add: step_ok_def reason_holds_def)
    next
      case True
      show ?thesis
      proof (cases ?queue)
        case (Inl e)
        then have "r = Inl e" using assms(1) s reason True by (simp add: fill_round_def tbind_def tlift_def)
        then show ?thesis using Inl by (auto simp: fill_raises_def)
      next
        case q: (Inr queue)
        show ?thesis
        proof (cases "queue = []")
          case empty: True
          then have "r = Inr (Filled ''candidates_exhausted'' st)"
            using assms(1) s reason True q by (simp add: fill_round_def tbind_def tlift_def tret_def)
          then show ?thesis using empty_queue [OF q [unfolded empty]] by (simp add: step_ok_def reason_holds_def nobody_left_def)
        next
          case False
          let ?b = "take (nat (batch_size env a (int (length (fl_pool st))))) queue"
          have run: "probe_round env a st ?b w1 = (r, w')"
            using assms(1) s reason True q False by (simp add: fill_round_def tbind_def tlift_def)
          have size: "1 \<le> batch_size env a k" "batch_size env a k \<le> (if fa_bounded a then 1 else pe_batch env)" for k
            using assms(2) by (auto simp: batch_size_def Let_def)
          have "?b \<noteq> []" using False size(1) [of "int (length (fl_pool st))"] by simp
          moreover have "set ?b \<subseteq> set (fa_candidates a)" by (rule subset_trans [OF set_take_subset queue_members(1) [OF q]])
          moreover have "int (length ?b) \<le> (if fa_bounded a then 1 else pe_batch env)"
            by (rule order_trans [OF _ size(2) [of "int (length (fl_pool st))"]])
              (use size(1) [of "int (length (fl_pool st))"] in simp)
          moreover have bounds: "fa_bounded a \<longrightarrow> fl_count st < 32 \<and> (\<exists>n. pw_tick w1 = n + 2
          \<and> pool_probe_allowed (pv_facts (pe_view env n)) \<and> pv_monotonic (pe_view env (n + 1)) < fa_deadline a)"
            using ask reason True by simp
          ultimately have call: "probed_call env a (w1, ?b, answers)" if "fa_probe a ?b w1 = (Inr answers, w2)" for answers w2
            unfolding probed_call_def prod.case using that bounds by (intro conjI impI exI [of _ w2]) simp_all
          have d: "distinct (map node_id ?b)" using queue_members(2) [OF q] by (simp add: take_map [symmetric])
          have t: "node_id ` set ?b \<inter> fl_tested st = {}"
            using queue_members(3) [OF q] by (auto dest: in_set_takeD)
          have "fa_bounded a \<longrightarrow> fl_count st < 32" using bounds by blast
          from probe_round_cases [OF run call this d t] show ?thesis .
        qed
      qed
    qed
  qed
qed

text \<open>The rounds keep the facts about the probes.\<close>

lemma unanswered_failed: "\<not> is_available (unanswered env now n)"
  by (simp add: is_available_def unanswered_def)

lemma round_of_inv:
  assumes "round_of env a st r st'" "fill_inv env a start calls st" "plain_ids (fa_candidates a)"
    "int (length (fl_pool st)) < pe_target env"
  shows "fill_inv env a start (calls @ [r]) st'" "node_id ` set (fst (snd r)) \<noteq> {}"
    "node_id ` set (fst (snd r)) \<subseteq> node_id ` set (fa_candidates a) - fl_tested st" "fl_tested st' = fl_tested st \<union> node_id ` set (fst (snd r))"
proof -
  obtain w batch answers where r: "r = (w, batch, answers)" by (cases r)
  from assms(1) obtain failed where p: "probed_call env a r" and o: "fa_bounded a \<longrightarrow> fl_count st < 32"
    "distinct (map node_id batch)" "node_id ` set batch \<inter> fl_tested st = {}"
    "fl_tested st' = fl_tested st \<union> plain_id ` set batch" "fl_count st' = fl_count st + int (length batch)"
    "fl_batches st' = fl_batches st + 1"
    and m: "merge_probe_results (fl_pool st) (complete_results env plain_id (fa_now a) batch answers) (pe_target env) = (fl_pool st', failed)"
    unfolding round_of_def r by auto
  from p have b: "batch \<noteq> []" "set batch \<subseteq> set (fa_candidates a)" "fa_bounded a \<longrightarrow> int (length batch) \<le> 1"
    by (auto simp: probed_call_def r)
  have "plain_id ` set batch = node_id ` set batch"
    using b(2) assms(3) by (intro image_cong) (auto simp: plain_ids_def)
  with o(4) have t: "fl_tested st' = fl_tested st \<union> node_id ` set batch" by simp
  then show "fl_tested st' = fl_tested st \<union> node_id ` set (fst (snd r))" by (simp add: r)
  show "node_id ` set (fst (snd r)) \<noteq> {}" using b(1) by (simp add: r)
  show "node_id ` set (fst (snd r)) \<subseteq> node_id ` set (fa_candidates a) - fl_tested st" using b(2) o(3) by (auto simp: r)
  note inv = assms(2) [unfolded fill_inv_def]
  have n: "probed_nodes (calls @ [r]) = probed_nodes calls @ batch" by (simp add: probed_nodes_def r)
  have pool: "n \<in> set start \<or> is_available n \<and> (\<exists>(w, batch, answers) \<in> set (calls @ [r]). n \<in> set answers)"
    if "n \<in> set (fl_pool st')" for n
  proof -
    from that merge_subset(1) [OF m] have "n \<in> set (fl_pool st) \<or> n \<in> set answers \<and> is_available n"
      by (auto simp: complete_results_def unanswered_failed)
    then show ?thesis using inv unfolding r by fastforce
  qed
  have "int (length (fl_pool st')) \<le> max (pe_target env) (int (length start))"
    using length_merged [OF m] assms(4) by linarith
  moreover have "distinct (map node_id (probed_nodes (calls @ [r])))"
    unfolding n map_append distinct_append using inv o(2,3) by auto
  moreover have "fa_bounded a \<longrightarrow> fl_count st' \<le> 32" using o(1,5) b(3) by auto
  moreover have "fl_count st' = int (length (probed_nodes (calls @ [r])))" unfolding n using o(5) inv by simp
  moreover have "fl_tested st' = node_id ` set (probed_nodes (calls @ [r]))" unfolding n t using inv by auto
  moreover have "fl_batches st' = int (length (calls @ [r]))" using o(6) inv by simp
  moreover have "\<forall>c \<in> set (calls @ [r]). probed_call env a c" using inv p by auto
  moreover have "set start \<subseteq> set (fl_pool st')" using merge_keeps [OF m] assms(4) inv by auto
  ultimately show "fill_inv env a start (calls @ [r]) st'" unfolding fill_inv_def using pool by blast
qed

definition loop_ok :: "pool_env \<Rightarrow> fill_args \<Rightarrow> pydict list \<Rightarrow> pool_world \<Rightarrow> pyexc + (string \<times> filling) option \<Rightarrow> bool" where
  "loop_ok env a start w' r \<longleftrightarrow> (case r of
     Inl e \<Rightarrow> fill_raises a e
   | Inr None \<Rightarrow> False
   | Inr (Some (reason, st)) \<Rightarrow> reason_holds env a w' reason st \<and> (\<exists>calls. fill_inv env a start calls st))"

lemma smaller_rest: "B \<noteq> {} \<Longrightarrow> B \<subseteq> C - T \<Longrightarrow> C - (T \<union> B) \<subset> C - T"
  by blast

text \<open>Every round tests a candidate that was not tested, so the loop ends.\<close>

lemma fill_loop_ok:
  assumes "plain_ids (fa_candidates a)" "1 \<le> pe_batch env"
  shows "card (node_id ` set (fa_candidates a) - fl_tested st) < fuel \<Longrightarrow> fill_inv env a start calls st \<Longrightarrow>
    fill_loop env a fuel st w = (r, w') \<Longrightarrow> loop_ok env a start w' r"
proof (induction fuel arbitrary: st w calls)
  case (Suc fuel)
  let ?C = "node_id ` set (fa_candidates a)"
  show ?case
  proof (cases "int (length (fl_pool st)) < pe_target env")
    case False
    with Suc.prems show ?thesis by (auto simp: tret_def loop_ok_def reason_holds_def)
  next
    case small: True
    obtain s w1 where s: "fill_round env a st w = (s, w1)" by (cases "fill_round env a st w")
    note step = fill_round_cases [OF s assms(2)]
    show ?thesis
    proof (cases s)
      case (Inl e)
      with Suc.prems(3) small s have "r = Inl e" by (simp add: tbind_def)
      with step Inl show ?thesis by (simp add: loop_ok_def)
    next
      case s2: (Inr step)
      show ?thesis
      proof (cases step)
        case (Filled reason st')
        with Suc.prems(3) small s s2 have r: "r = Inr (Some (reason, st'))" "w' = w1" by (simp_all add: tbind_def tret_def)
        from step s2 Filled have "reason_holds env a w1 reason st' \<and> (st' = st \<or> (\<exists>c. round_of env a st c st'))"
          by (auto simp: step_ok_def)
        moreover from this have "\<exists>calls. fill_inv env a start calls st'"
          using round_of_inv(1) [OF _ Suc.prems(2) assms(1) small] Suc.prems(2) by blast
        ultimately show ?thesis unfolding r loop_ok_def by simp
      next
        case (More st')
        with step s2 obtain c where c: "round_of env a st c st'" by (auto simp: step_ok_def)
        note inv = round_of_inv [OF c Suc.prems(2) assms(1) small]
        from More Suc.prems(3) small s s2 have run: "fill_loop env a fuel st' w1 = (r, w')" by (simp add: tbind_def)
        have "?C - fl_tested st' \<subset> ?C - fl_tested st" unfolding inv(4) using inv(2,3) by (rule smaller_rest)
        then have "card (?C - fl_tested st') < card (?C - fl_tested st)" by (intro psubset_card_mono) auto
        with Suc.prems(1) have "card (?C - fl_tested st') < fuel" by linarith
        from Suc.IH [OF this inv(1) run] show ?thesis .
      qed
    qed
  qed
qed simp

text \<open>Where a run starts, restated: every protected node, and when nothing is tested again the
  available ones up to the target.\<close>

definition starts_from :: "pydict list \<Rightarrow> string set \<Rightarrow> bool \<Rightarrow> int \<Rightarrow> pydict list \<Rightarrow> bool" where
  "starts_from existing protected revalidate target start \<longleftrightarrow>
     (\<forall>n \<in> set existing. node_id n \<in> protected \<longrightarrow> n \<in> set start)
     \<and> (\<forall>n \<in> set start. n \<in> set existing \<and> (node_id n \<in> protected \<or> \<not> revalidate \<and> is_available n))
     \<and> int (length start) \<le> max target (int (length (filter (\<lambda>n. node_id n \<in> protected) existing)))"

definition run_args :: "pool_env \<Rightarrow> pydict list \<Rightarrow> (pydict list \<Rightarrow> pydict list pooled) \<Rightarrow> rat option \<Rightarrow> bool pooled option
    \<Rightarrow> bool \<Rightarrow> fill_args \<Rightarrow> bool" where
  "run_args env candidates probe now stop bounded a \<longleftrightarrow>
     fa_candidates a = candidates \<and> fa_probe a = probe \<and> fa_stop a = stop \<and> fa_bounded a = bounded
     \<and> (case now of None \<Rightarrow> \<exists>n. fa_now a = pv_clock (pe_view env n) | Some t \<Rightarrow> fa_now a = t)
     \<and> (\<exists>n. fa_deadline a = pv_monotonic (pe_view env n) + 120)"

lemma retain_available_mem: "n \<in> set (retain_available existing seen) \<Longrightarrow> n \<in> set existing \<and> is_available n"
  by (induction existing arbitrary: seen) (auto split: if_splits)

lemma initial_pool_starts: "starts_from existing protected revalidate target (initial_pool revalidate target protected existing)"
  unfolding starts_from_def initial_pool_def Let_def
  by (auto dest!: in_set_takeD retain_available_mem)

lemma replenish_run:
  assumes "replenish_valid_pool env fuel existing candidates black probe now revalidate stop bounded fresh w = (r, w'')"
  shows "(\<exists>m e. fill_protected bounded fresh (pe_view env m) = Inl e \<and> r = Inl e)
    \<or> (\<exists>m a protected st0 w'. run_args env candidates probe now stop bounded a
      \<and> fill_protected bounded fresh (pe_view env m) = Inr protected
      \<and> fl_pool st0 = initial_pool revalidate (pe_target env) protected existing
      \<and> fl_tested st0 = {} \<and> fl_count st0 = 0 \<and> fl_batches st0 = 0
      \<and> fill_loop env a fuel st0 w' = (r, w''))"
proof -
  obtain checked w1 where c: "(case now of None \<Rightarrow> asked env pv_clock | Some t \<Rightarrow> tret t) w = (Inr checked, w1)"
    "(case now of None \<Rightarrow> \<exists>n. checked = pv_clock (pe_view env n) | Some t \<Rightarrow> checked = t)"
    by (cases now) (auto simp: asked_def answered_def tret_def)
  let ?ids = "fill_protected bounded fresh (pe_view env (pw_tick w1))"
  show ?thesis
  proof (cases ?ids)
    case (Inl e)
    with assms c(1) have "r = Inl e"
      by (simp add: replenish_valid_pool_def tbind_def asked_def answered_def tlift_def)
    with Inl show ?thesis by blast
  next
    case (Inr protected)
    let ?a = "\<lparr>fa_candidates = candidates, fa_now = checked, fa_revalidate = revalidate, fa_stop = stop,
      fa_bounded = bounded, fa_preferred = preferred_nodes revalidate protected existing,
      fa_deadline = pv_monotonic (pe_view env (pw_tick (ticked w1))) + 120, fa_probe = probe\<rparr>"
    let ?st = "\<lparr>fl_pool = initial_pool revalidate (pe_target env) protected existing,
      fl_failed = initial_failures env checked protected existing black, fl_tested = {}, fl_count = 0, fl_batches = 0\<rparr>"
    have "fill_loop env ?a fuel ?st (ticked (ticked w1)) = (r, w'')"
      using assms c(1) Inr by (simp add: replenish_valid_pool_def tbind_def asked_def answered_def tlift_def)
    moreover have "run_args env candidates probe now stop bounded ?a"
      using c(2) by (auto simp: run_args_def split: option.splits)
    ultimately show ?thesis using Inr
      by (intro disjI2 exI [of _ "pw_tick w1"] exI [of _ ?a] exI [of _ protected] exI [of _ ?st] exI [of _ "ticked (ticked w1)"]) simp
  qed
qed

section \<open>Properties\<close>

text \<open>C23. Filling the pool ends and is sound. With more fuel than candidate identifiers a run always
  comes to an end, whatever the probes, the host and the other threads answer; it raises only what
  the probe, the request to stop or the reading of identifiers and failed candidates raised. Otherwise
  every protected node is in the pool, and every node of the pool was protected, was retained as
  available, or was answered available by one of the probes of this run. No candidate is probed twice;
  a bounded run probes one node at a time, at most 32, and only after the host allowed it before the
  deadline. Only protected nodes can exceed the target. The reason to stop is true: the
  target is reached; no candidate is left that is neither pooled, tested nor cooling down; the last
  question found that an assignment waits, that the host is under pressure, or that the time is
  over; or 32 nodes were tested.\<close>

theorem replenish_correct:
  assumes "plain_ids candidates" and "1 \<le> pe_batch env" and "card (node_id ` set candidates) < fuel"
    and "replenish_valid_pool env fuel existing candidates black probe now revalidate stop bounded fresh w = (r, w')"
  shows "case r of
      Inl e \<Rightarrow> (\<exists>m. fill_protected bounded fresh (pe_view env m) = Inl e)
        \<or> (\<exists>a. run_args env candidates probe now stop bounded a \<and> fill_raises a e)
    | Inr None \<Rightarrow> False
    | Inr (Some (reason, st)) \<Rightarrow> (\<exists>m protected start a calls.
        fill_protected bounded fresh (pe_view env m) = Inr protected
        \<and> starts_from existing protected revalidate (pe_target env) start
        \<and> run_args env candidates probe now stop bounded a
        \<and> fill_inv env a start calls st \<and> reason_holds env a w' reason st)"
  using replenish_run [OF assms(4)]
proof (elim disjE exE conjE)
  fix m a protected st0 w0
  assume a: "run_args env candidates probe now stop bounded a" "fill_protected bounded fresh (pe_view env m) = Inr protected"
    and st0: "fl_pool st0 = initial_pool revalidate (pe_target env) protected existing" "fl_tested st0 = {}" "fl_count st0 = 0" "fl_batches st0 = 0"
    and loop: "fill_loop env a fuel st0 w0 = (r, w')"
  let ?start = "initial_pool revalidate (pe_target env) protected existing"
  have "fa_candidates a = candidates" using a(1) by (simp add: run_args_def)
  moreover have "fill_inv env a ?start [] st0" by (simp add: fill_inv_def st0 probed_nodes_def)
  ultimately have ok: "loop_ok env a ?start w' r"
    using fill_loop_ok [of a env st0 fuel ?start "[]" w0 r w'] assms(1-3) st0(2) loop by simp
  have starts: "starts_from existing protected revalidate (pe_target env) ?start" by (rule initial_pool_starts)
  show ?thesis
  proof (cases r)
    case (Inl e)
    with ok a(1) show ?thesis by (auto simp: loop_ok_def)
  next
    case (Inr o1)
    with ok obtain reason st calls where o1: "o1 = Some (reason, st)" "reason_holds env a w' reason st" "fill_inv env a ?start calls st"
      by (auto simp: loop_ok_def split: option.splits)
    have "\<exists>m protected start a calls. fill_protected bounded fresh (pe_view env m) = Inr protected
        \<and> starts_from existing protected revalidate (pe_target env) start
        \<and> run_args env candidates probe now stop bounded a \<and> fill_inv env a start calls st \<and> reason_holds env a w' reason st"
      using a starts o1(2,3)
      by (intro exI [of _ m] exI [of _ protected] exI [of _ ?start] exI [of _ a] exI [of _ calls] conjI)
    then show ?thesis by (simp add: Inr o1(1))
  qed
qed auto

definition demo_filling :: "pool_world \<Rightarrow> (pyexc + (string \<times> filling) option) \<times> pool_world" where
  "demo_filling = replenish_valid_pool (quiet_env {''b'', ''d''} []) 4 [sample_node quiet_main ''JP'' ''available'' [] 10] offered_nodes []
     (\<lambda>batch. tret (map (good_or_bad {''b'', ''d''}) batch)) None True None True {}"

lemma replenish_correct_witness:
  "\<exists>st. fst (demo_filling (quiet_world [])) = Inr (Some (''target_reached'', st))
     \<and> map node_id (fl_pool st) = [quiet_main, ''b'', ''d''] \<and> fl_count st \<le> 32"
proof -
  have e: "(\<lambda>r. case r of Inr (Some (reason, st)) \<Rightarrow> reason = ''target_reached'' \<and> map node_id (fl_pool st) = [quiet_main, ''b'', ''d''] | _ \<Rightarrow> False)
      (fst (demo_filling (quiet_world [])))" by code_simp
  then obtain st where st: "fst (demo_filling (quiet_world [])) = Inr (Some (''target_reached'', st))"
    "map node_id (fl_pool st) = [quiet_main, ''b'', ''d'']"
    by (auto split: sum.splits option.splits)
  then obtain w' where run: "demo_filling (quiet_world []) = (Inr (Some (''target_reached'', st)), w')"
    by (cases "demo_filling (quiet_world [])") auto
  have p: "plain_ids offered_nodes" by code_simp
  have c: "card (node_id ` set offered_nodes) < 4" by code_simp
  have b: "1 \<le> pe_batch (quiet_env {''b'', ''d''} [])" by (simp add: quiet_env_def)
  note sound = replenish_correct [OF p b c run [unfolded demo_filling_def], unfolded sum.case option.case prod.case]
  then obtain a start calls where "fill_inv (quiet_env {''b'', ''d''} []) a start calls st" "fa_bounded a"
    unfolding run_args_def by (elim exE conjE) blast
  then have "fl_count st \<le> 32" by (simp add: fill_inv_def)
  with st show ?thesis by (intro exI [of _ st]) simp
qed


end
