(* ===== verification/Pool_Catalog.thy ===== *)
theory Pool_Catalog
  imports Pool_World
begin

text \<open>
  The catalog of candidates: the statistics of countries, the node that a row of the catalog
  becomes, and the fetch with its retries. A row is what the CSV parser made of a line: every
  field is a string, or \<open>None\<close> at the end of a short line.
\<close>

section \<open>A row as a node\<close>

definition name_char :: "char \<Rightarrow> bool" where
  "name_char c = (ascii_upper_char c \<or> ascii_lower_char c \<or> digit_char c \<or> c \<in> {CHR ''_'', CHR ''.'', CHR ''-''})"

text \<open>\<^verbatim>\<open>re.sub(r"[^A-Za-z0-9_.-]+", "_", s)\<close>; the flag tells that the last character was replaced.\<close>

fun collapse :: "bool \<Rightarrow> string \<Rightarrow> string" where
  "collapse replaced [] = []"
| "collapse replaced (c # s) =
     (if name_char c then c # collapse False s
      else if replaced then collapse True s else CHR ''_'' # collapse True s)"

definition strip_marks :: "string \<Rightarrow> string" where
  "strip_marks s = rev (dropWhile (\<lambda>c. c \<in> {CHR ''.'', CHR ''_''})
     (rev (dropWhile (\<lambda>c. c \<in> {CHR ''.'', CHR ''_''}) s)))"

definition safe_name :: "string \<Rightarrow> string" where
  "safe_name s = (let t = strip_marks (collapse False (py_strip s)) in if t = [] then ''node'' else t)"

text \<open>\<open>str.isdigit\<close> also holds of the three superscript digits, which \<open>int\<close> refuses.\<close>

definition py_isdigit :: "string \<Rightarrow> bool" where
  "py_isdigit s = (s \<noteq> [] \<and> list_all (\<lambda>c. digit_char c \<or> chr_code c \<in> {178, 179, 185}) s)"

definition remote_line :: "string \<Rightarrow> string \<times> int \<times> string \<Rightarrow> pyexc + string \<times> int \<times> string" where
  "remote_line raw found = (case found of (host, port, proto) \<Rightarrow>
     (let line = py_strip raw; parts = py_words line in
      if line = [] \<or> starts_with ''#'' line \<or> starts_with '';'' line then Inr found
      else if py_lower (parts ! 0) = ''proto'' \<and> 2 \<le> length parts then Inr (host, port, py_lower (parts ! 1))
      else if py_lower (parts ! 0) = ''remote'' \<and> 3 \<le> length parts then
        err_bind (if py_isdigit (parts ! 2) then py_int (PStr (parts ! 2)) else Inr 0) (\<lambda>port.
        Inr (parts ! 1, port, if 4 \<le> length parts then py_lower (parts ! 3) else proto))
      else Inr found))"

fun remote_lines :: "string list \<Rightarrow> string \<times> int \<times> string \<Rightarrow> pyexc + string \<times> int \<times> string" where
  "remote_lines [] found = Inr found"
| "remote_lines (line # rest) found = err_bind (remote_line line found) (remote_lines rest)"

definition parse_remote :: "string \<Rightarrow> string \<Rightarrow> pyexc + string \<times> int \<times> string" where
  "parse_remote config fallback = remote_lines (py_splitlines config) (fallback, 0, ''unknown'')"

definition country_name :: "pool_env \<Rightarrow> pyval \<Rightarrow> pyexc + pyval" where
  "country_name env long = (case long of
     PStr s \<Rightarrow> Inr (PStr (case pe_translate env s of Some t \<Rightarrow> t
       | None \<Rightarrow> (case pe_translate env (py_strip s) of Some t \<Rightarrow> t | None \<Rightarrow> s)))
   | _ \<Rightarrow> Inl AttributeError)"

definition row_text :: "pydict \<Rightarrow> string \<Rightarrow> string" where
  "row_text row key = id_text (dget_or row key (PStr []))"

definition join_marks :: "string list \<Rightarrow> string" where
  "join_marks parts = concat (map (\<lambda>(i, p). if i = 0 then p else CHR ''_'' # p) (zip [0..<length parts] parts))"

definition row_node_id :: "pydict \<Rightarrow> string \<times> int \<times> string \<Rightarrow> string" where
  "row_node_id row found = (case found of (host, port, proto) \<Rightarrow>
     safe_name (join_marks [if row_text row ''CountryShort'' = [] then ''XX'' else row_text row ''CountryShort'',
       if row_text row ''IP'' = [] then host else row_text row ''IP'', int_str port, proto]))"

definition row_to_node :: "pool_env \<Rightarrow> rat \<Rightarrow> pydict \<Rightarrow> string \<Rightarrow> pyexc + pydict" where
  "row_to_node env now row config =
     err_bind (parse_remote config (row_text row ''IP'')) (\<lambda>found.
     err_bind (country_name env (dget_or row ''CountryLong'' (PStr []))) (\<lambda>country.
     err_bind (int_or_zero (dgetN row ''Score'')) (\<lambda>score.
     err_bind (int_or_zero (dgetN row ''Ping'')) (\<lambda>ping.
     err_bind (int_or_zero (dgetN row ''Speed'')) (\<lambda>speed.
     err_bind (int_or_zero (dgetN row ''NumVpnSessions'')) (\<lambda>sessions.
     Inr [(''id'', PStr (row_node_id row found)), (''country'', country),
       (''country_short'', dget_or row ''CountryShort'' (PStr [])), (''host_name'', dget_or row ''HostName'' (PStr [])),
       (''ip'', dget_or row ''IP'' (PStr [])), (''score'', PInt score), (''ping'', PInt ping), (''speed'', PInt speed),
       (''sessions'', PInt sessions), (''owner'', PStr []), (''asn'', PStr []), (''as_name'', PStr []), (''location'', PStr []),
       (''ip_type'', PStr []), (''quality'', PStr []), (''latency_ms'', PInt 0),
       (''config_file'', PStr (pe_directory env @ ''/'' @ row_node_id row found @ ''.ovpn'')), (''config_text'', PStr config),
       (''proto'', PStr (snd (snd found))), (''remote_host'', PStr (fst found)), (''remote_port'', PInt (fst (snd found))),
       (''fetched_at'', PFloat (Fin now)), (''probe_status'', PStr ''not_checked''), (''probe_message'', PStr []),
       (''probed_at'', PInt 0)]))))))"

section \<open>The statistics of countries\<close>

type_synonym country_counts = "(string \<times> string \<times> int) list"

definition count_row :: "pool_env \<Rightarrow> pydict \<Rightarrow> country_counts \<Rightarrow> country_counts" where
  "count_row env row counts =
     (let code = country_field ''CountryShort'' row; long = py_strip (str_or_empty (dgetN row ''CountryLong''));
          name = (case pe_translate env long of Some t \<Rightarrow> t | None \<Rightarrow> if long = [] then code else long);
          (shown, n) = (case map_of counts code of Some known \<Rightarrow> known | None \<Rightarrow> (name, 0))
      in if two_letters code then AList.update code (shown, n + 1) counts else counts)"

definition build_country_catalog :: "pool_env \<Rightarrow> pydict list \<Rightarrow> rat \<Rightarrow> pydict list" where
  "build_country_catalog env rows observed =
     (let counts = fold (count_row env) rows [] in
      map (\<lambda>code. case map_of counts code of
          Some (name, n) \<Rightarrow> [(''code'', PStr code), (''name'', PStr name), (''candidateCount'', PInt n), (''observedAt'', PFloat (Fin observed))]
        | None \<Rightarrow> []) (sorted_set (map fst counts)))"

definition catalog_numbers :: "pydict list \<Rightarrow> int" where
  "catalog_numbers catalog = (\<Sum>item \<leftarrow> catalog. case dgetN item ''candidateCount'' of PInt n \<Rightarrow> n | _ \<Rightarrow> 0)"

definition store_country_catalog :: "pool_env \<Rightarrow> pydict list \<Rightarrow> unit pooled" where
  "store_country_catalog env rows =
     tbind (asked env pv_clock) (\<lambda>now.
     let catalog = build_country_catalog env rows now in
     tbind (written env (pw_catalog_update (\<lambda>_. PList (map PDict catalog)))) (\<lambda>_.
     tbind (tget pw_metadata) (\<lambda>file.
     store_pool_metadata env (dupdate (load_pool_metadata file)
       [(''officialCandidateCount'', PInt (catalog_numbers catalog)), (''officialCountryCount'', PInt (int (length catalog))),
        (''observedAt'', PFloat (Fin (if catalog = [] then 0 else now)))]))))"

section \<open>Fetching\<close>

type_synonym fetched = "pydict list \<times> string set"

text \<open>\<open>entry and float(entry.get("until", 0) or 0) > time.time()\<close>.\<close>

definition cools_down :: "pydict \<Rightarrow> rat \<Rightarrow> string \<Rightarrow> pyexc + bool" where
  "cools_down black now nid = (case black_rows black nid of
     None \<Rightarrow> Inr False | Some [] \<Rightarrow> Inr False | Some entry \<Rightarrow> cooling (black_rows black) now nid)"

text \<open>What one row adds. A row that cannot be read is skipped.\<close>

definition take_row :: "pool_env \<Rightarrow> rat \<Rightarrow> bool \<Rightarrow> pydict \<Rightarrow> pydict \<Rightarrow> fetched \<Rightarrow> pyexc + fetched" where
  "take_row env now ignore black row acc = (case acc of (candidates, seen) \<Rightarrow>
     (let ip = row_text row ''IP''; encoded = row_text row ''OpenVPN_ConfigData_Base64'' in
      if ip = [] \<or> ip \<in> seen \<or> encoded = [] then Inr acc
      else (case pe_decode env encoded of
          None \<Rightarrow> Inr acc
        | Some config \<Rightarrow> (case row_to_node env now row config of
              Inl _ \<Rightarrow> Inr acc
            | Inr node \<Rightarrow> err_bind (if ignore then Inr False else cools_down black now (plain_id node)) (\<lambda>cool.
                Inr (if cool then acc else (candidates @ [node], insert ip seen)))))))"

text \<open>The accumulators survive an exception; the flag tells that there was none.\<close>

fun collect_rows :: "pool_env \<Rightarrow> int \<Rightarrow> bool \<Rightarrow> pydict \<Rightarrow> pydict list \<Rightarrow> fetched \<Rightarrow> (fetched \<times> bool) pooled" where
  "collect_rows env limit ignore black [] acc = tret (acc, True)"
| "collect_rows env limit ignore black (row # rest) acc =
     (if limit \<le> int (length (fst acc)) then tret (acc, True)
      else tbind (asked env pv_clock) (\<lambda>now. case take_row env now ignore black row acc of
          Inl _ \<Rightarrow> tret (acc, False) | Inr acc \<Rightarrow> collect_rows env limit ignore black rest acc))"

text \<open>One attempt: whether the catalog was downloaded, and whether its rows were all read.\<close>

definition fetch_attempt ::
  "pool_env \<Rightarrow> string \<Rightarrow> int \<Rightarrow> bool \<Rightarrow> pydict \<Rightarrow> fetched \<Rightarrow> (fetched \<times> bool \<times> bool) pooled" where
  "fetch_attempt env country limit ignore black acc =
     tbind (answered (pe_rows env)) (\<lambda>answer. case answer of
         Inl _ \<Rightarrow> tret (acc, False, False)
       | Inr rows \<Rightarrow>
           tcatch
             (tbind (trescue (\<lambda>e. e = OSError) (store_country_catalog env rows) (\<lambda>_. tret ())) (\<lambda>_.
              tbind (collect_rows env limit ignore black
                (if country = [] then rows else filter_country_rows rows country) acc) (\<lambda>(acc, finished).
              tret (acc, True, finished))))
             (\<lambda>_. tret (acc, False, False)))"

fun fetch_target ::
  "pool_env \<Rightarrow> string \<Rightarrow> int \<Rightarrow> bool \<Rightarrow> pydict \<Rightarrow> nat \<Rightarrow> fetched \<times> bool \<Rightarrow> (fetched \<times> bool) pooled" where
  "fetch_target env country limit ignore black 0 st = tret st"
| "fetch_target env country limit ignore black (Suc n) (acc, succeeded) =
     tbind (fetch_attempt env country limit ignore black acc) (\<lambda>(acc, downloaded, finished).
     if finished then tret (acc, True) else fetch_target env country limit ignore black n (acc, succeeded \<or> downloaded))"

fun fetch_targets ::
  "pool_env \<Rightarrow> string \<Rightarrow> int \<Rightarrow> bool \<Rightarrow> pydict \<Rightarrow> nat \<Rightarrow> nat \<Rightarrow> fetched \<times> bool \<Rightarrow> (fetched \<times> bool) pooled" where
  "fetch_targets env country limit ignore black attempts 0 st = tret st"
| "fetch_targets env country limit ignore black attempts (Suc n) st =
     tbind (fetch_target env country limit ignore black attempts st) (\<lambda>st.
     if snd st then tret st else fetch_targets env country limit ignore black attempts n st)"

text \<open>Three addresses are tried; \<open>set_state\<close> is a write of another file.\<close>

definition fetch_candidates :: "pool_env \<Rightarrow> string \<Rightarrow> int option \<Rightarrow> bool \<Rightarrow> pydict list pooled" where
  "fetch_candidates env country limit ignore =
     tbind (load_black env) (\<lambda>black.
     tbind (nodes_now env) (\<lambda>cached.
     tbind (fetch_targets env (py_upper (py_strip country)) (case limit of None \<Rightarrow> pe_fetch_rows env | Some l \<Rightarrow> l)
       ignore black (if cached = [] then 2 else 1) 3 (([], {}), False)) (\<lambda>((candidates, seen), succeeded).
     tbind (written env id) (\<lambda>_. if succeeded then tret candidates else traise RuntimeError))))"

section \<open>The catalog as the panel shows it\<close>

definition stat_of :: "country_row list \<Rightarrow> string \<Rightarrow> country_row" where
  "stat_of stats code = (case List.find (\<lambda>r. row_code r = code) (rev stats) of Some r \<Rightarrow> r | None \<Rightarrow> new_row code)"

definition candidate_count :: "pydict \<Rightarrow> pyexc + int" where
  "candidate_count item = err_bind (int_or_zero (dgetN item ''candidateCount'')) (\<lambda>n. Inr (max 0 n))"

fun sum_err :: "(pydict \<Rightarrow> pyexc + int) \<Rightarrow> pydict list \<Rightarrow> pyexc + int" where
  "sum_err f [] = Inr 0"
| "sum_err f (d # ds) = err_bind (f d) (\<lambda>n. err_bind (sum_err f ds) (\<lambda>m. Inr (n + m)))"

definition catalog_row :: "pool_env \<Rightarrow> int \<Rightarrow> pydict list \<Rightarrow> country_row list \<Rightarrow> pydict \<Rightarrow> pyexc + ((int \<times> int \<times> int \<times> string) \<times> pydict) option" where
  "catalog_row env official valid stats item =
     (let code = country_field ''code'' item; r = stat_of stats code;
          countries = (\<lambda>n. py_upper (str_or_empty (dgetN n ''country_short''))) ` {n \<in> set valid. truthy (dgetN n ''country_short'')}
      in if \<not> two_letters code then Inr None
      else err_bind (candidate_count item) (\<lambda>n. err_bind (py_float (py_or (dgetN item ''observedAt'') (PInt 0))) (\<lambda>observed.
        Inr (Some ((- freshEgressCount r, - dialableCount r, - residentialCount r, code),
         [(''code'', PStr code), (''name'', PStr (py_str (py_or (dgetN item ''name'') (PStr code)))), (''candidateCount'', PInt n),
          (''observedAt'', PFloat observed), (''officialCandidateTotal'', PInt official),
          (''validNodeCount'', PInt (int (length valid))), (''validCountryCount'', PInt (int (card countries))),
          (''targetValidNodeCount'', PInt (pe_target env)), (''maxValidNodeCount'', PInt (pe_limit env)),
          (''dialableCount'', PInt (dialableCount r)), (''freshEgressCount'', PInt (freshEgressCount r)),
          (''residentialCount'', PInt (residentialCount r)), (''datacenterCount'', PInt (datacenterCount r)),
          (''checkedAt'', PFloat (Fin (checkedAt r))), (''ipQualityPassCount'', PNone),
          (''ipQualityStatus'', PStr ''not_implemented'')])))))"

fun catalog_rows :: "pool_env \<Rightarrow> int \<Rightarrow> pydict list \<Rightarrow> country_row list \<Rightarrow> pydict list \<Rightarrow> pyexc + ((int \<times> int \<times> int \<times> string) \<times> pydict) list" where
  "catalog_rows env official valid stats [] = Inr []"
| "catalog_rows env official valid stats (item # rest) =
     err_bind (catalog_row env official valid stats item) (\<lambda>shown.
     err_bind (catalog_rows env official valid stats rest) (\<lambda>rows. Inr ((case shown of Some r \<Rightarrow> [r] | None \<Rightarrow> []) @ rows)))"

definition country_catalog_snapshot :: "pool_env \<Rightarrow> pydict list pooled" where
  "country_catalog_snapshot env =
     tbind (tget pw_catalog) (\<lambda>file. case file of
         PList raw \<Rightarrow>
           tbind (nodes_now env) (\<lambda>nodes.
           tbind (asked env pv_clock) (\<lambda>now.
           tbind (tlift (err_bind (country_statistics nodes now (pe_freshness env)) (\<lambda>stats.
             err_bind (sum_err candidate_count (node_dicts raw)) (\<lambda>official.
             catalog_rows env official (filter is_available nodes) stats (node_dicts raw))))) (\<lambda>rows.
           tret (map snd (sort_key fst rows)))))
       | _ \<Rightarrow> tret [])"

section \<open>Facts\<close>

lemma name_char_not_space: "name_char c \<Longrightarrow> \<not> py_isspace_char c"
  by (auto simp: name_char_def py_isspace_char_def ascii_upper_char_def ascii_lower_char_def digit_char_def Let_def chr_code_def)

lemma name_char_mark: "name_char (CHR ''_'')"
  by (simp add: name_char_def)

lemma collapse_chars: "c \<in> set (collapse f s) \<Longrightarrow> name_char c"
  by (induction f s rule: collapse.induct) (auto simp: name_char_mark split: if_splits)

lemma safe_name_chars: "c \<in> set (safe_name s) \<Longrightarrow> name_char c"
proof -
  assume c: "c \<in> set (safe_name s)"
  let ?t = "strip_marks (collapse False (py_strip s))"
  have "set ?t \<subseteq> set (collapse False (py_strip s))"
    unfolding strip_marks_def by (auto dest!: set_dropWhileD)
  then have "name_char d" if "d \<in> set ?t" for d using that collapse_chars by blast
  moreover have "list_all name_char ''node''" by code_simp
  ultimately show ?thesis using c by (cases "?t = []") (auto simp: safe_name_def Let_def list_all_iff)
qed

lemma safe_name_tidy [simp]: "py_strip (safe_name s) = safe_name s" "safe_name s \<noteq> []"
proof -
  show ne: "safe_name s \<noteq> []" by (simp add: safe_name_def Let_def)
  have "\<not> py_isspace_char c" if "c \<in> set (safe_name s)" for c
    using that safe_name_chars name_char_not_space by blast
  with ne show "py_strip (safe_name s) = safe_name s" by (intro py_strip_no_space) simp
qed

lemma row_to_node_fields:
  assumes "row_to_node env now row config = Inr node"
  shows "\<exists>s. dgetN node ''id'' = PStr (safe_name s)" "dgetN node ''probe_status'' = PStr ''not_checked''"
    "dgetN node ''ip'' = dget_or row ''IP'' (PStr [])"
  using assms by (auto simp: row_to_node_def err_bind_Inr row_node_id_def split: prod.splits)

text \<open>The candidates collected so far.\<close>

definition fetched_ok :: "pool_env \<Rightarrow> int \<Rightarrow> bool \<Rightarrow> pydict \<Rightarrow> fetched \<Rightarrow> bool" where
  "fetched_ok env limit ignore black acc = (case acc of (candidates, seen) \<Rightarrow>
     (\<forall>n \<in> set candidates. (\<exists>s. dgetN n ''id'' = PStr (safe_name s)) \<and> dgetN n ''probe_status'' = PStr ''not_checked''
        \<and> (ignore \<or> (\<exists>m. cools_down black (pv_clock (pe_view env m)) (plain_id n) = Inr False)))
     \<and> distinct (map (\<lambda>n. dgetN n ''ip'') candidates) \<and> (\<lambda>n. dgetN n ''ip'') ` set candidates = PStr ` seen
     \<and> int (length candidates) \<le> max 0 limit)"

lemma take_row_ok:
  assumes "take_row env (pv_clock (pe_view env m)) ignore black row acc = Inr acc'" "fetched_ok env limit ignore black acc"
    "int (length (fst acc)) < limit"
  shows "fetched_ok env limit ignore black acc'"
proof (cases "acc' = acc")
  case False
  obtain cs seen where acc: "acc = (cs, seen)" by (cases acc)
  let ?ip = "row_text row ''IP''"
  from assms(1) False have "?ip \<noteq> [] \<and> ?ip \<notin> seen \<and> (\<exists>config node. row_to_node env (pv_clock (pe_view env m)) row config = Inr node
      \<and> (ignore \<or> cools_down black (pv_clock (pe_view env m)) (plain_id node) = Inr False) \<and> acc' = (cs @ [node], insert ?ip seen))"
    unfolding take_row_def acc by (auto simp: Let_def err_bind_Inr intro!: exI split: if_splits option.splits sum.splits)
  then obtain config node where ip: "?ip \<noteq> []" "?ip \<notin> seen"
    and node: "row_to_node env (pv_clock (pe_view env m)) row config = Inr node"
    and cool: "ignore \<or> cools_down black (pv_clock (pe_view env m)) (plain_id node) = Inr False"
    and acc': "acc' = (cs @ [node], insert ?ip seen)" by blast
  from ip(1) have v: "dget_or row ''IP'' (PStr []) = PStr ?ip"
    by (auto simp: row_text_def id_text_def split: pyval.splits)
  from node have f: "\<exists>s. dgetN node ''id'' = PStr (safe_name s)" "dgetN node ''probe_status'' = PStr ''not_checked''"
    "dgetN node ''ip'' = PStr ?ip"
    using row_to_node_fields v by simp_all
  have "PStr ?ip \<notin> (\<lambda>n. dgetN n ''ip'') ` set cs"
    using assms(2) ip(2) by (auto simp: fetched_ok_def acc)
  with assms(2,3) f cool show ?thesis by (auto simp: fetched_ok_def acc acc')
qed (use assms in simp)

lemma collect_rows_ok:
  "collect_rows env limit ignore black rows acc w = (Inr (acc', finished), w') \<Longrightarrow> fetched_ok env limit ignore black acc \<Longrightarrow>
   fetched_ok env limit ignore black acc'"
proof (induction rows arbitrary: acc w)
  case (Cons row rows)
  show ?case
  proof (cases "limit \<le> int (length (fst acc))")
    case False
    with Cons.prems(1) have c: "(case take_row env (pv_clock (pe_view env (pw_tick w))) ignore black row acc of
        Inl _ \<Rightarrow> tret (acc, False) | Inr acc \<Rightarrow> collect_rows env limit ignore black rows acc) (ticked w) = (Inr (acc', finished), w')"
      by (simp add: tbind_def asked_def answered_def)
    show ?thesis
    proof (cases "take_row env (pv_clock (pe_view env (pw_tick w))) ignore black row acc")
      case (Inr acc1)
      with c Cons.IH take_row_ok [OF Inr Cons.prems(2)] False show ?thesis by simp
    qed (use c Cons.prems(2) in \<open>simp add: tret_def\<close>)
  qed (use Cons.prems in \<open>simp add: tret_def\<close>)
qed (simp add: tret_def)

lemma fetch_attempt_ok:
  assumes "fetch_attempt env country limit ignore black acc w = (Inr (acc', downloaded, finished), w')"
    "fetched_ok env limit ignore black acc"
  shows "fetched_ok env limit ignore black acc'"
proof -
  have "fetched_ok env limit ignore black (a, b)"
    if "collect_rows env limit ignore black rows acc w1 = (Inr ((a, b), finished), w2)" for rows w1 a b w2 finished
    using collect_rows_ok [OF that assms(2)] .
  with assms show ?thesis unfolding fetch_attempt_def
    by (auto simp: answered_def tret_def tcatch_def elim!: tbind_InrE split: sum.splits prod.splits)
qed

lemma fetch_target_ok:
  "fetch_target env country limit ignore black n st w = (Inr (acc', ok), w') \<Longrightarrow> fetched_ok env limit ignore black (fst st) \<Longrightarrow>
   fetched_ok env limit ignore black acc'"
proof (induction n arbitrary: st w)
  case (Suc n)
  obtain acc succeeded where st: "st = (acc, succeeded)" by (cases st)
  from Suc.prems(1) obtain acc1 downloaded finished w1 where a: "fetch_attempt env country limit ignore black acc w = (Inr (acc1, downloaded, finished), w1)"
    and rest: "(if finished then tret (acc1, True) else fetch_target env country limit ignore black n (acc1, succeeded \<or> downloaded)) w1
      = (Inr (acc', ok), w')"
    by (auto simp: st elim!: tbind_InrE)
  from Suc.prems(2) have "fetched_ok env limit ignore black acc1" using fetch_attempt_ok [OF a] by (simp add: st)
  with rest Suc.IH show ?case by (fastforce simp: tret_def split: if_splits)
qed (simp add: tret_def)

lemma fetch_targets_ok:
  "fetch_targets env country limit ignore black attempts n st w = (Inr (acc', ok), w') \<Longrightarrow> fetched_ok env limit ignore black (fst st) \<Longrightarrow>
   fetched_ok env limit ignore black acc'"
proof (induction n arbitrary: st w)
  case (Suc n)
  from Suc.prems(1) obtain st1 w1 where a: "fetch_target env country limit ignore black attempts st w = (Inr st1, w1)"
    and rest: "(if snd st1 then tret st1 else fetch_targets env country limit ignore black attempts n st1) w1 = (Inr (acc', ok), w')"
    by (auto elim!: tbind_InrE)
  have "fetched_ok env limit ignore black (fst st1)"
    using fetch_target_ok [of env country limit ignore black attempts st w "fst st1" "snd st1"] a Suc.prems(2) by simp
  with rest Suc.IH show ?case by (fastforce simp: tret_def split: if_splits)
qed (simp add: tret_def)

text \<open>The candidates are fit for the pool: tidy identifiers, distinct addresses.\<close>

lemma fetch_candidates_run:
  assumes "fetch_candidates env country limit ignore w = (Inr candidates, w')"
  shows "\<exists>black seen w1. load_black env w = (Inr black, w1)
    \<and> fetched_ok env (case limit of None \<Rightarrow> pe_fetch_rows env | Some l \<Rightarrow> l) ignore black (candidates, seen)"
proof -
  let ?l = "case limit of None \<Rightarrow> pe_fetch_rows env | Some l \<Rightarrow> l"
  from assms obtain black w0 attempts w1 seen ok w2 where b: "load_black env w = (Inr black, w0)" and
    "fetch_targets env (py_upper (py_strip country)) ?l ignore black attempts 3 (([], {}), False) w1 = (Inr ((candidates, seen), ok), w2)"
    unfolding fetch_candidates_def
    by (elim tbind_InrE) (auto simp: tret_def traise_def elim!: tbind_InrE split: prod.splits if_splits)
  from b fetch_targets_ok [OF this(2)] show ?thesis by (auto simp: fetched_ok_def)
qed

definition fit_candidates :: "pydict list \<Rightarrow> bool" where
  "fit_candidates ns = (\<forall>n \<in> set ns. \<exists>s. dgetN n ''id'' = PStr (safe_name s))"

lemma fit_candidates_plain:
  assumes "fit_candidates ns" "n \<in> set ns"
  shows "plain_id n = node_id n" "node_id n \<noteq> []"
proof -
  from assms obtain s where "dgetN n ''id'' = PStr (safe_name s)" by (auto simp: fit_candidates_def)
  then show "plain_id n = node_id n" "node_id n \<noteq> []" by (simp_all add: plain_id_def node_id_def)
qed

lemma fetched_fit: "fetch_candidates env country limit ignore w = (Inr candidates, w') \<Longrightarrow> fit_candidates candidates"
  using fetch_candidates_run by (fastforce simp: fetched_ok_def fit_candidates_def)

text \<open>The counts of the catalog.\<close>

definition counted :: "country_counts \<Rightarrow> string \<Rightarrow> int" where
  "counted counts code = (case map_of counts code of None \<Rightarrow> 0 | Some (name, n) \<Rightarrow> n)"

lemma counted_row:
  "counted (count_row env row counts) code = counted counts code
     + (if two_letters code \<and> country_field ''CountryShort'' row = code then 1 else 0)"
  by (auto simp: counted_def count_row_def Let_def update_conv split: option.splits prod.splits)

lemma counted_rows:
  "counted (fold (count_row env) rows counts) code = counted counts code
     + (if two_letters code then int (length (filter (\<lambda>r. country_field ''CountryShort'' r = code) rows)) else 0)"
  by (induction rows arbitrary: counts) (simp_all add: counted_row)

lemma keys_rows:
  "fst ` set (fold (count_row env) rows counts) = fst ` set counts \<union> {c. two_letters c \<and> c \<in> country_field ''CountryShort'' ` set rows}"
proof (induction rows arbitrary: counts)
  case (Cons row rows)
  have "fst ` set (count_row env row counts) = fst ` set counts
      \<union> (if two_letters (country_field ''CountryShort'' row) then {country_field ''CountryShort'' row} else {})"
    by (auto simp: count_row_def Let_def dom_update image_image split: prod.splits option.splits)
  with Cons show ?case by auto
qed simp

section \<open>Properties\<close>

text \<open>The statistics of the catalog are right: there is one row for each country code of two
  letters that occurs, in order, and it counts exactly the rows of that country.\<close>

theorem build_country_catalog_correct:
  "map (\<lambda>d. dgetN d ''code'') (build_country_catalog env rows now)
     = map PStr (sorted_set (filter two_letters (map (country_field ''CountryShort'') rows)))
   \<and> list_all (\<lambda>d. dgetN d ''candidateCount''
       = PInt (int (length (filter (\<lambda>r. PStr (country_field ''CountryShort'' r) = dgetN d ''code'') rows))))
     (build_country_catalog env rows now)"
proof -
  let ?counts = "fold (count_row env) rows []"
  let ?codes = "sorted_set (filter two_letters (map (country_field ''CountryShort'') rows))"
  have keys: "set (map fst ?counts) = set ?codes" using keys_rows [of env rows "[]"] by auto
  have eq: "sorted_set (map fst ?counts) = ?codes"
    using keys by (intro sorted_distinct_set_unique) (simp_all add: sorted_set_def)
  have row: "\<exists>name. map_of ?counts c = Some (name, int (length (filter (\<lambda>r. country_field ''CountryShort'' r = c) rows)))"
    if "c \<in> set ?codes" for c
  proof -
    from that keys have "c \<in> fst ` set ?counts" by simp
    then obtain p where p: "map_of ?counts c = Some p" by (metis map_of_eq_None_iff not_None_eq)
    have "two_letters c" using that by simp
    with counted_rows [of env rows "[]" c] p show ?thesis by (cases p) (simp add: counted_def)
  qed
  show ?thesis
  proof
    show "map (\<lambda>d. dgetN d ''code'') (build_country_catalog env rows now) = map PStr ?codes"
      unfolding build_country_catalog_def Let_def eq using row by (fastforce simp: o_def)
    show "list_all (\<lambda>d. dgetN d ''candidateCount''
       = PInt (int (length (filter (\<lambda>r. PStr (country_field ''CountryShort'' r) = dgetN d ''code'') rows))))
     (build_country_catalog env rows now)"
      unfolding build_country_catalog_def Let_def eq list_all_iff using row by fastforce
  qed
qed

text \<open>C24. What is fetched is fit for the pool: however the downloads, retries and files go, the
  candidates have pairwise distinct addresses and identifiers that need no cleaning, none has been
  checked yet, there are at most as many as asked for, and unless the cooldown is to be ignored
  none of them cools down.\<close>

theorem fetch_candidates_correct:
  assumes "fetch_candidates env country limit ignore w = (Inr candidates, w')"
  shows "distinct (map (\<lambda>n. dgetN n ''ip'') candidates) \<and> fit_candidates candidates
    \<and> (\<forall>n \<in> set candidates. dgetN n ''probe_status'' = PStr ''not_checked'')
    \<and> int (length candidates) \<le> max 0 (case limit of None \<Rightarrow> pe_fetch_rows env | Some l \<Rightarrow> l)
    \<and> (ignore \<or> (\<exists>black w1. load_black env w = (Inr black, w1) \<and> (\<forall>n \<in> set candidates. \<exists>m. cools_down black (pv_clock (pe_view env m)) (node_id n) = Inr False)))"
proof -
  from fetch_candidates_run [OF assms] obtain black seen w1 where b: "load_black env w = (Inr black, w1)" and
    ok: "fetched_ok env (case limit of None \<Rightarrow> pe_fetch_rows env | Some l \<Rightarrow> l) ignore black (candidates, seen)" by blast
  from fetched_fit [OF assms] have fit: "fit_candidates candidates" .
  have p: "\<forall>n \<in> set candidates. plain_id n = node_id n" using fit_candidates_plain(1) [OF fit] by blast
  show ?thesis
  proof (cases ignore)
    case False
    with ok p have "\<forall>n \<in> set candidates. \<exists>m. cools_down black (pv_clock (pe_view env m)) (node_id n) = Inr False"
      by (auto simp: fetched_ok_def)
    with ok fit b show ?thesis by (auto simp: fetched_ok_def)
  qed (use ok fit in \<open>auto simp: fetched_ok_def\<close>)
qed

definition offered_row :: "string \<Rightarrow> string \<Rightarrow> pydict" where
  "offered_row ip config = [(''IP'', PStr ip), (''CountryShort'', PStr ''JP''), (''CountryLong'', PStr ''Japan''),
     (''OpenVPN_ConfigData_Base64'', PStr config)]"

definition offered_rows :: "pydict list" where
  "offered_rows = [offered_row ''1.2.3.4'' ''remote x 443'', offered_row ''1.2.3.4'' ''proto udp'']"

text \<open>A fetch, evaluated step by step.\<close>

definition offered_node :: pydict where
  "offered_node = (case row_to_node (quiet_env {} offered_rows) 1000 (offered_row ''1.2.3.4'' ''remote x 443'') ''remote x 443'' of
     Inr n \<Rightarrow> n | Inl e \<Rightarrow> [])"

lemma quiet_written: "written (quiet_env good rows) f w = (Inr (), f (ticked w))"
  by (simp add: written_def answered_def tbind_def tput_def quiet_env_def)

lemma quiet_asked: "asked (quiet_env good rows) f w = (Inr (f quiet_view), ticked w)"
  by (simp add: asked_def answered_def quiet_env_def)

lemma quiet_collected:
  "collect_rows (quiet_env {} offered_rows) 100 ignore [] offered_rows ([], {}) w
     = (Inr (([offered_node], {''1.2.3.4''}), True), ticked (ticked w))"
proof -
  have c: "pv_clock quiet_view = 1000" by (simp add: quiet_view_def)
  have "take_row (quiet_env {} offered_rows) 1000 True [] (offered_row ''1.2.3.4'' ''remote x 443'') ([], {})
      = Inr ([offered_node], {''1.2.3.4''})"
    "take_row (quiet_env {} offered_rows) 1000 False [] (offered_row ''1.2.3.4'' ''remote x 443'') ([], {})
      = Inr ([offered_node], {''1.2.3.4''})" by code_simp+
  then have "take_row (quiet_env {} offered_rows) 1000 ignore [] (offered_row ''1.2.3.4'' ''remote x 443'') ([], {})
      = Inr ([offered_node], {''1.2.3.4''})" by (cases ignore) simp_all
  moreover have "take_row (quiet_env {} offered_rows) 1000 ignore [] (offered_row ''1.2.3.4'' ''proto udp'') ([offered_node], {''1.2.3.4''})
      = Inr ([offered_node], {''1.2.3.4''})"
    by (simp add: take_row_def row_text_def offered_row_def id_text_def)
  ultimately show ?thesis
    by (subst offered_rows_def) (simp add: tbind_def quiet_asked c tret_def)
qed

definition offered_catalog :: "pydict list" where
  "offered_catalog = build_country_catalog (quiet_env {} offered_rows) offered_rows 1000"

definition offered_metadata :: "pyval \<Rightarrow> pyval" where
  "offered_metadata file = PDict (known_metadata (dupdate (load_pool_metadata file)
     [(''officialCandidateCount'', PInt (catalog_numbers offered_catalog)), (''officialCountryCount'', PInt (int (length offered_catalog))),
      (''observedAt'', PFloat (Fin (if offered_catalog = [] then 0 else 1000)))]))"

text \<open>Storing the catalog changes the two files of the catalog.\<close>

lemma quiet_stored:
  "store_country_catalog (quiet_env {} offered_rows) offered_rows w
     = (Inr (), (w\<lparr>pw_catalog := PList (map PDict offered_catalog), pw_metadata := offered_metadata (pw_metadata w), pw_tick := pw_tick w + 3\<rparr>))"
proof -
  have c: "pv_clock quiet_view = 1000" by (simp add: quiet_view_def)
  show ?thesis
    by (cases w) (simp add: store_country_catalog_def store_pool_metadata_def quiet_asked quiet_written tbind_def tget_def Let_def c
        offered_catalog_def [symmetric] offered_metadata_def ticked_def)
qed

lemma quiet_attempt:
  "fetch_attempt (quiet_env {} offered_rows) ''JP'' 100 ignore [] ([], {}) w
     = (Inr (([offered_node], {''1.2.3.4''}), True, True),
        w\<lparr>pw_catalog := PList (map PDict offered_catalog), pw_metadata := offered_metadata (pw_metadata w), pw_tick := pw_tick w + 6\<rparr>)"
proof -
  have f: "filter_country_rows offered_rows ''JP'' = offered_rows" by code_simp
  have r: "pe_rows (quiet_env {} offered_rows) n = Inr offered_rows" for n by (simp add: quiet_env_def)
  show ?thesis
    by (simp add: fetch_attempt_def answered_def r tcatch_def trescue_def tbind_def f quiet_stored quiet_collected tret_def ticked_def)
qed

lemma fetch_candidates_correct_witness:
  "\<exists>candidates. fst (fetch_candidates (quiet_env {} offered_rows) ''jp'' None False (quiet_world [])) = Inr candidates
     \<and> map node_id candidates = [''JP_1.2.3.4_443_unknown''] \<and> distinct (map (\<lambda>n. dgetN n ''ip'') candidates)"
proof -
  let ?run = "fetch_candidates (quiet_env {} offered_rows) ''jp'' None False (quiet_world [])"
  have c: "py_upper (py_strip ''jp'') = ''JP''" by code_simp
  have n: "pe_fetch_rows (quiet_env {} offered_rows) = 100" by (simp add: quiet_env_def)
  have st: "load_black (quiet_env {} offered_rows) (quiet_world []) = (Inr [], ticked (quiet_world []))"
    "nodes_now (quiet_env {} offered_rows) (ticked (quiet_world [])) = (Inr [], ticked (ticked (quiet_world [])))" by code_simp+
  obtain w1 where a: "fetch_attempt (quiet_env {} offered_rows) ''JP'' 100 False [] ([], {}) (ticked (ticked (quiet_world [])))
      = (Inr (([offered_node], {''1.2.3.4''}), True, True), w1)" using quiet_attempt by metis
  have "\<exists>w'. ?run = (Inr [offered_node], w')"
    by (simp add: fetch_candidates_def tbind_def st c n a quiet_written tret_def numeral_2_eq_2 numeral_3_eq_3)
  then obtain w' where run: "?run = (Inr [offered_node], w')" by blast
  have "node_id offered_node = ''JP_1.2.3.4_443_unknown''" by code_simp
  with fetch_candidates_correct [OF run] run show ?thesis by simp
qed

end
