(* ===== verification/Country_Refresh.thy ===== *)
theory Country_Refresh
  imports Pool_Replenish Pool_Catalog
begin

text \<open>
  The refresh of one country (\<open>refresh_country_nodes\<close>): every candidate of the country is
  probed, one at a time; what passed and what was good before is merged into the pool, what
  failed leaves it. A \<open>scan\<close> is the state of the probing loop, \<open>scan_args\<close> what the
  loop does not change. The loop takes fuel, one more than the probes it may make.
\<close>

section \<open>What a refresh knows before it starts\<close>

definition scan_key :: "pydict \<Rightarrow> pyexc + int \<times> int \<times> string" where
  "scan_key n = err_bind (int_or_zero (py_or (dgetN n ''latency_ms'') (dgetN n ''ping''))) (\<lambda>latency.
     Inr (if residential_kind (py_lower (str_or_empty (dgetN n ''ip_type''))) then 0 else 1,
       if latency = 0 then 999999 else latency, plain_id n))"

definition catalog_count :: "pydict list \<Rightarrow> pyexc + int" where
  "catalog_count catalog = sum_err candidate_count catalog"

definition official_count :: "string \<Rightarrow> pydict list \<Rightarrow> pyexc + int" where
  "official_count country catalog = sum_err candidate_count (filter (\<lambda>d. country_field ''code'' d = country) catalog)"

definition refresh_protected :: "string set \<Rightarrow> pool_view \<Rightarrow> pyexc + string set" where
  "refresh_protected manual v = err_bind (reserved_slot_candidate_ids None (pv_stock v)) (\<lambda>reserved.
     Inr ((protected_set v reserved \<union> su_coordinator (pv_stock v)) - manual))"

definition available_in :: "string \<Rightarrow> pydict \<Rightarrow> bool" where
  "available_in country n = (node_country n = country \<and> is_available n)"

definition available_ids :: "string \<Rightarrow> pydict list \<Rightarrow> string set" where
  "available_ids country ns = node_id ` {n \<in> set ns. available_in country n} - {[]}"

section \<open>The scan\<close>

record scan =
  sc_selected :: "pydict list"
  sc_black :: pydict
  sc_tested :: "string set"
  sc_count :: int
  sc_passed :: "string set"
  sc_failed :: "string set"

record scan_args =
  sa_country :: string
  sa_candidates :: "pydict list"
  sa_explicit :: bool
  sa_full :: bool
  sa_selection :: int
  sa_probes :: int
  sa_preferred :: "string set"
  sa_before :: "string set"
  sa_held :: bool

definition refusal :: "string \<Rightarrow> string \<Rightarrow> pydict" where
  "refusal country code = [(''state'', PStr ''failed''), (''country'', PStr country),
     (''resultCode'', PStr code), (''errorCode'', PStr code)]"

definition scan_refusal :: "scan_args \<Rightarrow> string \<Rightarrow> int \<Rightarrow> pydict" where
  "scan_refusal a code tested = refusal (sa_country a) code
     @ [(''testedCount'', PInt tested), (''validCount'', PInt (int (card (sa_before a))))]"

text \<open>\<open>probe_nodes\<close> on a batch; the batch is recorded whether or not the call returns.\<close>

definition probed :: "pool_env \<Rightarrow> pydict list \<Rightarrow> pydict list pooled" where
  "probed env batch w =
     (let r = pe_probe env (pw_tick w) batch;
          answers = (case r of Inl _ \<Rightarrow> [] | Inr results \<Rightarrow> results)
      in (r, (ticked w)\<lparr>pw_probes := pw_probes w @ [(batch, answers)]\<rparr>))"

definition progress :: "scan_args \<Rightarrow> pydict \<Rightarrow> unit pooled" where
  "progress a updates = (if sa_held a then set_country_refresh updates else tret ())"

datatype scan_step = Refused pydict | Exhausted | Scanned scan

definition scan_batch :: "pool_env \<Rightarrow> scan_args \<Rightarrow> scan \<Rightarrow> pydict list \<Rightarrow> scan_step pooled" where
  "scan_batch env a sc batch =
     tbind (probed env batch) (\<lambda>answers.
     tbind (asked env pv_clock) (\<lambda>missed.
     tbind (asked env pv_clock) (\<lambda>marked.
     tbind (asked env pv_clock) (\<lambda>now.
     let results = complete_results env node_id missed batch answers;
         tested = sc_count sc + int (length batch);
         passed = sc_passed sc \<union> (node_id ` {n \<in> set results. is_available n} - {[]});
         (selected, failed) = merge_probe_results (sc_selected sc) results (sa_selection a);
         failures = sc_failed sc \<union> (node_id ` set failed - {[]})
     in tbind (progress a [(''testedCount'', PInt tested), (''passedCount'', PInt (int (card passed))),
           (''failedCount'', PInt (int (card failures)))]) (\<lambda>_.
        tret (Scanned \<lparr>sc_selected = selected,
          sc_black = note_failed env node_id marked (now + pe_cooldown env) failed (forget_passed node_id results (sc_black sc)),
          sc_tested = sc_tested sc \<union> node_id ` set batch, sc_count = tested, sc_passed = passed, sc_failed = failures\<rparr>))))))"

definition scan_size :: "scan_args \<Rightarrow> scan \<Rightarrow> int" where
  "scan_size a sc = (let remaining = sa_probes a - sc_count sc in
     min 1 (min remaining (if sa_full a then remaining else sa_selection a - int (length (sc_selected sc)))))"

definition scan_round :: "pool_env \<Rightarrow> scan_args \<Rightarrow> scan \<Rightarrow> scan_step pooled" where
  "scan_round env a sc =
     tbind (asked env pool_maintenance_should_yield) (\<lambda>yielding.
     if yielding then tret (Refused (scan_refusal a ''recovery_priority'' (sc_count sc))) else
     tbind (asked env pv_clock) (\<lambda>now.
     tbind (tlift (candidate_queue (sa_candidates a) (sc_selected sc)
       (if sa_explicit a then (\<lambda>_. None) else black_rows (sc_black sc)) (sc_tested sc) now (sa_preferred a))) (\<lambda>queue.
     if queue = [] then tret Exhausted else
     tbind (asked env pv_facts) (\<lambda>facts.
     if \<not> pool_probe_allowed facts then tret (Refused (scan_refusal a ''resource_pressure'' (sc_count sc)))
     else scan_batch env a sc (take (nat (scan_size a sc)) queue)))))"

definition scan_open :: "scan_args \<Rightarrow> scan \<Rightarrow> bool" where
  "scan_open a sc = (sc_count sc < sa_probes a \<and> (sa_full a \<or> int (length (sc_selected sc)) < sa_selection a))"

definition start_reason :: "scan_args \<Rightarrow> string" where
  "start_reason a = (if sa_full a then ''candidates_exhausted'' else ''target_reached'')"

text \<open>\<open>None\<close>: out of fuel; \<open>Inl\<close>: an early answer; \<open>Inr\<close>: the scan with its reason.\<close>

fun scan_loop :: "pool_env \<Rightarrow> scan_args \<Rightarrow> nat \<Rightarrow> scan \<Rightarrow> (pydict + string \<times> scan) option pooled" where
  "scan_loop env a 0 sc = tret None"
| "scan_loop env a (Suc fuel) sc =
     (if scan_open a sc
      then tbind (scan_round env a sc) (\<lambda>step. case step of
             Refused answer \<Rightarrow> tret (Some (Inl answer))
           | Exhausted \<Rightarrow> tret (Some (Inr (''candidates_exhausted'', sc)))
           | Scanned sc \<Rightarrow> scan_loop env a fuel sc)
      else tret (Some (Inr (start_reason a, sc))))"

definition stop_reason :: "scan_args \<Rightarrow> scan \<Rightarrow> string \<Rightarrow> string" where
  "stop_reason a sc reason =
     (if sa_probes a \<le> sc_count sc \<and> ((\<not> sa_full a \<and> int (length (sc_selected sc)) < sa_selection a)
         \<or> (sa_full a \<and> sa_probes a < int (length (sa_candidates a))))
      then ''probe_limit_reached'' else reason)"

section \<open>Merging the result\<close>

fun write_configs :: "pool_env \<Rightarrow> pydict list \<Rightarrow> unit pooled" where
  "write_configs env [] = tret ()"
| "write_configs env (n # ns) =
     (if str_or_empty (dgetN n ''config_file'') = [] \<or> str_or_empty (dgetN n ''config_text'') = [] then write_configs env ns
      else tbind (answered (\<lambda>t. pe_absent env t n)) (\<lambda>absent.
        tbind (if absent then written env id else tret ()) (\<lambda>_. write_configs env ns)))"

definition manual_ids_of :: "scan_args \<Rightarrow> string set \<Rightarrow> scan \<Rightarrow> string set" where
  "manual_ids_of a protected sc =
     (node_id ` {n \<in> set (sc_selected sc). is_available n \<and> node_id n \<notin> protected}) - sa_before a"

definition merged_pool :: "pool_env \<Rightarrow> scan_args \<Rightarrow> string set \<Rightarrow> pydict list \<Rightarrow> scan \<Rightarrow> pyexc + pydict list" where
  "merged_pool env a protected existing sc =
     rebalance_valid_pool (filter (\<lambda>n. node_id n \<notin> sc_failed sc) existing) (sc_selected sc) protected
       (manual_ids_of a protected sc) (pe_limit env)"

definition refresh_result :: "pool_env \<Rightarrow> scan_args \<Rightarrow> int \<Rightarrow> int \<Rightarrow> int \<Rightarrow> string \<Rightarrow> scan \<Rightarrow> pydict list \<Rightarrow> rat \<Rightarrow> pydict" where
  "refresh_result env a catalog official preserved reason sc merged now =
     (let available = available_ids (sa_country a) merged; valid = int (card available) in
      [(''state'', PStr ''completed''), (''country'', PStr (sa_country a)),
       (''resultCode'', PStr (if official = 0 then ''no_official_candidates'' else if 0 < valid then ''success'' else ''no_usable_nodes'')),
       (''catalogCount'', PInt catalog), (''officialCount'', PInt official),
       (''countryCandidateCount'', PInt (int (length (sa_candidates a)))), (''testedCount'', PInt (sc_count sc)),
       (''passedCount'', PInt (int (card (sc_passed sc)))), (''failedCount'', PInt (int (card (sc_failed sc)))),
       (''revalidatedCount'', PInt (int (card (sc_passed sc \<inter> sa_before a)))), (''usableCount'', PInt valid),
       (''newUsableCount'', PInt (int (card (available - sa_before a)))),
       (''retainedCount'', PInt (int (card (available \<inter> sa_before a)))), (''validCount'', PInt valid),
       (''preservedCount'', PInt preserved), (''stopReason'', PStr reason), (''cacheTotal'', PInt (int (length merged))),
       (''countryValidCount'', PInt valid), (''targetValidNodeCount'', PInt (pe_target env)),
       (''maxValidNodeCount'', PInt (pe_limit env)), (''finishedAt'', PFloat (Fin now)), (''errorCode'', PStr [])])"

definition kept_metadata :: "pydict \<Rightarrow> string set \<Rightarrow> int \<Rightarrow> pydict \<Rightarrow> pydict" where
  "kept_metadata metadata manual rnd result =
     dset (dset (dset metadata ''manualProtectedIds'' (PList (map PStr (sorted_list_of_set manual))))
       ''manualProtectionExpiresRound'' (PInt (rnd + 1))) ''lastRefresh'' (PDict result)"

definition maintenance_round :: "pydict \<Rightarrow> pyexc + int" where
  "maintenance_round metadata = py_int (py_or (dgetN metadata ''maintenanceRound'') (PInt 0))"

text \<open>The last two writes are the clean-up of old configurations and \<open>set_state\<close>.\<close>

definition merge_scan :: "pool_env \<Rightarrow> scan_args \<Rightarrow> string set \<Rightarrow> pydict list \<Rightarrow> int \<Rightarrow> int \<Rightarrow> int \<Rightarrow> string \<Rightarrow> scan \<Rightarrow> pydict pooled" where
  "merge_scan env a protected existing catalog official preserved reason sc =
     tbind (asked env pool_maintenance_should_yield) (\<lambda>yielding.
     if yielding then tret (scan_refusal a ''recovery_priority'' (sc_count sc)) else
     tbind (progress a [(''phase'', PStr ''merging'')]) (\<lambda>_.
     tbind (tget (\<lambda>w. load_pool_metadata (pw_metadata w))) (\<lambda>metadata.
     tbind (tlift (merged_pool env a protected existing sc)) (\<lambda>merged.
     tbind (write_configs env merged) (\<lambda>_.
     tbind (store_black env (sc_black sc)) (\<lambda>_.
     tbind (store_nodes env merged) (\<lambda>_.
     tbind (written env id) (\<lambda>_.
     tbind (asked env pv_clock) (\<lambda>now.
     let result = refresh_result env a catalog official preserved (stop_reason a sc reason) sc merged now in
     tbind (tlift (maintenance_round metadata)) (\<lambda>rnd.
     tbind (store_pool_metadata env (kept_metadata metadata (manual_ids_of a protected sc) rnd result)) (\<lambda>_.
     tbind (written env id) (\<lambda>_. tret result))))))))))))"

section \<open>The refresh\<close>

definition upstream_failed :: "string \<Rightarrow> pydict list \<Rightarrow> rat \<Rightarrow> pydict" where
  "upstream_failed country existing now = refusal country ''upstream_unavailable''
     @ [(''officialCount'', PInt 0), (''testedCount'', PInt 0), (''usableCount'', PInt 0), (''retainedCount'', PInt 0),
        (''cacheTotal'', PInt (int (length existing))), (''finishedAt'', PFloat (Fin now))]"

definition fetch_country :: "pool_env \<Rightarrow> string \<Rightarrow> bool \<Rightarrow> (pydict list \<times> pydict list) option pooled" where
  "fetch_country env country explicit =
     tcatch (tbind (fetch_candidates env country None explicit) (\<lambda>candidates.
             tbind (country_catalog_snapshot env) (\<lambda>catalog. tret (Some (candidates, catalog)))))
       (\<lambda>_. tret None)"

definition args_of ::
  "pool_env \<Rightarrow> string \<Rightarrow> int option \<Rightarrow> int option \<Rightarrow> bool \<Rightarrow> pydict list \<Rightarrow> pydict list \<Rightarrow> string set \<Rightarrow> int \<Rightarrow> scan_args" where
  "args_of env country target probes held candidates existing protected preserved =
     \<lparr>sa_country = country, sa_candidates = candidates, sa_explicit = (target = None \<and> probes = None), sa_full = (target = None),
      sa_selection = (case target of None \<Rightarrow> pe_limit env | Some t \<Rightarrow> max preserved (min (pe_limit env) (max 0 t))),
      sa_probes = (case probes of None \<Rightarrow> int (length candidates) | Some p \<Rightarrow> max 0 (min (int (length candidates)) p)),
      sa_preferred = node_id ` {n \<in> set existing. available_in country n \<and> node_id n \<notin> protected},
      sa_before = available_ids country existing, sa_held = held\<rparr>"

definition first_scan :: "pydict list \<Rightarrow> pydict \<Rightarrow> scan" where
  "first_scan selected black = \<lparr>sc_selected = selected, sc_black = black, sc_tested = {}, sc_count = 0, sc_passed = {}, sc_failed = {}\<rparr>"

definition scan_and_merge ::
  "pool_env \<Rightarrow> scan_args \<Rightarrow> string set \<Rightarrow> pydict list \<Rightarrow> pydict list \<Rightarrow> int \<Rightarrow> int \<Rightarrow> pydict option pooled" where
  "scan_and_merge env a protected existing selected catalog official =
     tbind (load_black env) (\<lambda>black.
     tbind (scan_loop env a (Suc (nat (sa_probes a))) (first_scan selected black)) (\<lambda>ended. case ended of
         None \<Rightarrow> tret None
       | Some (Inl answer) \<Rightarrow> tret (Some answer)
       | Some (Inr (reason, sc)) \<Rightarrow>
           tbind (merge_scan env a protected existing catalog official (int (length selected)) reason sc) (\<lambda>d. tret (Some d))))"

definition refresh_fetched ::
  "pool_env \<Rightarrow> string \<Rightarrow> int option \<Rightarrow> int option \<Rightarrow> bool \<Rightarrow> string set \<Rightarrow> pydict list \<Rightarrow> pydict list \<Rightarrow> pydict list
    \<Rightarrow> pydict option pooled" where
  "refresh_fetched env country target probes held manual existing fresh catalog =
     tbind (tlift (sorted_by scan_key fresh)) (\<lambda>candidates.
     tbind (tlift (catalog_count catalog)) (\<lambda>total.
     tbind (tlift (official_count country catalog)) (\<lambda>official.
     tbind (if held then set_country_refresh [(''phase'', PStr ''probing''), (''catalogCount'', PInt total),
         (''officialCount'', PInt official), (''countryCandidateCount'', PInt (int (length candidates)))] else tret ()) (\<lambda>_.
     tbind (asked env (refresh_protected manual)) (\<lambda>ids.
     tbind (tlift ids) (\<lambda>protected.
     let selected = filter (\<lambda>n. available_in country n \<and> node_id n \<in> protected) existing in
     scan_and_merge env (args_of env country target probes held candidates existing protected (int (length selected)))
       protected existing selected total official))))))"

definition refresh_held :: "pool_env \<Rightarrow> string \<Rightarrow> int option \<Rightarrow> int option \<Rightarrow> bool \<Rightarrow> pydict option pooled" where
  "refresh_held env country target probes held =
     tbind (asked env (manual_required_candidate_ids env)) (\<lambda>manual.
     tbind (nodes_now env) (\<lambda>nodes.
     let existing = filter (\<lambda>n. node_id n \<notin> manual) nodes in
     tbind (fetch_country env country (target = None \<and> probes = None)) (\<lambda>fetched. case fetched of
         None \<Rightarrow> tbind (asked env pv_clock) (\<lambda>now. tret (Some (upstream_failed country existing now)))
       | Some (fresh, catalog) \<Rightarrow> refresh_fetched env country target probes held manual existing fresh catalog)))"

text \<open>The maintenance lock: taken here unless the caller holds it, and given back in every case.\<close>

definition refresh_country_nodes :: "pool_env \<Rightarrow> string \<Rightarrow> int option \<Rightarrow> int option \<Rightarrow> bool \<Rightarrow> pydict option pooled" where
  "refresh_country_nodes env country target probes held =
     (let country = py_upper (py_strip country) in
      if \<not> two_letters country
      then tret (Some [(''state'', PStr ''failed''), (''country'', PStr country), (''errorCode'', PStr ''invalid_country'')])
      else tbind (asked env pv_background_allowed) (\<lambda>allowed.
        if \<not> allowed then tret (Some (refusal country ''operation_busy'')) else
        tbind (tget pw_maintenance) (\<lambda>locked.
        if \<not> held \<and> locked then tret (Some (refusal country ''maintenance_busy''))
        else if held then refresh_held env country target probes held
        else tbind (tput (pw_maintenance_update (\<lambda>_. True))) (\<lambda>_.
          tfinally (refresh_held env country target probes held) (tput (pw_maintenance_update (\<lambda>_. False)))))))"

end
