(* ===== verification/Refresh_Safety.thy ===== *)
theory Refresh_Safety
  imports Country_Refresh
begin

text \<open>
  Why a refresh is safe. \<open>undisturbed\<close> says that the node file and the maintenance lock
  are as they were; all steps but the one that stores the merged pool keep it. \<open>scan_ok\<close>
  relates the state of the scan to the probes made, so what the merged pool holds is known from the
  answers of the probes.
\<close>

section \<open>Steps that leave the pool alone\<close>

definition undisturbed :: "pyval \<Rightarrow> bool \<Rightarrow> (pydict list \<times> pydict list) list \<Rightarrow> pool_world \<Rightarrow> bool" where
  "undisturbed v b ps w = (nodes_are v w \<and> pw_maintenance w = b \<and> pw_probes w = ps)"

lemma undisturbed_ticked [simp]: "undisturbed v b ps (ticked w) = undisturbed v b ps w"
  by (simp add: undisturbed_def nodes_are_def ticked_def)

lemma keeps_answered [keeps_intros]: "keeps (undisturbed v b ps) (answered f)"
  by (simp add: keeps_def answered_def)

lemma keeps_asked [keeps_intros]: "keeps (undisturbed v b ps) (asked env f)"
  unfolding asked_def by (rule keeps_answered)

lemma keeps_written:
  "(\<And>w. undisturbed v b ps w \<Longrightarrow> undisturbed v b ps (f w)) \<Longrightarrow> keeps (undisturbed v b ps) (written env f)"
  unfolding written_def by (intro keeps_intros) auto

lemma keeps_set_refresh [keeps_intros]: "keeps (undisturbed v b ps) (set_country_refresh d)"
  unfolding set_country_refresh_def by (intro keeps_intros) (simp add: undisturbed_def nodes_are_def)

lemma keeps_progress [keeps_intros]: "keeps (undisturbed v b ps) (progress a d)"
  unfolding progress_def by (intro keeps_intros)

lemma keeps_on_store:
  assumes "\<And>now ok st a st'. f now ok st = Inr (a, st') \<Longrightarrow> stored_nodes st' = stored_nodes st"
  shows "keeps (undisturbed v b ps) (on_store env f)"
  using assms unfolding keeps_def on_store_def
  by (fastforce simp: undisturbed_def nodes_are_def ticked_def split: sum.splits prod.splits)

lemma keeps_load_black [keeps_intros]: "keeps (undisturbed v b ps) (load_black env)"
  unfolding load_black_def by (rule keeps_on_store) (rule load_blacklist_nodes)

lemma keeps_nodes_now [keeps_intros]: "keeps (undisturbed v b ps) (nodes_now env)"
  unfolding nodes_now_def by (rule keeps_on_store) (rule read_nodes_nodes)

lemma keeps_store_black [keeps_intros]: "keeps (undisturbed v b ps) (store_black env d)"
  unfolding store_black_def by (rule keeps_written) (simp add: undisturbed_def nodes_are_def)

lemma keeps_store_metadata [keeps_intros]: "keeps (undisturbed v b ps) (store_pool_metadata env d)"
  unfolding store_pool_metadata_def by (rule keeps_written) (simp add: undisturbed_def nodes_are_def)

lemma keeps_written_id [keeps_intros]: "keeps (undisturbed v b ps) (written env id)"
  by (rule keeps_written) simp

lemma keeps_write_configs [keeps_intros]: "keeps (undisturbed v b ps) (write_configs env ns)"
  by (induction ns) (auto intro!: keeps_intros simp del: id_apply)

lemma keeps_store_catalog [keeps_intros]: "keeps (undisturbed v b ps) (store_country_catalog env rows)"
  unfolding store_country_catalog_def Let_def
  by (intro keeps_intros keeps_written) (simp add: undisturbed_def nodes_are_def)

lemma keeps_collect_rows [keeps_intros]: "keeps (undisturbed v b ps) (collect_rows env limit ignore black rows acc)"
  by (induction rows arbitrary: acc) (auto intro!: keeps_intros split: sum.splits)

lemma keeps_fetch_attempt [keeps_intros]: "keeps (undisturbed v b ps) (fetch_attempt env country limit ignore black acc)"
  unfolding fetch_attempt_def by (auto intro!: keeps_intros split: sum.splits prod.splits)

lemma keeps_fetch_target [keeps_intros]: "keeps (undisturbed v b ps) (fetch_target env country limit ignore black n st)"
proof (induction n arbitrary: st)
  case (Suc n)
  then show ?case by (cases st) (auto intro!: keeps_intros split: prod.splits)
qed (auto intro!: keeps_intros)

lemma keeps_fetch_targets [keeps_intros]: "keeps (undisturbed v b ps) (fetch_targets env country limit ignore black k n st)"
  by (induction n arbitrary: st) (auto intro!: keeps_intros)

lemma keeps_fetch_candidates [keeps_intros]: "keeps (undisturbed v b ps) (fetch_candidates env country limit ignore)"
  unfolding fetch_candidates_def by (auto intro!: keeps_intros simp del: id_apply split: prod.splits)

lemma keeps_snapshot [keeps_intros]: "keeps (undisturbed v b ps) (country_catalog_snapshot env)"
  unfolding country_catalog_snapshot_def by (auto intro!: keeps_intros split: pyval.splits)

lemma keeps_fetch_country [keeps_intros]: "keeps (undisturbed v b ps) (fetch_country env country explicit)"
  unfolding fetch_country_def by (intro keeps_intros)

section \<open>The scan and its probes\<close>

definition probed_ids :: "(pydict list \<times> pydict list) list \<Rightarrow> string list" where
  "probed_ids ps = concat (map (\<lambda>(batch, results). map node_id batch) ps)"

definition passed_nodes :: "(pydict list \<times> pydict list) list \<Rightarrow> pydict set" where
  "passed_nodes ps = {n. is_available n \<and> (\<exists>batch results. (batch, results) \<in> set ps \<and> n \<in> set results)}"

definition failed_ids :: "(pydict list \<times> pydict list) list \<Rightarrow> string set" where
  "failed_ids ps = set (probed_ids ps) - node_id ` passed_nodes ps"

text \<open>\<open>probe_nodes\<close> answers for the nodes it is given, in their order, and may leave some out.\<close>

definition probe_honest :: "pool_env \<Rightarrow> bool" where
  "probe_honest env = (\<forall>n batch results. pe_probe env n batch = Inr results \<longrightarrow>
     subseq (map node_id results) (map node_id batch))"

lemma subseq_one: "subseq xs [y] \<Longrightarrow> distinct xs \<and> set xs \<subseteq> {y}"
  by (cases xs) (auto split: if_splits dest: list_emb_Nil2)

definition scan_ok :: "pydict list \<Rightarrow> (pydict list \<times> pydict list) list \<Rightarrow> scan \<Rightarrow> bool" where
  "scan_ok start ps sc =
     (sc_count sc = int (length (probed_ids ps)) \<and> sc_tested sc = set (probed_ids ps) \<and> distinct (probed_ids ps)
      \<and> [] \<notin> set (probed_ids ps)
      \<and> (\<forall>n \<in> set (sc_selected sc). n \<in> passed_nodes ps \<or> node_id n \<notin> set (probed_ids ps))
      \<and> node_id ` passed_nodes ps \<subseteq> set (probed_ids ps)
      \<and> sc_passed sc = node_id ` passed_nodes ps \<and> sc_failed sc = failed_ids ps
      \<and> set (sc_selected sc) \<subseteq> set start \<union> passed_nodes ps)"

lemma log_snoc:
  "probed_ids (ps @ [(batch, results)]) = probed_ids ps @ map node_id batch"
  "passed_nodes (ps @ [(batch, results)]) = passed_nodes ps \<union> {n \<in> set results. is_available n}"
  by (auto simp: probed_ids_def passed_nodes_def)

text \<open>A probe of one node adds an entry to the log.\<close>

definition scanned :: "pool_env \<Rightarrow> scan_args \<Rightarrow> rat \<Rightarrow> rat \<Rightarrow> rat \<Rightarrow> pydict list \<Rightarrow> pydict list \<Rightarrow> scan \<Rightarrow> scan" where
  "scanned env a missed marked now batch answers sc =
     (let results = complete_results env node_id missed batch answers;
          (selected, failed) = merge_probe_results (sc_selected sc) results (sa_selection a)
      in \<lparr>sc_selected = selected,
          sc_black = note_failed env node_id marked (now + pe_cooldown env) failed (forget_passed node_id results (sc_black sc)),
          sc_tested = sc_tested sc \<union> node_id ` set batch, sc_count = sc_count sc + int (length batch),
          sc_passed = sc_passed sc \<union> (node_id ` {n \<in> set results. is_available n} - {[]}),
          sc_failed = sc_failed sc \<union> (node_id ` set failed - {[]})\<rparr>)"

lemma unanswered_simps [simp]: "node_id (unanswered env now n) = node_id n" "\<not> is_available (unanswered env now n)"
  by (simp_all add: unanswered_def node_id_def is_available_def)

lemma scanned_ok:
  assumes ok: "scan_ok start ps sc" and n: "node_id n \<noteq> []" "node_id n \<notin> sc_tested sc" "node_id n \<notin> node_id ` set (sc_selected sc)"
    and honest: "distinct (map node_id answers)" "node_id ` set answers \<subseteq> {node_id n}"
  shows "scan_ok start (ps @ [([n], answers)]) (scanned env a missed marked now [n] answers sc)"
proof -
  have cases: "answers = [] \<or> (\<exists>r. answers = [r] \<and> node_id r = node_id n)"
  proof (cases answers)
    case (Cons r rs)
    have "rs = []"
    proof (rule ccontr)
      assume "rs \<noteq> []"
      then obtain q qs where "rs = q # qs" by (cases rs) auto
      with Cons honest show False by auto
    qed
    with Cons honest show ?thesis by auto
  qed simp
  let ?results = "complete_results env node_id missed [n] answers"
  obtain selected failed where m: "merge_probe_results (sc_selected sc) ?results (sa_selection a) = (selected, failed)"
    by (cases "merge_probe_results (sc_selected sc) ?results (sa_selection a)")
  note ms = merge_subset [OF m]
  have av: "{r \<in> set ?results. is_available r} = {r \<in> set answers. is_available r}"
    by (auto simp: complete_results_def)
  have f: "node_id ` set failed - {[]} = (if \<exists>r \<in> set answers. is_available r then {} else {node_id n})"
  proof (cases "answers = []")
    case False
    then obtain r where "answers = [r]" "node_id r = node_id n" using cases by blast
    then show ?thesis using n(1) unfolding ms(2) by (simp add: complete_results_def)
  qed (use n(1) in \<open>simp add: ms(2) complete_results_def\<close>)
  have p: "node_id ` {r \<in> set answers. is_available r} - {[]} = (if \<exists>r \<in> set answers. is_available r then {node_id n} else {})"
    using cases n(1) by auto
  have new: "node_id n \<notin> node_id ` passed_nodes ps" "node_id n \<notin> set (probed_ids ps)"
    using ok n(2) by (auto simp: scan_ok_def)
  have ps': "node_id ` passed_nodes (ps @ [([n], answers)]) = node_id ` passed_nodes ps \<union> (if \<exists>r \<in> set answers. is_available r then {node_id n} else {})"
  proof (cases "answers = []")
    case False
    then obtain r where "answers = [r]" "node_id r = node_id n" using cases by blast
    then show ?thesis by (auto simp: log_snoc image_Un)
  qed (simp add: log_snoc)
  have fl: "failed_ids (ps @ [([n], answers)]) = failed_ids ps \<union> (if \<exists>r \<in> set answers. is_available r then {} else {node_id n})"
    unfolding failed_ids_def ps' using new by (auto simp: log_snoc)
  have sel: "set selected \<subseteq> set (sc_selected sc) \<union> {r \<in> set answers. is_available r}" using ms(1) av by auto
  have eq: "scanned env a missed marked now [n] answers sc = \<lparr>sc_selected = selected,
      sc_black = note_failed env node_id marked (now + pe_cooldown env) failed (forget_passed node_id ?results (sc_black sc)),
      sc_tested = sc_tested sc \<union> {node_id n}, sc_count = sc_count sc + 1,
      sc_passed = sc_passed sc \<union> (if \<exists>r \<in> set answers. is_available r then {node_id n} else {}),
      sc_failed = sc_failed sc \<union> (if \<exists>r \<in> set answers. is_available r then {} else {node_id n})\<rparr>"
    by (simp add: scanned_def m av p f)
  show ?thesis unfolding eq scan_ok_def fl ps' scan.select_convs
  proof (intro conjI)
    show "sc_count sc + 1 = int (length (probed_ids (ps @ [([n], answers)])))"
      "sc_tested sc \<union> {node_id n} = set (probed_ids (ps @ [([n], answers)]))"
      "distinct (probed_ids (ps @ [([n], answers)]))" "[] \<notin> set (probed_ids (ps @ [([n], answers)]))"
      using ok n(1) new(2) by (simp_all add: scan_ok_def log_snoc)
    show "\<forall>m \<in> set selected. m \<in> passed_nodes (ps @ [([n], answers)]) \<or> node_id m \<notin> set (probed_ids (ps @ [([n], answers)]))"
    proof
      fix m assume m: "m \<in> set selected"
      show "m \<in> passed_nodes (ps @ [([n], answers)]) \<or> node_id m \<notin> set (probed_ids (ps @ [([n], answers)]))"
      proof (cases "m \<in> set (sc_selected sc)")
        case True
        with n(3) have "node_id m \<noteq> node_id n" by (metis image_eqI)
        with ok True show ?thesis by (auto simp: scan_ok_def log_snoc)
      qed (use m sel in \<open>auto simp: log_snoc\<close>)
    qed
    show "node_id ` passed_nodes ps \<union> (if \<exists>r \<in> set answers. is_available r then {node_id n} else {})
        \<subseteq> set (probed_ids (ps @ [([n], answers)]))"
      using ok by (auto simp: scan_ok_def log_snoc)
    show "set selected \<subseteq> set start \<union> passed_nodes (ps @ [([n], answers)])"
      using ok sel by (auto simp: scan_ok_def log_snoc)
  qed (use ok in \<open>simp_all add: scan_ok_def\<close>)
qed

section \<open>The scan from start to end\<close>

abbreviation kept :: "pyval \<Rightarrow> bool \<Rightarrow> pool_world \<Rightarrow> bool" where
  "kept v b w \<equiv> \<exists>ps. undisturbed v b ps w"

lemma undisturbed_refresh [simp]:
  "undisturbed v b ps (pw_refresh_update f w) = undisturbed v b ps w"
  by (simp add: undisturbed_def nodes_are_def)

lemma scan_batch_run:
  assumes w: "undisturbed v b ps w"
  shows "(\<exists>e w'. scan_batch env a sc batch w = (Inl e, w') \<and> kept v b w')
    \<or> (\<exists>answers t1 t2 t3 w'. pe_probe env (pw_tick w) batch = Inr answers
        \<and> scan_batch env a sc batch w = (Inr (Scanned (scanned env a t1 t2 t3 batch answers sc)), w')
        \<and> undisturbed v b (ps @ [(batch, answers)]) w')"
proof (cases "pe_probe env (pw_tick w) batch")
  case (Inl e)
  then have "scan_batch env a sc batch w = (Inl e, (ticked w)\<lparr>pw_probes := pw_probes w @ [(batch, [])]\<rparr>)"
    by (simp add: scan_batch_def tbind_def probed_def)
  moreover have "undisturbed v b (ps @ [(batch, [])]) ((ticked w)\<lparr>pw_probes := pw_probes w @ [(batch, [])]\<rparr>)"
    using w by (simp add: undisturbed_def nodes_are_def ticked_def)
  ultimately show ?thesis by blast
next
  case (Inr answers)
  let ?w = "ticked (ticked (ticked ((ticked w)\<lparr>pw_probes := pw_probes w @ [(batch, answers)]\<rparr>)))"
  have u: "undisturbed v b (ps @ [(batch, answers)]) ?w"
    using w by (simp add: undisturbed_def nodes_are_def ticked_def)
  let ?t = "\<lambda>i. pv_clock (pe_view env (pw_tick w + i))"
  have tick: "pw_tick (ticked x) = Suc (pw_tick x)" for x by (simp add: ticked_def)
  have run: "\<exists>f. scan_batch env a sc batch w
      = (Inr (Scanned (scanned env a (?t 1) (?t 2) (?t 3) batch answers sc)), if sa_held a then pw_refresh_update f ?w else ?w)"
    by (cases "merge_probe_results (sc_selected sc) (complete_results env node_id (?t 1) batch answers) (sa_selection a)")
      (simp add: scan_batch_def tbind_def probed_def Inr asked_def answered_def Let_def progress_def set_country_refresh_def
        tput_def tret_def scanned_def tick numeral_2_eq_2 numeral_3_eq_3, intro impI exI, rule refl)
  then obtain w' where "scan_batch env a sc batch w = (Inr (Scanned (scanned env a (?t 1) (?t 2) (?t 3) batch answers sc)), w')"
    "undisturbed v b (ps @ [(batch, answers)]) w'"
    using u undisturbed_refresh by (cases "sa_held a") auto
  with Inr show ?thesis by blast
qed

text \<open>What the scan stops with; a full scan has then probed everyone it could.\<close>

definition all_probed :: "scan_args \<Rightarrow> pydict list \<Rightarrow> (pydict list \<times> pydict list) list \<Rightarrow> bool" where
  "all_probed a start ps = (\<forall>c \<in> set (sa_candidates a). node_id c = [] \<or> node_id c \<in> set (probed_ids ps) \<union> node_id ` set start)"

definition scan_done :: "scan_args \<Rightarrow> pydict list \<Rightarrow> (pydict list \<times> pydict list) list \<Rightarrow> pydict + string \<times> scan \<Rightarrow> bool" where
  "scan_done a start ps r = (case r of
     Inl answer \<Rightarrow> dgetN answer ''state'' = PStr ''failed''
   | Inr (reason, sc) \<Rightarrow> scan_ok start ps sc
      \<and> (sa_explicit a \<and> sa_full a \<and> sa_probes a = int (length (sa_candidates a)) \<longrightarrow> all_probed a start ps))"

definition clock_sane :: "pool_env \<Rightarrow> bool" where
  "clock_sane env = (\<forall>n. 0 \<le> pv_clock (pe_view env n))"

lemma scan_refusal_failed: "dgetN (scan_refusal a code n) ''state'' = PStr ''failed''"
  by (simp add: scan_refusal_def refusal_def)

lemma never_cooling: "0 \<le> now \<Longrightarrow> cooling (\<lambda>_. None) now i = Inr False"
proof -
  have "py_float (PInt 0) = Inr (Fin 0)" by code_simp
  then show "0 \<le> now \<Longrightarrow> ?thesis" by (simp add: cooling_def)
qed

lemma scan_size_one: "scan_open a sc \<Longrightarrow> scan_size a sc = 1"
  by (auto simp: scan_open_def scan_size_def Let_def)

text \<open>The ways a round may end, for a scan that is still open.\<close>

lemma scan_round_run:
  assumes w: "undisturbed v b ps w" and "probe_honest env" "clock_sane env" "scan_open a sc"
  obtains (raised) e w' where "scan_round env a sc w = (Inl e, w')" "kept v b w'"
  | (refused) answer w' where "scan_round env a sc w = (Inr (Refused answer), w')" "undisturbed v b ps w'"
      "dgetN answer ''state'' = PStr ''failed''"
  | (exhausted) w' where "scan_round env a sc w = (Inr Exhausted, w')" "undisturbed v b ps w'"
      "sa_explicit a \<Longrightarrow> \<forall>c \<in> set (sa_candidates a). node_id c = [] \<or> node_id c \<in> sc_tested sc \<union> node_id ` set (sc_selected sc)"
  | (scanned) n answers t1 t2 t3 w' where
      "scan_round env a sc w = (Inr (Scanned (scanned env a t1 t2 t3 [n] answers sc)), w')"
      "undisturbed v b (ps @ [([n], answers)]) w'" "n \<in> set (sa_candidates a)" "node_id n \<noteq> []"
      "node_id n \<notin> sc_tested sc" "node_id n \<notin> node_id ` set (sc_selected sc)"
      "distinct (map node_id answers)" "node_id ` set answers \<subseteq> {node_id n}"
proof -
  let ?black = "if sa_explicit a then (\<lambda>_. None) else black_rows (sc_black sc)"
  let ?now = "pv_clock (pe_view env (pw_tick (ticked w)))"
  let ?queue = "candidate_queue (sa_candidates a) (sc_selected sc) ?black (sc_tested sc) ?now (sa_preferred a)"
  let ?w = "ticked (ticked w)"
  have u: "undisturbed v b ps (ticked w)" "undisturbed v b ps ?w" "undisturbed v b ps (ticked ?w)" using w by simp_all
  note run = scan_round_def tbind_def asked_def answered_def tret_def tlift_def
  show thesis
  proof (cases "pool_maintenance_should_yield (pe_view env (pw_tick w))")
    case True
    then have "scan_round env a sc w = (Inr (Refused (scan_refusal a ''recovery_priority'' (sc_count sc))), ticked w)"
      by (simp add: run)
    with u(1) scan_refusal_failed show thesis by (intro refused)
  next
    case no_yield: False
    show thesis
    proof (cases ?queue)
      case (Inl e)
      then have "scan_round env a sc w = (Inl e, ?w)" using no_yield by (simp add: run)
      with u(2) show thesis by (intro raised) blast+
    next
      case (Inr queue)
      show thesis
      proof (cases "queue = []")
        case True
        with Inr have q: "?queue = Inr []" by simp
        have "scan_round env a sc w = (Inr Exhausted, ?w)" using no_yield q by (simp add: run)
        moreover have "\<forall>c \<in> set (sa_candidates a). node_id c = [] \<or> node_id c \<in> sc_tested sc \<union> node_id ` set (sc_selected sc)"
          if "sa_explicit a"
          using empty_queue [OF q] never_cooling assms(3) that by (auto simp: queueable_def clock_sane_def)
        ultimately show thesis using u(2) by (intro exhausted)
      next
        case False
        show thesis
        proof (cases "pool_probe_allowed (pv_facts (pe_view env (pw_tick ?w)))")
          case allowed: False
          then have "scan_round env a sc w = (Inr (Refused (scan_refusal a ''resource_pressure'' (sc_count sc))), ticked ?w)"
            using no_yield Inr False by (simp add: run)
          with u(3) scan_refusal_failed show thesis by (intro refused)
        next
          case True
          obtain n rest where queue: "queue = n # rest" using False by (cases queue) auto
          have eq: "scan_round env a sc w = scan_batch env a sc [n] (ticked ?w)"
            using no_yield Inr queue True by (simp add: run scan_size_one [OF assms(4)])
          have n: "n \<in> set (sa_candidates a)" "node_id n \<noteq> []" "node_id n \<notin> sc_tested sc" "node_id n \<notin> node_id ` set (sc_selected sc)"
            using queue_members(1) [OF Inr] queue_members(3) [OF Inr, of n] queue by auto
          from scan_batch_run [OF u(3), of env a sc "[n]"] show thesis
          proof (elim disjE exE conjE)
            fix e w' q assume "scan_batch env a sc [n] (ticked ?w) = (Inl e, w')" "undisturbed v b q w'"
            then show thesis by (intro raised) (auto simp: eq)
          next
            fix answers t1 t2 t3 w'
            assume s: "pe_probe env (pw_tick (ticked ?w)) [n] = Inr answers"
              "scan_batch env a sc [n] (ticked ?w) = (Inr (Scanned (scanned env a t1 t2 t3 [n] answers sc)), w')"
              "undisturbed v b (ps @ [([n], answers)]) w'"
            from assms(2) s(1) have h: "distinct (map node_id answers)" "node_id ` set answers \<subseteq> {node_id n}"
              using subseq_one [of "map node_id answers" "node_id n"] unfolding probe_honest_def by fastforce+
            from s(2) have "scan_round env a sc w = (Inr (Scanned (scanned env a t1 t2 t3 [n] answers sc)), w')" by (simp add: eq)
            with s(3) n h show thesis by (intro scanned)
          qed
        qed
      qed
    qed
  qed
qed

lemma scanned_count: "sc_count (scanned env a t1 t2 t3 batch answers sc) = sc_count sc + int (length batch)"
  by (simp add: scanned_def Let_def split: prod.splits)

lemma all_probed_by_count:
  assumes "distinct (probed_ids ps)" "set (probed_ids ps) \<subseteq> node_id ` set (sa_candidates a)"
    "length (sa_candidates a) \<le> length (probed_ids ps)"
  shows "all_probed a start ps"
proof -
  have "card (node_id ` set (sa_candidates a)) \<le> length (sa_candidates a)"
    by (rule order_trans [OF card_image_le card_length]) simp
  also have "\<dots> \<le> card (set (probed_ids ps))" using assms(1,3) by (simp add: distinct_card)
  finally have "set (probed_ids ps) = node_id ` set (sa_candidates a)"
    using assms(2) by (intro card_seteq) auto
  then show ?thesis by (auto simp: all_probed_def)
qed

lemma scan_loop_run:
  assumes honest: "probe_honest env" and sane: "clock_sane env"
  shows "undisturbed v b (p0 @ ps) w \<Longrightarrow> scan_ok start ps sc \<Longrightarrow> set (probed_ids ps) \<subseteq> node_id ` set (sa_candidates a) \<Longrightarrow>
    nat (sa_probes a - sc_count sc) < fuel \<Longrightarrow>
    (case scan_loop env a fuel sc w of
       (Inl e, w') \<Rightarrow> kept v b w'
     | (Inr None, w') \<Rightarrow> False
     | (Inr (Some r), w') \<Rightarrow> \<exists>qs. undisturbed v b (p0 @ qs) w' \<and> scan_done a start qs r)"
proof (induction fuel arbitrary: ps w sc)
  case (Suc fuel)
  note ok = Suc.prems(2)
  show ?case
  proof (cases "scan_open a sc")
    case False
    have "all_probed a start ps" if "sa_full a" "sa_probes a = int (length (sa_candidates a))"
      using that False ok Suc.prems(3) by (intro all_probed_by_count) (auto simp: scan_open_def scan_ok_def)
    with ok have "scan_done a start ps (Inr (start_reason a, sc))" by (simp add: scan_done_def)
    with False Suc.prems(1) show ?thesis by (auto simp: tret_def)
  next
    case True
    from Suc.prems(1) honest sane True show ?thesis
    proof (cases rule: scan_round_run)
      case (raised e w')
      with True show ?thesis by (auto simp: tbind_def)
    next
      case (refused answer w')
      then have "scan_done a start ps (Inl answer)" by (simp add: scan_done_def)
      with refused True show ?thesis by (auto simp: tbind_def tret_def)
    next
      case (exhausted w')
      have "all_probed a start ps" if e: "sa_explicit a"
      proof -
        have "node_id ` set (sc_selected sc) \<subseteq> node_id ` set start \<union> node_id ` passed_nodes ps" "node_id ` passed_nodes ps \<subseteq> set (probed_ids ps)"
          "sc_tested sc = set (probed_ids ps)" using ok by (auto simp: scan_ok_def)
        with exhausted(3) [OF e] show ?thesis unfolding all_probed_def by blast
      qed
      with ok have "scan_done a start ps (Inr (''candidates_exhausted'', sc))" by (simp add: scan_done_def)
      with exhausted True show ?thesis by (auto simp: tbind_def tret_def)
    next
      case (scanned n answers t1 t2 t3 w')
      let ?sc = "scanned env a t1 t2 t3 [n] answers sc" and ?ps = "ps @ [([n], answers)]"
      have "scan_ok start ?ps ?sc" using ok scanned(4-8) by (intro scanned_ok)
      moreover have "set (probed_ids ?ps) \<subseteq> node_id ` set (sa_candidates a)"
        using Suc.prems(3) scanned(3) by (auto simp: log_snoc)
      moreover have "nat (sa_probes a - sc_count ?sc) < fuel"
      proof -
        from True have "sc_count sc < sa_probes a" by (simp add: scan_open_def)
        with Suc.prems(4) show ?thesis by (simp add: scanned_count)
      qed
      ultimately show ?thesis using Suc.IH [of ?ps w' ?sc] scanned(1,2) True by (simp add: tbind_def)
    qed
  qed
qed simp

section \<open>The merged pool\<close>

lemma rebalance_members:
  assumes "rebalance_valid_pool existing refreshed protected manual limit = Inr out"
  shows "int (length out) \<le> max 0 (min 512 limit)" "distinct (map node_id out)"
    "n \<in> set out \<Longrightarrow> n \<in> set existing \<union> set refreshed" "n \<in> set out \<Longrightarrow> node_id n \<noteq> []"
proof -
  have "rebalance_valid_pool existing refreshed (if finite protected then protected else {}) manual limit = Inr out"
    using assms by (cases "finite protected") (simp_all add: rebalance_valid_pool_def)
  from rebalance_well_formed [OF this] have w: "int (length out) \<le> max 0 (min 512 limit)" "distinct (map node_id out)"
    "\<forall>n \<in> set out. node_id n \<noteq> [] \<and> latest (existing @ refreshed) n" by auto
  show "int (length out) \<le> max 0 (min 512 limit)" "distinct (map node_id out)" by (rule w)+
  show "n \<in> set out \<Longrightarrow> n \<in> set existing \<union> set refreshed" using w(3) latest_mem by fastforce
  show "n \<in> set out \<Longrightarrow> node_id n \<noteq> []" using w(3) by blast
qed

definition pool_sound :: "int \<Rightarrow> pydict list \<Rightarrow> (pydict list \<times> pydict list) list \<Rightarrow> pydict list \<Rightarrow> bool" where
  "pool_sound limit before ps pool = (int (length pool) \<le> max 0 (min 512 limit) \<and> distinct (map node_id pool)
     \<and> (\<forall>n \<in> set pool. node_id n \<notin> failed_ids ps \<and> (n \<in> set before \<or> n \<in> passed_nodes ps)))"

lemma merged_pool_sound:
  assumes "merged_pool env a protected existing sc = Inr merged" "scan_ok start ps sc" "set start \<subseteq> set existing"
    "set existing \<subseteq> set before"
  shows "pool_sound (pe_limit env) before ps merged"
proof -
  note m = rebalance_members [OF assms(1) [unfolded merged_pool_def]]
  have "node_id n \<notin> failed_ids ps \<and> (n \<in> set before \<or> n \<in> passed_nodes ps)" if n: "n \<in> set merged" for n
  proof -
    from m(3) [OF n] consider "n \<in> set existing" "node_id n \<notin> failed_ids ps" | "n \<in> set (sc_selected sc)"
      using assms(2) by (auto simp: scan_ok_def)
    then show ?thesis
    proof cases
      case 1
      with assms(4) show ?thesis by auto
    next
      case 2
      with assms(2) have "n \<in> passed_nodes ps \<or> node_id n \<notin> set (probed_ids ps)" "n \<in> set start \<union> passed_nodes ps"
        by (auto simp: scan_ok_def)
      with assms(3,4) show ?thesis by (auto simp: failed_ids_def)
    qed
  qed
  with m(1,2) show ?thesis by (simp add: pool_sound_def)
qed

lemma store_nodes_triple:
  "triple (undisturbed v b ps) (store_nodes env ns) (\<lambda>_. undisturbed (PList (map PDict ns)) b ps) (\<lambda>_. undisturbed v b ps)"
  by (auto simp: triple_def store_nodes_def written_def answered_def tbind_def tput_def traise_def undisturbed_def nodes_are_def ticked_def)

lemma merge_scan_triple:
  fixes env a protected existing sc
  defines "new \<equiv> \<lambda>b ps w. \<exists>merged. merged_pool env a protected existing sc = Inr merged \<and> undisturbed (PList (map PDict merged)) b ps w"
  shows "triple (undisturbed v b ps) (merge_scan env a protected existing catalog official preserved reason sc)
    (\<lambda>d w. (undisturbed v b ps w \<and> dgetN d ''state'' = PStr ''failed'') \<or> (new b ps w \<and> dgetN d ''state'' = PStr ''completed''))
    (\<lambda>_ w. undisturbed v b ps w \<or> new b ps w)"
proof -
  let ?Q = "\<lambda>d w. (undisturbed v b ps w \<and> dgetN d ''state'' = PStr ''failed'') \<or> (new b ps w \<and> dgetN d ''state'' = PStr ''completed'')"
  let ?E = "\<lambda>_ w. undisturbed v b ps w \<or> new b ps w"
  have completed: "dgetN (refresh_result env a x y z r sc m now) ''state'' = PStr ''completed''" for x y z r m now
    by (simp add: refresh_result_def Let_def)
  have tail: "triple (undisturbed (PList (map PDict merged)) b ps)
      (tbind (written env id) (\<lambda>_. tbind (asked env pv_clock) (\<lambda>now.
        let result = refresh_result env a catalog official preserved (stop_reason a sc reason) sc merged now in
        tbind (tlift (maintenance_round metadata)) (\<lambda>rnd.
        tbind (store_pool_metadata env (kept_metadata metadata (manual_ids_of a protected sc) rnd result)) (\<lambda>_.
        tbind (written env id) (\<lambda>_. tret result)))))) ?Q ?E"
    if "merged_pool env a protected existing sc = Inr merged" for merged metadata
    unfolding Let_def
    by (intro triple_keep_bind keeps_intros triple_ret) (auto simp: new_def completed that)
  have body: "triple (undisturbed v b ps)
      (tbind (store_nodes env merged) (\<lambda>_. tbind (written env id) (\<lambda>_. tbind (asked env pv_clock) (\<lambda>now.
        let result = refresh_result env a catalog official preserved (stop_reason a sc reason) sc merged now in
        tbind (tlift (maintenance_round metadata)) (\<lambda>rnd.
        tbind (store_pool_metadata env (kept_metadata metadata (manual_ids_of a protected sc) rnd result)) (\<lambda>_.
        tbind (written env id) (\<lambda>_. tret result))))))) ?Q ?E"
    if "merged_pool env a protected existing sc = Inr merged" for merged metadata
    by (rule triple_bind [OF triple_conseq [OF store_nodes_triple] tail [OF that]]) auto
  show ?thesis
    unfolding merge_scan_def
    by (intro body triple_keep_bind keeps_intros triple_if triple_ret triple_bind_lift) (auto simp: scan_refusal_failed)
qed

section \<open>The refresh as a whole\<close>

definition file_nodes :: "pyval \<Rightarrow> pydict list" where
  "file_nodes v = (case v of PList raw \<Rightarrow> node_dicts raw | _ \<Rightarrow> [])"

definition checked_all :: "pool_env \<Rightarrow> string \<Rightarrow> pydict list \<Rightarrow> (pydict list \<times> pydict list) list \<Rightarrow> bool" where
  "checked_all env country before ps = (\<exists>candidates w1 w2. fetch_candidates env country None True w1 = (Inr candidates, w2)
     \<and> (\<forall>c \<in> set candidates. node_id c \<in> set (probed_ids ps) \<or> (\<exists>n \<in> set before. node_id n = node_id c \<and> available_in country n)))"

definition refreshed_pool ::
  "pool_env \<Rightarrow> string \<Rightarrow> int option \<Rightarrow> int option \<Rightarrow> pyval \<Rightarrow> (pydict list \<times> pydict list) list \<Rightarrow> pydict list \<Rightarrow> bool" where
  "refreshed_pool env country target probes v ps pool =
     (distinct (probed_ids ps) \<and> pool_sound (pe_limit env) (file_nodes v) ps pool
      \<and> (target = None \<and> probes = None \<longrightarrow> checked_all env country (file_nodes v) ps))"

definition replaced :: "pool_env \<Rightarrow> string \<Rightarrow> int option \<Rightarrow> int option \<Rightarrow> pyval \<Rightarrow> bool \<Rightarrow> (pydict list \<times> pydict list) list \<Rightarrow> pool_world \<Rightarrow> bool" where
  "replaced env country target probes v b p0 w = (\<exists>pool ps. undisturbed (PList (map PDict pool)) b (p0 @ ps) w
     \<and> refreshed_pool env country target probes v ps pool)"

definition refresh_ended :: "pool_env \<Rightarrow> string \<Rightarrow> int option \<Rightarrow> int option \<Rightarrow> pyval \<Rightarrow> bool \<Rightarrow> (pydict list \<times> pydict list) list \<Rightarrow> pydict option \<Rightarrow> pool_world \<Rightarrow> bool" where
  "refresh_ended env country target probes v b p0 r w = (\<exists>d. r = Some d
     \<and> ((kept v b w \<and> dgetN d ''state'' = PStr ''failed'')
        \<or> (replaced env country target probes v b p0 w \<and> dgetN d ''state'' = PStr ''completed'')))"

lemma nodes_now_triple:
  "triple (undisturbed v b ps) (nodes_now env) (\<lambda>ns w. undisturbed v b ps w \<and> set ns \<subseteq> set (file_nodes v)) (\<lambda>_. undisturbed v b ps)"
proof (rule triple_conseq [OF triple_conj_keeps [OF _ keeps_nodes_now]])
  show "triple (nodes_are v) (nodes_now env) (\<lambda>ns w. set ns \<subseteq> set (file_nodes v)) (\<lambda>_ _. True)"
    by (auto simp: triple_def nodes_now_def on_store_def read_nodes_def nodes_are_def file_nodes_def err_bind_Inr
        split: sum.splits pyval.splits)
qed (auto simp: undisturbed_def)

lemma fetch_country_triple:
  "triple (undisturbed v b ps) (fetch_country env country explicit)
     (\<lambda>r w. undisturbed v b ps w \<and> (\<forall>c cat. r = Some (c, cat) \<longrightarrow> (\<exists>w1 w2. fetch_candidates env country None explicit w1 = (Inr c, w2))))
     (\<lambda>_. undisturbed v b ps)"
proof (rule triple_conseq [OF triple_conj_keeps [OF _ keeps_fetch_country]])
  show "triple (\<lambda>_. True) (fetch_country env country explicit)
     (\<lambda>r w. \<forall>c cat. r = Some (c, cat) \<longrightarrow> (\<exists>w1 w2. fetch_candidates env country None explicit w1 = (Inr c, w2))) (\<lambda>_ _. True)"
    by (rule tripleI) (auto simp: fetch_country_def tcatch_def tret_def intro!: exI elim!: tbind_InrE split: prod.splits sum.splits)
qed auto

lemma first_scan_ok: "scan_ok selected [] (first_scan selected black)"
  by (auto simp: scan_ok_def first_scan_def probed_ids_def passed_nodes_def failed_ids_def)

lemma scan_loop_triple:
  assumes "probe_honest env" "clock_sane env"
  shows "triple (undisturbed v b p0) (scan_loop env a (Suc (nat (sa_probes a))) (first_scan selected black))
    (\<lambda>r w. \<exists>x qs. r = Some x \<and> undisturbed v b (p0 @ qs) w \<and> scan_done a selected qs x) (\<lambda>_ w. kept v b w)"
proof -
  have p: "probed_ids [] = []" "sc_count (first_scan selected black) = 0" by (simp_all add: probed_ids_def first_scan_def)
  show ?thesis
    using scan_loop_run [OF assms, of v b p0 "[]" _ selected "first_scan selected black" a "Suc (nat (sa_probes a))"] first_scan_ok p
    unfolding triple_def by (fastforce split: prod.splits sum.splits option.splits)
qed

lemma scan_and_merge_triple:
  assumes env: "probe_honest env" "clock_sane env"
    and a: "a = args_of env country target probes held candidates existing protected (int (length selected))"
    and sel: "selected = filter (\<lambda>n. available_in country n \<and> node_id n \<in> protected) existing"
    and ex: "set existing \<subseteq> set (file_nodes v)"
    and fetched: "\<exists>fresh w1 w2. fetch_candidates env country None (target = None \<and> probes = None) w1 = (Inr fresh, w2) \<and> set candidates = set fresh"
  shows "triple (undisturbed v b p0) (scan_and_merge env a protected existing selected catalog official)
    (refresh_ended env country target probes v b p0)
    (\<lambda>_ w. kept v b w \<or> replaced env country target probes v b p0 w)"
proof -
  let ?Q = "refresh_ended env country target probes v b p0"
  let ?E = "\<lambda>_ w. kept v b w \<or> replaced env country target probes v b p0 w"
  have merge: "triple (undisturbed v b (p0 @ qs))
      (tbind (merge_scan env a protected existing catalog official n reason sc) (\<lambda>d. tret (Some d))) ?Q ?E"
    if dn: "scan_done a selected qs (Inr (reason, sc))" for n reason sc qs
  proof -
    from dn have ok: "scan_ok selected qs sc" by (simp add: scan_done_def)
    have "refreshed_pool env country target probes v qs pool" if "merged_pool env a protected existing sc = Inr pool" for pool
    proof -
      have "pool_sound (pe_limit env) (file_nodes v) qs pool"
        using that ok sel ex by (intro merged_pool_sound) auto
      moreover have "distinct (probed_ids qs)" using ok by (simp add: scan_ok_def)
      moreover have "checked_all env country (file_nodes v) qs" if t: "target = None \<and> probes = None"
      proof -
        from fetched t obtain fresh w1 w2 where f: "fetch_candidates env country None True w1 = (Inr fresh, w2)" "set candidates = set fresh"
          by auto
        have "all_probed a selected qs" using dn t by (simp add: scan_done_def a args_of_def)
        then have all: "\<forall>c \<in> set fresh. node_id c = [] \<or> node_id c \<in> set (probed_ids qs) \<union> node_id ` set selected"
          using f(2) by (simp add: all_probed_def a args_of_def)
        have named: "node_id c \<noteq> []" if "c \<in> set fresh" for c
          using fit_candidates_plain(2) [OF fetched_fit [OF f(1)] that] .
        show ?thesis unfolding checked_all_def
        proof (intro exI conjI)
          show "fetch_candidates env country None True w1 = (Inr fresh, w2)" by (rule f(1))
          show "\<forall>c \<in> set fresh. node_id c \<in> set (probed_ids qs) \<or> (\<exists>n \<in> set (file_nodes v). node_id n = node_id c \<and> available_in country n)"
            using all named ex sel by fastforce
        qed
      qed
      ultimately show ?thesis by (simp add: refreshed_pool_def)
    qed
    then show ?thesis
      by (intro triple_bind [OF triple_conseq [OF merge_scan_triple]] triple_ret)
        (auto simp: refresh_ended_def replaced_def)
  qed
  have loop: "triple (undisturbed v b p0) (scan_loop env a (Suc (nat (sa_probes a))) (first_scan selected black))
      (\<lambda>r w. \<exists>x qs. r = Some x \<and> undisturbed v b (p0 @ qs) w \<and> scan_done a selected qs x) ?E" for black
    by (rule triple_conseq [OF scan_loop_triple [OF env]]) auto
  show ?thesis
    unfolding scan_and_merge_def
  proof (rule triple_keep_bind [OF keeps_load_black triple_bind [OF loop]])
    fix r
    show "triple (\<lambda>w. \<exists>x qs. r = Some x \<and> undisturbed v b (p0 @ qs) w \<and> scan_done a selected qs x)
      (case r of None \<Rightarrow> tret None | Some (Inl answer) \<Rightarrow> tret (Some answer)
       | Some (Inr (reason, sc)) \<Rightarrow>
           tbind (merge_scan env a protected existing catalog official (int (length selected)) reason sc) (\<lambda>d. tret (Some d))) ?Q ?E"
    proof (rule tripleI)
      fix w e w'
      assume "\<exists>x qs. r = Some x \<and> undisturbed v b (p0 @ qs) w \<and> scan_done a selected qs x"
        and run: "(case r of None \<Rightarrow> tret None | Some (Inl answer) \<Rightarrow> tret (Some answer)
       | Some (Inr (reason, sc)) \<Rightarrow>
           tbind (merge_scan env a protected existing catalog official (int (length selected)) reason sc) (\<lambda>d. tret (Some d))) w = (Inl e, w')"
      then obtain x qs where "r = Some x" "undisturbed v b (p0 @ qs) w" "scan_done a selected qs x" by blast
      with run triple_Inl [OF merge] show "?E e w'" by (auto simp: tret_def split: sum.splits prod.splits)
    next
      fix w d w'
      assume "\<exists>x qs. r = Some x \<and> undisturbed v b (p0 @ qs) w \<and> scan_done a selected qs x"
        and run: "(case r of None \<Rightarrow> tret None | Some (Inl answer) \<Rightarrow> tret (Some answer)
       | Some (Inr (reason, sc)) \<Rightarrow>
           tbind (merge_scan env a protected existing catalog official (int (length selected)) reason sc) (\<lambda>d. tret (Some d))) w = (Inr d, w')"
      then obtain x qs where x: "r = Some x" "undisturbed v b (p0 @ qs) w" "scan_done a selected qs x" by blast
      show "?Q d w'"
      proof (cases x)
        case (Inl answer)
        with x run show ?thesis by (auto simp: tret_def refresh_ended_def scan_done_def)
      next
        case (Inr p)
        with x run triple_Inr [OF merge] show ?thesis by (cases p) auto
      qed
    qed
  qed auto
qed

lemma upstream_failed_state: "dgetN (upstream_failed country existing now) ''state'' = PStr ''failed''"
  by (simp add: upstream_failed_def refusal_def)

lemma refresh_fetched_triple:
  assumes env: "probe_honest env" "clock_sane env" and ex: "set existing \<subseteq> set (file_nodes v)"
    and f: "\<exists>w1 w2. fetch_candidates env country None (target = None \<and> probes = None) w1 = (Inr fresh, w2)"
  shows "triple (undisturbed v b p0) (refresh_fetched env country target probes held manual existing fresh catalog)
    (refresh_ended env country target probes v b p0)
    (\<lambda>_ w. kept v b w \<or> replaced env country target probes v b p0 w)"
  unfolding refresh_fetched_def
proof (rule triple_bind_lift)
  fix candidates assume "sorted_by scan_key fresh = Inr candidates"
  then have "set candidates = set fresh" using sorted_by_Inr(1) by (metis mset_eq_setD)
  with f have f': "\<exists>fresh w1 w2. fetch_candidates env country None (target = None \<and> probes = None) w1 = (Inr fresh, w2)
      \<and> set candidates = set fresh" by metis
  note tail = scan_and_merge_triple [OF env refl refl ex f']
  let ?E = "\<lambda>(_ :: pyexc) w. kept v b w \<or> replaced env country target probes v b p0 w"
  show "triple (undisturbed v b p0)
     (tbind (tlift (catalog_count catalog)) (\<lambda>total.
     tbind (tlift (official_count country catalog)) (\<lambda>official.
     tbind (if held then set_country_refresh [(''phase'', PStr ''probing''), (''catalogCount'', PInt total),
         (''officialCount'', PInt official), (''countryCandidateCount'', PInt (int (length candidates)))] else tret ()) (\<lambda>_.
     tbind (asked env (refresh_protected manual)) (\<lambda>ids.
     tbind (tlift ids) (\<lambda>protected.
     let selected = filter (\<lambda>n. available_in country n \<and> node_id n \<in> protected) existing in
     scan_and_merge env (args_of env country target probes held candidates existing protected (int (length selected)))
       protected existing selected total official))))))
     (refresh_ended env country target probes v b p0) ?E"
    unfolding Let_def by (intro tail triple_bind_lift triple_keep_bind keeps_intros) auto
qed auto

lemma refresh_held_triple:
  assumes env: "probe_honest env" "clock_sane env"
  shows "triple (undisturbed v b p0) (refresh_held env country target probes held)
    (refresh_ended env country target probes v b p0)
    (\<lambda>_ w. kept v b w \<or> replaced env country target probes v b p0 w)"
proof -
  let ?Q = "refresh_ended env country target probes v b p0"
  let ?E = "\<lambda>(_ :: pyexc) w. kept v b w \<or> replaced env country target probes v b p0 w"
  let ?explicit = "target = None \<and> probes = None"
  have answer: "triple (\<lambda>w. undisturbed v b p0 w \<and> (\<forall>c cat. r = Some (c, cat) \<longrightarrow>
          (\<exists>w1 w2. fetch_candidates env country None ?explicit w1 = (Inr c, w2))))
      (case r of None \<Rightarrow> tbind (asked env pv_clock) (\<lambda>now. tret (Some (upstream_failed country existing now)))
       | Some (fresh, catalog) \<Rightarrow> refresh_fetched env country target probes held manual existing fresh catalog) ?Q ?E"
    if ex: "set existing \<subseteq> set (file_nodes v)" for r existing manual
  proof (cases r)
    case None
    have "triple (undisturbed v b p0) (tbind (asked env pv_clock) (\<lambda>now. tret (Some (upstream_failed country existing now)))) ?Q ?E"
      by (intro triple_keep_bind keeps_intros triple_ret) (auto simp: refresh_ended_def upstream_failed_state)
    with None show ?thesis by (simp add: triple_def)
  next
    case (Some p)
    obtain fresh catalog where p: "p = (fresh, catalog)" by (cases p)
    show ?thesis unfolding Some p
      using refresh_fetched_triple [OF env ex, of country target probes fresh b p0 held manual catalog] by (auto simp: triple_def)
  qed
  have nodes: "triple (undisturbed v b p0) (nodes_now env) (\<lambda>ns w. undisturbed v b p0 w \<and> set ns \<subseteq> set (file_nodes v)) ?E"
    by (rule triple_conseq [OF nodes_now_triple]) auto
  have fetch: "triple (\<lambda>w. undisturbed v b p0 w \<and> C) (fetch_country env country ?explicit)
     (\<lambda>r w. undisturbed v b p0 w \<and> (\<forall>c cat. r = Some (c, cat) \<longrightarrow>
          (\<exists>w1 w2. fetch_candidates env country None ?explicit w1 = (Inr c, w2)))) ?E" for C
    by (rule triple_conseq [OF fetch_country_triple]) auto
  show ?thesis
    unfolding refresh_held_def Let_def
  proof (rule triple_keep_bind [OF keeps_asked triple_bind [OF nodes]])
    fix manual and ns :: "pydict list"
    show "triple (\<lambda>w. undisturbed v b p0 w \<and> set ns \<subseteq> set (file_nodes v))
      (tbind (fetch_country env country ?explicit) (\<lambda>fetched. case fetched of
         None \<Rightarrow> tbind (asked env pv_clock) (\<lambda>now. tret (Some (upstream_failed country (filter (\<lambda>n. node_id n \<notin> manual) ns) now)))
       | Some (fresh, catalog) \<Rightarrow> refresh_fetched env country target probes held manual (filter (\<lambda>n. node_id n \<notin> manual) ns) fresh catalog)) ?Q ?E"
    proof (rule triple_pure [where C = "set ns \<subseteq> set (file_nodes v)"])
      assume "set ns \<subseteq> set (file_nodes v)"
      then have "set (filter (\<lambda>n. node_id n \<notin> manual) ns) \<subseteq> set (file_nodes v)" by auto
      from triple_bind [OF fetch answer [OF this]] show ?thesis .
    qed auto
  qed auto
qed

section \<open>Properties\<close>

lemma refresh_refusals: "dgetN (refusal country code) ''state'' = PStr ''failed''"
  by (simp add: refusal_def)

lemma undisturbed_lock: "undisturbed v b ps w \<Longrightarrow> undisturbed v b' ps (w\<lparr>pw_maintenance := b'\<rparr>)"
  by (simp add: undisturbed_def nodes_are_def)

lemma undisturbed_self: "undisturbed (stored_nodes (pw_store w)) (pw_maintenance w) (pw_probes w) w"
  by (simp add: undisturbed_def nodes_are_def)

text \<open>What a refresh may do to the world.\<close>

definition refresh_effect :: "pool_env \<Rightarrow> string \<Rightarrow> int option \<Rightarrow> int option \<Rightarrow> pool_world \<Rightarrow> pyexc + pydict option \<Rightarrow> pool_world \<Rightarrow> bool" where
  "refresh_effect env country target probes w r w' =
     (r \<noteq> Inr None \<and> pw_maintenance w' = pw_maintenance w
      \<and> ((stored_nodes (pw_store w') = stored_nodes (pw_store w) \<and> (\<forall>d. r = Inr (Some d) \<longrightarrow> dgetN d ''state'' = PStr ''failed''))
        \<or> (\<exists>pool ps. stored_nodes (pw_store w') = PList (map PDict pool) \<and> pw_probes w' = pw_probes w @ ps
            \<and> refreshed_pool env country target probes (stored_nodes (pw_store w)) ps pool
            \<and> (\<forall>d. r = Inr (Some d) \<longrightarrow> dgetN d ''state'' = PStr ''completed''))))"

lemma refresh_held_effect:
  assumes "probe_honest env" "clock_sane env" "refresh_held env country target probes held w = (r, w')"
  shows "refresh_effect env country target probes w r w'"
proof (cases r)
  case (Inl e)
  from triple_Inl [OF refresh_held_triple [OF assms(1,2)] undisturbed_self assms(3) [unfolded Inl]] Inl
  show ?thesis by (auto simp: refresh_effect_def replaced_def undisturbed_def nodes_are_def)
next
  case (Inr d)
  from triple_Inr [OF refresh_held_triple [OF assms(1,2)] undisturbed_self assms(3) [unfolded Inr]] Inr
  show ?thesis by (auto simp: refresh_effect_def refresh_ended_def replaced_def undisturbed_def nodes_are_def)
qed

lemma refresh_effect_lock:
  "refresh_effect env country target probes (w\<lparr>pw_maintenance := True\<rparr>) r w' \<Longrightarrow>
   refresh_effect env country target probes w r (w'\<lparr>pw_maintenance := pw_maintenance w\<rparr>)"
  by (auto simp: refresh_effect_def)

lemma refresh_effect_tick:
  "refresh_effect env country target probes (ticked w) r w' = refresh_effect env country target probes w r w'"
  by (simp add: refresh_effect_def ticked_def)

lemma refresh_effect_failed:
  "dgetN d ''state'' = PStr ''failed'' \<Longrightarrow> refresh_effect env country target probes w (Inr (Some d)) w"
  "dgetN d ''state'' = PStr ''failed'' \<Longrightarrow> refresh_effect env country target probes w (Inr (Some d)) (ticked w)"
  by (simp_all add: refresh_effect_def ticked_def)

text \<open>C7. A refresh of a country is safe and complete. However the downloads, probes, files and
  other threads behave, it ends with an answer or an exception and leaves the maintenance lock as
  it found it. When it answers that it failed, the node file is untouched. When the file was replaced,
  it holds at most the capacity, no node twice, only nodes that it held before or that passed a
  probe of this refresh, and none whose probe failed; nobody was probed twice; and without limits
  every candidate the catalog offers for the country was probed, unless its node is already in
  use there and available.\<close>

theorem refresh_country_nodes_correct:
  assumes "probe_honest env" and "clock_sane env"
    and "refresh_country_nodes env country target probes held w = (r, w')"
  shows "refresh_effect env (py_upper (py_strip country)) target probes w r w'"
proof -
  let ?c = "py_upper (py_strip country)"
  let ?w = "ticked w"
  have tm: "pw_maintenance ?w = pw_maintenance w" by (simp add: ticked_def)
  show ?thesis
  proof (cases "two_letters ?c \<and> pv_background_allowed (pe_view env (pw_tick w)) \<and> (held \<or> \<not> pw_maintenance w)")
    case False
    with assms(3) show ?thesis
      by (auto simp: refresh_country_nodes_def Let_def tbind_def tret_def asked_def answered_def tget_def tm
          intro!: refresh_effect_failed refresh_refusals split: if_splits)
  next
    case go: True
    show ?thesis
    proof (cases held)
      case True
      with go assms(3) have "refresh_held env ?c target probes True ?w = (r, w')"
        by (simp add: refresh_country_nodes_def Let_def tbind_def asked_def answered_def tget_def)
      from refresh_held_effect [OF assms(1,2) this] show ?thesis by (simp add: refresh_effect_tick)
    next
      case False
      obtain r1 w1 where h: "refresh_held env ?c target probes False (?w\<lparr>pw_maintenance := True\<rparr>) = (r1, w1)"
        by (cases "refresh_held env ?c target probes False (?w\<lparr>pw_maintenance := True\<rparr>)")
      have m: "pw_maintenance ?w = False" using go False by (simp add: ticked_def)
      have rw: "r = r1 \<and> w' = w1\<lparr>pw_maintenance := pw_maintenance ?w\<rparr>"
        using go False assms(3) h m
        by (auto simp: refresh_country_nodes_def Let_def tbind_def asked_def answered_def tget_def tput_def tfinally_def ticked_def)
      from refresh_held_effect [OF assms(1,2) h] have "refresh_effect env ?c target probes ?w r1 (w1\<lparr>pw_maintenance := pw_maintenance ?w\<rparr>)"
        by (rule refresh_effect_lock)
      with rw show ?thesis by (simp add: refresh_effect_tick)
    qed
  qed
qed

end
