(* ===== verification/Refresh_Example.thy ===== *)
theory Refresh_Example
  imports Refresh_Safety
begin

text \<open>
  A concrete refresh, evaluated: the main connection's own node was marked unavailable, the catalog
  offers it again and its probe fails.
\<close>

abbreviation demo_env :: pool_env where
  "demo_env \<equiv> quiet_env {} offered_rows"

definition main_node :: pydict where
  "main_node = sample_node quiet_main ''JP'' ''unavailable'' [] 10"

abbreviation demo_start :: pool_world where
  "demo_start \<equiv> quiet_world [main_node]"

definition demo_stats :: "pydict list" where
  "demo_stats = (case err_bind (country_statistics [main_node] 1000 120) (\<lambda>stats.
       err_bind (sum_err candidate_count offered_catalog) (\<lambda>official. catalog_rows demo_env official [] stats offered_catalog)) of
     Inr rows \<Rightarrow> map snd (sort_key fst rows) | Inl e \<Rightarrow> [])"

lemma demo_tick: "pw_tick (ticked w) = Suc (pw_tick w)" "pw_store (ticked w) = pw_store w" "pw_catalog (ticked w) = pw_catalog w"
  "pw_metadata (ticked w) = pw_metadata w" "pw_maintenance (ticked w) = pw_maintenance w" "pw_probes (ticked w) = pw_probes w"
  by (simp_all add: ticked_def)

text \<open>The world stays good for the run: the node file has the one node, nothing failed before.\<close>

definition calm :: "pyval \<Rightarrow> pool_world \<Rightarrow> bool" where
  "calm m w = (pw_store w = pw_store demo_start \<and> pw_metadata w = m)"

lemma calm_tick: "calm m (ticked w) = calm m w"
  by (simp add: calm_def demo_tick)

lemma demo_on_store: "on_store demo_env f w = (case f 1000 True (pw_store w) of Inl e \<Rightarrow> (Inl e, ticked w)
    | Inr (a, st) \<Rightarrow> (Inr a, (ticked w)\<lparr>pw_store := st\<rparr>))"
  by (simp add: on_store_def quiet_env_def quiet_view_def)

lemma calm_black: "calm m w \<Longrightarrow> load_black demo_env w = (Inr [], ticked w)"
  by (cases w) (simp add: load_black_def demo_on_store calm_def quiet_world_def load_blacklist_def ticked_def)

lemma calm_nodes: "calm m w \<Longrightarrow> nodes_now demo_env w = (Inr [main_node], ticked w)"
  by (cases w) (simp add: nodes_now_def demo_on_store calm_def quiet_world_def read_nodes_def load_blacklist_def ticked_def)

lemma calm_fetch:
  assumes "calm m w"
  shows "\<exists>w'. fetch_country demo_env ''JP'' True w = (Inr (Some ([offered_node], demo_stats)), w') \<and> calm (offered_metadata m) w'
    \<and> pw_maintenance w' = pw_maintenance w \<and> pw_probes w' = pw_probes w"
proof -
  have c: "py_upper (py_strip ''JP'') = ''JP''" by code_simp
  have n: "pe_fetch_rows demo_env = 100" "pe_freshness demo_env = 120" "pv_clock quiet_view = 1000"
    by (simp_all add: quiet_env_def quiet_view_def)
  obtain w1 where a: "fetch_attempt demo_env ''JP'' 100 True [] ([], {}) (ticked (ticked w)) = (Inr (([offered_node], {''1.2.3.4''}), True, True), w1)"
    and w1: "calm (offered_metadata m) w1" "pw_catalog w1 = PList (map PDict offered_catalog)" "pw_maintenance w1 = pw_maintenance w" "pw_probes w1 = pw_probes w"
    using quiet_attempt [of True "ticked (ticked w)"] assms by (auto simp: calm_def demo_tick)
  have f: "fetch_candidates demo_env ''JP'' None True w = (Inr [offered_node], ticked w1)"
    using assms by (simp add: fetch_candidates_def tbind_def calm_black calm_nodes calm_tick c n a quiet_written tret_def numeral_3_eq_3)
  have nd: "node_dicts (map PDict ds) = ds" for ds by (induction ds) simp_all
  have av: "filter is_available [main_node] = []" by code_simp
  have "(case err_bind (country_statistics [main_node] 1000 120) (\<lambda>stats.
       err_bind (sum_err candidate_count offered_catalog) (\<lambda>official. catalog_rows demo_env official [] stats offered_catalog)) of
     Inr rows \<Rightarrow> True | Inl e \<Rightarrow> False)" by code_simp
  then obtain rows where rows: "err_bind (country_statistics [main_node] 1000 120) (\<lambda>stats.
       err_bind (sum_err candidate_count offered_catalog) (\<lambda>official. catalog_rows demo_env official [] stats offered_catalog)) = Inr rows"
    by (auto split: sum.splits)
  have s: "country_catalog_snapshot demo_env (ticked w1) = (Inr demo_stats, ticked (ticked (ticked w1)))"
    using w1 by (simp add: calm_tick demo_tick country_catalog_snapshot_def tbind_def tget_def calm_nodes nd quiet_asked n av rows tlift_def tret_def demo_stats_def
        del: filter.simps)
  show ?thesis
    using w1 by (simp add: fetch_country_def tcatch_def tbind_def f s tret_def calm_tick demo_tick)
qed

section \<open>The scan and the merge\<close>

definition demo_args :: scan_args where
  "demo_args = args_of demo_env ''JP'' None None False [offered_node] [main_node] {quiet_main} 0"

definition demo_scan :: scan where
  "demo_scan = scanned demo_env demo_args 1000 1000 1000 [offered_node] [good_or_bad {} offered_node] (first_scan [] [])"

lemma demo_failed: "sc_failed demo_scan = {quiet_main}" "sc_count demo_scan = 1" "sc_selected demo_scan = []"
  by code_simp+

lemma demo_probe: "probed demo_env batch w = (Inr (map (good_or_bad {}) batch),
    (ticked w)\<lparr>pw_probes := pw_probes w @ [(batch, map (good_or_bad {}) batch)]\<rparr>)"
  by (simp add: probed_def quiet_env_def)

lemma demo_scan_batch:
  "scan_batch demo_env demo_args (first_scan [] []) [offered_node] w =
     (Inr (Scanned demo_scan), ticked (ticked (ticked ((ticked w)\<lparr>pw_probes := pw_probes w @ [([offered_node], [good_or_bad {} offered_node])]\<rparr>))))"
proof -
  have c: "pv_clock quiet_view = 1000" by (simp add: quiet_view_def)
  have h: "sa_held demo_args = False" by (simp add: demo_args_def args_of_def)
  show ?thesis
    by (simp add: scan_batch_def tbind_def demo_probe quiet_asked c progress_def h tret_def Let_def demo_scan_def scanned_def
        split: prod.splits)
qed

lemma demo_round:
  "scan_round demo_env demo_args (first_scan [] []) w = scan_batch demo_env demo_args (first_scan [] []) [offered_node] (ticked (ticked (ticked w)))"
proof -
  have y: "pool_maintenance_should_yield quiet_view = False" by code_simp
  have f: "pool_probe_allowed (pv_facts quiet_view) = True" by code_simp
  have e: "sa_explicit demo_args = True" by (simp add: demo_args_def args_of_def)
  have q: "candidate_queue (sa_candidates demo_args) [] (\<lambda>_. None) {} (pv_clock quiet_view) (sa_preferred demo_args) = Inr [offered_node]" by code_simp
  have n: "scan_size demo_args (first_scan [] []) = 1" by code_simp
  show ?thesis
    using q by (simp add: scan_round_def tbind_def quiet_asked y f e tlift_def first_scan_def n [unfolded first_scan_def])
qed

lemma demo_loop:
  "scan_loop demo_env demo_args (Suc (nat (sa_probes demo_args))) (first_scan [] []) w =
     (Inr (Some (Inr (''candidates_exhausted'', demo_scan))), snd (scan_batch demo_env demo_args (first_scan [] []) [offered_node] (ticked (ticked (ticked w)))))"
proof -
  have p: "sa_probes demo_args = 1" "sa_full demo_args" by (simp_all add: demo_args_def args_of_def)
  have o: "scan_open demo_args (first_scan [] [])" "\<not> scan_open demo_args demo_scan"
    using p by (simp_all add: scan_open_def first_scan_def demo_failed)
  have r: "start_reason demo_args = ''candidates_exhausted''" using p by (simp add: start_reason_def)
  have n: "Suc (nat (sa_probes demo_args)) = Suc (Suc 0)" using p by simp
  show ?thesis unfolding n by (simp add: o r tbind_def demo_round demo_scan_batch tret_def)
qed

lemma demo_merged: "merged_pool demo_env demo_args {quiet_main} [main_node] demo_scan = Inr []"
proof -
  have m: "manual_ids_of demo_args {quiet_main} demo_scan = {}" by (simp add: manual_ids_of_def demo_failed)
  have e: "filter (\<lambda>n. node_id n \<notin> {quiet_main}) [main_node] = []" by code_simp
  have r: "rebalance_valid_pool [] [] {quiet_main} {} (pe_limit demo_env) = Inr []" by code_simp
  show ?thesis unfolding merged_pool_def demo_failed e m r ..
qed

lemma demo_merge:
  assumes "calm (offered_metadata PNone) w"
  shows "\<exists>d w'. merge_scan demo_env demo_args {quiet_main} [main_node] n k 0 reason demo_scan w = (Inr d, w')
    \<and> dgetN d ''state'' = PStr ''completed'' \<and> stored_nodes (pw_store w') = PList []"
proof -
  have y: "pool_maintenance_should_yield quiet_view = False" by code_simp
  have h: "sa_held demo_args = False" by (simp add: demo_args_def args_of_def)
  have r: "maintenance_round (load_pool_metadata (offered_metadata PNone)) = Inr 0" by code_simp
  have m: "pw_metadata w = offered_metadata PNone" using assms by (simp add: calm_def)
  have c: "dgetN (refresh_result env a x z p q sc ns now) ''state'' = PStr ''completed''" for env a x z p q sc ns now
    by (simp add: refresh_result_def Let_def)
  show ?thesis
    by (simp add: merge_scan_def tbind_def quiet_asked y progress_def h tret_def tget_def tlift_def demo_merged store_black_def store_nodes_def
        quiet_written store_pool_metadata_def Let_def r m demo_tick c)
qed

text \<open>The refresh completes, and the node of the main connection is gone.\<close>

lemma demo_refresh:
  "\<exists>d w'. refresh_country_nodes demo_env ''jp'' None None False demo_start = (Inr (Some d), w')
    \<and> dgetN d ''state'' = PStr ''completed'' \<and> stored_nodes (pw_store w') = PList []"
proof -
  have c: "py_upper (py_strip ''jp'') = ''JP''" by code_simp
  have l: "two_letters ''JP''" by code_simp
  have al: "pv_background_allowed quiet_view" by code_simp
  have u: "pw_maintenance demo_start = False" by (simp add: quiet_world_def)
  have man: "manual_required_candidate_ids demo_env quiet_view = {}" by code_simp
  have pro: "refresh_protected {} quiet_view = Inr {quiet_main}" by code_simp
  have srt: "sorted_by scan_key [offered_node] = Inr [offered_node]" by code_simp
  have cnt: "catalog_count demo_stats = Inr 2" "official_count ''JP'' demo_stats = Inr 2" by code_simp+
  have sel: "filter (\<lambda>n. available_in ''JP'' n \<and> node_id n \<in> {quiet_main}) [main_node] = []" by code_simp
  let ?w = "ticked (ticked ((ticked demo_start)\<lparr>pw_maintenance := True\<rparr>))"
  have "calm PNone ((ticked demo_start)\<lparr>pw_maintenance := True\<rparr>)" by (simp add: calm_def demo_tick quiet_world_def)
  then have calm: "calm PNone ((ticked demo_start)\<lparr>pw_maintenance := True\<rparr>)" "calm PNone ?w" by (simp_all add: calm_tick)
  obtain w1 where f: "fetch_country demo_env ''JP'' True ?w = (Inr (Some ([offered_node], demo_stats)), w1)"
    and w1: "calm (offered_metadata PNone) w1" using calm_fetch [OF calm(2)] by blast
  have keep: "calm m (snd (scan_batch demo_env demo_args (first_scan [] []) [offered_node] w)) = calm m w" for m w
    by (simp add: demo_scan_batch calm_def demo_tick)
  let ?w2 = "snd (scan_batch demo_env demo_args (first_scan [] []) [offered_node] (ticked (ticked (ticked (ticked (ticked w1))))))"
  have w2: "calm (offered_metadata PNone) ?w2" using w1 by (simp add: keep calm_tick)
  from demo_merge [OF w2] obtain d w3 where m: "merge_scan demo_env demo_args {quiet_main} [main_node] 2 2 0 ''candidates_exhausted'' demo_scan ?w2 = (Inr d, w3)"
    "dgetN d ''state'' = PStr ''completed''" "stored_nodes (pw_store w3) = PList []" by blast
  have s: "scan_and_merge demo_env demo_args {quiet_main} [main_node] [] 2 2 (ticked w1) = (Inr (Some d), w3)"
    using w1 m(1) by (simp add: scan_and_merge_def tbind_def calm_black calm_tick demo_loop tret_def del: scan_loop.simps)
  have g: "refresh_fetched demo_env ''JP'' None None False {} [main_node] [offered_node] demo_stats w1 = (Inr (Some d), w3)"
    using sel by (simp add: refresh_fetched_def tbind_def tlift_def srt cnt quiet_asked pro tret_def Let_def s [unfolded demo_args_def]
        del: filter.simps)
  have h: "refresh_held demo_env ''JP'' None None False ((ticked demo_start)\<lparr>pw_maintenance := True\<rparr>) = (Inr (Some d), w3)"
    using calm by (simp add: refresh_held_def tbind_def quiet_asked man calm_nodes calm_tick f g)
  show ?thesis
    using m(2,3) by (simp add: refresh_country_nodes_def c l al u tbind_def quiet_asked tget_def tput_def tfinally_def h Let_def demo_tick)
qed

section \<open>Properties\<close>

lemma quiet_honest: "probe_honest (quiet_env good rows)" "clock_sane (quiet_env good rows)"
proof -
  have "node_id (good_or_bad good n) = node_id n" for n by (simp add: good_or_bad_def node_id_def)
  then show "probe_honest (quiet_env good rows)" by (simp add: probe_honest_def quiet_env_def o_def)
  show "clock_sane (quiet_env good rows)" by (simp add: clock_sane_def quiet_env_def quiet_view_def)
qed

lemma refresh_country_nodes_correct_witness:
  "\<exists>d w' pool ps. refresh_country_nodes demo_env ''jp'' None None False demo_start = (Inr (Some d), w')
     \<and> stored_nodes (pw_store w') = PList (map PDict pool) \<and> pw_probes w' = ps
     \<and> refreshed_pool demo_env ''JP'' None None (PList [PDict main_node]) ps pool"
proof -
  from demo_refresh obtain d w' where run: "refresh_country_nodes demo_env ''jp'' None None False demo_start = (Inr (Some d), w')"
    and d: "dgetN d ''state'' = PStr ''completed''" by blast
  have c: "py_upper (py_strip ''jp'') = ''JP''" by code_simp
  have w: "stored_nodes (pw_store demo_start) = PList [PDict main_node]" "pw_probes demo_start = []" by (simp_all add: quiet_world_def)
  from refresh_country_nodes_correct [OF quiet_honest run] d show ?thesis
    unfolding c by (intro exI [of _ d] exI [of _ w']) (auto simp: refresh_effect_def run w)
qed

text \<open>C39. A refresh deletes a node that it must not delete. The node of the main connection is
  protected; it is in the node file, marked unavailable, and the catalog offers it. The refresh of
  its country probes it while it is in use, the probe fails, the refresh completes, and the node is
  gone from the node file: failed candidates are taken out without looking at the protected ones.\<close>

theorem refresh_drops_main_node:
  "\<exists>d w'. refresh_country_nodes demo_env ''jp'' None None False demo_start = (Inr (Some d), w')
     \<and> dgetN d ''state'' = PStr ''completed''
     \<and> node_id main_node \<in> protected_set quiet_view {} \<and> main_node \<in> set (file_nodes (stored_nodes (pw_store demo_start)))
     \<and> node_id main_node \<notin> node_id ` set (file_nodes (stored_nodes (pw_store w')))"
proof -
  have p: "node_id main_node \<in> protected_set quiet_view {}" by code_simp
  have f: "main_node \<in> set (file_nodes (stored_nodes (pw_store demo_start)))" by (simp add: quiet_world_def file_nodes_def)
  from demo_refresh obtain d w' where run: "refresh_country_nodes demo_env ''jp'' None None False demo_start = (Inr (Some d), w')"
    "dgetN d ''state'' = PStr ''completed''" and w': "stored_nodes (pw_store w') = PList []" by blast
  have "node_id main_node \<notin> node_id ` set (file_nodes (stored_nodes (pw_store w')))" by (simp add: w' file_nodes_def)
  with run p f show ?thesis by blast
qed

end
