(* ===== verification/Spec2Isabelle.thy ===== *)
theory Spec2Isabelle
  imports Capacity Node_Pool Egress_Repair Assignment_Runs Control_Api
    Proxy_Listener Proxy_Relay Dns_Wire Dns_Cache Proxy_Clients Txn_Claims
    Web_Sessions Node_Select Runtime_Locks Exit_Tunnels Update_Claims
    Refresh_Example
begin

text \<open>
  A verification library for the egress gateway: the Python programs under
  \<^verbatim>\<open>services/aimili-egress\<close> that keep VPN exits running and share them as proxies, and
  the helper \<^verbatim>\<open>scripts/aimili_xui_protocol_transaction.py\<close> that changes the protocol of an
  inbound of the panel. This file gathers the parts and states what is modelled.

  \<^bold>\<open>The program.\<close> The manager (\<^verbatim>\<open>vpngate_manager.py\<close>) collects candidate nodes, probes
  them, keeps a pool of valid ones, and connects the main exit, the regular slots and the
  standbys through OpenVPN. It computes with \<^verbatim>\<open>node_pool.py\<close> (the pool),
  \<^verbatim>\<open>capacity.py\<close> (how many exits and nodes the host can carry),
  \<^verbatim>\<open>recovery_policy.py\<close> (how an exit that failed is retried) and
  \<^verbatim>\<open>egress_repair.py\<close> (the stored state of these repairs). A switch of the main exit is a
  two-phase operation of the coordinator in \<^verbatim>\<open>main_assignment.py\<close>; the gateway drives it and the
  slots through the HTTP interface of \<^verbatim>\<open>control_api.py\<close>. Every exit is shared by a listener of
  \<^verbatim>\<open>proxy_server.py\<close>, which accepts SOCKS5 and HTTP clients, resolves names over the tunnel
  and relays bytes. The protocol helper runs separately: it reads requests from a spool and
  changes one inbound in the panel's database and in the running Xray, or undoes the change.

  \<^bold>\<open>Conventions.\<close> \<^theory_text>\<open>Py_Base\<close> has the Python values (\<open>pyval\<close>; a dictionary is an
  association list in insertion order), the exceptions as values of a sum type, and the parts
  of the standard library the code uses: integers and floats as the code reads them, truth,
  equality, strings, ISO times. A float is \<open>flt\<close>: finite with a rational value, infinite or
  not a number. Each theory names the code it models; definitions have the names of the source.
  What is not under the repository (the operating system, sockets, processes, SQLite, Xray,
  SHA-256, the codecs of the standard library) is an argument of the definitions that use it,
  and can answer anything.

  \<^bold>\<open>The theories.\<close>
  \<^item> \<^theory_text>\<open>Py_Base\<close>, \<^theory_text>\<open>Dedup_Acc\<close>, \<^theory_text>\<open>Json_Text\<close>, \<^theory_text>\<open>Json_Codec\<close>, \<^theory_text>\<open>Bytes\<close>: the shared
    library: values, the collecting loops, canonical JSON text and its injectivity, the JSON
    reader and writer with their round trip, bytes as machine words.
  \<^item> \<^theory_text>\<open>Capacity\<close> (\<^verbatim>\<open>capacity.py\<close>): the limits never exceed the budget of the host, and settings are
    clamped into them.
  \<^item> \<^theory_text>\<open>Node_Pool\<close> (\<^verbatim>\<open>node_pool.py\<close>): merging, rebalancing and queueing keep the pool without
    repetitions, keep protected nodes, cover the countries and lose nothing they should keep.
  \<^item> \<^theory_text>\<open>Recovery_Policy\<close>, \<^theory_text>\<open>Egress_Repair\<close>: settings of a repair, its rounds and its stored state;
    a claimed exit cannot be claimed again, rounds back off and end.
  \<^item> \<^theory_text>\<open>Main_Assignment\<close>, \<^theory_text>\<open>Assignment_Safety\<close>, \<^theory_text>\<open>Assignment_Steps\<close>, \<^theory_text>\<open>Assignment_Runs\<close>
    (\<^verbatim>\<open>main_assignment.py\<close>): every call is a sequence of sections under the lock; the step relation
    interleaves the sections of concurrent calls, restarts and damaged files. The invariant of
    the stored state gives that a switch and a lease exclude each other, that only verified
    switches are committed, and that finished operations stay as they are; a damaged file, and only one, locks
    the coordinator.
  \<^item> \<^theory_text>\<open>Control_Api\<close> (\<^verbatim>\<open>control_api.py\<close>): the manager is called only after authorization, only as the
    request asks and with checked arguments, and a refusal is never reported as a success.
  \<^item> \<^theory_text>\<open>Proxy_Capacity\<close>, \<^theory_text>\<open>Proxy_Listener\<close>, \<^theory_text>\<open>Proxy_Relay\<close>, \<^theory_text>\<open>Proxy_Clients\<close>, \<^theory_text>\<open>Dns_Wire\<close>, \<^theory_text>\<open>Dns_Cache\<close>
    (\<^verbatim>\<open>proxy_server.py\<close>): counting of connections in every interleaving, reserves that hold while
    listeners come and go, the relay
    as a faithful and finite copy, credentials before any connection, DNS responses, and a cache
    that forgets what was looked up before a purge.
  \<^item> \<^theory_text>\<open>Txn_Base\<close>, \<^theory_text>\<open>Txn_Files\<close>, \<^theory_text>\<open>Txn_Source\<close>, \<^theory_text>\<open>Txn_Template\<close>, \<^theory_text>\<open>Txn_Database\<close>, \<^theory_text>\<open>Txn_Protocol\<close>,
    \<^theory_text>\<open>Txn_Spool\<close>: the protocol helper as methods over an explicit world (database, snapshot directory,
    profiles, spool) and an outside that can fail at every step. \<^theory_text>\<open>Txn_Restore\<close>, \<^theory_text>\<open>Txn_Safety\<close>,
    \<^theory_text>\<open>Txn_Modes\<close>, \<^theory_text>\<open>Txn_Recovery\<close>: the invariant of an operation in flight, why a restore gives the
    old database back, why a template is recognised as its mode, what recovery does with each operation, how each request is answered;
    \<^theory_text>\<open>Txn_Example\<close> evaluates a concrete run and \<^theory_text>\<open>Txn_Claims\<close> states the properties.
  \<^item> \<^theory_text>\<open>Ui_Config\<close>, \<^theory_text>\<open>Web_Sessions\<close> (\<^verbatim>\<open>vpngate_manager.py\<close>): the configuration file with its defaults and
    repairs, the managed account, the sessions and endpoints of the web interface; a request is
    answered only with the cookie of a login whose session has not ended. A load fails only for an infinite port.
  \<^item> \<^theory_text>\<open>Refinement\<close>, \<^theory_text>\<open>Slot_Config\<close>, \<^theory_text>\<open>Standby_Config\<close>: the configured slots and their filters refine
    three finite sets; what a configuration of standbys must look like.
  \<^item> \<^theory_text>\<open>Candidates\<close>, \<^theory_text>\<open>Node_Select\<close>: the numeric identity of an exit, reservations of candidates, failed
    candidates, and which node a slot, a repair or a standby may take, with the choice of a slot stated over
    the raw fields of the nodes.
  \<^item> \<^theory_text>\<open>Runtime_Locks\<close>: the four locks around changes of tunnels as steps of interleaved threads; the
    lease is exclusive, each lock is held as often as the calls say, and everything taken is given back.
  \<^item> \<^theory_text>\<open>Exit_Tunnels\<close>: the live tunnels with their devices and tables under dials, promotions and
    tear-downs; they stay apart when cold dials find their device free, which the code leaves to the
    system to refuse.
  \<^item> \<^theory_text>\<open>Pool_World\<close>, \<^theory_text>\<open>Pool_Catalog\<close>, \<^theory_text>\<open>Pool_Replenish\<close>, \<^theory_text>\<open>Country_Refresh\<close>, \<^theory_text>\<open>Refresh_Safety\<close>,
    \<^theory_text>\<open>Refresh_Example\<close>: the maintenance of the pool over an explicit world of files and questions. The
    catalog becomes candidates with distinct addresses; filling the pool ends, for the reason it
    gives, with what was kept or passed a probe of the run; a refresh of a country stores a sound pool or leaves the node file alone, and
    one evaluated run loses a protected node.
  \<^item> \<^theory_text>\<open>Effects\<close>: programs that change a state and may raise, with their triples; the protocol helper and
    the project updater are instances of it.
  \<^item> \<^theory_text>\<open>Update_Manifest\<close>, \<^theory_text>\<open>Update_Install\<close>, \<^theory_text>\<open>Update_Safety\<close>, \<^theory_text>\<open>Update_Rollback\<close>,
    \<^theory_text>\<open>Update_Switch\<close>, \<^theory_text>\<open>Update_Copy\<close>, \<^theory_text>\<open>Update_Runs\<close>, \<^theory_text>\<open>Update_Apply\<close>, \<^theory_text>\<open>Update_Requests\<close>,
    \<^theory_text>\<open>Update_Example\<close>, \<^theory_text>\<open>Update_Claims\<close> (\<^verbatim>\<open>deploy/vps/project_update.py\<close>): versions, signed manifests and
    compatibility; the privileged run with its journal; why no failure and no kill leaves a mixture
    of two versions (rollback, stages of the switch, signed content, whole runs), evaluated on two
    concrete runs, and the one late failure for which it does.

  \<^bold>\<open>Interfaces.\<close> \<open>dedup_acc\<close> and \<open>bounded_dedup\<close> are the contract of the loops that collect
  items without repeating an identity; the pool, the probe queue, the resolver lists and the
  reservations of the manager interpret them. \<open>slot_pool\<close> is the contract between the shared
  connection capacity and the threads of the listeners. \<open>simulation\<close> is refinement of a
  specification by operations, interpreted by the slot configuration, and \<open>guarded_invariant\<close> an
  invariant under operations allowed in the state they start in, interpreted by the tunnels. The transaction helper uses triples
  with one postcondition for each way a method ends, and \<open>keeps\<close> for predicates no step of a
  method can break.

  \<^bold>\<open>Bounds and fuel.\<close> The JSON reader recurses with the length of the text as its bound, and
  \<open>json_loads_dumps\<close> shows that this is enough for every text the writer makes. The relay runs for
  a given number of iterations, and \<open>relay_finishes\<close> gives a number that is enough once both ends
  have stopped. A wait with a deadline is a list of the times the clock shows. The name reader
  of the resolver stops at the end of the packet, so its recursion is on the bytes left. Filling the
  pool takes fuel, and \<open>replenish_correct\<close> says that more than the number of candidate identifiers is
  enough; the scan of a refresh runs with one more than the probes it may make, and
  \<open>refresh_country_nodes_correct\<close> includes that this never runs out.

  \<^bold>\<open>Not modelled.\<close> The installer and the provisioning scripts under \<^verbatim>\<open>deploy\<close>; of the project updater
  the download, the one-time adoption of an old boot loader and the gathering of facts about the
  host, which are answers of the outside of its model. The remote acceptance tests under
  \<^verbatim>\<open>scripts\<close>, the command line of the protocol helper, printing and logging. Of the manager: running
  OpenVPN and curl, the download of the catalog with its CSV parser, the background loops that maintain the
  pool and the standbys (what they call to fill and refresh the pool is modelled), the threads that
  start a refresh, and the pages of the web interface. The Go gateway and its web interface
  are in other languages; they reach this model through the control interface and the spool.
\<close>

end
